(* ===== verification/Go_Base.thy ===== *)
theory Go_Base
  imports Main "HOL-Library.AList" "HOL-Library.Monad_Syntax" "HOL-Library.Multiset"
begin

text \<open>
  Prelude: the pieces of Go that the scheduler's code is written in, and the lemmas every
  component shares.

  \<^item> A run-time panic (index out of range, nil dereference, explicit \<open>panic\<close>) and a
    \<open>klog.Fatal\<close> both stop the process: a function that can stop has an \<open>option\<close> result,
    with \<open>None\<close> for the stop. An \<open>error\<close> return value is an \<open>error option\<close> (\<open>None\<close> is
    \<open>nil\<close>) or the left side of a sum.
  \<^item> \<open>int64\<close>, \<open>int32\<close> and \<open>int\<close> are integers kept in range by \<open>i64\<close> and \<open>i32\<close>, which
    write the two's complement wrap-around out; \<open>quot64\<close> is Go's truncating division.
  \<^item> A Go map is an association list with distinct keys: its order is one of the orders
    in which a \<open>range\<close> loop may visit it.
\<close>

named_theorems gomap_simps \<open>rewrite rules for Go maps\<close>
named_theorems go_arith \<open>facts on wrap-around integers\<close>

type_synonym error = string

text \<open>The verb \<open>%q\<close> of a format string, for strings without characters that need an escape.\<close>

definition go_q :: "string \<Rightarrow> string" where
  "go_q s = CHR 0x22 # s @ [CHR 0x22]"

subsection \<open>Machine integers\<close>

definition i64 :: "int \<Rightarrow> int" where
  "i64 x = (x + 2 ^ 63) mod 2 ^ 64 - 2 ^ 63"

definition i32 :: "int \<Rightarrow> int" where
  "i32 x = (x + 2 ^ 31) mod 2 ^ 32 - 2 ^ 31"

definition in64 :: "int \<Rightarrow> bool" where
  "in64 x \<longleftrightarrow> - (2 ^ 63) \<le> x \<and> x < 2 ^ 63"

definition in32 :: "int \<Rightarrow> bool" where
  "in32 x \<longleftrightarrow> - (2 ^ 31) \<le> x \<and> x < 2 ^ 31"

text \<open>Go's \<open>/\<close> on integers truncates towards zero and panics on a zero divisor.\<close>

definition quot64 :: "int \<Rightarrow> int \<Rightarrow> int option" where
  "quot64 a b = (if b = 0 then None else Some (i64 (sgn a * sgn b * (\<bar>a\<bar> div \<bar>b\<bar>))))"

lemma i64_in64 [simp, intro]: "in64 (i64 x)"
  by (simp add: i64_def in64_def)

lemma i64_id [simp, go_arith]: "in64 x \<Longrightarrow> i64 x = x"
  by (simp add: i64_def in64_def)

lemma i32_in32 [simp, intro]: "in32 (i32 x)"
  by (simp add: i32_def in32_def)

lemma i32_id [simp, go_arith]: "in32 x \<Longrightarrow> i32 x = x"
  by (simp add: i32_def in32_def)

lemma i64_0 [simp]: "i64 0 = 0"
  by (simp add: i64_def)

lemma i64_add_left [simp]: "i64 (i64 a + b) = i64 (a + b)"
proof -
  have "(((a + 2 ^ 63) mod 2 ^ 64 - 2 ^ 63 + b) + 2 ^ 63) mod 2 ^ 64
      = ((a + 2 ^ 63) mod 2 ^ 64 + b) mod (2 ^ 64 :: int)"
    by (rule arg_cong [where f = "\<lambda>x. x mod 2 ^ 64"]) simp
  also have "\<dots> = (a + 2 ^ 63 + b) mod 2 ^ 64"
    by (rule mod_add_left_eq)
  also have "\<dots> = (a + b + 2 ^ 63) mod 2 ^ 64"
    by (simp only: ac_simps)
  finally show ?thesis by (simp only: i64_def)
qed

lemma i64_add_right [simp]: "i64 (b + i64 a) = i64 (b + a)"
  using i64_add_left [of a b] by (simp only: add.commute)

lemma i64_minus [simp]: "i64 (i64 a - b) = i64 (a - b)"
  using i64_add_left [of a "- b"] by simp

lemma i64_minus_right [simp]: "i64 (b - i64 a) = i64 (b - a)"
proof -
  have "(b - ((a + 2 ^ 63) mod 2 ^ 64 - 2 ^ 63) + 2 ^ 63) mod 2 ^ 64
      = (b + 2 ^ 63 + 2 ^ 63 - (a + 2 ^ 63) mod 2 ^ 64) mod (2 ^ 64 :: int)"
    by (rule arg_cong [where f = "\<lambda>x. x mod 2 ^ 64"]) simp
  also have "\<dots> = (b + 2 ^ 63 + 2 ^ 63 - (a + 2 ^ 63)) mod 2 ^ 64"
    by (rule mod_diff_right_eq)
  also have "\<dots> = (b - a + 2 ^ 63) mod 2 ^ 64"
    by (rule arg_cong [where f = "\<lambda>x. x mod 2 ^ 64"]) simp
  finally show ?thesis by (simp only: i64_def)
qed

text \<open>Adding and then subtracting the same amount gives the value back, wrapped or not.\<close>

lemma i64_add_sub: "in64 a \<Longrightarrow> i64 (i64 (a + b) - b) = a"
  by simp

lemma quot64_pos:
  assumes "0 \<le> a" "0 < b" "in64 a"
  shows "quot64 a b = Some (a div b)"
proof -
  have "a div b \<le> a div 1" using assms by (intro zdiv_mono2) auto
  moreover have "0 \<le> a div b" using assms by (simp add: pos_imp_zdiv_nonneg_iff)
  ultimately have "in64 (a div b)" using assms(3) by (simp add: in64_def)
  then show ?thesis using assms by (cases "a = 0") (auto simp: quot64_def)
qed

subsection \<open>Go maps\<close>

type_synonym ('k, 'v) gomap = "('k \<times> 'v) list"

definition gm_get :: "('k, 'v) gomap \<Rightarrow> 'k \<Rightarrow> 'v option" where
  "gm_get m k = map_of m k"

definition gm_put :: "('k, 'v) gomap \<Rightarrow> 'k \<Rightarrow> 'v \<Rightarrow> ('k, 'v) gomap" where
  "gm_put m k v = AList.update k v m"

definition gm_del :: "('k, 'v) gomap \<Rightarrow> 'k \<Rightarrow> ('k, 'v) gomap" where
  "gm_del m k = filter (\<lambda>e. fst e \<noteq> k) m"

text \<open>\<open>_, ok := m[k]\<close>.\<close>

definition gm_has :: "('k, 'v) gomap \<Rightarrow> 'k \<Rightarrow> bool" where
  "gm_has m k = (gm_get m k \<noteq> None)"

definition gm_ok :: "('k, 'v) gomap \<Rightarrow> bool" where
  "gm_ok m \<longleftrightarrow> distinct (map fst m)"

abbreviation gm_keys :: "('k, 'v) gomap \<Rightarrow> 'k list" where
  "gm_keys m \<equiv> map fst m"

lemma gm_get_Nil [simp]: "gm_get [] = Map.empty"
  by (simp add: gm_get_def fun_eq_iff)

lemma gm_get_Cons: "gm_get ((k, v) # m) = (gm_get m)(k \<mapsto> v)"
  by (simp add: gm_get_def fun_eq_iff)

lemma gm_get_put_map [gomap_simps]: "gm_get (gm_put m k v) = (gm_get m)(k \<mapsto> v)"
  by (simp add: gm_get_def gm_put_def update_conv' fun_eq_iff)

lemma gm_get_put [simp]: "gm_get (gm_put m k v) k' = (if k' = k then Some v else gm_get m k')"
  by (simp add: gm_get_put_map)

lemma gm_get_del [simp]: "gm_get (gm_del m k) k' = (if k' = k then None else gm_get m k')"
  unfolding gm_get_def gm_del_def by (induction m) auto

lemma gm_get_del_map [gomap_simps]: "gm_get (gm_del m k) = (gm_get m)(k := None)"
  by (simp add: fun_eq_iff)

lemma gm_ok_Nil [simp]: "gm_ok []"
  by (simp add: gm_ok_def)

lemma gm_ok_put [simp, intro]: "gm_ok m \<Longrightarrow> gm_ok (gm_put m k v)"
  by (simp add: gm_ok_def gm_put_def distinct_update)

lemma gm_ok_del [simp, intro]: "gm_ok m \<Longrightarrow> gm_ok (gm_del m k)"
  unfolding gm_ok_def gm_del_def by (induction m) auto

lemma gm_get_eq_Some: "gm_ok m \<Longrightarrow> gm_get m k = Some v \<longleftrightarrow> (k, v) \<in> set m"
  by (simp add: gm_ok_def gm_get_def)

lemma gm_get_in_set: "gm_get m k = Some v \<Longrightarrow> (k, v) \<in> set m"
  by (simp add: gm_get_def map_of_SomeD)

lemma gm_get_eq_None: "gm_get m k = None \<longleftrightarrow> k \<notin> fst ` set m"
  by (simp add: gm_get_def map_of_eq_None_iff)

lemma dom_gm_get [simp]: "dom (gm_get m) = fst ` set m"
  by (simp add: gm_get_def [abs_def] dom_map_of_conv_image_fst)

lemma gm_keys_put: "gm_keys (gm_put m k v) = (if k \<in> set (gm_keys m) then gm_keys m else gm_keys m @ [k])"
  by (simp add: gm_put_def update_keys)

lemma set_gm_put: "set (gm_put m k v) \<subseteq> insert (k, v) (set m)"
  unfolding gm_put_def by (induction m) auto

lemma set_keys_put [simp]: "fst ` set (gm_put m k v) = insert k (fst ` set m)"
  using arg_cong [OF gm_keys_put [of m k v], of set] by (auto split: if_splits)

lemma set_keys_del [simp]: "fst ` set (gm_del m k) = fst ` set m - {k}"
  by (auto simp: gm_del_def)

lemma gm_len_keys: "gm_ok m \<Longrightarrow> length m = card (fst ` set m)"
  using distinct_card [of "gm_keys m"] by (simp add: gm_ok_def)

lemma gm_len_put: "gm_ok m \<Longrightarrow>
    length (gm_put m k v) = (if gm_get m k = None then Suc (length m) else length m)"
  by (simp only: gm_len_keys gm_ok_put set_keys_put gm_get_eq_None card_insert_if List.finite_set)
    (simp add: insert_absorb)

lemma gm_len_del: "gm_ok m \<Longrightarrow>
    length (gm_del m k) = (if gm_get m k = None then length m else length m - 1)"
  by (simp only: gm_len_keys gm_ok_del set_keys_del gm_get_eq_None card_Diff_singleton_if) simp

lemma gm_del_notin [simp]: "gm_get m k = None \<Longrightarrow> gm_del m k = m"
  by (auto simp: gm_del_def gm_get_eq_None filter_id_conv)

text \<open>The loop that copies a map entry by entry gives the map.\<close>

definition gm_copy :: "('k, 'v) gomap \<Rightarrow> ('k, 'v) gomap" where
  "gm_copy m = fold (\<lambda>e m'. gm_put m' (fst e) (snd e)) m []"

lemma gm_put_new: "k \<notin> fst ` set m \<Longrightarrow> gm_put m k v = m @ [(k, v)]"
  unfolding gm_put_def by (induction m) auto

lemma fold_put_copy: "distinct (map fst (m0 @ m)) \<Longrightarrow>
    fold (\<lambda>e m'. gm_put m' (fst e) (snd e)) m m0 = m0 @ m"
proof (induction m arbitrary: m0)
  case (Cons e m)
  have "gm_put m0 (fst e) (snd e) = m0 @ [e]"
    using Cons.prems by (induction m0) (auto simp: gm_put_def)
  with Cons show ?case by simp
qed simp

lemma gm_copy_id [simp]: "gm_ok m \<Longrightarrow> gm_copy m = m"
  using fold_put_copy [of "[]" m] by (simp add: gm_ok_def gm_copy_def)

lemma set_keys_copy: "fst ` set (gm_copy m) = fst ` set m"
proof -
  have "fst ` set (fold (\<lambda>e m'. gm_put m' (fst e) (snd e)) m m0) = fst ` set m0 \<union> fst ` set m" for m0
    by (induction m arbitrary: m0) auto
  then show ?thesis by (simp add: gm_copy_def)
qed

lemma set_gm_copy: "set (gm_copy m) \<subseteq> set m"
proof -
  have "set (fold (\<lambda>e m'. gm_put m' (fst e) (snd e)) m m0) \<subseteq> set m \<union> set m0" for m0
  proof (induction m arbitrary: m0)
    case (Cons x xs)
    show ?case using Cons [of "gm_put m0 (fst x) (snd x)"] set_gm_put [of m0 "fst x" "snd x"] by auto
  qed simp
  from this [of "[]"] show ?thesis by (simp add: gm_copy_def)
qed

lemma gm_get_rev: "gm_ok m \<Longrightarrow> gm_get (rev m) = gm_get m"
proof
  fix k
  assume "gm_ok m"
  moreover from this have "gm_ok (rev m)" by (simp add: gm_ok_def rev_map [symmetric])
  ultimately show "gm_get (rev m) k = gm_get m k"
    by (metis gm_get_eq_Some not_None_eq set_rev)
qed

subsection \<open>Slices\<close>

text \<open>\<open>append(s[:i], s[i+1:]...)\<close>, and the swap-with-last removal of \<open>NodeInfo.RemovePod\<close>.\<close>

definition del_at :: "nat \<Rightarrow> 'a list \<Rightarrow> 'a list" where
  "del_at i xs = take i xs @ drop (Suc i) xs"

definition swap_remove :: "nat \<Rightarrow> 'a list \<Rightarrow> 'a list" where
  "swap_remove i xs = butlast (xs[i := last xs])"

fun find_index :: "('a \<Rightarrow> bool) \<Rightarrow> 'a list \<Rightarrow> nat option" where
  "find_index P [] = None"
| "find_index P (x # xs) = (if P x then Some 0 else map_option Suc (find_index P xs))"

lemma find_index_None: "find_index P xs = None \<longleftrightarrow> (\<forall>x\<in>set xs. \<not> P x)"
  by (induction xs) auto

lemma find_index_SomeD: "find_index P xs = Some i \<Longrightarrow> i < length xs \<and> P (xs ! i) \<and> (\<forall>j<i. \<not> P (xs ! j))"
proof (induction xs arbitrary: i)
  case (Cons x xs)
  then show ?case
    by (auto split: if_splits simp: nth_Cons less_Suc_eq_0_disj split: nat.splits)
qed simp

lemma find_index_ex: "\<exists>x\<in>set xs. P x \<Longrightarrow> \<exists>i. find_index P xs = Some i"
  by (metis find_index_None not_None_eq)

lemma mset_del_at: "i < length xs \<Longrightarrow> mset (del_at i xs) = mset xs - {#xs ! i#}"
proof -
  assume i: "i < length xs"
  have "mset xs = mset (take i xs @ xs ! i # drop (Suc i) xs)"
    using i by (simp add: id_take_nth_drop [symmetric])
  then show ?thesis by (simp add: del_at_def)
qed

lemma mset_swap_remove: "i < length xs \<Longrightarrow> mset (swap_remove i xs) = mset xs - {#xs ! i#}"
proof -
  assume i: "i < length xs"
  then have ne: "xs \<noteq> []" by auto
  let ?ys = "xs[i := last xs]"
  have last: "last ?ys = last xs"
    using ne i by (cases "i = length xs - 1") (auto simp: last_conv_nth nth_list_update)
  have "mset ?ys = mset (butlast ?ys) + {#last xs#}"
    using ne last by (metis add_mset_add_single append_butlast_last_id list_update_nonempty mset.simps mset_append)
  moreover have "mset ?ys = mset xs - {#xs ! i#} + {#last xs#}"
    using i by (simp add: mset_update)
  ultimately show ?thesis by (simp add: swap_remove_def)
qed

lemma length_del_at [simp]: "i < length xs \<Longrightarrow> length (del_at i xs) = length xs - 1"
  by (simp add: del_at_def)

lemma del_at_remove1: "find_index (\<lambda>y. y = x) xs = Some i \<Longrightarrow> del_at i xs = remove1 x xs"
proof (induction xs arbitrary: i)
  case (Cons y ys)
  then show ?case by (auto simp: del_at_def split: if_splits)
qed simp

lemma sorted_wrt_remove1: "sorted_wrt P xs \<Longrightarrow> sorted_wrt P (remove1 x xs)"
  by (induction xs) (auto dest: notin_set_remove1 in_mono [OF set_remove1_subset, THEN mp])

end
