(* ===== verification/Api_Types.thy ===== *)
theory Api_Types
  imports Go_Base
begin

text \<open>
  The API objects the scheduler works on, and \<^verbatim>\<open>scheduler/util\<close> and \<^verbatim>\<open>scheduler/helper\<close>.

  The objects are those of \<^verbatim>\<open>k8s.io/api/core/v1\<close>, with the fields the scheduler reads; what
  it only carries around is one opaque field (\<open>pod_SpecRest\<close>, \<open>pod_StatusRest\<close>,
  \<open>node_Rest\<close>). A pointer that may be nil is an option. A \<open>resource.Quantity\<close> is known by
  what its methods \<open>Value\<close> and \<open>MilliValue\<close> return. A label selector is what
  \<open>metav1.LabelSelectorAsSelector\<close> makes of it, a function that is a parameter here.
\<close>

subsection \<open>Objects\<close>

record Quantity =
  qty_Value :: int
  qty_MilliValue :: int

type_synonym ResourceList = "(string, Quantity) gomap"
type_synonym labelset = "(string, string) gomap"
type_synonym selector = "labelset \<Rightarrow> bool"

record ContainerPort =
  cp_HostIP :: string
  cp_Protocol :: string
  cp_HostPort :: int

record Container =
  c_Image :: string
  c_Requests :: ResourceList
  c_Limits :: ResourceList
  c_Ports :: "ContainerPort list"

record LabelSelector =
  ls_MatchLabels :: labelset
  ls_MatchExpressions :: "(string \<times> string \<times> string list) list"

record PodAffinityTerm =
  pat_LabelSelector :: "LabelSelector option"
  pat_Namespaces :: "string list"
  pat_TopologyKey :: string

record WeightedPodAffinityTerm =
  wpat_Weight :: int
  wpat_PodAffinityTerm :: PodAffinityTerm

record PodAffinity =
  pa_Required :: "PodAffinityTerm list"
  pa_Preferred :: "WeightedPodAffinityTerm list"

record NodeSelectorRequirement =
  nsr_Key :: string
  nsr_Operator :: string
  nsr_Values :: "string list"

record NodeSelectorTerm =
  nst_MatchExpressions :: "NodeSelectorRequirement list"
  nst_MatchFields :: "NodeSelectorRequirement list"

record PreferredSchedulingTerm =
  pst_Weight :: int
  pst_Preference :: NodeSelectorTerm

record NodeAffinity =
  na_Required :: "NodeSelectorTerm list option"
  na_Preferred :: "PreferredSchedulingTerm list"

record Affinity =
  aff_NodeAffinity :: "NodeAffinity option"
  aff_PodAffinity :: "PodAffinity option"
  aff_PodAntiAffinity :: "PodAffinity option"

record Toleration =
  tol_Key :: string
  tol_Operator :: string
  tol_Value :: string
  tol_Effect :: string

record Taint =
  taint_Key :: string
  taint_Value :: string
  taint_Effect :: string

record Volume =
  vol_Name :: string
  vol_GCEPersistentDisk :: "(string \<times> bool) option"
  vol_AWSElasticBlockStore :: "string option"
  vol_ISCSI :: "(string \<times> bool) option"
  vol_RBD :: "(string list \<times> string \<times> string \<times> bool) option"
  vol_PersistentVolumeClaim :: "string option"
  vol_Ephemeral :: bool

record TopologySpreadConstraint =
  tsc_MaxSkew :: int
  tsc_TopologyKey :: string
  tsc_WhenUnsatisfiable :: string
  tsc_LabelSelector :: "LabelSelector option"

record PodCondition =
  cond_Type :: string
  cond_Status :: string
  cond_Reason :: string
  cond_Message :: string

record Pod =
  pod_Name :: string
  pod_Namespace :: string
  pod_UID :: string
  pod_Labels :: labelset
  pod_ResourceVersion :: string
  pod_Generation :: int
  pod_DeletionTimestamp :: "int option"
  pod_Annotations :: labelset
  pod_ManagedFields :: "string list"
  pod_Finalizers :: "string list"
  pod_NodeName :: string
  pod_SchedulerName :: string
  pod_Containers :: "Container list"
  pod_InitContainers :: "Container list"
  pod_Overhead :: "ResourceList option"
  pod_Affinity :: "Affinity option"
  pod_NodeSelector :: labelset
  pod_Tolerations :: "Toleration list"
  pod_Volumes :: "Volume list"
  pod_TopologySpreadConstraints :: "TopologySpreadConstraint list"
  pod_PreemptionPolicy :: "string option"
  pod_SpecRest :: string
  pod_StartTime :: "int option"
  pod_NominatedNodeName :: string
  pod_Phase :: string
  pod_Conditions :: "PodCondition list"
  pod_StatusRest :: string

record ContainerImage =
  img_Names :: "string list"
  img_SizeBytes :: int

record NodeCondition =
  ncond_Type :: string
  ncond_Status :: string

record Node =
  node_Name :: string
  node_Labels :: "labelset option"
  node_Unschedulable :: bool
  node_Taints :: "Taint list"
  node_Allocatable :: ResourceList
  node_Images :: "ContainerImage list"
  node_Conditions :: "NodeCondition list"
  node_Rest :: string

abbreviation ResourceCPU :: string where "ResourceCPU \<equiv> ''cpu''"
abbreviation ResourceMemory :: string where "ResourceMemory \<equiv> ''memory''"
abbreviation ResourcePods :: string where "ResourcePods \<equiv> ''pods''"
abbreviation ResourceEphemeralStorage :: string where
  "ResourceEphemeralStorage \<equiv> ''ephemeral-storage''"
abbreviation ProtocolTCP :: string where "ProtocolTCP \<equiv> ''TCP''"

text \<open>Objects with zero values in every field, Go's \<open>v1.Pod{}\<close> and \<open>v1.Node{}\<close>.\<close>

definition zero_pod :: Pod where
  "zero_pod = \<lparr>pod_Name = '''', pod_Namespace = '''', pod_UID = '''', pod_Labels = [],
     pod_ResourceVersion = '''', pod_Generation = 0, pod_DeletionTimestamp = None, pod_Annotations = [],
     pod_ManagedFields = [], pod_Finalizers = [], pod_NodeName = '''',
     pod_SchedulerName = '''', pod_Containers = [], pod_InitContainers = [],
     pod_Overhead = None, pod_Affinity = None, pod_NodeSelector = [], pod_Tolerations = [],
     pod_Volumes = [], pod_TopologySpreadConstraints = [], pod_PreemptionPolicy = None, pod_SpecRest = '''', pod_StartTime = None, pod_NominatedNodeName = '''',
     pod_Phase = '''', pod_Conditions = [], pod_StatusRest = ''''\<rparr>"

definition zero_node :: Node where
  "zero_node = \<lparr>node_Name = '''', node_Labels = None, node_Unschedulable = False,
     node_Taints = [], node_Allocatable = [], node_Images = [], node_Conditions = [], node_Rest = ''''\<rparr>"

text \<open>\<open>m[k]\<close> on a map of integers and \<open>rl.Cpu()\<close>, \<open>rl.Memory()\<close>: zero when absent.\<close>

definition gm_get0 :: "('k, int) gomap \<Rightarrow> 'k \<Rightarrow> int" where
  "gm_get0 m k = (case gm_get m k of None \<Rightarrow> 0 | Some v \<Rightarrow> v)"

definition rl_Cpu_MilliValue :: "ResourceList \<Rightarrow> int" where
  "rl_Cpu_MilliValue rl = (case gm_get rl ResourceCPU of None \<Rightarrow> 0 | Some q \<Rightarrow> qty_MilliValue q)"

definition rl_Memory_Value :: "ResourceList \<Rightarrow> int" where
  "rl_Memory_Value rl = (case gm_get rl ResourceMemory of None \<Rightarrow> 0 | Some q \<Rightarrow> qty_Value q)"

subsection \<open>scheduler/helper\<close>

text \<open>Both are constants in this repository.\<close>

definition GetZoneKey :: "Node \<Rightarrow> string" where
  "GetZoneKey node = ''''"

definition GetPodPriority :: "Pod \<Rightarrow> int" where
  "GetPodPriority pod = 0"

subsection \<open>scheduler/util/utils.go\<close>

definition GetPodFullName :: "Pod \<Rightarrow> string" where
  "GetPodFullName pod = pod_Name pod @ ''_'' @ pod_Namespace pod"

definition GetPodStartTime :: "int \<Rightarrow> Pod \<Rightarrow> int" where
  "GetPodStartTime now pod = (case pod_StartTime pod of Some t \<Rightarrow> t | None \<Rightarrow> now)"

text \<open>The clock is read once for each pod, at \<open>now1\<close> and then at \<open>now2\<close>.\<close>

definition MoreImportantPod :: "int \<Rightarrow> int \<Rightarrow> Pod \<Rightarrow> Pod \<Rightarrow> bool" where
  "MoreImportantPod now1 now2 pod1 pod2 =
    (let p1 = GetPodPriority pod1; p2 = GetPodPriority pod2 in
     if p1 \<noteq> p2 then p1 > p2
     else GetPodStartTime now1 pod1 < GetPodStartTime now2 pod2)"

definition GetPodAffinityTerms :: "Affinity option \<Rightarrow> PodAffinityTerm list" where
  "GetPodAffinityTerms affinity =
    (case affinity of None \<Rightarrow> []
     | Some a \<Rightarrow> (case aff_PodAffinity a of None \<Rightarrow> []
        | Some pa \<Rightarrow> if length (pa_Required pa) \<noteq> 0 then pa_Required pa else []))"

definition GetPodAntiAffinityTerms :: "Affinity option \<Rightarrow> PodAffinityTerm list" where
  "GetPodAntiAffinityTerms affinity =
    (case affinity of None \<Rightarrow> []
     | Some a \<Rightarrow> (case aff_PodAntiAffinity a of None \<Rightarrow> []
        | Some pa \<Rightarrow> if length (pa_Required pa) \<noteq> 0 then pa_Required pa else []))"

subsection \<open>scheduler/util/topologies.go\<close>

text \<open>A \<open>sets.String\<close> is a list read as a set.\<close>

definition GetNamespacesFromPodAffinityTerm :: "Pod \<Rightarrow> PodAffinityTerm \<Rightarrow> string list" where
  "GetNamespacesFromPodAffinityTerm pod t =
    (if length (pat_Namespaces t) = 0 then [pod_Namespace pod] else remdups (pat_Namespaces t))"

definition PodMatchesTermsNamespaceAndSelector :: "Pod \<Rightarrow> string list \<Rightarrow> selector \<Rightarrow> bool" where
  "PodMatchesTermsNamespaceAndSelector pod namespaces sel =
    (if \<not> List.member namespaces (pod_Namespace pod) then False
     else if \<not> sel (pod_Labels pod) then False
     else True)"

definition NodesHaveSameTopologyKey :: "Node \<Rightarrow> Node \<Rightarrow> string \<Rightarrow> bool" where
  "NodesHaveSameTopologyKey nodeA nodeB topologyKey =
    (if length topologyKey = 0 then False
     else case (node_Labels nodeA, node_Labels nodeB) of
       (Some la, Some lb) \<Rightarrow>
         (case (gm_get la topologyKey, gm_get lb topologyKey) of
            (Some a, Some b) \<Rightarrow> a = b
          | _ \<Rightarrow> False)
     | _ \<Rightarrow> False)"

subsection \<open>scheduler/util/non\_zero.go\<close>

definition DefaultMilliCPURequest :: int where
  "DefaultMilliCPURequest = 100"

definition DefaultMemoryRequest :: int where
  "DefaultMemoryRequest = 200 * 1024 * 1024"

definition GetNonzeroRequestForResource :: "string \<Rightarrow> ResourceList \<Rightarrow> int" where
  "GetNonzeroRequestForResource resource requests =
    (if resource = ResourceCPU then
       (case gm_get requests ResourceCPU of
          None \<Rightarrow> DefaultMilliCPURequest
        | Some _ \<Rightarrow> rl_Cpu_MilliValue requests)
     else if resource = ResourceMemory then
       (case gm_get requests ResourceMemory of
          None \<Rightarrow> DefaultMemoryRequest
        | Some _ \<Rightarrow> rl_Memory_Value requests)
     else if resource = ResourceEphemeralStorage then
       (case gm_get requests ResourceEphemeralStorage of
          None \<Rightarrow> 0
        | Some quantity \<Rightarrow> qty_Value quantity)
     else
       (case gm_get requests resource of
          None \<Rightarrow> 0
        | Some quantity \<Rightarrow> qty_Value quantity))"

definition GetNonzeroRequests :: "ResourceList \<Rightarrow> int \<times> int" where
  "GetNonzeroRequests requests =
    (GetNonzeroRequestForResource ResourceCPU requests,
     GetNonzeroRequestForResource ResourceMemory requests)"

subsection \<open>Facts\<close>

text \<open>The full name tells pods apart as long as no name has the delimiter in it.\<close>

lemma append_delim_inj:
  "a @ d # b = a' @ d # b' \<Longrightarrow> d \<notin> set a \<Longrightarrow> d \<notin> set a' \<Longrightarrow> a = a' \<and> b = b'"
proof (induction a arbitrary: a')
  case Nil
  then show ?case by (cases a') auto
next
  case (Cons x a)
  then show ?case by (cases a') auto
qed

lemma GetPodFullName_inj:
  "GetPodFullName p = GetPodFullName q \<Longrightarrow> CHR ''_'' \<notin> set (pod_Name p) \<Longrightarrow>
    CHR ''_'' \<notin> set (pod_Name q) \<Longrightarrow> pod_Name p = pod_Name q \<and> pod_Namespace p = pod_Namespace q"
  using append_delim_inj [of "pod_Name p" "CHR ''_''" "pod_Namespace p" "pod_Name q" "pod_Namespace q"]
  by (simp add: GetPodFullName_def)

lemma NodesHaveSameTopologyKey_iff:
  "NodesHaveSameTopologyKey a b k \<longleftrightarrow> k \<noteq> [] \<and>
    (\<exists>la lb v. node_Labels a = Some la \<and> node_Labels b = Some lb \<and>
      gm_get la k = Some v \<and> gm_get lb k = Some v)"
  by (auto simp: NodesHaveSameTopologyKey_def split: option.splits)

end
