(* ===== verification/Node_Info.thy ===== *)
theory Node_Info
  imports Api_Types
begin

text \<open>
  \<^verbatim>\<open>scheduler/framework/v1alpha1/types.go\<close>: what the scheduler knows of one node. Resource
  totals (\<open>Resource\<close>), host ports (\<open>HostPortInfo\<close>), pods with their parsed affinity terms
  (\<open>PodInfo\<close>) and the node itself (\<open>NodeInfo\<close>).

  The package variable \<open>generation\<close> is passed in and returned. It is an unbounded integer here:
  the code counts changes with 64 bits and does not expect the counter to wrap. The parameter
  \<open>asSel\<close> is \<open>metav1.LabelSelectorAsSelector\<close>.
\<close>

subsection \<open>Queued pods and pods with their affinity terms\<close>

record QueuedPodInfo =
  qp_Pod :: Pod
  qp_Timestamp :: int
  qp_Attempts :: int
  qp_InitialAttemptTimestamp :: int

definition QueuedPodInfo_DeepCopy :: "QueuedPodInfo \<Rightarrow> QueuedPodInfo" where
  "QueuedPodInfo_DeepCopy pqi =
    \<lparr>qp_Pod = qp_Pod pqi, qp_Timestamp = qp_Timestamp pqi, qp_Attempts = qp_Attempts pqi,
     qp_InitialAttemptTimestamp = qp_InitialAttemptTimestamp pqi\<rparr>"

record AffinityTerm =
  at_Namespaces :: "string list"
  at_Selector :: selector
  at_TopologyKey :: string

record WeightedAffinityTerm =
  wat_AffinityTerm :: AffinityTerm
  wat_Weight :: int

record PodInfo =
  pi_Pod :: Pod
  pi_RequiredAffinityTerms :: "AffinityTerm list"
  pi_RequiredAntiAffinityTerms :: "AffinityTerm list"
  pi_PreferredAffinityTerms :: "WeightedAffinityTerm list"
  pi_PreferredAntiAffinityTerms :: "WeightedAffinityTerm list"
  pi_ParseError :: "error option"

type_synonym as_selector = "LabelSelector option \<Rightarrow> error + selector"

definition newAffinityTerm :: "as_selector \<Rightarrow> Pod \<Rightarrow> PodAffinityTerm \<Rightarrow> error + AffinityTerm" where
  "newAffinityTerm asSel pod t =
    (case asSel (pat_LabelSelector t) of
       Inl err \<Rightarrow> Inl err
     | Inr sel \<Rightarrow> Inr \<lparr>at_Namespaces = GetNamespacesFromPodAffinityTerm pod t,
         at_Selector = sel, at_TopologyKey = pat_TopologyKey t\<rparr>)"

fun getAffinityTerms :: "as_selector \<Rightarrow> Pod \<Rightarrow> PodAffinityTerm list \<Rightarrow> error + AffinityTerm list" where
  "getAffinityTerms asSel pod [] = Inr []"
| "getAffinityTerms asSel pod (t # ts) =
    (case newAffinityTerm asSel pod t of
       Inl err \<Rightarrow> Inl err
     | Inr a \<Rightarrow> (case getAffinityTerms asSel pod ts of
          Inl err \<Rightarrow> Inl err
        | Inr as \<Rightarrow> Inr (a # as)))"

fun getWeightedAffinityTerms ::
    "as_selector \<Rightarrow> Pod \<Rightarrow> WeightedPodAffinityTerm list \<Rightarrow> error + WeightedAffinityTerm list" where
  "getWeightedAffinityTerms asSel pod [] = Inr []"
| "getWeightedAffinityTerms asSel pod (t # ts) =
    (case newAffinityTerm asSel pod (wpat_PodAffinityTerm t) of
       Inl err \<Rightarrow> Inl err
     | Inr a \<Rightarrow> (case getWeightedAffinityTerms asSel pod ts of
          Inl err \<Rightarrow> Inl err
        | Inr as \<Rightarrow> Inr (\<lparr>wat_AffinityTerm = a, wat_Weight = wpat_Weight t\<rparr> # as)))"

text \<open>On an error the slice is nil; a later error replaces an earlier one.\<close>

definition terms_of :: "error + 'a list \<Rightarrow> 'a list" where
  "terms_of r = (case r of Inl _ \<Rightarrow> [] | Inr ts \<Rightarrow> ts)"

definition wrap_err :: "string \<Rightarrow> error + 'a \<Rightarrow> error option \<Rightarrow> error option" where
  "wrap_err what r e = (case r of Inl err \<Rightarrow> Some (what @ '': '' @ err) | Inr _ \<Rightarrow> e)"

definition NewPodInfo :: "as_selector \<Rightarrow> Pod \<Rightarrow> PodInfo" where
  "NewPodInfo asSel pod =
    (let preferredAffinityTerms =
           (case pod_Affinity pod of None \<Rightarrow> []
            | Some a \<Rightarrow> (case aff_PodAffinity a of None \<Rightarrow> [] | Some pa \<Rightarrow> pa_Preferred pa));
         preferredAntiAffinityTerms =
           (case pod_Affinity pod of None \<Rightarrow> []
            | Some a \<Rightarrow> (case aff_PodAntiAffinity a of None \<Rightarrow> [] | Some pa \<Rightarrow> pa_Preferred pa));
         ra = getAffinityTerms asSel pod (GetPodAffinityTerms (pod_Affinity pod));
         raa = getAffinityTerms asSel pod (GetPodAntiAffinityTerms (pod_Affinity pod));
         wa = getWeightedAffinityTerms asSel pod preferredAffinityTerms;
         waa = getWeightedAffinityTerms asSel pod preferredAntiAffinityTerms
     in \<lparr>pi_Pod = pod,
         pi_RequiredAffinityTerms = terms_of ra,
         pi_RequiredAntiAffinityTerms = terms_of raa,
         pi_PreferredAffinityTerms = terms_of wa,
         pi_PreferredAntiAffinityTerms = terms_of waa,
         pi_ParseError =
           wrap_err ''preferredAntiAffinityTerms'' waa
             (wrap_err ''preferredAffinityTerms'' wa
               (wrap_err ''requiredAntiAffinityTerms'' raa
                 (wrap_err ''requiredAffinityTerms'' ra None)))\<rparr>)"

subsection \<open>Resources\<close>

record Resource =
  MilliCPU :: int
  Memory :: int
  EphemeralStorage :: int
  AllowedPodNumber :: int
  ScalarResources :: "(string, int) gomap option"

definition zero_Resource :: Resource where
  "zero_Resource = \<lparr>MilliCPU = 0, Memory = 0, EphemeralStorage = 0, AllowedPodNumber = 0,
     ScalarResources = None\<rparr>"

text \<open>Reading and ranging over a nil map is reading an empty one; writing to it is a panic.\<close>

definition nilmap :: "('k, 'v) gomap option \<Rightarrow> ('k, 'v) gomap" where
  "nilmap m = (case m of None \<Rightarrow> [] | Some m' \<Rightarrow> m')"

definition SetScalar :: "Resource \<Rightarrow> string \<Rightarrow> int \<Rightarrow> Resource" where
  "SetScalar r name quantity =
    r\<lparr>ScalarResources := Some (gm_put (nilmap (ScalarResources r)) name quantity)\<rparr>"

definition AddScalar :: "Resource \<Rightarrow> string \<Rightarrow> int \<Rightarrow> Resource" where
  "AddScalar r name quantity =
    SetScalar r name (i64 (gm_get0 (nilmap (ScalarResources r)) name + quantity))"

definition Resource_Add1 :: "string \<times> Quantity \<Rightarrow> Resource \<Rightarrow> Resource" where
  "Resource_Add1 e r =
    (let rName = fst e; rQuant = snd e in
     if rName = ResourceCPU then r\<lparr>MilliCPU := i64 (MilliCPU r + qty_MilliValue rQuant)\<rparr>
     else if rName = ResourceMemory then r\<lparr>Memory := i64 (Memory r + qty_Value rQuant)\<rparr>
     else if rName = ResourcePods then
       r\<lparr>AllowedPodNumber := i64 (AllowedPodNumber r + qty_Value rQuant)\<rparr>
     else if rName = ResourceEphemeralStorage then
       r\<lparr>EphemeralStorage := i64 (EphemeralStorage r + qty_Value rQuant)\<rparr>
     else AddScalar r rName (qty_Value rQuant))"

definition Resource_Add :: "Resource \<Rightarrow> ResourceList \<Rightarrow> Resource" where
  "Resource_Add r rl = fold Resource_Add1 rl r"

definition NewResource :: "ResourceList \<Rightarrow> Resource" where
  "NewResource rl = Resource_Add zero_Resource rl"

text \<open>The parameters are \<open>resource.NewMilliQuantity\<close> and \<open>resource.NewQuantity\<close>.\<close>

definition Resource_ResourceList ::
    "(int \<Rightarrow> Quantity) \<Rightarrow> (int \<Rightarrow> Quantity) \<Rightarrow> Resource \<Rightarrow> ResourceList" where
  "Resource_ResourceList newMilli newQty r =
    fold (\<lambda>e result. gm_put result (fst e) (newQty (snd e))) (nilmap (ScalarResources r))
      [(ResourceCPU, newMilli (MilliCPU r)),
       (ResourceMemory, newQty (Memory r)),
       (ResourcePods, newQty (AllowedPodNumber r)),
       (ResourceEphemeralStorage, newQty (EphemeralStorage r))]"

definition Resource_Clone :: "Resource \<Rightarrow> Resource" where
  "Resource_Clone r =
    \<lparr>MilliCPU = MilliCPU r, Memory = Memory r, EphemeralStorage = EphemeralStorage r,
     AllowedPodNumber = AllowedPodNumber r,
     ScalarResources = (case ScalarResources r of None \<Rightarrow> None
        | Some m \<Rightarrow> Some (gm_copy m))\<rparr>"

definition SetMaxResource1 :: "string \<times> Quantity \<Rightarrow> Resource \<Rightarrow> Resource" where
  "SetMaxResource1 e r =
    (let rName = fst e; rQuantity = snd e in
     if rName = ResourceMemory then
       (if qty_Value rQuantity > Memory r then r\<lparr>Memory := qty_Value rQuantity\<rparr> else r)
     else if rName = ResourceCPU then
       (if qty_MilliValue rQuantity > MilliCPU r then r\<lparr>MilliCPU := qty_MilliValue rQuantity\<rparr> else r)
     else if rName = ResourceEphemeralStorage then
       (if qty_Value rQuantity > EphemeralStorage r
        then r\<lparr>EphemeralStorage := qty_Value rQuantity\<rparr> else r)
     else
       (if qty_Value rQuantity > gm_get0 (nilmap (ScalarResources r)) rName
        then SetScalar r rName (qty_Value rQuantity) else r))"

definition SetMaxResource :: "Resource \<Rightarrow> ResourceList \<Rightarrow> Resource" where
  "SetMaxResource r rl = fold SetMaxResource1 rl r"

subsection \<open>The resources a pod asks for\<close>

definition add_container :: "Container \<Rightarrow> Resource \<times> int \<times> int \<Rightarrow> Resource \<times> int \<times> int" where
  "add_container c s =
    (case s of (res, non0CPU, non0Mem) \<Rightarrow>
       case GetNonzeroRequests (c_Requests c) of (cpu, mem) \<Rightarrow>
         (Resource_Add res (c_Requests c), i64 (non0CPU + cpu), i64 (non0Mem + mem)))"

definition max_container :: "Container \<Rightarrow> Resource \<times> int \<times> int \<Rightarrow> Resource \<times> int \<times> int" where
  "max_container ic s =
    (case s of (res, non0CPU, non0Mem) \<Rightarrow>
       case GetNonzeroRequests (c_Requests ic) of (cpu, mem) \<Rightarrow>
         (SetMaxResource res (c_Requests ic),
          if non0CPU < cpu then cpu else non0CPU,
          if non0Mem < mem then mem else non0Mem))"

definition calculateResource :: "Pod \<Rightarrow> Resource \<times> int \<times> int" where
  "calculateResource pod =
    (let s1 = fold add_container (pod_Containers pod) (zero_Resource, 0, 0);
         s2 = fold max_container (pod_InitContainers pod) s1
     in case pod_Overhead pod of
          None \<Rightarrow> s2
        | Some overhead \<Rightarrow>
            (case s2 of (res, non0CPU, non0Mem) \<Rightarrow>
              (Resource_Add res overhead,
               (case gm_get overhead ResourceCPU of None \<Rightarrow> non0CPU
                | Some _ \<Rightarrow> i64 (non0CPU + rl_Cpu_MilliValue overhead)),
               (case gm_get overhead ResourceMemory of None \<Rightarrow> non0Mem
                | Some _ \<Rightarrow> i64 (non0Mem + rl_Memory_Value overhead)))))"

subsection \<open>Host ports\<close>

record ProtocolPort =
  pp_Protocol :: string
  pp_Port :: int

type_synonym HostPortInfo = "(string, (ProtocolPort, unit) gomap) gomap"

definition DefaultBindAllHostIP :: string where
  "DefaultBindAllHostIP = ''0.0.0.0''"

definition NewProtocolPort :: "string \<Rightarrow> int \<Rightarrow> ProtocolPort" where
  "NewProtocolPort protocol port =
    \<lparr>pp_Protocol = (if length protocol = 0 then ProtocolTCP else protocol), pp_Port = port\<rparr>"

definition sanitize :: "string \<Rightarrow> string \<Rightarrow> string \<times> string" where
  "sanitize ip protocol =
    (if length ip = 0 then DefaultBindAllHostIP else ip,
     if length protocol = 0 then ProtocolTCP else protocol)"

definition HostPortInfo_Add :: "HostPortInfo \<Rightarrow> string \<Rightarrow> string \<Rightarrow> int \<Rightarrow> HostPortInfo" where
  "HostPortInfo_Add h ip0 protocol0 port =
    (if port \<le> 0 then h
     else case sanitize ip0 protocol0 of (ip, protocol) \<Rightarrow>
       let pp = NewProtocolPort protocol port in
       (case gm_get h ip of
          None \<Rightarrow> gm_put h ip [(pp, ())]
        | Some m \<Rightarrow> gm_put h ip (gm_put m pp ())))"

definition HostPortInfo_Remove :: "HostPortInfo \<Rightarrow> string \<Rightarrow> string \<Rightarrow> int \<Rightarrow> HostPortInfo" where
  "HostPortInfo_Remove h ip0 protocol0 port =
    (if port \<le> 0 then h
     else case sanitize ip0 protocol0 of (ip, protocol) \<Rightarrow>
       let pp = NewProtocolPort protocol port in
       (case gm_get h ip of
          None \<Rightarrow> h
        | Some m \<Rightarrow>
            let m' = gm_del m pp; h' = gm_put h ip m' in
            if length m' = 0 then gm_del h' ip else h'))"

definition HostPortInfo_Len :: "HostPortInfo \<Rightarrow> nat" where
  "HostPortInfo_Len h = fold (\<lambda>e len. len + length (snd e)) h 0"

definition CheckConflict :: "HostPortInfo \<Rightarrow> string \<Rightarrow> string \<Rightarrow> int \<Rightarrow> bool" where
  "CheckConflict h ip0 protocol0 port =
    (if port \<le> 0 then False
     else case sanitize ip0 protocol0 of (ip, protocol) \<Rightarrow>
       let pp = NewProtocolPort protocol port in
       if ip = DefaultBindAllHostIP then
         list_ex (\<lambda>e. gm_has (snd e) pp) h
       else
         list_ex (\<lambda>key. case gm_get h key of None \<Rightarrow> False | Some m \<Rightarrow> gm_has m pp)
           [DefaultBindAllHostIP, ip])"

subsection \<open>Node information\<close>

record ImageStateSummary =
  iss_Size :: int
  iss_NumNodes :: int

record nodeTransientInfo =
  AllocatableVolumesCount :: int
  RequestedVolumes :: int

definition initializeNodeTransientInfo :: nodeTransientInfo where
  "initializeNodeTransientInfo = \<lparr>AllocatableVolumesCount = 0, RequestedVolumes = 0\<rparr>"

record TransientSchedulerInfo =
  TransNodeInfo :: nodeTransientInfo

definition NewTransientSchedulerInfo :: TransientSchedulerInfo where
  "NewTransientSchedulerInfo = \<lparr>TransNodeInfo = initializeNodeTransientInfo\<rparr>"

definition ResetTransientSchedulerInfo :: "TransientSchedulerInfo \<Rightarrow> TransientSchedulerInfo" where
  "ResetTransientSchedulerInfo t =
    t\<lparr>TransNodeInfo := (TransNodeInfo t)\<lparr>AllocatableVolumesCount := 0, RequestedVolumes := 0\<rparr>\<rparr>"

record NodeInfo =
  ni_node :: "Node option"
  ni_Pods :: "PodInfo list"
  ni_PodsWithAffinity :: "PodInfo list"
  ni_UsedPorts :: HostPortInfo
  ni_Requested :: Resource
  ni_NonZeroRequested :: Resource
  ni_Allocatable :: Resource
  ni_ImageStates :: "(string, ImageStateSummary) gomap"
  ni_TransientInfo :: TransientSchedulerInfo
  ni_Generation :: int

definition nextGeneration :: "int \<Rightarrow> int" where
  "nextGeneration g = g + 1"

definition GetPodKey :: "Pod \<Rightarrow> error + string" where
  "GetPodKey pod =
    (if length (pod_UID pod) = 0 then Inl ''Cannot get cache key for pod with empty UID''
     else Inr (pod_UID pod))"

definition updateUsedPorts :: "HostPortInfo \<Rightarrow> Pod \<Rightarrow> bool \<Rightarrow> HostPortInfo" where
  "updateUsedPorts ports pod add =
    fold (\<lambda>container. fold (\<lambda>podPort h.
        if add then HostPortInfo_Add h (cp_HostIP podPort) (cp_Protocol podPort) (cp_HostPort podPort)
        else HostPortInfo_Remove h (cp_HostIP podPort) (cp_Protocol podPort) (cp_HostPort podPort))
      (c_Ports container)) (pod_Containers pod) ports"

text \<open>
  The loops over \<open>res.ScalarResources\<close> in \<open>AddPod\<close> and \<open>RemovePod\<close>: the map is made before it is
  written to when there is something to write.
\<close>

definition accScalars :: "(int \<Rightarrow> int \<Rightarrow> int) \<Rightarrow> (string, int) gomap option \<Rightarrow>
    (string, int) gomap option \<Rightarrow> (string, int) gomap option" where
  "accScalars f res m =
    (let m0 = (if m = None \<and> length (nilmap res) > 0 then Some [] else m) in
     case m0 of
       None \<Rightarrow> None
     | Some m1 \<Rightarrow> Some (fold (\<lambda>e m'. gm_put m' (fst e) (i64 (f (gm_get0 m' (fst e)) (snd e))))
         (nilmap res) m1))"

definition has_affinity :: "Pod \<Rightarrow> bool" where
  "has_affinity pod =
    (case pod_Affinity pod of None \<Rightarrow> False
     | Some a \<Rightarrow> aff_PodAffinity a \<noteq> None \<or> aff_PodAntiAffinity a \<noteq> None)"

definition NodeInfo_AddPod :: "as_selector \<Rightarrow> int \<Rightarrow> NodeInfo \<Rightarrow> Pod \<Rightarrow> NodeInfo \<times> int" where
  "NodeInfo_AddPod asSel gen n pod =
    (let podInfo = NewPodInfo asSel pod in
     case calculateResource pod of (res, non0CPU, non0Mem) \<Rightarrow>
     let g = nextGeneration gen;
         rq = ni_Requested n; nz = ni_NonZeroRequested n
     in (n\<lparr>ni_Requested := rq\<lparr>MilliCPU := i64 (MilliCPU rq + MilliCPU res),
             Memory := i64 (Memory rq + Memory res),
             EphemeralStorage := i64 (EphemeralStorage rq + EphemeralStorage res),
             ScalarResources := accScalars (+) (ScalarResources res) (ScalarResources rq)\<rparr>,
           ni_NonZeroRequested := nz\<lparr>MilliCPU := i64 (MilliCPU nz + non0CPU),
             Memory := i64 (Memory nz + non0Mem)\<rparr>,
           ni_Pods := ni_Pods n @ [podInfo],
           ni_PodsWithAffinity := ni_PodsWithAffinity n @ (if has_affinity pod then [podInfo] else []),
           ni_UsedPorts := updateUsedPorts (ni_UsedPorts n) (pi_Pod podInfo) True,
           ni_Generation := g\<rparr>, g))"

text \<open>An empty list stands for both nil and an empty slice, so \<open>resetSlicesIfEmpty\<close> leaves it as it is.\<close>

definition resetSlicesIfEmpty :: "NodeInfo \<Rightarrow> NodeInfo" where
  "resetSlicesIfEmpty n =
    n\<lparr>ni_PodsWithAffinity := (if length (ni_PodsWithAffinity n) = 0 then [] else ni_PodsWithAffinity n),
      ni_Pods := (if length (ni_Pods n) = 0 then [] else ni_Pods n)\<rparr>"

definition same_key :: "string \<Rightarrow> PodInfo \<Rightarrow> bool" where
  "same_key k1 p = (case GetPodKey (pi_Pod p) of Inl _ \<Rightarrow> False | Inr k2 \<Rightarrow> k1 = k2)"

definition NodeInfo_RemovePod :: "int \<Rightarrow> NodeInfo \<Rightarrow> Pod \<Rightarrow> (NodeInfo \<times> int \<times> error option) option" where
  "NodeInfo_RemovePod gen n pod =
    (case GetPodKey pod of
       Inl err \<Rightarrow> Some (n, gen, Some err)
     | Inr k1 \<Rightarrow>
       let n1 = (case find_index (same_key k1) (ni_PodsWithAffinity n) of
                   None \<Rightarrow> n
                 | Some i \<Rightarrow> n\<lparr>ni_PodsWithAffinity := swap_remove i (ni_PodsWithAffinity n)\<rparr>)
       in case find_index (same_key k1) (ni_Pods n1) of
            None \<Rightarrow>
              (case ni_node n1 of
                 None \<Rightarrow> None
               | Some node \<Rightarrow> Some (n1, gen, Some (''no corresponding pod '' @ pod_Name pod @
                   '' in pods of node '' @ node_Name node)))
          | Some i \<Rightarrow>
              (case calculateResource pod of (res, non0CPU, non0Mem) \<Rightarrow>
               let g = nextGeneration gen; rq = ni_Requested n1; nz = ni_NonZeroRequested n1
               in Some (resetSlicesIfEmpty
                   (n1\<lparr>ni_Pods := swap_remove i (ni_Pods n1),
                       ni_Requested := rq\<lparr>MilliCPU := i64 (MilliCPU rq - MilliCPU res),
                         Memory := i64 (Memory rq - Memory res),
                         EphemeralStorage := i64 (EphemeralStorage rq - EphemeralStorage res),
                         ScalarResources := accScalars (-) (ScalarResources res) (ScalarResources rq)\<rparr>,
                       ni_NonZeroRequested := nz\<lparr>MilliCPU := i64 (MilliCPU nz - non0CPU),
                         Memory := i64 (Memory nz - non0Mem)\<rparr>,
                       ni_UsedPorts := updateUsedPorts (ni_UsedPorts n1) pod False,
                       ni_Generation := g\<rparr>), g, None)))"

definition NewNodeInfo :: "as_selector \<Rightarrow> int \<Rightarrow> Pod list \<Rightarrow> NodeInfo \<times> int" where
  "NewNodeInfo asSel gen pods =
    fold (\<lambda>pod s. case s of (ni, g) \<Rightarrow> NodeInfo_AddPod asSel g ni pod) pods
      (\<lparr>ni_node = None, ni_Pods = [], ni_PodsWithAffinity = [], ni_UsedPorts = [],
        ni_Requested = zero_Resource, ni_NonZeroRequested = zero_Resource,
        ni_Allocatable = zero_Resource, ni_ImageStates = [],
        ni_TransientInfo = NewTransientSchedulerInfo, ni_Generation = nextGeneration gen\<rparr>,
       nextGeneration gen)"

definition NodeInfo_Clone :: "NodeInfo \<Rightarrow> NodeInfo" where
  "NodeInfo_Clone n =
    \<lparr>ni_node = ni_node n,
     ni_Pods = (if length (ni_Pods n) > 0 then ni_Pods n else []),
     ni_PodsWithAffinity = (if length (ni_PodsWithAffinity n) > 0 then ni_PodsWithAffinity n else []),
     ni_UsedPorts = (if length (ni_UsedPorts n) > 0 then
        fold (\<lambda>e ports. gm_put ports (fst e) (gm_copy (snd e))) (ni_UsedPorts n) [] else []),
     ni_Requested = Resource_Clone (ni_Requested n),
     ni_NonZeroRequested = Resource_Clone (ni_NonZeroRequested n),
     ni_Allocatable = Resource_Clone (ni_Allocatable n),
     ni_ImageStates = ni_ImageStates n,
     ni_TransientInfo = ni_TransientInfo n,
     ni_Generation = ni_Generation n\<rparr>"

definition SetNode :: "int \<Rightarrow> NodeInfo \<Rightarrow> Node \<Rightarrow> NodeInfo \<times> int" where
  "SetNode gen n node =
    (n\<lparr>ni_node := Some node, ni_Allocatable := NewResource (node_Allocatable node),
       ni_TransientInfo := NewTransientSchedulerInfo, ni_Generation := nextGeneration gen\<rparr>,
     nextGeneration gen)"

definition NodeInfo_RemoveNode :: "int \<Rightarrow> NodeInfo \<Rightarrow> NodeInfo \<times> int" where
  "NodeInfo_RemoveNode gen n =
    (n\<lparr>ni_node := None, ni_Generation := nextGeneration gen\<rparr>, nextGeneration gen)"

text \<open>In the inner loop the key error of a pod of the node is dropped: its key is then empty.\<close>

definition FilterOutPods :: "NodeInfo \<Rightarrow> Pod list \<Rightarrow> Pod list" where
  "FilterOutPods n pods =
    (case ni_node n of
       None \<Rightarrow> pods
     | Some node \<Rightarrow>
         filter (\<lambda>p. pod_NodeName p \<noteq> node_Name node \<or>
           (case GetPodKey p of
              Inl _ \<Rightarrow> False
            | Inr podKey \<Rightarrow> list_ex (\<lambda>np.
                (case GetPodKey (pi_Pod np) of Inl _ \<Rightarrow> '''' | Inr k \<Rightarrow> k) = podKey) (ni_Pods n))) pods)"

subsection \<open>Copies\<close>

definition scalars_ok :: "Resource \<Rightarrow> bool" where
  "scalars_ok r \<longleftrightarrow> gm_ok (nilmap (ScalarResources r))"

lemma Resource_Clone_id [simp]: "scalars_ok r \<Longrightarrow> Resource_Clone r = r"
  by (cases r) (auto simp: Resource_Clone_def scalars_ok_def nilmap_def split: option.splits)

definition ports_ok :: "HostPortInfo \<Rightarrow> bool" where
  "ports_ok h \<longleftrightarrow> gm_ok h \<and> (\<forall>ip m. gm_get h ip = Some m \<longrightarrow> gm_ok m \<and> m \<noteq> [])"

lemma ports_copy:
  assumes "ports_ok h"
  shows "fold (\<lambda>e ports. gm_put ports (fst e) (gm_copy (snd e))) h [] = h"
proof -
  have "fold (\<lambda>e ports. gm_put ports (fst e) (gm_copy (snd e))) h [] =
      fold (\<lambda>e ports. gm_put ports (fst e) (snd e)) h []"
    using assms by (intro fold_cong) (auto simp: ports_ok_def gm_get_eq_Some)
  with gm_copy_id [of h] assms show ?thesis by (simp add: gm_copy_def ports_ok_def)
qed

lemma NodeInfo_Clone_id:
  "scalars_ok (ni_Requested n) \<Longrightarrow> scalars_ok (ni_NonZeroRequested n) \<Longrightarrow>
    scalars_ok (ni_Allocatable n) \<Longrightarrow> ports_ok (ni_UsedPorts n) \<Longrightarrow> NodeInfo_Clone n = n"
  by (cases n) (auto simp: NodeInfo_Clone_def ports_copy)

subsection \<open>Scalar resources\<close>

lemma nilmap_simps [simp]: "nilmap None = []" "nilmap (Some m) = m"
  by (simp_all add: nilmap_def)

lemma gm_get0_Nil [simp]: "gm_get0 [] k = 0"
  by (simp add: gm_get0_def)

lemma gm_get0_put [simp]: "gm_get0 (gm_put m k v) k' = (if k' = k then v else gm_get0 m k')"
  by (simp add: gm_get0_def)

lemma gm_get0_Cons: "gm_get0 ((k, v) # m) k' = (if k' = k then v else gm_get0 m k')"
  by (simp add: gm_get0_def gm_get_Cons)

lemma gm_get0_notin: "k \<notin> fst ` set m \<Longrightarrow> gm_get0 m k = 0"
  by (simp add: gm_get0_def gm_get_eq_None [symmetric])

lemma accScalars_fold_get0:
  assumes "gm_ok res" "\<And>a. f a 0 = a" "in64 (gm_get0 m k)"
  shows "gm_get0 (fold (\<lambda>e m'. gm_put m' (fst e) (i64 (f (gm_get0 m' (fst e)) (snd e)))) res m) k =
    i64 (f (gm_get0 m k) (gm_get0 res k))"
  using assms
proof (induction res arbitrary: m)
  case (Cons e res)
  obtain k0 q where e [simp]: "e = (k0, q)" by force
  have nin: "k0 \<notin> fst ` set res" and ok: "gm_ok res" using Cons.prems(1) by (auto simp: gm_ok_def)
  show ?case
  proof (cases "k = k0")
    case True
    then show ?thesis
      using Cons.IH [OF ok Cons.prems(2), of "gm_put m k0 (i64 (f (gm_get0 m k0) q))"] Cons.prems(2)
        gm_get0_notin [OF nin] by (simp add: gm_get0_Cons)
  next
    case False
    then show ?thesis
      using Cons.IH [OF ok Cons.prems(2), of "gm_put m k0 (i64 (f (gm_get0 m k0) q))"] Cons.prems
      by (simp add: gm_get0_Cons)
  qed
qed simp

lemma accScalars_get0:
  assumes "gm_ok (nilmap res)" "\<And>a. f a 0 = a" "in64 (gm_get0 (nilmap m) k)"
  shows "gm_get0 (nilmap (accScalars f res m)) k =
    i64 (f (gm_get0 (nilmap m) k) (gm_get0 (nilmap res) k))"
  using accScalars_fold_get0 [of "nilmap res" f "nilmap m" k] assms
  by (cases m) (auto simp: accScalars_def Let_def)

lemma gm_ok_fold_put: "gm_ok m \<Longrightarrow> gm_ok (fold (\<lambda>e m'. gm_put m' (fst e) (g m' e)) res m)"
  by (induction res arbitrary: m) auto

lemma accScalars_ok: "gm_ok (nilmap m) \<Longrightarrow> gm_ok (nilmap (accScalars f res m))"
  by (cases m) (auto simp: accScalars_def Let_def intro: gm_ok_fold_put)

lemma SetScalar_ok: "scalars_ok r \<Longrightarrow> scalars_ok (SetScalar r k v)"
  by (simp add: scalars_ok_def SetScalar_def)

lemma Resource_Add_ok: "scalars_ok r \<Longrightarrow> scalars_ok (Resource_Add r rl)"
  unfolding Resource_Add_def
proof (induction rl arbitrary: r)
  case (Cons e rl)
  have "scalars_ok (Resource_Add1 e r)"
    using Cons.prems by (auto simp: Resource_Add1_def Let_def AddScalar_def SetScalar_ok) (auto simp: scalars_ok_def)
  with Cons show ?case by simp
qed simp

lemma SetMaxResource_ok: "scalars_ok r \<Longrightarrow> scalars_ok (SetMaxResource r rl)"
  unfolding SetMaxResource_def
proof (induction rl arbitrary: r)
  case (Cons e rl)
  have "scalars_ok (SetMaxResource1 e r)"
    using Cons.prems by (auto simp: SetMaxResource1_def Let_def SetScalar_ok) (auto simp: scalars_ok_def)
  with Cons show ?case by simp
qed simp

lemma scalars_ok_zero [simp]: "scalars_ok zero_Resource"
  by (simp add: scalars_ok_def zero_Resource_def)

lemma scalars_ok_New [simp]: "scalars_ok (NewResource rl)"
  by (simp add: NewResource_def Resource_Add_ok)

lemma calculateResource_ok: "scalars_ok (fst (calculateResource pod))"
proof -
  have *: "scalars_ok (fst (fold add_container cs s))" if "scalars_ok (fst s)" for cs s
    using that by (induction cs arbitrary: s) (auto simp: add_container_def Resource_Add_ok split: prod.splits)
  have **: "scalars_ok (fst (fold max_container cs s))" if "scalars_ok (fst s)" for cs s
    using that by (induction cs arbitrary: s) (auto simp: max_container_def SetMaxResource_ok split: prod.splits)
  have "scalars_ok (fst (fold max_container (pod_InitContainers pod)
      (fold add_container (pod_Containers pod) (zero_Resource, 0, 0))))"
    by (intro * **) simp
  then show ?thesis
    by (auto simp: calculateResource_def Let_def Resource_Add_ok split: option.splits prod.splits)
qed

subsection \<open>Which host ports are taken\<close>

definition port_taken :: "HostPortInfo \<Rightarrow> string \<times> ProtocolPort \<Rightarrow> bool" where
  "port_taken h x \<longleftrightarrow> (case gm_get h (fst x) of None \<Rightarrow> False | Some m \<Rightarrow> gm_has m (snd x))"

definition port_of :: "string \<Rightarrow> string \<Rightarrow> int \<Rightarrow> (string \<times> ProtocolPort) set" where
  "port_of ip protocol port = (if port \<le> 0 then {}
     else {(fst (sanitize ip protocol), NewProtocolPort (snd (sanitize ip protocol)) port)})"

definition pod_ports :: "Pod \<Rightarrow> (string \<times> ProtocolPort) set" where
  "pod_ports pod = (\<Union>c\<in>set (pod_Containers pod). \<Union>p\<in>set (c_Ports c).
     port_of (cp_HostIP p) (cp_Protocol p) (cp_HostPort p))"

lemma port_taken_Nil [simp]: "\<not> port_taken [] x"
  by (simp add: port_taken_def)

lemma ports_ok_put: "ports_ok h \<Longrightarrow> gm_ok m \<Longrightarrow> m \<noteq> [] \<Longrightarrow> ports_ok (gm_put h ip m)"
  by (auto simp: ports_ok_def)

lemma HostPortInfo_Add_taken:
  "port_taken (HostPortInfo_Add h ip proto port) x \<longleftrightarrow> port_taken h x \<or> x \<in> port_of ip proto port"
  by (cases x) (auto simp: HostPortInfo_Add_def port_taken_def port_of_def Let_def gm_get_Cons gm_has_def
      split: option.splits prod.splits)

lemma HostPortInfo_Add_ports_ok: "ports_ok h \<Longrightarrow> ports_ok (HostPortInfo_Add h ip proto port)"
proof -
  assume ok: "ports_ok h"
  have "gm_put m k () \<noteq> []" for m :: "(ProtocolPort, unit) gomap" and k
    by (cases m) (auto simp: gm_put_def)
  then show ?thesis
    using ok by (auto simp: HostPortInfo_Add_def Let_def gm_ok_def intro!: ports_ok_put
        split: option.splits prod.splits) (auto simp: ports_ok_def gm_put_def gm_ok_def distinct_update)
qed

lemma HostPortInfo_Remove_taken:
  assumes "ports_ok h"
  shows "port_taken (HostPortInfo_Remove h ip proto port) x \<longleftrightarrow>
    port_taken h x \<and> x \<notin> port_of ip proto port"
proof -
  obtain ip' pr' where san: "sanitize ip proto = (ip', pr')" by force
  let ?pp = "NewProtocolPort pr' port"
  have "gm_get m k = None" if "gm_del m ?pp = []" "k \<noteq> ?pp" for m :: "(ProtocolPort, unit) gomap" and k
    using that gm_get_del [of m ?pp k] by simp
  then show ?thesis
    using assms
    by (cases x) (auto simp: HostPortInfo_Remove_def port_taken_def port_of_def Let_def san gm_has_def
        split: option.splits)
qed

lemma HostPortInfo_Remove_ports_ok:
  "ports_ok h \<Longrightarrow> ports_ok (HostPortInfo_Remove h ip proto port)"
  by (auto simp: HostPortInfo_Remove_def ports_ok_def Let_def split: option.splits prod.splits if_splits)

lemma updateUsedPorts_add:
  "port_taken (updateUsedPorts h pod True) x \<longleftrightarrow> port_taken h x \<or> x \<in> pod_ports pod"
proof -
  have 1: "port_taken (fold (\<lambda>p h. HostPortInfo_Add h (cp_HostIP p) (cp_Protocol p) (cp_HostPort p)) ps h) x
      \<longleftrightarrow> port_taken h x \<or> (\<exists>p\<in>set ps. x \<in> port_of (cp_HostIP p) (cp_Protocol p) (cp_HostPort p))"
    for ps h by (induction ps arbitrary: h) (auto simp: HostPortInfo_Add_taken)
  have "port_taken (fold (\<lambda>c. fold (\<lambda>p h. HostPortInfo_Add h (cp_HostIP p) (cp_Protocol p) (cp_HostPort p))
      (c_Ports c)) cs h) x \<longleftrightarrow> port_taken h x \<or>
      (\<exists>c\<in>set cs. \<exists>p\<in>set (c_Ports c). x \<in> port_of (cp_HostIP p) (cp_Protocol p) (cp_HostPort p))" for cs
    by (induction cs arbitrary: h) (auto simp: 1)
  then show ?thesis by (simp add: updateUsedPorts_def pod_ports_def)
qed

lemma updateUsedPorts_ports_ok: "ports_ok h \<Longrightarrow> ports_ok (updateUsedPorts h pod add)"
proof -
  have 1: "ports_ok (fold (\<lambda>p h. if add then HostPortInfo_Add h (cp_HostIP p) (cp_Protocol p) (cp_HostPort p)
      else HostPortInfo_Remove h (cp_HostIP p) (cp_Protocol p) (cp_HostPort p)) ps h)"
    if "ports_ok h" for ps h
    using that
    by (induction ps arbitrary: h) (auto simp: HostPortInfo_Add_ports_ok HostPortInfo_Remove_ports_ok)
  assume "ports_ok h"
  then show ?thesis
    unfolding updateUsedPorts_def by (induction "pod_Containers pod" arbitrary: h pod)
      (auto intro: fold_invariant [where P = ports_ok and Q = "\<lambda>_. True"] 1)
qed

lemma updateUsedPorts_remove:
  "ports_ok h \<Longrightarrow> port_taken (updateUsedPorts h pod False) x \<longleftrightarrow> port_taken h x \<and> x \<notin> pod_ports pod"
proof -
  let ?f = "\<lambda>p h. HostPortInfo_Remove h (cp_HostIP p) (cp_Protocol p) (cp_HostPort p)"
  have 1: "ports_ok (fold ?f ps h) \<and> (port_taken (fold ?f ps h) x
      \<longleftrightarrow> port_taken h x \<and> (\<forall>p\<in>set ps. x \<notin> port_of (cp_HostIP p) (cp_Protocol p) (cp_HostPort p)))"
    if "ports_ok h" for ps h
    using that
    by (induction ps arbitrary: h) (auto simp: HostPortInfo_Remove_taken HostPortInfo_Remove_ports_ok)
  have "port_taken (fold (\<lambda>c. fold ?f (c_Ports c)) cs h) x \<longleftrightarrow> port_taken h x \<and>
      (\<forall>c\<in>set cs. \<forall>p\<in>set (c_Ports c). x \<notin> port_of (cp_HostIP p) (cp_Protocol p) (cp_HostPort p))"
    if "ports_ok h" for cs
    using that by (induction cs arbitrary: h) (auto simp: 1)
  then show "ports_ok h \<Longrightarrow> ?thesis" by (simp add: updateUsedPorts_def pod_ports_def)
qed

subsection \<open>The totals of a node are the sums over its pods\<close>

text \<open>What a pod counts for, in each of the totals a \<open>NodeInfo\<close> keeps.\<close>

definition pod_cpu :: "Pod \<Rightarrow> int" where
  "pod_cpu p = MilliCPU (fst (calculateResource p))"

definition pod_mem :: "Pod \<Rightarrow> int" where
  "pod_mem p = Memory (fst (calculateResource p))"

definition pod_storage :: "Pod \<Rightarrow> int" where
  "pod_storage p = EphemeralStorage (fst (calculateResource p))"

definition pod_scalar :: "string \<Rightarrow> Pod \<Rightarrow> int" where
  "pod_scalar k p = gm_get0 (nilmap (ScalarResources (fst (calculateResource p)))) k"

definition pod_cpu0 :: "Pod \<Rightarrow> int" where
  "pod_cpu0 p = fst (snd (calculateResource p))"

definition pod_mem0 :: "Pod \<Rightarrow> int" where
  "pod_mem0 p = snd (snd (calculateResource p))"

definition node_total :: "(Pod \<Rightarrow> int) \<Rightarrow> NodeInfo \<Rightarrow> int" where
  "node_total f n = (\<Sum>p\<in>#mset (ni_Pods n). f (pi_Pod p))"

definition totals_ok :: "NodeInfo \<Rightarrow> bool" where
  "totals_ok n \<longleftrightarrow>
     MilliCPU (ni_Requested n) = i64 (node_total pod_cpu n) \<and>
     Memory (ni_Requested n) = i64 (node_total pod_mem n) \<and>
     EphemeralStorage (ni_Requested n) = i64 (node_total pod_storage n) \<and>
     (\<forall>k. gm_get0 (nilmap (ScalarResources (ni_Requested n))) k = i64 (node_total (pod_scalar k) n)) \<and>
     MilliCPU (ni_NonZeroRequested n) = i64 (node_total pod_cpu0 n) \<and>
     Memory (ni_NonZeroRequested n) = i64 (node_total pod_mem0 n)"

text \<open>The bookkeeping around the totals.\<close>

definition pods_ok :: "NodeInfo \<Rightarrow> bool" where
  "pods_ok n \<longleftrightarrow>
     distinct (map (pod_UID \<circ> pi_Pod) (ni_Pods n)) \<and>
     (\<forall>p\<in>set (ni_Pods n). pod_UID (pi_Pod p) \<noteq> []) \<and>
     mset (ni_PodsWithAffinity n) = filter_mset (\<lambda>p. has_affinity (pi_Pod p)) (mset (ni_Pods n)) \<and>
     (\<forall>x. port_taken (ni_UsedPorts n) x \<longrightarrow> (\<exists>p\<in>set (ni_Pods n). x \<in> pod_ports (pi_Pod p)))"

definition ni_clonable :: "NodeInfo \<Rightarrow> bool" where
  "ni_clonable n \<longleftrightarrow> scalars_ok (ni_Requested n) \<and> scalars_ok (ni_NonZeroRequested n) \<and>
     scalars_ok (ni_Allocatable n) \<and> ports_ok (ni_UsedPorts n)"

definition ni_wf :: "NodeInfo \<Rightarrow> bool" where
  "ni_wf n \<longleftrightarrow> totals_ok n \<and> pods_ok n \<and> ni_clonable n"

lemmas pod_amount_defs = pod_cpu_def pod_mem_def pod_storage_def pod_scalar_def pod_cpu0_def pod_mem0_def

lemma pi_Pod_New [simp]: "pi_Pod (NewPodInfo asSel pod) = pod"
  by (simp add: NewPodInfo_def Let_def)

lemma AddPod_Pods [simp]:
  "ni_Pods (fst (NodeInfo_AddPod asSel gen n pod)) = ni_Pods n @ [NewPodInfo asSel pod]"
  "ni_PodsWithAffinity (fst (NodeInfo_AddPod asSel gen n pod)) =
     ni_PodsWithAffinity n @ (if has_affinity pod then [NewPodInfo asSel pod] else [])"
  "ni_UsedPorts (fst (NodeInfo_AddPod asSel gen n pod)) = updateUsedPorts (ni_UsedPorts n) pod True"
  "ni_node (fst (NodeInfo_AddPod asSel gen n pod)) = ni_node n"
  "ni_Allocatable (fst (NodeInfo_AddPod asSel gen n pod)) = ni_Allocatable n"
  "ni_ImageStates (fst (NodeInfo_AddPod asSel gen n pod)) = ni_ImageStates n"
  "ni_TransientInfo (fst (NodeInfo_AddPod asSel gen n pod)) = ni_TransientInfo n"
  "ni_Generation (fst (NodeInfo_AddPod asSel gen n pod)) = gen + 1"
  "snd (NodeInfo_AddPod asSel gen n pod) = gen + 1"
  by (auto simp: NodeInfo_AddPod_def Let_def nextGeneration_def split: prod.splits)

lemma AddPod_Requested:
  "ni_Requested (fst (NodeInfo_AddPod asSel gen n pod)) = (ni_Requested n)\<lparr>
     MilliCPU := i64 (MilliCPU (ni_Requested n) + pod_cpu pod),
     Memory := i64 (Memory (ni_Requested n) + pod_mem pod),
     EphemeralStorage := i64 (EphemeralStorage (ni_Requested n) + pod_storage pod),
     ScalarResources := accScalars (+) (ScalarResources (fst (calculateResource pod)))
       (ScalarResources (ni_Requested n))\<rparr>"
  "ni_NonZeroRequested (fst (NodeInfo_AddPod asSel gen n pod)) = (ni_NonZeroRequested n)\<lparr>
     MilliCPU := i64 (MilliCPU (ni_NonZeroRequested n) + pod_cpu0 pod),
     Memory := i64 (Memory (ni_NonZeroRequested n) + pod_mem0 pod)\<rparr>"
  by (auto simp: NodeInfo_AddPod_def Let_def pod_amount_defs split: prod.splits)

lemma node_total_AddPod:
  "node_total f (fst (NodeInfo_AddPod asSel gen n pod)) = node_total f n + f pod"
  by (simp add: node_total_def)

lemma AddPod_totals_ok:
  assumes "totals_ok n"
  shows "totals_ok (fst (NodeInfo_AddPod asSel gen n pod))"
proof -
  have sc: "gm_get0 (nilmap (ScalarResources (ni_Requested n))) k = i64 (node_total (pod_scalar k) n)" for k
    using assms by (simp add: totals_ok_def)
  have "gm_get0 (nilmap (accScalars (+) (ScalarResources (fst (calculateResource pod)))
      (ScalarResources (ni_Requested n)))) k = i64 (node_total (pod_scalar k) n + pod_scalar k pod)" for k
    using accScalars_get0 [of "ScalarResources (fst (calculateResource pod))" "(+)" "ScalarResources (ni_Requested n)" k]
      calculateResource_ok [of pod] by (simp add: scalars_ok_def sc pod_scalar_def)
  with assms show ?thesis
    unfolding totals_ok_def AddPod_Requested node_total_AddPod by simp
qed

lemma AddPod_pods_ok:
  assumes "pods_ok n" and "pod_UID pod \<noteq> []"
    and "pod_UID pod \<notin> (\<lambda>p. pod_UID (pi_Pod p)) ` set (ni_Pods n)"
  shows "pods_ok (fst (NodeInfo_AddPod asSel gen n pod))"
  using assms unfolding pods_ok_def by (auto simp: updateUsedPorts_add)

lemma AddPod_clonable: "ni_clonable n \<Longrightarrow> ni_clonable (fst (NodeInfo_AddPod asSel gen n pod))"
  by (auto simp: ni_clonable_def AddPod_Requested scalars_ok_def intro: accScalars_ok updateUsedPorts_ports_ok)

lemma GetPodKey_Inr [simp]: "GetPodKey pod = Inr k \<longleftrightarrow> pod_UID pod = k \<and> k \<noteq> []"
  by (auto simp: GetPodKey_def)

lemma GetPodKey_Inl: "GetPodKey pod = Inl e \<Longrightarrow> pod_UID pod = []"
  by (simp add: GetPodKey_def split: if_splits)

lemma same_key_iff: "k \<noteq> [] \<Longrightarrow> same_key k p \<longleftrightarrow> pod_UID (pi_Pod p) = k"
  by (auto simp: same_key_def GetPodKey_def)

lemma resetSlicesIfEmpty_id [simp]: "resetSlicesIfEmpty n = n"
  by (cases n) (simp add: resetSlicesIfEmpty_def)

text \<open>Taking the first pod with a given key out of a list where keys are unique.\<close>

lemma swap_remove_unique:
  assumes "find_index (same_key k) ps = Some i" "k \<noteq> []"
  shows "same_key k (ps ! i) \<and> ps ! i \<in> set ps \<and> mset (swap_remove i ps) = mset ps - {#ps ! i#}"
  using find_index_SomeD [OF assms(1)] by (simp add: mset_swap_remove)

lemma RemovePod_found:
  assumes k: "pod_UID pod \<noteq> []" and i: "find_index (same_key (pod_UID pod)) (ni_Pods n) = Some i"
  shows "\<exists>n'. NodeInfo_RemovePod gen n pod = Some (n', gen + 1, None) \<and>
    ni_Pods n' = swap_remove i (ni_Pods n) \<and>
    ni_PodsWithAffinity n' = (case find_index (same_key (pod_UID pod)) (ni_PodsWithAffinity n) of
      None \<Rightarrow> ni_PodsWithAffinity n | Some j \<Rightarrow> swap_remove j (ni_PodsWithAffinity n)) \<and>
    ni_UsedPorts n' = updateUsedPorts (ni_UsedPorts n) pod False \<and>
    ni_Requested n' = (ni_Requested n)\<lparr>
      MilliCPU := i64 (MilliCPU (ni_Requested n) - pod_cpu pod),
      Memory := i64 (Memory (ni_Requested n) - pod_mem pod),
      EphemeralStorage := i64 (EphemeralStorage (ni_Requested n) - pod_storage pod),
      ScalarResources := accScalars (-) (ScalarResources (fst (calculateResource pod)))
        (ScalarResources (ni_Requested n))\<rparr> \<and>
    ni_NonZeroRequested n' = (ni_NonZeroRequested n)\<lparr>
      MilliCPU := i64 (MilliCPU (ni_NonZeroRequested n) - pod_cpu0 pod),
      Memory := i64 (Memory (ni_NonZeroRequested n) - pod_mem0 pod)\<rparr> \<and>
    ni_node n' = ni_node n \<and> ni_Allocatable n' = ni_Allocatable n \<and>
    ni_ImageStates n' = ni_ImageStates n \<and> ni_TransientInfo n' = ni_TransientInfo n \<and>
    ni_Generation n' = gen + 1"
proof -
  have key: "GetPodKey pod = Inr (pod_UID pod)" using k by simp
  show ?thesis
    using i unfolding NodeInfo_RemovePod_def key
    by (cases "find_index (same_key (pod_UID pod)) (ni_PodsWithAffinity n)")
      (auto simp: Let_def nextGeneration_def pod_amount_defs split: prod.splits)
qed

lemma RemovePod_key_error:
  "pod_UID pod = [] \<Longrightarrow> NodeInfo_RemovePod gen n pod =
    Some (n, gen, Some ''Cannot get cache key for pod with empty UID'')"
  by (simp add: NodeInfo_RemovePod_def GetPodKey_def)

lemma sum_mset_remove1:
  "x \<in># M \<Longrightarrow> (\<Sum>p\<in>#M - {#x#}. f p) = (\<Sum>p\<in>#M. f p) - (f x :: int)"
  by (metis add_diff_cancel_left' image_mset_add_mset insert_DiffM sum_mset.add_mset)

lemma RemovePod_totals_ok:
  assumes ok: "totals_ok n" and k: "pod_UID pod \<noteq> []"
    and i: "find_index (same_key (pod_UID pod)) (ni_Pods n) = Some i"
    and same: "calculateResource (pi_Pod (ni_Pods n ! i)) = calculateResource pod"
  shows "\<exists>n'. NodeInfo_RemovePod gen n pod = Some (n', gen + 1, None) \<and> totals_ok n'"
proof -
  obtain n' where n': "NodeInfo_RemovePod gen n pod = Some (n', gen + 1, None)"
      "ni_Pods n' = swap_remove i (ni_Pods n)"
      "ni_Requested n' = (ni_Requested n)\<lparr>
      MilliCPU := i64 (MilliCPU (ni_Requested n) - pod_cpu pod),
      Memory := i64 (Memory (ni_Requested n) - pod_mem pod),
      EphemeralStorage := i64 (EphemeralStorage (ni_Requested n) - pod_storage pod),
      ScalarResources := accScalars (-) (ScalarResources (fst (calculateResource pod)))
        (ScalarResources (ni_Requested n))\<rparr>"
      "ni_NonZeroRequested n' = (ni_NonZeroRequested n)\<lparr>
      MilliCPU := i64 (MilliCPU (ni_NonZeroRequested n) - pod_cpu0 pod),
      Memory := i64 (Memory (ni_NonZeroRequested n) - pod_mem0 pod)\<rparr>"
    using RemovePod_found [OF k i] by blast
  have tot: "node_total f n' = node_total f n - f pod" if "f (pi_Pod (ni_Pods n ! i)) = f pod" for f
    using swap_remove_unique [OF i k] that by (simp add: node_total_def n'(2) sum_mset_remove1)
  have sc: "gm_get0 (nilmap (ScalarResources (ni_Requested n))) j = i64 (node_total (pod_scalar j) n)" for j
    using ok by (simp add: totals_ok_def)
  have "gm_get0 (nilmap (accScalars (-) (ScalarResources (fst (calculateResource pod)))
      (ScalarResources (ni_Requested n)))) j = i64 (node_total (pod_scalar j) n - pod_scalar j pod)" for j
    using accScalars_get0 [of "ScalarResources (fst (calculateResource pod))" "(-)" "ScalarResources (ni_Requested n)" j]
      calculateResource_ok [of pod] by (simp add: scalars_ok_def sc pod_scalar_def)
  then have "totals_ok n'"
    using ok same unfolding totals_ok_def n'(3,4) by (simp add: tot pod_amount_defs)
  with n'(1) show ?thesis by blast
qed

lemma RemovePod_clonable:
  assumes "ni_clonable n" "NodeInfo_RemovePod gen n pod = Some (n', g', e)"
  shows "ni_clonable n'"
  using assms
  by (auto simp: NodeInfo_RemovePod_def Let_def ni_clonable_def scalars_ok_def
      intro: accScalars_ok updateUsedPorts_ports_ok split: sum.splits option.splits prod.splits)

lemma distinct_uid_unique: "pods_ok n \<Longrightarrow> p \<in> set (ni_Pods n) \<Longrightarrow> q \<in> set (ni_Pods n) \<Longrightarrow>
    pod_UID (pi_Pod p) = pod_UID (pi_Pod q) \<Longrightarrow> p = q"
  unfolding pods_ok_def by (auto simp: distinct_map inj_on_def)

lemma set_affinity: "pods_ok n \<Longrightarrow>
    set (ni_PodsWithAffinity n) = {p \<in> set (ni_Pods n). has_affinity (pi_Pod p)}"
  unfolding pods_ok_def by (metis set_mset_filter set_mset_mset)

lemma RemovePod_pods_ok:
  assumes ok: "pods_ok n" and pok: "ports_ok (ni_UsedPorts n)" and p: "p \<in> set (ni_Pods n)"
    and k: "pod_UID (pi_Pod p) = pod_UID pod" and same: "pod_ports (pi_Pod p) = pod_ports pod"
  shows "\<exists>i n'. find_index (same_key (pod_UID pod)) (ni_Pods n) = Some i \<and> ni_Pods n ! i = p \<and>
    NodeInfo_RemovePod gen n pod = Some (n', gen + 1, None) \<and> pods_ok n' \<and>
    mset (ni_Pods n') = mset (ni_Pods n) - {#p#}"
proof -
  let ?k = "pod_UID pod"
  have ne: "?k \<noteq> []" using ok p k by (auto simp: pods_ok_def)
  obtain i where i: "find_index (same_key ?k) (ni_Pods n) = Some i"
    using find_index_ex [of "ni_Pods n" "same_key ?k"] p k same_key_iff [OF ne] by blast
  note R = swap_remove_unique [OF i ne]
  have pi: "ni_Pods n ! i = p"
    using distinct_uid_unique [OF ok, of "ni_Pods n ! i" p] R p k same_key_iff [OF ne] by auto
  obtain n' where n': "NodeInfo_RemovePod gen n pod = Some (n', gen + 1, None)"
      "ni_Pods n' = swap_remove i (ni_Pods n)"
      "ni_PodsWithAffinity n' = (case find_index (same_key ?k) (ni_PodsWithAffinity n) of
        None \<Rightarrow> ni_PodsWithAffinity n | Some j \<Rightarrow> swap_remove j (ni_PodsWithAffinity n))"
      "ni_UsedPorts n' = updateUsedPorts (ni_UsedPorts n) pod False"
    using RemovePod_found [OF ne i] by blast
  have ms: "mset (ni_Pods n') = mset (ni_Pods n) - {#p#}" using R n'(2) pi by simp
  then have img: "mset (map (pod_UID \<circ> pi_Pod) (ni_Pods n')) =
      mset (remove1 ?k (map (pod_UID \<circ> pi_Pod) (ni_Pods n)))"
    using p k by (simp add: image_mset_Diff)
  have "distinct (map (pod_UID \<circ> pi_Pod) (ni_Pods n'))"
    using ok mset_eq_imp_distinct_iff [OF img] by (simp add: pods_ok_def distinct_remove1)
  moreover have "set (ni_Pods n') = set (ni_Pods n) - {p}"
  proof -
    have "distinct (ni_Pods n)" using ok by (auto simp: pods_ok_def distinct_map)
    then show ?thesis using ms
      by (metis mset_remove1 mset_eq_setD set_remove1_eq)
  qed
  moreover have "mset (ni_PodsWithAffinity n') =
      filter_mset (\<lambda>p. has_affinity (pi_Pod p)) (mset (ni_Pods n'))"
  proof (cases "has_affinity (pi_Pod p)")
    case True
    then obtain j where j: "find_index (same_key ?k) (ni_PodsWithAffinity n) = Some j"
      using find_index_ex [of "ni_PodsWithAffinity n" "same_key ?k"] p k same_key_iff [OF ne]
        set_affinity [OF ok] by blast
    note S = swap_remove_unique [OF j ne]
    have "ni_PodsWithAffinity n ! j = p"
      using distinct_uid_unique [OF ok, of "ni_PodsWithAffinity n ! j" p] S p k same_key_iff [OF ne]
        set_affinity [OF ok] by auto
    with S j ms ok True p show ?thesis by (simp add: n'(3) pods_ok_def filter_diff_mset)
  next
    case False
    have "\<not> same_key ?k q" if "q \<in> set (ni_PodsWithAffinity n)" for q
      using that set_affinity [OF ok] distinct_uid_unique [OF ok, of q p] p k False same_key_iff [OF ne]
      by auto
    then have "find_index (same_key ?k) (ni_PodsWithAffinity n) = None" by (simp add: find_index_None)
    with ms ok False show ?thesis by (simp add: n'(3) pods_ok_def filter_diff_mset)
  qed
  moreover have "\<exists>q\<in>set (ni_Pods n'). x \<in> pod_ports (pi_Pod q)" if "port_taken (ni_UsedPorts n') x" for x
  proof -
    have "port_taken (ni_UsedPorts n) x" "x \<notin> pod_ports (pi_Pod p)"
      using that updateUsedPorts_remove [OF pok] by (auto simp: n'(4) same)
    then show ?thesis using ok calculation(2) unfolding pods_ok_def by fastforce
  qed
  ultimately have "pods_ok n'" using ok by (auto simp: pods_ok_def)
  with n'(1) i pi ms show ?thesis by blast
qed

subsection \<open>Properties\<close>

text \<open>The node information the cache can bring about: pods come with a new UID, and go as they came.\<close>

inductive ni_reach :: "as_selector \<Rightarrow> NodeInfo \<Rightarrow> bool" for asSel where
  ni_new: "ni_reach asSel (fst (NewNodeInfo asSel gen []))"
| ni_add: "ni_reach asSel n \<Longrightarrow> pod_UID pod \<noteq> [] \<Longrightarrow>
    pod_UID pod \<notin> (\<lambda>p. pod_UID (pi_Pod p)) ` set (ni_Pods n) \<Longrightarrow>
    ni_reach asSel (fst (NodeInfo_AddPod asSel gen n pod))"
| ni_remove: "ni_reach asSel n \<Longrightarrow> pod \<in> pi_Pod ` set (ni_Pods n) \<Longrightarrow>
    NodeInfo_RemovePod gen n pod = Some (n', gen', e) \<Longrightarrow> ni_reach asSel n'"
| ni_setnode: "ni_reach asSel n \<Longrightarrow> ni_reach asSel (fst (SetNode gen n node))"
| ni_delnode: "ni_reach asSel n \<Longrightarrow> ni_reach asSel (fst (NodeInfo_RemoveNode gen n))"

lemma NewNodeInfo_wf: "ni_wf (fst (NewNodeInfo asSel gen []))"
  by (simp add: NewNodeInfo_def ni_wf_def totals_ok_def pods_ok_def ni_clonable_def node_total_def
      zero_Resource_def scalars_ok_def ports_ok_def)

lemma AddPod_wf: "ni_wf n \<Longrightarrow> pod_UID pod \<noteq> [] \<Longrightarrow>
    pod_UID pod \<notin> (\<lambda>p. pod_UID (pi_Pod p)) ` set (ni_Pods n) \<Longrightarrow>
    ni_wf (fst (NodeInfo_AddPod asSel gen n pod))"
  by (simp add: ni_wf_def AddPod_totals_ok AddPod_pods_ok AddPod_clonable)

lemma RemovePod_wf:
  assumes wf: "ni_wf n" and p: "p \<in> set (ni_Pods n)"
  shows "\<exists>n'. NodeInfo_RemovePod gen n (pi_Pod p) = Some (n', gen + 1, None) \<and> ni_wf n' \<and>
    mset (ni_Pods n') = mset (ni_Pods n) - {#p#}"
proof -
  have *: "totals_ok n" "pods_ok n" "ni_clonable n" using wf by (auto simp: ni_wf_def)
  then have pok: "ports_ok (ni_UsedPorts n)" by (simp add: ni_clonable_def)
  obtain i n' where n': "find_index (same_key (pod_UID (pi_Pod p))) (ni_Pods n) = Some i"
      "ni_Pods n ! i = p" "NodeInfo_RemovePod gen n (pi_Pod p) = Some (n', gen + 1, None)"
      "pods_ok n'" "mset (ni_Pods n') = mset (ni_Pods n) - {#p#}"
    using RemovePod_pods_ok [OF *(2) pok p refl refl] by blast
  have "pod_UID (pi_Pod p) \<noteq> []" using * p by (auto simp: pods_ok_def)
  then have "totals_ok n'" using RemovePod_totals_ok [OF *(1) _ n'(1), of gen] n'(2,3) by auto
  with n' RemovePod_clonable [OF *(3) n'(3)] show ?thesis by (simp add: ni_wf_def)
qed

lemma SetNode_wf: "ni_wf n \<Longrightarrow> ni_wf (fst (SetNode gen n node))"
  by (simp add: ni_wf_def SetNode_def totals_ok_def pods_ok_def ni_clonable_def node_total_def)

lemma RemoveNode_wf: "ni_wf n \<Longrightarrow> ni_wf (fst (NodeInfo_RemoveNode gen n))"
  by (simp add: ni_wf_def NodeInfo_RemoveNode_def totals_ok_def pods_ok_def ni_clonable_def node_total_def)

lemma ni_reach_wf: "ni_reach asSel n \<Longrightarrow> ni_wf n"
proof (induction rule: ni_reach.induct)
  case (ni_remove n pod gen n' gen' e)
  then obtain p where "p \<in> set (ni_Pods n)" "pod = pi_Pod p" by blast
  with RemovePod_wf [OF ni_remove.IH, of p gen] ni_remove.hyps(3) show ?case by auto
qed (simp_all add: NewNodeInfo_wf AddPod_wf SetNode_wf RemoveNode_wf)

text \<open>A container and pods for the witnesses.\<close>

definition demo_container :: Container where
  "demo_container = \<lparr>c_Image = ''img'',
     c_Requests = [(ResourceCPU, \<lparr>qty_Value = 1, qty_MilliValue = 500\<rparr>),
       (''gpu'', \<lparr>qty_Value = 2, qty_MilliValue = 2000\<rparr>)],
     c_Limits = [],
     c_Ports = [\<lparr>cp_HostIP = [], cp_Protocol = [], cp_HostPort = 8080\<rparr>]\<rparr>"

definition demo_pod :: "string \<Rightarrow> Pod" where
  "demo_pod uid = zero_pod\<lparr>pod_UID := uid, pod_Name := uid, pod_Namespace := ''ns'',
     pod_Containers := [demo_container]\<rparr>"

definition no_sel :: as_selector where
  "no_sel ls = Inl ''unsupported''"



text \<open>
  Adding a pod with a new UID and removing it again succeeds and gives back every total,
  modulo nothing: the same wrapped int64 values, the same pods, and, when the host ports of the pod
  were free, the same ports in use. The generation number goes up at each step.
\<close>

theorem add_remove_pod_roundtrip:
  assumes wf: "ni_wf n" and uid: "pod_UID pod \<noteq> []"
    and new: "pod_UID pod \<notin> (\<lambda>p. pod_UID (pi_Pod p)) ` set (ni_Pods n)"
    and free: "\<forall>x\<in>pod_ports pod. \<not> port_taken (ni_UsedPorts n) x"
    and add: "NodeInfo_AddPod asSel gen n pod = (n1, gen1)"
  shows "\<exists>n2. NodeInfo_RemovePod gen1 n1 pod = Some (n2, gen1 + 1, None) \<and>
    mset (ni_Pods n2) = mset (ni_Pods n) \<and>
    mset (ni_PodsWithAffinity n2) = mset (ni_PodsWithAffinity n) \<and>
    MilliCPU (ni_Requested n2) = MilliCPU (ni_Requested n) \<and>
    Memory (ni_Requested n2) = Memory (ni_Requested n) \<and>
    EphemeralStorage (ni_Requested n2) = EphemeralStorage (ni_Requested n) \<and>
    (\<forall>k. gm_get0 (nilmap (ScalarResources (ni_Requested n2))) k =
      gm_get0 (nilmap (ScalarResources (ni_Requested n))) k) \<and>
    MilliCPU (ni_NonZeroRequested n2) = MilliCPU (ni_NonZeroRequested n) \<and>
    Memory (ni_NonZeroRequested n2) = Memory (ni_NonZeroRequested n) \<and>
    port_taken (ni_UsedPorts n2) = port_taken (ni_UsedPorts n) \<and>
    ni_Generation n2 > ni_Generation n1 \<and> gen1 > gen"
proof -
  let ?p = "NewPodInfo asSel pod"
  have n1: "n1 = fst (NodeInfo_AddPod asSel gen n pod)" "gen1 = gen + 1"
    using add AddPod_Pods(9) [of asSel gen n pod] by auto
  have wf1: "ni_wf n1" unfolding n1 by (rule AddPod_wf [OF wf uid new])
  have p: "?p \<in> set (ni_Pods n1)" by (simp add: n1)
  obtain n2 where n2: "NodeInfo_RemovePod gen1 n1 pod = Some (n2, gen1 + 1, None)" "ni_wf n2"
      "mset (ni_Pods n2) = mset (ni_Pods n)"
    using RemovePod_wf [OF wf1 p, of gen1] by (auto simp: n1)
  have tot: "node_total f n2 = node_total f n" for f by (simp add: node_total_def n2(3))
  have ok: "totals_ok n" "totals_ok n2" "pods_ok n" "pods_ok n2" "ports_ok (ni_UsedPorts n1)"
    using wf wf1 n2(2) by (auto simp: ni_wf_def ni_clonable_def)
  obtain i where "find_index (same_key (pod_UID pod)) (ni_Pods n1) = Some i"
    using find_index_ex [of "ni_Pods n1" "same_key (pod_UID pod)"] p same_key_iff [OF uid] pi_Pod_New by metis
  from RemovePod_found [OF uid this, of gen1] n2(1)
  have ports: "ni_UsedPorts n2 = updateUsedPorts (ni_UsedPorts n1) pod False"
    and g: "ni_Generation n2 = gen1 + 1" by auto
  have "port_taken (ni_UsedPorts n2) = port_taken (ni_UsedPorts n)"
    using free by (auto simp: ports fun_eq_iff updateUsedPorts_remove [OF ok(5)])
      (auto simp: n1 updateUsedPorts_add)
  moreover have "mset (ni_PodsWithAffinity n2) = mset (ni_PodsWithAffinity n)"
    using ok(3,4) n2(3) by (simp add: pods_ok_def)
  ultimately show ?thesis
    using n2 ok(1,2) g unfolding totals_ok_def tot by (auto simp: n1)
qed

theorem add_remove_pod_roundtrip_witness:
  "\<exists>n1 n2. NodeInfo_AddPod no_sel 1 (fst (NewNodeInfo no_sel 0 [])) (demo_pod ''a'') = (n1, 2) \<and>
    MilliCPU (ni_Requested n1) = 500 \<and>
    NodeInfo_RemovePod 2 n1 (demo_pod ''a'') = Some (n2, 3, None) \<and> MilliCPU (ni_Requested n2) = 0"
proof -
  let ?n = "fst (NewNodeInfo no_sel 0 [])" and ?p = "demo_pod ''a''"
  obtain n1 where n1: "NodeInfo_AddPod no_sel 1 ?n ?p = (n1, 2)"
    using AddPod_Pods(9) [of no_sel 1 ?n ?p] by (metis one_add_one prod.collapse)
  have "pod_UID ?p \<noteq> []" "\<forall>x\<in>pod_ports ?p. \<not> port_taken (ni_UsedPorts ?n) x"
      "pod_UID ?p \<notin> (\<lambda>p. pod_UID (pi_Pod p)) ` set (ni_Pods ?n)"
    by (simp_all add: demo_pod_def NewNodeInfo_def)
  from add_remove_pod_roundtrip [OF NewNodeInfo_wf this(1) this(3) this(2) n1] obtain n2 where
    "NodeInfo_RemovePod 2 n1 ?p = Some (n2, 2 + 1, None)"
    "MilliCPU (ni_Requested n2) = MilliCPU (ni_Requested ?n)" by blast
  moreover have "MilliCPU (ni_Requested ?n) = 0" by (simp add: NewNodeInfo_def zero_Resource_def)
  moreover have "MilliCPU (ni_Requested n1) = 500"
    using arg_cong [OF n1, of fst] AddPod_Requested(1) [of no_sel 1 ?n ?p]
    by (simp add: pod_cpu_def calculateResource_def demo_pod_def demo_container_def zero_pod_def
        add_container_def Resource_Add_def Resource_Add1_def GetNonzeroRequests_def AddScalar_def
        SetScalar_def NewNodeInfo_def zero_Resource_def in64_def)
  ultimately show ?thesis using n1 by auto
qed

lemma port_taken_list_ex:
  "gm_ok h \<Longrightarrow> list_ex (\<lambda>e. gm_has (snd e) pp) h \<longleftrightarrow> (\<exists>ip. port_taken h (ip, pp))"
proof
  assume ok: "gm_ok h"
  {
    assume "list_ex (\<lambda>e. gm_has (snd e) pp) h"
    then obtain ip m where "(ip, m) \<in> set h" "gm_has m pp" by (auto simp: list_ex_iff)
    then have "port_taken h (ip, pp)" using gm_get_eq_Some [OF ok, of ip m] by (simp add: port_taken_def)
    then show "\<exists>ip. port_taken h (ip, pp)" ..
  next
    assume "\<exists>ip. port_taken h (ip, pp)"
    then obtain ip m where "gm_get h ip = Some m" "gm_has m pp"
      by (auto simp: port_taken_def split: option.splits)
    then show "list_ex (\<lambda>e. gm_has (snd e) pp) h"
      unfolding list_ex_iff using gm_get_in_set [of h ip m] by (metis snd_conv)
  }
qed

text \<open>
  A port conflicts exactly when it is positive and the same protocol and port (TCP when the
  protocol is empty) are in use on the same address, on the wildcard address, or on any address
  when the request itself is for the wildcard address (an empty address is the wildcard).
\<close>

lemma CheckConflict_iff:
  assumes "ports_ok h"
  shows "CheckConflict h ip protocol port \<longleftrightarrow>
    (\<exists>addr pp. (addr, pp) \<in> port_of ip protocol port \<and>
      (\<exists>used. port_taken h (used, pp) \<and>
        (used = addr \<or> used = DefaultBindAllHostIP \<or> addr = DefaultBindAllHostIP)))"
proof -
  obtain ip' pr' where san: "sanitize ip protocol = (ip', pr')" by force
  have ok: "gm_ok h" using assms by (simp add: ports_ok_def)
  let ?pp = "NewProtocolPort pr' port"
  have tk: "(case gm_get h k of None \<Rightarrow> False | Some m \<Rightarrow> gm_has m ?pp) \<longleftrightarrow> port_taken h (k, ?pp)" for k
    unfolding port_taken_def fst_conv snd_conv ..
  have "port_of ip protocol port = (if port \<le> 0 then {} else {(ip', ?pp)})"
    by (simp add: port_of_def san)
  then show ?thesis
    by (auto simp: CheckConflict_def san Let_def port_taken_list_ex [OF ok] tk)
qed

lemma CheckConflict_example:
  "CheckConflict (HostPortInfo_Add [] ''10.0.0.1'' ''TCP'' 80) [] [] 80 \<and>
   \<not> CheckConflict (HostPortInfo_Add [] ''10.0.0.1'' ''TCP'' 80) ''10.0.0.2'' [] 80"
proof -
  have "ports_ok (HostPortInfo_Add [] ''10.0.0.1'' ''TCP'' 80)"
    by (rule HostPortInfo_Add_ports_ok) (simp add: ports_ok_def)
  note C = CheckConflict_iff [OF this]
  show ?thesis unfolding C
    by (auto simp: HostPortInfo_Add_taken port_of_def sanitize_def NewProtocolPort_def DefaultBindAllHostIP_def)
qed

lemma Resource_Add_scalars:
  assumes "fst ` set m \<inter> {ResourceCPU, ResourceMemory, ResourcePods, ResourceEphemeralStorage} = {}"
    and "gm_ok m" and "\<forall>e\<in>set m. in64 (snd e) \<and> qty_Value (newQty (snd e)) = snd e"
    and "fst ` set m \<inter> fst ` set (nilmap (ScalarResources r)) = {}"
  shows "Resource_Add r (map (\<lambda>e. (fst e, newQty (snd e))) m) =
    (if m = [] then r else r\<lparr>ScalarResources := Some (nilmap (ScalarResources r) @ m)\<rparr>)"
  using assms unfolding Resource_Add_def
proof (induction m arbitrary: r)
  case (Cons e m)
  obtain k v where e [simp]: "e = (k, v)" by force
  have nin: "k \<notin> fst ` set (nilmap (ScalarResources r))" using Cons.prems(4) by auto
  have put: "gm_put (nilmap (ScalarResources r)) k v = nilmap (ScalarResources r) @ [(k, v)]"
    using nin by (rule gm_put_new)
  let ?r = "r\<lparr>ScalarResources := Some (nilmap (ScalarResources r) @ [(k, v)])\<rparr>"
  have "Resource_Add1 (k, newQty v) r = ?r"
    using Cons.prems(1,3) nin put
    by (auto simp: Resource_Add1_def Let_def AddScalar_def SetScalar_def gm_get0_notin)
  moreover have "fold Resource_Add1 (map (\<lambda>e. (fst e, newQty (snd e))) m) ?r =
      (if m = [] then ?r else ?r\<lparr>ScalarResources := Some (nilmap (ScalarResources ?r) @ m)\<rparr>)"
    using Cons.prems by (intro Cons.IH) (auto simp: gm_ok_def)
  ultimately show ?case by simp
qed simp

lemma fold_put_new:
  "gm_ok m \<Longrightarrow> fst ` set m \<inter> fst ` set m0 = {} \<Longrightarrow>
    fold (\<lambda>e r. gm_put r (fst e) (g (snd e))) m m0 = m0 @ map (\<lambda>e. (fst e, g (snd e))) m"
proof (induction m arbitrary: m0)
  case (Cons e m)
  then have "gm_put m0 (fst e) (g (snd e)) = m0 @ [(fst e, g (snd e))]"
    by (intro gm_put_new) auto
  with Cons.IH [of "m0 @ [(fst e, g (snd e))]"] Cons.prems show ?case by (auto simp: gm_ok_def)
qed simp

text \<open>
  Turning a resource into a resource list and reading that list back gives the resource, for
  int64 amounts and scalar resources that are not one of the four built-in ones, given that
  quantities made from an amount return that amount.
\<close>

theorem resource_list_roundtrip:
  assumes milli: "\<And>v. qty_MilliValue (newMilli v) = v" and qty: "\<And>v. qty_Value (newQty v) = v"
    and in64: "in64 (MilliCPU r)" "in64 (Memory r)" "in64 (AllowedPodNumber r)" "in64 (EphemeralStorage r)"
    and sc: "ScalarResources r = Some m" "m \<noteq> []" "gm_ok m" "\<forall>e\<in>set m. in64 (snd e)"
    and names: "fst ` set m \<inter> {ResourceCPU, ResourceMemory, ResourcePods, ResourceEphemeralStorage} = {}"
  shows "NewResource (Resource_ResourceList newMilli newQty r) = r"
proof -
  let ?base = "[(ResourceCPU, newMilli (MilliCPU r)), (ResourceMemory, newQty (Memory r)),
       (ResourcePods, newQty (AllowedPodNumber r)), (ResourceEphemeralStorage, newQty (EphemeralStorage r))]"
  let ?r0 = "zero_Resource\<lparr>MilliCPU := MilliCPU r, Memory := Memory r,
      AllowedPodNumber := AllowedPodNumber r, EphemeralStorage := EphemeralStorage r\<rparr>"
  have "Resource_ResourceList newMilli newQty r = ?base @ map (\<lambda>e. (fst e, newQty (snd e))) m"
    unfolding Resource_ResourceList_def sc(1) nilmap_simps using names sc(3)
    by (intro fold_put_new) auto
  moreover have "Resource_Add zero_Resource (?base @ rest) = Resource_Add ?r0 rest" for rest
    using in64 by (simp add: Resource_Add_def Resource_Add1_def milli qty zero_Resource_def)
  moreover have "Resource_Add ?r0 (map (\<lambda>e. (fst e, newQty (snd e))) m) =
      ?r0\<lparr>ScalarResources := Some ([] @ m)\<rparr>"
    using Resource_Add_scalars [of m newQty ?r0] names sc qty by (simp add: zero_Resource_def)
  ultimately show ?thesis
    using sc(1) by (cases r) (simp add: NewResource_def zero_Resource_def)
qed

theorem resource_list_roundtrip_witness:
  "let mk = (\<lambda>v. \<lparr>qty_Value = v, qty_MilliValue = v\<rparr>);
       r = \<lparr>MilliCPU = 250, Memory = 4096, EphemeralStorage = 7, AllowedPodNumber = 110,
         ScalarResources = Some [(''gpu'', 2)]\<rparr>
   in NewResource (Resource_ResourceList mk mk r) = r"
  unfolding Let_def by (rule resource_list_roundtrip) (auto simp: in64_def gm_ok_def)

end
