(* ===== verification/Framework_Types.thy ===== *)
theory Framework_Types
  imports Node_Info
begin

text \<open>
  What plugins exchange with the framework: status codes and their merging
  (\<^verbatim>\<open>framework/v1alpha1/interface.go\<close>), the state of a scheduling cycle
  (\<^verbatim>\<open>framework/v1alpha1/cycle_state.go\<close>), the registry of plugin factories
  (\<^verbatim>\<open>framework/runtime/registry.go\<close>), and pods that wait for a permit
  (\<^verbatim>\<open>framework/runtime/waiting_pods_map.go\<close>).

  A \<open>*Status\<close> is an option: nil counts as success. The channel of a waiting pod has a buffer of one
  status and is only sent to without blocking, so it is an option as well. A timer is known by its
  duration; its firing is an event, and since Go's \<open>Stop\<close> does not wait for a function that has
  been started already, the event may come after \<open>Stop\<close>.
\<close>

subsection \<open>Status\<close>

datatype Code = Success | Error | Unschedulable | UnschedulableAndUnresolvable | Wait | Skip

fun Code_String :: "Code \<Rightarrow> string" where
  "Code_String Success = ''Success''"
| "Code_String Error = ''Error''"
| "Code_String Unschedulable = ''Unschedulable''"
| "Code_String UnschedulableAndUnresolvable = ''UnschedulableAndUnresolvable''"
| "Code_String Wait = ''Wait''"
| "Code_String Skip = ''Skip''"

definition MaxNodeScore :: int where "MaxNodeScore = 100"
definition MinNodeScore :: int where "MinNodeScore = 0"
definition MaxTotalScore :: int where "MaxTotalScore = 2 ^ 63 - 1"

record Status =
  st_code :: Code
  st_reasons :: "string list"

record NodeScore =
  ns_Name :: string
  ns_Score :: int

type_synonym NodeScoreList = "NodeScore list"
type_synonym PluginToNodeScores = "(string, NodeScoreList) gomap"
type_synonym PluginToStatus = "(string, Status option) gomap"
type_synonym NodeToStatusMap = "(string, Status option) gomap"

definition Status_Code :: "Status option \<Rightarrow> Code" where
  "Status_Code s = (case s of None \<Rightarrow> Success | Some st \<Rightarrow> st_code st)"

fun strings_Join :: "string list \<Rightarrow> string \<Rightarrow> string" where
  "strings_Join [] sep = []"
| "strings_Join [x] sep = x"
| "strings_Join (x # y # xs) sep = x @ sep @ strings_Join (y # xs) sep"

definition Message :: "Status option \<Rightarrow> string" where
  "Message s = (case s of None \<Rightarrow> [] | Some st \<Rightarrow> strings_Join (st_reasons st) '', '')"

text \<open>A nil status has no field to read or write.\<close>

definition Reasons :: "Status option \<Rightarrow> string list option" where
  "Reasons s = map_option st_reasons s"

definition AppendReason :: "Status \<Rightarrow> string \<Rightarrow> Status" where
  "AppendReason s reason = s\<lparr>st_reasons := st_reasons s @ [reason]\<rparr>"

definition IsSuccess :: "Status option \<Rightarrow> bool" where
  "IsSuccess s = (Status_Code s = Success)"

definition IsUnschedulable :: "Status option \<Rightarrow> bool" where
  "IsUnschedulable s = (let code = Status_Code s in code = Unschedulable \<or> code = UnschedulableAndUnresolvable)"

definition AsError :: "Status option \<Rightarrow> error option" where
  "AsError s = (if IsSuccess s then None else Some (Message s))"

definition NewStatus :: "Code \<Rightarrow> string list \<Rightarrow> Status" where
  "NewStatus code reasons = \<lparr>st_code = code, st_reasons = reasons\<rparr>"

text \<open>The state of the loop of \<open>Merge\<close>: the status, and the three flags.\<close>

type_synonym merge_state = "Status \<times> bool \<times> bool \<times> bool"

definition merge_one :: "Status option \<Rightarrow> merge_state \<Rightarrow> merge_state option" where
  "merge_one s st =
    (case st of (finalStatus, hasError, hasUU, hasU) \<Rightarrow>
       let hasError' = (hasError \<or> Status_Code s = Error);
           hasUU' = (hasUU \<or> Status_Code s = UnschedulableAndUnresolvable);
           hasU' = (hasU \<or> Status_Code s = Unschedulable)
       in do { rs \<leftarrow> Reasons s;
               Some (fold (\<lambda>r f. AppendReason f r) rs (finalStatus\<lparr>st_code := Status_Code s\<rparr>),
                 hasError', hasUU', hasU') })"

fun merge_loop :: "Status option list \<Rightarrow> merge_state \<Rightarrow> merge_state option" where
  "merge_loop [] st = Some st"
| "merge_loop (s # ss) st = do { st' \<leftarrow> merge_one s st; merge_loop ss st' }"

definition Merge :: "PluginToStatus \<Rightarrow> Status option option" where
  "Merge p =
    (if length p = 0 then Some None
     else do { (finalStatus, hasError, hasUU, hasU) \<leftarrow>
                 merge_loop (map snd p) (NewStatus Success [], False, False, False);
               Some (Some (
                 if hasError then finalStatus\<lparr>st_code := Error\<rparr>
                 else if hasUU then finalStatus\<lparr>st_code := UnschedulableAndUnresolvable\<rparr>
                 else if hasU then finalStatus\<lparr>st_code := Unschedulable\<rparr>
                 else finalStatus)) })"

subsection \<open>Cycle state\<close>

text \<open>The data of a plugin is of a type of its own, with its method \<open>Clone\<close> as a parameter.\<close>

record 'd CycleState =
  storage :: "(string, 'd) gomap"
  recordPluginMetrics :: bool

definition NewCycleState :: "'d CycleState" where
  "NewCycleState = \<lparr>storage = [], recordPluginMetrics = False\<rparr>"

definition ShouldRecordPluginMetrics :: "'d CycleState option \<Rightarrow> bool" where
  "ShouldRecordPluginMetrics c = (case c of None \<Rightarrow> False | Some c' \<Rightarrow> recordPluginMetrics c')"

definition SetRecordPluginMetrics :: "'d CycleState option \<Rightarrow> bool \<Rightarrow> 'd CycleState option" where
  "SetRecordPluginMetrics c flag = map_option (\<lambda>c'. c'\<lparr>recordPluginMetrics := flag\<rparr>) c"

definition CycleState_Write :: "'d CycleState \<Rightarrow> string \<Rightarrow> 'd \<Rightarrow> 'd CycleState" where
  "CycleState_Write c key val = c\<lparr>storage := gm_put (storage c) key val\<rparr>"

definition CycleState_Read :: "'d CycleState \<Rightarrow> string \<Rightarrow> error + 'd" where
  "CycleState_Read c key = (case gm_get (storage c) key of Some v \<Rightarrow> Inr v | None \<Rightarrow> Inl ''not found'')"

definition CycleState_Delete :: "'d CycleState \<Rightarrow> string \<Rightarrow> 'd CycleState" where
  "CycleState_Delete c key = c\<lparr>storage := gm_del (storage c) key\<rparr>"

definition CycleState_Clone :: "('d \<Rightarrow> 'd) \<Rightarrow> 'd CycleState option \<Rightarrow> 'd CycleState option" where
  "CycleState_Clone clone c =
    (case c of None \<Rightarrow> None
     | Some c' \<Rightarrow> Some (fold (\<lambda>e copy. CycleState_Write copy (fst e) (clone (snd e))) (storage c') NewCycleState))"

subsection \<open>Registry\<close>

definition Registry_Register :: "(string, 'f) gomap \<Rightarrow> string \<Rightarrow> 'f \<Rightarrow> (string, 'f) gomap \<times> error option" where
  "Registry_Register r name factory =
    (if gm_has r name then (r, Some (''a plugin named '' @ name @ '' already exists''))
     else (gm_put r name factory, None))"

definition Registry_Unregister :: "(string, 'f) gomap \<Rightarrow> string \<Rightarrow> (string, 'f) gomap \<times> error option" where
  "Registry_Unregister r name =
    (if \<not> gm_has r name then (r, Some (''no plugin named '' @ name @ '' exists''))
     else (gm_del r name, None))"

fun Registry_Merge :: "(string, 'f) gomap \<Rightarrow> (string, 'f) gomap \<Rightarrow> (string, 'f) gomap \<times> error option" where
  "Registry_Merge r [] = (r, None)"
| "Registry_Merge r ((name, factory) # ins) =
    (case Registry_Register r name factory of
       (r', Some err) \<Rightarrow> (r', Some err)
     | (r', None) \<Rightarrow> Registry_Merge r' ins)"

subsection \<open>Waiting pods\<close>

record waitingPod =
  wp_pod :: Pod
  pendingPlugins :: "(string, int) gomap"
  wp_s :: "Status option"

type_synonym waitingPodsMap = "(string, waitingPod) gomap"

definition newWaitingPodsMap :: waitingPodsMap where
  "newWaitingPodsMap = []"

definition wpm_add :: "waitingPodsMap \<Rightarrow> waitingPod \<Rightarrow> waitingPodsMap" where
  "wpm_add m wp = gm_put m (pod_UID (wp_pod wp)) wp"

definition wpm_remove :: "waitingPodsMap \<Rightarrow> string \<Rightarrow> waitingPodsMap" where
  "wpm_remove m uid = gm_del m uid"

definition wpm_get :: "waitingPodsMap \<Rightarrow> string \<Rightarrow> waitingPod option" where
  "wpm_get m uid = gm_get m uid"

definition wpm_iterate :: "(waitingPod \<Rightarrow> waitingPod) \<Rightarrow> waitingPodsMap \<Rightarrow> waitingPodsMap" where
  "wpm_iterate callback m = map (\<lambda>e. (fst e, callback (snd e))) m"

definition newWaitingPod :: "Pod \<Rightarrow> (string, int) gomap \<Rightarrow> waitingPod" where
  "newWaitingPod pod pluginsMaxWaitTime =
    \<lparr>wp_pod = pod, pendingPlugins = gm_copy pluginsMaxWaitTime, wp_s = None\<rparr>"

definition GetPendingPlugins :: "waitingPod \<Rightarrow> string list" where
  "GetPendingPlugins w = gm_keys (pendingPlugins w)"

text \<open>\<open>select\<close> with a send and a default: the status is dropped when the buffer is full.\<close>

definition send :: "waitingPod \<Rightarrow> Status \<Rightarrow> waitingPod" where
  "send w s = (if wp_s w = None then w\<lparr>wp_s := Some s\<rparr> else w)"

definition Allow :: "waitingPod \<Rightarrow> string \<Rightarrow> waitingPod" where
  "Allow w pluginName =
    (let w1 = w\<lparr>pendingPlugins := gm_del (pendingPlugins w) pluginName\<rparr> in
     if length (pendingPlugins w1) \<noteq> 0 then w1
     else send w1 (NewStatus Success ['''']))"

definition Reject :: "waitingPod \<Rightarrow> string \<Rightarrow> waitingPod" where
  "Reject w msg = send w (NewStatus Unschedulable [msg])"

subsection \<open>What merging gives\<close>

text \<open>The documented precedence of codes; without any of the three, the last code visited stays.\<close>

fun merged_code :: "Code list \<Rightarrow> Code" where
  "merged_code cs =
    (if List.member cs Error then Error
     else if List.member cs UnschedulableAndUnresolvable then UnschedulableAndUnresolvable
     else if List.member cs Unschedulable then Unschedulable
     else if cs = [] then Success else last cs)"

lemma fold_AppendReason [simp]:
  "fold (\<lambda>r f. AppendReason f r) rs st = st\<lparr>st_reasons := st_reasons st @ rs\<rparr>"
  by (induction rs arbitrary: st) (simp_all add: AppendReason_def)

lemma merge_one_Some [simp]:
  "merge_one (Some s) (f, e, uu, u) =
    Some (\<lparr>st_code = st_code s, st_reasons = st_reasons f @ st_reasons s\<rparr>,
      e \<or> st_code s = Error, uu \<or> st_code s = UnschedulableAndUnresolvable, u \<or> st_code s = Unschedulable)"
  by (simp add: merge_one_def Reasons_def Status_Code_def Let_def)

lemma merge_one_None [simp]: "merge_one None st = None"
  by (simp add: merge_one_def Reasons_def Let_def split: prod.split)

lemma merge_loop_nil: "None \<in> set ss \<Longrightarrow> merge_loop ss st = None"
proof (induction ss arbitrary: st)
  case (Cons s ss)
  then show ?case by (cases s; cases st) auto
qed simp

lemma merge_loop_all:
  "merge_loop (map Some ss) (f, e, uu, u) =
    Some (\<lparr>st_code = (if ss = [] then st_code f else st_code (last ss)),
           st_reasons = st_reasons f @ concat (map st_reasons ss)\<rparr>,
      e \<or> Error \<in> st_code ` set ss, uu \<or> UnschedulableAndUnresolvable \<in> st_code ` set ss,
      u \<or> Unschedulable \<in> st_code ` set ss)"
  by (induction ss arbitrary: f e uu u) (auto simp: image_iff)

lemma all_Some_map: "None \<notin> set xs \<Longrightarrow> xs = map Some (map the xs)"
  by (induction xs) auto

lemma Merge_eq:
  "Merge p =
    (if p = [] then Some None
     else if None \<in> snd ` set p then None
     else Some (Some \<lparr>st_code = merged_code (map (Status_Code \<circ> snd) p),
                      st_reasons = concat (map (st_reasons \<circ> the \<circ> snd) p)\<rparr>))"
proof (cases "p = [] \<or> None \<in> snd ` set p")
  case True
  then show ?thesis by (auto simp: Merge_def merge_loop_nil)
next
  case False
  define ss where "ss = map the (map snd p)"
  have p: "map snd p = map Some ss"
    unfolding ss_def using False by (intro all_Some_map) auto
  then have codes: "map (Status_Code \<circ> snd) p = map st_code ss"
    unfolding map_map [symmetric] p by (simp add: Status_Code_def)
  have reasons: "map (st_reasons \<circ> the \<circ> snd) p = map st_reasons ss"
    by (simp add: ss_def)
  from False p show ?thesis
    by (simp add: Merge_def p codes reasons merge_loop_all NewStatus_def last_map image_iff)
qed

text \<open>Merging the statuses of plugins panics exactly when one of them is nil; otherwise it gives
  nil for no status at all, and else a status whose code is an error before an unresolvable one
  before an unschedulable one, and whose reasons are all the reasons, in order.\<close>

theorem Merge_precedence:
  "Merge p =
    (if p = [] then Some None
     else if None \<in> snd ` set p then None
     else Some (Some \<lparr>st_code = merged_code (map (Status_Code \<circ> snd) p),
                      st_reasons = concat (map (st_reasons \<circ> the \<circ> snd) p)\<rparr>))"
  by (rule Merge_eq)

subsection \<open>What a waiting pod hears\<close>

text \<open>
  What happens to a waiting pod from outside: a plugin allows it, somebody rejects it, or a timer
  runs out. The order of the calls is the order in which they get the lock.
\<close>

datatype wp_event = Ev_Allow string | Ev_Reject string | Ev_Timeout string string

definition wp_step :: "wp_event \<Rightarrow> waitingPod \<Rightarrow> waitingPod" where
  "wp_step e w =
    (case e of
       Ev_Allow plugin \<Rightarrow> Allow w plugin
     | Ev_Reject msg \<Rightarrow> Reject w msg
     | Ev_Timeout waitTime plugin \<Rightarrow>
         Reject w (''rejected due to timeout after waiting '' @ waitTime @ '' at plugin '' @ plugin))"

fun granted :: "wp_event list \<Rightarrow> string set" where
  "granted [] = {}"
| "granted (Ev_Allow p # es) = insert p (granted es)"
| "granted (_ # es) = granted es"

definition refused :: "wp_event list \<Rightarrow> bool" where
  "refused es \<longleftrightarrow> \<not> (\<forall>e\<in>set es. \<exists>p. e = Ev_Allow p)"

lemma granted_append [simp]: "granted (xs @ ys) = granted xs \<union> granted ys"
  by (induction xs rule: granted.induct) auto

lemma refused_simps [simp]:
  "\<not> refused []" "refused (xs @ ys) = (refused xs \<or> refused ys)" "refused [e] = (\<forall>p. e \<noteq> Ev_Allow p)"
  by (auto simp: refused_def)

lemma send_fields [simp]:
  "pendingPlugins (send w s) = pendingPlugins w" "wp_pod (send w s) = wp_pod w"
  "wp_s (send w s) = (if wp_s w = None then Some s else wp_s w)"
  by (simp_all add: send_def)

lemma Allow_fields [simp]:
  "pendingPlugins (Allow w p) = gm_del (pendingPlugins w) p"
  "wp_s (Allow w p) =
    (if wp_s w = None \<and> gm_del (pendingPlugins w) p = [] then Some (NewStatus Success ['''']) else wp_s w)"
  by (simp_all add: Allow_def Let_def)

lemma Reject_fields [simp]:
  "pendingPlugins (Reject w m) = pendingPlugins w"
  "wp_s (Reject w m) = (if wp_s w = None then Some (NewStatus Unschedulable [m]) else wp_s w)"
  by (simp_all add: Reject_def)

lemma wp_run_pending:
  "fst ` set (pendingPlugins (fold wp_step es w)) = fst ` set (pendingPlugins w) - granted es"
proof (induction es arbitrary: w)
  case (Cons e es)
  then show ?case by (cases e) (auto simp: wp_step_def)
qed simp

text \<open>The prefix of events after which the pod has been let through, if there is one.\<close>

definition let_through :: "string set \<Rightarrow> wp_event list \<Rightarrow> bool" where
  "let_through ps es \<longleftrightarrow> (\<exists>pre suf. es = pre @ suf \<and> pre \<noteq> [] \<and> \<not> refused pre \<and> ps \<subseteq> granted pre)"

lemma let_through_snoc: "let_through ps (es @ [e]) \<longleftrightarrow>
    let_through ps es \<or> (\<not> refused (es @ [e]) \<and> ps \<subseteq> granted (es @ [e]))"
proof
  assume "let_through ps (es @ [e])"
  then obtain pre suf where p: "es @ [e] = pre @ suf" "pre \<noteq> []" "\<not> refused pre" "ps \<subseteq> granted pre"
    by (auto simp: let_through_def)
  then show "let_through ps es \<or> (\<not> refused (es @ [e]) \<and> ps \<subseteq> granted (es @ [e]))"
    by (cases suf rule: rev_cases) (auto simp: let_through_def)
next
  assume r: "let_through ps es \<or> (\<not> refused (es @ [e]) \<and> ps \<subseteq> granted (es @ [e]))"
  show "let_through ps (es @ [e])"
  proof (cases "let_through ps es")
    case True
    then show ?thesis unfolding let_through_def by (metis append.assoc)
  next
    case False
    with r have "es @ [e] = (es @ [e]) @ [] \<and> es @ [e] \<noteq> [] \<and> \<not> refused (es @ [e]) \<and> ps \<subseteq> granted (es @ [e])"
      by simp
    then show ?thesis unfolding let_through_def by blast
  qed
qed

lemma let_through_Nil [simp]: "\<not> let_through ps []"
  by (simp add: let_through_def)

lemma wp_step_signal:
  "wp_s (wp_step e w) =
    (if wp_s w \<noteq> None then wp_s w
     else case e of
       Ev_Allow p \<Rightarrow> if fst ` set (pendingPlugins w) \<subseteq> {p} then Some (NewStatus Success ['''']) else None
     | Ev_Reject m \<Rightarrow> Some (NewStatus Unschedulable [m])
     | Ev_Timeout t p \<Rightarrow>
         Some (NewStatus Unschedulable [''rejected due to timeout after waiting '' @ t @ '' at plugin '' @ p]))"
proof -
  have "gm_del m p = [] \<longleftrightarrow> fst ` set m \<subseteq> {p}" for m :: "(string, int) gomap" and p
    by (auto simp: gm_del_def filter_empty_conv)
  then show ?thesis
    by (cases e) (auto simp: wp_step_def)
qed

lemma wp_run_code:
  fixes w :: waitingPod
  assumes "wp_s w = None" "pendingPlugins w = m"
  shows "map_option st_code (wp_s (fold wp_step es w)) =
    (if let_through (fst ` set m) es then Some Success
     else if refused es then Some Unschedulable else None)"
proof (induction es rule: rev_induct)
  case Nil
  then show ?case using assms by simp
next
  case (snoc e es)
  let ?w = "fold wp_step es w"
  have pend: "fst ` set (pendingPlugins ?w) = fst ` set m - granted es"
    by (simp add: wp_run_pending assms)
  show ?case
  proof (cases "wp_s ?w")
    case None
    with snoc have "\<not> let_through (fst ` set m) es" "\<not> refused es"
      by (auto split: if_splits)
    with None pend show ?thesis
      by (cases e) (auto simp: wp_step_signal let_through_snoc NewStatus_def)
  next
    case (Some s)
    with snoc have "let_through (fst ` set m) es \<or> refused es"
      by (auto split: if_splits)
    with Some snoc show ?thesis
      by (auto simp: wp_step_signal let_through_snoc split: if_splits)
  qed
qed

text \<open>However allowing, rejecting and running timers are interleaved, a waiting pod is told
  \<open>Success\<close> exactly when every plugin it waits for allowed it before anybody refused it or a
  timer ran out, is told \<open>Unschedulable\<close> when a refusal or a time-out came first, and is
  told nothing otherwise; the first verdict stays.\<close>

theorem waiting_pod_verdict:
  "map_option st_code (wp_s (fold wp_step es (newWaitingPod pod m))) =
    (if let_through (fst ` set m) es then Some Success
     else if refused es then Some Unschedulable else None)"
  using wp_run_code [of "newWaitingPod pod m" "gm_copy m" es]
  by (simp add: newWaitingPod_def set_keys_copy)

subsection \<open>Cycle state and registry\<close>

lemma fold_Write_get:
  "gm_get (storage (fold (\<lambda>e copy. CycleState_Write copy (fst e) (clone (snd e))) m c)) k =
    (case gm_get (rev m) k of Some v \<Rightarrow> Some (clone v) | None \<Rightarrow> gm_get (storage c) k)"
proof (induction m arbitrary: c)
  case (Cons e m)
  have "gm_get (rev (e # m)) k = (case gm_get (rev m) k of None \<Rightarrow> (if k = fst e then Some (snd e) else None) | Some v \<Rightarrow> Some v)"
    by (cases e) (simp add: gm_get_def map_add_def split: option.split)
  with Cons show ?case by (auto simp: CycleState_Write_def split: option.splits)
qed simp

text \<open>A clone of a cycle state reads, under each key, the clone of what the original reads
  there, and what is written to or deleted from the clone afterwards is read back from it.\<close>

theorem CycleState_clone_reads:
  assumes "gm_ok (storage c)" "CycleState_Clone clone (Some c) = Some d"
  shows "CycleState_Read d k =
        (case CycleState_Read c k of Inl err \<Rightarrow> Inl err | Inr v \<Rightarrow> Inr (clone v))
    \<and> CycleState_Read (CycleState_Write d k' v) k = (if k = k' then Inr v else CycleState_Read d k)
    \<and> CycleState_Read (CycleState_Delete d k') k = (if k = k' then Inl ''not found'' else CycleState_Read d k)"
proof -
  have d: "storage d = storage (fold (\<lambda>e copy. CycleState_Write copy (fst e) (clone (snd e))) (storage c) NewCycleState)"
    using assms(2) by (simp add: CycleState_Clone_def)
  have "CycleState_Read d k =
      (case CycleState_Read c k of Inl err \<Rightarrow> Inl err | Inr v \<Rightarrow> Inr (clone v))"
    using assms(1)
    by (simp add: CycleState_Read_def d fold_Write_get gm_get_rev NewCycleState_def split: option.split)
  then show ?thesis
    by (simp add: CycleState_Read_def CycleState_Write_def CycleState_Delete_def)
qed

theorem CycleState_clone_reads_witness:
  "CycleState_Read (the (CycleState_Clone Suc (Some \<lparr>storage = [(''a'', 1)], recordPluginMetrics = True\<rparr>))) ''a''
    = Inr 2"
  using CycleState_clone_reads [of "\<lparr>storage = [(''a'', 1)], recordPluginMetrics = True\<rparr>" Suc
      "the (CycleState_Clone Suc (Some \<lparr>storage = [(''a'', 1)], recordPluginMetrics = True\<rparr>))" "''a''"]
  by (simp add: gm_ok_def CycleState_Clone_def CycleState_Read_def gm_get_def numeral_2_eq_2)

text \<open>
  Merging registries: an error means that some name is registered already, and a success that
  the look-up goes to the merged registry first, without any name in common.
\<close>

lemma Registry_Merge_spec:
  assumes "gm_ok ins"
  shows "case Registry_Merge r ins of
      (r', None) \<Rightarrow> fst ` set r \<inter> fst ` set ins = {} \<and> gm_get r' = gm_get r ++ gm_get ins
    | (r', Some err) \<Rightarrow> fst ` set r \<inter> fst ` set ins \<noteq> {}"
  using assms
proof (induction r ins rule: Registry_Merge.induct)
  case (1 r)
  then show ?case by simp
next
  case (2 r name factory ins)
  show ?case
  proof (cases "gm_has r name")
    case True
    then have "name \<in> fst ` set r" by (metis gm_get_eq_None gm_has_def)
    with True show ?thesis by (auto simp: Registry_Register_def)
  next
    case False
    then have notin: "name \<notin> fst ` set r" by (simp add: gm_has_def gm_get_eq_None)
    have ok: "gm_ok ins" "name \<notin> fst ` set ins" using "2.prems" by (auto simp: gm_ok_def)
    have reg: "Registry_Register r name factory = (gm_put r name factory, None)"
      using False by (simp add: Registry_Register_def)
    have new: "gm_get ins name = None" using ok(2) by (simp add: gm_get_eq_None)
    have upd: "(gm_get r)(name \<mapsto> factory) ++ gm_get ins = gm_get r ++ gm_get ((name, factory) # ins)"
      using new by (auto simp: map_add_def gm_get_def fun_eq_iff split: option.split)
    show ?thesis
      using "2.IH" [OF reg [symmetric] refl ok(1)] notin ok(2) upd
      by (auto simp: reg gm_get_put_map simp del: fun_upd_apply split: prod.splits option.splits)
  qed
qed

end
