(* ===== verification/Plugin_Config.thy ===== *)
theory Plugin_Config
  imports Go_Base
begin

text \<open>
  Which plugins a profile enables: \<^verbatim>\<open>Plugins\<close>, \<^verbatim>\<open>PluginSet\<close> and \<^verbatim>\<open>Plugin\<close> of
  \<^verbatim>\<open>scheduler/apis/config/types.go\<close>, and how the plugins of a user are merged into the default
  ones. A pointer that may be nil is an option; the receiver of \<open>Append\<close> may be nil too.
\<close>

record Plugin =
  plg_Name :: string
  plg_Weight :: int

record PluginSet =
  Enabled :: "Plugin list"
  Disabled :: "Plugin list"

record Plugins =
  ps_QueueSort :: "PluginSet option"
  ps_PreFilter :: "PluginSet option"
  ps_Filter :: "PluginSet option"
  ps_PostFilter :: "PluginSet option"
  ps_PreScore :: "PluginSet option"
  ps_Score :: "PluginSet option"
  ps_Reserve :: "PluginSet option"
  ps_Permit :: "PluginSet option"
  ps_PreBind :: "PluginSet option"
  ps_Bind :: "PluginSet option"
  ps_PostBind :: "PluginSet option"

definition empty_set :: PluginSet where
  "empty_set = \<lparr>Enabled = [], Disabled = []\<rparr>"

definition appendPluginSet :: "PluginSet option \<Rightarrow> PluginSet option \<Rightarrow> PluginSet option" where
  "appendPluginSet dst src =
    (let dst1 = (case dst of None \<Rightarrow> empty_set | Some d \<Rightarrow> d) in
     case src of
       None \<Rightarrow> Some dst1
     | Some s \<Rightarrow> Some \<lparr>Enabled = Enabled dst1 @ Enabled s, Disabled = Disabled dst1 @ Disabled s\<rparr>)"

definition Plugins_Append :: "Plugins option \<Rightarrow> Plugins option \<Rightarrow> Plugins option" where
  "Plugins_Append p src =
    (case (p, src) of
       (Some p, Some s) \<Rightarrow> Some
         \<lparr>ps_QueueSort = appendPluginSet (ps_QueueSort p) (ps_QueueSort s),
          ps_PreFilter = appendPluginSet (ps_PreFilter p) (ps_PreFilter s),
          ps_Filter = appendPluginSet (ps_Filter p) (ps_Filter s),
          ps_PostFilter = appendPluginSet (ps_PostFilter p) (ps_PostFilter s),
          ps_PreScore = appendPluginSet (ps_PreScore p) (ps_PreScore s),
          ps_Score = appendPluginSet (ps_Score p) (ps_Score s),
          ps_Reserve = appendPluginSet (ps_Reserve p) (ps_Reserve s),
          ps_Permit = appendPluginSet (ps_Permit p) (ps_Permit s),
          ps_PreBind = appendPluginSet (ps_PreBind p) (ps_PreBind s),
          ps_Bind = appendPluginSet (ps_Bind p) (ps_Bind s),
          ps_PostBind = appendPluginSet (ps_PostBind p) (ps_PostBind s)\<rparr>
     | _ \<Rightarrow> p)"

definition mergePluginSets :: "PluginSet option \<Rightarrow> PluginSet option \<Rightarrow> PluginSet option" where
  "mergePluginSets defaultPluginSet customPluginSet =
    (let custom = (case customPluginSet of None \<Rightarrow> empty_set | Some s \<Rightarrow> s);
         dflt = (case defaultPluginSet of None \<Rightarrow> empty_set | Some s \<Rightarrow> s);
         disabledPlugins = map plg_Name (Disabled custom);
         enabledPlugins =
           (if \<not> List.member disabledPlugins ''*'' then
              filter (\<lambda>p. \<not> List.member disabledPlugins (plg_Name p)) (Enabled dflt)
            else [])
     in Some \<lparr>Enabled = enabledPlugins @ Enabled custom, Disabled = []\<rparr>)"

definition Plugins_Apply :: "Plugins \<Rightarrow> Plugins option \<Rightarrow> Plugins" where
  "Plugins_Apply p customPlugins =
    (case customPlugins of
       None \<Rightarrow> p
     | Some c \<Rightarrow>
         \<lparr>ps_QueueSort = mergePluginSets (ps_QueueSort p) (ps_QueueSort c),
          ps_PreFilter = mergePluginSets (ps_PreFilter p) (ps_PreFilter c),
          ps_Filter = mergePluginSets (ps_Filter p) (ps_Filter c),
          ps_PostFilter = mergePluginSets (ps_PostFilter p) (ps_PostFilter c),
          ps_PreScore = mergePluginSets (ps_PreScore p) (ps_PreScore c),
          ps_Score = mergePluginSets (ps_Score p) (ps_Score c),
          ps_Reserve = mergePluginSets (ps_Reserve p) (ps_Reserve c),
          ps_Permit = mergePluginSets (ps_Permit p) (ps_Permit c),
          ps_PreBind = mergePluginSets (ps_PreBind p) (ps_PreBind c),
          ps_Bind = mergePluginSets (ps_Bind p) (ps_Bind c),
          ps_PostBind = mergePluginSets (ps_PostBind p) (ps_PostBind c)\<rparr>)"

definition no_plugins :: Plugins where
  "no_plugins = \<lparr>ps_QueueSort = None, ps_PreFilter = None, ps_Filter = None, ps_PostFilter = None,
     ps_PreScore = None, ps_Score = None, ps_Reserve = None, ps_Permit = None, ps_PreBind = None,
     ps_Bind = None, ps_PostBind = None\<rparr>"

subsection \<open>What a merge enables\<close>

text \<open>The extension points, and the names a profile enables at one of them.\<close>

datatype point = QueueSortP | PreFilterP | FilterP | PostFilterP | PreScoreP | ScoreP | ReserveP
  | PermitP | PreBindP | BindP | PostBindP

fun set_at :: "point \<Rightarrow> Plugins \<Rightarrow> PluginSet option" where
  "set_at QueueSortP p = ps_QueueSort p"
| "set_at PreFilterP p = ps_PreFilter p"
| "set_at FilterP p = ps_Filter p"
| "set_at PostFilterP p = ps_PostFilter p"
| "set_at PreScoreP p = ps_PreScore p"
| "set_at ScoreP p = ps_Score p"
| "set_at ReserveP p = ps_Reserve p"
| "set_at PermitP p = ps_Permit p"
| "set_at PreBindP p = ps_PreBind p"
| "set_at BindP p = ps_Bind p"
| "set_at PostBindP p = ps_PostBind p"

definition enabled_at :: "point \<Rightarrow> Plugins \<Rightarrow> Plugin list" where
  "enabled_at x p = (case set_at x p of None \<Rightarrow> [] | Some s \<Rightarrow> Enabled s)"

definition disabled_at :: "point \<Rightarrow> Plugins \<Rightarrow> string list" where
  "disabled_at x p = (case set_at x p of None \<Rightarrow> [] | Some s \<Rightarrow> map plg_Name (Disabled s))"

lemma set_at_Apply: "set_at x (Plugins_Apply p (Some c)) = mergePluginSets (set_at x p) (set_at x c)"
  by (cases x) (simp_all add: Plugins_Apply_def)

lemma set_at_Append:
  "Plugins_Append (Some p) (Some c) = Some q \<Longrightarrow> set_at x q = appendPluginSet (set_at x p) (set_at x c)"
  by (cases x) (auto simp: Plugins_Append_def)

lemma enabled_Append:
  "Plugins_Append (Some p) (Some c) = Some q \<Longrightarrow> enabled_at x q = enabled_at x p @ enabled_at x c"
  by (simp add: enabled_at_def set_at_Append appendPluginSet_def empty_set_def Let_def split: option.split)

lemma enabled_Apply:
  "enabled_at x (Plugins_Apply p (Some c)) =
    (if ''*'' \<in> set (disabled_at x c) then []
     else filter (\<lambda>q. plg_Name q \<notin> set (disabled_at x c)) (enabled_at x p)) @ enabled_at x c"
  by (simp add: enabled_at_def disabled_at_def set_at_Apply mergePluginSets_def empty_set_def Let_def
      filter_False split: option.split)

text \<open>At every extension point, merging a user's plugins into the default ones enables exactly
  the default plugins that are neither disabled by name nor by a star, in their order, and after them
  the user's own plugins; nothing stays disabled, and merging the same sets again without anything
  enabled or disabled changes nothing.\<close>

theorem plugins_apply_enabled:
  "enabled_at x (Plugins_Apply p (Some c)) =
      (if ''*'' \<in> set (disabled_at x c) then []
       else filter (\<lambda>q. plg_Name q \<notin> set (disabled_at x c)) (enabled_at x p)) @ enabled_at x c
    \<and> disabled_at x (Plugins_Apply p (Some c)) = []
    \<and> enabled_at x (Plugins_Apply (Plugins_Apply p (Some c)) (Some no_plugins))
        = enabled_at x (Plugins_Apply p (Some c))"
proof -
  have "disabled_at x (Plugins_Apply p (Some c)) = []"
    by (simp add: disabled_at_def set_at_Apply mergePluginSets_def Let_def)
  moreover have "disabled_at x no_plugins = []" "enabled_at x no_plugins = []"
    by (cases x; simp add: disabled_at_def enabled_at_def no_plugins_def)+
  ultimately show ?thesis by (simp add: enabled_Apply)
qed

end
