(* ===== verification/Framework_Runtime.thy ===== *)
theory Framework_Runtime
  imports Framework_Types Plugin_Config
begin

text \<open>
  The framework that initialises the plugins of a profile and runs them at the extension points:
  \<^verbatim>\<open>scheduler/framework/runtime/framework.go\<close>, with the wrapper around parallel loops of
  \<^verbatim>\<open>scheduler/internal/parallelize\<close>.

  A plugin is a record with one optional entry per plugin interface, which is what the reflection of
  \<open>updatePluginList\<close> tests. Its methods see an environment: a world of type \<open>'w\<close> (whatever
  the plugin reads and changes through its handle) and the cycle state. \<open>Filter\<close>, \<open>Score\<close> and the
  pre-filter extensions run in parallel and only read the world. Time measurements are left out:
  the wrappers \<open>run*Plugin\<close> differ from the plugin's method in them only.

  A parallel loop gets as an argument the order in which its pieces took effect. The pieces of the
  loops here write to different places; what the order decides is which error comes first.
\<close>

text \<open>The verb \<open>%v\<close> on an integer.\<close>

fun nat_digits :: "nat \<Rightarrow> string" where
  "nat_digits n =
    (if n < 10 then [char_of (48 + n)] else nat_digits (n div 10) @ [char_of (48 + n mod 10)])"

declare nat_digits.simps [simp del]

definition go_v :: "int \<Rightarrow> string" where
  "go_v i = (if i < 0 then CHR ''-'' # nat_digits (nat (- i)) else nat_digits (nat i))"

subsection \<open>Parallel loops\<close>

definition sqrt_floor :: "nat \<Rightarrow> nat" where
  "sqrt_floor n = length (filter (\<lambda>k. k * k \<le> n) [1..<Suc n])"

definition chunkSizeFor :: "nat \<Rightarrow> nat" where
  "chunkSizeFor n =
    (let s = sqrt_floor n; r = n div 16 + 1 in
     if s > r then r else if s < 1 then 1 else s)"

text \<open>An error channel keeps the first error sent to it.\<close>

definition SendError :: "error option \<Rightarrow> error \<Rightarrow> error option" where
  "SendError errCh err = (case errCh of None \<Rightarrow> Some err | Some e \<Rightarrow> Some e)"

definition ReceiveError :: "error option \<Rightarrow> error option \<times> error option" where
  "ReceiveError errCh = (errCh, None)"

fun Until :: "nat list \<Rightarrow> (nat \<Rightarrow> 's \<Rightarrow> error option \<times> 's) \<Rightarrow> error option \<times> 's \<Rightarrow> error option \<times> 's" where
  "Until [] piece st = st"
| "Until (i # is) piece (errCh, s) =
    (case piece i s of
       (Some err, s') \<Rightarrow> Until is piece (SendError errCh err, s')
     | (None, s') \<Rightarrow> Until is piece (errCh, s'))"

text \<open>
  What \<open>workqueue.ParallelizeUntil\<close> promises of the pieces it runs: each at most once, and all
  of them unless the context is cancelled, which the pieces do on an error.
\<close>

definition until_order :: "nat \<Rightarrow> nat list \<Rightarrow> (nat \<Rightarrow> 's \<Rightarrow> error option \<times> 's) \<Rightarrow> 's \<Rightarrow> bool" where
  "until_order n order piece s \<longleftrightarrow> distinct order \<and> set order \<subseteq> {..<n} \<and>
    (fst (Until order piece (None, s)) = None \<longrightarrow> set order = {..<n})"

subsection \<open>Plugins\<close>

type_synonym ('d, 'w) env = "'w \<times> 'd CycleState"

type_synonym ('d, 'w) hook = "('d, 'w) env \<Rightarrow> Pod \<Rightarrow> string \<Rightarrow> Status option \<times> ('d, 'w) env"

type_synonym ('d, 'w) extension = "'w \<Rightarrow> 'd CycleState \<Rightarrow> Pod \<Rightarrow> Pod \<Rightarrow> NodeInfo \<Rightarrow> Status option \<times> 'd CycleState"

record ('d, 'w) PreFilterPlugin =
  PreFilter :: "('d, 'w) env \<Rightarrow> Pod \<Rightarrow> Status option \<times> ('d, 'w) env"
  PreFilterExtensions :: "(('d, 'w) extension \<times> ('d, 'w) extension) option"

type_synonym ('d, 'w) FilterPlugin = "'w \<Rightarrow> 'd CycleState \<Rightarrow> Pod \<Rightarrow> NodeInfo \<Rightarrow> Status option"

type_synonym ('d, 'w) PostFilterPlugin =
  "('d, 'w) env \<Rightarrow> Pod \<Rightarrow> NodeToStatusMap \<Rightarrow> (string option \<times> Status option) \<times> ('d, 'w) env"

type_synonym ('d, 'w) PreScorePlugin = "('d, 'w) env \<Rightarrow> Pod \<Rightarrow> Node list \<Rightarrow> Status option \<times> ('d, 'w) env"

record ('d, 'w) ScorePlugin =
  Score :: "'w \<Rightarrow> 'd CycleState \<Rightarrow> Pod \<Rightarrow> string \<Rightarrow> int \<times> Status option"
  ScoreExtensions :: "('w \<Rightarrow> 'd CycleState \<Rightarrow> Pod \<Rightarrow> NodeScoreList \<Rightarrow> NodeScoreList \<times> Status option) option"

record ('d, 'w) ReservePlugin =
  Reserve :: "('d, 'w) hook"
  Unreserve :: "('d, 'w) env \<Rightarrow> Pod \<Rightarrow> string \<Rightarrow> ('d, 'w) env"

type_synonym ('d, 'w) PermitPlugin =
  "('d, 'w) env \<Rightarrow> Pod \<Rightarrow> string \<Rightarrow> (Status option \<times> int) \<times> ('d, 'w) env"

type_synonym ('d, 'w) PostBindPlugin = "('d, 'w) env \<Rightarrow> Pod \<Rightarrow> string \<Rightarrow> ('d, 'w) env"

record ('d, 'w) FPlugin =
  Plugin_Name :: string
  as_QueueSort :: "(QueuedPodInfo \<Rightarrow> QueuedPodInfo \<Rightarrow> bool) option"
  as_PreFilter :: "('d, 'w) PreFilterPlugin option"
  as_Filter :: "('d, 'w) FilterPlugin option"
  as_PostFilter :: "('d, 'w) PostFilterPlugin option"
  as_PreScore :: "('d, 'w) PreScorePlugin option"
  as_Score :: "('d, 'w) ScorePlugin option"
  as_Reserve :: "('d, 'w) ReservePlugin option"
  as_PreBind :: "('d, 'w) hook option"
  as_Bind :: "('d, 'w) hook option"
  as_PostBind :: "('d, 'w) PostBindPlugin option"
  as_Permit :: "('d, 'w) PermitPlugin option"

text \<open>A slice of plugins: the result of \<open>Name()\<close> with the methods of the interface.\<close>

type_synonym 'p plugins = "(string \<times> 'p) list"

type_synonym ('a, 'd, 'w) PluginFactory = "'a option \<Rightarrow> error + ('d, 'w) FPlugin"
type_synonym ('a, 'd, 'w) Registry = "(string, ('a, 'd, 'w) PluginFactory) gomap"

text \<open>The extender interface of \<^verbatim>\<open>framework/v1alpha1/extender.go\<close>, without preemption.\<close>

record 'w Extender =
  ext_Name :: string
  ext_Filter :: "Pod \<Rightarrow> Node list \<Rightarrow> error + Node list \<times> (string, string) gomap"
  ext_Prioritize :: "Pod \<Rightarrow> Node list \<Rightarrow> error + (string \<times> int) list \<times> int"
  ext_Bind :: "Pod \<Rightarrow> string \<Rightarrow> 'w \<Rightarrow> error option \<times> 'w"
  ext_IsBinder :: bool
  ext_IsInterested :: "Pod \<Rightarrow> bool"
  ext_IsIgnorable :: bool

record ('a, 'd, 'w) frameworkImpl =
  registry :: "('a, 'd, 'w) Registry"
  waitingPods :: waitingPodsMap
  pluginNameToWeightMap :: "(string, int) gomap"
  queueSortPlugins :: "(QueuedPodInfo \<Rightarrow> QueuedPodInfo \<Rightarrow> bool) plugins"
  preFilterPlugins :: "('d, 'w) PreFilterPlugin plugins"
  filterPlugins :: "('d, 'w) FilterPlugin plugins"
  postFilterPlugins :: "('d, 'w) PostFilterPlugin plugins"
  preScorePlugins :: "('d, 'w) PreScorePlugin plugins"
  scorePlugins :: "('d, 'w) ScorePlugin plugins"
  reservePlugins :: "('d, 'w) ReservePlugin plugins"
  preBindPlugins :: "('d, 'w) hook plugins"
  bindPlugins :: "('d, 'w) hook plugins"
  postBindPlugins :: "('d, 'w) PostBindPlugin plugins"
  permitPlugins :: "('d, 'w) PermitPlugin plugins"
  profileName :: string
  ph_extenders :: "'w Extender list"
  runAllFilters :: bool

record 'w frameworkOptions =
  opt_profileName :: string
  opt_extenders :: "'w Extender list"
  opt_runAllFilters :: bool

definition defaultFrameworkOptions :: "'w frameworkOptions" where
  "defaultFrameworkOptions = \<lparr>opt_profileName = '''', opt_extenders = [], opt_runAllFilters = False\<rparr>"

definition WithRunAllFilters :: "bool \<Rightarrow> 'w frameworkOptions \<Rightarrow> 'w frameworkOptions" where
  "WithRunAllFilters b opts = opts\<lparr>opt_runAllFilters := b\<rparr>"

definition WithProfileName :: "string \<Rightarrow> 'w frameworkOptions \<Rightarrow> 'w frameworkOptions" where
  "WithProfileName name opts = opts\<lparr>opt_profileName := name\<rparr>"

definition WithExtenders :: "'w Extender list \<Rightarrow> 'w frameworkOptions \<Rightarrow> 'w frameworkOptions" where
  "WithExtenders extenders opts = opts\<lparr>opt_extenders := extenders\<rparr>"

subsection \<open>Initialisation\<close>

text \<open>Sequencing of functions that return a value or an error.\<close>

definition then_ok :: "error + 'a \<Rightarrow> ('a \<Rightarrow> error + 'b) \<Rightarrow> error + 'b" where
  "then_ok r k = (case r of Inl err \<Rightarrow> Inl err | Inr x \<Rightarrow> k x)"

lemma then_ok_simps [simp]: "then_ok (Inl err) k = Inl err" "then_ok (Inr x) k = k x"
  by (simp_all add: then_ok_def)

lemma then_ok_Inr [simp]: "then_ok r k = Inr y \<longleftrightarrow> (\<exists>x. r = Inr x \<and> k x = Inr y)"
  by (cases r) simp_all

definition getExtensionPoints :: "Plugins \<Rightarrow> PluginSet option list" where
  "getExtensionPoints p =
    [ps_PreFilter p, ps_Filter p, ps_PostFilter p, ps_Reserve p, ps_PreScore p, ps_Score p,
     ps_PreBind p, ps_Bind p, ps_PostBind p, ps_Permit p, ps_QueueSort p]"

definition find_needed :: "PluginSet option \<Rightarrow> (string, Plugin) gomap \<Rightarrow> (string, Plugin) gomap" where
  "find_needed pgs pgMap =
    (case pgs of None \<Rightarrow> pgMap
     | Some s \<Rightarrow> fold (\<lambda>pg m. gm_put m (plg_Name pg) pg) (Enabled s) pgMap)"

definition pluginsNeeded :: "Plugins option \<Rightarrow> (string, Plugin) gomap" where
  "pluginsNeeded plugins =
    (case plugins of None \<Rightarrow> [] | Some p \<Rightarrow> fold find_needed (getExtensionPoints p) [])"

fun plugin_config :: "(string \<times> 'a) list \<Rightarrow> (string, 'a) gomap \<Rightarrow> error + (string, 'a) gomap" where
  "plugin_config [] pluginConfig = Inr pluginConfig"
| "plugin_config ((name, arg) # args) pluginConfig =
    (if gm_has pluginConfig name then Inl (''repeated config for plugin '' @ name)
     else plugin_config args (gm_put pluginConfig name arg))"

text \<open>The decoder of the configuration scheme, applied to a kind, is a parameter.\<close>

datatype decode_error = NotRegisteredError | DecodeError error

definition getPluginArgsOrDefault :: "(string \<Rightarrow> 'a option \<times> decode_error option) \<Rightarrow>
    (string, 'a) gomap \<Rightarrow> string \<Rightarrow> error + 'a option" where
  "getPluginArgsOrDefault decode pluginConfig name =
    (case gm_get pluginConfig name of
       Some res \<Rightarrow> Inr (Some res)
     | None \<Rightarrow>
        (case decode (name @ ''Args'') of
           (_, Some NotRegisteredError) \<Rightarrow> Inr None
         | (_, Some (DecodeError err)) \<Rightarrow> Inl err
         | (obj, None) \<Rightarrow> Inr obj))"

definition plugin_weight :: "Plugin \<Rightarrow> int" where
  "plugin_weight pg = (if plg_Weight pg = 0 then 1 else plg_Weight pg)"

fun init_plugins :: "(string \<Rightarrow> 'a option \<times> decode_error option) \<Rightarrow> (string, Plugin) gomap \<Rightarrow>
    (string, 'a) gomap \<Rightarrow> ('a, 'd, 'w) Registry \<Rightarrow>
    (string, ('d, 'w) FPlugin) gomap \<times> (string, int) gomap \<times> int \<Rightarrow>
    error + (string, ('d, 'w) FPlugin) gomap \<times> (string, int) gomap \<times> int" where
  "init_plugins decode pg pluginConfig [] st = Inr st"
| "init_plugins decode pg pluginConfig ((name, factory) # r) (pluginsMap, weights, totalPriority) =
    (case gm_get pg name of
       None \<Rightarrow> init_plugins decode pg pluginConfig r (pluginsMap, weights, totalPriority)
     | Some p \<Rightarrow>
        (case getPluginArgsOrDefault decode pluginConfig name of
           Inl err \<Rightarrow> Inl (''getting args for Plugin '' @ go_q name @ '': '' @ err)
         | Inr arg \<Rightarrow>
            (case factory arg of
               Inl err \<Rightarrow> Inl (''error initializing plugin '' @ go_q name @ '': '' @ err)
             | Inr plugin \<Rightarrow>
                (let w = plugin_weight p in
                 if i64 (w * MaxNodeScore) > i64 (MaxTotalScore - totalPriority)
                 then Inl ''total score of Score plugins could overflow''
                 else init_plugins decode pg pluginConfig r
                   (gm_put pluginsMap name plugin, gm_put weights name w,
                    i64 (totalPriority + i64 (w * MaxNodeScore)))))))"

fun update_list :: "string \<Rightarrow> (('d, 'w) FPlugin \<Rightarrow> 'p option) \<Rightarrow> (string, ('d, 'w) FPlugin) gomap \<Rightarrow>
    Plugin list \<Rightarrow> string list \<Rightarrow> 'p plugins \<Rightarrow> error + 'p plugins" where
  "update_list pluginType implements pluginsMap [] seen plugins = Inr plugins"
| "update_list pluginType implements pluginsMap (ep # eps) seen plugins =
    (case gm_get pluginsMap (plg_Name ep) of
       None \<Rightarrow> Inl (pluginType @ '' '' @ go_q (plg_Name ep) @ '' does not exist'')
     | Some pg \<Rightarrow>
        (case implements pg of
           None \<Rightarrow> Inl (''plugin '' @ go_q (plg_Name ep) @ '' does not extend '' @ pluginType @ '' plugin'')
         | Some p \<Rightarrow>
            if List.member seen (plg_Name ep)
            then Inl (''plugin '' @ go_q (plg_Name ep) @ '' already registered as '' @ go_q pluginType)
            else update_list pluginType implements pluginsMap eps (plg_Name ep # seen)
                   (plugins @ [(Plugin_Name pg, p)])))"

definition updatePluginList :: "string \<Rightarrow> (('d, 'w) FPlugin \<Rightarrow> 'p option) \<Rightarrow> 'p plugins \<Rightarrow>
    PluginSet option \<Rightarrow> (string, ('d, 'w) FPlugin) gomap \<Rightarrow> error + 'p plugins" where
  "updatePluginList pluginType implements pluginList pluginSet pluginsMap =
    (case pluginSet of None \<Rightarrow> Inr pluginList
     | Some s \<Rightarrow> update_list pluginType implements pluginsMap (Enabled s) [] pluginList)"

definition update_all :: "Plugins \<Rightarrow> (string, ('d, 'w) FPlugin) gomap \<Rightarrow> ('a, 'd, 'w) frameworkImpl \<Rightarrow>
    error + ('a, 'd, 'w) frameworkImpl" where
  "update_all plugins pluginsMap f =
    then_ok (updatePluginList ''PreFilterPlugin'' as_PreFilter (preFilterPlugins f) (ps_PreFilter plugins) pluginsMap) (\<lambda>l1.
    then_ok (updatePluginList ''FilterPlugin'' as_Filter (filterPlugins f) (ps_Filter plugins) pluginsMap) (\<lambda>l2.
    then_ok (updatePluginList ''PostFilterPlugin'' as_PostFilter (postFilterPlugins f) (ps_PostFilter plugins) pluginsMap) (\<lambda>l3.
    then_ok (updatePluginList ''ReservePlugin'' as_Reserve (reservePlugins f) (ps_Reserve plugins) pluginsMap) (\<lambda>l4.
    then_ok (updatePluginList ''PreScorePlugin'' as_PreScore (preScorePlugins f) (ps_PreScore plugins) pluginsMap) (\<lambda>l5.
    then_ok (updatePluginList ''ScorePlugin'' as_Score (scorePlugins f) (ps_Score plugins) pluginsMap) (\<lambda>l6.
    then_ok (updatePluginList ''PreBindPlugin'' as_PreBind (preBindPlugins f) (ps_PreBind plugins) pluginsMap) (\<lambda>l7.
    then_ok (updatePluginList ''BindPlugin'' as_Bind (bindPlugins f) (ps_Bind plugins) pluginsMap) (\<lambda>l8.
    then_ok (updatePluginList ''PostBindPlugin'' as_PostBind (postBindPlugins f) (ps_PostBind plugins) pluginsMap) (\<lambda>l9.
    then_ok (updatePluginList ''PermitPlugin'' as_Permit (permitPlugins f) (ps_Permit plugins) pluginsMap) (\<lambda>l10.
    then_ok (updatePluginList ''QueueSortPlugin'' as_QueueSort (queueSortPlugins f) (ps_QueueSort plugins) pluginsMap) (\<lambda>l11.
      Inr (f\<lparr>preFilterPlugins := l1, filterPlugins := l2, postFilterPlugins := l3, reservePlugins := l4,
            preScorePlugins := l5, scorePlugins := l6, preBindPlugins := l7, bindPlugins := l8,
            postBindPlugins := l9, permitPlugins := l10, queueSortPlugins := l11\<rparr>))))))))))))"

definition verify_framework :: "('a, 'd, 'w) frameworkImpl \<Rightarrow> error + ('a, 'd, 'w) frameworkImpl" where
  "verify_framework f =
    (case find (\<lambda>pl. gm_get0 (pluginNameToWeightMap f) (fst pl) = 0) (scorePlugins f) of
       Some pl \<Rightarrow> Inl (''score plugin '' @ go_q (fst pl) @ '' is not configured with weight'')
     | None \<Rightarrow>
       if length (queueSortPlugins f) = 0 then Inl ''no queue sort plugin is enabled''
       else if length (queueSortPlugins f) > 1 then Inl ''only one queue sort plugin can be enabled''
       else if length (bindPlugins f) = 0 then Inl ''at least one bind plugin is needed''
       else Inr f)"

definition new_frameworkImpl :: "('a, 'd, 'w) Registry \<Rightarrow> 'w frameworkOptions \<Rightarrow> ('a, 'd, 'w) frameworkImpl" where
  "new_frameworkImpl r options =
    \<lparr>registry = r, waitingPods = newWaitingPodsMap, pluginNameToWeightMap = [], queueSortPlugins = [],
     preFilterPlugins = [], filterPlugins = [], postFilterPlugins = [], preScorePlugins = [],
     scorePlugins = [], reservePlugins = [], preBindPlugins = [], bindPlugins = [],
     postBindPlugins = [], permitPlugins = [], profileName = opt_profileName options,
     ph_extenders = opt_extenders options, runAllFilters = opt_runAllFilters options\<rparr>"

definition NewFramework :: "(string \<Rightarrow> 'a option \<times> decode_error option) \<Rightarrow> ('a, 'd, 'w) Registry \<Rightarrow>
    Plugins option \<Rightarrow> (string \<times> 'a) list \<Rightarrow> ('w frameworkOptions \<Rightarrow> 'w frameworkOptions) list \<Rightarrow>
    error + ('a, 'd, 'w) frameworkImpl" where
  "NewFramework decode r plugins args opts =
    (let options = fold (\<lambda>opt. opt) opts defaultFrameworkOptions;
         f = new_frameworkImpl r options
     in case plugins of
       None \<Rightarrow> Inr f
     | Some p \<Rightarrow>
        (let pg = pluginsNeeded plugins in
         then_ok (plugin_config args []) (\<lambda>pluginConfig.
         then_ok (init_plugins decode pg pluginConfig r ([], [], 0)) (\<lambda>(pluginsMap, weights, totalPriority).
         then_ok (update_all p pluginsMap (f\<lparr>pluginNameToWeightMap := weights\<rparr>)) verify_framework))))"

subsection \<open>Running the plugins\<close>

definition QueueSortFunc :: "('a, 'd, 'w) frameworkImpl option \<Rightarrow> (QueuedPodInfo \<Rightarrow> QueuedPodInfo \<Rightarrow> bool) option" where
  "QueueSortFunc f =
    (case f of None \<Rightarrow> Some (\<lambda>_ _. False)
     | Some f' \<Rightarrow> (case queueSortPlugins f' of [] \<Rightarrow> None | pl # _ \<Rightarrow> Some (snd pl)))"

text \<open>
  The loop that several extension points share: run the plugins in order up to the first that does
  not succeed, and return what \<open>onfail\<close> makes of its status.
\<close>

fun run_until_fail :: "(string \<Rightarrow> Status option \<Rightarrow> Status option) \<Rightarrow> ('p \<Rightarrow> 'e \<Rightarrow> Status option \<times> 'e) \<Rightarrow>
    'p plugins \<Rightarrow> 'e \<Rightarrow> Status option \<times> 'e" where
  "run_until_fail onfail call [] e = (None, e)"
| "run_until_fail onfail call (pl # pls) e =
    (case call (snd pl) e of (status, e') \<Rightarrow>
       if \<not> IsSuccess status then (onfail (fst pl) status, e')
       else run_until_fail onfail call pls e')"

definition fail_with :: "string \<Rightarrow> Status option" where
  "fail_with msg = Some (NewStatus Error [msg])"

definition RunPreFilterPlugins :: "('a, 'd, 'w) frameworkImpl \<Rightarrow> ('d, 'w) env \<Rightarrow> Pod \<Rightarrow> Status option \<times> ('d, 'w) env" where
  "RunPreFilterPlugins f env pod =
    run_until_fail
      (\<lambda>name status. if IsUnschedulable status then status
         else fail_with (''prefilter plugin '' @ go_q name @ '' failed for pod '' @ go_q (pod_Name pod) @ '': '' @ Message status))
      (\<lambda>pl e. PreFilter pl e pod) (preFilterPlugins f) env"

definition run_extension :: "(('d, 'w) extension \<times> ('d, 'w) extension \<Rightarrow> ('d, 'w) extension) \<Rightarrow> 'w \<Rightarrow>
    Pod \<Rightarrow> Pod \<Rightarrow> NodeInfo \<Rightarrow> ('d, 'w) PreFilterPlugin \<Rightarrow> 'd CycleState \<Rightarrow> Status option \<times> 'd CycleState" where
  "run_extension sel w podToSchedule other nodeInfo pl state =
    (case PreFilterExtensions pl of
       None \<Rightarrow> (None, state)
     | Some exts \<Rightarrow> sel exts w state podToSchedule other nodeInfo)"

definition RunPreFilterExtensionAddPod :: "('a, 'd, 'w) frameworkImpl \<Rightarrow> 'w \<Rightarrow> 'd CycleState \<Rightarrow> Pod \<Rightarrow> Pod \<Rightarrow>
    NodeInfo \<Rightarrow> Status option \<times> 'd CycleState" where
  "RunPreFilterExtensionAddPod f w state podToSchedule podToAdd nodeInfo =
    run_until_fail
      (\<lambda>name status. fail_with (''error while running AddPod for plugin '' @ go_q name @
         '' while scheduling pod '' @ go_q (pod_Name podToSchedule) @ '': '' @ Message status))
      (run_extension fst w podToSchedule podToAdd nodeInfo) (preFilterPlugins f) state"

definition RunPreFilterExtensionRemovePod :: "('a, 'd, 'w) frameworkImpl \<Rightarrow> 'w \<Rightarrow> 'd CycleState \<Rightarrow> Pod \<Rightarrow> Pod \<Rightarrow>
    NodeInfo \<Rightarrow> Status option \<times> 'd CycleState" where
  "RunPreFilterExtensionRemovePod f w state podToSchedule podToRemove nodeInfo =
    run_until_fail
      (\<lambda>name status. fail_with (''error while running RemovePod for plugin '' @ go_q name @
         '' while scheduling pod '' @ go_q (pod_Name podToSchedule) @ '': '' @ Message status))
      (run_extension snd w podToSchedule podToRemove nodeInfo) (preFilterPlugins f) state"

fun filter_loop :: "bool \<Rightarrow> 'w \<Rightarrow> 'd CycleState \<Rightarrow> Pod \<Rightarrow> NodeInfo \<Rightarrow> ('d, 'w) FilterPlugin plugins \<Rightarrow>
    PluginToStatus \<Rightarrow> PluginToStatus" where
  "filter_loop all w state pod nodeInfo [] statuses = statuses"
| "filter_loop all w state pod nodeInfo (pl # pls) statuses =
    (let pluginStatus = snd pl w state pod nodeInfo in
     if \<not> IsSuccess pluginStatus then
       if \<not> IsUnschedulable pluginStatus then
         [(fst pl, fail_with (''running '' @ go_q (fst pl) @ '' filter plugin for pod '' @ go_q (pod_Name pod) @ '': '' @ Message pluginStatus))]
       else
         let statuses' = gm_put statuses (fst pl) pluginStatus in
         if \<not> all then statuses'
         else filter_loop all w state pod nodeInfo pls statuses'
     else filter_loop all w state pod nodeInfo pls statuses)"

definition RunFilterPlugins :: "('a, 'd, 'w) frameworkImpl \<Rightarrow> 'w \<Rightarrow> 'd CycleState \<Rightarrow> Pod \<Rightarrow> NodeInfo \<Rightarrow> PluginToStatus" where
  "RunFilterPlugins f w state pod nodeInfo =
    filter_loop (runAllFilters f) w state pod nodeInfo (filterPlugins f) []"

fun postfilter_loop :: "('d, 'w) PostFilterPlugin plugins \<Rightarrow> ('d, 'w) env \<Rightarrow> Pod \<Rightarrow> NodeToStatusMap \<Rightarrow>
    PluginToStatus \<Rightarrow> ((string option \<times> Status option) \<times> ('d, 'w) env) option" where
  "postfilter_loop [] env pod filtered statuses =
    (case Merge statuses of None \<Rightarrow> None | Some s \<Rightarrow> Some ((None, s), env))"
| "postfilter_loop (pl # pls) env pod filtered statuses =
    (case snd pl env pod filtered of ((r, s), env') \<Rightarrow>
       if IsSuccess s then Some ((r, s), env')
       else if \<not> IsUnschedulable s then Some ((None, fail_with (Message s)), env')
       else postfilter_loop pls env' pod filtered (gm_put statuses (fst pl) s))"

definition RunPostFilterPlugins :: "('a, 'd, 'w) frameworkImpl \<Rightarrow> ('d, 'w) env \<Rightarrow> Pod \<Rightarrow> NodeToStatusMap \<Rightarrow>
    ((string option \<times> Status option) \<times> ('d, 'w) env) option" where
  "RunPostFilterPlugins f env pod filteredNodeStatusMap =
    postfilter_loop (postFilterPlugins f) env pod filteredNodeStatusMap []"

definition RunPreScorePlugins :: "('a, 'd, 'w) frameworkImpl \<Rightarrow> ('d, 'w) env \<Rightarrow> Pod \<Rightarrow> Node list \<Rightarrow>
    Status option \<times> ('d, 'w) env" where
  "RunPreScorePlugins f env pod nodes =
    run_until_fail
      (\<lambda>name status. fail_with (''error while running '' @ go_q name @ '' prescore plugin for pod '' @
         go_q (pod_Name pod) @ '': '' @ Message status))
      (\<lambda>pl e. pl e pod nodes) (preScorePlugins f) env"

text \<open>Scores are kept per plugin name, in a list with an entry for every node.\<close>

definition row :: "PluginToNodeScores \<Rightarrow> string \<Rightarrow> NodeScoreList" where
  "row m name = (case gm_get m name of None \<Rightarrow> [] | Some l \<Rightarrow> l)"

definition zero_NodeScore :: NodeScore where
  "zero_NodeScore = \<lparr>ns_Name = '''', ns_Score = 0\<rparr>"

fun score_node :: "'w \<Rightarrow> 'd CycleState \<Rightarrow> Pod \<Rightarrow> string \<Rightarrow> nat \<Rightarrow> ('d, 'w) ScorePlugin plugins \<Rightarrow>
    PluginToNodeScores \<Rightarrow> error option \<times> PluginToNodeScores" where
  "score_node w state pod nodeName index [] m = (None, m)"
| "score_node w state pod nodeName index (pl # pls) m =
    (case Score (snd pl) w state pod nodeName of (s, status) \<Rightarrow>
       if \<not> IsSuccess status then (Some (Message status), m)
       else score_node w state pod nodeName index pls
              (gm_put m (fst pl) ((row m (fst pl))[index := \<lparr>ns_Name = nodeName, ns_Score = s\<rparr>])))"

definition normalize_piece :: "('a, 'd, 'w) frameworkImpl \<Rightarrow> 'w \<Rightarrow> 'd CycleState \<Rightarrow> Pod \<Rightarrow> nat \<Rightarrow>
    PluginToNodeScores \<Rightarrow> error option \<times> PluginToNodeScores" where
  "normalize_piece f w state pod index m =
    (let pl = scorePlugins f ! index in
     case ScoreExtensions (snd pl) of
       None \<Rightarrow> (None, m)
     | Some norm_fn \<Rightarrow>
        (case norm_fn w state pod (row m (fst pl)) of (nodeScoreList, status) \<Rightarrow>
          let m' = gm_put m (fst pl) nodeScoreList in
          if \<not> IsSuccess status
          then (Some (''normalize score plugin '' @ go_q (fst pl) @ '' failed with error '' @ Message status), m')
          else (None, m')))"

fun weigh :: "string \<Rightarrow> int \<Rightarrow> NodeScoreList \<Rightarrow> error option \<times> NodeScoreList" where
  "weigh name weight [] = (None, [])"
| "weigh name weight (ns # l) =
    (if ns_Score ns > MaxNodeScore \<or> ns_Score ns < MinNodeScore
     then (Some (''score plugin '' @ go_q name @ '' returns an invalid score '' @ go_v (ns_Score ns) @
        '', it should in the range of ['' @ go_v MinNodeScore @ '', '' @ go_v MaxNodeScore @ ''] after normalizing''), ns # l)
     else case weigh name weight l of (err, l') \<Rightarrow>
       (err, ns\<lparr>ns_Score := i64 (ns_Score ns * weight)\<rparr> # l'))"

definition weight_piece :: "('a, 'd, 'w) frameworkImpl \<Rightarrow> nat \<Rightarrow> PluginToNodeScores \<Rightarrow> error option \<times> PluginToNodeScores" where
  "weight_piece f index m =
    (let pl = scorePlugins f ! index;
         weight = gm_get0 (pluginNameToWeightMap f) (fst pl)
     in case weigh (fst pl) weight (row m (fst pl)) of (err, nodeScoreList) \<Rightarrow>
       (err, gm_put m (fst pl) nodeScoreList))"

text \<open>\<open>order1\<close>, \<open>order2\<close> and \<open>order3\<close> are the orders of the pieces in the three parallel loops.\<close>

definition init_scores :: "('d, 'w) ScorePlugin plugins \<Rightarrow> nat \<Rightarrow> PluginToNodeScores" where
  "init_scores pls n = fold (\<lambda>pl m. gm_put m (fst pl) (replicate n zero_NodeScore)) pls []"

definition score_piece :: "('a, 'd, 'w) frameworkImpl \<Rightarrow> 'w \<Rightarrow> 'd CycleState \<Rightarrow> Pod \<Rightarrow> Node list \<Rightarrow> nat \<Rightarrow>
    PluginToNodeScores \<Rightarrow> error option \<times> PluginToNodeScores" where
  "score_piece f w state pod nodes index = score_node w state pod (node_Name (nodes ! index)) index (scorePlugins f)"

definition RunScorePlugins :: "nat list \<times> nat list \<times> nat list \<Rightarrow> ('a, 'd, 'w) frameworkImpl \<Rightarrow> 'w \<Rightarrow>
    'd CycleState \<Rightarrow> Pod \<Rightarrow> Node list \<Rightarrow> PluginToNodeScores \<times> Status option" where
  "RunScorePlugins orders f w state pod nodes =
    (case orders of (order1, order2, order3) \<Rightarrow>
     case Until order1 (score_piece f w state pod nodes) (None, init_scores (scorePlugins f) (length nodes)) of
       (Some err, _) \<Rightarrow> ([], fail_with (''error while running score plugin for pod '' @ go_q (pod_Name pod) @ '': '' @ err))
     | (None, m1) \<Rightarrow>
     case Until order2 (normalize_piece f w state pod) (None, m1) of
       (Some err, _) \<Rightarrow> ([], fail_with (''error while running normalize score plugin for pod '' @ go_q (pod_Name pod) @ '': '' @ err))
     | (None, m2) \<Rightarrow>
     case Until order3 (weight_piece f) (None, m2) of
       (Some err, _) \<Rightarrow> ([], fail_with (''error while applying score defaultWeights for pod '' @ go_q (pod_Name pod) @ '': '' @ err))
     | (None, m3) \<Rightarrow> (m3, None))"

definition RunPreBindPlugins :: "('a, 'd, 'w) frameworkImpl \<Rightarrow> ('d, 'w) hook" where
  "RunPreBindPlugins f env pod nodeName =
    run_until_fail
      (\<lambda>name status. fail_with (''error while running '' @ go_q name @ '' prebind plugin for pod '' @
         go_q (pod_Name pod) @ '': '' @ Message status))
      (\<lambda>pl e. pl e pod nodeName) (preBindPlugins f) env"

fun bind_loop :: "('d, 'w) hook plugins \<Rightarrow> Status option \<Rightarrow> ('d, 'w) hook" where
  "bind_loop [] last_status env pod nodeName = (last_status, env)"
| "bind_loop (bp # bps) last_status env pod nodeName =
    (case snd bp env pod nodeName of (status, env') \<Rightarrow>
       if status \<noteq> None \<and> Status_Code status = Skip then bind_loop bps status env' pod nodeName
       else if \<not> IsSuccess status
       then (fail_with (''plugin '' @ go_q (fst bp) @ '' failed to bind pod '' @
               go_q (pod_Namespace pod @ ''/'' @ pod_Name pod) @ '': '' @ Message status), env')
       else (status, env'))"

definition RunBindPlugins :: "('a, 'd, 'w) frameworkImpl \<Rightarrow> ('d, 'w) hook" where
  "RunBindPlugins f env pod nodeName =
    (if length (bindPlugins f) = 0 then (Some (NewStatus Skip ['''']), env)
     else bind_loop (bindPlugins f) None env pod nodeName)"

definition RunPostBindPlugins :: "('a, 'd, 'w) frameworkImpl \<Rightarrow> ('d, 'w) env \<Rightarrow> Pod \<Rightarrow> string \<Rightarrow> ('d, 'w) env" where
  "RunPostBindPlugins f env pod nodeName = fold (\<lambda>pl e. snd pl e pod nodeName) (postBindPlugins f) env"

definition RunReservePluginsReserve :: "('a, 'd, 'w) frameworkImpl \<Rightarrow> ('d, 'w) hook" where
  "RunReservePluginsReserve f env pod nodeName =
    run_until_fail
      (\<lambda>name status. fail_with (''error while running Reserve in '' @ go_q name @ '' reserve plugin for pod '' @
         go_q (pod_Name pod) @ '': '' @ Message status))
      (\<lambda>pl e. Reserve pl e pod nodeName) (reservePlugins f) env"

definition RunReservePluginsUnreserve :: "('a, 'd, 'w) frameworkImpl \<Rightarrow> ('d, 'w) env \<Rightarrow> Pod \<Rightarrow> string \<Rightarrow> ('d, 'w) env" where
  "RunReservePluginsUnreserve f env pod nodeName =
    fold (\<lambda>i e. Unreserve (snd (reservePlugins f ! i)) e pod nodeName) (rev [0..<length (reservePlugins f)]) env"

definition maxTimeout :: int where
  "maxTimeout = 15 * 60 * 1000000000"

fun permit_loop :: "('d, 'w) PermitPlugin plugins \<Rightarrow> ('d, 'w) env \<Rightarrow> Pod \<Rightarrow> string \<Rightarrow>
    (string, int) gomap \<times> Code \<Rightarrow> (Status option + (string, int) gomap \<times> Code) \<times> ('d, 'w) env" where
  "permit_loop [] env pod nodeName acc = (Inr acc, env)"
| "permit_loop (pl # pls) env pod nodeName (pluginsWaitTime, statusCode) =
    (case snd pl env pod nodeName of ((status, timeout), env') \<Rightarrow>
       if \<not> IsSuccess status then
         if IsUnschedulable status then
           (Inl (Some (NewStatus (Status_Code status) [''rejected pod '' @ go_q (pod_Name pod) @
              '' by permit plugin '' @ go_q (fst pl) @ '': '' @ Message status])), env')
         else if Status_Code status = Wait then
           permit_loop pls env' pod nodeName
             (gm_put pluginsWaitTime (fst pl) (if timeout > maxTimeout then maxTimeout else timeout), Wait)
         else
           (Inl (fail_with (''error while running '' @ go_q (fst pl) @ '' permit plugin for pod '' @
              go_q (pod_Name pod) @ '': '' @ Message status)), env')
       else permit_loop pls env' pod nodeName (pluginsWaitTime, statusCode))"

definition RunPermitPlugins :: "('a, 'd, 'w) frameworkImpl \<Rightarrow> ('d, 'w) env \<Rightarrow> Pod \<Rightarrow> string \<Rightarrow>
    Status option \<times> ('d, 'w) env \<times> ('a, 'd, 'w) frameworkImpl" where
  "RunPermitPlugins f env pod nodeName =
    (case permit_loop (permitPlugins f) env pod nodeName ([], Success) of
       (Inl status, env') \<Rightarrow> (status, env', f)
     | (Inr (pluginsWaitTime, statusCode), env') \<Rightarrow>
        if statusCode = Wait then
          (Some (NewStatus Wait [''one or more plugins asked to wait and no plugin rejected pod '' @ go_q (pod_Name pod)]),
           env', f\<lparr>waitingPods := wpm_add (waitingPods f) (newWaitingPod pod pluginsWaitTime)\<rparr>)
        else (None, env', f))"

text \<open>
  \<open>WaitOnPermit\<close> blocks until there is a signal. \<open>None\<close> is the state in which it still blocks;
  with a signal it returns and the pod is no longer waiting.
\<close>

definition WaitOnPermit :: "('a, 'd, 'w) frameworkImpl \<Rightarrow> Pod \<Rightarrow> (Status option \<times> ('a, 'd, 'w) frameworkImpl) option" where
  "WaitOnPermit f pod =
    (case wpm_get (waitingPods f) (pod_UID pod) of
       None \<Rightarrow> Some (None, f)
     | Some wp \<Rightarrow>
        (case wp_s wp of
           None \<Rightarrow> None
         | Some s \<Rightarrow>
            let f' = f\<lparr>waitingPods := wpm_remove (waitingPods f) (pod_UID pod)\<rparr> in
            if \<not> IsSuccess (Some s) then
              if IsUnschedulable (Some s) then
                Some (Some (NewStatus (Status_Code (Some s)) [''pod '' @ go_q (pod_Name pod) @
                  '' rejected while waiting on permit: '' @ Message (Some s)]), f')
              else Some (fail_with (''error received while waiting on permit for pod '' @ go_q (pod_Name pod) @
                  '': '' @ Message (Some s)), f')
            else Some (None, f')))"

definition IterateOverWaitingPods :: "('a, 'd, 'w) frameworkImpl \<Rightarrow> (waitingPod \<Rightarrow> waitingPod) \<Rightarrow> ('a, 'd, 'w) frameworkImpl" where
  "IterateOverWaitingPods f callback = f\<lparr>waitingPods := wpm_iterate callback (waitingPods f)\<rparr>"

definition GetWaitingPod :: "('a, 'd, 'w) frameworkImpl \<Rightarrow> string \<Rightarrow> waitingPod option" where
  "GetWaitingPod f uid = wpm_get (waitingPods f) uid"

definition RejectWaitingPod :: "('a, 'd, 'w) frameworkImpl \<Rightarrow> string \<Rightarrow> ('a, 'd, 'w) frameworkImpl" where
  "RejectWaitingPod f uid =
    (case wpm_get (waitingPods f) uid of
       None \<Rightarrow> f
     | Some wp \<Rightarrow> f\<lparr>waitingPods := gm_put (waitingPods f) uid (Reject wp ''removed'')\<rparr>)"

definition HasFilterPlugins :: "('a, 'd, 'w) frameworkImpl \<Rightarrow> bool" where
  "HasFilterPlugins f = (length (filterPlugins f) > 0)"

definition HasPostFilterPlugins :: "('a, 'd, 'w) frameworkImpl \<Rightarrow> bool" where
  "HasPostFilterPlugins f = (length (postFilterPlugins f) > 0)"

definition HasScorePlugins :: "('a, 'd, 'w) frameworkImpl \<Rightarrow> bool" where
  "HasScorePlugins f = (length (scorePlugins f) > 0)"

definition list_point :: "(string, int) gomap \<Rightarrow> string \<Rightarrow> string list \<Rightarrow>
    (string, Plugin list) gomap \<Rightarrow> (string, Plugin list) gomap" where
  "list_point weights extName names m =
    (let cfgs = map (\<lambda>name. \<lparr>plg_Name = name,
           plg_Weight = (if extName = ''ScorePlugin'' then i32 (gm_get0 weights name) else 0)\<rparr>) names
     in if length cfgs > 0 then gm_put m extName cfgs else m)"

definition ListPlugins :: "('a, 'd, 'w) frameworkImpl \<Rightarrow> (string, Plugin list) gomap option" where
  "ListPlugins f =
    (let ws = pluginNameToWeightMap f;
         m = fold (\<lambda>(ext, names). list_point ws ext names)
           [(''PreFilterPlugin'', map fst (preFilterPlugins f)), (''FilterPlugin'', map fst (filterPlugins f)),
            (''PostFilterPlugin'', map fst (postFilterPlugins f)), (''ReservePlugin'', map fst (reservePlugins f)),
            (''PreScorePlugin'', map fst (preScorePlugins f)), (''ScorePlugin'', map fst (scorePlugins f)),
            (''PreBindPlugin'', map fst (preBindPlugins f)), (''BindPlugin'', map fst (bindPlugins f)),
            (''PostBindPlugin'', map fst (postBindPlugins f)), (''PermitPlugin'', map fst (permitPlugins f)),
            (''QueueSortPlugin'', map fst (queueSortPlugins f))] []
     in if length m > 0 then Some m else None)"

end
