(* ===== verification/Framework_Props.thy ===== *)
theory Framework_Props
  imports Framework_Runtime
begin

text \<open>
  What the framework guarantees: the verdict of the filter plugins, scores that do not depend on how
  the parallel loops were interleaved, a configuration under which total scores cannot overflow,
  permits, and reservations that are undone in reverse order.
\<close>

subsection \<open>Loops\<close>

lemma run_until_fail_success:
  "run_until_fail onfail call pls e = (None, e') \<Longrightarrow> (\<forall>n s. onfail n s = None \<longrightarrow> IsSuccess s) \<Longrightarrow>
    e' = fold (\<lambda>pl e. snd (call (snd pl) e)) pls e"
  by (induction onfail call pls e rule: run_until_fail.induct) (auto split: prod.splits if_splits)

lemma fail_with_neq [simp]: "fail_with m \<noteq> None" "\<not> IsSuccess (fail_with m)" "Status_Code (fail_with m) = Error"
  by (simp_all add: fail_with_def IsSuccess_def Status_Code_def NewStatus_def)

lemma IsSuccess_None [simp]: "IsSuccess None"
  by (simp add: IsSuccess_def Status_Code_def)

lemma SendError_neq_None [simp]: "SendError ch e \<noteq> None"
  by (simp add: SendError_def split: option.split)

lemma Until_err: "fst (Until order piece (Some e, s)) = Some e"
proof (induction order arbitrary: s)
  case (Cons i order)
  then show ?case by (auto simp: SendError_def split: prod.split option.split)
qed simp

lemma Until_Cons_None:
  "Until (i # order) piece (None, s) = (None, s2) \<longleftrightarrow>
    (\<exists>s1. piece i s = (None, s1) \<and> Until order piece (None, s1) = (None, s2))"
proof (cases "piece i s")
  case (Pair e s1)
  then show ?thesis
  proof (cases e)
    case (Some x)
    have "fst (Until order piece (Some x, s1)) = Some x" by (rule Until_err)
    with Some Pair show ?thesis by (auto simp: SendError_def)
  qed simp
qed

text \<open>
  A loop whose pieces succeed or fail independently of the state succeeds exactly when
  all of its pieces do, whatever the order.
\<close>

lemma Until_success_iff:
  assumes "\<And>i s. good s \<Longrightarrow> i < n \<Longrightarrow> fst (piece i s) = None \<longleftrightarrow> ok i"
    and "\<And>i s. good s \<Longrightarrow> i < n \<Longrightarrow> good (snd (piece i s))"
  shows "good s \<Longrightarrow> set order \<subseteq> {..<n} \<Longrightarrow> fst (Until order piece (None, s)) = None \<longleftrightarrow> (\<forall>i\<in>set order. ok i)"
proof (induction order arbitrary: s)
  case (Cons i order)
  obtain e s1 where p: "piece i s = (e, s1)" by (cases "piece i s")
  have i: "e = None \<longleftrightarrow> ok i" "good s1"
    using assms(1) [of s i] assms(2) [of s i] Cons.prems p by auto
  show ?case
  proof (cases e)
    case None
    then show ?thesis using Cons p i by simp
  next
    case (Some x)
    then show ?thesis using p i Until_err [of order piece x s1] by (simp add: SendError_def)
  qed
qed simp

lemma until_order_success:
  assumes order: "until_order n order piece s"
    and "\<And>i s. good s \<Longrightarrow> i < n \<Longrightarrow> fst (piece i s) = None \<longleftrightarrow> ok i"
    and "\<And>i s. good s \<Longrightarrow> i < n \<Longrightarrow> good (snd (piece i s))" "good s"
  shows "fst (Until order piece (None, s)) = None \<longleftrightarrow> (\<forall>i<n. ok i)"
proof -
  have sub: "set order \<subseteq> {..<n}" and complete: "fst (Until order piece (None, s)) = None \<longrightarrow> set order = {..<n}"
    using order by (simp_all add: until_order_def)
  have iff: "fst (Until order piece (None, s)) = None \<longleftrightarrow> (\<forall>i\<in>set order. ok i)"
    by (rule Until_success_iff [of good n piece ok, OF assms(2) assms(3) assms(4) sub])
  show ?thesis
  proof
    assume none: "fst (Until order piece (None, s)) = None"
    with complete have "set order = {..<n}" by (rule mp)
    with none iff show "\<forall>i<n. ok i" by (simp add: Ball_def)
  next
    assume "\<forall>i<n. ok i"
    with sub have "\<forall>i\<in>set order. ok i" by auto
    with iff show "fst (Until order piece (None, s)) = None" by (rule iffD2)
  qed
qed

subsection \<open>Filters\<close>

definition filter_code :: "bool \<Rightarrow> Code list \<Rightarrow> Code" where
  "filter_code all codes =
    (let bad = filter (\<lambda>c. c \<noteq> Success) codes in
     if bad = [] then Success
     else if \<not> all then (if List.member [Unschedulable, UnschedulableAndUnresolvable] (hd bad) then hd bad else Error)
     else if list_ex (\<lambda>c. \<not> List.member [Unschedulable, UnschedulableAndUnresolvable] c) bad then Error
     else if List.member bad UnschedulableAndUnresolvable then UnschedulableAndUnresolvable
     else Unschedulable)"

definition unsched_map :: "PluginToStatus \<Rightarrow> bool" where
  "unsched_map p \<longleftrightarrow> (\<forall>s\<in>snd ` set p. IsUnschedulable s)"

lemma IsUnschedulable_iff: "IsUnschedulable s \<longleftrightarrow> Status_Code s \<in> {Unschedulable, UnschedulableAndUnresolvable}"
  by (auto simp: IsUnschedulable_def Let_def)

lemma merge_code: "None \<notin> snd ` set p \<Longrightarrow>
    map_option Status_Code (Merge p) = Some (merged_code (map (Status_Code \<circ> snd) p))"
  by (subst Merge_eq) (simp add: Status_Code_def comp_def)

lemma unsched_map_merge:
  assumes "unsched_map p"
  shows "map_option Status_Code (Merge p) =
    Some (if p = [] then Success
          else if UnschedulableAndUnresolvable \<in> Status_Code ` snd ` set p then UnschedulableAndUnresolvable
          else Unschedulable)"
proof -
  have c: "Status_Code (snd e) = Unschedulable \<or> Status_Code (snd e) = UnschedulableAndUnresolvable" if "e \<in> set p" for e
    using assms that by (auto simp: unsched_map_def IsUnschedulable_iff)
  then have "None \<notin> snd ` set p" by (fastforce simp: Status_Code_def)
  moreover have "merged_code (map (Status_Code \<circ> snd) p) =
      (if p = [] then Success
       else if UnschedulableAndUnresolvable \<in> Status_Code ` snd ` set p then UnschedulableAndUnresolvable
       else Unschedulable)"
  proof (cases p)
    case (Cons e q)
    then have "Status_Code (snd e) = UnschedulableAndUnresolvable \<or> Status_Code (snd e) = Unschedulable"
      using c [of e] by auto
    moreover have "Error \<notin> Status_Code ` snd ` set p" using c by force
    ultimately show ?thesis using Cons by (auto simp: image_iff)
  qed simp
  ultimately show ?thesis by (simp add: merge_code)
qed

lemma unsched_map_put: "unsched_map m \<Longrightarrow> IsUnschedulable s \<Longrightarrow> unsched_map (gm_put m k s)"
  by (induction m) (auto simp: unsched_map_def gm_put_def)

lemma filter_loop_first:
  "map_option Status_Code (Merge (filter_loop False w state pod ni pls [])) =
    Some (filter_code False (map (\<lambda>pl. Status_Code (snd pl w state pod ni)) pls))"
proof (induction pls)
  case Nil
  then show ?case by (simp add: Merge_eq filter_code_def Status_Code_def)
next
  case (Cons pl pls)
  let ?s = "snd pl w state pod ni"
  show ?case
  proof (cases "IsSuccess ?s")
    case True
    then show ?thesis using Cons by (simp add: filter_code_def IsSuccess_def Let_def)
  next
    case False
    then have "?s \<noteq> None" using IsSuccess_None by metis
    with False show ?thesis
      by (auto simp: filter_code_def IsSuccess_def Let_def IsUnschedulable_iff Merge_eq gm_put_def
          fail_with_def NewStatus_def Status_Code_def)
  qed
qed

lemma filter_loop_all:
  "distinct (map fst pls) \<Longrightarrow> fst ` set pls \<inter> fst ` set statuses = {} \<Longrightarrow>
    \<forall>pl\<in>set pls. IsSuccess (snd pl w state pod ni) \<or> IsUnschedulable (snd pl w state pod ni) \<Longrightarrow>
    filter_loop True w state pod ni pls statuses =
      statuses @ map (\<lambda>pl. (fst pl, snd pl w state pod ni)) (filter (\<lambda>pl. \<not> IsSuccess (snd pl w state pod ni)) pls)"
proof (induction pls arbitrary: statuses)
  case (Cons pl pls)
  have put: "gm_put statuses (fst pl) s = statuses @ [(fst pl, s)]" for s
    using Cons.prems(2) by (intro gm_put_new) auto
  show ?case
    using Cons.prems by (auto simp: Let_def put Cons.IH)
qed simp

lemma filter_loop_all_err:
  "\<not> (\<forall>pl\<in>set pls. IsSuccess (snd pl w state pod ni) \<or> IsUnschedulable (snd pl w state pod ni)) \<Longrightarrow>
    \<exists>n m. filter_loop True w state pod ni pls statuses = [(n, fail_with m)]"
  by (induction pls arbitrary: statuses) (auto simp: Let_def)

text \<open>The statuses of the filter plugins always merge without a panic, and the code of the merged
  status is the one the plugins' codes call for: success when every plugin succeeds; otherwise, when
  not all filters are run, the refusal of the first plugin that does not succeed, or an error when it
  gives any other code; when all filters are run, an error if any plugin gives any other code, and
  else the stronger refusal.\<close>

theorem filter_verdict:
  assumes "distinct (map fst (filterPlugins f))"
  shows "map_option Status_Code (Merge (RunFilterPlugins f w state pod ni)) =
    Some (filter_code (runAllFilters f) (map (\<lambda>pl. Status_Code (snd pl w state pod ni)) (filterPlugins f)))"
proof (cases "runAllFilters f")
  case False
  then show ?thesis by (simp add: RunFilterPlugins_def filter_loop_first)
next
  case True
  let ?pls = "filterPlugins f" and ?st = "\<lambda>pl. snd pl w state pod ni"
  let ?codes = "map (\<lambda>pl. Status_Code (?st pl)) ?pls"
  show ?thesis
  proof (cases "\<forall>pl\<in>set ?pls. IsSuccess (?st pl) \<or> IsUnschedulable (?st pl)")
    case fine: True
    let ?bad = "map (\<lambda>pl. (fst pl, ?st pl)) (filter (\<lambda>pl. \<not> IsSuccess (?st pl)) ?pls)"
    have run: "RunFilterPlugins f w state pod ni = ?bad"
      using filter_loop_all [OF assms _ fine, of "[]"] True by (simp add: RunFilterPlugins_def)
    have "unsched_map ?bad" using fine by (auto simp: unsched_map_def)
    moreover have "filter_code True ?codes =
        (if ?bad = [] then Success
         else if UnschedulableAndUnresolvable \<in> Status_Code ` snd ` set ?bad then UnschedulableAndUnresolvable
         else Unschedulable)"
      using fine
      by (auto simp: filter_code_def Let_def IsSuccess_def IsUnschedulable_iff filter_map comp_def list_ex_iff
          filter_empty_conv image_iff)
    ultimately show ?thesis by (simp only: run True unsched_map_merge)
  next
    case bad: False
    then obtain n m where "RunFilterPlugins f w state pod ni = [(n, fail_with m)]"
      using filter_loop_all_err [OF bad, of "[]"] True by (auto simp: RunFilterPlugins_def)
    moreover have "filter_code True ?codes = Error"
      using bad by (auto simp: filter_code_def Let_def IsSuccess_def IsUnschedulable_iff list_ex_iff filter_empty_conv)
    ultimately show ?thesis using True by (simp add: Merge_eq fail_with_def NewStatus_def Status_Code_def)
  qed
qed

subsection \<open>Scores\<close>

text \<open>The reference: what a score plugin contributes, computed node by node.\<close>

definition raw_scores :: "'w \<Rightarrow> 'd CycleState \<Rightarrow> Pod \<Rightarrow> Node list \<Rightarrow> ('d, 'w) ScorePlugin \<Rightarrow> NodeScoreList" where
  "raw_scores w state pod nodes pl =
    map (\<lambda>n. \<lparr>ns_Name = node_Name n, ns_Score = fst (Score pl w state pod (node_Name n))\<rparr>) nodes"

definition normalized :: "'w \<Rightarrow> 'd CycleState \<Rightarrow> Pod \<Rightarrow> ('d, 'w) ScorePlugin \<Rightarrow> NodeScoreList \<Rightarrow> NodeScoreList \<times> Status option" where
  "normalized w state pod pl l =
    (case ScoreExtensions pl of None \<Rightarrow> (l, None) | Some norm_fn \<Rightarrow> norm_fn w state pod l)"

definition weighted :: "int \<Rightarrow> NodeScoreList \<Rightarrow> NodeScoreList" where
  "weighted weight l = map (\<lambda>ns. ns\<lparr>ns_Score := i64 (ns_Score ns * weight)\<rparr>) l"

definition plugin_ok :: "'w \<Rightarrow> 'd CycleState \<Rightarrow> Pod \<Rightarrow> Node list \<Rightarrow> ('d, 'w) ScorePlugin \<Rightarrow> bool" where
  "plugin_ok w state pod nodes pl \<longleftrightarrow>
    list_all (\<lambda>n. IsSuccess (snd (Score pl w state pod (node_Name n)))) nodes \<and>
    (case normalized w state pod pl (raw_scores w state pod nodes pl) of (l, status) \<Rightarrow>
       IsSuccess status \<and> list_all (\<lambda>ns. MinNodeScore \<le> ns_Score ns \<and> ns_Score ns \<le> MaxNodeScore) l)"

definition plugin_scores :: "('a, 'd, 'w) frameworkImpl \<Rightarrow> 'w \<Rightarrow> 'd CycleState \<Rightarrow> Pod \<Rightarrow> Node list \<Rightarrow>
    string \<times> ('d, 'w) ScorePlugin \<Rightarrow> NodeScoreList" where
  "plugin_scores f w state pod nodes pl =
    weighted (gm_get0 (pluginNameToWeightMap f) (fst pl))
      (fst (normalized w state pod (snd pl) (raw_scores w state pod nodes (snd pl))))"

text \<open>The orders that the three loops may have.\<close>

definition score_orders :: "('a, 'd, 'w) frameworkImpl \<Rightarrow> 'w \<Rightarrow> 'd CycleState \<Rightarrow> Pod \<Rightarrow> Node list \<Rightarrow>
    nat list \<times> nat list \<times> nat list \<Rightarrow> bool" where
  "score_orders f w state pod nodes orders =
    (case orders of (order1, order2, order3) \<Rightarrow>
     let m0 = init_scores (scorePlugins f) (length nodes) in
     until_order (length nodes) order1 (score_piece f w state pod nodes) m0 \<and>
     (case Until order1 (score_piece f w state pod nodes) (None, m0) of (e1, m1) \<Rightarrow>
      e1 = None \<longrightarrow>
      until_order (length (scorePlugins f)) order2 (normalize_piece f w state pod) m1 \<and>
      (case Until order2 (normalize_piece f w state pod) (None, m1) of (e2, m2) \<Rightarrow>
       e2 = None \<longrightarrow> until_order (length (scorePlugins f)) order3 (weight_piece f) m2)))"

lemma row_put [simp]: "row (gm_put m k l) k' = (if k' = k then l else row m k')"
  by (simp add: row_def)

lemma score_node_None:
  "fst (score_node w state pod n i pls m) = None \<longleftrightarrow>
    (\<forall>pl\<in>set pls. IsSuccess (snd (Score (snd pl) w state pod n)))"
  by (induction pls arbitrary: m) (auto split: prod.split)

lemma score_node_row:
  "distinct (map fst pls) \<Longrightarrow> fst (score_node w state pod n i pls m) = None \<Longrightarrow> pl \<in> set pls \<Longrightarrow>
    row (snd (score_node w state pod n i pls m)) (fst pl) =
      (row m (fst pl))[i := \<lparr>ns_Name = n, ns_Score = fst (Score (snd pl) w state pod n)\<rparr>]"
proof (induction pls arbitrary: m)
  case (Cons q pls)
  have other: "fst q \<noteq> fst pl" if "pl \<in> set pls" using Cons.prems(1) that by auto
  have same: "row (snd (score_node w state pod n i pls m')) (fst q) = row m' (fst q)"
    if "fst q \<notin> fst ` set pls" for m'
    using that by (induction pls arbitrary: m') (auto split: prod.split)
  obtain s st where "Score (snd q) w state pod n = (s, st)" by (cases "Score (snd q) w state pod n")
  with Cons other same show ?case by (auto split: if_splits)
qed simp

lemma keys_put_same: "k \<in> fst ` set m \<Longrightarrow> fst ` set (gm_put m k l) = fst ` set m"
  by (simp add: insert_absorb)

lemma score_node_keys:
  "fst ` set pls \<subseteq> fst ` set m \<Longrightarrow> fst ` set (snd (score_node w state pod n i pls m)) = fst ` set m"
proof (induction pls arbitrary: m)
  case (Cons q pls)
  have put: "fst ` set (gm_put m (fst q) l) = fst ` set m" for l
    using Cons.prems by (intro keys_put_same) auto
  have "fst ` set (snd (score_node w state pod n i pls (gm_put m (fst q) l))) = fst ` set m" for l
    using Cons.IH [of "gm_put m (fst q) l"] Cons.prems unfolding put by simp
  then show ?case by (auto split: prod.split)
qed simp

lemma score_node_gm_ok: "gm_ok m \<Longrightarrow> gm_ok (snd (score_node w state pod n i pls m))"
  by (induction pls arbitrary: m) (auto split: prod.split)

lemma Until_keeps:
  assumes "\<And>i s. i < n \<Longrightarrow> P s \<Longrightarrow> P (snd (piece i s))"
  shows "set order \<subseteq> {..<n} \<Longrightarrow> P s \<Longrightarrow> P (snd (Until order piece (e, s)))"
proof (induction order arbitrary: e s)
  case (Cons i order)
  obtain e1 s1 where p: "piece i s = (e1, s1)" by (cases "piece i s")
  have "P s1" using assms [of i s] Cons.prems p by simp
  then show ?case using Cons p by (cases e1) auto
qed simp

lemma score_loop_rows:
  assumes dist: "distinct (map fst (scorePlugins f))" and pl: "pl \<in> set (scorePlugins f)"
  shows "Until order (score_piece f w state pod nodes) (None, m0) = (None, m1) \<Longrightarrow>
    length (row m1 (fst pl)) = length (row m0 (fst pl)) \<and>
    (\<forall>j<length (row m0 (fst pl)). row m1 (fst pl) ! j =
      (if j \<in> set order
       then \<lparr>ns_Name = node_Name (nodes ! j), ns_Score = fst (Score (snd pl) w state pod (node_Name (nodes ! j)))\<rparr>
       else row m0 (fst pl) ! j))"
proof (induction order arbitrary: m0)
  case (Cons i order)
  then obtain m where p: "score_piece f w state pod nodes i m0 = (None, m)"
      "Until order (score_piece f w state pod nodes) (None, m) = (None, m1)"
    by (auto simp only: Until_Cons_None)
  have "row m (fst pl) = (row m0 (fst pl))[i := \<lparr>ns_Name = node_Name (nodes ! i),
      ns_Score = fst (Score (snd pl) w state pod (node_Name (nodes ! i)))\<rparr>]"
    using score_node_row [OF dist _ pl, of w state pod "node_Name (nodes ! i)" i m0] p(1)
    by (simp add: score_piece_def)
  with Cons.IH [OF p(2)] show ?case by (auto simp: nth_list_update)
qed simp

text \<open>Loops whose pieces each work on the entry of one key.\<close>

lemma until_rows:
  assumes piece: "\<And>i m. i < n \<Longrightarrow> fst (piece i m) = fst (g i (row m (nm i)))"
      "\<And>i m. i < n \<Longrightarrow> row (snd (piece i m)) = (row m)(nm i := snd (g i (row m (nm i))))"
    and inj: "inj_on nm {..<n}"
  shows "distinct order \<Longrightarrow> set order \<subseteq> {..<n} \<Longrightarrow>
    (fst (Until order piece (None, m)) = None \<longleftrightarrow> (\<forall>i\<in>set order. fst (g i (row m (nm i))) = None)) \<and>
    (fst (Until order piece (None, m)) = None \<longrightarrow>
      (\<forall>i<n. row (snd (Until order piece (None, m))) (nm i) =
        (if i \<in> set order then snd (g i (row m (nm i))) else row m (nm i))))"
proof (induction order arbitrary: m)
  case (Cons i order)
  obtain e m1 where p: "piece i m = (e, m1)" by (cases "piece i m")
  have i: "i < n" "i \<notin> set order" "set order \<subseteq> {..<n}" "distinct order" using Cons.prems by auto
  have e: "e = fst (g i (row m (nm i)))" using piece(1) [OF i(1), of m] p by simp
  have r: "row m1 = (row m)(nm i := snd (g i (row m (nm i))))" using piece(2) [OF i(1), of m] p by simp
  have other: "row m1 (nm j) = row m (nm j)" if "j < n" "j \<noteq> i" for j
    using inj that i(1) by (auto simp: r inj_on_def)
  have ord: "row m1 (nm j) = row m (nm j)" if "j \<in> set order" for j
    using that i(2,3) other by auto
  note IH = Cons.IH [OF i(4,3), of m1]
  show ?case
  proof (cases e)
    case (Some x)
    then show ?thesis using p e Until_err [of order piece x m1] by (simp add: SendError_def)
  next
    case None
    then have u: "Until (i # order) piece (None, m) = Until order piece (None, m1)" using p by simp
    show ?thesis unfolding u using IH None e i(1,2) other ord by (auto simp: r)
  qed
qed simp

lemma weigh_None: "fst (weigh n c l) = None \<longleftrightarrow> list_all (\<lambda>ns. MinNodeScore \<le> ns_Score ns \<and> ns_Score ns \<le> MaxNodeScore) l"
  by (induction l) (auto split: prod.split)

lemma weigh_weighted: "fst (weigh n c l) = None \<Longrightarrow> snd (weigh n c l) = weighted c l"
  by (induction l) (auto simp: weighted_def split: prod.splits if_splits)

lemma init_scores_row: "pl \<in> set pls \<Longrightarrow> row (init_scores pls n) (fst pl) = replicate n zero_NodeScore"
proof -
  have "row (fold (\<lambda>pl m. gm_put m (fst pl) (replicate n zero_NodeScore)) pls m) (fst pl) =
      (if fst pl \<in> fst ` set pls then replicate n zero_NodeScore else row m (fst pl))" for m
    by (induction pls arbitrary: m) auto
  then show "pl \<in> set pls \<Longrightarrow> ?thesis" by (simp add: init_scores_def)
qed

lemma init_scores_keys: "fst ` set (init_scores pls n) = fst ` set pls"
proof -
  have "fst ` set (fold (\<lambda>pl m. gm_put m (fst pl) (replicate n zero_NodeScore)) pls m) = fst ` set pls \<union> fst ` set m" for m
    by (induction pls arbitrary: m) auto
  then show ?thesis by (simp add: init_scores_def)
qed

lemma init_scores_gm_ok: "gm_ok (init_scores pls n)"
proof -
  have "gm_ok m \<Longrightarrow> gm_ok (fold (\<lambda>pl m. gm_put m (fst pl) (replicate n zero_NodeScore)) pls m)" for m
    by (induction pls arbitrary: m) auto
  then show ?thesis by (simp add: init_scores_def)
qed

text \<open>The three loops, one by one.\<close>

abbreviation score_keys :: "('a, 'd, 'w) frameworkImpl \<Rightarrow> PluginToNodeScores \<Rightarrow> bool" where
  "score_keys f m \<equiv> gm_ok m \<and> fst ` set m = fst ` set (scorePlugins f)"

lemma score_phase:
  assumes dist: "distinct (map fst (scorePlugins f))"
    and order: "until_order (length nodes) order (score_piece f w state pod nodes) (init_scores (scorePlugins f) (length nodes))"
    and run: "Until order (score_piece f w state pod nodes) (None, init_scores (scorePlugins f) (length nodes)) = (e, m)"
  shows "e = None \<longleftrightarrow> (\<forall>pl\<in>set (scorePlugins f). \<forall>n\<in>set nodes. IsSuccess (snd (Score (snd pl) w state pod (node_Name n))))"
    and "e = None \<Longrightarrow> score_keys f m \<and> (\<forall>pl\<in>set (scorePlugins f). row m (fst pl) = raw_scores w state pod nodes (snd pl))"
proof -
  let ?m0 = "init_scores (scorePlugins f) (length nodes)" and ?piece = "score_piece f w state pod nodes"
  have "fst (Until order ?piece (None, ?m0)) = None \<longleftrightarrow>
      (\<forall>i<length nodes. \<forall>pl\<in>set (scorePlugins f). IsSuccess (snd (Score (snd pl) w state pod (node_Name (nodes ! i)))))"
    by (rule until_order_success [OF order, where good = "\<lambda>_. True"]) (simp_all add: score_piece_def score_node_None)
  then show "e = None \<longleftrightarrow> (\<forall>pl\<in>set (scorePlugins f). \<forall>n\<in>set nodes. IsSuccess (snd (Score (snd pl) w state pod (node_Name n))))"
    by (auto simp: run all_set_conv_all_nth)
  have sub: "set order \<subseteq> {..<length nodes}" using order by (simp add: until_order_def)
  have keys: "score_keys f m"
    using Until_keeps [where P = "score_keys f" and n = "length nodes" and piece = ?piece, OF _ sub, of ?m0 None]
    by (simp add: run score_piece_def score_node_keys score_node_gm_ok init_scores_keys init_scores_gm_ok)
  assume "e = None"
  then have all: "set order = {..<length nodes}" using order by (simp add: until_order_def run)
  show "score_keys f m \<and> (\<forall>pl\<in>set (scorePlugins f). row m (fst pl) = raw_scores w state pod nodes (snd pl))"
    using score_loop_rows [OF dist _ run [unfolded \<open>e = None\<close>]] keys
    by (auto simp: all init_scores_row raw_scores_def intro!: nth_equalityI)
qed

lemma nth_name_inj: "distinct (map fst xs) \<Longrightarrow> inj_on (\<lambda>i. fst (xs ! i)) {..<length xs}"
  by (auto simp: inj_on_def distinct_conv_nth)

lemma key_phase:
  assumes dist: "distinct (map fst (scorePlugins f))"
    and piece: "\<And>i m. i < length (scorePlugins f) \<Longrightarrow>
        fst (piece i m) = fst (g (scorePlugins f ! i) (row m (fst (scorePlugins f ! i))))"
      "\<And>i m. i < length (scorePlugins f) \<Longrightarrow>
        row (snd (piece i m)) = (row m)(fst (scorePlugins f ! i) := snd (g (scorePlugins f ! i) (row m (fst (scorePlugins f ! i)))))"
      "\<And>i m. i < length (scorePlugins f) \<Longrightarrow> score_keys f m \<Longrightarrow> score_keys f (snd (piece i m))"
    and order: "until_order (length (scorePlugins f)) order piece m"
    and run: "Until order piece (None, m) = (e, m')"
    and keys: "score_keys f m"
  shows "e = None \<longleftrightarrow> (\<forall>pl\<in>set (scorePlugins f). fst (g pl (row m (fst pl))) = None)"
    and "e = None \<Longrightarrow> score_keys f m' \<and> (\<forall>pl\<in>set (scorePlugins f). row m' (fst pl) = snd (g pl (row m (fst pl))))"
proof -
  let ?n = "length (scorePlugins f)"
  have o: "distinct order" "set order \<subseteq> {..<?n}" "e = None \<longrightarrow> set order = {..<?n}"
    using order by (simp_all add: until_order_def run)
  note rows = until_rows [where n = ?n and piece = piece and g = "\<lambda>i. g (scorePlugins f ! i)" and nm = "\<lambda>i. fst (scorePlugins f ! i)" and m = m,
      OF piece(1) piece(2) nth_name_inj [OF dist] o(1,2), unfolded run, simplified]
  have e: "e = None \<longleftrightarrow> (\<forall>i\<in>set order. fst (g (scorePlugins f ! i) (row m (fst (scorePlugins f ! i)))) = None)"
    using rows by (rule conjunct1)
  show "e = None \<longleftrightarrow> (\<forall>pl\<in>set (scorePlugins f). fst (g pl (row m (fst pl))) = None)"
  proof
    assume "e = None"
    with o(3) have "set order = {..<?n}" by (rule mp)
    with e \<open>e = None\<close> show "\<forall>pl\<in>set (scorePlugins f). fst (g pl (row m (fst pl))) = None"
      by (auto simp: all_set_conv_all_nth)
  next
    assume "\<forall>pl\<in>set (scorePlugins f). fst (g pl (row m (fst pl))) = None"
    with o(2) have "\<forall>i\<in>set order. fst (g (scorePlugins f ! i) (row m (fst (scorePlugins f ! i)))) = None" by auto
    with e show "e = None" by (rule iffD2)
  qed
  have keys': "score_keys f m'"
    using Until_keeps [where P = "score_keys f" and piece = piece and n = ?n and s = m and e = None, OF piece(3) o(2) keys]
    by (simp add: run)
  assume none: "e = None"
  with o(3) have "set order = {..<?n}" by (rule mp)
  with rows none keys' show "score_keys f m' \<and> (\<forall>pl\<in>set (scorePlugins f). row m' (fst pl) = snd (g pl (row m (fst pl))))"
    by (auto simp: all_set_conv_all_nth)
qed

lemma normalize_phase:
  fixes f :: "('a, 'd, 'w) frameworkImpl"
  assumes "distinct (map fst (scorePlugins f))"
    "until_order (length (scorePlugins f)) order (normalize_piece f w state pod) m"
    "Until order (normalize_piece f w state pod) (None, m) = (e, m')" "score_keys f m"
  shows "e = None \<longleftrightarrow> (\<forall>pl\<in>set (scorePlugins f). IsSuccess (snd (normalized w state pod (snd pl) (row m (fst pl)))))"
    and "e = None \<Longrightarrow> score_keys f m' \<and>
      (\<forall>pl\<in>set (scorePlugins f). row m' (fst pl) = fst (normalized w state pod (snd pl) (row m (fst pl))))"
proof -
  define g where "g pl l = (case normalized w state pod (snd pl) l of (l', status) \<Rightarrow>
    (if IsSuccess status then None
     else Some (''normalize score plugin '' @ go_q (fst pl) @ '' failed with error '' @ Message status), l'))"
    for pl :: "string \<times> ('d, 'w) ScorePlugin" and l
  have g: "fst (g pl l) = None \<longleftrightarrow> IsSuccess (snd (normalized w state pod (snd pl) l))"
      "snd (g pl l) = fst (normalized w state pod (snd pl) l)" for pl l
    by (auto simp: g_def split: prod.split)
  have p1: "fst (normalize_piece f w state pod i m) = fst (g (scorePlugins f ! i) (row m (fst (scorePlugins f ! i))))" for i m
    by (auto simp: normalize_piece_def g_def normalized_def Let_def split: option.split prod.split)
  have p2: "row (snd (normalize_piece f w state pod i m)) =
      (row m)(fst (scorePlugins f ! i) := snd (g (scorePlugins f ! i) (row m (fst (scorePlugins f ! i)))))" for i m
    by (auto simp: normalize_piece_def g_def normalized_def Let_def fun_eq_iff split: option.split prod.split)
  have p3: "score_keys f (snd (normalize_piece f w state pod i m))" if "i < length (scorePlugins f)" "score_keys f m" for i m
    using that by (auto simp: normalize_piece_def Let_def insert_absorb nth_mem split: option.split prod.split)
  note phase = key_phase [where piece = "normalize_piece f w state pod" and g = g, OF assms(1) p1 p2 p3 assms(2-4), unfolded g]
  show "e = None \<longleftrightarrow> (\<forall>pl\<in>set (scorePlugins f). IsSuccess (snd (normalized w state pod (snd pl) (row m (fst pl)))))"
    by (rule phase(1))
  show "e = None \<Longrightarrow> score_keys f m' \<and>
      (\<forall>pl\<in>set (scorePlugins f). row m' (fst pl) = fst (normalized w state pod (snd pl) (row m (fst pl))))"
    by (rule phase(2))
qed

lemma weight_phase:
  fixes f :: "('a, 'd, 'w) frameworkImpl"
  assumes "distinct (map fst (scorePlugins f))"
    "until_order (length (scorePlugins f)) order (weight_piece f) m"
    "Until order (weight_piece f) (None, m) = (e, m')" "score_keys f m"
  shows "e = None \<longleftrightarrow> (\<forall>pl\<in>set (scorePlugins f).
      list_all (\<lambda>ns. MinNodeScore \<le> ns_Score ns \<and> ns_Score ns \<le> MaxNodeScore) (row m (fst pl)))"
    and "e = None \<Longrightarrow> score_keys f m' \<and>
      (\<forall>pl\<in>set (scorePlugins f). row m' (fst pl) = weighted (gm_get0 (pluginNameToWeightMap f) (fst pl)) (row m (fst pl)))"
proof -
  define g where "g pl l = weigh (fst pl) (gm_get0 (pluginNameToWeightMap f) (fst pl)) l"
    for pl :: "string \<times> ('d, 'w) ScorePlugin" and l
  have p1: "fst (weight_piece f i m) = fst (g (scorePlugins f ! i) (row m (fst (scorePlugins f ! i))))" for i m
    by (auto simp: weight_piece_def g_def Let_def split: prod.split)
  have p2: "row (snd (weight_piece f i m)) =
      (row m)(fst (scorePlugins f ! i) := snd (g (scorePlugins f ! i) (row m (fst (scorePlugins f ! i)))))" for i m
    by (auto simp: weight_piece_def g_def Let_def fun_eq_iff split: prod.split)
  have p3: "score_keys f (snd (weight_piece f i m))" if "i < length (scorePlugins f)" "score_keys f m" for i m
    using that by (auto simp: weight_piece_def Let_def insert_absorb nth_mem split: prod.split)
  note phase = key_phase [where piece = "weight_piece f" and g = g, OF assms(1) p1 p2 p3 assms(2-4)]
  show iff: "e = None \<longleftrightarrow> (\<forall>pl\<in>set (scorePlugins f).
      list_all (\<lambda>ns. MinNodeScore \<le> ns_Score ns \<and> ns_Score ns \<le> MaxNodeScore) (row m (fst pl)))"
    using phase(1) by (simp only: g_def weigh_None)
  show "e = None \<Longrightarrow> score_keys f m' \<and>
      (\<forall>pl\<in>set (scorePlugins f). row m' (fst pl) = weighted (gm_get0 (pluginNameToWeightMap f) (fst pl)) (row m (fst pl)))"
    using phase by (auto simp: g_def weigh_weighted)
qed

lemma plugin_ok_iff: "plugin_ok w state pod nodes pl \<longleftrightarrow>
    (\<forall>n\<in>set nodes. IsSuccess (snd (Score pl w state pod (node_Name n)))) \<and>
    IsSuccess (snd (normalized w state pod pl (raw_scores w state pod nodes pl))) \<and>
    list_all (\<lambda>ns. MinNodeScore \<le> ns_Score ns \<and> ns_Score ns \<le> MaxNodeScore)
      (fst (normalized w state pod pl (raw_scores w state pod nodes pl)))"
  by (simp add: plugin_ok_def list_all_iff split: prod.split)

lemma gm_get_row: "k \<in> fst ` set m \<Longrightarrow> gm_get m k = Some (row m k)"
  by (cases "gm_get m k") (auto simp: row_def gm_get_eq_None)

lemma score_plugins_reference:
  assumes dist: "distinct (map fst (scorePlugins f))"
    and orders: "score_orders f w state pod nodes orders"
  shows "if \<forall>pl\<in>set (scorePlugins f). plugin_ok w state pod nodes (snd pl)
    then \<exists>m. RunScorePlugins orders f w state pod nodes = (m, None) \<and> score_keys f m \<and>
      (\<forall>pl\<in>set (scorePlugins f). gm_get m (fst pl) = Some (plugin_scores f w state pod nodes pl))
    else \<exists>msg. RunScorePlugins orders f w state pod nodes = ([], fail_with msg)"
proof -
  obtain o1 o2 o3 where o: "orders = (o1, o2, o3)" by (cases orders)
  let ?m0 = "init_scores (scorePlugins f) (length nodes)"
  obtain e1 m1 where u1: "Until o1 (score_piece f w state pod nodes) (None, ?m0) = (e1, m1)"
    by (cases "Until o1 (score_piece f w state pod nodes) (None, ?m0)")
  obtain e2 m2 where u2: "Until o2 (normalize_piece f w state pod) (None, m1) = (e2, m2)"
    by (cases "Until o2 (normalize_piece f w state pod) (None, m1)")
  obtain e3 m3 where u3: "Until o3 (weight_piece f) (None, m2) = (e3, m3)"
    by (cases "Until o3 (weight_piece f) (None, m2)")
  have v: "until_order (length nodes) o1 (score_piece f w state pod nodes) ?m0"
      "e1 = None \<Longrightarrow> until_order (length (scorePlugins f)) o2 (normalize_piece f w state pod) m1"
      "e1 = None \<Longrightarrow> e2 = None \<Longrightarrow> until_order (length (scorePlugins f)) o3 (weight_piece f) m2"
    using orders by (simp_all add: score_orders_def o u1 u2 Let_def)
  note s1 = score_phase [OF dist v(1) u1]
  show ?thesis
  proof (cases e1)
    case (Some err)
    then have "\<not> (\<forall>pl\<in>set (scorePlugins f). plugin_ok w state pod nodes (snd pl))"
      using s1(1) by (auto simp: plugin_ok_iff)
    then show ?thesis using Some by (auto simp: RunScorePlugins_def o u1)
  next
    case e1: None
    note rows1 = s1(2) [OF e1]
    note s2 = normalize_phase [OF dist v(2) [OF e1] u2 rows1 [THEN conjunct1]]
    show ?thesis
    proof (cases e2)
      case (Some err)
      then have "\<not> (\<forall>pl\<in>set (scorePlugins f). plugin_ok w state pod nodes (snd pl))"
        using s2(1) rows1 by (fastforce simp: plugin_ok_iff)
      then show ?thesis using Some e1 by (auto simp: RunScorePlugins_def o u1 u2)
    next
      case e2: None
      note rows2 = s2(2) [OF e2]
      note s3 = weight_phase [OF dist v(3) [OF e1 e2] u3 rows2 [THEN conjunct1]]
      have ok: "(\<forall>pl\<in>set (scorePlugins f). plugin_ok w state pod nodes (snd pl)) \<longleftrightarrow> e3 = None"
        using s1(1) s2(1) s3(1) e1 e2 rows1 rows2 by (simp add: plugin_ok_iff cong: ball_cong)
      show ?thesis
      proof (cases e3)
        case (Some err)
        then show ?thesis using ok e1 e2 by (auto simp: RunScorePlugins_def o u1 u2 u3)
      next
        case e3: None
        from s3(2) [OF e3] rows1 rows2
        have "score_keys f m3 \<and> (\<forall>pl\<in>set (scorePlugins f). gm_get m3 (fst pl) = Some (plugin_scores f w state pod nodes pl))"
          by (auto simp: plugin_scores_def gm_get_row)
        then show ?thesis using ok e1 e2 e3 by (simp add: RunScorePlugins_def o u1 u2 u3)
      qed
    qed
  qed
qed

subsection \<open>Reservations\<close>

lemma fold_nth_rev: "fold (\<lambda>i e. g (xs ! i) e) (rev [0..<length xs]) e = fold g (rev xs) e"
proof -
  have "fold (\<lambda>i e. g (xs ! i) e) (rev [0..<length xs]) = fold g (map (\<lambda>i. xs ! i) (rev [0..<length xs]))"
    by (simp add: fold_map comp_def)
  also have "map (\<lambda>i. xs ! i) (rev [0..<length xs]) = rev xs"
    by (simp add: rev_map [symmetric] map_nth)
  finally show ?thesis by simp
qed

lemma fold_undo:
  "(\<And>x e. x \<in> set xs \<Longrightarrow> undo x (act x e) = e) \<Longrightarrow> fold undo (rev xs) (fold act xs e) = e"
  by (induction xs arbitrary: e) simp_all

text \<open>When every reserve plugin's \<open>Unreserve\<close> undoes what its own \<open>Reserve\<close> did, then running
  \<open>Unreserve\<close> of all plugins after a successful \<open>Reserve\<close> of all of them gives back the state from
  before, because it goes through the plugins in the reverse order.\<close>

theorem reserve_unreserve_roundtrip:
  assumes "RunReservePluginsReserve f env pod nodeName = (None, env')"
    and "\<forall>pl\<in>set (reservePlugins f). \<forall>e. Unreserve (snd pl) (snd (Reserve (snd pl) e pod nodeName)) pod nodeName = e"
  shows "RunReservePluginsUnreserve f env' pod nodeName = env"
proof -
  have "env' = fold (\<lambda>pl e. snd (Reserve (snd pl) e pod nodeName)) (reservePlugins f) env"
    using run_until_fail_success [OF assms(1) [unfolded RunReservePluginsReserve_def]] by simp
  then show ?thesis
    using assms(2)
    by (simp add: RunReservePluginsUnreserve_def fold_nth_rev [where g = "\<lambda>pl e. Unreserve (snd pl) e pod nodeName"] fold_undo
        del: split_paired_All)
qed

subsection \<open>Permits\<close>

text \<open>What the permit plugins answer when they are asked one after the other.\<close>

fun permit_answers :: "('d, 'w) PermitPlugin plugins \<Rightarrow> ('d, 'w) env \<Rightarrow> Pod \<Rightarrow> string \<Rightarrow> (string \<times> Status option) list" where
  "permit_answers [] env pod nodeName = []"
| "permit_answers (pl # pls) env pod nodeName =
    (case snd pl env pod nodeName of ((status, timeout), env') \<Rightarrow>
       (fst pl, status) # permit_answers pls env' pod nodeName)"

text \<open>The first answer that is neither \<open>Success\<close> nor \<open>Wait\<close> decides.\<close>

fun permit_code :: "Code list \<Rightarrow> Code" where
  "permit_code [] = Success"
| "permit_code (c # cs) =
    (if c = Success then permit_code cs
     else if c = Wait then (if permit_code cs = Success then Wait else permit_code cs)
     else if c = Unschedulable \<or> c = UnschedulableAndUnresolvable then c else Error)"

definition asked_to_wait :: "(string \<times> Status option) list \<Rightarrow> string set" where
  "asked_to_wait as = {name. \<exists>status. (name, status) \<in> set as \<and> Status_Code status = Wait}"

lemma asked_to_wait_simps [simp]:
  "asked_to_wait [] = {}"
  "asked_to_wait ((n, s) # as) = (if Status_Code s = Wait then insert n (asked_to_wait as) else asked_to_wait as)"
  by (auto simp: asked_to_wait_def)

lemma permit_loop_spec:
  assumes "permit_loop pls env pod n (wt, c) = (r, env')" "c = Wait \<or> c = Success" "\<forall>t\<in>snd ` set wt. t \<le> maxTimeout"
  shows "case r of
      Inl st \<Rightarrow> Status_Code st = permit_code (map (Status_Code \<circ> snd) (permit_answers pls env pod n)) \<and>
        Status_Code st \<notin> {Wait, Success}
    | Inr (wt', c') \<Rightarrow> list_all (\<lambda>a. Status_Code (snd a) = Success \<or> Status_Code (snd a) = Wait) (permit_answers pls env pod n) \<and>
        c' = (if asked_to_wait (permit_answers pls env pod n) = {} then c else Wait) \<and>
        fst ` set wt' = fst ` set wt \<union> asked_to_wait (permit_answers pls env pod n) \<and>
        (\<forall>t\<in>snd ` set wt'. t \<le> maxTimeout)"
  using assms
proof (induction pls arbitrary: env wt c)
  case (Cons pl pls)
  obtain s t env1 where call: "snd pl env pod n = ((s, t), env1)" by (cases "snd pl env pod n") auto
  let ?t = "if t > maxTimeout then maxTimeout else t"
  have bound: "\<forall>t'\<in>snd ` set (gm_put wt (fst pl) ?t). t' \<le> maxTimeout"
    using Cons.prems(3) set_gm_put [of wt "fst pl" ?t] by fastforce
  consider (ok) "Status_Code s = Success" | (wait) "Status_Code s = Wait"
    | (refuse) "Status_Code s = Unschedulable \<or> Status_Code s = UnschedulableAndUnresolvable"
    | (err) "Status_Code s = Error \<or> Status_Code s = Skip"
    by (cases "Status_Code s") auto
  then show ?case
  proof cases
    case ok
    then have "permit_loop pls env1 pod n (wt, c) = (r, env')" using Cons.prems(1) call by (simp add: IsSuccess_def)
    from Cons.IH [OF this Cons.prems(2,3)] show ?thesis
      using ok by (auto simp: call comp_def split: sum.splits prod.splits option.splits)
  next
    case wait
    then have "permit_loop pls env1 pod n (gm_put wt (fst pl) ?t, Wait) = (r, env')"
      using Cons.prems(1) call by (simp add: IsSuccess_def IsUnschedulable_iff)
    from Cons.IH [OF this _ bound] show ?thesis
      using wait by (auto simp: call comp_def split: sum.splits prod.splits option.splits)
  next
    case refuse
    then have "r = Inl (Some (NewStatus (Status_Code s) [''rejected pod '' @ go_q (pod_Name pod) @
        '' by permit plugin '' @ go_q (fst pl) @ '': '' @ Message s]))"
      using Cons.prems(1) call by (auto simp: IsSuccess_def IsUnschedulable_iff)
    then show ?thesis using refuse by (auto simp: call comp_def Status_Code_def NewStatus_def)
  next
    case err
    then have "\<exists>m. r = Inl (fail_with m)"
      using Cons.prems(1) call by (auto simp: IsSuccess_def IsUnschedulable_iff)
    then show ?thesis using err by (auto simp: call)
  qed
qed auto

lemma permit_code_mild:
  "list_all (\<lambda>a. Status_Code (snd a) = Success \<or> Status_Code (snd a) = Wait) as \<Longrightarrow>
    permit_code (map (Status_Code \<circ> snd) as) = (if asked_to_wait as = {} then Success else Wait)"
  by (induction as) auto

text \<open>What happens to a waiting pod while the binding cycle blocks in \<open>WaitOnPermit\<close>.\<close>

definition pod_events :: "wp_event list \<Rightarrow> string \<Rightarrow> ('a, 'd, 'w) frameworkImpl \<Rightarrow> ('a, 'd, 'w) frameworkImpl" where
  "pod_events es uid f =
    (case wpm_get (waitingPods f) uid of
       None \<Rightarrow> f
     | Some wp \<Rightarrow> f\<lparr>waitingPods := gm_put (waitingPods f) uid (fold wp_step es wp)\<rparr>)"

lemma wait_on_permit_waiting:
  assumes "wpm_get (waitingPods f) (pod_UID pod) = Some wp"
  shows "map_option (Status_Code \<circ> fst) (WaitOnPermit f pod) =
    map_option (\<lambda>s. if st_code s = Success then Success
      else if st_code s = Unschedulable \<or> st_code s = UnschedulableAndUnresolvable then st_code s else Error) (wp_s wp)"
  using assms
  by (auto simp: WaitOnPermit_def Let_def IsSuccess_def IsUnschedulable_iff Status_Code_def NewStatus_def fail_with_def
      split: option.split)

lemma fold_wp_step_code:
  "wp_s (fold wp_step es (newWaitingPod pod m)) = Some s \<Longrightarrow> st_code s = Success \<or> st_code s = Unschedulable"
  using wp_run_code [of "newWaitingPod pod m" "gm_copy m" es]
  by (auto simp: newWaitingPod_def split: if_splits)

text \<open>C31: The permit plugins together answer with the first refusal or error among their answers, and
  otherwise ask to wait if one of them did. A pod that has to wait, waits for exactly the plugins that
  asked for it and at most fifteen minutes for each; the binding cycle then goes on blocking until the pod
  is let through or refused, goes on with success exactly when all of these plugins allowed the pod
  before any refusal or time-out, and finds it unschedulable otherwise.\<close>

theorem permit_then_wait:
  assumes run: "RunPermitPlugins f env pod nodeName = (status, env', f')"
  shows "Status_Code status = permit_code (map (Status_Code \<circ> snd) (permit_answers (permitPlugins f) env pod nodeName))
    \<and> (Status_Code status = Wait \<longrightarrow>
        (\<exists>wp. wpm_get (waitingPods f') (pod_UID pod) = Some wp \<and> (\<forall>t\<in>snd ` set (pendingPlugins wp). t \<le> maxTimeout))
        \<and> map_option (Status_Code \<circ> fst) (WaitOnPermit (pod_events es (pod_UID pod) f') pod) =
          (if let_through (asked_to_wait (permit_answers (permitPlugins f) env pod nodeName)) es then Some Success
           else if refused es then Some Unschedulable else None))
    \<and> (Status_Code status \<noteq> Wait \<longrightarrow> f' = f)"
proof -
  let ?as = "permit_answers (permitPlugins f) env pod nodeName"
  obtain r env1 where loop: "permit_loop (permitPlugins f) env pod nodeName ([], Success) = (r, env1)"
    by (cases "permit_loop (permitPlugins f) env pod nodeName ([], Success)")
  note spec = permit_loop_spec [OF loop, simplified]
  show ?thesis
  proof (cases r)
    case (Inl st)
    then show ?thesis using spec run loop by (auto simp: RunPermitPlugins_def)
  next
    case (Inr wc)
    then obtain wt c where r: "r = Inr (wt, c)" by (cases wc) auto
    have c: "c = permit_code (map (Status_Code \<circ> snd) ?as)" and wt: "fst ` set wt = asked_to_wait ?as"
        "\<forall>t\<in>snd ` set wt. t \<le> maxTimeout"
      using spec permit_code_mild [of ?as] by (auto simp: r)
    show ?thesis
    proof (cases "c = Wait")
      case True
      let ?wp = "newWaitingPod pod wt"
      have f': "f' = f\<lparr>waitingPods := wpm_add (waitingPods f) ?wp\<rparr>" and st: "Status_Code status = Wait"
        using run loop True by (auto simp: RunPermitPlugins_def r Status_Code_def NewStatus_def)
      have get: "wpm_get (waitingPods f') (pod_UID pod) = Some ?wp"
        by (simp add: f' wpm_get_def wpm_add_def newWaitingPod_def)
      from wt(2) set_gm_copy [of wt] have le: "\<forall>t\<in>snd ` set (pendingPlugins ?wp). t \<le> maxTimeout"
        by (auto simp: newWaitingPod_def)
      have get': "wpm_get (waitingPods (pod_events es (pod_UID pod) f')) (pod_UID pod) = Some (fold wp_step es ?wp)"
        using get by (simp add: pod_events_def wpm_get_def)
      have code: "map_option st_code (wp_s (fold wp_step es ?wp)) =
          (if let_through (asked_to_wait ?as) es then Some Success else if refused es then Some Unschedulable else None)"
        using wp_run_code [of ?wp "gm_copy wt" es] by (simp add: newWaitingPod_def set_keys_copy wt(1))
      have "map_option (Status_Code \<circ> fst) (WaitOnPermit (pod_events es (pod_UID pod) f') pod) =
          map_option st_code (wp_s (fold wp_step es ?wp))"
        unfolding wait_on_permit_waiting [OF get'] using fold_wp_step_code [of es pod wt]
        by (intro map_option_cong refl) auto
      with code get le st c True show ?thesis by simp
    next
      case False
      then show ?thesis using run loop c spec by (auto simp: RunPermitPlugins_def r Status_Code_def split: if_splits)
    qed
  qed
qed

subsection \<open>Examples\<close>

text \<open>A plugin that takes part everywhere: it counts reservations in its world, refuses a node that has no
  name, scores each node with seven, and asks to wait.\<close>

definition demo_plugin :: "string \<Rightarrow> (unit, nat) FPlugin" where
  "demo_plugin name =
    \<lparr>Plugin_Name = name, as_QueueSort = Some (\<lambda>_ _. False), as_PreFilter = None,
     as_Filter = Some (\<lambda>w state pod ni. None), as_PostFilter = None, as_PreScore = None,
     as_Score = Some \<lparr>Score = (\<lambda>w state pod n. (7, None)), ScoreExtensions = None\<rparr>,
     as_Reserve = Some \<lparr>Reserve = (\<lambda>e pod n. (None, (Suc (fst e), snd e))), Unreserve = (\<lambda>e pod n. (fst e - 1, snd e))\<rparr>,
     as_PreBind = None, as_Bind = Some (\<lambda>e pod n. (None, e)), as_PostBind = None,
     as_Permit = Some (\<lambda>e pod n. ((Some (NewStatus Wait []), 10), e))\<rparr>"

definition demo_framework :: "(unit, unit, nat) frameworkImpl" where
  "demo_framework = (new_frameworkImpl [] defaultFrameworkOptions)
    \<lparr>pluginNameToWeightMap := [(''All'', 3)],
     filterPlugins := [(''All'', \<lambda>w state pod ni. None),
       (''None'', \<lambda>w state pod ni. Some (NewStatus Unschedulable []))],
     scorePlugins := [(''All'', \<lparr>Score = (\<lambda>w state pod n. (7, None)), ScoreExtensions = None\<rparr>)],
     reservePlugins := [(''All'', the (as_Reserve (demo_plugin ''All'')))],
     permitPlugins := [(''All'', the (as_Permit (demo_plugin ''All'')))]\<rparr>"

definition demo_state :: "unit CycleState" where
  "demo_state = NewCycleState"

lemmas demo_framework_simps = demo_framework_def demo_plugin_def new_frameworkImpl_def defaultFrameworkOptions_def

theorem filter_verdict_witness:
  "distinct (map fst (filterPlugins demo_framework)) \<and>
    map_option Status_Code (Merge (RunFilterPlugins demo_framework 0 demo_state zero_pod (fst (NewNodeInfo no_sel 0 []))))
      = Some Unschedulable"
  using filter_verdict [of demo_framework 0 demo_state zero_pod "fst (NewNodeInfo no_sel 0 [])"]
  by (simp add: demo_framework_simps filter_code_def Status_Code_def NewStatus_def)

theorem reserve_unreserve_roundtrip_witness:
  "RunReservePluginsUnreserve demo_framework
    (snd (RunReservePluginsReserve demo_framework (5, demo_state) zero_pod ''n'')) zero_pod ''n'' = (5, demo_state)"
  using reserve_unreserve_roundtrip [of demo_framework "(5, demo_state)" zero_pod "''n''" "(6, demo_state)"]
  by (simp add: demo_framework_simps RunReservePluginsReserve_def)

theorem permit_then_wait_witness:
  "Status_Code (fst (RunPermitPlugins demo_framework (0, demo_state) zero_pod ''n'')) = Wait \<and>
    map_option (Status_Code \<circ> fst)
      (WaitOnPermit (pod_events [Ev_Allow ''All''] (pod_UID zero_pod)
        (snd (snd (RunPermitPlugins demo_framework (0, demo_state) zero_pod ''n'')))) zero_pod) = Some Success"
proof -
  have "let_through {''All''} [Ev_Allow ''All'']"
    unfolding let_through_def by (intro exI [of _ "[Ev_Allow ''All'']"] exI [of _ "[]"]) (simp add: refused_def)
  then show ?thesis
    using permit_then_wait [of demo_framework "(0, demo_state)" zero_pod "''n''"
        "fst (RunPermitPlugins demo_framework (0, demo_state) zero_pod ''n'')"
        "fst (snd (RunPermitPlugins demo_framework (0, demo_state) zero_pod ''n''))"
        "snd (snd (RunPermitPlugins demo_framework (0, demo_state) zero_pod ''n''))" "[Ev_Allow ''All'']"]
    by (simp add: demo_framework_simps Status_Code_def NewStatus_def)
qed

text \<open>C30: The result of running the score plugins does not depend on the order in which the parallel loops
  do their work: it is an error exactly when a plugin fails on a node, its normalisation fails or a
  normalised score is out of range, and otherwise gives for every plugin the scores that the plugin
  computes node by node, normalised and multiplied with its weight.\<close>

theorem score_plugins_deterministic:
  assumes "distinct (map fst (scorePlugins f))" "score_orders f w state pod nodes orders"
  shows "if list_all (\<lambda>pl. plugin_ok w state pod nodes (snd pl)) (scorePlugins f)
    then snd (RunScorePlugins orders f w state pod nodes) = None \<and>
      fst ` set (fst (RunScorePlugins orders f w state pod nodes)) = fst ` set (scorePlugins f) \<and>
      list_all (\<lambda>pl. gm_get (fst (RunScorePlugins orders f w state pod nodes)) (fst pl)
        = Some (plugin_scores f w state pod nodes pl)) (scorePlugins f)
    else fst (RunScorePlugins orders f w state pod nodes) = [] \<and>
      Status_Code (snd (RunScorePlugins orders f w state pod nodes)) = Error"
proof (cases "\<forall>pl\<in>set (scorePlugins f). plugin_ok w state pod nodes (snd pl)")
  case True
  with score_plugins_reference [OF assms] obtain m where
    "RunScorePlugins orders f w state pod nodes = (m, None)" "score_keys f m"
    "\<forall>pl\<in>set (scorePlugins f). gm_get m (fst pl) = Some (plugin_scores f w state pod nodes pl)"
    by auto
  with True show ?thesis by (simp add: list_all_iff)
next
  case False
  with score_plugins_reference [OF assms] obtain msg where
    "RunScorePlugins orders f w state pod nodes = ([], fail_with msg)"
    by auto
  with False show ?thesis by (simp add: list_all_iff)
qed

theorem score_plugins_deterministic_witness:
  "gm_get (fst (RunScorePlugins ([1, 0], [0], [0]) demo_framework 0 demo_state zero_pod
      [zero_node\<lparr>node_Name := ''a''\<rparr>, zero_node\<lparr>node_Name := ''b''\<rparr>])) ''All''
    = Some [\<lparr>ns_Name = ''a'', ns_Score = 21\<rparr>, \<lparr>ns_Name = ''b'', ns_Score = 21\<rparr>]"
proof -
  let ?nodes = "[zero_node\<lparr>node_Name := ''a''\<rparr>, zero_node\<lparr>node_Name := ''b''\<rparr>]"
  let ?pl = "\<lparr>Score = (\<lambda>w state pod n. (7, None)), ScoreExtensions = None\<rparr>"
  have pls: "scorePlugins demo_framework = [(''All'', ?pl)]" and weight: "pluginNameToWeightMap demo_framework = [(''All'', 3)]"
    by (simp_all add: demo_framework_simps)
  have dist: "distinct (map fst (scorePlugins demo_framework))" by (simp add: pls)
  have orders: "score_orders demo_framework 0 demo_state zero_pod ?nodes ([1, 0], [0], [0])"
    by (auto simp: score_orders_def until_order_def pls score_piece_def Let_def normalize_piece_def weight_piece_def)
  have ok: "plugin_ok (0 :: nat) demo_state zero_pod ?nodes ?pl"
    by (simp add: plugin_ok_iff normalized_def raw_scores_def MinNodeScore_def MaxNodeScore_def)
  have "plugin_scores demo_framework 0 demo_state zero_pod ?nodes (''All'', ?pl)
      = [\<lparr>ns_Name = ''a'', ns_Score = 21\<rparr>, \<lparr>ns_Name = ''b'', ns_Score = 21\<rparr>]"
    by (simp add: plugin_scores_def weight weighted_def normalized_def raw_scores_def gm_get0_def gm_get_def i64_def)
  then show ?thesis
    using score_plugins_deterministic [OF dist orders] ok
    by (simp add: pls del: One_nat_def split: if_splits)
qed

end
