(* ===== verification/Framework_Init.thy ===== *)
theory Framework_Init
  imports Framework_Props
begin

text \<open>
  What a successful \<open>NewFramework\<close> guarantees: the plugin lists are the configured ones, and the
  weights are such that no sum of scores overflows.
\<close>

subsection \<open>The plugin lists\<close>

definition plugin_entry :: "(string \<Rightarrow> ('d, 'w) FPlugin option) \<Rightarrow> (('d, 'w) FPlugin \<Rightarrow> 'p option) \<Rightarrow>
    Plugin \<Rightarrow> (string \<times> 'p) option" where
  "plugin_entry pm implements ep =
    do { pg \<leftarrow> pm (plg_Name ep); p \<leftarrow> implements pg; Some (Plugin_Name pg, p) }"

text \<open>A list of plugins that stands for the enabled ones, each of them once and in their order.\<close>

definition loads :: "(string \<Rightarrow> ('d, 'w) FPlugin option) \<Rightarrow> (('d, 'w) FPlugin \<Rightarrow> 'p option) \<Rightarrow>
    Plugin list \<Rightarrow> 'p plugins \<Rightarrow> bool" where
  "loads pm implements eps l \<longleftrightarrow> distinct (map plg_Name eps) \<and> map Some l = map (plugin_entry pm implements) eps"

lemma update_list_loads:
  "update_list T implements pm eps seen l0 = Inr l \<Longrightarrow>
    (\<exists>l1. l = l0 @ l1 \<and> map Some l1 = map (plugin_entry (gm_get pm) implements) eps) \<and>
    distinct (map plg_Name eps) \<and> set (map plg_Name eps) \<inter> set seen = {}"
proof (induction T implements pm eps seen l0 rule: update_list.induct)
  case (1 T implements pm seen l0)
  then show ?case by auto
next
  case (2 T implements pm ep eps seen l0)
  from "2.prems" obtain pg p where p: "gm_get pm (plg_Name ep) = Some pg" "implements pg = Some p"
      "plg_Name ep \<notin> set seen"
      "update_list T implements pm eps (plg_Name ep # seen) (l0 @ [(Plugin_Name pg, p)]) = Inr l"
    by (auto split: option.splits if_splits)
  have "\<not> List.member seen (plg_Name ep)" using p(3) by simp
  from "2.IH" [OF p(1,2) this p(4)] obtain l1 where
      "l = (l0 @ [(Plugin_Name pg, p)]) @ l1" "map Some l1 = map (plugin_entry (gm_get pm) implements) eps"
      "distinct (map plg_Name eps)" "set (map plg_Name eps) \<inter> set (plg_Name ep # seen) = {}"
    by blast
  then show ?case using p
    by (intro conjI exI [of _ "(Plugin_Name pg, p) # l1"]) (auto simp: plugin_entry_def)
qed

lemma updatePluginList_loads:
  "updatePluginList T implements [] s pm = Inr l \<Longrightarrow>
    loads (gm_get pm) implements (case s of None \<Rightarrow> [] | Some s \<Rightarrow> Enabled s) l"
  by (auto simp: updatePluginList_def loads_def dest!: update_list_loads split: option.splits)

lemma update_all_loads:
  assumes "update_all p pm (new_frameworkImpl r options\<lparr>pluginNameToWeightMap := ws\<rparr>) = Inr f"
  shows "loads (gm_get pm) as_QueueSort (enabled_at QueueSortP p) (queueSortPlugins f)
    \<and> loads (gm_get pm) as_PreFilter (enabled_at PreFilterP p) (preFilterPlugins f)
    \<and> loads (gm_get pm) as_Filter (enabled_at FilterP p) (filterPlugins f)
    \<and> loads (gm_get pm) as_PostFilter (enabled_at PostFilterP p) (postFilterPlugins f)
    \<and> loads (gm_get pm) as_PreScore (enabled_at PreScoreP p) (preScorePlugins f)
    \<and> loads (gm_get pm) as_Score (enabled_at ScoreP p) (scorePlugins f)
    \<and> loads (gm_get pm) as_Reserve (enabled_at ReserveP p) (reservePlugins f)
    \<and> loads (gm_get pm) as_Permit (enabled_at PermitP p) (permitPlugins f)
    \<and> loads (gm_get pm) as_PreBind (enabled_at PreBindP p) (preBindPlugins f)
    \<and> loads (gm_get pm) as_Bind (enabled_at BindP p) (bindPlugins f)
    \<and> loads (gm_get pm) as_PostBind (enabled_at PostBindP p) (postBindPlugins f)
    \<and> pluginNameToWeightMap f = ws"
  using assms
  by (auto simp: update_all_def new_frameworkImpl_def enabled_at_def intro!: updatePluginList_loads)

lemma verify_framework_ok:
  "verify_framework f = Inr f' \<Longrightarrow> f' = f \<and> length (queueSortPlugins f) = 1 \<and> bindPlugins f \<noteq> [] \<and>
    (\<forall>pl\<in>set (scorePlugins f). gm_get0 (pluginNameToWeightMap f) (fst pl) \<noteq> 0)"
  by (cases "queueSortPlugins f") (auto simp: verify_framework_def find_None_iff split: option.splits if_splits)

subsection \<open>The plugins and their weights\<close>

definition made_by :: "('a, 'd, 'w) Registry \<Rightarrow> string \<Rightarrow> ('d, 'w) FPlugin \<Rightarrow> bool" where
  "made_by r name pg \<longleftrightarrow> (\<exists>factory arg. (name, factory) \<in> set r \<and> factory arg = Inr pg)"

lemma init_plugins_cases:
  assumes "init_plugins decode pg pc ((name, factory) # r) (pm, ws, t) = Inr st"
  obtains "gm_get pg name = None" "init_plugins decode pg pc r (pm, ws, t) = Inr st"
  | p arg plugin where "gm_get pg name = Some p" "factory arg = Inr plugin"
      "i64 (plugin_weight p * MaxNodeScore) \<le> i64 (MaxTotalScore - t)"
      "init_plugins decode pg pc r (gm_put pm name plugin, gm_put ws name (plugin_weight p),
        i64 (t + i64 (plugin_weight p * MaxNodeScore))) = Inr st"
  using assms by (auto simp: Let_def split: option.splits sum.splits if_splits)

lemma init_plugins_made:
  "init_plugins decode pg pc r (pm, ws, t) = Inr (pm', ws', t') \<Longrightarrow> gm_get pm' name = Some plugin \<Longrightarrow>
    gm_get pm name = Some plugin \<or> made_by r name plugin"
proof (induction r arbitrary: pm ws t)
  case (Cons e r)
  obtain n fac where e: "e = (n, fac)" by (cases e)
  from Cons.prems(1) [unfolded e] show ?case
  proof (cases rule: init_plugins_cases)
    case 1
    then show ?thesis using Cons.IH [OF 1(2) Cons.prems(2)] by (auto simp: made_by_def)
  next
    case (2 p arg q)
    then show ?thesis using Cons.IH [OF 2(4) Cons.prems(2)] by (auto simp: made_by_def e split: if_splits)
  qed
qed simp

definition weights_fine :: "(string, Plugin) gomap \<Rightarrow> bool" where
  "weights_fine pg \<longleftrightarrow> (\<forall>p\<in>snd ` set pg. 0 \<le> plg_Weight p \<and> plg_Weight p < 2 ^ 31)"

definition weights_ok :: "(string, int) gomap \<Rightarrow> int \<Rightarrow> bool" where
  "weights_ok ws t \<longleftrightarrow> gm_ok ws \<and> (\<forall>w\<in>snd ` set ws. 1 \<le> w \<and> w < 2 ^ 31) \<and>
    t = (\<Sum>w\<leftarrow>map snd ws. w * MaxNodeScore) \<and> t \<le> MaxTotalScore"

lemma sum_list_weights_nonneg: "\<forall>w\<in>snd ` set ws. (1 :: int) \<le> w \<Longrightarrow> 0 \<le> (\<Sum>w\<leftarrow>map snd ws. w * MaxNodeScore)"
  by (induction ws) (auto simp: MaxNodeScore_def)

lemma weights_ok_put:
  assumes ok: "weights_ok ws t" and p: "1 \<le> w" "w < 2 ^ 31" and new: "name \<notin> fst ` set ws"
    and le: "i64 (w * MaxNodeScore) \<le> i64 (MaxTotalScore - t)"
  shows "weights_ok (gm_put ws name w) (i64 (t + i64 (w * MaxNodeScore)))"
proof -
  have t: "0 \<le> t" "t \<le> MaxTotalScore" using ok sum_list_weights_nonneg [of ws] by (auto simp: weights_ok_def)
  have "in64 (w * MaxNodeScore)" "in64 (MaxTotalScore - t)"
    using p t by (auto simp: in64_def MaxNodeScore_def MaxTotalScore_def)
  then have le': "w * MaxNodeScore \<le> MaxTotalScore - t" using le by simp
  then have "in64 (t + w * MaxNodeScore)" using p t by (auto simp: in64_def MaxNodeScore_def MaxTotalScore_def)
  then have sum: "i64 (t + i64 (w * MaxNodeScore)) = t + w * MaxNodeScore" by simp
  show ?thesis
    unfolding sum using ok p le' new by (auto simp: weights_ok_def gm_put_new gm_ok_def)
qed

lemma init_plugins_weights:
  "init_plugins decode pg pc r (pm, ws, t) = Inr (pm', ws', t') \<Longrightarrow> weights_fine pg \<Longrightarrow> weights_ok ws t \<Longrightarrow>
    gm_ok r \<Longrightarrow> fst ` set r \<inter> fst ` set ws = {} \<Longrightarrow> weights_ok ws' t'"
proof (induction r arbitrary: pm ws t)
  case (Cons e r)
  obtain n fac where e: "e = (n, fac)" by (cases e)
  have r: "gm_ok r" "n \<notin> fst ` set r" "n \<notin> fst ` set ws" "fst ` set r \<inter> fst ` set ws = {}"
    using Cons.prems(4,5) by (auto simp: gm_ok_def e)
  from Cons.prems(1) [unfolded e] show ?case
  proof (cases rule: init_plugins_cases)
    case 1
    then show ?thesis using Cons.IH Cons.prems r by blast
  next
    case (2 p arg q)
    have "p \<in> snd ` set pg" using gm_get_in_set [OF 2(1)] by force
    then have "1 \<le> plugin_weight p" "plugin_weight p < 2 ^ 31"
      using Cons.prems(2) by (fastforce simp: weights_fine_def plugin_weight_def)+
    then have "weights_ok (gm_put ws n (plugin_weight p)) (i64 (t + i64 (plugin_weight p * MaxNodeScore)))"
      by (rule weights_ok_put [OF Cons.prems(3) _ _ r(3) 2(3)])
    then show ?thesis using Cons.IH [OF 2(4) Cons.prems(2)] r by auto
  qed
qed simp

lemma fold_put_names:
  "set m \<subseteq> E \<Longrightarrow> (\<And>pg. pg \<in> set eps \<Longrightarrow> (plg_Name pg, pg) \<in> E) \<Longrightarrow>
    set (fold (\<lambda>pg m. gm_put m (plg_Name pg) pg) eps m) \<subseteq> E"
proof (induction eps arbitrary: m)
  case (Cons pg eps)
  have "set (gm_put m (plg_Name pg) pg) \<subseteq> E"
    using Cons.prems set_gm_put [of m "plg_Name pg" pg] by auto
  then show ?case using Cons by simp
qed simp

lemma needed_enabled:
  assumes "(name, pg) \<in> set (pluginsNeeded (Some p))"
  shows "\<exists>x. pg \<in> set (enabled_at x p)"
proof -
  define E where "E = {(n :: string, pg). \<exists>x. pg \<in> set (enabled_at x p)}"
  have step: "set (find_needed (set_at x p) m) \<subseteq> E" if m: "set m \<subseteq> E" for x m
  proof (cases "set_at x p")
    case (Some s)
    have "(plg_Name pg, pg) \<in> E" if "pg \<in> set (Enabled s)" for pg
      using that Some by (auto simp: E_def enabled_at_def intro: exI [of _ x])
    then show ?thesis using Some fold_put_names [OF m] by (simp add: find_needed_def)
  qed (simp add: find_needed_def m)
  have "set (fold (\<lambda>x. find_needed (set_at x p)) xs m) \<subseteq> E" if "set m \<subseteq> E" for xs m
    using that by (induction xs arbitrary: m) (auto dest: step [THEN subsetD])
  from this [of "[]" "[PreFilterP, FilterP, PostFilterP, ReserveP, PreScoreP, ScoreP, PreBindP, BindP, PostBindP, PermitP, QueueSortP]"]
  have "set (pluginsNeeded (Some p)) \<subseteq> E" by (simp add: pluginsNeeded_def getExtensionPoints_def)
  with assms show ?thesis by (auto simp: E_def)
qed

subsection \<open>Properties of a new framework\<close>

lemma NewFramework_parts:
  assumes "NewFramework decode r (Some p) args opts = Inr f"
  obtains pc pm ws t where "init_plugins decode (pluginsNeeded (Some p)) pc r ([], [], 0) = Inr (pm, ws, t)"
    "update_all p pm (new_frameworkImpl r (fold (\<lambda>opt. opt) opts defaultFrameworkOptions)\<lparr>pluginNameToWeightMap := ws\<rparr>) = Inr f"
    "verify_framework f = Inr f"
proof -
  from assms obtain pc pm ws t f0 where parts: "init_plugins decode (pluginsNeeded (Some p)) pc r ([], [], 0) = Inr (pm, ws, t)"
      "update_all p pm (new_frameworkImpl r (fold (\<lambda>opt. opt) opts defaultFrameworkOptions)\<lparr>pluginNameToWeightMap := ws\<rparr>) = Inr f0"
      "verify_framework f0 = Inr f"
    by (auto simp: NewFramework_def Let_def split: prod.splits)
  moreover have "f0 = f" using verify_framework_ok [OF parts(3)] by simp
  ultimately show thesis using that by blast
qed

text \<open>When a framework is created, every plugin list holds exactly the plugins enabled at its extension
  point, each once and in the configured order, each made by the factory registered under its name
  and implementing the interface of the list; exactly one plugin sorts the queue, at least one binds,
  and no score plugin has weight zero.\<close>

theorem new_framework_lists:
  assumes "NewFramework decode r (Some p) args opts = Inr f"
  shows "\<exists>pm. (\<forall>name pg. pm name = Some pg \<longrightarrow> made_by r name pg)
    \<and> loads pm as_QueueSort (enabled_at QueueSortP p) (queueSortPlugins f)
    \<and> loads pm as_PreFilter (enabled_at PreFilterP p) (preFilterPlugins f)
    \<and> loads pm as_Filter (enabled_at FilterP p) (filterPlugins f)
    \<and> loads pm as_PostFilter (enabled_at PostFilterP p) (postFilterPlugins f)
    \<and> loads pm as_PreScore (enabled_at PreScoreP p) (preScorePlugins f)
    \<and> loads pm as_Score (enabled_at ScoreP p) (scorePlugins f)
    \<and> loads pm as_Reserve (enabled_at ReserveP p) (reservePlugins f)
    \<and> loads pm as_Permit (enabled_at PermitP p) (permitPlugins f)
    \<and> loads pm as_PreBind (enabled_at PreBindP p) (preBindPlugins f)
    \<and> loads pm as_Bind (enabled_at BindP p) (bindPlugins f)
    \<and> loads pm as_PostBind (enabled_at PostBindP p) (postBindPlugins f)
    \<and> length (queueSortPlugins f) = 1 \<and> bindPlugins f \<noteq> []
    \<and> (\<forall>pl\<in>set (scorePlugins f). gm_get0 (pluginNameToWeightMap f) (fst pl) \<noteq> 0)"
proof -
  from assms obtain pc pm ws t where
      parts: "init_plugins decode (pluginsNeeded (Some p)) pc r ([], [], 0) = Inr (pm, ws, t)"
      "update_all p pm (new_frameworkImpl r (fold (\<lambda>opt. opt) opts defaultFrameworkOptions)\<lparr>pluginNameToWeightMap := ws\<rparr>) = Inr f"
      "verify_framework f = Inr f"
    by (rule NewFramework_parts)
  have "\<forall>name pg. gm_get pm name = Some pg \<longrightarrow> made_by r name pg"
    using init_plugins_made [OF parts(1)] by auto
  then show ?thesis
    using update_all_loads [OF parts(2)] verify_framework_ok [OF parts(3)]
    by (intro exI [of _ "gm_get pm"]) blast
qed

text \<open>Plugins that are registered under the name they give themselves.\<close>

definition named :: "('a, 'd, 'w) Registry \<Rightarrow> bool" where
  "named r \<longleftrightarrow> (\<forall>name pg. made_by r name pg \<longrightarrow> Plugin_Name pg = name)"

lemma loads_names:
  assumes "loads pm implements eps l" "\<And>name pg. pm name = Some pg \<Longrightarrow> Plugin_Name pg = name"
  shows "map fst l = map plg_Name eps"
proof -
  have "map Some (map fst l) = map (map_option fst) (map Some l)" by simp
  also have "\<dots> = map (map_option fst \<circ> plugin_entry pm implements) eps"
    using assms(1) by (simp add: loads_def)
  also have "\<dots> = map (Some \<circ> plg_Name) eps"
  proof (rule map_cong [OF refl])
    fix ep assume ep: "ep \<in> set eps"
    have "plugin_entry pm implements ep \<in> Some ` set l"
      using assms(1) ep unfolding loads_def by (metis image_eqI list.set_map)
    then show "(map_option fst \<circ> plugin_entry pm implements) ep = (Some \<circ> plg_Name) ep"
      using assms(2) by (auto simp: plugin_entry_def split: Option.bind_splits)
  qed
  finally show ?thesis by (metis list.inj_map_strong map_map option.inject)
qed

lemma new_framework_score_names:
  assumes "NewFramework decode r (Some p) args opts = Inr f" "named r"
  shows "distinct (map fst (scorePlugins f))"
proof -
  from assms(1) obtain pc pm ws t where
      parts: "init_plugins decode (pluginsNeeded (Some p)) pc r ([], [], 0) = Inr (pm, ws, t)"
      "update_all p pm (new_frameworkImpl r (fold (\<lambda>opt. opt) opts defaultFrameworkOptions)\<lparr>pluginNameToWeightMap := ws\<rparr>) = Inr f"
      "verify_framework f = Inr f"
    by (rule NewFramework_parts)
  have l: "loads (gm_get pm) as_Score (enabled_at ScoreP p) (scorePlugins f)"
    using update_all_loads [OF parts(2)] by blast
  have "Plugin_Name pg = name" if "gm_get pm name = Some pg" for name pg
    using init_plugins_made [OF parts(1) that] assms(2) by (auto simp: named_def)
  with l have "map fst (scorePlugins f) = map plg_Name (enabled_at ScoreP p)" by (rule loads_names)
  with l show ?thesis by (simp add: loads_def)
qed

text \<open>The weights are values of \<open>int32\<close> that are not negative.\<close>

definition int32_weights :: "Plugins \<Rightarrow> bool" where
  "int32_weights p \<longleftrightarrow> (\<forall>x. \<forall>pg\<in>set (enabled_at x p). 0 \<le> plg_Weight pg \<and> plg_Weight pg < 2 ^ 31)"

lemma new_framework_weights:
  assumes "NewFramework decode r (Some p) args opts = Inr f" "gm_ok r"
    and w: "int32_weights p"
  shows "\<exists>t. weights_ok (pluginNameToWeightMap f) t"
    and "\<forall>pl\<in>set (scorePlugins f). gm_get0 (pluginNameToWeightMap f) (fst pl) \<noteq> 0"
proof -
  from assms(1) obtain pc pm ws t where
      parts: "init_plugins decode (pluginsNeeded (Some p)) pc r ([], [], 0) = Inr (pm, ws, t)"
      "update_all p pm (new_frameworkImpl r (fold (\<lambda>opt. opt) opts defaultFrameworkOptions)\<lparr>pluginNameToWeightMap := ws\<rparr>) = Inr f"
      "verify_framework f = Inr f"
    by (rule NewFramework_parts)
  have "weights_fine (pluginsNeeded (Some p))"
    using w needed_enabled [of _ _ p] by (fastforce simp: weights_fine_def int32_weights_def)
  moreover have "weights_ok [] 0" by (simp add: weights_ok_def MaxTotalScore_def)
  ultimately have "weights_ok ws t"
    by (rule init_plugins_weights [OF parts(1)]) (use assms(2) in simp_all)
  then show "\<exists>t. weights_ok (pluginNameToWeightMap f) t"
    using update_all_loads [OF parts(2)] by auto
  show "\<forall>pl\<in>set (scorePlugins f). gm_get0 (pluginNameToWeightMap f) (fst pl) \<noteq> 0"
    using verify_framework_ok [OF parts(3)] by blast
qed

lemma sum_list_sub_keys:
  fixes h :: "string \<Rightarrow> int"
  assumes "distinct xs" "distinct ys" "set xs \<subseteq> set ys" "\<And>y. y \<in> set ys \<Longrightarrow> 0 \<le> h y"
  shows "sum_list (map h xs) \<le> sum_list (map h ys)"
proof -
  have "sum_list (map h xs) = sum h (set xs)" using assms(1) by (rule sum_list_distinct_conv_sum_set)
  also have "\<dots> \<le> sum h (set ys)" using assms(3,4) by (intro sum_mono2) auto
  also have "\<dots> = sum_list (map h ys)" using assms(2) by (simp add: sum_list_distinct_conv_sum_set)
  finally show ?thesis .
qed

lemma weight_range:
  "weights_ok ws t \<Longrightarrow> gm_get0 ws k \<noteq> 0 \<Longrightarrow> k \<in> fst ` set ws \<and> 1 \<le> gm_get0 ws k \<and> gm_get0 ws k < 2 ^ 31"
  by (cases "gm_get ws k")
    (force simp: gm_get0_def weights_ok_def dest: gm_get_in_set)+

lemma plugin_scores_range:
  assumes "plugin_ok w state pod nodes (snd pl)" "ns \<in> set (plugin_scores f w state pod nodes pl)"
    and c: "c = gm_get0 (pluginNameToWeightMap f) (fst pl)" "1 \<le> c" "c < 2 ^ 31"
  shows "0 \<le> ns_Score ns \<and> ns_Score ns \<le> c * MaxNodeScore"
proof -
  from assms(2) obtain n0 where n0: "n0 \<in> set (fst (normalized w state pod (snd pl) (raw_scores w state pod nodes (snd pl))))"
      "ns_Score ns = i64 (ns_Score n0 * c)"
    by (auto simp: plugin_scores_def weighted_def c(1))
  with assms(1) have s: "0 \<le> ns_Score n0" "ns_Score n0 \<le> MaxNodeScore"
    by (auto simp: plugin_ok_iff list_all_iff MinNodeScore_def)
  have le: "ns_Score n0 * c \<le> MaxNodeScore * c" using s c by (intro mult_right_mono) auto
  moreover have "0 \<le> ns_Score n0 * c" using s c by simp
  moreover have "MaxNodeScore * c < 2 ^ 63" using c(2,3) by (simp add: MaxNodeScore_def)
  ultimately have "in64 (ns_Score n0 * c)" unfolding in64_def by linarith
  with n0 le \<open>0 \<le> ns_Score n0 * c\<close> show ?thesis by (simp add: mult.commute)
qed

lemma scores_bounded:
  assumes nf: "NewFramework decode r (Some p) args opts = Inr f" "gm_ok r" "named r"
    and w: "int32_weights p"
    and run: "score_orders f w state pod nodes orders" "RunScorePlugins orders f w state pod nodes = (m, None)"
  shows "\<forall>e\<in>set m. \<forall>ns\<in>set (snd e). 0 \<le> ns_Score ns \<and> ns_Score ns \<le> gm_get0 (pluginNameToWeightMap f) (fst e) * MaxNodeScore"
    and "(\<Sum>e\<leftarrow>m. gm_get0 (pluginNameToWeightMap f) (fst e) * MaxNodeScore) \<le> MaxTotalScore"
proof -
  let ?ws = "pluginNameToWeightMap f"
  obtain t where t: "weights_ok ?ws t" using new_framework_weights(1) [OF nf(1,2) w] by blast
  have nz: "\<forall>pl\<in>set (scorePlugins f). gm_get0 ?ws (fst pl) \<noteq> 0" by (rule new_framework_weights(2) [OF nf(1,2) w])
  have dist: "distinct (map fst (scorePlugins f))" by (rule new_framework_score_names [OF nf(1,3)])
  have ok: "\<forall>pl\<in>set (scorePlugins f). plugin_ok w state pod nodes (snd pl)"
    using score_plugins_reference [OF dist run(1)] run(2) fail_with_neq(1) by (metis prod.inject)
  with score_plugins_reference [OF dist run(1)] run(2)
  have keys: "score_keys f m" and rows: "\<forall>pl\<in>set (scorePlugins f). gm_get m (fst pl) = Some (plugin_scores f w state pod nodes pl)"
    by auto
  show "\<forall>e\<in>set m. \<forall>ns\<in>set (snd e). 0 \<le> ns_Score ns \<and> ns_Score ns \<le> gm_get0 ?ws (fst e) * MaxNodeScore"
  proof (intro ballI)
    fix e ns assume e: "e \<in> set m" and ns: "ns \<in> set (snd e)"
    from keys e obtain pl where pl: "pl \<in> set (scorePlugins f)" "fst e = fst pl" by (metis image_iff)
    have "gm_get m (fst e) = Some (snd e)" using keys e by (simp add: gm_get_eq_Some)
    with rows pl ns have "ns \<in> set (plugin_scores f w state pod nodes pl)" by simp
    then show "0 \<le> ns_Score ns \<and> ns_Score ns \<le> gm_get0 ?ws (fst e) * MaxNodeScore"
      using plugin_scores_range [OF _ _ refl] ok pl nz weight_range [OF t] by metis
  qed
  have sub: "fst ` set m \<subseteq> fst ` set ?ws"
    using keys nz weight_range [OF t] by auto
  have ge: "0 \<le> gm_get0 ?ws k * MaxNodeScore" for k
    using weight_range [OF t, of k] by (cases "gm_get0 ?ws k = 0") (auto simp: MaxNodeScore_def)
  have "(\<Sum>k\<leftarrow>map fst m. gm_get0 ?ws k * MaxNodeScore) \<le> (\<Sum>k\<leftarrow>map fst ?ws. gm_get0 ?ws k * MaxNodeScore)"
    by (rule sum_list_sub_keys) (use keys t sub ge in \<open>auto simp: gm_ok_def weights_ok_def\<close>)
  also have "\<dots> = (\<Sum>w\<leftarrow>map snd ?ws. w * MaxNodeScore)"
  proof -
    have "gm_get0 ?ws (fst e) = snd e" if "e \<in> set ?ws" for e
    proof -
      have "gm_get ?ws (fst e) = Some (snd e)" using t that by (simp add: gm_get_eq_Some weights_ok_def)
      then show ?thesis by (simp add: gm_get0_def)
    qed
    then show ?thesis unfolding map_map by (intro arg_cong [where f = sum_list] map_cong) auto
  qed
  also have "\<dots> \<le> MaxTotalScore" using t by (simp add: weights_ok_def)
  finally show "(\<Sum>e\<leftarrow>m. gm_get0 ?ws (fst e) * MaxNodeScore) \<le> MaxTotalScore"
    by (simp add: comp_def)
qed

lemma sum_list_between:
  fixes g h :: "'a \<Rightarrow> int"
  assumes "\<And>x. x \<in> set xs \<Longrightarrow> 0 \<le> g x \<and> g x \<le> h x"
  shows "0 \<le> sum_list (map g xs) \<and> sum_list (map g xs) \<le> sum_list (map h xs)"
  using assms by (induction xs) (auto intro: add_mono)

lemma total_score_range:
  assumes nf: "NewFramework decode r (Some p) args opts = Inr f" "gm_ok r" "named r"
    and w: "int32_weights p"
    and run: "score_orders f w state pod nodes orders" "RunScorePlugins orders f w state pod nodes = (m, None)"
    and i: "\<forall>e\<in>set m. i < length (snd e)"
  shows "0 \<le> (\<Sum>e\<leftarrow>m. ns_Score (snd e ! i)) \<and> (\<Sum>e\<leftarrow>m. ns_Score (snd e ! i)) \<le> MaxTotalScore"
proof -
  note b = scores_bounded [OF nf w run]
  have "0 \<le> (\<Sum>e\<leftarrow>m. ns_Score (snd e ! i)) \<and>
      (\<Sum>e\<leftarrow>m. ns_Score (snd e ! i)) \<le> (\<Sum>e\<leftarrow>m. gm_get0 (pluginNameToWeightMap f) (fst e) * MaxNodeScore)"
    using b(1) i by (intro sum_list_between) (simp add: nth_mem)
  with b(2) show ?thesis by linarith
qed

subsection \<open>Examples\<close>

definition demo_enabled :: "int \<Rightarrow> PluginSet option" where
  "demo_enabled weight = Some \<lparr>Enabled = [\<lparr>plg_Name = ''All'', plg_Weight = weight\<rparr>], Disabled = []\<rparr>"

definition demo_plugins :: Plugins where
  "demo_plugins = no_plugins\<lparr>ps_QueueSort := demo_enabled 0, ps_Score := demo_enabled 3, ps_Bind := demo_enabled 0\<rparr>"

definition demo_registry :: "(unit, unit, nat) Registry" where
  "demo_registry = [(''All'', \<lambda>_. Inr (demo_plugin ''All''))]"

definition demo_decode :: "string \<Rightarrow> unit option \<times> decode_error option" where
  "demo_decode kind = (None, Some NotRegisteredError)"

definition demo_new :: "error + (unit, unit, nat) frameworkImpl" where
  "demo_new = NewFramework demo_decode demo_registry (Some demo_plugins) [] []"

lemmas demo_new_simps = demo_new_def NewFramework_def demo_plugins_def demo_enabled_def no_plugins_def
  demo_registry_def demo_decode_def demo_framework_simps pluginsNeeded_def getExtensionPoints_def
  find_needed_def getPluginArgsOrDefault_def plugin_weight_def gm_get_def gm_put_def i64_def
  MaxNodeScore_def MaxTotalScore_def update_all_def updatePluginList_def verify_framework_def gm_get0_def Let_def

lemma demo_new_ok: "demo_new = Inr (projr demo_new)"
  by (simp add: demo_new_simps)

theorem new_framework_lists_witness:
  "length (queueSortPlugins (projr demo_new)) = 1 \<and> bindPlugins (projr demo_new) \<noteq> []"
  using new_framework_lists [OF demo_new_ok [unfolded demo_new_def]] unfolding demo_new_def by blast

text \<open>The weight that a score plugin gets is the one of its last entry over all extension points: a plugin
  enabled for scoring with weight three and enabled for binding, where weights have no meaning, scores with
  weight one.\<close>

theorem score_weight_overwritten:
  "map plg_Weight (enabled_at ScoreP demo_plugins) = [3] \<and>
    gm_get0 (pluginNameToWeightMap (projr demo_new)) ''All'' = 1 \<and>
    gm_get (the (ListPlugins (projr demo_new))) ''ScorePlugin'' = Some [\<lparr>plg_Name = ''All'', plg_Weight = 1\<rparr>]"
  by (simp add: demo_new_simps enabled_at_def ListPlugins_def list_point_def i32_def)

end
