(* ===== verification/Node_Tree.thy ===== *)
theory Node_Tree
  imports Api_Types
begin

text \<open>
  \<^verbatim>\<open>scheduler/internal/cache/node_tree.go\<close>: the node names by zone, and the round-robin
  iteration over the zones that gives the snapshot its order.

  Shown: every tree the cache can build keeps each name once and counts the names; \<open>next\<close>
  returns on every non-empty tree, and after \<open>resetExhausted\<close> as many calls of \<open>next\<close> as there
  are nodes visit each node exactly once.
\<close>

subsection \<open>State and operations\<close>

record nodeArray =
  na_nodes :: "string list"
  na_lastIndex :: nat

record nodeTree =
  nt_tree :: "(string, nodeArray) gomap"
  nt_zones :: "string list"
  nt_zoneIndex :: nat
  nt_numNodes :: int

definition nodeArray_next :: "nodeArray \<Rightarrow> (string \<times> bool) \<times> nodeArray" where
  "nodeArray_next na =
    (if length (na_nodes na) = 0 then (('''', False), na)
     else if na_lastIndex na \<ge> length (na_nodes na) then (('''', True), na)
     else ((na_nodes na ! na_lastIndex na, False), na\<lparr>na_lastIndex := na_lastIndex na + 1\<rparr>))"

definition nodeTree_addNode :: "nodeTree \<Rightarrow> Node \<Rightarrow> nodeTree" where
  "nodeTree_addNode nt n =
    (let zone = GetZoneKey n in
     case gm_get (nt_tree nt) zone of
       Some na \<Rightarrow>
         if List.member (na_nodes na) (node_Name n) then nt
         else nt\<lparr>nt_tree := gm_put (nt_tree nt) zone (na\<lparr>na_nodes := na_nodes na @ [node_Name n]\<rparr>),
                 nt_numNodes := nt_numNodes nt + 1\<rparr>
     | None \<Rightarrow>
         nt\<lparr>nt_zones := nt_zones nt @ [zone],
            nt_tree := gm_put (nt_tree nt) zone \<lparr>na_nodes = [node_Name n], na_lastIndex = 0\<rparr>,
            nt_numNodes := nt_numNodes nt + 1\<rparr>)"

definition removeZone :: "nodeTree \<Rightarrow> string \<Rightarrow> nodeTree" where
  "removeZone nt zone =
    (let nt1 = nt\<lparr>nt_tree := gm_del (nt_tree nt) zone\<rparr> in
     case find_index (\<lambda>z. z = zone) (nt_zones nt1) of
       None \<Rightarrow> nt1
     | Some i \<Rightarrow> nt1\<lparr>nt_zones := del_at i (nt_zones nt1)\<rparr>)"

definition nodeTree_removeNode :: "nodeTree \<Rightarrow> Node \<Rightarrow> nodeTree \<times> error option" where
  "nodeTree_removeNode nt n =
    (let zone = GetZoneKey n;
         notFound = (nt, Some (''node '' @ go_q (node_Name n) @ '' in group '' @ go_q zone @ '' was not found''))
     in case gm_get (nt_tree nt) zone of
       None \<Rightarrow> notFound
     | Some na \<Rightarrow>
         (case find_index (\<lambda>nodeName. nodeName = node_Name n) (na_nodes na) of
            None \<Rightarrow> notFound
          | Some i \<Rightarrow>
              let nodes' = del_at i (na_nodes na);
                  nt1 = nt\<lparr>nt_tree := gm_put (nt_tree nt) zone (na\<lparr>na_nodes := nodes'\<rparr>)\<rparr>;
                  nt2 = (if length nodes' = 0 then removeZone nt1 zone else nt1)
              in (nt2\<lparr>nt_numNodes := nt_numNodes nt2 - 1\<rparr>, None)))"

text \<open>The pointer \<open>old\<close> may be nil, whose zone is the empty string; \<open>removeNode(nil)\<close> would panic.\<close>

definition nodeTree_updateNode :: "nodeTree \<Rightarrow> Node option \<Rightarrow> Node \<Rightarrow> nodeTree option" where
  "nodeTree_updateNode nt old new =
    (let oldZone = (case old of None \<Rightarrow> '''' | Some o' \<Rightarrow> GetZoneKey o');
         newZone = GetZoneKey new
     in if oldZone = newZone then Some nt
        else case old of
          None \<Rightarrow> None
        | Some o' \<Rightarrow> Some (nodeTree_addNode (fst (nodeTree_removeNode nt o')) new))"

definition newNodeTree :: "Node list \<Rightarrow> nodeTree" where
  "newNodeTree nodes =
    fold (\<lambda>n nt. nodeTree_addNode nt n) nodes
      \<lparr>nt_tree = [], nt_zones = [], nt_zoneIndex = 0, nt_numNodes = 0\<rparr>"

definition resetExhausted :: "nodeTree \<Rightarrow> nodeTree" where
  "resetExhausted nt =
    nt\<lparr>nt_tree := map (\<lambda>e. (fst e, (snd e)\<lparr>na_lastIndex := 0\<rparr>)) (nt_tree nt), nt_zoneIndex := 0\<rparr>"

text \<open>
  The loop of \<open>next\<close>. \<open>None\<close> stands for a nil dereference (a zone without an array) and for a
  loop that never ends.
\<close>

partial_function (option) next_loop :: "nodeTree \<Rightarrow> nat \<Rightarrow> (string \<times> nodeTree) option" where
  "next_loop nt numExhaustedZones =
    (let zi = (if nt_zoneIndex nt \<ge> length (nt_zones nt) then 0 else nt_zoneIndex nt);
         zone = nt_zones nt ! zi
     in case gm_get (nt_tree nt) zone of
       None \<Rightarrow> None
     | Some na \<Rightarrow>
         (case nodeArray_next na of ((nodeName, exhausted), na') \<Rightarrow>
            let nt1 = nt\<lparr>nt_zoneIndex := zi + 1, nt_tree := gm_put (nt_tree nt) zone na'\<rparr> in
            if exhausted then
              next_loop (if numExhaustedZones + 1 \<ge> length (nt_zones nt) then resetExhausted nt1 else nt1)
                (numExhaustedZones + 1)
            else Some (nodeName, nt1)))"

definition nodeTree_next :: "nodeTree \<Rightarrow> (string \<times> nodeTree) option" where
  "nodeTree_next nt = (if length (nt_zones nt) = 0 then Some ('''', nt) else next_loop nt 0)"

subsection \<open>Well-formed trees\<close>

definition zone_nodes :: "nodeTree \<Rightarrow> string \<Rightarrow> string list" where
  "zone_nodes nt z = (case gm_get (nt_tree nt) z of None \<Rightarrow> [] | Some na \<Rightarrow> na_nodes na)"

definition zone_last :: "nodeTree \<Rightarrow> string \<Rightarrow> nat" where
  "zone_last nt z = (case gm_get (nt_tree nt) z of None \<Rightarrow> 0 | Some na \<Rightarrow> na_lastIndex na)"

definition tree_names :: "nodeTree \<Rightarrow> string list" where
  "tree_names nt = concat (map (zone_nodes nt) (nt_zones nt))"

definition nt_ok :: "nodeTree \<Rightarrow> bool" where
  "nt_ok nt \<longleftrightarrow> gm_ok (nt_tree nt) \<and> distinct (nt_zones nt) \<and>
     set (nt_zones nt) = fst ` set (nt_tree nt) \<and>
     (\<forall>z\<in>set (nt_zones nt). zone_nodes nt z \<noteq> []) \<and>
     distinct (tree_names nt) \<and> nt_numNodes nt = int (length (tree_names nt))"

text \<open>What is left to visit before the next reset.\<close>

definition remaining :: "nodeTree \<Rightarrow> string multiset" where
  "remaining nt = mset (concat (map (\<lambda>z. drop (zone_last nt z) (zone_nodes nt z)) (nt_zones nt)))"

text \<open>Two trees that differ at most in how far the iteration is.\<close>

definition same_nodes :: "nodeTree \<Rightarrow> nodeTree \<Rightarrow> bool" where
  "same_nodes nt nt' \<longleftrightarrow> nt_zones nt' = nt_zones nt \<and> zone_nodes nt' = zone_nodes nt \<and>
     nt_numNodes nt' = nt_numNodes nt \<and> (gm_ok (nt_tree nt) \<longrightarrow> gm_ok (nt_tree nt')) \<and>
     fst ` set (nt_tree nt') = fst ` set (nt_tree nt)"

lemma same_nodes_refl [simp]: "same_nodes nt nt"
  by (simp add: same_nodes_def)

lemma same_nodes_trans: "same_nodes a b \<Longrightarrow> same_nodes b c \<Longrightarrow> same_nodes a c"
  by (simp add: same_nodes_def)

lemma same_nodes_names: "same_nodes nt nt' \<Longrightarrow> tree_names nt' = tree_names nt"
  by (simp add: same_nodes_def tree_names_def)

lemma same_nodes_ok: "same_nodes nt nt' \<Longrightarrow> nt_ok nt \<Longrightarrow> nt_ok nt'"
  using same_nodes_names [of nt nt'] by (auto simp: nt_ok_def same_nodes_def)

lemma nt_ok_zone:
  assumes "nt_ok nt" "z \<in> set (nt_zones nt)"
  obtains na where "gm_get (nt_tree nt) z = Some na" "na_nodes na = zone_nodes nt z"
    "na_lastIndex na = zone_last nt z" "na_nodes na \<noteq> []"
proof -
  obtain na where na: "gm_get (nt_tree nt) z = Some na"
    using assms by (cases "gm_get (nt_tree nt) z") (auto simp: nt_ok_def gm_get_eq_None)
  moreover have "zone_nodes nt z \<noteq> []" using assms by (simp add: nt_ok_def)
  ultimately show ?thesis by (intro that [of na]) (auto simp: zone_nodes_def zone_last_def)
qed

lemma gm_get_map_snd: "gm_get (map (\<lambda>e. (fst e, f (snd e))) m) k = map_option f (gm_get m k)"
  unfolding gm_get_def by (induction m) auto

lemma resetExhausted_same: "same_nodes nt (resetExhausted nt)"
  unfolding same_nodes_def resetExhausted_def zone_nodes_def
  by (auto simp: gm_get_map_snd fun_eq_iff gm_ok_def comp_def image_image split: option.splits)

lemma resetExhausted_last [simp]: "zone_last (resetExhausted nt) z = 0"
  by (simp add: resetExhausted_def zone_last_def gm_get_map_snd split: option.splits)

lemma resetExhausted_remaining: "remaining (resetExhausted nt) = mset (tree_names nt)"
  using resetExhausted_same [of nt] by (simp add: remaining_def tree_names_def same_nodes_def)

subsection \<open>One step of the iteration\<close>

text \<open>The position \<open>next\<close> looks at first, and the step it makes there.\<close>

definition zone_pos :: "nodeTree \<Rightarrow> nat" where
  "zone_pos nt = (if nt_zoneIndex nt \<ge> length (nt_zones nt) then 0 else nt_zoneIndex nt)"

definition exhausted_at :: "nodeTree \<Rightarrow> nat \<Rightarrow> bool" where
  "exhausted_at nt i \<longleftrightarrow> zone_last nt (nt_zones nt ! i) \<ge> length (zone_nodes nt (nt_zones nt ! i))"

definition visit :: "nodeTree \<Rightarrow> nodeTree" where
  "visit nt = (let i = zone_pos nt; z = nt_zones nt ! i; na = the (gm_get (nt_tree nt) z) in
     nt\<lparr>nt_zoneIndex := i + 1, nt_tree := gm_put (nt_tree nt) z (snd (nodeArray_next na))\<rparr>)"

lemma zone_pos_less: "nt_zones nt \<noteq> [] \<Longrightarrow> zone_pos nt < length (nt_zones nt)"
  by (simp add: zone_pos_def)

lemma visit_simps [simp]:
  "nt_zones (visit nt) = nt_zones nt" "nt_zoneIndex (visit nt) = zone_pos nt + 1"
  "nt_numNodes (visit nt) = nt_numNodes nt"
  by (simp_all add: visit_def Let_def)

lemma next_loop_step:
  assumes ok: "nt_ok nt" and ne: "nt_zones nt \<noteq> []"
  shows "next_loop nt e =
    (if exhausted_at nt (zone_pos nt) then
       next_loop (if e + 1 \<ge> length (nt_zones nt) then resetExhausted (visit nt) else visit nt) (e + 1)
     else Some (zone_nodes nt (nt_zones nt ! zone_pos nt) ! zone_last nt (nt_zones nt ! zone_pos nt), visit nt))"
proof -
  let ?z = "nt_zones nt ! zone_pos nt"
  have "?z \<in> set (nt_zones nt)" using zone_pos_less [OF ne] by simp
  then obtain na where "gm_get (nt_tree nt) ?z = Some na" "na_nodes na = zone_nodes nt ?z"
      "na_lastIndex na = zone_last nt ?z" "na_nodes na \<noteq> []"
    using nt_ok_zone [OF ok] by metis
  then show ?thesis
    by (subst next_loop.simps)
      (simp add: Let_def zone_pos_def [symmetric] exhausted_at_def visit_def nodeArray_next_def)
qed

lemma visit_zone:
  assumes ok: "nt_ok nt" and ne: "nt_zones nt \<noteq> []"
  shows "zone_nodes (visit nt) = zone_nodes nt"
    and "zone_last (visit nt) = (if exhausted_at nt (zone_pos nt) then zone_last nt
      else (zone_last nt)(nt_zones nt ! zone_pos nt := zone_last nt (nt_zones nt ! zone_pos nt) + 1))"
    and "same_nodes nt (visit nt)"
proof -
  let ?z = "nt_zones nt ! zone_pos nt"
  have z: "?z \<in> set (nt_zones nt)" using zone_pos_less [OF ne] by simp
  then obtain na where na: "gm_get (nt_tree nt) ?z = Some na" "na_nodes na = zone_nodes nt ?z"
      "na_lastIndex na = zone_last nt ?z" "na_nodes na \<noteq> []"
    using nt_ok_zone [OF ok] by metis
  show zn: "zone_nodes (visit nt) = zone_nodes nt"
    using na by (auto simp: fun_eq_iff visit_def Let_def zone_nodes_def nodeArray_next_def)
  show "zone_last (visit nt) = (if exhausted_at nt (zone_pos nt) then zone_last nt
      else (zone_last nt)(?z := zone_last nt ?z + 1))"
    using na by (auto simp: fun_eq_iff visit_def Let_def zone_last_def nodeArray_next_def exhausted_at_def
        zone_nodes_def)
  have "?z \<in> fst ` set (nt_tree nt)" using ok z by (simp add: nt_ok_def)
  then show "same_nodes nt (visit nt)"
    using zn by (auto simp: same_nodes_def visit_def Let_def)
qed

lemma visit_remaining:
  assumes ok: "nt_ok nt" and ne: "nt_zones nt \<noteq> []" and nex: "\<not> exhausted_at nt (zone_pos nt)"
  shows "remaining nt = add_mset (zone_nodes nt (nt_zones nt ! zone_pos nt) !
      zone_last nt (nt_zones nt ! zone_pos nt)) (remaining (visit nt))"
proof -
  let ?z = "nt_zones nt ! zone_pos nt"
  note V = visit_zone [OF ok ne]
  have "?z \<in> set (nt_zones nt)" using zone_pos_less [OF ne] by simp
  then obtain xs ys where zs: "nt_zones nt = xs @ ?z # ys" by (meson split_list)
  have d: "?z \<notin> set xs" "?z \<notin> set ys"
    using ok zs unfolding nt_ok_def by (metis distinct.simps(2) distinct_append not_distinct_conv_prefix)+
  have same: "map (\<lambda>z. drop (zone_last (visit nt) z) (zone_nodes (visit nt) z)) l =
      map (\<lambda>z. drop (zone_last nt z) (zone_nodes nt z)) l" if "?z \<notin> set l" for l
    using that nex by (auto simp: V)
  have "drop (zone_last nt ?z) (zone_nodes nt ?z) =
      zone_nodes nt ?z ! zone_last nt ?z # drop (zone_last (visit nt) ?z) (zone_nodes (visit nt) ?z)"
    using nex by (simp add: V exhausted_at_def Cons_nth_drop_Suc)
  then show ?thesis
    unfolding remaining_def visit_simps by (subst (1 2) zs) (simp add: same [OF d(1)] same [OF d(2)])
qed

lemma visit_exhausted_at:
  assumes "nt_ok nt" "nt_zones nt \<noteq> []" "exhausted_at nt (zone_pos nt)"
  shows "exhausted_at (visit nt) i = exhausted_at nt i"
  using visit_zone [OF assms(1,2)] assms(3) by (simp add: exhausted_at_def)

lemma visit_exhausted_remaining:
  assumes "nt_ok nt" "nt_zones nt \<noteq> []" "exhausted_at nt (zone_pos nt)"
  shows "remaining (visit nt) = remaining nt"
  using visit_zone [OF assms(1,2)] assms(3) by (simp add: remaining_def)

text \<open>How many steps it takes to get from position \<open>i\<close> to position \<open>p\<close>, going round.\<close>

definition zone_dist :: "nat \<Rightarrow> nat \<Rightarrow> nat \<Rightarrow> nat" where
  "zone_dist len i p = (if i \<le> p then p - i else p + len - i)"

lemma zone_dist_step:
  "i < len \<Longrightarrow> p < len \<Longrightarrow> i \<noteq> p \<Longrightarrow> zone_dist len (if Suc i \<ge> len then 0 else Suc i) p = zone_dist len i p - 1 \<and>
    0 < zone_dist len i p \<and> zone_dist len i p < len"
  by (auto simp: zone_dist_def)

lemma next_loop_finds:
  assumes "nt_ok nt" "p < length (nt_zones nt)" "\<not> exhausted_at nt p"
    "e + zone_dist (length (nt_zones nt)) (zone_pos nt) p < length (nt_zones nt)"
  shows "\<exists>x nt'. next_loop nt e = Some (x, nt') \<and> same_nodes nt nt' \<and>
    remaining nt = add_mset x (remaining nt')"
  using assms
proof (induction "zone_dist (length (nt_zones nt)) (zone_pos nt) p" arbitrary: nt e)
  case 0
  then have ne: "nt_zones nt \<noteq> []" by auto
  have "zone_pos nt = p"
    using "0.hyps" zone_dist_step [of "zone_pos nt" "length (nt_zones nt)" p] zone_pos_less [OF ne] "0.prems"(2)
    by linarith
  with 0 show ?case
    using next_loop_step [OF "0.prems"(1) ne, of e] visit_remaining [OF "0.prems"(1) ne]
      visit_zone(3) [OF "0.prems"(1) ne] by auto
next
  case (Suc d)
  let ?n = "length (nt_zones nt)"
  have ne: "nt_zones nt \<noteq> []" using Suc.prems(2) by auto
  note step = next_loop_step [OF Suc.prems(1) ne, of e]
  show ?case
  proof (cases "exhausted_at nt (zone_pos nt)")
    case False
    then show ?thesis
      using step visit_remaining [OF Suc.prems(1) ne False] visit_zone(3) [OF Suc.prems(1) ne] by auto
  next
    case True
    then have np: "zone_pos nt \<noteq> p" using Suc.prems(3) by auto
    have pos: "zone_pos (visit nt) = (if Suc (zone_pos nt) \<ge> ?n then 0 else Suc (zone_pos nt))"
      by (simp add: zone_pos_def [of "visit nt"])
    note D = zone_dist_step [OF zone_pos_less [OF ne] Suc.prems(2) np]
    have "next_loop nt e = next_loop (visit nt) (e + 1)"
      using step True Suc.prems(4) D by simp
    moreover have "\<exists>x nt'. next_loop (visit nt) (e + 1) = Some (x, nt') \<and> same_nodes (visit nt) nt' \<and>
        remaining (visit nt) = add_mset x (remaining nt')"
    proof (rule Suc.hyps(1))
      show "d = zone_dist (length (nt_zones (visit nt))) (zone_pos (visit nt)) p"
        using Suc.hyps(2) D by (simp add: pos)
      show "nt_ok (visit nt)" using same_nodes_ok [OF visit_zone(3) [OF Suc.prems(1) ne] Suc.prems(1)] .
      show "p < length (nt_zones (visit nt))" using Suc.prems(2) by simp
      show "\<not> exhausted_at (visit nt) p"
        using Suc.prems(3) visit_exhausted_at [OF Suc.prems(1) ne True] by simp
      show "e + 1 + zone_dist (length (nt_zones (visit nt))) (zone_pos (visit nt)) p <
          length (nt_zones (visit nt))"
        using Suc.prems(4) D by (simp add: pos)
    qed
    ultimately show ?thesis
      using same_nodes_trans [OF visit_zone(3) [OF Suc.prems(1) ne]]
        visit_exhausted_remaining [OF Suc.prems(1) ne True] by fastforce
  qed
qed

lemma remaining_empty:
  "remaining nt = {#} \<longleftrightarrow> (\<forall>i<length (nt_zones nt). exhausted_at nt i)"
  by (auto simp: remaining_def exhausted_at_def all_set_conv_all_nth)

text \<open>As long as something remains, \<open>next\<close> gives one of the names that remain.\<close>

lemma nodeTree_next_remaining:
  assumes ok: "nt_ok nt" and rem: "remaining nt \<noteq> {#}"
  shows "\<exists>x nt'. nodeTree_next nt = Some (x, nt') \<and> same_nodes nt nt' \<and>
    remaining nt = add_mset x (remaining nt')"
proof -
  obtain p where p: "p < length (nt_zones nt)" "\<not> exhausted_at nt p"
    using rem remaining_empty by blast
  then have "nt_zones nt \<noteq> []" by auto
  then have "zone_dist (length (nt_zones nt)) (zone_pos nt) p < length (nt_zones nt)"
    using p zone_pos_less [of nt] by (auto simp: zone_dist_def)
  with next_loop_finds [OF ok p, of 0] p show ?thesis by (auto simp: nodeTree_next_def)
qed

lemma next_loop_reset:
  assumes "nt_ok nt" "nt_zones nt \<noteq> []" "remaining nt = {#}" "e < length (nt_zones nt)"
  shows "\<exists>x nt'. next_loop nt e = Some (x, nt') \<and> same_nodes nt nt'"
  using assms
proof (induction "length (nt_zones nt) - e" arbitrary: nt e)
  case (Suc d)
  let ?v = "visit nt" and ?r = "resetExhausted (visit nt)"
  have ex: "exhausted_at nt (zone_pos nt)"
    using Suc.prems zone_pos_less remaining_empty by blast
  have same: "same_nodes nt ?v" by (rule visit_zone(3) [OF Suc.prems(1,2)])
  then have okv: "nt_ok ?v" using Suc.prems(1) same_nodes_ok by blast
  show ?case
  proof (cases "e + 1 \<ge> length (nt_zones nt)")
    case True
    have okr: "nt_ok ?r" using okv resetExhausted_same same_nodes_ok by blast
    have zr: "nt_zones ?r = nt_zones nt" by (simp add: resetExhausted_def)
    then have "nt_zones ?r ! zone_pos ?r \<in> set (nt_zones ?r)"
      using Suc.prems(2) zone_pos_less [of ?r] by simp
    then have "\<not> exhausted_at ?r (zone_pos ?r)"
      using okr by (auto simp: exhausted_at_def nt_ok_def)
    then obtain x nt' where "next_loop ?r (e + 1) = Some (x, nt')" "same_nodes ?r nt'"
      using next_loop_step [OF okr] visit_zone(3) [OF okr] zr Suc.prems(2) by auto
    with True next_loop_step [OF Suc.prems(1,2), of e] ex show ?thesis
      using same_nodes_trans [OF same same_nodes_trans [OF resetExhausted_same]] by auto
  next
    case False
    have "\<exists>x nt'. next_loop ?v (e + 1) = Some (x, nt') \<and> same_nodes ?v nt'"
      using Suc.hyps(2) Suc.prems okv False visit_exhausted_remaining [OF Suc.prems(1,2) ex]
      by (intro Suc.hyps(1)) auto
    with False next_loop_step [OF Suc.prems(1,2), of e] ex same same_nodes_trans show ?thesis
      by fastforce
  qed
qed simp

text \<open>The names a client gets from \<open>k\<close> calls of \<open>next\<close>.\<close>

fun next_names :: "nat \<Rightarrow> nodeTree \<Rightarrow> (string list \<times> nodeTree) option" where
  "next_names 0 nt = Some ([], nt)"
| "next_names (Suc k) nt =
    do { (x, nt') \<leftarrow> nodeTree_next nt; (xs, nt'') \<leftarrow> next_names k nt'; Some (x # xs, nt'') }"

text \<open>
  The contract of such an iteration, which the snapshot relies on: as long as something is left to
  visit, \<open>next\<close> gives one of the names left; a reset leaves all names to visit.
\<close>

locale name_iteration =
  fixes ok :: "'t \<Rightarrow> bool"
    and names :: "'t \<Rightarrow> string list"
    and left :: "'t \<Rightarrow> string multiset"
    and reset :: "'t \<Rightarrow> 't"
    and visit_next :: "'t \<Rightarrow> (string \<times> 't) option"
  assumes reset_law: "ok t \<Longrightarrow> ok (reset t) \<and> names (reset t) = names t \<and> left (reset t) = mset (names t)"
    and next_law: "ok t \<Longrightarrow> left t \<noteq> {#} \<Longrightarrow> \<exists>x t'. visit_next t = Some (x, t') \<and> ok t' \<and>
      names t' = names t \<and> left t = add_mset x (left t')"
begin

fun visits :: "nat \<Rightarrow> 't \<Rightarrow> (string list \<times> 't) option" where
  "visits 0 t = Some ([], t)"
| "visits (Suc k) t = do { (x, t') \<leftarrow> visit_next t; (xs, t'') \<leftarrow> visits k t'; Some (x # xs, t'') }"

lemma visits_left:
  "ok t \<Longrightarrow> size (left t) = k \<Longrightarrow>
    \<exists>xs t'. visits k t = Some (xs, t') \<and> mset xs = left t \<and> ok t' \<and> names t' = names t"
proof (induction k arbitrary: t)
  case (Suc k)
  then obtain x t1 where x: "visit_next t = Some (x, t1)" "ok t1" "names t1 = names t"
      "left t = add_mset x (left t1)"
    using next_law [of t] by fastforce
  then obtain xs t' where "visits k t1 = Some (xs, t')" "mset xs = left t1" "ok t'" "names t' = names t1"
    using Suc.IH [of t1] Suc.prems by auto
  with x show ?case by auto
qed simp

lemma visits_after_reset:
  assumes "ok t" "k = length (names t)"
  shows "\<exists>xs t'. visits k (reset t) = Some (xs, t') \<and> mset xs = mset (names t) \<and> ok t' \<and> names t' = names t"
  using visits_left [of "reset t" k] reset_law [OF assms(1)] assms(2) by auto

end

interpretation nti: name_iteration nt_ok tree_names remaining resetExhausted nodeTree_next
proof unfold_locales
  show "nt_ok (resetExhausted t) \<and> tree_names (resetExhausted t) = tree_names t \<and>
      remaining (resetExhausted t) = mset (tree_names t)" if "nt_ok t" for t
    using that resetExhausted_same same_nodes_ok same_nodes_names resetExhausted_remaining by blast
  show "\<exists>x t'. nodeTree_next t = Some (x, t') \<and> nt_ok t' \<and> tree_names t' = tree_names t \<and>
      remaining t = add_mset x (remaining t')" if "nt_ok t" "remaining t \<noteq> {#}" for t
    using nodeTree_next_remaining [OF that] that(1) same_nodes_ok same_nodes_names by blast
qed

lemma next_names_visits: "next_names k nt = nti.visits k nt"
  by (induction k arbitrary: nt) auto

lemma next_names_after_reset:
  assumes "nt_ok nt"
  shows "\<exists>xs nt'. next_names (nat (nt_numNodes nt)) (resetExhausted nt) = Some (xs, nt') \<and>
    mset xs = mset (tree_names nt) \<and> distinct xs \<and> tree_names nt' = tree_names nt"
proof -
  obtain xs nt' where "next_names (nat (nt_numNodes nt)) (resetExhausted nt) = Some (xs, nt')"
      and xs: "mset xs = mset (tree_names nt)" and "tree_names nt' = tree_names nt"
    using nti.visits_after_reset [OF assms] assms unfolding next_names_visits
    by (metis nat_int nt_ok_def)
  moreover have "distinct xs" using assms mset_eq_imp_distinct_iff [OF xs] by (simp add: nt_ok_def)
  ultimately show ?thesis using xs by blast
qed

subsection \<open>The trees the cache builds\<close>

text \<open>
  \<open>GetZoneKey\<close> is constant in this repository, so a tree has at most one zone. The lemmas above
  do not need this; those on \<open>addNode\<close> and \<open>removeNode\<close> do.
\<close>

definition nt_wf :: "nodeTree \<Rightarrow> bool" where
  "nt_wf nt \<longleftrightarrow> nt_ok nt \<and> set (nt_zones nt) \<subseteq> {[]}"

lemma nt_wf_cases:
  "nt_wf nt \<longleftrightarrow> nt_zones nt = [] \<and> nt_tree nt = [] \<and> nt_numNodes nt = 0 \<or>
    (\<exists>na. nt_zones nt = [[]] \<and> nt_tree nt = [([], na)] \<and> na_nodes na \<noteq> [] \<and>
      distinct (na_nodes na) \<and> nt_numNodes nt = int (length (na_nodes na)))"
proof (cases "nt_zones nt = []")
  case True
  then show ?thesis by (auto simp: nt_wf_def nt_ok_def tree_names_def)
next
  case False
  have z: "nt_zones nt = [[]]" if "nt_wf nt"
  proof -
    have d: "distinct (nt_zones nt)" "set (nt_zones nt) = {[]}"
      using that False by (auto simp: nt_wf_def nt_ok_def subset_singleton_iff)
    then have "length (nt_zones nt) = 1" using distinct_card [OF d(1)] by simp
    with d(2) show ?thesis by (cases "nt_zones nt") auto
  qed
  have t: "\<exists>na. nt_tree nt = [([], na)]" if "nt_zones nt = [[]]" "nt_wf nt"
  proof -
    have k: "gm_ok (nt_tree nt)" "fst ` set (nt_tree nt) = {[]}"
      using that by (auto simp: nt_wf_def nt_ok_def)
    then have "length (nt_tree nt) = 1" using gm_len_keys [of "nt_tree nt"] by simp
    with k(2) show ?thesis by (cases "nt_tree nt") auto
  qed
  have eq: "nt_wf nt \<longleftrightarrow> na_nodes na \<noteq> [] \<and> distinct (na_nodes na) \<and>
      nt_numNodes nt = int (length (na_nodes na))"
    if "nt_zones nt = [[]]" "nt_tree nt = [([], na)]" for na
    using that by (simp add: nt_wf_def nt_ok_def tree_names_def zone_nodes_def gm_get_Cons gm_ok_def)
  show ?thesis
  proof
    assume wf: "nt_wf nt"
    with z t obtain na where "nt_zones nt = [[]]" "nt_tree nt = [([], na)]" by blast
    with eq wf show "nt_zones nt = [] \<and> nt_tree nt = [] \<and> nt_numNodes nt = 0 \<or>
      (\<exists>na. nt_zones nt = [[]] \<and> nt_tree nt = [([], na)] \<and> na_nodes na \<noteq> [] \<and>
      distinct (na_nodes na) \<and> nt_numNodes nt = int (length (na_nodes na)))" by blast
  qed (use False eq in blast)
qed

lemma nt_wf_ok [simp]: "nt_wf nt \<Longrightarrow> nt_ok nt"
  by (simp add: nt_wf_def)

lemma same_nodes_wf: "same_nodes nt nt' \<Longrightarrow> nt_wf nt \<Longrightarrow> nt_wf nt'"
  using same_nodes_ok by (auto simp: nt_wf_def same_nodes_def)

lemma tree_names_single: "nt_zones nt = [[]] \<Longrightarrow> nt_tree nt = [([], na)] \<Longrightarrow> tree_names nt = na_nodes na"
  by (simp add: tree_names_def zone_nodes_def gm_get_Cons)

lemma newNodeTree_wf: "nt_wf (newNodeTree [])" "tree_names (newNodeTree []) = []"
  by (simp_all add: newNodeTree_def nt_wf_cases tree_names_def)

lemma addNode_wf:
  assumes "nt_wf nt"
  shows "nt_wf (nodeTree_addNode nt n) \<and>
    tree_names (nodeTree_addNode nt n) =
      (if node_Name n \<in> set (tree_names nt) then tree_names nt else tree_names nt @ [node_Name n])"
proof -
  from assms consider "nt_zones nt = []" "nt_tree nt = []" "nt_numNodes nt = 0"
    | na where "nt_zones nt = [[]]" "nt_tree nt = [([], na)]" "na_nodes na \<noteq> []"
      "distinct (na_nodes na)" "nt_numNodes nt = int (length (na_nodes na))"
    unfolding nt_wf_cases by blast
  then show ?thesis
  proof cases
    case 1
    then show ?thesis
      by (simp add: nodeTree_addNode_def GetZoneKey_def nt_wf_cases tree_names_def zone_nodes_def gm_put_def
          gm_get_Cons)
  next
    case (2 na)
    then show ?thesis
      using tree_names_single [OF 2(1,2)]
      by (auto simp: nodeTree_addNode_def GetZoneKey_def gm_get_Cons gm_put_def nt_wf_cases
          tree_names_single)
  qed
qed

lemma removeNode_absent:
  assumes "nt_wf nt" "node_Name n \<notin> set (tree_names nt)"
  shows "\<exists>err. nodeTree_removeNode nt n = (nt, Some err)"
proof -
  have "find_index (\<lambda>x. x = node_Name n) xs = None" if "node_Name n \<notin> set xs" for xs
    using that by (auto simp: find_index_None)
  with assms show ?thesis
    by (auto simp: nt_wf_cases nodeTree_removeNode_def GetZoneKey_def Let_def gm_get_Cons
        tree_names_single split: option.splits)
qed

lemma removeNode_wf:
  assumes "nt_wf nt" "node_Name n \<in> set (tree_names nt)"
  shows "\<exists>nt'. nodeTree_removeNode nt n = (nt', None) \<and> nt_wf nt' \<and>
    tree_names nt' = remove1 (node_Name n) (tree_names nt)"
proof -
  obtain na where na: "nt_zones nt = [[]]" "nt_tree nt = [([], na)]" "na_nodes na \<noteq> []"
      "distinct (na_nodes na)" "nt_numNodes nt = int (length (na_nodes na))"
    using assms by (auto simp: nt_wf_cases tree_names_def)
  note T = tree_names_single [OF na(1,2)]
  then obtain i where i: "find_index (\<lambda>x. x = node_Name n) (na_nodes na) = Some i"
    using find_index_ex [of "na_nodes na" "\<lambda>x. x = node_Name n"] assms(2) by auto
  note D = del_at_remove1 [OF i]
  have len: "length (remove1 (node_Name n) (na_nodes na)) = length (na_nodes na) - 1"
    using assms(2) T by (simp add: length_remove1)
  show ?thesis
  proof (cases "remove1 (node_Name n) (na_nodes na) = []")
    case True
    then have "length (na_nodes na) = 1" using len na(3) by (cases "na_nodes na") auto
    with True na T i D show ?thesis
      by (simp add: nodeTree_removeNode_def GetZoneKey_def Let_def gm_get_Cons gm_put_def gm_del_def
          removeZone_def nt_wf_cases tree_names_def del_at_def)
  next
    case False
    with na T i D len show ?thesis
      by (auto simp: nodeTree_removeNode_def GetZoneKey_def Let_def gm_get_Cons gm_put_def nt_wf_cases
          tree_names_single distinct_remove1 of_nat_diff Suc_leI)
  qed
qed

lemma updateNode_same: "nodeTree_updateNode nt old new = Some nt"
  by (simp add: nodeTree_updateNode_def GetZoneKey_def split: option.splits)

inductive nt_reach :: "nodeTree \<Rightarrow> bool" where
  nt_new: "nt_reach (newNodeTree [])"
| nt_add: "nt_reach nt \<Longrightarrow> nt_reach (nodeTree_addNode nt n)"
| nt_remove: "nt_reach nt \<Longrightarrow> nt_reach (fst (nodeTree_removeNode nt n))"
| nt_update: "nt_reach nt \<Longrightarrow> nodeTree_updateNode nt old new = Some nt' \<Longrightarrow> nt_reach nt'"
| nt_reset: "nt_reach nt \<Longrightarrow> nt_reach (resetExhausted nt)"
| nt_next: "nt_reach nt \<Longrightarrow> nodeTree_next nt = Some (x, nt') \<Longrightarrow> nt_reach nt'"

lemma nodeTree_next_total:
  assumes "nt_ok nt"
  shows "\<exists>x nt'. nodeTree_next nt = Some (x, nt') \<and> same_nodes nt nt'"
proof (cases "nt_zones nt = []")
  case False
  then show ?thesis
    using nodeTree_next_remaining [OF assms] next_loop_reset [OF assms False, of 0]
    by (cases "remaining nt = {#}") (auto simp: nodeTree_next_def)
qed (simp add: nodeTree_next_def)

lemma removeNode_fst_wf: "nt_wf nt \<Longrightarrow> nt_wf (fst (nodeTree_removeNode nt n))"
  using removeNode_absent [of nt n] removeNode_wf [of nt n]
  by (cases "node_Name n \<in> set (tree_names nt)") auto

lemma nt_reach_wf: "nt_reach nt \<Longrightarrow> nt_wf nt"
proof (induction rule: nt_reach.induct)
  case (nt_next nt x nt')
  then show ?case using nodeTree_next_total [of nt] same_nodes_wf by fastforce
qed (auto simp: newNodeTree_wf addNode_wf removeNode_fst_wf updateNode_same
    intro: same_nodes_wf resetExhausted_same)

text \<open>
  In every tree the cache can bring about, each node name is there once, \<open>numNodes\<close> is the
  number of names, and \<open>next\<close> returns without a nil dereference or an endless loop.
\<close>

theorem node_tree_reachable:
  assumes "nt_reach nt"
  shows "distinct (tree_names nt) \<and> nt_numNodes nt = int (length (tree_names nt)) \<and>
    (\<exists>x nt'. nodeTree_next nt = Some (x, nt') \<and> tree_names nt' = tree_names nt)"
proof -
  have "nt_ok nt" using nt_reach_wf [OF assms] by simp
  then show ?thesis using nodeTree_next_total [of nt] same_nodes_names by (fastforce simp: nt_ok_def)
qed

theorem node_tree_reachable_witness:
  "nt_numNodes (nodeTree_addNode (newNodeTree []) (zero_node\<lparr>node_Name := ''n1''\<rparr>)) = 1"
  using node_tree_reachable [OF nt_add [OF nt_new, of "zero_node\<lparr>node_Name := ''n1''\<rparr>"]]
    addNode_wf [OF newNodeTree_wf(1), of "zero_node\<lparr>node_Name := ''n1''\<rparr>"] newNodeTree_wf(2)
  by simp

text \<open>
  C25: On every well-formed tree, with any number of zones, calling \<open>next\<close> as many times as there
  are nodes after \<open>resetExhausted\<close> gives each node name exactly once, and leaves the nodes as they
  are.
\<close>

theorem node_tree_visits_all:
  assumes "nt_ok nt"
  shows "\<exists>xs nt'. next_names (nat (nt_numNodes nt)) (resetExhausted nt) = Some (xs, nt') \<and>
    distinct xs \<and> set xs = set (tree_names nt) \<and> tree_names nt' = tree_names nt"
  using next_names_after_reset [OF assms] mset_eq_setD by metis

definition demo_tree :: nodeTree where
  "demo_tree = \<lparr>nt_tree = [(''za'', \<lparr>na_nodes = [''a1'', ''a2''], na_lastIndex = 1\<rparr>),
       (''zb'', \<lparr>na_nodes = [''b1''], na_lastIndex = 0\<rparr>)],
     nt_zones = [''za'', ''zb''], nt_zoneIndex = 5, nt_numNodes = 3\<rparr>"

theorem node_tree_visits_all_witness:
  "\<exists>xs nt'. next_names 3 (resetExhausted demo_tree) = Some (xs, nt') \<and> distinct xs \<and>
    set xs = {''a1'', ''a2'', ''b1''}"
proof -
  have "nt_ok demo_tree"
    by (auto simp: nt_ok_def demo_tree_def gm_ok_def zone_nodes_def tree_names_def gm_get_Cons)
  from node_tree_visits_all [OF this] obtain xs nt' where
    "next_names (nat (nt_numNodes demo_tree)) (resetExhausted demo_tree) = Some (xs, nt')"
    "distinct xs" "set xs = set (tree_names demo_tree)" by blast
  moreover have "nat (nt_numNodes demo_tree) = 3" "set (tree_names demo_tree) = {''a1'', ''a2'', ''b1''}"
    by (simp_all add: demo_tree_def tree_names_def zone_nodes_def gm_get_Cons)
  ultimately show ?thesis by metis
qed

end
