(* ===== verification/Sched_Cache.thy ===== *)
theory Sched_Cache
  imports Node_Info Node_Tree
begin

text \<open>
  \<^verbatim>\<open>scheduler/internal/cache/cache.go\<close> and \<^verbatim>\<open>snapshot.go\<close>: pods and nodes as the scheduler sees
  them, and the snapshot it works on in a scheduling cycle. This theory holds the state and the
  operations; \<open>Cache_Invariant\<close> and \<open>Cache_Snapshot\<close> hold what is proved of them.

  \<^item> Every method of the cache runs under the cache's mutex, so it is one step on the state.
  \<^item> An item of the doubly linked list is addressed by its key in \<open>cache.nodes\<close>: an item is in
    the list exactly as long as it is in that map. A write through a pointer to an item that has
    been deleted from the map has no effect that can be observed.
  \<^item> The snapshot's map and its two lists share pointers to \<open>NodeInfo\<close>, and \<open>UpdateSnapshot\<close> writes
    through them: they are addresses into a store that is part of the snapshot.
  \<^item> The package variable \<open>generation\<close> is a field of the cache. The metrics are left out.
\<close>

subsection \<open>State\<close>

record nodeInfoListItem =
  li_info :: NodeInfo
  li_next :: "string option"
  li_prev :: "string option"

record podState =
  ps_pod :: Pod
  ps_deadline :: "int option"
  ps_bindingFinished :: bool

record imageState =
  is_size :: int
  is_nodes :: "string list"

record schedulerCache =
  sc_ttl :: int
  sc_period :: int
  sc_assumedPods :: "(string, bool) gomap"
  sc_podStates :: "(string, podState) gomap"
  sc_nodes :: "(string, nodeInfoListItem) gomap"
  sc_headNode :: "string option"
  sc_nodeTree :: nodeTree
  sc_imageStates :: "(string, imageState) gomap"
  sc_generation :: int

definition createImageStateSummary :: "imageState \<Rightarrow> ImageStateSummary" where
  "createImageStateSummary state = \<lparr>iss_Size = is_size state, iss_NumNodes = int (length (is_nodes state))\<rparr>"

definition newSchedulerCache :: "int \<Rightarrow> int \<Rightarrow> int \<Rightarrow> schedulerCache" where
  "newSchedulerCache ttl period gen =
    \<lparr>sc_ttl = ttl, sc_period = period, sc_assumedPods = [], sc_podStates = [], sc_nodes = [],
     sc_headNode = None, sc_nodeTree = newNodeTree [], sc_imageStates = [], sc_generation = gen\<rparr>"

definition newNodeInfoListItem :: "NodeInfo \<Rightarrow> nodeInfoListItem" where
  "newNodeInfoListItem ni = \<lparr>li_info = ni, li_next = None, li_prev = None\<rparr>"

subsection \<open>The doubly linked list\<close>

text \<open>A write through a pointer to an item.\<close>

definition item_upd :: "string \<Rightarrow> (nodeInfoListItem \<Rightarrow> nodeInfoListItem) \<Rightarrow>
    (string, nodeInfoListItem) gomap \<Rightarrow> (string, nodeInfoListItem) gomap" where
  "item_upd k f m = (case gm_get m k of None \<Rightarrow> m | Some it \<Rightarrow> gm_put m k (f it))"

definition ptr_upd :: "string option \<Rightarrow> (nodeInfoListItem \<Rightarrow> nodeInfoListItem) \<Rightarrow>
    (string, nodeInfoListItem) gomap \<Rightarrow> (string, nodeInfoListItem) gomap" where
  "ptr_upd p f m = (case p of None \<Rightarrow> m | Some k \<Rightarrow> item_upd k f m)"

text \<open>\<open>ni.prev.next = ni.next\<close> and \<open>ni.next.prev = ni.prev\<close>, each guarded against nil.\<close>

definition unlink :: "string \<Rightarrow> (string, nodeInfoListItem) gomap \<Rightarrow> (string, nodeInfoListItem) gomap" where
  "unlink name m =
    (case gm_get m name of
       None \<Rightarrow> m
     | Some ni \<Rightarrow>
         let m1 = ptr_upd (li_prev ni) (\<lambda>it. it\<lparr>li_next := li_next ni\<rparr>) m
         in case gm_get m1 name of
              None \<Rightarrow> m1
            | Some ni1 \<Rightarrow> ptr_upd (li_next ni1) (\<lambda>it. it\<lparr>li_prev := li_prev ni1\<rparr>) m1)"

definition moveNodeInfoToHead :: "schedulerCache \<Rightarrow> string \<Rightarrow> schedulerCache" where
  "moveNodeInfoToHead cache name =
    (case gm_get (sc_nodes cache) name of
       None \<Rightarrow> cache
     | Some ni \<Rightarrow>
         if sc_headNode cache = Some name then cache
         else
           let m1 = unlink name (sc_nodes cache);
               m2 = ptr_upd (sc_headNode cache) (\<lambda>it. it\<lparr>li_prev := Some name\<rparr>) m1;
               m3 = item_upd name (\<lambda>it. it\<lparr>li_next := sc_headNode cache, li_prev := None\<rparr>) m2
           in cache\<lparr>sc_nodes := m3, sc_headNode := Some name\<rparr>)"

definition removeNodeInfoFromList :: "schedulerCache \<Rightarrow> string \<Rightarrow> schedulerCache" where
  "removeNodeInfoFromList cache name =
    (case gm_get (sc_nodes cache) name of
       None \<Rightarrow> cache
     | Some ni \<Rightarrow>
         let m1 = unlink name (sc_nodes cache);
             head' = (if sc_headNode cache = Some name
               then (case gm_get m1 name of None \<Rightarrow> None | Some ni1 \<Rightarrow> li_next ni1)
               else sc_headNode cache)
         in cache\<lparr>sc_nodes := gm_del m1 name, sc_headNode := head'\<rparr>)"

definition set_info :: "schedulerCache \<Rightarrow> string \<Rightarrow> NodeInfo \<Rightarrow> schedulerCache" where
  "set_info cache name ni =
    cache\<lparr>sc_nodes := item_upd name (\<lambda>it. it\<lparr>li_info := ni\<rparr>) (sc_nodes cache)\<rparr>"

subsection \<open>Pods of a node\<close>

text \<open>\<open>cache.nodes[name]\<close>, made with an empty \<open>NodeInfo\<close> when it is not there.\<close>

definition ensure_node :: "as_selector \<Rightarrow> schedulerCache \<Rightarrow> string \<Rightarrow> schedulerCache \<times> NodeInfo" where
  "ensure_node asSel cache name =
    (case gm_get (sc_nodes cache) name of
       Some n \<Rightarrow> (cache, li_info n)
     | None \<Rightarrow>
         (case NewNodeInfo asSel (sc_generation cache) [] of (ni, g) \<Rightarrow>
            (cache\<lparr>sc_nodes := gm_put (sc_nodes cache) name (newNodeInfoListItem ni),
                   sc_generation := g\<rparr>, ni)))"

definition cache_addPod :: "as_selector \<Rightarrow> schedulerCache \<Rightarrow> Pod \<Rightarrow> schedulerCache" where
  "cache_addPod asSel cache pod =
    (case ensure_node asSel cache (pod_NodeName pod) of (c1, info) \<Rightarrow>
       case NodeInfo_AddPod asSel (sc_generation c1) info pod of (info', g) \<Rightarrow>
         moveNodeInfoToHead (set_info (c1\<lparr>sc_generation := g\<rparr>) (pod_NodeName pod) info')
           (pod_NodeName pod))"

definition cache_removePod :: "schedulerCache \<Rightarrow> Pod \<Rightarrow> (schedulerCache \<times> error option) option" where
  "cache_removePod cache pod =
    (case gm_get (sc_nodes cache) (pod_NodeName pod) of
       None \<Rightarrow> Some (cache, None)
     | Some n \<Rightarrow>
         do { (info', g, err) \<leftarrow> NodeInfo_RemovePod (sc_generation cache) (li_info n) pod;
              let c1 = set_info (cache\<lparr>sc_generation := g\<rparr>) (pod_NodeName pod) info';
              Some (if err \<noteq> None then (c1, err)
                else if length (ni_Pods info') = 0 \<and> ni_node info' = None
                then (removeNodeInfoFromList c1 (pod_NodeName pod), None)
                else (moveNodeInfoToHead c1 (pod_NodeName pod), None)) })"

definition cache_updatePod :: "as_selector \<Rightarrow> schedulerCache \<Rightarrow> Pod \<Rightarrow> Pod \<Rightarrow>
    (schedulerCache \<times> error option) option" where
  "cache_updatePod asSel cache oldPod newPod =
    do { (c1, err) \<leftarrow> cache_removePod cache oldPod;
         Some (if err \<noteq> None then (c1, err) else (cache_addPod asSel c1 newPod, None)) }"

subsection \<open>The life of a pod\<close>

definition isAssumed :: "schedulerCache \<Rightarrow> string \<Rightarrow> bool" where
  "isAssumed cache key = (case gm_get (sc_assumedPods cache) key of None \<Rightarrow> False | Some b \<Rightarrow> b)"

definition AssumePod :: "as_selector \<Rightarrow> schedulerCache \<Rightarrow> Pod \<Rightarrow> schedulerCache \<times> error option" where
  "AssumePod asSel cache pod =
    (case GetPodKey pod of
       Inl err \<Rightarrow> (cache, Some err)
     | Inr key \<Rightarrow>
         if gm_get (sc_podStates cache) key \<noteq> None
         then (cache, Some (''pod '' @ key @ '' is in the cache, so can't be assumed''))
         else
           let c1 = cache_addPod asSel cache pod;
               ps = \<lparr>ps_pod = pod, ps_deadline = None, ps_bindingFinished = False\<rparr>
           in (c1\<lparr>sc_podStates := gm_put (sc_podStates c1) key ps,
                  sc_assumedPods := gm_put (sc_assumedPods c1) key True\<rparr>, None))"

definition finishBinding :: "schedulerCache \<Rightarrow> Pod \<Rightarrow> int \<Rightarrow> schedulerCache \<times> error option" where
  "finishBinding cache pod now =
    (case GetPodKey pod of
       Inl err \<Rightarrow> (cache, Some err)
     | Inr key \<Rightarrow>
         (case gm_get (sc_podStates cache) key of
            None \<Rightarrow> (cache, None)
          | Some currState \<Rightarrow>
              if isAssumed cache key
              then (cache\<lparr>sc_podStates := gm_put (sc_podStates cache) key
                  (currState\<lparr>ps_bindingFinished := True, ps_deadline := Some (now + sc_ttl cache)\<rparr>)\<rparr>, None)
              else (cache, None)))"

text \<open>\<open>FinishBinding\<close> reads the clock.\<close>

definition FinishBinding :: "int \<Rightarrow> schedulerCache \<Rightarrow> Pod \<Rightarrow> schedulerCache \<times> error option" where
  "FinishBinding time_Now cache pod = finishBinding cache pod time_Now"

definition ForgetPod :: "schedulerCache \<Rightarrow> Pod \<Rightarrow> (schedulerCache \<times> error option) option" where
  "ForgetPod cache pod =
    (case GetPodKey pod of
       Inl err \<Rightarrow> Some (cache, Some err)
     | Inr key \<Rightarrow>
         (case gm_get (sc_podStates cache) key of
            Some currState \<Rightarrow>
              if pod_NodeName (ps_pod currState) \<noteq> pod_NodeName pod
              then Some (cache, Some (''pod '' @ key @ '' was assumed on '' @ pod_NodeName pod @
                '' but assigned to '' @ pod_NodeName (ps_pod currState)))
              else if isAssumed cache key then
                do { (c1, err) \<leftarrow> cache_removePod cache pod;
                     Some (if err \<noteq> None then (c1, err)
                       else (c1\<lparr>sc_assumedPods := gm_del (sc_assumedPods c1) key,
                                sc_podStates := gm_del (sc_podStates c1) key\<rparr>, None)) }
              else Some (cache, Some (''pod '' @ key @ '' wasn't assumed so cannot be forgotten''))
          | None \<Rightarrow> Some (cache, Some (''pod '' @ key @ '' wasn't assumed so cannot be forgotten''))))"

definition Cache_AddPod :: "as_selector \<Rightarrow> schedulerCache \<Rightarrow> Pod \<Rightarrow> (schedulerCache \<times> error option) option" where
  "Cache_AddPod asSel cache pod =
    (case GetPodKey pod of
       Inl err \<Rightarrow> Some (cache, Some err)
     | Inr key \<Rightarrow>
         (case gm_get (sc_podStates cache) key of
            Some currState \<Rightarrow>
              if isAssumed cache key then
                do { c1 \<leftarrow>
                       (if pod_NodeName (ps_pod currState) \<noteq> pod_NodeName pod
                        then do { (c0, _) \<leftarrow> cache_removePod cache (ps_pod currState);
                                  Some (cache_addPod asSel c0 pod) }
                        else Some cache);
                     Some (c1\<lparr>sc_assumedPods := gm_del (sc_assumedPods c1) key,
                       sc_podStates := gm_put (sc_podStates c1) key
                         (currState\<lparr>ps_deadline := None, ps_pod := pod\<rparr>)\<rparr>, None) }
              else Some (cache, Some (''pod '' @ key @ '' was already in added state''))
          | None \<Rightarrow>
              let c1 = cache_addPod asSel cache pod;
                  ps = \<lparr>ps_pod = pod, ps_deadline = None, ps_bindingFinished = False\<rparr>
              in Some (c1\<lparr>sc_podStates := gm_put (sc_podStates c1) key ps\<rparr>, None)))"

text \<open>A pod that moved to another node ends the process (\<open>klog.Fatalf\<close>).\<close>

definition Cache_UpdatePod :: "as_selector \<Rightarrow> schedulerCache \<Rightarrow> Pod \<Rightarrow> Pod \<Rightarrow>
    (schedulerCache \<times> error option) option" where
  "Cache_UpdatePod asSel cache oldPod newPod =
    (case GetPodKey oldPod of
       Inl err \<Rightarrow> Some (cache, Some err)
     | Inr key \<Rightarrow>
         (case gm_get (sc_podStates cache) key of
            Some currState \<Rightarrow>
              if \<not> isAssumed cache key then
                if pod_NodeName (ps_pod currState) \<noteq> pod_NodeName newPod then None
                else do { (c1, err) \<leftarrow> cache_updatePod asSel cache oldPod newPod;
                          Some (if err \<noteq> None then (c1, err)
                            else (c1\<lparr>sc_podStates := gm_put (sc_podStates c1) key
                              (currState\<lparr>ps_pod := newPod\<rparr>)\<rparr>, None)) }
              else Some (cache, Some (''pod '' @ key @ '' is not added to scheduler cache, so cannot be updated''))
          | None \<Rightarrow> Some (cache,
              Some (''pod '' @ key @ '' is not added to scheduler cache, so cannot be updated''))))"

definition Cache_RemovePod :: "schedulerCache \<Rightarrow> Pod \<Rightarrow> (schedulerCache \<times> error option) option" where
  "Cache_RemovePod cache pod =
    (case GetPodKey pod of
       Inl err \<Rightarrow> Some (cache, Some err)
     | Inr key \<Rightarrow>
         (case gm_get (sc_podStates cache) key of
            Some currState \<Rightarrow>
              if \<not> isAssumed cache key then
                if pod_NodeName (ps_pod currState) \<noteq> pod_NodeName pod then None
                else do { (c1, err) \<leftarrow> cache_removePod cache (ps_pod currState);
                          Some (if err \<noteq> None then (c1, err)
                            else (c1\<lparr>sc_podStates := gm_del (sc_podStates c1) key\<rparr>, None)) }
              else Some (cache, Some (''pod '' @ key @
                '' is not found in scheduler cache, so cannot be removed from it''))
          | None \<Rightarrow> Some (cache, Some (''pod '' @ key @
              '' is not found in scheduler cache, so cannot be removed from it''))))"

definition IsAssumedPod :: "schedulerCache \<Rightarrow> Pod \<Rightarrow> error + bool" where
  "IsAssumedPod cache pod =
    (case GetPodKey pod of
       Inl err \<Rightarrow> Inl err
     | Inr key \<Rightarrow>
         (case gm_get (sc_assumedPods cache) key of None \<Rightarrow> Inr False | Some b \<Rightarrow> Inr b))"

definition GetPod :: "schedulerCache \<Rightarrow> Pod \<Rightarrow> error + Pod" where
  "GetPod cache pod =
    (case GetPodKey pod of
       Inl err \<Rightarrow> Inl err
     | Inr key \<Rightarrow>
         (case gm_get (sc_podStates cache) key of
            None \<Rightarrow> Inl (''pod '' @ key @ '' does not exist in scheduler cache'')
          | Some s \<Rightarrow> Inr (ps_pod s)))"

definition PodCount :: "schedulerCache \<Rightarrow> nat" where
  "PodCount cache = fold (\<lambda>e count. count + length (ni_Pods (li_info (snd e)))) (sc_nodes cache) 0"

definition expirePod :: "schedulerCache \<Rightarrow> string \<Rightarrow> podState \<Rightarrow> (schedulerCache \<times> error option) option" where
  "expirePod cache key ps =
    do { (c1, err) \<leftarrow> cache_removePod cache (ps_pod ps);
         Some (if err \<noteq> None then (c1, err)
           else (c1\<lparr>sc_assumedPods := gm_del (sc_assumedPods c1) key,
                    sc_podStates := gm_del (sc_podStates c1) key\<rparr>, None)) }"

text \<open>The body of the loop over the assumed pods; the error of \<open>expirePod\<close> is only logged.\<close>

definition cleanup_one :: "int \<Rightarrow> schedulerCache \<Rightarrow> string \<Rightarrow> schedulerCache option" where
  "cleanup_one now cache key =
    (case gm_get (sc_podStates cache) key of
       None \<Rightarrow> None
     | Some ps \<Rightarrow>
         if \<not> ps_bindingFinished ps then Some cache
         else case ps_deadline ps of
           None \<Rightarrow> None
         | Some deadline \<Rightarrow>
             if now > deadline then map_option fst (expirePod cache key ps) else Some cache)"

fun cleanup_loop :: "int \<Rightarrow> string list \<Rightarrow> schedulerCache \<Rightarrow> schedulerCache option" where
  "cleanup_loop now [] cache = Some cache"
| "cleanup_loop now (key # keys) cache = do { c1 \<leftarrow> cleanup_one now cache key; cleanup_loop now keys c1 }"

text \<open>An iteration only deletes the entry it is at, so the loop visits the keys it started with.\<close>

definition cleanupAssumedPods :: "int \<Rightarrow> schedulerCache \<Rightarrow> schedulerCache option" where
  "cleanupAssumedPods now cache = cleanup_loop now (gm_keys (sc_assumedPods cache)) cache"

subsection \<open>Nodes and their images\<close>

definition addImage :: "Node \<Rightarrow> int \<Rightarrow> string \<Rightarrow>
    (string, imageState) gomap \<times> (string, ImageStateSummary) gomap \<Rightarrow>
    (string, imageState) gomap \<times> (string, ImageStateSummary) gomap" where
  "addImage node sizeBytes name s =
    (case s of (states, newSum) \<Rightarrow>
       let state = (case gm_get states name of
                      None \<Rightarrow> \<lparr>is_size = sizeBytes, is_nodes = [node_Name node]\<rparr>
                    | Some st \<Rightarrow> st\<lparr>is_nodes := List.insert (node_Name node) (is_nodes st)\<rparr>)
       in (gm_put states name state,
           if gm_get newSum name = None then gm_put newSum name (createImageStateSummary state) else newSum))"

definition addNodeImageStates :: "schedulerCache \<Rightarrow> Node \<Rightarrow> NodeInfo \<Rightarrow> schedulerCache \<times> NodeInfo" where
  "addNodeImageStates cache node info =
    (case fold (\<lambda>image. fold (addImage node (img_SizeBytes image)) (img_Names image))
       (node_Images node) (sc_imageStates cache, []) of (states, newSum) \<Rightarrow>
         (cache\<lparr>sc_imageStates := states\<rparr>, info\<lparr>ni_ImageStates := newSum\<rparr>))"

definition removeImage :: "Node \<Rightarrow> string \<Rightarrow> (string, imageState) gomap \<Rightarrow> (string, imageState) gomap" where
  "removeImage node name states =
    (case gm_get states name of
       None \<Rightarrow> states
     | Some state \<Rightarrow>
         let nodes' = List.remove1 (node_Name node) (is_nodes state) in
         if length nodes' = 0 then gm_del states name
         else gm_put states name (state\<lparr>is_nodes := nodes'\<rparr>))"

definition removeNodeImageStates :: "schedulerCache \<Rightarrow> Node option \<Rightarrow> schedulerCache" where
  "removeNodeImageStates cache node =
    (case node of
       None \<Rightarrow> cache
     | Some n \<Rightarrow> cache\<lparr>sc_imageStates :=
         fold (\<lambda>image. fold (removeImage n) (img_Names image)) (node_Images n) (sc_imageStates cache)\<rparr>)"

text \<open>The end of \<open>AddNode\<close> and \<open>UpdateNode\<close>: the images and \<open>SetNode\<close>.\<close>

definition install_node :: "schedulerCache \<Rightarrow> Node \<Rightarrow> NodeInfo \<Rightarrow> schedulerCache" where
  "install_node c node info =
    (case addNodeImageStates c node info of (c1, info1) \<Rightarrow>
       case SetNode (sc_generation c1) info1 node of (info2, g) \<Rightarrow>
         set_info (c1\<lparr>sc_generation := g\<rparr>) (node_Name node) info2)"

definition AddNode :: "as_selector \<Rightarrow> schedulerCache \<Rightarrow> Node \<Rightarrow> schedulerCache \<times> error option" where
  "AddNode asSel cache node =
    (case ensure_node asSel cache (node_Name node) of (c1, info) \<Rightarrow>
       let c2 = (if gm_get (sc_nodes cache) (node_Name node) = None then c1
                 else removeNodeImageStates c1 (ni_node info));
           c3 = moveNodeInfoToHead c2 (node_Name node);
           c4 = c3\<lparr>sc_nodeTree := nodeTree_addNode (sc_nodeTree c3) node\<rparr>
       in (install_node c4 node info, None))"

definition UpdateNode :: "as_selector \<Rightarrow> schedulerCache \<Rightarrow> Node option \<Rightarrow> Node \<Rightarrow>
    (schedulerCache \<times> error option) option" where
  "UpdateNode asSel cache oldNode newNode =
    (case ensure_node asSel cache (node_Name newNode) of (c1, info) \<Rightarrow>
       let c2 = (if gm_get (sc_nodes cache) (node_Name newNode) = None
                 then c1\<lparr>sc_nodeTree := nodeTree_addNode (sc_nodeTree c1) newNode\<rparr>
                 else removeNodeImageStates c1 (ni_node info));
           c3 = moveNodeInfoToHead c2 (node_Name newNode)
       in do { t \<leftarrow> nodeTree_updateNode (sc_nodeTree c3) oldNode newNode;
               Some (install_node (c3\<lparr>sc_nodeTree := t\<rparr>) newNode info, None) })"

definition RemoveNode :: "schedulerCache \<Rightarrow> Node \<Rightarrow> schedulerCache \<times> error option" where
  "RemoveNode cache node =
    (case gm_get (sc_nodes cache) (node_Name node) of
       None \<Rightarrow> (cache, Some (''node '' @ node_Name node @ '' is not found''))
     | Some n \<Rightarrow>
         (case NodeInfo_RemoveNode (sc_generation cache) (li_info n) of (info', g) \<Rightarrow>
            let c1 = set_info (cache\<lparr>sc_generation := g\<rparr>) (node_Name node) info';
                c2 = (if length (ni_Pods info') = 0 then removeNodeInfoFromList c1 (node_Name node)
                      else moveNodeInfoToHead c1 (node_Name node))
            in case nodeTree_removeNode (sc_nodeTree c2) node of
                 (t, Some err) \<Rightarrow> (c2\<lparr>sc_nodeTree := t\<rparr>, Some err)
               | (t, None) \<Rightarrow> (removeNodeImageStates (c2\<lparr>sc_nodeTree := t\<rparr>) (Some node), None)))"

text \<open>The debugging dump, \<open>interface.go\<close>'s \<open>Dump\<close>.\<close>

record Dump =
  dump_AssumedPods :: "(string, bool) gomap"
  dump_Nodes :: "(string, NodeInfo) gomap"

definition Cache_Dump :: "schedulerCache \<Rightarrow> Dump" where
  "Cache_Dump cache =
    \<lparr>dump_AssumedPods = gm_copy (sc_assumedPods cache),
     dump_Nodes = fold (\<lambda>e nodes. gm_put nodes (fst e) (NodeInfo_Clone (li_info (snd e)))) (sc_nodes cache) []\<rparr>"

subsection \<open>Snapshots\<close>

record Snapshot =
  sn_store :: "(nat, NodeInfo) gomap"
  sn_fresh :: nat
  sn_nodeInfoMap :: "(string, nat) gomap"
  sn_nodeInfoList :: "nat list"
  sn_havePodsWithAffinity :: "nat list"
  sn_generation :: int

text \<open>Go's \<open>framework.NodeInfo{}\<close>; its nil resources are overwritten before anything reads them.\<close>

definition zero_NodeInfo :: NodeInfo where
  "zero_NodeInfo = \<lparr>ni_node = None, ni_Pods = [], ni_PodsWithAffinity = [], ni_UsedPorts = [],
     ni_Requested = zero_Resource, ni_NonZeroRequested = zero_Resource, ni_Allocatable = zero_Resource,
     ni_ImageStates = [], ni_TransientInfo = NewTransientSchedulerInfo, ni_Generation = 0\<rparr>"

definition sn_info :: "Snapshot \<Rightarrow> nat \<Rightarrow> NodeInfo" where
  "sn_info s a = (case gm_get (sn_store s) a of None \<Rightarrow> zero_NodeInfo | Some n \<Rightarrow> n)"

definition NewEmptySnapshot :: Snapshot where
  "NewEmptySnapshot = \<lparr>sn_store = [], sn_fresh = 0, sn_nodeInfoMap = [], sn_nodeInfoList = [],
     sn_havePodsWithAffinity = [], sn_generation = 0\<rparr>"

text \<open>One turn of the loop of \<open>UpdateSnapshot\<close>, on a changed node.\<close>

type_synonym snap_state = "Snapshot \<times> bool \<times> bool"

definition snapshot_node :: "NodeInfo \<Rightarrow> snap_state \<Rightarrow> snap_state" where
  "snapshot_node info st =
    (case st of (s, updateAllLists, updateAffinity) \<Rightarrow>
       case ni_node info of
         None \<Rightarrow> (s, updateAllLists, updateAffinity)
       | Some np \<Rightarrow>
           (case (case gm_get (sn_nodeInfoMap s) (node_Name np) of
                    Some a \<Rightarrow> (s, a, updateAllLists)
                  | None \<Rightarrow> (s\<lparr>sn_store := gm_put (sn_store s) (sn_fresh s) zero_NodeInfo,
                        sn_nodeInfoMap := gm_put (sn_nodeInfoMap s) (node_Name np) (sn_fresh s),
                        sn_fresh := Suc (sn_fresh s)\<rparr>, sn_fresh s, True)) of
              (s1, a, all1) \<Rightarrow>
                let clone = NodeInfo_Clone info;
                    changed = ((length (ni_PodsWithAffinity (sn_info s1 a)) > 0) \<noteq>
                      (length (ni_PodsWithAffinity clone) > 0))
                in (s1\<lparr>sn_store := gm_put (sn_store s1) a clone\<rparr>, all1,
                    updateAffinity \<or> changed)))"

text \<open>
  The walk along the linked list. It does not return on a cyclic list and stops the model on a
  pointer to an item that is not in the map; both are \<open>None\<close>. The reset of the transient
  information is not there: it is guarded by a constant \<open>false\<close>.
\<close>

partial_function (option) update_loop ::
    "(string, nodeInfoListItem) gomap \<Rightarrow> int \<Rightarrow> string option \<Rightarrow> snap_state \<Rightarrow> snap_state option" where
  "update_loop nodes snapshotGeneration cur st =
    (case cur of
       None \<Rightarrow> Some st
     | Some k \<Rightarrow>
         (case gm_get nodes k of
            None \<Rightarrow> None
          | Some node \<Rightarrow>
              if ni_Generation (li_info node) \<le> snapshotGeneration then Some st
              else update_loop nodes snapshotGeneration (li_next node) (snapshot_node (li_info node) st)))"

fun remove_deleted_loop :: "(string, nodeInfoListItem) gomap \<Rightarrow> string list \<Rightarrow> int \<Rightarrow>
    (string, nat) gomap \<Rightarrow> (string, nat) gomap" where
  "remove_deleted_loop nodes [] toDelete m = m"
| "remove_deleted_loop nodes (name # names) toDelete m =
    (if toDelete \<le> 0 then m
     else if gm_get nodes name = None
     then remove_deleted_loop nodes names (toDelete - 1) (gm_del m name)
     else remove_deleted_loop nodes names toDelete m)"

definition removeDeletedNodesFromSnapshot :: "schedulerCache \<Rightarrow> Snapshot \<Rightarrow> Snapshot" where
  "removeDeletedNodesFromSnapshot cache s =
    s\<lparr>sn_nodeInfoMap := remove_deleted_loop (sc_nodes cache) (gm_keys (sn_nodeInfoMap s))
      (int (length (sn_nodeInfoMap s)) - int (length (sc_nodes cache))) (sn_nodeInfoMap s)\<rparr>"

text \<open>Appending a node to the two lists, and the loop over the names of the tree.\<close>

definition add_aff :: "Snapshot \<Rightarrow> nat \<Rightarrow> Snapshot" where
  "add_aff s a =
    (if length (ni_PodsWithAffinity (sn_info s a)) > 0
     then s\<lparr>sn_havePodsWithAffinity := sn_havePodsWithAffinity s @ [a]\<rparr> else s)"

fun list_loop :: "nat \<Rightarrow> nodeTree \<Rightarrow> Snapshot \<Rightarrow> (nodeTree \<times> Snapshot) option" where
  "list_loop 0 t s = Some (t, s)"
| "list_loop (Suc k) t s =
    do { (nodeName, t1) \<leftarrow> nodeTree_next t;
         list_loop k t1
           (case gm_get (sn_nodeInfoMap s) nodeName of
              None \<Rightarrow> s
            | Some a \<Rightarrow> add_aff (s\<lparr>sn_nodeInfoList := sn_nodeInfoList s @ [a]\<rparr>) a) }"

definition updateNodeInfoSnapshotList :: "schedulerCache \<Rightarrow> Snapshot \<Rightarrow> bool \<Rightarrow>
    (schedulerCache \<times> Snapshot) option" where
  "updateNodeInfoSnapshotList cache s0 updateAll =
    (let s = s0\<lparr>sn_havePodsWithAffinity := []\<rparr> in
     if updateAll then
       do { (t, s') \<leftarrow> list_loop (nat (nt_numNodes (sc_nodeTree cache)))
              (resetExhausted (sc_nodeTree cache)) (s\<lparr>sn_nodeInfoList := []\<rparr>);
            Some (cache\<lparr>sc_nodeTree := t\<rparr>, s') }
     else Some (cache, fold (\<lambda>a s'. add_aff s' a) (sn_nodeInfoList s) s))"

text \<open>The numbers in the text of the error are left out.\<close>

definition UpdateSnapshot :: "schedulerCache \<Rightarrow> Snapshot \<Rightarrow>
    (schedulerCache \<times> Snapshot \<times> error option) option" where
  "UpdateSnapshot cache nodeSnapshot =
    do { (s1, all1, aff1) \<leftarrow> update_loop (sc_nodes cache) (sn_generation nodeSnapshot)
           (sc_headNode cache) (nodeSnapshot, False, False);
         s2 \<leftarrow> (case sc_headNode cache of
                  None \<Rightarrow> Some s1
                | Some h \<Rightarrow>
                    (case gm_get (sc_nodes cache) h of
                       None \<Rightarrow> None
                     | Some node \<Rightarrow> Some (s1\<lparr>sn_generation := ni_Generation (li_info node)\<rparr>)));
         let deleted = (length (sn_nodeInfoMap s2) > length (sc_nodes cache));
         let s3 = (if deleted then removeDeletedNodesFromSnapshot cache s2 else s2);
         let all3 = (deleted \<or> all1);
         (c4, s4) \<leftarrow> (if all3 \<or> aff1 then updateNodeInfoSnapshotList cache s3 all3 else Some (cache, s3));
         if int (length (sn_nodeInfoList s4)) \<noteq> nt_numNodes (sc_nodeTree c4) then
           do { (c5, s5) \<leftarrow> updateNodeInfoSnapshotList c4 s4 True;
                Some (c5, s5, Some ''snapshot state is not consistent'') }
         else Some (c4, s4, None) }"

subsection \<open>Snapshots made from lists of pods and nodes\<close>

definition image_names :: "Node \<Rightarrow> (int \<times> string) list" where
  "image_names node = concat (map (\<lambda>image. map (Pair (img_SizeBytes image)) (img_Names image)) (node_Images node))"

definition createImageExistenceMap :: "Node list \<Rightarrow> (string, string list) gomap" where
  "createImageExistenceMap nodes =
    fold (\<lambda>node. fold (\<lambda>e m. case gm_get m (snd e) of
        None \<Rightarrow> gm_put m (snd e) [node_Name node]
      | Some ns \<Rightarrow> gm_put m (snd e) (List.insert (node_Name node) ns)) (image_names node)) nodes []"

definition getNodeImageStates :: "Node \<Rightarrow> (string, string list) gomap \<Rightarrow> (string, ImageStateSummary) gomap" where
  "getNodeImageStates node imageExistenceMap =
    fold (\<lambda>e m. gm_put m (snd e) \<lparr>iss_Size = fst e,
        iss_NumNodes = (case gm_get imageExistenceMap (snd e) of None \<Rightarrow> 0 | Some ns \<Rightarrow> int (length ns))\<rparr>)
      (image_names node) []"

definition get_or_new :: "as_selector \<Rightarrow> int \<Rightarrow> (string, NodeInfo) gomap \<Rightarrow> string \<Rightarrow> NodeInfo \<times> int" where
  "get_or_new asSel gen m name =
    (case gm_get m name of Some n \<Rightarrow> (n, gen) | None \<Rightarrow> NewNodeInfo asSel gen [])"

definition createNodeInfoMap :: "as_selector \<Rightarrow> int \<Rightarrow> Pod list \<Rightarrow> Node list \<Rightarrow> (string, NodeInfo) gomap \<times> int" where
  "createNodeInfoMap asSel gen pods nodes =
    (let (m1, g1) = fold (\<lambda>pod (m, g).
           case get_or_new asSel g m (pod_NodeName pod) of (n, g') \<Rightarrow>
             (case NodeInfo_AddPod asSel g' n pod of (n', g'') \<Rightarrow> (gm_put m (pod_NodeName pod) n', g'')))
           pods ([], gen);
         imageExistenceMap = createImageExistenceMap nodes
     in fold (\<lambda>node (m, g).
           case get_or_new asSel g m (node_Name node) of (n, g') \<Rightarrow>
             (case SetNode g' n node of (n', g'') \<Rightarrow>
               (gm_put m (node_Name node)
                 (n'\<lparr>ni_ImageStates := getNodeImageStates node imageExistenceMap\<rparr>), g'')))
           nodes (m1, g1))"

definition NewSnapshot :: "as_selector \<Rightarrow> int \<Rightarrow> Pod list \<Rightarrow> Node list \<Rightarrow> Snapshot" where
  "NewSnapshot asSel gen pods nodes =
    (let m = fst (createNodeInfoMap asSel gen pods nodes); addrs = [0..<length m]
     in NewEmptySnapshot\<lparr>sn_store := zip addrs (map snd m), sn_fresh := length m,
          sn_nodeInfoMap := zip (map fst m) addrs, sn_nodeInfoList := addrs,
          sn_havePodsWithAffinity := filter (\<lambda>a. length (ni_PodsWithAffinity (snd (m ! a))) > 0) addrs\<rparr>)"

definition Snapshot_NumNodes :: "Snapshot \<Rightarrow> nat" where
  "Snapshot_NumNodes s = length (sn_nodeInfoList s)"

definition Snapshot_List :: "Snapshot \<Rightarrow> NodeInfo list" where
  "Snapshot_List s = map (sn_info s) (sn_nodeInfoList s)"

definition HavePodsWithAffinityList :: "Snapshot \<Rightarrow> NodeInfo list" where
  "HavePodsWithAffinityList s = map (sn_info s) (sn_havePodsWithAffinity s)"

definition Snapshot_Get :: "Snapshot \<Rightarrow> string \<Rightarrow> error + NodeInfo" where
  "Snapshot_Get s nodeName =
    (case gm_get (sn_nodeInfoMap s) nodeName of
       None \<Rightarrow> Inl (''nodeinfo not found for node name '' @ go_q nodeName)
     | Some a \<Rightarrow> if ni_node (sn_info s a) \<noteq> None then Inr (sn_info s a)
         else Inl (''nodeinfo not found for node name '' @ go_q nodeName))"

end
