(* ===== verification/Cache_Invariant.thy ===== *)
theory Cache_Invariant
  imports Sched_Cache
begin

text \<open>
  What every operation of the cache keeps: the doubly linked list is a list of all the nodes, most
  recently changed first, and so by falling generation; the tree has the names of the nodes that are
  there; each pod the cache knows is in the \<open>NodeInfo\<close> of its node, and only there; an assumed
  pod is a known pod. On top of that, the state machine of a pod.
\<close>

subsection \<open>Lists in the store\<close>

type_synonym links = "string \<Rightarrow> (string option \<times> string option) option"

definition links_of :: "(string, nodeInfoListItem) gomap \<Rightarrow> links" where
  "links_of m k = map_option (\<lambda>it. (li_prev it, li_next it)) (gm_get m k)"

definition infos_of :: "(string, nodeInfoListItem) gomap \<Rightarrow> string \<Rightarrow> NodeInfo option" where
  "infos_of m k = map_option li_info (gm_get m k)"

text \<open>From \<open>c\<close>, whose predecessor is \<open>p\<close>, the links lead through \<open>ks\<close> to \<open>r\<close>.\<close>

fun seg :: "links \<Rightarrow> string option \<Rightarrow> string option \<Rightarrow> string list \<Rightarrow> string option \<Rightarrow> bool" where
  "seg L p c [] r \<longleftrightarrow> c = r"
| "seg L p c (k # ks) r \<longleftrightarrow> c = Some k \<and> (\<exists>n. L k = Some (p, n) \<and> seg L (Some k) n ks r)"

definition hd_opt :: "string list \<Rightarrow> string option" where
  "hd_opt ks = (case ks of [] \<Rightarrow> None | k # _ \<Rightarrow> Some k)"

lemma hd_opt_simps [simp]: "hd_opt [] = None" "hd_opt (k # ks) = Some k"
  by (simp_all add: hd_opt_def)

lemma seg_append: "seg L p c (xs @ ys) r \<longleftrightarrow>
    (\<exists>d. seg L p c xs d \<and> seg L (if xs = [] then p else Some (last xs)) d ys r)"
  by (induction xs arbitrary: p c) auto

lemma seg_cong: "(\<And>k. k \<in> set ks \<Longrightarrow> L k = L' k) \<Longrightarrow> seg L p c ks r = seg L' p c ks r"
  by (induction ks arbitrary: p c) auto

lemma seg_upd [simp]: "k \<notin> set ks \<Longrightarrow> seg (L(k \<mapsto> v)) p c ks r = seg L p c ks r"
  by (rule seg_cong) auto

lemma seg_hd: "seg L p c ks None \<Longrightarrow> c = hd_opt ks"
  by (cases ks) auto

text \<open>Changing where the last item of a segment points to, and what the first one points back to.\<close>

lemma seg_change_last:
  "seg L p c xs d \<Longrightarrow> xs \<noteq> [] \<Longrightarrow> distinct xs \<Longrightarrow> L (last xs) = Some (q, d') \<Longrightarrow>
    seg (L(last xs \<mapsto> (q, n))) p c xs n"
proof (induction xs arbitrary: p c)
  case (Cons x xs)
  then show ?case
  proof (cases "xs = []")
    case False
    with Cons.prems have "x \<noteq> last xs" by auto
    with Cons False show ?thesis by auto
  qed auto
qed simp

lemma seg_change_first:
  "seg L p c ys r \<Longrightarrow> ys \<noteq> [] \<Longrightarrow> distinct ys \<Longrightarrow> L (hd ys) = Some (p, n) \<Longrightarrow>
    seg (L(hd ys \<mapsto> (q, n))) q c ys r"
  by (cases ys) auto

subsection \<open>The two list operations\<close>

lemma links_item_upd: "links_of (item_upd k f m) =
    (case gm_get m k of None \<Rightarrow> links_of m | Some it \<Rightarrow> (links_of m)(k \<mapsto> (li_prev (f it), li_next (f it))))"
  by (auto simp: links_of_def item_upd_def fun_eq_iff split: option.splits)

lemma infos_item_upd: "infos_of (item_upd k f m) =
    (case gm_get m k of None \<Rightarrow> infos_of m | Some it \<Rightarrow> (infos_of m)(k \<mapsto> li_info (f it)))"
  by (auto simp: infos_of_def item_upd_def fun_eq_iff split: option.splits)

lemma infos_item_upd_same: "(\<And>it. li_info (f it) = li_info it) \<Longrightarrow> infos_of (item_upd k f m) = infos_of m"
  by (auto simp: infos_item_upd infos_of_def fun_eq_iff split: option.splits)

lemma infos_ptr_upd_same: "(\<And>it. li_info (f it) = li_info it) \<Longrightarrow> infos_of (ptr_upd p f m) = infos_of m"
  by (auto simp: ptr_upd_def infos_item_upd_same split: option.splits)

lemma infos_del: "infos_of (gm_del m k) = (infos_of m)(k := None)"
  by (auto simp: infos_of_def fun_eq_iff)

lemma item_upd_keys [simp]: "fst ` set (item_upd k f m) = fst ` set m"
proof (cases "gm_get m k")
  case (Some it)
  then have "k \<in> fst ` set m" by (metis gm_get_eq_None option.distinct(1))
  with Some show ?thesis by (auto simp: item_upd_def)
qed (simp add: item_upd_def)

lemma ptr_upd_keys [simp]: "fst ` set (ptr_upd p f m) = fst ` set m"
  by (simp add: ptr_upd_def split: option.splits)

lemma item_upd_ok [simp]: "gm_ok m \<Longrightarrow> gm_ok (item_upd k f m)"
  by (simp add: item_upd_def split: option.splits)

lemma ptr_upd_ok [simp]: "gm_ok m \<Longrightarrow> gm_ok (ptr_upd p f m)"
  by (simp add: ptr_upd_def split: option.splits)

lemma unlink_keys [simp]: "fst ` set (unlink k m) = fst ` set m"
  by (simp add: unlink_def Let_def split: option.splits)

lemma unlink_ok [simp]: "gm_ok m \<Longrightarrow> gm_ok (unlink k m)"
  by (simp add: unlink_def Let_def split: option.splits)

lemma unlink_infos [simp]: "infos_of (unlink k m) = infos_of m"
  by (simp add: unlink_def Let_def infos_ptr_upd_same split: option.splits)

lemma links_some: "links_of m k = Some (p, n) \<longleftrightarrow> (\<exists>it. gm_get m k = Some it \<and> li_prev it = p \<and> li_next it = n)"
  by (auto simp: links_of_def)

lemma links_ptr_upd_next:
  "links_of (ptr_upd p (\<lambda>it. it\<lparr>li_next := n\<rparr>) m) = (case p of None \<Rightarrow> links_of m
     | Some k \<Rightarrow> (case links_of m k of None \<Rightarrow> links_of m | Some (a, b) \<Rightarrow> (links_of m)(k \<mapsto> (a, n))))"
  by (auto simp: ptr_upd_def links_item_upd links_of_def split: option.splits)

lemma links_ptr_upd_prev:
  "links_of (ptr_upd p (\<lambda>it. it\<lparr>li_prev := n\<rparr>) m) = (case p of None \<Rightarrow> links_of m
     | Some k \<Rightarrow> (case links_of m k of None \<Rightarrow> links_of m | Some (a, b) \<Rightarrow> (links_of m)(k \<mapsto> (n, b))))"
  by (auto simp: ptr_upd_def links_item_upd links_of_def split: option.splits)

text \<open>Unlinking an item takes it out of the list; its own links stay as they are.\<close>

lemma seg_in_links: "seg L p c ks r \<Longrightarrow> k \<in> set ks \<Longrightarrow> \<exists>a b. L k = Some (a, b)"
  by (induction ks arbitrary: p c) auto

lemma unlink_links:
  assumes "links_of m k = Some (p, n)" "p \<noteq> Some k"
  shows "links_of (unlink k m) =
    links_of (ptr_upd n (\<lambda>it. it\<lparr>li_prev := p\<rparr>) (ptr_upd p (\<lambda>it. it\<lparr>li_next := n\<rparr>) m))"
proof -
  obtain it where it: "gm_get m k = Some it" "li_prev it = p" "li_next it = n"
    using assms(1) by (auto simp: links_some)
  have "links_of (ptr_upd p (\<lambda>it. it\<lparr>li_next := n\<rparr>) m) k = Some (p, n)"
    using assms by (auto simp: links_ptr_upd_next split: option.splits prod.splits)
  then obtain it1 where "gm_get (ptr_upd p (\<lambda>it. it\<lparr>li_next := n\<rparr>) m) k = Some it1"
      "li_prev it1 = p" "li_next it1 = n" by (auto simp: links_some)
  with it show ?thesis by (simp add: unlink_def Let_def)
qed

lemma unlink_seg:
  assumes s: "seg (links_of m) None h (xs @ k # ys) None" and d: "distinct (xs @ k # ys)"
  shows "seg (links_of (unlink k m)) None (if xs = [] then hd_opt ys else h) (xs @ ys) None \<and>
    (\<exists>p n. links_of (unlink k m) k = Some (p, n) \<and> n = hd_opt ys)"
proof -
  let ?L = "links_of m" and ?p = "if xs = [] then None else Some (last xs)"
  from s obtain n where sx: "seg ?L None h xs (Some k)" and k: "?L k = Some (?p, n)"
      and sy: "seg ?L (Some k) n ys None"
    by (auto simp: seg_append split: if_splits)
  have n: "n = hd_opt ys" using seg_hd [OF sy] .
  have pk: "?p \<noteq> Some k" and nk: "k \<notin> set ys" using d last_in_set [of xs] by auto
  let ?L1 = "links_of (ptr_upd ?p (\<lambda>it. it\<lparr>li_next := n\<rparr>) m)"
  let ?L2 = "links_of (ptr_upd n (\<lambda>it. it\<lparr>li_prev := ?p\<rparr>) (ptr_upd ?p (\<lambda>it. it\<lparr>li_next := n\<rparr>) m))"
  have L1: "(xs \<noteq> [] \<longrightarrow> seg ?L1 None h xs n) \<and> (\<forall>j. j \<notin> set xs \<longrightarrow> ?L1 j = ?L j)"
  proof (cases "xs = []")
    case False
    then obtain a b where "?L (last xs) = Some (a, b)" using seg_in_links [OF sx, of "last xs"] by auto
    with False seg_change_last [OF sx False] d last_in_set [OF False] show ?thesis
      by (auto simp: links_ptr_upd_next)
  qed (simp add: links_ptr_upd_next)
  have sy1: "seg ?L1 (Some k) n ys None"
    using sy L1 d by (subst seg_cong [of ys ?L1 ?L]) auto
  have L2: "seg ?L2 ?p n ys None \<and> (\<forall>j. j \<notin> set ys \<longrightarrow> ?L2 j = ?L1 j)"
  proof (cases "ys = []")
    case False
    then obtain y ys' where ys: "ys = y # ys'" by (cases ys) auto
    with sy1 obtain b where b: "?L1 y = Some (Some k, b)" by auto
    have "seg (?L1(hd ys \<mapsto> (?p, b))) ?p n ys None"
      using sy1 d b unfolding ys by (intro seg_change_first) auto
    moreover have "?L2 = ?L1(y \<mapsto> (?p, b))" using b n ys by (simp add: links_ptr_upd_prev)
    ultimately show ?thesis using ys by auto
  qed (use sy n in \<open>simp add: links_ptr_upd_prev\<close>)
  have x2: "seg ?L2 None h xs n" if "xs \<noteq> []"
    using L1 L2 that d by (subst seg_cong [of xs ?L2 ?L1]) auto
  have "?L2 k = Some (?p, n)" using L1 L2 nk d k by auto
  with x2 L2 n unlink_links [OF k pk] show ?thesis by (auto simp: seg_append)
qed

text \<open>\<open>ks\<close> are the nodes of the cache in the order of the list.\<close>

definition order_ok :: "schedulerCache \<Rightarrow> string list \<Rightarrow> bool" where
  "order_ok c ks \<longleftrightarrow> gm_ok (sc_nodes c) \<and> distinct ks \<and> set ks = fst ` set (sc_nodes c) \<and>
     seg (links_of (sc_nodes c)) None (sc_headNode c) ks None"

text \<open>The same, with the item \<open>k\<close> in the map and not yet in the list.\<close>

definition order_but :: "schedulerCache \<Rightarrow> string \<Rightarrow> string list \<Rightarrow> bool" where
  "order_but c k ks \<longleftrightarrow> gm_ok (sc_nodes c) \<and> distinct ks \<and> k \<notin> set ks \<and>
     insert k (set ks) = fst ` set (sc_nodes c) \<and> links_of (sc_nodes c) k = Some (None, None) \<and>
     seg (links_of (sc_nodes c)) None (sc_headNode c) ks None"

abbreviation cinfo :: "schedulerCache \<Rightarrow> string \<Rightarrow> NodeInfo option" where
  "cinfo c \<equiv> infos_of (sc_nodes c)"

lemma cinfo_dom: "cinfo c k \<noteq> None \<longleftrightarrow> k \<in> fst ` set (sc_nodes c)"
  by (auto simp: infos_of_def gm_get_eq_None)

lemma cinfo_get: "cinfo c k = Some i \<longleftrightarrow> (\<exists>it. gm_get (sc_nodes c) k = Some it \<and> li_info it = i)"
  by (auto simp: infos_of_def)

text \<open>Putting an item that is in the map and not in the list before the head.\<close>

lemma push_head_seg:
  assumes s: "seg (links_of m) None h ks None" and d: "distinct ks" "k \<notin> set ks"
    and k: "links_of m k = Some l"
  shows "seg (links_of (item_upd k (\<lambda>it. it\<lparr>li_next := h, li_prev := None\<rparr>)
      (ptr_upd h (\<lambda>it. it\<lparr>li_prev := Some k\<rparr>) m))) None (Some k) (k # ks) None"
proof -
  let ?m1 = "ptr_upd h (\<lambda>it. it\<lparr>li_prev := Some k\<rparr>) m"
  let ?m2 = "item_upd k (\<lambda>it. it\<lparr>li_next := h, li_prev := None\<rparr>) ?m1"
  have "seg (links_of ?m1) (Some k) h ks None \<and> (\<exists>l. links_of ?m1 k = Some l)"
  proof (cases ks)
    case Nil
    with s k show ?thesis by (simp add: ptr_upd_def)
  next
    case (Cons x xs)
    with s obtain b where b: "links_of m x = Some (None, b)" "h = Some x" by auto
    then have "links_of ?m1 = (links_of m)(x \<mapsto> (Some k, b))" by (simp add: links_ptr_upd_prev)
    with seg_change_first [OF s, of b "Some k"] Cons b d k show ?thesis by auto
  qed
  then obtain it where it: "gm_get ?m1 k = Some it" and s1: "seg (links_of ?m1) (Some k) h ks None"
    by (auto simp: links_of_def)
  then have "links_of ?m2 = (links_of ?m1)(k \<mapsto> (None, h))" by (simp add: links_item_upd)
  with s1 d show ?thesis by simp
qed

definition same_but_list :: "schedulerCache \<Rightarrow> schedulerCache \<Rightarrow> bool" where
  "same_but_list c c' \<longleftrightarrow> (\<exists>m h. c' = c\<lparr>sc_nodes := m, sc_headNode := h\<rparr>)"

lemma same_but_listI: "same_but_list c (c\<lparr>sc_nodes := m, sc_headNode := h\<rparr>)"
  unfolding same_but_list_def by blast

lemma same_but_list_refl [simp]: "same_but_list c c"
  unfolding same_but_list_def by (intro exI [of _ "sc_nodes c"] exI [of _ "sc_headNode c"]) simp

lemma same_but_list_trans: "same_but_list a b \<Longrightarrow> same_but_list b c \<Longrightarrow> same_but_list a c"
  unfolding same_but_list_def by fastforce

lemma same_but_list_fields:
  "same_but_list c c' \<Longrightarrow> sc_ttl c' = sc_ttl c \<and> sc_assumedPods c' = sc_assumedPods c \<and>
    sc_podStates c' = sc_podStates c \<and> sc_nodeTree c' = sc_nodeTree c \<and>
    sc_imageStates c' = sc_imageStates c \<and> sc_generation c' = sc_generation c"
  by (auto simp: same_but_list_def)

lemma moveNodeInfoToHead_ok:
  assumes "order_ok c ks \<and> k \<in> set ks \<or> order_but c k ks"
  shows "order_ok (moveNodeInfoToHead c k) (k # remove1 k ks) \<and>
    cinfo (moveNodeInfoToHead c k) = cinfo c \<and> same_but_list c (moveNodeInfoToHead c k)"
proof -
  let ?h = "sc_headNode c" and ?m = "sc_nodes c"
  let ?m1 = "unlink k ?m"
  let ?m3 = "item_upd k (\<lambda>it. it\<lparr>li_next := ?h, li_prev := None\<rparr>) (ptr_upd ?h (\<lambda>it. it\<lparr>li_prev := Some k\<rparr>) ?m1)"
  have inm: "k \<in> fst ` set ?m" using assms by (auto simp: order_ok_def order_but_def)
  then obtain it where it: "gm_get ?m k = Some it" by (metis gm_get_eq_None not_None_eq)
  show ?thesis
  proof (cases "?h = Some k")
    case True
    have "ks = k # remove1 k ks"
    proof -
      have "hd_opt ks = Some k" using assms True seg_hd by (auto simp: order_ok_def order_but_def)
      then show ?thesis by (cases ks) auto
    qed
    moreover have "order_ok c ks"
      using assms calculation by (metis list.set_intros(1) order_but_def)
    ultimately show ?thesis using True it
      by (auto simp: moveNodeInfoToHead_def)
  next
    case False
    have *: "seg (links_of ?m1) None ?h (remove1 k ks) None \<and> distinct ks \<and> gm_ok ?m \<and>
        insert k (set ks) = fst ` set ?m \<and> (\<exists>l. links_of ?m1 k = Some l)"
    proof (cases "k \<in> set ks")
      case True
      with assms have ok: "order_ok c ks" by (auto simp: order_but_def)
      from split_list [OF True] obtain xs ys where ks: "ks = xs @ k # ys" by blast
      have d: "distinct (xs @ k # ys)" and s: "seg (links_of ?m) None ?h (xs @ k # ys) None"
        using ok ks by (auto simp: order_ok_def)
      have "xs \<noteq> []" using s False by auto
      moreover have "remove1 k ks = xs @ ys" using d ks by (simp add: remove1_append)
      ultimately show ?thesis using unlink_seg [OF s d] ok True by (auto simp: order_ok_def)
    next
      case False
      with assms have ok: "order_but c k ks" by auto
      then have "?m1 = ?m" by (auto simp: order_but_def unlink_def links_some ptr_upd_def Let_def)
      with ok False show ?thesis by (auto simp: order_but_def remove1_idem)
    qed
    then obtain l where l: "links_of ?m1 k = Some l" by blast
    have "seg (links_of ?m3) None (Some k) (k # remove1 k ks) None"
      using * by (intro push_head_seg [OF _ _ _ l]) auto
    moreover have "moveNodeInfoToHead c k = c\<lparr>sc_nodes := ?m3, sc_headNode := Some k\<rparr>"
      using False it by (simp add: moveNodeInfoToHead_def Let_def)
    moreover have "infos_of ?m3 = infos_of ?m"
      by (simp add: infos_item_upd_same infos_ptr_upd_same)
    ultimately show ?thesis
      using * by (auto simp: order_ok_def same_but_list_def)
  qed
qed

lemma removeNodeInfoFromList_ok:
  assumes ok: "order_ok c ks" and k: "k \<in> set ks"
  shows "order_ok (removeNodeInfoFromList c k) (remove1 k ks) \<and>
    cinfo (removeNodeInfoFromList c k) = (cinfo c)(k := None) \<and> same_but_list c (removeNodeInfoFromList c k)"
proof -
  let ?h = "sc_headNode c" and ?m = "sc_nodes c"
  let ?m1 = "unlink k ?m"
  obtain xs ys where ks: "ks = xs @ k # ys" using k by (meson split_list)
  have d: "distinct (xs @ k # ys)" and s: "seg (links_of ?m) None ?h (xs @ k # ys) None"
    using ok ks by (auto simp: order_ok_def)
  obtain it where it: "gm_get ?m k = Some it"
    using ok k by (metis gm_get_eq_None not_None_eq order_ok_def)
  from unlink_seg [OF s d] obtain p where
    u: "seg (links_of ?m1) None (if xs = [] then hd_opt ys else ?h) (xs @ ys) None"
      "links_of ?m1 k = Some (p, hd_opt ys)" by blast
  then obtain it1 where it1: "gm_get ?m1 k = Some it1" "li_next it1 = hd_opt ys" by (auto simp: links_some)
  have hk: "?h = Some k \<longleftrightarrow> xs = []" using s d by (cases xs) auto
  have c': "removeNodeInfoFromList c k =
      c\<lparr>sc_nodes := gm_del ?m1 k, sc_headNode := (if xs = [] then hd_opt ys else ?h)\<rparr>"
    using it it1 hk by (simp add: removeNodeInfoFromList_def Let_def)
  have "seg (links_of (gm_del ?m1 k)) None (if xs = [] then hd_opt ys else ?h) (xs @ ys) None"
    using u(1) d by (subst seg_cong [of _ _ "links_of ?m1"]) (auto simp: links_of_def)
  moreover have "remove1 k ks = xs @ ys" using d ks by (simp add: remove1_append)
  moreover have "infos_of (gm_del ?m1 k) = (infos_of ?m)(k := None)"
    by (simp add: infos_del)
  ultimately show ?thesis
    using ok d ks same_but_listI unfolding c' by (simp add: order_ok_def) blast
qed

lemma set_info_ok:
  assumes "k \<in> fst ` set (sc_nodes c)"
  shows "cinfo (set_info c k i) = (cinfo c)(k \<mapsto> i) \<and> links_of (sc_nodes (set_info c k i)) = links_of (sc_nodes c) \<and>
    (gm_ok (sc_nodes c) \<longrightarrow> gm_ok (sc_nodes (set_info c k i))) \<and>
    fst ` set (sc_nodes (set_info c k i)) = fst ` set (sc_nodes c) \<and> same_but_list c (set_info c k i) \<and>
    sc_headNode (set_info c k i) = sc_headNode c"
proof -
  obtain it where it: "gm_get (sc_nodes c) k = Some it" using assms by (metis gm_get_eq_None not_None_eq)
  then have "links_of (item_upd k (\<lambda>it. it\<lparr>li_info := i\<rparr>) (sc_nodes c)) = links_of (sc_nodes c)"
    by (auto simp: links_item_upd links_of_def fun_eq_iff)
  moreover have "same_but_list c (set_info c k i)"
    unfolding same_but_list_def set_info_def
    by (intro exI [of _ "item_upd k (\<lambda>it. it\<lparr>li_info := i\<rparr>) (sc_nodes c)"] exI [of _ "sc_headNode c"]) simp
  ultimately show ?thesis using it by (simp add: set_info_def infos_item_upd)
qed

lemma order_set_info:
  "order_ok c ks \<Longrightarrow> k \<in> set ks \<Longrightarrow> order_ok (set_info c k i) ks"
  "order_but c k ks \<Longrightarrow> order_but (set_info c k i) k ks"
proof -
  assume ok: "order_ok c ks" and "k \<in> set ks"
  then have "k \<in> fst ` set (sc_nodes c)" by (auto simp: order_ok_def)
  from set_info_ok [OF this, of i] ok show "order_ok (set_info c k i) ks" by (simp add: order_ok_def)
next
  assume ok: "order_but c k ks"
  then have "k \<in> fst ` set (sc_nodes c)" by (auto simp: order_but_def)
  from set_info_ok [OF this, of i] ok show "order_but (set_info c k i) k ks" by (simp add: order_but_def)
qed

lemma order_gen [simp]: "order_ok (c\<lparr>sc_generation := g\<rparr>) ks = order_ok c ks"
    "order_but (c\<lparr>sc_generation := g\<rparr>) k ks = order_but c k ks"
  by (simp_all add: order_ok_def order_but_def)

subsection \<open>What a step does to the nodes\<close>

definition uids :: "NodeInfo \<Rightarrow> string list" where
  "uids i = map (pod_UID \<circ> pi_Pod) (ni_Pods i)"

definition gen_of :: "schedulerCache \<Rightarrow> string \<Rightarrow> int" where
  "gen_of c k = ni_Generation (the (cinfo c k))"

text \<open>Node \<open>k\<close> gets the information \<open>i\<close>, with a new generation, and goes to the head of the list.\<close>

definition touched :: "schedulerCache \<Rightarrow> string list \<Rightarrow> string \<Rightarrow> NodeInfo \<Rightarrow> schedulerCache \<Rightarrow> bool" where
  "touched c ks k i c' \<longleftrightarrow> order_ok c' (k # remove1 k ks) \<and> cinfo c' = (cinfo c)(k \<mapsto> i) \<and>
     ni_Generation i = sc_generation c' \<and> sc_generation c < sc_generation c' \<and>
     sc_podStates c' = sc_podStates c \<and> sc_assumedPods c' = sc_assumedPods c \<and> sc_ttl c' = sc_ttl c"

text \<open>Node \<open>k\<close> is taken out.\<close>

definition dropped :: "schedulerCache \<Rightarrow> string list \<Rightarrow> string \<Rightarrow> schedulerCache \<Rightarrow> bool" where
  "dropped c ks k c' \<longleftrightarrow> order_ok c' (remove1 k ks) \<and> cinfo c' = (cinfo c)(k := None) \<and>
     sc_generation c < sc_generation c' \<and>
     sc_podStates c' = sc_podStates c \<and> sc_assumedPods c' = sc_assumedPods c \<and> sc_ttl c' = sc_ttl c"

lemma order_dom: "order_ok c ks \<Longrightarrow> k \<in> set ks \<longleftrightarrow> cinfo c k \<noteq> None"
  unfolding order_ok_def cinfo_dom by simp

lemma ensure_node_ok:
  assumes ok: "order_ok c ks"
  shows "\<exists>c1 i. ensure_node asSel c k = (c1, i) \<and> cinfo c1 = (cinfo c)(k \<mapsto> i) \<and>
    (if k \<in> set ks then c1 = c \<and> order_ok c1 ks else order_but c1 k ks) \<and>
    (case cinfo c k of Some i0 \<Rightarrow> i = i0 | None \<Rightarrow> i = fst (NewNodeInfo asSel (sc_generation c) [])) \<and>
    sc_generation c \<le> sc_generation c1 \<and> sc_podStates c1 = sc_podStates c \<and>
    sc_assumedPods c1 = sc_assumedPods c \<and> sc_ttl c1 = sc_ttl c \<and> sc_nodeTree c1 = sc_nodeTree c \<and>
    sc_imageStates c1 = sc_imageStates c"
proof (cases "gm_get (sc_nodes c) k")
  case (Some it)
  then have "k \<in> set ks" "cinfo c k = Some (li_info it)"
    using order_dom [OF ok, of k] by (auto simp: infos_of_def)
  with Some ok show ?thesis by (auto simp: ensure_node_def fun_upd_idem)
next
  case None
  then have nk: "k \<notin> set ks" "k \<notin> fst ` set (sc_nodes c)" "cinfo c k = None"
    using order_dom [OF ok, of k] by (auto simp: infos_of_def gm_get_eq_None)
  obtain ni g where ni: "NewNodeInfo asSel (sc_generation c) [] = (ni, g)" by force
  then have g: "g = sc_generation c + 1" by (simp add: NewNodeInfo_def nextGeneration_def)
  let ?c1 = "c\<lparr>sc_nodes := gm_put (sc_nodes c) k (newNodeInfoListItem ni), sc_generation := g\<rparr>"
  have L: "links_of (sc_nodes ?c1) = (links_of (sc_nodes c))(k \<mapsto> (None, None))"
    by (auto simp: links_of_def newNodeInfoListItem_def fun_eq_iff)
  have "order_but ?c1 k ks"
    unfolding order_but_def L using ok nk by (auto simp: order_ok_def)
  moreover have "cinfo ?c1 = (cinfo c)(k \<mapsto> ni)"
    by (auto simp: infos_of_def newNodeInfoListItem_def fun_eq_iff)
  moreover have "ensure_node asSel c k = (?c1, ni)" using None ni by (simp add: ensure_node_def)
  ultimately show ?thesis using nk ni g by auto
qed

text \<open>Storing new information for \<open>k\<close> and moving it to the head, in either order.\<close>

lemma store_and_move:
  assumes o: "order_ok c1 ks \<and> k \<in> set ks \<or> order_but c1 k ks"
  shows "order_ok (moveNodeInfoToHead (set_info c1 k i) k) (k # remove1 k ks) \<and>
    cinfo (moveNodeInfoToHead (set_info c1 k i) k) = (cinfo c1)(k \<mapsto> i) \<and>
    same_but_list c1 (moveNodeInfoToHead (set_info c1 k i) k)"
proof -
  have k: "k \<in> fst ` set (sc_nodes c1)" using o by (auto simp: order_ok_def order_but_def)
  have "order_ok (set_info c1 k i) ks \<and> k \<in> set ks \<or> order_but (set_info c1 k i) k ks"
    using o order_set_info by blast
  from moveNodeInfoToHead_ok [OF this] set_info_ok [OF k, of i] show ?thesis
    using same_but_list_trans by metis
qed

lemma cache_addPod_touched:
  assumes ok: "order_ok c ks"
  shows "\<exists>i0 g. (case cinfo c (pod_NodeName pod) of Some i \<Rightarrow> i0 = i
      | None \<Rightarrow> i0 = fst (NewNodeInfo asSel (sc_generation c) [])) \<and>
    touched c ks (pod_NodeName pod) (fst (NodeInfo_AddPod asSel g i0 pod)) (cache_addPod asSel c pod) \<and>
    sc_nodeTree (cache_addPod asSel c pod) = sc_nodeTree c"
proof -
  let ?k = "pod_NodeName pod"
  obtain c1 i where e: "ensure_node asSel c ?k = (c1, i)" "cinfo c1 = (cinfo c)(?k \<mapsto> i)"
      "if ?k \<in> set ks then c1 = c \<and> order_ok c1 ks else order_but c1 ?k ks"
      "case cinfo c ?k of Some i0 \<Rightarrow> i = i0 | None \<Rightarrow> i = fst (NewNodeInfo asSel (sc_generation c) [])"
      "sc_generation c \<le> sc_generation c1" "sc_podStates c1 = sc_podStates c"
      "sc_assumedPods c1 = sc_assumedPods c" "sc_ttl c1 = sc_ttl c" "sc_nodeTree c1 = sc_nodeTree c"
    using ensure_node_ok [OF ok, of asSel ?k] by blast
  let ?g = "sc_generation c1"
  let ?i = "fst (NodeInfo_AddPod asSel ?g i pod)"
  let ?c2 = "c1\<lparr>sc_generation := ?g + 1\<rparr>"
  have c': "cache_addPod asSel c pod = moveNodeInfoToHead (set_info ?c2 ?k ?i) ?k"
    using AddPod_Pods(9) [of asSel ?g i pod] e(1)
    by (cases "NodeInfo_AddPod asSel ?g i pod") (simp add: cache_addPod_def)
  have o: "order_ok ?c2 ks \<and> ?k \<in> set ks \<or> order_but ?c2 ?k ks"
    using e(3) by (auto split: if_splits)
  from store_and_move [OF o, of ?i] have "order_ok (cache_addPod asSel c pod) (?k # remove1 ?k ks)"
      "cinfo (cache_addPod asSel c pod) = (cinfo c)(?k \<mapsto> ?i)"
      and s: "same_but_list ?c2 (cache_addPod asSel c pod)"
    unfolding c' by (auto simp: e(2))
  with same_but_list_fields [OF s] e have "touched c ks ?k ?i (cache_addPod asSel c pod) \<and>
      sc_nodeTree (cache_addPod asSel c pod) = sc_nodeTree c"
    by (auto simp: touched_def)
  with e(4) show ?thesis by blast
qed

lemma RemovePod_uid:
  assumes "pod_UID pod \<in> set (uids n)" "pod_UID pod \<noteq> []" "distinct (uids n)"
  shows "\<exists>n'. NodeInfo_RemovePod gen n pod = Some (n', gen + 1, None) \<and>
    set (uids n') = set (uids n) - {pod_UID pod} \<and> distinct (uids n') \<and>
    ni_node n' = ni_node n \<and> ni_Generation n' = gen + 1"
proof -
  obtain p where "p \<in> set (ni_Pods n)" "pod_UID (pi_Pod p) = pod_UID pod"
    using assms(1) by (force simp: uids_def)
  then obtain i where i: "find_index (same_key (pod_UID pod)) (ni_Pods n) = Some i"
    using find_index_ex [of "ni_Pods n" "same_key (pod_UID pod)"] same_key_iff [OF assms(2)] by blast
  note R = swap_remove_unique [OF i assms(2)]
  obtain n' where n': "NodeInfo_RemovePod gen n pod = Some (n', gen + 1, None)"
      "ni_Pods n' = swap_remove i (ni_Pods n)" "ni_node n' = ni_node n" "ni_Generation n' = gen + 1"
    using RemovePod_found [OF assms(2) i] by blast
  have "mset (uids n') = mset (uids n) - {#pod_UID pod#}"
    using R same_key_iff [OF assms(2), of "ni_Pods n ! i"]
    by (simp add: uids_def n'(2) image_mset_Diff)
  then have ms: "mset (uids n') = mset (remove1 (pod_UID pod) (uids n))" by simp
  have "distinct (uids n')" using assms(3) mset_eq_imp_distinct_iff [OF ms] by (simp add: distinct_remove1)
  moreover have "set (uids n') = set (uids n) - {pod_UID pod}"
    using assms(3) mset_eq_setD [OF ms] by simp
  ultimately show ?thesis using n' by blast
qed

lemma cache_removePod_ok:
  assumes ok: "order_ok c ks" and i: "cinfo c (pod_NodeName pod) = Some i"
    and u: "pod_UID pod \<in> set (uids i)" "pod_UID pod \<noteq> []" "distinct (uids i)"
  shows "\<exists>i' c'. cache_removePod c pod = Some (c', None) \<and>
    NodeInfo_RemovePod (sc_generation c) i pod = Some (i', sc_generation c + 1, None) \<and>
    (if ni_Pods i' = [] \<and> ni_node i' = None then dropped c ks (pod_NodeName pod) c'
     else touched c ks (pod_NodeName pod) i' c') \<and> sc_nodeTree c' = sc_nodeTree c"
proof -
  let ?k = "pod_NodeName pod"
  obtain it where it: "gm_get (sc_nodes c) ?k = Some it" "li_info it = i" using i by (auto simp: infos_of_def)
  have k: "?k \<in> set ks" using i order_dom [OF ok] by auto
  obtain i' where i': "NodeInfo_RemovePod (sc_generation c) i pod = Some (i', sc_generation c + 1, None)"
      "ni_Generation i' = sc_generation c + 1"
    using RemovePod_uid [OF u] by blast
  let ?c1 = "c\<lparr>sc_generation := sc_generation c + 1\<rparr>"
  let ?c2 = "set_info ?c1 ?k i'"
  have o1: "order_ok ?c1 ks" using ok by simp
  have km: "?k \<in> fst ` set (sc_nodes ?c1)" using ok k by (simp add: order_ok_def)
  note S = set_info_ok [OF km, of i']
  show ?thesis
  proof (cases "ni_Pods i' = [] \<and> ni_node i' = None")
    case True
    let ?c' = "removeNodeInfoFromList ?c2 ?k"
    have eq: "cache_removePod c pod = Some (?c', None)"
      using it i'(1) True by (simp add: cache_removePod_def Let_def)
    note R = removeNodeInfoFromList_ok [OF order_set_info(1) [OF o1 k, of i'] k]
    have "same_but_list ?c1 ?c'" using R S same_but_list_trans by blast
    from same_but_list_fields [OF this] R S have "dropped c ks ?k ?c' \<and> sc_nodeTree ?c' = sc_nodeTree c"
      by (auto simp: dropped_def fun_eq_iff)
    with eq i'(1) True show ?thesis by auto
  next
    case False
    let ?c' = "moveNodeInfoToHead ?c2 ?k"
    have eq: "cache_removePod c pod = Some (?c', None)"
      using it i'(1) False by (auto simp: cache_removePod_def Let_def)
    note R = store_and_move [of ?c1 ks ?k i']
    have "touched c ks ?k i' ?c' \<and> sc_nodeTree ?c' = sc_nodeTree c"
      using R o1 k same_but_list_fields [of ?c1 ?c'] i'(2) by (auto simp: touched_def)
    with eq i'(1) False show ?thesis by auto
  qed
qed

text \<open>The information a node has after \<open>SetNode\<close>.\<close>

definition with_node :: "NodeInfo \<Rightarrow> (string, ImageStateSummary) gomap \<Rightarrow> int \<Rightarrow> Node \<Rightarrow> NodeInfo" where
  "with_node i sums g node = fst (SetNode g (i\<lparr>ni_ImageStates := sums\<rparr>) node)"

lemma with_node_simps [simp]:
  "ni_node (with_node i sums g node) = Some node" "ni_Pods (with_node i sums g node) = ni_Pods i"
  "ni_Generation (with_node i sums g node) = g + 1" "uids (with_node i sums g node) = uids i"
  by (simp_all add: with_node_def SetNode_def nextGeneration_def uids_def)

lemma with_node_clonable: "ni_clonable i \<Longrightarrow> ni_clonable (with_node i sums g node)"
  by (simp add: with_node_def SetNode_def ni_clonable_def)

lemma removeNodeImageStates_eq: "\<exists>st. removeNodeImageStates c n = c\<lparr>sc_imageStates := st\<rparr>"
  by (cases n) (auto simp: removeNodeImageStates_def intro: exI [of _ "sc_imageStates c"])

lemma order_image [simp]: "order_ok (c\<lparr>sc_imageStates := st\<rparr>) ks = order_ok c ks"
    "order_but (c\<lparr>sc_imageStates := st\<rparr>) k ks = order_but c k ks"
    "order_ok (c\<lparr>sc_nodeTree := t\<rparr>) ks = order_ok c ks"
    "order_but (c\<lparr>sc_nodeTree := t\<rparr>) k ks = order_but c k ks"
  by (simp_all add: order_ok_def order_but_def)

lemma install_node_ok:
  assumes "order_ok c ks" "node_Name node \<in> set ks"
  shows "\<exists>sums. order_ok (install_node c node i) ks \<and>
    cinfo (install_node c node i) = (cinfo c)(node_Name node \<mapsto> with_node i sums (sc_generation c) node) \<and>
    sc_generation (install_node c node i) = sc_generation c + 1 \<and>
    sc_podStates (install_node c node i) = sc_podStates c \<and>
    sc_assumedPods (install_node c node i) = sc_assumedPods c \<and>
    sc_ttl (install_node c node i) = sc_ttl c \<and> sc_nodeTree (install_node c node i) = sc_nodeTree c"
proof -
  obtain states sums where f: "fold (\<lambda>image. fold (addImage node (img_SizeBytes image)) (img_Names image))
       (node_Images node) (sc_imageStates c, []) = (states, sums)" by force
  let ?c1 = "c\<lparr>sc_imageStates := states, sc_generation := sc_generation c + 1\<rparr>"
  let ?i = "with_node i sums (sc_generation c) node"
  have eq: "install_node c node i = set_info ?c1 (node_Name node) ?i"
    by (simp add: install_node_def addNodeImageStates_def f with_node_def SetNode_def nextGeneration_def)
  have o: "order_ok ?c1 ks" using assms(1) by (simp add: order_ok_def)
  have k: "node_Name node \<in> fst ` set (sc_nodes ?c1)" using assms by (simp add: order_ok_def)
  note S = set_info_ok [OF k, of ?i]
  then have "same_but_list ?c1 (install_node c node i)" by (simp add: eq)
  from same_but_list_fields [OF this] S order_set_info(1) [OF o assms(2), of ?i] show ?thesis
    by (auto simp: eq)
qed

lemma install_touched:
  assumes e: "ensure_node asSel c (node_Name node) = (c1, i)" and ok: "order_ok c ks"
    and c2: "c2 = c1\<lparr>sc_imageStates := st, sc_nodeTree := t\<rparr>"
  shows "\<exists>i0 sums g. (case cinfo c (node_Name node) of Some j \<Rightarrow> i0 = j
      | None \<Rightarrow> i0 = fst (NewNodeInfo asSel (sc_generation c) [])) \<and>
    touched c ks (node_Name node) (with_node i0 sums g node)
      (install_node ((moveNodeInfoToHead c2 (node_Name node))\<lparr>sc_nodeTree := t'\<rparr>) node i) \<and>
    sc_nodeTree (install_node ((moveNodeInfoToHead c2 (node_Name node))\<lparr>sc_nodeTree := t'\<rparr>) node i) = t'"
proof -
  let ?k = "node_Name node" and ?c3 = "moveNodeInfoToHead c2 (node_Name node)"
  from ensure_node_ok [OF ok, of asSel ?k] e have E: "cinfo c1 = (cinfo c)(?k \<mapsto> i)"
      "if ?k \<in> set ks then c1 = c \<and> order_ok c1 ks else order_but c1 ?k ks"
      "case cinfo c ?k of Some i0 \<Rightarrow> i = i0 | None \<Rightarrow> i = fst (NewNodeInfo asSel (sc_generation c) [])"
      "sc_generation c \<le> sc_generation c1" "sc_podStates c1 = sc_podStates c"
      "sc_assumedPods c1 = sc_assumedPods c" "sc_ttl c1 = sc_ttl c"
    by auto
  have "order_ok c2 ks \<and> ?k \<in> set ks \<or> order_but c2 ?k ks"
    using E(2) unfolding c2 by (auto split: if_splits simp: order_ok_def order_but_def)
  note M = moveNodeInfoToHead_ok [OF this]
  let ?c4 = "?c3\<lparr>sc_nodeTree := t'\<rparr>"
  have "order_ok ?c4 (?k # remove1 ?k ks)" "?k \<in> set (?k # remove1 ?k ks)" using M by simp_all
  from install_node_ok [OF this, of i] obtain sums where
    I: "order_ok (install_node ?c4 node i) (?k # remove1 ?k ks)"
      "cinfo (install_node ?c4 node i) = (cinfo ?c4)(?k \<mapsto> with_node i sums (sc_generation ?c4) node)"
      "sc_generation (install_node ?c4 node i) = sc_generation ?c4 + 1"
      "sc_podStates (install_node ?c4 node i) = sc_podStates ?c4"
      "sc_assumedPods (install_node ?c4 node i) = sc_assumedPods ?c4"
      "sc_ttl (install_node ?c4 node i) = sc_ttl ?c4" "sc_nodeTree (install_node ?c4 node i) = sc_nodeTree ?c4"
    by blast
  have F: "sc_generation ?c3 = sc_generation c1" "sc_podStates ?c3 = sc_podStates c1"
      "sc_assumedPods ?c3 = sc_assumedPods c1" "sc_ttl ?c3 = sc_ttl c1" "cinfo ?c3 = cinfo c1"
    using M same_but_list_fields [of c2 ?c3] by (auto simp: c2)
  have "touched c ks ?k (with_node i sums (sc_generation ?c4) node) (install_node ?c4 node i)"
    using I E F by (simp add: touched_def)
  with E(3) I(7) show ?thesis by auto
qed

lemma AddNode_touched:
  assumes ok: "order_ok c ks"
  shows "\<exists>i0 sums g c'. AddNode asSel c node = (c', None) \<and>
    (case cinfo c (node_Name node) of Some j \<Rightarrow> i0 = j
      | None \<Rightarrow> i0 = fst (NewNodeInfo asSel (sc_generation c) [])) \<and>
    touched c ks (node_Name node) (with_node i0 sums g node) c' \<and>
    sc_nodeTree c' = nodeTree_addNode (sc_nodeTree c) node"
proof -
  obtain c1 i where e: "ensure_node asSel c (node_Name node) = (c1, i)" by force
  have t1: "sc_nodeTree c1 = sc_nodeTree c" using ensure_node_ok [OF ok, of asSel "node_Name node"] e by auto
  obtain st where st: "(if gm_get (sc_nodes c) (node_Name node) = None then c1
      else removeNodeImageStates c1 (ni_node i)) = c1\<lparr>sc_imageStates := st, sc_nodeTree := sc_nodeTree c1\<rparr>"
  proof (cases "gm_get (sc_nodes c) (node_Name node) = None")
    case True
    then show ?thesis by (intro that [of "sc_imageStates c1"]) simp
  next
    case False
    then show ?thesis using removeNodeImageStates_eq [of c1 "ni_node i"] that by auto
  qed
  let ?c2 = "c1\<lparr>sc_imageStates := st, sc_nodeTree := sc_nodeTree c1\<rparr>"
  let ?c3 = "moveNodeInfoToHead ?c2 (node_Name node)"
  have "sc_nodeTree ?c3 = sc_nodeTree c"
    by (simp add: moveNodeInfoToHead_def Let_def t1 split: option.splits)
  then have "AddNode asSel c node =
      (install_node (?c3\<lparr>sc_nodeTree := nodeTree_addNode (sc_nodeTree c) node\<rparr>) node i, None)"
    by (simp add: AddNode_def e Let_def st)
  with install_touched [OF e ok refl, where st = st and t = "sc_nodeTree c1"
      and t' = "nodeTree_addNode (sc_nodeTree c) node"]
  show ?thesis by blast
qed

lemma UpdateNode_touched:
  assumes ok: "order_ok c ks"
  shows "\<exists>i0 sums g c'. UpdateNode asSel c old node = Some (c', None) \<and>
    (case cinfo c (node_Name node) of Some j \<Rightarrow> i0 = j
      | None \<Rightarrow> i0 = fst (NewNodeInfo asSel (sc_generation c) [])) \<and>
    touched c ks (node_Name node) (with_node i0 sums g node) c' \<and>
    sc_nodeTree c' = (if cinfo c (node_Name node) = None then nodeTree_addNode (sc_nodeTree c) node
      else sc_nodeTree c)"
proof -
  obtain c1 i where e: "ensure_node asSel c (node_Name node) = (c1, i)" by force
  have t1: "sc_nodeTree c1 = sc_nodeTree c" using ensure_node_ok [OF ok, of asSel "node_Name node"] e by auto
  define t where "t = (if cinfo c (node_Name node) = None then nodeTree_addNode (sc_nodeTree c) node else sc_nodeTree c)"
  obtain st where st: "(if gm_get (sc_nodes c) (node_Name node) = None
      then c1\<lparr>sc_nodeTree := nodeTree_addNode (sc_nodeTree c1) node\<rparr>
      else removeNodeImageStates c1 (ni_node i)) = c1\<lparr>sc_imageStates := st, sc_nodeTree := t\<rparr>"
  proof (cases "gm_get (sc_nodes c) (node_Name node) = None")
    case True
    then show ?thesis by (intro that [of "sc_imageStates c1"]) (simp add: infos_of_def t1 t_def)
  next
    case False
    obtain st where "removeNodeImageStates c1 (ni_node i) = c1\<lparr>sc_imageStates := st\<rparr>"
      using removeNodeImageStates_eq [of c1 "ni_node i"] by blast
    moreover obtain y where "gm_get (sc_nodes c) (node_Name node) = Some y" using False by blast
    ultimately show ?thesis by (intro that [of st]) (simp add: infos_of_def t1 [symmetric] t_def)
  qed
  let ?c2 = "c1\<lparr>sc_imageStates := st, sc_nodeTree := t\<rparr>"
  let ?c3 = "moveNodeInfoToHead ?c2 (node_Name node)"
  have t3: "sc_nodeTree ?c3 = t" by (simp add: moveNodeInfoToHead_def Let_def split: option.splits)
  have "?c3\<lparr>sc_nodeTree := sc_nodeTree ?c3\<rparr> = ?c3" by simp
  then have c3: "?c3\<lparr>sc_nodeTree := t\<rparr> = ?c3" by (simp only: t3)
  have "UpdateNode asSel c old node = Some (install_node ?c3 node i, None)"
    by (simp add: UpdateNode_def e Let_def st updateNode_same)
  then have "UpdateNode asSel c old node = Some (install_node (?c3\<lparr>sc_nodeTree := t\<rparr>) node i, None)"
    unfolding c3 .
  with install_touched [OF e ok refl, where st = st and t = t and t' = t] show ?thesis
    unfolding t_def by blast
qed

lemma RemoveNode_ok:
  assumes ok: "order_ok c ks" and i: "cinfo c (node_Name node) = Some i"
  shows "\<exists>c' t e. RemoveNode c node = (c', e) \<and> nodeTree_removeNode (sc_nodeTree c) node = (t, e) \<and>
    (if ni_Pods i = [] then dropped c ks (node_Name node) c'
     else touched c ks (node_Name node) (fst (NodeInfo_RemoveNode (sc_generation c) i)) c') \<and>
    sc_nodeTree c' = t"
proof -
  let ?k = "node_Name node" and ?g = "sc_generation c + 1"
  obtain it where it: "gm_get (sc_nodes c) ?k = Some it" "li_info it = i" using i by (auto simp: infos_of_def)
  have k: "?k \<in> set ks" using i order_dom [OF ok] by auto
  obtain ri where ri: "NodeInfo_RemoveNode (sc_generation c) i = (ri, ?g)" "ni_Pods ri = ni_Pods i"
      "ni_Generation ri = ?g"
    by (simp add: NodeInfo_RemoveNode_def nextGeneration_def)
  let ?c1 = "c\<lparr>sc_generation := ?g\<rparr>"
  let ?c2 = "set_info ?c1 ?k ri"
  have o1: "order_ok ?c1 ks" using ok by simp
  have km: "?k \<in> fst ` set (sc_nodes ?c1)" using ok k by (simp add: order_ok_def)
  note S = set_info_ok [OF km, of ri]
  define c3 where "c3 = (if ni_Pods i = [] then removeNodeInfoFromList ?c2 ?k else moveNodeInfoToHead ?c2 ?k)"
  have c3: "(if ni_Pods i = [] then dropped c ks ?k c3 else touched c ks ?k ri c3) \<and>
      sc_nodeTree c3 = sc_nodeTree c"
  proof (cases "ni_Pods i = []")
    case True
    note R = removeNodeInfoFromList_ok [OF order_set_info(1) [OF o1 k, of ri] k]
    have "same_but_list ?c1 (removeNodeInfoFromList ?c2 ?k)" using R S same_but_list_trans by blast
    from same_but_list_fields [OF this] R S True show ?thesis by (auto simp: dropped_def fun_eq_iff c3_def)
  next
    case False
    note R = store_and_move [of ?c1 ks ?k ri]
    show ?thesis
      using R o1 k same_but_list_fields [of ?c1 "moveNodeInfoToHead ?c2 ?k"] ri(3) False
      by (auto simp: touched_def c3_def)
  qed
  obtain t e where te: "nodeTree_removeNode (sc_nodeTree c) node = (t, e)" by force
  let ?c4 = "c3\<lparr>sc_nodeTree := t\<rparr>"
  have "RemoveNode c node = (case e of Some err \<Rightarrow> (?c4, Some err)
      | None \<Rightarrow> (removeNodeImageStates ?c4 (Some node), None))"
    using it ri(1,2) c3 te by (simp add: RemoveNode_def Let_def c3_def [symmetric])
  moreover obtain st where "removeNodeImageStates ?c4 (Some node) = ?c4\<lparr>sc_imageStates := st\<rparr>"
    using removeNodeImageStates_eq by blast
  ultimately obtain c' where c': "RemoveNode c node = (c', e)" "c' = ?c4 \<or> c' = ?c4\<lparr>sc_imageStates := st\<rparr>"
    by (cases e) auto
  have "(if ni_Pods i = [] then dropped c ks ?k c' else touched c ks ?k ri c') \<and> sc_nodeTree c' = t"
    using c3 c'(2) by (auto simp: dropped_def touched_def split: if_splits)
  with c'(1) te ri(1) show ?thesis by auto
qed

text \<open>What a step leaves unchanged: information whose generation is not new.\<close>

definition evolves :: "schedulerCache \<Rightarrow> schedulerCache \<Rightarrow> bool" where
  "evolves c c' \<longleftrightarrow> sc_generation c \<le> sc_generation c' \<and>
     (\<forall>k i. cinfo c' k = Some i \<longrightarrow> cinfo c k = Some i \<or> sc_generation c < ni_Generation i)"

lemma evolves_refl [simp]: "evolves c c"
  by (simp add: evolves_def)

lemma evolves_trans: "evolves a b \<Longrightarrow> evolves b c \<Longrightarrow> evolves a c"
  unfolding evolves_def by (meson le_less_trans order_trans)

lemma touched_evolves: "touched c ks k i c' \<Longrightarrow> evolves c c'"
  by (auto simp: touched_def evolves_def)

lemma dropped_evolves: "dropped c ks k c' \<Longrightarrow> evolves c c'"
  by (auto simp: dropped_def evolves_def)

lemma evolves_pods [simp]:
  "evolves c (c'\<lparr>sc_podStates := X, sc_assumedPods := Y\<rparr>) = evolves c c'"
  "evolves (c\<lparr>sc_podStates := X, sc_assumedPods := Y\<rparr>) c' = evolves c c'"
  "evolves c (c'\<lparr>sc_podStates := X\<rparr>) = evolves c c'"
  by (simp_all add: evolves_def)

subsection \<open>The invariant\<close>

definition nodes_inv :: "schedulerCache \<Rightarrow> string list \<Rightarrow> bool" where
  "nodes_inv c ks \<longleftrightarrow> order_ok c ks \<and> sorted_wrt (\<lambda>a b. gen_of c b < gen_of c a) ks \<and>
     (\<forall>k i. cinfo c k = Some i \<longrightarrow> ni_Generation i \<le> sc_generation c \<and> ni_clonable i \<and>
       (\<forall>nd. ni_node i = Some nd \<longrightarrow> node_Name nd = k)) \<and>
     nt_wf (sc_nodeTree c) \<and>
     (\<forall>k. k \<in> set (tree_names (sc_nodeTree c)) \<longleftrightarrow> (\<exists>i. cinfo c k = Some i \<and> ni_node i \<noteq> None))"

text \<open>The UIDs of the pods in the information of node \<open>n\<close>.\<close>

definition uids_at :: "schedulerCache \<Rightarrow> string \<Rightarrow> string set" where
  "uids_at c n = (case cinfo c n of None \<Rightarrow> {} | Some i \<Rightarrow> set (uids i))"

text \<open>Pods are stored under their UID, and are in the information of their node and nowhere else.\<close>

definition pods_keyed :: "schedulerCache \<Rightarrow> bool" where
  "pods_keyed c \<longleftrightarrow> (\<forall>k ps. gm_get (sc_podStates c) k = Some ps \<longrightarrow> k \<noteq> [] \<and> pod_UID (ps_pod ps) = k)"

definition pods_located :: "schedulerCache \<Rightarrow> bool" where
  "pods_located c \<longleftrightarrow> (\<forall>u n. u \<in> uids_at c n \<longleftrightarrow>
     (\<exists>ps. gm_get (sc_podStates c) u = Some ps \<and> pod_NodeName (ps_pod ps) = n))"

definition infos_kept :: "schedulerCache \<Rightarrow> bool" where
  "infos_kept c \<longleftrightarrow> (\<forall>n i. cinfo c n = Some i \<longrightarrow> distinct (uids i) \<and> (ni_node i \<noteq> None \<or> ni_Pods i \<noteq> []))"

definition assumed_ok :: "schedulerCache \<Rightarrow> bool" where
  "assumed_ok c \<longleftrightarrow> (\<forall>k b. gm_get (sc_assumedPods c) k = Some b \<longrightarrow> b \<and>
     (\<exists>ps. gm_get (sc_podStates c) k = Some ps \<and> (ps_bindingFinished ps \<longrightarrow> ps_deadline ps \<noteq> None)))"

definition pods_inv :: "schedulerCache \<Rightarrow> bool" where
  "pods_inv c \<longleftrightarrow> gm_ok (sc_podStates c) \<and> gm_ok (sc_assumedPods c) \<and>
     pods_keyed c \<and> pods_located c \<and> infos_kept c \<and> assumed_ok c"

definition cache_inv :: "schedulerCache \<Rightarrow> bool" where
  "cache_inv c \<longleftrightarrow> (\<exists>ks. nodes_inv c ks) \<and> pods_inv c"

lemma touched_nodes_inv:
  assumes inv: "nodes_inv c ks" and t: "touched c ks k i c'" and i: "ni_clonable i"
      "\<forall>nd. ni_node i = Some nd \<longrightarrow> node_Name nd = k"
    and tree: "nt_wf (sc_nodeTree c')" "set (tree_names (sc_nodeTree c')) =
      (if ni_node i = None then set (tree_names (sc_nodeTree c)) - {k}
       else insert k (set (tree_names (sc_nodeTree c))))"
  shows "nodes_inv c' (k # remove1 k ks)"
proof -
  have o: "order_ok c ks" using inv by (simp add: nodes_inv_def)
  have d: "distinct ks" "\<And>j. j \<in> set ks \<Longrightarrow> cinfo c j \<noteq> None"
    using o order_dom [OF o] by (simp_all add: order_ok_def)
  have g: "gen_of c' k = sc_generation c'" "\<And>j. j \<noteq> k \<Longrightarrow> gen_of c' j = gen_of c j"
    using t by (auto simp: touched_def gen_of_def)
  have old: "gen_of c j < sc_generation c'" if "j \<in> set ks" for j
    using d(2) [OF that] inv t by (fastforce simp: nodes_inv_def touched_def gen_of_def)
  have "sorted_wrt (\<lambda>a b. gen_of c b < gen_of c a) (remove1 k ks)"
    using inv sorted_wrt_remove1 by (auto simp: nodes_inv_def)
  then have "sorted_wrt (\<lambda>a b. gen_of c' b < gen_of c' a) (remove1 k ks)"
    using d(1) by (rule_tac sorted_wrt_mono_rel [rotated]) (auto simp: g)
  then have "sorted_wrt (\<lambda>a b. gen_of c' b < gen_of c' a) (k # remove1 k ks)"
    using d(1) old by (auto simp: g)
  moreover have "ni_Generation j \<le> sc_generation c'" if "cinfo c n = Some j" for n j
    using inv t that by (fastforce simp: nodes_inv_def touched_def)
  ultimately show ?thesis
    using inv t i tree by (auto simp: nodes_inv_def touched_def)
qed

lemma dropped_nodes_inv:
  assumes inv: "nodes_inv c ks" and t: "dropped c ks k c'"
    and tree: "nt_wf (sc_nodeTree c')" "set (tree_names (sc_nodeTree c')) = set (tree_names (sc_nodeTree c)) - {k}"
  shows "nodes_inv c' (remove1 k ks)"
proof -
  have d: "distinct ks" using inv by (auto simp: nodes_inv_def order_ok_def)
  have g: "\<And>j. j \<noteq> k \<Longrightarrow> gen_of c' j = gen_of c j" using t by (auto simp: dropped_def gen_of_def)
  have "sorted_wrt (\<lambda>a b. gen_of c b < gen_of c a) (remove1 k ks)"
    using inv sorted_wrt_remove1 by (auto simp: nodes_inv_def)
  then have "sorted_wrt (\<lambda>a b. gen_of c' b < gen_of c' a) (remove1 k ks)"
    using d by (rule_tac sorted_wrt_mono_rel [rotated]) (auto simp: g)
  moreover have "ni_Generation j \<le> sc_generation c'" if "cinfo c n = Some j" for n j
    using inv t that by (fastforce simp: nodes_inv_def dropped_def)
  ultimately show ?thesis
    using inv t tree by (auto simp: nodes_inv_def dropped_def)
qed

lemma nodes_inv_tree: "nodes_inv c ks \<Longrightarrow> cinfo c k = Some i \<Longrightarrow>
    k \<in> set (tree_names (sc_nodeTree c)) \<longleftrightarrow> ni_node i \<noteq> None"
  unfolding nodes_inv_def by (metis option.inject)

lemma New_info: "cinfo c k = None \<Longrightarrow> i = fst (NewNodeInfo asSel g []) \<Longrightarrow>
    ni_node i = None \<and> uids i = [] \<and> ni_Pods i = [] \<and> ni_clonable i"
  using NewNodeInfo_wf [of asSel g] by (simp add: ni_wf_def) (simp add: NewNodeInfo_def uids_def)

subsection \<open>The two ways pods come and go\<close>

lemma uids_AddPod [simp]: "uids (fst (NodeInfo_AddPod asSel g i pod)) = uids i @ [pod_UID pod]"
  by (simp add: uids_def)

lemma pods_invD:
  assumes "pods_inv c" "gm_get (sc_podStates c) k = Some ps"
  shows "k \<noteq> [] \<and> pod_UID (ps_pod ps) = k \<and> (\<exists>i. cinfo c (pod_NodeName (ps_pod ps)) = Some i \<and>
    k \<in> set (uids i) \<and> distinct (uids i))"
proof -
  have "k \<in> uids_at c (pod_NodeName (ps_pod ps))"
    using assms by (auto simp: pods_inv_def pods_located_def)
  then obtain i where "cinfo c (pod_NodeName (ps_pod ps)) = Some i" "k \<in> set (uids i)"
    by (auto simp: uids_at_def split: option.splits)
  with assms show ?thesis by (auto simp: pods_inv_def pods_keyed_def infos_kept_def)
qed

text \<open>A pod the cache does not know comes to a node.\<close>

lemma addPod_inv:
  assumes inv: "nodes_inv c ks" "pods_inv c" and key: "pod_UID pod = key" "key \<noteq> []"
    and new: "gm_get (sc_podStates c) key = None"
    and ps: "ps_pod ps = pod" "assumed \<Longrightarrow> \<not> ps_bindingFinished ps"
    and c': "c' = (cache_addPod asSel c pod)\<lparr>sc_podStates := gm_put (sc_podStates c) key ps,
      sc_assumedPods := (if assumed then gm_put (sc_assumedPods c) key True else sc_assumedPods c)\<rparr>"
  shows "nodes_inv c' (pod_NodeName pod # remove1 (pod_NodeName pod) ks) \<and> pods_inv c' \<and> evolves c c'"
proof -
  let ?k = "pod_NodeName pod"
  have ok: "order_ok c ks" using inv by (simp add: nodes_inv_def)
  obtain i0 g where i0: "case cinfo c ?k of Some i \<Rightarrow> i0 = i | None \<Rightarrow> i0 = fst (NewNodeInfo asSel (sc_generation c) [])"
      and t: "touched c ks ?k (fst (NodeInfo_AddPod asSel g i0 pod)) (cache_addPod asSel c pod)"
        "sc_nodeTree (cache_addPod asSel c pod) = sc_nodeTree c"
    using cache_addPod_touched [OF ok] by blast
  let ?i = "fst (NodeInfo_AddPod asSel g i0 pod)"
  have t': "touched c ks ?k ?i c' \<or> touched c ks ?k ?i (cache_addPod asSel c pod)" using t by simp
  have I0: "uids_at c ?k = set (uids i0) \<and> distinct (uids i0) \<and> ni_clonable i0 \<and>
      (\<forall>nd. ni_node i0 = Some nd \<longrightarrow> node_Name nd = ?k) \<and>
      (?k \<in> set (tree_names (sc_nodeTree c)) \<longleftrightarrow> ni_node i0 \<noteq> None)"
  proof (cases "cinfo c ?k")
    case None
    with New_info [OF None] i0 inv(1) show ?thesis by (auto simp: uids_at_def nodes_inv_def)
  next
    case (Some i)
    with i0 inv nodes_inv_tree [OF inv(1) Some] show ?thesis
      by (auto simp: uids_at_def nodes_inv_def pods_inv_def infos_kept_def)
  qed
  have wf: "nt_wf (sc_nodeTree c)" using inv by (simp add: nodes_inv_def)
  have "nodes_inv (cache_addPod asSel c pod) (?k # remove1 ?k ks)"
    using I0 wf t AddPod_clonable by (intro touched_nodes_inv [OF inv(1) t(1)]) auto
  moreover have ci: "cinfo c' = (cinfo c)(?k \<mapsto> ?i)" using t(1) by (simp add: c' touched_def)
  have u: "uids_at c' n = (if n = ?k then insert key (uids_at c n) else uids_at c n)" for n
    using I0 key by (simp add: uids_at_def ci)
  have nk: "key \<notin> uids_at c n" for n using inv(2) new by (auto simp: pods_inv_def pods_located_def)
  have st: "sc_podStates c' = gm_put (sc_podStates c) key ps"
      "sc_assumedPods c' = (if assumed then gm_put (sc_assumedPods c) key True else sc_assumedPods c)"
    by (simp_all add: c')
  have "nodes_inv (cache_addPod asSel c pod) l = nodes_inv c' l" for l
    by (simp add: c' nodes_inv_def order_ok_def gen_of_def)
  moreover have "pods_keyed c'" using inv(2) key ps by (auto simp: pods_inv_def pods_keyed_def st)
  moreover have "pods_located c'"
    using inv(2) nk ps by (auto simp: pods_inv_def pods_located_def st u)
  moreover have "infos_kept c'"
    using inv(2) I0 key nk [of ?k] by (auto simp: pods_inv_def infos_kept_def ci)
  moreover have "assumed_ok c'"
    using inv(2) new ps by (fastforce simp: pods_inv_def assumed_ok_def st split: if_splits)
  moreover have "evolves c c'" using touched_evolves [OF t(1)] by (simp add: c')
  ultimately show ?thesis using inv(2) by (simp add: pods_inv_def st)
qed

text \<open>A pod the cache knows leaves its node; \<open>pod\<close> is any pod object with its UID and node.\<close>

lemma removePod_inv:
  assumes inv: "nodes_inv c ks" "pods_inv c" and st: "gm_get (sc_podStates c) key = Some ps"
    and pod: "pod_UID pod = key" "pod_NodeName pod = pod_NodeName (ps_pod ps)"
  shows "\<exists>c1 ks1. cache_removePod c pod = Some (c1, None) \<and>
    sc_podStates c1 = sc_podStates c \<and> sc_assumedPods c1 = sc_assumedPods c \<and> sc_ttl c1 = sc_ttl c \<and>
    evolves c c1 \<and> (\<forall>c'. c' = c1\<lparr>sc_podStates := gm_del (sc_podStates c) key,
        sc_assumedPods := gm_del (sc_assumedPods c) key\<rparr> \<longrightarrow> nodes_inv c' ks1 \<and> pods_inv c')"
proof -
  let ?k = "pod_NodeName pod"
  have ok: "order_ok c ks" and wf: "nt_wf (sc_nodeTree c)" using inv by (simp_all add: nodes_inv_def)
  obtain i where i: "cinfo c ?k = Some i" "key \<in> set (uids i)" "distinct (uids i)" "key \<noteq> []"
    using pods_invD [OF inv(2) st] pod by auto
  obtain i' c1 where r: "cache_removePod c pod = Some (c1, None)"
      "NodeInfo_RemovePod (sc_generation c) i pod = Some (i', sc_generation c + 1, None)"
      "if ni_Pods i' = [] \<and> ni_node i' = None then dropped c ks ?k c1 else touched c ks ?k i' c1"
      "sc_nodeTree c1 = sc_nodeTree c"
    using cache_removePod_ok [OF ok i(1)] i(2-4) pod by blast
  have i': "set (uids i') = set (uids i) - {key}" "distinct (uids i')" "ni_node i' = ni_node i" "ni_clonable i'"
    using RemovePod_uid [of pod i "sc_generation c"] i pod r(2)
      RemovePod_clonable [OF _ r(2)] inv(1) by (auto simp: nodes_inv_def)
  have tn: "?k \<in> set (tree_names (sc_nodeTree c)) \<longleftrightarrow> ni_node i \<noteq> None" using nodes_inv_tree [OF inv(1) i(1)] .
  let ?gone = "ni_Pods i' = [] \<and> ni_node i' = None"
  have n1: "nodes_inv c1 (if ?gone then remove1 ?k ks else ?k # remove1 ?k ks)"
  proof (cases ?gone)
    case True
    then show ?thesis using r tn i'(3) wf dropped_nodes_inv [OF inv(1), of ?k c1] by auto
  next
    case False
    then have t: "touched c ks ?k i' c1" using r(3) by (auto split: if_splits)
    have "\<forall>nd. ni_node i' = Some nd \<longrightarrow> node_Name nd = ?k" using inv(1) i(1) i'(3) by (auto simp: nodes_inv_def)
    then show ?thesis
      using r(4) tn i' wf False by (auto intro!: touched_nodes_inv [OF inv(1) t])
  qed
  have f: "sc_podStates c1 = sc_podStates c" "sc_assumedPods c1 = sc_assumedPods c" "sc_ttl c1 = sc_ttl c"
    using r(3) by (auto simp: dropped_def touched_def split: if_splits)
  have ci: "cinfo c1 = (if ?gone then (cinfo c)(?k := None) else (cinfo c)(?k \<mapsto> i'))"
    using r(3) by (auto simp: dropped_def touched_def split: if_splits)
  have u: "uids_at c1 n = uids_at c n - (if n = ?k then {key} else {})" for n
  proof (cases "n = ?k")
    case True
    have "uids_at c1 ?k = set (uids i')" by (cases ?gone) (auto simp: uids_at_def ci uids_def)
    then show ?thesis using True i(1) i'(1) by (simp add: uids_at_def)
  next
    case False
    then show ?thesis by (simp add: uids_at_def ci)
  qed
  have only: "key \<notin> uids_at c n" if "n \<noteq> ?k" for n using inv(2) st pod that by (auto simp: pods_inv_def pods_located_def)
  {
    fix c' assume c': "c' = c1\<lparr>sc_podStates := gm_del (sc_podStates c) key,
        sc_assumedPods := gm_del (sc_assumedPods c) key\<rparr>"
    have "nodes_inv c1 l = nodes_inv c' l" for l by (simp add: c' nodes_inv_def order_ok_def gen_of_def)
    moreover have "pods_inv c'"
    proof -
      have "uids_at c' n = uids_at c n - {key}" for n using u [of n] only [of n] by (auto simp: c' uids_at_def)
      then have "pods_located c'" using inv(2) by (auto simp: pods_inv_def pods_located_def c')
      moreover have "infos_kept c'"
        using inv(2) i'(2) by (auto simp: c' ci pods_inv_def infos_kept_def split: if_splits)
      moreover have "assumed_ok c'" using inv(2) by (auto simp: pods_inv_def assumed_ok_def c')
      ultimately show ?thesis using inv(2) by (auto simp: pods_inv_def pods_keyed_def c')
    qed
    ultimately have "nodes_inv c' (if ?gone then remove1 ?k ks else ?k # remove1 ?k ks) \<and> pods_inv c'"
      using n1 by simp
  }
  moreover have "evolves c c1" using r(3) touched_evolves dropped_evolves by (metis (full_types))
  ultimately show ?thesis using r(1) f by blast
qed

end
