(* ===== verification/Cache_Pods.thy ===== *)
theory Cache_Pods
  imports Cache_Invariant
begin

text \<open>
  The life of a pod in the cache, as the state machine drawn in
  \<^verbatim>\<open>scheduler/internal/cache/interface.go\<close>: a pod is unknown (initial, expired or deleted),
  assumed, or added. The operations of the cache refine that machine and keep the invariant, and
  on the events an informer delivers they do not stop the process.
\<close>

subsection \<open>Changing only the tables of pods\<close>

abbreviation set_pods :: "schedulerCache \<Rightarrow> (string, podState) gomap \<Rightarrow> (string, bool) gomap \<Rightarrow> schedulerCache" where
  "set_pods c X Y \<equiv> c\<lparr>sc_podStates := X, sc_assumedPods := Y\<rparr>"

lemma move_set_pods: "moveNodeInfoToHead (set_pods c X Y) k = set_pods (moveNodeInfoToHead c k) X Y"
  by (simp add: moveNodeInfoToHead_def Let_def split: option.splits)

lemma cache_addPod_set_pods:
  "cache_addPod asSel (set_pods c X Y) pod = set_pods (cache_addPod asSel c pod) X Y"
proof -
  obtain c1 i where e: "ensure_node asSel c (pod_NodeName pod) = (c1, i)" by force
  then have "ensure_node asSel (set_pods c X Y) (pod_NodeName pod) = (set_pods c1 X Y, i)"
    by (auto simp: ensure_node_def split: option.splits prod.splits)
  moreover obtain i' g where "NodeInfo_AddPod asSel (sc_generation c1) i pod = (i', g)" by force
  moreover have "set_info ((set_pods c1 X Y)\<lparr>sc_generation := g\<rparr>) (pod_NodeName pod) i' =
      set_pods (set_info (c1\<lparr>sc_generation := g\<rparr>) (pod_NodeName pod) i') X Y"
    by (simp add: set_info_def)
  ultimately show ?thesis using e by (simp add: cache_addPod_def move_set_pods)
qed

lemma cache_addPod_pods [simp]:
  "sc_podStates (cache_addPod asSel c pod) = sc_podStates c"
  "sc_assumedPods (cache_addPod asSel c pod) = sc_assumedPods c"
proof -
  have "cache_addPod asSel c pod = set_pods (cache_addPod asSel c pod) (sc_podStates c) (sc_assumedPods c)"
    unfolding cache_addPod_set_pods [symmetric] by simp
  then show "sc_podStates (cache_addPod asSel c pod) = sc_podStates c"
    "sc_assumedPods (cache_addPod asSel c pod) = sc_assumedPods c"
    by (metis schedulerCache.select_convs(3,4) schedulerCache.surjective schedulerCache.update_convs(3,4))+
qed

lemma nodes_inv_set_pods [simp]: "nodes_inv (set_pods c X Y) ks = nodes_inv c ks"
  "nodes_inv (c\<lparr>sc_podStates := X\<rparr>) ks = nodes_inv c ks"
  by (simp_all add: nodes_inv_def order_ok_def gen_of_def)

lemma pods_inv_cong:
  assumes "pods_inv c" "gm_ok X" "gm_ok Y" "gm_get X = gm_get (sc_podStates c)" "gm_get Y = gm_get (sc_assumedPods c)"
  shows "pods_inv (set_pods c X Y)"
  using assms by (auto simp: pods_inv_def pods_keyed_def pods_located_def infos_kept_def assumed_ok_def uids_at_def)

lemma isAssumed_iff: "pods_inv c \<Longrightarrow> isAssumed c k \<longleftrightarrow> gm_get (sc_assumedPods c) k \<noteq> None"
  by (auto simp: isAssumed_def pods_inv_def assumed_ok_def split: option.splits)

lemma assumed_known: "pods_inv c \<Longrightarrow> isAssumed c k \<Longrightarrow> \<exists>ps. gm_get (sc_podStates c) k = Some ps"
  by (auto simp: isAssumed_def pods_inv_def assumed_ok_def split: option.splits)

text \<open>Replacing what is stored for a known pod, by a pod with the same UID on the same node.\<close>

lemma replace_state_inv:
  assumes inv: "pods_inv c" and k: "gm_get (sc_podStates c) k = Some ps"
    and same: "pod_UID (ps_pod ps') = k" "pod_NodeName (ps_pod ps') = pod_NodeName (ps_pod ps)"
    and Y: "gm_ok Y" "\<forall>j b. gm_get Y j = Some b \<longrightarrow> gm_get (sc_assumedPods c) j = Some b"
      "gm_get Y k = None \<or> (ps_bindingFinished ps' \<longrightarrow> ps_deadline ps' \<noteq> None)"
  shows "pods_inv (set_pods c (gm_put (sc_podStates c) k ps') Y)"
proof -
  let ?c = "set_pods c (gm_put (sc_podStates c) k ps') Y"
  have u: "uids_at ?c n = uids_at c n" for n by (simp add: uids_at_def)
  have "pods_keyed ?c" using inv k same by (auto simp: pods_inv_def pods_keyed_def)
  moreover have "pods_located ?c" using inv k same by (auto simp: pods_inv_def pods_located_def u)
  moreover have "infos_kept ?c" using inv by (simp add: pods_inv_def infos_kept_def)
  moreover have "assumed_ok ?c" using inv k Y by (fastforce simp: pods_inv_def assumed_ok_def)
  ultimately show ?thesis using inv Y(1) by (simp add: pods_inv_def)
qed

subsection \<open>The abstract state machine\<close>

datatype pod_phase = Assumed Pod "int option" | Added Pod

definition pod_abs :: "schedulerCache \<Rightarrow> string \<Rightarrow> pod_phase option" where
  "pod_abs c k = map_option (\<lambda>ps. if isAssumed c k
     then Assumed (ps_pod ps) (if ps_bindingFinished ps then ps_deadline ps else None)
     else Added (ps_pod ps)) (gm_get (sc_podStates c) k)"

datatype pod_event = EvAssume Pod | EvFinish Pod int | EvForget Pod | EvAdd Pod | EvUpdate Pod Pod
  | EvRemove Pod | EvCleanup int

text \<open>The cache's side: the result, and whether an error is returned; \<open>None\<close> stops the process.\<close>

fun run_event :: "as_selector \<Rightarrow> pod_event \<Rightarrow> schedulerCache \<Rightarrow> (schedulerCache \<times> error option) option" where
  "run_event asSel (EvAssume pod) c = Some (AssumePod asSel c pod)"
| "run_event asSel (EvFinish pod now) c = Some (FinishBinding now c pod)"
| "run_event asSel (EvForget pod) c = ForgetPod c pod"
| "run_event asSel (EvAdd pod) c = Cache_AddPod asSel c pod"
| "run_event asSel (EvUpdate old new) c = Cache_UpdatePod asSel c old new"
| "run_event asSel (EvRemove pod) c = Cache_RemovePod c pod"
| "run_event asSel (EvCleanup now) c = map_option (\<lambda>c'. (c', None)) (cleanupAssumedPods now c)"

text \<open>The specification: the phase of each pod, by UID.\<close>

type_synonym phases = "string \<Rightarrow> pod_phase option"

definition expire :: "int \<Rightarrow> pod_phase option \<Rightarrow> pod_phase option" where
  "expire now x = (case x of Some (Assumed p (Some d)) \<Rightarrow> if now > d then None else x | _ \<Rightarrow> x)"

fun spec_event :: "int \<Rightarrow> pod_event \<Rightarrow> phases \<Rightarrow> (phases \<times> bool) option" where
  "spec_event ttl (EvAssume pod) m = Some (let k = pod_UID pod in
     if k = [] \<or> m k \<noteq> None then (m, True) else (m(k \<mapsto> Assumed pod None), False))"
| "spec_event ttl (EvFinish pod now) m = Some (let k = pod_UID pod in
     if k = [] then (m, True)
     else case m k of Some (Assumed p _) \<Rightarrow> (m(k \<mapsto> Assumed p (Some (now + ttl))), False) | _ \<Rightarrow> (m, False))"
| "spec_event ttl (EvForget pod) m = Some (let k = pod_UID pod in
     case m k of
       Some (Assumed p _) \<Rightarrow> if pod_NodeName p = pod_NodeName pod then (m(k := None), False) else (m, True)
     | _ \<Rightarrow> (m, True))"
| "spec_event ttl (EvAdd pod) m = Some (let k = pod_UID pod in
     if k = [] then (m, True)
     else case m k of Some (Added _) \<Rightarrow> (m, True) | _ \<Rightarrow> (m(k \<mapsto> Added pod), False))"
| "spec_event ttl (EvUpdate old new) m = (let k = pod_UID old in
     case m k of
       Some (Added p) \<Rightarrow> if pod_NodeName p = pod_NodeName new then Some (m(k \<mapsto> Added new), False) else None
     | _ \<Rightarrow> Some (m, True))"
| "spec_event ttl (EvRemove pod) m = (let k = pod_UID pod in
     case m k of
       Some (Added p) \<Rightarrow> if pod_NodeName p = pod_NodeName pod then Some (m(k := None), False) else None
     | _ \<Rightarrow> Some (m, True))"
| "spec_event ttl (EvCleanup now) m = Some (expire now \<circ> m, False)"

text \<open>What an informer guarantees of an update: both objects are the same pod, and the old one is on
  the node the cache has it on.\<close>

fun event_ok :: "schedulerCache \<Rightarrow> pod_event \<Rightarrow> bool" where
  "event_ok c (EvUpdate old new) \<longleftrightarrow> pod_UID new = pod_UID old \<and>
     (\<forall>ps. gm_get (sc_podStates c) (pod_UID old) = Some ps \<longrightarrow> pod_NodeName old = pod_NodeName (ps_pod ps))"
| "event_ok c _ \<longleftrightarrow> True"

definition implements :: "as_selector \<Rightarrow> pod_event \<Rightarrow> schedulerCache \<Rightarrow> bool" where
  "implements asSel ev c \<longleftrightarrow>
     (case spec_event (sc_ttl c) ev (pod_abs c) of
        None \<Rightarrow> run_event asSel ev c = None
      | Some (m, fails) \<Rightarrow> \<exists>c' err. run_event asSel ev c = Some (c', err) \<and> cache_inv c' \<and>
          pod_abs c' = m \<and> (err \<noteq> None) = fails \<and> sc_ttl c' = sc_ttl c \<and> evolves c c')"

subsection \<open>One lemma per operation\<close>

lemma cache_invE:
  assumes "cache_inv c"
  obtains ks where "nodes_inv c ks" "pods_inv c"
  using assms by (auto simp: cache_inv_def)

lemma pod_abs_None: "pod_abs c k = None \<longleftrightarrow> gm_get (sc_podStates c) k = None"
  by (simp add: pod_abs_def)

lemma pod_abs_Assumed: "pod_abs c k = Some (Assumed p d) \<longleftrightarrow> isAssumed c k \<and>
    (\<exists>ps. gm_get (sc_podStates c) k = Some ps \<and> p = ps_pod ps \<and>
      d = (if ps_bindingFinished ps then ps_deadline ps else None))"
  by (cases "gm_get (sc_podStates c) k") (auto simp: pod_abs_def)

lemma pod_abs_Added: "pod_abs c k = Some (Added p) \<longleftrightarrow> \<not> isAssumed c k \<and>
    (\<exists>ps. gm_get (sc_podStates c) k = Some ps \<and> p = ps_pod ps)"
  by (auto simp: pod_abs_def)

lemma pod_abs_set:
  "sc_podStates c' = gm_put (sc_podStates c) k ps \<Longrightarrow>
    (\<forall>j. j \<noteq> k \<longrightarrow> gm_get (sc_assumedPods c') j = gm_get (sc_assumedPods c) j) \<Longrightarrow>
    pod_abs c' = (pod_abs c)(k \<mapsto> (if isAssumed c' k
      then Assumed (ps_pod ps) (if ps_bindingFinished ps then ps_deadline ps else None) else Added (ps_pod ps)))"
  by (auto simp: pod_abs_def isAssumed_def fun_eq_iff)

lemma pod_abs_del:
  "sc_podStates c' = gm_del (sc_podStates c) k \<Longrightarrow>
    (\<forall>j. j \<noteq> k \<longrightarrow> gm_get (sc_assumedPods c') j = gm_get (sc_assumedPods c) j) \<Longrightarrow>
    pod_abs c' = (pod_abs c)(k := None)"
  by (auto simp: pod_abs_def isAssumed_def fun_eq_iff)

lemma implements_error:
  assumes "cache_inv c" "run_event asSel ev c = Some (c, Some e)" "spec_event (sc_ttl c) ev (pod_abs c) = Some (pod_abs c, True)"
  shows "implements asSel ev c"
  using assms by (simp add: implements_def)

lemma key_error: "pod_UID pod = [] \<Longrightarrow> GetPodKey pod = Inl ''Cannot get cache key for pod with empty UID''"
  by (simp add: GetPodKey_def)

lemma key_ok: "pod_UID pod \<noteq> [] \<Longrightarrow> GetPodKey pod = Inr (pod_UID pod)"
  by simp

lemma no_empty_key: "pods_inv c \<Longrightarrow> gm_get (sc_podStates c) [] = None \<and> pod_abs c [] = None"
  by (cases "gm_get (sc_podStates c) []") (auto simp: pods_inv_def pods_keyed_def pod_abs_def)

lemma cache_addPod_ttl [simp]: "sc_ttl (cache_addPod asSel c pod) = sc_ttl c"
  by (auto simp: cache_addPod_def ensure_node_def moveNodeInfoToHead_def set_info_def Let_def
      split: option.splits prod.splits)

lemma AssumePod_implements:
  assumes "cache_inv c"
  shows "implements asSel (EvAssume pod) c"
proof -
  obtain ks where inv: "nodes_inv c ks" "pods_inv c" using assms by (rule cache_invE)
  let ?k = "pod_UID pod"
  consider "?k = []" | ps where "?k \<noteq> []" "gm_get (sc_podStates c) ?k = Some ps"
    | "?k \<noteq> []" "gm_get (sc_podStates c) ?k = None" by (cases "gm_get (sc_podStates c) ?k") auto
  then show ?thesis
  proof cases
    case 1
    then show ?thesis using assms by (intro implements_error) (auto simp: AssumePod_def key_error)
  next
    case 2
    then show ?thesis using assms
      by (intro implements_error) (auto simp: AssumePod_def key_ok pod_abs_None Let_def)
  next
    case 3
    let ?ps = "\<lparr>ps_pod = pod, ps_deadline = None, ps_bindingFinished = False\<rparr>"
    let ?c = "set_pods (cache_addPod asSel c pod) (gm_put (sc_podStates c) ?k ?ps) (gm_put (sc_assumedPods c) ?k True)"
    have *: "nodes_inv ?c (pod_NodeName pod # remove1 (pod_NodeName pod) ks) \<and> pods_inv ?c \<and> evolves c ?c"
      using 3 by (intro addPod_inv [OF inv, where assumed = True and ps = ?ps]) auto
    then have "cache_inv ?c" by (auto simp: cache_inv_def)
    moreover have "pod_abs ?c = (pod_abs c)(?k \<mapsto> Assumed pod None)"
      by (subst pod_abs_set [of _ c ?k ?ps]) (simp_all add: isAssumed_def)
    moreover have "run_event asSel (EvAssume pod) c = Some (?c, None)"
      using 3 by (simp add: AssumePod_def key_ok Let_def)
    ultimately show ?thesis using 3 * by (simp add: implements_def Let_def pod_abs_None)
  qed
qed

lemma FinishBinding_implements:
  assumes "cache_inv c"
  shows "implements asSel (EvFinish pod now) c"
proof -
  obtain ks where inv: "nodes_inv c ks" "pods_inv c" using assms by (rule cache_invE)
  let ?k = "pod_UID pod"
  show ?thesis
  proof (cases "?k = []")
    case True
    then show ?thesis using assms
      by (intro implements_error) (auto simp: FinishBinding_def finishBinding_def key_error)
  next
    case False
    note key = key_ok [OF False]
    show ?thesis
    proof (cases "pod_abs c ?k")
      case None
      then show ?thesis using assms False pod_abs_None [of c ?k]
        by (simp add: implements_def FinishBinding_def finishBinding_def key Let_def)
    next
      case (Some ph)
      show ?thesis
      proof (cases ph)
        case (Added p)
        with Some have "pod_abs c ?k = Some (Added p)" by simp
        then show ?thesis using assms False pod_abs_Added [of c ?k p]
          by (auto simp: implements_def FinishBinding_def finishBinding_def key Let_def)
      next
        case (Assumed p d)
        with Some have a: "pod_abs c ?k = Some (Assumed p d)" by simp
        then obtain ps where ps: "gm_get (sc_podStates c) ?k = Some ps" "p = ps_pod ps" "isAssumed c ?k"
          by (auto simp: pod_abs_Assumed)
        let ?ps = "ps\<lparr>ps_bindingFinished := True, ps_deadline := Some (now + sc_ttl c)\<rparr>"
        let ?c = "set_pods c (gm_put (sc_podStates c) ?k ?ps) (sc_assumedPods c)"
        have "pods_inv ?c"
          using inv(2) ps(1) pods_invD [OF inv(2) ps(1)]
          by (intro replace_state_inv [OF inv(2) ps(1)]) (auto simp: pods_inv_def)
        then have "cache_inv ?c" using inv(1) by (auto simp: cache_inv_def)
        moreover have "isAssumed ?c ?k" using ps(3) by (simp add: isAssumed_def)
        then have "pod_abs ?c = (pod_abs c)(?k \<mapsto> Assumed p (Some (now + sc_ttl c)))"
          by (subst pod_abs_set [of _ c ?k ?ps]) (simp_all add: ps(2))
        moreover have "run_event asSel (EvFinish pod now) c = Some (?c, None)"
          using ps False by (simp add: FinishBinding_def finishBinding_def key)
        ultimately show ?thesis using False a by (simp add: implements_def Let_def)
      qed
    qed
  qed
qed

text \<open>The three operations that take a pod out share this step.\<close>

lemma take_out:
  assumes inv: "nodes_inv c ks" "pods_inv c" and st: "gm_get (sc_podStates c) k = Some ps"
    and pod: "pod_UID pod = k" "pod_NodeName pod = pod_NodeName (ps_pod ps)"
  obtains c1 where "cache_removePod c pod = Some (c1, None)"
    "sc_podStates c1 = sc_podStates c" "sc_assumedPods c1 = sc_assumedPods c" "sc_ttl c1 = sc_ttl c \<and> evolves c c1"
    "cache_inv (set_pods c1 (gm_del (sc_podStates c) k) (gm_del (sc_assumedPods c) k))"
    "pod_abs (set_pods c1 (gm_del (sc_podStates c) k) (gm_del (sc_assumedPods c) k)) = (pod_abs c)(k := None)"
proof -
  obtain c1 ks1 where *: "cache_removePod c pod = Some (c1, None)"
      "sc_podStates c1 = sc_podStates c" "sc_assumedPods c1 = sc_assumedPods c" "sc_ttl c1 = sc_ttl c \<and> evolves c c1"
      "nodes_inv (set_pods c1 (gm_del (sc_podStates c) k) (gm_del (sc_assumedPods c) k)) ks1"
      "pods_inv (set_pods c1 (gm_del (sc_podStates c) k) (gm_del (sc_assumedPods c) k))"
    using removePod_inv [OF inv st pod] by blast
  then have "cache_inv (set_pods c1 (gm_del (sc_podStates c) k) (gm_del (sc_assumedPods c) k))"
    by (auto simp: cache_inv_def)
  moreover have "pod_abs (set_pods c1 (gm_del (sc_podStates c) k) (gm_del (sc_assumedPods c) k)) = (pod_abs c)(k := None)"
    by (rule pod_abs_del) simp_all
  ultimately show ?thesis using * by (intro that) auto
qed

lemma phase_cases:
  assumes "pods_inv c"
  obtains "gm_get (sc_podStates c) k = None" "pod_abs c k = None" "\<not> isAssumed c k"
  | ps d where "gm_get (sc_podStates c) k = Some ps" "pod_abs c k = Some (Assumed (ps_pod ps) d)" "isAssumed c k"
      "d = (if ps_bindingFinished ps then ps_deadline ps else None)"
  | ps where "gm_get (sc_podStates c) k = Some ps" "pod_abs c k = Some (Added (ps_pod ps))" "\<not> isAssumed c k"
proof (cases "gm_get (sc_podStates c) k")
  case None
  then have "\<not> isAssumed c k" using assumed_known [OF assms, of k] by auto
  with None that(1) show ?thesis by (simp add: pod_abs_None)
next
  case (Some ps)
  then show ?thesis using that(2,3) by (cases "isAssumed c k") (auto simp: pod_abs_def)
qed

lemma ForgetPod_implements:
  assumes "cache_inv c"
  shows "implements asSel (EvForget pod) c"
proof -
  obtain ks where inv: "nodes_inv c ks" "pods_inv c" using assms by (rule cache_invE)
  let ?k = "pod_UID pod"
  show ?thesis
  proof (cases "?k = []")
    case True
    with assms no_empty_key [OF inv(2)] show ?thesis
      by (intro implements_error) (auto simp: ForgetPod_def key_error)
  next
    case False
    note key = key_ok [OF False]
    from inv(2) show ?thesis
    proof (cases rule: phase_cases [where k = ?k])
      case 1
      with assms show ?thesis by (intro implements_error) (auto simp: ForgetPod_def key)
    next
      case (2 ps d)
      show ?thesis
      proof (cases "pod_NodeName (ps_pod ps) = pod_NodeName pod")
        case True
        obtain c1 where c1: "cache_removePod c pod = Some (c1, None)"
            "sc_podStates c1 = sc_podStates c" "sc_assumedPods c1 = sc_assumedPods c" "sc_ttl c1 = sc_ttl c \<and> evolves c c1"
            "cache_inv (set_pods c1 (gm_del (sc_podStates c) ?k) (gm_del (sc_assumedPods c) ?k))"
            "pod_abs (set_pods c1 (gm_del (sc_podStates c) ?k) (gm_del (sc_assumedPods c) ?k)) = (pod_abs c)(?k := None)"
          using take_out [OF inv 2(1) refl] True by metis
        have "ForgetPod c pod =
            Some (set_pods c1 (gm_del (sc_podStates c) ?k) (gm_del (sc_assumedPods c) ?k), None)"
          using 2 True c1(1-3) by (simp add: ForgetPod_def key)
        with c1(4-6) True 2 show ?thesis by (simp add: implements_def Let_def)
      next
        case False
        with 2 assms show ?thesis by (intro implements_error) (auto simp: ForgetPod_def key)
      qed
    next
      case (3 ps)
      with assms show ?thesis
        by (cases "pod_NodeName (ps_pod ps) = pod_NodeName pod")
          (auto intro!: implements_error simp: ForgetPod_def key)
    qed
  qed
qed

lemma RemovePod_implements:
  assumes "cache_inv c"
  shows "implements asSel (EvRemove pod) c"
proof -
  obtain ks where inv: "nodes_inv c ks" "pods_inv c" using assms by (rule cache_invE)
  let ?k = "pod_UID pod"
  show ?thesis
  proof (cases "?k = []")
    case True
    with assms no_empty_key [OF inv(2)] show ?thesis
      by (intro implements_error) (auto simp: Cache_RemovePod_def key_error)
  next
    case False
    note key = key_ok [OF False]
    from inv(2) show ?thesis
    proof (cases rule: phase_cases [where k = ?k])
      case 1
      with assms show ?thesis by (intro implements_error) (auto simp: Cache_RemovePod_def key)
    next
      case (2 ps d)
      with assms show ?thesis by (intro implements_error) (auto simp: Cache_RemovePod_def key)
    next
      case (3 ps)
      show ?thesis
      proof (cases "pod_NodeName (ps_pod ps) = pod_NodeName pod")
        case True
        have "pod_UID (ps_pod ps) = ?k" using pods_invD [OF inv(2) 3(1)] by simp
        then obtain c1 where c1: "cache_removePod c (ps_pod ps) = Some (c1, None)"
            "sc_podStates c1 = sc_podStates c" "sc_assumedPods c1 = sc_assumedPods c" "sc_ttl c1 = sc_ttl c \<and> evolves c c1"
            "cache_inv (set_pods c1 (gm_del (sc_podStates c) ?k) (gm_del (sc_assumedPods c) ?k))"
            "pod_abs (set_pods c1 (gm_del (sc_podStates c) ?k) (gm_del (sc_assumedPods c) ?k)) = (pod_abs c)(?k := None)"
          using take_out [OF inv 3(1)] by metis
        have na: "gm_del (sc_assumedPods c) ?k = sc_assumedPods c1"
          using 3(3) isAssumed_iff [OF inv(2)] c1(3) by simp
        have "Cache_RemovePod c pod = Some (c1\<lparr>sc_podStates := gm_del (sc_podStates c) ?k\<rparr>, None)"
          using 3 True c1(1,2) by (simp add: Cache_RemovePod_def key)
        moreover have "c1\<lparr>sc_podStates := gm_del (sc_podStates c) ?k\<rparr> =
            set_pods c1 (gm_del (sc_podStates c) ?k) (gm_del (sc_assumedPods c) ?k)"
          unfolding na by simp
        ultimately show ?thesis using c1(4-6) True 3 by (simp add: implements_def Let_def)
      next
        case False
        with 3 show ?thesis by (simp add: implements_def Cache_RemovePod_def key Let_def)
      qed
    qed
  qed
qed

text \<open>Taking a known pod out and putting a pod with the same UID in, as an update and a late add do.\<close>

lemma take_out_put_in:
  assumes inv: "nodes_inv c ks" "pods_inv c" and st: "gm_get (sc_podStates c) k = Some ps"
    and old: "pod_UID old = k" "pod_NodeName old = pod_NodeName (ps_pod ps)"
    and new: "pod_UID new = k" "ps_pod ps' = new"
  obtains c1 where "cache_removePod c old = Some (c1, None)" "sc_podStates c1 = sc_podStates c"
    "sc_assumedPods c1 = sc_assumedPods c" "sc_ttl c1 = sc_ttl c \<and> evolves c (cache_addPod asSel c1 new)"
    "cache_inv (set_pods (cache_addPod asSel c1 new) (gm_put (sc_podStates c) k ps') (gm_del (sc_assumedPods c) k))"
    "pod_abs (set_pods (cache_addPod asSel c1 new) (gm_put (sc_podStates c) k ps') (gm_del (sc_assumedPods c) k)) =
      (pod_abs c)(k \<mapsto> Added new)"
proof -
  let ?X = "gm_del (sc_podStates c) k" and ?Y = "gm_del (sc_assumedPods c) k"
  obtain c1 where c1: "cache_removePod c old = Some (c1, None)"
      "sc_podStates c1 = sc_podStates c" "sc_assumedPods c1 = sc_assumedPods c" "sc_ttl c1 = sc_ttl c \<and> evolves c c1"
      "cache_inv (set_pods c1 ?X ?Y)"
    using take_out [OF inv st old] by metis
  obtain ks1 where inv1: "nodes_inv (set_pods c1 ?X ?Y) ks1" "pods_inv (set_pods c1 ?X ?Y)"
    using c1(5) by (rule cache_invE)
  have k: "k \<noteq> []" using pods_invD [OF inv(2) st] by simp
  let ?c2 = "set_pods (cache_addPod asSel c1 new) (gm_put ?X k ps') ?Y"
  have *: "nodes_inv ?c2 (pod_NodeName new # remove1 (pod_NodeName new) ks1) \<and> pods_inv ?c2 \<and>
      evolves (set_pods c1 ?X ?Y) ?c2"
    using new k by (intro addPod_inv [OF inv1, where assumed = False and ps = ps' and asSel = asSel])
      (auto simp: cache_addPod_set_pods)
  then have ev: "evolves c (cache_addPod asSel c1 new)" using c1(4) evolves_trans by auto
  moreover have ok: "gm_ok (sc_podStates c)" "gm_ok (sc_assumedPods c)" using inv(2) by (auto simp: pods_inv_def)
  let ?c3 = "set_pods (cache_addPod asSel c1 new) (gm_put (sc_podStates c) k ps') ?Y"
  have "pods_inv ?c3" if "pods_inv ?c2"
    using pods_inv_cong [OF that, of "gm_put (sc_podStates c) k ps'" ?Y] ok by (simp add: fun_eq_iff)
  ultimately have "cache_inv ?c3" using * by (auto simp: cache_inv_def)
  moreover have "pod_abs ?c3 = (pod_abs c)(k \<mapsto> Added new)"
    by (subst pod_abs_set [of _ c k ps']) (simp_all add: isAssumed_def new)
  ultimately show ?thesis using c1 ev by (intro that) auto
qed

lemma AddPod_implements:
  assumes "cache_inv c"
  shows "implements asSel (EvAdd pod) c"
proof -
  obtain ks where inv: "nodes_inv c ks" "pods_inv c" using assms by (rule cache_invE)
  have ok: "gm_ok (sc_podStates c)" "gm_ok (sc_assumedPods c)" using inv(2) by (auto simp: pods_inv_def)
  let ?k = "pod_UID pod"
  show ?thesis
  proof (cases "?k = []")
    case True
    with assms show ?thesis by (intro implements_error) (auto simp: Cache_AddPod_def key_error)
  next
    case False
    note key = key_ok [OF False]
    from inv(2) show ?thesis
    proof (cases rule: phase_cases [where k = ?k])
      case 1
      let ?ps = "\<lparr>ps_pod = pod, ps_deadline = None, ps_bindingFinished = False\<rparr>"
      let ?c = "set_pods (cache_addPod asSel c pod) (gm_put (sc_podStates c) ?k ?ps) (sc_assumedPods c)"
      have *: "nodes_inv ?c (pod_NodeName pod # remove1 (pod_NodeName pod) ks) \<and> pods_inv ?c \<and> evolves c ?c"
        using 1 False by (intro addPod_inv [OF inv, where assumed = False and ps = ?ps]) auto
      then have "cache_inv ?c" by (auto simp: cache_inv_def)
      moreover have "\<not> isAssumed ?c ?k" using 1(3) by (simp add: isAssumed_def)
      then have "pod_abs ?c = (pod_abs c)(?k \<mapsto> Added pod)"
        by (subst pod_abs_set [of _ c ?k ?ps]) simp_all
      moreover have "(cache_addPod asSel c pod)\<lparr>sc_podStates := gm_put (sc_podStates c) ?k ?ps\<rparr> = ?c"
        using cache_addPod_pods(2) [of asSel c pod] by simp
      then have "run_event asSel (EvAdd pod) c = Some (?c, None)"
        using 1 by (simp add: Cache_AddPod_def key Let_def)
      ultimately show ?thesis using 1 False * by (simp add: implements_def Let_def)
    next
      case (2 ps d)
      let ?ps = "ps\<lparr>ps_deadline := None, ps_pod := pod\<rparr>"
      let ?Y = "gm_del (sc_assumedPods c) ?k"
      have uid: "pod_UID (ps_pod ps) = ?k" using pods_invD [OF inv(2) 2(1)] by simp
      show ?thesis
      proof (cases "pod_NodeName (ps_pod ps) = pod_NodeName pod")
        case True
        let ?c = "set_pods c (gm_put (sc_podStates c) ?k ?ps) ?Y"
        have "pods_inv ?c"
          using True ok by (intro replace_state_inv [OF inv(2) 2(1)]) (auto split: if_splits)
        then have "cache_inv ?c" using inv(1) by (auto simp: cache_inv_def)
        moreover have "pod_abs ?c = (pod_abs c)(?k \<mapsto> Added pod)"
          by (subst pod_abs_set [of _ c ?k ?ps]) (simp_all add: isAssumed_def)
        moreover have "run_event asSel (EvAdd pod) c = Some (?c, None)"
          using 2 True by (simp add: Cache_AddPod_def key)
        ultimately show ?thesis using 2 False by (simp add: implements_def Let_def)
      next
        case node: False
        obtain c1 where c1: "cache_removePod c (ps_pod ps) = Some (c1, None)" "sc_podStates c1 = sc_podStates c"
            "sc_assumedPods c1 = sc_assumedPods c" "sc_ttl c1 = sc_ttl c \<and> evolves c (cache_addPod asSel c1 pod)"
            "cache_inv (set_pods (cache_addPod asSel c1 pod) (gm_put (sc_podStates c) ?k ?ps) ?Y)"
            "pod_abs (set_pods (cache_addPod asSel c1 pod) (gm_put (sc_podStates c) ?k ?ps) ?Y) =
              (pod_abs c)(?k \<mapsto> Added pod)"
          using take_out_put_in [OF inv 2(1) uid refl refl, of ?ps asSel] by auto
        have "run_event asSel (EvAdd pod) c =
            Some (set_pods (cache_addPod asSel c1 pod) (gm_put (sc_podStates c) ?k ?ps) ?Y, None)"
          using 2 node c1(1-3) by (simp add: Cache_AddPod_def key)
        with c1(4-6) 2 False show ?thesis by (simp add: implements_def Let_def)
      qed
    next
      case (3 ps)
      with assms False show ?thesis by (intro implements_error) (auto simp: Cache_AddPod_def key)
    qed
  qed
qed

lemma UpdatePod_implements:
  assumes "cache_inv c" and ev: "event_ok c (EvUpdate old new)"
  shows "implements asSel (EvUpdate old new) c"
proof -
  obtain ks where inv: "nodes_inv c ks" "pods_inv c" using assms(1) by (rule cache_invE)
  let ?k = "pod_UID old"
  show ?thesis
  proof (cases "?k = []")
    case True
    with assms(1) no_empty_key [OF inv(2)] show ?thesis
      by (intro implements_error) (auto simp: Cache_UpdatePod_def key_error)
  next
    case False
    note key = key_ok [OF False]
    from inv(2) show ?thesis
    proof (cases rule: phase_cases [where k = ?k])
      case 1
      with assms(1) show ?thesis by (intro implements_error) (auto simp: Cache_UpdatePod_def key)
    next
      case (2 ps d)
      with assms(1) show ?thesis by (intro implements_error) (auto simp: Cache_UpdatePod_def key)
    next
      case (3 ps)
      let ?ps = "ps\<lparr>ps_pod := new\<rparr>" and ?Y = "gm_del (sc_assumedPods c) ?k"
      have e: "pod_UID new = ?k" "pod_NodeName old = pod_NodeName (ps_pod ps)" using ev 3(1) by auto
      show ?thesis
      proof (cases "pod_NodeName (ps_pod ps) = pod_NodeName new")
        case True
        obtain c1 where c1: "cache_removePod c old = Some (c1, None)" "sc_podStates c1 = sc_podStates c"
            "sc_assumedPods c1 = sc_assumedPods c" "sc_ttl c1 = sc_ttl c \<and> evolves c (cache_addPod asSel c1 new)"
            "cache_inv (set_pods (cache_addPod asSel c1 new) (gm_put (sc_podStates c) ?k ?ps) ?Y)"
            "pod_abs (set_pods (cache_addPod asSel c1 new) (gm_put (sc_podStates c) ?k ?ps) ?Y) =
              (pod_abs c)(?k \<mapsto> Added new)"
          using take_out_put_in [OF inv 3(1) refl e(2) e(1), of ?ps asSel] by auto
        have na: "?Y = sc_assumedPods (cache_addPod asSel c1 new)"
          using 3(3) isAssumed_iff [OF inv(2)] c1(3) by simp
        have "run_event asSel (EvUpdate old new) c =
            Some ((cache_addPod asSel c1 new)\<lparr>sc_podStates := gm_put (sc_podStates c) ?k ?ps\<rparr>, None)"
          using 3 True c1(1,2) by (simp add: Cache_UpdatePod_def cache_updatePod_def key)
        moreover have "(cache_addPod asSel c1 new)\<lparr>sc_podStates := gm_put (sc_podStates c) ?k ?ps\<rparr> =
            set_pods (cache_addPod asSel c1 new) (gm_put (sc_podStates c) ?k ?ps) ?Y"
          unfolding na by simp
        ultimately show ?thesis using c1(4-6) 3 True by (simp add: implements_def Let_def)
      next
        case False
        with 3 show ?thesis by (simp add: implements_def Cache_UpdatePod_def key Let_def)
      qed
    qed
  qed
qed

lemma cleanup_one_ok:
  assumes inv: "cache_inv c" and k: "gm_get (sc_assumedPods c) k \<noteq> None"
  shows "\<exists>c'. cleanup_one now c k = Some c' \<and> cache_inv c' \<and> sc_ttl c' = sc_ttl c \<and> evolves c c' \<and>
    pod_abs c' = (pod_abs c)(k := expire now (pod_abs c k)) \<and>
    (\<forall>j. j \<noteq> k \<longrightarrow> gm_get (sc_assumedPods c') j = gm_get (sc_assumedPods c) j)"
proof -
  obtain ks where i: "nodes_inv c ks" "pods_inv c" using inv by (rule cache_invE)
  have a: "isAssumed c k" using k isAssumed_iff [OF i(2)] by simp
  obtain ps where ps: "gm_get (sc_podStates c) k = Some ps" "ps_bindingFinished ps \<longrightarrow> ps_deadline ps \<noteq> None"
    using k i(2) unfolding pods_inv_def assumed_ok_def by blast
  have abs: "pod_abs c k = Some (Assumed (ps_pod ps) (if ps_bindingFinished ps then ps_deadline ps else None))"
    using a ps by (simp add: pod_abs_def)
  have uid: "pod_UID (ps_pod ps) = k" using pods_invD [OF i(2) ps(1)] by simp
  show ?thesis
  proof (cases "\<exists>d. ps_bindingFinished ps \<and> ps_deadline ps = Some d \<and> now > d")
    case True
    then obtain d where d: "ps_bindingFinished ps" "ps_deadline ps = Some d" "now > d" by blast
    let ?X = "gm_del (sc_podStates c) k" and ?Y = "gm_del (sc_assumedPods c) k"
    obtain c1 where c1: "cache_removePod c (ps_pod ps) = Some (c1, None)"
        "sc_podStates c1 = sc_podStates c" "sc_assumedPods c1 = sc_assumedPods c" "sc_ttl c1 = sc_ttl c \<and> evolves c c1"
        "cache_inv (set_pods c1 ?X ?Y)" "pod_abs (set_pods c1 ?X ?Y) = (pod_abs c)(k := None)"
      using take_out [OF i ps(1) uid refl] by metis
    have "cleanup_one now c k = Some (set_pods c1 ?X ?Y)"
    proof -
      have "c1\<lparr>sc_assumedPods := ?Y, sc_podStates := ?X\<rparr> = set_pods c1 ?X ?Y" by simp
      then show ?thesis using ps(1) d c1(1-3) by (simp add: cleanup_one_def expirePod_def)
    qed
    with c1(4-6) d abs show ?thesis by (simp add: expire_def)
  next
    case False
    then have "cleanup_one now c k = Some c" "expire now (pod_abs c k) = pod_abs c k"
      using ps abs by (auto simp: cleanup_one_def expire_def)
    with inv show ?thesis by simp
  qed
qed

lemma cleanup_loop_ok:
  "distinct keys \<Longrightarrow> cache_inv c \<Longrightarrow> \<forall>k\<in>set keys. gm_get (sc_assumedPods c) k \<noteq> None \<Longrightarrow>
    \<exists>c'. cleanup_loop now keys c = Some c' \<and> cache_inv c' \<and> (sc_ttl c' = sc_ttl c \<and> evolves c c') \<and>
      pod_abs c' = (\<lambda>k. if k \<in> set keys then expire now (pod_abs c k) else pod_abs c k)"
proof (induction keys arbitrary: c)
  case (Cons k keys)
  obtain c1 where c1: "cleanup_one now c k = Some c1" "cache_inv c1" "sc_ttl c1 = sc_ttl c \<and> evolves c c1"
      "pod_abs c1 = (pod_abs c)(k := expire now (pod_abs c k))"
      "\<forall>j. j \<noteq> k \<longrightarrow> gm_get (sc_assumedPods c1) j = gm_get (sc_assumedPods c) j"
    using cleanup_one_ok [of c k now] Cons.prems by auto
  have "\<forall>j\<in>set keys. gm_get (sc_assumedPods c1) j \<noteq> None" using Cons.prems c1(5) by auto
  then obtain c' where "cleanup_loop now keys c1 = Some c'" "cache_inv c'" "sc_ttl c' = sc_ttl c1 \<and> evolves c1 c'"
      "pod_abs c' = (\<lambda>k. if k \<in> set keys then expire now (pod_abs c1 k) else pod_abs c1 k)"
    using Cons.IH [of c1] Cons.prems c1(2) by auto
  with c1 Cons.prems(1) evolves_trans [of c c1 c'] show ?case by (auto simp: fun_eq_iff)
qed (simp add: fun_eq_iff)

lemma cleanup_implements:
  assumes "cache_inv c"
  shows "implements asSel (EvCleanup now) c"
proof -
  obtain ks where inv: "nodes_inv c ks" "pods_inv c" using assms by (rule cache_invE)
  let ?keys = "gm_keys (sc_assumedPods c)"
  have "distinct ?keys" using inv(2) by (simp add: pods_inv_def gm_ok_def)
  moreover have "\<forall>k\<in>set ?keys. gm_get (sc_assumedPods c) k \<noteq> None" by (auto simp: gm_get_eq_None)
  ultimately obtain c' where c': "cleanup_loop now ?keys c = Some c'" "cache_inv c'" "sc_ttl c' = sc_ttl c \<and> evolves c c'"
      "pod_abs c' = (\<lambda>k. if k \<in> set ?keys then expire now (pod_abs c k) else pod_abs c k)"
    using cleanup_loop_ok assms by blast
  have "expire now (pod_abs c k) = pod_abs c k" if "k \<notin> set ?keys" for k
  proof -
    have "\<not> isAssumed c k" using that isAssumed_iff [OF inv(2)] by (simp add: gm_get_eq_None)
    then show ?thesis by (cases "gm_get (sc_podStates c) k") (auto simp: pod_abs_def expire_def)
  qed
  then have "pod_abs c' = expire now \<circ> pod_abs c" unfolding c'(4) by (auto simp: fun_eq_iff)
  with c' show ?thesis by (simp add: implements_def cleanupAssumedPods_def)
qed

lemma all_implement: "cache_inv c \<Longrightarrow> event_ok c ev \<Longrightarrow> implements asSel ev c"
  using AssumePod_implements FinishBinding_implements ForgetPod_implements AddPod_implements
    UpdatePod_implements RemovePod_implements cleanup_implements by (cases ev) metis+

subsection \<open>Nodes come and go\<close>

lemma pods_inv_nodes:
  assumes inv: "pods_inv c" and same: "sc_podStates c' = sc_podStates c" "sc_assumedPods c' = sc_assumedPods c"
    and u: "\<And>n. uids_at c' n = uids_at c n" and i: "infos_kept c'"
  shows "pods_inv c'"
  using inv u i same unfolding pods_inv_def pods_keyed_def pods_located_def assumed_ok_def by simp blast

lemma touched_pods_inv:
  assumes inv: "pods_inv c" and t: "touched c ks k i c'"
    and u: "set (uids i) = uids_at c k" "distinct (uids i)" "ni_node i \<noteq> None \<or> ni_Pods i \<noteq> []"
  shows "pods_inv c'"
proof (rule pods_inv_nodes [OF inv])
  show "uids_at c' n = uids_at c n" for n
    using t u(1) by (simp add: touched_def uids_at_def)
  show "infos_kept c'" using inv t u by (auto simp: touched_def pods_inv_def infos_kept_def)
qed (use t in \<open>auto simp: touched_def\<close>)

lemma dropped_pods_inv:
  assumes inv: "pods_inv c" and t: "dropped c ks k c'" and u: "uids_at c k = {}"
  shows "pods_inv c'"
proof (rule pods_inv_nodes [OF inv])
  show "uids_at c' n = uids_at c n" for n
    using t u by (auto simp: dropped_def uids_at_def)
  show "infos_kept c'" using inv t by (auto simp: dropped_def pods_inv_def infos_kept_def)
qed (use t in \<open>auto simp: dropped_def\<close>)

lemma install_inv:
  assumes inv: "nodes_inv c ks" "pods_inv c"
    and i0: "case cinfo c (node_Name node) of Some j \<Rightarrow> i0 = j | None \<Rightarrow> i0 = fst (NewNodeInfo asSel (sc_generation c) [])"
    and t: "touched c ks (node_Name node) (with_node i0 sums g node) c'"
    and tree: "nt_wf (sc_nodeTree c')"
      "set (tree_names (sc_nodeTree c')) = insert (node_Name node) (set (tree_names (sc_nodeTree c)))"
  shows "cache_inv c' \<and> evolves c c'"
proof -
  have i: "ni_clonable i0 \<and> distinct (uids i0) \<and> set (uids i0) = uids_at c (node_Name node)"
  proof (cases "cinfo c (node_Name node)")
    case None
    with i0 New_info [OF None, of i0 asSel "sc_generation c"] show ?thesis by (simp add: uids_at_def)
  next
    case (Some j)
    with i0 inv show ?thesis by (auto simp: uids_at_def nodes_inv_def pods_inv_def infos_kept_def)
  qed
  have "nodes_inv c' (node_Name node # remove1 (node_Name node) ks)"
    using i tree by (intro touched_nodes_inv [OF inv(1) t]) (auto intro: with_node_clonable)
  moreover have "pods_inv c'" using i by (intro touched_pods_inv [OF inv(2) t]) simp_all
  ultimately show ?thesis using touched_evolves [OF t] by (auto simp: cache_inv_def)
qed

lemma AddNode_inv:
  assumes "cache_inv c"
  shows "\<exists>c'. AddNode asSel c node = (c', None) \<and> cache_inv c' \<and> evolves c c'"
proof -
  obtain ks where inv: "nodes_inv c ks" "pods_inv c" using assms by (rule cache_invE)
  have ok: "order_ok c ks" and wf: "nt_wf (sc_nodeTree c)" using inv(1) by (simp_all add: nodes_inv_def)
  from AddNode_touched [OF ok, of asSel node] obtain i0 sums g c' where
    *: "AddNode asSel c node = (c', None)"
      "case cinfo c (node_Name node) of Some j \<Rightarrow> i0 = j | None \<Rightarrow> i0 = fst (NewNodeInfo asSel (sc_generation c) [])"
      "touched c ks (node_Name node) (with_node i0 sums g node) c'"
      "sc_nodeTree c' = nodeTree_addNode (sc_nodeTree c) node" by blast
  have "cache_inv c' \<and> evolves c c'"
    using addNode_wf [OF wf, of node] by (intro install_inv [OF inv *(2,3)]) (auto simp: *(4))
  with *(1) show ?thesis by blast
qed

text \<open>An update of a node that is there as a ghost (no node object) puts no name into the tree, so the
  update is taken to be of a node that the cache has, or does not have at all.\<close>

lemma UpdateNode_inv:
  assumes "cache_inv c" "\<forall>i. cinfo c (node_Name node) = Some i \<longrightarrow> ni_node i \<noteq> None"
  shows "\<exists>c'. UpdateNode asSel c old node = Some (c', None) \<and> cache_inv c' \<and> evolves c c'"
proof -
  obtain ks where inv: "nodes_inv c ks" "pods_inv c" using assms(1) by (rule cache_invE)
  have ok: "order_ok c ks" and wf: "nt_wf (sc_nodeTree c)" using inv(1) by (simp_all add: nodes_inv_def)
  from UpdateNode_touched [OF ok, of asSel old node] obtain i0 sums g c' where
    *: "UpdateNode asSel c old node = Some (c', None)"
      "case cinfo c (node_Name node) of Some j \<Rightarrow> i0 = j | None \<Rightarrow> i0 = fst (NewNodeInfo asSel (sc_generation c) [])"
      "touched c ks (node_Name node) (with_node i0 sums g node) c'"
      "sc_nodeTree c' = (if cinfo c (node_Name node) = None then nodeTree_addNode (sc_nodeTree c) node
        else sc_nodeTree c)" by blast
  have "cache_inv c' \<and> evolves c c'"
  proof (rule install_inv [OF inv *(2,3)])
    show "nt_wf (sc_nodeTree c')" using wf addNode_wf [OF wf, of node] by (simp add: *(4))
    show "set (tree_names (sc_nodeTree c')) = insert (node_Name node) (set (tree_names (sc_nodeTree c)))"
    proof (cases "cinfo c (node_Name node)")
      case None
      then show ?thesis using addNode_wf [OF wf, of node] by (auto simp: *(4))
    next
      case (Some i)
      then have "node_Name node \<in> set (tree_names (sc_nodeTree c))"
        using nodes_inv_tree [OF inv(1) Some] assms(2) by simp
      with Some show ?thesis by (auto simp: *(4))
    qed
  qed
  with *(1) show ?thesis by blast
qed

lemma RemoveNode_inv:
  assumes "cache_inv c"
  shows "cache_inv (fst (RemoveNode c node)) \<and> evolves c (fst (RemoveNode c node))"
proof -
  obtain ks where inv: "nodes_inv c ks" "pods_inv c" using assms by (rule cache_invE)
  have ok: "order_ok c ks" and wf: "nt_wf (sc_nodeTree c)" using inv(1) by (simp_all add: nodes_inv_def)
  let ?k = "node_Name node"
  show ?thesis
  proof (cases "cinfo c ?k")
    case None
    then show ?thesis using assms by (simp add: RemoveNode_def infos_of_def)
  next
    case (Some i)
    let ?i = "fst (NodeInfo_RemoveNode (sc_generation c) i)"
    obtain c' t e where r: "RemoveNode c node = (c', e)" "nodeTree_removeNode (sc_nodeTree c) node = (t, e)"
        "if ni_Pods i = [] then dropped c ks ?k c' else touched c ks ?k ?i c'" "sc_nodeTree c' = t"
      using RemoveNode_ok [OF ok Some] by blast
    have t: "nt_wf t \<and> set (tree_names t) = set (tree_names (sc_nodeTree c)) - {?k}"
    proof (cases "?k \<in> set (tree_names (sc_nodeTree c))")
      case True
      have "distinct (tree_names (sc_nodeTree c))" using wf by (simp add: nt_wf_def nt_ok_def)
      with removeNode_wf [OF wf True] r(2) show ?thesis by auto
    next
      case False
      with removeNode_absent [OF wf False] r(2) wf show ?thesis by auto
    qed
    have u: "uids_at c ?k = set (uids i)" "distinct (uids i)" "ni_clonable i"
      using Some inv by (auto simp: uids_at_def pods_inv_def infos_kept_def nodes_inv_def)
    have ri: "ni_node ?i = None" "uids ?i = uids i" "ni_Pods ?i = ni_Pods i" "ni_clonable ?i"
      using u(3) by (simp_all add: NodeInfo_RemoveNode_def uids_def ni_clonable_def)
    have "cache_inv c' \<and> evolves c c'"
    proof (cases "ni_Pods i = []")
      case True
      then have d: "dropped c ks ?k c'" using r(3) by simp
      have "pods_inv c'" using True u by (intro dropped_pods_inv [OF inv(2) d]) (simp add: uids_def)
      with dropped_nodes_inv [OF inv(1) d] dropped_evolves [OF d] t r(4) show ?thesis by (auto simp: cache_inv_def)
    next
      case False
      then have d: "touched c ks ?k ?i c'" using r(3) by simp
      have "pods_inv c'" using False u ri by (intro touched_pods_inv [OF inv(2) d]) simp_all
      with touched_nodes_inv [OF inv(1) d] touched_evolves [OF d] t r(4) ri show ?thesis by (auto simp: cache_inv_def)
    qed
    with r(1) show ?thesis by simp
  qed
qed

lemma newSchedulerCache_inv: "cache_inv (newSchedulerCache ttl period gen)"
proof -
  have "nodes_inv (newSchedulerCache ttl period gen) []"
    by (simp add: nodes_inv_def order_ok_def newSchedulerCache_def newNodeTree_wf infos_of_def)
  moreover have "pods_inv (newSchedulerCache ttl period gen)"
    by (simp add: pods_inv_def pods_keyed_def pods_located_def infos_kept_def assumed_ok_def uids_at_def
        newSchedulerCache_def infos_of_def)
  ultimately show ?thesis by (auto simp: cache_inv_def)
qed

subsection \<open>Properties\<close>

text \<open>
  C4: On every well-formed cache each operation on pods implements the state machine of a pod:
  the same transition or the same refusal with an error, the pod's deadline included; the cache
  stays well-formed, and the process stops only where the machine has no transition (a pod that
  moved to another node after it was added).
\<close>

theorem pod_machine_refinement:
  assumes "cache_inv c" and "event_ok c ev"
  shows "case spec_event (sc_ttl c) ev (pod_abs c) of
      None \<Rightarrow> run_event asSel ev c = None
    | Some (m, fails) \<Rightarrow> \<exists>c' err. run_event asSel ev c = Some (c', err) \<and> cache_inv c' \<and>
        pod_abs c' = m \<and> (err \<noteq> None) = fails \<and> sc_ttl c' = sc_ttl c"
  using all_implement [OF assms, of asSel] unfolding implements_def by (auto split: option.splits prod.splits)

theorem pod_machine_refinement_witness:
  "\<exists>c' err. run_event no_sel (EvAssume (demo_pod ''a'')) (newSchedulerCache 30 1 0) = Some (c', err) \<and>
    pod_abs c' ''a'' = Some (Assumed (demo_pod ''a'') None) \<and> err = None"
proof -
  have "pod_abs (newSchedulerCache 30 1 0) = Map.empty"
    by (simp add: pod_abs_def newSchedulerCache_def fun_eq_iff)
  with pod_machine_refinement [OF newSchedulerCache_inv [of 30 1 0], of "EvAssume (demo_pod ''a'')" no_sel]
  show ?thesis by (auto simp: Let_def demo_pod_def split: if_splits)
qed

inductive cache_reach :: "as_selector \<Rightarrow> schedulerCache \<Rightarrow> bool" for asSel where
  cr_new: "cache_reach asSel (newSchedulerCache ttl period gen)"
| cr_pod: "cache_reach asSel c \<Longrightarrow> event_ok c ev \<Longrightarrow> run_event asSel ev c = Some (c', err) \<Longrightarrow> cache_reach asSel c'"
| cr_add: "cache_reach asSel c \<Longrightarrow> cache_reach asSel (fst (AddNode asSel c node))"
| cr_update: "cache_reach asSel c \<Longrightarrow> \<forall>i. cinfo c (node_Name node) = Some i \<longrightarrow> ni_node i \<noteq> None \<Longrightarrow>
    UpdateNode asSel c old node = Some (c', err) \<Longrightarrow> cache_reach asSel c'"
| cr_remove: "cache_reach asSel c \<Longrightarrow> cache_reach asSel (fst (RemoveNode c node))"

lemma run_event_inv:
  assumes "cache_inv c" "event_ok c ev" "run_event asSel ev c = Some (c', err)"
  shows "cache_inv c' \<and> evolves c c'"
  using all_implement [OF assms(1,2), of asSel] assms(3)
  by (auto simp: implements_def split: option.splits prod.splits)

lemma cache_reach_inv: "cache_reach asSel c \<Longrightarrow> cache_inv c"
proof (induction rule: cache_reach.induct)
  case (cr_update c node old c' err)
  then show ?case using UpdateNode_inv [of c node asSel old] by auto
next
  case (cr_add c node)
  then show ?case using AddNode_inv [of c asSel node] by auto
qed (auto simp: newSchedulerCache_inv RemoveNode_inv dest: run_event_inv)


definition demo_node :: "string \<Rightarrow> Node" where
  "demo_node name = zero_node\<lparr>node_Name := name\<rparr>"


end
