(* ===== verification/Cache_Snapshot.thy ===== *)
theory Cache_Snapshot
  imports Cache_Pods
begin

text \<open>
  \<open>UpdateSnapshot\<close> is incremental: it walks the list of nodes only as far as there are changes,
  overwrites the copies of changed nodes in place, and rebuilds the lists only when it must. Shown:
  starting from an empty snapshot, whatever happened to the cache in between, it makes the snapshot
  an exact copy of the cache, as long as the cache has no ghost node (pods whose node is gone) when
  a snapshot is taken.
\<close>

subsection \<open>The walk along the list\<close>

lemma update_loop_walk:
  "seg (links_of m) p cur ks None \<Longrightarrow> \<forall>k\<in>set ks. infos_of m k \<noteq> None \<Longrightarrow>
    update_loop m sg cur st =
      Some (fold (\<lambda>k. snapshot_node (the (infos_of m k)))
        (takeWhile (\<lambda>k. sg < ni_Generation (the (infos_of m k))) ks) st)"
proof (induction ks arbitrary: p cur st)
  case Nil
  then show ?case by (subst update_loop.simps) simp
next
  case (Cons k ks)
  from Cons.prems(1) obtain it where it: "cur = Some k" "gm_get m k = Some it"
      "seg (links_of m) (Some k) (li_next it) ks None"
    by (auto simp: links_some)
  then have i: "the (infos_of m k) = li_info it" by (simp add: infos_of_def)
  show ?case
    using it Cons.IH [OF it(3)] Cons.prems(2)
    by (subst update_loop.simps) (auto simp: i not_less)
qed

lemma takeWhile_sorted: "sorted_wrt (\<lambda>a b. g b < g a) ks \<Longrightarrow>
    takeWhile (\<lambda>k. (sg::int) < g k) ks = filter (\<lambda>k. sg < g k) ks"
proof (induction ks)
  case (Cons k ks)
  have "filter (\<lambda>k. sg < g k) ks = []" if "\<not> sg < g k"
    using that Cons.prems by (force simp: filter_empty_conv)
  with Cons show ?case by simp
qed simp

subsection \<open>Snapshots as maps\<close>

definition sinfo :: "Snapshot \<Rightarrow> string \<Rightarrow> NodeInfo option" where
  "sinfo s k = map_option (sn_info s) (gm_get (sn_nodeInfoMap s) k)"

definition snap_map_ok :: "Snapshot \<Rightarrow> bool" where
  "snap_map_ok s \<longleftrightarrow> gm_ok (sn_nodeInfoMap s) \<and> distinct (map snd (sn_nodeInfoMap s)) \<and>
     (\<forall>a\<in>snd ` set (sn_nodeInfoMap s). a < sn_fresh s)"

definition has_aff :: "NodeInfo \<Rightarrow> bool" where
  "has_aff i \<longleftrightarrow> ni_PodsWithAffinity i \<noteq> []"

text \<open>The lists hold the pointers of the map: all of them, and those of nodes with affinity pods.\<close>

definition snap_wf :: "Snapshot \<Rightarrow> bool" where
  "snap_wf s \<longleftrightarrow> snap_map_ok s \<and> mset (sn_nodeInfoList s) = mset (map snd (sn_nodeInfoMap s)) \<and>
     sn_havePodsWithAffinity s = filter (\<lambda>a. has_aff (sn_info s a)) (sn_nodeInfoList s)"

lemma snap_get_inj:
  assumes "snap_map_ok s" "gm_get (sn_nodeInfoMap s) j = Some a" "gm_get (sn_nodeInfoMap s) k = Some a"
  shows "j = k"
proof -
  have "(j, a) \<in> set (sn_nodeInfoMap s)" "(k, a) \<in> set (sn_nodeInfoMap s)"
    using assms(2,3) by (auto dest: gm_get_in_set)
  moreover have "inj_on snd (set (sn_nodeInfoMap s))"
    using assms(1) by (simp add: snap_map_ok_def distinct_map)
  ultimately show ?thesis by (metis inj_onD fst_conv snd_conv)
qed

lemma snap_get_fresh: "snap_map_ok s \<Longrightarrow> gm_get (sn_nodeInfoMap s) k = Some a \<Longrightarrow> a < sn_fresh s"
  by (force simp: snap_map_ok_def dest: gm_get_in_set)

lemma sn_info_put [simp]:
  "sn_info (s\<lparr>sn_store := gm_put (sn_store s) a i\<rparr>) b = (if b = a then i else sn_info s b)"
  by (simp add: sn_info_def)

definition same_lists :: "Snapshot \<Rightarrow> Snapshot \<Rightarrow> bool" where
  "same_lists s s' \<longleftrightarrow> sn_nodeInfoList s' = sn_nodeInfoList s \<and>
     sn_havePodsWithAffinity s' = sn_havePodsWithAffinity s \<and> sn_generation s' = sn_generation s"

text \<open>The affinity flag of a pointer, and of a node name that may be absent.\<close>

abbreviation aff_at :: "Snapshot \<Rightarrow> string \<Rightarrow> bool" where
  "aff_at s k \<equiv> (case sinfo s k of None \<Rightarrow> False | Some i \<Rightarrow> has_aff i)"

lemma snapshot_node_ok:
  assumes ok: "snap_map_ok s" and np: "ni_node i = Some np" "node_Name np = k" and cl: "ni_clonable i"
    and r: "snapshot_node i (s, all, aff) = (s', all', aff')"
  shows "snap_map_ok s' \<and> sinfo s' = (sinfo s)(k \<mapsto> i) \<and> same_lists s s' \<and>
    all' = (all \<or> sinfo s k = None) \<and> aff' = (aff \<or> aff_at s k \<noteq> has_aff i) \<and>
    (sinfo s k \<noteq> None \<longrightarrow> sn_nodeInfoMap s' = sn_nodeInfoMap s)"
proof -
  have clone: "NodeInfo_Clone i = i" using cl NodeInfo_Clone_id by (simp add: ni_clonable_def)
  show ?thesis
  proof (cases "gm_get (sn_nodeInfoMap s) k")
    case (Some a)
    have s': "s' = s\<lparr>sn_store := gm_put (sn_store s) a i\<rparr>" "all' = all"
        "aff' = (aff \<or> (ni_PodsWithAffinity (sn_info s a) \<noteq> []) \<noteq> (ni_PodsWithAffinity i \<noteq> []))"
      using r Some np clone by (auto simp: snapshot_node_def Let_def)
    have "sinfo s' = (sinfo s)(k \<mapsto> i)"
    proof (rule ext)
      fix j
      show "sinfo s' j = ((sinfo s)(k \<mapsto> i)) j"
        using Some snap_get_inj [OF ok _ Some, of j] by (cases "gm_get (sn_nodeInfoMap s) j") (auto simp: sinfo_def s')
    qed
    moreover have "sinfo s k = Some (sn_info s a)" using Some by (simp add: sinfo_def)
    ultimately show ?thesis using ok s' by (auto simp: snap_map_ok_def same_lists_def has_aff_def)
  next
    case None
    let ?a = "sn_fresh s"
    have s': "sn_nodeInfoMap s' = gm_put (sn_nodeInfoMap s) k ?a" "sn_fresh s' = Suc ?a" "all'"
        "sn_store s' = gm_put (gm_put (sn_store s) ?a zero_NodeInfo) ?a i" "same_lists s s'"
        "aff' = (aff \<or> ni_PodsWithAffinity i \<noteq> [])"
      using r None np clone
      by (auto simp: snapshot_node_def Let_def same_lists_def sn_info_def zero_NodeInfo_def)
    have kn: "k \<notin> fst ` set (sn_nodeInfoMap s)" using None by (simp add: gm_get_eq_None)
    have m: "sn_nodeInfoMap s' = sn_nodeInfoMap s @ [(k, ?a)]" using s'(1) gm_put_new [OF kn] by simp
    have "snap_map_ok s'"
      using ok kn unfolding snap_map_ok_def m s'(2) by (auto simp: gm_ok_def less_Suc_eq)
    moreover have "sinfo s' = (sinfo s)(k \<mapsto> i)"
    proof (rule ext)
      fix j
      have "a \<noteq> ?a" if "gm_get (sn_nodeInfoMap s) j = Some a" for a using snap_get_fresh [OF ok that] by simp
      then show "sinfo s' j = ((sinfo s)(k \<mapsto> i)) j"
        by (cases "gm_get (sn_nodeInfoMap s) j") (auto simp: sinfo_def s'(1) sn_info_def s'(4))
    qed
    moreover have "sinfo s k = None" using None by (simp add: sinfo_def)
    ultimately show ?thesis using s'(3,5,6) by (simp add: has_aff_def)
  qed
qed

lemma same_lists_trans: "same_lists a b \<Longrightarrow> same_lists b c \<Longrightarrow> same_lists a c"
  by (simp add: same_lists_def)

text \<open>The walk as a whole, over distinct names \<open>ks\<close> with information \<open>f\<close>.\<close>

lemma snapshot_nodes_ok:
  assumes "distinct ks" "snap_map_ok s"
    "\<forall>k\<in>set ks. ni_clonable (f k) \<and> (\<exists>np. ni_node (f k) = Some np \<and> node_Name np = k)"
    "fold (\<lambda>k. snapshot_node (f k)) ks (s, all, aff) = (s', all', aff')"
  shows "snap_map_ok s' \<and> sinfo s' = (\<lambda>k. if k \<in> set ks then Some (f k) else sinfo s k) \<and> same_lists s s' \<and>
    all' = (all \<or> (\<exists>k\<in>set ks. sinfo s k = None)) \<and>
    aff' = (aff \<or> (\<exists>k\<in>set ks. aff_at s k \<noteq> has_aff (f k))) \<and>
    ((\<forall>k\<in>set ks. sinfo s k \<noteq> None) \<longrightarrow> sn_nodeInfoMap s' = sn_nodeInfoMap s)"
  using assms
proof (induction ks arbitrary: s all aff)
  case Nil
  then show ?case by (simp add: same_lists_def)
next
  case (Cons k ks)
  obtain s1 all1 aff1 where s1: "snapshot_node (f k) (s, all, aff) = (s1, all1, aff1)" by (cases "snapshot_node (f k) (s, all, aff)")
  obtain np where np: "ni_node (f k) = Some np" "node_Name np = k" "ni_clonable (f k)" using Cons.prems(3) by auto
  note S = snapshot_node_ok [OF Cons.prems(2) np s1]
  have IH: "snap_map_ok s' \<and> sinfo s' = (\<lambda>k. if k \<in> set ks then Some (f k) else sinfo s1 k) \<and> same_lists s1 s' \<and>
    all' = (all1 \<or> (\<exists>k\<in>set ks. sinfo s1 k = None)) \<and>
    aff' = (aff1 \<or> (\<exists>k\<in>set ks. aff_at s1 k \<noteq> has_aff (f k))) \<and>
    ((\<forall>k\<in>set ks. sinfo s1 k \<noteq> None) \<longrightarrow> sn_nodeInfoMap s' = sn_nodeInfoMap s1)"
    using Cons.prems S s1 by (intro Cons.IH) auto
  have ne: "sinfo s1 j = sinfo s j" if "j \<in> set ks" for j using S that Cons.prems(1) by auto
  have "all' = (all \<or> (\<exists>j\<in>set (k # ks). sinfo s j = None))" using IH S ne by auto
  moreover have "aff' = (aff \<or> (\<exists>j\<in>set (k # ks). aff_at s j \<noteq> has_aff (f j)))"
    using IH S ne by (auto cong: bex_cong)
  moreover have "sinfo s' = (\<lambda>j. if j \<in> set (k # ks) then Some (f j) else sinfo s j)"
    using IH S by (auto simp: fun_eq_iff)
  moreover have "(\<forall>j\<in>set (k # ks). sinfo s j \<noteq> None) \<longrightarrow> sn_nodeInfoMap s' = sn_nodeInfoMap s"
    using IH S ne by auto
  ultimately show ?case using IH S same_lists_trans by blast
qed

subsection \<open>Deleted nodes and the two lists\<close>

lemma remove_deleted_loop_filter:
  "distinct names \<Longrightarrow> int (length (filter (\<lambda>n. gm_get nodes n = None) names)) = toDelete \<Longrightarrow>
    remove_deleted_loop nodes names toDelete m =
      filter (\<lambda>e. \<not> (fst e \<in> set names \<and> gm_get nodes (fst e) = None)) m"
proof (induction names arbitrary: toDelete m)
  case (Cons n names)
  show ?case
  proof (cases "toDelete \<le> 0")
    case True
    then have "filter (\<lambda>n. gm_get nodes n = None) (n # names) = []"
      using Cons.prems(2) by (metis length_0_conv of_nat_le_0_iff)
    then have "\<forall>k\<in>set (n # names). gm_get nodes k \<noteq> None" by (simp only: filter_empty_conv)
    then have "filter (\<lambda>e. \<not> (fst e \<in> set (n # names) \<and> gm_get nodes (fst e) = None)) m = m"
      by (intro filter_True) blast
    with True show ?thesis by (simp del: list.set)
  next
    case False
    show ?thesis
    proof (cases "gm_get nodes n = None")
      case True
      with False Cons.IH [of "toDelete - 1" "gm_del m n"] Cons.prems show ?thesis
        by (auto simp: gm_del_def intro!: filter_cong)
    next
      case present: False
      with False Cons.IH [of toDelete m] Cons.prems show ?thesis by (auto intro!: filter_cong)
    qed
  qed
qed simp

lemma snap_map_ok_filter:
  "snap_map_ok s \<Longrightarrow> snap_map_ok (s\<lparr>sn_nodeInfoMap := filter P (sn_nodeInfoMap s)\<rparr>)"
  by (auto simp: snap_map_ok_def gm_ok_def distinct_map_filter)

lemma gm_get_filter: "gm_ok m \<Longrightarrow> gm_get (filter (\<lambda>e. Q (fst e)) m) k = (if Q k then gm_get m k else None)"
  unfolding gm_get_def by (induction m) (auto simp: gm_ok_def)

lemma sn_info_lists [simp]:
  "sn_info (s\<lparr>sn_havePodsWithAffinity := l\<rparr>) = sn_info s" "sn_info (s\<lparr>sn_nodeInfoList := l\<rparr>) = sn_info s"
  "sn_info (s\<lparr>sn_generation := g\<rparr>) = sn_info s" "sn_info (s\<lparr>sn_nodeInfoMap := m\<rparr>) = sn_info s"
  by (simp_all add: sn_info_def fun_eq_iff)

text \<open>After the walk the snapshot has every node of the cache; the deleted ones are then the others.\<close>

lemma removeDeleted_ok:
  assumes ok: "snap_map_ok s" and nodes: "gm_ok (sc_nodes c)"
    and sup: "fst ` set (sc_nodes c) \<subseteq> fst ` set (sn_nodeInfoMap s)"
  shows "let s' = removeDeletedNodesFromSnapshot c s in
    snap_map_ok s' \<and> same_lists s s' \<and> sn_store s' = sn_store s \<and> sn_fresh s' = sn_fresh s \<and>
    sinfo s' = (\<lambda>k. if k \<in> fst ` set (sc_nodes c) then sinfo s k else None)"
proof -
  let ?m = "sn_nodeInfoMap s" and ?N = "fst ` set (sc_nodes c)"
  have d: "distinct (gm_keys ?m)" "gm_ok ?m" using ok by (auto simp: snap_map_ok_def gm_ok_def)
  have "length (filter (\<lambda>n. gm_get (sc_nodes c) n = None) (gm_keys ?m)) = card (fst ` set ?m - ?N)"
  proof -
    have "set (filter (\<lambda>n. gm_get (sc_nodes c) n = None) (gm_keys ?m)) = fst ` set ?m - ?N"
      by (auto simp: gm_get_eq_None)
    then show ?thesis using distinct_card [OF distinct_filter [OF d(1)]] by metis
  qed
  also have "int (card (fst ` set ?m - ?N)) = int (length ?m) - int (length (sc_nodes c))"
    using sup gm_len_keys [OF d(2)] gm_len_keys [OF nodes]
    by (simp add: card_Diff_subset of_nat_diff card_mono)
  finally have n: "int (length (filter (\<lambda>n. gm_get (sc_nodes c) n = None) (gm_keys ?m))) =
      int (length ?m) - int (length (sc_nodes c))" .
  let ?P = "\<lambda>e. \<not> (fst e \<in> set (gm_keys ?m) \<and> gm_get (sc_nodes c) (fst e) = None)"
  have s': "removeDeletedNodesFromSnapshot c s = s\<lparr>sn_nodeInfoMap := filter ?P ?m\<rparr>"
    using remove_deleted_loop_filter [OF d(1) n] by (simp add: removeDeletedNodesFromSnapshot_def)
  have get: "gm_get (filter ?P ?m) k = (if k \<in> ?N then gm_get ?m k else None)" for k
    using gm_get_filter [OF d(2), of "\<lambda>k. \<not> (k \<in> set (gm_keys ?m) \<and> gm_get (sc_nodes c) k = None)" k]
    by (auto simp: gm_get_eq_None)
  have "sinfo (s\<lparr>sn_nodeInfoMap := filter ?P ?m\<rparr>) k = (if k \<in> ?N then sinfo s k else None)" for k
    unfolding sinfo_def using get [of k] by simp
  then show ?thesis
    unfolding s' Let_def using snap_map_ok_filter [OF ok, of ?P]
    by (auto simp: same_lists_def fun_eq_iff)
qed

lemma add_aff_eq: "add_aff s a =
    s\<lparr>sn_havePodsWithAffinity := sn_havePodsWithAffinity s @ (if has_aff (sn_info s a) then [a] else [])\<rparr>"
  by (simp add: add_aff_def has_aff_def)

lemma fold_add_aff: "fold (\<lambda>a s. add_aff s a) l s =
    s\<lparr>sn_havePodsWithAffinity := sn_havePodsWithAffinity s @ filter (\<lambda>a. has_aff (sn_info s a)) l\<rparr>"
  by (induction l arbitrary: s) (simp_all add: add_aff_eq)

lemma list_loop_names:
  "next_names k t = Some (xs, t') \<Longrightarrow> \<forall>x\<in>set xs. gm_get (sn_nodeInfoMap s) x = Some (ad x) \<Longrightarrow>
    list_loop k t s = Some (t', s\<lparr>sn_nodeInfoList := sn_nodeInfoList s @ map ad xs,
      sn_havePodsWithAffinity := sn_havePodsWithAffinity s @ filter (\<lambda>a. has_aff (sn_info s a)) (map ad xs)\<rparr>)"
proof (induction k arbitrary: t xs s)
  case (Suc k)
  from Suc.prems(1) obtain x t1 ys where x: "nodeTree_next t = Some (x, t1)" "next_names k t1 = Some (ys, t')"
      "xs = x # ys"
    by (auto simp: bind_eq_Some_conv)
  let ?s = "add_aff (s\<lparr>sn_nodeInfoList := sn_nodeInfoList s @ [ad x]\<rparr>) (ad x)"
  have "list_loop (Suc k) t s = list_loop k t1 ?s" using x Suc.prems(2) by simp
  also have "\<dots> = Some (t', ?s\<lparr>sn_nodeInfoList := sn_nodeInfoList ?s @ map ad ys,
      sn_havePodsWithAffinity := sn_havePodsWithAffinity ?s @ filter (\<lambda>a. has_aff (sn_info ?s a)) (map ad ys)\<rparr>)"
    using x Suc.prems(2) by (intro Suc.IH) (auto simp: add_aff_eq)
  finally show ?case by (simp add: x(3) add_aff_eq)
qed simp

lemma next_names_same: "nt_ok t \<Longrightarrow> next_names k t = Some (xs, t') \<Longrightarrow> same_nodes t t'"
proof (induction k arbitrary: t xs)
  case (Suc k)
  then obtain x t1 ys where x: "nodeTree_next t = Some (x, t1)" "next_names k t1 = Some (ys, t')"
    by (auto simp: bind_eq_Some_conv)
  have "same_nodes t t1" using nodeTree_next_total [OF Suc.prems(1)] x(1) by auto
  with Suc.IH [of t1 ys] x(2) Suc.prems(1) show ?case using same_nodes_ok same_nodes_trans by blast
qed simp

text \<open>Rebuilding both lists, when the map has exactly the names of the tree.\<close>

lemma rebuild_lists:
  assumes ok: "snap_map_ok s" and wf: "nt_wf (sc_nodeTree c)"
    and keys: "fst ` set (sn_nodeInfoMap s) = set (tree_names (sc_nodeTree c))"
  shows "\<exists>t s'. updateNodeInfoSnapshotList c s True = Some (c\<lparr>sc_nodeTree := t\<rparr>, s') \<and>
    same_nodes (sc_nodeTree c) t \<and> snap_wf s' \<and> sinfo s' = sinfo s \<and> sn_nodeInfoMap s' = sn_nodeInfoMap s \<and>
    sn_generation s' = sn_generation s"
proof -
  let ?t = "sc_nodeTree c"
  let ?ad = "\<lambda>x. the (gm_get (sn_nodeInfoMap s) x)"
  have nt: "nt_ok ?t" using wf by simp
  obtain xs t where x: "next_names (nat (nt_numNodes ?t)) (resetExhausted ?t) = Some (xs, t)"
      "mset xs = mset (tree_names ?t)" "distinct xs"
    using next_names_after_reset [OF nt] by blast
  have same: "same_nodes ?t t"
    using next_names_same [OF _ x(1)] resetExhausted_same [of ?t] same_nodes_ok nt same_nodes_trans by blast
  have ad: "gm_get (sn_nodeInfoMap s) y = Some (?ad y)" if "y \<in> set xs" for y
    using that keys mset_eq_setD [OF x(2)] by (cases "gm_get (sn_nodeInfoMap s) y") (auto simp: gm_get_eq_None)
  let ?s0 = "s\<lparr>sn_havePodsWithAffinity := [], sn_nodeInfoList := []\<rparr>"
  let ?l = "map ?ad xs"
  let ?s' = "?s0\<lparr>sn_nodeInfoList := ?l, sn_havePodsWithAffinity := filter (\<lambda>a. has_aff (sn_info s a)) ?l\<rparr>"
  have "list_loop (nat (nt_numNodes ?t)) (resetExhausted ?t) ?s0 = Some (t, ?s')"
    using list_loop_names [OF x(1), of ?s0 ?ad] ad by simp
  then have "updateNodeInfoSnapshotList c s True = Some (c\<lparr>sc_nodeTree := t\<rparr>, ?s')"
    by (simp add: updateNodeInfoSnapshotList_def Let_def)
  moreover have "mset ?l = mset (map snd (sn_nodeInfoMap s))"
  proof -
    have g: "gm_ok (sn_nodeInfoMap s)" using ok by (simp add: snap_map_ok_def)
    have "set xs = set (gm_keys (sn_nodeInfoMap s))" using keys mset_eq_setD [OF x(2)] by simp
    then have "mset xs = mset (gm_keys (sn_nodeInfoMap s))"
      using x(3) g by (metis gm_ok_def set_eq_iff_mset_eq_distinct)
    then have "mset ?l = mset (map ?ad (gm_keys (sn_nodeInfoMap s)))" by (metis mset_map)
    also have "gm_get (sn_nodeInfoMap s) (fst e) = Some (snd e)" if "e \<in> set (sn_nodeInfoMap s)" for e
      using gm_get_eq_Some [OF g, of "fst e" "snd e"] that by simp
    then have "map ?ad (gm_keys (sn_nodeInfoMap s)) = map snd (sn_nodeInfoMap s)" by simp
    finally show ?thesis .
  qed
  then have "snap_wf ?s'" using ok by (simp add: snap_wf_def snap_map_ok_def)
  moreover have "sinfo ?s' = sinfo s" by (simp add: sinfo_def fun_eq_iff)
  ultimately show ?thesis using same by (intro exI [of _ t] exI [of _ ?s']) simp
qed

subsection \<open>Updating a snapshot\<close>

definition no_ghosts :: "schedulerCache \<Rightarrow> bool" where
  "no_ghosts c \<longleftrightarrow> (\<forall>k i. cinfo c k = Some i \<longrightarrow> ni_node i \<noteq> None)"

text \<open>What an earlier snapshot still has right: the nodes that have not changed since.\<close>

definition snap_rel :: "schedulerCache \<Rightarrow> Snapshot \<Rightarrow> bool" where
  "snap_rel c s \<longleftrightarrow> snap_wf s \<and> sn_generation s \<le> sc_generation c \<and>
     (\<forall>k i. cinfo c k = Some i \<longrightarrow> ni_Generation i \<le> sn_generation s \<longrightarrow> sinfo s k = Some i)"

lemma sinfo_keys: "k \<in> fst ` set (sn_nodeInfoMap s) \<longleftrightarrow> sinfo s k \<noteq> None"
  using gm_get_eq_None [of "sn_nodeInfoMap s" k] by (auto simp: sinfo_def)

lemma sinfo_gen [simp]: "sinfo (s\<lparr>sn_generation := g\<rparr>) = sinfo s"
    "snap_map_ok (s\<lparr>sn_generation := g\<rparr>) = snap_map_ok s"
  by (simp_all add: sinfo_def snap_map_ok_def fun_eq_iff)

lemma snap_rel_evolves: "snap_rel c s \<Longrightarrow> evolves c c' \<Longrightarrow> snap_rel c' s"
  unfolding snap_rel_def evolves_def by (meson le_less_trans not_less order_trans)

lemma walk_ok:
  assumes inv: "nodes_inv c ks" and ng: "no_ghosts c" and rel: "snap_rel c s"
  shows "\<exists>s1 all1 aff1. update_loop (sc_nodes c) (sn_generation s) (sc_headNode c) (s, False, False) =
      Some (s1, all1, aff1) \<and> snap_map_ok s1 \<and> same_lists s s1 \<and>
    (\<forall>k. cinfo c k \<noteq> None \<longrightarrow> sinfo s1 k = cinfo c k) \<and>
    (\<not> all1 \<longrightarrow> sn_nodeInfoMap s1 = sn_nodeInfoMap s) \<and>
    (\<not> all1 \<longrightarrow> \<not> aff1 \<longrightarrow> (\<forall>k. sinfo s k \<noteq> None \<longrightarrow> aff_at s1 k = aff_at s k))"
proof -
  let ?f = "\<lambda>k. the (cinfo c k)" and ?g = "sn_generation s"
  let ?P = "filter (\<lambda>k. ?g < gen_of c k) ks"
  have o: "order_ok c ks" and srt: "sorted_wrt (\<lambda>a b. gen_of c b < gen_of c a) ks"
    using inv by (simp_all add: nodes_inv_def)
  have dom: "\<forall>k\<in>set ks. cinfo c k \<noteq> None" using order_dom [OF o] by blast
  have tw: "takeWhile (\<lambda>k. ?g < ni_Generation (?f k)) ks = ?P"
    using takeWhile_sorted [OF srt] by (simp add: gen_of_def)
  obtain s1 all1 aff1 where f: "fold (\<lambda>k. snapshot_node (?f k)) ?P (s, False, False) = (s1, all1, aff1)"
    by (cases "fold (\<lambda>k. snapshot_node (?f k)) ?P (s, False, False)")
  have upd: "update_loop (sc_nodes c) ?g (sc_headNode c) (s, False, False) = Some (s1, all1, aff1)"
    using update_loop_walk [of "sc_nodes c" None "sc_headNode c" ks] o dom tw f by (simp add: order_ok_def)
  have el: "ni_clonable (?f k) \<and> (\<exists>np. ni_node (?f k) = Some np \<and> node_Name np = k)" if k: "k \<in> set ?P" for k
  proof -
    obtain i where i: "cinfo c k = Some i" using dom k by auto
    obtain np where "ni_node i = Some np" using ng i by (auto simp: no_ghosts_def)
    with i inv show ?thesis by (auto simp: nodes_inv_def)
  qed
  have d: "distinct ?P" using o by (simp add: order_ok_def)
  have ok: "snap_map_ok s" using rel by (simp add: snap_rel_def snap_wf_def)
  have S: "snap_map_ok s1 \<and> sinfo s1 = (\<lambda>k. if k \<in> set ?P then Some (?f k) else sinfo s k) \<and> same_lists s s1 \<and>
    all1 = (False \<or> (\<exists>k\<in>set ?P. sinfo s k = None)) \<and>
    aff1 = (False \<or> (\<exists>k\<in>set ?P. aff_at s k \<noteq> has_aff (?f k))) \<and>
    ((\<forall>k\<in>set ?P. sinfo s k \<noteq> None) \<longrightarrow> sn_nodeInfoMap s1 = sn_nodeInfoMap s)"
    using el by (intro snapshot_nodes_ok [OF d ok _ f]) blast
  have "sinfo s1 k = cinfo c k" if k: "cinfo c k \<noteq> None" for k
  proof (cases "k \<in> set ?P")
    case True
    with S k show ?thesis by auto
  next
    case False
    obtain i where i: "cinfo c k = Some i" using k by blast
    have "k \<in> set ks" using order_dom [OF o, of k] k by blast
    with False i have "ni_Generation i \<le> ?g" by (simp add: gen_of_def)
    then have "sinfo s k = Some i" using rel i by (simp add: snap_rel_def)
    with S False i show ?thesis by auto
  qed
  moreover have "aff_at s1 k = aff_at s k" if "\<not> aff1" for k
    using S that by (cases "k \<in> set ?P") auto
  moreover have "sn_nodeInfoMap s1 = sn_nodeInfoMap s" if "\<not> all1" using S that by auto
  ultimately show ?thesis
    using upd S by (intro exI [of _ s1] exI [of _ all1] exI [of _ aff1]) blast
qed

lemma UpdateSnapshot_lists:
  assumes s3: "snap_map_ok s3" "sinfo s3 = cinfo c" and wf: "nt_wf (sc_nodeTree c)"
    and names: "fst ` set (sc_nodes c) = set (tree_names (sc_nodeTree c))"
    and part: "\<not> all \<Longrightarrow> mset (sn_nodeInfoList s3) = mset (map snd (sn_nodeInfoMap s3))"
      "\<not> all \<Longrightarrow> \<not> aff \<Longrightarrow> sn_havePodsWithAffinity s3 = filter (\<lambda>a. has_aff (sn_info s3 a)) (sn_nodeInfoList s3)"
  shows "\<exists>t s4. (if all \<or> aff then updateNodeInfoSnapshotList c s3 all else Some (c, s3)) =
      Some (c\<lparr>sc_nodeTree := t\<rparr>, s4) \<and> same_nodes (sc_nodeTree c) t \<and> snap_wf s4 \<and> sinfo s4 = cinfo c \<and>
    sn_generation s4 = sn_generation s3"
proof -
  have keys: "fst ` set (sn_nodeInfoMap s3) = set (tree_names (sc_nodeTree c))"
  proof -
    have "k \<in> fst ` set (sn_nodeInfoMap s3) \<longleftrightarrow> k \<in> fst ` set (sc_nodes c)" for k
      unfolding sinfo_keys s3(2) cinfo_dom ..
    then show ?thesis using names by blast
  qed
  have c: "c\<lparr>sc_nodeTree := sc_nodeTree c\<rparr> = c" by simp
  consider "all" | "\<not> all" "aff" | "\<not> all" "\<not> aff" by blast
  then show ?thesis
  proof cases
    case 1
    then show ?thesis using rebuild_lists [OF s3(1) wf keys] s3(2) by auto
  next
    case 2
    let ?s = "s3\<lparr>sn_havePodsWithAffinity := filter (\<lambda>a. has_aff (sn_info s3 a)) (sn_nodeInfoList s3)\<rparr>"
    have "updateNodeInfoSnapshotList c s3 False = Some (c, ?s)"
      by (simp add: updateNodeInfoSnapshotList_def Let_def fold_add_aff)
    moreover have "snap_wf ?s" "sinfo ?s = cinfo c"
      using s3 part(1) 2(1) by (simp_all add: snap_wf_def snap_map_ok_def sinfo_def fun_eq_iff)
    ultimately show ?thesis
      using 2 c by (intro exI [of _ "sc_nodeTree c"] exI [of _ ?s]) simp
  next
    case 3
    then have "snap_wf s3" using s3 part by (simp add: snap_wf_def)
    with 3 c s3(2) show ?thesis by (intro exI [of _ "sc_nodeTree c"] exI [of _ s3]) simp
  qed
qed

lemma snap_aff_filter:
  assumes wf: "snap_wf s" and m: "sn_nodeInfoMap s1 = sn_nodeInfoMap s"
    and aff: "\<And>k. sinfo s k \<noteq> None \<Longrightarrow> aff_at s1 k = aff_at s k"
  shows "filter (\<lambda>a. has_aff (sn_info s1 a)) (sn_nodeInfoList s) = sn_havePodsWithAffinity s"
proof -
  have "has_aff (sn_info s1 a) = has_aff (sn_info s a)" if "a \<in> set (sn_nodeInfoList s)" for a
  proof -
    have "set (sn_nodeInfoList s) = set (map snd (sn_nodeInfoMap s))"
      using wf mset_eq_setD unfolding snap_wf_def by blast
    then have "a \<in> snd ` set (sn_nodeInfoMap s)" using that by simp
    then obtain k where "(k, a) \<in> set (sn_nodeInfoMap s)" by force
    then have k: "gm_get (sn_nodeInfoMap s) k = Some a"
      using wf gm_get_eq_Some by (fastforce simp: snap_wf_def snap_map_ok_def)
    then have "sinfo s k = Some (sn_info s a)" "sinfo s1 k = Some (sn_info s1 a)" by (simp_all add: sinfo_def m)
    with aff [of k] show ?thesis by simp
  qed
  then show ?thesis using wf by (simp add: snap_wf_def cong: filter_cong)
qed

lemma head_generation:
  assumes inv: "nodes_inv c ks"
  shows "case sc_headNode c of None \<Rightarrow> \<forall>k. cinfo c k = None
    | Some h \<Rightarrow> \<exists>node. gm_get (sc_nodes c) h = Some node \<and> ni_Generation (li_info node) \<le> sc_generation c \<and>
        (\<forall>k i. cinfo c k = Some i \<longrightarrow> ni_Generation i \<le> ni_Generation (li_info node))"
proof -
  have o: "order_ok c ks" using inv by (simp add: nodes_inv_def)
  have h: "sc_headNode c = hd_opt ks" using o seg_hd by (auto simp: order_ok_def)
  show ?thesis
  proof (cases ks)
    case Nil
    then show ?thesis using h order_dom [OF o] by auto
  next
    case (Cons a l)
    then obtain node where n: "gm_get (sc_nodes c) a = Some node" using order_dom [OF o, of a] by (auto simp: infos_of_def)
    then have a: "cinfo c a = Some (li_info node)" by (simp add: infos_of_def)
    have "ni_Generation i \<le> ni_Generation (li_info node)" if i: "cinfo c k = Some i" for k i
    proof -
      have "k \<in> set ks" using order_dom [OF o, of k] i by blast
      then show ?thesis using inv Cons i a by (auto simp: nodes_inv_def gen_of_def)
    qed
    moreover have "ni_Generation (li_info node) \<le> sc_generation c" using inv a by (auto simp: nodes_inv_def)
    ultimately show ?thesis using n h Cons by auto
  qed
qed

lemma list_length:
  assumes "snap_wf s" "sinfo s = cinfo c" "gm_ok (sc_nodes c)"
    and "fst ` set (sc_nodes c) = set (tree_names t)" "nt_ok t"
  shows "int (length (sn_nodeInfoList s)) = nt_numNodes t"
proof -
  have "length (sn_nodeInfoList s) = length (sn_nodeInfoMap s)"
    using assms(1) by (metis mset_eq_length length_map snap_wf_def)
  also have "\<dots> = card (fst ` set (sn_nodeInfoMap s))"
    using assms(1) gm_len_keys by (auto simp: snap_wf_def snap_map_ok_def)
  also have "fst ` set (sn_nodeInfoMap s) = set (tree_names t)"
  proof -
    have "k \<in> fst ` set (sn_nodeInfoMap s) \<longleftrightarrow> k \<in> fst ` set (sc_nodes c)" for k
      unfolding sinfo_keys assms(2) cinfo_dom ..
    then show ?thesis using assms(4) by blast
  qed
  also have "card (set (tree_names t)) = length (tree_names t)"
    using assms(5) by (simp add: nt_ok_def distinct_card)
  finally show ?thesis using assms(5) by (simp add: nt_ok_def)
qed

lemma nodes_inv_same_tree:
  "nodes_inv c ks \<Longrightarrow> same_nodes (sc_nodeTree c) t \<Longrightarrow> nodes_inv (c\<lparr>sc_nodeTree := t\<rparr>) ks"
  using same_nodes_wf [of "sc_nodeTree c" t] same_nodes_names [of "sc_nodeTree c" t]
  by (simp add: nodes_inv_def order_ok_def gen_of_def)

lemma UpdateSnapshot_ok:
  assumes inv: "cache_inv c" and ng: "no_ghosts c" and rel: "snap_rel c s"
  shows "\<exists>t s'. UpdateSnapshot c s = Some (c\<lparr>sc_nodeTree := t\<rparr>, s', None) \<and>
    same_nodes (sc_nodeTree c) t \<and> sinfo s' = cinfo c \<and> snap_wf s' \<and> snap_rel c s'"
proof -
  obtain ks where ninv: "nodes_inv c ks" using inv by (auto simp: cache_inv_def)
  have wf: "nt_wf (sc_nodeTree c)" and gok: "gm_ok (sc_nodes c)"
    using ninv by (simp_all add: nodes_inv_def order_ok_def)
  have swf: "snap_wf s" using rel by (simp add: snap_rel_def)
  let ?N = "fst ` set (sc_nodes c)"
  have names: "?N = set (tree_names (sc_nodeTree c))"
  proof -
    have "k \<in> set (tree_names (sc_nodeTree c)) \<longleftrightarrow> cinfo c k \<noteq> None" for k
      using ninv ng unfolding nodes_inv_def no_ghosts_def by blast
    then show ?thesis using cinfo_dom by blast
  qed
  obtain s1 all1 aff1 where w: "update_loop (sc_nodes c) (sn_generation s) (sc_headNode c) (s, False, False) =
      Some (s1, all1, aff1)" "snap_map_ok s1" "same_lists s s1"
      "\<And>k. cinfo c k \<noteq> None \<Longrightarrow> sinfo s1 k = cinfo c k"
      "\<not> all1 \<Longrightarrow> sn_nodeInfoMap s1 = sn_nodeInfoMap s"
      "\<And>k. \<not> all1 \<Longrightarrow> \<not> aff1 \<Longrightarrow> sinfo s k \<noteq> None \<Longrightarrow> aff_at s1 k = aff_at s k"
    using walk_ok [OF ninv ng rel] by blast
  obtain g where g: "(case sc_headNode c of None \<Rightarrow> Some s1 | Some h \<Rightarrow>
      (case gm_get (sc_nodes c) h of None \<Rightarrow> None
       | Some node \<Rightarrow> Some (s1\<lparr>sn_generation := ni_Generation (li_info node)\<rparr>))) = Some (s1\<lparr>sn_generation := g\<rparr>)"
      and gb: "g \<le> sc_generation c"
  proof (cases "sc_headNode c")
    case None
    have "sn_generation s1 \<le> sc_generation c" using w(3) rel by (simp add: same_lists_def snap_rel_def)
    with None that [of "sn_generation s1"] show ?thesis by simp
  next
    case (Some h)
    with head_generation [OF ninv] that show ?thesis by fastforce
  qed
  let ?s2 = "s1\<lparr>sn_generation := g\<rparr>"
  let ?del = "length (sn_nodeInfoMap ?s2) > length (sc_nodes c)"
  define s3 where "s3 = (if ?del then removeDeletedNodesFromSnapshot c ?s2 else ?s2)"
  have sup: "?N \<subseteq> fst ` set (sn_nodeInfoMap ?s2)"
  proof
    fix k assume "k \<in> ?N"
    then have "cinfo c k \<noteq> None" using cinfo_dom by blast
    with w(4) [OF this] show "k \<in> fst ` set (sn_nodeInfoMap ?s2)" unfolding sinfo_keys by simp
  qed
  have sinfo1: "(\<lambda>k. if k \<in> ?N then sinfo s1 k else None) = cinfo c"
  proof (rule ext)
    fix k
    show "(if k \<in> ?N then sinfo s1 k else None) = cinfo c k" using w(4) [of k] cinfo_dom [of c k] by auto
  qed
  have s3: "snap_map_ok s3 \<and> sinfo s3 = cinfo c \<and> (\<not> ?del \<longrightarrow> s3 = ?s2) \<and> sn_generation s3 = g"
  proof (cases ?del)
    case True
    then show ?thesis
      using removeDeleted_ok [of ?s2 c, unfolded sinfo_gen] w(2) gok sup sinfo1
      by (simp add: s3_def Let_def same_lists_def)
  next
    case False
    have ok2: "gm_ok (sn_nodeInfoMap s1)" using w(2) by (simp add: snap_map_ok_def)
    then have "card (fst ` set (sn_nodeInfoMap s1)) \<le> card ?N"
      using False gm_len_keys [OF ok2] gm_len_keys [OF gok] by simp
    then have "?N = fst ` set (sn_nodeInfoMap s1)" using sup by (simp add: card_seteq)
    then have "sinfo s1 k = None" if "k \<notin> ?N" for k using that sinfo_keys [of k s1] by simp
    then have "sinfo s1 = (\<lambda>k. if k \<in> ?N then sinfo s1 k else None)" by (auto simp: fun_eq_iff)
    then have "sinfo s1 = cinfo c" unfolding sinfo1 .
    with False w(2) show ?thesis by (simp add: s3_def)
  qed
  have part: "mset (sn_nodeInfoList s3) = mset (map snd (sn_nodeInfoMap s3))" if "\<not> (?del \<or> all1)"
    using that s3 w(3,5) swf by (simp add: same_lists_def snap_wf_def)
  have part2: "sn_havePodsWithAffinity s3 = filter (\<lambda>a. has_aff (sn_info s3 a)) (sn_nodeInfoList s3)"
    if "\<not> (?del \<or> all1)" "\<not> aff1"
    using that s3 w(3,5) snap_aff_filter [OF swf w(5) w(6)] by (simp add: same_lists_def)
  obtain t s4 where l: "(if (?del \<or> all1) \<or> aff1 then updateNodeInfoSnapshotList c s3 (?del \<or> all1) else Some (c, s3)) =
      Some (c\<lparr>sc_nodeTree := t\<rparr>, s4)" "same_nodes (sc_nodeTree c) t" "snap_wf s4" "sinfo s4 = cinfo c"
      "sn_generation s4 = g"
  proof -
    have a: "snap_map_ok s3" "sinfo s3 = cinfo c" "sn_generation s3 = g" using s3 by auto
    have "\<exists>t s4. (if (?del \<or> all1) \<or> aff1 then updateNodeInfoSnapshotList c s3 (?del \<or> all1) else Some (c, s3)) =
      Some (c\<lparr>sc_nodeTree := t\<rparr>, s4) \<and> same_nodes (sc_nodeTree c) t \<and> snap_wf s4 \<and> sinfo s4 = cinfo c \<and>
      sn_generation s4 = sn_generation s3"
      by (rule UpdateSnapshot_lists [OF a(1,2) wf names part part2])
    then show ?thesis unfolding a(3) by (elim exE conjE) (rule that)
  qed
  have "nt_ok t" using l(2) wf same_nodes_ok by auto
  then have len: "int (length (sn_nodeInfoList s4)) = nt_numNodes t"
    using names same_nodes_names [OF l(2)] by (intro list_length [OF l(3,4) gok]) simp_all
  have "UpdateSnapshot c s = Some (c\<lparr>sc_nodeTree := t\<rparr>, s4, None)"
    unfolding UpdateSnapshot_def Let_def w(1) Option.bind.simps prod.case g s3_def [symmetric] l(1)
    using len by simp
  moreover have "snap_rel c s4" using l gb by (simp add: snap_rel_def)
  ultimately show ?thesis using l by blast
qed

subsection \<open>A cache with its snapshot\<close>

text \<open>
  The cache and the scheduler's one snapshot, from the start of the process on. The generation
  counter is global to the process, hence not negative when the cache is made. Snapshots are taken
  when the cache has no ghost node.
\<close>

inductive sys_reach :: "as_selector \<Rightarrow> schedulerCache \<Rightarrow> Snapshot \<Rightarrow> bool" for asSel where
  sr_new: "0 \<le> gen \<Longrightarrow> sys_reach asSel (newSchedulerCache ttl period gen) NewEmptySnapshot"
| sr_pod: "sys_reach asSel c s \<Longrightarrow> event_ok c ev \<Longrightarrow> run_event asSel ev c = Some (c', err) \<Longrightarrow> sys_reach asSel c' s"
| sr_add: "sys_reach asSel c s \<Longrightarrow> sys_reach asSel (fst (AddNode asSel c node)) s"
| sr_update: "sys_reach asSel c s \<Longrightarrow> \<forall>i. cinfo c (node_Name node) = Some i \<longrightarrow> ni_node i \<noteq> None \<Longrightarrow>
    UpdateNode asSel c old node = Some (c', err) \<Longrightarrow> sys_reach asSel c' s"
| sr_remove: "sys_reach asSel c s \<Longrightarrow> sys_reach asSel (fst (RemoveNode c node)) s"
| sr_snapshot: "sys_reach asSel c s \<Longrightarrow> no_ghosts c \<Longrightarrow> UpdateSnapshot c s = Some (c', s', err) \<Longrightarrow>
    sys_reach asSel c' s'"

lemma cache_inv_same_tree:
  assumes "cache_inv c" "same_nodes (sc_nodeTree c) t"
  shows "cache_inv (c\<lparr>sc_nodeTree := t\<rparr>)"
proof -
  obtain ks where inv: "nodes_inv c ks" "pods_inv c" using assms(1) by (rule cache_invE)
  have "pods_inv (c\<lparr>sc_nodeTree := t\<rparr>)"
    using inv(2) by (intro pods_inv_nodes [OF inv(2)]) (simp_all add: uids_at_def pods_inv_def infos_kept_def)
  with nodes_inv_same_tree [OF inv(1) assms(2)] show ?thesis by (auto simp: cache_inv_def)
qed

lemma newSnapshot_rel: "0 \<le> gen \<Longrightarrow> snap_rel (newSchedulerCache ttl period gen) NewEmptySnapshot"
  by (simp add: snap_rel_def snap_wf_def snap_map_ok_def NewEmptySnapshot_def newSchedulerCache_def infos_of_def)

lemma snap_rel_same_tree: "snap_rel c s \<Longrightarrow> snap_rel (c\<lparr>sc_nodeTree := t\<rparr>) s"
  by (simp add: snap_rel_def)

lemma sys_reach_inv: "sys_reach asSel c s \<Longrightarrow> cache_inv c \<and> snap_rel c s"
proof (induction rule: sys_reach.induct)
  case (sr_new gen ttl period)
  then show ?case using newSchedulerCache_inv newSnapshot_rel by blast
next
  case (sr_pod c s ev c' err)
  then show ?case using run_event_inv [of c ev asSel c' err] snap_rel_evolves by auto
next
  case (sr_add c s node)
  then show ?case using AddNode_inv [of c asSel node] snap_rel_evolves by auto
next
  case (sr_update c s node old c' err)
  then show ?case using UpdateNode_inv [of c node asSel old] snap_rel_evolves by auto
next
  case (sr_remove c s node)
  then show ?case using RemoveNode_inv [of c node] snap_rel_evolves by auto
next
  case (sr_snapshot c s c' s' err)
  then obtain t where "c' = c\<lparr>sc_nodeTree := t\<rparr>" "same_nodes (sc_nodeTree c) t" "snap_rel c s'"
    using UpdateSnapshot_ok [of c s] by auto
  with sr_snapshot.IH show ?case using cache_inv_same_tree snap_rel_same_tree by blast
qed

text \<open>What a client of the snapshot reads.\<close>

lemma snapshot_reads:
  assumes wf: "snap_wf s" and eq: "sinfo s = cinfo c" and ng: "no_ghosts c" and inv: "nodes_inv c ks"
  shows "Snapshot_Get s k = Inr i \<longleftrightarrow> cinfo c k = Some i"
    and "HavePodsWithAffinityList s = filter has_aff (Snapshot_List s)"
    and "mset (Snapshot_List s) = image_mset (\<lambda>k. the (cinfo c k)) (mset (tree_names (sc_nodeTree c)))"
proof -
  have get: "gm_get (sn_nodeInfoMap s) k = Some a \<Longrightarrow> cinfo c k = Some (sn_info s a)" for k a
    unfolding eq [symmetric] by (simp add: sinfo_def)
  show "Snapshot_Get s k = Inr i \<longleftrightarrow> cinfo c k = Some i"
  proof (cases "gm_get (sn_nodeInfoMap s) k")
    case None
    then have "cinfo c k = None" unfolding eq [symmetric] by (simp add: sinfo_def)
    with None show ?thesis by (simp add: Snapshot_Get_def)
  next
    case (Some a)
    from get [OF Some] ng Some show ?thesis by (auto simp: Snapshot_Get_def no_ghosts_def)
  qed
  show "HavePodsWithAffinityList s = filter has_aff (Snapshot_List s)"
    using wf by (simp add: snap_wf_def HavePodsWithAffinityList_def Snapshot_List_def filter_map o_def)
  have g: "gm_ok (sn_nodeInfoMap s)" using wf by (simp add: snap_wf_def snap_map_ok_def)
  have "mset (Snapshot_List s) = image_mset (sn_info s) (mset (map snd (sn_nodeInfoMap s)))"
    using wf by (simp add: snap_wf_def Snapshot_List_def)
  also have "\<dots> = image_mset (\<lambda>k. the (cinfo c k)) (mset (gm_keys (sn_nodeInfoMap s)))"
  proof -
    have "the (cinfo c (fst e)) = sn_info s (snd e)" if "e \<in> set (sn_nodeInfoMap s)" for e
      using get [of "fst e" "snd e"] gm_get_eq_Some [OF g, of "fst e" "snd e"] that by simp
    then have "map (\<lambda>k. the (cinfo c k)) (gm_keys (sn_nodeInfoMap s)) = map (sn_info s) (map snd (sn_nodeInfoMap s))"
      by simp
    then show ?thesis by (metis mset_map)
  qed
  also have "mset (gm_keys (sn_nodeInfoMap s)) = mset (tree_names (sc_nodeTree c))"
  proof -
    have "k \<in> set (gm_keys (sn_nodeInfoMap s)) \<longleftrightarrow> k \<in> set (tree_names (sc_nodeTree c))" for k
      using sinfo_keys [of k s] inv ng unfolding eq nodes_inv_def no_ghosts_def by auto
    moreover have "distinct (tree_names (sc_nodeTree c))"
      using inv by (simp add: nodes_inv_def nt_wf_def nt_ok_def)
    ultimately show ?thesis using g by (metis gm_ok_def set_eq_iff_mset_eq_distinct subset_antisym subsetI)
  qed
  finally show "mset (Snapshot_List s) = image_mset (\<lambda>k. the (cinfo c k)) (mset (tree_names (sc_nodeTree c)))" .
qed

lemma infos_empty: "infos_of [] = Map.empty"
  by (simp add: infos_of_def fun_eq_iff)

subsection \<open>Properties\<close>



declare update_loop.simps [code] next_loop.simps [code]

text \<open>A node with a pod, a snapshot, the node deleted, and a second snapshot.\<close>

definition ghost_run :: "(Snapshot \<times> error option) option" where
  "ghost_run =
    (let c1 = fst (AddNode no_sel (newSchedulerCache 30 1 0) (demo_node ''n1''));
         c2 = fst (AssumePod no_sel c1 ((demo_pod ''a'')\<lparr>pod_NodeName := ''n1''\<rparr>))
     in do { (c3, s3, e3) \<leftarrow> UpdateSnapshot c2 NewEmptySnapshot;
             let c4 = fst (RemoveNode c3 (demo_node ''n1''));
             (c5, s5, e5) \<leftarrow> UpdateSnapshot c4 s3;
             Some (s5, e5) })"


end
