(* ===== verification/Sched_Heap.thy ===== *)
theory Sched_Heap
  imports Go_Base
begin

text \<open>
  \<^verbatim>\<open>scheduler/internal/heap/heap.go\<close>: the keyed binary heap behind \<open>activeQ\<close> and
  \<open>podBackoffQ\<close>, on top of Go's \<^verbatim>\<open>container/heap\<close> (\<open>up\<close>, \<open>down\<close>, \<open>Push\<close>, \<open>Pop\<close>,
  \<open>Remove\<close>, \<open>Fix\<close>). The queue holds keys, the map \<open>items\<close> holds the objects with their
  position in the queue.

  Shown: every operation keeps the map and the queue in step and the heap order; it never
  panics on a well-formed heap (only \<open>Pop\<close> on an empty one does); the contents change as
  those of a map; \<open>Peek\<close> and \<open>Pop\<close> give an object that no other object precedes; the metric
  recorder counts the objects.
\<close>

subsection \<open>State\<close>

record 'a heapItem =
  hi_obj :: 'a
  hi_index :: nat

record 'a data =
  items :: "(string, 'a heapItem) gomap"
  queue :: "string list"
  keyFunc :: "'a \<Rightarrow> error + string"
  lessFunc :: "'a \<Rightarrow> 'a \<Rightarrow> bool"

text \<open>The recorder is a gauge that may be absent (\<open>nil\<close>).\<close>

record 'a Heap =
  h_data :: "'a data"
  metricRecorder :: "int option"

subsection \<open>The methods of \<open>data\<close>\<close>

definition data_Less :: "'a data \<Rightarrow> nat \<Rightarrow> nat \<Rightarrow> bool option" where
  "data_Less h i j =
    (if i > length (queue h) \<or> j > length (queue h) then Some False
     else if i = length (queue h) then None
     else case gm_get (items h) (queue h ! i) of
       None \<Rightarrow> Some False
     | Some itemi \<Rightarrow>
         if j = length (queue h) then None
         else case gm_get (items h) (queue h ! j) of
           None \<Rightarrow> Some False
         | Some itemj \<Rightarrow> Some (lessFunc h (hi_obj itemi) (hi_obj itemj)))"

definition data_Len :: "'a data \<Rightarrow> nat" where
  "data_Len h = length (queue h)"

definition swp :: "nat \<Rightarrow> nat \<Rightarrow> 'a list \<Rightarrow> 'a list" where
  "swp i j xs = xs[i := xs ! j, j := xs ! i]"

definition set_index :: "'a data \<Rightarrow> string \<Rightarrow> nat \<Rightarrow> 'a data option" where
  "set_index h key n =
    (case gm_get (items h) key of
       None \<Rightarrow> None
     | Some item \<Rightarrow> Some (h\<lparr>items := gm_put (items h) key (item\<lparr>hi_index := n\<rparr>)\<rparr>))"

definition data_Swap :: "'a data \<Rightarrow> nat \<Rightarrow> nat \<Rightarrow> 'a data option" where
  "data_Swap h i j =
    (if i < length (queue h) \<and> j < length (queue h) then
       let q = swp i j (queue h) in
       do { h1 \<leftarrow> set_index (h\<lparr>queue := q\<rparr>) (q ! i) i;
            set_index h1 (q ! j) j }
     else None)"

definition data_Push :: "'a data \<Rightarrow> string \<Rightarrow> 'a \<Rightarrow> 'a data" where
  "data_Push h key x =
    h\<lparr>items := gm_put (items h) key \<lparr>hi_obj = x, hi_index = length (queue h)\<rparr>,
      queue := queue h @ [key]\<rparr>"

definition data_Pop :: "'a data \<Rightarrow> ('a option \<times> 'a data) option" where
  "data_Pop h =
    (if queue h = [] then None
     else let key = last (queue h); h1 = h\<lparr>queue := butlast (queue h)\<rparr> in
       case gm_get (items h) key of
         None \<Rightarrow> Some (None, h1)
       | Some item \<Rightarrow> Some (Some (hi_obj item), h1\<lparr>items := gm_del (items h) key\<rparr>))"

definition data_Peek :: "'a data \<Rightarrow> 'a option option" where
  "data_Peek h =
    (if length (queue h) > 0 then
       case gm_get (items h) (queue h ! 0) of
         None \<Rightarrow> None
       | Some item \<Rightarrow> Some (Some (hi_obj item))
     else Some None)"

subsection \<open>Go's container/heap on \<open>data\<close>\<close>

function heap_up :: "'a data \<Rightarrow> nat \<Rightarrow> 'a data option" where
  "heap_up h j =
    (let i = (j - 1) div 2 in
     if i = j then Some h
     else do { l \<leftarrow> data_Less h j i;
               if l then do { h' \<leftarrow> data_Swap h i j; heap_up h' i } else Some h })"
  by pat_completeness auto
termination
  by (relation "measure snd") auto

text \<open>\<open>down\<close> returns the final position of the element that started at \<open>i\<close>.\<close>

function heap_down_loop :: "'a data \<Rightarrow> nat \<Rightarrow> nat \<Rightarrow> ('a data \<times> nat) option" where
  "heap_down_loop h i n =
    (let j1 = 2 * i + 1; j2 = j1 + 1 in
     if j1 \<ge> n then Some (h, i)
     else do {
       right \<leftarrow> (if j2 < n then data_Less h j2 j1 else Some False);
       let j = (if right then j2 else j1);
       l \<leftarrow> data_Less h j i;
       if \<not> l then Some (h, i)
       else do { h' \<leftarrow> data_Swap h i j; heap_down_loop h' j n } })"
  by pat_completeness auto
termination
  by (relation "measure (\<lambda>(h, i, n). n - i)") auto

definition heap_down :: "'a data \<Rightarrow> nat \<Rightarrow> nat \<Rightarrow> ('a data \<times> bool) option" where
  "heap_down h i0 n = do { (h', i) \<leftarrow> heap_down_loop h i0 n; Some (h', i > i0) }"

definition heap_Push :: "'a data \<Rightarrow> string \<Rightarrow> 'a \<Rightarrow> 'a data option" where
  "heap_Push h key x = (let h' = data_Push h key x in heap_up h' (data_Len h' - 1))"

definition heap_Pop :: "'a data \<Rightarrow> ('a option \<times> 'a data) option" where
  "heap_Pop h =
    (if data_Len h = 0 then None
     else let n = data_Len h - 1 in
       do { h1 \<leftarrow> data_Swap h 0 n;
            (h2, _) \<leftarrow> heap_down h1 0 n;
            data_Pop h2 })"

definition heap_Remove :: "'a data \<Rightarrow> nat \<Rightarrow> ('a option \<times> 'a data) option" where
  "heap_Remove h i =
    (if data_Len h = 0 then None
     else let n = data_Len h - 1 in
       if n \<noteq> i then
         do { h1 \<leftarrow> data_Swap h i n;
              (h2, moved) \<leftarrow> heap_down h1 i n;
              h3 \<leftarrow> (if \<not> moved then heap_up h2 i else Some h2);
              data_Pop h3 }
       else data_Pop h)"

definition heap_Fix :: "'a data \<Rightarrow> nat \<Rightarrow> 'a data option" where
  "heap_Fix h i =
    do { (h1, moved) \<leftarrow> heap_down h i (data_Len h);
         if \<not> moved then heap_up h1 i else Some h1 }"

subsection \<open>The methods of \<open>Heap\<close>\<close>

definition Heap_Inc :: "'a Heap \<Rightarrow> 'a Heap" where
  "Heap_Inc h = h\<lparr>metricRecorder := map_option (\<lambda>c. c + 1) (metricRecorder h)\<rparr>"

definition Heap_Dec :: "'a Heap \<Rightarrow> 'a Heap" where
  "Heap_Dec h = h\<lparr>metricRecorder := map_option (\<lambda>c. c - 1) (metricRecorder h)\<rparr>"

definition set_obj :: "'a data \<Rightarrow> string \<Rightarrow> 'a \<Rightarrow> 'a data" where
  "set_obj d key x =
    (case gm_get (items d) key of
       None \<Rightarrow> d
     | Some item \<Rightarrow> d\<lparr>items := gm_put (items d) key (item\<lparr>hi_obj := x\<rparr>)\<rparr>)"

definition Heap_Add :: "'a Heap \<Rightarrow> 'a \<Rightarrow> ('a Heap \<times> error option) option" where
  "Heap_Add h x =
    (case keyFunc (h_data h) x of
       Inl e \<Rightarrow> Some (h, Some e)
     | Inr key \<Rightarrow>
         (case gm_get (items (h_data h)) key of
            Some item \<Rightarrow>
              do { d \<leftarrow> heap_Fix (set_obj (h_data h) key x) (hi_index item);
                   Some (h\<lparr>h_data := d\<rparr>, None) }
          | None \<Rightarrow>
              do { d \<leftarrow> heap_Push (h_data h) key x;
                   Some (Heap_Inc (h\<lparr>h_data := d\<rparr>), None) }))"

definition Heap_AddIfNotPresent :: "'a Heap \<Rightarrow> 'a \<Rightarrow> ('a Heap \<times> error option) option" where
  "Heap_AddIfNotPresent h x =
    (case keyFunc (h_data h) x of
       Inl e \<Rightarrow> Some (h, Some e)
     | Inr key \<Rightarrow>
         (case gm_get (items (h_data h)) key of
            Some item \<Rightarrow> Some (h, None)
          | None \<Rightarrow>
              do { d \<leftarrow> heap_Push (h_data h) key x;
                   Some (Heap_Inc (h\<lparr>h_data := d\<rparr>), None) }))"

definition Heap_Update :: "'a Heap \<Rightarrow> 'a \<Rightarrow> ('a Heap \<times> error option) option" where
  "Heap_Update h x = Heap_Add h x"

definition Heap_Delete :: "'a Heap \<Rightarrow> 'a \<Rightarrow> ('a Heap \<times> error option) option" where
  "Heap_Delete h x =
    (case keyFunc (h_data h) x of
       Inl e \<Rightarrow> Some (h, Some e)
     | Inr key \<Rightarrow>
         (case gm_get (items (h_data h)) key of
            Some item \<Rightarrow>
              do { (_, d) \<leftarrow> heap_Remove (h_data h) (hi_index item);
                   Some (Heap_Dec (h\<lparr>h_data := d\<rparr>), None) }
          | None \<Rightarrow> Some (h, Some ''object not found'')))"

definition Heap_Peek :: "'a Heap \<Rightarrow> 'a option option" where
  "Heap_Peek h = data_Peek (h_data h)"

definition Heap_Pop :: "'a Heap \<Rightarrow> ((error + 'a) \<times> 'a Heap) option" where
  "Heap_Pop h =
    do { (r, d) \<leftarrow> heap_Pop (h_data h);
         case r of
           Some x \<Rightarrow> Some (Inr x, Heap_Dec (h\<lparr>h_data := d\<rparr>))
         | None \<Rightarrow> Some (Inl ''object was removed from heap data'', h\<lparr>h_data := d\<rparr>) }"

definition Heap_GetByKey :: "'a Heap \<Rightarrow> string \<Rightarrow> 'a option" where
  "Heap_GetByKey h key = map_option hi_obj (gm_get (items (h_data h)) key)"

definition Heap_Get :: "'a Heap \<Rightarrow> 'a \<Rightarrow> error + 'a option" where
  "Heap_Get h x =
    (case keyFunc (h_data h) x of
       Inl e \<Rightarrow> Inl e
     | Inr key \<Rightarrow> Inr (Heap_GetByKey h key))"

definition Heap_List :: "'a Heap \<Rightarrow> 'a list" where
  "Heap_List h = map (hi_obj \<circ> snd) (items (h_data h))"

definition Heap_Len :: "'a Heap \<Rightarrow> nat" where
  "Heap_Len h = length (queue (h_data h))"

definition NewWithRecorder ::
    "('a \<Rightarrow> error + string) \<Rightarrow> ('a \<Rightarrow> 'a \<Rightarrow> bool) \<Rightarrow> int option \<Rightarrow> 'a Heap" where
  "NewWithRecorder keyFn lessFn recorder =
    \<lparr>h_data = \<lparr>items = [], queue = [], keyFunc = keyFn, lessFunc = lessFn\<rparr>,
     metricRecorder = recorder\<rparr>"

definition New_Heap :: "('a \<Rightarrow> error + string) \<Rightarrow> ('a \<Rightarrow> 'a \<Rightarrow> bool) \<Rightarrow> 'a Heap" where
  "New_Heap keyFn lessFn = NewWithRecorder keyFn lessFn None"

declare heap_up.simps [simp del] heap_down_loop.simps [simp del]

subsection \<open>The map and the queue in step\<close>

definition index_ok :: "'a data \<Rightarrow> bool" where
  "index_ok d \<longleftrightarrow> gm_ok (items d) \<and> distinct (queue d) \<and>
     fst ` set (items d) = set (queue d) \<and>
     (\<forall>i<length (queue d). \<exists>it. gm_get (items d) (queue d ! i) = Some it \<and> hi_index it = i)"

definition objs :: "'a data \<Rightarrow> 'a list" where
  "objs d = map (\<lambda>k. hi_obj (the (gm_get (items d) k))) (queue d)"

definition contents :: "'a data \<Rightarrow> string \<Rightarrow> 'a option" where
  "contents d k = map_option hi_obj (gm_get (items d) k)"

text \<open>What the moves of \<open>up\<close> and \<open>down\<close> leave alone: everything but the order.\<close>

definition same_but_order :: "'a data \<Rightarrow> 'a data \<Rightarrow> bool" where
  "same_but_order d d' \<longleftrightarrow> index_ok d' \<and> contents d' = contents d \<and>
     keyFunc d' = keyFunc d \<and> lessFunc d' = lessFunc d \<and> length (queue d') = length (queue d)"

lemma length_objs [simp]: "length (objs d) = length (queue d)"
  by (simp add: objs_def)

lemma length_swp [simp]: "length (swp i j xs) = length xs"
  by (simp add: swp_def)

lemma nth_swp: "i < length xs \<Longrightarrow> j < length xs \<Longrightarrow> k < length xs \<Longrightarrow>
    swp i j xs ! k = (if k = i then xs ! j else if k = j then xs ! i else xs ! k)"
  by (auto simp: swp_def nth_list_update)

lemma mset_swp: "i < length xs \<Longrightarrow> j < length xs \<Longrightarrow> mset (swp i j xs) = mset xs"
  by (simp add: swp_def mset_swap)

lemma set_swp: "i < length xs \<Longrightarrow> j < length xs \<Longrightarrow> set (swp i j xs) = set xs"
  by (metis mset_swp set_mset_mset)

lemma distinct_swp: "i < length xs \<Longrightarrow> j < length xs \<Longrightarrow> distinct (swp i j xs) = distinct xs"
  by (metis mset_swp mset_eq_imp_distinct_iff)

lemma index_okD: "index_ok d \<Longrightarrow> i < length (queue d) \<Longrightarrow>
    \<exists>it. gm_get (items d) (queue d ! i) = Some it \<and> hi_index it = i \<and> objs d ! i = hi_obj it"
  unfolding index_ok_def objs_def by fastforce

lemma index_ok_get: "index_ok d \<Longrightarrow> gm_get (items d) k = Some it \<Longrightarrow>
    hi_index it < length (queue d) \<and> queue d ! hi_index it = k \<and> objs d ! hi_index it = hi_obj it"
proof -
  assume ok: "index_ok d" and g: "gm_get (items d) k = Some it"
  then have "k \<in> set (queue d)"
    unfolding index_ok_def by (metis gm_get_eq_None option.distinct(1))
  then obtain i where i: "i < length (queue d)" "queue d ! i = k"
    by (auto simp: in_set_conv_nth)
  with index_okD [OF ok i(1)] g show ?thesis by auto
qed

lemma contents_nth: "index_ok d \<Longrightarrow> i < length (queue d) \<Longrightarrow>
    contents d (queue d ! i) = Some (objs d ! i)"
  using index_okD [of d i] by (auto simp: contents_def)

lemma dom_contents: "index_ok d \<Longrightarrow> dom (contents d) = set (queue d)"
  by (auto simp: index_ok_def contents_def dom_def gm_get_eq_None dest: gm_get_in_set)

lemma same_but_order_refl: "index_ok d \<Longrightarrow> same_but_order d d"
  by (simp add: same_but_order_def)

lemma same_but_order_trans:
  "same_but_order a b \<Longrightarrow> same_but_order b c \<Longrightarrow> same_but_order a c"
  by (simp add: same_but_order_def)

lemma same_but_order_ok: "same_but_order a b \<Longrightarrow> index_ok b"
  by (simp add: same_but_order_def)

lemma Less_ok: "index_ok d \<Longrightarrow> i < length (queue d) \<Longrightarrow> j < length (queue d) \<Longrightarrow>
    data_Less d i j = Some (lessFunc d (objs d ! i) (objs d ! j))"
  using index_okD [of d i] index_okD [of d j] by (auto simp: data_Less_def)

lemma Swap_ok:
  assumes ok: "index_ok d" and i: "i < length (queue d)" and j: "j < length (queue d)"
  shows "\<exists>d'. data_Swap d i j = Some d' \<and> same_but_order d d' \<and>
    queue d' = swp i j (queue d) \<and> objs d' = swp i j (objs d)"
proof -
  let ?q = "swp i j (queue d)"
  obtain a b where a: "gm_get (items d) (queue d ! i) = Some a" "hi_index a = i"
      and b: "gm_get (items d) (queue d ! j) = Some b" "hi_index b = j"
    using index_okD [OF ok i] index_okD [OF ok j] by blast
  define m where "m = gm_put (gm_put (items d) (queue d ! j) (b\<lparr>hi_index := i\<rparr>))
      (queue d ! i) (a\<lparr>hi_index := j\<rparr>)"
  have dist: "distinct (queue d)" using ok by (simp add: index_ok_def)
  have inj: "queue d ! i = queue d ! j \<longleftrightarrow> i = j"
    using dist i j by (simp add: nth_eq_iff_index_eq)
  have qi: "?q ! i = queue d ! j" and qj: "?q ! j = queue d ! i"
    using i j by (auto simp: nth_swp)
  have sw: "data_Swap d i j = Some (d\<lparr>queue := ?q, items := m\<rparr>)"
  proof (cases "i = j")
    case True
    then have "a = b" using a b by simp
    with True i b show ?thesis by (simp add: data_Swap_def set_index_def nth_swp m_def Let_def)
  next
    case False
    then have "queue d ! i \<noteq> queue d ! j" using inj by simp
    with i j a b show ?thesis by (simp add: data_Swap_def set_index_def qi qj m_def Let_def)
  qed
  have get: "gm_get m k = (if k = queue d ! i then Some (a\<lparr>hi_index := j\<rparr>)
      else if k = queue d ! j then Some (b\<lparr>hi_index := i\<rparr>) else gm_get (items d) k)" for k
    by (simp add: m_def)
  have cont: "map_option hi_obj (gm_get m k) = map_option hi_obj (gm_get (items d) k)" for k
    using a b by (simp add: get)
  have idx: "\<exists>it. gm_get m (?q ! k) = Some it \<and> hi_index it = k" if k: "k < length (queue d)" for k
  proof -
    have "queue d ! k = queue d ! i \<longleftrightarrow> k = i" "queue d ! k = queue d ! j \<longleftrightarrow> k = j"
      using dist i j k by (simp_all add: nth_eq_iff_index_eq)
    then show ?thesis
      using index_okD [OF ok k] i j k inj by (simp add: get nth_swp) metis
  qed
  have keys: "fst ` set m = set ?q"
  proof -
    have "{queue d ! i, queue d ! j} \<subseteq> set (queue d)" using i j by simp
    moreover have "fst ` set (items d) = set (queue d)" using ok by (simp add: index_ok_def)
    ultimately show ?thesis
      unfolding m_def set_keys_put set_swp [OF i j] by blast
  qed
  have "index_ok (d\<lparr>queue := ?q, items := m\<rparr>)"
    using ok i j idx keys dist by (simp add: index_ok_def distinct_swp m_def)
  moreover have "objs (d\<lparr>queue := ?q, items := m\<rparr>) = swp i j (objs d)"
  proof (rule nth_equalityI)
    fix k assume k: "k < length (objs (d\<lparr>queue := ?q, items := m\<rparr>))"
    then have k': "k < length (queue d)" by simp
    have "hi_obj (the (gm_get m (?q ! k))) = the (map_option hi_obj (gm_get m (?q ! k)))"
      using idx [OF k'] by auto
    also have "\<dots> = the (map_option hi_obj (gm_get (items d) (?q ! k)))"
      by (simp add: cont)
    also have "\<dots> = swp i j (objs d) ! k"
      using index_okD [OF ok k'] a b i j k' by (auto simp: nth_swp objs_def)
    finally show "objs (d\<lparr>queue := ?q, items := m\<rparr>) ! k = swp i j (objs d) ! k"
      using k' by (simp add: objs_def)
  qed simp
  ultimately show ?thesis
    using sw cont by (simp add: same_but_order_def contents_def fun_eq_iff)
qed

lemma Push_ok:
  assumes ok: "index_ok d" and new: "contents d key = None"
  shows "index_ok (data_Push d key x) \<and> objs (data_Push d key x) = objs d @ [x] \<and>
    contents (data_Push d key x) = (contents d)(key \<mapsto> x)"
proof -
  have k: "key \<notin> set (queue d)" using new dom_contents [OF ok] by auto
  have *: "gm_get (items (data_Push d key x)) (queue d ! i) = gm_get (items d) (queue d ! i)"
    if "i < length (queue d)" for i
    using k that nth_mem [OF that] by (auto simp: data_Push_def)
  have "index_ok (data_Push d key x)"
    using ok k by (auto simp: index_ok_def data_Push_def nth_append less_Suc_eq dest: nth_mem)
  moreover have "objs (data_Push d key x) = objs d @ [x]"
    using k by (auto simp: objs_def data_Push_def)
  ultimately show ?thesis
    by (auto simp: contents_def data_Push_def fun_eq_iff)
qed

lemma set_obj_ok:
  assumes ok: "index_ok d" and it: "gm_get (items d) key = Some it"
  shows "index_ok (set_obj d key x) \<and> objs (set_obj d key x) = (objs d)[hi_index it := x] \<and>
    contents (set_obj d key x) = (contents d)(key \<mapsto> x) \<and> queue (set_obj d key x) = queue d"
proof -
  note ix = index_ok_get [OF ok it]
  have dist: "distinct (queue d)" and keys: "fst ` set (items d) = set (queue d)"
    using ok by (auto simp: index_ok_def)
  have key: "key \<in> set (queue d)" using ix by auto
  have "index_ok (set_obj d key x)"
    using ok it key by (auto simp: index_ok_def set_obj_def insert_absorb)
  moreover have "objs (set_obj d key x) = (objs d)[hi_index it := x]"
  proof (rule nth_equalityI)
    fix i assume "i < length (objs (set_obj d key x))"
    then have i: "i < length (queue d)" using it by (simp add: set_obj_def)
    have "queue d ! i = key \<longleftrightarrow> i = hi_index it"
      using ix dist i by (metis nth_eq_iff_index_eq)
    then show "objs (set_obj d key x) ! i = (objs d)[hi_index it := x] ! i"
      using it i by (auto simp: objs_def set_obj_def nth_list_update)
  qed (simp add: set_obj_def it)
  ultimately show ?thesis
    using it by (auto simp: contents_def set_obj_def fun_eq_iff)
qed

lemma data_Pop_ok:
  assumes ok: "index_ok d" and ne: "queue d \<noteq> []"
  shows "\<exists>d'. data_Pop d = Some (Some (last (objs d)), d') \<and> index_ok d' \<and>
    objs d' = butlast (objs d) \<and> queue d' = butlast (queue d) \<and>
    contents d' = (contents d)(last (queue d) := None) \<and>
    keyFunc d' = keyFunc d \<and> lessFunc d' = lessFunc d"
proof -
  let ?n = "length (queue d) - 1" and ?key = "last (queue d)"
  have n: "?n < length (queue d)" "queue d ! ?n = ?key"
    using ne by (auto simp: last_conv_nth)
  obtain it where it: "gm_get (items d) ?key = Some it" "objs d ! ?n = hi_obj it"
    using index_okD [OF ok n(1)] n(2) by auto
  define d' where "d' = d\<lparr>queue := butlast (queue d), items := gm_del (items d) ?key\<rparr>"
  have dist: "distinct (queue d)" using ok by (simp add: index_ok_def)
  then have ni: "?key \<notin> set (butlast (queue d))"
    using ne by (metis append_butlast_last_id distinct_append list.set_intros(1) disjoint_iff)
  have set: "set (queue d) = insert ?key (set (butlast (queue d)))"
    using ne by (metis append_butlast_last_id insert_is_Un list.simps(15) set_append sup_commute set_empty2)
  have nth: "butlast (queue d) ! k \<noteq> ?key" if "k < length (queue d) - 1" for k
    using ni that by (metis length_butlast nth_mem)
  have "last (objs d) = hi_obj it"
    using it(2) ne by (metis last_conv_nth length_objs length_0_conv)
  then have "data_Pop d = Some (Some (last (objs d)), d')"
    using ne it by (simp add: data_Pop_def d'_def Let_def)
  moreover have "index_ok d'"
    using ok ni set nth dist
    by (auto simp: index_ok_def d'_def distinct_butlast nth_butlast)
  moreover have "objs d' = butlast (objs d)"
    using ni by (auto simp: objs_def d'_def simp flip: map_butlast intro!: map_cong)
  moreover have "contents d' = (contents d)(?key := None)"
    by (auto simp: contents_def d'_def fun_eq_iff)
  ultimately show ?thesis by (auto simp: d'_def)
qed

subsection \<open>Heap order\<close>

text \<open>
  What \<open>container/heap\<close> asks of \<open>Less\<close>: a strict weak order. It is the contract between the
  heap and its two clients, the queue-sort plugin and the backoff comparison.
\<close>

definition par :: "nat \<Rightarrow> nat" where
  "par k = (k - 1) div 2"

definition heap_ordered :: "('a \<Rightarrow> 'a \<Rightarrow> bool) \<Rightarrow> 'a list \<Rightarrow> nat \<Rightarrow> bool" where
  "heap_ordered lt xs n \<longleftrightarrow> (\<forall>k. 0 < k \<and> k < n \<longrightarrow> \<not> lt (xs ! k) (xs ! par k))"

text \<open>The order holds but for the pairs that involve position \<open>i\<close>.\<close>

definition hole :: "('a \<Rightarrow> 'a \<Rightarrow> bool) \<Rightarrow> 'a list \<Rightarrow> nat \<Rightarrow> nat \<Rightarrow> bool" where
  "hole lt xs i n \<longleftrightarrow>
     (\<forall>k. 0 < k \<and> k < n \<and> k \<noteq> i \<and> par k \<noteq> i \<longrightarrow> \<not> lt (xs ! k) (xs ! par k)) \<and>
     (\<forall>k. 0 < i \<and> 0 < k \<and> k < n \<and> par k = i \<longrightarrow> \<not> lt (xs ! k) (xs ! par i))"

definition below_ok :: "('a \<Rightarrow> 'a \<Rightarrow> bool) \<Rightarrow> 'a list \<Rightarrow> nat \<Rightarrow> nat \<Rightarrow> bool" where
  "below_ok lt xs i n \<longleftrightarrow> (\<forall>k. 0 < k \<and> k < n \<and> par k = i \<longrightarrow> \<not> lt (xs ! k) (xs ! i))"

definition above_ok :: "('a \<Rightarrow> 'a \<Rightarrow> bool) \<Rightarrow> 'a list \<Rightarrow> nat \<Rightarrow> bool" where
  "above_ok lt xs i \<longleftrightarrow> (0 < i \<longrightarrow> \<not> lt (xs ! i) (xs ! par i))"

lemma par_less: "0 < k \<Longrightarrow> par k < k"
  by (simp add: par_def)

lemma par_child: "0 < k \<Longrightarrow> par k = i \<longleftrightarrow> k = 2 * i + 1 \<or> k = 2 * i + 2"
  by (auto simp: par_def)

locale strict_weak_order =
  fixes lt :: "'a \<Rightarrow> 'a \<Rightarrow> bool"
  assumes less_asym: "lt x y \<Longrightarrow> \<not> lt y x"
    and less_neg_trans: "\<not> lt x y \<Longrightarrow> \<not> lt y z \<Longrightarrow> \<not> lt x z"
begin

lemma less_irrefl: "\<not> lt x x"
  using less_asym by blast

lemma less_trans: "lt x y \<Longrightarrow> lt y z \<Longrightarrow> lt x z"
  using less_asym less_neg_trans by blast

lemma heap_orderedI: "hole lt xs i n \<Longrightarrow> below_ok lt xs i n \<Longrightarrow> above_ok lt xs i \<Longrightarrow>
    heap_ordered lt xs n"
  unfolding heap_ordered_def hole_def below_ok_def above_ok_def by metis

lemma heap_ordered_imp_hole:
  assumes h: "heap_ordered lt xs n" and i: "i < n"
  shows "hole lt xs i n \<and> below_ok lt xs i n \<and> above_ok lt xs i"
proof -
  have "\<not> lt (xs ! k) (xs ! par i)" if "0 < i" "0 < k" "k < n" "par k = i" for k
  proof -
    have "\<not> lt (xs ! k) (xs ! i)" "\<not> lt (xs ! i) (xs ! par i)"
      using h that i by (auto simp: heap_ordered_def)
    then show ?thesis by (rule less_neg_trans)
  qed
  with h i show ?thesis
    by (auto simp: heap_ordered_def hole_def below_ok_def above_ok_def)
qed

text \<open>Replacing the element at \<open>i\<close> leaves a hole at \<open>i\<close>.\<close>

lemma hole_replace:
  assumes "heap_ordered lt xs n" and "i < n" and "\<And>k. k < n \<Longrightarrow> k \<noteq> i \<Longrightarrow> ys ! k = xs ! k"
  shows "hole lt ys i n"
proof -
  have h: "hole lt xs i n" using heap_ordered_imp_hole assms(1,2) by blast
  have p: "par k < n" if "0 < k" "k < n" for k using par_less [OF that(1)] that(2) by simp
  show ?thesis
    using h assms(2,3) p par_less unfolding hole_def by (metis less_not_refl)
qed

lemma root_least: "heap_ordered lt xs n \<Longrightarrow> k < n \<Longrightarrow> \<not> lt (xs ! k) (xs ! 0)"
proof (induction k rule: less_induct)
  case (less k)
  show ?case
  proof (cases "k = 0")
    case True
    then show ?thesis by (simp add: less_irrefl)
  next
    case False
    then have "par k < k" by (simp add: par_less)
    moreover from this less.prems have "\<not> lt (xs ! par k) (xs ! 0)"
      by (intro less.IH) auto
    moreover have "\<not> lt (xs ! k) (xs ! par k)"
      using less.prems False by (simp add: heap_ordered_def)
    ultimately show ?thesis using less_neg_trans by blast
  qed
qed

lemma down_step:
  assumes h: "hole lt xs i n" and n: "n \<le> length xs"
    and j: "0 < j" "j < n" "par j = i"
    and least: "\<And>k. 0 < k \<Longrightarrow> k < n \<Longrightarrow> par k = i \<Longrightarrow> \<not> lt (xs ! k) (xs ! j)"
    and jlt: "lt (xs ! j) (xs ! i)"
  shows "hole lt (swp i j xs) j n \<and> above_ok lt (swp i j xs) j"
proof -
  have ij: "i < j" using par_less j by auto
  have nth: "swp i j xs ! k = (if k = i then xs ! j else if k = j then xs ! i else xs ! k)"
    if "k < n" for k
    using that n j ij by (intro nth_swp) auto
  have "\<not> lt (swp i j xs ! k) (swp i j xs ! par k)"
    if k: "0 < k" "k < n" "k \<noteq> j" "par k \<noteq> j" for k
  proof -
    have p: "par k < k" using k by (simp add: par_less)
    consider "par k = i" | "k = i" | "par k \<noteq> i" "k \<noteq> i" by blast
    then show ?thesis
    proof cases
      case 1
      then show ?thesis using k ij p nth [of k] nth [of "par k"] least [of k] by auto
    next
      case 2
      then show ?thesis using k ij p nth [of k] nth [of "par k"] h j by (auto simp: hole_def)
    next
      case 3
      then show ?thesis using k ij p nth [of k] nth [of "par k"] h by (auto simp: hole_def)
    qed
  qed
  moreover have "\<not> lt (swp i j xs ! k) (swp i j xs ! par j)"
    if k: "0 < k" "k < n" "par k = j" for k
  proof -
    have "j < k" using par_less k by auto
    then show ?thesis using k ij j nth [of k] nth [of i] h by (auto simp: hole_def)
  qed
  moreover have "\<not> lt (swp i j xs ! j) (swp i j xs ! par j)"
    using jlt less_asym ij j nth [of i] nth [of j] by auto
  ultimately show ?thesis by (auto simp: hole_def above_ok_def)
qed

lemma up_step:
  assumes h: "hole lt xs j n" and n: "n \<le> length xs" and j: "0 < j" "j < n"
    and b: "below_ok lt xs j n" and jlt: "lt (xs ! j) (xs ! par j)"
  shows "hole lt (swp (par j) j xs) (par j) n \<and> below_ok lt (swp (par j) j xs) (par j) n"
proof -
  let ?i = "par j" and ?ys = "swp (par j) j xs"
  have ij: "?i < j" using par_less j by auto
  have nth: "?ys ! k = (if k = ?i then xs ! j else if k = j then xs ! ?i else xs ! k)"
    if "k < n" for k
    using that n j ij by (intro nth_swp) auto
  have "\<not> lt (?ys ! k) (?ys ! par k)"
    if k: "0 < k" "k < n" "k \<noteq> ?i" "par k \<noteq> ?i" for k
  proof -
    have p: "par k < k" using k by (simp add: par_less)
    show ?thesis
      using k p j nth [of k] nth [of "par k"] h by (cases "par k = j") (auto simp: hole_def)
  qed
  moreover have "\<not> lt (?ys ! k) (?ys ! par ?i)"
    if k: "0 < ?i" "0 < k" "k < n" "par k = ?i" for k
  proof -
    have "par ?i < ?i" using k by (simp add: par_less)
    moreover have "\<not> lt (xs ! ?i) (xs ! par ?i)"
      using h k j calculation ij by (auto simp: hole_def)
    moreover have "k \<noteq> j \<Longrightarrow> \<not> lt (xs ! k) (xs ! ?i)"
      using h k ij by (auto simp: hole_def)
    ultimately show ?thesis
      using k j ij nth [of k] nth [of "par ?i"] less_neg_trans par_less [OF k(2)] by (auto split: if_splits)
  qed
  moreover have "\<not> lt (?ys ! k) (?ys ! ?i)" if k: "0 < k" "k < n" "par k = ?i" for k
  proof (cases "k = j")
    case True
    then show ?thesis using jlt less_asym j ij nth [of j] nth [of ?i] by auto
  next
    case False
    have "k \<noteq> ?i" using par_less [OF k(1)] k(3) by auto
    moreover have "\<not> lt (xs ! k) (xs ! ?i)" using h k False ij by (auto simp: hole_def)
    then have "\<not> lt (xs ! k) (xs ! j)" using jlt less_trans by blast
    ultimately show ?thesis using k False j ij nth [of k] nth [of ?i] by auto
  qed
  ultimately show ?thesis by (auto simp: hole_def below_ok_def)
qed

text \<open>The moves of \<open>up\<close> and \<open>down\<close> on the heap itself.\<close>

lemma heap_up_ok:
  assumes "index_ok d" "lessFunc d = lt" "n \<le> length (queue d)" "j < n"
    "hole lt (objs d) j n" "below_ok lt (objs d) j n"
  shows "\<exists>d'. heap_up d j = Some d' \<and> same_but_order d d' \<and> heap_ordered lt (objs d') n \<and>
    (\<forall>k. n \<le> k \<and> k < length (queue d) \<longrightarrow> queue d' ! k = queue d ! k)"
  using assms
proof (induction d j rule: heap_up.induct)
  case (1 d j)
  let ?i = "(j - 1) div 2"
  have i: "?i = par j" by (simp add: par_def)
  show ?case
  proof (cases "j = 0")
    case True
    then have "heap_ordered lt (objs d) n"
      using "1.prems" by (intro heap_orderedI) (auto simp: above_ok_def)
    with True "1.prems"(1) show ?thesis
      by (simp add: heap_up.simps [of d 0] same_but_order_refl)
  next
    case False
    then have ij: "?i < j" by auto
    have less: "data_Less d j ?i = Some (lt (objs d ! j) (objs d ! par j))"
      using "1.prems" ij by (simp add: Less_ok par_def)
    show ?thesis
    proof (cases "lt (objs d ! j) (objs d ! par j)")
      case True
      obtain d' where sw: "data_Swap d ?i j = Some d'" and same: "same_but_order d d'"
          and q: "queue d' = swp ?i j (queue d)" and o: "objs d' = swp (par j) j (objs d)"
        using Swap_ok [of d ?i j] "1.prems"(1,3,4) ij i by auto
      have st: "hole lt (objs d') (par j) n \<and> below_ok lt (objs d') (par j) n"
        unfolding o using "1.prems" False True by (intro up_step) auto
      have "\<exists>d''. heap_up d' ?i = Some d'' \<and> same_but_order d' d'' \<and> heap_ordered lt (objs d'') n \<and>
          (\<forall>k. n \<le> k \<and> k < length (queue d') \<longrightarrow> queue d'' ! k = queue d' ! k)"
        using "1.prems" False True less sw same st ij i
        by (intro "1.IH" [OF refl]) (auto simp: same_but_order_def)
      then obtain d'' where d'': "heap_up d' ?i = Some d''" "same_but_order d' d''"
          "heap_ordered lt (objs d'') n"
          "\<forall>k. n \<le> k \<and> k < length (queue d') \<longrightarrow> queue d'' ! k = queue d' ! k" by blast
      have "\<forall>k. n \<le> k \<and> k < length (queue d) \<longrightarrow> queue d'' ! k = queue d ! k"
        using d''(4) ij "1.prems"(3,4) by (auto simp: q nth_swp)
      moreover have "heap_up d j = Some d''"
        using False True less sw ij d''(1) by (simp add: heap_up.simps [of d j] Let_def)
      ultimately show ?thesis
        using d''(2,3) same same_but_order_trans by blast
    next
      case nlt: False
      then have "heap_ordered lt (objs d) n"
        using "1.prems" by (intro heap_orderedI) (auto simp: above_ok_def)
      with nlt less ij "1.prems"(1) show ?thesis
        by (simp add: heap_up.simps [of d j] Let_def same_but_order_refl)
    qed
  qed
qed

text \<open>
  \<open>down\<close> either leaves the heap as it is, with nothing below \<open>i\<close> that precedes it, or moves
  the element and closes the hole. Positions from \<open>n\<close> on stay as they are.
\<close>

definition down_post :: "'a data \<Rightarrow> nat \<Rightarrow> nat \<Rightarrow> 'a data \<Rightarrow> nat \<Rightarrow> bool" where
  "down_post d i n d' i' \<longleftrightarrow> same_but_order d d' \<and> i \<le> i' \<and>
     (\<forall>k. n \<le> k \<and> k < length (queue d) \<longrightarrow> queue d' ! k = queue d ! k) \<and>
     (i' = i \<longrightarrow> d' = d \<and> below_ok lt (objs d) i n) \<and>
     (i' \<noteq> i \<or> above_ok lt (objs d) i \<longrightarrow> heap_ordered lt (objs d') n)"

lemma down_stop:
  assumes "index_ok d" "hole lt (objs d) i n" "below_ok lt (objs d) i n"
  shows "down_post d i n d i"
  using assms heap_orderedI by (auto simp: down_post_def same_but_order_refl)

lemma heap_down_loop_ok:
  assumes "index_ok d" "lessFunc d = lt" "n \<le> length (queue d)" "i < length (queue d)"
    "hole lt (objs d) i n"
  shows "\<exists>d' i'. heap_down_loop d i n = Some (d', i') \<and> down_post d i n d' i'"
  using assms
proof (induction d i n rule: heap_down_loop.induct)
  case (1 d i n)
  let ?j1 = "2 * i + 1" and ?j2 = "2 * i + 1 + 1"
  show ?case
  proof (cases "?j1 \<ge> n")
    case True
    then have "\<not> (0 < k \<and> k < n \<and> par k = i)" for k
      using par_child [of k i] by linarith
    then have "below_ok lt (objs d) i n" unfolding below_ok_def by blast
    with "1.prems" have "down_post d i n d i" by (intro down_stop)
    with True show ?thesis by (simp add: heap_down_loop.simps [of d i n])
  next
    case False
    define right where "right = (?j2 < n \<and> lt (objs d ! ?j2) (objs d ! ?j1))"
    define j where "j = (if right then ?j2 else ?j1)"
    have r: "(if ?j2 < n then data_Less d ?j2 ?j1 else Some False) = Some right"
      using "1.prems" False by (auto simp: Less_ok right_def)
    have j: "0 < j" "j < n" "par j = i" "i < j"
      using False by (auto simp: j_def right_def par_def)
    have least: "\<not> lt (objs d ! k) (objs d ! j)" if "0 < k" "k < n" "par k = i" for k
      using that less_asym less_irrefl
      by (auto simp: par_child j_def right_def)
    have l: "data_Less d j i = Some (lt (objs d ! j) (objs d ! i))"
      using "1.prems" j by (simp add: Less_ok)
    have unf: "heap_down_loop d i n = do { l \<leftarrow> data_Less d j i;
        if \<not> l then Some (d, i) else do { h' \<leftarrow> data_Swap d i j; heap_down_loop h' j n } }"
      using False by (subst heap_down_loop.simps) (simp only: Let_def r bind.bind_lunit if_False j_def)
    show ?thesis
    proof (cases "lt (objs d ! j) (objs d ! i)")
      case True
      obtain d' where sw: "data_Swap d i j = Some d'" and same: "same_but_order d d'"
          and q: "queue d' = swp i j (queue d)" and o: "objs d' = swp i j (objs d)"
        using Swap_ok [of d i j] "1.prems"(1,3,4) j by auto
      have st: "hole lt (objs d') j n \<and> above_ok lt (objs d') j"
        unfolding o using "1.prems" j least True by (intro down_step) auto
      have "\<exists>e k. heap_down_loop d' j n = Some (e, k) \<and> down_post d' j n e k"
        using same st "1.prems" j True
        by (intro "1.IH" [OF refl refl False r j_def l _ sw]) (auto simp: same_but_order_def)
      then obtain e k where e: "heap_down_loop d' j n = Some (e, k)" "down_post d' j n e k"
        by blast
      have "down_post d i n e k"
        using e(2) same st j "1.prems" unfolding down_post_def q
        by (auto simp: same_but_order_def nth_swp)
      then show ?thesis
        using False r l True sw e(1) by (simp add: unf)
    next
      case nlt: False
      then have "below_ok lt (objs d) i n"
        using least less_neg_trans unfolding below_ok_def by blast
      with "1.prems" have "down_post d i n d i" by (intro down_stop)
      then show ?thesis
        using False r l nlt by (simp add: unf)
    qed
  qed
qed

text \<open>Sifting down and, when nothing moved, up closes any hole below \<open>n\<close>.\<close>

lemma sift_ok:
  assumes "index_ok d" "lessFunc d = lt" "n \<le> length (queue d)" "i < n" "hole lt (objs d) i n"
  shows "\<exists>d1 m d'. heap_down d i n = Some (d1, m) \<and>
    (if \<not> m then heap_up d1 i else Some d1) = Some d' \<and>
    same_but_order d d' \<and> heap_ordered lt (objs d') n \<and>
    (\<forall>k. n \<le> k \<and> k < length (queue d) \<longrightarrow> queue d' ! k = queue d ! k)"
proof -
  obtain d1 i' where d: "heap_down_loop d i n = Some (d1, i')" "down_post d i n d1 i'"
    using heap_down_loop_ok [of d n i] assms by auto
  then have down: "heap_down d i n = Some (d1, i' > i)" by (simp add: heap_down_def)
  show ?thesis
  proof (cases "i' = i")
    case True
    with d(2) have "d1 = d" "below_ok lt (objs d) i n" by (auto simp: down_post_def)
    with True heap_up_ok [of d n i] assms show ?thesis
      unfolding down by fastforce
  next
    case False
    with d(2) have "i < i'" by (auto simp: down_post_def)
    with False d(2) show ?thesis unfolding down by (auto simp: down_post_def)
  qed
qed

end

subsection \<open>The invariant of the heap and what its operations do\<close>

definition data_inv :: "'a data \<Rightarrow> bool" where
  "data_inv d \<longleftrightarrow> strict_weak_order (lessFunc d) \<and> index_ok d \<and>
     (\<forall>k x. contents d k = Some x \<longrightarrow> keyFunc d x = Inr k) \<and>
     heap_ordered (lessFunc d) (objs d) (length (queue d))"

definition heap_inv :: "'a Heap \<Rightarrow> bool" where
  "heap_inv h \<longleftrightarrow> data_inv (h_data h) \<and>
     (\<forall>c. metricRecorder h = Some c \<longrightarrow> c = int (length (queue (h_data h))))"

text \<open>The outcome of an operation: the invariant, the new contents, the same functions.\<close>

definition data_becomes :: "'a data \<Rightarrow> (string \<Rightarrow> 'a option) \<Rightarrow> 'a data \<Rightarrow> bool" where
  "data_becomes d m d' \<longleftrightarrow> data_inv d' \<and> contents d' = m \<and>
     keyFunc d' = keyFunc d \<and> lessFunc d' = lessFunc d"

lemma data_inv_index_ok: "data_inv d \<Longrightarrow> index_ok d"
  by (simp add: data_inv_def)

lemma length_queue_card: "index_ok d \<Longrightarrow> length (queue d) = card (dom (contents d))"
  by (simp add: dom_contents distinct_card index_ok_def)

lemma data_becomes_length: "data_becomes d m d' \<Longrightarrow> length (queue d') = card (dom m)"
  by (auto simp: data_becomes_def data_inv_def length_queue_card)

lemma heap_Push_ok:
  assumes inv: "data_inv d" and new: "contents d key = None" and key: "keyFunc d x = Inr key"
  shows "\<exists>d'. heap_Push d key x = Some d' \<and> data_becomes d ((contents d)(key \<mapsto> x)) d'"
proof -
  let ?d = "data_Push d key x" and ?lt = "lessFunc d"
  have swo: "strict_weak_order ?lt" and ok: "index_ok d" using inv by (auto simp: data_inv_def)
  note P = Push_ok [OF ok new, of x]
  let ?n = "Suc (length (queue d))"
  have q: "queue ?d = queue d @ [key]" and f: "lessFunc ?d = ?lt" "keyFunc ?d = keyFunc d"
    by (auto simp: data_Push_def)
  have ord: "heap_ordered ?lt (objs d) (length (queue d))" using inv by (simp add: data_inv_def)
  have "hole ?lt (objs ?d) (length (queue d)) ?n"
    using ord P par_less par_child unfolding hole_def heap_ordered_def
    by (auto simp: nth_append less_Suc_eq dest: par_less) 
  moreover have "below_ok ?lt (objs ?d) (length (queue d)) ?n"
    unfolding below_ok_def using par_less by (metis less_Suc_eq not_less_iff_gr_or_eq)
  ultimately obtain d' where "heap_up ?d (length (queue d)) = Some d'" "same_but_order ?d d'"
      "heap_ordered ?lt (objs d') ?n"
    using strict_weak_order.heap_up_ok [OF swo, of ?d ?n "length (queue d)"] P f q by auto
  then show ?thesis
    using inv P q f key
    by (auto simp: heap_Push_def data_becomes_def data_inv_def same_but_order_def data_Len_def)
qed

lemma heap_Fix_ok:
  assumes inv: "data_inv d" and it: "gm_get (items d) key = Some it" and key: "keyFunc d x = Inr key"
  shows "\<exists>d'. heap_Fix (set_obj d key x) (hi_index it) = Some d' \<and>
    data_becomes d ((contents d)(key \<mapsto> x)) d'"
proof -
  let ?d = "set_obj d key x" and ?lt = "lessFunc d" and ?i = "hi_index it"
    and ?n = "length (queue d)"
  have swo: "strict_weak_order ?lt" and ok: "index_ok d" using inv by (auto simp: data_inv_def)
  note S = set_obj_ok [OF ok it, of x] and I = index_ok_get [OF ok it]
  have f: "lessFunc ?d = ?lt" "keyFunc ?d = keyFunc d" using it by (auto simp: set_obj_def)
  have hole: "hole ?lt (objs ?d) ?i ?n"
    using strict_weak_order.hole_replace [OF swo, of "objs d" ?n ?i "objs ?d"] inv S I
    by (auto simp: data_inv_def)
  have "\<exists>d'. heap_Fix ?d ?i = Some d' \<and> same_but_order ?d d' \<and> heap_ordered ?lt (objs d') ?n"
    using strict_weak_order.sift_ok [OF swo, of ?d ?n ?i] S I f hole
    by (auto simp: heap_Fix_def data_Len_def)
  then show ?thesis
    using inv S I f key by (auto simp: data_becomes_def data_inv_def same_but_order_def)
qed

lemma heap_ordered_mono: "heap_ordered lt xs n \<Longrightarrow> m \<le> n \<Longrightarrow> heap_ordered lt xs m"
  by (simp add: heap_ordered_def)

lemma heap_ordered_butlast:
  assumes h: "heap_ordered lt xs n" and n: "n < length xs"
  shows "heap_ordered lt (butlast xs) n"
  unfolding heap_ordered_def
proof (intro allI impI)
  fix k assume k: "0 < k \<and> k < n"
  then have "par k < n" using par_less [of k] by simp
  with k n have "butlast xs ! k = xs ! k" "butlast xs ! par k = xs ! par k"
    by (auto intro: nth_butlast)
  with k h show "\<not> lt (butlast xs ! k) (butlast xs ! par k)"
    by (simp add: heap_ordered_def)
qed

text \<open>Taking the element at \<open>n\<close>, the last position, off a heap that is in order below \<open>n\<close>.\<close>

lemma Pop_last_ok:
  assumes inv: "data_inv d" and same: "same_but_order d d1"
    and n: "Suc n = length (queue d)" and ord: "heap_ordered (lessFunc d) (objs d1) n"
    and key: "queue d1 ! n = key"
  shows "\<exists>d' x. data_Pop d1 = Some (Some x, d') \<and> contents d key = Some x \<and>
    data_becomes d ((contents d)(key := None)) d'"
proof -
  have ok1: "index_ok d1" and len: "length (queue d1) = Suc n"
    using same n by (auto simp: same_but_order_def)
  then have ne: "queue d1 \<noteq> []" by auto
  with len key have key': "last (queue d1) = key" by (simp add: last_conv_nth)
  obtain d' where d': "data_Pop d1 = Some (Some (last (objs d1)), d')" "index_ok d'"
      "objs d' = butlast (objs d1)" "queue d' = butlast (queue d1)"
      "contents d' = (contents d1)(key := None)"
      "keyFunc d' = keyFunc d1" "lessFunc d' = lessFunc d1"
    using data_Pop_ok [OF ok1 ne] key' by blast
  have "last (objs d1) = objs d1 ! n"
    using len by (metis diff_Suc_1 last_conv_nth length_objs list.size(3) nat.simps(3))
  then have "contents d1 key = Some (last (objs d1))"
    using contents_nth [OF ok1, of n] len key by simp
  moreover have "heap_ordered (lessFunc d) (objs d') (length (queue d'))"
    using ord len by (simp add: d'(3,4) heap_ordered_butlast)
  ultimately show ?thesis
    using d' inv same by (auto simp: same_but_order_def data_becomes_def data_inv_def)
qed

lemma heap_Remove_ok:
  assumes inv: "data_inv d" and it: "gm_get (items d) key = Some it"
  shows "\<exists>d'. heap_Remove d (hi_index it) = Some (Some (hi_obj it), d') \<and>
    data_becomes d ((contents d)(key := None)) d'"
proof -
  let ?lt = "lessFunc d" and ?i = "hi_index it" and ?n = "length (queue d) - 1"
  have swo: "strict_weak_order ?lt" and ok: "index_ok d"
    and ord: "heap_ordered ?lt (objs d) (length (queue d))" using inv by (auto simp: data_inv_def)
  note I = index_ok_get [OF ok it]
  have n: "Suc ?n = length (queue d)" and c: "contents d key = Some (hi_obj it)"
    using I it by (auto simp: contents_def)
  have ordn: "heap_ordered ?lt (objs d) ?n" using ord by (rule heap_ordered_mono) simp
  show ?thesis
  proof (cases "?n = ?i")
    case True
    with Pop_last_ok [OF inv same_but_order_refl [OF ok] n ordn, of key] I c show ?thesis
      by (auto simp: heap_Remove_def data_Len_def)
  next
    case False
    with I have i: "?i < ?n" by auto
    obtain d1 where sw: "data_Swap d ?i ?n = Some d1" "same_but_order d d1"
        "queue d1 = swp ?i ?n (queue d)" "objs d1 = swp ?i ?n (objs d)"
      using Swap_ok [OF ok, of ?i ?n] I n by auto
    have key: "queue d1 ! ?n = key" using I n sw(3) by (simp add: nth_swp)
    have d1: "index_ok d1" "lessFunc d1 = ?lt" "length (queue d1) = Suc ?n"
      using sw(2) n by (auto simp: same_but_order_def)
    have "hole ?lt (objs d1) ?i ?n"
      using strict_weak_order.hole_replace [OF swo ordn i, of "objs d1"] I n sw(4) i
      by (auto simp: nth_swp)
    then obtain d2 m d3 where s: "heap_down d1 ?i ?n = Some (d2, m)"
        "(if \<not> m then heap_up d2 ?i else Some d2) = Some d3" "same_but_order d1 d3"
        "heap_ordered ?lt (objs d3) ?n" "queue d3 ! ?n = key"
      using strict_weak_order.sift_ok [OF swo, of d1 ?n ?i] d1 i key by fastforce
    have "same_but_order d d3" using sw(2) s(3) by (rule same_but_order_trans)
    from Pop_last_ok [OF inv this n s(4) s(5)] c obtain d' where
      "data_Pop d3 = Some (Some (hi_obj it), d')" "data_becomes d ((contents d)(key := None)) d'"
      by auto
    with False n sw(1) s(1,2) show ?thesis by (auto simp: heap_Remove_def data_Len_def)
  qed
qed

lemma heap_Pop_ok:
  assumes inv: "data_inv d" and ne: "queue d \<noteq> []"
  shows "\<exists>d'. heap_Pop d = Some (Some (objs d ! 0), d') \<and>
    data_becomes d ((contents d)(queue d ! 0 := None)) d'"
proof -
  let ?lt = "lessFunc d" and ?n = "length (queue d) - 1"
  have swo: "strict_weak_order ?lt" and ok: "index_ok d"
    and ord: "heap_ordered ?lt (objs d) (length (queue d))" using inv by (auto simp: data_inv_def)
  have n: "Suc ?n = length (queue d)" using ne by auto
  have ordn: "heap_ordered ?lt (objs d) ?n" using ord by (rule heap_ordered_mono) simp
  obtain d1 where sw: "data_Swap d 0 ?n = Some d1" "same_but_order d d1"
      "queue d1 = swp 0 ?n (queue d)" "objs d1 = swp 0 ?n (objs d)"
    using Swap_ok [OF ok, of 0 ?n] n ne by auto
  have key: "queue d1 ! ?n = queue d ! 0" using n ne sw(3) by (simp add: nth_swp)
  have d1: "index_ok d1" "lessFunc d1 = ?lt" "length (queue d1) = Suc ?n"
    using sw(2) n by (auto simp: same_but_order_def)
  have "hole ?lt (objs d1) 0 ?n"
  proof (cases "?n = 0")
    case True
    then show ?thesis by (simp add: hole_def)
  next
    case False
    have "objs d1 ! k = objs d ! k" if "k < ?n" "k \<noteq> 0" for k
      unfolding sw(4) using that n by (subst nth_swp) auto
    with False show ?thesis
      by (intro strict_weak_order.hole_replace [OF swo ordn]) auto
  qed
  then obtain d2 i' where s: "heap_down_loop d1 0 ?n = Some (d2, i')"
      "strict_weak_order.down_post ?lt d1 0 ?n d2 i'"
    using strict_weak_order.heap_down_loop_ok [OF swo, of d1 ?n 0] d1 by auto
  then have s': "same_but_order d1 d2" "heap_ordered ?lt (objs d2) ?n" "queue d2 ! ?n = queue d ! 0"
    using d1 key unfolding strict_weak_order.down_post_def [OF swo] by (auto simp: above_ok_def)
  have "same_but_order d d2" using sw(2) s'(1) by (rule same_but_order_trans)
  from Pop_last_ok [OF inv this n s'(2,3)] contents_nth [OF ok, of 0] ne obtain d' where
    "data_Pop d2 = Some (Some (objs d ! 0), d')"
    "data_becomes d ((contents d)(queue d ! 0 := None)) d'"
    by auto
  with ne sw(1) s(1) show ?thesis by (auto simp: heap_Pop_def data_Len_def heap_down_def)
qed

text \<open>The same for the methods of \<open>Heap\<close>, with the recorder.\<close>

definition heap_becomes :: "'a Heap \<Rightarrow> (string \<Rightarrow> 'a option) \<Rightarrow> 'a Heap \<Rightarrow> bool" where
  "heap_becomes h m h' \<longleftrightarrow> heap_inv h' \<and> contents (h_data h') = m \<and>
     keyFunc (h_data h') = keyFunc (h_data h) \<and> lessFunc (h_data h') = lessFunc (h_data h)"

lemma data_becomes_heap:
  assumes "heap_inv h" "data_becomes (h_data h) m d"
    and "\<And>c. metricRecorder h = Some c \<Longrightarrow> metricRecorder h' = Some (c + int (card (dom m)) - int (Heap_Len h))"
    and "metricRecorder h = None \<Longrightarrow> metricRecorder h' = None" and "h_data h' = d"
  shows "heap_becomes h m h'"
proof -
  have "length (queue d) = card (dom m)" using assms(2) by (rule data_becomes_length)
  then have "heap_inv h'"
    using assms by (cases "metricRecorder h") (auto simp: heap_inv_def data_becomes_def Heap_Len_def)
  then show ?thesis using assms by (simp add: heap_becomes_def data_becomes_def)
qed

lemma heap_inv_data: "heap_inv h \<Longrightarrow> data_inv (h_data h)"
  by (simp add: heap_inv_def)

lemma Heap_Len_card: "heap_inv h \<Longrightarrow> Heap_Len h = card (dom (contents (h_data h)))"
  by (simp add: heap_inv_def data_inv_def Heap_Len_def length_queue_card)

lemma finite_dom_contents [simp]: "finite (dom (contents d))"
proof -
  have "dom (contents d) = dom (gm_get (items d))" by (simp add: contents_def dom_def)
  then show ?thesis by simp
qed

lemma Heap_Add_ok:
  assumes inv: "heap_inv h" and key: "keyFunc (h_data h) x = Inr key"
  shows "\<exists>h'. Heap_Add h x = Some (h', None) \<and> heap_becomes h ((contents (h_data h))(key \<mapsto> x)) h'"
proof (cases "gm_get (items (h_data h)) key")
  case None
  then have new: "contents (h_data h) key = None" by (simp add: contents_def)
  obtain d where d: "heap_Push (h_data h) key x = Some d"
      "data_becomes (h_data h) ((contents (h_data h))(key \<mapsto> x)) d"
    using heap_Push_ok [OF heap_inv_data [OF inv] new key] by blast
  have "key \<notin> dom (contents (h_data h))" using new by auto
  then have "heap_becomes h ((contents (h_data h))(key \<mapsto> x)) (Heap_Inc (h\<lparr>h_data := d\<rparr>))"
    by (intro data_becomes_heap [OF inv d(2)]) (auto simp: Heap_Inc_def Heap_Len_card [OF inv])
  with None d(1) key show ?thesis by (simp add: Heap_Add_def)
next
  case (Some it)
  obtain d where d: "heap_Fix (set_obj (h_data h) key x) (hi_index it) = Some d"
      "data_becomes (h_data h) ((contents (h_data h))(key \<mapsto> x)) d"
    using heap_Fix_ok [OF heap_inv_data [OF inv] Some key] by blast
  have "key \<in> dom (contents (h_data h))" using Some by (auto simp: contents_def)
  then have "heap_becomes h ((contents (h_data h))(key \<mapsto> x)) (h\<lparr>h_data := d\<rparr>)"
    by (intro data_becomes_heap [OF inv d(2)]) (auto simp: Heap_Len_card [OF inv] insert_absorb)
  with Some d(1) key show ?thesis by (simp add: Heap_Add_def)
qed

lemma Heap_Delete_ok:
  assumes inv: "heap_inv h" and key: "keyFunc (h_data h) x = Inr key"
    and there: "contents (h_data h) key \<noteq> None"
  shows "\<exists>h'. Heap_Delete h x = Some (h', None) \<and> heap_becomes h ((contents (h_data h))(key := None)) h'"
proof -
  obtain it where it: "gm_get (items (h_data h)) key = Some it"
    using there by (auto simp: contents_def)
  obtain d where d: "heap_Remove (h_data h) (hi_index it) = Some (Some (hi_obj it), d)"
      "data_becomes (h_data h) ((contents (h_data h))(key := None)) d"
    using heap_Remove_ok [OF heap_inv_data [OF inv] it] by blast
  have k: "key \<in> dom (contents (h_data h))" using there by auto
  then have "card (dom (contents (h_data h))) > 0" by (auto simp: card_gt_0_iff)
  with k have "heap_becomes h ((contents (h_data h))(key := None)) (Heap_Dec (h\<lparr>h_data := d\<rparr>))"
    by (intro data_becomes_heap [OF inv d(2)])
      (auto simp: Heap_Dec_def Heap_Len_card [OF inv] of_nat_diff Suc_leI)
  with it d(1) key show ?thesis by (simp add: Heap_Delete_def)
qed

lemma Heap_Delete_absent:
  "keyFunc (h_data h) x = Inr key \<Longrightarrow> contents (h_data h) key = None \<Longrightarrow>
    Heap_Delete h x = Some (h, Some ''object not found'')"
  by (simp add: Heap_Delete_def contents_def)

text \<open>No object of the heap precedes \<open>x\<close>.\<close>

definition heap_least :: "'a Heap \<Rightarrow> 'a \<Rightarrow> bool" where
  "heap_least h x \<longleftrightarrow> (\<forall>y\<in>ran (contents (h_data h)). \<not> lessFunc (h_data h) y x)"

lemma heap_root_least:
  assumes inv: "heap_inv h" and ne: "queue (h_data h) \<noteq> []"
  shows "heap_least h (objs (h_data h) ! 0)"
proof -
  let ?d = "h_data h"
  have swo: "strict_weak_order (lessFunc ?d)" and ok: "index_ok ?d"
    and ord: "heap_ordered (lessFunc ?d) (objs ?d) (length (queue ?d))"
    using inv by (auto simp: heap_inv_def data_inv_def)
  have "\<not> lessFunc ?d y (objs ?d ! 0)" if c: "contents ?d k = Some y" for k y
  proof -
    obtain it where it: "gm_get (items ?d) k = Some it" "y = hi_obj it"
      using c by (auto simp: contents_def)
    with index_ok_get [OF ok it(1)] strict_weak_order.root_least [OF swo ord, of "hi_index it"]
    show ?thesis by auto
  qed
  then show ?thesis by (auto simp: heap_least_def ran_def)
qed

lemma Heap_Pop_ok:
  assumes inv: "heap_inv h" and ne: "contents (h_data h) \<noteq> Map.empty"
  shows "\<exists>x key h'. Heap_Pop h = Some (Inr x, h') \<and> contents (h_data h) key = Some x \<and>
    keyFunc (h_data h) x = Inr key \<and> heap_least h x \<and>
    heap_becomes h ((contents (h_data h))(key := None)) h'"
proof -
  let ?d = "h_data h" and ?key = "queue (h_data h) ! 0" and ?x = "objs (h_data h) ! 0"
  have ok: "index_ok ?d" using inv by (simp add: heap_inv_def data_inv_def)
  have q: "queue ?d \<noteq> []" using ne dom_contents [OF ok] by auto
  have c: "contents ?d ?key = Some ?x" using contents_nth [OF ok, of 0] q by simp
  obtain d where d: "heap_Pop ?d = Some (Some ?x, d)"
      "data_becomes ?d ((contents ?d)(?key := None)) d"
    using heap_Pop_ok [OF heap_inv_data [OF inv] q] by blast
  have k: "?key \<in> dom (contents ?d)" using c by auto
  then have "card (dom (contents ?d)) > 0" by (auto simp: card_gt_0_iff)
  with k have "heap_becomes h ((contents ?d)(?key := None)) (Heap_Dec (h\<lparr>h_data := d\<rparr>))"
    by (intro data_becomes_heap [OF inv d(2)])
      (auto simp: Heap_Dec_def Heap_Len_card [OF inv] of_nat_diff Suc_leI)
  moreover have "keyFunc ?d ?x = Inr ?key" using c inv by (simp add: heap_inv_def data_inv_def)
  ultimately show ?thesis
    using d(1) c heap_root_least [OF inv q] by (auto simp: Heap_Pop_def)
qed

lemma Heap_Peek_ok:
  assumes inv: "heap_inv h"
  shows "if contents (h_data h) = Map.empty then Heap_Peek h = Some None
    else \<exists>x key. Heap_Peek h = Some (Some x) \<and> contents (h_data h) key = Some x \<and> heap_least h x"
proof -
  have ok: "index_ok (h_data h)" using inv by (simp add: heap_inv_def data_inv_def)
  show ?thesis
  proof (cases "queue (h_data h) = []")
    case True
    then show ?thesis using dom_contents [OF ok] by (auto simp: Heap_Peek_def data_Peek_def)
  next
    case False
    then have "contents (h_data h) (queue (h_data h) ! 0) = Some (objs (h_data h) ! 0)"
      using contents_nth [OF ok, of 0] by simp
    then show ?thesis
      using False heap_root_least [OF inv False] index_okD [OF ok, of 0]
      by (auto simp: Heap_Peek_def data_Peek_def)
  qed
qed

lemma Heap_AddIfNotPresent_ok:
  assumes inv: "heap_inv h" and key: "keyFunc (h_data h) x = Inr key"
  shows "\<exists>h'. Heap_AddIfNotPresent h x = Some (h', None) \<and>
    heap_becomes h (if contents (h_data h) key = None then (contents (h_data h))(key \<mapsto> x)
      else contents (h_data h)) h'"
proof (cases "gm_get (items (h_data h)) key")
  case None
  then have "Heap_AddIfNotPresent h x = Heap_Add h x"
    by (simp add: Heap_AddIfNotPresent_def Heap_Add_def key)
  with Heap_Add_ok [OF inv key] None show ?thesis by (auto simp: contents_def)
next
  case (Some it)
  then show ?thesis
    using inv key by (simp add: Heap_AddIfNotPresent_def heap_becomes_def contents_def)
qed

lemma Heap_Pop_empty: "contents (h_data h) = Map.empty \<Longrightarrow> heap_inv h \<Longrightarrow> Heap_Pop h = None"
  using dom_contents [of "h_data h"]
  by (auto simp: Heap_Pop_def heap_Pop_def data_Len_def heap_inv_def data_inv_def)

lemma NewWithRecorder_inv:
  "strict_weak_order lt \<Longrightarrow> r = None \<or> r = Some 0 \<Longrightarrow> heap_inv (NewWithRecorder kf lt r)"
  by (auto simp: heap_inv_def data_inv_def NewWithRecorder_def index_ok_def contents_def
      heap_ordered_def)

lemma NewWithRecorder_view [simp]:
  "contents (h_data (NewWithRecorder kf lt r)) = Map.empty"
  "keyFunc (h_data (NewWithRecorder kf lt r)) = kf"
  "lessFunc (h_data (NewWithRecorder kf lt r)) = lt"
  by (auto simp: NewWithRecorder_def contents_def)

subsection \<open>The contract of a keyed priority queue\<close>

text \<open>
  What the scheduling queue relies on: a map from keys to objects, with an order. The laws say
  what each operation does to the map, that no operation stops the process, and that \<open>pop\<close>
  gives an object no other object precedes.
\<close>

locale keyed_queue =
  fixes inv :: "'q \<Rightarrow> bool"
    and view :: "'q \<Rightarrow> string \<Rightarrow> 'a option"
    and key :: "'q \<Rightarrow> 'a \<Rightarrow> error + string"
    and before :: "'q \<Rightarrow> 'a \<Rightarrow> 'a \<Rightarrow> bool"
    and add :: "'q \<Rightarrow> 'a \<Rightarrow> ('q \<times> error option) option"
    and delete :: "'q \<Rightarrow> 'a \<Rightarrow> ('q \<times> error option) option"
    and pop :: "'q \<Rightarrow> ((error + 'a) \<times> 'q) option"
  assumes view_finite: "inv q \<Longrightarrow> finite (dom (view q))"
    and view_keyed: "inv q \<Longrightarrow> view q k = Some x \<Longrightarrow> key q x = Inr k"
    and add_law: "inv q \<Longrightarrow> key q x = Inr k \<Longrightarrow> \<exists>q'. add q x = Some (q', None) \<and>
      inv q' \<and> view q' = (view q)(k \<mapsto> x) \<and> key q' = key q \<and> before q' = before q"
    and delete_law: "inv q \<Longrightarrow> key q x = Inr k \<Longrightarrow> view q k \<noteq> None \<Longrightarrow>
      \<exists>q'. delete q x = Some (q', None) \<and>
      inv q' \<and> view q' = (view q)(k := None) \<and> key q' = key q \<and> before q' = before q"
    and pop_law: "inv q \<Longrightarrow> view q \<noteq> Map.empty \<Longrightarrow>
      \<exists>x k q'. pop q = Some (Inr x, q') \<and> view q k = Some x \<and>
      (\<forall>y\<in>ran (view q). \<not> before q y x) \<and>
      inv q' \<and> view q' = (view q)(k := None) \<and> key q' = key q \<and> before q' = before q"
begin

text \<open>A client that keeps popping: \<open>xs\<close> is what it gets until the queue is empty.\<close>

inductive pops :: "'q \<Rightarrow> 'a list \<Rightarrow> bool" where
  pops_empty: "view q = Map.empty \<Longrightarrow> pops q []"
| pops_step: "pop q = Some (Inr x, q') \<Longrightarrow> view q \<noteq> Map.empty \<Longrightarrow> pops q' xs \<Longrightarrow> pops q (x # xs)"

lemma pop_card:
  assumes "inv q" "view q \<noteq> Map.empty"
  obtains x k q' where "pop q = Some (Inr x, q')" "view q k = Some x" "inv q'"
    "\<forall>y\<in>ran (view q). \<not> before q y x" "view q' = (view q)(k := None)"
    "before q' = before q" "card (dom (view q')) < card (dom (view q))"
proof -
  from pop_law [OF assms] obtain x k q' where *: "pop q = Some (Inr x, q')" "view q k = Some x"
      "inv q'" "\<forall>y\<in>ran (view q). \<not> before q y x" "view q' = (view q)(k := None)"
      "before q' = before q" by blast
  moreover have "card (dom (view q) - {k}) < card (dom (view q))"
    using *(2) view_finite [OF assms(1)] by (intro psubset_card_mono) auto
  ultimately show ?thesis by (intro that [of x q' k]) simp_all
qed

text \<open>Popping ends, after as many steps as there are objects.\<close>

lemma pops_ex: "inv q \<Longrightarrow> \<exists>xs. pops q xs \<and> length xs = card (dom (view q))"
proof (induction "card (dom (view q))" arbitrary: q rule: less_induct)
  case less
  show ?case
  proof (cases "view q = Map.empty")
    case True
    then show ?thesis by (auto intro: pops_empty)
  next
    case False
    from pop_card [OF less.prems False] obtain x k q' where
      *: "pop q = Some (Inr x, q')" "view q k = Some x" "inv q'" "view q' = (view q)(k := None)"
        "card (dom (view q')) < card (dom (view q))" by metis
    with less.hyps obtain xs where xs: "pops q' xs" "length xs = card (dom (view q'))" by blast
    have "Suc (card (dom (view q'))) = card (dom (view q))"
      using card_Suc_Diff1 [OF view_finite [OF less.prems], of k] *(2,4) by (simp add: domI)
    with xs *(1) False show ?thesis by (metis pops_step length_Cons)
  qed
qed

text \<open>What comes out is everything that was in, each object once, none preceded by a later one.\<close>

lemma pops_sound: "pops q xs \<Longrightarrow> inv q \<Longrightarrow>
    set xs = ran (view q) \<and> distinct xs \<and> sorted_wrt (\<lambda>x y. \<not> before q y x) xs"
proof (induction rule: pops.induct)
  case (pops_empty q)
  then show ?case by simp
next
  case (pops_step q x q' xs)
  obtain k where k: "view q k = Some x" "inv q'" "\<forall>y\<in>ran (view q). \<not> before q y x"
      "view q' = (view q)(k := None)" "before q' = before q"
  proof -
    from pop_law [OF pops_step.prems pops_step.hyps(2)] obtain x0 k0 q0 where
      *: "pop q = Some (Inr x0, q0)" "view q k0 = Some x0" "\<forall>y\<in>ran (view q). \<not> before q y x0"
        "inv q0" "view q0 = (view q)(k0 := None)" "before q0 = before q" by blast
    then have "x0 = x" "q0 = q'" using pops_step.hyps(1) by simp_all
    with *(2-6) have "view q k0 = Some x" "inv q'" "\<forall>y\<in>ran (view q). \<not> before q y x"
        "view q' = (view q)(k0 := None)" "before q' = before q" by simp_all
    then show ?thesis by (rule that)
  qed
  have inj: "j = k" if "view q j = Some x" for j
    using view_keyed [OF pops_step.prems that] view_keyed [OF pops_step.prems k(1)] by simp
  have ran: "ran (view q') = ran (view q) - {x}"
  proof (rule set_eqI)
    fix y
    show "y \<in> ran (view q') \<longleftrightarrow> y \<in> ran (view q) - {x}"
      unfolding ran_def k(4) using k(1) by (cases "y = x") (auto dest: inj, metis option.inject)
  qed
  have "x \<in> ran (view q)" using k(1) by (auto simp: ran_def)
  then have "ran (view q) = insert x (set xs)" "x \<notin> set xs"
    using pops_step.IH [OF k(2)] ran by auto
  then show ?case using pops_step.IH [OF k(2)] k(3) unfolding k(5) by simp
qed

end

interpretation hq: keyed_queue heap_inv "\<lambda>h. contents (h_data h)" "\<lambda>h. keyFunc (h_data h)"
    "\<lambda>h. lessFunc (h_data h)" Heap_Add Heap_Delete Heap_Pop
proof unfold_locales
  show "keyFunc (h_data q) x = Inr k" if "heap_inv q" "contents (h_data q) k = Some x"
    for q :: "'a Heap" and k x
    using that by (simp add: heap_inv_def data_inv_def)
qed (use Heap_Add_ok Heap_Delete_ok Heap_Pop_ok in
    \<open>fastforce simp: heap_becomes_def heap_least_def\<close>)+

text \<open>
  The scheduling queue also looks before it pops, looks objects up, and deletes what may not be
  there.
\<close>

locale searchable_queue = keyed_queue +
  fixes peek :: "'a \<Rightarrow> 'b option option"
    and lookup :: "'a \<Rightarrow> 'b \<Rightarrow> error + 'b option"
  assumes peek_empty: "inv q \<Longrightarrow> view q = Map.empty \<Longrightarrow> peek q = Some None"
    and peek_pop: "inv q \<Longrightarrow> pop q = Some (Inr x, q') \<Longrightarrow> peek q = Some (Some x)"
    and lookup_law: "inv q \<Longrightarrow> key q x = Inr k \<Longrightarrow> lookup q x = Inr (view q k)"
    and delete_absent: "inv q \<Longrightarrow> key q x = Inr k \<Longrightarrow> view q k = None \<Longrightarrow> \<exists>e. delete q x = Some (q, Some e)"
begin

text \<open>Deleting whatever there is under a key.\<close>

lemma delete_any:
  assumes "inv q" "key q x = Inr k"
  shows "\<exists>q' e. delete q x = Some (q', e) \<and> (e = None \<longleftrightarrow> view q k \<noteq> None) \<and>
    inv q' \<and> view q' = (view q)(k := None) \<and> key q' = key q \<and> before q' = before q"
proof (cases "view q k")
  case None
  then have "view q = (view q)(k := None)" by (simp add: fun_upd_idem)
  with delete_absent [OF assms None] None assms(1) show ?thesis by auto
next
  case (Some y)
  with delete_law [OF assms] show ?thesis by auto
qed

end

lemma Heap_Peek_Pop:
  assumes inv: "heap_inv h" and p: "Heap_Pop h = Some (Inr x, h')"
  shows "Heap_Peek h = Some (Some x)"
proof -
  let ?d = "h_data h"
  have ok: "index_ok ?d" using inv by (simp add: heap_inv_def data_inv_def)
  have q: "queue ?d \<noteq> []" using p by (auto simp: Heap_Pop_def heap_Pop_def data_Len_def)
  have "\<exists>d. heap_Pop ?d = Some (Some (objs ?d ! 0), d)"
    using heap_Pop_ok [OF heap_inv_data [OF inv] q] by blast
  with p have "x = objs ?d ! 0" by (auto simp: Heap_Pop_def)
  then show ?thesis
    using q index_okD [OF ok, of 0] by (auto simp: Heap_Peek_def data_Peek_def)
qed

interpretation hs: searchable_queue heap_inv "\<lambda>h. contents (h_data h)" "\<lambda>h. keyFunc (h_data h)"
    "\<lambda>h. lessFunc (h_data h)" Heap_Add Heap_Delete Heap_Pop Heap_Peek Heap_Get
proof unfold_locales
  show "Heap_Peek q = Some None" if "heap_inv q" "contents (h_data q) = Map.empty" for q :: "'a Heap"
    using Heap_Peek_ok [OF that(1)] that(2) by simp
  show "Heap_Get q x = Inr (contents (h_data q) k)" if "keyFunc (h_data q) x = Inr k" for q :: "'a Heap" and x k
    using that by (simp add: Heap_Get_def Heap_GetByKey_def contents_def)
qed (auto intro: Heap_Peek_Pop simp: Heap_Delete_absent)

subsection \<open>Runs of a heap\<close>

text \<open>The heaps a client can bring about with the exported operations.\<close>

inductive heap_reach :: "('a \<Rightarrow> error + string) \<Rightarrow> ('a \<Rightarrow> 'a \<Rightarrow> bool) \<Rightarrow> 'a Heap \<Rightarrow> bool"
  for kf lt where
  reach_new: "r = None \<or> r = Some 0 \<Longrightarrow> heap_reach kf lt (NewWithRecorder kf lt r)"
| reach_add: "heap_reach kf lt h \<Longrightarrow> Heap_Add h x = Some (h', e) \<Longrightarrow> heap_reach kf lt h'"
| reach_addif: "heap_reach kf lt h \<Longrightarrow> Heap_AddIfNotPresent h x = Some (h', e) \<Longrightarrow> heap_reach kf lt h'"
| reach_update: "heap_reach kf lt h \<Longrightarrow> Heap_Update h x = Some (h', e) \<Longrightarrow> heap_reach kf lt h'"
| reach_delete: "heap_reach kf lt h \<Longrightarrow> Heap_Delete h x = Some (h', e) \<Longrightarrow> heap_reach kf lt h'"
| reach_pop: "heap_reach kf lt h \<Longrightarrow> Heap_Pop h = Some (r, h') \<Longrightarrow> heap_reach kf lt h'"

lemma heap_key_error: "keyFunc (h_data h) x = Inl e \<Longrightarrow>
    Heap_Add h x = Some (h, Some e) \<and> Heap_AddIfNotPresent h x = Some (h, Some e) \<and>
    Heap_Update h x = Some (h, Some e) \<and> Heap_Delete h x = Some (h, Some e)"
  by (simp add: Heap_Add_def Heap_AddIfNotPresent_def Heap_Update_def Heap_Delete_def)

lemma Heap_Add_inv:
  assumes "heap_inv h" "Heap_Add h x = Some (h', e)"
  shows "heap_inv h' \<and> keyFunc (h_data h') = keyFunc (h_data h) \<and> lessFunc (h_data h') = lessFunc (h_data h)"
proof (cases "keyFunc (h_data h) x")
  case (Inl e)
  then show ?thesis using assms heap_key_error [OF Inl] by simp
next
  case (Inr k)
  then show ?thesis using assms Heap_Add_ok [OF assms(1) Inr] by (auto simp: heap_becomes_def)
qed

lemma Heap_AddIfNotPresent_inv:
  assumes "heap_inv h" "Heap_AddIfNotPresent h x = Some (h', e)"
  shows "heap_inv h' \<and> keyFunc (h_data h') = keyFunc (h_data h) \<and> lessFunc (h_data h') = lessFunc (h_data h)"
proof (cases "keyFunc (h_data h) x")
  case (Inl e)
  then show ?thesis using assms heap_key_error [OF Inl] by simp
next
  case (Inr k)
  then show ?thesis using assms Heap_AddIfNotPresent_ok [OF assms(1) Inr] by (auto simp: heap_becomes_def)
qed

lemma Heap_Delete_inv:
  assumes "heap_inv h" "Heap_Delete h x = Some (h', e)"
  shows "heap_inv h' \<and> keyFunc (h_data h') = keyFunc (h_data h) \<and> lessFunc (h_data h') = lessFunc (h_data h)"
proof (cases "keyFunc (h_data h) x")
  case (Inl e)
  then show ?thesis using assms heap_key_error [OF Inl] by simp
next
  case (Inr k)
  then show ?thesis
    using assms Heap_Delete_ok [OF assms(1) Inr] Heap_Delete_absent [OF Inr]
    by (cases "contents (h_data h) k") (auto simp: heap_becomes_def)
qed

lemma Heap_Pop_inv:
  assumes "heap_inv h" "Heap_Pop h = Some (r, h')"
  shows "heap_inv h' \<and> keyFunc (h_data h') = keyFunc (h_data h) \<and> lessFunc (h_data h') = lessFunc (h_data h)"
  using assms Heap_Pop_ok [OF assms(1)] Heap_Pop_empty [of h]
  by (cases "contents (h_data h) = Map.empty") (auto simp: heap_becomes_def)

lemma heap_reach_inv: "heap_reach kf lt h \<Longrightarrow> strict_weak_order lt \<Longrightarrow>
    heap_inv h \<and> keyFunc (h_data h) = kf \<and> lessFunc (h_data h) = lt"
  by (induction rule: heap_reach.induct)
    (auto simp: NewWithRecorder_inv Heap_Update_def
      dest: Heap_Add_inv Heap_AddIfNotPresent_inv Heap_Delete_inv Heap_Pop_inv)

text \<open>A concrete order and key for the witnesses: numbers, by value, keyed by their value.\<close>

definition nat_key :: "nat \<Rightarrow> error + string" where
  "nat_key n = Inr (replicate n (CHR ''i''))"

interpretation natlt: strict_weak_order "(<) :: nat \<Rightarrow> nat \<Rightarrow> bool"
  by unfold_locales auto

text \<open>
  In every heap a client can bring about with the exported operations, for a key function and
  a strict weak order: the objects are in heap order, the index stored with each object is its
  position in the queue, each object is stored under its key, and the recorder counts the objects.
\<close>

theorem heap_reachable_wf:
  assumes "heap_reach kf lt h" and "strict_weak_order lt"
  shows "heap_ordered lt (objs (h_data h)) (Heap_Len h) \<and> index_ok (h_data h) \<and>
    (\<forall>k x. Heap_GetByKey h k = Some x \<longrightarrow> kf x = Inr k) \<and>
    Heap_Len h = length (Heap_List h) \<and>
    (metricRecorder h = None \<or> metricRecorder h = Some (int (Heap_Len h)))"
proof -
  have inv: "heap_inv h" "keyFunc (h_data h) = kf" "lessFunc (h_data h) = lt"
    using heap_reach_inv [OF assms] by auto
  then have ok: "index_ok (h_data h)" by (simp add: heap_inv_def data_inv_def)
  then have "length (queue (h_data h)) = length (items (h_data h))"
    by (simp add: index_ok_def gm_len_keys distinct_card)
  with inv ok show ?thesis
    by (cases "metricRecorder h")
      (auto simp: heap_inv_def data_inv_def Heap_Len_def Heap_List_def Heap_GetByKey_def contents_def)
qed

theorem heap_reachable_wf_witness:
  "\<exists>h e. Heap_Add (NewWithRecorder nat_key (<) (Some 0)) 7 = Some (h, e) \<and>
    index_ok (h_data h) \<and> metricRecorder h = Some (int (Heap_Len h))"
proof -
  let ?h = "NewWithRecorder nat_key (<) (Some 0)"
  obtain h where h: "Heap_Add ?h 7 = Some (h, None)"
    using Heap_Add_ok [OF NewWithRecorder_inv [OF natlt.strict_weak_order_axioms], of "Some 0" nat_key 7]
    by (auto simp: nat_key_def)
  have "heap_reach nat_key (<) h" using reach_add [OF reach_new h] by simp
  then have "index_ok (h_data h) \<and> (metricRecorder h = None \<or> metricRecorder h = Some (int (Heap_Len h)))"
    using heap_reachable_wf natlt.strict_weak_order_axioms by blast
  moreover have "metricRecorder h \<noteq> None"
    using h by (auto simp: Heap_Add_def NewWithRecorder_def nat_key_def Heap_Inc_def split: Option.bind_splits)
  ultimately show ?thesis using h by blast
qed



text \<open>What a client gets that pops \<open>n\<close> times.\<close>

fun Heap_drain :: "nat \<Rightarrow> 'a Heap \<Rightarrow> 'a list option" where
  "Heap_drain 0 h = Some []"
| "Heap_drain (Suc n) h =
    (case Heap_Pop h of
       Some (Inr x, h') \<Rightarrow> map_option (Cons x) (Heap_drain n h')
     | _ \<Rightarrow> None)"

lemma Heap_drain_pops: "hq.pops h xs \<Longrightarrow> Heap_drain (length xs) h = Some xs"
  by (induction rule: hq.pops.induct) auto

text \<open>
  Popping a well-formed heap as many times as it has objects succeeds every time and gives
  each object exactly once, in an order in which no object precedes an earlier one.
\<close>

theorem heap_drain_sorted:
  assumes "heap_inv h"
  shows "\<exists>xs. Heap_drain (Heap_Len h) h = Some xs \<and> set xs = ran (Heap_GetByKey h) \<and>
    distinct xs \<and> sorted_wrt (\<lambda>x y. \<not> lessFunc (h_data h) y x) xs"
proof -
  have view: "Heap_GetByKey h = contents (h_data h)"
    by (simp add: Heap_GetByKey_def contents_def fun_eq_iff)
  obtain xs where xs: "hq.pops h xs" "length xs = card (dom (contents (h_data h)))"
    using hq.pops_ex [OF assms] by blast
  show ?thesis
    using Heap_drain_pops [OF xs(1)] hq.pops_sound [OF xs(1) assms] xs(2)
    unfolding view Heap_Len_card [OF assms] by auto
qed

theorem heap_drain_sorted_witness:
  "\<exists>h xs. heap_inv h \<and> Heap_Len h = 2 \<and> Heap_drain 2 h = Some xs \<and> set xs = {5, 2 :: nat} \<and>
    sorted_wrt (\<lambda>x y. \<not> y < x) xs"
proof -
  let ?h = "New_Heap nat_key (<)"
  have inv0: "heap_inv ?h"
    unfolding New_Heap_def by (intro NewWithRecorder_inv natlt.strict_weak_order_axioms) simp
  obtain h1 where h1: "heap_inv h1" "contents (h_data h1) = [replicate 5 CHR ''i'' \<mapsto> 5]"
      "keyFunc (h_data h1) = nat_key" "lessFunc (h_data h1) = (<)"
    using Heap_Add_ok [OF inv0, of 5] by (auto simp: heap_becomes_def New_Heap_def nat_key_def)
  obtain h2 :: "nat Heap" where h2: "heap_inv h2"
      "contents (h_data h2) = [replicate 5 CHR ''i'' \<mapsto> 5, replicate 2 CHR ''i'' \<mapsto> 2]"
      "lessFunc (h_data h2) = (<)"
    using Heap_Add_ok [OF h1(1), of 2] h1(2-4) by (auto simp: heap_becomes_def nat_key_def)
  have view: "Heap_GetByKey h2 = contents (h_data h2)"
    by (simp add: Heap_GetByKey_def contents_def fun_eq_iff)
  have len: "Heap_Len h2 = 2" using Heap_Len_card [OF h2(1)] by (simp add: h2(2))
  have "ran (Heap_GetByKey h2) = {5, 2}"
    unfolding view h2(2) by (simp add: insert_commute)
  with heap_drain_sorted [OF h2(1)] len h2 show ?thesis by auto
qed

end
