(* ===== verification/Scheduling_Queue.thy ===== *)
theory Scheduling_Queue
  imports Sched_Heap Node_Info
begin

text \<open>
  \<^verbatim>\<open>scheduler/internal/queue/scheduling_queue.go\<close>, with the default order of the active queue,
  \<^verbatim>\<open>scheduler/framework/plugins/queuesort/priority_sort.go\<close>: the pods that wait to be scheduled, in an
  active queue and a back-off queue (both are heaps of \<open>Sched_Heap\<close>) and a map of unschedulable
  pods; and the pods nominated to nodes by preemption. This theory holds the operations;
  \<open>Queue_Refinement\<close> holds what is proved of them.

  \<^item> Every method holds the lock from its first line to its return, so a method is one step.
    \<open>Pop\<close> waits on the condition variable when the active queue is empty; that outcome is
    \<open>Blocked\<close>.
  \<^item> Times are numbers of nanoseconds. What \<open>p.clock.Now()\<close> returns is an argument; a loop that
    reads the clock at every turn gets a function from the turn to the reading.
  \<^item> \<open>QueuedPodInfo\<close> objects are shared by pointer. \<open>updatePod\<close> writes into the object in the active
    queue before the heap is told, and so does the model (\<open>set_obj\<close>); an object that was
    taken out of its queue first has no other holder. \<open>AddUnschedulableIfNotPresent\<close> writes the
    caller's object and returns it.
  \<^item> \<open>cache.MetaNamespaceKeyFunc\<close> is library code: the parameter \<open>metaKey\<close>. Counters of incoming
    pods and log lines are left out; the gauges of the queues are there.
\<close>

subsection \<open>Nominated pods\<close>

record nominatedPodMap =
  nominatedPods :: "(string, Pod list) gomap"
  nominatedPodToNode :: "(string, string) gomap"

definition NewPodNominator :: nominatedPodMap where
  "NewPodNominator = \<lparr>nominatedPods = [], nominatedPodToNode = []\<rparr>"

definition NominatedNodeName :: "Pod \<Rightarrow> string" where
  "NominatedNodeName pod = pod_NominatedNodeName pod"

definition NominatedPodsForNode :: "nominatedPodMap \<Rightarrow> string \<Rightarrow> Pod list" where
  "NominatedPodsForNode npm nodeName =
    (case gm_get (nominatedPods npm) nodeName of None \<Rightarrow> [] | Some ps \<Rightarrow> ps)"

definition npm_delete :: "nominatedPodMap \<Rightarrow> Pod \<Rightarrow> nominatedPodMap" where
  "npm_delete npm p =
    (case gm_get (nominatedPodToNode npm) (pod_UID p) of
       None \<Rightarrow> npm
     | Some nnn \<Rightarrow>
         let pods = NominatedPodsForNode npm nnn;
             npm1 = (case find_index (\<lambda>np. pod_UID np = pod_UID p) pods of
                 None \<Rightarrow> npm
               | Some i \<Rightarrow>
                   let pods' = del_at i pods in
                   if length pods' = 0 then npm\<lparr>nominatedPods := gm_del (nominatedPods npm) nnn\<rparr>
                   else npm\<lparr>nominatedPods := gm_put (nominatedPods npm) nnn pods'\<rparr>)
         in npm1\<lparr>nominatedPodToNode := gm_del (nominatedPodToNode npm) (pod_UID p)\<rparr>)"

definition npm_add :: "nominatedPodMap \<Rightarrow> Pod \<Rightarrow> string \<Rightarrow> nominatedPodMap" where
  "npm_add npm p nodeName =
    (let npm1 = npm_delete npm p;
         nnn = (if length nodeName = 0 then NominatedNodeName p else nodeName)
     in if length nnn = 0 then npm1
        else let npm2 = npm1\<lparr>nominatedPodToNode := gm_put (nominatedPodToNode npm1) (pod_UID p) nnn\<rparr>;
                 pods = NominatedPodsForNode npm2 nnn
             in if \<exists>np\<in>set pods. pod_UID np = pod_UID p then npm2
                else npm2\<lparr>nominatedPods := gm_put (nominatedPods npm2) nnn (pods @ [p])\<rparr>)"

definition DeleteNominatedPodIfExists :: "nominatedPodMap \<Rightarrow> Pod \<Rightarrow> nominatedPodMap" where
  "DeleteNominatedPodIfExists npm pod = npm_delete npm pod"

definition AddNominatedPod :: "nominatedPodMap \<Rightarrow> Pod \<Rightarrow> string \<Rightarrow> nominatedPodMap" where
  "AddNominatedPod npm pod nodeName = npm_add npm pod nodeName"

definition UpdateNominatedPod :: "nominatedPodMap \<Rightarrow> Pod \<Rightarrow> Pod \<Rightarrow> nominatedPodMap" where
  "UpdateNominatedPod npm oldPod newPod =
    (let nodeName =
       (if NominatedNodeName oldPod = '''' \<and> NominatedNodeName newPod = '''' then
          (case gm_get (nominatedPodToNode npm) (pod_UID oldPod) of Some nnn \<Rightarrow> nnn | None \<Rightarrow> '''')
        else '''')
     in npm_add (npm_delete npm oldPod) newPod nodeName)"

subsection \<open>Unschedulable pods\<close>

record UnschedulablePodsMap =
  podInfoMap :: "(string, QueuedPodInfo) gomap"
  up_keyFunc :: "Pod \<Rightarrow> string"
  up_metricRecorder :: "int option"

definition newUnschedulablePodsMap :: "int option \<Rightarrow> UnschedulablePodsMap" where
  "newUnschedulablePodsMap recorder =
    \<lparr>podInfoMap = [], up_keyFunc = GetPodFullName, up_metricRecorder = recorder\<rparr>"

definition up_addOrUpdate :: "UnschedulablePodsMap \<Rightarrow> QueuedPodInfo \<Rightarrow> UnschedulablePodsMap" where
  "up_addOrUpdate u pInfo =
    (let podID = up_keyFunc u (qp_Pod pInfo);
         rec = (if gm_has (podInfoMap u) podID then up_metricRecorder u
                else map_option (\<lambda>c. c + 1) (up_metricRecorder u))
     in u\<lparr>podInfoMap := gm_put (podInfoMap u) podID pInfo, up_metricRecorder := rec\<rparr>)"

definition up_delete :: "UnschedulablePodsMap \<Rightarrow> Pod \<Rightarrow> UnschedulablePodsMap" where
  "up_delete u pod =
    (let podID = up_keyFunc u pod;
         rec = (if gm_has (podInfoMap u) podID then map_option (\<lambda>c. c - 1) (up_metricRecorder u)
                else up_metricRecorder u)
     in u\<lparr>podInfoMap := gm_del (podInfoMap u) podID, up_metricRecorder := rec\<rparr>)"

definition up_get :: "UnschedulablePodsMap \<Rightarrow> Pod \<Rightarrow> QueuedPodInfo option" where
  "up_get u pod = gm_get (podInfoMap u) (up_keyFunc u pod)"

definition up_clear :: "UnschedulablePodsMap \<Rightarrow> UnschedulablePodsMap" where
  "up_clear u = u\<lparr>podInfoMap := [], up_metricRecorder := map_option (\<lambda>_. 0) (up_metricRecorder u)\<rparr>"

subsection \<open>The queue and its options\<close>

definition second :: int where "second = 1000000000"

definition unschedulableQTimeInterval :: int where
  "unschedulableQTimeInterval = 60 * second"

definition DefaultPodInitialBackoffDuration :: int where
  "DefaultPodInitialBackoffDuration = 1 * second"

definition DefaultPodMaxBackoffDuration :: int where
  "DefaultPodMaxBackoffDuration = 10 * second"

definition queueClosed :: string where
  "queueClosed = ''scheduling queue is closed''"

record PriorityQueue =
  pq_PodNominator :: nominatedPodMap
  pq_podInitialBackoffDuration :: int
  pq_podMaxBackoffDuration :: int
  activeQ :: "QueuedPodInfo Heap"
  podBackoffQ :: "QueuedPodInfo Heap"
  unschedulableQ :: UnschedulablePodsMap
  schedulingCycle :: int
  moveRequestCycle :: int
  pq_closed :: bool

record priorityQueueOptions =
  o_podInitialBackoffDuration :: int
  o_podMaxBackoffDuration :: int
  o_podNominator :: "nominatedPodMap option"

definition WithPodInitialBackoffDuration :: "int \<Rightarrow> priorityQueueOptions \<Rightarrow> priorityQueueOptions" where
  "WithPodInitialBackoffDuration duration opt = opt\<lparr>o_podInitialBackoffDuration := duration\<rparr>"

definition WithPodMaxBackoffDuration :: "int \<Rightarrow> priorityQueueOptions \<Rightarrow> priorityQueueOptions" where
  "WithPodMaxBackoffDuration duration opt = opt\<lparr>o_podMaxBackoffDuration := duration\<rparr>"

definition WithPodNominator :: "nominatedPodMap \<Rightarrow> priorityQueueOptions \<Rightarrow> priorityQueueOptions" where
  "WithPodNominator pn opt = opt\<lparr>o_podNominator := Some pn\<rparr>"

definition defaultPriorityQueueOptions :: priorityQueueOptions where
  "defaultPriorityQueueOptions =
    \<lparr>o_podInitialBackoffDuration = DefaultPodInitialBackoffDuration,
     o_podMaxBackoffDuration = DefaultPodMaxBackoffDuration, o_podNominator = None\<rparr>"

text \<open>The back-off: doubled for each attempt after the first, up to a maximum; \<open>time.Duration\<close> is an \<open>int64\<close>.\<close>

function backoff_loop :: "int \<Rightarrow> int \<Rightarrow> int \<Rightarrow> int \<Rightarrow> int" where
  "backoff_loop maxD attempts i duration =
    (if i < attempts then
       let duration' = i64 (duration * 2) in
       if duration' > maxD then maxD else backoff_loop maxD attempts (i + 1) duration'
     else duration)"
  by pat_completeness auto
termination
  by (relation "measure (\<lambda>(m, a, i, d). nat (a - i))") auto

declare backoff_loop.simps [simp del]

definition calculateBackoff :: "int \<Rightarrow> int \<Rightarrow> QueuedPodInfo \<Rightarrow> int" where
  "calculateBackoff initialD maxD podInfo = backoff_loop maxD (qp_Attempts podInfo) 1 initialD"

definition calculateBackoffDuration :: "PriorityQueue \<Rightarrow> QueuedPodInfo \<Rightarrow> int" where
  "calculateBackoffDuration p podInfo =
    calculateBackoff (pq_podInitialBackoffDuration p) (pq_podMaxBackoffDuration p) podInfo"

definition backoffTime :: "int \<Rightarrow> int \<Rightarrow> QueuedPodInfo \<Rightarrow> int" where
  "backoffTime initialD maxD podInfo = qp_Timestamp podInfo + calculateBackoff initialD maxD podInfo"

definition getBackoffTime :: "PriorityQueue \<Rightarrow> QueuedPodInfo \<Rightarrow> int" where
  "getBackoffTime p podInfo =
    (let duration = calculateBackoffDuration p podInfo in qp_Timestamp podInfo + duration)"

definition podsCompareBackoffCompleted :: "int \<Rightarrow> int \<Rightarrow> QueuedPodInfo \<Rightarrow> QueuedPodInfo \<Rightarrow> bool" where
  "podsCompareBackoffCompleted initialD maxD pInfo1 pInfo2 =
    (backoffTime initialD maxD pInfo1 < backoffTime initialD maxD pInfo2)"

definition isPodBackingoff :: "PriorityQueue \<Rightarrow> int \<Rightarrow> QueuedPodInfo \<Rightarrow> bool" where
  "isPodBackingoff p now podInfo = (let boTime = getBackoffTime p podInfo in boTime > now)"

definition podInfoKeyFunc :: "(Pod \<Rightarrow> error + string) \<Rightarrow> QueuedPodInfo \<Rightarrow> error + string" where
  "podInfoKeyFunc metaKey obj = metaKey (qp_Pod obj)"

definition PrioritySort_Less :: "QueuedPodInfo \<Rightarrow> QueuedPodInfo \<Rightarrow> bool" where
  "PrioritySort_Less pInfo1 pInfo2 =
    (let p1 = GetPodPriority (qp_Pod pInfo1); p2 = GetPodPriority (qp_Pod pInfo2)
     in p1 > p2 \<or> (p1 = p2 \<and> qp_Timestamp pInfo1 < qp_Timestamp pInfo2))"

text \<open>The three gauges start at zero.\<close>

definition NewPriorityQueue :: "(Pod \<Rightarrow> error + string) \<Rightarrow> (QueuedPodInfo \<Rightarrow> QueuedPodInfo \<Rightarrow> bool) \<Rightarrow>
    (priorityQueueOptions \<Rightarrow> priorityQueueOptions) list \<Rightarrow> PriorityQueue" where
  "NewPriorityQueue metaKey lessFn opts =
    (let options = fold (\<lambda>opt options. opt options) opts defaultPriorityQueueOptions;
         nominator = (case o_podNominator options of None \<Rightarrow> NewPodNominator | Some pn \<Rightarrow> pn)
     in \<lparr>pq_PodNominator = nominator,
         pq_podInitialBackoffDuration = o_podInitialBackoffDuration options,
         pq_podMaxBackoffDuration = o_podMaxBackoffDuration options,
         activeQ = NewWithRecorder (podInfoKeyFunc metaKey) lessFn (Some 0),
         podBackoffQ = NewWithRecorder (podInfoKeyFunc metaKey)
           (podsCompareBackoffCompleted (o_podInitialBackoffDuration options) (o_podMaxBackoffDuration options)) (Some 0),
         unschedulableQ = newUnschedulablePodsMap (Some 0),
         schedulingCycle = 0, moveRequestCycle = -1, pq_closed = False\<rparr>)"

definition newQueuedPodInfoNoTimestamp :: "Pod \<Rightarrow> QueuedPodInfo" where
  "newQueuedPodInfoNoTimestamp pod =
    \<lparr>qp_Pod = pod, qp_Timestamp = 0, qp_Attempts = 0, qp_InitialAttemptTimestamp = 0\<rparr>"

definition newQueuedPodInfo :: "int \<Rightarrow> Pod \<Rightarrow> QueuedPodInfo" where
  "newQueuedPodInfo now pod =
    \<lparr>qp_Pod = pod, qp_Timestamp = now, qp_Attempts = 0, qp_InitialAttemptTimestamp = now\<rparr>"

definition queue_updatePod :: "QueuedPodInfo \<Rightarrow> Pod \<Rightarrow> QueuedPodInfo" where
  "queue_updatePod pInfo newPod = pInfo\<lparr>qp_Pod := newPod\<rparr>"

text \<open>\<open>_, exists, _ := q.Get(pInfo)\<close>: an error counts as absent.\<close>

definition heap_lookup :: "QueuedPodInfo Heap \<Rightarrow> QueuedPodInfo \<Rightarrow> QueuedPodInfo option" where
  "heap_lookup h pInfo = (case Heap_Get h pInfo of Inl _ \<Rightarrow> None | Inr r \<Rightarrow> r)"

text \<open>The name of a pod, in messages.\<close>

definition nsNameForPod :: "Pod \<Rightarrow> string" where
  "nsNameForPod pod = pod_Namespace pod @ ''/'' @ pod_Name pod"

subsection \<open>Adding pods\<close>

definition PQ_Add :: "int \<Rightarrow> PriorityQueue \<Rightarrow> Pod \<Rightarrow> (PriorityQueue \<times> error option) option" where
  "PQ_Add now p pod =
    (let pInfo = newQueuedPodInfo now pod in
     do { (a, err) \<leftarrow> Heap_Add (activeQ p) pInfo;
          case err of
            Some e \<Rightarrow> Some (p\<lparr>activeQ := a\<rparr>, Some e)
          | None \<Rightarrow>
              let u = (if up_get (unschedulableQ p) pod \<noteq> None then up_delete (unschedulableQ p) pod
                       else unschedulableQ p)
              in do { (b, _) \<leftarrow> Heap_Delete (podBackoffQ p) pInfo;
                      Some (p\<lparr>activeQ := a, unschedulableQ := u, podBackoffQ := b,
                        pq_PodNominator := AddNominatedPod (pq_PodNominator p) pod ''''\<rparr>, None) } })"

definition SchedulingCycle :: "PriorityQueue \<Rightarrow> int" where
  "SchedulingCycle p = schedulingCycle p"

definition AddUnschedulableIfNotPresent :: "int \<Rightarrow> PriorityQueue \<Rightarrow> QueuedPodInfo \<Rightarrow> int \<Rightarrow>
    (PriorityQueue \<times> QueuedPodInfo \<times> error option) option" where
  "AddUnschedulableIfNotPresent now p pInfo0 podSchedulingCycle =
    (let pod = qp_Pod pInfo0 in
     if up_get (unschedulableQ p) pod \<noteq> None then
       Some (p, pInfo0, Some (''pod: '' @ nsNameForPod pod @ '' is already present in unschedulable queue''))
     else
       let pInfo = pInfo0\<lparr>qp_Timestamp := now\<rparr> in
       if heap_lookup (activeQ p) pInfo \<noteq> None then
         Some (p, pInfo, Some (''pod: '' @ nsNameForPod pod @ '' is already present in the active queue''))
       else if heap_lookup (podBackoffQ p) pInfo \<noteq> None then
         Some (p, pInfo, Some (''pod '' @ nsNameForPod pod @ '' is already present in the backoff queue''))
       else if moveRequestCycle p \<ge> podSchedulingCycle then
         do { (b, err) \<leftarrow> Heap_Add (podBackoffQ p) pInfo;
              case err of
                Some e \<Rightarrow> Some (p\<lparr>podBackoffQ := b\<rparr>, pInfo,
                  Some (''error adding pod '' @ pod_Name pod @ '' to the backoff queue: '' @ e))
              | None \<Rightarrow> Some (p\<lparr>podBackoffQ := b,
                  pq_PodNominator := AddNominatedPod (pq_PodNominator p) pod ''''\<rparr>, pInfo, None) }
       else
         Some (p\<lparr>unschedulableQ := up_addOrUpdate (unschedulableQ p) pInfo,
           pq_PodNominator := AddNominatedPod (pq_PodNominator p) pod ''''\<rparr>, pInfo, None))"

subsection \<open>Moving pods\<close>

text \<open>One turn of the loop, with the reading of the clock in that turn.\<close>

definition move_pod :: "int \<Rightarrow> QueuedPodInfo \<Rightarrow> PriorityQueue \<Rightarrow> PriorityQueue option" where
  "move_pod now pInfo p =
    (let pod = qp_Pod pInfo in
     if isPodBackingoff p now pInfo then
       do { (b, err) \<leftarrow> Heap_Add (podBackoffQ p) pInfo;
            case err of
              Some e \<Rightarrow> Some (p\<lparr>podBackoffQ := b\<rparr>)
            | None \<Rightarrow> Some (p\<lparr>podBackoffQ := b, unschedulableQ := up_delete (unschedulableQ p) pod\<rparr>) }
     else
       do { (a, err) \<leftarrow> Heap_Add (activeQ p) pInfo;
            case err of
              Some e \<Rightarrow> Some (p\<lparr>activeQ := a\<rparr>)
            | None \<Rightarrow> Some (p\<lparr>activeQ := a, unschedulableQ := up_delete (unschedulableQ p) pod\<rparr>) })"

fun move_loop :: "(nat \<Rightarrow> int) \<Rightarrow> nat \<Rightarrow> QueuedPodInfo list \<Rightarrow> PriorityQueue \<Rightarrow> PriorityQueue option" where
  "move_loop clk i [] p = Some p"
| "move_loop clk i (pInfo # podInfoList) p =
    do { p' \<leftarrow> move_pod (clk i) pInfo p; move_loop clk (Suc i) podInfoList p' }"

definition movePodsToActiveOrBackoffQueue :: "(nat \<Rightarrow> int) \<Rightarrow> PriorityQueue \<Rightarrow> QueuedPodInfo list \<Rightarrow>
    PriorityQueue option" where
  "movePodsToActiveOrBackoffQueue clk p podInfoList =
    do { p' \<leftarrow> move_loop clk 0 podInfoList p;
         Some (p'\<lparr>moveRequestCycle := schedulingCycle p'\<rparr>) }"

definition MoveAllToActiveOrBackoffQueue :: "(nat \<Rightarrow> int) \<Rightarrow> PriorityQueue \<Rightarrow> PriorityQueue option" where
  "MoveAllToActiveOrBackoffQueue clk p =
    movePodsToActiveOrBackoffQueue clk p (map snd (podInfoMap (unschedulableQ p)))"

text \<open>The reading for the check comes before those of the moves.\<close>

definition flushUnschedulableQLeftover :: "int \<Rightarrow> (nat \<Rightarrow> int) \<Rightarrow> PriorityQueue \<Rightarrow> PriorityQueue option" where
  "flushUnschedulableQLeftover currentTime clk p =
    (let podsToMove = filter (\<lambda>pInfo. currentTime - qp_Timestamp pInfo > unschedulableQTimeInterval)
           (map snd (podInfoMap (unschedulableQ p)))
     in if length podsToMove > 0 then movePodsToActiveOrBackoffQueue clk p podsToMove else Some p)"

partial_function (option) flush_loop :: "(nat \<Rightarrow> int) \<Rightarrow> nat \<Rightarrow> PriorityQueue \<Rightarrow> PriorityQueue option" where
  "flush_loop clk i p =
    do { rawPodInfo \<leftarrow> Heap_Peek (podBackoffQ p);
         case rawPodInfo of
           None \<Rightarrow> Some p
         | Some pInfo \<Rightarrow>
             if getBackoffTime p pInfo > clk i then Some p
             else do { (r, b) \<leftarrow> Heap_Pop (podBackoffQ p);
                       case r of
                         Inl e \<Rightarrow> Some (p\<lparr>podBackoffQ := b\<rparr>)
                       | Inr _ \<Rightarrow>
                           do { (a, err) \<leftarrow> Heap_Add (activeQ p) pInfo;
                                flush_loop clk (Suc i) (p\<lparr>podBackoffQ := b, activeQ := a\<rparr>) } } }"

definition flushBackoffQCompleted :: "(nat \<Rightarrow> int) \<Rightarrow> PriorityQueue \<Rightarrow> PriorityQueue option" where
  "flushBackoffQCompleted clk p = flush_loop clk 0 p"

text \<open>
  \<open>LabelSelectorAsSelector\<close> returns a nil selector with an error, which is logged; matching a nil
  selector stops the process.
\<close>

definition term_matches :: "as_selector \<Rightarrow> Pod \<Rightarrow> Pod \<Rightarrow> PodAffinityTerm \<Rightarrow> bool option" where
  "term_matches asSel up pod t =
    (let namespaces = GetNamespacesFromPodAffinityTerm up t in
     case asSel (pat_LabelSelector t) of
       Inr sel \<Rightarrow> Some (PodMatchesTermsNamespaceAndSelector pod namespaces sel)
     | Inl _ \<Rightarrow> if List.member namespaces (pod_Namespace pod) then None else Some False)"

fun any_term :: "as_selector \<Rightarrow> Pod \<Rightarrow> Pod \<Rightarrow> PodAffinityTerm list \<Rightarrow> bool option" where
  "any_term asSel up pod [] = Some False"
| "any_term asSel up pod (t # ts) =
    do { m \<leftarrow> term_matches asSel up pod t; if m then Some True else any_term asSel up pod ts }"

fun matching_loop :: "as_selector \<Rightarrow> Pod \<Rightarrow> QueuedPodInfo list \<Rightarrow> QueuedPodInfo list option" where
  "matching_loop asSel pod [] = Some []"
| "matching_loop asSel pod (pInfo # infos) =
    do { m \<leftarrow> any_term asSel (qp_Pod pInfo) pod (GetPodAffinityTerms (pod_Affinity (qp_Pod pInfo)));
         rest \<leftarrow> matching_loop asSel pod infos;
         Some (if m then pInfo # rest else rest) }"

definition getUnschedulablePodsWithMatchingAffinityTerm :: "as_selector \<Rightarrow> PriorityQueue \<Rightarrow> Pod \<Rightarrow>
    QueuedPodInfo list option" where
  "getUnschedulablePodsWithMatchingAffinityTerm asSel p pod =
    matching_loop asSel pod (map snd (podInfoMap (unschedulableQ p)))"

definition AssignedPodAdded :: "as_selector \<Rightarrow> (nat \<Rightarrow> int) \<Rightarrow> PriorityQueue \<Rightarrow> Pod \<Rightarrow> PriorityQueue option" where
  "AssignedPodAdded asSel clk p pod =
    do { infos \<leftarrow> getUnschedulablePodsWithMatchingAffinityTerm asSel p pod;
         movePodsToActiveOrBackoffQueue clk p infos }"

definition AssignedPodUpdated :: "as_selector \<Rightarrow> (nat \<Rightarrow> int) \<Rightarrow> PriorityQueue \<Rightarrow> Pod \<Rightarrow> PriorityQueue option" where
  "AssignedPodUpdated asSel clk p pod =
    do { infos \<leftarrow> getUnschedulablePodsWithMatchingAffinityTerm asSel p pod;
         movePodsToActiveOrBackoffQueue clk p infos }"

subsection \<open>Taking the next pod\<close>

datatype pop_result = Blocked | PopError error | Popped QueuedPodInfo

definition PQ_Pop :: "PriorityQueue \<Rightarrow> (pop_result \<times> PriorityQueue) option" where
  "PQ_Pop p =
    (if Heap_Len (activeQ p) = 0 then
       Some (if pq_closed p then PopError queueClosed else Blocked, p)
     else
       do { (obj, a) \<leftarrow> Heap_Pop (activeQ p);
            case obj of
              Inl err \<Rightarrow> Some (PopError err, p\<lparr>activeQ := a\<rparr>)
            | Inr pInfo \<Rightarrow>
                Some (Popped (pInfo\<lparr>qp_Attempts := i64 (qp_Attempts pInfo + 1)\<rparr>),
                  p\<lparr>activeQ := a, schedulingCycle := i64 (schedulingCycle p + 1)\<rparr>) })"

text \<open>The next pod, or \<open>nil\<close>; \<open>None\<close> while the call has not returned.\<close>

definition MakeNextPodFunc :: "PriorityQueue \<Rightarrow> (QueuedPodInfo option option \<times> PriorityQueue) option" where
  "MakeNextPodFunc q =
    do { (r, q') \<leftarrow> PQ_Pop q;
         Some (case r of Blocked \<Rightarrow> None | PopError _ \<Rightarrow> Some None | Popped podInfo \<Rightarrow> Some (Some podInfo), q') }"

subsection \<open>Updates, deletions and the rest\<close>

definition strip :: "Pod \<Rightarrow> Pod" where
  "strip pod = pod\<lparr>pod_ResourceVersion := '''', pod_Generation := 0, pod_StartTime := None, pod_NominatedNodeName := '''',
     pod_Phase := '''', pod_Conditions := [], pod_StatusRest := ''''\<rparr>"

definition isPodUpdated :: "Pod \<Rightarrow> Pod \<Rightarrow> bool" where
  "isPodUpdated oldPod newPod = (strip oldPod \<noteq> strip newPod)"

text \<open>\<open>updatePod\<close> on an object in the active queue, under the key it was found with.\<close>

definition write_active :: "PriorityQueue \<Rightarrow> QueuedPodInfo \<Rightarrow> QueuedPodInfo \<Rightarrow> PriorityQueue" where
  "write_active p probe pInfo =
    (case keyFunc (h_data (activeQ p)) probe of
       Inl _ \<Rightarrow> p
     | Inr key \<Rightarrow> p\<lparr>activeQ := (activeQ p)\<lparr>h_data := set_obj (h_data (activeQ p)) key pInfo\<rparr>\<rparr>)"

text \<open>The part of \<open>Update\<close> after the two look-ups with the old pod; a nil old pod is dereferenced there.\<close>

definition update_rest :: "int \<Rightarrow> PriorityQueue \<Rightarrow> Pod option \<Rightarrow> Pod \<Rightarrow> (PriorityQueue \<times> error option) option" where
  "update_rest now p oldPod newPod =
    (case up_get (unschedulableQ p) newPod of
       Some usPodInfo \<Rightarrow>
         do { old \<leftarrow> oldPod;
              let p1 = p\<lparr>pq_PodNominator := UpdateNominatedPod (pq_PodNominator p) old newPod\<rparr>;
              if isPodUpdated old newPod then
                let p2 = p1\<lparr>unschedulableQ := up_delete (unschedulableQ p1) (qp_Pod usPodInfo)\<rparr>
                in do { (a, err) \<leftarrow> Heap_Add (activeQ p2) (queue_updatePod usPodInfo newPod);
                        Some (p2\<lparr>activeQ := a\<rparr>, err) }
              else Some (p1\<lparr>unschedulableQ := up_addOrUpdate (unschedulableQ p1)
                     (queue_updatePod usPodInfo newPod)\<rparr>, None) }
     | None \<Rightarrow>
         do { (a, err) \<leftarrow> Heap_Add (activeQ p) (newQueuedPodInfo now newPod);
              Some ((if err = None
                     then p\<lparr>activeQ := a, pq_PodNominator := AddNominatedPod (pq_PodNominator p) newPod ''''\<rparr>
                     else p\<lparr>activeQ := a\<rparr>), err) })"

definition PQ_Update :: "int \<Rightarrow> PriorityQueue \<Rightarrow> Pod option \<Rightarrow> Pod \<Rightarrow> (PriorityQueue \<times> error option) option" where
  "PQ_Update now p oldPod newPod =
    (case oldPod of
       None \<Rightarrow> update_rest now p oldPod newPod
     | Some old \<Rightarrow>
         let probe = newQueuedPodInfoNoTimestamp old in
         (case heap_lookup (activeQ p) probe of
            Some oldPodInfo \<Rightarrow>
              let p1 = p\<lparr>pq_PodNominator := UpdateNominatedPod (pq_PodNominator p) old newPod\<rparr>;
                  pInfo = queue_updatePod oldPodInfo newPod;
                  p2 = write_active p1 probe pInfo
              in do { (a, err) \<leftarrow> Heap_Update (activeQ p2) pInfo;
                      Some (p2\<lparr>activeQ := a\<rparr>, err) }
          | None \<Rightarrow>
              (case heap_lookup (podBackoffQ p) probe of
                 Some oldPodInfo \<Rightarrow>
                   let p1 = p\<lparr>pq_PodNominator := UpdateNominatedPod (pq_PodNominator p) old newPod\<rparr> in
                   do { (b, _) \<leftarrow> Heap_Delete (podBackoffQ p1) oldPodInfo;
                        (a, err) \<leftarrow> Heap_Add (activeQ p1) (queue_updatePod oldPodInfo newPod);
                        Some (p1\<lparr>podBackoffQ := b, activeQ := a\<rparr>, err) }
               | None \<Rightarrow> update_rest now p oldPod newPod)))"

definition PQ_Delete :: "PriorityQueue \<Rightarrow> Pod \<Rightarrow> (PriorityQueue \<times> error option) option" where
  "PQ_Delete p pod =
    (let p1 = p\<lparr>pq_PodNominator := DeleteNominatedPodIfExists (pq_PodNominator p) pod\<rparr>;
         probe = newQueuedPodInfoNoTimestamp pod
     in do { (a, err) \<leftarrow> Heap_Delete (activeQ p1) probe;
             case err of
               None \<Rightarrow> Some (p1\<lparr>activeQ := a\<rparr>, None)
             | Some _ \<Rightarrow>
                 do { (b, _) \<leftarrow> Heap_Delete (podBackoffQ p1) probe;
                      Some (p1\<lparr>activeQ := a, podBackoffQ := b,
                        unschedulableQ := up_delete (unschedulableQ p1) pod\<rparr>, None) } })"

definition PendingPods :: "PriorityQueue \<Rightarrow> Pod list" where
  "PendingPods p = map qp_Pod (Heap_List (activeQ p)) @ map qp_Pod (Heap_List (podBackoffQ p)) @
     map (qp_Pod \<circ> snd) (podInfoMap (unschedulableQ p))"

definition NumUnschedulablePods :: "PriorityQueue \<Rightarrow> nat" where
  "NumUnschedulablePods p = length (podInfoMap (unschedulableQ p))"

text \<open>Closing a closed channel stops the process.\<close>

definition PQ_Close :: "PriorityQueue \<Rightarrow> PriorityQueue option" where
  "PQ_Close p = (if pq_closed p then None else Some (p\<lparr>pq_closed := True\<rparr>))"

end
