(* ===== verification/Nominated_Pods.thy ===== *)
theory Nominated_Pods
  imports Scheduling_Queue
begin

text \<open>
  The nominator: two maps, from a node to the pods nominated to it and from the UID of a pod to its
  node. They stay inverse to each other, and together they are one map from UIDs to a node and a
  pod, which every method changes in the obvious way.
\<close>

subsection \<open>The two maps in step\<close>

abbreviation to_node :: "nominatedPodMap \<Rightarrow> string \<Rightarrow> string option" where
  "to_node npm \<equiv> gm_get (nominatedPodToNode npm)"

definition npm_inv :: "nominatedPodMap \<Rightarrow> bool" where
  "npm_inv npm \<longleftrightarrow> gm_ok (nominatedPods npm) \<and> gm_ok (nominatedPodToNode npm) \<and>
     (\<forall>n ps. gm_get (nominatedPods npm) n = Some ps \<longrightarrow> ps \<noteq> []) \<and>
     (\<forall>n. distinct (map pod_UID (NominatedPodsForNode npm n))) \<and>
     (\<forall>n u. to_node npm u = Some n \<longleftrightarrow> u \<in> pod_UID ` set (NominatedPodsForNode npm n)) \<and>
     [] \<notin> ran (to_node npm)"

definition nomination :: "nominatedPodMap \<Rightarrow> string \<Rightarrow> (string \<times> Pod) option" where
  "nomination npm u = (case to_node npm u of None \<Rightarrow> None
     | Some n \<Rightarrow> map_option (Pair n) (List.find (\<lambda>p. pod_UID p = u) (NominatedPodsForNode npm n)))"

lemma filter_ne_id: "k \<notin> f ` set xs \<Longrightarrow> filter (\<lambda>x. f x \<noteq> k) xs = xs"
  by (induction xs) auto

lemma del_at_filter:
  "distinct (map f xs) \<Longrightarrow> find_index (\<lambda>x. f x = k) xs = Some i \<Longrightarrow> del_at i xs = filter (\<lambda>x. f x \<noteq> k) xs"
proof (induction xs arbitrary: i)
  case (Cons x xs)
  show ?case
  proof (cases "f x = k")
    case True
    then have "filter (\<lambda>y. f y \<noteq> k) xs = xs" using Cons.prems(1) by (intro filter_ne_id) simp
    with True Cons.prems(2) show ?thesis by (simp add: del_at_def)
  next
    case False
    then obtain j where "i = Suc j" "find_index (\<lambda>x. f x = k) xs = Some j" using Cons.prems(2) by auto
    with Cons False show ?thesis by (simp add: del_at_def)
  qed
qed simp

lemma npm_delete_pods:
  assumes inv: "npm_inv npm"
  shows "NominatedPodsForNode (npm_delete npm p) n = filter (\<lambda>q. pod_UID q \<noteq> pod_UID p) (NominatedPodsForNode npm n)"
    and "to_node (npm_delete npm p) = (to_node npm)(pod_UID p := None)"
proof -
  let ?u = "pod_UID p"
  have two: "to_node npm u = Some m \<longleftrightarrow> u \<in> pod_UID ` set (NominatedPodsForNode npm m)" for u m
    using inv unfolding npm_inv_def by blast
  have "NominatedPodsForNode (npm_delete npm p) n = filter (\<lambda>q. pod_UID q \<noteq> ?u) (NominatedPodsForNode npm n) \<and>
    to_node (npm_delete npm p) = (to_node npm)(?u := None)"
  proof (cases "to_node npm ?u")
    case None
    then have "filter (\<lambda>q. pod_UID q \<noteq> ?u) (NominatedPodsForNode npm n) = NominatedPodsForNode npm n"
      using two [of ?u n] by (intro filter_ne_id) simp
    with None show ?thesis by (simp add: npm_delete_def fun_upd_idem)
  next
    case (Some m)
    let ?ps = "NominatedPodsForNode npm m"
    have "?u \<in> pod_UID ` set ?ps" using Some two [of ?u m] by blast
    then have "\<exists>q\<in>set ?ps. pod_UID q = ?u" by (metis imageE)
    from find_index_ex [OF this] obtain i where i: "find_index (\<lambda>q. pod_UID q = ?u) ?ps = Some i" by (elim exE)
    have d: "del_at i ?ps = filter (\<lambda>q. pod_UID q \<noteq> ?u) ?ps"
      using inv i by (intro del_at_filter) (auto simp: npm_inv_def)
    have other: "filter (\<lambda>q. pod_UID q \<noteq> ?u) (NominatedPodsForNode npm n) = NominatedPodsForNode npm n" if "n \<noteq> m"
      using two [of ?u n] Some that by (intro filter_ne_id) simp
    show ?thesis
      using Some i d other
      by (auto simp: npm_delete_def Let_def NominatedPodsForNode_def gm_get_del_map split: option.splits)
  qed
  then show "NominatedPodsForNode (npm_delete npm p) n = filter (\<lambda>q. pod_UID q \<noteq> pod_UID p) (NominatedPodsForNode npm n)"
    "to_node (npm_delete npm p) = (to_node npm)(pod_UID p := None)" by blast+
qed

lemma npm_delete_inv:
  assumes inv: "npm_inv npm"
  shows "npm_inv (npm_delete npm p)"
proof -
  note D = npm_delete_pods [OF inv, of p]
  have two: "to_node npm u = Some m \<longleftrightarrow> u \<in> pod_UID ` set (NominatedPodsForNode npm m)" for u m
    using inv unfolding npm_inv_def by blast
  have "gm_ok (nominatedPods (npm_delete npm p)) \<and> gm_ok (nominatedPodToNode (npm_delete npm p)) \<and>
      (\<forall>n ps. gm_get (nominatedPods (npm_delete npm p)) n = Some ps \<longrightarrow> ps \<noteq> [])"
    using inv by (auto simp: npm_inv_def npm_delete_def Let_def split: option.splits if_splits)
  moreover have "distinct (map pod_UID (NominatedPodsForNode (npm_delete npm p) n))" for n
    using inv by (simp add: D npm_inv_def distinct_map_filter)
  moreover have "to_node (npm_delete npm p) u = Some n \<longleftrightarrow>
      u \<in> pod_UID ` set (NominatedPodsForNode (npm_delete npm p) n)" for u n
    unfolding D using two [of u n] by auto
  moreover have "[] \<notin> ran (to_node (npm_delete npm p))"
    using inv unfolding D by (auto simp: npm_inv_def ran_def)
  ultimately show ?thesis unfolding npm_inv_def by blast
qed

lemma npm_add_pods:
  assumes inv: "npm_inv npm" and nnn: "nnn = (if nodeName = [] then NominatedNodeName p else nodeName)"
  shows "NominatedPodsForNode (npm_add npm p nodeName) n =
      NominatedPodsForNode (npm_delete npm p) n @ (if nnn \<noteq> [] \<and> n = nnn then [p] else [])"
    and "to_node (npm_add npm p nodeName) =
      (if nnn = [] then (to_node npm)(pod_UID p := None) else (to_node npm)(pod_UID p \<mapsto> nnn))"
proof -
  note D = npm_delete_pods [OF inv, of p]
  let ?d = "npm_delete npm p"
  have no: "\<not> (\<exists>q\<in>set (NominatedPodsForNode ?d nnn). pod_UID q = pod_UID p)" by (simp add: D)
  have g: "NominatedPodsForNode (?d\<lparr>nominatedPodToNode := t\<rparr>) m = NominatedPodsForNode ?d m" for t m
    by (simp add: NominatedPodsForNode_def)
  have a: "npm_add npm p nodeName = (if nnn = [] then ?d else
      ?d\<lparr>nominatedPodToNode := gm_put (nominatedPodToNode ?d) (pod_UID p) nnn,
        nominatedPods := gm_put (nominatedPods ?d) nnn (NominatedPodsForNode ?d nnn @ [p])\<rparr>)"
    using no unfolding npm_add_def Let_def nnn by (auto simp: g)
  show "NominatedPodsForNode (npm_add npm p nodeName) n =
      NominatedPodsForNode (npm_delete npm p) n @ (if nnn \<noteq> [] \<and> n = nnn then [p] else [])"
    by (auto simp: a NominatedPodsForNode_def)
  show "to_node (npm_add npm p nodeName) =
      (if nnn = [] then (to_node npm)(pod_UID p := None) else (to_node npm)(pod_UID p \<mapsto> nnn))"
    by (simp add: a D(2) gm_get_put_map)
qed

lemma npm_add_inv:
  assumes inv: "npm_inv npm"
  shows "npm_inv (npm_add npm p nodeName)"
proof -
  define nnn where "nnn = (if nodeName = [] then NominatedNodeName p else nodeName)"
  note A = npm_add_pods [OF inv nnn_def] and D = npm_delete_pods [OF inv, of p] and I = npm_delete_inv [OF inv, of p]
  let ?a = "npm_add npm p nodeName"
  have two: "to_node npm u = Some m \<longleftrightarrow> u \<in> pod_UID ` set (NominatedPodsForNode npm m)" for u m
    using inv unfolding npm_inv_def by blast
  have "gm_ok (nominatedPods ?a) \<and> gm_ok (nominatedPodToNode ?a) \<and>
      (\<forall>n ps. gm_get (nominatedPods ?a) n = Some ps \<longrightarrow> ps \<noteq> [])"
    using I by (auto simp: npm_inv_def npm_add_def Let_def split: if_splits)
  moreover have "distinct (map pod_UID (NominatedPodsForNode ?a n))" for n
    using inv by (auto simp: A D npm_inv_def distinct_map_filter)
  moreover have "to_node ?a u = Some n \<longleftrightarrow> u \<in> pod_UID ` set (NominatedPodsForNode ?a n)" for u n
    unfolding A D using two [of u n] by auto
  moreover have "[] \<notin> ran (to_node ?a)"
    using inv unfolding A by (auto simp: npm_inv_def ran_def)
  ultimately show ?thesis unfolding npm_inv_def by blast
qed

subsection \<open>One map\<close>

lemma find_unique:
  "distinct (map f xs) \<Longrightarrow> List.find (\<lambda>x. f x = k) xs = Some y \<longleftrightarrow> y \<in> set xs \<and> f y = k"
  by (induction xs) auto

lemma nomination_eq:
  assumes inv: "npm_inv npm"
  shows "nomination npm u = Some (n, p) \<longleftrightarrow> p \<in> set (NominatedPodsForNode npm n) \<and> pod_UID p = u"
proof -
  have "to_node npm u = Some n" if "p \<in> set (NominatedPodsForNode npm n)" "pod_UID p = u"
    using inv that unfolding npm_inv_def by blast
  moreover have "distinct (map pod_UID (NominatedPodsForNode npm n))" using inv by (simp add: npm_inv_def)
  ultimately show ?thesis
    by (auto simp: nomination_def find_unique split: option.splits)
qed

lemma nomination_delete:
  assumes inv: "npm_inv npm"
  shows "nomination (npm_delete npm p) = (nomination npm)(pod_UID p := None)"
proof
  fix u
  have "nomination (npm_delete npm p) u = Some x \<longleftrightarrow> ((nomination npm)(pod_UID p := None)) u = Some x" for x
    using nomination_eq [OF npm_delete_inv [OF inv], of p u "fst x" "snd x"] nomination_eq [OF inv, of u "fst x" "snd x"]
    by (auto simp: npm_delete_pods [OF inv])
  then show "nomination (npm_delete npm p) u = ((nomination npm)(pod_UID p := None)) u"
    by (metis not_Some_eq)
qed

lemma nomination_add:
  assumes inv: "npm_inv npm"
  shows "nomination (npm_add npm p nodeName) = (nomination npm)(pod_UID p :=
    (let nnn = (if nodeName = [] then NominatedNodeName p else nodeName) in if nnn = [] then None else Some (nnn, p)))"
proof
  fix u
  define nnn where "nnn = (if nodeName = [] then NominatedNodeName p else nodeName)"
  let ?r = "(nomination npm)(pod_UID p := (if nnn = [] then None else Some (nnn, p)))"
  have "nomination (npm_add npm p nodeName) u = Some x \<longleftrightarrow> ?r u = Some x" for x
    using nomination_eq [OF npm_add_inv [OF inv], of p nodeName u "fst x" "snd x"] nomination_eq [OF inv, of u "fst x" "snd x"]
    by (auto simp: npm_add_pods [OF inv nnn_def] npm_delete_pods [OF inv])
  then have "nomination (npm_add npm p nodeName) u = ?r u" by (metis not_Some_eq)
  then show "nomination (npm_add npm p nodeName) u = ((nomination npm)(pod_UID p :=
    (let nnn = (if nodeName = [] then NominatedNodeName p else nodeName) in if nnn = [] then None else Some (nnn, p)))) u"
    by (simp add: nnn_def Let_def)
qed

subsection \<open>Runs of the nominator\<close>

datatype nom_op = NAdd Pod string | NDelete Pod | NUpdate Pod Pod

fun run_nom :: "nom_op \<Rightarrow> nominatedPodMap \<Rightarrow> nominatedPodMap" where
  "run_nom (NAdd p n) npm = AddNominatedPod npm p n"
| "run_nom (NDelete p) npm = DeleteNominatedPodIfExists npm p"
| "run_nom (NUpdate old new) npm = UpdateNominatedPod npm old new"

text \<open>The same on the one map. An update keeps the node of a pod when neither object names one.\<close>

definition spec_nominate :: "Pod \<Rightarrow> string \<Rightarrow> (string \<Rightarrow> (string \<times> Pod) option) \<Rightarrow> string \<Rightarrow> (string \<times> Pod) option" where
  "spec_nominate p n m = m(pod_UID p := (let nnn = (if n = [] then pod_NominatedNodeName p else n) in
     if nnn = [] then None else Some (nnn, p)))"

fun spec_nom :: "nom_op \<Rightarrow> (string \<Rightarrow> (string \<times> Pod) option) \<Rightarrow> string \<Rightarrow> (string \<times> Pod) option" where
  "spec_nom (NAdd p n) m = spec_nominate p n m"
| "spec_nom (NDelete p) m = m(pod_UID p := None)"
| "spec_nom (NUpdate old new) m =
    (let keep = (if pod_NominatedNodeName old = [] \<and> pod_NominatedNodeName new = []
                 then (case m (pod_UID old) of Some (n, _) \<Rightarrow> n | None \<Rightarrow> []) else [])
     in spec_nominate new keep (m(pod_UID old := None)))"

lemma to_node_nomination:
  assumes "npm_inv npm"
  shows "to_node npm u = map_option fst (nomination npm u)"
proof (cases "to_node npm u")
  case (Some n)
  then have "u \<in> pod_UID ` set (NominatedPodsForNode npm n)" using assms unfolding npm_inv_def by blast
  then obtain p where "p \<in> set (NominatedPodsForNode npm n)" "pod_UID p = u" by blast
  then have "nomination npm u = Some (n, p)" using nomination_eq [OF assms] by blast
  with Some show ?thesis by simp
qed (simp add: nomination_def)

lemma run_nom_ok:
  assumes inv: "npm_inv npm"
  shows "npm_inv (run_nom op npm) \<and> nomination (run_nom op npm) = spec_nom op (nomination npm)"
proof (cases op)
  case (NAdd p n)
  then show ?thesis using npm_add_inv [OF inv] nomination_add [OF inv]
    by (simp add: AddNominatedPod_def spec_nominate_def NominatedNodeName_def)
next
  case (NDelete p)
  then show ?thesis using npm_delete_inv [OF inv] nomination_delete [OF inv] by (simp add: DeleteNominatedPodIfExists_def)
next
  case (NUpdate old new)
  note I = npm_delete_inv [OF inv, of old]
  show ?thesis
    using npm_add_inv [OF I] nomination_add [OF I] nomination_delete [OF inv, of old] to_node_nomination [OF inv, of "pod_UID old"]
    by (auto simp: NUpdate UpdateNominatedPod_def Let_def spec_nominate_def NominatedNodeName_def split: option.splits)
qed

text \<open>
  Whatever sequence of nominations, deletions and updates the nominator gets, its two maps are
  one map from UIDs to a node and a pod, changed as specified: a pod is nominated to at most one
  node; a nomination replaces the earlier one; an update keeps the node of a pod when neither
  object names one; and the pods of a node are exactly those the map has there, each once.
\<close>

theorem nominator_refines_map:
  "nomination (fold run_nom ops NewPodNominator) = fold spec_nom ops Map.empty \<and>
   (\<forall>n. distinct (map pod_UID (NominatedPodsForNode (fold run_nom ops NewPodNominator) n)) \<and>
     (\<forall>p. p \<in> set (NominatedPodsForNode (fold run_nom ops NewPodNominator) n) \<longleftrightarrow>
       fold spec_nom ops Map.empty (pod_UID p) = Some (n, p)))"
proof -
  have run: "npm_inv (fold run_nom ops npm) \<and> nomination (fold run_nom ops npm) = fold spec_nom ops (nomination npm)"
    if "npm_inv npm" for npm
    using that
  proof (induction ops arbitrary: npm)
    case (Cons op ops)
    from run_nom_ok [OF Cons.prems, of op] Cons.IH [of "run_nom op npm"] show ?case by simp
  qed simp
  have new: "npm_inv NewPodNominator" "nomination NewPodNominator = Map.empty"
    by (simp_all add: npm_inv_def NewPodNominator_def NominatedPodsForNode_def nomination_def fun_eq_iff)
  show ?thesis
    using run [OF new(1)] nomination_eq [of "fold run_nom ops NewPodNominator"] new(2)
    by (auto simp: npm_inv_def)
qed

end
