(* ===== verification/Generic_Scheduler.thy ===== *)
theory Generic_Scheduler
  imports Framework_Init Cache_Snapshot Nominated_Pods
begin

text \<open>
  The scheduling algorithm, \<^verbatim>\<open>scheduler/core/generic_scheduler.go\<close>: find the nodes that pass the
  filters, in parallel; let the extenders filter them; score them; and pick one of the best.

  Code outside the repository is an argument: the selector conversion, the data of a cycle state and
  its \<open>Clone\<close>, the lister of volume claims, the constant of the extender API and the way in which
  plugins see the shared snapshot. Random numbers and the interleaving of goroutines are arguments
  too. Nodes that are checked against nominated pods work on clones, so the generation that a clone gets
  is never read; it is the argument \<open>gen\<close>.
\<close>

subsection \<open>Types\<close>

record PersistentVolumeClaim =
  pvc_Name :: string
  pvc_DeletionTimestamp :: "int option"

record ('d, 'w) externals =
  ex_asSelector :: as_selector
  ex_clone :: "'d \<Rightarrow> 'd"
  ex_share :: "Snapshot \<Rightarrow> 'w \<Rightarrow> 'w"
  ex_pvcLister :: "string \<Rightarrow> string \<Rightarrow> error + PersistentVolumeClaim"
  ex_IsControlledBy :: "PersistentVolumeClaim \<Rightarrow> Pod \<Rightarrow> bool"
  ex_MaxExtenderPriority :: int

definition minFeasibleNodesToFind :: int where "minFeasibleNodesToFind = 100"
definition minFeasibleNodesPercentageToFind :: int where "minFeasibleNodesPercentageToFind = 5"

record FitError =
  fe_Pod :: Pod
  fe_NumAllNodes :: int
  fe_FilteredNodesStatuses :: NodeToStatusMap

definition ErrNoNodesAvailable :: error where
  "ErrNoNodesAvailable = ''no nodes available to schedule pods''"

datatype schedule_error = Plain error | Fit FitError

record ScheduleResult =
  SuggestedHost :: string
  EvaluatedNodes :: int
  FeasibleNodes :: int

record 'w genericScheduler =
  g_cache :: schedulerCache
  g_extenders :: "'w Extender list"
  g_nodeInfoSnapshot :: Snapshot
  g_disablePreemption :: bool
  g_percentageOfNodesToScore :: int
  g_nextStartNodeIndex :: nat

definition NewGenericScheduler :: "schedulerCache \<Rightarrow> Snapshot \<Rightarrow> 'w Extender list \<Rightarrow> bool \<Rightarrow> int \<Rightarrow> 'w genericScheduler" where
  "NewGenericScheduler cache nodeInfoSnapshot extenders disablePreemption percentageOfNodesToScore =
    \<lparr>g_cache = cache, g_extenders = extenders, g_nodeInfoSnapshot = nodeInfoSnapshot,
     g_disablePreemption = disablePreemption, g_percentageOfNodesToScore = percentageOfNodesToScore,
     g_nextStartNodeIndex = 0\<rparr>"

text \<open>The text of a fit error: how often each reason was given, sorted.\<close>

definition count_reason :: "string \<Rightarrow> (string, int) gomap \<Rightarrow> (string, int) gomap" where
  "count_reason reason reasons = gm_put reasons reason (gm_get0 reasons reason + 1)"

fun lex_le :: "string \<Rightarrow> string \<Rightarrow> bool" where
  "lex_le [] ys = True"
| "lex_le (x # xs) [] = False"
| "lex_le (x # xs) (y # ys) =
    (if (of_char x :: nat) = of_char y then lex_le xs ys else (of_char x :: nat) < of_char y)"

fun insert_sorted :: "string \<Rightarrow> string list \<Rightarrow> string list" where
  "insert_sorted x [] = [x]"
| "insert_sorted x (y # ys) = (if lex_le x y then x # y # ys else y # insert_sorted x ys)"

definition sort_Strings :: "string list \<Rightarrow> string list" where
  "sort_Strings xs = fold insert_sorted xs []"

fun collect_reasons :: "Status option list \<Rightarrow> (string, int) gomap \<Rightarrow> (string, int) gomap option" where
  "collect_reasons [] reasons = Some reasons"
| "collect_reasons (status # ss) reasons =
    do { rs \<leftarrow> Reasons status; collect_reasons ss (fold count_reason rs reasons) }"

definition FitError_Error :: "FitError \<Rightarrow> string option" where
  "FitError_Error f =
    do { reasons \<leftarrow> collect_reasons (map snd (fe_FilteredNodesStatuses f)) [];
         let reasonStrings = sort_Strings (map (\<lambda>e. go_v (snd e) @ '' '' @ fst e) reasons);
         Some (''0/'' @ go_v (fe_NumAllNodes f) @ '' nodes are available: '' @ strings_Join reasonStrings '', '' @ ''.'') }"

subsection \<open>Choosing a host\<close>

text \<open>\<open>rnd\<close> holds the results of the calls of \<open>rand.Intn\<close>, one after the other.\<close>

fun select_loop :: "(nat \<Rightarrow> nat) \<Rightarrow> nat \<Rightarrow> NodeScoreList \<Rightarrow> int \<Rightarrow> string \<Rightarrow> nat \<Rightarrow> string" where
  "select_loop rnd calls [] maxScore selected cntOfMaxScore = selected"
| "select_loop rnd calls (ns # l) maxScore selected cntOfMaxScore =
    (if ns_Score ns > maxScore then select_loop rnd calls l (ns_Score ns) (ns_Name ns) 1
     else if ns_Score ns = maxScore then
       (let cnt = cntOfMaxScore + 1 in
        select_loop rnd (calls + 1) l maxScore (if rnd calls = 0 then ns_Name ns else selected) cnt)
     else select_loop rnd calls l maxScore selected cntOfMaxScore)"

definition selectHost :: "(nat \<Rightarrow> nat) \<Rightarrow> NodeScoreList \<Rightarrow> error + string" where
  "selectHost rnd nodeScoreList =
    (case nodeScoreList of
       [] \<Rightarrow> Inl ''empty priorityList''
     | ns # l \<Rightarrow> Inr (select_loop rnd 0 l (ns_Score ns) (ns_Name ns) 1))"

subsection \<open>How many nodes to look for\<close>

definition quot32 :: "int \<Rightarrow> int \<Rightarrow> int" where
  "quot32 a b = i32 (sgn a * sgn b * (\<bar>a\<bar> div \<bar>b\<bar>))"

definition numFeasibleNodesToFind :: "int \<Rightarrow> int \<Rightarrow> int" where
  "numFeasibleNodesToFind percentageOfNodesToScore numAllNodes =
    (if numAllNodes < minFeasibleNodesToFind \<or> percentageOfNodesToScore \<ge> 100 then numAllNodes
     else
       let adaptivePercentage =
             (if percentageOfNodesToScore \<le> 0 then
                let p = i32 (50 - quot32 numAllNodes 125) in
                if p < minFeasibleNodesPercentageToFind then minFeasibleNodesPercentageToFind else p
              else percentageOfNodesToScore);
           numNodes = quot32 (i32 (numAllNodes * adaptivePercentage)) 100
       in if numNodes < minFeasibleNodesToFind then minFeasibleNodesToFind else numNodes)"

subsection \<open>Does the pod pass the filters of a node?\<close>

fun add_nominated :: "('d, 'w) externals \<Rightarrow> ('a, 'd, 'w) frameworkImpl \<Rightarrow> int \<Rightarrow> 'w \<Rightarrow> Pod \<Rightarrow> Pod list \<Rightarrow>
    bool \<times> 'd CycleState \<times> NodeInfo \<Rightarrow> error + bool \<times> 'd CycleState \<times> NodeInfo" where
  "add_nominated ex f gen w pod [] acc = Inr acc"
| "add_nominated ex f gen w pod (p # ps) (podsAdded, stateOut, nodeInfoOut) =
    (if GetPodPriority p \<ge> GetPodPriority pod \<and> pod_UID p \<noteq> pod_UID pod then
       let nodeInfoOut' = fst (NodeInfo_AddPod (ex_asSelector ex) gen nodeInfoOut p) in
       case RunPreFilterExtensionAddPod f w stateOut pod p nodeInfoOut' of (status, stateOut') \<Rightarrow>
         if \<not> IsSuccess status then Inl (the (AsError status))
         else add_nominated ex f gen w pod ps (True, stateOut', nodeInfoOut')
     else add_nominated ex f gen w pod ps (podsAdded, stateOut, nodeInfoOut))"

definition addNominatedPods :: "('d, 'w) externals \<Rightarrow> ('a, 'd, 'w) frameworkImpl \<Rightarrow> nominatedPodMap \<Rightarrow> int \<Rightarrow> 'w \<Rightarrow>
    Pod \<Rightarrow> 'd CycleState \<Rightarrow> NodeInfo \<Rightarrow> error + bool \<times> 'd CycleState \<times> NodeInfo" where
  "addNominatedPods ex f npm gen w pod state nodeInfo =
    (case ni_node nodeInfo of
       None \<Rightarrow> Inr (False, state, nodeInfo)
     | Some node \<Rightarrow>
        (let nominated = NominatedPodsForNode npm (node_Name node) in
         if length nominated = 0 then Inr (False, state, nodeInfo)
         else add_nominated ex f gen w pod nominated
                (False, the (CycleState_Clone (ex_clone ex) (Some state)), NodeInfo_Clone nodeInfo)))"

text \<open>The second run of the loop of \<open>PodPassesFiltersOnNode\<close>, then the first.\<close>

definition run_filters :: "('a, 'd, 'w) frameworkImpl \<Rightarrow> 'w \<Rightarrow> 'd CycleState \<Rightarrow> Pod \<Rightarrow> NodeInfo \<Rightarrow>
    (Status option \<times> error option) option" where
  "run_filters f w state pod info =
    do { status \<leftarrow> Merge (RunFilterPlugins f w state pod info);
         Some (if \<not> IsSuccess status \<and> \<not> IsUnschedulable status then (status, AsError status)
               else (status, None)) }"

definition PodPassesFiltersOnNode :: "('d, 'w) externals \<Rightarrow> ('a, 'd, 'w) frameworkImpl \<Rightarrow> nominatedPodMap \<Rightarrow> int \<Rightarrow>
    'w \<Rightarrow> 'd CycleState \<Rightarrow> Pod \<Rightarrow> NodeInfo \<Rightarrow> (bool \<times> Status option \<times> error option) option" where
  "PodPassesFiltersOnNode ex f npm gen w state pod info =
    (case addNominatedPods ex f npm gen w pod state info of
       Inl err \<Rightarrow> Some (False, None, Some err)
     | Inr (podsAdded, stateToUse, nodeInfoToUse) \<Rightarrow>
       do { (status, err) \<leftarrow> run_filters f w stateToUse pod nodeInfoToUse;
            if err \<noteq> None then Some (False, status, err)
            else if \<not> podsAdded \<or> \<not> IsSuccess status then Some (IsSuccess status, status, None)
            else do { (status', err') \<leftarrow> run_filters f w state pod info;
                      if err' \<noteq> None then Some (False, status', err')
                      else Some (IsSuccess status', status', None) } })"

subsection \<open>The parallel search\<close>

text \<open>
  What one goroutine finds out about its node, and where it is in \<open>checkNode\<close>. Each atomic action on
  shared data is a step of its own: the counter is increased, and either a slot is written, or the
  context is cancelled and the counter is decreased again.
\<close>

datatype check_result = Fits | Unfit "Status option" | Failed error | Crash

datatype check_pc = Todo | Started | Storing nat | Cancelling | Undoing | Erring
  | Stored nat | Dropped | Refused | Stopped | Crashed

record check_state =
  ck_pcs :: "check_pc list"
  ck_feasibleNodesLen :: int
  ck_feasibleNodes :: "Node option list"
  ck_statuses :: NodeToStatusMap
  ck_errCh :: "error option"
  ck_cancelled :: bool

definition check_init :: "nat \<Rightarrow> nat \<Rightarrow> check_state" where
  "check_init n numNodesToFind =
    \<lparr>ck_pcs = replicate n Todo, ck_feasibleNodesLen = 0, ck_feasibleNodes = replicate numNodesToFind None,
     ck_statuses = [], ck_errCh = None, ck_cancelled = False\<rparr>"

definition set_pc :: "nat \<Rightarrow> check_pc \<Rightarrow> check_state \<Rightarrow> check_state" where
  "set_pc i pc st = st\<lparr>ck_pcs := (ck_pcs st)[i := pc]\<rparr>"

definition checkNode :: "(nat \<Rightarrow> check_result) \<Rightarrow> (nat \<Rightarrow> Node) \<Rightarrow> nat \<Rightarrow> nat \<Rightarrow> check_state \<Rightarrow> check_state" where
  "checkNode check node numNodesToFind i st =
    (case ck_pcs st ! i of
       Todo \<Rightarrow> if ck_cancelled st then st else set_pc i Started st
     | Started \<Rightarrow>
        (case check i of
           Failed err \<Rightarrow> set_pc i Erring (st\<lparr>ck_errCh := SendError (ck_errCh st) err\<rparr>)
         | Fits \<Rightarrow>
             let len = i32 (ck_feasibleNodesLen st + 1); st1 = st\<lparr>ck_feasibleNodesLen := len\<rparr> in
             if len > int numNodesToFind then set_pc i Cancelling st1
             else set_pc i (Storing (nat (len - 1))) st1
         | Unfit status \<Rightarrow>
             set_pc i Refused
               (if \<not> IsSuccess status
                then st\<lparr>ck_statuses := gm_put (ck_statuses st) (node_Name (node i)) status\<rparr> else st)
         | Crash \<Rightarrow> set_pc i Crashed st)
     | Erring \<Rightarrow> set_pc i Stopped (st\<lparr>ck_cancelled := True\<rparr>)
     | Storing k \<Rightarrow> set_pc i (Stored k) (st\<lparr>ck_feasibleNodes := (ck_feasibleNodes st)[k := Some (node i)]\<rparr>)
     | Cancelling \<Rightarrow> set_pc i Undoing (st\<lparr>ck_cancelled := True\<rparr>)
     | Undoing \<Rightarrow> set_pc i Dropped (st\<lparr>ck_feasibleNodesLen := i32 (ck_feasibleNodesLen st - 1)\<rparr>)
     | _ \<Rightarrow> st)"

definition run_checks :: "(nat \<Rightarrow> check_result) \<Rightarrow> (nat \<Rightarrow> Node) \<Rightarrow> nat \<Rightarrow> nat list \<Rightarrow> check_state \<Rightarrow> check_state" where
  "run_checks check node numNodesToFind schedule st =
    fold (\<lambda>i s. if i < length (ck_pcs s) then checkNode check node numNodesToFind i s else s) schedule st"

text \<open>The parallel loop is over: nothing is running, and nothing is left to start unless it was cancelled.\<close>

definition check_over :: "check_state \<Rightarrow> bool" where
  "check_over st \<longleftrightarrow>
    list_all (\<lambda>pc. case pc of Stored k \<Rightarrow> True | Dropped \<Rightarrow> True | Refused \<Rightarrow> True | Stopped \<Rightarrow> True
      | Crashed \<Rightarrow> True | Todo \<Rightarrow> ck_cancelled st | _ \<Rightarrow> False) (ck_pcs st)"

definition check_result_of :: "(bool \<times> Status option \<times> error option) option \<Rightarrow> check_result" where
  "check_result_of r =
    (case r of None \<Rightarrow> Crash
     | Some (fits, status, err) \<Rightarrow>
        (case err of Some e \<Rightarrow> Failed e | None \<Rightarrow> if fits then Fits else Unfit status))"

text \<open>\<open>Node()\<close> of an entry of the snapshot, which is never nil; the zero object stands for nil.\<close>

definition node_of :: "NodeInfo \<Rightarrow> Node" where
  "node_of ni = (case ni_node ni of Some n \<Rightarrow> n | None \<Rightarrow> zero_node)"

definition findNodesThatPassFilters :: "('d, 'w) externals \<Rightarrow> nat list \<Rightarrow> ('a, 'd, 'w) frameworkImpl \<Rightarrow>
    nominatedPodMap \<Rightarrow> int \<Rightarrow> 'w genericScheduler \<Rightarrow> 'w \<Rightarrow> 'd CycleState \<Rightarrow> Pod \<Rightarrow>
    ('w genericScheduler \<times> NodeToStatusMap \<times> (error + Node list)) option" where
  "findNodesThatPassFilters ex schedule f npm gen g w state pod =
    (let allNodes = Snapshot_List (g_nodeInfoSnapshot g);
         len = length allNodes;
         numNodesToFind = nat (numFeasibleNodesToFind (g_percentageOfNodesToScore g) (i32 (int len)));
         start = g_nextStartNodeIndex g
     in if len = 0 then None
        else if \<not> HasFilterPlugins f then
          Some (g\<lparr>g_nextStartNodeIndex := (start + numNodesToFind) mod len\<rparr>, [],
                Inr (map (\<lambda>i. node_of (allNodes ! ((start + i) mod len))) [0..<numNodesToFind]))
        else
          let info = (\<lambda>i. allNodes ! ((start + i) mod len));
              check = (\<lambda>i. check_result_of (PodPassesFiltersOnNode ex f npm gen w state pod (info i)));
              st = run_checks check (\<lambda>i. node_of (info i)) numNodesToFind schedule (check_init len numNodesToFind);
              processedNodes = nat (ck_feasibleNodesLen st) + length (ck_statuses st);
              g' = g\<lparr>g_nextStartNodeIndex := (start + processedNodes) mod len\<rparr>;
              feasibleNodes = take (nat (ck_feasibleNodesLen st)) (ck_feasibleNodes st)
          in if list_ex (\<lambda>pc. pc = Crashed) (ck_pcs st) then None
             else case fst (ReceiveError (ck_errCh st)) of
                Some err \<Rightarrow> Some (g', ck_statuses st, Inl err)
              | None \<Rightarrow> Some (g', ck_statuses st, Inr (map (\<lambda>n. case n of Some n \<Rightarrow> n | None \<Rightarrow> zero_node) feasibleNodes)))"

subsection \<open>Extenders\<close>

fun add_failed :: "(string, string) gomap \<Rightarrow> NodeToStatusMap \<Rightarrow> NodeToStatusMap option" where
  "add_failed [] statuses = Some statuses"
| "add_failed ((failedNodeName, failedMsg) # failed) statuses =
    (case gm_get statuses failedNodeName of
       None \<Rightarrow> add_failed failed (gm_put statuses failedNodeName (Some (NewStatus Unschedulable [failedMsg])))
     | Some (Some s) \<Rightarrow> add_failed failed (gm_put statuses failedNodeName (Some (AppendReason s failedMsg)))
     | Some None \<Rightarrow> None)"

fun findNodesThatPassExtenders :: "'w Extender list \<Rightarrow> Pod \<Rightarrow> Node list \<Rightarrow> NodeToStatusMap \<Rightarrow>
    (NodeToStatusMap \<times> (error + Node list)) option" where
  "findNodesThatPassExtenders [] pod feasibleNodes statuses = Some (statuses, Inr feasibleNodes)"
| "findNodesThatPassExtenders (extender # extenders) pod feasibleNodes statuses =
    (if length feasibleNodes = 0 then Some (statuses, Inr feasibleNodes)
     else if \<not> ext_IsInterested extender pod then findNodesThatPassExtenders extenders pod feasibleNodes statuses
     else case ext_Filter extender pod feasibleNodes of
        Inl err \<Rightarrow>
          if ext_IsIgnorable extender then findNodesThatPassExtenders extenders pod feasibleNodes statuses
          else Some (statuses, Inl err)
      | Inr (feasibleList, failedMap) \<Rightarrow>
          do { statuses' \<leftarrow> add_failed failedMap statuses;
               findNodesThatPassExtenders extenders pod feasibleList statuses' })"

definition findNodesThatFitPod :: "('d, 'w) externals \<Rightarrow> nat list \<Rightarrow> ('a, 'd, 'w) frameworkImpl \<Rightarrow>
    nominatedPodMap \<Rightarrow> int \<Rightarrow> 'w genericScheduler \<Rightarrow> ('d, 'w) env \<Rightarrow> Pod \<Rightarrow>
    ('w genericScheduler \<times> ('d, 'w) env \<times> (error + Node list \<times> NodeToStatusMap)) option" where
  "findNodesThatFitPod ex schedule f npm gen g env pod =
    (case RunPreFilterPlugins f env pod of (s, env1) \<Rightarrow>
       if \<not> IsSuccess s then
         if \<not> IsUnschedulable s then Some (g, env1, Inl (the (AsError s)))
         else Some (g, env1, Inr ([],
                fold (\<lambda>n m. gm_put m (node_Name (node_of n)) s) (Snapshot_List (g_nodeInfoSnapshot g)) []))
       else do {
         (g1, statuses, r) \<leftarrow> findNodesThatPassFilters ex schedule f npm gen g (fst env1) (snd env1) pod;
         case r of
           Inl err \<Rightarrow> Some (g1, env1, Inl err)
         | Inr feasibleNodes \<Rightarrow>
           do { (statuses', r') \<leftarrow> findNodesThatPassExtenders (g_extenders g) pod feasibleNodes statuses;
                case r' of
                  Inl err \<Rightarrow> Some (g1, env1, Inl err)
                | Inr feasibleNodes' \<Rightarrow> Some (g1, env1, Inr (feasibleNodes', statuses')) } })"

subsection \<open>Scoring\<close>

text \<open>The inner loop adds up the scores of one node; it panics on a list that is too short.\<close>

fun sum_scores :: "PluginToNodeScores \<Rightarrow> nat \<Rightarrow> int \<Rightarrow> int option" where
  "sum_scores [] i acc = Some acc"
| "sum_scores ((j, l) # m) i acc =
    (if i < length l then sum_scores m i (i64 (acc + ns_Score (l ! i))) else None)"

fun summarize :: "PluginToNodeScores \<Rightarrow> nat \<Rightarrow> Node list \<Rightarrow> NodeScoreList option" where
  "summarize m i [] = Some []"
| "summarize m i (n # nodes) =
    do { acc \<leftarrow> sum_scores m i 0;
         rest \<leftarrow> summarize m (i + 1) nodes;
         Some (\<lparr>ns_Name = node_Name n, ns_Score = acc\<rparr> # rest) }"

text \<open>
  The goroutines of the extenders add to a common map under a lock, each with all of its scores at once.
  The model takes them in the order of the list; any other order gives the same scores
  (\<open>extender_scores_commute\<close>).
\<close>

definition extender_scores :: "Pod \<Rightarrow> Node list \<Rightarrow> 'w Extender \<Rightarrow> (string, int) gomap \<Rightarrow> (string, int) gomap" where
  "extender_scores pod nodes extender combinedScores =
    (if \<not> ext_IsInterested extender pod then combinedScores
     else case ext_Prioritize extender pod nodes of
        Inl err \<Rightarrow> combinedScores
      | Inr (prioritizedList, weight) \<Rightarrow>
          fold (\<lambda>(host, score) m. gm_put m host (i64 (gm_get0 m host + i64 (score * weight)))) prioritizedList combinedScores)"

definition prioritizeNodes :: "('d, 'w) externals \<Rightarrow> nat list \<times> nat list \<times> nat list \<Rightarrow> 'w Extender list \<Rightarrow>
    ('a, 'd, 'w) frameworkImpl \<Rightarrow> ('d, 'w) env \<Rightarrow> Pod \<Rightarrow> Node list \<Rightarrow>
    (('d, 'w) env \<times> (error + NodeScoreList)) option" where
  "prioritizeNodes ex orders extenders f env pod nodes =
    (if length extenders = 0 \<and> \<not> HasScorePlugins f then
       Some (env, Inr (map (\<lambda>n. \<lparr>ns_Name = node_Name n, ns_Score = 1\<rparr>) nodes))
     else case RunPreScorePlugins f env pod nodes of (preScoreStatus, env1) \<Rightarrow>
       if \<not> IsSuccess preScoreStatus then Some (env1, Inl (the (AsError preScoreStatus)))
       else case RunScorePlugins orders f (fst env1) (snd env1) pod nodes of (scoresMap, scoreStatus) \<Rightarrow>
         if \<not> IsSuccess scoreStatus then Some (env1, Inl (the (AsError scoreStatus)))
         else do {
           result \<leftarrow> summarize scoresMap 0 nodes;
           if length extenders \<noteq> 0 then do {
             factor \<leftarrow> quot64 MaxNodeScore (ex_MaxExtenderPriority ex);
             let combinedScores = fold (extender_scores pod nodes) extenders [];
             Some (env1, Inr (map (\<lambda>ns. ns\<lparr>ns_Score := i64 (ns_Score ns + i64 (gm_get0 combinedScores (ns_Name ns) * factor))\<rparr>) result)) }
           else Some (env1, Inr result) })"

subsection \<open>Scheduling a pod\<close>

fun check_volumes :: "('d, 'w) externals \<Rightarrow> Pod \<Rightarrow> Volume list \<Rightarrow> error option" where
  "check_volumes ex pod [] = None"
| "check_volumes ex pod (volume # volumes) =
    (case (case vol_PersistentVolumeClaim volume of
             Some claimName \<Rightarrow> Some (claimName, False)
           | None \<Rightarrow> if vol_Ephemeral volume then Some (pod_Name pod @ ''-'' @ vol_Name volume, True) else None) of
       None \<Rightarrow> check_volumes ex pod volumes
     | Some (pvcName, ephemeral) \<Rightarrow>
        (case ex_pvcLister ex (pod_Namespace pod) pvcName of
           Inl err \<Rightarrow> Some err
         | Inr pvc \<Rightarrow>
            if pvc_DeletionTimestamp pvc \<noteq> None
            then Some (''persistentvolumeclaim '' @ go_q (pvc_Name pvc) @ '' is being deleted'')
            else if ephemeral \<and> \<not> ex_IsControlledBy ex pvc pod
            then Some (''persistentvolumeclaim '' @ go_q (pvc_Name pvc) @ '' was not created for the pod'')
            else check_volumes ex pod volumes))"

definition podPassesBasicChecks :: "('d, 'w) externals \<Rightarrow> Pod \<Rightarrow> error option" where
  "podPassesBasicChecks ex pod = check_volumes ex pod (pod_Volumes pod)"

text \<open>What the environment decides in one scheduling cycle.\<close>

record choices =
  ch_schedule :: "nat list"
  ch_orders :: "nat list \<times> nat list \<times> nat list"
  ch_rnd :: "nat \<Rightarrow> nat"
  ch_gen :: int

definition g_snapshot :: "'w genericScheduler \<Rightarrow> ('w genericScheduler \<times> error option) option" where
  "g_snapshot g =
    do { (c, s, err) \<leftarrow> UpdateSnapshot (g_cache g) (g_nodeInfoSnapshot g);
         Some (g\<lparr>g_cache := c, g_nodeInfoSnapshot := s\<rparr>, err) }"

definition Schedule :: "('d, 'w) externals \<Rightarrow> choices \<Rightarrow> ('a, 'd, 'w) frameworkImpl \<Rightarrow> nominatedPodMap \<Rightarrow>
    'w genericScheduler \<Rightarrow> ('d, 'w) env \<Rightarrow> Pod \<Rightarrow>
    ('w genericScheduler \<times> ('d, 'w) env \<times> (schedule_error + ScheduleResult)) option" where
  "Schedule ex ch f npm g env pod =
    (case podPassesBasicChecks ex pod of
       Some err \<Rightarrow> Some (g, env, Inl (Plain err))
     | None \<Rightarrow>
       do { (g1, serr) \<leftarrow> g_snapshot g;
            let env0 = (ex_share ex (g_nodeInfoSnapshot g1) (fst env), snd env);
            case serr of
              Some err \<Rightarrow> Some (g1, env0, Inl (Plain err))
            | None \<Rightarrow>
              if Snapshot_NumNodes (g_nodeInfoSnapshot g1) = 0
              then Some (g1, env0, Inl (Plain ErrNoNodesAvailable))
              else do {
                (g2, env1, r) \<leftarrow> findNodesThatFitPod ex (ch_schedule ch) f npm (ch_gen ch) g1 env0 pod;
                case r of
                  Inl err \<Rightarrow> Some (g2, env1, Inl (Plain err))
                | Inr (feasibleNodes, filteredNodesStatuses) \<Rightarrow>
                  (case feasibleNodes of
                     [] \<Rightarrow> Some (g2, env1, Inl (Fit \<lparr>fe_Pod = pod,
                             fe_NumAllNodes = int (Snapshot_NumNodes (g_nodeInfoSnapshot g2)),
                             fe_FilteredNodesStatuses = filteredNodesStatuses\<rparr>))
                   | [n] \<Rightarrow> Some (g2, env1, Inr \<lparr>SuggestedHost = node_Name n,
                             EvaluatedNodes = 1 + int (length filteredNodesStatuses), FeasibleNodes = 1\<rparr>)
                   | _ \<Rightarrow>
                     do { (env2, p) \<leftarrow> prioritizeNodes ex (ch_orders ch) (g_extenders g2) f env1 pod feasibleNodes;
                          case p of
                            Inl err \<Rightarrow> Some (g2, env2, Inl (Plain err))
                          | Inr priorityList \<Rightarrow>
                            Some (g2, env2,
                              case selectHost (ch_rnd ch) priorityList of
                                Inl err \<Rightarrow> Inl (Plain err)
                              | Inr host \<Rightarrow> Inr \<lparr>SuggestedHost = host,
                                  EvaluatedNodes = int (length feasibleNodes) + int (length filteredNodesStatuses),
                                  FeasibleNodes = int (length feasibleNodes)\<rparr>) }) } })"

end
