(* ===== verification/Scheduler_Loop.thy ===== *)
theory Scheduler_Loop
  imports Generic_Scheduler Scheduling_Queue
begin

text \<open>
  The scheduler itself: \<^verbatim>\<open>scheduler/scheduler.go\<close>, with the profiles of
  \<^verbatim>\<open>scheduler/profile/profile.go\<close> and the error function of \<^verbatim>\<open>scheduler/factory.go\<close>.
  \<open>Event_Handlers\<close> has the other side, what informers tell it.

  \<^item> The cache is reached through the scheduling algorithm (\<open>g_cache\<close>), and the nominator through the
    queue: the code shares both by pointer. A \<open>*Profile\<close> is the key of the map \<open>Profiles\<close>.
  \<^item> \<open>scheduleOne\<close> and the goroutine that binds a pod run beside the informers' handlers and other
    binding goroutines. Each is a sequence of steps of a program counter, one for each call that
    takes a lock or leaves the process, so that the steps of several goroutines can be interleaved.
    The counter carries the local variables.
  \<^item> What is outside the repository is the record \<open>world_api\<close>: the pod lister, the API client, the
    update of a list of conditions. The contexts, metrics and events are left out, except the
    random flag for plugin metrics, which is part of the cycle state.
\<close>

subsection \<open>profile/profile.go\<close>

record ('a, 'd, 'w) Profile =
  pr_Name :: string
  pr_Framework :: "('a, 'd, 'w) frameworkImpl"

record 'a KubeSchedulerProfile =
  ksp_SchedulerName :: string
  ksp_Plugins :: "Plugins option"
  ksp_PluginConfig :: "(string \<times> 'a) list"

type_synonym ('a, 'd, 'w) profiles = "(string, ('a, 'd, 'w) Profile) gomap"

text \<open>The factory gets the profile's name as an option after those of the caller.\<close>

type_synonym ('a, 'd, 'w) FrameworkFactory =
  "'a KubeSchedulerProfile \<Rightarrow> ('w frameworkOptions \<Rightarrow> 'w frameworkOptions) list \<Rightarrow> error + ('a, 'd, 'w) frameworkImpl"

definition NewProfile :: "('a, 'd, 'w) FrameworkFactory \<Rightarrow> ('w frameworkOptions \<Rightarrow> 'w frameworkOptions) list \<Rightarrow>
    'a KubeSchedulerProfile \<Rightarrow> error + ('a, 'd, 'w) Profile" where
  "NewProfile frameworkFact opts cfg =
    (case frameworkFact cfg (opts @ [WithProfileName (ksp_SchedulerName cfg)]) of
       Inl err \<Rightarrow> Inl err
     | Inr fwk \<Rightarrow> Inr \<lparr>pr_Name = ksp_SchedulerName cfg, pr_Framework = fwk\<rparr>)"

record 'a cfgValidator =
  cv_queueSort :: string
  cv_queueSortArgs :: "'a option"

definition validate_profile :: "('a, 'd, 'w) profiles \<Rightarrow> 'a cfgValidator \<Rightarrow> 'a KubeSchedulerProfile \<Rightarrow>
    error + 'a cfgValidator" where
  "validate_profile m v cfg =
    (if length (ksp_SchedulerName cfg) = 0 then Inl ''scheduler name is needed''
     else case ksp_Plugins cfg of
       None \<Rightarrow> Inl (''plugins required for profile with scheduler name '' @ go_q (ksp_SchedulerName cfg))
     | Some plugins \<Rightarrow>
       if gm_has m (ksp_SchedulerName cfg)
       then Inl (''duplicate profile with scheduler name '' @ go_q (ksp_SchedulerName cfg))
       else case (case ps_QueueSort plugins of None \<Rightarrow> [] | Some ps \<Rightarrow> Enabled ps) of
         [pl] \<Rightarrow>
           (let queueSort = plg_Name pl;
                queueSortArgs = fold (\<lambda>plCfg args. if fst plCfg = queueSort then Some (snd plCfg) else args)
                  (ksp_PluginConfig cfg) None
            in if length (cv_queueSort v) = 0
               then Inr (v\<lparr>cv_queueSort := queueSort, cv_queueSortArgs := queueSortArgs\<rparr>)
               else if cv_queueSort v \<noteq> queueSort
               then Inl (''different queue sort plugins for profile '' @ go_q (ksp_SchedulerName cfg) @ '': '' @
                 go_q queueSort @ '', first: '' @ go_q (cv_queueSort v))
               else if cv_queueSortArgs v \<noteq> queueSortArgs
               then Inl (''different queue sort plugin args for profile '' @ go_q (ksp_SchedulerName cfg))
               else Inr v)
       | _ \<Rightarrow> Inl (''one queue sort plugin required for profile with scheduler name '' @ go_q (ksp_SchedulerName cfg)))"

fun NewMap_loop :: "('a, 'd, 'w) FrameworkFactory \<Rightarrow> ('w frameworkOptions \<Rightarrow> 'w frameworkOptions) list \<Rightarrow>
    'a KubeSchedulerProfile list \<Rightarrow> 'a cfgValidator \<Rightarrow> ('a, 'd, 'w) profiles \<Rightarrow> error + ('a, 'd, 'w) profiles" where
  "NewMap_loop frameworkFact opts [] v m = Inr m"
| "NewMap_loop frameworkFact opts (cfg # cfgs) v m =
    (case validate_profile m v cfg of
       Inl err \<Rightarrow> Inl err
     | Inr v' \<Rightarrow>
       (case NewProfile frameworkFact opts cfg of
          Inl err \<Rightarrow> Inl (''creating profile for scheduler name '' @ ksp_SchedulerName cfg @ '': '' @ err)
        | Inr p \<Rightarrow> NewMap_loop frameworkFact opts cfgs v' (gm_put m (ksp_SchedulerName cfg) p)))"

definition NewMap :: "('a, 'd, 'w) FrameworkFactory \<Rightarrow> ('w frameworkOptions \<Rightarrow> 'w frameworkOptions) list \<Rightarrow>
    'a KubeSchedulerProfile list \<Rightarrow> error + ('a, 'd, 'w) profiles" where
  "NewMap frameworkFact opts cfgs =
    NewMap_loop frameworkFact opts cfgs \<lparr>cv_queueSort = '''', cv_queueSortArgs = None\<rparr> []"

definition HandlesSchedulerName :: "('a, 'd, 'w) profiles \<Rightarrow> string \<Rightarrow> bool" where
  "HandlesSchedulerName m name = gm_has m name"

subsection \<open>What is outside\<close>

text \<open>
  \<open>wa_missingNode err w\<close> is the name of the node when \<open>err\<close> is the API server's answer that a node is
  not found, and asking for that node again gives the same answer. \<open>wa_UpdatePodCondition\<close> is
  the function of the API library on the conditions of a pod's status.
\<close>

record ('d, 'w) world_api =
  wa_externals :: "('d, 'w) externals"
  wa_podLister :: "'w \<Rightarrow> string \<Rightarrow> string \<Rightarrow> error + Pod"
  wa_missingNode :: "error \<Rightarrow> 'w \<Rightarrow> string option"
  wa_UpdatePodCondition :: "PodCondition list \<Rightarrow> PodCondition \<Rightarrow> bool \<times> PodCondition list"
  wa_Marshal :: "Pod \<Rightarrow> error + string"
  wa_CreateTwoWayMergePatch :: "string \<Rightarrow> string \<Rightarrow> error + string"
  wa_Patch :: "string \<Rightarrow> string \<Rightarrow> string \<Rightarrow> 'w \<Rightarrow> error option \<times> 'w"

definition PatchPod :: "('d, 'w) world_api \<Rightarrow> Pod \<Rightarrow> Pod \<Rightarrow> 'w \<Rightarrow> error option \<times> 'w" where
  "PatchPod wa old new w =
    (case wa_Marshal wa old of
       Inl err \<Rightarrow> (Some err, w)
     | Inr oldData \<Rightarrow>
       (case wa_Marshal wa new of
          Inl err \<Rightarrow> (Some err, w)
        | Inr newData \<Rightarrow>
          (case wa_CreateTwoWayMergePatch wa oldData newData of
             Inl err \<Rightarrow> (Some (''failed to create merge patch for pod '' @ go_q (pod_Namespace old) @ ''/'' @
               go_q (pod_Name old) @ '': '' @ err), w)
           | Inr patchBytes \<Rightarrow> wa_Patch wa (pod_Namespace old) (pod_Name old) patchBytes w)))"

text \<open>What the environment decides at a step: the choices of the algorithm, the clock, the random flag.\<close>

record tick =
  tk_choices :: choices
  tk_now :: int
  tk_clk :: "nat \<Rightarrow> int"
  tk_metrics :: bool

subsection \<open>State\<close>

record ('a, 'd, 'w) Scheduler =
  s_Algorithm :: "'w genericScheduler"
  s_SchedulingQueue :: PriorityQueue
  s_Profiles :: "('a, 'd, 'w) profiles"
  s_world :: 'w

abbreviation s_cache :: "('a, 'd, 'w) Scheduler \<Rightarrow> schedulerCache" where
  "s_cache s \<equiv> g_cache (s_Algorithm s)"

definition set_cache :: "schedulerCache \<Rightarrow> ('a, 'd, 'w) Scheduler \<Rightarrow> ('a, 'd, 'w) Scheduler" where
  "set_cache c s = s\<lparr>s_Algorithm := (s_Algorithm s)\<lparr>g_cache := c\<rparr>\<rparr>"

definition set_queue :: "PriorityQueue \<Rightarrow> ('a, 'd, 'w) Scheduler \<Rightarrow> ('a, 'd, 'w) Scheduler" where
  "set_queue q s = s\<lparr>s_SchedulingQueue := q\<rparr>"

definition set_framework :: "string \<Rightarrow> ('a, 'd, 'w) frameworkImpl \<Rightarrow> ('a, 'd, 'w) Scheduler \<Rightarrow> ('a, 'd, 'w) Scheduler" where
  "set_framework name f s =
    (case gm_get (s_Profiles s) name of
       None \<Rightarrow> s
     | Some prof \<Rightarrow> s\<lparr>s_Profiles := gm_put (s_Profiles s) name (prof\<lparr>pr_Framework := f\<rparr>)\<rparr>)"

subsection \<open>Small methods\<close>

definition profileForPod :: "('a, 'd, 'w) Scheduler \<Rightarrow> Pod \<Rightarrow> error + ('a, 'd, 'w) Profile" where
  "profileForPod s pod =
    (case gm_get (s_Profiles s) (pod_SchedulerName pod) of
       None \<Rightarrow> Inl (''profile not found for scheduler name '' @ go_q (pod_SchedulerName pod))
     | Some prof \<Rightarrow> Inr prof)"

text \<open>The function \<open>f\<close> in \<open>skipPodUpdate\<close>.\<close>

definition drop_ignored :: "Pod \<Rightarrow> Pod" where
  "drop_ignored pod = pod\<lparr>pod_ResourceVersion := '''', pod_NodeName := '''', pod_Annotations := [],
     pod_ManagedFields := [], pod_Finalizers := [], pod_Conditions := []\<rparr>"

definition skipPodUpdate :: "('a, 'd, 'w) Scheduler \<Rightarrow> Pod \<Rightarrow> bool" where
  "skipPodUpdate s pod =
    (case IsAssumedPod (s_cache s) pod of
       Inl err \<Rightarrow> False
     | Inr assumed \<Rightarrow>
       if \<not> assumed then False
       else case GetPod (s_cache s) pod of
         Inl err \<Rightarrow> False
       | Inr assumedPod \<Rightarrow>
           if drop_ignored assumedPod \<noteq> drop_ignored pod then False else True)"

definition skipPodSchedule :: "('a, 'd, 'w) Scheduler \<Rightarrow> Pod \<Rightarrow> bool" where
  "skipPodSchedule s pod =
    (if pod_DeletionTimestamp pod \<noteq> None then True
     else if skipPodUpdate s pod then True
     else False)"

definition getAttemptsLabel :: "QueuedPodInfo \<Rightarrow> string" where
  "getAttemptsLabel p = (if qp_Attempts p \<ge> 15 then ''15+'' else go_v (qp_Attempts p))"

definition updatePod :: "('d, 'w) world_api \<Rightarrow> Pod \<Rightarrow> PodCondition \<Rightarrow> string \<Rightarrow> 'w \<Rightarrow> error option \<times> 'w" where
  "updatePod wa pod condition nominatedNode w =
    (case wa_UpdatePodCondition wa (pod_Conditions pod) condition of
       (changed, conditions) \<Rightarrow>
         let podCopy = pod\<lparr>pod_Conditions := conditions\<rparr> in
         if \<not> changed \<and> (length nominatedNode = 0 \<or> pod_NominatedNodeName pod = nominatedNode) then (None, w)
         else PatchPod wa pod
           (if nominatedNode \<noteq> '''' then podCopy\<lparr>pod_NominatedNodeName := nominatedNode\<rparr> else podCopy) w)"

text \<open>\<open>assume\<close>: the pod with the host set, and the error of the cache.\<close>

definition assume_pod :: "('d, 'w) world_api \<Rightarrow> ('a, 'd, 'w) Scheduler \<Rightarrow> Pod \<Rightarrow> string \<Rightarrow>
    Pod \<times> error option \<times> ('a, 'd, 'w) Scheduler" where
  "assume_pod wa s pod host =
    (let assumed = pod\<lparr>pod_NodeName := host\<rparr> in
     case AssumePod (ex_asSelector (wa_externals wa)) (s_cache s) assumed of
       (c, Some err) \<Rightarrow> (assumed, Some err, set_cache c s)
     | (c, None) \<Rightarrow> (assumed, None,
         set_queue ((s_SchedulingQueue s)\<lparr>pq_PodNominator :=
           DeleteNominatedPodIfExists (pq_PodNominator (s_SchedulingQueue s)) assumed\<rparr>) (set_cache c s)))"

fun extendersBinding :: "'w Extender list \<Rightarrow> Pod \<Rightarrow> string \<Rightarrow> 'w \<Rightarrow> (bool \<times> error option) \<times> 'w" where
  "extendersBinding [] pod node w = ((False, None), w)"
| "extendersBinding (extender # extenders) pod node w =
    (if \<not> ext_IsBinder extender \<or> \<not> ext_IsInterested extender pod then extendersBinding extenders pod node w
     else case ext_Bind extender pod node w of (err, w') \<Rightarrow> ((True, err), w'))"

text \<open>\<open>bind\<close> without the deferred call of \<open>finishBinding\<close>, which is the next step of the goroutine.\<close>

definition bind_pod :: "'w Extender list \<Rightarrow> ('a, 'd, 'w) frameworkImpl \<Rightarrow> ('d, 'w) env \<Rightarrow> Pod \<Rightarrow> string \<Rightarrow>
    error option \<times> ('d, 'w) env" where
  "bind_pod extenders f env assumed targetNode =
    (case extendersBinding extenders assumed targetNode (fst env) of
       ((bound, err), w1) \<Rightarrow>
         if bound then (err, (w1, snd env))
         else case RunBindPlugins f (w1, snd env) assumed targetNode of
           (bindStatus, env2) \<Rightarrow>
             if IsSuccess bindStatus then (None, env2)
             else if Status_Code bindStatus = Error then (AsError bindStatus, env2)
             else (Some (''bind status: '' @ Code_String (Status_Code bindStatus) @ '', '' @ Message bindStatus), env2))"

subsection \<open>Recording a failure\<close>

definition PodReasonUnschedulable :: string where "PodReasonUnschedulable = ''Unschedulable''"
definition SchedulerError :: string where "SchedulerError = ''SchedulerError''"

definition err_text :: "schedule_error \<Rightarrow> string option" where
  "err_text err = (case err of Plain e \<Rightarrow> Some e | Fit f \<Rightarrow> FitError_Error f)"

text \<open>
  What \<open>MakeDefaultErrorFunc\<close>'s function does to the cache: a node that the API server does not know
  is removed. The errors of which that may be known are the plain ones.
\<close>

definition error_cache :: "('d, 'w) world_api \<Rightarrow> schedule_error \<Rightarrow> ('a, 'd, 'w) Scheduler \<Rightarrow> ('a, 'd, 'w) Scheduler" where
  "error_cache wa err s =
    (case err of
       Fit f \<Rightarrow> s
     | Plain e \<Rightarrow>
       if e = ErrNoNodesAvailable then s
       else case wa_missingNode wa e (s_world s) of
         None \<Rightarrow> s
       | Some nodeName \<Rightarrow> set_cache (fst (RemoveNode (s_cache s) (zero_node\<lparr>node_Name := nodeName\<rparr>))) s)"

text \<open>What it looks up: the pod as the informer has it.\<close>

definition error_lookup :: "('d, 'w) world_api \<Rightarrow> QueuedPodInfo \<Rightarrow> ('a, 'd, 'w) Scheduler \<Rightarrow> QueuedPodInfo option" where
  "error_lookup wa podInfo s =
    (case wa_podLister wa (s_world s) (pod_Namespace (qp_Pod podInfo)) (pod_Name (qp_Pod podInfo)) of
       Inl err \<Rightarrow> None
     | Inr cachedPod \<Rightarrow> Some (podInfo\<lparr>qp_Pod := cachedPod\<rparr>))"

text \<open>And its last call; an error of the queue is only logged.\<close>

definition error_requeue :: "tick \<Rightarrow> QueuedPodInfo \<Rightarrow> int \<Rightarrow> ('a, 'd, 'w) Scheduler \<Rightarrow>
    (QueuedPodInfo \<times> ('a, 'd, 'w) Scheduler) option" where
  "error_requeue tk podInfo cycle s =
    do { (q, podInfo', err) \<leftarrow> AddUnschedulableIfNotPresent (tk_now tk) (s_SchedulingQueue s) podInfo cycle;
         Some (podInfo', set_queue q s) }"

subsection \<open>Program counters\<close>

text \<open>
  A failure that is being recorded, and a cycle that has a host. \<open>cy_info\<close> is \<open>assumedPodInfo\<close> as soon
  as the pod is assumed, and \<open>podInfo\<close> before.
\<close>

record failure =
  fl_info :: QueuedPodInfo
  fl_err :: schedule_error
  fl_reason :: string
  fl_nominated :: string

record 'd cycle =
  cy_info :: QueuedPodInfo
  cy_state :: "'d CycleState"
  cy_host :: string

text \<open>
  \<open>PNext\<close> to \<open>PPermit\<close> are in \<open>scheduleOne\<close> itself, \<open>PWait\<close> to \<open>PPostBind\<close> in the goroutine it starts;
  \<open>PUnreserve\<close> and the rest are the ways out on an error, in both.
\<close>

datatype 'd pc =
    PNext
  | PCheck QueuedPodInfo
  | PSchedule QueuedPodInfo
  | PPostFilter QueuedPodInfo "'d CycleState" FitError
  | PAssume "'d cycle"
  | PReserve "'d cycle"
  | PPermit "'d cycle"
  | PWait "'d cycle"
  | PPreBind "'d cycle"
  | PBind "'d cycle"
  | PFinish "'d cycle" "error option"
  | PPostBind "'d cycle"
  | PUnreserve "'d cycle" error string
  | PForget "'d cycle" error string
  | PError failure
  | PLookup failure
  | PRequeue failure int
  | PNominate failure
  | PUpdate failure
  | PDone

definition fail_pc :: "QueuedPodInfo \<Rightarrow> schedule_error \<Rightarrow> string \<Rightarrow> string \<Rightarrow> 'd pc" where
  "fail_pc info err reason nominated =
    PError \<lparr>fl_info = info, fl_err = err, fl_reason = reason, fl_nominated = nominated\<rparr>"

definition cy_pod :: "'d cycle \<Rightarrow> Pod" where
  "cy_pod cy = qp_Pod (cy_info cy)"

text \<open>The framework of the pod's profile. \<open>prof\<close> is not nil after the check at the beginning.\<close>

definition cy_framework :: "('a, 'd, 'w) Scheduler \<Rightarrow> Pod \<Rightarrow> ('a, 'd, 'w) frameworkImpl option" where
  "cy_framework s pod = map_option pr_Framework (gm_get (s_Profiles s) (pod_SchedulerName pod))"

subsection \<open>The steps of scheduleOne\<close>

text \<open>The result of a step: where the goroutine is, the goroutine it started, and the scheduler. \<open>None\<close>
  is a stop of the process or, for a blocking call, a step that cannot be taken now.\<close>

type_synonym ('a, 'd, 'w) stepped = "('d pc \<times> 'd pc option \<times> ('a, 'd, 'w) Scheduler) option"

definition step_next :: "('a, 'd, 'w) Scheduler \<Rightarrow> ('a, 'd, 'w) stepped" where
  "step_next s =
    do { (r, q) \<leftarrow> MakeNextPodFunc (s_SchedulingQueue s);
         case r of
           None \<Rightarrow> None
         | Some None \<Rightarrow> Some (PDone, None, set_queue q s)
         | Some (Some podInfo) \<Rightarrow> Some (PCheck podInfo, None, set_queue q s) }"

definition step_check :: "QueuedPodInfo \<Rightarrow> ('a, 'd, 'w) Scheduler \<Rightarrow> ('a, 'd, 'w) stepped" where
  "step_check podInfo s =
    (let pod = qp_Pod podInfo in
     case profileForPod s pod of
       Inl err \<Rightarrow> Some (PDone, None, s)
     | Inr prof \<Rightarrow> if skipPodSchedule s pod then Some (PDone, None, s) else Some (PSchedule podInfo, None, s))"

definition step_schedule :: "('d, 'w) world_api \<Rightarrow> tick \<Rightarrow> QueuedPodInfo \<Rightarrow> ('a, 'd, 'w) Scheduler \<Rightarrow> ('a, 'd, 'w) stepped" where
  "step_schedule wa tk podInfo s =
    do { f \<leftarrow> cy_framework s (qp_Pod podInfo);
         let state = the (SetRecordPluginMetrics (Some NewCycleState) (tk_metrics tk));
         (g, (w, state'), r) \<leftarrow> Schedule (wa_externals wa) (tk_choices tk) f
            (pq_PodNominator (s_SchedulingQueue s)) (s_Algorithm s) (s_world s, state) (qp_Pod podInfo);
         let s' = s\<lparr>s_Algorithm := g, s_world := w\<rparr>;
         Some (case r of
             Inr scheduleResult \<Rightarrow>
               (PAssume \<lparr>cy_info = podInfo, cy_state = state', cy_host = SuggestedHost scheduleResult\<rparr>, None, s')
           | Inl (Fit fitError) \<Rightarrow> (PPostFilter podInfo state' fitError, None, s')
           | Inl err \<Rightarrow> (fail_pc podInfo err PodReasonUnschedulable '''', None, s')) }"

definition step_postfilter :: "QueuedPodInfo \<Rightarrow> 'd CycleState \<Rightarrow> FitError \<Rightarrow> ('a, 'd, 'w) Scheduler \<Rightarrow> ('a, 'd, 'w) stepped" where
  "step_postfilter podInfo state fitError s =
    do { f \<leftarrow> cy_framework s (qp_Pod podInfo);
         if \<not> HasPostFilterPlugins f
         then Some (fail_pc podInfo (Fit fitError) PodReasonUnschedulable '''', None, s)
         else do {
           ((r, status), (w, state')) \<leftarrow> RunPostFilterPlugins f (s_world s, state) (qp_Pod podInfo)
             (fe_FilteredNodesStatuses fitError);
           let nominatedNode = (if IsSuccess status then case r of None \<Rightarrow> '''' | Some n \<Rightarrow> n else '''');
           Some (fail_pc podInfo (Fit fitError) PodReasonUnschedulable nominatedNode, None, s\<lparr>s_world := w\<rparr>) } }"

definition step_assume :: "('d, 'w) world_api \<Rightarrow> 'd cycle \<Rightarrow> ('a, 'd, 'w) Scheduler \<Rightarrow> ('a, 'd, 'w) stepped" where
  "step_assume wa cy s =
    (case assume_pod wa s (cy_pod cy) (cy_host cy) of
       (assumedPod, err, s') \<Rightarrow>
         let assumedPodInfo = (cy_info cy)\<lparr>qp_Pod := assumedPod\<rparr> in
         case err of
           Some e \<Rightarrow> Some (fail_pc assumedPodInfo (Plain e) SchedulerError '''', None, s')
         | None \<Rightarrow> Some (PReserve (cy\<lparr>cy_info := assumedPodInfo\<rparr>), None, s'))"

definition step_reserve :: "'d cycle \<Rightarrow> ('a, 'd, 'w) Scheduler \<Rightarrow> ('a, 'd, 'w) stepped" where
  "step_reserve cy s =
    do { f \<leftarrow> cy_framework s (cy_pod cy);
         Some (case RunReservePluginsReserve f (s_world s, cy_state cy) (cy_pod cy) (cy_host cy) of
           (sts, (w, state')) \<Rightarrow>
             let cy' = cy\<lparr>cy_state := state'\<rparr>; s' = s\<lparr>s_world := w\<rparr> in
             if \<not> IsSuccess sts then (PUnreserve cy' (the (AsError sts)) SchedulerError, None, s')
             else (PPermit cy', None, s')) }"

text \<open>The goroutine starts with the state of the cycle.\<close>

definition step_permit :: "'d cycle \<Rightarrow> ('a, 'd, 'w) Scheduler \<Rightarrow> ('a, 'd, 'w) stepped" where
  "step_permit cy s =
    do { f \<leftarrow> cy_framework s (cy_pod cy);
         Some (case RunPermitPlugins f (s_world s, cy_state cy) (cy_pod cy) (cy_host cy) of
           (runPermitStatus, (w, state'), f') \<Rightarrow>
             let cy' = cy\<lparr>cy_state := state'\<rparr>;
                 s' = set_framework (pod_SchedulerName (cy_pod cy)) f' (s\<lparr>s_world := w\<rparr>)
             in if Status_Code runPermitStatus \<noteq> Wait \<and> \<not> IsSuccess runPermitStatus then
                  let reason = (if IsUnschedulable runPermitStatus then PodReasonUnschedulable else SchedulerError)
                  in (PUnreserve cy' (the (AsError runPermitStatus)) reason, None, s')
                else (PDone, Some (PWait cy'), s')) }"

subsection \<open>The steps of the binding goroutine\<close>

definition step_wait :: "'d cycle \<Rightarrow> ('a, 'd, 'w) Scheduler \<Rightarrow> ('a, 'd, 'w) stepped" where
  "step_wait cy s =
    do { f \<leftarrow> cy_framework s (cy_pod cy);
         (waitOnPermitStatus, f') \<leftarrow> WaitOnPermit f (cy_pod cy);
         let s' = set_framework (pod_SchedulerName (cy_pod cy)) f' s;
         Some (if \<not> IsSuccess waitOnPermitStatus then
                 let reason = (if IsUnschedulable waitOnPermitStatus then PodReasonUnschedulable else SchedulerError)
                 in (PUnreserve cy (the (AsError waitOnPermitStatus)) reason, None, s')
               else (PPreBind cy, None, s')) }"

definition step_prebind :: "'d cycle \<Rightarrow> ('a, 'd, 'w) Scheduler \<Rightarrow> ('a, 'd, 'w) stepped" where
  "step_prebind cy s =
    do { f \<leftarrow> cy_framework s (cy_pod cy);
         Some (case RunPreBindPlugins f (s_world s, cy_state cy) (cy_pod cy) (cy_host cy) of
           (preBindStatus, (w, state')) \<Rightarrow>
             let cy' = cy\<lparr>cy_state := state'\<rparr>; s' = s\<lparr>s_world := w\<rparr> in
             if \<not> IsSuccess preBindStatus then (PUnreserve cy' (the (AsError preBindStatus)) SchedulerError, None, s')
             else (PBind cy', None, s')) }"

definition step_bind :: "'d cycle \<Rightarrow> ('a, 'd, 'w) Scheduler \<Rightarrow> ('a, 'd, 'w) stepped" where
  "step_bind cy s =
    do { f \<leftarrow> cy_framework s (cy_pod cy);
         Some (case bind_pod (g_extenders (s_Algorithm s)) f (s_world s, cy_state cy) (cy_pod cy) (cy_host cy) of
           (err, (w, state')) \<Rightarrow> (PFinish (cy\<lparr>cy_state := state'\<rparr>) err, None, s\<lparr>s_world := w\<rparr>)) }"

text \<open>The deferred \<open>finishBinding\<close>; its own error is only logged.\<close>

definition step_finish :: "tick \<Rightarrow> 'd cycle \<Rightarrow> error option \<Rightarrow> ('a, 'd, 'w) Scheduler \<Rightarrow> ('a, 'd, 'w) stepped" where
  "step_finish tk cy err s =
    (let s' = set_cache (fst (FinishBinding (tk_now tk) (s_cache s) (cy_pod cy))) s in
     case err of
       Some e \<Rightarrow> Some (PUnreserve cy (''Binding rejected: '' @ e) SchedulerError, None, s')
     | None \<Rightarrow> Some (PPostBind cy, None, s'))"

definition step_postbind :: "'d cycle \<Rightarrow> ('a, 'd, 'w) Scheduler \<Rightarrow> ('a, 'd, 'w) stepped" where
  "step_postbind cy s =
    do { f \<leftarrow> cy_framework s (cy_pod cy);
         Some (PDone, None, s\<lparr>s_world := fst (RunPostBindPlugins f (s_world s, cy_state cy) (cy_pod cy) (cy_host cy))\<rparr>) }"

subsection \<open>The steps after an error\<close>

definition step_unreserve :: "'d cycle \<Rightarrow> error \<Rightarrow> string \<Rightarrow> ('a, 'd, 'w) Scheduler \<Rightarrow> ('a, 'd, 'w) stepped" where
  "step_unreserve cy err reason s =
    do { f \<leftarrow> cy_framework s (cy_pod cy);
         Some (case RunReservePluginsUnreserve f (s_world s, cy_state cy) (cy_pod cy) (cy_host cy) of
           (w, state') \<Rightarrow> (PForget (cy\<lparr>cy_state := state'\<rparr>) err reason, None, s\<lparr>s_world := w\<rparr>)) }"

definition step_forget :: "'d cycle \<Rightarrow> error \<Rightarrow> string \<Rightarrow> ('a, 'd, 'w) Scheduler \<Rightarrow> ('a, 'd, 'w) stepped" where
  "step_forget cy err reason s =
    do { (c, forgetErr) \<leftarrow> ForgetPod (s_cache s) (cy_pod cy);
         Some (fail_pc (cy_info cy) (Plain err) reason '''', None, set_cache c s) }"

definition step_nominate :: "failure \<Rightarrow> ('a, 'd, 'w) Scheduler \<Rightarrow> ('a, 'd, 'w) stepped" where
  "step_nominate fl s =
    Some (PUpdate fl, None, set_queue ((s_SchedulingQueue s)\<lparr>pq_PodNominator :=
      AddNominatedPod (pq_PodNominator (s_SchedulingQueue s)) (qp_Pod (fl_info fl)) (fl_nominated fl)\<rparr>) s)"

definition step_update :: "('d, 'w) world_api \<Rightarrow> failure \<Rightarrow> ('a, 'd, 'w) Scheduler \<Rightarrow> ('a, 'd, 'w) stepped" where
  "step_update wa fl s =
    do { msg \<leftarrow> err_text (fl_err fl);
         let condition = \<lparr>cond_Type = ''PodScheduled'', cond_Status = ''False'', cond_Reason = fl_reason fl,
               cond_Message = msg\<rparr>;
         Some (PDone, None, s\<lparr>s_world := snd (updatePod wa (qp_Pod (fl_info fl)) condition (fl_nominated fl) (s_world s))\<rparr>) }"

fun goroutine_step :: "('d, 'w) world_api \<Rightarrow> tick \<Rightarrow> 'd pc \<Rightarrow> ('a, 'd, 'w) Scheduler \<Rightarrow> ('a, 'd, 'w) stepped" where
  "goroutine_step wa tk PNext s = step_next s"
| "goroutine_step wa tk (PCheck podInfo) s = step_check podInfo s"
| "goroutine_step wa tk (PSchedule podInfo) s = step_schedule wa tk podInfo s"
| "goroutine_step wa tk (PPostFilter podInfo state fitError) s = step_postfilter podInfo state fitError s"
| "goroutine_step wa tk (PAssume cy) s = step_assume wa cy s"
| "goroutine_step wa tk (PReserve cy) s = step_reserve cy s"
| "goroutine_step wa tk (PPermit cy) s = step_permit cy s"
| "goroutine_step wa tk (PWait cy) s = step_wait cy s"
| "goroutine_step wa tk (PPreBind cy) s = step_prebind cy s"
| "goroutine_step wa tk (PBind cy) s = step_bind cy s"
| "goroutine_step wa tk (PFinish cy err) s = step_finish tk cy err s"
| "goroutine_step wa tk (PPostBind cy) s = step_postbind cy s"
| "goroutine_step wa tk (PUnreserve cy err reason) s = step_unreserve cy err reason s"
| "goroutine_step wa tk (PForget cy err reason) s = step_forget cy err reason s"
| "goroutine_step wa tk (PError fl) s = Some (PLookup fl, None, error_cache wa (fl_err fl) s)"
| "goroutine_step wa tk (PLookup fl) s =
    Some (case error_lookup wa (fl_info fl) s of
        None \<Rightarrow> PNominate fl
      | Some podInfo \<Rightarrow> PRequeue (fl\<lparr>fl_info := podInfo\<rparr>) (SchedulingCycle (s_SchedulingQueue s)), None, s)"
| "goroutine_step wa tk (PRequeue fl cycle) s =
    do { (podInfo, s') \<leftarrow> error_requeue tk (fl_info fl) cycle s;
         Some (PNominate (fl\<lparr>fl_info := podInfo\<rparr>), None, s') }"
| "goroutine_step wa tk (PNominate fl) s = step_nominate fl s"
| "goroutine_step wa tk (PUpdate fl) s = step_update wa fl s"
| "goroutine_step wa tk PDone s = None"

subsection \<open>From one end to the other\<close>

text \<open>
  A goroutine that is left alone: its steps one after the other, with what the environment decides at
  each of them. The second result is the goroutine it started. A cycle has at most
  \<open>steps_left PNext\<close> steps, so that the bound in \<open>scheduleOne\<close> is never reached.
\<close>

fun run_goroutine :: "nat \<Rightarrow> ('d, 'w) world_api \<Rightarrow> (nat \<Rightarrow> tick) \<Rightarrow> 'd pc \<Rightarrow> 'd pc option \<Rightarrow> ('a, 'd, 'w) Scheduler \<Rightarrow>
    ('a, 'd, 'w) stepped" where
  "run_goroutine 0 wa tks pc started s = Some (pc, started, s)"
| "run_goroutine (Suc n) wa tks pc started s =
    (case pc of
       PDone \<Rightarrow> Some (PDone, started, s)
     | _ \<Rightarrow> do { (pc', spawned, s') \<leftarrow> goroutine_step wa (tks n) pc s;
                 run_goroutine n wa tks pc' (case spawned of None \<Rightarrow> started | Some p \<Rightarrow> Some p) s' })"

fun steps_left :: "'d pc \<Rightarrow> nat" where
  "steps_left PNext = 13"
| "steps_left (PCheck podInfo) = 12"
| "steps_left (PSchedule podInfo) = 11"
| "steps_left (PPostFilter podInfo state fitError) = 6"
| "steps_left (PAssume cy) = 10"
| "steps_left (PReserve cy) = 9"
| "steps_left (PPermit cy) = 8"
| "steps_left (PWait cy) = 11"
| "steps_left (PPreBind cy) = 10"
| "steps_left (PBind cy) = 9"
| "steps_left (PFinish cy err) = 8"
| "steps_left (PPostBind cy) = 1"
| "steps_left (PUnreserve cy err reason) = 7"
| "steps_left (PForget cy err reason) = 6"
| "steps_left (PError fl) = 5"
| "steps_left (PLookup fl) = 4"
| "steps_left (PRequeue fl cycle) = 3"
| "steps_left (PNominate fl) = 2"
| "steps_left (PUpdate fl) = 1"
| "steps_left PDone = 0"

definition scheduleOne :: "('d, 'w) world_api \<Rightarrow> (nat \<Rightarrow> tick) \<Rightarrow> ('a, 'd, 'w) Scheduler \<Rightarrow> ('a, 'd, 'w) stepped" where
  "scheduleOne wa tks s = run_goroutine (steps_left (PNext :: 'd pc)) wa tks PNext None s"

end
