(* ===== verification/Event_Handlers.thy ===== *)
theory Event_Handlers
  imports Scheduler_Loop
begin

text \<open>
  \<^verbatim>\<open>scheduler/eventhandlers.go\<close>: what the scheduler does when an informer reports that an object was
  added, updated or deleted.

  The argument of a handler is an \<open>interface{}\<close>, so an \<open>object\<close> here. Each handler makes at most one
  call of the cache and then one of the queue. A failed type assertion without \<open>ok\<close> stops the process
  (\<open>None\<close>). The name of an event is a label in a metric and a log line only.
\<close>

subsection \<open>Objects and events\<close>

datatype object = ObjPod Pod | ObjNode Node | ObjStorageClass "string option"
  | DeletedFinalStateUnknown object | ObjOther

definition VolumeBindingWaitForFirstConsumer :: string where
  "VolumeBindingWaitForFirstConsumer = ''WaitForFirstConsumer''"

definition ev_NodeSpecUnschedulableChange :: string where
  "ev_NodeSpecUnschedulableChange = ''NodeSpecUnschedulableChange''"
definition ev_NodeAllocatableChange :: string where "ev_NodeAllocatableChange = ''NodeAllocatableChange''"
definition ev_NodeLabelChange :: string where "ev_NodeLabelChange = ''NodeLabelChange''"
definition ev_NodeTaintChange :: string where "ev_NodeTaintChange = ''NodeTaintChange''"
definition ev_NodeConditionChange :: string where "ev_NodeConditionChange = ''NodeConditionChange''"

subsection \<open>What changed in a node\<close>

definition nodeAllocatableChanged :: "Node \<Rightarrow> Node \<Rightarrow> bool" where
  "nodeAllocatableChanged newNode oldNode = (node_Allocatable oldNode \<noteq> node_Allocatable newNode)"

definition nodeLabelsChanged :: "Node \<Rightarrow> Node \<Rightarrow> bool" where
  "nodeLabelsChanged newNode oldNode = (node_Labels oldNode \<noteq> node_Labels newNode)"

definition nodeTaintsChanged :: "Node \<Rightarrow> Node \<Rightarrow> bool" where
  "nodeTaintsChanged newNode oldNode = (node_Taints newNode \<noteq> node_Taints oldNode)"

text \<open>The two maps are compared as maps, and have keys from the two nodes only.\<close>

definition strip_conditions :: "NodeCondition list \<Rightarrow> (string, string) gomap" where
  "strip_conditions conditions = fold (\<lambda>c m. gm_put m (ncond_Type c) (ncond_Status c)) conditions []"

definition nodeConditionsChanged :: "Node \<Rightarrow> Node \<Rightarrow> bool" where
  "nodeConditionsChanged newNode oldNode =
    (let old = strip_conditions (node_Conditions oldNode); new = strip_conditions (node_Conditions newNode) in
     \<not> list_all (\<lambda>k. gm_get old k = gm_get new k) (gm_keys old @ gm_keys new))"

definition nodeSpecUnschedulableChanged :: "Node \<Rightarrow> Node \<Rightarrow> bool" where
  "nodeSpecUnschedulableChanged newNode oldNode =
    (node_Unschedulable newNode \<noteq> node_Unschedulable oldNode \<and> node_Unschedulable newNode = False)"

definition nodeSchedulingPropertiesChange :: "Node \<Rightarrow> Node \<Rightarrow> string" where
  "nodeSchedulingPropertiesChange newNode oldNode =
    (if nodeSpecUnschedulableChanged newNode oldNode then ev_NodeSpecUnschedulableChange
     else if nodeAllocatableChanged newNode oldNode then ev_NodeAllocatableChange
     else if nodeLabelsChanged newNode oldNode then ev_NodeLabelChange
     else if nodeTaintsChanged newNode oldNode then ev_NodeTaintChange
     else if nodeConditionsChanged newNode oldNode then ev_NodeConditionChange
     else '''')"

subsection \<open>Which handler gets a pod\<close>

definition assignedPod :: "Pod \<Rightarrow> bool" where
  "assignedPod pod = (length (pod_NodeName pod) \<noteq> 0)"

definition responsibleForPod :: "Pod \<Rightarrow> ('a, 'd, 'w) profiles \<Rightarrow> bool" where
  "responsibleForPod pod profiles = HandlesSchedulerName profiles (pod_SchedulerName pod)"

text \<open>The two filters of \<open>addAllEventHandlers\<close>: scheduled pods, and unscheduled pods of this scheduler.\<close>

definition scheduled_filter :: "object \<Rightarrow> bool" where
  "scheduled_filter obj =
    (case obj of
       ObjPod t \<Rightarrow> assignedPod t
     | DeletedFinalStateUnknown t \<Rightarrow> (case t of ObjPod pod \<Rightarrow> assignedPod pod | _ \<Rightarrow> False)
     | _ \<Rightarrow> False)"

definition unscheduled_filter :: "('a, 'd, 'w) profiles \<Rightarrow> object \<Rightarrow> bool" where
  "unscheduled_filter profiles obj =
    (case obj of
       ObjPod t \<Rightarrow> \<not> assignedPod t \<and> responsibleForPod t profiles
     | DeletedFinalStateUnknown t \<Rightarrow>
         (case t of ObjPod pod \<Rightarrow> \<not> assignedPod pod \<and> responsibleForPod pod profiles | _ \<Rightarrow> False)
     | _ \<Rightarrow> False)"

subsection \<open>Storage and services\<close>

definition moveAll :: "tick \<Rightarrow> ('a, 'd, 'w) Scheduler \<Rightarrow> ('a, 'd, 'w) Scheduler option" where
  "moveAll tk s =
    do { q \<leftarrow> MoveAllToActiveOrBackoffQueue (tk_clk tk) (s_SchedulingQueue s); Some (set_queue q s) }"

definition onPvAdd :: "tick \<Rightarrow> object \<Rightarrow> ('a, 'd, 'w) Scheduler \<Rightarrow> ('a, 'd, 'w) Scheduler option" where
  "onPvAdd tk obj s = moveAll tk s"

definition onPvUpdate :: "tick \<Rightarrow> object \<Rightarrow> object \<Rightarrow> ('a, 'd, 'w) Scheduler \<Rightarrow> ('a, 'd, 'w) Scheduler option" where
  "onPvUpdate tk old new s = moveAll tk s"

definition onPvcAdd :: "tick \<Rightarrow> object \<Rightarrow> ('a, 'd, 'w) Scheduler \<Rightarrow> ('a, 'd, 'w) Scheduler option" where
  "onPvcAdd tk obj s = moveAll tk s"

definition onPvcUpdate :: "tick \<Rightarrow> object \<Rightarrow> object \<Rightarrow> ('a, 'd, 'w) Scheduler \<Rightarrow> ('a, 'd, 'w) Scheduler option" where
  "onPvcUpdate tk old new s = moveAll tk s"

definition onStorageClassAdd :: "tick \<Rightarrow> object \<Rightarrow> ('a, 'd, 'w) Scheduler \<Rightarrow> ('a, 'd, 'w) Scheduler option" where
  "onStorageClassAdd tk obj s =
    (case obj of
       ObjStorageClass mode \<Rightarrow>
         if mode \<noteq> None \<and> mode = Some VolumeBindingWaitForFirstConsumer then moveAll tk s else Some s
     | _ \<Rightarrow> Some s)"

definition onServiceAdd :: "tick \<Rightarrow> object \<Rightarrow> ('a, 'd, 'w) Scheduler \<Rightarrow> ('a, 'd, 'w) Scheduler option" where
  "onServiceAdd tk obj s = moveAll tk s"

definition onServiceUpdate :: "tick \<Rightarrow> object \<Rightarrow> object \<Rightarrow> ('a, 'd, 'w) Scheduler \<Rightarrow> ('a, 'd, 'w) Scheduler option" where
  "onServiceUpdate tk old new s = moveAll tk s"

definition onServiceDelete :: "tick \<Rightarrow> object \<Rightarrow> ('a, 'd, 'w) Scheduler \<Rightarrow> ('a, 'd, 'w) Scheduler option" where
  "onServiceDelete tk obj s = moveAll tk s"

definition onCSINodeAdd :: "tick \<Rightarrow> object \<Rightarrow> ('a, 'd, 'w) Scheduler \<Rightarrow> ('a, 'd, 'w) Scheduler option" where
  "onCSINodeAdd tk obj s = moveAll tk s"

definition onCSINodeUpdate :: "tick \<Rightarrow> object \<Rightarrow> object \<Rightarrow> ('a, 'd, 'w) Scheduler \<Rightarrow> ('a, 'd, 'w) Scheduler option" where
  "onCSINodeUpdate tk old new s = moveAll tk s"

subsection \<open>Nodes\<close>

definition addNodeToCache :: "('d, 'w) world_api \<Rightarrow> tick \<Rightarrow> object \<Rightarrow> ('a, 'd, 'w) Scheduler \<Rightarrow> ('a, 'd, 'w) Scheduler option" where
  "addNodeToCache wa tk obj s =
    (case obj of
       ObjNode node \<Rightarrow> moveAll tk (set_cache (fst (AddNode (ex_asSelector (wa_externals wa)) (s_cache s) node)) s)
     | _ \<Rightarrow> Some s)"

definition updateNodeInCache :: "('d, 'w) world_api \<Rightarrow> tick \<Rightarrow> object \<Rightarrow> object \<Rightarrow> ('a, 'd, 'w) Scheduler \<Rightarrow>
    ('a, 'd, 'w) Scheduler option" where
  "updateNodeInCache wa tk oldObj newObj s =
    (case oldObj of
       ObjNode oldNode \<Rightarrow>
         (case newObj of
            ObjNode newNode \<Rightarrow>
              do { (c, err) \<leftarrow> UpdateNode (ex_asSelector (wa_externals wa)) (s_cache s) (Some oldNode) newNode;
                   let s1 = set_cache c s;
                   if NumUnschedulablePods (s_SchedulingQueue s1) = 0 then moveAll tk s1
                   else if nodeSchedulingPropertiesChange newNode oldNode \<noteq> '''' then moveAll tk s1
                   else Some s1 }
          | _ \<Rightarrow> Some s)
     | _ \<Rightarrow> Some s)"

definition deleteNodeFromCache :: "object \<Rightarrow> ('a, 'd, 'w) Scheduler \<Rightarrow> ('a, 'd, 'w) Scheduler option" where
  "deleteNodeFromCache obj s =
    (case (case obj of
        ObjNode t \<Rightarrow> Some t
      | DeletedFinalStateUnknown t \<Rightarrow> (case t of ObjNode node \<Rightarrow> Some node | _ \<Rightarrow> None)
      | _ \<Rightarrow> None) of
       None \<Rightarrow> Some s
     | Some node \<Rightarrow> Some (set_cache (fst (RemoveNode (s_cache s) node)) s))"

subsection \<open>Pods that are not scheduled yet\<close>

definition addPodToSchedulingQueue :: "tick \<Rightarrow> object \<Rightarrow> ('a, 'd, 'w) Scheduler \<Rightarrow> ('a, 'd, 'w) Scheduler option" where
  "addPodToSchedulingQueue tk obj s =
    (case obj of
       ObjPod pod \<Rightarrow>
         do { (q, err) \<leftarrow> PQ_Add (tk_now tk) (s_SchedulingQueue s) pod; Some (set_queue q s) }
     | _ \<Rightarrow> None)"

definition updatePodInSchedulingQueue :: "tick \<Rightarrow> object \<Rightarrow> object \<Rightarrow> ('a, 'd, 'w) Scheduler \<Rightarrow>
    ('a, 'd, 'w) Scheduler option" where
  "updatePodInSchedulingQueue tk oldObj newObj s =
    (case newObj of
       ObjPod pod \<Rightarrow>
         if skipPodUpdate s pod then Some s
         else (case oldObj of
            ObjPod oldPod \<Rightarrow>
              do { (q, err) \<leftarrow> PQ_Update (tk_now tk) (s_SchedulingQueue s) (Some oldPod) pod; Some (set_queue q s) }
          | _ \<Rightarrow> None)
     | _ \<Rightarrow> None)"

definition pod_of :: "object \<Rightarrow> Pod option" where
  "pod_of obj =
    (case obj of
       ObjPod t \<Rightarrow> Some t
     | DeletedFinalStateUnknown t \<Rightarrow> (case t of ObjPod pod \<Rightarrow> Some pod | _ \<Rightarrow> None)
     | _ \<Rightarrow> None)"

definition deletePodFromSchedulingQueue :: "object \<Rightarrow> ('a, 'd, 'w) Scheduler \<Rightarrow> ('a, 'd, 'w) Scheduler option" where
  "deletePodFromSchedulingQueue obj s =
    (case pod_of obj of
       None \<Rightarrow> Some s
     | Some pod \<Rightarrow>
         do { (q, err) \<leftarrow> PQ_Delete (s_SchedulingQueue s) pod;
              let s1 = set_queue q s;
              case profileForPod s1 pod of
                Inl err \<Rightarrow> Some s1
              | Inr prof \<Rightarrow>
                  Some (set_framework (pod_SchedulerName pod)
                    (RejectWaitingPod (pr_Framework prof) (pod_UID pod)) s1) })"

subsection \<open>Scheduled pods\<close>

definition addPodToCache :: "('d, 'w) world_api \<Rightarrow> tick \<Rightarrow> object \<Rightarrow> ('a, 'd, 'w) Scheduler \<Rightarrow> ('a, 'd, 'w) Scheduler option" where
  "addPodToCache wa tk obj s =
    (case obj of
       ObjPod pod \<Rightarrow>
         do { (c, err) \<leftarrow> Cache_AddPod (ex_asSelector (wa_externals wa)) (s_cache s) pod;
              let s1 = set_cache c s;
              q \<leftarrow> AssignedPodAdded (ex_asSelector (wa_externals wa)) (tk_clk tk) (s_SchedulingQueue s1) pod;
              Some (set_queue q s1) }
     | _ \<Rightarrow> Some s)"

definition deletePodFromCache :: "tick \<Rightarrow> object \<Rightarrow> ('a, 'd, 'w) Scheduler \<Rightarrow> ('a, 'd, 'w) Scheduler option" where
  "deletePodFromCache tk obj s =
    (case pod_of obj of
       None \<Rightarrow> Some s
     | Some pod \<Rightarrow>
         do { (c, err) \<leftarrow> Cache_RemovePod (s_cache s) pod; moveAll tk (set_cache c s) })"

definition updatePodInCache :: "('d, 'w) world_api \<Rightarrow> tick \<Rightarrow> object \<Rightarrow> object \<Rightarrow> ('a, 'd, 'w) Scheduler \<Rightarrow>
    ('a, 'd, 'w) Scheduler option" where
  "updatePodInCache wa tk oldObj newObj s =
    (case oldObj of
       ObjPod oldPod \<Rightarrow>
         (case newObj of
            ObjPod newPod \<Rightarrow>
              if pod_UID oldPod \<noteq> pod_UID newPod then
                do { s1 \<leftarrow> deletePodFromCache tk oldObj s; addPodToCache wa tk newObj s1 }
              else
                do { (c, err) \<leftarrow> Cache_UpdatePod (ex_asSelector (wa_externals wa)) (s_cache s) oldPod newPod;
                     let s1 = set_cache c s;
                     q \<leftarrow> AssignedPodUpdated (ex_asSelector (wa_externals wa)) (tk_clk tk) (s_SchedulingQueue s1) newPod;
                     Some (set_queue q s1) }
          | _ \<Rightarrow> Some s)
     | _ \<Rightarrow> Some s)"

end
