(* ===== verification/Parallel_Search.thy ===== *)
theory Parallel_Search
  imports Generic_Scheduler
begin

text \<open>
  The parallel search for feasible nodes is correct under every interleaving: no slot is written twice,
  the counter ends at the number of nodes accepted, every accepted node fits, and nothing is missed unless
  enough nodes were found.
\<close>

subsection \<open>The invariant\<close>

text \<open>\<open>acc\<close> lists the goroutines that got a slot, in the order of the slots.\<close>

definition acc_w :: "check_pc \<Rightarrow> int" where
  "acc_w pc = (case pc of Storing k \<Rightarrow> 1 | Stored k \<Rightarrow> 1 | _ \<Rightarrow> 0)"

definition over_w :: "check_pc \<Rightarrow> int" where
  "over_w pc = (case pc of Cancelling \<Rightarrow> 1 | Undoing \<Rightarrow> 1 | _ \<Rightarrow> 0)"

definition slot_inv :: "nat \<Rightarrow> nat \<Rightarrow> nat list \<Rightarrow> check_state \<Rightarrow> bool" where
  "slot_inv n N acc st \<longleftrightarrow>
    length (ck_pcs st) = n \<and> length (ck_feasibleNodes st) = N \<and> length acc \<le> N \<and> set acc \<subseteq> {..<n} \<and>
    (\<forall>k<length acc. ck_pcs st ! (acc ! k) = Storing k \<or> ck_pcs st ! (acc ! k) = Stored k) \<and>
    (\<forall>i<n. \<forall>k. ck_pcs st ! i = Storing k \<or> ck_pcs st ! i = Stored k \<longrightarrow> k < length acc \<and> acc ! k = i)"

definition count_inv :: "nat list \<Rightarrow> check_state \<Rightarrow> bool" where
  "count_inv acc st \<longleftrightarrow>
    int (length acc) = (\<Sum>pc\<leftarrow>ck_pcs st. acc_w pc) \<and>
    ck_feasibleNodesLen st = (\<Sum>pc\<leftarrow>ck_pcs st. acc_w pc + over_w pc)"

definition full_inv :: "nat \<Rightarrow> nat list \<Rightarrow> check_state \<Rightarrow> bool" where
  "full_inv N acc st \<longleftrightarrow>
    (\<forall>i<length (ck_pcs st). ck_pcs st ! i \<in> {Cancelling, Undoing, Dropped} \<longrightarrow> length acc = N) \<and>
    (ck_cancelled st \<longrightarrow> (\<exists>i<length (ck_pcs st). ck_pcs st ! i \<in> {Undoing, Dropped, Stopped}))"

fun pc_fine :: "check_result \<Rightarrow> Node \<Rightarrow> Node option list \<Rightarrow> error option \<Rightarrow> check_pc \<Rightarrow> bool" where
  "pc_fine r node feasible err (Storing k) = (r = Fits)"
| "pc_fine r node feasible err (Stored k) = (r = Fits \<and> feasible ! k = Some node)"
| "pc_fine r node feasible err Cancelling = (r = Fits)"
| "pc_fine r node feasible err Undoing = (r = Fits)"
| "pc_fine r node feasible err Dropped = (r = Fits)"
| "pc_fine r node feasible err Refused = (\<exists>s. r = Unfit s)"
| "pc_fine r node feasible err Erring = ((\<exists>e. r = Failed e) \<and> err \<noteq> None)"
| "pc_fine r node feasible err Stopped = ((\<exists>e. r = Failed e) \<and> err \<noteq> None)"
| "pc_fine r node feasible err Crashed = (r = Crash)"
| "pc_fine r node feasible err _ = True"

definition result_inv :: "(nat \<Rightarrow> check_result) \<Rightarrow> (nat \<Rightarrow> Node) \<Rightarrow> check_state \<Rightarrow> bool" where
  "result_inv check node st \<longleftrightarrow>
    (\<forall>i<length (ck_pcs st). pc_fine (check i) (node i) (ck_feasibleNodes st) (ck_errCh st) (ck_pcs st ! i)) \<and>
    (\<forall>e. ck_errCh st = Some e \<longrightarrow> (\<exists>i<length (ck_pcs st). check i = Failed e))"

definition status_inv :: "(nat \<Rightarrow> check_result) \<Rightarrow> (nat \<Rightarrow> Node) \<Rightarrow> check_state \<Rightarrow> bool" where
  "status_inv check node st \<longleftrightarrow> gm_ok (ck_statuses st) \<and>
    (\<forall>name s. gm_get (ck_statuses st) name = Some s \<longleftrightarrow>
      (\<exists>i<length (ck_pcs st). ck_pcs st ! i = Refused \<and> check i = Unfit s \<and> \<not> IsSuccess s \<and> node_Name (node i) = name))"

definition check_inv :: "(nat \<Rightarrow> check_result) \<Rightarrow> (nat \<Rightarrow> Node) \<Rightarrow> nat \<Rightarrow> nat \<Rightarrow> check_state \<Rightarrow> bool" where
  "check_inv check node n N st \<longleftrightarrow>
    (\<exists>acc. slot_inv n N acc st \<and> count_inv acc st \<and> full_inv N acc st) \<and>
    result_inv check node st \<and> status_inv check node st"

lemma set_pc_fields [simp]:
  "ck_pcs (set_pc i pc st) = (ck_pcs st)[i := pc]"
  "ck_feasibleNodesLen (set_pc i pc st) = ck_feasibleNodesLen st"
  "ck_feasibleNodes (set_pc i pc st) = ck_feasibleNodes st"
  "ck_statuses (set_pc i pc st) = ck_statuses st"
  "ck_errCh (set_pc i pc st) = ck_errCh st"
  "ck_cancelled (set_pc i pc st) = ck_cancelled st"
  by (simp_all add: set_pc_def)

lemma sum_list_map_update:
  fixes h :: "'a \<Rightarrow> int"
  shows "i < length xs \<Longrightarrow> sum_list (map h (xs[i := y])) = sum_list (map h xs) + h y - h (xs ! i)"
  by (induction xs arbitrary: i) (auto simp: nth_Cons split: nat.splits)

lemma check_init_inv: "check_inv check node n N (check_init n N)"
proof -
  have "sum_list (replicate n (0 :: int)) = 0" by (simp add: sum_list_replicate)
  then have "slot_inv n N [] (check_init n N) \<and> count_inv [] (check_init n N) \<and> full_inv N [] (check_init n N)"
    by (auto simp: slot_inv_def count_inv_def full_inv_def check_init_def acc_w_def over_w_def)
  then show ?thesis
    by (auto simp: check_inv_def result_inv_def status_inv_def check_init_def)
qed

text \<open>The counter never exceeds the number of nodes, so it does not wrap around.\<close>

lemma sum_list_le_length: "(\<And>x. h x \<le> (1 :: int)) \<Longrightarrow> sum_list (map h xs) \<le> int (length xs)"
  by (induction xs) (auto simp: add_increasing2 intro: add_mono)

lemma sum_list_nonneg_map: "(\<And>x. 0 \<le> h x) \<Longrightarrow> 0 \<le> sum_list (map h xs)" for h :: "'a \<Rightarrow> int"
  by (induction xs) auto

lemma count_range:
  assumes "count_inv acc st"
  shows "0 \<le> ck_feasibleNodesLen st" "ck_feasibleNodesLen st \<le> int (length (ck_pcs st))"
    and "int (length acc) \<le> ck_feasibleNodesLen st"
    and "ck_feasibleNodesLen st = int (length acc) + (\<Sum>pc\<leftarrow>ck_pcs st. over_w pc)"
proof -
  have split: "ck_feasibleNodesLen st = int (length acc) + (\<Sum>pc\<leftarrow>ck_pcs st. over_w pc)"
    using assms by (simp add: count_inv_def sum_list_addf)
  then show "ck_feasibleNodesLen st = int (length acc) + (\<Sum>pc\<leftarrow>ck_pcs st. over_w pc)" .
  have "0 \<le> (\<Sum>pc\<leftarrow>ck_pcs st. over_w pc)"
    by (rule sum_list_nonneg_map) (simp add: over_w_def split: check_pc.split)
  with split show "0 \<le> ck_feasibleNodesLen st" "int (length acc) \<le> ck_feasibleNodesLen st" by simp_all
  show "ck_feasibleNodesLen st \<le> int (length (ck_pcs st))"
    using assms sum_list_le_length [of "\<lambda>pc. acc_w pc + over_w pc" "ck_pcs st"]
    by (simp add: count_inv_def acc_w_def over_w_def split: check_pc.split)
qed

lemma over_w_iff: "over_w pc \<noteq> 0 \<longleftrightarrow> pc = Cancelling \<or> pc = Undoing"
  by (cases pc) (simp_all add: over_w_def)

lemma over_full:
  assumes "count_inv acc st" "full_inv N acc st" "length acc \<le> N" "ck_feasibleNodesLen st \<ge> int N"
  shows "length acc = N"
proof (cases "\<exists>i<length (ck_pcs st). over_w (ck_pcs st ! i) \<noteq> 0")
  case True
  then obtain i where "i < length (ck_pcs st)" "ck_pcs st ! i \<in> {Cancelling, Undoing, Dropped}"
    by (auto simp: over_w_iff)
  then show ?thesis using assms(2) unfolding full_inv_def by blast
next
  case False
  then have "map over_w (ck_pcs st) = replicate (length (ck_pcs st)) 0"
    by (intro nth_equalityI) auto
  then have "(\<Sum>pc\<leftarrow>ck_pcs st. over_w pc) = 0" by (simp add: sum_list_replicate)
  then show ?thesis using count_range(4) [OF assms(1)] assms(3,4) by simp
qed

subsection \<open>Steps\<close>

abbreviation search_inv :: "nat \<Rightarrow> nat \<Rightarrow> nat list \<Rightarrow> check_state \<Rightarrow> bool" where
  "search_inv n N acc st \<equiv> slot_inv n N acc st \<and> count_inv acc st \<and> full_inv N acc st"

lemma slot_inv_length: "slot_inv n N acc st \<Longrightarrow> length (ck_pcs st) = n"
  by (simp add: slot_inv_def)

lemma slot_inv_other:
  assumes inv: "slot_inv n N acc st" and i: "i < n"
    and no: "\<And>k. p' \<noteq> Storing k \<and> p' \<noteq> Stored k \<and> ck_pcs st ! i \<noteq> Storing k \<and> ck_pcs st ! i \<noteq> Stored k"
    and st': "ck_pcs st' = (ck_pcs st)[i := p']" "ck_feasibleNodes st' = ck_feasibleNodes st"
  shows "slot_inv n N acc st'"
  unfolding slot_inv_def
proof (intro conjI allI impI)
  fix k assume k: "k < length acc"
  have "ck_pcs st ! (acc ! k) = Storing k \<or> ck_pcs st ! (acc ! k) = Stored k" using inv k by (simp add: slot_inv_def)
  moreover have "acc ! k \<noteq> i" using calculation no by auto
  ultimately show "ck_pcs st' ! (acc ! k) = Storing k \<or> ck_pcs st' ! (acc ! k) = Stored k" by (simp add: st')
next
  fix j k assume j: "j < n" "ck_pcs st' ! j = Storing k \<or> ck_pcs st' ! j = Stored k"
  have len: "i < length (ck_pcs st)" using inv i by (simp add: slot_inv_def)
  from j have "ck_pcs st ! j = Storing k \<or> ck_pcs st ! j = Stored k"
    using no len by (auto simp: st' nth_list_update split: if_splits)
  then show "k < length acc" "acc ! k = j" using inv \<open>j < n\<close> by (auto simp: slot_inv_def)
qed (use inv in \<open>auto simp: slot_inv_def st'\<close>)

lemma search_neutral:
  assumes inv: "search_inv n N acc st" and i: "i < n"
    and p: "ck_pcs st ! i \<in> {Todo, Started, Erring}" "p' \<in> {Started, Refused, Crashed, Erring, Stopped}"
    and st': "ck_pcs st' = (ck_pcs st)[i := p']" "ck_feasibleNodesLen st' = ck_feasibleNodesLen st"
      "ck_feasibleNodes st' = ck_feasibleNodes st" "ck_cancelled st' \<longrightarrow> ck_cancelled st \<or> p' = Stopped"
  shows "search_inv n N acc st'"
proof -
  have len: "i < length (ck_pcs st)" using inv i by (simp add: slot_inv_def)
  have slots: "slot_inv n N acc st'"
    by (rule slot_inv_other [OF _ i _ st'(1,3)]) (use inv p in auto)
  have "acc_w (ck_pcs st ! i) = 0" "over_w (ck_pcs st ! i) = 0" "acc_w p' = 0" "over_w p' = 0"
    using p by (auto simp: acc_w_def over_w_def)
  then have "count_inv acc st'"
    using inv len by (simp add: count_inv_def st' sum_list_map_update)
  moreover have "full_inv N acc st'"
  proof -
    have "\<exists>j<length (ck_pcs st'). ck_pcs st' ! j \<in> {Undoing, Dropped, Stopped}" if "ck_cancelled st'"
    proof (cases "p' = Stopped")
      case True
      then show ?thesis using len by (intro exI [of _ i]) (simp add: st')
    next
      case False
      with st'(4) that inv obtain j where "j < length (ck_pcs st)" "ck_pcs st ! j \<in> {Undoing, Dropped, Stopped}"
        unfolding full_inv_def by blast
      moreover have "j \<noteq> i" using calculation p(1) by auto
      ultimately show ?thesis by (intro exI [of _ j]) (auto simp: st')
    qed
    moreover have "length acc = N" if "j < length (ck_pcs st')" "ck_pcs st' ! j \<in> {Cancelling, Undoing, Dropped}" for j
    proof -
      have "j < length (ck_pcs st)" "ck_pcs st ! j \<in> {Cancelling, Undoing, Dropped}"
        using that p(2) len by (cases "j = i"; auto simp: st')+
      then show ?thesis using inv unfolding full_inv_def by blast
    qed
    ultimately show ?thesis unfolding full_inv_def by blast
  qed
  ultimately show ?thesis using slots by simp
qed

lemma search_over:
  assumes inv: "search_inv n N acc st" and i: "i < n"
    and p: "(ck_pcs st ! i, p') \<in> {(Started, Cancelling), (Cancelling, Undoing), (Undoing, Dropped)}" "length acc = N"
    and st': "ck_pcs st' = (ck_pcs st)[i := p']"
      "ck_feasibleNodesLen st' = ck_feasibleNodesLen st + over_w p' - over_w (ck_pcs st ! i)"
      "ck_feasibleNodes st' = ck_feasibleNodes st" "ck_cancelled st' \<longrightarrow> ck_cancelled st \<or> p' = Undoing"
  shows "search_inv n N acc st'"
proof -
  have len: "i < length (ck_pcs st)" using inv i by (simp add: slot_inv_def)
  have slots: "slot_inv n N acc st'"
    by (rule slot_inv_other [OF _ i _ st'(1,3)]) (use inv p(1) in auto)
  have "acc_w (ck_pcs st ! i) = 0" "acc_w p' = 0" using p by (auto simp: acc_w_def)
  then have "count_inv acc st'"
    using inv len by (simp add: count_inv_def st' sum_list_map_update)
  moreover have "\<exists>j<length (ck_pcs st'). ck_pcs st' ! j \<in> {Undoing, Dropped, Stopped}" if "ck_cancelled st'"
  proof (cases "p' \<in> {Undoing, Dropped}")
    case True
    then show ?thesis using len by (intro exI [of _ i]) (auto simp: st')
  next
    case False
    with st'(4) that inv obtain j where "j < length (ck_pcs st)" "ck_pcs st ! j \<in> {Undoing, Dropped, Stopped}"
      unfolding full_inv_def by blast
    moreover have "j \<noteq> i" using calculation p(1) False by auto
    ultimately show ?thesis by (intro exI [of _ j]) (auto simp: st')
  qed
  then have "full_inv N acc st'" using p(2) unfolding full_inv_def by blast
  ultimately show ?thesis using slots by simp
qed

lemma search_accept:
  assumes inv: "search_inv n N acc st" and i: "i < n" and p: "ck_pcs st ! i = Started"
    and small: "length acc < N"
    and st': "ck_pcs st' = (ck_pcs st)[i := Storing (length acc)]"
      "ck_feasibleNodesLen st' = ck_feasibleNodesLen st + 1"
      "ck_feasibleNodes st' = ck_feasibleNodes st" "ck_cancelled st' = ck_cancelled st"
    and nofull: "\<forall>j<length (ck_pcs st). ck_pcs st ! j \<notin> {Cancelling, Undoing, Dropped}"
  shows "search_inv n N (acc @ [i]) st'"
proof -
  have len: "i < length (ck_pcs st)" using inv i by (simp add: slot_inv_def)
  have slots: "slot_inv n N (acc @ [i]) st'"
    unfolding slot_inv_def
  proof (intro conjI allI impI)
    fix k assume k: "k < length (acc @ [i])"
    show "ck_pcs st' ! ((acc @ [i]) ! k) = Storing k \<or> ck_pcs st' ! ((acc @ [i]) ! k) = Stored k"
    proof (cases "k < length acc")
      case True
      then have "ck_pcs st ! (acc ! k) = Storing k \<or> ck_pcs st ! (acc ! k) = Stored k" using inv by (simp add: slot_inv_def)
      moreover have "acc ! k \<noteq> i" using calculation p by auto
      ultimately show ?thesis using True by (simp add: st' nth_append)
    next
      case False
      then have "k = length acc" using k by simp
      then show ?thesis using len by (simp add: st')
    qed
  next
    fix j k assume j: "j < n" "ck_pcs st' ! j = Storing k \<or> ck_pcs st' ! j = Stored k"
    then have "j = i \<and> k = length acc \<or> (ck_pcs st ! j = Storing k \<or> ck_pcs st ! j = Stored k)"
      using len by (auto simp: st' nth_list_update split: if_splits)
    then have "j = i \<and> k = length acc \<or> k < length acc \<and> acc ! k = j" using inv j(1) by (auto simp: slot_inv_def)
    then show "k < length (acc @ [i])" "(acc @ [i]) ! k = j" by (auto simp: nth_append)
  qed (use inv i small in \<open>auto simp: slot_inv_def st'\<close>)
  have "count_inv (acc @ [i]) st'"
    using inv len p by (simp add: count_inv_def st' sum_list_map_update acc_w_def over_w_def)
  moreover have "full_inv N (acc @ [i]) st'"
  proof -
    have "\<exists>j<length (ck_pcs st'). ck_pcs st' ! j \<in> {Undoing, Dropped, Stopped}" if "ck_cancelled st'"
    proof -
      from that inv obtain j where "j < length (ck_pcs st)" "ck_pcs st ! j \<in> {Undoing, Dropped, Stopped}"
        unfolding full_inv_def st' by blast
      moreover have "j \<noteq> i" using calculation p by auto
      ultimately show ?thesis by (intro exI [of _ j]) (auto simp: st')
    qed
    moreover have "ck_pcs st' ! j \<notin> {Cancelling, Undoing, Dropped}" if "j < length (ck_pcs st')" for j
      using that nofull by (cases "j = i") (auto simp: st')
    ultimately show ?thesis unfolding full_inv_def by blast
  qed
  ultimately show ?thesis using slots by simp
qed

lemma search_store:
  assumes inv: "search_inv n N acc st" and i: "i < n" and p: "ck_pcs st ! i = Storing k"
    and st': "ck_pcs st' = (ck_pcs st)[i := Stored k]" "ck_feasibleNodesLen st' = ck_feasibleNodesLen st"
      "length (ck_feasibleNodes st') = length (ck_feasibleNodes st)" "ck_cancelled st' = ck_cancelled st"
  shows "search_inv n N acc st'"
proof -
  have len: "i < length (ck_pcs st)" using inv i by (simp add: slot_inv_def)
  have k: "k < length acc" "acc ! k = i" using inv i p by (auto simp: slot_inv_def)
  have slots: "slot_inv n N acc st'"
    unfolding slot_inv_def
  proof (intro conjI allI impI)
    fix l assume l: "l < length acc"
    have "ck_pcs st ! (acc ! l) = Storing l \<or> ck_pcs st ! (acc ! l) = Stored l" using inv l by (simp add: slot_inv_def)
    then show "ck_pcs st' ! (acc ! l) = Storing l \<or> ck_pcs st' ! (acc ! l) = Stored l"
      using p len by (cases "acc ! l = i") (auto simp: st')
  next
    fix j l assume j: "j < n" "ck_pcs st' ! j = Storing l \<or> ck_pcs st' ! j = Stored l"
    then have "ck_pcs st ! j = Storing l \<or> ck_pcs st ! j = Stored l"
      using p len by (cases "j = i") (auto simp: st')
    then show "l < length acc" "acc ! l = j" using inv j(1) by (auto simp: slot_inv_def)
  qed (use inv in \<open>auto simp: slot_inv_def st'\<close>)
  have "count_inv acc st'"
    using inv len p by (simp add: count_inv_def st' sum_list_map_update acc_w_def over_w_def)
  moreover have "full_inv N acc st'"
  proof -
    have "ck_pcs st' ! j \<in> {Undoing, Dropped, Stopped} \<longleftrightarrow> ck_pcs st ! j \<in> {Undoing, Dropped, Stopped}"
        "ck_pcs st' ! j \<in> {Cancelling, Undoing, Dropped} \<longleftrightarrow> ck_pcs st ! j \<in> {Cancelling, Undoing, Dropped}" for j
      using p len by (cases "j = i"; simp add: st')+
    moreover have "length (ck_pcs st') = length (ck_pcs st)" by (simp add: st')
    ultimately show ?thesis using inv unfolding full_inv_def st'(4) by (simp only:) blast
  qed
  ultimately show ?thesis using slots by simp
qed

lemma result_step:
  assumes inv: "result_inv check node st" and i: "i < length (ck_pcs st)"
    and st': "ck_pcs st' = (ck_pcs st)[i := p']" "ck_feasibleNodes st' = ck_feasibleNodes st"
      "ck_errCh st' = ck_errCh st \<or> (\<exists>e. check i = Failed e \<and> ck_errCh st' = SendError (ck_errCh st) e)"
    and new: "pc_fine (check i) (node i) (ck_feasibleNodes st') (ck_errCh st') p'"
  shows "result_inv check node st'"
proof -
  have mono: "pc_fine r n fs (ck_errCh st) pc \<Longrightarrow> pc_fine r n fs (ck_errCh st') pc" for r n fs pc
    using st'(3) by (cases pc) (auto simp: SendError_def split: option.splits)
  have "pc_fine (check j) (node j) (ck_feasibleNodes st') (ck_errCh st') (ck_pcs st' ! j)" if "j < length (ck_pcs st)" for j
    using that inv new mono i by (cases "j = i") (auto simp: result_inv_def st'(1,2))
  moreover have "\<exists>j<length (ck_pcs st). check j = Failed e" if "ck_errCh st' = Some e" for e
    using that st'(3) inv i by (auto simp: result_inv_def SendError_def split: option.splits)
  ultimately show ?thesis by (simp add: result_inv_def st'(1))
qed

lemma result_store:
  assumes inv: "result_inv check node st" "slot_inv n N acc st" and i: "i < n" and p: "ck_pcs st ! i = Storing k"
    and st': "ck_pcs st' = (ck_pcs st)[i := Stored k]" "ck_feasibleNodes st' = (ck_feasibleNodes st)[k := Some (node i)]"
      "ck_errCh st' = ck_errCh st"
  shows "result_inv check node st'"
proof -
  have len: "i < length (ck_pcs st)" "length (ck_pcs st) = n" using inv(2) i by (simp_all add: slot_inv_def)
  have k: "k < length acc" "acc ! k = i" "k < length (ck_feasibleNodes st)" using inv(2) i p by (auto simp: slot_inv_def)
  have "pc_fine (check j) (node j) (ck_feasibleNodes st') (ck_errCh st') (ck_pcs st' ! j)" if j: "j < length (ck_pcs st)" for j
  proof (cases "j = i")
    case True
    have "check i = Fits" using inv(1) len p unfolding result_inv_def by fastforce
    then show ?thesis using True len k by (simp add: st')
  next
    case False
    have old: "pc_fine (check j) (node j) (ck_feasibleNodes st) (ck_errCh st) (ck_pcs st ! j)"
      using inv(1) j by (simp add: result_inv_def)
    have "l \<noteq> k" if "ck_pcs st ! j = Stored l" for l
      using inv(2) that j len(2) k(2) False unfolding slot_inv_def by blast
    then show ?thesis using old False by (cases "ck_pcs st ! j") (auto simp: st')
  qed
  then show ?thesis using inv(1) by (simp add: result_inv_def st')
qed

lemma status_step:
  assumes inv: "status_inv check node st" and i: "i < length (ck_pcs st)" and old: "ck_pcs st ! i \<noteq> Refused"
    and st': "ck_pcs st' = (ck_pcs st)[i := p']" "ck_statuses st' = ck_statuses st"
    and new: "p' = Refused \<Longrightarrow> \<exists>s. check i = Unfit s \<and> IsSuccess s"
  shows "status_inv check node st'"
proof -
  have "(\<exists>j<length (ck_pcs st). (ck_pcs st)[i := p'] ! j = Refused \<and> check j = Unfit s \<and> \<not> IsSuccess s \<and> node_Name (node j) = name) \<longleftrightarrow>
      (\<exists>j<length (ck_pcs st). ck_pcs st ! j = Refused \<and> check j = Unfit s \<and> \<not> IsSuccess s \<and> node_Name (node j) = name)" for s name
  proof (intro ex_cong1)
    fix j
    have "\<not> (check i = Unfit s \<and> \<not> IsSuccess s)" if "p' = Refused" using new that by auto
    then show "(j < length (ck_pcs st) \<and> (ck_pcs st)[i := p'] ! j = Refused \<and> check j = Unfit s \<and> \<not> IsSuccess s \<and> node_Name (node j) = name) \<longleftrightarrow>
        (j < length (ck_pcs st) \<and> ck_pcs st ! j = Refused \<and> check j = Unfit s \<and> \<not> IsSuccess s \<and> node_Name (node j) = name)"
      using old i by (cases "j = i") auto
  qed
  then show ?thesis using inv by (simp add: status_inv_def st')
qed

lemma status_refuse:
  assumes inv: "status_inv check node st" and i: "i < length (ck_pcs st)" and old: "ck_pcs st ! i \<noteq> Refused"
    and inj: "inj_on (\<lambda>j. node_Name (node j)) {..<length (ck_pcs st)}"
    and st': "ck_pcs st' = (ck_pcs st)[i := Refused]"
      "ck_statuses st' = gm_put (ck_statuses st) (node_Name (node i)) s" "check i = Unfit s" "\<not> IsSuccess s"
  shows "status_inv check node st'"
proof -
  have other: "node_Name (node j) = node_Name (node i) \<longleftrightarrow> j = i" if "j < length (ck_pcs st)" for j
    using inj i that by (auto simp: inj_on_def)
  have "gm_get (ck_statuses st') name = Some t \<longleftrightarrow>
      (\<exists>j<length (ck_pcs st). (ck_pcs st)[i := Refused] ! j = Refused \<and> check j = Unfit t \<and> \<not> IsSuccess t \<and> node_Name (node j) = name)"
    for name t
  proof (cases "name = node_Name (node i)")
    case True
    then have "(\<exists>j<length (ck_pcs st). (ck_pcs st)[i := Refused] ! j = Refused \<and> check j = Unfit t \<and> \<not> IsSuccess t \<and> node_Name (node j) = name) \<longleftrightarrow> t = s"
      using other i st'(3,4) by auto
    then show ?thesis using True by (auto simp: st'(2))
  next
    case False
    then have "(\<exists>j<length (ck_pcs st). (ck_pcs st)[i := Refused] ! j = Refused \<and> check j = Unfit t \<and> \<not> IsSuccess t \<and> node_Name (node j) = name) \<longleftrightarrow>
        (\<exists>j<length (ck_pcs st). ck_pcs st ! j = Refused \<and> check j = Unfit t \<and> \<not> IsSuccess t \<and> node_Name (node j) = name)"
      by (metis nth_list_update_neq)
    then show ?thesis using False inv by (simp add: st'(2) status_inv_def)
  qed
  then show ?thesis using inv by (simp add: status_inv_def st'(1,2))
qed

text \<open>Every step of every goroutine keeps the invariant.\<close>

lemma checkNode_Fits:
  assumes inv: "search_inv n N acc st" "result_inv check node st" "status_inv check node st"
    and i: "i < n" "ck_pcs st ! i = Started" "check i = Fits" and small: "n < 2 ^ 31 - 1"
  shows "check_inv check node n N (checkNode check node N i st)"
proof -
  have len: "i < length (ck_pcs st)" "length (ck_pcs st) = n" using inv(1) i by (simp_all add: slot_inv_def)
  let ?len = "ck_feasibleNodesLen st"
  have cnt: "count_inv acc st" using inv(1) by blast
  have "in32 (?len + 1)" using count_range [OF cnt] len small by (simp add: in32_def)
  then have i32: "i32 (?len + 1) = ?len + 1" by simp
  show ?thesis
  proof (cases "?len + 1 > int N")
    case True
    have full: "length acc = N" using inv(1) True by (intro over_full [of acc st N]) (auto simp: slot_inv_def)
    let ?st = "set_pc i Cancelling (st\<lparr>ck_feasibleNodesLen := ?len + 1\<rparr>)"
    have step: "checkNode check node N i st = ?st" using i True by (simp add: checkNode_def i32)
    have "search_inv n N acc ?st"
      by (rule search_over [OF inv(1) i(1) _ full, where p' = Cancelling]) (simp_all add: i(2) over_w_def)
    moreover have "result_inv check node ?st"
      by (rule result_step [OF inv(2) len(1), where p' = Cancelling]) (simp_all add: i(3))
    moreover have "status_inv check node ?st"
      by (rule status_step [OF inv(3) len(1), where p' = Cancelling]) (simp_all add: i(2))
    ultimately show ?thesis unfolding step check_inv_def by blast
  next
    case False
    have "length acc < N" using False count_range(3) [OF cnt] by simp
    then have none: "\<forall>j<length (ck_pcs st). ck_pcs st ! j \<notin> {Cancelling, Undoing, Dropped}"
      using inv(1) unfolding full_inv_def by blast
    then have "map over_w (ck_pcs st) = replicate (length (ck_pcs st)) 0"
      by (intro nth_equalityI) (auto, metis over_w_iff)
    then have eq: "?len = int (length acc)" using count_range(4) [OF cnt] by (simp add: sum_list_replicate)
    let ?st = "set_pc i (Storing (length acc)) (st\<lparr>ck_feasibleNodesLen := ?len + 1\<rparr>)"
    have step: "checkNode check node N i st = ?st" using i False i32 unfolding eq by (simp add: checkNode_def eq Let_def)
    have "search_inv n N (acc @ [i]) ?st"
      by (rule search_accept [OF inv(1) i(1,2) \<open>length acc < N\<close> _ _ _ _ none]) simp_all
    moreover have "result_inv check node ?st"
      by (rule result_step [OF inv(2) len(1), where p' = "Storing (length acc)"]) (simp_all add: i(3))
    moreover have "status_inv check node ?st"
      by (rule status_step [OF inv(3) len(1), where p' = "Storing (length acc)"]) (simp_all add: i(2))
    ultimately show ?thesis unfolding step check_inv_def by blast
  qed
qed

lemma checkNode_plain:
  assumes inv: "search_inv n N acc st" "result_inv check node st" "status_inv check node st" and i: "i < n"
    and p: "ck_pcs st ! i \<in> {Todo, Started, Erring}" "p' \<in> {Started, Crashed, Erring, Stopped}"
    and st': "ck_pcs st' = (ck_pcs st)[i := p']" "ck_feasibleNodesLen st' = ck_feasibleNodesLen st"
      "ck_feasibleNodes st' = ck_feasibleNodes st" "ck_cancelled st' \<longrightarrow> ck_cancelled st \<or> p' = Stopped"
      "ck_statuses st' = ck_statuses st"
      "ck_errCh st' = ck_errCh st \<or> (\<exists>e. check i = Failed e \<and> ck_errCh st' = SendError (ck_errCh st) e)"
    and new: "pc_fine (check i) (node i) (ck_feasibleNodes st) (ck_errCh st') p'"
  shows "check_inv check node n N st'"
proof -
  have len: "i < length (ck_pcs st)" using inv(1) i by (simp add: slot_inv_def)
  have "search_inv n N acc st'" by (rule search_neutral [OF inv(1) i p(1) _ st'(1-4)]) (use p(2) in auto)
  moreover have "result_inv check node st'"
    by (rule result_step [OF inv(2) len st'(1,3,6)]) (simp add: new st'(3))
  moreover have "status_inv check node st'"
    by (rule status_step [OF inv(3) len _ st'(1,5)]) (use p in auto)
  ultimately show ?thesis unfolding check_inv_def by blast
qed

lemma checkNode_inv:
  assumes "check_inv check node n N st" and i: "i < n" and small: "n < 2 ^ 31 - 1"
    and inj: "inj_on (\<lambda>j. node_Name (node j)) {..<n}"
  shows "check_inv check node n N (checkNode check node N i st)"
proof -
  obtain acc where inv: "search_inv n N acc st" "result_inv check node st" "status_inv check node st"
    using assms(1) unfolding check_inv_def by blast
  have len: "i < length (ck_pcs st)" "length (ck_pcs st) = n" using inv(1) i by (simp_all add: slot_inv_def)
  have fine: "pc_fine (check i) (node i) (ck_feasibleNodes st) (ck_errCh st) (ck_pcs st ! i)"
    using inv(2) len by (simp add: result_inv_def)
  have cnt: "count_inv acc st" using inv(1) by blast
  show ?thesis
  proof (cases "ck_pcs st ! i")
    case Todo
    show ?thesis
    proof (cases "ck_cancelled st")
      case True
      then show ?thesis using assms(1) Todo by (simp add: checkNode_def)
    next
      case False
      have "check_inv check node n N (set_pc i Started st)"
        by (rule checkNode_plain [OF inv i, where p' = Started]) (simp_all add: Todo)
      then show ?thesis using Todo False by (simp add: checkNode_def)
    qed
  next
    case Started
    show ?thesis
    proof (cases "check i")
      case Fits
      then show ?thesis by (rule checkNode_Fits [OF inv i Started _ small])
    next
      case (Failed e)
      have "check_inv check node n N (set_pc i Erring (st\<lparr>ck_errCh := SendError (ck_errCh st) e\<rparr>))"
        by (rule checkNode_plain [OF inv i, where p' = Erring]) (simp_all add: Started Failed del: not_None_eq)
      then show ?thesis using Started Failed by (simp add: checkNode_def)
    next
      case Crash
      have "check_inv check node n N (set_pc i Crashed st)"
        by (rule checkNode_plain [OF inv i, where p' = Crashed]) (simp_all add: Started Crash)
      then show ?thesis using Started Crash by (simp add: checkNode_def)
    next
      case (Unfit s)
      let ?st = "set_pc i Refused (if \<not> IsSuccess s
        then st\<lparr>ck_statuses := gm_put (ck_statuses st) (node_Name (node i)) s\<rparr> else st)"
      have "search_inv n N acc ?st"
        by (rule search_neutral [OF inv(1) i, where p' = Refused]) (simp_all add: Started)
      moreover have "result_inv check node ?st"
        by (rule result_step [OF inv(2) len(1), where p' = Refused]) (simp_all add: Unfit)
      moreover have "status_inv check node ?st"
      proof (cases "IsSuccess s")
        case True
        show ?thesis by (rule status_step [OF inv(3) len(1), where p' = Refused]) (simp_all add: True Started Unfit)
      next
        case False
        show ?thesis by (rule status_refuse [OF inv(3) len(1), where s = s]) (simp_all add: False Started Unfit inj len)
      qed
      ultimately have "check_inv check node n N ?st" unfolding check_inv_def by blast
      then show ?thesis using Started Unfit by (simp add: checkNode_def)
    qed
  next
    case Erring
    have "check_inv check node n N (set_pc i Stopped (st\<lparr>ck_cancelled := True\<rparr>))"
      by (rule checkNode_plain [OF inv i, where p' = Stopped]) (use fine in \<open>simp_all add: Erring\<close>)
    then show ?thesis using Erring by (simp add: checkNode_def)
  next
    case (Storing k)
    let ?st = "set_pc i (Stored k) (st\<lparr>ck_feasibleNodes := (ck_feasibleNodes st)[k := Some (node i)]\<rparr>)"
    have "search_inv n N acc ?st" by (rule search_store [OF inv(1) i Storing]) simp_all
    moreover have "result_inv check node ?st"
      by (rule result_store [OF inv(2) inv(1) [THEN conjunct1] i Storing]) simp_all
    moreover have "status_inv check node ?st"
      by (rule status_step [OF inv(3) len(1), where p' = "Stored k"]) (simp_all add: Storing)
    ultimately have "check_inv check node n N ?st" unfolding check_inv_def by blast
    then show ?thesis using Storing by (simp add: checkNode_def)
  next
    case Cancelling
    let ?st = "set_pc i Undoing (st\<lparr>ck_cancelled := True\<rparr>)"
    have full: "length acc = N" using inv(1) len Cancelling unfolding full_inv_def by blast
    have "search_inv n N acc ?st"
      by (rule search_over [OF inv(1) i _ full, where p' = Undoing]) (simp_all add: Cancelling over_w_def)
    moreover have "result_inv check node ?st"
      by (rule result_step [OF inv(2) len(1), where p' = Undoing]) (use fine in \<open>simp_all add: Cancelling\<close>)
    moreover have "status_inv check node ?st"
      by (rule status_step [OF inv(3) len(1), where p' = Undoing]) (simp_all add: Cancelling)
    ultimately have "check_inv check node n N ?st" unfolding check_inv_def by blast
    then show ?thesis using Cancelling by (simp add: checkNode_def)
  next
    case Undoing
    have "in32 (ck_feasibleNodesLen st - 1)" using count_range [OF cnt] len small by (simp add: in32_def)
    then have i32: "i32 (ck_feasibleNodesLen st - 1) = ck_feasibleNodesLen st - 1" by simp
    let ?st = "set_pc i Dropped (st\<lparr>ck_feasibleNodesLen := ck_feasibleNodesLen st - 1\<rparr>)"
    have full: "length acc = N" using inv(1) len Undoing unfolding full_inv_def by blast
    have "search_inv n N acc ?st"
      by (rule search_over [OF inv(1) i _ full, where p' = Dropped]) (simp_all add: Undoing over_w_def)
    moreover have "result_inv check node ?st"
      by (rule result_step [OF inv(2) len(1), where p' = Dropped]) (use fine in \<open>simp_all add: Undoing\<close>)
    moreover have "status_inv check node ?st"
      by (rule status_step [OF inv(3) len(1), where p' = Dropped]) (simp_all add: Undoing)
    ultimately have "check_inv check node n N ?st" unfolding check_inv_def by blast
    then show ?thesis using Undoing by (simp add: checkNode_def i32)
  qed (use assms(1) in \<open>simp_all add: checkNode_def\<close>)
qed

lemma run_checks_inv:
  assumes "n < 2 ^ 31 - 1" "inj_on (\<lambda>j. node_Name (node j)) {..<n}"
  shows "check_inv check node n N st \<Longrightarrow> check_inv check node n N (run_checks check node N schedule st)"
proof (induction schedule arbitrary: st)
  case (Cons i schedule)
  have len: "length (ck_pcs st) = n" using Cons.prems by (auto simp: check_inv_def slot_inv_def)
  have "check_inv check node n N (if i < length (ck_pcs st) then checkNode check node N i st else st)"
    using Cons.prems assms by (simp add: checkNode_inv len)
  then show ?case using Cons.IH by (simp add: run_checks_def)
qed (simp add: run_checks_def)

subsection \<open>What the search finds\<close>

lemma slot_inv_distinct: "slot_inv n N acc st \<Longrightarrow> distinct acc"
  unfolding slot_inv_def distinct_conv_nth by (metis check_pc.inject check_pc.distinct(1) check_pc.simps)

lemma search_found:
  assumes inv: "check_inv check node n N st" and over: "check_over st" and nocrash: "\<forall>i<n. check i \<noteq> Crash"
    and noerr: "ck_errCh st = None"
  shows "\<exists>acc. distinct acc \<and> set acc \<subseteq> {i. i < n \<and> check i = Fits} \<and> length acc \<le> N \<and>
    ck_feasibleNodesLen st = int (length acc) \<and>
    take (nat (ck_feasibleNodesLen st)) (ck_feasibleNodes st) = map (\<lambda>i. Some (node i)) acc \<and>
    (length acc < N \<longrightarrow> set acc = {i. i < n \<and> check i = Fits} \<and>
      (\<forall>i<n. \<forall>s. check i = Unfit s \<and> \<not> IsSuccess s \<longrightarrow> gm_get (ck_statuses st) (node_Name (node i)) = Some s))"
proof -
  obtain acc where a: "search_inv n N acc st" and r: "result_inv check node st" and s: "status_inv check node st"
    using inv unfolding check_inv_def by blast
  have len: "length (ck_pcs st) = n" "length (ck_feasibleNodes st) = N" "length acc \<le> N" "set acc \<subseteq> {..<n}"
    using a by (simp_all add: slot_inv_def)
  have fine: "pc_fine (check i) (node i) (ck_feasibleNodes st) None (ck_pcs st ! i)" if "i < n" for i
    using r that by (simp add: result_inv_def len noerr)
  have final: "(\<exists>k. ck_pcs st ! i = Stored k) \<or> ck_pcs st ! i \<in> {Dropped, Refused} \<or> ck_pcs st ! i = Todo \<and> ck_cancelled st"
    if "i < n" for i
  proof -
    have "case ck_pcs st ! i of Stored k \<Rightarrow> True | Dropped \<Rightarrow> True | Refused \<Rightarrow> True | Stopped \<Rightarrow> True
        | Crashed \<Rightarrow> True | Todo \<Rightarrow> ck_cancelled st | _ \<Rightarrow> False"
      using over that len by (simp add: check_over_def list_all_length)
    then show ?thesis using fine [OF that] nocrash that by (cases "ck_pcs st ! i") auto
  qed
  have stored: "ck_pcs st ! (acc ! k) = Stored k" if "k < length acc" for k
  proof -
    have "acc ! k < n" using len(4) nth_mem [OF that] by auto
    moreover have "ck_pcs st ! (acc ! k) = Storing k \<or> ck_pcs st ! (acc ! k) = Stored k"
      using a that by (simp add: slot_inv_def)
    ultimately show ?thesis using final [of "acc ! k"] by auto
  qed
  have "over_w (ck_pcs st ! i) = 0" if "i < n" for i
    using final [OF that] by (auto simp: over_w_def)
  then have "map over_w (ck_pcs st) = replicate (length (ck_pcs st)) 0"
    by (intro nth_equalityI) (simp_all add: len)
  then have lenacc: "ck_feasibleNodesLen st = int (length acc)"
    using count_range(4) [of acc st] a by (simp add: sum_list_replicate)
  have slots: "take (length acc) (ck_feasibleNodes st) = map (\<lambda>i. Some (node i)) acc"
  proof (rule nth_equalityI)
    fix k assume "k < length (take (length acc) (ck_feasibleNodes st))"
    then have k: "k < length acc" by simp
    have "acc ! k < n" using len(4) nth_mem [OF k] by auto
    from fine [OF this] stored [OF k] show "take (length acc) (ck_feasibleNodes st) ! k = map (\<lambda>i. Some (node i)) acc ! k"
      using k by simp
  qed (use len in simp)
  have fits: "set acc \<subseteq> {i. i < n \<and> check i = Fits}"
  proof
    fix i assume "i \<in> set acc"
    then obtain k where k: "k < length acc" "acc ! k = i" by (auto simp: in_set_conv_nth)
    have "i < n" using len(4) \<open>i \<in> set acc\<close> by auto
    with fine [OF this] stored [OF k(1)] k(2) show "i \<in> {i. i < n \<and> check i = Fits}" by simp
  qed
  have complete: "set acc = {i. i < n \<and> check i = Fits} \<and>
      (\<forall>i<n. \<forall>s. check i = Unfit s \<and> \<not> IsSuccess s \<longrightarrow> gm_get (ck_statuses st) (node_Name (node i)) = Some s)"
    if less: "length acc < N"
  proof -
    have nodrop: "ck_pcs st ! i \<notin> {Undoing, Dropped}" if "i < n" for i
      using a less that len(1) unfolding full_inv_def by blast
    have "\<not> ck_cancelled st"
    proof
      assume "ck_cancelled st"
      then obtain i where i: "i < n" "ck_pcs st ! i \<in> {Undoing, Dropped, Stopped}"
        using a len(1) unfolding full_inv_def by blast
      then show False using nodrop [OF i(1)] fine [OF i(1)] by auto
    qed
    then have ended: "(\<exists>k. ck_pcs st ! i = Stored k) \<or> ck_pcs st ! i = Refused" if "i < n" for i
      using final [OF that] nodrop [OF that] by auto
    have "i \<in> set acc" if i: "i < n" "check i = Fits" for i
    proof -
      obtain k where "ck_pcs st ! i = Stored k" using ended [OF i(1)] fine [OF i(1)] i(2) by auto
      then have "k < length acc" "acc ! k = i" using a i(1) unfolding slot_inv_def by blast+
      then show ?thesis by (metis nth_mem)
    qed
    moreover have "gm_get (ck_statuses st) (node_Name (node i)) = Some t" if "i < n" "check i = Unfit t" "\<not> IsSuccess t" for i t
    proof -
      have "ck_pcs st ! i = Refused" using ended [OF that(1)] fine [OF that(1)] that(2) by auto
      then show ?thesis using s that len(1) unfolding status_inv_def by blast
    qed
    ultimately show ?thesis using fits by auto
  qed
  show ?thesis
    using slot_inv_distinct [of n N acc st] a fits len(3) lenacc slots complete by (intro exI [of _ acc]) auto
qed

lemma search_err:
  assumes inv: "check_inv check node n N st" and err: "ck_errCh st = Some e"
  shows "\<exists>i<n. check i = Failed e"
  using assms unfolding check_inv_def result_inv_def slot_inv_def by blast

subsection \<open>The search ends\<close>

definition pc_rank :: "check_pc \<Rightarrow> nat" where
  "pc_rank pc = (case pc of Todo \<Rightarrow> 4 | Started \<Rightarrow> 3 | Cancelling \<Rightarrow> 2 | Undoing \<Rightarrow> 1 | Erring \<Rightarrow> 1 | Storing k \<Rightarrow> 1 | _ \<Rightarrow> 0)"

lemma checkNode_other: "j \<noteq> i \<Longrightarrow> ck_pcs (checkNode check node N i st) ! j = ck_pcs st ! j"
  by (simp add: checkNode_def Let_def split: check_pc.split check_result.split)

lemma checkNode_length [simp]: "length (ck_pcs (checkNode check node N i st)) = length (ck_pcs st)"
  by (simp add: checkNode_def Let_def split: check_pc.split check_result.split)

lemma checkNode_cancelled: "ck_cancelled st \<Longrightarrow> ck_cancelled (checkNode check node N i st)"
  by (simp add: checkNode_def Let_def split: check_pc.split check_result.split)

lemma checkNode_rank:
  "i < length (ck_pcs st) \<Longrightarrow>
    pc_rank (ck_pcs (checkNode check node N i st) ! i) \<le> pc_rank (ck_pcs st ! i) - 1 \<or>
    ck_pcs (checkNode check node N i st) ! i = Todo \<and> ck_cancelled (checkNode check node N i st)"
  by (simp add: checkNode_def Let_def pc_rank_def split: check_pc.split check_result.split)

lemma run_checks_rank:
  assumes "j < n"
  shows "length (ck_pcs st) = n \<Longrightarrow>
    length (ck_pcs (run_checks check node N schedule st)) = n \<and>
    (pc_rank (ck_pcs (run_checks check node N schedule st) ! j) \<le> pc_rank (ck_pcs st ! j) - count_list schedule j \<or>
     ck_pcs (run_checks check node N schedule st) ! j = Todo \<and> ck_cancelled (run_checks check node N schedule st))"
proof (induction schedule rule: rev_induct)
  case Nil
  then show ?case by (simp add: run_checks_def)
next
  case (snoc i schedule)
  let ?st = "run_checks check node N schedule st"
  have IH: "length (ck_pcs ?st) = n" "pc_rank (ck_pcs ?st ! j) \<le> pc_rank (ck_pcs st ! j) - count_list schedule j \<or>
      ck_pcs ?st ! j = Todo \<and> ck_cancelled ?st"
    using snoc by simp_all
  have run: "run_checks check node N (schedule @ [i]) st = (if i < n then checkNode check node N i ?st else ?st)"
    using IH(1) by (simp add: run_checks_def)
  show ?case
  proof (cases "i = j")
    case True
    have "ck_pcs ?st ! j = Todo \<and> ck_cancelled ?st \<Longrightarrow> checkNode check node N j ?st = ?st"
      by (simp add: checkNode_def)
    then show ?thesis
      using True IH checkNode_rank [of j ?st check node N] assms unfolding run by auto
  next
    case False
    then show ?thesis
      using IH checkNode_other [of j i check node N ?st] checkNode_cancelled [of ?st check node N i] unfolding run by auto
  qed
qed

lemma search_ends:
  assumes "\<forall>i<n. 4 \<le> count_list schedule i"
  shows "check_over (run_checks check node N schedule (check_init n N))"
proof -
  let ?st = "run_checks check node N schedule (check_init n N)"
  have init: "length (ck_pcs (check_init n N)) = n" by (simp add: check_init_def)
  have "case ck_pcs ?st ! j of Stored k \<Rightarrow> True | Dropped \<Rightarrow> True | Refused \<Rightarrow> True | Stopped \<Rightarrow> True
      | Crashed \<Rightarrow> True | Todo \<Rightarrow> ck_cancelled ?st | _ \<Rightarrow> False" if "j < n" for j
  proof -
    have "pc_rank (ck_pcs (check_init n N) ! j) = 4" using that by (simp add: check_init_def pc_rank_def)
    then have "pc_rank (ck_pcs ?st ! j) = 0 \<or> ck_pcs ?st ! j = Todo \<and> ck_cancelled ?st"
      using run_checks_rank [OF that init, of check node N schedule] assms that by auto
    then show ?thesis by (cases "ck_pcs ?st ! j") (auto simp: pc_rank_def)
  qed
  moreover have "length (ck_pcs ?st) = n" if "n \<noteq> 0"
    using run_checks_rank [of 0 n, OF _ init] that by simp
  moreover have "ck_pcs ?st = []" if "n = 0"
  proof -
    have "ck_pcs (run_checks check node N schedule st) = []" if "ck_pcs st = []" for st
      using that by (induction schedule) (simp_all add: run_checks_def)
    then show ?thesis using that by (simp add: check_init_def)
  qed
  ultimately show ?thesis by (cases "n = 0") (auto simp: check_over_def list_all_length)
qed

subsection \<open>Finding the nodes that pass the filters\<close>

lemma filter_loop_no_nil:
  "None \<notin> snd ` set statuses \<Longrightarrow> None \<notin> snd ` set (filter_loop all w state pod ni pls statuses)"
proof (induction pls arbitrary: statuses)
  case (Cons pl pls)
  let ?s = "snd pl w state pod ni"
  show ?case
  proof (cases "IsSuccess ?s")
    case True
    then show ?thesis using Cons by (simp add: Let_def)
  next
    case False
    then have "?s \<noteq> None" using IsSuccess_None by metis
    then have "None \<notin> snd ` set (gm_put statuses (fst pl) ?s)"
      using Cons.prems set_gm_put [of statuses "fst pl" ?s] by force
    moreover from this have "None \<notin> snd ` set (filter_loop all w state pod ni pls (gm_put statuses (fst pl) ?s))"
      by (rule Cons.IH)
    ultimately show ?thesis
      using False fail_with_neq(1) [THEN not_sym] by (cases all) (simp_all add: Let_def)
  qed
qed simp

lemma run_filters_returns: "run_filters f w state pod info \<noteq> None"
proof -
  have "Merge (RunFilterPlugins f w state pod info) \<noteq> None"
    using filter_loop_no_nil [of "[]" "runAllFilters f" w state pod info "filterPlugins f"]
    by (simp add: RunFilterPlugins_def Merge_eq)
  then show ?thesis by (auto simp: run_filters_def)
qed

lemma PodPassesFiltersOnNode_returns: "PodPassesFiltersOnNode ex f npm gen w state pod info \<noteq> None"
proof -
  have ret: "\<exists>status err. run_filters f w s pod i = Some (status, err)" for s i
    using run_filters_returns [of f w s pod i] by auto
  show ?thesis
  proof (cases "addNominatedPods ex f npm gen w pod state info")
    case (Inl err)
    then show ?thesis by (simp add: PodPassesFiltersOnNode_def)
  next
    case (Inr x)
    obtain a s i where x: "x = (a, s, i)" by (cases x)
    obtain st1 e1 where r1: "run_filters f w s pod i = Some (st1, e1)" using ret by blast
    obtain st2 e2 where r2: "run_filters f w state pod info = Some (st2, e2)" using ret by blast
    show ?thesis by (auto simp: PodPassesFiltersOnNode_def Inr x r1 r2)
  qed
qed

lemma mod_add_inj: "inj_on (\<lambda>i. (start + i) mod n) {..<n}" for start n :: nat
proof (rule linorder_inj_onI)
  fix i j assume ij: "i < j" "i \<in> {..<n}" "j \<in> {..<n}"
  show "(start + i) mod n \<noteq> (start + j) mod n"
  proof
    assume "(start + i) mod n = (start + j) mod n"
    then have "n dvd (start + j) - (start + i)" using ij(1) by (subst mod_eq_dvd_iff_nat [symmetric]) simp_all
    then show False using ij by (auto dest: dvd_imp_le)
  qed
qed auto

lemma mod_add_surj: "k < n \<Longrightarrow> \<exists>i<n. (start + i) mod n = k" for start n :: nat
proof -
  assume k: "k < n"
  then have "(\<lambda>i. (start + i) mod n) ` {..<n} \<subseteq> {..<n}" by auto
  then have "(\<lambda>i. (start + i) mod n) ` {..<n} = {..<n}" using mod_add_inj [of start n]
    by (intro endo_inj_surj) simp_all
  then have "k \<in> (\<lambda>i. (start + i) mod n) ` {..<n}" using k by simp
  then show ?thesis by (elim imageE) auto
qed

definition passes :: "('d, 'w) externals \<Rightarrow> ('a, 'd, 'w) frameworkImpl \<Rightarrow> nominatedPodMap \<Rightarrow> int \<Rightarrow>
    'w \<Rightarrow> 'd CycleState \<Rightarrow> Pod \<Rightarrow> NodeInfo \<Rightarrow> bool" where
  "passes ex f npm gen w state pod ni \<longleftrightarrow>
    (\<exists>status. PodPassesFiltersOnNode ex f npm gen w state pod ni = Some (True, status, None))"

text \<open>The state of the parallel search after a schedule.\<close>

definition search_state :: "('d, 'w) externals \<Rightarrow> nat list \<Rightarrow> ('a, 'd, 'w) frameworkImpl \<Rightarrow> nominatedPodMap \<Rightarrow> int \<Rightarrow>
    'w genericScheduler \<Rightarrow> 'w \<Rightarrow> 'd CycleState \<Rightarrow> Pod \<Rightarrow> check_state" where
  "search_state ex schedule f npm gen g w state pod =
    (let allNodes = Snapshot_List (g_nodeInfoSnapshot g); len = length allNodes;
         N = nat (numFeasibleNodesToFind (g_percentageOfNodesToScore g) (i32 (int len)));
         info = (\<lambda>i. allNodes ! ((g_nextStartNodeIndex g + i) mod len))
     in run_checks (\<lambda>i. check_result_of (PodPassesFiltersOnNode ex f npm gen w state pod (info i)))
          (\<lambda>i. node_of (info i)) N schedule (check_init len N))"

lemma check_result_of_iff:
  "check_result_of (Some (fits, status, err)) = Fits \<longleftrightarrow> fits \<and> err = None"
  "check_result_of (Some (fits, status, err)) = Failed e \<longleftrightarrow> err = Some e"
  "check_result_of (Some (fits, status, err)) = Unfit s \<longleftrightarrow> \<not> fits \<and> err = None \<and> status = s"
  "check_result_of (Some (fits, status, err)) \<noteq> Crash"
  by (auto simp: check_result_of_def split: option.split)

lemma check_result_passes:
  "check_result_of (PodPassesFiltersOnNode ex f npm gen w state pod ni) = Fits \<longleftrightarrow> passes ex f npm gen w state pod ni"
  "check_result_of (PodPassesFiltersOnNode ex f npm gen w state pod ni) = Failed e \<longleftrightarrow>
    (\<exists>fits s. PodPassesFiltersOnNode ex f npm gen w state pod ni = Some (fits, s, Some e))"
  "check_result_of (PodPassesFiltersOnNode ex f npm gen w state pod ni) = Unfit s \<longleftrightarrow>
    PodPassesFiltersOnNode ex f npm gen w state pod ni = Some (False, s, None)"
  "check_result_of (PodPassesFiltersOnNode ex f npm gen w state pod ni) \<noteq> Crash"
  using PodPassesFiltersOnNode_returns [of ex f npm gen w state pod ni]
  by (cases "PodPassesFiltersOnNode ex f npm gen w state pod ni"; auto simp: passes_def check_result_of_iff)+

lemma search_filters:
  fixes g :: "'w genericScheduler"
  defines "allNodes \<equiv> Snapshot_List (g_nodeInfoSnapshot g)"
  defines "N \<equiv> nat (numFeasibleNodesToFind (g_percentageOfNodesToScore g) (i32 (int (length allNodes))))"
  assumes len: "allNodes \<noteq> []" "length allNodes < 2 ^ 31 - 1" and names: "distinct (map (node_Name \<circ> node_of) allNodes)"
    and filters: "HasFilterPlugins f" and over: "check_over (search_state ex schedule f npm gen g w state pod)"
  obtains g' statuses err where "findNodesThatPassFilters ex schedule f npm gen g w state pod = Some (g', statuses, Inl err)"
      "\<exists>ni\<in>set allNodes. \<exists>fits s. PodPassesFiltersOnNode ex f npm gen w state pod ni = Some (fits, s, Some err)"
  | g' statuses acc where "findNodesThatPassFilters ex schedule f npm gen g w state pod = Some (g', statuses, Inr (map node_of acc))"
      "distinct (map (node_Name \<circ> node_of) acc)" "set acc \<subseteq> {ni \<in> set allNodes. passes ex f npm gen w state pod ni}" "length acc \<le> N"
      "length acc < N \<Longrightarrow> set acc = {ni \<in> set allNodes. passes ex f npm gen w state pod ni} \<and>
        (\<forall>ni\<in>set allNodes. \<forall>s. PodPassesFiltersOnNode ex f npm gen w state pod ni = Some (False, s, None) \<and> \<not> IsSuccess s \<longrightarrow>
          gm_get statuses (node_Name (node_of ni)) = Some s)"
proof -
  let ?n = "length allNodes"
  define info where "info = (\<lambda>i. allNodes ! ((g_nextStartNodeIndex g + i) mod ?n))"
  define check where "check = (\<lambda>i. check_result_of (PodPassesFiltersOnNode ex f npm gen w state pod (info i)))"
  define node where "node = (\<lambda>i. node_of (info i))"
  define st where "st = run_checks check node N schedule (check_init ?n N)"
  have st: "search_state ex schedule f npm gen g w state pod = st"
    by (simp add: search_state_def st_def check_def node_def info_def allNodes_def N_def Let_def)
  have pos: "0 < ?n" using len by simp
  have in_set: "info i \<in> set allNodes" for i using pos by (simp add: info_def)
  have inj: "inj_on (\<lambda>j. node_Name (node j)) {..<?n}"
  proof (rule inj_onI)
    fix i j assume ij: "i \<in> {..<?n}" "j \<in> {..<?n}" "node_Name (node i) = node_Name (node j)"
    then have "(g_nextStartNodeIndex g + i) mod ?n = (g_nextStartNodeIndex g + j) mod ?n"
      using names pos unfolding distinct_conv_nth node_def info_def by (metis comp_apply length_map mod_less_divisor nth_map)
    then show "i = j" using mod_add_inj ij(1,2) by (metis inj_onD)
  qed
  have inv: "check_inv check node ?n N st"
    unfolding st_def by (rule run_checks_inv [OF len(2) inj check_init_inv])
  have nocrash: "\<forall>i<?n. check i \<noteq> Crash" by (simp add: check_def check_result_passes)
  have nocrashed: "\<not> list_ex (\<lambda>pc. pc = Crashed) (ck_pcs st)"
  proof
    assume "list_ex (\<lambda>pc. pc = Crashed) (ck_pcs st)"
    then obtain i where "i < length (ck_pcs st)" "ck_pcs st ! i = Crashed" by (auto simp: list_ex_length)
    then have "check i = Crash" using inv unfolding check_inv_def result_inv_def by fastforce
    then show False by (simp add: check_def check_result_passes)
  qed
  have run: "findNodesThatPassFilters ex schedule f npm gen g w state pod =
      (let g' = g\<lparr>g_nextStartNodeIndex := (g_nextStartNodeIndex g + (nat (ck_feasibleNodesLen st) + length (ck_statuses st))) mod ?n\<rparr>;
           feasible = map (\<lambda>n. case n of Some n \<Rightarrow> n | None \<Rightarrow> zero_node) (take (nat (ck_feasibleNodesLen st)) (ck_feasibleNodes st))
       in case ck_errCh st of Some err \<Rightarrow> Some (g', ck_statuses st, Inl err) | None \<Rightarrow> Some (g', ck_statuses st, Inr feasible))"
    using len(1) filters nocrashed
    by (simp add: findNodesThatPassFilters_def Let_def st_def check_def node_def info_def allNodes_def N_def ReceiveError_def
        split: option.split)
  show thesis
  proof (cases "ck_errCh st")
    case (Some e)
    obtain i where "i < ?n" "check i = Failed e" using search_err [OF inv Some] by blast
    then have "\<exists>fits s. PodPassesFiltersOnNode ex f npm gen w state pod (info i) = Some (fits, s, Some e)"
      by (simp add: check_def check_result_passes)
    then show thesis using that(1) run Some in_set by (auto simp: Let_def)
  next
    case None
    from search_found [OF inv over [unfolded st] nocrash None] obtain acc where
      acc: "distinct acc" "set acc \<subseteq> {i. i < ?n \<and> check i = Fits}" "length acc \<le> N"
        "take (nat (ck_feasibleNodesLen st)) (ck_feasibleNodes st) = map (\<lambda>i. Some (node i)) acc"
        "length acc < N \<longrightarrow> set acc = {i. i < ?n \<and> check i = Fits} \<and>
          (\<forall>i<?n. \<forall>s. check i = Unfit s \<and> \<not> IsSuccess s \<longrightarrow> gm_get (ck_statuses st) (node_Name (node i)) = Some s)"
      by blast
    have surj: "\<exists>i<?n. info i = ni" if ni: "ni \<in> set allNodes" for ni
    proof -
      obtain k where "k < ?n" "allNodes ! k = ni" using ni by (auto simp: in_set_conv_nth)
      then show ?thesis using mod_add_surj [of k ?n "g_nextStartNodeIndex g"] by (auto simp: info_def)
    qed
    show thesis
    proof (rule that(2))
      show "findNodesThatPassFilters ex schedule f npm gen g w state pod =
          Some (g\<lparr>g_nextStartNodeIndex := (g_nextStartNodeIndex g + (nat (ck_feasibleNodesLen st) + length (ck_statuses st))) mod ?n\<rparr>,
            ck_statuses st, Inr (map node_of (map info acc)))"
        using run None acc(4) by (simp add: Let_def node_def)
      show "distinct (map (node_Name \<circ> node_of) (map info acc))"
        using acc(1,2) inj by (auto simp: distinct_map node_def comp_def intro: inj_on_subset)
      show "set (map info acc) \<subseteq> {ni \<in> set allNodes. passes ex f npm gen w state pod ni}"
        using acc(2) in_set by (auto simp: check_def check_result_passes)
      show "length (map info acc) \<le> N" using acc(3) by simp
      assume "length (map info acc) < N"
      then have all: "set acc = {i. i < ?n \<and> check i = Fits}"
        "\<forall>i<?n. \<forall>s. check i = Unfit s \<and> \<not> IsSuccess s \<longrightarrow> gm_get (ck_statuses st) (node_Name (node i)) = Some s"
        using acc(5) by simp_all
      have "set (map info acc) = {ni \<in> set allNodes. passes ex f npm gen w state pod ni}"
        using all(1) in_set surj by (fastforce simp: check_def check_result_passes)
      moreover have "gm_get (ck_statuses st) (node_Name (node_of ni)) = Some s"
        if ni: "ni \<in> set allNodes" "PodPassesFiltersOnNode ex f npm gen w state pod ni = Some (False, s, None)" "\<not> IsSuccess s" for ni s
      proof -
        obtain i where i: "i < ?n" "info i = ni" using surj [OF ni(1)] by blast
        then have "check i = Unfit s" using ni(2) by (simp add: check_def check_result_of_iff)
        then show ?thesis using all(2) i ni(3) by (auto simp: node_def)
      qed
      ultimately show "set (map info acc) = {ni \<in> set allNodes. passes ex f npm gen w state pod ni} \<and>
        (\<forall>ni\<in>set allNodes. \<forall>s. PodPassesFiltersOnNode ex f npm gen w state pod ni = Some (False, s, None) \<and> \<not> IsSuccess s \<longrightarrow>
          gm_get (ck_statuses st) (node_Name (node_of ni)) = Some s)"
        by blast
    qed
  qed
qed

text \<open>C28: However the goroutines of the parallel search are interleaved, once it is over it has either failed with
  an error that the filters gave for one of the nodes, or found nodes that are pairwise different, all pass
  the filters and are at most as many as were looked for; and when it found fewer, then it found every
  node that passes, and every other node has its status in the map. It never panics.\<close>

theorem parallel_search_correct:
  fixes g :: "'w genericScheduler"
  assumes "Snapshot_List (g_nodeInfoSnapshot g) \<noteq> []" "length (Snapshot_List (g_nodeInfoSnapshot g)) < 2 ^ 31 - 1"
    and "distinct (map (node_Name \<circ> node_of) (Snapshot_List (g_nodeInfoSnapshot g)))"
    and "HasFilterPlugins f" "check_over (search_state ex schedule f npm gen g w state pod)"
  shows "case findNodesThatPassFilters ex schedule f npm gen g w state pod of
      None \<Rightarrow> False
    | Some (g', statuses, Inl err) \<Rightarrow>
        \<exists>ni\<in>set (Snapshot_List (g_nodeInfoSnapshot g)). \<exists>fits s.
          PodPassesFiltersOnNode ex f npm gen w state pod ni = Some (fits, s, Some err)
    | Some (g', statuses, Inr nodes) \<Rightarrow>
        distinct (map node_Name nodes)
        \<and> set nodes \<subseteq> node_of ` {ni \<in> set (Snapshot_List (g_nodeInfoSnapshot g)). passes ex f npm gen w state pod ni}
        \<and> int (length nodes) \<le> max 0 (numFeasibleNodesToFind (g_percentageOfNodesToScore g)
            (i32 (int (length (Snapshot_List (g_nodeInfoSnapshot g))))))
        \<and> (int (length nodes) < numFeasibleNodesToFind (g_percentageOfNodesToScore g)
              (i32 (int (length (Snapshot_List (g_nodeInfoSnapshot g))))) \<longrightarrow>
            set nodes = node_of ` {ni \<in> set (Snapshot_List (g_nodeInfoSnapshot g)). passes ex f npm gen w state pod ni} \<and>
            (\<forall>ni\<in>set (Snapshot_List (g_nodeInfoSnapshot g)). \<forall>s.
              PodPassesFiltersOnNode ex f npm gen w state pod ni = Some (False, s, None) \<and> \<not> IsSuccess s \<longrightarrow>
              gm_get statuses (node_Name (node_of ni)) = Some s))"
  using assms
proof (cases rule: search_filters [where g = g and f = f and ex = ex and schedule = schedule and npm = npm and gen = gen and w = w and state = state and pod = pod])
  case (1 g' statuses err)
  then show ?thesis by simp
next
  case (2 g' statuses acc)
  then show ?thesis by (auto simp: comp_def image_iff)
qed


subsection \<open>An example\<close>

definition demo_externals :: "(unit, nat) externals" where
  "demo_externals = \<lparr>ex_asSelector = no_sel, ex_clone = (\<lambda>d. d), ex_share = (\<lambda>s w. w),
     ex_pvcLister = (\<lambda>ns n. Inl ''not found''), ex_IsControlledBy = (\<lambda>pvc pod. False), ex_MaxExtenderPriority = 10\<rparr>"

definition demo_nodes :: "Node list" where
  "demo_nodes = [zero_node\<lparr>node_Name := ''a''\<rparr>, zero_node\<lparr>node_Name := ''b''\<rparr>]"

definition demo_g :: "nat genericScheduler" where
  "demo_g = NewGenericScheduler (newSchedulerCache 30 1 0) (NewSnapshot no_sel 0 [] demo_nodes) [] False 0"

definition demo_f :: "(unit, unit, nat) frameworkImpl" where
  "demo_f = demo_framework\<lparr>filterPlugins := [(''All'', \<lambda>w state pod ni.
     if node_Name (node_of ni) = ''a'' then None else Some (NewStatus Unschedulable [''taken'']))]\<rparr>"

definition demo_search :: "(nat genericScheduler \<times> NodeToStatusMap \<times> (error + Node list)) option" where
  "demo_search = findNodesThatPassFilters demo_externals [0, 1, 1, 0, 1, 0, 1, 0] demo_f NewPodNominator 0 demo_g 0 demo_state zero_pod"

lemma demo_names: "map (node_Name \<circ> node_of) (Snapshot_List (g_nodeInfoSnapshot demo_g)) = [''a'', ''b'']"
  by code_simp

lemma demo_len: "length (Snapshot_List (g_nodeInfoSnapshot demo_g)) = 2"
  using arg_cong [OF demo_names, of length] by simp


theorem parallel_search_correct_witness:
  "\<exists>g' statuses nodes. demo_search = Some (g', statuses, Inr nodes) \<and> distinct (map node_Name nodes) \<and>
    map node_Name nodes = [''a''] \<and> gm_get statuses ''b'' = Some (Some (NewStatus Unschedulable [''taken'']))"
proof -
  let ?P = "\<lambda>r. case r of Some (g', statuses, Inr nodes) \<Rightarrow> map node_Name nodes = [''a''] \<and>
    gm_get statuses ''b'' = Some (Some (NewStatus Unschedulable [''taken''])) | _ \<Rightarrow> False"
  have P: "?P demo_search" by code_simp
  have over: "check_over (search_state demo_externals [0, 1, 1, 0, 1, 0, 1, 0] demo_f NewPodNominator 0 demo_g 0 demo_state zero_pod)"
    unfolding search_state_def Let_def demo_len by (rule search_ends) (simp add: less_Suc_eq numeral_2_eq_2)
  have a1: "Snapshot_List (g_nodeInfoSnapshot demo_g) \<noteq> []" using demo_len by auto
  have a2: "length (Snapshot_List (g_nodeInfoSnapshot demo_g)) < 2 ^ 31 - 1" by (simp add: demo_len)
  have a3: "distinct (map (node_Name \<circ> node_of) (Snapshot_List (g_nodeInfoSnapshot demo_g)))" by (simp add: demo_names)
  have a4: "HasFilterPlugins demo_f" by (simp add: HasFilterPlugins_def demo_f_def)
  note correct = parallel_search_correct [OF a1 a2 a3 a4 over, folded demo_search_def]
  show ?thesis
  proof (cases demo_search)
    case None
    then show ?thesis using P by simp
  next
    case (Some x)
    obtain g' statuses r where x: "x = (g', statuses, r)" by (cases x)
    show ?thesis
    proof (cases r)
      case (Inl err)
      then show ?thesis using P by (simp add: Some x)
    next
      case (Inr nodes)
      then show ?thesis using P correct by (simp add: Some x)
    qed
  qed
qed

end
