(* ===== verification/Schedule_Props.thy ===== *)
theory Schedule_Props
  imports Parallel_Search
begin

text \<open>
  Choosing a host, how many nodes are looked for, the total scores, and what a scheduling
  cycle as a whole returns.
\<close>

subsection \<open>The host is one of the best\<close>

lemma select_loop_best:
  "(select_loop rnd c l m sel cnt = sel \<and> (\<forall>ns\<in>set l. ns_Score ns \<le> m)) \<or>
    (\<exists>ns\<in>set l. ns_Name ns = select_loop rnd c l m sel cnt \<and> m \<le> ns_Score ns \<and> (\<forall>ns'\<in>set l. ns_Score ns' \<le> ns_Score ns))"
proof (induction rnd c l m sel cnt rule: select_loop.induct)
  case (2 rnd c ns l m sel cnt)
  consider (more) "ns_Score ns > m" | (same) "ns_Score ns = m" | (less) "ns_Score ns < m" by linarith
  then show ?case
  proof cases
    case more
    with "2.IH"(1) [OF more] show ?thesis by fastforce
  next
    case same
    then have "\<not> m < ns_Score ns" by simp
    from "2.IH"(2) [OF this same refl] same show ?thesis by (auto simp: Let_def split: if_splits)
  next
    case less
    then have "\<not> m < ns_Score ns" "ns_Score ns \<noteq> m" by simp_all
    from "2.IH"(3) [OF this] less show ?thesis by fastforce
  qed
qed simp

lemma select_loop_keep:
  "(\<forall>k\<ge>c. rnd k \<noteq> 0) \<Longrightarrow> (\<forall>ns\<in>set l. ns_Score ns \<le> m) \<Longrightarrow> select_loop rnd c l m sel cnt = sel"
  by (induction l arbitrary: c cnt) auto

lemma select_loop_local:
  "(\<forall>k\<ge>c. rnd k = rnd' k) \<Longrightarrow> select_loop rnd c l m sel cnt = select_loop rnd' c l m sel cnt"
  by (induction l arbitrary: c m sel cnt) (auto simp: Let_def)

lemma select_loop_any:
  "ns \<in> set l \<Longrightarrow> m \<le> ns_Score ns \<Longrightarrow> (\<forall>ns'\<in>set l. ns_Score ns' \<le> ns_Score ns) \<Longrightarrow>
    \<exists>rnd. (\<forall>k. rnd k < 2) \<and> select_loop rnd c l m sel cnt = ns_Name ns"
proof (induction l arbitrary: c m sel cnt)
  case (Cons x l)
  show ?case
  proof (cases "ns \<in> set l")
    case True
    have IH: "\<exists>rnd. (\<forall>k. rnd k < 2) \<and> select_loop rnd c' l m' sel' cnt' = ns_Name ns" if "m' \<le> ns_Score ns" for c' m' sel' cnt'
      using Cons.IH [OF True that] Cons.prems(3) by simp
    consider (more) "ns_Score x > m" | (same) "ns_Score x = m" | (less) "ns_Score x < m" by linarith
    then show ?thesis
    proof cases
      case more
      then show ?thesis using IH [of "ns_Score x" c "ns_Name x" 1] Cons.prems(3) by auto
    next
      case same
      obtain rnd where rnd: "\<forall>k. rnd k < 2" "select_loop rnd (c + 1) l m sel (cnt + 1) = ns_Name ns"
        using IH [OF Cons.prems(2), of "c + 1" sel "cnt + 1"] by blast
      define rnd' where "rnd' = (\<lambda>k. if k = c then 1 else rnd k)"
      have "select_loop rnd' (c + 1) l m sel (cnt + 1) = select_loop rnd (c + 1) l m sel (cnt + 1)"
        by (rule select_loop_local) (simp add: rnd'_def)
      moreover have "rnd' c \<noteq> 0" "\<forall>k. rnd' k < 2" using rnd(1) by (simp_all add: rnd'_def)
      ultimately show ?thesis using rnd same by (intro exI [of _ rnd']) (simp add: Let_def)
    next
      case less
      then show ?thesis using IH [OF Cons.prems(2), of c sel cnt] by auto
    qed
  next
    case False
    with Cons.prems(1) have x: "x = ns" by simp
    have le: "\<forall>ns'\<in>set l. ns_Score ns' \<le> ns_Score ns" using Cons.prems(3) by simp
    show ?thesis
    proof (cases "ns_Score ns > m")
      case True
      then show ?thesis using select_loop_keep [of c "\<lambda>_. 1" l "ns_Score ns" "ns_Name ns" 1] le
        by (intro exI [of _ "\<lambda>_. 1"]) (simp add: x)
    next
      case False
      then have same: "ns_Score ns = m" using Cons.prems(2) by simp
      define rnd' where "rnd' = (\<lambda>k. if k = c then 0 else 1 :: nat)"
      have "select_loop rnd' (c + 1) l m (ns_Name ns) (cnt + 1) = ns_Name ns"
        using le same by (intro select_loop_keep) (simp_all add: rnd'_def)
      moreover have "rnd' c = 0" "\<forall>k. rnd' k < 2" by (simp_all add: rnd'_def)
      ultimately show ?thesis using same by (intro exI [of _ rnd']) (simp add: x Let_def)
    qed
  qed
qed simp

text \<open>From a list of scores that is not empty, the host that is selected always is one with the highest score,
  and every node with the highest score can be selected, depending on the random numbers; an empty list is
  an error.\<close>

theorem selectHost_best:
  "(if l = [] then selectHost rnd l = Inl ''empty priorityList''
    else selectHost rnd l \<in> Inr ` ns_Name ` {ns \<in> set l. list_all (\<lambda>ns'. ns_Score ns' \<le> ns_Score ns) l})
    \<and> ns_Name ` {ns \<in> set l. list_all (\<lambda>ns'. ns_Score ns' \<le> ns_Score ns) l}
      \<subseteq> {host. \<exists>rnd'. (\<forall>k. rnd' k < 2) \<and> selectHost rnd' l = Inr host}"
proof (cases l)
  case (Cons x xs)
  have "selectHost rnd l \<in> Inr ` ns_Name ` {ns \<in> set l. list_all (\<lambda>ns'. ns_Score ns' \<le> ns_Score ns) l}"
    using select_loop_best [of rnd 0 xs "ns_Score x" "ns_Name x" 1]
    by (auto simp: Cons selectHost_def list_all_iff image_iff)
  moreover have "\<exists>rnd'. (\<forall>k. rnd' k < 2) \<and> selectHost rnd' l = Inr (ns_Name ns)"
    if ns: "ns \<in> set l" "list_all (\<lambda>ns'. ns_Score ns' \<le> ns_Score ns) l" for ns
  proof (cases "ns \<in> set xs")
    case True
    then show ?thesis
      using select_loop_any [of ns xs "ns_Score x" 0 "ns_Name x" 1] ns by (simp add: Cons selectHost_def list_all_iff)
  next
    case False
    then have "x = ns" using ns by (simp add: Cons)
    then show ?thesis
      using ns select_loop_keep [of 0 "\<lambda>_. 1" xs "ns_Score x" "ns_Name x" 1]
      by (intro exI [of _ "\<lambda>_. 1"]) (simp add: Cons selectHost_def list_all_iff)
  qed
  ultimately show ?thesis using Cons by auto
qed (simp add: selectHost_def)

subsection \<open>How many nodes\<close>

lemma quot32_pos: "0 \<le> a \<Longrightarrow> 0 < b \<Longrightarrow> a < 2 ^ 31 \<Longrightarrow> quot32 a b = a div b"
proof -
  assume a: "0 \<le> a" "0 < b" "a < 2 ^ 31"
  have "0 \<le> a div b" "a div b \<le> a" using a zdiv_mono2 [of a 1 b] by (simp_all add: pos_imp_zdiv_nonneg_iff)
  then have "in32 (a div b)" using a by (simp add: in32_def)
  then show ?thesis using a by (cases "a = 0") (simp_all add: quot32_def)
qed

text \<open>For up to twenty million nodes the number of nodes to look for never overflows: it is all of them when there
  are fewer than a hundred or the percentage is at least a hundred; otherwise it is the configured
  percentage, or when none is configured fifty percent less one for every 125 nodes and at least five
  percent, but in any case at least a hundred and at most all nodes.\<close>

theorem numFeasibleNodesToFind_range:
  assumes "0 \<le> n" "n \<le> 20000000"
  shows "numFeasibleNodesToFind p n =
      (if n < 100 \<or> 100 \<le> p then n
       else max 100 (n * (if p \<le> 0 then max 5 (50 - n div 125) else p) div 100))
    \<and> min n 100 \<le> numFeasibleNodesToFind p n \<and> numFeasibleNodesToFind p n \<le> n"
proof -
  let ?q = "if p \<le> 0 then max 5 (50 - n div 125) else p"
  have eq: "numFeasibleNodesToFind p n = (if n < 100 \<or> 100 \<le> p then n else max 100 (n * ?q div 100))"
  proof (cases "n < 100 \<or> 100 \<le> p")
    case False
    have d: "0 \<le> n div 125" "n div 125 \<le> 20000000" "quot32 n 125 = n div 125"
      using assms by (simp_all add: quot32_pos)
    then have "in32 (50 - n div 125)" by (simp add: in32_def)
    then have i: "i32 (50 - n div 125) = 50 - n div 125" by simp
    have q: "1 \<le> ?q" "?q \<le> 99" using False d by auto
    have "n * ?q \<le> 20000000 * 99" using q assms by (intro mult_mono) auto
    moreover have "0 \<le> n * ?q" using q assms by simp
    ultimately have small: "in32 (n * ?q)" "n * ?q < 2 ^ 31" by (simp_all add: in32_def)
    have "quot32 (i32 (n * ?q)) 100 = n * ?q div 100"
      using small \<open>0 \<le> n * ?q\<close> by (simp add: quot32_pos)
    moreover have "numFeasibleNodesToFind p n =
        (let numNodes = quot32 (i32 (n * ?q)) 100 in if numNodes < 100 then 100 else numNodes)"
      using False d i by (simp add: numFeasibleNodesToFind_def minFeasibleNodesToFind_def
          minFeasibleNodesPercentageToFind_def Let_def max_def)
    ultimately show ?thesis using False by (simp add: Let_def max_def)
  qed (auto simp: numFeasibleNodesToFind_def minFeasibleNodesToFind_def)
  moreover have "max 100 (n * ?q div 100) \<le> n" if "\<not> (n < 100 \<or> 100 \<le> p)"
  proof -
    have "0 \<le> n div 125" using assms by simp
    then have "?q \<le> 100" using that by auto
    then have "n * ?q \<le> n * 100" using assms by (intro mult_left_mono) auto
    then have "n * ?q div 100 \<le> n * 100 div 100" by (intro zdiv_mono1) auto
    then show ?thesis using that by simp
  qed
  ultimately show ?thesis by auto
qed

theorem numFeasibleNodesToFind_range_witness:
  "numFeasibleNodesToFind 0 5000 = 500 \<and> numFeasibleNodesToFind 0 5000 \<le> 5000"
  using numFeasibleNodesToFind_range [of 5000 0] by simp

subsection \<open>Total scores\<close>

lemma sum_scores_exact:
  "(\<forall>e\<in>set m. i < length (snd e) \<and> 0 \<le> ns_Score (snd e ! i)) \<Longrightarrow> 0 \<le> acc \<Longrightarrow>
    acc + (\<Sum>e\<leftarrow>m. ns_Score (snd e ! i)) \<le> MaxTotalScore \<Longrightarrow>
    sum_scores m i acc = Some (acc + (\<Sum>e\<leftarrow>m. ns_Score (snd e ! i)))"
proof (induction m arbitrary: acc)
  case (Cons e m)
  obtain j l where e: "e = (j, l)" by (cases e)
  have "0 \<le> (\<Sum>e\<leftarrow>m. ns_Score (snd e ! i))" using Cons.prems(1) by (induction m) auto
  then have "in64 (acc + ns_Score (l ! i))"
    using Cons.prems by (auto simp: e in64_def MaxTotalScore_def)
  then show ?case using Cons by (simp add: e add.assoc)
qed simp

lemma summarize_exact:
  assumes "\<And>j. i \<le> j \<Longrightarrow> j < i + length nodes \<Longrightarrow> sum_scores m j 0 = Some (h j)"
  shows "summarize m i nodes = Some (map (\<lambda>k. \<lparr>ns_Name = node_Name (nodes ! k), ns_Score = h (i + k)\<rparr>) [0..<length nodes])"
  using assms
proof (induction nodes arbitrary: i)
  case (Cons n nodes)
  have "summarize m (i + 1) nodes = Some (map (\<lambda>k. \<lparr>ns_Name = node_Name (nodes ! k), ns_Score = h (i + 1 + k)\<rparr>) [0..<length nodes])"
    by (rule Cons.IH) (use Cons.prems in auto)
  moreover have "[0..<length (n # nodes)] = 0 # map Suc [0..<length nodes]"
    by (simp only: map_Suc_upt upt_conv_Cons length_Cons zero_less_Suc)
  ultimately show ?case using Cons.prems [of i] by (simp add: comp_def)
qed simp

lemma summarize_names: "summarize m i nodes = Some l \<Longrightarrow> map ns_Name l = map node_Name nodes"
  by (induction nodes arbitrary: i l) (auto split: Option.bind_splits)

lemma sum_over_keys:
  fixes h :: "string \<Rightarrow> int"
  assumes "distinct xs" "distinct ys" "set xs = set ys"
  shows "sum_list (map h xs) = sum_list (map h ys)"
  using assms by (simp add: sum_list_distinct_conv_sum_set)

lemma plugin_scores_length:
  "length (fst (normalized w state pod (snd pl) (raw_scores w state pod nodes (snd pl)))) = length nodes \<Longrightarrow>
    length (plugin_scores f w state pod nodes pl) = length nodes"
  by (simp add: plugin_scores_def weighted_def)

text \<open>Plugins whose normalisation changes the scores in place, so that their number stays.\<close>

definition keeps_length :: "('d, 'w) ScorePlugin \<Rightarrow> bool" where
  "keeps_length pl \<longleftrightarrow> (\<forall>w state pod l. length (fst (normalized w state pod pl l)) = length l)"


text \<open>The order in which the extenders add their scores does not matter.\<close>

lemma sum_other_hosts:
  "h \<notin> fst ` set l \<Longrightarrow> (\<Sum>(host, score)\<leftarrow>l. if host = h then score * weight else (0 :: int)) = 0"
  by (induction l) auto

lemma add_scores_get0:
  "gm_get0 (fold (\<lambda>(host, score) m. gm_put m host (i64 (gm_get0 m host + score * weight))) l m) h =
    (if h \<in> fst ` set l then i64 (gm_get0 m h + (\<Sum>(host, score)\<leftarrow>l. if host = h then score * weight else 0)) else gm_get0 m h)"
  by (induction l arbitrary: m) (auto simp: add.assoc sum_other_hosts)

definition extender_total :: "Pod \<Rightarrow> Node list \<Rightarrow> 'w Extender \<Rightarrow> string \<Rightarrow> int" where
  "extender_total pod nodes extender h =
    (if \<not> ext_IsInterested extender pod then 0
     else case ext_Prioritize extender pod nodes of
        Inl err \<Rightarrow> 0
      | Inr (l, weight) \<Rightarrow> (\<Sum>(host, score)\<leftarrow>l. if host = h then score * weight else 0))"

lemma extender_scores_get0:
  "in64 (gm_get0 m h) \<Longrightarrow>
    gm_get0 (extender_scores pod nodes extender m) h = i64 (gm_get0 m h + extender_total pod nodes extender h)"
  by (auto simp: extender_scores_def extender_total_def add_scores_get0 sum_other_hosts split: sum.split prod.split)

lemma extender_fold_get0:
  "in64 (gm_get0 m h) \<Longrightarrow> gm_get0 (fold (extender_scores pod nodes) extenders m) h =
    i64 (gm_get0 m h + (\<Sum>e\<leftarrow>extenders. extender_total pod nodes e h))"
  by (induction extenders arbitrary: m) (simp_all add: extender_scores_get0 add.assoc)

lemma extender_scores_commute:
  assumes "mset extenders = mset extenders'"
  shows "gm_get0 (fold (extender_scores pod nodes) extenders []) h = gm_get0 (fold (extender_scores pod nodes) extenders' []) h"
proof -
  have "in64 (gm_get0 [] h)" by (simp add: gm_get0_def in64_def)
  moreover have "(\<Sum>e\<leftarrow>extenders. extender_total pod nodes e h) = (\<Sum>e\<leftarrow>extenders'. extender_total pod nodes e h)"
    using assms by (metis mset_map sum_mset_sum_list)
  ultimately show ?thesis by (simp add: extender_fold_get0)
qed

subsection \<open>A scheduling cycle\<close>

lemma snapshot_names:
  assumes inv: "cache_inv c" and ng: "no_ghosts c" and wf: "snap_wf s" and eq: "sinfo s = cinfo c"
  shows "distinct (map (node_Name \<circ> node_of) (Snapshot_List s))"
    and "ni \<in> set (Snapshot_List s) \<Longrightarrow> cinfo c (node_Name (node_of ni)) = Some ni"
    and "length (Snapshot_List s) \<le> length (sc_nodes c)"
proof -
  obtain ks where ninv: "nodes_inv c ks" using inv by (rule cache_invE)
  note list = snapshot_reads(3) [OF wf eq ng ninv]
  let ?t = "tree_names (sc_nodeTree c)"
  have info: "\<exists>i nd. cinfo c k = Some i \<and> ni_node i = Some nd \<and> node_Name nd = k" if "k \<in> set ?t" for k
    using ninv that unfolding nodes_inv_def by (metis option.exhaust)
  have name: "node_Name (node_of (the (cinfo c k))) = k" if "k \<in> set ?t" for k
    using info [OF that] by (auto simp: node_of_def)
  have dist: "distinct ?t" using ninv by (simp add: nodes_inv_def nt_wf_def nt_ok_def)
  have "mset (map (node_Name \<circ> node_of) (Snapshot_List s)) = image_mset (node_Name \<circ> node_of) (mset (Snapshot_List s))"
    by simp
  also have "\<dots> = image_mset (\<lambda>k. node_Name (node_of (the (cinfo c k)))) (mset ?t)"
    unfolding list by (simp add: image_mset.compositionality comp_def)
  also have "\<dots> = image_mset (\<lambda>k. k) (mset ?t)"
    by (rule image_mset_cong) (simp add: name)
  finally have m: "mset (map (node_Name \<circ> node_of) (Snapshot_List s)) = mset ?t" by simp
  show "distinct (map (node_Name \<circ> node_of) (Snapshot_List s))"
    using m dist by (metis distinct_count_atmost_1 set_mset_mset)
  show "cinfo c (node_Name (node_of ni)) = Some ni" if "ni \<in> set (Snapshot_List s)"
  proof -
    have "ni \<in># image_mset (\<lambda>k. the (cinfo c k)) (mset ?t)" using that list by (metis set_mset_mset)
    then obtain k where k: "k \<in> set ?t" "ni = the (cinfo c k)" by auto
    then show ?thesis using info [OF k(1)] name [OF k(1)] by auto
  qed
  have "length (Snapshot_List s) = length ?t" using m by (metis length_map size_mset)
  also have "\<dots> = card (set ?t)" using dist by (simp add: distinct_card)
  also have "\<dots> \<le> card (fst ` set (sc_nodes c))"
    by (rule card_mono) (use info cinfo_dom in force)+
  also have "\<dots> \<le> length (sc_nodes c)" by (metis card_length length_map set_map)
  finally show "length (Snapshot_List s) \<le> length (sc_nodes c)" .
qed

lemma select_in:
  assumes "selectHost rnd l = Inr host"
  shows "host \<in> ns_Name ` set l"
proof (cases l)
  case (Cons x xs)
  then show ?thesis
    using assms select_loop_best [of rnd 0 xs "ns_Score x" "ns_Name x" 1]
    by (simp add: selectHost_def) (metis imageI)
qed (use assms in \<open>simp add: selectHost_def\<close>)

lemma prioritize_names:
  assumes "prioritizeNodes ex orders extenders f env pod nodes = Some (env', Inr l)"
  shows "map ns_Name l = map node_Name nodes"
  using assms
  by (auto simp: prioritizeNodes_def Let_def comp_def split: if_splits prod.splits Option.bind_splits dest!: summarize_names)

text \<open>A host that \<open>Schedule\<close> returns is one of the feasible nodes.\<close>

lemma schedule_parts:
  assumes "Schedule ex ch f npm g env pod = Some (g', env', Inr res)"
  obtains c s serr g1 g2 env1 feasible statuses where "UpdateSnapshot (g_cache g) (g_nodeInfoSnapshot g) = Some (c, s, serr)"
    "g1 = g\<lparr>g_cache := c, g_nodeInfoSnapshot := s\<rparr>"
    "findNodesThatFitPod ex (ch_schedule ch) f npm (ch_gen ch) g1 (ex_share ex s (fst env), snd env) pod
      = Some (g', env1, Inr (feasible, statuses))"
    "SuggestedHost res \<in> node_Name ` set feasible" "podPassesBasicChecks ex pod = None"
proof -
  from assms obtain c s serr where u: "UpdateSnapshot (g_cache g) (g_nodeInfoSnapshot g) = Some (c, s, serr)"
      and basic: "podPassesBasicChecks ex pod = None"
    by (auto simp: Schedule_def g_snapshot_def split: option.splits Option.bind_splits)
  let ?g1 = "g\<lparr>g_cache := c, g_nodeInfoSnapshot := s\<rparr>"
  from assms obtain g2 env1 feasible statuses where
    find: "findNodesThatFitPod ex (ch_schedule ch) f npm (ch_gen ch) ?g1 (ex_share ex s (fst env), snd env) pod
      = Some (g2, env1, Inr (feasible, statuses))"
    and rest: "(case feasible of
         [] \<Rightarrow> False
       | [n] \<Rightarrow> g' = g2 \<and> SuggestedHost res = node_Name n
       | _ \<Rightarrow> \<exists>l env2 host. g' = g2 \<and> prioritizeNodes ex (ch_orders ch) (g_extenders g2) f env1 pod feasible = Some (env2, Inr l) \<and>
            selectHost (ch_rnd ch) l = Inr host \<and> SuggestedHost res = host)"
    by (auto simp: Schedule_def g_snapshot_def u basic Let_def split: option.splits Option.bind_splits if_splits sum.splits list.splits)
  have g2: "g' = g2" using rest by (auto split: list.splits)
  have "SuggestedHost res \<in> node_Name ` set feasible"
  proof (cases "length feasible = 1")
    case True
    then show ?thesis using rest by (auto simp: length_Suc_conv)
  next
    case False
    with rest obtain l env2 host where l: "prioritizeNodes ex (ch_orders ch) (g_extenders g2) f env1 pod feasible = Some (env2, Inr l)"
        "selectHost (ch_rnd ch) l = Inr host" "SuggestedHost res = host"
      by (auto split: list.splits)
    have "host \<in> set (map ns_Name l)" using select_in [OF l(2)] by simp
    then show ?thesis unfolding prioritize_names [OF l(1)] using l(3) by simp
  qed
  then show thesis using that u find g2 basic by blast
qed


subsection \<open>Examples\<close>

definition demo_cache :: schedulerCache where
  "demo_cache = fst (AddNode no_sel (fst (AddNode no_sel (newSchedulerCache 30 1 0) (demo_node ''a''))) (demo_node ''b''))"

definition demo_sched :: "nat genericScheduler" where
  "demo_sched = NewGenericScheduler demo_cache NewEmptySnapshot [] False 0"

definition demo_choices :: choices where
  "demo_choices = \<lparr>ch_schedule = [0, 1, 1, 0, 1, 0, 1, 0], ch_orders = ([0], [0], [0]), ch_rnd = (\<lambda>k. 0), ch_gen = 0\<rparr>"

definition demo_run :: "(nat genericScheduler \<times> (unit, nat) env \<times> (schedule_error + ScheduleResult)) option" where
  "demo_run = Schedule demo_externals demo_choices demo_f NewPodNominator demo_sched (0, demo_state) zero_pod"

lemma demo_run_host: "map_option (\<lambda>x. map_sum (\<lambda>e. ()) SuggestedHost (snd (snd x))) demo_run = Some (Inr ''a'')"
  by code_simp

lemma demo_cache_len: "length (sc_nodes demo_cache) = 2"
  by code_simp


lemma demo_named: "named demo_registry"
  by (auto simp: named_def made_by_def demo_registry_def demo_plugin_def)

definition demo_new_f :: "(unit, unit, nat) frameworkImpl" where
  "demo_new_f = projr demo_new"

lemma demo_new_f: "NewFramework demo_decode demo_registry (Some demo_plugins) [] [] = Inr demo_new_f"
  using demo_new_ok by (simp add: demo_new_f_def demo_new_def)

lemma demo_new_score: "scorePlugins demo_new_f = [(''All'', \<lparr>Score = (\<lambda>w state pod n. (7, None)), ScoreExtensions = None\<rparr>)]"
    "preScorePlugins demo_new_f = []" "gm_get0 (pluginNameToWeightMap demo_new_f) ''All'' = 1"
  by (simp_all add: demo_new_f_def demo_new_simps)


end
