(* ===== verification/Queue_Refinement.thy ===== *)
theory Queue_Refinement
  imports Scheduling_Queue
begin

text \<open>
  The scheduling queue refines one map from pods to their place (active, backing off,
  unschedulable). A pod is known by namespace and name; the two heaps key it by
  \<open>namespace/name\<close> and the unschedulable map by \<open>name_namespace\<close>, so the exclusion between the queues
  rests on both keys telling pods apart. The heaps are used through the contracts
  \<open>keyed_queue\<close> and \<open>searchable_queue\<close>.
\<close>

declare split_paired_All [simp del] split_paired_Ex [simp del]

subsection \<open>Names and keys\<close>

type_synonym pod_name = "string \<times> string"

definition pod_id :: "Pod \<Rightarrow> pod_name" where
  "pod_id pod = (pod_Namespace pod, pod_Name pod)"

text \<open>Names the API server admits have neither delimiter.\<close>

definition valid_id :: "pod_name \<Rightarrow> bool" where
  "valid_id n \<longleftrightarrow> CHR ''/'' \<notin> set (fst n) \<and> CHR ''/'' \<notin> set (snd n) \<and>
     CHR ''_'' \<notin> set (fst n) \<and> CHR ''_'' \<notin> set (snd n)"

abbreviation named :: "Pod \<Rightarrow> bool" where
  "named pod \<equiv> valid_id (pod_id pod)"

text \<open>The documented result of \<open>MetaNamespaceKeyFunc\<close>: \<open>namespace/name\<close>, or the name when the namespace is empty.\<close>

definition heap_key :: "pod_name \<Rightarrow> string" where
  "heap_key n = (if fst n = [] then snd n else fst n @ CHR ''/'' # snd n)"

definition meta_key_doc :: "(Pod \<Rightarrow> error + string) \<Rightarrow> bool" where
  "meta_key_doc metaKey \<longleftrightarrow> (\<forall>pod. metaKey pod = Inr (heap_key (pod_id pod)))"

definition full_key :: "pod_name \<Rightarrow> string" where
  "full_key n = snd n @ CHR ''_'' # fst n"

lemma GetPodFullName_key: "GetPodFullName pod = full_key (pod_id pod)"
  by (simp add: GetPodFullName_def full_key_def pod_id_def)

lemma heap_key_inj: "valid_id m \<Longrightarrow> valid_id n \<Longrightarrow> heap_key m = heap_key n \<longleftrightarrow> m = n"
proof
  assume v: "valid_id m" "valid_id n" and eq: "heap_key m = heap_key n"
  have "fst m = [] \<longleftrightarrow> fst n = []"
    using v eq by (auto simp: heap_key_def valid_id_def split: if_splits) (metis in_set_conv_decomp)+
  then show "m = n"
    using v eq append_delim_inj [of "fst m" "CHR ''/''" "snd m" "fst n" "snd n"]
    by (auto simp: heap_key_def valid_id_def prod_eq_iff split: if_splits)
qed simp

lemma full_key_inj: "valid_id m \<Longrightarrow> valid_id n \<Longrightarrow> full_key m = full_key n \<longleftrightarrow> m = n"
  using append_delim_inj [of "snd m" "CHR ''_''" "fst m" "snd n" "fst n"]
  by (auto simp: full_key_def valid_id_def prod_eq_iff)

subsection \<open>A heap of pods\<close>

abbreviation hview :: "QueuedPodInfo Heap \<Rightarrow> string \<Rightarrow> QueuedPodInfo option" where
  "hview h \<equiv> contents (h_data h)"

abbreviation qid :: "QueuedPodInfo \<Rightarrow> pod_name" where
  "qid i \<equiv> pod_id (qp_Pod i)"

definition heap_ok :: "(Pod \<Rightarrow> error + string) \<Rightarrow> (QueuedPodInfo \<Rightarrow> QueuedPodInfo \<Rightarrow> bool) \<Rightarrow> QueuedPodInfo Heap \<Rightarrow> bool" where
  "heap_ok metaKey lt h \<longleftrightarrow> meta_key_doc metaKey \<and> heap_inv h \<and> keyFunc (h_data h) = podInfoKeyFunc metaKey \<and>
     lessFunc (h_data h) = lt \<and> (\<forall>k i. hview h k = Some i \<longrightarrow> valid_id (qid i)) \<and> metricRecorder h \<noteq> None"

lemma heap_ok_key: "heap_ok mk lt h \<Longrightarrow> keyFunc (h_data h) i = Inr (heap_key (qid i))"
  by (simp add: heap_ok_def podInfoKeyFunc_def meta_key_doc_def)

lemma heap_ok_keyed: "heap_ok mk lt h \<Longrightarrow> hview h k = Some i \<Longrightarrow> k = heap_key (qid i) \<and> valid_id (qid i)"
  using hq.view_keyed [of h k i] heap_ok_key [of mk lt h i] by (simp add: heap_ok_def)

lemma heap_ok_lookup: "heap_ok mk lt h \<Longrightarrow> heap_lookup h i = hview h (heap_key (qid i))"
  using hs.lookup_law [of h i] heap_ok_key [of mk lt h i] by (simp add: heap_ok_def heap_lookup_def)

lemma Heap_Add_rec: "Heap_Add h x = Some (h', e) \<Longrightarrow> metricRecorder h' = None \<longleftrightarrow> metricRecorder h = None"
  by (auto simp: Heap_Add_def Heap_Inc_def split: sum.splits option.splits bind_splits)

lemma Heap_Delete_rec: "Heap_Delete h x = Some (h', e) \<Longrightarrow> metricRecorder h' = None \<longleftrightarrow> metricRecorder h = None"
  by (auto simp: Heap_Delete_def Heap_Dec_def split: sum.splits option.splits bind_splits)

lemma Heap_Pop_rec: "Heap_Pop h = Some (r, h') \<Longrightarrow> metricRecorder h' = None \<longleftrightarrow> metricRecorder h = None"
  by (auto simp: Heap_Pop_def Heap_Dec_def split: sum.splits option.splits bind_splits)

lemma heap_ok_add:
  assumes ok: "heap_ok mk lt h" and n: "valid_id (qid i)"
  shows "\<exists>h'. Heap_Add h i = Some (h', None) \<and> heap_ok mk lt h' \<and> hview h' = (hview h)(heap_key (qid i) \<mapsto> i)"
proof -
  obtain h' where h': "Heap_Add h i = Some (h', None)" "heap_inv h'" "hview h' = (hview h)(heap_key (qid i) \<mapsto> i)"
      "keyFunc (h_data h') = keyFunc (h_data h)" "lessFunc (h_data h') = lessFunc (h_data h)"
    using hq.add_law [of h i, OF _ heap_ok_key [OF ok]] ok by (auto simp: heap_ok_def)
  with ok n Heap_Add_rec [OF h'(1)] show ?thesis by (auto simp: heap_ok_def)
qed

lemma heap_ok_delete:
  assumes ok: "heap_ok mk lt h"
  shows "\<exists>h' e. Heap_Delete h i = Some (h', e) \<and> (e = None \<longleftrightarrow> hview h (heap_key (qid i)) \<noteq> None) \<and>
    heap_ok mk lt h' \<and> hview h' = (hview h)(heap_key (qid i) := None)"
proof -
  obtain h' e where h': "Heap_Delete h i = Some (h', e)" "e = None \<longleftrightarrow> hview h (heap_key (qid i)) \<noteq> None" "heap_inv h'"
      "hview h' = (hview h)(heap_key (qid i) := None)"
      "keyFunc (h_data h') = keyFunc (h_data h)" "lessFunc (h_data h') = lessFunc (h_data h)"
    using hs.delete_any [of h i, OF _ heap_ok_key [OF ok]] ok unfolding heap_ok_def by blast
  with ok Heap_Delete_rec [OF h'(1)] show ?thesis by (auto simp: heap_ok_def split: if_splits)
qed

lemma heap_ok_pop:
  assumes ok: "heap_ok mk lt h" and ne: "hview h \<noteq> Map.empty"
  shows "\<exists>i h'. Heap_Pop h = Some (Inr i, h') \<and> Heap_Peek h = Some (Some i) \<and>
    hview h (heap_key (qid i)) = Some i \<and> (\<forall>k j. hview h k = Some j \<longrightarrow> \<not> lt j i) \<and>
    heap_ok mk lt h' \<and> hview h' = (hview h)(heap_key (qid i) := None)"
proof -
  have inv: "heap_inv h" "lessFunc (h_data h) = lt" using ok by (simp_all add: heap_ok_def)
  obtain i k h' where h': "Heap_Pop h = Some (Inr i, h')" "hview h k = Some i"
      "\<forall>y\<in>ran (hview h). \<not> lessFunc (h_data h) y i" "heap_inv h'" "hview h' = (hview h)(k := None)"
      "keyFunc (h_data h') = keyFunc (h_data h)" "lessFunc (h_data h') = lessFunc (h_data h)"
    using hq.pop_law [OF inv(1) ne] by blast
  have k: "k = heap_key (qid i)" using heap_ok_keyed [OF ok h'(2)] by simp
  have "heap_ok mk lt h'" using ok h' Heap_Pop_rec [OF h'(1)] by (auto simp: heap_ok_def split: if_splits)
  moreover have "\<forall>k j. hview h k = Some j \<longrightarrow> \<not> lt j i" using h'(3) inv(2) by (auto simp: ran_def)
  ultimately show ?thesis using h' k hs.peek_pop [OF inv(1) h'(1)] by blast
qed

lemma heap_ok_len: "heap_ok mk lt h \<Longrightarrow> Heap_Len h = 0 \<longleftrightarrow> hview h = Map.empty"
  by (auto simp: heap_ok_def Heap_Len_card card_eq_0_iff)

subsection \<open>The map of unschedulable pods\<close>

abbreviation uview :: "UnschedulablePodsMap \<Rightarrow> string \<Rightarrow> QueuedPodInfo option" where
  "uview u \<equiv> gm_get (podInfoMap u)"

definition un_ok :: "UnschedulablePodsMap \<Rightarrow> bool" where
  "un_ok u \<longleftrightarrow> gm_ok (podInfoMap u) \<and> up_keyFunc u = GetPodFullName \<and>
     (\<forall>k i. uview u k = Some i \<longrightarrow> k = full_key (qid i) \<and> valid_id (qid i)) \<and>
     up_metricRecorder u = Some (int (length (podInfoMap u)))"

lemma un_ok_get: "un_ok u \<Longrightarrow> up_get u pod = uview u (full_key (pod_id pod))"
  by (simp add: un_ok_def up_get_def GetPodFullName_key)

lemma un_ok_add: "un_ok u \<Longrightarrow> valid_id (qid i) \<Longrightarrow>
    un_ok (up_addOrUpdate u i) \<and> uview (up_addOrUpdate u i) = (uview u)(full_key (qid i) \<mapsto> i)"
  by (auto simp: un_ok_def up_addOrUpdate_def Let_def GetPodFullName_key gm_len_put gm_has_def gm_get_put_map
      split: if_splits)

lemma un_ok_delete: "un_ok u \<Longrightarrow>
    un_ok (up_delete u pod) \<and> uview (up_delete u pod) = (uview u)(full_key (pod_id pod) := None)"
proof -
  assume ok: "un_ok u"
  have "int (length (podInfoMap u)) - 1 = int (length (podInfoMap u) - Suc 0)" if "gm_get (podInfoMap u) k = Some v" for k v
    using that by (cases "podInfoMap u") auto
  with ok show ?thesis
    by (auto simp: un_ok_def up_delete_def Let_def GetPodFullName_key gm_len_del gm_has_def gm_get_del_map
      split: if_splits)
qed

subsection \<open>The abstract queue\<close>

datatype place = Active | Backoff | Unsched

type_synonym places = "pod_name \<Rightarrow> (place \<times> QueuedPodInfo) option"

definition pick :: "'i option \<Rightarrow> 'i option \<Rightarrow> 'i option \<Rightarrow> (place \<times> 'i) option" where
  "pick a b u = (case a of Some i \<Rightarrow> Some (Active, i) | None \<Rightarrow>
     (case b of Some i \<Rightarrow> Some (Backoff, i) | None \<Rightarrow> map_option (Pair Unsched) u))"

definition alone :: "'i option \<Rightarrow> 'i option \<Rightarrow> 'i option \<Rightarrow> bool" where
  "alone a b u \<longleftrightarrow> (a = None \<or> b = None) \<and> (u = None \<or> a = None \<and> b = None)"

definition pods_abs :: "PriorityQueue \<Rightarrow> places" where
  "pods_abs p n = (if valid_id n then
     pick (hview (activeQ p) (heap_key n)) (hview (podBackoffQ p) (heap_key n))
       (uview (unschedulableQ p) (full_key n)) else None)"

definition exclusive :: "PriorityQueue \<Rightarrow> bool" where
  "exclusive p \<longleftrightarrow> (\<forall>n. valid_id n \<longrightarrow>
     alone (hview (activeQ p) (heap_key n)) (hview (podBackoffQ p) (heap_key n))
       (uview (unschedulableQ p) (full_key n)))"

definition pq_inv :: "(Pod \<Rightarrow> error + string) \<Rightarrow> (QueuedPodInfo \<Rightarrow> QueuedPodInfo \<Rightarrow> bool) \<Rightarrow> PriorityQueue \<Rightarrow> bool" where
  "pq_inv metaKey lt p \<longleftrightarrow> heap_ok metaKey lt (activeQ p) \<and>
     heap_ok metaKey (podsCompareBackoffCompleted (pq_podInitialBackoffDuration p) (pq_podMaxBackoffDuration p)) (podBackoffQ p) \<and>
     un_ok (unschedulableQ p) \<and> exclusive p"

text \<open>What a client can see of the queue, beside the nominations.\<close>

record qview =
  v_pods :: places
  v_cycle :: int
  v_move :: int
  v_closed :: bool
  v_initial :: int
  v_max :: int

definition qabs :: "PriorityQueue \<Rightarrow> qview" where
  "qabs p = \<lparr>v_pods = pods_abs p, v_cycle = schedulingCycle p, v_move = moveRequestCycle p, v_closed = pq_closed p,
     v_initial = pq_podInitialBackoffDuration p, v_max = pq_podMaxBackoffDuration p\<rparr>"

datatype q_event = QAdd int Pod | QFail int QueuedPodInfo int | QFlushBackoff "nat \<Rightarrow> int"
  | QFlushLeftover int "nat \<Rightarrow> int" | QPop | QUpdate int Pod Pod | QDelete Pod | QMoveAll "nat \<Rightarrow> int"
  | QAssignedAdd as_selector "nat \<Rightarrow> int" Pod | QAssignedUpdate as_selector "nat \<Rightarrow> int" Pod | QClose

datatype q_result = Done "error option" | Next pop_result

fun run_q :: "q_event \<Rightarrow> PriorityQueue \<Rightarrow> (PriorityQueue \<times> q_result) option" where
  "run_q (QAdd now pod) p = do { (p', e) \<leftarrow> PQ_Add now p pod; Some (p', Done e) }"
| "run_q (QFail now pInfo cycle) p =
    do { (p', pInfo', e) \<leftarrow> AddUnschedulableIfNotPresent now p pInfo cycle; Some (p', Done e) }"
| "run_q (QFlushBackoff clk) p = do { p' \<leftarrow> flushBackoffQCompleted clk p; Some (p', Done None) }"
| "run_q (QFlushLeftover now clk) p = do { p' \<leftarrow> flushUnschedulableQLeftover now clk p; Some (p', Done None) }"
| "run_q QPop p = do { (r, p') \<leftarrow> PQ_Pop p; Some (p', Next r) }"
| "run_q (QUpdate now old new) p = do { (p', e) \<leftarrow> PQ_Update now p (Some old) new; Some (p', Done e) }"
| "run_q (QDelete pod) p = do { (p', e) \<leftarrow> PQ_Delete p pod; Some (p', Done e) }"
| "run_q (QMoveAll clk) p = do { p' \<leftarrow> MoveAllToActiveOrBackoffQueue clk p; Some (p', Done None) }"
| "run_q (QAssignedAdd asSel clk pod) p = do { p' \<leftarrow> AssignedPodAdded asSel clk p pod; Some (p', Done None) }"
| "run_q (QAssignedUpdate asSel clk pod) p = do { p' \<leftarrow> AssignedPodUpdated asSel clk p pod; Some (p', Done None) }"
| "run_q QClose p = do { p' \<leftarrow> PQ_Close p; Some (p', Done None) }"

text \<open>
  The specification, as a relation between what is seen before and after. A clock that is read in
  a loop makes the outcome depend on the readings; with a clock that stands still the pods that
  back off and those that do not are determined.
\<close>

definition backing :: "qview \<Rightarrow> QueuedPodInfo \<Rightarrow> int \<Rightarrow> bool" where
  "backing v i t \<longleftrightarrow> t < backoffTime (v_initial v) (v_max v) i"

definition moved :: "(QueuedPodInfo \<Rightarrow> bool) \<Rightarrow> (nat \<Rightarrow> int) \<Rightarrow> qview \<Rightarrow> qview \<Rightarrow> bool" where
  "moved S clk v v' \<longleftrightarrow> (\<exists>P. v' = v\<lparr>v_pods := P, v_move := v_cycle v\<rparr> \<and>
     (\<forall>n. case v_pods v n of
        Some (Unsched, i) \<Rightarrow>
          if S i then \<exists>m. P n = Some (if backing v i (clk m) then Backoff else Active, i) else P n = v_pods v n
      | _ \<Rightarrow> P n = v_pods v n))"

definition wants :: "as_selector \<Rightarrow> Pod \<Rightarrow> QueuedPodInfo \<Rightarrow> bool" where
  "wants asSel pod i \<longleftrightarrow> (\<exists>t\<in>set (GetPodAffinityTerms (pod_Affinity (qp_Pod i))). \<exists>sel.
     asSel (pat_LabelSelector t) = Inr sel \<and> sel (pod_Labels pod) \<and>
     pod_Namespace pod \<in> set (GetNamespacesFromPodAffinityTerm (qp_Pod i) t))"

definition updated :: "int \<Rightarrow> Pod \<Rightarrow> Pod \<Rightarrow> (place \<times> QueuedPodInfo) option \<Rightarrow> place \<times> QueuedPodInfo" where
  "updated now old new x = (case x of
     None \<Rightarrow> (Active, newQueuedPodInfo now new)
   | Some (Unsched, i) \<Rightarrow> (if isPodUpdated old new then Active else Unsched, i\<lparr>qp_Pod := new\<rparr>)
   | Some (_, i) \<Rightarrow> (Active, i\<lparr>qp_Pod := new\<rparr>))"

fun spec_q :: "(QueuedPodInfo \<Rightarrow> QueuedPodInfo \<Rightarrow> bool) \<Rightarrow> q_event \<Rightarrow> qview \<Rightarrow> q_result \<Rightarrow> qview \<Rightarrow> bool" where
  "spec_q lt (QAdd now pod) v r v' \<longleftrightarrow> r = Done None \<and>
     v' = v\<lparr>v_pods := (v_pods v)(pod_id pod \<mapsto> (Active, newQueuedPodInfo now pod))\<rparr>"
| "spec_q lt (QFail now pInfo cycle) v r v' \<longleftrightarrow>
     (if v_pods v (qid pInfo) \<noteq> None then (\<exists>e. r = Done (Some e)) \<and> v' = v
      else r = Done None \<and> v' = v\<lparr>v_pods := (v_pods v)(qid pInfo \<mapsto>
        (if v_move v \<ge> cycle then Backoff else Unsched, pInfo\<lparr>qp_Timestamp := now\<rparr>))\<rparr>)"
| "spec_q lt (QFlushBackoff clk) v r v' \<longleftrightarrow> r = Done None \<and> (\<exists>P m. v' = v\<lparr>v_pods := P\<rparr> \<and>
     (\<forall>n. case v_pods v n of
        Some (Backoff, i) \<Rightarrow> P n = Some (Active, i) \<and> (\<exists>l\<le>m. \<not> backing v i (clk l)) \<or>
          P n = Some (Backoff, i) \<and> backing v i (clk m)
      | _ \<Rightarrow> P n = v_pods v n))"
| "spec_q lt (QFlushLeftover now clk) v r v' \<longleftrightarrow> r = Done None \<and>
     (if \<exists>n i. v_pods v n = Some (Unsched, i) \<and> now - qp_Timestamp i > unschedulableQTimeInterval
      then moved (\<lambda>i. now - qp_Timestamp i > unschedulableQTimeInterval) clk v v' else v' = v)"
| "spec_q lt QPop v r v' \<longleftrightarrow>
     (if \<forall>n i. v_pods v n \<noteq> Some (Active, i)
      then r = Next (if v_closed v then PopError queueClosed else Blocked) \<and> v' = v
      else \<exists>n i. v_pods v n = Some (Active, i) \<and> (\<forall>m j. v_pods v m = Some (Active, j) \<longrightarrow> \<not> lt j i) \<and>
        r = Next (Popped (i\<lparr>qp_Attempts := i64 (qp_Attempts i + 1)\<rparr>)) \<and>
        v' = v\<lparr>v_pods := (v_pods v)(n := None), v_cycle := i64 (v_cycle v + 1)\<rparr>)"
| "spec_q lt (QUpdate now old new) v r v' \<longleftrightarrow> r = Done None \<and>
     v' = v\<lparr>v_pods := (v_pods v)(pod_id new \<mapsto> updated now old new (v_pods v (pod_id new)))\<rparr>"
| "spec_q lt (QDelete pod) v r v' \<longleftrightarrow> r = Done None \<and> v' = v\<lparr>v_pods := (v_pods v)(pod_id pod := None)\<rparr>"
| "spec_q lt (QMoveAll clk) v r v' \<longleftrightarrow> r = Done None \<and> moved (\<lambda>_. True) clk v v'"
| "spec_q lt (QAssignedAdd asSel clk pod) v r v' \<longleftrightarrow> r = Done None \<and> moved (wants asSel pod) clk v v'"
| "spec_q lt (QAssignedUpdate asSel clk pod) v r v' \<longleftrightarrow> r = Done None \<and> moved (wants asSel pod) clk v v'"
| "spec_q lt QClose v r v' \<longleftrightarrow> r = Done None \<and> v' = v\<lparr>v_closed := True\<rparr>"

text \<open>
  What the callers guarantee: pods have admissible names, an update is of one pod, label
  selectors are well-formed, and the queue is closed once.
\<close>

fun q_event_ok :: "PriorityQueue \<Rightarrow> q_event \<Rightarrow> bool" where
  "q_event_ok p (QAdd now pod) \<longleftrightarrow> named pod"
| "q_event_ok p (QFail now pInfo cycle) \<longleftrightarrow> named (qp_Pod pInfo)"
| "q_event_ok p (QUpdate now old new) \<longleftrightarrow> named new \<and> pod_id old = pod_id new"
| "q_event_ok p (QDelete pod) \<longleftrightarrow> named pod"
| "q_event_ok p (QAssignedAdd asSel clk pod) \<longleftrightarrow> (\<forall>s. \<exists>sel. asSel s = Inr sel)"
| "q_event_ok p (QAssignedUpdate asSel clk pod) \<longleftrightarrow> (\<forall>s. \<exists>sel. asSel s = Inr sel)"
| "q_event_ok p QClose \<longleftrightarrow> \<not> pq_closed p"
| "q_event_ok p _ \<longleftrightarrow> True"

subsection \<open>Changing the place of one pod\<close>

lemma exclusiveD: "exclusive p \<Longrightarrow> valid_id n \<Longrightarrow>
    alone (hview (activeQ p) (heap_key n)) (hview (podBackoffQ p) (heap_key n)) (uview (unschedulableQ p) (full_key n))"
  unfolding exclusive_def by blast

lemma change_one:
  assumes ex: "exclusive p" and n: "valid_id n"
    and a: "hview (activeQ p') = (hview (activeQ p))(heap_key n := a)"
    and b: "hview (podBackoffQ p') = (hview (podBackoffQ p))(heap_key n := b)"
    and u: "uview (unschedulableQ p') = (uview (unschedulableQ p))(full_key n := u)"
    and al: "alone a b u"
  shows "exclusive p' \<and> pods_abs p' = (pods_abs p)(n := pick a b u)"
proof -
  have "exclusive p'"
    using ex n al heap_key_inj full_key_inj unfolding exclusive_def a b u by auto
  moreover have "pods_abs p' m = ((pods_abs p)(n := pick a b u)) m" for m
    using n heap_key_inj [of m n] full_key_inj [of m n] unfolding pods_abs_def a b u by auto
  ultimately show ?thesis by blast
qed

lemma pods_abs_upd [simp]:
  "pods_abs (p\<lparr>moveRequestCycle := x\<rparr>) = pods_abs p" "pods_abs (p\<lparr>pq_closed := c\<rparr>) = pods_abs p"
  by (simp_all add: pods_abs_def fun_eq_iff)

lemma v_pods_qabs: "v_pods (qabs p) = pods_abs p"
  by (simp add: qabs_def)

lemma pick_simps [simp]:
  "pick (Some i) b u = Some (Active, i)" "pick None (Some i) u = Some (Backoff, i)"
  "pick None None (Some i) = Some (Unsched, i)" "pick None None None = None"
  by (simp_all add: pick_def)

lemma alone_simps [simp]: "alone a None None" "alone None b None" "alone None None u"
  by (simp_all add: alone_def)

lemma pods_abs_eq_Some:
  assumes inv: "pq_inv mk lt p"
  shows "pods_abs p n = Some (Active, i) \<longleftrightarrow> valid_id n \<and> hview (activeQ p) (heap_key n) = Some i"
    and "pods_abs p n = Some (Backoff, i) \<longleftrightarrow> valid_id n \<and> hview (podBackoffQ p) (heap_key n) = Some i"
    and "pods_abs p n = Some (Unsched, i) \<longleftrightarrow> valid_id n \<and> uview (unschedulableQ p) (full_key n) = Some i"
proof -
  have "valid_id n \<Longrightarrow> alone (hview (activeQ p) (heap_key n)) (hview (podBackoffQ p) (heap_key n))
       (uview (unschedulableQ p) (full_key n))"
    using inv exclusiveD by (simp add: pq_inv_def)
  then show "pods_abs p n = Some (Active, i) \<longleftrightarrow> valid_id n \<and> hview (activeQ p) (heap_key n) = Some i"
    "pods_abs p n = Some (Backoff, i) \<longleftrightarrow> valid_id n \<and> hview (podBackoffQ p) (heap_key n) = Some i"
    "pods_abs p n = Some (Unsched, i) \<longleftrightarrow> valid_id n \<and> uview (unschedulableQ p) (full_key n) = Some i"
    by (auto simp: pods_abs_def pick_def alone_def split: option.splits)
qed

lemma pods_abs_None: "valid_id n \<Longrightarrow> pods_abs p n = None \<longleftrightarrow> hview (activeQ p) (heap_key n) = None \<and>
    hview (podBackoffQ p) (heap_key n) = None \<and> uview (unschedulableQ p) (full_key n) = None"
  by (auto simp: pods_abs_def pick_def split: option.splits)

text \<open>The information stored for a pod is of that pod.\<close>

lemma pods_abs_id:
  assumes inv: "pq_inv mk lt p" and s: "pods_abs p n = Some (pl, i)"
  shows "qid i = n \<and> valid_id n"
proof -
  have v: "valid_id n" using s by (simp add: pods_abs_def split: if_splits)
  have h: "heap_ok mk lt (activeQ p)" "un_ok (unschedulableQ p)"
    "heap_ok mk (podsCompareBackoffCompleted (pq_podInitialBackoffDuration p) (pq_podMaxBackoffDuration p)) (podBackoffQ p)"
    using inv by (simp_all add: pq_inv_def)
  show ?thesis
  proof (cases pl)
    case Active
    with s v heap_ok_keyed [OF h(1), of "heap_key n" i] heap_key_inj [of n "qid i"] show ?thesis
      by (auto simp: pods_abs_eq_Some [OF inv])
  next
    case Backoff
    with s v heap_ok_keyed [OF h(3), of "heap_key n" i] heap_key_inj [of n "qid i"] show ?thesis
      by (auto simp: pods_abs_eq_Some [OF inv])
  next
    case Unsched
    with s v h(2) full_key_inj [of n "qid i"] show ?thesis by (auto simp: pods_abs_eq_Some [OF inv] un_ok_def)
  qed
qed

lemma pq_inv_parts:
  assumes "pq_inv mk lt p"
  shows "heap_ok mk lt (activeQ p)" "un_ok (unschedulableQ p)" "exclusive p"
    "heap_ok mk (podsCompareBackoffCompleted (pq_podInitialBackoffDuration p) (pq_podMaxBackoffDuration p)) (podBackoffQ p)"
  using assms by (simp_all add: pq_inv_def)

text \<open>An operation implements its specification: it returns, keeps the invariant, and does what is specified.\<close>

definition q_implements :: "(Pod \<Rightarrow> error + string) \<Rightarrow> (QueuedPodInfo \<Rightarrow> QueuedPodInfo \<Rightarrow> bool) \<Rightarrow> q_event \<Rightarrow> PriorityQueue \<Rightarrow> bool" where
  "q_implements mk lt ev p \<longleftrightarrow>
     (\<exists>p' r. run_q ev p = Some (p', r) \<and> pq_inv mk lt p' \<and> spec_q lt ev (qabs p) r (qabs p'))"

lemma q_implementsI:
  "run_q ev p = Some (p', r) \<Longrightarrow> pq_inv mk lt p' \<Longrightarrow> spec_q lt ev (qabs p) r (qabs p') \<Longrightarrow> q_implements mk lt ev p"
  by (auto simp: q_implements_def)

subsection \<open>Adding, failing, deleting and taking a pod\<close>

lemma qid_new [simp]: "qp_Pod (newQueuedPodInfo now pod) = pod" "qp_Pod (newQueuedPodInfoNoTimestamp pod) = pod"
  by (simp_all add: newQueuedPodInfo_def newQueuedPodInfoNoTimestamp_def)

lemma Add_implements:
  assumes inv: "pq_inv mk lt p" and n: "named pod"
  shows "q_implements mk lt (QAdd now pod) p"
proof -
  note P = pq_inv_parts [OF inv]
  let ?i = "newQueuedPodInfo now pod" and ?n = "pod_id pod"
  obtain a where a: "Heap_Add (activeQ p) ?i = Some (a, None)" "heap_ok mk lt a"
      "hview a = (hview (activeQ p))(heap_key ?n \<mapsto> ?i)"
    using heap_ok_add [OF P(1), of ?i] n by auto
  obtain b e where b: "Heap_Delete (podBackoffQ p) ?i = Some (b, e)"
      "heap_ok mk (podsCompareBackoffCompleted (pq_podInitialBackoffDuration p) (pq_podMaxBackoffDuration p)) b"
      "hview b = (hview (podBackoffQ p))(heap_key ?n := None)"
    using heap_ok_delete [OF P(4), of ?i] by auto
  let ?u = "if up_get (unschedulableQ p) pod \<noteq> None then up_delete (unschedulableQ p) pod else unschedulableQ p"
  have u: "un_ok ?u \<and> uview ?u = (uview (unschedulableQ p))(full_key ?n := None)"
    using un_ok_delete [OF P(2), of pod] P(2) by (auto simp: un_ok_get fun_upd_idem)
  let ?p = "p\<lparr>activeQ := a, unschedulableQ := ?u, podBackoffQ := b,
    pq_PodNominator := AddNominatedPod (pq_PodNominator p) pod []\<rparr>"
  have c: "exclusive ?p \<and> pods_abs ?p = (pods_abs p)(?n := pick (Some ?i) None None)"
    using a b u n P(3) by (intro change_one [of p ?n]) simp_all
  show ?thesis
  proof (rule q_implementsI)
    show "run_q (QAdd now pod) p = Some (?p, Done None)" using a(1) b(1) by (simp add: PQ_Add_def Let_def)
    show "pq_inv mk lt ?p" using a b u c by (simp add: pq_inv_def)
    show "spec_q lt (QAdd now pod) (qabs p) (Done None) (qabs ?p)" using c by (simp add: qabs_def)
  qed
qed

lemma Fail_implements:
  assumes inv: "pq_inv mk lt p" and n: "named (qp_Pod i)"
  shows "q_implements mk lt (QFail now i cyc) p"
proof -
  note P = pq_inv_parts [OF inv]
  let ?i = "i\<lparr>qp_Timestamp := now\<rparr>" and ?n = "qid i"
  show ?thesis
  proof (cases "pods_abs p ?n")
    case (Some x)
    then have "\<exists>e i'. AddUnschedulableIfNotPresent now p i cyc = Some (p, i', Some e)"
      using P pods_abs_None [OF n, of p]
      by (auto simp: AddUnschedulableIfNotPresent_def Let_def un_ok_get heap_ok_lookup)
    with Some inv show ?thesis by (auto simp: q_implements_def qabs_def)
  next
    case None
    then have ab: "hview (activeQ p) (heap_key ?n) = None" "hview (podBackoffQ p) (heap_key ?n) = None"
        "uview (unschedulableQ p) (full_key ?n) = None"
      using pods_abs_None [OF n] by auto
    show ?thesis
    proof (cases "moveRequestCycle p \<ge> cyc")
      case True
      obtain b where b: "Heap_Add (podBackoffQ p) ?i = Some (b, None)"
          "heap_ok mk (podsCompareBackoffCompleted (pq_podInitialBackoffDuration p) (pq_podMaxBackoffDuration p)) b"
          "hview b = (hview (podBackoffQ p))(heap_key ?n \<mapsto> ?i)"
        using heap_ok_add [OF P(4), of ?i] n by auto
      let ?p = "p\<lparr>podBackoffQ := b, pq_PodNominator := AddNominatedPod (pq_PodNominator p) (qp_Pod i) []\<rparr>"
      have c: "exclusive ?p \<and> pods_abs ?p = (pods_abs p)(?n := pick None (Some ?i) None)"
        using b ab n P(3) by (intro change_one [of p ?n]) (simp_all add: fun_upd_idem)
      show ?thesis
      proof (rule q_implementsI)
        show "run_q (QFail now i cyc) p = Some (?p, Done None)"
          using b(1) ab True P by (simp add: AddUnschedulableIfNotPresent_def Let_def un_ok_get heap_ok_lookup)
        show "pq_inv mk lt ?p" using b P c by (simp add: pq_inv_def)
        show "spec_q lt (QFail now i cyc) (qabs p) (Done None) (qabs ?p)" using c None True by (simp add: qabs_def)
      qed
    next
      case False
      let ?p = "p\<lparr>unschedulableQ := up_addOrUpdate (unschedulableQ p) ?i,
        pq_PodNominator := AddNominatedPod (pq_PodNominator p) (qp_Pod i) []\<rparr>"
      have u: "un_ok (unschedulableQ ?p)" "uview (unschedulableQ ?p) = (uview (unschedulableQ p))(full_key ?n \<mapsto> ?i)"
        using un_ok_add [OF P(2), of ?i] n by simp_all
      have c: "exclusive ?p \<and> pods_abs ?p = (pods_abs p)(?n := pick None None (Some ?i))"
        using u(2) ab n P(3) by (intro change_one [of p ?n]) (simp_all add: fun_upd_idem)
      show ?thesis
      proof (rule q_implementsI)
        show "run_q (QFail now i cyc) p = Some (?p, Done None)"
          using ab False P by (simp add: AddUnschedulableIfNotPresent_def Let_def un_ok_get heap_ok_lookup)
        show "pq_inv mk lt ?p" using u P c by (simp add: pq_inv_def)
        show "spec_q lt (QFail now i cyc) (qabs p) (Done None) (qabs ?p)" using c None False by (simp add: qabs_def)
      qed
    qed
  qed
qed

lemma Delete_implements:
  assumes inv: "pq_inv mk lt p" and n: "named pod"
  shows "q_implements mk lt (QDelete pod) p"
proof -
  note P = pq_inv_parts [OF inv]
  let ?i = "newQueuedPodInfoNoTimestamp pod" and ?n = "pod_id pod"
  let ?p0 = "p\<lparr>pq_PodNominator := DeleteNominatedPodIfExists (pq_PodNominator p) pod\<rparr>"
  obtain a e where a: "Heap_Delete (activeQ p) ?i = Some (a, e)" "heap_ok mk lt a"
      "hview a = (hview (activeQ p))(heap_key ?n := None)" "e = None \<longleftrightarrow> hview (activeQ p) (heap_key ?n) \<noteq> None"
    using heap_ok_delete [OF P(1), of ?i] by auto
  obtain b e' where b: "Heap_Delete (podBackoffQ p) ?i = Some (b, e')"
      "heap_ok mk (podsCompareBackoffCompleted (pq_podInitialBackoffDuration p) (pq_podMaxBackoffDuration p)) b"
      "hview b = (hview (podBackoffQ p))(heap_key ?n := None)"
    using heap_ok_delete [OF P(4), of ?i] by auto
  have u: "un_ok (up_delete (unschedulableQ p) pod)"
      "uview (up_delete (unschedulableQ p) pod) = (uview (unschedulableQ p))(full_key ?n := None)"
    using un_ok_delete [OF P(2), of pod] by auto
  let ?p = "if e = None then ?p0\<lparr>activeQ := a\<rparr> else ?p0\<lparr>activeQ := a, podBackoffQ := b,
    unschedulableQ := up_delete (unschedulableQ p) pod\<rparr>"
  have al: "alone (hview (activeQ p) (heap_key ?n)) (hview (podBackoffQ p) (heap_key ?n)) (uview (unschedulableQ p) (full_key ?n))"
    using P(3) n by (rule exclusiveD)
  have c: "exclusive ?p \<and> pods_abs ?p = (pods_abs p)(?n := pick None None None)"
    using a b u n al P(3) by (intro change_one [of p ?n]) (auto simp: alone_def fun_upd_idem)
  show ?thesis
  proof (rule q_implementsI)
    show "run_q (QDelete pod) p = Some (?p, Done None)" using a(1) b(1) by (cases e) (simp_all add: PQ_Delete_def Let_def)
    show "pq_inv mk lt ?p" using a b u c P by (auto simp: pq_inv_def)
    show "spec_q lt (QDelete pod) (qabs p) (Done None) (qabs ?p)" using c by (auto simp: qabs_def)
  qed
qed

lemma Pop_implements:
  assumes inv: "pq_inv mk lt p"
  shows "q_implements mk lt QPop p"
proof -
  note P = pq_inv_parts [OF inv]
  show ?thesis
  proof (cases "hview (activeQ p) = Map.empty")
    case True
    then have "\<forall>n i. pods_abs p n \<noteq> Some (Active, i)" by (simp add: pods_abs_eq_Some [OF inv])
    moreover have "Heap_Len (activeQ p) = 0" using True heap_ok_len [OF P(1)] by simp
    ultimately show ?thesis using inv by (simp add: q_implements_def PQ_Pop_def qabs_def)
  next
    case False
    obtain i a where a: "Heap_Pop (activeQ p) = Some (Inr i, a)" "hview (activeQ p) (heap_key (qid i)) = Some i"
        "\<forall>k j. hview (activeQ p) k = Some j \<longrightarrow> \<not> lt j i" "heap_ok mk lt a"
        "hview a = (hview (activeQ p))(heap_key (qid i) := None)"
      using heap_ok_pop [OF P(1) False] by blast
    let ?n = "qid i"
    let ?p = "p\<lparr>activeQ := a, schedulingCycle := i64 (schedulingCycle p + 1)\<rparr>"
    have v: "valid_id ?n" using heap_ok_keyed [OF P(1) a(2)] by simp
    have al: "alone (hview (activeQ p) (heap_key ?n)) (hview (podBackoffQ p) (heap_key ?n)) (uview (unschedulableQ p) (full_key ?n))"
      using P(3) v by (rule exclusiveD)
    have c: "exclusive ?p \<and> pods_abs ?p = (pods_abs p)(?n := pick None None None)"
      using a v al P(3) by (intro change_one [of p ?n]) (auto simp: alone_def fun_upd_idem)
    have i: "pods_abs p ?n = Some (Active, i)" using a(2) v by (simp add: pods_abs_eq_Some [OF inv])
    show ?thesis
    proof (rule q_implementsI)
      show "run_q QPop p = Some (?p, Next (Popped (i\<lparr>qp_Attempts := i64 (qp_Attempts i + 1)\<rparr>)))"
        using a(1) False heap_ok_len [OF P(1)] by (simp add: PQ_Pop_def)
      show "pq_inv mk lt ?p" using a c P by (simp add: pq_inv_def)
      have "\<forall>m j. pods_abs p m = Some (Active, j) \<longrightarrow> \<not> lt j i" using a(3) by (auto simp: pods_abs_eq_Some [OF inv])
      then show "spec_q lt QPop (qabs p) (Next (Popped (i\<lparr>qp_Attempts := i64 (qp_Attempts i + 1)\<rparr>))) (qabs ?p)"
        using c i by (auto simp: qabs_def intro!: exI [of _ ?n] exI [of _ i])
    qed
  qed
qed

subsection \<open>Updating a pod\<close>

text \<open>Writing the object in place before the heap is told makes no difference to the heap.\<close>

lemma write_then_add:
  assumes k: "keyFunc (h_data h) x = Inr k"
  shows "Heap_Add (h\<lparr>h_data := set_obj (h_data h) k x\<rparr>) x = Heap_Add h x"
proof (cases "gm_get (items (h_data h)) k")
  case None
  then show ?thesis by (simp add: set_obj_def)
next
  case (Some it)
  let ?d = "set_obj (h_data h) k x"
  have d: "gm_get (items ?d) k = Some (it\<lparr>hi_obj := x\<rparr>)" "keyFunc ?d = keyFunc (h_data h)"
    using Some by (simp_all add: set_obj_def)
  then have "set_obj ?d k x = ?d"
    by (simp add: set_obj_def gm_put_def gm_get_def update_triv)
  with d k Some show ?thesis by (simp add: Heap_Add_def)
qed

lemma Update_present:
  assumes inv: "pq_inv mk lt p" and n: "named new" "pod_id old = pod_id new"
    and x: "pods_abs p (pod_id new) = Some (pl, i)" and pl: "pl \<noteq> Unsched"
  shows "q_implements mk lt (QUpdate now old new) p"
proof -
  note P = pq_inv_parts [OF inv]
  let ?n = "pod_id new" and ?pr = "newQueuedPodInfoNoTimestamp old" and ?j = "queue_updatePod i new"
  have j: "qid ?j = ?n" "?j = i\<lparr>qp_Pod := new\<rparr>" by (simp_all add: queue_updatePod_def)
  have i: "qid i = ?n" using pods_abs_id [OF inv x] by simp
  obtain a where a: "Heap_Add (activeQ p) ?j = Some (a, None)" "heap_ok mk lt a"
      "hview a = (hview (activeQ p))(heap_key ?n \<mapsto> ?j)"
    using heap_ok_add [OF P(1), of ?j] n j by auto
  obtain b e where b: "Heap_Delete (podBackoffQ p) i = Some (b, e)"
      "heap_ok mk (podsCompareBackoffCompleted (pq_podInitialBackoffDuration p) (pq_podMaxBackoffDuration p)) b"
      "hview b = (hview (podBackoffQ p))(heap_key ?n := None)"
    using heap_ok_delete [OF P(4), of i] i by auto
  note al = exclusiveD [OF P(3) n(1)]
  let ?p1 = "p\<lparr>pq_PodNominator := UpdateNominatedPod (pq_PodNominator p) old new\<rparr>"
  show ?thesis
  proof (cases pl)
    case Active
    then have ac: "hview (activeQ p) (heap_key ?n) = Some i" using x by (simp add: pods_abs_eq_Some [OF inv])
    have w: "write_active ?p1 ?pr ?j =
        ?p1\<lparr>activeQ := (activeQ p)\<lparr>h_data := set_obj (h_data (activeQ p)) (heap_key ?n) ?j\<rparr>\<rparr>"
      using heap_ok_key [OF P(1), of ?pr] n by (simp add: write_active_def)
    have "Heap_Add (activeQ (write_active ?p1 ?pr ?j)) ?j = Some (a, None)"
      using w a(1) write_then_add [of "activeQ p" ?j "heap_key ?n"] heap_ok_key [OF P(1), of ?j] j by simp
    then have run: "run_q (QUpdate now old new) p = Some (?p1\<lparr>activeQ := a\<rparr>, Done None)"
      using ac n heap_ok_lookup [OF P(1), of ?pr] w by (simp add: PQ_Update_def Let_def Heap_Update_def)
    have c: "exclusive (?p1\<lparr>activeQ := a\<rparr>) \<and> pods_abs (?p1\<lparr>activeQ := a\<rparr>) = (pods_abs p)(?n := pick (Some ?j) None None)"
      using a n P(3) ac al by (intro change_one [of p ?n]) (auto simp: alone_def fun_upd_idem)
    show ?thesis
      using run a c P j x Active by (intro q_implementsI [OF run]) (auto simp: pq_inv_def qabs_def updated_def)
  next
    case Backoff
    then have bo: "hview (podBackoffQ p) (heap_key ?n) = Some i" using x by (simp add: pods_abs_eq_Some [OF inv])
    then have ac: "hview (activeQ p) (heap_key ?n) = None" using al by (auto simp: alone_def)
    let ?p = "?p1\<lparr>podBackoffQ := b, activeQ := a\<rparr>"
    have run: "run_q (QUpdate now old new) p = Some (?p, Done None)"
      using ac bo n a(1) b(1) heap_ok_lookup [OF P(1), of ?pr] heap_ok_lookup [OF P(4), of ?pr]
      by (simp add: PQ_Update_def Let_def)
    have c: "exclusive ?p \<and> pods_abs ?p = (pods_abs p)(?n := pick (Some ?j) None None)"
      using a b n P(3) bo al by (intro change_one [of p ?n]) (auto simp: alone_def fun_upd_idem)
    show ?thesis
      using run a b c P j x Backoff by (intro q_implementsI [OF run]) (auto simp: pq_inv_def qabs_def updated_def)
  qed (use pl in simp)
qed

lemma Update_absent:
  assumes inv: "pq_inv mk lt p" and n: "named new" "pod_id old = pod_id new"
    and x: "pods_abs p (pod_id new) = None \<or> (\<exists>i. pods_abs p (pod_id new) = Some (Unsched, i))"
  shows "q_implements mk lt (QUpdate now old new) p"
proof -
  note P = pq_inv_parts [OF inv]
  let ?n = "pod_id new" and ?pr = "newQueuedPodInfoNoTimestamp old"
  have no: "hview (activeQ p) (heap_key ?n) = None" "hview (podBackoffQ p) (heap_key ?n) = None"
    using x exclusiveD [OF P(3) n(1)] pods_abs_None [OF n(1), of p]
    by (auto simp: pods_abs_eq_Some [OF inv] alone_def)
  have run: "run_q (QUpdate now old new) p = do { (p', e) \<leftarrow> update_rest now p (Some old) new; Some (p', Done e) }"
    using no n heap_ok_lookup [OF P(1), of ?pr] heap_ok_lookup [OF P(4), of ?pr]
    by (simp add: PQ_Update_def Let_def)
  show ?thesis
  proof (cases "uview (unschedulableQ p) (full_key ?n)")
    case None
    let ?i = "newQueuedPodInfo now new"
    obtain a where a: "Heap_Add (activeQ p) ?i = Some (a, None)" "heap_ok mk lt a"
        "hview a = (hview (activeQ p))(heap_key ?n \<mapsto> ?i)"
      using heap_ok_add [OF P(1), of ?i] n by auto
    let ?p = "p\<lparr>activeQ := a, pq_PodNominator := AddNominatedPod (pq_PodNominator p) new []\<rparr>"
    have c: "exclusive ?p \<and> pods_abs ?p = (pods_abs p)(?n := pick (Some ?i) None None)"
      using a n P(3) None no by (intro change_one [of p ?n]) (auto simp: fun_upd_idem)
    have r: "run_q (QUpdate now old new) p = Some (?p, Done None)"
      using run None a(1) P(2) by (simp add: update_rest_def un_ok_get)
    have "pods_abs p ?n = None" using None no pods_abs_None [OF n(1)] by simp
    then show ?thesis
      using a c P by (intro q_implementsI [OF r]) (auto simp: pq_inv_def qabs_def updated_def)
  next
    case (Some i)
    let ?j = "queue_updatePod i new"
    have u0: "pods_abs p ?n = Some (Unsched, i)" using Some n by (simp add: pods_abs_eq_Some [OF inv])
    have i: "qid i = ?n" using pods_abs_id [OF inv u0] by simp
    have j: "qid ?j = ?n" "?j = i\<lparr>qp_Pod := new\<rparr>" by (simp_all add: queue_updatePod_def)
    let ?p1 = "p\<lparr>pq_PodNominator := UpdateNominatedPod (pq_PodNominator p) old new\<rparr>"
    show ?thesis
    proof (cases "isPodUpdated old new")
      case True
      obtain a where a: "Heap_Add (activeQ p) ?j = Some (a, None)" "heap_ok mk lt a"
          "hview a = (hview (activeQ p))(heap_key ?n \<mapsto> ?j)"
        using heap_ok_add [OF P(1), of ?j] n j by auto
      let ?p = "?p1\<lparr>unschedulableQ := up_delete (unschedulableQ p) (qp_Pod i), activeQ := a\<rparr>"
      have u: "un_ok (unschedulableQ ?p)" "uview (unschedulableQ ?p) = (uview (unschedulableQ p))(full_key ?n := None)"
        using un_ok_delete [OF P(2), of "qp_Pod i"] i by simp_all
      have c: "exclusive ?p \<and> pods_abs ?p = (pods_abs p)(?n := pick (Some ?j) None None)"
        using a u n P(3) no by (intro change_one [of p ?n]) (auto simp: fun_upd_idem)
      have r: "run_q (QUpdate now old new) p = Some (?p, Done None)"
        using run Some a(1) P(2) True by (simp add: update_rest_def un_ok_get Let_def)
      show ?thesis
        using a u c P j u0 True by (intro q_implementsI [OF r]) (auto simp: pq_inv_def qabs_def updated_def)
    next
      case False
      let ?p = "?p1\<lparr>unschedulableQ := up_addOrUpdate (unschedulableQ p) ?j\<rparr>"
      have u: "un_ok (unschedulableQ ?p)" "uview (unschedulableQ ?p) = (uview (unschedulableQ p))(full_key ?n \<mapsto> ?j)"
        using un_ok_add [OF P(2), of ?j] j n by simp_all
      have c: "exclusive ?p \<and> pods_abs ?p = (pods_abs p)(?n := pick None None (Some ?j))"
        using u n P(3) no by (intro change_one [of p ?n]) (auto simp: fun_upd_idem)
      have r: "run_q (QUpdate now old new) p = Some (?p, Done None)"
        using run Some P(2) False by (simp add: update_rest_def un_ok_get Let_def)
      show ?thesis
        using u c P j u0 False by (intro q_implementsI [OF r]) (auto simp: pq_inv_def qabs_def updated_def)
    qed
  qed
qed

lemma Update_implements:
  assumes "pq_inv mk lt p" "named new" "pod_id old = pod_id new"
  shows "q_implements mk lt (QUpdate now old new) p"
proof (cases "pods_abs p (pod_id new)")
  case None
  then show ?thesis using Update_absent [OF assms] by simp
next
  case (Some x)
  then show ?thesis
    using Update_absent [OF assms] Update_present [OF assms, of "fst x" "snd x"] by (cases x) auto
qed

subsection \<open>Moving pods out of the unschedulable map\<close>

lemma getBackoffTime_eq: "getBackoffTime p i = backoffTime (pq_podInitialBackoffDuration p) (pq_podMaxBackoffDuration p) i"
  by (simp add: getBackoffTime_def backoffTime_def calculateBackoffDuration_def Let_def)

lemma isPodBackingoff_eq: "isPodBackingoff p now i = backing (qabs p) i now"
  by (simp add: isPodBackingoff_def getBackoffTime_eq backing_def qabs_def Let_def)

lemma backing_pods [simp]: "backing (v\<lparr>v_pods := P\<rparr>) = backing v"
  by (simp add: backing_def fun_eq_iff)

abbreviation landing :: "qview \<Rightarrow> QueuedPodInfo \<Rightarrow> int \<Rightarrow> place \<times> QueuedPodInfo" where
  "landing v i t \<equiv> (if backing v i t then Backoff else Active, i)"

lemma move_pod_ok:
  assumes inv: "pq_inv mk lt p" and x: "pods_abs p (qid i) = Some (Unsched, i)"
  shows "\<exists>p'. move_pod t i p = Some p' \<and> pq_inv mk lt p' \<and>
    qabs p' = (qabs p)\<lparr>v_pods := (pods_abs p)(qid i \<mapsto> landing (qabs p) i t)\<rparr>"
proof -
  note P = pq_inv_parts [OF inv]
  let ?n = "qid i"
  have n: "valid_id ?n" using pods_abs_id [OF inv x] by simp
  have no: "hview (activeQ p) (heap_key ?n) = None" "hview (podBackoffQ p) (heap_key ?n) = None"
    using x exclusiveD [OF P(3) n] by (auto simp: pods_abs_eq_Some [OF inv] alone_def)
  let ?u = "up_delete (unschedulableQ p) (qp_Pod i)"
  have u: "un_ok ?u" "uview ?u = (uview (unschedulableQ p))(full_key ?n := None)"
    using un_ok_delete [OF P(2)] by blast+
  show ?thesis
  proof (cases "backing (qabs p) i t")
    case True
    obtain b where b: "Heap_Add (podBackoffQ p) i = Some (b, None)"
        "heap_ok mk (podsCompareBackoffCompleted (pq_podInitialBackoffDuration p) (pq_podMaxBackoffDuration p)) b"
        "hview b = (hview (podBackoffQ p))(heap_key ?n \<mapsto> i)"
      using heap_ok_add [OF P(4) n] by auto
    let ?p = "p\<lparr>podBackoffQ := b, unschedulableQ := ?u\<rparr>"
    have c: "exclusive ?p \<and> pods_abs ?p = (pods_abs p)(?n := pick None (Some i) None)"
      using b u n P(3) no by (intro change_one [of p ?n]) (auto simp: fun_upd_idem)
    have "move_pod t i p = Some ?p" using True b(1) by (simp add: move_pod_def isPodBackingoff_eq Let_def)
    with b u c P True show ?thesis by (simp add: pq_inv_def qabs_def)
  next
    case False
    obtain a where a: "Heap_Add (activeQ p) i = Some (a, None)" "heap_ok mk lt a"
        "hview a = (hview (activeQ p))(heap_key ?n \<mapsto> i)"
      using heap_ok_add [OF P(1) n] by auto
    let ?p = "p\<lparr>activeQ := a, unschedulableQ := ?u\<rparr>"
    have c: "exclusive ?p \<and> pods_abs ?p = (pods_abs p)(?n := pick (Some i) None None)"
      using a u n P(3) no by (intro change_one [of p ?n]) (auto simp: fun_upd_idem)
    have "move_pod t i p = Some ?p" using False a(1) by (simp add: move_pod_def isPodBackingoff_eq Let_def)
    with a u c P False show ?thesis by (simp add: pq_inv_def qabs_def)
  qed
qed

lemma move_loop_ok:
  "pq_inv mk lt p \<Longrightarrow> distinct (map qid l) \<Longrightarrow> \<forall>i\<in>set l. pods_abs p (qid i) = Some (Unsched, i) \<Longrightarrow>
    \<exists>p' P. move_loop clk k l p = Some p' \<and> pq_inv mk lt p' \<and> qabs p' = (qabs p)\<lparr>v_pods := P\<rparr> \<and>
      (\<forall>i\<in>set l. \<exists>m. P (qid i) = Some (landing (qabs p) i (clk m))) \<and>
      (\<forall>n. n \<notin> qid ` set l \<longrightarrow> P n = pods_abs p n)"
proof (induction l arbitrary: k p)
  case Nil
  then show ?case by (auto simp: qabs_def)
next
  case (Cons i l)
  have x: "pods_abs p (qid i) = Some (Unsched, i)" using Cons.prems by simp
  obtain p1 where p1: "move_pod (clk k) i p = Some p1" "pq_inv mk lt p1"
      "qabs p1 = (qabs p)\<lparr>v_pods := (pods_abs p)(qid i \<mapsto> landing (qabs p) i (clk k))\<rparr>"
    using move_pod_ok [OF Cons.prems(1) x] by blast
  have abs1: "pods_abs p1 = (pods_abs p)(qid i \<mapsto> landing (qabs p) i (clk k))"
    using arg_cong [OF p1(3), of v_pods] by (simp add: qabs_def)
  have "\<forall>j\<in>set l. pods_abs p1 (qid j) = Some (Unsched, j)" using Cons.prems abs1 by (auto simp: image_iff)
  then obtain p' P where p': "move_loop clk (Suc k) l p1 = Some p'" "pq_inv mk lt p'" "qabs p' = (qabs p1)\<lparr>v_pods := P\<rparr>"
      "\<forall>j\<in>set l. \<exists>m. P (qid j) = Some (landing (qabs p1) j (clk m))"
      "\<forall>n. n \<notin> qid ` set l \<longrightarrow> P n = pods_abs p1 n"
    using Cons.IH [OF p1(2), of "Suc k"] Cons.prems(2) by (elim exE conjE meta_impE) auto
  have "P (qid i) = Some (landing (qabs p) i (clk k))" using p'(5) abs1 Cons.prems(2) by auto
  then have "\<exists>m. P (qid i) = Some (landing (qabs p) i (clk m))" by blast
  moreover have "\<forall>j\<in>set l. \<exists>m. P (qid j) = Some (landing (qabs p) j (clk m))" using p'(4) p1(3) by simp
  moreover have "\<forall>n. n \<notin> qid ` set (i # l) \<longrightarrow> P n = pods_abs p n" using p'(5) abs1 by auto
  ultimately show ?case using p1(1) p' p1(3) by (intro exI [of _ p'] exI [of _ P]) simp
qed

lemma unsched_infos:
  assumes inv: "pq_inv mk lt p"
  shows "distinct (map qid (map snd (podInfoMap (unschedulableQ p))))"
    and "i \<in> set (map snd (podInfoMap (unschedulableQ p))) \<longleftrightarrow> pods_abs p (qid i) = Some (Unsched, i)"
proof -
  let ?m = "podInfoMap (unschedulableQ p)"
  have ok: "gm_ok ?m" "\<And>e. e \<in> set ?m \<Longrightarrow> fst e = full_key (qid (snd e)) \<and> valid_id (qid (snd e))"
    using pq_inv_parts(2) [OF inv] by (auto simp: un_ok_def gm_get_eq_Some)
  have "map fst ?m = map full_key (map qid (map snd ?m))" using ok(2) by auto
  then have "distinct (map full_key (map qid (map snd ?m)))" using ok(1) by (metis gm_ok_def)
  then show "distinct (map qid (map snd ?m))" by (simp only: distinct_map)
  have "i \<in> set (map snd ?m) \<longleftrightarrow> valid_id (qid i) \<and> (full_key (qid i), i) \<in> set ?m"
    using ok(2) by force
  then show "i \<in> set (map snd ?m) \<longleftrightarrow> pods_abs p (qid i) = Some (Unsched, i)"
    by (simp only: pods_abs_eq_Some [OF inv] gm_get_eq_Some [OF ok(1)])
qed

lemma movePods_ok:
  assumes inv: "pq_inv mk lt p" and l: "l = filter S (map snd (podInfoMap (unschedulableQ p)))"
  shows "\<exists>p'. movePodsToActiveOrBackoffQueue clk p l = Some p' \<and> pq_inv mk lt p' \<and> moved S clk (qabs p) (qabs p')"
proof -
  have d: "distinct (map qid l)" unfolding l by (rule distinct_map_filter [OF unsched_infos(1) [OF inv]])
  have s: "i \<in> set l \<longleftrightarrow> pods_abs p (qid i) = Some (Unsched, i) \<and> S i" for i
    using unsched_infos(2) [OF inv, of i] l by auto
  obtain p1 P where p1: "move_loop clk 0 l p = Some p1" "pq_inv mk lt p1" "qabs p1 = (qabs p)\<lparr>v_pods := P\<rparr>"
      "\<forall>i\<in>set l. \<exists>m. P (qid i) = Some (landing (qabs p) i (clk m))"
      "\<forall>n. n \<notin> qid ` set l \<longrightarrow> P n = pods_abs p n"
    using move_loop_ok [OF inv d] s by blast
  let ?p = "p1\<lparr>moveRequestCycle := schedulingCycle p1\<rparr>"
  have "pq_inv mk lt ?p" using p1(2) by (simp add: pq_inv_def exclusive_def)
  moreover have "qabs ?p = (qabs p)\<lparr>v_pods := P, v_move := v_cycle (qabs p)\<rparr>"
    using p1(3) by (simp add: qabs_def)
  moreover have "case v_pods (qabs p) n of
        Some (Unsched, i) \<Rightarrow>
          if S i then \<exists>m. P n = Some (landing (qabs p) i (clk m)) else P n = v_pods (qabs p) n
      | _ \<Rightarrow> P n = v_pods (qabs p) n" for n
  proof (cases "n \<in> qid ` set l")
    case True
    then obtain i where i: "i \<in> set l" "n = qid i" by blast
    then have "pods_abs p n = Some (Unsched, i)" "S i" using s by auto
    with i p1(4) show ?thesis by (simp add: v_pods_qabs)
  next
    case False
    moreover have "\<not> S i" if "pods_abs p n = Some (Unsched, i)" for i
      using that False s pods_abs_id [OF inv that] by auto
    ultimately show ?thesis using p1(5) by (auto simp: v_pods_qabs split: option.splits place.splits)
  qed
  ultimately have "moved S clk (qabs p) (qabs ?p) \<and> pq_inv mk lt ?p" unfolding moved_def by blast
  then show ?thesis using p1(1) by (auto simp: movePodsToActiveOrBackoffQueue_def)
qed

lemma MoveAll_implements: "pq_inv mk lt p \<Longrightarrow> q_implements mk lt (QMoveAll clk) p"
  using movePods_ok [of mk lt p _ "\<lambda>_. True" clk] by (auto simp: q_implements_def MoveAllToActiveOrBackoffQueue_def)

lemma Leftover_implements:
  assumes inv: "pq_inv mk lt p"
  shows "q_implements mk lt (QFlushLeftover now clk) p"
proof -
  let ?S = "\<lambda>i. now - qp_Timestamp i > unschedulableQTimeInterval"
  let ?l = "filter ?S (map snd (podInfoMap (unschedulableQ p)))"
  have "?l \<noteq> [] \<longleftrightarrow> (\<exists>i. pods_abs p (qid i) = Some (Unsched, i) \<and> ?S i)"
    unfolding filter_empty_conv unsched_infos(2) [OF inv, symmetric] by blast
  also have "\<dots> \<longleftrightarrow> (\<exists>n i. pods_abs p n = Some (Unsched, i) \<and> ?S i)"
    using pods_abs_id [OF inv] by metis
  finally have e: "?l \<noteq> [] \<longleftrightarrow> (\<exists>n i. v_pods (qabs p) n = Some (Unsched, i) \<and> ?S i)" by (simp add: qabs_def)
  show ?thesis
  proof (cases "?l = []")
    case True
    then show ?thesis using e inv by (auto simp: q_implements_def flushUnschedulableQLeftover_def Let_def)
  next
    case False
    obtain p' where p': "movePodsToActiveOrBackoffQueue clk p ?l = Some p'" "pq_inv mk lt p'" "moved ?S clk (qabs p) (qabs p')"
      using movePods_ok [OF inv refl, of clk ?S] by blast
    show ?thesis
    proof (rule q_implementsI [OF _ p'(2)])
      show "run_q (QFlushLeftover now clk) p = Some (p', Done None)"
        using p'(1) False by (simp add: flushUnschedulableQLeftover_def Let_def)
      show "spec_q lt (QFlushLeftover now clk) (qabs p) (Done None) (qabs p')" using e False p'(3) by simp
    qed
  qed
qed

text \<open>With well-formed selectors the search for matching terms returns, and finds what \<open>wants\<close> says.\<close>

lemma any_term_ok:
  assumes "\<forall>s. \<exists>sel. asSel s = Inr sel"
  shows "any_term asSel up pod ts = Some (\<exists>t\<in>set ts. \<exists>sel. asSel (pat_LabelSelector t) = Inr sel \<and>
    sel (pod_Labels pod) \<and> pod_Namespace pod \<in> set (GetNamespacesFromPodAffinityTerm up t))"
proof (induction ts)
  case (Cons t ts)
  obtain sel where sel: "asSel (pat_LabelSelector t) = Inr sel" using assms by blast
  have "term_matches asSel up pod t =
      Some (sel (pod_Labels pod) \<and> pod_Namespace pod \<in> set (GetNamespacesFromPodAffinityTerm up t))"
    by (auto simp: term_matches_def sel Let_def PodMatchesTermsNamespaceAndSelector_def)
  with Cons show ?case by (auto simp: sel)
qed simp

lemma matching_loop_ok:
  assumes "\<forall>s. \<exists>sel. asSel s = Inr sel"
  shows "matching_loop asSel pod infos = Some (filter (wants asSel pod) infos)"
  by (induction infos) (simp_all add: any_term_ok [OF assms] wants_def [symmetric])

lemma Assigned_implements:
  assumes inv: "pq_inv mk lt p" and sel: "\<forall>s. \<exists>sel. asSel s = Inr sel"
  shows "q_implements mk lt (QAssignedAdd asSel clk pod) p" "q_implements mk lt (QAssignedUpdate asSel clk pod) p"
  using movePods_ok [OF inv refl, of clk "wants asSel pod"]
  by (auto simp: q_implements_def AssignedPodAdded_def AssignedPodUpdated_def
      getUnschedulablePodsWithMatchingAffinityTerm_def matching_loop_ok [OF sel])

subsection \<open>Flushing the back-off queue\<close>

text \<open>What the loop leaves behind when it started at turn \<open>k\<close> and stopped at turn \<open>m\<close>.\<close>

definition flushed :: "(nat \<Rightarrow> int) \<Rightarrow> nat \<Rightarrow> qview \<Rightarrow> places \<Rightarrow> bool" where
  "flushed clk m v P \<longleftrightarrow> (\<forall>n. case v_pods v n of
     Some (Backoff, i) \<Rightarrow> P n = Some (Active, i) \<and> (\<exists>l\<le>m. \<not> backing v i (clk l)) \<or>
       P n = Some (Backoff, i) \<and> backing v i (clk m)
   | _ \<Rightarrow> P n = v_pods v n)"

lemma flushed_step:
  assumes x: "v_pods v n = Some (Backoff, i)" and b: "\<not> backing v i (clk k)" and k: "k \<le> m"
    and f: "flushed clk m (v\<lparr>v_pods := (v_pods v)(n \<mapsto> (Active, i))\<rparr>) P"
  shows "flushed clk m v P"
  unfolding flushed_def
proof
  fix j
  show "case v_pods v j of
     Some (Backoff, i) \<Rightarrow> P j = Some (Active, i) \<and> (\<exists>l\<le>m. \<not> backing v i (clk l)) \<or>
       P j = Some (Backoff, i) \<and> backing v i (clk m)
   | _ \<Rightarrow> P j = v_pods v j"
    using f [unfolded flushed_def, THEN spec, of j] x b k by (cases "j = n") (auto split: option.splits place.splits)
qed

lemma flush_loop_ok:
  "pq_inv mk lt p \<Longrightarrow> \<exists>p' P m. flush_loop clk k p = Some p' \<and> k \<le> m \<and> pq_inv mk lt p' \<and>
    qabs p' = (qabs p)\<lparr>v_pods := P\<rparr> \<and> flushed clk m (qabs p) P"
proof (induction "card (dom (hview (podBackoffQ p)))" arbitrary: p k rule: less_induct)
  case less
  note inv = less.prems
  note P = pq_inv_parts [OF inv]
  show ?case
  proof (cases "hview (podBackoffQ p) = Map.empty")
    case True
    have "Heap_Peek (podBackoffQ p) = Some None" using hs.peek_empty [OF _ True] P(4) by (simp add: heap_ok_def)
    then have "flush_loop clk k p = Some p" by (subst flush_loop.simps) simp
    moreover have "flushed clk k (qabs p) (pods_abs p)"
    proof -
      have "pods_abs p n \<noteq> Some (Backoff, i)" for n i using True by (simp add: pods_abs_eq_Some [OF inv])
      then show ?thesis by (auto simp: flushed_def v_pods_qabs split: option.splits place.splits)
    qed
    ultimately show ?thesis using inv by (intro exI [of _ p] exI [of _ "pods_abs p"] exI [of _ k]) (simp add: qabs_def)
  next
    case False
    obtain i b where b: "Heap_Pop (podBackoffQ p) = Some (Inr i, b)" "Heap_Peek (podBackoffQ p) = Some (Some i)"
        "hview (podBackoffQ p) (heap_key (qid i)) = Some i"
        "\<forall>l j. hview (podBackoffQ p) l = Some j \<longrightarrow> \<not> podsCompareBackoffCompleted (pq_podInitialBackoffDuration p) (pq_podMaxBackoffDuration p) j i"
        "heap_ok mk (podsCompareBackoffCompleted (pq_podInitialBackoffDuration p) (pq_podMaxBackoffDuration p)) b"
        "hview b = (hview (podBackoffQ p))(heap_key (qid i) := None)"
      using heap_ok_pop [OF P(4) False] by blast
    let ?n = "qid i"
    have n: "valid_id ?n" using heap_ok_keyed [OF P(4) b(3)] by simp
    have x: "pods_abs p ?n = Some (Backoff, i)" using b(3) n by (simp add: pods_abs_eq_Some [OF inv])
    have gt: "getBackoffTime p i > clk k \<longleftrightarrow> backing (qabs p) i (clk k)"
      by (simp add: getBackoffTime_eq backing_def qabs_def)
    show ?thesis
    proof (cases "backing (qabs p) i (clk k)")
      case True
      have "flush_loop clk k p = Some p" using b(2) gt True by (subst flush_loop.simps) simp
      moreover have "flushed clk k (qabs p) (pods_abs p)"
      proof -
        have "backing (qabs p) j (clk k)" if "pods_abs p m = Some (Backoff, j)" for m j
          using that b(4) True by (auto simp: pods_abs_eq_Some [OF inv] backing_def qabs_def podsCompareBackoffCompleted_def) 
            (meson leI order_less_le_trans)
        then show ?thesis by (auto simp: flushed_def v_pods_qabs split: option.splits place.splits)
      qed
      ultimately show ?thesis using inv by (intro exI [of _ p] exI [of _ "pods_abs p"] exI [of _ k]) (simp add: qabs_def)
    next
      case past: False
      obtain a where a: "Heap_Add (activeQ p) i = Some (a, None)" "heap_ok mk lt a"
          "hview a = (hview (activeQ p))(heap_key ?n \<mapsto> i)"
        using heap_ok_add [OF P(1) n] by auto
      let ?p = "p\<lparr>podBackoffQ := b, activeQ := a\<rparr>"
      have al: "uview (unschedulableQ p) (full_key ?n) = None"
        using exclusiveD [OF P(3) n] b(3) by (auto simp: alone_def)
      have c: "exclusive ?p \<and> pods_abs ?p = (pods_abs p)(?n := pick (Some i) None None)"
        using a b n P(3) al by (intro change_one [of p ?n]) (auto simp: fun_upd_idem)
      have inv': "pq_inv mk lt ?p" using a b c P by (simp add: pq_inv_def)
      have q: "qabs ?p = (qabs p)\<lparr>v_pods := (v_pods (qabs p))(?n \<mapsto> (Active, i))\<rparr>" using c by (simp add: qabs_def)
      have step: "flush_loop clk k p = flush_loop clk (Suc k) ?p"
        using b(1,2) a(1) gt past by (subst flush_loop.simps) simp
      have "card (dom (hview (podBackoffQ ?p))) < card (dom (hview (podBackoffQ p)))"
        using b(3) by (auto simp: b(6) intro!: psubset_card_mono)
      from less.hyps [OF this inv', of "Suc k"] obtain p' P' m where
        r: "flush_loop clk (Suc k) ?p = Some p'" "Suc k \<le> m" "pq_inv mk lt p'"
          "qabs p' = (qabs ?p)\<lparr>v_pods := P'\<rparr>" "flushed clk m (qabs ?p) P'" by blast
      have "flushed clk m (qabs p) P'"
        using flushed_step [of "qabs p" ?n i clk k m P'] x past r(2,5) q by (simp add: v_pods_qabs)
      then show ?thesis using r step q by (intro exI [of _ p'] exI [of _ P'] exI [of _ m]) simp
    qed
  qed
qed

lemma FlushBackoff_implements:
  assumes "pq_inv mk lt p"
  shows "q_implements mk lt (QFlushBackoff clk) p"
proof -
  obtain p' P m where r: "flush_loop clk 0 p = Some p'" "pq_inv mk lt p'"
      "qabs p' = (qabs p)\<lparr>v_pods := P\<rparr>" "flushed clk m (qabs p) P"
    using flush_loop_ok [OF assms, of clk 0] by blast
  then show ?thesis
    by (intro q_implementsI [of _ _ p' "Done None"])
      (auto simp: flushBackoffQCompleted_def flushed_def)
qed

lemma all_q_implement:
  assumes inv: "pq_inv mk lt p" and ok: "q_event_ok p ev"
  shows "q_implements mk lt ev p"
proof (cases ev)
  case QClose
  then have "pq_inv mk lt (p\<lparr>pq_closed := True\<rparr>)" using inv by (simp add: pq_inv_def exclusive_def)
  then show ?thesis using QClose ok by (simp add: q_implements_def PQ_Close_def qabs_def)
qed (use inv ok Add_implements Fail_implements FlushBackoff_implements Leftover_implements Pop_implements
    Update_implements Delete_implements MoveAll_implements Assigned_implements in auto)

subsection \<open>The orders of the two heaps\<close>

interpretation prio: strict_weak_order PrioritySort_Less
  by unfold_locales (auto simp: PrioritySort_Less_def GetPodPriority_def)

interpretation bo: strict_weak_order "podsCompareBackoffCompleted initialD maxD" for initialD maxD
  by unfold_locales (auto simp: podsCompareBackoffCompleted_def)

lemma NewPriorityQueue_inv:
  assumes "meta_key_doc mk" "strict_weak_order lt"
  shows "pq_inv mk lt (NewPriorityQueue mk lt opts)"
  using assms NewWithRecorder_inv [OF assms(2), of "Some 0"] NewWithRecorder_inv [OF bo.strict_weak_order_axioms, of "Some 0"]
  by (auto simp: pq_inv_def heap_ok_def un_ok_def exclusive_def alone_def NewPriorityQueue_def Let_def
      newUnschedulablePodsMap_def) (simp_all add: NewWithRecorder_def)

text \<open>The queues that events can bring about.\<close>

inductive q_reach :: "(Pod \<Rightarrow> error + string) \<Rightarrow> (QueuedPodInfo \<Rightarrow> QueuedPodInfo \<Rightarrow> bool) \<Rightarrow> PriorityQueue \<Rightarrow> bool"
  for metaKey lt where
  qr_new: "q_reach metaKey lt (NewPriorityQueue metaKey lt opts)"
| qr_step: "q_reach metaKey lt p \<Longrightarrow> q_event_ok p ev \<Longrightarrow> run_q ev p = Some (p', r) \<Longrightarrow> q_reach metaKey lt p'"

lemma q_reach_inv: "q_reach mk lt p \<Longrightarrow> meta_key_doc mk \<Longrightarrow> strict_weak_order lt \<Longrightarrow> pq_inv mk lt p"
proof (induction rule: q_reach.induct)
  case (qr_step p ev p' r)
  then show ?case using all_q_implement [of mk lt p ev] by (auto simp: q_implements_def)
qed (rule NewPriorityQueue_inv)

subsection \<open>The pending pods\<close>

lemma heap_list_view: "heap_ok mk lt h \<Longrightarrow> distinct (map qid (Heap_List h)) \<and>
    set (Heap_List h) = ran (hview h)"
proof -
  assume ok: "heap_ok mk lt h"
  let ?m = "items (h_data h)"
  have g: "gm_ok ?m" using ok by (simp add: heap_ok_def heap_inv_def data_inv_def index_ok_def)
  have k: "fst e = heap_key (qid (hi_obj (snd e))) \<and> valid_id (qid (hi_obj (snd e)))" if "e \<in> set ?m" for e
    using heap_ok_keyed [OF ok, of "fst e" "hi_obj (snd e)"] gm_get_eq_Some [OF g, of "fst e" "snd e"] that
    by (simp add: contents_def)
  then have "map fst ?m = map heap_key (map qid (Heap_List h))" by (simp add: Heap_List_def)
  then have "distinct (map qid (Heap_List h))" using g distinct_map by (metis gm_ok_def)
  moreover have "set (Heap_List h) = ran (hview h)"
    using gm_get_eq_Some [OF g] by (force simp: Heap_List_def ran_def contents_def)
  ultimately show ?thesis by blast
qed

lemma ran_heap:
  assumes "heap_ok mk lt h"
  shows "n \<in> qid ` ran (hview h) \<longleftrightarrow> valid_id n \<and> hview h (heap_key n) \<noteq> None"
proof
  assume "n \<in> qid ` ran (hview h)"
  then show "valid_id n \<and> hview h (heap_key n) \<noteq> None"
    using heap_ok_keyed [OF assms] by (fastforce simp: ran_def)
next
  assume v: "valid_id n \<and> hview h (heap_key n) \<noteq> None"
  then obtain i where i: "hview h (heap_key n) = Some i" by blast
  then have "qid i = n" using heap_ok_keyed [OF assms i] heap_key_inj v by metis
  with i show "n \<in> qid ` ran (hview h)" by (auto simp: ran_def)
qed

lemma pending_once:
  assumes inv: "pq_inv mk lt p"
  shows "distinct (map pod_id (PendingPods p)) \<and> pod_id ` set (PendingPods p) = dom (pods_abs p)"
proof -
  note P = pq_inv_parts [OF inv]
  let ?A = "map qid (Heap_List (activeQ p))" and ?B = "map qid (Heap_List (podBackoffQ p))"
    and ?U = "map qid (map snd (podInfoMap (unschedulableQ p)))"
  have eq: "map pod_id (PendingPods p) = ?A @ ?B @ ?U" by (simp add: PendingPods_def)
  have a: "distinct ?A" "\<And>n. n \<in> set ?A \<longleftrightarrow> valid_id n \<and> hview (activeQ p) (heap_key n) \<noteq> None"
    using heap_list_view [OF P(1)] ran_heap [OF P(1)] by auto
  have b: "distinct ?B" "\<And>n. n \<in> set ?B \<longleftrightarrow> valid_id n \<and> hview (podBackoffQ p) (heap_key n) \<noteq> None"
    using heap_list_view [OF P(4)] ran_heap [OF P(4)] by auto
  have u: "distinct ?U" "\<And>n. n \<in> set ?U \<longleftrightarrow> valid_id n \<and> uview (unschedulableQ p) (full_key n) \<noteq> None"
  proof -
    show "distinct ?U" by (rule unsched_infos(1) [OF inv])
    fix n
    have "n \<in> set ?U \<longleftrightarrow> (\<exists>i. n = qid i \<and> pods_abs p (qid i) = Some (Unsched, i))"
      unfolding unsched_infos(2) [OF inv, symmetric] by auto
    also have "\<dots> \<longleftrightarrow> (\<exists>i. pods_abs p n = Some (Unsched, i))" using pods_abs_id [OF inv, of n] by auto
    finally show "n \<in> set ?U \<longleftrightarrow> valid_id n \<and> uview (unschedulableQ p) (full_key n) \<noteq> None"
      by (auto simp: pods_abs_eq_Some [OF inv])
  qed
  have ex: "alone (hview (activeQ p) (heap_key n)) (hview (podBackoffQ p) (heap_key n)) (uview (unschedulableQ p) (full_key n))"
    if "valid_id n" for n using exclusiveD [OF P(3) that] .
  have dj: "\<not> (n \<in> set ?A \<and> n \<in> set ?B)" "\<not> (n \<in> set ?A \<and> n \<in> set ?U)" "\<not> (n \<in> set ?B \<and> n \<in> set ?U)" for n
    unfolding a(2) b(2) u(2) using ex [of n] by (auto simp: alone_def)
  have "distinct (?A @ ?B @ ?U)"
    using a(1) b(1) u(1) dj unfolding distinct_append set_append disjoint_iff Un_iff by blast
  moreover have "n \<in> set (?A @ ?B @ ?U) \<longleftrightarrow> n \<in> dom (pods_abs p)" for n
  proof (cases "valid_id n")
    case True
    then show ?thesis unfolding set_append Un_iff a(2) b(2) u(2) domIff pods_abs_None [OF True] by auto
  next
    case False
    then show ?thesis unfolding set_append Un_iff a(2) b(2) u(2) by (simp add: pods_abs_def domIff)
  qed
  ultimately show ?thesis unfolding eq [symmetric] by (metis set_eqI set_map)
qed

subsection \<open>The length of the back-off\<close>

lemma backoff_loop_min:
  "0 \<le> d \<Longrightarrow> d \<le> maxD \<Longrightarrow> maxD < 2 ^ 62 \<Longrightarrow>
    backoff_loop maxD attempts i d = min (d * 2 ^ nat (attempts - i)) maxD"
proof (induction maxD attempts i d rule: backoff_loop.induct)
  case (1 maxD attempts i d)
  show ?case
  proof (cases "i < attempts")
    case False
    then show ?thesis using 1 by (subst backoff_loop.simps) simp
  next
    case True
    then have e: "nat (attempts - i) = Suc (nat (attempts - (i + 1)))" by simp
    have w: "i64 (d * 2) = d * 2" using 1 by (intro i64_id) (simp add: in64_def)
    show ?thesis
    proof (cases "d * 2 > maxD")
      case big: True
      have "d * 2 \<le> d * 2 ^ nat (attempts - i)"
        using 1(2) by (intro mult_left_mono) (simp_all add: e)
      with big True w show ?thesis by (subst backoff_loop.simps) (simp add: Let_def min_def)
    next
      case small: False
      have "backoff_loop maxD attempts (i + 1) (d * 2) = min (d * 2 * 2 ^ nat (attempts - (i + 1))) maxD"
        using 1 True small w by simp
      with small True w show ?thesis by (subst backoff_loop.simps) (simp add: Let_def e)
    qed
  qed
qed

subsection \<open>Properties\<close>

text \<open>
  C5: Every operation of the scheduling queue implements the one-map specification. On a
  well-formed queue, for every event the informers and the scheduler deliver, it returns, keeps the
  queue well-formed, and changes the places of the pods, the cycle counters and the result as
  specified: adding makes a pod active wherever it was; a failed pod goes to the back-off queue if
  a move request came meanwhile and to the unschedulable ones otherwise, and is refused when it is
  queued already; flushing moves exactly the pods whose back-off is over; \<open>Pop\<close> takes an active pod
  no other one precedes, or blocks.
\<close>

theorem queue_refines_places:
  assumes "pq_inv metaKey lt p" and "q_event_ok p ev"
  shows "\<exists>p' r. run_q ev p = Some (p', r) \<and> pq_inv metaKey lt p' \<and> spec_q lt ev (qabs p) r (qabs p')"
  using all_q_implement [OF assms] by (simp add: q_implements_def)

definition doc_key :: "Pod \<Rightarrow> error + string" where
  "doc_key pod = Inr (heap_key (pod_id pod))"

lemma doc_key_ok: "meta_key_doc doc_key"
  by (simp add: meta_key_doc_def doc_key_def)

definition demo_queue :: PriorityQueue where
  "demo_queue = NewPriorityQueue doc_key PrioritySort_Less []"

lemma demo_queue_inv: "pq_inv doc_key PrioritySort_Less demo_queue"
  unfolding demo_queue_def by (intro NewPriorityQueue_inv doc_key_ok prio.strict_weak_order_axioms)

lemma demo_pod_named: "named (demo_pod ''a'')"
  by (simp add: valid_id_def pod_id_def demo_pod_def)

theorem queue_refines_places_witness:
  "\<exists>p' r. run_q (QAdd 5 (demo_pod ''a'')) demo_queue = Some (p', r) \<and> r = Done None \<and>
    pods_abs p' (''ns'', ''a'') = Some (Active, newQueuedPodInfo 5 (demo_pod ''a''))"
proof -
  have "q_event_ok demo_queue (QAdd 5 (demo_pod ''a''))" using demo_pod_named by simp
  from queue_refines_places [OF demo_queue_inv this] obtain p' r where
    r: "run_q (QAdd 5 (demo_pod ''a'')) demo_queue = Some (p', r)"
      "spec_q PrioritySort_Less (QAdd 5 (demo_pod ''a'')) (qabs demo_queue) r (qabs p')" by blast
  then have "v_pods (qabs p') (pod_id (demo_pod ''a'')) = Some (Active, newQueuedPodInfo 5 (demo_pod ''a''))" by simp
  then have "pods_abs p' (''ns'', ''a'') = Some (Active, newQueuedPodInfo 5 (demo_pod ''a''))"
    by (simp add: v_pods_qabs pod_id_def demo_pod_def)
  with r show ?thesis by auto
qed

text \<open>
  C9: In every queue that events can bring about, no pod is in two of the three queues: the list of
  pending pods names each pod once, and names exactly the pods that have a place. The three gauges
  show the sizes of the queues.
\<close>

theorem queue_reachable_once:
  assumes "q_reach metaKey lt p" and "meta_key_doc metaKey" and "strict_weak_order lt"
  shows "distinct (map pod_id (PendingPods p)) \<and> pod_id ` set (PendingPods p) = dom (pods_abs p) \<and>
    metricRecorder (activeQ p) = Some (int (Heap_Len (activeQ p))) \<and>
    metricRecorder (podBackoffQ p) = Some (int (Heap_Len (podBackoffQ p))) \<and>
    up_metricRecorder (unschedulableQ p) = Some (int (NumUnschedulablePods p))"
proof -
  have inv: "pq_inv metaKey lt p" using assms by (rule q_reach_inv)
  show ?thesis
    using pending_once [OF inv] pq_inv_parts [OF inv]
    by (auto simp: heap_ok_def heap_inv_def un_ok_def Heap_Len_def NumUnschedulablePods_def)
qed

theorem queue_reachable_once_witness:
  "\<exists>p' r. run_q (QAdd 5 (demo_pod ''a'')) demo_queue = Some (p', r) \<and> distinct (map pod_id (PendingPods p')) \<and>
    metricRecorder (activeQ p') = Some (int (Heap_Len (activeQ p')))"
proof -
  have ok: "q_event_ok demo_queue (QAdd 5 (demo_pod ''a''))" using demo_pod_named by simp
  obtain p' r where r: "run_q (QAdd 5 (demo_pod ''a'')) demo_queue = Some (p', r)"
    using all_q_implement [OF demo_queue_inv ok] by (auto simp: q_implements_def)
  have "q_reach doc_key PrioritySort_Less demo_queue" unfolding demo_queue_def by (rule qr_new)
  then have "q_reach doc_key PrioritySort_Less p'" using ok r by (rule qr_step)
  from queue_reachable_once [OF this doc_key_ok prio.strict_weak_order_axioms] r show ?thesis by blast
qed

text \<open>
  The back-off after \<open>n \<ge> 1\<close> attempts is the initial duration doubled \<open>n - 1\<close> times, cut off at the
  maximum, without overflow on the way, as long as the initial duration is not above the maximum
  and the maximum is below \<open>2\<^sup>6\<^sup>2\<close> nanoseconds (146 years).
\<close>

theorem backoff_is_capped_doubling:
  assumes "0 \<le> pq_podInitialBackoffDuration p" and "pq_podInitialBackoffDuration p \<le> pq_podMaxBackoffDuration p"
    and "pq_podMaxBackoffDuration p < 2 ^ 62"
  shows "calculateBackoffDuration p i =
    min (pq_podInitialBackoffDuration p * 2 ^ nat (qp_Attempts i - 1)) (pq_podMaxBackoffDuration p)"
  using backoff_loop_min [OF assms] by (simp add: calculateBackoffDuration_def calculateBackoff_def)

theorem backoff_is_capped_doubling_witness:
  "calculateBackoffDuration demo_queue ((newQueuedPodInfo 0 (demo_pod ''a''))\<lparr>qp_Attempts := 3\<rparr>) = 4 * second \<and>
   calculateBackoffDuration demo_queue ((newQueuedPodInfo 0 (demo_pod ''a''))\<lparr>qp_Attempts := 9\<rparr>) = 10 * second"
  using backoff_is_capped_doubling [of demo_queue "(newQueuedPodInfo 0 (demo_pod ''a''))\<lparr>qp_Attempts := 3\<rparr>"]
    backoff_is_capped_doubling [of demo_queue "(newQueuedPodInfo 0 (demo_pod ''a''))\<lparr>qp_Attempts := 9\<rparr>"]
  by (simp add: demo_queue_def NewPriorityQueue_def Let_def defaultPriorityQueueOptions_def second_def
      DefaultPodInitialBackoffDuration_def DefaultPodMaxBackoffDuration_def)

end
