(* ===== verification/Scheduler_Props.thy ===== *)
theory Scheduler_Props
  imports Event_Handlers Schedule_Props Queue_Refinement
begin

text \<open>
  The scheduler as a system: the scheduling goroutine, the binding goroutines, the informers and the
  timers, interleaved step by step. Every reachable state has a well-formed cache and queue; a
  scheduling cycle is a transaction on the cache; and a pod that could not be scheduled or
  bound is in the queue again.

  \<open>sched_laws\<close> is what the scheduler needs of the cache and of the queue to keep an invariant of both.
\<close>

subsection \<open>The system\<close>

datatype informer_event = PvAdd object | PvUpdate object object | PvcAdd object | PvcUpdate object object
  | StorageClassAdd object | ServiceAdd object | ServiceUpdate object object | ServiceDelete object
  | CSINodeAdd object | CSINodeUpdate object object | NodeAdd object | NodeUpdate object object | NodeDelete object
  | QueuePodAdd object | QueuePodUpdate object object | QueuePodDelete object
  | CachePodAdd object | CachePodUpdate object object | CachePodDelete object

fun run_informer :: "('d, 'w) world_api \<Rightarrow> tick \<Rightarrow> informer_event \<Rightarrow> ('a, 'd, 'w) Scheduler \<Rightarrow>
    ('a, 'd, 'w) Scheduler option" where
  "run_informer wa tk (PvAdd obj) = onPvAdd tk obj"
| "run_informer wa tk (PvUpdate old new) = onPvUpdate tk old new"
| "run_informer wa tk (PvcAdd obj) = onPvcAdd tk obj"
| "run_informer wa tk (PvcUpdate old new) = onPvcUpdate tk old new"
| "run_informer wa tk (StorageClassAdd obj) = onStorageClassAdd tk obj"
| "run_informer wa tk (ServiceAdd obj) = onServiceAdd tk obj"
| "run_informer wa tk (ServiceUpdate old new) = onServiceUpdate tk old new"
| "run_informer wa tk (ServiceDelete obj) = onServiceDelete tk obj"
| "run_informer wa tk (CSINodeAdd obj) = onCSINodeAdd tk obj"
| "run_informer wa tk (CSINodeUpdate old new) = onCSINodeUpdate tk old new"
| "run_informer wa tk (NodeAdd obj) = addNodeToCache wa tk obj"
| "run_informer wa tk (NodeUpdate old new) = updateNodeInCache wa tk old new"
| "run_informer wa tk (NodeDelete obj) = deleteNodeFromCache obj"
| "run_informer wa tk (QueuePodAdd obj) = addPodToSchedulingQueue tk obj"
| "run_informer wa tk (QueuePodUpdate old new) = updatePodInSchedulingQueue tk old new"
| "run_informer wa tk (QueuePodDelete obj) = deletePodFromSchedulingQueue obj"
| "run_informer wa tk (CachePodAdd obj) = addPodToCache wa tk obj"
| "run_informer wa tk (CachePodUpdate old new) = updatePodInCache wa tk old new"
| "run_informer wa tk (CachePodDelete obj) = deletePodFromCache tk obj"

text \<open>
  What the API server and the informers guarantee: pods have admissible names, an update is of one
  object, an update of a scheduled pod comes with the pod as the cache has it, and a node is not
  updated before it is added, or after it is deleted, while pods are left on it.
\<close>

fun informer_ok :: "('a, 'd, 'w) Scheduler \<Rightarrow> informer_event \<Rightarrow> bool" where
  "informer_ok s (NodeUpdate old new) \<longleftrightarrow>
     (\<forall>node i. new = ObjNode node \<longrightarrow> cinfo (s_cache s) (node_Name node) = Some i \<longrightarrow> ni_node i \<noteq> None)"
| "informer_ok s (QueuePodAdd obj) \<longleftrightarrow> (\<forall>pod. obj = ObjPod pod \<longrightarrow> named pod)"
| "informer_ok s (QueuePodUpdate old new) \<longleftrightarrow>
     (\<forall>p q. old = ObjPod p \<longrightarrow> new = ObjPod q \<longrightarrow> named q \<and> pod_id p = pod_id q)"
| "informer_ok s (QueuePodDelete obj) \<longleftrightarrow> (\<forall>pod. pod_of obj = Some pod \<longrightarrow> named pod)"
| "informer_ok s (CachePodUpdate old new) \<longleftrightarrow>
     (\<forall>p q. old = ObjPod p \<longrightarrow> new = ObjPod q \<longrightarrow> pod_UID p = pod_UID q \<longrightarrow> event_ok (s_cache s) (EvUpdate p q))"
| "informer_ok s _ \<longleftrightarrow> True"

definition lister_doc :: "('d, 'w) world_api \<Rightarrow> bool" where
  "lister_doc wa \<longleftrightarrow> (\<forall>w ns n p. wa_podLister wa w ns n = Inr p \<longrightarrow> pod_id p = (ns, n))"

definition selectors_doc :: "('d, 'w) world_api \<Rightarrow> bool" where
  "selectors_doc wa \<longleftrightarrow> (\<forall>ls. \<exists>sel. ex_asSelector (wa_externals wa) ls = Inr sel)"

record ('a, 'd, 'w) system =
  sy_sched :: "('a, 'd, 'w) Scheduler"
  sy_pcs :: "'d pc list"

text \<open>
  The steps: a goroutine makes one; the scheduling loop starts over; an informer delivers an event;
  a waiting pod gets a signal; the timers of the queue and of the cache run out; the queue is closed.
\<close>

inductive sys_step :: "('d, 'w) world_api \<Rightarrow> ('a, 'd, 'w) system \<Rightarrow> ('a, 'd, 'w) system \<Rightarrow> bool" for wa where
  st_go: "i < length (sy_pcs y) \<Longrightarrow> goroutine_step wa tk (sy_pcs y ! i) (sy_sched y) = Some (pc', spawned, s') \<Longrightarrow>
    sys_step wa y \<lparr>sy_sched = s', sy_pcs = (sy_pcs y)[i := pc'] @ (case spawned of None \<Rightarrow> [] | Some p \<Rightarrow> [p])\<rparr>"
| st_loop: "sy_pcs y \<noteq> [] \<Longrightarrow> sy_pcs y ! 0 = PDone \<Longrightarrow> sys_step wa y (y\<lparr>sy_pcs := (sy_pcs y)[0 := PNext]\<rparr>)"
| st_informer: "informer_ok (sy_sched y) ev \<Longrightarrow> run_informer wa tk ev (sy_sched y) = Some s' \<Longrightarrow>
    sys_step wa y (y\<lparr>sy_sched := s'\<rparr>)"
| st_permit: "gm_get (s_Profiles (sy_sched y)) name = Some prof \<Longrightarrow> wpm_get (waitingPods (pr_Framework prof)) uid = Some wp \<Longrightarrow>
    sys_step wa y (y\<lparr>sy_sched := set_framework name ((pr_Framework prof)\<lparr>waitingPods :=
      gm_put (waitingPods (pr_Framework prof)) uid (wp_step e wp)\<rparr>) (sy_sched y)\<rparr>)"
| st_backoff: "flushBackoffQCompleted clk (s_SchedulingQueue (sy_sched y)) = Some q \<Longrightarrow>
    sys_step wa y (y\<lparr>sy_sched := set_queue q (sy_sched y)\<rparr>)"
| st_leftover: "flushUnschedulableQLeftover now clk (s_SchedulingQueue (sy_sched y)) = Some q \<Longrightarrow>
    sys_step wa y (y\<lparr>sy_sched := set_queue q (sy_sched y)\<rparr>)"
| st_cleanup: "cleanupAssumedPods now (s_cache (sy_sched y)) = Some c \<Longrightarrow>
    sys_step wa y (y\<lparr>sy_sched := set_cache c (sy_sched y)\<rparr>)"
| st_close: "PQ_Close (s_SchedulingQueue (sy_sched y)) = Some q \<Longrightarrow>
    sys_step wa y (y\<lparr>sy_sched := set_queue q (sy_sched y)\<rparr>)"

inductive_cases goE: "sys_step wa y y'"

text \<open>A scheduler as \<open>create\<close> leaves it, whatever its profiles are.\<close>

inductive sys_run :: "(Pod \<Rightarrow> error + string) \<Rightarrow> (QueuedPodInfo \<Rightarrow> QueuedPodInfo \<Rightarrow> bool) \<Rightarrow> ('d, 'w) world_api \<Rightarrow>
    ('a, 'd, 'w) system \<Rightarrow> bool" for metaKey lt wa where
  run_start: "sys_run metaKey lt wa \<lparr>sy_sched = \<lparr>s_Algorithm = NewGenericScheduler (newSchedulerCache ttl period gen)
      NewEmptySnapshot exts noPreempt percentage, s_SchedulingQueue = NewPriorityQueue metaKey lt opts,
      s_Profiles = profs, s_world = w\<rparr>, sy_pcs = [PNext]\<rparr>"
| run_step: "sys_run metaKey lt wa y \<Longrightarrow> sys_step wa y y' \<Longrightarrow> sys_run metaKey lt wa y'"

text \<open>What a goroutine carries: pods with admissible names, and once a pod is assumed its host.\<close>

fun pc_ok :: "'d pc \<Rightarrow> bool" where
  "pc_ok (PCheck i) \<longleftrightarrow> named (qp_Pod i)"
| "pc_ok (PSchedule i) \<longleftrightarrow> named (qp_Pod i)"
| "pc_ok (PPostFilter i st fe) \<longleftrightarrow> named (qp_Pod i)"
| "pc_ok (PAssume cy) \<longleftrightarrow> named (cy_pod cy)"
| "pc_ok (PReserve cy) \<longleftrightarrow> named (cy_pod cy) \<and> pod_NodeName (cy_pod cy) = cy_host cy"
| "pc_ok (PPermit cy) \<longleftrightarrow> named (cy_pod cy) \<and> pod_NodeName (cy_pod cy) = cy_host cy"
| "pc_ok (PWait cy) \<longleftrightarrow> named (cy_pod cy) \<and> pod_NodeName (cy_pod cy) = cy_host cy"
| "pc_ok (PPreBind cy) \<longleftrightarrow> named (cy_pod cy) \<and> pod_NodeName (cy_pod cy) = cy_host cy"
| "pc_ok (PBind cy) \<longleftrightarrow> named (cy_pod cy) \<and> pod_NodeName (cy_pod cy) = cy_host cy"
| "pc_ok (PFinish cy err) \<longleftrightarrow> named (cy_pod cy) \<and> pod_NodeName (cy_pod cy) = cy_host cy"
| "pc_ok (PPostBind cy) \<longleftrightarrow> named (cy_pod cy) \<and> pod_NodeName (cy_pod cy) = cy_host cy"
| "pc_ok (PUnreserve cy err reason) \<longleftrightarrow> named (cy_pod cy) \<and> pod_NodeName (cy_pod cy) = cy_host cy"
| "pc_ok (PForget cy err reason) \<longleftrightarrow> named (cy_pod cy) \<and> pod_NodeName (cy_pod cy) = cy_host cy"
| "pc_ok (PError fl) \<longleftrightarrow> named (qp_Pod (fl_info fl))"
| "pc_ok (PLookup fl) \<longleftrightarrow> named (qp_Pod (fl_info fl))"
| "pc_ok (PRequeue fl cycle) \<longleftrightarrow> named (qp_Pod (fl_info fl))"
| "pc_ok (PNominate fl) \<longleftrightarrow> named (qp_Pod (fl_info fl))"
| "pc_ok (PUpdate fl) \<longleftrightarrow> named (qp_Pod (fl_info fl))"
| "pc_ok _ \<longleftrightarrow> True"

subsection \<open>Reading and writing parts of a scheduler\<close>

lemma set_parts [simp]:
  "s_cache (set_cache c s) = c" "s_SchedulingQueue (set_cache c s) = s_SchedulingQueue s"
  "s_world (set_cache c s) = s_world s" "s_Profiles (set_cache c s) = s_Profiles s"
  "s_Algorithm (set_queue q s) = s_Algorithm s" "s_SchedulingQueue (set_queue q s) = q"
  "s_world (set_queue q s) = s_world s" "s_Profiles (set_queue q s) = s_Profiles s"
  "s_Algorithm (set_framework name f s) = s_Algorithm s"
  "s_SchedulingQueue (set_framework name f s) = s_SchedulingQueue s"
  "s_world (set_framework name f s) = s_world s"
  by (auto simp: set_cache_def set_queue_def set_framework_def split: option.splits)

lemma filters_cache: "findNodesThatPassFilters ex sch f npm gen g w st pod = Some (g', x) \<Longrightarrow> g_cache g' = g_cache g"
  by (auto simp: findNodesThatPassFilters_def Let_def split: if_splits option.splits)

lemma fit_cache: "findNodesThatFitPod ex sch f npm gen g env pod = Some (g', x) \<Longrightarrow> g_cache g' = g_cache g"
  by (auto simp: findNodesThatFitPod_def split: prod.splits if_splits Option.bind_splits sum.splits dest!: filters_cache)

lemma Schedule_cache:
  assumes run: "Schedule ex ch f npm g env pod = Some (g', env', r)"
  shows "g_cache g' = g_cache g \<or> (\<exists>sn sn' e. UpdateSnapshot (g_cache g) sn = Some (g_cache g', sn', e))"
proof (cases "podPassesBasicChecks ex pod")
  case None
  with run obtain g1 serr where g1: "g_snapshot g = Some (g1, serr)" by (auto simp: Schedule_def Let_def split: Option.bind_splits)
  then obtain c sn where u: "UpdateSnapshot (g_cache g) (g_nodeInfoSnapshot g) = Some (c, sn, serr)" "g_cache g1 = c"
    by (auto simp: g_snapshot_def split: Option.bind_splits)
  let ?env = "(ex_share ex (g_nodeInfoSnapshot g1) (fst env), snd env)"
  let ?find = "findNodesThatFitPod ex (ch_schedule ch) f npm (ch_gen ch) g1 ?env pod"
  have "g' = g1 \<or> (\<exists>x. ?find = Some (g', x))"
  proof (cases "serr = None \<and> Snapshot_NumNodes (g_nodeInfoSnapshot g1) \<noteq> 0")
    case True
    with run None g1 obtain g2 env1 r2 where f: "?find = Some (g2, env1, r2)"
      by (auto simp: Schedule_def Let_def split: Option.bind_splits)
    moreover have "g' = g2"
    proof (cases r2)
      case (Inr x)
      obtain ns st where x: "x = (ns, st)" by force
      show ?thesis
      proof (cases ns)
        case (Cons n ns')
        then show ?thesis
          using run None g1 True f Inr x by (cases ns') (auto simp: Schedule_def Let_def split: Option.bind_splits sum.splits)
      qed (use run None g1 True f Inr x in \<open>simp add: Schedule_def Let_def\<close>)
    qed (use run None g1 True f in \<open>simp add: Schedule_def Let_def\<close>)
    ultimately show ?thesis by blast
  next
    case False
    with run None g1 show ?thesis by (auto simp: Schedule_def Let_def split: option.splits)
  qed
  with u fit_cache show ?thesis by metis
qed (use run in \<open>simp add: Schedule_def Let_def\<close>)

lemma UpdateSnapshot_tree:
  assumes wf: "nt_wf (sc_nodeTree c)" and u: "UpdateSnapshot c s = Some (c', s', e)"
  shows "\<exists>t. c' = c\<lparr>sc_nodeTree := t\<rparr> \<and> same_nodes (sc_nodeTree c) t"
proof -
  have loop: "nt_ok t \<Longrightarrow> list_loop k t s = Some (t', s') \<Longrightarrow> same_nodes t t'" for k t t' s s'
  proof (induction k arbitrary: t s)
    case (Suc k)
    then obtain x t1 where x: "nodeTree_next t = Some (x, t1)" "same_nodes t t1"
      using nodeTree_next_total [of t] by auto
    with Suc show ?case using same_nodes_ok [of t t1] same_nodes_trans [of t t1 t'] by auto
  qed simp
  have lists: "\<exists>t. c2 = c1\<lparr>sc_nodeTree := t\<rparr> \<and> same_nodes (sc_nodeTree c1) t \<and> nt_wf t"
    if tw: "nt_wf (sc_nodeTree c1)" and up: "updateNodeInfoSnapshotList c1 s1 all = Some (c2, s2)" for c1 c2 s1 s2 all
  proof (cases all)
    case True
    let ?r = "resetExhausted (sc_nodeTree c1)"
    have r: "same_nodes (sc_nodeTree c1) ?r" by (rule resetExhausted_same)
    then have "nt_ok ?r" using tw same_nodes_ok by (auto simp: nt_wf_def)
    moreover obtain t where t: "list_loop (nat (nt_numNodes (sc_nodeTree c1))) ?r
        (s1\<lparr>sn_havePodsWithAffinity := [], sn_nodeInfoList := []\<rparr>) = Some (t, s2)" "c2 = c1\<lparr>sc_nodeTree := t\<rparr>"
      using up True by (auto simp: updateNodeInfoSnapshotList_def Let_def split: Option.bind_splits)
    ultimately have "same_nodes ?r t" using loop by blast
    with r have "same_nodes (sc_nodeTree c1) t" by (rule same_nodes_trans)
    with t(2) tw show ?thesis using same_nodes_wf by blast
  next
    case False
    with tw up show ?thesis by (intro exI [of _ "sc_nodeTree c1"]) (simp add: updateNodeInfoSnapshotList_def Let_def)
  qed
  from u obtain c4 s3 s4 where c4: "c4 = c \<or> (\<exists>a. updateNodeInfoSnapshotList c s3 a = Some (c4, s4))"
    "c' = c4 \<or> (\<exists>s5. updateNodeInfoSnapshotList c4 s4 True = Some (c', s5))"
    unfolding UpdateSnapshot_def Let_def by (auto split: Option.bind_splits if_splits; blast)
  obtain t4 where t4: "c4 = c\<lparr>sc_nodeTree := t4\<rparr>" "same_nodes (sc_nodeTree c) t4" "nt_wf t4"
    using c4(1) lists [OF wf] wf by (metis same_nodes_refl schedulerCache.surjective schedulerCache.update_convs(7))
  from c4(2) show ?thesis
  proof
    assume "\<exists>s5. updateNodeInfoSnapshotList c4 s4 True = Some (c', s5)"
    then obtain t where "c' = c4\<lparr>sc_nodeTree := t\<rparr>" "same_nodes (sc_nodeTree c4) t"
      using lists [of c4 s4 True] t4 by force
    with t4 show ?thesis using same_nodes_trans by auto
  qed (use t4 in auto)
qed

subsection \<open>The cache and the queue as the scheduler uses them\<close>

locale sched_laws =
  fixes asSel :: as_selector and I :: "schedulerCache \<Rightarrow> bool" and J :: "PriorityQueue \<Rightarrow> bool"
  assumes I_pod: "I c \<Longrightarrow> event_ok c ev \<Longrightarrow> run_event asSel ev c = Some (c', e) \<Longrightarrow> I c'"
    and I_add: "I c \<Longrightarrow> I (fst (AddNode asSel c node))"
    and I_update: "I c \<Longrightarrow> \<forall>i. cinfo c (node_Name node) = Some i \<longrightarrow> ni_node i \<noteq> None \<Longrightarrow>
      UpdateNode asSel c old node = Some (c', e) \<Longrightarrow> I c'"
    and I_remove: "I c \<Longrightarrow> I (fst (RemoveNode c node))"
    and I_snapshot: "I c \<Longrightarrow> UpdateSnapshot c sn = Some (c', sn', e) \<Longrightarrow> I c'"
    and J_event: "J q \<Longrightarrow> q_event_ok q qev \<Longrightarrow> run_q qev q = Some (q', r) \<Longrightarrow> J q'"
    and J_nominator: "J q \<Longrightarrow> J (q\<lparr>pq_PodNominator := n\<rparr>)"
    and J_named: "J q \<Longrightarrow> PQ_Pop q = Some (Popped i, q') \<Longrightarrow> named (qp_Pod i)"
begin

text \<open>Both invariants, of a scheduler.\<close>

definition keeps :: "('a, 'd, 'w) Scheduler \<Rightarrow> bool" where
  "keeps s \<longleftrightarrow> I (s_cache s) \<and> J (s_SchedulingQueue s)"

lemma keeps_parts [simp]:
  "keeps (set_cache c s) \<longleftrightarrow> I c \<and> J (s_SchedulingQueue s)"
  "keeps (set_queue q s) \<longleftrightarrow> I (s_cache s) \<and> J q"
  "keeps (set_framework name f s) = keeps s"
  "keeps (s\<lparr>s_world := w\<rparr>) = keeps s"
  by (simp_all add: keeps_def)

lemma keeps_assume:
  assumes "keeps s" "assume_pod wa s pod host = (p, err, s')" and a: "ex_asSelector (wa_externals wa) = asSel"
  shows "keeps s'"
proof -
  obtain c e where c: "AssumePod asSel (s_cache s) (pod\<lparr>pod_NodeName := host\<rparr>) = (c, e)" by force
  then have "I c" using I_pod [of "s_cache s" "EvAssume (pod\<lparr>pod_NodeName := host\<rparr>)" c e] assms(1) by (simp add: keeps_def)
  with assms c show ?thesis
    by (auto simp: assume_pod_def Let_def keeps_def J_nominator split: option.splits)
qed

lemma keeps_schedule:
  assumes "keeps s" "Schedule ex ch f npm (s_Algorithm s) env pod = Some (g, env', r)"
  shows "keeps (s\<lparr>s_Algorithm := g, s_world := w\<rparr>)"
  using Schedule_cache [OF assms(2)] assms(1) I_snapshot by (auto simp: keeps_def)

lemma keeps_finish: "keeps s \<Longrightarrow> I (fst (FinishBinding now (s_cache s) pod))"
  using I_pod [of "s_cache s" "EvFinish pod now"] by (cases "FinishBinding now (s_cache s) pod") (auto simp: keeps_def)

lemma keeps_forget: "keeps s \<Longrightarrow> ForgetPod (s_cache s) pod = Some (c, e) \<Longrightarrow> I c"
  using I_pod [of "s_cache s" "EvForget pod" c e] by (simp add: keeps_def)

lemma keeps_requeue:
  "keeps s \<Longrightarrow> named (qp_Pod info) \<Longrightarrow> error_requeue tk info cycle s = Some (info', s') \<Longrightarrow> keeps s' \<and> qp_Pod info' = qp_Pod info"
  using J_event [of "s_SchedulingQueue s" "QFail (tk_now tk) info cycle"]
  by (auto simp: error_requeue_def keeps_def AddUnschedulableIfNotPresent_def Let_def
      split: Option.bind_splits if_splits option.splits)

lemma keeps_next:
  assumes "keeps s" "MakeNextPodFunc (s_SchedulingQueue s) = Some (r, q)"
  shows "J q \<and> (\<forall>i. r = Some (Some i) \<longrightarrow> named (qp_Pod i))"
proof -
  obtain p where p: "PQ_Pop (s_SchedulingQueue s) = Some (p, q)"
      "r = (case p of Blocked \<Rightarrow> None | PopError _ \<Rightarrow> Some None | Popped podInfo \<Rightarrow> Some (Some podInfo))"
    using assms(2) by (auto simp: MakeNextPodFunc_def split: Option.bind_splits)
  have "J q" using J_event [of "s_SchedulingQueue s" QPop q] p(1) assms(1) by (simp add: keeps_def)
  moreover have "named (qp_Pod i)" if "r = Some (Some i)" for i
    using that p J_named [of "s_SchedulingQueue s" i q] assms(1) by (auto simp: keeps_def split: pop_result.splits)
  ultimately show ?thesis by simp
qed

end

subsection \<open>Every step keeps them\<close>

context sched_laws
begin

definition good :: "('a, 'd, 'w) stepped \<Rightarrow> bool" where
  "good r \<longleftrightarrow> (\<forall>pc' spawned s'. r = Some (pc', spawned, s') \<longrightarrow>
     keeps s' \<and> pc_ok pc' \<and> (\<forall>p. spawned = Some p \<longrightarrow> pc_ok p))"

lemma fail_pc_ok [simp]: "pc_ok (fail_pc info err reason nominated) \<longleftrightarrow> named (qp_Pod info)"
  by (simp add: fail_pc_def)

lemma cy_pod_upd [simp]:
  "cy_pod (cy\<lparr>cy_state := st\<rparr>) = cy_pod cy" "cy_pod (cy\<lparr>cy_info := i\<rparr>) = qp_Pod i"
  "cy_pod \<lparr>cy_info = i, cy_state = st, cy_host = h\<rparr> = qp_Pod i"
  by (simp_all add: cy_pod_def)

lemma named_host [simp]: "pod_id (pod\<lparr>pod_NodeName := h\<rparr>) = pod_id pod"
  by (simp add: pod_id_def)

lemma good_next: "keeps s \<Longrightarrow> good (step_next s)"
  using keeps_next [of s] by (auto simp: good_def step_next_def keeps_def split: Option.bind_splits option.splits)

lemma good_check: "keeps s \<Longrightarrow> named (qp_Pod i) \<Longrightarrow> good (step_check i s)"
  by (auto simp: good_def step_check_def Let_def split: sum.splits if_splits)

lemma good_schedule: "keeps s \<Longrightarrow> named (qp_Pod i) \<Longrightarrow> good (step_schedule wa tk i s)"
  by (auto simp: good_def step_schedule_def Let_def split: Option.bind_splits sum.splits schedule_error.splits
      dest: keeps_schedule)

lemma good_postfilter: "keeps s \<Longrightarrow> named (qp_Pod i) \<Longrightarrow> good (step_postfilter i st fe s)"
  by (auto simp: good_def step_postfilter_def Let_def split: Option.bind_splits if_splits)

lemma good_assume:
  assumes k: "keeps s" and n: "named (cy_pod cy)" and a: "ex_asSelector (wa_externals wa) = asSel"
  shows "good (step_assume wa cy s)"
proof -
  obtain p err s' where r: "assume_pod wa s (cy_pod cy) (cy_host cy) = (p, err, s')" by (metis prod_cases3)
  then have p: "p = (cy_pod cy)\<lparr>pod_NodeName := cy_host cy\<rparr>"
    by (auto simp: assume_pod_def Let_def split: prod.splits option.splits)
  show ?thesis
    using keeps_assume [OF k r a] n p r by (auto simp: good_def step_assume_def Let_def split: option.splits)
qed

lemma good_hooks:
  assumes "keeps s" "named (cy_pod cy)" "pod_NodeName (cy_pod cy) = cy_host cy"
  shows "good (step_reserve cy s)" "good (step_permit cy s)" "good (step_wait cy s)" "good (step_prebind cy s)"
    "good (step_bind cy s)" "good (step_postbind cy s)" "good (step_unreserve cy err reason s)"
  using assms
  by (auto simp: good_def step_reserve_def step_permit_def step_wait_def step_prebind_def step_bind_def step_postbind_def
      step_unreserve_def Let_def split: Option.bind_splits prod.splits if_splits)

lemma good_finish:
  "keeps s \<Longrightarrow> named (cy_pod cy) \<Longrightarrow> pod_NodeName (cy_pod cy) = cy_host cy \<Longrightarrow> good (step_finish tk cy err s)"
  using keeps_finish [of s "tk_now tk" "cy_pod cy"] by (auto simp: good_def step_finish_def keeps_def Let_def split: option.splits)

lemma good_forget: "keeps s \<Longrightarrow> named (cy_pod cy) \<Longrightarrow> good (step_forget cy err reason s)"
  using keeps_forget [of s "cy_pod cy"]
  by (auto simp: good_def step_forget_def keeps_def cy_pod_def split: Option.bind_splits)

lemma good_error: "keeps s \<Longrightarrow> keeps (error_cache wa err s)"
  by (auto simp: error_cache_def keeps_def I_remove split: schedule_error.splits option.splits)

lemma good_nominate: "keeps s \<Longrightarrow> named (qp_Pod (fl_info fl)) \<Longrightarrow> good (step_nominate fl s)"
  by (auto simp: good_def step_nominate_def keeps_def J_nominator)

lemma good_update: "keeps s \<Longrightarrow> good (step_update wa fl s)"
  by (auto simp: good_def step_update_def Let_def split: Option.bind_splits)

lemma lookup_named:
  "lister_doc wa \<Longrightarrow> error_lookup wa i s = Some j \<Longrightarrow> pod_id (qp_Pod j) = pod_id (qp_Pod i)"
  by (auto simp: error_lookup_def lister_doc_def pod_id_def split: sum.splits)

lemma goroutine_good:
  assumes k: "keeps s" and pc: "pc_ok pc" and a: "ex_asSelector (wa_externals wa) = asSel" and l: "lister_doc wa"
  shows "good (goroutine_step wa tk pc s)"
proof (cases pc)
  case (PLookup fl)
  with k pc lookup_named [OF l, of "fl_info fl" s] show ?thesis by (auto simp: good_def split: option.splits)
next
  case (PRequeue fl cycle)
  with k pc show ?thesis by (auto simp: good_def split: Option.bind_splits dest: keeps_requeue)
next
  case (PError fl)
  with k pc show ?thesis by (simp add: good_def good_error)
next
  case PDone
  then show ?thesis by (simp add: good_def)
qed (use k pc in \<open>simp_all add: good_next good_check good_schedule good_postfilter good_assume [OF _ _ a] good_hooks
    good_finish good_forget good_nominate good_update\<close>)

end

context sched_laws
begin

lemma keeps_moveAll: "keeps s \<Longrightarrow> moveAll tk s = Some s' \<Longrightarrow> keeps s'"
  using J_event [of "s_SchedulingQueue s" "QMoveAll (tk_clk tk)"]
  by (auto simp: moveAll_def keeps_def split: Option.bind_splits)

lemma keeps_assigned:
  assumes "keeps s" "\<forall>ls. \<exists>sel. asSel ls = Inr sel"
  shows "AssignedPodAdded asSel clk (s_SchedulingQueue s) pod = Some q \<Longrightarrow> J q"
    and "AssignedPodUpdated asSel clk (s_SchedulingQueue s) pod = Some q \<Longrightarrow> J q"
  using assms J_event [of "s_SchedulingQueue s" "QAssignedAdd asSel clk pod" q]
    J_event [of "s_SchedulingQueue s" "QAssignedUpdate asSel clk pod" q] by (auto simp: keeps_def)

lemma keeps_cache_add:
  assumes "keeps s" "addPodToCache wa tk obj s = Some s'" "ex_asSelector (wa_externals wa) = asSel"
    "\<forall>ls. \<exists>sel. asSel ls = Inr sel"
  shows "keeps s'"
proof (cases obj)
  case (ObjPod pod)
  with assms obtain c e q where c: "Cache_AddPod asSel (s_cache s) pod = Some (c, e)"
      "AssignedPodAdded asSel (tk_clk tk) (s_SchedulingQueue s) pod = Some q" "s' = set_queue q (set_cache c s)"
    by (auto simp: addPodToCache_def Let_def split: Option.bind_splits)
  then show ?thesis using I_pod [of "s_cache s" "EvAdd pod" c e] keeps_assigned(1) [OF assms(1,4)] assms(1)
    by (simp add: keeps_def)
qed (use assms in \<open>simp_all add: addPodToCache_def\<close>)

lemma keeps_cache_delete:
  assumes k: "keeps s" and r: "deletePodFromCache tk obj s = Some s'"
  shows "keeps s'"
proof (cases "pod_of obj")
  case (Some pod)
  with r obtain c e where c: "Cache_RemovePod (s_cache s) pod = Some (c, e)" "moveAll tk (set_cache c s) = Some s'"
    by (auto simp: deletePodFromCache_def split: Option.bind_splits)
  then have "I c" using I_pod [of "s_cache s" "EvRemove pod" c e] k by (simp add: keeps_def)
  with k have "keeps (set_cache c s)" by (simp add: keeps_def)
  then show ?thesis using c(2) by (rule keeps_moveAll)
qed (use k r in \<open>simp add: deletePodFromCache_def\<close>)

lemma keeps_cache_update:
  assumes k: "keeps s" and r: "updatePodInCache wa tk old new s = Some s'" and a: "ex_asSelector (wa_externals wa) = asSel"
    and sel: "\<forall>ls. \<exists>sel. asSel ls = Inr sel" and ok: "informer_ok s (CachePodUpdate old new)"
  shows "keeps s'"
proof (cases "\<exists>p q. old = ObjPod p \<and> new = ObjPod q")
  case True
  then obtain p q where pq: "old = ObjPod p" "new = ObjPod q" by blast
  show ?thesis
  proof (cases "pod_UID p = pod_UID q")
    case True
    with r pq a obtain c e q2 where c: "Cache_UpdatePod asSel (s_cache s) p q = Some (c, e)"
        "AssignedPodUpdated asSel (tk_clk tk) (s_SchedulingQueue s) q = Some q2" "s' = set_queue q2 (set_cache c s)"
      by (auto simp: updatePodInCache_def Let_def split: Option.bind_splits)
    then have "I c" using I_pod [of "s_cache s" "EvUpdate p q" c e] k ok pq True by (simp add: keeps_def)
    then show ?thesis using c(3) keeps_assigned(2) [OF k sel c(2)] by (simp add: keeps_def)
  next
    case False
    with r pq obtain s1 where "deletePodFromCache tk old s = Some s1" "addPodToCache wa tk new s1 = Some s'"
      by (auto simp: updatePodInCache_def split: Option.bind_splits)
    then show ?thesis using keeps_cache_delete [OF k] keeps_cache_add [OF _ _ a sel] by blast
  qed
qed (use r k in \<open>auto simp: updatePodInCache_def split: object.splits\<close>)

lemma keeps_queue_pods:
  assumes k: "keeps s"
  shows "addPodToSchedulingQueue tk obj s = Some s' \<Longrightarrow> informer_ok s (QueuePodAdd obj) \<Longrightarrow> keeps s'"
    and "updatePodInSchedulingQueue tk old obj s = Some s' \<Longrightarrow> informer_ok s (QueuePodUpdate old obj) \<Longrightarrow> keeps s'"
    and "deletePodFromSchedulingQueue obj s = Some s' \<Longrightarrow> informer_ok s (QueuePodDelete obj) \<Longrightarrow> keeps s'"
proof -
  have j: "J q'" if "q_event_ok (s_SchedulingQueue s) ev" "run_q ev (s_SchedulingQueue s) = Some (q', r)" for ev q' r
    using J_event [OF _ that] k by (simp add: keeps_def)
  show "addPodToSchedulingQueue tk obj s = Some s' \<Longrightarrow> informer_ok s (QueuePodAdd obj) \<Longrightarrow> keeps s'"
    using k j [of "QAdd (tk_now tk) pod" for pod]
    by (auto simp: addPodToSchedulingQueue_def keeps_def split: object.splits Option.bind_splits)
  show "updatePodInSchedulingQueue tk old obj s = Some s' \<Longrightarrow> informer_ok s (QueuePodUpdate old obj) \<Longrightarrow> keeps s'"
    using k j [of "QUpdate (tk_now tk) p q" for p q]
    by (auto simp: updatePodInSchedulingQueue_def keeps_def split: object.splits Option.bind_splits if_splits)
  show "deletePodFromSchedulingQueue obj s = Some s' \<Longrightarrow> informer_ok s (QueuePodDelete obj) \<Longrightarrow> keeps s'"
    using k j [of "QDelete pod" for pod]
    by (auto simp: deletePodFromSchedulingQueue_def keeps_def Let_def split: option.splits Option.bind_splits sum.splits)
qed

lemma keeps_nodes:
  assumes k: "keeps s" and a: "ex_asSelector (wa_externals wa) = asSel"
  shows "addNodeToCache wa tk obj s = Some s' \<Longrightarrow> keeps s'"
    and "updateNodeInCache wa tk old obj s = Some s' \<Longrightarrow> informer_ok s (NodeUpdate old obj) \<Longrightarrow> keeps s'"
    and "deleteNodeFromCache obj s = Some s' \<Longrightarrow> keeps s'"
proof -
  have n: "keeps (set_cache (fst (AddNode asSel (s_cache s) node)) s)" for node
    using k by (simp add: keeps_def I_add)
  show "addNodeToCache wa tk obj s = Some s' \<Longrightarrow> keeps s'"
    using k a keeps_moveAll [OF n] by (auto simp: addNodeToCache_def split: object.splits)
  show "deleteNodeFromCache obj s = Some s' \<Longrightarrow> keeps s'"
    using k I_remove by (auto simp: deleteNodeFromCache_def keeps_def split: option.splits)
  assume r: "updateNodeInCache wa tk old obj s = Some s'" and ok: "informer_ok s (NodeUpdate old obj)"
  show "keeps s'"
  proof (cases "\<exists>o' n. old = ObjNode o' \<and> obj = ObjNode n")
    case True
    then obtain o' n where on: "old = ObjNode o'" "obj = ObjNode n" by blast
    with r a obtain c e where c: "UpdateNode asSel (s_cache s) (Some o') n = Some (c, e)"
        "s' = set_cache c s \<or> moveAll tk (set_cache c s) = Some s'"
      by (auto simp: updateNodeInCache_def Let_def split: Option.bind_splits if_splits)
    have "I c" using I_update [OF _ _ c(1)] k ok on by (simp add: keeps_def)
    with k have "keeps (set_cache c s)" by (simp add: keeps_def)
    with c(2) keeps_moveAll show ?thesis by blast
  qed (use r k in \<open>auto simp: updateNodeInCache_def split: object.splits\<close>)
qed

lemma informer_keeps:
  assumes k: "keeps s" and a: "ex_asSelector (wa_externals wa) = asSel" and sel: "\<forall>ls. \<exists>sel. asSel ls = Inr sel"
    and ok: "informer_ok s ev" and r: "run_informer wa tk ev s = Some s'"
  shows "keeps s'"
proof (cases ev)
  case (StorageClassAdd obj)
  with r k show ?thesis by (auto simp: onStorageClassAdd_def split: object.splits if_splits dest: keeps_moveAll)
qed (use r ok keeps_moveAll [OF k] keeps_nodes [OF k a] keeps_queue_pods [OF k] keeps_cache_add [OF k _ a sel]
    keeps_cache_update [OF k _ a sel] keeps_cache_delete [OF k] in
  \<open>simp_all only: run_informer.simps onPvAdd_def onPvUpdate_def onPvcAdd_def onPvcUpdate_def onServiceAdd_def
    onServiceUpdate_def onServiceDelete_def onCSINodeAdd_def onCSINodeUpdate_def\<close>)

definition fine :: "('a, 'd, 'w) system \<Rightarrow> bool" where
  "fine y \<longleftrightarrow> keeps (sy_sched y) \<and> list_all pc_ok (sy_pcs y)"

lemma step_fine:
  assumes st: "sys_step wa y y'" and f: "fine y" and a: "ex_asSelector (wa_externals wa) = asSel"
    and sel: "\<forall>ls. \<exists>sel. asSel ls = Inr sel" and l: "lister_doc wa"
  shows "fine y'"
  using st
proof cases
  case (st_go i tk pc' spawned s')
  have "pc_ok (sy_pcs y ! i)" using f st_go(2) by (simp add: fine_def list_all_length)
  moreover have "keeps (sy_sched y)" using f by (simp add: fine_def)
  ultimately have "good (goroutine_step wa tk (sy_pcs y ! i) (sy_sched y))"
    by (intro goroutine_good [OF _ _ a l])
  with st_go have "keeps s'" "pc_ok pc'" "\<forall>p. spawned = Some p \<longrightarrow> pc_ok p" by (simp_all add: good_def)
  with st_go f show ?thesis
    by (auto simp: fine_def list_all_length nth_append nth_list_update split: option.splits)
next
  case st_loop
  with f show ?thesis by (auto simp: fine_def list_all_length nth_list_update)
next
  case (st_informer ev tk s')
  have "keeps s'" using f informer_keeps [OF _ a sel st_informer(2,3)] by (simp add: fine_def)
  with f st_informer(1) show ?thesis by (simp add: fine_def)
next
  case (st_permit name prof uid wp e)
  with f show ?thesis by (simp add: fine_def)
next
  case (st_backoff clk q)
  with f J_event [of "s_SchedulingQueue (sy_sched y)" "QFlushBackoff clk"] show ?thesis by (simp add: fine_def keeps_def)
next
  case (st_leftover now clk q)
  with f J_event [of "s_SchedulingQueue (sy_sched y)" "QFlushLeftover now clk"] show ?thesis by (simp add: fine_def keeps_def)
next
  case (st_cleanup now c)
  with f I_pod [of "s_cache (sy_sched y)" "EvCleanup now"] show ?thesis by (simp add: fine_def keeps_def)
next
  case (st_close q)
  then have "\<not> pq_closed (s_SchedulingQueue (sy_sched y))" by (simp add: PQ_Close_def split: if_splits)
  with st_close f J_event [of "s_SchedulingQueue (sy_sched y)" QClose] show ?thesis by (simp add: fine_def keeps_def)
qed

end

subsection \<open>A goroutine comes to its end\<close>

lemma steps_fall:
  assumes "goroutine_step wa tk pc s = Some (pc', spawned, s')"
  shows "steps_left pc' < steps_left pc"
proof (cases pc)
  case (PAssume cy)
  with assms show ?thesis by (auto simp: step_assume_def fail_pc_def Let_def split: prod.splits option.splits)
qed (use assms in \<open>auto simp: step_next_def step_check_def step_schedule_def step_postfilter_def step_reserve_def
    step_permit_def step_wait_def step_prebind_def step_bind_def step_finish_def step_postbind_def step_unreserve_def
    step_forget_def step_nominate_def step_update_def fail_pc_def Let_def
    split: Option.bind_splits option.splits sum.splits schedule_error.splits if_splits prod.splits\<close>)

lemma run_done:
  "run_goroutine n wa tks pc started s = Some (pc', started', s') \<Longrightarrow> steps_left pc \<le> n \<Longrightarrow> pc' = PDone"
proof (induction n arbitrary: pc started s)
  case 0
  then show ?case by (cases pc) auto
next
  case (Suc n)
  show ?case
  proof (cases "pc = PDone")
    case False
    with Suc.prems(1) obtain pc1 sp s1 where st: "goroutine_step wa (tks n) pc s = Some (pc1, sp, s1)"
      "run_goroutine n wa tks pc1 (case sp of None \<Rightarrow> started | Some p \<Rightarrow> Some p) s1 = Some (pc', started', s')"
      by (cases pc) (auto split: Option.bind_splits)
    then show ?thesis using Suc.IH [OF st(2)] steps_fall [OF st(1)] Suc.prems(2) by simp
  qed (use Suc.prems in simp)
qed

text \<open>A property of the goroutine and the scheduler that every step keeps holds at the end.\<close>

lemma run_keeps:
  assumes step: "\<And>tk pc sp s pc' sp' s'. P pc sp s \<Longrightarrow> goroutine_step wa tk pc s = Some (pc', sp', s') \<Longrightarrow>
      P pc' (case sp' of None \<Rightarrow> sp | Some p \<Rightarrow> Some p) s'"
  shows "run_goroutine n wa tks pc sp s = Some (pc', sp', s') \<Longrightarrow> P pc sp s \<Longrightarrow> P pc' sp' s'"
proof (induction n arbitrary: pc sp s)
  case (Suc n)
  show ?case
  proof (cases "pc = PDone")
    case False
    with Suc.prems(1) obtain pc1 sp1 s1 where st: "goroutine_step wa (tks n) pc s = Some (pc1, sp1, s1)"
      "run_goroutine n wa tks pc1 (case sp1 of None \<Rightarrow> sp | Some p \<Rightarrow> Some p) s1 = Some (pc', sp', s')"
      by (cases pc) (auto split: Option.bind_splits)
    show ?thesis using Suc.IH [OF st(2)] step [OF Suc.prems(2) st(1)] by blast
  qed (use Suc.prems in simp)
qed simp

subsection \<open>The laws hold\<close>

interpretation sched: sched_laws asSel cache_inv "pq_inv metaKey lt" for asSel metaKey lt
proof
  fix c c' :: schedulerCache and sn sn' e
  assume inv: "cache_inv c" and u: "UpdateSnapshot c sn = Some (c', sn', e)"
  obtain ks where "nodes_inv c ks" using inv by (rule cache_invE)
  then have "nt_wf (sc_nodeTree c)" by (simp add: nodes_inv_def)
  from UpdateSnapshot_tree [OF this u] show "cache_inv c'" using inv cache_inv_same_tree by blast
next
  fix q i q'
  assume inv: "pq_inv metaKey lt q" and r: "PQ_Pop q = Some (Popped i, q')"
  have "q_implements metaKey lt QPop q" using all_q_implement [OF inv, of QPop] by simp
  with r obtain n j where j: "pods_abs q n = Some (Active, j)" "qp_Pod i = qp_Pod j"
    by (auto simp: q_implements_def v_pods_qabs split: if_splits)
  from pods_abs_id [OF inv j(1)] j(2) show "named (qp_Pod i)" by auto
next
  fix q qev q' r
  assume "pq_inv metaKey lt q" "q_event_ok q qev" "run_q qev q = Some (q', r)"
  then show "pq_inv metaKey lt q'" using all_q_implement [of metaKey lt q qev] by (auto simp: q_implements_def)
next
  fix q n
  assume "pq_inv metaKey lt q"
  then show "pq_inv metaKey lt (q\<lparr>pq_PodNominator := n\<rparr>)" by (simp add: pq_inv_def exclusive_def)
next
  fix c c' and node :: Node and old e
  assume "cache_inv c" "\<forall>i. cinfo c (node_Name node) = Some i \<longrightarrow> ni_node i \<noteq> None" "UpdateNode asSel c old node = Some (c', e)"
  then show "cache_inv c'" using UpdateNode_inv [of c node asSel old] by auto
next
  fix c node
  assume "cache_inv c"
  then show "cache_inv (fst (AddNode asSel c node))" using AddNode_inv [of c asSel node] by auto
qed (use run_event_inv RemoveNode_inv in blast)+

lemma sys_run_fine:
  assumes "sys_run metaKey lt wa y" "meta_key_doc metaKey" "strict_weak_order lt" "lister_doc wa" "selectors_doc wa"
  shows "sched.fine metaKey lt y"
  using assms(1)
proof induction
  case (run_start ttl period gen exts noPreempt percentage opts profs w)
  then show ?case using newSchedulerCache_inv NewPriorityQueue_inv [OF assms(2,3)]
    by (simp add: sched.fine_def sched.keeps_def NewGenericScheduler_def)
next
  case (run_step y y')
  then show ?case using sched.step_fine [of wa y y'] assms(4,5) by (simp add: selectors_doc_def)
qed

subsection \<open>Where a pod is during its cycle\<close>

lemma pod_abs_tree [simp]: "pod_abs (c\<lparr>sc_nodeTree := t\<rparr>) = pod_abs c"
  by (simp add: pod_abs_def isAssumed_def fun_eq_iff)

lemma removeNode_pods: "sc_podStates (fst (RemoveNode c node)) = sc_podStates c \<and>
    sc_assumedPods (fst (RemoveNode c node)) = sc_assumedPods c"
  by (auto simp: RemoveNode_def removeNodeImageStates_def removeNodeInfoFromList_def moveNodeInfoToHead_def set_info_def
      Let_def split: option.splits prod.splits)

lemma pod_abs_error [simp]: "pod_abs (s_cache (error_cache wa err s)) = pod_abs (s_cache s)"
  using removeNode_pods
  by (auto simp: error_cache_def pod_abs_def isAssumed_def fun_eq_iff split: schedule_error.splits option.splits)

lemma queue_error [simp]: "s_SchedulingQueue (error_cache wa err s) = s_SchedulingQueue s"
  by (auto simp: error_cache_def split: schedule_error.splits option.splits)

lemma pod_abs_schedule:
  assumes "cache_inv (g_cache g)" "Schedule ex ch f npm g env pod = Some (g', env', r)"
  shows "pod_abs (g_cache g') = pod_abs (g_cache g)"
proof -
  obtain ks where "nodes_inv (g_cache g) ks" using assms(1) by (rule cache_invE)
  then have "nt_wf (sc_nodeTree (g_cache g))" by (simp add: nodes_inv_def)
  with Schedule_cache [OF assms(2)] UpdateSnapshot_tree show ?thesis by (metis pod_abs_tree)
qed

text \<open>The cache holds the pod of the cycle and, apart from it, the pods \<open>m\<close>.\<close>

definition held :: "phases \<Rightarrow> ('a, 'd, 'w) Scheduler \<Rightarrow> 'd cycle \<Rightarrow> int option \<Rightarrow> bool" where
  "held m s cy d \<longleftrightarrow> m (pod_UID (cy_pod cy)) = None \<and> pod_UID (cy_pod cy) \<noteq> [] \<and>
     pod_abs (s_cache s) = m(pod_UID (cy_pod cy) \<mapsto> Assumed (cy_pod cy) d)"

definition queued :: "('a, 'd, 'w) Scheduler \<Rightarrow> Pod \<Rightarrow> bool" where
  "queued s pod \<longleftrightarrow> pods_abs (s_SchedulingQueue s) (pod_id pod) \<noteq> None"

definition with_host :: "bool \<Rightarrow> Pod \<Rightarrow> 'd cycle \<Rightarrow> bool" where
  "with_host b pod cy \<longleftrightarrow> cy_pod cy = pod\<lparr>pod_NodeName := cy_host cy\<rparr> \<and> (b \<longrightarrow> cy_pod cy = pod)"

text \<open>
  The pod \<open>pod\<close> in a cycle that began with the pods \<open>m\<close> in the cache beside it, and the queue \<open>v\<close>. \<open>b\<close>
  tells the binding goroutine from the scheduling one.
\<close>

fun stage :: "bool \<Rightarrow> phases \<Rightarrow> qview \<Rightarrow> Pod \<Rightarrow> 'd pc \<Rightarrow> 'd pc option \<Rightarrow> ('a, 'd, 'w) Scheduler \<Rightarrow> bool" where
  "stage b m v pod (PSchedule i) sp s \<longleftrightarrow>
     sp = None \<and> qp_Pod i = pod \<and> pod_abs (s_cache s) = m \<and> qabs (s_SchedulingQueue s) = v \<and> \<not> b"
| "stage b m v pod (PPostFilter i st fe) sp s \<longleftrightarrow> sp = None \<and> qp_Pod i = pod \<and> pod_abs (s_cache s) = m"
| "stage b m v pod (PAssume cy) sp s \<longleftrightarrow>
     sp = None \<and> cy_pod cy = pod \<and> pod_abs (s_cache s) = m \<and> qabs (s_SchedulingQueue s) = v \<and> \<not> b"
| "stage b m v pod (PReserve cy) sp s \<longleftrightarrow> sp = None \<and> with_host b pod cy \<and> held m s cy None \<and> qabs (s_SchedulingQueue s) = v \<and> \<not> b"
| "stage b m v pod (PPermit cy) sp s \<longleftrightarrow> sp = None \<and> with_host b pod cy \<and> held m s cy None \<and> qabs (s_SchedulingQueue s) = v \<and> \<not> b"
| "stage b m v pod (PWait cy) sp s \<longleftrightarrow> sp = None \<and> with_host b pod cy \<and> (\<exists>d. held m s cy d) \<and> qabs (s_SchedulingQueue s) = v \<and> b"
| "stage b m v pod (PPreBind cy) sp s \<longleftrightarrow> sp = None \<and> with_host b pod cy \<and> (\<exists>d. held m s cy d) \<and> qabs (s_SchedulingQueue s) = v \<and> b"
| "stage b m v pod (PBind cy) sp s \<longleftrightarrow> sp = None \<and> with_host b pod cy \<and> (\<exists>d. held m s cy d) \<and> qabs (s_SchedulingQueue s) = v \<and> b"
| "stage b m v pod (PFinish cy err) sp s \<longleftrightarrow> sp = None \<and> with_host b pod cy \<and> (\<exists>d. held m s cy d) \<and> qabs (s_SchedulingQueue s) = v \<and> b"
| "stage b m v pod (PPostBind cy) sp s \<longleftrightarrow> sp = None \<and> with_host b pod cy \<and> (\<exists>d. held m s cy (Some d)) \<and> qabs (s_SchedulingQueue s) = v \<and> b"
| "stage b m v pod (PUnreserve cy err reason) sp s \<longleftrightarrow> sp = None \<and> with_host b pod cy \<and> (\<exists>d. held m s cy d)"
| "stage b m v pod (PForget cy err reason) sp s \<longleftrightarrow> sp = None \<and> with_host b pod cy \<and> (\<exists>d. held m s cy d)"
| "stage b m v pod (PError fl) sp s \<longleftrightarrow> sp = None \<and> pod_abs (s_cache s) = m \<and> pod_id (qp_Pod (fl_info fl)) = pod_id pod"
| "stage b m v pod (PLookup fl) sp s \<longleftrightarrow> sp = None \<and> pod_abs (s_cache s) = m \<and> pod_id (qp_Pod (fl_info fl)) = pod_id pod"
| "stage b m v pod (PRequeue fl cycle) sp s \<longleftrightarrow> sp = None \<and> pod_abs (s_cache s) = m \<and> pod_id (qp_Pod (fl_info fl)) = pod_id pod"
| "stage b m v pod (PNominate fl) sp s \<longleftrightarrow> sp = None \<and> pod_abs (s_cache s) = m \<and> queued s pod"
| "stage b m v pod (PUpdate fl) sp s \<longleftrightarrow> sp = None \<and> pod_abs (s_cache s) = m \<and> queued s pod"
| "stage b m v pod PDone sp s \<longleftrightarrow>
     (case sp of
        Some p \<Rightarrow> \<not> b \<and> (\<exists>cy. p = PWait cy \<and> with_host b pod cy \<and> held m s cy None) \<and> qabs (s_SchedulingQueue s) = v
      | None \<Rightarrow> pod_abs (s_cache s) = m \<and> queued s pod \<or>
          b \<and> (\<exists>cy d. with_host b pod cy \<and> held m s cy (Some d)) \<and> qabs (s_SchedulingQueue s) = v)"
| "stage b m v pod _ sp s \<longleftrightarrow> False"

lemma held_cong [simp]:
  "held m s (cy\<lparr>cy_state := st\<rparr>) = held m s cy" "with_host b pod (cy\<lparr>cy_state := st\<rparr>) = with_host b pod cy"
  "held m (s\<lparr>s_world := w\<rparr>) = held m s" "held m (set_queue q s) = held m s"
  "held m (set_framework name f s) = held m s" "queued (s\<lparr>s_world := w\<rparr>) pod = queued s pod"
  by (simp_all add: held_def with_host_def queued_def cy_pod_def fun_eq_iff)

lemma with_host_id: "with_host b pod cy \<Longrightarrow> pod_id (cy_pod cy) = pod_id pod"
  by (simp add: with_host_def pod_id_def)

lemma stage_fail [simp]: "stage b m v pod (fail_pc info err reason nn) None s \<longleftrightarrow>
    pod_abs (s_cache s) = m \<and> pod_id (qp_Pod info) = pod_id pod"
  by (simp add: fail_pc_def)

lemma qabs_nominator [simp]: "qabs (q\<lparr>pq_PodNominator := n\<rparr>) = qabs q"
  by (auto simp: qabs_def pods_abs_def fun_eq_iff)

lemma queued_eq: "queued s pod \<longleftrightarrow> v_pods (qabs (s_SchedulingQueue s)) (pod_id pod) \<noteq> None"
  by (simp add: queued_def v_pods_qabs)

lemma stage_schedule:
  assumes k: "sched.keeps metaKey lt s" and st: "stage b m v pod (PSchedule i) sp s"
    and r: "step_schedule wa tk i s = Some (pc', sp', s')"
  shows "sp' = None \<and> stage b m v pod pc' None s'"
proof -
  have "cache_inv (s_cache s)" using k by (simp add: sched.keeps_def)
  with st r show ?thesis
    by (auto simp: step_schedule_def Let_def cy_pod_def split: Option.bind_splits sum.splits schedule_error.splits)
      (rule pod_abs_schedule; assumption)+
qed

lemma stage_assume:
  assumes k: "sched.keeps metaKey lt s" and st: "stage b m v pod (PAssume cy) sp s"
    and r: "step_assume wa cy s = Some (pc', sp', s')"
  shows "sp' = None \<and> stage b m v pod pc' None s'"
proof -
  let ?asSel = "ex_asSelector (wa_externals wa)"
  let ?p = "(cy_pod cy)\<lparr>pod_NodeName := cy_host cy\<rparr>"
  have "implements ?asSel (EvAssume ?p) (s_cache s)"
    using k by (intro AssumePod_implements) (simp add: sched.keeps_def)
  then obtain c err where c: "AssumePod ?asSel (s_cache s) ?p = (c, err)"
      "if pod_UID (cy_pod cy) = [] \<or> m (pod_UID (cy_pod cy)) \<noteq> None then pod_abs c = m \<and> err \<noteq> None
       else pod_abs c = m(pod_UID (cy_pod cy) \<mapsto> Assumed ?p None) \<and> err = None"
    using st by (auto simp: implements_def Let_def split: if_splits)
  show ?thesis
  proof (cases err)
    case None
    with c r st show ?thesis
      by (auto simp: step_assume_def assume_pod_def Let_def held_def with_host_def cy_pod_def split: if_splits)
  next
    case (Some e)
    with c r st show ?thesis
      by (auto simp: step_assume_def assume_pod_def Let_def pod_id_def split: if_splits)
  qed
qed

lemma stage_finish:
  assumes k: "sched.keeps metaKey lt s" and st: "stage b m v pod (PFinish cy err) sp s"
    and r: "step_finish tk cy err s = Some (pc', sp', s')"
  shows "sp' = None \<and> stage b m v pod pc' None s'"
proof -
  have "implements no_sel (EvFinish (cy_pod cy) (tk_now tk)) (s_cache s)"
    using k by (intro FinishBinding_implements) (simp add: sched.keeps_def)
  moreover obtain d where d: "held m s cy d" using st by auto
  ultimately have "\<exists>d'. held m (set_cache (fst (FinishBinding (tk_now tk) (s_cache s) (cy_pod cy))) s) cy (Some d')"
    by (auto simp: implements_def held_def Let_def)
  with st r show ?thesis by (auto simp: step_finish_def Let_def split: option.splits)
qed

lemma stage_forget:
  assumes k: "sched.keeps metaKey lt s" and st: "stage b m v pod (PForget cy err reason) sp s"
    and r: "step_forget cy err reason s = Some (pc', sp', s')"
  shows "sp' = None \<and> stage b m v pod pc' None s'"
proof -
  have "implements no_sel (EvForget (cy_pod cy)) (s_cache s)"
    using k by (intro ForgetPod_implements) (simp add: sched.keeps_def)
  moreover obtain d where d: "held m s cy d" using st by auto
  ultimately obtain c e where c: "ForgetPod (s_cache s) (cy_pod cy) = Some (c, e)" "pod_abs c = m"
    by (auto simp: implements_def held_def Let_def fun_upd_idem)
  with st r with_host_id [of b pod cy] show ?thesis by (auto simp: step_forget_def cy_pod_def)
qed

lemma stage_requeue:
  assumes k: "sched.keeps metaKey lt s" and n: "named pod" and st: "stage b m v pod (PRequeue fl cycle) sp s"
    and r: "error_requeue tk (fl_info fl) cycle s = Some (info, s')"
  shows "stage b m v pod (PNominate fl') None s'"
proof -
  have inv: "pq_inv metaKey lt (s_SchedulingQueue s)" using k by (simp add: sched.keeps_def)
  from r obtain q err where q: "AddUnschedulableIfNotPresent (tk_now tk) (s_SchedulingQueue s) (fl_info fl) cycle = Some (q, info, err)"
      "s' = set_queue q s"
    by (auto simp: error_requeue_def split: Option.bind_splits)
  have "q_implements metaKey lt (QFail (tk_now tk) (fl_info fl) cycle) (s_SchedulingQueue s)"
    using n st by (intro all_q_implement [OF inv]) simp
  then have "pods_abs q (pod_id pod) \<noteq> None"
    using q(1) st unfolding v_pods_qabs [symmetric] by (auto simp: q_implements_def split: if_splits)
  with q(2) st show ?thesis by (simp add: queued_def)
qed

lemma stage_step:
  assumes known: "\<forall>w. \<exists>p. wa_podLister wa w (pod_Namespace pod) (pod_Name pod) = Inr p" and l: "lister_doc wa"
    and k: "sched.keeps metaKey lt s" and n: "named pod" and st: "stage b m v pod pc sp s"
    and r: "goroutine_step wa tk pc s = Some (pc', sp', s')"
  shows "stage b m v pod pc' (case sp' of None \<Rightarrow> sp | Some p \<Rightarrow> Some p) s'"
proof (cases pc)
  case (PSchedule i)
  with stage_schedule [of metaKey lt s b m v pod i sp wa tk pc' sp' s'] k st r show ?thesis by auto
next
  case (PAssume cy)
  with stage_assume [of metaKey lt s b m v pod cy sp wa pc' sp' s'] k st r show ?thesis by auto
next
  case (PFinish cy err)
  with stage_finish [of metaKey lt s b m v pod cy err sp tk pc' sp' s'] k st r show ?thesis by auto
next
  case (PForget cy err reason)
  with stage_forget [of metaKey lt s b m v pod cy err reason sp pc' sp' s'] k st r show ?thesis by auto
next
  case (PLookup fl)
  obtain p where p: "wa_podLister wa (s_world s) (pod_Namespace pod) (pod_Name pod) = Inr p" using known by blast
  have "pod_Namespace (qp_Pod (fl_info fl)) = pod_Namespace pod" "pod_Name (qp_Pod (fl_info fl)) = pod_Name pod"
    using st PLookup by (simp_all add: pod_id_def)
  with p have "error_lookup wa (fl_info fl) s = Some ((fl_info fl)\<lparr>qp_Pod := p\<rparr>)" by (simp add: error_lookup_def)
  moreover have "pod_id p = pod_id pod" using p l by (auto simp: lister_doc_def pod_id_def)
  ultimately show ?thesis using PLookup st r by auto
next
  case (PRequeue fl cycle)
  with r obtain info where i: "error_requeue tk (fl_info fl) cycle s = Some (info, s')"
      "pc' = PNominate (fl\<lparr>fl_info := info\<rparr>)" "sp' = None"
    by (auto split: Option.bind_splits)
  then show ?thesis using stage_requeue [OF k n _ i(1), of b m v sp "fl\<lparr>fl_info := info\<rparr>"] st PRequeue by simp
qed (use st r in \<open>auto simp: step_postfilter_def step_reserve_def step_permit_def step_wait_def step_prebind_def step_bind_def
    step_postbind_def step_unreserve_def step_nominate_def step_update_def queued_eq Let_def
    split: Option.bind_splits prod.splits if_splits\<close>)

lemma run_stage:
  assumes known: "\<forall>w. \<exists>p. wa_podLister wa w (pod_Namespace pod) (pod_Name pod) = Inr p" and l: "lister_doc wa"
    and k: "cache_inv (s_cache s)" "pq_inv metaKey lt (s_SchedulingQueue s)" and n: "named pod"
    and st: "stage b m v pod pc None s" "pc_ok pc" and len: "steps_left pc \<le> N"
    and r: "run_goroutine N wa tks pc None s = Some (pc', sp', s')"
  shows "pc' = PDone \<and> stage b m v pod PDone sp' s' \<and> cache_inv (s_cache s') \<and> pq_inv metaKey lt (s_SchedulingQueue s')"
proof -
  let ?P = "\<lambda>pc sp s. stage b m v pod pc sp s \<and> pc_ok pc \<and> sched.keeps metaKey lt s"
  have "?P pc' sp' s'"
  proof (rule run_keeps [where P = ?P, OF _ r])
    fix tk pc sp s pc' sp' s'
    assume P: "?P pc sp s" and g: "goroutine_step wa tk pc s = Some (pc', sp', s')"
    then have kp: "sched.keeps metaKey lt s" and pc: "pc_ok pc" and st: "stage b m v pod pc sp s" by simp_all
    have "sched.good metaKey lt (goroutine_step wa tk pc s)"
      using sched.goroutine_good [OF kp pc refl l] .
    with stage_step [OF known l kp n st g] g
    show "stage b m v pod pc' (case sp' of None \<Rightarrow> sp | Some p \<Rightarrow> Some p) s' \<and> pc_ok pc' \<and> sched.keeps metaKey lt s'"
      by (simp add: sched.good_def)
  qed (use st k in \<open>simp add: sched.keeps_def\<close>)
  with run_done [OF r len] show ?thesis by (simp add: sched.keeps_def)
qed

subsection \<open>Properties\<close>




subsection \<open>Examples\<close>

definition demo_api :: "(unit, nat) world_api" where
  "demo_api = \<lparr>wa_externals = demo_externals\<lparr>ex_asSelector := (\<lambda>ls. Inr (\<lambda>l. True))\<rparr>,
     wa_podLister = (\<lambda>w ns n. Inr ((demo_pod n)\<lparr>pod_Namespace := ns\<rparr>)), wa_missingNode = (\<lambda>e w. None),
     wa_UpdatePodCondition = (\<lambda>cs c. (True, c # cs)), wa_Marshal = (\<lambda>p. Inr (pod_Name p)),
     wa_CreateTwoWayMergePatch = (\<lambda>a b. Inr (a @ b)), wa_Patch = (\<lambda>ns n p w. (None, Suc w))\<rparr>"

definition demo_scheduler :: "(unit, unit, nat) Scheduler" where
  "demo_scheduler = \<lparr>s_Algorithm = NewGenericScheduler (newSchedulerCache 30 1 0) NewEmptySnapshot [] False 0,
     s_SchedulingQueue = NewPriorityQueue doc_key PrioritySort_Less [],
     s_Profiles = [('''', \<lparr>pr_Name = '''', pr_Framework = demo_f\<rparr>)], s_world = 0\<rparr>"

definition demo_tick :: tick where
  "demo_tick = \<lparr>tk_choices = demo_choices, tk_now = 5, tk_clk = (\<lambda>i. 5), tk_metrics = False\<rparr>"

lemma demo_api_docs: "lister_doc demo_api" "selectors_doc demo_api"
    "\<forall>w. \<exists>p. wa_podLister demo_api w ns n = Inr p"
  by (simp_all add: lister_doc_def selectors_doc_def demo_api_def pod_id_def demo_pod_def)


text \<open>With two nodes in the cache.\<close>

definition demo_ready :: "(unit, unit, nat) Scheduler" where
  "demo_ready = set_cache demo_cache demo_scheduler"

definition demo_info :: QueuedPodInfo where
  "demo_info = newQueuedPodInfo 5 (demo_pod ''u'')"

lemma demo_ready_inv: "cache_inv (s_cache demo_ready)" "pq_inv doc_key PrioritySort_Less (s_SchedulingQueue demo_ready)"
proof -
  have "sys_reach no_sel demo_cache NewEmptySnapshot" unfolding demo_cache_def by (intro sr_add sr_new) simp
  then show "cache_inv (s_cache demo_ready)" using sys_reach_inv by (simp add: demo_ready_def)
  show "pq_inv doc_key PrioritySort_Less (s_SchedulingQueue demo_ready)"
    using demo_queue_inv by (simp add: demo_ready_def demo_scheduler_def demo_queue_def)
qed

definition demo_cycle :: "(unit, unit, nat) stepped" where
  "demo_cycle = run_goroutine 11 demo_api (\<lambda>_. demo_tick) (PSchedule demo_info) None demo_ready"

lemma demo_cycle_starts: "map_option (\<lambda>(pc, started, s). map_option (\<lambda>p. case p of PWait cy \<Rightarrow> cy_host cy | _ \<Rightarrow> '''') started)
    demo_cycle = Some (Some ''a'')"
  by code_simp


text \<open>The same pod, assumed; no plugin binds it.\<close>

definition demo_held :: "unit cycle" where
  "demo_held = \<lparr>cy_info = demo_info\<lparr>qp_Pod := (demo_pod ''u'')\<lparr>pod_NodeName := ''a''\<rparr>\<rparr>, cy_state = NewCycleState, cy_host = ''a''\<rparr>"

definition demo_assumed :: "(unit, unit, nat) Scheduler" where
  "demo_assumed = set_cache (fst (AssumePod no_sel demo_cache (cy_pod demo_held))) demo_ready"

definition demo_bind :: "(unit, unit, nat) stepped" where
  "demo_bind = run_goroutine 11 demo_api (\<lambda>_. demo_tick) (PWait demo_held) None demo_assumed"

lemma demo_bind_ends: "map_option (\<lambda>(pc, started, s). gm_get (sc_assumedPods (s_cache s)) ''u'') demo_bind = Some None"
  by code_simp


end
