(* ===== verification/Go_Float.thy ===== *)
theory Go_Float
  imports Complex_Main Go_Base
begin

text \<open>
  Go's \<open>float64\<close> where the scheduler uses it: quotients of integers, their differences, products
  and sums, and their conversion back to integers.

  A float is a rational number; the result of an operation is the exact result rounded by \<open>fl\<close>
  to 53 significant bits, ties to even, which is what IEEE 754 prescribes within the exponent range.
  The exponent is unbounded here: numbers that are too large or too small for a \<open>float64\<close> do not
  come up when 64-bit integers are divided, subtracted and multiplied a few times.
\<close>

named_theorems float_mono \<open>rounding respects the order\<close>

subsection \<open>Rounding\<close>

text \<open>To the nearest integer, ties to the even one.\<close>

definition round_even :: "rat \<Rightarrow> int" where
  "round_even t =
    (let f = \<lfloor>t\<rfloor>; d = t - of_int f in
     if d < 1 / 2 then f else if d > 1 / 2 then f + 1 else if even f then f else f + 1)"

function bit_length :: "int \<Rightarrow> int" where
  "bit_length n = (if n \<le> 0 then 0 else bit_length (n div 2) + 1)"
  by auto
termination by (relation "measure nat") auto

declare bit_length.simps [simp del]

text \<open>The exponent \<open>e\<close> of a positive number \<open>x\<close>, with \<open>2\<^sup>e \<le> x < 2\<^sup>e\<^sup>+\<^sup>1\<close>.\<close>

definition exponent :: "rat \<Rightarrow> int" where
  "exponent x =
    (case quotient_of x of (a, b) \<Rightarrow>
      let e = bit_length a - bit_length b in
      if 2 powi e \<le> x then e else e - 1)"

definition fl_pos :: "rat \<Rightarrow> rat" where
  "fl_pos x = (let u = 2 powi (exponent x - 52) in of_int (round_even (x / u)) * u)"

definition fl :: "rat \<Rightarrow> rat" where
  "fl x = (if x = 0 then 0 else if x > 0 then fl_pos x else - fl_pos (- x))"

subsection \<open>Operations\<close>

definition float64 :: "int \<Rightarrow> rat" where
  "float64 n = fl (of_int n)"

definition fdiv :: "rat \<Rightarrow> rat \<Rightarrow> rat" where
  "fdiv x y = fl (x / y)"

definition fadd :: "rat \<Rightarrow> rat \<Rightarrow> rat" where
  "fadd x y = fl (x + y)"

definition fsub :: "rat \<Rightarrow> rat \<Rightarrow> rat" where
  "fsub x y = fl (x - y)"

definition fmul :: "rat \<Rightarrow> rat \<Rightarrow> rat" where
  "fmul x y = fl (x * y)"

text \<open>The conversion \<open>int64(x)\<close> drops the fraction; \<open>math.Round\<close> rounds halves away from zero.\<close>

definition int64_of :: "rat \<Rightarrow> int" where
  "int64_of x = (if x < 0 then - \<lfloor>- x\<rfloor> else \<lfloor>x\<rfloor>)"

definition math_Round :: "rat \<Rightarrow> rat" where
  "math_Round x = (if x < 0 then - of_int \<lfloor>- x + 1 / 2\<rfloor> else of_int \<lfloor>x + 1 / 2\<rfloor>)"

subsection \<open>Facts\<close>

lemma round_even_of_int [simp]: "round_even (of_int n) = n"
  by (simp add: round_even_def)

lemma round_even_mono:
  assumes "s \<le> t"
  shows "round_even s \<le> round_even t"
proof (cases "\<lfloor>s\<rfloor> = \<lfloor>t\<rfloor>")
  case True
  then show ?thesis using assms by (auto simp: round_even_def Let_def)
next
  case False
  then have "\<lfloor>s\<rfloor> + 1 \<le> \<lfloor>t\<rfloor>" using floor_mono [OF assms] by simp
  moreover have "round_even s \<le> \<lfloor>s\<rfloor> + 1" "\<lfloor>t\<rfloor> \<le> round_even t"
    by (auto simp: round_even_def Let_def)
  ultimately show ?thesis by linarith
qed

lemma bit_length_bits: "n > 0 \<Longrightarrow> \<exists>k. bit_length n = int (Suc k) \<and> 2 ^ k \<le> n \<and> n < 2 ^ Suc k"
proof (induction n rule: bit_length.induct)
  case (1 n)
  show ?case
  proof (cases "n = 1")
    case True
    then show ?thesis by (intro exI [of _ 0]) (simp add: bit_length.simps [of 1] bit_length.simps [of 0])
  next
    case False
    then have "n div 2 > 0" using 1(2) by simp
    then obtain k where k: "bit_length (n div 2) = int (Suc k)" "2 ^ k \<le> n div 2" "n div 2 < 2 ^ Suc k"
      using 1 by auto
    have "bit_length n = int (Suc (Suc k))" using 1(2) k(1) by (subst bit_length.simps) simp
    moreover have "2 ^ Suc k \<le> n" "n < 2 ^ Suc (Suc k)" using k(2,3) by simp_all
    ultimately show ?thesis by blast
  qed
qed

lemma bit_length_bounds:
  assumes "n > 0"
  shows "(2 :: rat) powi (bit_length n - 1) \<le> of_int n \<and> of_int n < (2 :: rat) powi bit_length n"
proof -
  obtain k where k: "bit_length n = int (Suc k)" "2 ^ k \<le> n" "n < 2 ^ Suc k"
    using bit_length_bits [OF assms] by blast
  have "rat_of_int (2 ^ k) \<le> of_int n" "of_int n < rat_of_int (2 ^ Suc k)"
    using k(2,3) by (simp_all only: of_int_le_iff of_int_less_iff)
  moreover have "bit_length n - 1 = int k" by (simp add: k)
  ultimately show ?thesis by (simp only: k(1) power_int_of_nat) simp
qed

lemma exponent_bounds:
  assumes "x > 0"
  shows "2 powi exponent x \<le> x" "x < 2 powi (exponent x + 1)"
proof -
  obtain a b where q: "quotient_of x = (a, b)" by fastforce
  have b: "b > 0" using quotient_of_denom_pos [OF q] .
  have x: "x = of_int a / of_int b" using quotient_of_div [OF q] .
  have a: "a > 0" using assms b by (simp add: x zero_less_divide_iff)
  let ?a = "bit_length a" and ?b = "bit_length b"
  note A = bit_length_bounds [OF a] bit_length_bounds [OF b]
  define e where "e = ?a - ?b"
  have e: "?a - (?b - 1) = e + 1" "(?a - 1) - ?b = e - 1" by (simp_all add: e_def)
  have quot: "(2 :: rat) powi m / 2 powi n = 2 powi (m - n)" for m n
    by (rule power_int_diff [symmetric]) simp
  have "x < 2 powi ?a / of_int b"
    using A b by (simp add: x divide_strict_right_mono)
  also have "\<dots> \<le> 2 powi ?a / 2 powi (?b - 1)"
    using A by (intro divide_left_mono) (auto simp: b)
  also have "\<dots> = 2 powi (e + 1)"
    by (simp only: quot e)
  finally have up: "x < 2 powi (e + 1)" .
  have "(2 :: rat) powi (e - 1) = 2 powi (?a - 1) / 2 powi ?b"
    by (simp only: quot e)
  also have "\<dots> < 2 powi (?a - 1) / of_int b"
    using A b by (intro divide_strict_left_mono) auto
  also have "\<dots> \<le> x"
    using A b by (simp add: x divide_right_mono)
  finally have low: "2 powi (e - 1) < x" .
  have E: "exponent x = (if 2 powi e \<le> x then e else e - 1)"
    by (simp add: exponent_def q e_def)
  show "2 powi exponent x \<le> x" using low by (simp add: E)
  show "x < 2 powi (exponent x + 1)" using up by (auto simp: E)
qed

lemma exponent_mono:
  assumes "0 < x" "x \<le> y"
  shows "exponent x \<le> exponent y"
proof (rule ccontr)
  assume "\<not> exponent x \<le> exponent y"
  then have "(2 :: rat) powi (exponent y + 1) \<le> 2 powi exponent x" by (intro power_int_increasing) auto
  then show False using exponent_bounds [of x] exponent_bounds [of y] assms by linarith
qed

lemma fl_pos_bounds:
  assumes "0 < x"
  shows "2 powi exponent x \<le> fl_pos x" "fl_pos x \<le> 2 powi (exponent x + 1)"
proof -
  let ?u = "2 powi (exponent x - 52) :: rat"
  have u: "?u > 0" by simp
  have c: "(2 :: rat) powi exponent x = of_int (2 ^ 52) * ?u"
    "(2 :: rat) powi (exponent x + 1) = of_int (2 ^ 53) * ?u"
    by (simp_all add: power_int_add power_int_diff)
  have "of_int (2 ^ 52) \<le> x / ?u" "x / ?u \<le> of_int (2 ^ 53)"
    using exponent_bounds [OF assms] u unfolding c by (simp_all add: pos_le_divide_eq pos_divide_le_eq)
  then have "2 ^ 52 \<le> round_even (x / ?u)" "round_even (x / ?u) \<le> 2 ^ 53"
    using round_even_mono [of "of_int (2 ^ 52)" "x / ?u"] round_even_mono [of "x / ?u" "of_int (2 ^ 53)"]
    unfolding round_even_of_int by blast+
  then have "rat_of_int (2 ^ 52) \<le> of_int (round_even (x / ?u))" "of_int (round_even (x / ?u)) \<le> rat_of_int (2 ^ 53)"
    by (simp_all only: of_int_le_iff)
  then show "2 powi exponent x \<le> fl_pos x" "fl_pos x \<le> 2 powi (exponent x + 1)"
    unfolding c fl_pos_def Let_def using u by (simp_all only: mult_right_mono order_less_imp_le)
qed

lemma fl_pos_mono:
  assumes "0 < x" "x \<le> y"
  shows "fl_pos x \<le> fl_pos y"
proof (cases "exponent x = exponent y")
  case True
  have "x / 2 powi (exponent x - 52) \<le> y / 2 powi (exponent x - 52)"
    using assms(2) by (intro divide_right_mono) auto
  then show ?thesis
    by (simp add: fl_pos_def Let_def True [symmetric] mult_right_mono round_even_mono)
next
  case False
  then have "(2 :: rat) powi (exponent x + 1) \<le> 2 powi exponent y"
    using exponent_mono [OF assms] by (intro power_int_increasing) auto
  then show ?thesis using fl_pos_bounds [of x] fl_pos_bounds [of y] assms by linarith
qed

lemma fl_pos_pos: "0 < x \<Longrightarrow> 0 < fl_pos x"
  using fl_pos_bounds(1) [of x] zero_less_power_int [of "2 :: rat" "exponent x"] by linarith

lemma fl_0 [simp]: "fl 0 = 0"
  by (simp add: fl_def)

lemma fl_mono [float_mono]: "x \<le> y \<Longrightarrow> fl x \<le> fl y"
  using fl_pos_mono [of x y] fl_pos_mono [of "- y" "- x"] fl_pos_pos [of "- x"] fl_pos_pos [of y]
  by (auto simp: fl_def)

lemma fl_nonneg [float_mono]: "0 \<le> x \<Longrightarrow> 0 \<le> fl x"
  using fl_mono [of 0 x] by simp

text \<open>Integers of up to 53 bits are represented exactly.\<close>

lemma fl_pos_of_int:
  assumes "0 < n" "n \<le> 2 ^ 53"
  shows "fl_pos (of_int n) = of_int n"
proof (cases "n = 2 ^ 53")
  case True
  have "fl_pos (of_int n) \<ge> 2 powi exponent (of_int n)" "fl_pos (of_int n) \<le> 2 powi (exponent (of_int n) + 1)"
    using fl_pos_bounds [of "of_int n"] assms by auto
  have "exponent (of_int n) = 53"
  proof (rule antisym)
    show "exponent (of_int n) \<le> 53"
    proof (rule ccontr)
      assume "\<not> exponent (of_int n) \<le> 53"
      then have "(2 :: rat) powi 54 \<le> 2 powi exponent (of_int n)" by (intro power_int_increasing) auto
      then show False using exponent_bounds(1) [of "of_int n"] True by simp
    qed
    show "53 \<le> exponent (of_int n)"
    proof (rule ccontr)
      assume "\<not> 53 \<le> exponent (of_int n)"
      then have "(2 :: rat) powi (exponent (of_int n) + 1) \<le> 2 powi 53" by (intro power_int_increasing) auto
      then show False using exponent_bounds(2) [of "of_int n"] True by simp
    qed
  qed
  then have "fl_pos (of_int n) = of_int (round_even (of_int (2 ^ 52))) * 2"
    by (simp add: fl_pos_def True)
  then show ?thesis unfolding round_even_of_int by (simp add: True)
next
  case False
  then have n: "n < 2 ^ 53" using assms by simp
  let ?e = "exponent (rat_of_int n)"
  have "?e \<le> 52"
  proof (rule ccontr)
    assume "\<not> ?e \<le> 52"
    then have "(2 :: rat) powi 53 \<le> 2 powi ?e" by (intro power_int_increasing) auto
    moreover have "2 powi ?e \<le> rat_of_int n" using exponent_bounds(1) assms by simp
    ultimately have "rat_of_int (2 ^ 53) \<le> rat_of_int n" by simp
    then show False using n by (simp only: of_int_le_iff)
  qed
  then obtain k :: nat where k: "52 - ?e = int k" by (metis diff_ge_0_iff_ge zero_le_imp_eq_int)
  have u: "(2 :: rat) powi (?e - 52) = 1 / 2 ^ k"
  proof -
    have "?e - 52 = - int k" using k by simp
    then show ?thesis by (simp only: power_int_minus power_int_of_nat inverse_eq_divide)
  qed
  have "rat_of_int n / (1 / 2 ^ k) = of_int (n * 2 ^ k)" by simp
  then have "round_even (rat_of_int n / (1 / 2 ^ k)) = n * 2 ^ k" by (simp only: round_even_of_int)
  then show ?thesis by (simp add: fl_pos_def u Let_def)
qed

lemma fl_of_int: "\<bar>n\<bar> \<le> 2 ^ 53 \<Longrightarrow> fl (of_int n) = of_int n"
  using fl_pos_of_int [of n] fl_pos_of_int [of "- n"] by (auto simp: fl_def)

lemma fl_1 [simp]: "fl 1 = 1"
  using fl_of_int [of 1] by simp

lemma fl_100 [simp]: "fl 100 = 100"
  using fl_of_int [of 100] by simp

lemma fl_le_1 [float_mono]: "x \<le> 1 \<Longrightarrow> fl x \<le> 1"
  using fl_mono [of x 1] by simp

lemma fl_ge_1 [float_mono]: "1 \<le> x \<Longrightarrow> 1 \<le> fl x"
  using fl_mono [of 1 x] by simp

lemma int64_of_range: "0 \<le> x \<Longrightarrow> x \<le> of_int n \<Longrightarrow> 0 \<le> int64_of x \<and> int64_of x \<le> n"
  by (simp add: int64_of_def floor_le_iff)

end
