(* ===== verification/Plugin_State.thy ===== *)
theory Plugin_State
  imports Framework_Runtime Sched_Cache Go_Float
begin

text \<open>
  What the plugins under \<^verbatim>\<open>scheduler/framework/plugins\<close> share: the data they keep in a cycle
  state, with its method \<open>Clone\<close>, and their arguments (\<^verbatim>\<open>apis/config/types_pluginargs.go\<close>).

  The data of all plugins is one type, \<open>StateData\<close>, with a constructor for each type of the code:
  the type assertion of a plugin succeeds on its own constructor. A plugin that reads a cluster
  through its handle gets the snapshot as an argument. Methods that can panic return an option.
\<close>

subsection \<open>Topology pairs\<close>

type_synonym topologyPair = "string \<times> string"

text \<open>The labels of a node; reading a nil map gives nothing.\<close>

definition labels_of :: "Node \<Rightarrow> labelset" where
  "labels_of node = nilmap (node_Labels node)"

subsection \<open>Inter-pod affinity\<close>

type_synonym topologyToMatchedTermCount = "(topologyPair, int) gomap"

record affinityPreFilterState =
  topologyToMatchedExistingAntiAffinityTerms :: topologyToMatchedTermCount
  topologyToMatchedAffinityTerms :: topologyToMatchedTermCount
  topologyToMatchedAntiAffinityTerms :: topologyToMatchedTermCount
  ap_podInfo :: PodInfo

type_synonym scoreMap = "(string, (string, int) gomap) gomap"

record affinityPreScoreState =
  topologyScore :: scoreMap
  as_podInfo :: PodInfo

definition termcount_append :: "topologyToMatchedTermCount \<Rightarrow> topologyToMatchedTermCount \<Rightarrow> topologyToMatchedTermCount" where
  "termcount_append m toAppend =
    fold (\<lambda>e m. gm_put m (fst e) (i64 (gm_get0 m (fst e) + snd e))) toAppend m"

definition termcount_clone :: "topologyToMatchedTermCount \<Rightarrow> topologyToMatchedTermCount" where
  "termcount_clone m = termcount_append [] m"

definition affinityPreFilterState_Clone :: "affinityPreFilterState \<Rightarrow> affinityPreFilterState" where
  "affinityPreFilterState_Clone s =
    \<lparr>topologyToMatchedExistingAntiAffinityTerms = termcount_clone (topologyToMatchedExistingAntiAffinityTerms s),
     topologyToMatchedAffinityTerms = termcount_clone (topologyToMatchedAffinityTerms s),
     topologyToMatchedAntiAffinityTerms = termcount_clone (topologyToMatchedAntiAffinityTerms s),
     ap_podInfo = ap_podInfo s\<rparr>"

subsection \<open>Topology spreading\<close>

record topologySpreadConstraint =
  MaxSkew :: int
  TopologyKey :: string
  Selector :: selector

text \<open>The array \<open>[2]struct\<close> of the two critical paths, each a topology value and its number of matches.\<close>

type_synonym criticalPaths = "(string \<times> int) \<times> (string \<times> int)"

record spreadPreFilterState =
  Constraints :: "topologySpreadConstraint list"
  TpKeyToCriticalPaths :: "(string, criticalPaths) gomap"
  TpPairToMatchNum :: "(topologyPair, int) gomap"

record spreadPreScoreState =
  ss_Constraints :: "topologySpreadConstraint list"
  IgnoredNodes :: "string list"
  TopologyPairToPodCounts :: "(topologyPair, int) gomap"
  TopologyNormalizingWeight :: "rat list"

definition spreadPreFilterState_Clone :: "spreadPreFilterState \<Rightarrow> spreadPreFilterState" where
  "spreadPreFilterState_Clone s =
    \<lparr>Constraints = Constraints s,
     TpKeyToCriticalPaths =
       fold (\<lambda>e copy. gm_put copy (fst e) (fst (snd e), snd (snd e))) (TpKeyToCriticalPaths s) [],
     TpPairToMatchNum =
       fold (\<lambda>e copy. gm_put copy (fst (fst e), snd (fst e)) (snd e)) (TpPairToMatchNum s) []\<rparr>"

subsection \<open>Services and selectors\<close>

record Service =
  svc_Name :: string
  svc_Selector :: "labelset option"

record servicePreFilterState =
  matchingPodList :: "Pod list"
  matchingPodServices :: "Service list"

text \<open>A selector is known by what it matches and whether it is empty.\<close>

record selectorPreScoreState =
  sel_Matches :: selector
  sel_Empty :: bool

subsection \<open>The data of a cycle state\<close>

datatype StateData =
    FitData Resource
  | PortsData "ContainerPort list"
  | TaintData "Toleration list"
  | AffinityData affinityPreFilterState
  | AffinityScoreData affinityPreScoreState
  | SpreadData spreadPreFilterState
  | SpreadScoreData spreadPreScoreState
  | ServiceData servicePreFilterState
  | SelectorData selectorPreScoreState
  | OtherData string

text \<open>The data of the other plugins does not change after it is written and clones to itself.\<close>

fun StateData_Clone :: "StateData \<Rightarrow> StateData" where
  "StateData_Clone (AffinityData s) = AffinityData (affinityPreFilterState_Clone s)"
| "StateData_Clone (SpreadData s) = SpreadData (spreadPreFilterState_Clone s)"
| "StateData_Clone d = d"

type_synonym plugin_state = "StateData CycleState"

text \<open>
  Reading the state of a plugin: an error of \<open>Read\<close> is wrapped, and so is a failed type assertion,
  with the value printed by the verb \<open>%+v\<close> (the parameter \<open>show\<close>).
\<close>

definition read_state :: "string \<Rightarrow> string \<Rightarrow> (StateData \<Rightarrow> string) \<Rightarrow> (StateData \<Rightarrow> 'a option) \<Rightarrow> string \<Rightarrow>
    plugin_state \<Rightarrow> error + 'a" where
  "read_state begin_with what show as key cycleState =
    (case CycleState_Read cycleState key of
       Inl err \<Rightarrow> Inl (begin_with @ go_q key @ '' from cycleState: '' @ err)
     | Inr c \<Rightarrow> (case as c of None \<Rightarrow> Inl (show c @ what) | Some s \<Rightarrow> Inr s))"

fun as_FitData :: "StateData \<Rightarrow> Resource option" where
  "as_FitData (FitData r) = Some r" | "as_FitData _ = None"

fun as_PortsData :: "StateData \<Rightarrow> ContainerPort list option" where
  "as_PortsData (PortsData r) = Some r" | "as_PortsData _ = None"

fun as_TaintData :: "StateData \<Rightarrow> Toleration list option" where
  "as_TaintData (TaintData r) = Some r" | "as_TaintData _ = None"

fun as_AffinityData :: "StateData \<Rightarrow> affinityPreFilterState option" where
  "as_AffinityData (AffinityData r) = Some r" | "as_AffinityData _ = None"

fun as_AffinityScoreData :: "StateData \<Rightarrow> affinityPreScoreState option" where
  "as_AffinityScoreData (AffinityScoreData r) = Some r" | "as_AffinityScoreData _ = None"

fun as_SpreadData :: "StateData \<Rightarrow> spreadPreFilterState option" where
  "as_SpreadData (SpreadData r) = Some r" | "as_SpreadData _ = None"

fun as_SpreadScoreData :: "StateData \<Rightarrow> spreadPreScoreState option" where
  "as_SpreadScoreData (SpreadScoreData r) = Some r" | "as_SpreadScoreData _ = None"

fun as_ServiceData :: "StateData \<Rightarrow> servicePreFilterState option" where
  "as_ServiceData (ServiceData r) = Some r" | "as_ServiceData _ = None"

fun as_SelectorData :: "StateData \<Rightarrow> selectorPreScoreState option" where
  "as_SelectorData (SelectorData r) = Some r" | "as_SelectorData _ = None"

subsection \<open>Arguments of plugins\<close>

record ResourceSpec =
  rs_Name :: string
  rs_Weight :: int

record UtilizationShapePoint =
  usp_Utilization :: int
  usp_Score :: int

record NodeLabelArgs =
  PresentLabels :: "string list"
  AbsentLabels :: "string list"
  PresentLabelsPreference :: "string list"
  AbsentLabelsPreference :: "string list"

record NodeResourcesFitArgs =
  IgnoredResources :: "string list"
  IgnoredResourceGroups :: "string list"

record RequestedToCapacityRatioArgs =
  ra_Shape :: "UtilizationShapePoint list"
  ra_Resources :: "ResourceSpec list"

record ServiceAffinityArgs =
  sa_AffinityLabels :: "string list"
  sa_AntiAffinityLabelsPreference :: "string list"

text \<open>A \<open>runtime.Object\<close>; \<open>NilArgs\<close> is the nil interface, \<open>OtherArgs\<close> a type of another package.\<close>

datatype PluginArgs =
    NilArgs
  | InterPodAffinityArgs int
  | NodeLabelArgs NodeLabelArgs
  | NodeResourcesFitArgs NodeResourcesFitArgs
  | PodTopologySpreadArgs "TopologySpreadConstraint list"
  | RequestedToCapacityRatioArgs RequestedToCapacityRatioArgs
  | NodeResourcesLeastAllocatedArgs "ResourceSpec list"
  | NodeResourcesMostAllocatedArgs "ResourceSpec list"
  | ServiceAffinityArgs ServiceAffinityArgs
  | OtherArgs string

text \<open>The verb \<open>%T\<close>.\<close>

fun go_T :: "PluginArgs \<Rightarrow> string" where
  "go_T NilArgs = ''<nil>''"
| "go_T (InterPodAffinityArgs _) = ''*config.InterPodAffinityArgs''"
| "go_T (NodeLabelArgs _) = ''*config.NodeLabelArgs''"
| "go_T (NodeResourcesFitArgs _) = ''*config.NodeResourcesFitArgs''"
| "go_T (PodTopologySpreadArgs _) = ''*config.PodTopologySpreadArgs''"
| "go_T (RequestedToCapacityRatioArgs _) = ''*config.RequestedToCapacityRatioArgs''"
| "go_T (NodeResourcesLeastAllocatedArgs _) = ''*config.NodeResourcesLeastAllocatedArgs''"
| "go_T (NodeResourcesMostAllocatedArgs _) = ''*config.NodeResourcesMostAllocatedArgs''"
| "go_T (ServiceAffinityArgs _) = ''*config.ServiceAffinityArgs''"
| "go_T (OtherArgs t) = t"

definition want_args :: "string \<Rightarrow> PluginArgs \<Rightarrow> error" where
  "want_args name obj = ''want args to be of type '' @ name @ '', got '' @ go_T obj"

subsection \<open>Facts\<close>

lemma termcount_append_get0:
  "gm_ok toAppend \<Longrightarrow> gm_get0 (termcount_append m toAppend) p =
    (if gm_get toAppend p = None then gm_get0 m p else i64 (gm_get0 m p + gm_get0 toAppend p))"
  unfolding termcount_append_def
  by (induction toAppend arbitrary: m)
     (auto simp: gm_ok_def gm_get_Cons gm_get0_Cons gm_get0_notin gm_get_eq_None)

end
