(* ===== verification/Node_Resources.thy ===== *)
theory Node_Resources
  imports Plugin_State
begin

text \<open>
  The plugins of \<^verbatim>\<open>scheduler/framework/plugins/noderesources\<close>: the filter \<open>Fit\<close> and the score
  plugins \<open>LeastAllocated\<close>, \<open>MostAllocated\<close>, \<open>RequestedToCapacityRatio\<close> and
  \<open>BalancedAllocation\<close>, with the validation of their arguments
  (\<^verbatim>\<open>apis/config/validation/validation_pluginargs.go\<close>).

  A score that divides by zero is a panic, \<open>None\<close>. Floating point is that of \<open>Go_Float\<close>. Parameters:
  \<open>show\<close> prints a value with the verb \<open>%+v\<close>, and \<open>toAggregate\<close> makes an error of a list of
  invalid fields, each a path, a value and a message.
\<close>

subsection \<open>fit.go\<close>

definition FitName :: string where "FitName = ''NodeResourcesFit''"

definition fit_preFilterStateKey :: string where "fit_preFilterStateKey = ''PreFilter'' @ FitName"

record FitPlugin =
  ignoredResources :: "string list"
  ignoredResourceGroups :: "string list"

definition validateFitArgs :: "((string \<times> string \<times> string) list \<Rightarrow> error) \<Rightarrow> NodeResourcesFitArgs \<Rightarrow> error option" where
  "validateFitArgs toAggregate args =
    (let groups = IgnoredResourceGroups args;
         allErrs = map (\<lambda>i. (''ignoredResourceGroups['' @ go_v (int i) @ '']'', groups ! i,
             ''resource group name can't contain '' @ [CHR 0x27, CHR ''/'', CHR 0x27])) (filter (\<lambda>i. CHR ''/'' \<in> set (groups ! i)) [0..<length groups])
     in if length allErrs = 0 then None else Some (toAggregate allErrs))"

definition getFitArgs :: "PluginArgs \<Rightarrow> error + NodeResourcesFitArgs" where
  "getFitArgs obj =
    (case obj of NodeResourcesFitArgs args \<Rightarrow> Inr args
     | _ \<Rightarrow> Inl (want_args ''NodeResourcesFitArgs'' obj))"

definition NewFit :: "((string \<times> string \<times> string) list \<Rightarrow> error) \<Rightarrow> PluginArgs \<Rightarrow> error + FitPlugin" where
  "NewFit toAggregate plArgs =
    (case getFitArgs plArgs of
       Inl err \<Rightarrow> Inl err
     | Inr args \<Rightarrow>
         (case validateFitArgs toAggregate args of
            Some err \<Rightarrow> Inl err
          | None \<Rightarrow> Inr \<lparr>ignoredResources = remdups (IgnoredResources args),
              ignoredResourceGroups = remdups (IgnoredResourceGroups args)\<rparr>))"

definition computePodResourceRequest :: "Pod \<Rightarrow> Resource" where
  "computePodResourceRequest pod =
    (let result = fold (\<lambda>container r. Resource_Add r (c_Requests container)) (pod_Containers pod) zero_Resource;
         result = fold (\<lambda>container r. SetMaxResource r (c_Requests container)) (pod_InitContainers pod) result
     in case pod_Overhead pod of None \<Rightarrow> result | Some overhead \<Rightarrow> Resource_Add result overhead)"

definition Fit_PreFilter :: "plugin_state \<Rightarrow> Pod \<Rightarrow> Status option \<times> plugin_state" where
  "Fit_PreFilter cycleState pod =
    (None, CycleState_Write cycleState fit_preFilterStateKey (FitData (computePodResourceRequest pod)))"

definition fit_getPreFilterState :: "(StateData \<Rightarrow> string) \<Rightarrow> plugin_state \<Rightarrow> error + Resource" where
  "fit_getPreFilterState show cycleState =
    read_state ''error reading '' ''  convert to NodeResourcesFit.preFilterState error'' show as_FitData
      fit_preFilterStateKey cycleState"

record InsufficientResource =
  ir_ResourceName :: string
  ir_Reason :: string
  ir_Requested :: int
  ir_Used :: int
  ir_Capacity :: int

text \<open>The prefix of an extended resource's name, up to the first slash.\<close>

definition group_prefix :: "string list \<Rightarrow> string \<Rightarrow> string" where
  "group_prefix groups rName = (if length groups > 0 then takeWhile (\<lambda>c. c \<noteq> CHR ''/'') rName else '''')"

definition insufficient_scalar :: "Resource \<Rightarrow> NodeInfo \<Rightarrow> string list \<Rightarrow> string list \<Rightarrow> string \<times> int \<Rightarrow>
    InsufficientResource list" where
  "insufficient_scalar podRequest nodeInfo ignoredExtendedResources groups e =
    (let rName = fst e; rQuant = snd e;
         allocatable = gm_get0 (nilmap (ScalarResources (ni_Allocatable nodeInfo))) rName;
         used = gm_get0 (nilmap (ScalarResources (ni_Requested nodeInfo))) rName in
     if List.member ignoredExtendedResources rName \<or> List.member groups (group_prefix groups rName) then []
     else if allocatable < i64 (rQuant + used)
     then [\<lparr>ir_ResourceName = rName, ir_Reason = ''Insufficient '' @ rName,
            ir_Requested = gm_get0 (nilmap (ScalarResources podRequest)) rName, ir_Used = used, ir_Capacity = allocatable\<rparr>]
     else [])"

text \<open>The check of one of the three resources every node has.\<close>

definition insufficient :: "string \<Rightarrow> (Resource \<Rightarrow> int) \<Rightarrow> Resource \<Rightarrow> NodeInfo \<Rightarrow> InsufficientResource list" where
  "insufficient name field podRequest nodeInfo =
    (if field (ni_Allocatable nodeInfo) < i64 (field podRequest + field (ni_Requested nodeInfo))
     then [\<lparr>ir_ResourceName = name, ir_Reason = ''Insufficient '' @ name, ir_Requested = field podRequest,
            ir_Used = field (ni_Requested nodeInfo), ir_Capacity = field (ni_Allocatable nodeInfo)\<rparr>]
     else [])"

definition fitsRequest :: "Resource \<Rightarrow> NodeInfo \<Rightarrow> string list \<Rightarrow> string list \<Rightarrow> InsufficientResource list" where
  "fitsRequest podRequest nodeInfo ignoredExtendedResources groups =
    (let allowedPodNumber = AllowedPodNumber (ni_Allocatable nodeInfo);
         pods = int (length (ni_Pods nodeInfo));
         tooMany = (if pods + 1 > allowedPodNumber
           then [\<lparr>ir_ResourceName = ResourcePods, ir_Reason = ''Too many pods'', ir_Requested = 1, ir_Used = pods,
                  ir_Capacity = allowedPodNumber\<rparr>]
           else [])
     in if MilliCPU podRequest = 0 \<and> Memory podRequest = 0 \<and> EphemeralStorage podRequest = 0
           \<and> length (nilmap (ScalarResources podRequest)) = 0
        then tooMany
        else tooMany @ insufficient ResourceCPU MilliCPU podRequest nodeInfo
          @ insufficient ResourceMemory Memory podRequest nodeInfo
          @ insufficient ResourceEphemeralStorage EphemeralStorage podRequest nodeInfo
          @ concat (map (insufficient_scalar podRequest nodeInfo ignoredExtendedResources groups)
              (nilmap (ScalarResources podRequest))))"

definition Fit_Filter :: "(StateData \<Rightarrow> string) \<Rightarrow> FitPlugin \<Rightarrow> plugin_state \<Rightarrow> NodeInfo \<Rightarrow> Status option" where
  "Fit_Filter show f cycleState nodeInfo =
    (case fit_getPreFilterState show cycleState of
       Inl err \<Rightarrow> Some (NewStatus Error [err])
     | Inr s \<Rightarrow>
         let insufficientResources = fitsRequest s nodeInfo (ignoredResources f) (ignoredResourceGroups f) in
         if length insufficientResources \<noteq> 0
         then Some (NewStatus Unschedulable (map ir_Reason insufficientResources))
         else None)"

definition Fits :: "Pod \<Rightarrow> NodeInfo \<Rightarrow> InsufficientResource list" where
  "Fits pod nodeInfo = fitsRequest (computePodResourceRequest pod) nodeInfo [] []"

subsection \<open>resource\_allocation.go\<close>

type_synonym resourceToWeightMap = "(string, int) gomap"
type_synonym resourceToValueMap = "(string, int) gomap"

type_synonym scorer = "resourceToValueMap \<Rightarrow> resourceToValueMap \<Rightarrow> bool \<Rightarrow> int \<Rightarrow> int \<Rightarrow> int option"

record resourceAllocationScorer =
  scorer_Name :: string
  scorer :: scorer
  scorer_weights :: "resourceToWeightMap option"

definition defaultRequestedRatioResources :: resourceToWeightMap where
  "defaultRequestedRatioResources = [(ResourceMemory, 1), (ResourceCPU, 1)]"

definition calculatePodResourceRequest :: "Pod \<Rightarrow> string \<Rightarrow> int" where
  "calculatePodResourceRequest pod resource =
    (let podRequest = fold (\<lambda>c r. i64 (r + GetNonzeroRequestForResource resource (c_Requests c))) (pod_Containers pod) 0;
         podRequest = fold (\<lambda>c r. let value = GetNonzeroRequestForResource resource (c_Requests c) in
           if r < value then value else r) (pod_InitContainers pod) podRequest
     in case pod_Overhead pod of
          None \<Rightarrow> podRequest
        | Some overhead \<Rightarrow> (case gm_get overhead resource of
            None \<Rightarrow> podRequest | Some quantity \<Rightarrow> i64 (podRequest + qty_Value quantity)))"

definition calculateResourceAllocatableRequest :: "NodeInfo \<Rightarrow> Pod \<Rightarrow> string \<Rightarrow> int \<times> int" where
  "calculateResourceAllocatableRequest nodeInfo pod resource =
    (let podRequest = calculatePodResourceRequest pod resource in
     if resource = ResourceCPU then
       (MilliCPU (ni_Allocatable nodeInfo), i64 (MilliCPU (ni_NonZeroRequested nodeInfo) + podRequest))
     else if resource = ResourceMemory then
       (Memory (ni_Allocatable nodeInfo), i64 (Memory (ni_NonZeroRequested nodeInfo) + podRequest))
     else if resource = ResourceEphemeralStorage then
       (EphemeralStorage (ni_Allocatable nodeInfo), i64 (EphemeralStorage (ni_Requested nodeInfo) + podRequest))
     else
       (gm_get0 (nilmap (ScalarResources (ni_Allocatable nodeInfo))) resource,
        i64 (gm_get0 (nilmap (ScalarResources (ni_Requested nodeInfo))) resource + podRequest)))"

text \<open>
  The transient information of a node is never nil in this model, and the length of a slice is never
  negative, so the scorer is called with the volumes.
\<close>

definition scorer_score :: "resourceAllocationScorer \<Rightarrow> Pod \<Rightarrow> NodeInfo \<Rightarrow> (int \<times> Status option) option" where
  "scorer_score r pod nodeInfo =
    (case ni_node nodeInfo of
       None \<Rightarrow> Some (0, Some (NewStatus Error [''node not found'']))
     | Some node \<Rightarrow>
         (case scorer_weights r of
            None \<Rightarrow> Some (0, Some (NewStatus Error [''resources not found'']))
          | Some weights \<Rightarrow>
              let allocatable = fold (\<lambda>e m. gm_put m (fst e) (fst (calculateResourceAllocatableRequest nodeInfo pod (fst e)))) weights [];
                  requested = fold (\<lambda>e m. gm_put m (fst e) (snd (calculateResourceAllocatableRequest nodeInfo pod (fst e)))) weights [];
                  t = TransNodeInfo (ni_TransientInfo nodeInfo)
              in map_option (\<lambda>score. (score, None))
                   (scorer r requested allocatable True (RequestedVolumes t) (AllocatableVolumesCount t))))"

text \<open>The method \<open>Score\<close> is the same in the four plugins but for the check of the node.\<close>

definition resource_Score :: "resourceAllocationScorer \<Rightarrow> Snapshot \<Rightarrow> Pod \<Rightarrow> string \<Rightarrow> (int \<times> Status option) option" where
  "resource_Score r snapshot pod nodeName =
    (case Snapshot_Get snapshot nodeName of
       Inl err \<Rightarrow> Some (0, Some (NewStatus Error [''getting node '' @ go_q nodeName @ '' from Snapshot: '' @ err]))
     | Inr nodeInfo \<Rightarrow> scorer_score r pod nodeInfo)"

definition most_Score :: "resourceAllocationScorer \<Rightarrow> Snapshot \<Rightarrow> Pod \<Rightarrow> string \<Rightarrow> (int \<times> Status option) option" where
  "most_Score r snapshot pod nodeName =
    (case Snapshot_Get snapshot nodeName of
       Inl err \<Rightarrow> Some (0, Some (NewStatus Error [''getting node '' @ go_q nodeName @ '' from Snapshot: '' @ err @
         '', node is nil: true'']))
     | Inr nodeInfo \<Rightarrow>
         if ni_node nodeInfo = None
         then Some (0, Some (NewStatus Error [''getting node '' @ go_q nodeName @ '' from Snapshot: <nil>, node is nil: true'']))
         else scorer_score r pod nodeInfo)"

definition ratio_Score :: "resourceAllocationScorer \<Rightarrow> Snapshot \<Rightarrow> Pod \<Rightarrow> string \<Rightarrow> (int \<times> Status option) option" where
  "ratio_Score = resource_Score"

definition balanced_Score :: "resourceAllocationScorer \<Rightarrow> Snapshot \<Rightarrow> Pod \<Rightarrow> string \<Rightarrow> (int \<times> Status option) option" where
  "balanced_Score = resource_Score"

subsection \<open>least\_allocated.go and most\_allocated.go\<close>

definition validateResources :: "ResourceSpec list \<Rightarrow> error option" where
  "validateResources resources =
    (case find (\<lambda>r. rs_Weight r \<le> 0 \<or> rs_Weight r > 100) resources of
       None \<Rightarrow> None
     | Some r \<Rightarrow>
         if rs_Weight r \<le> 0
         then Some (''resource Weight of '' @ rs_Name r @ '' should be a positive value, got '' @ go_v (rs_Weight r))
         else Some (''resource Weight of '' @ rs_Name r @ '' should be less than 100, got '' @ go_v (rs_Weight r)))"

definition leastRequestedScore :: "int \<Rightarrow> int \<Rightarrow> int option" where
  "leastRequestedScore requested capacity =
    (if capacity = 0 then Some 0
     else if requested > capacity then Some 0
     else quot64 (i64 (i64 (capacity - requested) * MaxNodeScore)) capacity)"

definition mostRequestedScore :: "int \<Rightarrow> int \<Rightarrow> int option" where
  "mostRequestedScore requested capacity =
    (if capacity = 0 then Some 0
     else if requested > capacity then Some 0
     else quot64 (i64 (requested * MaxNodeScore)) capacity)"

fun weigh_resources :: "(int \<Rightarrow> int \<Rightarrow> int option) \<Rightarrow> resourceToValueMap \<Rightarrow> resourceToValueMap \<Rightarrow> resourceToWeightMap \<Rightarrow>
    int \<times> int \<Rightarrow> (int \<times> int) option" where
  "weigh_resources score requested allocable [] acc = Some acc"
| "weigh_resources score requested allocable ((resource, weight) # es) (nodeScore, weightSum) =
    do { resourceScore \<leftarrow> score (gm_get0 requested resource) (gm_get0 allocable resource);
         weigh_resources score requested allocable es (i64 (nodeScore + i64 (resourceScore * weight)), i64 (weightSum + weight)) }"

definition leastResourceScorer :: "resourceToWeightMap \<Rightarrow> scorer" where
  "leastResourceScorer resToWeightMap requested allocable includeVolumes requestedVolumes allocatableVolumes =
    do { (nodeScore, weightSum) \<leftarrow> weigh_resources leastRequestedScore requested allocable resToWeightMap (0, 0);
         quot64 nodeScore weightSum }"

definition mostResourceScorer :: "resourceToWeightMap \<Rightarrow> scorer" where
  "mostResourceScorer resToWeightMap requested allocable includeVolumes requestedVolumes allocatableVolumes =
    do { (nodeScore, weightSum) \<leftarrow> weigh_resources mostRequestedScore requested allocable resToWeightMap (0, 0);
         quot64 nodeScore weightSum }"

definition weight_map :: "ResourceSpec list \<Rightarrow> resourceToWeightMap" where
  "weight_map resources = fold (\<lambda>r m. gm_put m (rs_Name r) (rs_Weight r)) resources []"

definition NewLeastAllocated :: "PluginArgs \<Rightarrow> error + resourceAllocationScorer" where
  "NewLeastAllocated laArgs =
    (case laArgs of
       NodeResourcesLeastAllocatedArgs resources \<Rightarrow>
         (case validateResources resources of
            Some err \<Rightarrow> Inl err
          | None \<Rightarrow>
              let resToWeightMap = weight_map resources
              in Inr \<lparr>scorer_Name = ''NodeResourcesLeastAllocated'', scorer = leastResourceScorer resToWeightMap,
                   scorer_weights = Some resToWeightMap\<rparr>)
     | _ \<Rightarrow> Inl (want_args ''NodeResourcesLeastAllocatedArgs'' laArgs))"

text \<open>The error prints the type of the failed assertion's result, not of the argument.\<close>

definition NewMostAllocated :: "PluginArgs \<Rightarrow> error + resourceAllocationScorer" where
  "NewMostAllocated maArgs =
    (case maArgs of
       NodeResourcesMostAllocatedArgs resources \<Rightarrow>
         (case validateResources resources of
            Some err \<Rightarrow> Inl err
          | None \<Rightarrow>
              let resToWeightMap = weight_map resources
              in Inr \<lparr>scorer_Name = ''NodeResourcesMostAllocated'', scorer = mostResourceScorer resToWeightMap,
                   scorer_weights = Some resToWeightMap\<rparr>)
     | _ \<Rightarrow> Inl (want_args ''NodeResourcesMostAllocatedArgs'' (NodeResourcesMostAllocatedArgs [])))"

subsection \<open>requested\_to\_capacity\_ratio.go\<close>

record functionShapePoint =
  fp_utilization :: int
  fp_score :: int

definition maxUtilization :: int where "maxUtilization = 100"
definition MaxCustomPriorityScore :: int where "MaxCustomPriorityScore = 10"

text \<open>The validation reports the first of its checks that fails.\<close>

definition shape_error :: "string \<Rightarrow> string \<Rightarrow> int \<Rightarrow> string \<Rightarrow> nat \<Rightarrow> int \<Rightarrow> error" where
  "shape_error what how bound field i v =
    what @ '' values must not be '' @ how @ '' than '' @ go_v bound @ ''. '' @ field @ ''['' @ go_v (int i) @ '']=='' @ go_v v"

definition check_point :: "nat \<Rightarrow> UtilizationShapePoint \<Rightarrow> error option" where
  "check_point i point =
    (if usp_Utilization point < 0 then Some (shape_error ''utilization'' ''less'' 0 ''Utilization'' i (usp_Utilization point))
     else if usp_Utilization point > 100 then Some (shape_error ''utilization'' ''greater'' 100 ''Utilization'' i (usp_Utilization point))
     else if usp_Score point < 0 then Some (shape_error ''score'' ''less'' 0 ''Score'' i (usp_Score point))
     else if usp_Score point > i32 MaxCustomPriorityScore
     then Some (shape_error ''score'' ''greater'' (i32 MaxCustomPriorityScore) ''Score'' i (usp_Score point))
     else None)"

fun check_order :: "nat \<Rightarrow> UtilizationShapePoint list \<Rightarrow> error option" where
  "check_order i (p # q # ps) =
    (if usp_Utilization p \<ge> usp_Utilization q
     then Some (''utilization values must be sorted. Utilization['' @ go_v (int i) @ '']=='' @ go_v (usp_Utilization p) @
       '' >= Utilization['' @ go_v (int (i + 1)) @ '']=='' @ go_v (usp_Utilization q))
     else check_order (i + 1) (q # ps))"
| "check_order i _ = None"

fun check_points :: "nat \<Rightarrow> UtilizationShapePoint list \<Rightarrow> error option" where
  "check_points i [] = None"
| "check_points i (p # ps) = (case check_point i p of Some err \<Rightarrow> Some err | None \<Rightarrow> check_points (i + 1) ps)"

definition validateFunctionShape :: "UtilizationShapePoint list \<Rightarrow> error option" where
  "validateFunctionShape shape =
    (if length shape = 0 then Some ''at least one point must be specified''
     else case check_order 0 shape of Some err \<Rightarrow> Some err | None \<Rightarrow> check_points 0 shape)"

definition validateResourcesNoMax :: "ResourceSpec list \<Rightarrow> error option" where
  "validateResourcesNoMax resources =
    (case find (\<lambda>r. rs_Weight r < 1) resources of
       None \<Rightarrow> None
     | Some r \<Rightarrow> Some (''resource '' @ rs_Name r @ '' weight '' @ go_v (rs_Weight r) @ '' must not be less than 1''))"

definition ValidateRequestedToCapacityRatioArgs :: "RequestedToCapacityRatioArgs \<Rightarrow> error option" where
  "ValidateRequestedToCapacityRatioArgs args =
    (case validateFunctionShape (ra_Shape args) of
       Some err \<Rightarrow> Some err
     | None \<Rightarrow> validateResourcesNoMax (ra_Resources args))"

text \<open>The points of the shape from the one before on.\<close>

fun broken_linear_from :: "functionShapePoint \<Rightarrow> functionShapePoint list \<Rightarrow> int \<Rightarrow> int option" where
  "broken_linear_from prev [] p = Some (fp_score prev)"
| "broken_linear_from prev (pt # pts) p =
    (if p \<le> fp_utilization pt
     then do { d \<leftarrow> quot64 (i64 (i64 (fp_score pt - fp_score prev) * i64 (p - fp_utilization prev)))
                 (i64 (fp_utilization pt - fp_utilization prev));
               Some (i64 (fp_score prev + d)) }
     else broken_linear_from pt pts p)"

definition buildBrokenLinearFunction :: "functionShapePoint list \<Rightarrow> int \<Rightarrow> int option" where
  "buildBrokenLinearFunction shape p =
    (case shape of
       [] \<Rightarrow> None
     | pt # pts \<Rightarrow> if p \<le> fp_utilization pt then Some (fp_score pt) else broken_linear_from pt pts p)"

definition resourceScoringFunction :: "functionShapePoint list \<Rightarrow> int \<Rightarrow> int \<Rightarrow> int option" where
  "resourceScoringFunction shape requested capacity =
    (if capacity = 0 \<or> requested > capacity then buildBrokenLinearFunction shape maxUtilization
     else do { q \<leftarrow> quot64 (i64 (i64 (capacity - requested) * maxUtilization)) capacity;
               buildBrokenLinearFunction shape (i64 (maxUtilization - q)) })"

fun ratio_resources :: "functionShapePoint list \<Rightarrow> resourceToValueMap \<Rightarrow> resourceToValueMap \<Rightarrow> resourceToWeightMap \<Rightarrow>
    int \<times> int \<Rightarrow> (int \<times> int) option" where
  "ratio_resources shape requested allocable [] acc = Some acc"
| "ratio_resources shape requested allocable ((resource, weight) # es) (nodeScore, weightSum) =
    do { resourceScore \<leftarrow> resourceScoringFunction shape (gm_get0 requested resource) (gm_get0 allocable resource);
         ratio_resources shape requested allocable es
           (if resourceScore > 0 then (i64 (nodeScore + i64 (resourceScore * weight)), i64 (weightSum + weight))
            else (nodeScore, weightSum)) }"

definition buildRequestedToCapacityRatioScorerFunction :: "functionShapePoint list \<Rightarrow> resourceToWeightMap \<Rightarrow> scorer" where
  "buildRequestedToCapacityRatioScorerFunction scoringFunctionShape weights requested allocable
      includeVolumes requestedVolumes allocatableVolumes =
    do { (nodeScore, weightSum) \<leftarrow> ratio_resources scoringFunctionShape requested allocable weights (0, 0);
         Some (if weightSum = 0 then 0
               else int64_of (math_Round (fdiv (float64 nodeScore) (float64 weightSum)))) }"

definition ratio_shape :: "UtilizationShapePoint list \<Rightarrow> functionShapePoint list" where
  "ratio_shape shape =
    map (\<lambda>point. \<lparr>fp_utilization = usp_Utilization point,
      fp_score = i64 (usp_Score point * (MaxNodeScore div MaxCustomPriorityScore))\<rparr>) shape"

definition ratio_weights :: "ResourceSpec list \<Rightarrow> resourceToWeightMap" where
  "ratio_weights resources =
    fold (\<lambda>r m. gm_put m (rs_Name r) (if rs_Weight r = 0 then 1 else rs_Weight r)) resources []"

definition NewRequestedToCapacityRatio :: "PluginArgs \<Rightarrow> error + resourceAllocationScorer" where
  "NewRequestedToCapacityRatio plArgs =
    (case plArgs of
       RequestedToCapacityRatioArgs args \<Rightarrow>
         (case ValidateRequestedToCapacityRatioArgs args of
            Some err \<Rightarrow> Inl err
          | None \<Rightarrow>
              let shape = ratio_shape (ra_Shape args); weights = ratio_weights (ra_Resources args)
              in Inr \<lparr>scorer_Name = ''RequestedToCapacityRatio'',
                   scorer = buildRequestedToCapacityRatioScorerFunction shape weights, scorer_weights = Some weights\<rparr>)
     | _ \<Rightarrow> Inl (want_args ''RequestedToCapacityRatioArgs'' plArgs))"

subsection \<open>balanced\_allocation.go\<close>

definition fractionOfCapacity :: "int \<Rightarrow> int \<Rightarrow> rat" where
  "fractionOfCapacity requested capacity = (if capacity = 0 then 1 else fdiv (float64 requested) (float64 capacity))"

text \<open>The products are rounded before they are added: no fused multiply-add.\<close>

definition balancedResourceScorer :: scorer where
  "balancedResourceScorer requested allocable includeVolumes requestedVolumes allocatableVolumes =
    (let cpuFraction = fractionOfCapacity (gm_get0 requested ResourceCPU) (gm_get0 allocable ResourceCPU);
         memoryFraction = fractionOfCapacity (gm_get0 requested ResourceMemory) (gm_get0 allocable ResourceMemory)
     in if cpuFraction \<ge> 1 \<or> memoryFraction \<ge> 1 then Some 0
        else if includeVolumes \<and> allocatableVolumes > 0 then
          (let volumeFraction = fdiv (float64 requestedVolumes) (float64 allocatableVolumes) in
           if volumeFraction \<ge> 1 then Some 0
           else
             let mean = fdiv (fadd (fadd cpuFraction memoryFraction) volumeFraction) (float64 3);
                 sq = (\<lambda>x. fmul (fsub x mean) (fsub x mean));
                 variance = fdiv (fadd (fadd (sq cpuFraction) (sq memoryFraction)) (sq volumeFraction)) (float64 3)
             in Some (int64_of (fmul (fsub 1 variance) (float64 MaxNodeScore))))
        else
          let diff = \<bar>fsub cpuFraction memoryFraction\<bar>
          in Some (int64_of (fmul (fsub 1 diff) (float64 MaxNodeScore))))"

definition NewBalancedAllocation :: "PluginArgs \<Rightarrow> error + resourceAllocationScorer" where
  "NewBalancedAllocation args =
    Inr \<lparr>scorer_Name = ''NodeResourcesBalancedAllocation'', scorer = balancedResourceScorer,
      scorer_weights = Some defaultRequestedRatioResources\<rparr>"

end
