(* ===== verification/Resource_Props.thy ===== *)
theory Resource_Props
  imports Node_Resources
begin

text \<open>
  What the resource plugins promise: the filter \<open>Fit\<close> admits a pod exactly when the node has room
  for it, and every score plugin gives each node a score between 0 and 100.
\<close>

subsection \<open>The filter and the capacity of a node\<close>

text \<open>The filter computes what \<open>NodeInfo.AddPod\<close> is going to add.\<close>

lemma computePodResourceRequest_eq: "computePodResourceRequest pod = fst (calculateResource pod)"
proof -
  have 1: "fst (fold add_container cs s) = fold (\<lambda>c r. Resource_Add r (c_Requests c)) cs (fst s)" for cs s
    by (induction cs arbitrary: s) (auto simp: add_container_def split: prod.splits)
  have 2: "fst (fold max_container cs s) = fold (\<lambda>c r. SetMaxResource r (c_Requests c)) cs (fst s)" for cs s
    by (induction cs arbitrary: s) (auto simp: max_container_def split: prod.splits)
  show ?thesis
    by (auto simp: computePodResourceRequest_def calculateResource_def Let_def 1 2 split: option.splits prod.splits)
       (metis 1 2 fst_conv)+
qed

definition ignored :: "FitPlugin \<Rightarrow> string \<Rightarrow> bool" where
  "ignored f name \<longleftrightarrow> name \<in> set (ignoredResources f) \<or>
     group_prefix (ignoredResourceGroups f) name \<in> set (ignoredResourceGroups f)"

definition within_capacity :: "FitPlugin \<Rightarrow> NodeInfo \<Rightarrow> bool" where
  "within_capacity f n \<longleftrightarrow>
     int (length (ni_Pods n)) \<le> AllowedPodNumber (ni_Allocatable n) \<and>
     MilliCPU (ni_Requested n) \<le> MilliCPU (ni_Allocatable n) \<and>
     Memory (ni_Requested n) \<le> Memory (ni_Allocatable n) \<and>
     EphemeralStorage (ni_Requested n) \<le> EphemeralStorage (ni_Allocatable n) \<and>
     (\<forall>k. \<not> ignored f k \<longrightarrow>
       gm_get0 (nilmap (ScalarResources (ni_Requested n))) k \<le> gm_get0 (nilmap (ScalarResources (ni_Allocatable n))) k)"

lemma AddPod_Allocatable [simp]: "ni_Allocatable (fst (NodeInfo_AddPod asSel gen n pod)) = ni_Allocatable n"
  by (simp add: NodeInfo_AddPod_def Let_def split: prod.split)

lemma totals_scalar_in64: "totals_ok n \<Longrightarrow> in64 (gm_get0 (nilmap (ScalarResources (ni_Requested n))) k)"
  by (simp add: totals_ok_def)

lemma AddPod_scalar:
  assumes "totals_ok n"
  shows "gm_get0 (nilmap (ScalarResources (ni_Requested (fst (NodeInfo_AddPod asSel gen n pod))))) k =
    i64 (gm_get0 (nilmap (ScalarResources (fst (calculateResource pod)))) k
      + gm_get0 (nilmap (ScalarResources (ni_Requested n))) k)"
  using accScalars_get0 [of "ScalarResources (fst (calculateResource pod))" "(+)" "ScalarResources (ni_Requested n)" k]
    calculateResource_ok [of pod] totals_scalar_in64 [OF assms, of k]
  by (simp add: AddPod_Requested scalars_ok_def add.commute)

lemma insufficient_Nil:
  "insufficient name field r n = [] \<longleftrightarrow> i64 (field r + field (ni_Requested n)) \<le> field (ni_Allocatable n)"
  by (simp add: insufficient_def not_less)

lemma insufficient_scalar_Nil:
  "insufficient_scalar r n (ignoredResources f) (ignoredResourceGroups f) (k, v) = [] \<longleftrightarrow> ignored f k \<or>
    i64 (v + gm_get0 (nilmap (ScalarResources (ni_Requested n))) k) \<le> gm_get0 (nilmap (ScalarResources (ni_Allocatable n))) k"
  by (auto simp: insufficient_scalar_def Let_def ignored_def not_less)

lemma scalar_checks_Nil:
  assumes "scalars_ok r" "totals_ok n" "within_capacity f n"
  shows "concat (map (insufficient_scalar r n (ignoredResources f) (ignoredResourceGroups f)) (nilmap (ScalarResources r))) = []
    \<longleftrightarrow> (\<forall>k. \<not> ignored f k \<longrightarrow>
      i64 (gm_get0 (nilmap (ScalarResources r)) k + gm_get0 (nilmap (ScalarResources (ni_Requested n))) k)
        \<le> gm_get0 (nilmap (ScalarResources (ni_Allocatable n))) k)" (is "?l \<longleftrightarrow> ?r")
proof
  assume l: ?l
  show ?r
  proof (intro allI impI)
    fix k assume k: "\<not> ignored f k"
    show "i64 (gm_get0 (nilmap (ScalarResources r)) k + gm_get0 (nilmap (ScalarResources (ni_Requested n))) k)
        \<le> gm_get0 (nilmap (ScalarResources (ni_Allocatable n))) k"
    proof (cases "gm_get (nilmap (ScalarResources r)) k")
      case None
      then show ?thesis using assms(3) k totals_scalar_in64 [OF assms(2), of k]
        by (simp add: gm_get0_def within_capacity_def)
    next
      case (Some v)
      then have "(k, v) \<in> set (nilmap (ScalarResources r))" using assms(1) by (simp add: gm_get_eq_Some scalars_ok_def)
      then have "insufficient_scalar r n (ignoredResources f) (ignoredResourceGroups f) (k, v) = []" using l by auto
      then show ?thesis using k Some by (simp add: insufficient_scalar_Nil gm_get0_def)
    qed
  qed
next
  assume r: ?r
  have "insufficient_scalar r n (ignoredResources f) (ignoredResourceGroups f) (k, v) = []"
    if "(k, v) \<in> set (nilmap (ScalarResources r))" for k v
    using that r assms(1) by (simp add: insufficient_scalar_Nil scalars_ok_def gm_get0_def flip: gm_get_eq_Some) fastforce
  then show ?l by auto
qed

lemma zero_request_scalar:
  "length (nilmap (ScalarResources r)) = 0 \<Longrightarrow> gm_get0 (nilmap (ScalarResources r)) k = 0"
  by (simp add: gm_get0_notin)

lemma fitsRequest_iff:
  assumes "scalars_ok r" "totals_ok n" "within_capacity f n"
  shows "fitsRequest r n (ignoredResources f) (ignoredResourceGroups f) = [] \<longleftrightarrow>
     int (length (ni_Pods n)) + 1 \<le> AllowedPodNumber (ni_Allocatable n) \<and>
     i64 (MilliCPU r + MilliCPU (ni_Requested n)) \<le> MilliCPU (ni_Allocatable n) \<and>
     i64 (Memory r + Memory (ni_Requested n)) \<le> Memory (ni_Allocatable n) \<and>
     i64 (EphemeralStorage r + EphemeralStorage (ni_Requested n)) \<le> EphemeralStorage (ni_Allocatable n) \<and>
     (\<forall>k. \<not> ignored f k \<longrightarrow>
       i64 (gm_get0 (nilmap (ScalarResources r)) k + gm_get0 (nilmap (ScalarResources (ni_Requested n))) k)
         \<le> gm_get0 (nilmap (ScalarResources (ni_Allocatable n))) k)"
proof (cases "MilliCPU r = 0 \<and> Memory r = 0 \<and> EphemeralStorage r = 0 \<and> length (nilmap (ScalarResources r)) = 0")
  case True
  have in64: "in64 (MilliCPU (ni_Requested n))" "in64 (Memory (ni_Requested n))" "in64 (EphemeralStorage (ni_Requested n))"
    using assms(2) by (simp_all add: totals_ok_def)
  show ?thesis
    using True assms(3) in64 totals_scalar_in64 [OF assms(2)]
    by (auto simp: fitsRequest_def Let_def zero_request_scalar within_capacity_def)
next
  case False
  then have e: "fitsRequest r n (ignoredResources f) (ignoredResourceGroups f) = [] \<longleftrightarrow>
      \<not> int (length (ni_Pods n)) + 1 > AllowedPodNumber (ni_Allocatable n) \<and>
      insufficient ResourceCPU MilliCPU r n = [] \<and> insufficient ResourceMemory Memory r n = [] \<and>
      insufficient ResourceEphemeralStorage EphemeralStorage r n = [] \<and>
      concat (map (insufficient_scalar r n (ignoredResources f) (ignoredResourceGroups f)) (nilmap (ScalarResources r))) = []"
    by (simp only: fitsRequest_def Let_def if_False append_is_Nil_conv) auto
  show ?thesis
    unfolding e insufficient_Nil scalar_checks_Nil [OF assms] not_less ..
qed

lemma Fit_Filter_eq:
  "Fit_Filter show f (snd (Fit_PreFilter cs pod)) n =
    (let l = fitsRequest (computePodResourceRequest pod) n (ignoredResources f) (ignoredResourceGroups f) in
     if l = [] then None else Some (NewStatus Unschedulable (map ir_Reason l)))"
  by (simp add: Fit_Filter_def fit_getPreFilterState_def read_state_def Fit_PreFilter_def CycleState_Read_def
    CycleState_Write_def Let_def)

text \<open>
  C33: The filter \<open>Fit\<close>, run after its \<open>PreFilter\<close> on a node that is not overcommitted, passes a
  pod exactly when the node is still within its capacity once \<open>NodeInfo.AddPod\<close> has added the pod,
  in the number of pods and in every resource that is not ignored; otherwise it answers
  \<open>Unschedulable\<close> with at least one reason. Sums wrap around in both places alike.\<close>

theorem fit_iff_room:
  assumes "totals_ok n" "within_capacity f n"
  shows "(Fit_Filter show f (snd (Fit_PreFilter cs pod)) n = None \<longleftrightarrow>
      within_capacity f (fst (NodeInfo_AddPod asSel gen n pod)))
    \<and> totals_ok (fst (NodeInfo_AddPod asSel gen n pod))
    \<and> (\<forall>s. Fit_Filter show f (snd (Fit_PreFilter cs pod)) n = Some s \<longrightarrow>
        st_code s = Unschedulable \<and> st_reasons s \<noteq> [])"
proof -
  let ?r = "fst (calculateResource pod)"
  have "Fit_Filter show f (snd (Fit_PreFilter cs pod)) n = None \<longleftrightarrow>
      fitsRequest ?r n (ignoredResources f) (ignoredResourceGroups f) = []"
    by (simp add: Fit_Filter_eq Let_def computePodResourceRequest_eq)
  also have "\<dots> \<longleftrightarrow> within_capacity f (fst (NodeInfo_AddPod asSel gen n pod))"
    unfolding fitsRequest_iff [OF calculateResource_ok assms] within_capacity_def AddPod_scalar [OF assms(1)]
    by (simp add: AddPod_Requested AddPod_Pods pod_cpu_def pod_mem_def pod_storage_def add.commute)
  finally show ?thesis
    using AddPod_totals_ok [OF assms(1)] by (auto simp: Fit_Filter_eq Let_def NewStatus_def)
qed

subsection \<open>Scores lie between 0 and 100\<close>

text \<open>
  An average of scores, each between 0 and 100, over resources with positive weights. What the two
  allocation plugins use for a single resource is an instance.
\<close>

definition sane_values :: "resourceToValueMap \<Rightarrow> resourceToValueMap \<Rightarrow> resourceToWeightMap \<Rightarrow> bool" where
  "sane_values requested allocable weights \<longleftrightarrow>
    (\<forall>e\<in>set weights. 0 < snd e \<and> 0 \<le> gm_get0 requested (fst e) \<and>
      0 \<le> gm_get0 allocable (fst e) \<and> gm_get0 allocable (fst e) \<le> 2 ^ 56)"

lemma sane_values_Cons:
  "sane_values rq al (e # es) \<longleftrightarrow>
    (0 < snd e \<and> 0 \<le> gm_get0 rq (fst e) \<and> 0 \<le> gm_get0 al (fst e) \<and> gm_get0 al (fst e) \<le> 2 ^ 56) \<and> sane_values rq al es"
  by (auto simp: sane_values_def)

lemma sane_weights_nonneg: "sane_values rq al es \<Longrightarrow> 0 \<le> sum_list (map snd es)"
  by (induction es) (auto simp: sane_values_def)

lemma add_weighted:
  assumes "0 \<le> s" "s \<le> 100" "0 < w" "0 \<le> a" "a \<le> 100 * b" "b + w \<le> (2 :: int) ^ 46"
  shows "i64 (a + i64 (s * w)) = a + s * w" "i64 (b + w) = b + w" "0 \<le> a + s * w" "a + s * w \<le> 100 * (b + w)"
proof -
  define p where "p = s * w"
  have p: "0 \<le> p" "p \<le> 100 * w" using assms(1-3) by (auto simp: p_def intro: mult_right_mono)
  then have "in64 (a + p)" "in64 (b + w)" using assms(3-) by (simp_all add: in64_def)
  then show "i64 (a + i64 (s * w)) = a + s * w" "i64 (b + w) = b + w" by (simp_all add: p_def)
  show "0 \<le> a + s * w" "a + s * w \<le> 100 * (b + w)" using p assms(4,5) by (simp_all flip: p_def)
qed

locale resource_score =
  fixes score :: "int \<Rightarrow> int \<Rightarrow> int option"
  assumes range_law: "0 \<le> requested \<Longrightarrow> 0 \<le> capacity \<Longrightarrow> capacity \<le> 2 ^ 56 \<Longrightarrow>
    \<exists>s. score requested capacity = Some s \<and> 0 \<le> s \<and> s \<le> 100"
begin

lemma weigh_range:
  assumes "sane_values rq al weights" "0 \<le> a" "a \<le> 100 * b" "b + sum_list (map snd weights) \<le> 2 ^ 46"
  shows "\<exists>t. weigh_resources score rq al weights (a, b) = Some (t, b + sum_list (map snd weights)) \<and>
    0 \<le> t \<and> t \<le> 100 * (b + sum_list (map snd weights))"
  using assms
proof (induction weights arbitrary: a b)
  case (Cons e es)
  obtain k w where e: "e = (k, w)" by (cases e)
  have sane: "0 < w" "0 \<le> gm_get0 rq k" "0 \<le> gm_get0 al k" "gm_get0 al k \<le> 2 ^ 56" "sane_values rq al es"
    using Cons.prems(1) by (simp_all add: sane_values_Cons e)
  obtain s where s: "score (gm_get0 rq k) (gm_get0 al k) = Some s" "0 \<le> s" "s \<le> 100"
    using range_law [OF sane(2-4)] by blast
  have le: "b + w \<le> 2 ^ 46" using Cons.prems(4) sane_weights_nonneg [OF sane(5)] by (simp add: e)
  note aw = add_weighted [OF s(2,3) sane(1) Cons.prems(2,3) le]
  have "b + w + sum_list (map snd es) \<le> 2 ^ 46" using Cons.prems(4) by (simp add: e)
  from Cons.IH [OF sane(5) aw(3,4) this]
  have "\<exists>t. weigh_resources score rq al es (i64 (a + i64 (s * w)), i64 (b + w)) = Some (t, b + w + sum_list (map snd es)) \<and>
      0 \<le> t \<and> t \<le> 100 * (b + w + sum_list (map snd es))"
    unfolding aw(1,2) .
  then show ?case by (simp only: e weigh_resources.simps s(1) bind.bind_lunit list.map(2) snd_conv sum_list.Cons add.assoc)
qed simp

lemma average_range:
  assumes "sane_values rq al weights" "weights \<noteq> []" "sum_list (map snd weights) \<le> 2 ^ 46"
  shows "\<exists>s. do { (nodeScore, weightSum) \<leftarrow> weigh_resources score rq al weights (0, 0); quot64 nodeScore weightSum } = Some s
    \<and> 0 \<le> s \<and> s \<le> 100"
proof -
  let ?w = "sum_list (map snd weights)"
  obtain t where t: "weigh_resources score rq al weights (0, 0) = Some (t, ?w)" "0 \<le> t" "t \<le> 100 * ?w"
    using weigh_range [OF assms(1), of 0 0] assms(3) by auto
  obtain e es where "weights = e # es" using assms(2) by (cases weights) auto
  then have pos: "0 < ?w" using assms(1) sane_weights_nonneg [of rq al es] by (auto simp: sane_values_Cons)
  have "in64 t" using t assms(3) by (auto simp: in64_def)
  then have "quot64 t ?w = Some (t div ?w)" using t(2) pos by (intro quot64_pos)
  moreover have "t div ?w \<le> 100" using zdiv_mono1 [OF t(3) pos] pos by simp
  moreover have "0 \<le> t div ?w" using t(2) pos by (simp add: pos_imp_zdiv_nonneg_iff)
  ultimately show ?thesis using t(1) by simp
qed

end

lemma share_range:
  assumes "0 \<le> x" "x \<le> capacity" "capacity \<le> 2 ^ 56" "(0 :: int) < capacity"
  shows "quot64 (i64 (x * 100)) capacity = Some (x * 100 div capacity)" "0 \<le> x * 100 div capacity" "x * 100 div capacity \<le> 100"
proof -
  have in64: "in64 (x * 100)" using assms by (simp add: in64_def)
  then have "i64 (x * 100) = x * 100" by (rule i64_id)
  then show "quot64 (i64 (x * 100)) capacity = Some (x * 100 div capacity)" using quot64_pos [of "x * 100" capacity] in64 assms by simp
  show "0 \<le> x * 100 div capacity" using assms by (simp add: pos_imp_zdiv_nonneg_iff)
  have "x * 100 div capacity \<le> capacity * 100 div capacity" using assms by (intro zdiv_mono1) auto
  then show "x * 100 div capacity \<le> 100" using assms by simp
qed

lemma leastRequestedScore_range:
  assumes "0 \<le> requested" "0 \<le> capacity" "capacity \<le> 2 ^ 56"
  shows "\<exists>s. leastRequestedScore requested capacity = Some s \<and> 0 \<le> s \<and> s \<le> 100"
proof (cases "capacity = 0 \<or> requested > capacity")
  case False
  have "in64 (capacity - requested)" using assms False by (auto simp: in64_def)
  then show ?thesis using share_range [of "capacity - requested" capacity] False assms
    by (auto simp: leastRequestedScore_def MaxNodeScore_def)
qed (auto simp: leastRequestedScore_def)

lemma mostRequestedScore_range:
  assumes "0 \<le> requested" "0 \<le> capacity" "capacity \<le> 2 ^ 56"
  shows "\<exists>s. mostRequestedScore requested capacity = Some s \<and> 0 \<le> s \<and> s \<le> 100"
  using share_range [of requested capacity] assms
  by (cases "capacity = 0 \<or> requested > capacity") (auto simp: mostRequestedScore_def MaxNodeScore_def)

interpretation least: resource_score leastRequestedScore
  by unfold_locales (rule leastRequestedScore_range)

interpretation most: resource_score mostRequestedScore
  by unfold_locales (rule mostRequestedScore_range)

lemma leastResourceScorer_range:
  assumes "sane_values rq al weights" "weights \<noteq> []" "sum_list (map snd weights) \<le> 2 ^ 46"
  shows "\<exists>s. leastResourceScorer weights rq al b v1 v2 = Some s \<and> 0 \<le> s \<and> s \<le> 100"
  unfolding leastResourceScorer_def by (rule least.average_range [OF assms])

lemma mostResourceScorer_range:
  assumes "sane_values rq al weights" "weights \<noteq> []" "sum_list (map snd weights) \<le> 2 ^ 46"
  shows "\<exists>s. mostResourceScorer weights rq al b v1 v2 = Some s \<and> 0 \<le> s \<and> s \<le> 100"
  unfolding mostResourceScorer_def by (rule most.average_range [OF assms])

subsection \<open>The broken linear function\<close>

definition shape_ok :: "functionShapePoint list \<Rightarrow> bool" where
  "shape_ok shape \<longleftrightarrow> shape \<noteq> [] \<and> sorted_wrt (\<lambda>p q. fp_utilization p < fp_utilization q) shape \<and>
    (\<forall>p\<in>set shape. 0 \<le> fp_utilization p \<and> fp_utilization p \<le> 100 \<and> 0 \<le> fp_score p \<and> fp_score p \<le> 100)"

definition between :: "int \<Rightarrow> int \<Rightarrow> int \<Rightarrow> bool" where
  "between a b v \<longleftrightarrow> min a b \<le> v \<and> v \<le> max a b"

lemma between_ends [simp]: "between a b a" "between a b b"
  by (simp_all add: between_def)

text \<open>A part \<open>k / n\<close> of a difference, rounded towards zero.\<close>

lemma quot64_part:
  assumes "0 < k" "k \<le> n" "n \<le> 100" "\<bar>d\<bar> \<le> 100"
  shows "\<exists>q. quot64 (i64 (i64 d * i64 k)) (i64 n) = Some q \<and> between 0 d q \<and> (k = n \<longrightarrow> q = d)"
proof -
  have "\<bar>d * k\<bar> \<le> 100 * 100" using assms by (simp only: abs_mult) (intro mult_mono, auto)
  moreover have "in64 m" if "\<bar>m\<bar> \<le> 100 * 100" for m :: int using that by (auto simp: in64_def)
  ultimately have dk: "in64 (d * k)" by blast
  have i: "i64 d = d" "i64 k = k" "i64 n = n" using assms by (auto simp: in64_def intro!: i64_id)
  have part: "0 \<le> \<bar>d\<bar> * k div n" "\<bar>d\<bar> * k div n \<le> \<bar>d\<bar>"
    using assms zdiv_mono1 [of "\<bar>d\<bar> * k" "\<bar>d\<bar> * n" n, OF mult_left_mono] by (auto simp: pos_imp_zdiv_nonneg_iff)
  have full: "\<bar>d\<bar> * k div n = \<bar>d\<bar>" if "k = n" using that assms by simp
  let ?q = "sgn d * (\<bar>d\<bar> * k div n)"
  have "sgn (d * k) * sgn n * (\<bar>d * k\<bar> div \<bar>n\<bar>) = ?q" using assms by (simp add: sgn_mult abs_mult)
  moreover have "in64 ?q" using part assms(4) by (cases "d < 0"; cases "d = 0") (auto simp: in64_def sgn_if)
  ultimately have "quot64 (i64 (i64 d * i64 k)) (i64 n) = Some ?q"
    using assms dk by (simp add: i quot64_def)
  moreover have "between 0 d ?q" using part by (auto simp: between_def sgn_if)
  moreover have "?q = d" if "k = n" using full [OF that] by (simp add: sgn_mult_abs)
  ultimately show ?thesis by blast
qed

definition interpolates :: "functionShapePoint list \<Rightarrow> int \<Rightarrow> int \<Rightarrow> bool" where
  "interpolates shape p v \<longleftrightarrow>
    (\<forall>q\<in>set shape. fp_utilization q = p \<longrightarrow> v = fp_score q) \<and>
    (p \<le> fp_utilization (hd shape) \<longrightarrow> v = fp_score (hd shape)) \<and>
    (fp_utilization (last shape) \<le> p \<longrightarrow> v = fp_score (last shape)) \<and>
    (\<forall>i. Suc i < length shape \<and> fp_utilization (shape ! i) \<le> p \<and> p \<le> fp_utilization (shape ! Suc i) \<longrightarrow>
      between (fp_score (shape ! i)) (fp_score (shape ! Suc i)) v)"

lemma interpolates_segment:
  assumes ok: "shape_ok (prev # pt # pts)" and p: "fp_utilization prev < p" "p \<le> fp_utilization pt"
    and v: "between (fp_score prev) (fp_score pt) v" "p = fp_utilization pt \<longrightarrow> v = fp_score pt"
  shows "interpolates (prev # pt # pts) p v"
proof -
  have later: "fp_utilization pt < fp_utilization q" if "q \<in> set pts" for q
    using ok that by (simp add: shape_ok_def)
  have "v = fp_score q" if "q \<in> set (prev # pt # pts)" "fp_utilization q = p" for q
    using that p v(2) later [of q] by auto
  moreover have "v = fp_score (last (prev # pt # pts))" if "fp_utilization (last (prev # pt # pts)) \<le> p"
    using that p v(2) later [of "last pts"] by (cases pts) auto
  moreover have "between (fp_score ((prev # pt # pts) ! i)) (fp_score ((prev # pt # pts) ! Suc i)) v"
    if i: "Suc i < length (prev # pt # pts)" "fp_utilization ((prev # pt # pts) ! i) \<le> p" for i
  proof (cases i)
    case 0
    then show ?thesis using v(1) by simp
  next
    case (Suc j)
    show ?thesis
    proof (cases j)
      case 0
      then show ?thesis using i(2) p(2) v(2) by (simp add: Suc)
    next
      case j: (Suc k)
      then show ?thesis using i p(2) later [of "pts ! k"] by (simp add: Suc)
    qed
  qed
  ultimately show ?thesis using p by (auto simp: interpolates_def)
qed

lemma interpolates_Cons:
  assumes "interpolates (pt # pts) p v" "fp_utilization prev < p" "fp_utilization pt < p"
  shows "interpolates (prev # pt # pts) p v"
proof -
  have "between (fp_score ((prev # pt # pts) ! i)) (fp_score ((prev # pt # pts) ! Suc i)) v"
    if "Suc i < length (prev # pt # pts)" "fp_utilization ((prev # pt # pts) ! i) \<le> p"
      "p \<le> fp_utilization ((prev # pt # pts) ! Suc i)" for i
    using that assms by (cases i) (auto simp: interpolates_def)
  then show ?thesis using assms by (auto simp: interpolates_def)
qed

lemma broken_linear_from_ok:
  assumes "shape_ok (prev # pts)" "fp_utilization prev < p"
  shows "\<exists>v. broken_linear_from prev pts p = Some v \<and> interpolates (prev # pts) p v \<and> 0 \<le> v \<and> v \<le> 100"
  using assms
proof (induction pts arbitrary: prev)
  case Nil
  then show ?case by (auto simp: interpolates_def shape_ok_def)
next
  case (Cons pt pts)
  have b: "0 \<le> fp_utilization prev" "0 \<le> fp_score prev" "fp_score prev \<le> 100"
    "fp_utilization pt \<le> 100" "0 \<le> fp_score pt" "fp_score pt \<le> 100"
    using Cons.prems(1) by (simp_all add: shape_ok_def)
  show ?case
  proof (cases "p \<le> fp_utilization pt")
    case True
    let ?d = "fp_score pt - fp_score prev" and ?k = "p - fp_utilization prev" and ?n = "fp_utilization pt - fp_utilization prev"
    have "0 < ?k" "?k \<le> ?n" "?n \<le> 100" "\<bar>?d\<bar> \<le> 100" using b True Cons.prems(2) by auto
    from quot64_part [OF this] obtain q where q: "quot64 (i64 (i64 ?d * i64 ?k)) (i64 ?n) = Some q" "between 0 ?d q"
      "?k = ?n \<longrightarrow> q = ?d" by blast
    let ?v = "fp_score prev + q"
    have v: "between (fp_score prev) (fp_score pt) ?v" "p = fp_utilization pt \<longrightarrow> ?v = fp_score pt" "0 \<le> ?v" "?v \<le> 100"
      using q(2,3) b by (auto simp: between_def min_def max_def split: if_splits)
    have "i64 ?v = ?v" using v(3,4) by (intro i64_id) (simp add: in64_def)
    then show ?thesis
      using True q(1) v interpolates_segment [OF Cons.prems True v(1,2)] by simp
  next
    case False
    have "shape_ok (pt # pts)" using Cons.prems(1) by (simp add: shape_ok_def)
    from Cons.IH [OF this] False obtain v where "broken_linear_from pt pts p = Some v" "interpolates (pt # pts) p v" "0 \<le> v" "v \<le> 100"
      by auto
    then show ?thesis using False Cons.prems(2) interpolates_Cons [of pt pts p v prev] by simp
  qed
qed

lemma buildBrokenLinear_ok:
  assumes "shape_ok shape"
  shows "\<exists>v. buildBrokenLinearFunction shape p = Some v \<and> interpolates shape p v \<and> 0 \<le> v \<and> v \<le> 100"
proof -
  obtain pt pts where s: "shape = pt # pts" using assms by (cases shape) (auto simp: shape_ok_def)
  show ?thesis
  proof (cases "p \<le> fp_utilization pt")
    case True
    have later: "fp_utilization pt < fp_utilization q" if "q \<in> set pts" for q
      using assms that by (simp add: shape_ok_def s)
    have "between (fp_score (shape ! i)) (fp_score (shape ! Suc i)) (fp_score pt)"
      if "Suc i < length shape" "fp_utilization (shape ! i) \<le> p" for i
      using that True later [of "pts ! (i - 1)"] by (cases i) (auto simp: s)
    moreover have "fp_score q = fp_score pt" if "q \<in> set shape" "fp_utilization q = p" for q
      using that True later [of q] by (auto simp: s)
    moreover have "fp_score (last shape) = fp_score pt" if "fp_utilization (last shape) \<le> p"
      using that True later [of "last pts"] by (cases pts) (auto simp: s)
    ultimately have "interpolates shape p (fp_score pt)"
      by (auto simp: interpolates_def s)
    then show ?thesis using True assms by (simp add: buildBrokenLinearFunction_def s shape_ok_def)
  next
    case False
    then show ?thesis using broken_linear_from_ok [of pt pts p] assms by (simp add: buildBrokenLinearFunction_def s)
  qed
qed

subsection \<open>Validated arguments\<close>

lemma check_points_None:
  "check_points i ps = None \<Longrightarrow> p \<in> set ps \<Longrightarrow>
    0 \<le> usp_Utilization p \<and> usp_Utilization p \<le> 100 \<and> 0 \<le> usp_Score p \<and> usp_Score p \<le> 10"
proof (induction ps arbitrary: i)
  case (Cons a ps)
  have "i32 10 = 10" by (intro i32_id) (simp add: in32_def)
  then have "check_point i a = None \<Longrightarrow> 0 \<le> usp_Utilization a \<and> usp_Utilization a \<le> 100 \<and> 0 \<le> usp_Score a \<and> usp_Score a \<le> 10"
    by (simp add: check_point_def MaxCustomPriorityScore_def split: if_splits)
  then show ?case using Cons by (auto split: option.splits)
qed simp

lemma check_order_None:
  "check_order i ps = None \<Longrightarrow> sorted_wrt (\<lambda>p q. usp_Utilization p < usp_Utilization q) ps"
proof (induction i ps rule: check_order.induct)
  case (1 i p q ps)
  then have "usp_Utilization p < usp_Utilization q" "sorted_wrt (\<lambda>p q. usp_Utilization p < usp_Utilization q) (q # ps)"
    by (auto split: if_splits)
  then show ?case by fastforce
qed auto

lemma validated_shape: "validateFunctionShape shape = None \<Longrightarrow> shape_ok (ratio_shape shape)"
proof -
  assume v: "validateFunctionShape shape = None"
  then have order: "check_order 0 shape = None" "check_points 0 shape = None" "shape \<noteq> []"
    by (auto simp: validateFunctionShape_def split: if_splits option.splits)
  have score: "i64 (usp_Score p * 10) = usp_Score p * 10" if "p \<in> set shape" for p
    using check_points_None [OF order(2) that] by (intro i64_id) (auto simp: in64_def)
  show ?thesis
    using check_order_None [OF order(1)] order(3) check_points_None [OF order(2)]
    by (auto simp: shape_ok_def ratio_shape_def sorted_wrt_map MaxNodeScore_def MaxCustomPriorityScore_def score)
qed

lemma fold_put_values:
  "\<forall>e\<in>set m. P (snd e) \<Longrightarrow> \<forall>r\<in>set rs. P (g r) \<Longrightarrow> \<forall>e\<in>set (fold (\<lambda>r m. gm_put m (h r) (g r)) rs m). P (snd e)"
proof (induction rs arbitrary: m)
  case (Cons r rs)
  have "\<forall>e\<in>set (gm_put m (h r) (g r)). P (snd e)" using Cons.prems set_gm_put [of m "h r" "g r"] by fastforce
  then show ?case using Cons by simp
qed simp

lemma validated_weights:
  "validateResources rs = None \<Longrightarrow> \<forall>e\<in>set (weight_map rs). 0 < snd e"
  "validateResourcesNoMax rs = None \<Longrightarrow> \<forall>e\<in>set (ratio_weights rs). 0 < snd e"
  unfolding weight_map_def ratio_weights_def
  by (rule fold_put_values; force simp: validateResources_def validateResourcesNoMax_def find_None_iff split: option.splits if_splits)+

subsection \<open>The two other scorers\<close>

lemma resourceScoringFunction_range:
  assumes "shape_ok shape" "0 \<le> requested" "0 \<le> capacity" "capacity \<le> 2 ^ 56"
  shows "\<exists>s. resourceScoringFunction shape requested capacity = Some s \<and> 0 \<le> s \<and> s \<le> 100"
proof (cases "capacity = 0 \<or> requested > capacity")
  case False
  have "in64 (capacity - requested)" using assms False by (auto simp: in64_def)
  then show ?thesis
    using share_range [of "capacity - requested" capacity] False assms buildBrokenLinear_ok [OF assms(1)]
    by (auto simp: resourceScoringFunction_def maxUtilization_def)
qed (use buildBrokenLinear_ok [OF assms(1)] in \<open>auto simp: resourceScoringFunction_def\<close>)

lemma ratio_resources_range:
  assumes "shape_ok shape" "sane_values rq al weights" "0 \<le> a" "a \<le> 100 * b" "b + sum_list (map snd weights) \<le> 2 ^ 46"
  shows "\<exists>t w. ratio_resources shape rq al weights (a, b) = Some (t, w) \<and> 0 \<le> t \<and> t \<le> 100 * w \<and> w \<le> 2 ^ 46"
  using assms(2-)
proof (induction weights arbitrary: a b)
  case (Cons e es)
  obtain k w where e: "e = (k, w)" by (cases e)
  have sane: "0 < w" "0 \<le> gm_get0 rq k" "0 \<le> gm_get0 al k" "gm_get0 al k \<le> 2 ^ 56" "sane_values rq al es"
    using Cons.prems(1) by (simp_all add: sane_values_Cons e)
  obtain s where s: "resourceScoringFunction shape (gm_get0 rq k) (gm_get0 al k) = Some s" "0 \<le> s" "s \<le> 100"
    using resourceScoringFunction_range [OF assms(1) sane(2-4)] by blast
  note nonneg = sane_weights_nonneg [OF sane(5)]
  have le: "b + w \<le> 2 ^ 46" using Cons.prems(4) nonneg by (simp add: e)
  note aw = add_weighted [OF s(2,3) sane(1) Cons.prems(2,3) le]
  define acc where "acc = (if s > 0 then (i64 (a + i64 (s * w)), i64 (b + w)) else (a, b))"
  have step: "ratio_resources shape rq al (e # es) (a, b) = ratio_resources shape rq al es acc"
    by (simp add: e s(1) acc_def)
  have acc: "0 \<le> fst acc" "fst acc \<le> 100 * snd acc" "snd acc + sum_list (map snd es) \<le> 2 ^ 46"
    using aw Cons.prems(2-4) sane(1) by (simp_all add: acc_def e del: i64_add_left i64_add_right)
  show ?case unfolding step using Cons.IH [OF sane(5) acc] by simp
qed auto

lemma int64_of_of_int [simp]: "int64_of (of_int n) = n"
  by (simp add: int64_of_def)

lemma ratio_scorer_range:
  assumes "shape_ok shape" "sane_values rq al weights" "sum_list (map snd weights) \<le> 2 ^ 46"
  shows "\<exists>s. buildRequestedToCapacityRatioScorerFunction shape weights rq al b v1 v2 = Some s \<and> 0 \<le> s \<and> s \<le> 100"
proof -
  obtain t w where t: "ratio_resources shape rq al weights (0, 0) = Some (t, w)" "0 \<le> t" "t \<le> 100 * w" "w \<le> 2 ^ 46"
    using ratio_resources_range [OF assms(1,2), of 0 0] assms(3) by auto
  show ?thesis
  proof (cases "w = 0")
    case False
    have w: "0 < w" using t(2,3) False by simp
    have fl: "float64 t = of_int t" "float64 w = of_int w"
      unfolding float64_def using t w by (simp_all add: fl_of_int)
    let ?q = "rat_of_int t / of_int w"
    have "rat_of_int t \<le> rat_of_int (100 * w)" using t(3) by (simp only: of_int_le_iff)
    then have q: "0 \<le> ?q" "?q \<le> 100" using t(2) w by (simp_all add: pos_divide_le_eq)
    then have f: "0 \<le> fl ?q" "fl ?q \<le> 100" using fl_nonneg [of ?q] fl_mono [of ?q 100] by simp_all
    then have "0 \<le> \<lfloor>fl ?q + 1 / 2\<rfloor>" "\<lfloor>fl ?q + 1 / 2\<rfloor> \<le> 100" by (simp_all add: floor_le_iff)
    then show ?thesis
      using f w by (simp add: buildRequestedToCapacityRatioScorerFunction_def t(1) fl fdiv_def math_Round_def)
  qed (simp add: buildRequestedToCapacityRatioScorerFunction_def t(1))
qed

lemma float64_nonneg: "0 \<le> n \<Longrightarrow> 0 \<le> float64 n"
  by (simp add: float64_def fl_nonneg)

lemma fraction_nonneg: "0 \<le> r \<Longrightarrow> 0 \<le> c \<Longrightarrow> 0 \<le> fractionOfCapacity r c"
  by (simp add: fractionOfCapacity_def fdiv_def fl_nonneg float64_nonneg)

lemma float64_MaxNodeScore [simp]: "float64 MaxNodeScore = 100"
  by (simp add: float64_def MaxNodeScore_def)

lemma scale_range:
  assumes "0 \<le> x" "x \<le> 1"
  shows "0 \<le> int64_of (fmul (fsub 1 x) 100) \<and> int64_of (fmul (fsub 1 x) 100) \<le> 100"
proof (rule int64_of_range)
  have "0 \<le> fsub 1 x" "fsub 1 x \<le> 1" using assms by (simp_all add: fsub_def fl_nonneg fl_le_1)
  then have "0 \<le> fsub 1 x * 100" "fsub 1 x * 100 \<le> 100" by simp_all
  then show "0 \<le> fmul (fsub 1 x) 100" "fmul (fsub 1 x) 100 \<le> of_int 100"
    unfolding fmul_def using fl_nonneg fl_mono [of "fsub 1 x * 100" 100] by simp_all
qed

lemma abs_fsub_le_1:
  assumes "0 \<le> x" "x \<le> 1" "0 \<le> y" "y \<le> 1"
  shows "\<bar>fsub x y\<bar> \<le> 1"
proof -
  have "fl (of_int (- 1)) \<le> fl (x - y)" "fl (x - y) \<le> fl (of_int 1)"
    using assms by (intro fl_mono; simp)+
  then show ?thesis by (simp add: fsub_def fl_of_int abs_le_iff del: of_int_minus)
qed

lemma fmul_square_le_1: "\<bar>x\<bar> \<le> 1 \<Longrightarrow> 0 \<le> fmul x x \<and> fmul x x \<le> 1"
  unfolding fmul_def using abs_le_square_iff [of x 1]
  by (simp add: fl_nonneg fl_le_1 power2_eq_square)

lemma third_le_1:
  assumes "0 \<le> x" "x \<le> 1" "0 \<le> y" "y \<le> 1" "0 \<le> z" "z \<le> 1"
  shows "0 \<le> fdiv (fadd (fadd x y) z) (float64 3) \<and> fdiv (fadd (fadd x y) z) (float64 3) \<le> 1"
proof -
  have fl2: "fl 2 = 2" and fl3: "fl 3 = 3" using fl_of_int [of 2] fl_of_int [of 3] by simp_all
  have xy: "0 \<le> fadd x y" "fadd x y \<le> 2"
    using assms fl_mono [of "x + y" 2] by (simp_all add: fadd_def fl_nonneg fl2)
  then have "0 \<le> fadd (fadd x y) z" "fadd (fadd x y) z \<le> 3"
    using assms fl_mono [of "fadd x y + z" 3] by (simp_all add: fadd_def [of "fadd x y"] fl_nonneg fl3)
  moreover have "float64 3 = 3" using fl3 by (simp add: float64_def)
  ultimately show ?thesis by (simp add: fdiv_def fl_nonneg fl_le_1)
qed

lemma balancedResourceScorer_range:
  assumes "0 \<le> gm_get0 rq ResourceCPU" "0 \<le> gm_get0 al ResourceCPU" "0 \<le> gm_get0 rq ResourceMemory"
    "0 \<le> gm_get0 al ResourceMemory" "0 \<le> v1"
  shows "\<exists>s. balancedResourceScorer rq al b v1 v2 = Some s \<and> 0 \<le> s \<and> s \<le> 100"
proof -
  define c m where "c = fractionOfCapacity (gm_get0 rq ResourceCPU) (gm_get0 al ResourceCPU)"
    and "m = fractionOfCapacity (gm_get0 rq ResourceMemory) (gm_get0 al ResourceMemory)"
  define v where "v = fdiv (float64 v1) (float64 v2)"
  have nn: "0 \<le> c" "0 \<le> m" using assms by (simp_all add: c_def m_def fraction_nonneg)
  show ?thesis
  proof (cases "c \<ge> 1 \<or> m \<ge> 1")
    case False
    then have cm: "c \<le> 1" "m \<le> 1" by auto
    show ?thesis
    proof (cases "b \<and> v2 > 0")
      case True
      have v: "0 \<le> v" using assms(5) True by (simp add: v_def fdiv_def fl_nonneg float64_nonneg)
      show ?thesis
      proof (cases "v \<ge> 1")
        case v1: False
        define mean where "mean = fdiv (fadd (fadd c m) v) (float64 3)"
        have mean: "0 \<le> mean" "mean \<le> 1" using third_le_1 [of c m v] nn cm v v1 by (simp_all add: mean_def)
        have sq: "0 \<le> fmul (fsub x mean) (fsub x mean) \<and> fmul (fsub x mean) (fsub x mean) \<le> 1" if "0 \<le> x" "x \<le> 1" for x
          using that mean by (intro fmul_square_le_1 abs_fsub_le_1) auto
        note var = third_le_1 [of "fmul (fsub c mean) (fsub c mean)" "fmul (fsub m mean) (fsub m mean)" "fmul (fsub v mean) (fsub v mean)"]
        show ?thesis
          using False True v1 scale_range [OF var [THEN conjunct1] var [THEN conjunct2]] sq [of c] sq [of m] sq [of v] nn cm v
          by (simp add: balancedResourceScorer_def Let_def flip: c_def m_def v_def mean_def)
      qed (use False True in \<open>simp add: balancedResourceScorer_def Let_def flip: c_def m_def v_def\<close>)
    next
      case nv: False
      show ?thesis
        using False nv scale_range [of "\<bar>fsub c m\<bar>"] abs_fsub_le_1 [of c m] nn cm
        by (auto simp: balancedResourceScorer_def Let_def simp flip: c_def m_def)
    qed
  qed (simp add: balancedResourceScorer_def Let_def flip: c_def m_def)
qed

subsection \<open>Properties\<close>

lemma fold_put_get0:
  "gm_get0 (fold (\<lambda>e m. gm_put m (fst e) (g (fst e))) w m) k = (if k \<in> fst ` set w then g k else gm_get0 m k)"
  by (induction w arbitrary: m) auto

definition resources_in_range :: "NodeInfo \<Rightarrow> Pod \<Rightarrow> bool" where
  "resources_in_range n pod \<longleftrightarrow>
    (\<forall>name. case calculateResourceAllocatableRequest n pod name of (allocatable, requested) \<Rightarrow>
      0 \<le> requested \<and> 0 \<le> allocatable \<and> allocatable \<le> 2 ^ 56)"

lemma created_scorer_range:
  assumes new: "NewLeastAllocated a = Inr r \<or> NewMostAllocated a = Inr r \<or> NewRequestedToCapacityRatio a = Inr r \<or>
      NewBalancedAllocation a = Inr r"
    and w: "scorer_weights r = Some w" "w \<noteq> []" "sum_list (map snd w) \<le> 2 ^ 46"
    and sane: "\<forall>e\<in>set w. 0 \<le> gm_get0 rq (fst e) \<and> 0 \<le> gm_get0 al (fst e) \<and> gm_get0 al (fst e) \<le> 2 ^ 56" and v: "0 \<le> v1"
  shows "\<exists>s. scorer r rq al b v1 v2 = Some s \<and> 0 \<le> s \<and> s \<le> 100"
  using new
proof (elim disjE)
  assume "NewLeastAllocated a = Inr r"
  then obtain rs where rs: "scorer r = leastResourceScorer w" "validateResources rs = None" "w = weight_map rs"
    using w(1) by (auto simp: NewLeastAllocated_def Let_def split: PluginArgs.splits option.splits)
  then have "sane_values rq al w" using sane validated_weights(1) [OF rs(2)] by (auto simp: sane_values_def)
  then show ?thesis using leastResourceScorer_range w rs(1) by simp
next
  assume "NewMostAllocated a = Inr r"
  then obtain rs where rs: "scorer r = mostResourceScorer w" "validateResources rs = None" "w = weight_map rs"
    using w(1) by (auto simp: NewMostAllocated_def Let_def split: PluginArgs.splits option.splits)
  then have "sane_values rq al w" using sane validated_weights(1) [OF rs(2)] by (auto simp: sane_values_def)
  then show ?thesis using mostResourceScorer_range w rs(1) by simp
next
  assume "NewRequestedToCapacityRatio a = Inr r"
  then obtain args where args: "scorer r = buildRequestedToCapacityRatioScorerFunction (ratio_shape (ra_Shape args)) w"
      "ValidateRequestedToCapacityRatioArgs args = None" "w = ratio_weights (ra_Resources args)"
    using w(1) by (auto simp: NewRequestedToCapacityRatio_def Let_def split: PluginArgs.splits option.splits)
  have v: "validateFunctionShape (ra_Shape args) = None" "validateResourcesNoMax (ra_Resources args) = None"
    using args(2) by (auto simp: ValidateRequestedToCapacityRatioArgs_def split: option.splits)
  have "sane_values rq al w" using sane validated_weights(2) [OF v(2)] args(3) by (auto simp: sane_values_def)
  then show ?thesis using ratio_scorer_range [OF validated_shape [OF v(1)]] w(3) args(1) by simp
next
  assume "NewBalancedAllocation a = Inr r"
  then have b: "scorer r = balancedResourceScorer" "w = defaultRequestedRatioResources"
    using w(1) by (auto simp: NewBalancedAllocation_def)
  show ?thesis unfolding b(1)
    by (rule balancedResourceScorer_range) (use sane v in \<open>auto simp: b(2) defaultRequestedRatioResources_def\<close>)
qed


text \<open>
  For a shape that passes the validation, the utilisation function of \<open>RequestedToCapacityRatio\<close>
  returns for every integer: the score of a point at its utilisation, the first score below the first
  point, the last score above the last one, and between two points a value between their scores.
\<close>

theorem broken_linear_interpolates:
  assumes "ValidateRequestedToCapacityRatioArgs args = None"
  shows "\<exists>v. buildBrokenLinearFunction (ratio_shape (ra_Shape args)) p = Some v \<and>
    interpolates (ratio_shape (ra_Shape args)) p v \<and> MinNodeScore \<le> v \<and> v \<le> MaxNodeScore"
proof -
  have "validateFunctionShape (ra_Shape args) = None"
    using assms by (simp add: ValidateRequestedToCapacityRatioArgs_def split: option.splits)
  from buildBrokenLinear_ok [OF validated_shape [OF this]] show ?thesis
    by (simp add: MinNodeScore_def MaxNodeScore_def)
qed

text \<open>Without any resource the average divides by zero; the validation accepts that.\<close>

lemma no_resources_panic:
  assumes "NewLeastAllocated (NodeResourcesLeastAllocatedArgs []) = Inr r" "ni_node n \<noteq> None"
  shows "scorer_score r pod n = None"
  using assms by (auto simp: NewLeastAllocated_def validateResources_def weight_map_def Let_def scorer_score_def
    leastResourceScorer_def quot64_def)

subsection \<open>Witnesses\<close>

definition demo_requests :: ResourceList where
  "demo_requests = [(ResourceCPU, \<lparr>qty_Value = 1, qty_MilliValue = 500\<rparr>), (ResourceMemory, \<lparr>qty_Value = 4000, qty_MilliValue = 4000000\<rparr>)]"

definition demo_pod :: Pod where
  "demo_pod = zero_pod\<lparr>pod_UID := ''u'', pod_Containers := [\<lparr>c_Image = '''', c_Requests = demo_requests, c_Limits = [], c_Ports = []\<rparr>]\<rparr>"

definition demo_node :: NodeInfo where
  "demo_node = fst (SetNode 1 (fst (NewNodeInfo (\<lambda>_. Inl ''none'') 0 []))
    (zero_node\<lparr>node_Allocatable := [(ResourceCPU, \<lparr>qty_Value = 1, qty_MilliValue = 800\<rparr>),
       (ResourceMemory, \<lparr>qty_Value = 9000, qty_MilliValue = 9000000\<rparr>), (ResourcePods, \<lparr>qty_Value = 5, qty_MilliValue = 5000\<rparr>)]\<rparr>))"

definition demo_fit :: FitPlugin where
  "demo_fit = \<lparr>ignoredResources = [], ignoredResourceGroups = []\<rparr>"

lemma demo_node_ok: "totals_ok demo_node" "within_capacity demo_fit demo_node"
proof -
  have "ni_wf demo_node" unfolding demo_node_def by (intro SetNode_wf NewNodeInfo_wf)
  then show "totals_ok demo_node" by (simp add: ni_wf_def)
  have "int (length (ni_Pods demo_node)) \<le> AllowedPodNumber (ni_Allocatable demo_node)"
    "MilliCPU (ni_Requested demo_node) \<le> MilliCPU (ni_Allocatable demo_node)"
    "Memory (ni_Requested demo_node) \<le> Memory (ni_Allocatable demo_node)"
    "EphemeralStorage (ni_Requested demo_node) \<le> EphemeralStorage (ni_Allocatable demo_node)"
    "ScalarResources (ni_Requested demo_node) = None" "ScalarResources (ni_Allocatable demo_node) = None"
    by code_simp+
  then show "within_capacity demo_fit demo_node" by (simp add: within_capacity_def)
qed

theorem fit_iff_room_witness:
  "within_capacity demo_fit (fst (NodeInfo_AddPod (\<lambda>_. Inl ''none'') 7 demo_node demo_pod))"
proof -
  have "fitsRequest (computePodResourceRequest demo_pod) demo_node [] [] = []" by code_simp
  then have "Fit_Filter (\<lambda>_. '''') demo_fit (snd (Fit_PreFilter NewCycleState demo_pod)) demo_node = None"
    by (simp add: Fit_Filter_eq demo_fit_def)
  then show ?thesis
    using fit_iff_room [OF demo_node_ok, of "\<lambda>_. ''''" NewCycleState demo_pod "\<lambda>_. Inl ''none''" 7] by blast
qed

definition demo_least :: resourceAllocationScorer where
  "demo_least = projr (NewLeastAllocated (NodeResourcesLeastAllocatedArgs
     [\<lparr>rs_Name = ResourceCPU, rs_Weight = 1\<rparr>, \<lparr>rs_Name = ResourceMemory, rs_Weight = 2\<rparr>]))"


definition demo_shape :: RequestedToCapacityRatioArgs where
  "demo_shape = \<lparr>ra_Shape = [\<lparr>usp_Utilization = 0, usp_Score = 10\<rparr>, \<lparr>usp_Utilization = 70, usp_Score = 3\<rparr>], ra_Resources = []\<rparr>"

theorem broken_linear_interpolates_witness:
  "\<exists>v. buildBrokenLinearFunction (ratio_shape (ra_Shape demo_shape)) 33 = Some v \<and>
    interpolates (ratio_shape (ra_Shape demo_shape)) 33 v \<and> MinNodeScore \<le> v \<and> v \<le> MaxNodeScore"
  by (rule broken_linear_interpolates) code_simp

end
