(* ===== verification/Node_Filters.thy ===== *)
theory Node_Filters
  imports Node_Resources
begin

text \<open>
  The plugins that look at one node: \<^verbatim>\<open>nodeports\<close>, \<^verbatim>\<open>nodename\<close>, \<^verbatim>\<open>nodeunschedulable\<close>,
  \<^verbatim>\<open>tainttoleration\<close>, \<^verbatim>\<open>nodelabel\<close>, \<^verbatim>\<open>nodeaffinity\<close>, \<^verbatim>\<open>volumerestrictions\<close> and \<^verbatim>\<open>imagelocality\<close> of
  \<^verbatim>\<open>scheduler/framework/plugins\<close>, with \<^verbatim>\<open>plugins/helper\<close>, and what they promise.

  A nil \<open>NodeInfo\<close> is \<open>None\<close> where a plugin tests for it; its method \<open>Node\<close> then gives nil too. A score is
  the number and the status; it is \<open>None\<close> where the code panics. The parameter \<open>selectorFromSet\<close> is
  \<open>labels.SelectorFromSet\<close>, of a package outside this repository.
\<close>

definition go_quote :: "char" where "go_quote = CHR 0x27"

text \<open>The verb \<open>%+v\<close> on a slice of strings.\<close>

fun go_vs_tail :: "string list \<Rightarrow> string" where
  "go_vs_tail [] = '']''"
| "go_vs_tail (x # xs) = '' '' @ x @ go_vs_tail xs"

fun go_vs :: "string list \<Rightarrow> string" where
  "go_vs [] = ''[]''"
| "go_vs (x # xs) = ''['' @ x @ go_vs_tail xs"

definition getting_node :: "string \<Rightarrow> error \<Rightarrow> Status" where
  "getting_node nodeName err = NewStatus Error [''getting node '' @ go_q nodeName @ '' from Snapshot: '' @ err]"

subsection \<open>helper/normalize\_score.go\<close>

definition normalize_one :: "int \<Rightarrow> bool \<Rightarrow> int \<Rightarrow> NodeScore \<Rightarrow> NodeScore option" where
  "normalize_one maxPriority reverse maxCount ns =
    map_option (\<lambda>score. ns\<lparr>ns_Score := if reverse then i64 (maxPriority - score) else score\<rparr>)
      (quot64 (i64 (maxPriority * ns_Score ns)) maxCount)"

definition DefaultNormalizeScore :: "int \<Rightarrow> bool \<Rightarrow> NodeScoreList \<Rightarrow> (NodeScoreList \<times> Status option) option" where
  "DefaultNormalizeScore maxPriority reverse scores =
    (let maxCount = fold (\<lambda>ns m. if ns_Score ns > m then ns_Score ns else m) scores 0 in
     if maxCount = 0
     then Some (if reverse then map (\<lambda>ns. ns\<lparr>ns_Score := maxPriority\<rparr>) scores else scores, None)
     else map_option (\<lambda>l. (l, None)) (those (map (normalize_one maxPriority reverse maxCount) scores)))"

subsection \<open>nodeports\<close>

definition PortsName :: string where "PortsName = ''NodePorts''"

definition ports_preFilterStateKey :: string where "ports_preFilterStateKey = ''PreFilter'' @ PortsName"

definition ports_ErrReason :: string where
  "ports_ErrReason = ''node(s) didn'' @ [go_quote] @ ''t have free ports for the requested pod ports''"

definition getContainerPorts :: "Pod list \<Rightarrow> ContainerPort list" where
  "getContainerPorts pods =
    fold (\<lambda>pod. fold (\<lambda>container. fold (\<lambda>port ports. ports @ [port]) (c_Ports container)) (pod_Containers pod)) pods []"

definition NodePorts_PreFilter :: "plugin_state \<Rightarrow> Pod \<Rightarrow> Status option \<times> plugin_state" where
  "NodePorts_PreFilter cycleState pod =
    (let s = getContainerPorts [pod] in (None, CycleState_Write cycleState ports_preFilterStateKey (PortsData s)))"

definition ports_getPreFilterState :: "(StateData \<Rightarrow> string) \<Rightarrow> plugin_state \<Rightarrow> error + ContainerPort list" where
  "ports_getPreFilterState show cycleState =
    read_state ''error reading '' ''  convert to nodeports.preFilterState error'' show as_PortsData
      ports_preFilterStateKey cycleState"

fun no_conflict :: "HostPortInfo \<Rightarrow> ContainerPort list \<Rightarrow> bool" where
  "no_conflict existingPorts [] = True"
| "no_conflict existingPorts (cp # wantPorts) =
    (if CheckConflict existingPorts (cp_HostIP cp) (cp_Protocol cp) (cp_HostPort cp) then False
     else no_conflict existingPorts wantPorts)"

definition fitsPorts :: "ContainerPort list \<Rightarrow> NodeInfo \<Rightarrow> bool" where
  "fitsPorts wantPorts nodeInfo = no_conflict (ni_UsedPorts nodeInfo) wantPorts"

definition NodePorts_Fits :: "Pod \<Rightarrow> NodeInfo \<Rightarrow> bool" where
  "NodePorts_Fits pod nodeInfo = fitsPorts (getContainerPorts [pod]) nodeInfo"

definition NodePorts_Filter :: "(StateData \<Rightarrow> string) \<Rightarrow> plugin_state \<Rightarrow> NodeInfo \<Rightarrow> Status option" where
  "NodePorts_Filter show cycleState nodeInfo =
    (case ports_getPreFilterState show cycleState of
       Inl err \<Rightarrow> Some (NewStatus Error [err])
     | Inr wantPorts \<Rightarrow>
         if \<not> fitsPorts wantPorts nodeInfo then Some (NewStatus Unschedulable [ports_ErrReason]) else None)"

subsection \<open>nodename and nodeunschedulable\<close>

definition NodeName_ErrReason :: string where
  "NodeName_ErrReason = ''node(s) didn'' @ [go_quote] @ ''t match the requested hostname''"

definition NodeName_Fits :: "Pod \<Rightarrow> Node \<Rightarrow> bool" where
  "NodeName_Fits pod node \<longleftrightarrow> length (pod_NodeName pod) = 0 \<or> pod_NodeName pod = node_Name node"

definition NodeName_Filter :: "Pod \<Rightarrow> NodeInfo \<Rightarrow> Status option" where
  "NodeName_Filter pod nodeInfo =
    (case ni_node nodeInfo of
       None \<Rightarrow> Some (NewStatus Error [''node not found''])
     | Some node \<Rightarrow>
         if \<not> NodeName_Fits pod node then Some (NewStatus UnschedulableAndUnresolvable [NodeName_ErrReason]) else None)"

definition NodeUnschedulable_Filter :: "Pod \<Rightarrow> NodeInfo option \<Rightarrow> Status option" where
  "NodeUnschedulable_Filter pod nodeInfo =
    (case Option.bind nodeInfo ni_node of
       None \<Rightarrow> Some (NewStatus UnschedulableAndUnresolvable [''node(s) had unknown conditions''])
     | Some node \<Rightarrow>
         let podToleratesUnschedulable = False in
         if node_Unschedulable node \<and> \<not> podToleratesUnschedulable
         then Some (NewStatus UnschedulableAndUnresolvable [''node(s) were unschedulable''])
         else None)"

subsection \<open>tainttoleration\<close>

abbreviation TaintEffectNoSchedule :: string where "TaintEffectNoSchedule \<equiv> ''NoSchedule''"
abbreviation TaintEffectPreferNoSchedule :: string where "TaintEffectPreferNoSchedule \<equiv> ''PreferNoSchedule''"
abbreviation TaintEffectNoExecute :: string where "TaintEffectNoExecute \<equiv> ''NoExecute''"

definition taint_preScoreStateKey :: string where "taint_preScoreStateKey = ''PreScoreTaintToleration''"

definition TaintToleration_Filter :: "Pod \<Rightarrow> NodeInfo option \<Rightarrow> Status option" where
  "TaintToleration_Filter pod nodeInfo =
    (case Option.bind nodeInfo ni_node of
       None \<Rightarrow> Some (NewStatus Error [''invalid nodeInfo''])
     | Some node \<Rightarrow>
         let filterPredicate = (\<lambda>t. taint_Effect t = TaintEffectNoSchedule \<or> taint_Effect t = TaintEffectNoExecute);
             taint = \<lparr>taint_Key = '''', taint_Value = '''', taint_Effect = ''''\<rparr>;
             isUntolerated = filterPredicate taint in
         if \<not> isUntolerated then None
         else Some (NewStatus UnschedulableAndUnresolvable
           [''node(s) had taint {'' @ taint_Key taint @ '', '' @ taint_Value taint @ ''}, that the pod didn''
              @ [go_quote] @ ''t tolerate'']))"

definition getAllTolerationPreferNoSchedule :: "Toleration list \<Rightarrow> Toleration list" where
  "getAllTolerationPreferNoSchedule tolerations =
    filter (\<lambda>t. length (tol_Effect t) = 0 \<or> tol_Effect t = TaintEffectPreferNoSchedule) tolerations"

definition TaintToleration_PreScore :: "plugin_state \<Rightarrow> Pod \<Rightarrow> Node list \<Rightarrow> Status option \<times> plugin_state" where
  "TaintToleration_PreScore cycleState pod nodes =
    (if length nodes = 0 then (None, cycleState)
     else (None, CycleState_Write cycleState taint_preScoreStateKey
            (TaintData (getAllTolerationPreferNoSchedule (pod_Tolerations pod)))))"

definition taint_getPreScoreState :: "(StateData \<Rightarrow> string) \<Rightarrow> plugin_state \<Rightarrow> error + Toleration list" where
  "taint_getPreScoreState show cycleState =
    read_state ''Error reading '' '' convert to tainttoleration.preScoreState error'' show as_TaintData
      taint_preScoreStateKey cycleState"

definition countIntolerableTaintsPreferNoSchedule :: "Taint list \<Rightarrow> Toleration list \<Rightarrow> int" where
  "countIntolerableTaintsPreferNoSchedule taints tolerations =
    fold (\<lambda>taint n. if taint_Effect taint \<noteq> TaintEffectPreferNoSchedule then n else i64 (n + 1)) taints 0"

definition TaintToleration_Score :: "(StateData \<Rightarrow> string) \<Rightarrow> Snapshot \<Rightarrow> plugin_state \<Rightarrow> string \<Rightarrow> int \<times> Status option" where
  "TaintToleration_Score show snapshot state nodeName =
    (case Snapshot_Get snapshot nodeName of
       Inl err \<Rightarrow> (0, Some (getting_node nodeName err))
     | Inr nodeInfo \<Rightarrow>
         (case ni_node nodeInfo of
            None \<Rightarrow> (0, Some (getting_node nodeName ''<nil>''))
          | Some node \<Rightarrow>
              (case taint_getPreScoreState show state of
                 Inl err \<Rightarrow> (0, Some (NewStatus Error [err]))
               | Inr tolerations \<Rightarrow> (countIntolerableTaintsPreferNoSchedule (node_Taints node) tolerations, None))))"

definition TaintToleration_NormalizeScore :: "NodeScoreList \<Rightarrow> (NodeScoreList \<times> Status option) option" where
  "TaintToleration_NormalizeScore scores = DefaultNormalizeScore MaxNodeScore True scores"

subsection \<open>nodelabel\<close>

definition validateNoConflict :: "string list \<Rightarrow> string list \<Rightarrow> error option" where
  "validateNoConflict presentLabels absentLabels =
    map_option (\<lambda>l. ''detecting at least one label (e.g., '' @ go_q l @ '') that exist in both the present(''
        @ go_vs presentLabels @ '') and absent('' @ go_vs absentLabels @ '') label list'')
      (find (\<lambda>l. List.member presentLabels l) absentLabels)"

definition ValidateNodeLabelArgs :: "NodeLabelArgs \<Rightarrow> error option" where
  "ValidateNodeLabelArgs args =
    (case validateNoConflict (PresentLabels args) (AbsentLabels args) of
       Some err \<Rightarrow> Some err
     | None \<Rightarrow>
         (case validateNoConflict (PresentLabelsPreference args) (AbsentLabelsPreference args) of
            Some err \<Rightarrow> Some err
          | None \<Rightarrow> None))"

definition nodelabel_getArgs :: "PluginArgs \<Rightarrow> error + NodeLabelArgs" where
  "nodelabel_getArgs obj =
    (case obj of NodeLabelArgs args \<Rightarrow> Inr args | _ \<Rightarrow> Inl (want_args ''NodeLabelArgs'' obj))"

definition NewNodeLabel :: "PluginArgs \<Rightarrow> error + NodeLabelArgs" where
  "NewNodeLabel plArgs =
    (case nodelabel_getArgs plArgs of
       Inl err \<Rightarrow> Inl err
     | Inr args \<Rightarrow> (case ValidateNodeLabelArgs args of Some err \<Rightarrow> Inl err | None \<Rightarrow> Inr args))"

fun check_labels :: "labelset \<Rightarrow> bool \<Rightarrow> string list \<Rightarrow> bool" where
  "check_labels nodeLabels presence [] = True"
| "check_labels nodeLabels presence (label # labels) =
    (let exists = gm_has nodeLabels label in
     if (exists \<and> \<not> presence) \<or> (\<not> exists \<and> presence) then False
     else check_labels nodeLabels presence labels)"

definition NodeLabel_Filter :: "NodeLabelArgs \<Rightarrow> Pod \<Rightarrow> NodeInfo \<Rightarrow> Status option" where
  "NodeLabel_Filter args pod nodeInfo =
    (case ni_node nodeInfo of
       None \<Rightarrow> Some (NewStatus Error [''node not found''])
     | Some node \<Rightarrow>
         if check_labels (labels_of node) True (PresentLabels args) \<and> check_labels (labels_of node) False (AbsentLabels args)
         then None
         else Some (NewStatus UnschedulableAndUnresolvable
           [''node(s) didn'' @ [go_quote] @ ''t have the requested labels'']))"

definition NodeLabel_Score :: "NodeLabelArgs \<Rightarrow> Snapshot \<Rightarrow> string \<Rightarrow> (int \<times> Status option) option" where
  "NodeLabel_Score args snapshot nodeName =
    (case Snapshot_Get snapshot nodeName of
       Inl err \<Rightarrow> Some (0, Some (getting_node nodeName (err @ '', node is nil: true'')))
     | Inr nodeInfo \<Rightarrow>
         (case ni_node nodeInfo of
            None \<Rightarrow> Some (0, Some (getting_node nodeName ''<nil>, node is nil: true''))
          | Some node \<Rightarrow>
              let score = fold (\<lambda>label s. if gm_has (labels_of node) label then i64 (s + MaxNodeScore) else s)
                    (PresentLabelsPreference args) 0;
                  score = fold (\<lambda>label s. if \<not> gm_has (labels_of node) label then i64 (s + MaxNodeScore) else s)
                    (AbsentLabelsPreference args) score
              in map_option (\<lambda>score. (score, None))
                   (quot64 score (int (length (PresentLabelsPreference args) + length (AbsentLabelsPreference args))))))"

subsection \<open>helper/node\_affinity.go and nodeaffinity\<close>

definition nodeMatchesNodeSelectorTerms :: "Node \<Rightarrow> NodeSelectorTerm list \<Rightarrow> bool" where
  "nodeMatchesNodeSelectorTerms node nodeSelectorTerms = False"

definition PodMatchesNodeSelectorAndAffinityTerms :: "(labelset \<Rightarrow> selector) \<Rightarrow> Pod \<Rightarrow> Node \<Rightarrow> bool" where
  "PodMatchesNodeSelectorAndAffinityTerms selectorFromSet pod node =
    (if length (pod_NodeSelector pod) > 0 \<and> \<not> selectorFromSet (pod_NodeSelector pod) (labels_of node) then False
     else
       let nodeAffinityMatches = True in
       (case Option.bind (pod_Affinity pod) aff_NodeAffinity of
          None \<Rightarrow> nodeAffinityMatches
        | Some nodeAffinity \<Rightarrow>
            (case na_Required nodeAffinity of
               None \<Rightarrow> True
             | Some nodeSelectorTerms \<Rightarrow>
                 nodeAffinityMatches \<and> nodeMatchesNodeSelectorTerms node nodeSelectorTerms)))"

definition NodeAffinity_Filter :: "(labelset \<Rightarrow> selector) \<Rightarrow> Pod \<Rightarrow> NodeInfo \<Rightarrow> Status option" where
  "NodeAffinity_Filter selectorFromSet pod nodeInfo =
    (case ni_node nodeInfo of
       None \<Rightarrow> Some (NewStatus Error [''node not found''])
     | Some node \<Rightarrow>
         if \<not> PodMatchesNodeSelectorAndAffinityTerms selectorFromSet pod node
         then Some (NewStatus UnschedulableAndUnresolvable
           [''node(s) didn'' @ [go_quote] @ ''t match node selector''])
         else None)"

definition NodeAffinity_Score :: "Snapshot \<Rightarrow> Pod \<Rightarrow> string \<Rightarrow> int \<times> Status option" where
  "NodeAffinity_Score snapshot pod nodeName =
    (case Snapshot_Get snapshot nodeName of
       Inl err \<Rightarrow> (0, Some (getting_node nodeName err))
     | Inr nodeInfo \<Rightarrow>
         (case ni_node nodeInfo of
            None \<Rightarrow> (0, Some (getting_node nodeName ''<nil>''))
          | Some node \<Rightarrow>
              ((case Option.bind (pod_Affinity pod) aff_NodeAffinity of
                  None \<Rightarrow> 0
                | Some nodeAffinity \<Rightarrow>
                    fold (\<lambda>t count. if pst_Weight t = 0 then count else i64 (count + pst_Weight t))
                      (na_Preferred nodeAffinity) 0), None)))"

definition NodeAffinity_NormalizeScore :: "NodeScoreList \<Rightarrow> (NodeScoreList \<times> Status option) option" where
  "NodeAffinity_NormalizeScore scores = DefaultNormalizeScore MaxNodeScore False scores"

subsection \<open>volumerestrictions\<close>

definition haveOverlap :: "string list \<Rightarrow> string list \<Rightarrow> bool" where
  "haveOverlap a1 a2 =
    (case (if length a1 > length a2 then (a2, a1) else (a1, a2)) of
       (a1, a2) \<Rightarrow> let m = fold (\<lambda>val m. gm_put m val True) a1 [] in list_ex (gm_has m) a2)"

definition same_disk :: "Volume \<Rightarrow> Volume \<Rightarrow> bool" where
  "same_disk volume existingVolume \<longleftrightarrow>
    (case (vol_GCEPersistentDisk volume, vol_GCEPersistentDisk existingVolume) of
       (Some (pd, ro), Some (epd, ero)) \<Rightarrow> pd = epd \<and> \<not> (ro \<and> ero) | _ \<Rightarrow> False) \<or>
    (case (vol_AWSElasticBlockStore volume, vol_AWSElasticBlockStore existingVolume) of
       (Some v, Some ev) \<Rightarrow> v = ev | _ \<Rightarrow> False) \<or>
    (case (vol_ISCSI volume, vol_ISCSI existingVolume) of
       (Some (iqn, ro), Some (eiqn, ero)) \<Rightarrow> iqn = eiqn \<and> \<not> (ro \<and> ero) | _ \<Rightarrow> False) \<or>
    (case (vol_RBD volume, vol_RBD existingVolume) of
       (Some (mon, pool, img, ro), Some (emon, epool, eimg, ero)) \<Rightarrow>
         haveOverlap mon emon \<and> pool = epool \<and> img = eimg \<and> \<not> (ro \<and> ero)
     | _ \<Rightarrow> False)"

definition isVolumeConflict :: "Volume \<Rightarrow> Pod \<Rightarrow> bool" where
  "isVolumeConflict volume pod = list_ex (same_disk volume) (pod_Volumes pod)"

fun volume_conflict :: "NodeInfo \<Rightarrow> Volume list \<Rightarrow> Status option" where
  "volume_conflict nodeInfo [] = None"
| "volume_conflict nodeInfo (v # vs) =
    (if vol_GCEPersistentDisk v = None \<and> vol_AWSElasticBlockStore v = None \<and> vol_RBD v = None \<and> vol_ISCSI v = None
     then volume_conflict nodeInfo vs
     else if list_ex (\<lambda>ev. isVolumeConflict v (pi_Pod ev)) (ni_Pods nodeInfo)
     then Some (NewStatus Unschedulable [''node(s) had no available disk''])
     else volume_conflict nodeInfo vs)"

definition VolumeRestrictions_Filter :: "Pod \<Rightarrow> NodeInfo \<Rightarrow> Status option" where
  "VolumeRestrictions_Filter pod nodeInfo = volume_conflict nodeInfo (pod_Volumes pod)"

subsection \<open>imagelocality\<close>

definition minThreshold :: int where "minThreshold = 23 * (1024 * 1024)"
definition maxContainerThreshold :: int where "maxContainerThreshold = 1000 * (1024 * 1024)"

definition calculatePriority :: "int \<Rightarrow> int \<Rightarrow> int option" where
  "calculatePriority sumScores numContainers =
    (let maxThreshold = i64 (maxContainerThreshold * numContainers);
         sumScores = (if sumScores < minThreshold then minThreshold
           else if sumScores > maxThreshold then maxThreshold else sumScores)
     in quot64 (i64 (MaxNodeScore * i64 (sumScores - minThreshold))) (i64 (maxThreshold - minThreshold)))"

text \<open>
  A quotient by zero is an infinity or not a number, and Go leaves its conversion to an integer open;
  the model has no value for it.
\<close>

definition scaledImageScore :: "ImageStateSummary \<Rightarrow> int \<Rightarrow> int option" where
  "scaledImageScore imageState totalNumNodes =
    (if totalNumNodes = 0 then None
     else let spread = fdiv (float64 (iss_NumNodes imageState)) (float64 totalNumNodes)
          in Some (int64_of (fmul (float64 (iss_Size imageState)) spread)))"

text \<open>\<open>strings.LastIndex\<close> of a one-character string, \<open>- 1\<close> when there is none.\<close>

fun last_index :: "char \<Rightarrow> string \<Rightarrow> int" where
  "last_index c [] = - 1"
| "last_index c (x # xs) = (let i = last_index c xs in if i \<ge> 0 then i + 1 else if x = c then 0 else - 1)"

definition normalizedImageName :: "string \<Rightarrow> string" where
  "normalizedImageName name =
    (if last_index (CHR '':'') name \<le> last_index (CHR ''/'') name then name @ '':latest'' else name)"

fun sum_images :: "NodeInfo \<Rightarrow> int \<Rightarrow> Container list \<Rightarrow> int \<Rightarrow> int option" where
  "sum_images nodeInfo totalNumNodes [] acc = Some acc"
| "sum_images nodeInfo totalNumNodes (container # containers) acc =
    (case gm_get (ni_ImageStates nodeInfo) (normalizedImageName (c_Image container)) of
       None \<Rightarrow> sum_images nodeInfo totalNumNodes containers acc
     | Some state \<Rightarrow>
         (case scaledImageScore state totalNumNodes of
            None \<Rightarrow> None
          | Some score \<Rightarrow> sum_images nodeInfo totalNumNodes containers (i64 (acc + score))))"

definition sumImageScores :: "NodeInfo \<Rightarrow> Container list \<Rightarrow> int \<Rightarrow> int option" where
  "sumImageScores nodeInfo containers totalNumNodes = sum_images nodeInfo totalNumNodes containers 0"

definition ImageLocality_Score :: "Snapshot \<Rightarrow> Pod \<Rightarrow> string \<Rightarrow> (int \<times> Status option) option" where
  "ImageLocality_Score snapshot pod nodeName =
    (case Snapshot_Get snapshot nodeName of
       Inl err \<Rightarrow> Some (0, Some (getting_node nodeName err))
     | Inr nodeInfo \<Rightarrow>
         let totalNumNodes = int (length (Snapshot_List snapshot)) in
         do { sumScores \<leftarrow> sumImageScores nodeInfo (pod_Containers pod) totalNumNodes;
              score \<leftarrow> calculatePriority sumScores (int (length (pod_Containers pod)));
              Some (score, None) })"

subsection \<open>Normalised scores\<close>

lemma fold_max_le:
  fixes f :: "'a \<Rightarrow> int"
  shows "m \<le> fold (\<lambda>x m. if f x > m then f x else m) xs m \<and>
    (\<forall>x\<in>set xs. f x \<le> fold (\<lambda>x m. if f x > m then f x else m) xs m)"
proof (induction xs arbitrary: m)
  case (Cons x xs)
  from Cons.IH [of "if f x > m then f x else m"] show ?case by (auto split: if_splits)
qed simp

lemma fold_max_in:
  fixes f :: "'a \<Rightarrow> int"
  shows "fold (\<lambda>x m. if f x > m then f x else m) xs m = m \<or> fold (\<lambda>x m. if f x > m then f x else m) xs m \<in> f ` set xs"
proof (induction xs arbitrary: m)
  case (Cons x xs)
  from Cons.IH [of "if f x > m then f x else m"] show ?case by (auto split: if_splits)
qed simp

lemma those_map_Some: "\<forall>x\<in>set xs. f x = Some (g x) \<Longrightarrow> those (map f xs) = Some (map g xs)"
  by (induction xs) auto

text \<open>What a score becomes, when the scores are not negative and the products do not overflow.\<close>

definition normalized_score :: "int \<Rightarrow> bool \<Rightarrow> int \<Rightarrow> int \<Rightarrow> int" where
  "normalized_score maxPriority reverse maxCount s =
    (let q = (if maxCount = 0 then 0 else maxPriority * s div maxCount) in if reverse then maxPriority - q else q)"

definition scores_fit :: "int \<Rightarrow> NodeScoreList \<Rightarrow> bool" where
  "scores_fit maxPriority scores \<longleftrightarrow> 0 \<le> maxPriority \<and> maxPriority < 2 ^ 63 \<and>
    (\<forall>ns\<in>set scores. 0 \<le> ns_Score ns \<and> maxPriority * ns_Score ns < 2 ^ 63)"

lemma normalized_range:
  assumes "0 \<le> maxPriority" "0 \<le> s" "s \<le> maxCount"
  shows "0 \<le> normalized_score maxPriority reverse maxCount s \<and> normalized_score maxPriority reverse maxCount s \<le> maxPriority"
proof (cases "maxCount = 0")
  case False
  then have m: "0 < maxCount" using assms by simp
  have "maxPriority * s \<le> maxPriority * maxCount" using assms by (intro mult_left_mono) auto
  then have "maxPriority * s div maxCount \<le> maxPriority" using zdiv_mono1 [OF _ m] m by fastforce
  moreover have "0 \<le> maxPriority * s div maxCount" using assms m by (simp add: pos_imp_zdiv_nonneg_iff)
  ultimately show ?thesis by (simp add: normalized_score_def)
qed (use assms in \<open>simp add: normalized_score_def\<close>)

lemma DefaultNormalizeScore_eq:
  assumes fit: "scores_fit maxPriority scores"
  defines "c \<equiv> fold (\<lambda>ns m. if ns_Score ns > m then ns_Score ns else m) scores 0"
  shows "DefaultNormalizeScore maxPriority reverse scores =
    Some (map (\<lambda>ns. ns\<lparr>ns_Score := normalized_score maxPriority reverse c (ns_Score ns)\<rparr>) scores, None)"
proof -
  have c: "0 \<le> c" "\<forall>ns\<in>set scores. ns_Score ns \<le> c"
    using fold_max_le [of 0 ns_Score scores] unfolding c_def by auto
  show ?thesis
  proof (cases "c = 0")
    case True
    have "ns_Score ns = 0" if "ns \<in> set scores" for ns
      using that c(2) True fit by (auto simp: scores_fit_def intro: antisym)
    then show ?thesis using True
      by (auto simp: DefaultNormalizeScore_def c_def [symmetric] normalized_score_def intro!: map_idI [symmetric])
  next
    case False
    have "normalize_one maxPriority reverse c ns = Some (ns\<lparr>ns_Score := normalized_score maxPriority reverse c (ns_Score ns)\<rparr>)"
      if ns: "ns \<in> set scores" for ns
    proof -
      have b: "0 \<le> maxPriority * ns_Score ns" "maxPriority * ns_Score ns < 2 ^ 63" "0 \<le> maxPriority" "0 \<le> ns_Score ns"
          "maxPriority < 2 ^ 63" "ns_Score ns \<le> c"
        using ns fit c by (auto simp: scores_fit_def)
      then have "in64 (maxPriority * ns_Score ns)" unfolding in64_def by linarith
      moreover have "in64 (normalized_score maxPriority reverse c (ns_Score ns))"
        using normalized_range [of maxPriority "ns_Score ns" c reverse] b by (simp add: in64_def)
      ultimately show ?thesis using b c False
        by (auto simp: normalize_one_def quot64_pos normalized_score_def)
    qed
    then show ?thesis using False
      by (simp add: DefaultNormalizeScore_def c_def [symmetric] those_map_Some)
  qed
qed

text \<open>
  \<open>DefaultNormalizeScore\<close>, the normalisation of the score plugins, keeps the nodes and maps scores
  that are not negative, and whose products do not overflow, into \<open>0..maxPriority\<close> without changing
  their order (or reversing it); the best node gets \<open>maxPriority\<close> when some score is positive, or 0
  in the reversed direction, where a score of 0 becomes \<open>maxPriority\<close>.\<close>

theorem DefaultNormalizeScore_scales:
  assumes "scores_fit maxPriority scores"
  shows "\<exists>l. DefaultNormalizeScore maxPriority reverse scores = Some (l, None) \<and>
    map ns_Name l = map ns_Name scores \<and>
    (\<forall>i<length scores. 0 \<le> ns_Score (l ! i) \<and> ns_Score (l ! i) \<le> maxPriority \<and>
      (reverse \<and> ns_Score (scores ! i) = 0 \<longrightarrow> ns_Score (l ! i) = maxPriority) \<and>
      (\<forall>j<length scores. ns_Score (scores ! i) \<le> ns_Score (scores ! j) \<longrightarrow>
        (if reverse then ns_Score (l ! j) \<le> ns_Score (l ! i) else ns_Score (l ! i) \<le> ns_Score (l ! j))) \<and>
      (ns_Score (scores ! i) > 0 \<and> (\<forall>j<length scores. ns_Score (scores ! j) \<le> ns_Score (scores ! i)) \<longrightarrow>
        ns_Score (l ! i) = (if reverse then 0 else maxPriority)))"
proof -
  let ?c = "fold (\<lambda>ns m. if ns_Score ns > m then ns_Score ns else m) scores 0"
  let ?l = "map (\<lambda>ns. ns\<lparr>ns_Score := normalized_score maxPriority reverse ?c (ns_Score ns)\<rparr>) scores"
  have c: "0 \<le> ?c" "\<forall>i<length scores. ns_Score (scores ! i) \<le> ?c"
    using fold_max_le [of 0 ns_Score scores] by auto
  have in_c: "?c = 0 \<or> (\<exists>i<length scores. ?c = ns_Score (scores ! i))"
    using fold_max_in [of ns_Score scores 0] by (force simp: in_set_conv_nth)
  have p: "0 \<le> maxPriority" "\<forall>i<length scores. 0 \<le> ns_Score (scores ! i)"
    using assms by (auto simp: scores_fit_def)
  have mono: "normalized_score maxPriority False ?c s \<le> normalized_score maxPriority False ?c t" if "s \<le> t" for s t
    using that c(1) p(1) by (auto simp: normalized_score_def intro!: zdiv_mono1 mult_left_mono)
  have rev: "normalized_score maxPriority True ?c s = maxPriority - normalized_score maxPriority False ?c s" for s
    by (simp add: normalized_score_def)
  have top: "normalized_score maxPriority False ?c (ns_Score (scores ! i)) = maxPriority"
    if "i < length scores" "ns_Score (scores ! i) > 0" "\<forall>j<length scores. ns_Score (scores ! j) \<le> ns_Score (scores ! i)" for i
  proof -
    have "?c = ns_Score (scores ! i)" using in_c c(2) [rule_format, OF that(1)] that(2,3) by fastforce
    then show ?thesis using that(2) by (simp add: normalized_score_def)
  qed
  have zero: "normalized_score maxPriority True ?c 0 = maxPriority" by (simp add: normalized_score_def)

  have "0 \<le> ns_Score (?l ! i) \<and> ns_Score (?l ! i) \<le> maxPriority \<and>
      (reverse \<and> ns_Score (scores ! i) = 0 \<longrightarrow> ns_Score (?l ! i) = maxPriority) \<and>
      (\<forall>j<length scores. ns_Score (scores ! i) \<le> ns_Score (scores ! j) \<longrightarrow>
        (if reverse then ns_Score (?l ! j) \<le> ns_Score (?l ! i) else ns_Score (?l ! i) \<le> ns_Score (?l ! j))) \<and>
      (ns_Score (scores ! i) > 0 \<and> (\<forall>j<length scores. ns_Score (scores ! j) \<le> ns_Score (scores ! i)) \<longrightarrow>
        ns_Score (?l ! i) = (if reverse then 0 else maxPriority))" if i: "i < length scores" for i
  proof (intro conjI impI allI)
    show "0 \<le> ns_Score (?l ! i)" "ns_Score (?l ! i) \<le> maxPriority"
      using i p(2) c(2) normalized_range [OF p(1), of "ns_Score (scores ! i)" ?c reverse] by simp_all
    show "ns_Score (?l ! i) = maxPriority" if "reverse \<and> ns_Score (scores ! i) = 0"
      using that i zero by simp
    show "if reverse then ns_Score (?l ! j) \<le> ns_Score (?l ! i) else ns_Score (?l ! i) \<le> ns_Score (?l ! j)"
      if "j < length scores" "ns_Score (scores ! i) \<le> ns_Score (scores ! j)" for j
      using that i mono [OF that(2)] rev by simp
    show "ns_Score (?l ! i) = (if reverse then 0 else maxPriority)"
      if "ns_Score (scores ! i) > 0 \<and> (\<forall>j<length scores. ns_Score (scores ! j) \<le> ns_Score (scores ! i))"
      using that i top [OF i] rev by simp
  qed
  note each = this
  have names: "map ns_Name ?l = map ns_Name scores" by (simp add: o_def)
  show ?thesis
    using each by (intro exI [of _ ?l] conjI DefaultNormalizeScore_eq [OF assms] names) blast
qed

theorem DefaultNormalizeScore_scales_witness:
  "\<exists>l. DefaultNormalizeScore 100 True [\<lparr>ns_Name = ''a'', ns_Score = 4\<rparr>, \<lparr>ns_Name = ''b'', ns_Score = 1\<rparr>] = Some (l, None) \<and>
    map ns_Name l = [''a'', ''b''] \<and> ns_Score (l ! 0) = 0 \<and> ns_Score (l ! 1) \<le> 100"
proof -
  let ?s = "[\<lparr>ns_Name = ''a'', ns_Score = 4\<rparr>, \<lparr>ns_Name = ''b'', ns_Score = 1\<rparr>]"
  have "scores_fit 100 ?s" by (simp add: scores_fit_def)
  then obtain l where l: "DefaultNormalizeScore 100 True ?s = Some (l, None)" "map ns_Name l = map ns_Name ?s"
      "\<forall>i<length ?s. 0 \<le> ns_Score (l ! i) \<and> ns_Score (l ! i) \<le> 100 \<and>
      (True \<and> ns_Score (?s ! i) = 0 \<longrightarrow> ns_Score (l ! i) = 100) \<and>
      (\<forall>j<length ?s. ns_Score (?s ! i) \<le> ns_Score (?s ! j) \<longrightarrow>
        (if True then ns_Score (l ! j) \<le> ns_Score (l ! i) else ns_Score (l ! i) \<le> ns_Score (l ! j))) \<and>
      (ns_Score (?s ! i) > 0 \<and> (\<forall>j<length ?s. ns_Score (?s ! j) \<le> ns_Score (?s ! i)) \<longrightarrow>
        ns_Score (l ! i) = (if True then 0 else 100))"
    using DefaultNormalizeScore_scales [of 100 ?s True] by blast
  then have "ns_Score (l ! 0) = 0" "ns_Score (l ! 1) \<le> 100" by (simp_all add: less_Suc_eq)
  then show ?thesis using l(1,2) by auto
qed

subsection \<open>Host ports\<close>

lemma getContainerPorts_eq: "getContainerPorts pods = concat (map (\<lambda>p. concat (map c_Ports (pod_Containers p))) pods)"
proof -
  have 1: "fold (\<lambda>port ports. ports @ [port]) ps = (\<lambda>l. l @ ps)" for ps :: "ContainerPort list"
    by (induction ps) (auto simp: fun_eq_iff)
  have 2: "fold (\<lambda>container ports. ports @ c_Ports container) cs = (\<lambda>l. l @ concat (map c_Ports cs))" for cs
    by (induction cs) (auto simp: fun_eq_iff)
  have 3: "fold (\<lambda>pod ports. ports @ concat (map c_Ports (pod_Containers pod))) ps =
      (\<lambda>l. l @ concat (map (\<lambda>p. concat (map c_Ports (pod_Containers p))) ps))" for ps
    by (induction ps) (auto simp: fun_eq_iff)
  show ?thesis by (simp add: getContainerPorts_def 1 2 3)
qed

lemma no_conflict_iff:
  "no_conflict h ps \<longleftrightarrow> (\<forall>cp\<in>set ps. \<not> CheckConflict h (cp_HostIP cp) (cp_Protocol cp) (cp_HostPort cp))"
  by (induction ps) auto

text \<open>Two uses of a port overlap when the addresses are the same or one is the wildcard.\<close>

definition ports_clash :: "Pod \<Rightarrow> Pod \<Rightarrow> bool" where
  "ports_clash p q \<longleftrightarrow> (\<exists>a b pp. (a, pp) \<in> pod_ports p \<and> (b, pp) \<in> pod_ports q \<and>
     (a = b \<or> a = DefaultBindAllHostIP \<or> b = DefaultBindAllHostIP))"

text \<open>A node keeps exactly the ports of its pods, and no two of them clash.\<close>

definition ports_exclusive :: "NodeInfo \<Rightarrow> bool" where
  "ports_exclusive n \<longleftrightarrow>
     (\<forall>x. port_taken (ni_UsedPorts n) x \<longleftrightarrow> (\<exists>p\<in>set (ni_Pods n). x \<in> pod_ports (pi_Pod p))) \<and>
     (\<forall>p q. {#p, q#} \<subseteq># image_mset pi_Pod (mset (ni_Pods n)) \<longrightarrow> \<not> ports_clash p q)"

lemma ports_clash_sym: "ports_clash p q \<longleftrightarrow> ports_clash q p"
  by (auto simp: ports_clash_def)

lemma NodePorts_Filter_eq:
  "NodePorts_Filter show (snd (NodePorts_PreFilter cs pod)) n =
    (if NodePorts_Fits pod n then None else Some (NewStatus Unschedulable [ports_ErrReason]))"
  by (simp add: NodePorts_Filter_def ports_getPreFilterState_def read_state_def NodePorts_PreFilter_def Let_def
    CycleState_Read_def CycleState_Write_def NodePorts_Fits_def)

lemma NodePorts_Fits_iff:
  assumes "ports_ok (ni_UsedPorts n)"
  shows "NodePorts_Fits pod n \<longleftrightarrow> (\<forall>a pp b. (a, pp) \<in> pod_ports pod \<longrightarrow> port_taken (ni_UsedPorts n) (b, pp) \<longrightarrow>
    \<not> (b = a \<or> b = DefaultBindAllHostIP \<or> a = DefaultBindAllHostIP))"
  unfolding NodePorts_Fits_def fitsPorts_def no_conflict_iff getContainerPorts_eq CheckConflict_iff [OF assms]
    pod_ports_def by auto blast+

lemma NodePorts_Fits_no_clash:
  assumes "ports_ok (ni_UsedPorts n)" "ports_exclusive n"
  shows "NodePorts_Fits pod n \<longleftrightarrow> (\<forall>p\<in>set (ni_Pods n). \<not> ports_clash pod (pi_Pod p))"
  using assms(2) unfolding NodePorts_Fits_iff [OF assms(1)] ports_exclusive_def ports_clash_def by blast

lemma ports_exclusive_AddPod:
  assumes "ports_exclusive n" "\<forall>p\<in>set (ni_Pods n). \<not> ports_clash pod (pi_Pod p)"
  shows "ports_exclusive (fst (NodeInfo_AddPod asSel gen n pod))"
proof -
  have "\<not> ports_clash p q" if sub: "{#p, q#} \<subseteq># add_mset pod (image_mset pi_Pod (mset (ni_Pods n)))" for p q
  proof (cases "p = pod \<or> q = pod")
    case True
    then obtain r where "{#p, q#} = {#pod, r#}" "ports_clash p q \<longleftrightarrow> ports_clash pod r"
      using ports_clash_sym add_mset_commute by metis
    moreover from this sub have "r \<in># image_mset pi_Pod (mset (ni_Pods n))" by simp
    ultimately show ?thesis using assms(2) by auto
  next
    case False
    then have "{#p, q#} \<subseteq># image_mset pi_Pod (mset (ni_Pods n))"
      using sub subset_eq_diff_conv [of "{#p, q#}" "{#pod#}" "image_mset pi_Pod (mset (ni_Pods n))"] by simp
    then show ?thesis using assms(1) by (simp add: ports_exclusive_def)
  qed
  then show ?thesis using assms(1) unfolding ports_exclusive_def by (auto simp: updateUsedPorts_add)
qed

lemma ports_exclusive_RemovePod:
  assumes wf: "ni_wf n" and ex: "ports_exclusive n" and p: "p \<in> set (ni_Pods n)"
  shows "\<exists>n'. NodeInfo_RemovePod gen n (pi_Pod p) = Some (n', gen + 1, None) \<and> ports_exclusive n'"
proof -
  have *: "pods_ok n" "ports_ok (ni_UsedPorts n)" using wf by (auto simp: ni_wf_def ni_clonable_def)
  obtain i where i: "find_index (same_key (pod_UID (pi_Pod p))) (ni_Pods n) = Some i" "ni_Pods n ! i = p"
    using RemovePod_pods_ok [OF * p refl refl] by blast
  have ne: "pod_UID (pi_Pod p) \<noteq> []" using *(1) p by (auto simp: pods_ok_def)
  obtain n' where n': "NodeInfo_RemovePod gen n (pi_Pod p) = Some (n', gen + 1, None)"
      "ni_Pods n' = swap_remove i (ni_Pods n)"
      "ni_UsedPorts n' = updateUsedPorts (ni_UsedPorts n) (pi_Pod p) False"
    using RemovePod_found [OF ne i(1), of gen] by blast
  have ms: "mset (ni_Pods n') = mset (ni_Pods n) - {#p#}"
    using swap_remove_unique [OF i(1) ne] n'(2) i(2) by simp
  have "distinct (ni_Pods n)" using *(1) by (auto simp: pods_ok_def distinct_map)
  then have st: "set (ni_Pods n') = set (ni_Pods n) - {p}"
    using ms by (metis mset_remove1 mset_eq_setD set_remove1_eq)
  have split: "mset (ni_Pods n) = add_mset p (mset (ni_Pods n'))" using ms p by simp
  have no: "x \<notin> pod_ports (pi_Pod p)" if "q \<in> set (ni_Pods n')" "x \<in> pod_ports (pi_Pod q)" for x q
  proof
    assume x: "x \<in> pod_ports (pi_Pod p)"
    have "{#pi_Pod p, pi_Pod q#} \<subseteq># image_mset pi_Pod (mset (ni_Pods n))" using that(1) by (simp add: split)
    then have "\<not> ports_clash (pi_Pod p) (pi_Pod q)" using ex by (simp add: ports_exclusive_def)
    then show False using x that(2) by (cases x) (auto simp: ports_clash_def)
  qed
  have "ports_exclusive n'"
    unfolding ports_exclusive_def
  proof (intro conjI allI impI)
    show "port_taken (ni_UsedPorts n') x \<longleftrightarrow> (\<exists>q\<in>set (ni_Pods n'). x \<in> pod_ports (pi_Pod q))" for x
    proof -
      have "port_taken (ni_UsedPorts n) x \<longleftrightarrow> (\<exists>q\<in>set (ni_Pods n). x \<in> pod_ports (pi_Pod q))"
        using ex unfolding ports_exclusive_def by blast
      then show ?thesis unfolding n'(3) updateUsedPorts_remove [OF *(2)] using no [of _ x] unfolding st by blast
    qed
    show "\<not> ports_clash a b" if "{#a, b#} \<subseteq># image_mset pi_Pod (mset (ni_Pods n'))" for a b
    proof -
      have "image_mset pi_Pod (mset (ni_Pods n')) \<subseteq># image_mset pi_Pod (mset (ni_Pods n))" by (simp add: split)
      with that have "{#a, b#} \<subseteq># image_mset pi_Pod (mset (ni_Pods n))" by (rule subset_mset.order_trans)
      then show ?thesis using ex by (simp add: ports_exclusive_def)
    qed
  qed
  with n'(1) show ?thesis by blast
qed

text \<open>
  C24: On a node whose pods do not clash in a host port, the plugin \<open>NodePorts\<close>, \<open>PreFilter\<close> and then
  \<open>Filter\<close>, passes a pod exactly when it clashes with none of them, and answers \<open>Unschedulable\<close>
  otherwise; adding a pod that passed keeps the node so, and removing one does (two uses of a protocol
  and port clash on the same address, or when one is on the wildcard address).\<close>

theorem nodeports_exclusive:
  assumes "ni_wf n" "ports_exclusive n"
  shows "NodePorts_Filter pr (snd (NodePorts_PreFilter cs pod)) n =
      (if \<forall>p\<in>set (ni_Pods n). \<not> ports_clash pod (pi_Pod p) then None
       else Some (NewStatus Unschedulable [ports_ErrReason])) \<and>
    (NodePorts_Filter pr (snd (NodePorts_PreFilter cs pod)) n = None \<longrightarrow>
      ports_exclusive (fst (NodeInfo_AddPod asSel gen n pod))) \<and>
    (\<forall>p\<in>set (ni_Pods n). \<exists>n'. NodeInfo_RemovePod gen n (pi_Pod p) = Some (n', gen + 1, None) \<and> ports_exclusive n')"
proof -
  have "ports_ok (ni_UsedPorts n)" using assms(1) by (simp add: ni_wf_def ni_clonable_def)
  note fits = NodePorts_Fits_no_clash [OF this assms(2), of pod]
  show ?thesis
    using ports_exclusive_AddPod [OF assms(2)] ports_exclusive_RemovePod [OF assms]
    by (simp add: NodePorts_Filter_eq fits)
qed

definition port_pod :: "string \<Rightarrow> string \<Rightarrow> Pod" where
  "port_pod uid ip = zero_pod\<lparr>pod_UID := uid, pod_Containers :=
     [\<lparr>c_Image = '''', c_Requests = [], c_Limits = [], c_Ports = [\<lparr>cp_HostIP = ip, cp_Protocol = '''', cp_HostPort = 80\<rparr>]\<rparr>]\<rparr>"

theorem nodeports_exclusive_witness:
  "let n = fst (NodeInfo_AddPod (\<lambda>_. Inl []) 1 (fst (NewNodeInfo (\<lambda>_. Inl []) 0 [])) (port_pod ''a'' ''10.0.0.1'')) in
   NodePorts_Filter (\<lambda>_. []) (snd (NodePorts_PreFilter NewCycleState (port_pod ''b'' ''10.0.0.2''))) n = None \<and>
   NodePorts_Filter (\<lambda>_. []) (snd (NodePorts_PreFilter NewCycleState (port_pod ''b'' ''''))) n =
     Some (NewStatus Unschedulable [ports_ErrReason])"
proof -
  let ?s = "\<lambda>_. Inl []"
  let ?e = "fst (NewNodeInfo ?s 0 [])"
  let ?n = "fst (NodeInfo_AddPod ?s 1 ?e (port_pod ''a'' ''10.0.0.1''))"
  have 0: "ni_wf ?e" "ports_exclusive ?e" "ni_Pods ?e = []"
    by (rule NewNodeInfo_wf) (simp_all add: NewNodeInfo_def ports_exclusive_def)
  have wf: "ni_wf ?n" by (rule AddPod_wf) (simp_all add: 0 port_pod_def)
  have ex: "ports_exclusive ?n" by (rule ports_exclusive_AddPod) (simp_all add: 0)
  have ports: "pod_ports (port_pod u ip) = port_of ip '''' 80" for u ip by (simp add: pod_ports_def port_pod_def)
  show ?thesis
    unfolding Let_def
    using nodeports_exclusive [OF wf ex, where pr = "\<lambda>_. []" and cs = NewCycleState and pod = "port_pod ''b'' ''10.0.0.2''"]
      nodeports_exclusive [OF wf ex, where pr = "\<lambda>_. []" and cs = NewCycleState and pod = "port_pod ''b'' ''''"]
    by (simp add: 0 ports_clash_def ports port_of_def sanitize_def NewProtocolPort_def DefaultBindAllHostIP_def)
qed

subsection \<open>The other plugins\<close>

text \<open>
  With a node the filter \<open>TaintToleration\<close> passes every pod, whatever the taints of the node and the
  tolerations of the pod are: it looks at an empty taint. A pod with a required node affinity matches
  no node at all.
\<close>

lemma TaintToleration_never_rejects:
  "ni_node nodeInfo = Some node \<Longrightarrow> TaintToleration_Filter pod (Some nodeInfo) = None"
  by (simp add: TaintToleration_Filter_def)

lemma required_affinity_rejects:
  "pod_Affinity pod = Some a \<Longrightarrow> aff_NodeAffinity a = Some na \<Longrightarrow> na_Required na = Some terms \<Longrightarrow>
    \<not> PodMatchesNodeSelectorAndAffinityTerms selectorFromSet pod node"
  by (simp add: PodMatchesNodeSelectorAndAffinityTerms_def nodeMatchesNodeSelectorTerms_def)

lemma check_labels_iff:
  "check_labels nodeLabels presence labels \<longleftrightarrow> (\<forall>l\<in>set labels. gm_has nodeLabels l = presence)"
  by (induction labels) (auto simp: Let_def)

lemma NodeLabel_Filter_iff:
  "ni_node nodeInfo = Some node \<Longrightarrow> NodeLabel_Filter args pod nodeInfo = None \<longleftrightarrow>
    set (PresentLabels args) \<subseteq> fst ` set (labels_of node) \<and> set (AbsentLabels args) \<inter> fst ` set (labels_of node) = {}"
  by (auto simp: NodeLabel_Filter_def check_labels_iff gm_has_def gm_get_eq_None)

text \<open>Valid arguments can be met by some node: no label is asked to be both present and absent.\<close>

lemma validateNoConflict_iff: "validateNoConflict p a = None \<longleftrightarrow> set p \<inter> set a = {}"
  by (auto simp: validateNoConflict_def find_None_iff)

lemma ValidateNodeLabelArgs_disjoint:
  "ValidateNodeLabelArgs args = None \<longleftrightarrow>
    set (PresentLabels args) \<inter> set (AbsentLabels args) = {} \<and>
    set (PresentLabelsPreference args) \<inter> set (AbsentLabelsPreference args) = {}"
  unfolding validateNoConflict_iff [symmetric] by (auto simp: ValidateNodeLabelArgs_def split: option.splits)

lemma haveOverlap_iff: "haveOverlap a1 a2 \<longleftrightarrow> set a1 \<inter> set a2 \<noteq> {}"
proof -
  have "gm_has (fold (\<lambda>val m. gm_put m val True) xs m) k \<longleftrightarrow> gm_has m k \<or> k \<in> set xs" for xs :: "string list" and m k
    by (induction xs arbitrary: m) (auto simp: gm_has_def)
  from this [of _ "[]"] have "gm_has (fold (\<lambda>val m. gm_put m val True) xs []) k \<longleftrightarrow> k \<in> set xs" for xs :: "string list" and k
    by (simp add: gm_has_def)
  then show ?thesis by (auto simp: haveOverlap_def Let_def list_ex_iff)
qed

lemma same_disk_sym: "same_disk v w = same_disk w v"
  by (auto simp: same_disk_def haveOverlap_iff split: option.splits)

lemma VolumeRestrictions_Filter_iff:
  "VolumeRestrictions_Filter pod nodeInfo = None \<longleftrightarrow>
    (\<forall>v\<in>set (pod_Volumes pod). \<forall>p\<in>set (ni_Pods nodeInfo). \<forall>w\<in>set (pod_Volumes (pi_Pod p)). \<not> same_disk v w)"
proof -
  have "volume_conflict nodeInfo vs = None \<longleftrightarrow>
      (\<forall>v\<in>set vs. \<forall>p\<in>set (ni_Pods nodeInfo). \<forall>w\<in>set (pod_Volumes (pi_Pod p)). \<not> same_disk v w)" for vs
    by (induction vs) (auto simp: isVolumeConflict_def list_ex_iff, auto simp: same_disk_def)
  then show ?thesis by (simp add: VolumeRestrictions_Filter_def)
qed

lemma calculatePriority_range:
  assumes "0 < n" "n \<le> 1000"
  shows "\<exists>s. calculatePriority sumScores n = Some s \<and> 0 \<le> s \<and> s \<le> MaxNodeScore"
proof -
  let ?m = "maxContainerThreshold * n"
  define x where "x = (if sumScores < minThreshold then minThreshold else if sumScores > ?m then ?m else sumScores) - minThreshold"
  have d: "0 < ?m - minThreshold" "?m < 2 ^ 50" using assms by (simp_all add: maxContainerThreshold_def minThreshold_def)
  have x: "0 \<le> x" "x \<le> ?m - minThreshold" using d by (auto simp: x_def)
  have fits: "in64 ?m" "in64 (?m - minThreshold)" "in64 x" "in64 (MaxNodeScore * x)"
    using d x by (simp_all add: in64_def MaxNodeScore_def minThreshold_def)
  have "calculatePriority sumScores n = quot64 (MaxNodeScore * x) (?m - minThreshold)"
    unfolding calculatePriority_def Let_def i64_id [OF fits(1)] x_def [symmetric] i64_id [OF fits(2)] i64_id [OF fits(3)]
      i64_id [OF fits(4)] by (rule refl)
  also have "\<dots> = Some (MaxNodeScore * x div (?m - minThreshold))"
    by (rule quot64_pos) (use x d in \<open>simp_all add: MaxNodeScore_def minThreshold_def in64_def\<close>)
  finally have eq: "calculatePriority sumScores n = Some (MaxNodeScore * x div (?m - minThreshold))" .
  have "MaxNodeScore * x div (?m - minThreshold) \<le> MaxNodeScore * (?m - minThreshold) div (?m - minThreshold)"
    by (rule zdiv_mono1) (use x d in \<open>simp_all add: MaxNodeScore_def\<close>)
  moreover have "0 \<le> MaxNodeScore * x div (?m - minThreshold)"
    using x d by (simp add: pos_imp_zdiv_nonneg_iff MaxNodeScore_def)
  ultimately show ?thesis using eq d by simp
qed

end
