(* ===== verification/Topology_Spread.thy ===== *)
theory Topology_Spread
  imports Node_Filters
begin

text \<open>
  The plugin \<open>PodTopologySpread\<close> (\<^verbatim>\<open>scheduler/framework/plugins/podtopologyspread\<close>), with
  \<open>DefaultSelector\<close> (\<^verbatim>\<open>plugins/helper/spread.go\<close>) and the validation of its arguments.

  The pre-computed state of a pod (\<open>spreadPreFilterState\<close>, \<open>spreadPreScoreState\<close>) is declared in
  \<open>Plugin_State\<close>; its counters are pointers that no two states share, so they are values here. A nil
  dereference is \<open>None\<close>. Two orders that the runtime chooses are arguments: \<open>order\<close>, in which the pieces
  of \<open>parallelize.Until\<close> take effect, and \<open>perm\<close>, in which a range over a map visits its entries.
  Parameters: \<open>asSel\<close> is \<open>metav1.LabelSelectorAsSelector\<close>, \<open>selectorFromSet\<close> is
  \<open>labels.SelectorFromSet\<close>, \<open>log64\<close> is \<open>math.Log\<close> on floats, \<open>label_ops\<close> the package of label selectors
  and \<open>listers\<close> the listers of an informer factory.
\<close>

abbreviation LabelHostname :: string where "LabelHostname \<equiv> ''kubernetes.io/hostname''"
abbreviation DoNotSchedule :: string where "DoNotSchedule \<equiv> ''DoNotSchedule''"
abbreviation ScheduleAnyway :: string where "ScheduleAnyway \<equiv> ''ScheduleAnyway''"

text \<open>Reading a label; a key that is absent reads as the empty string.\<close>

definition label_at :: "Node \<Rightarrow> string \<Rightarrow> string" where
  "label_at node key = (case gm_get (labels_of node) key of None \<Rightarrow> '''' | Some v \<Rightarrow> v)"

subsection \<open>helper/spread.go\<close>

text \<open>Selectors of the label package, as the type \<open>'s\<close>.\<close>

record 's label_ops =
  lo_Merge :: "labelset \<Rightarrow> labelset \<Rightarrow> labelset"
  lo_NewSelector :: 's
  lo_AsSelector :: "labelset \<Rightarrow> 's"
  lo_LabelSelectorAsSelector :: "LabelSelector option \<Rightarrow> error + 's"
  lo_selectable :: "'s \<Rightarrow> bool"
  lo_AddRequirements :: "'s \<Rightarrow> 's \<Rightarrow> 's"
  lo_Empty :: "'s \<Rightarrow> bool"
  lo_Matches :: "'s \<Rightarrow> selector"

record listers =
  li_Services :: "string \<Rightarrow> error + Service list"
  li_PodControllers :: "Pod \<Rightarrow> error + labelset list"
  li_PodReplicaSets :: "Pod \<Rightarrow> error + LabelSelector option list"
  li_PodStatefulSets :: "Pod \<Rightarrow> error + LabelSelector option list"

definition GetPodServices :: "'s label_ops \<Rightarrow> listers \<Rightarrow> Pod \<Rightarrow> error + Service list" where
  "GetPodServices lo li pod =
    (case li_Services li (pod_Namespace pod) of
       Inl err \<Rightarrow> Inl err
     | Inr allServices \<Rightarrow>
         Inr (fold (\<lambda>service services.
             case svc_Selector service of
               None \<Rightarrow> services
             | Some sel \<Rightarrow>
                 if lo_Matches lo (lo_AsSelector lo sel) (pod_Labels pod) then services @ [service] else services)
           allServices []))"

text \<open>The loops over replica sets and stateful sets: the requirements of each selector are added.\<close>

definition add_selectors :: "'s label_ops \<Rightarrow> (error + LabelSelector option list) \<Rightarrow> 's \<Rightarrow> 's" where
  "add_selectors lo sets selector =
    (case sets of
       Inl err \<Rightarrow> selector
     | Inr l \<Rightarrow>
         fold (\<lambda>spec sel.
             case lo_LabelSelectorAsSelector lo spec of
               Inl err \<Rightarrow> sel
             | Inr other \<Rightarrow> if lo_selectable lo other then lo_AddRequirements lo sel other else sel)
           l selector)"

definition DefaultSelector :: "'s label_ops \<Rightarrow> listers \<Rightarrow> Pod \<Rightarrow> 's" where
  "DefaultSelector lo li pod =
    (let labelSet = (case GetPodServices lo li pod of
           Inl err \<Rightarrow> []
         | Inr services \<Rightarrow> fold (\<lambda>service l. lo_Merge lo l (nilmap (svc_Selector service))) services []);
         labelSet = (case li_PodControllers li pod of
           Inl err \<Rightarrow> labelSet
         | Inr rcs \<Rightarrow> fold (\<lambda>sel l. lo_Merge lo l sel) rcs labelSet);
         selector = (if length labelSet \<noteq> 0 then lo_AsSelector lo labelSet else lo_NewSelector lo);
         selector = add_selectors lo (li_PodReplicaSets li pod) selector
     in add_selectors lo (li_PodStatefulSets li pod) selector)"

subsection \<open>common.go\<close>

fun filterTopologySpreadConstraints :: "as_selector \<Rightarrow> TopologySpreadConstraint list \<Rightarrow> string \<Rightarrow>
    error + topologySpreadConstraint list" where
  "filterTopologySpreadConstraints asSel [] action = Inr []"
| "filterTopologySpreadConstraints asSel (c # constraints) action =
    (if tsc_WhenUnsatisfiable c = action then
       (case asSel (tsc_LabelSelector c) of
          Inl err \<Rightarrow> Inl err
        | Inr selector \<Rightarrow>
            map_sum id (\<lambda>result. \<lparr>MaxSkew = tsc_MaxSkew c, TopologyKey = tsc_TopologyKey c, Selector = selector\<rparr> # result)
              (filterTopologySpreadConstraints asSel constraints action))
     else filterTopologySpreadConstraints asSel constraints action)"

definition defaultConstraints :: "as_selector \<Rightarrow> 's label_ops \<Rightarrow> listers \<Rightarrow> TopologySpreadConstraint list \<Rightarrow> Pod \<Rightarrow>
    string \<Rightarrow> error + topologySpreadConstraint list" where
  "defaultConstraints asSel lo li args p action =
    (case filterTopologySpreadConstraints asSel args action of
       Inl err \<Rightarrow> Inl err
     | Inr constraints \<Rightarrow>
         if length constraints = 0 then Inr []
         else
           let selector = DefaultSelector lo li p in
           if lo_Empty lo selector then Inr []
           else Inr (map (\<lambda>c. c\<lparr>Selector := lo_Matches lo selector\<rparr>) constraints))"

fun nodeLabelsMatchSpreadConstraints :: "labelset \<Rightarrow> topologySpreadConstraint list \<Rightarrow> bool" where
  "nodeLabelsMatchSpreadConstraints nodeLabels [] = True"
| "nodeLabelsMatchSpreadConstraints nodeLabels (c # constraints) =
    (if \<not> gm_has nodeLabels (TopologyKey c) then False else nodeLabelsMatchSpreadConstraints nodeLabels constraints)"

definition countPodsMatchSelector :: "PodInfo list \<Rightarrow> selector \<Rightarrow> string \<Rightarrow> int" where
  "countPodsMatchSelector podInfos sel ns =
    fold (\<lambda>p count.
        if pod_DeletionTimestamp (pi_Pod p) \<noteq> None \<or> pod_Namespace (pi_Pod p) \<noteq> ns then count
        else if sel (pod_Labels (pi_Pod p)) then i64 (count + 1) else count)
      podInfos 0"

text \<open>The constraints of a pod for an action: its own, or else the default ones.\<close>

definition pod_constraints :: "as_selector \<Rightarrow> 's label_ops \<Rightarrow> listers \<Rightarrow> TopologySpreadConstraint list \<Rightarrow> string \<Rightarrow>
    string \<Rightarrow> Pod \<Rightarrow> error + topologySpreadConstraint list" where
  "pod_constraints asSel lo li args kind action pod =
    (if length (pod_TopologySpreadConstraints pod) > 0 then
       map_sum (\<lambda>err. ''obtaining pod'' @ [go_quote] @ ''s '' @ kind @ '' topology spread constraints: '' @ err) id
         (filterTopologySpreadConstraints asSel (pod_TopologySpreadConstraints pod) action)
     else
       map_sum (\<lambda>err. ''setting default '' @ kind @ '' topology spread constraints: '' @ err) id
         (defaultConstraints asSel lo li args pod action))"

subsection \<open>filtering.go\<close>

definition spread_preFilterStateKey :: string where "spread_preFilterStateKey = ''PreFilterPodTopologySpread''"

definition ErrReasonConstraintsNotMatch :: string where
  "ErrReasonConstraintsNotMatch = ''node(s) didn'' @ [go_quote] @ ''t match pod topology spread constraints''"

definition ErrReasonNodeLabelNotMatch :: string where
  "ErrReasonNodeLabelNotMatch = ErrReasonConstraintsNotMatch @ '' (missing required label)''"

definition MaxInt32 :: int where "MaxInt32 = 2 ^ 31 - 1"

definition newCriticalPaths :: criticalPaths where
  "newCriticalPaths = (('''', MaxInt32), ('''', MaxInt32))"

definition criticalPaths_update :: "criticalPaths \<Rightarrow> string \<Rightarrow> int \<Rightarrow> criticalPaths" where
  "criticalPaths_update p tpVal num =
    (case p of ((v0, n0), (v1, n1)) \<Rightarrow>
       if tpVal = v0 then (if num > n1 then ((v1, n1), (v0, num)) else ((v0, num), (v1, n1)))
       else if tpVal = v1 then (if n0 > num then ((v1, num), (v0, n0)) else ((v0, n0), (v1, num)))
       else if num < n0 then ((tpVal, num), (v0, n0))
       else if num < n1 then ((v0, n0), (tpVal, num))
       else p)"

text \<open>The body of the loop over the constraints: a missing counter or a missing path is a nil dereference.\<close>

fun update_constraints :: "Pod \<Rightarrow> Node \<Rightarrow> int \<Rightarrow> topologySpreadConstraint list \<Rightarrow> spreadPreFilterState \<Rightarrow>
    spreadPreFilterState option" where
  "update_constraints updatedPod node delta [] s = Some s"
| "update_constraints updatedPod node delta (c # constraints) s =
    (if \<not> Selector c (pod_Labels updatedPod) then update_constraints updatedPod node delta constraints s
     else
       let k = TopologyKey c; v = label_at node k; pair = (k, v) in
       case gm_get (TpPairToMatchNum s) pair of
         None \<Rightarrow> None
       | Some n \<Rightarrow>
           let n' = i32 (n + delta); s1 = s\<lparr>TpPairToMatchNum := gm_put (TpPairToMatchNum s) pair n'\<rparr> in
           (case gm_get (TpKeyToCriticalPaths s1) k of
              None \<Rightarrow> None
            | Some paths \<Rightarrow>
                update_constraints updatedPod node delta constraints
                  (s1\<lparr>TpKeyToCriticalPaths := gm_put (TpKeyToCriticalPaths s1) k (criticalPaths_update paths v n')\<rparr>)))"

definition updateWithPod :: "spreadPreFilterState \<Rightarrow> Pod \<Rightarrow> Pod \<Rightarrow> Node option \<Rightarrow> int \<Rightarrow> spreadPreFilterState option" where
  "updateWithPod s updatedPod preemptorPod node delta =
    (case node of
       None \<Rightarrow> Some s
     | Some node \<Rightarrow>
         if pod_Namespace updatedPod \<noteq> pod_Namespace preemptorPod then Some s
         else if \<not> nodeLabelsMatchSpreadConstraints (labels_of node) (Constraints s) then Some s
         else update_constraints updatedPod node delta (Constraints s) s)"

definition spread_getPreFilterState :: "(StateData \<Rightarrow> string) \<Rightarrow> plugin_state \<Rightarrow> error + spreadPreFilterState" where
  "spread_getPreFilterState show cycleState =
    read_state ''error reading '' '' convert to podtopologyspread.preFilterState error'' show as_SpreadData
      spread_preFilterStateKey cycleState"

definition Spread_update :: "(StateData \<Rightarrow> string) \<Rightarrow> int \<Rightarrow> plugin_state \<Rightarrow> Pod \<Rightarrow> Pod \<Rightarrow> NodeInfo \<Rightarrow>
    (Status option \<times> plugin_state) option" where
  "Spread_update show delta cycleState podToSchedule updatedPod nodeInfo =
    (case spread_getPreFilterState show cycleState of
       Inl err \<Rightarrow> Some (Some (NewStatus Error [err]), cycleState)
     | Inr s \<Rightarrow>
         map_option (\<lambda>s'. (None, CycleState_Write cycleState spread_preFilterStateKey (SpreadData s')))
           (updateWithPod s updatedPod podToSchedule (ni_node nodeInfo) delta))"

definition Spread_AddPod :: "(StateData \<Rightarrow> string) \<Rightarrow> plugin_state \<Rightarrow> Pod \<Rightarrow> Pod \<Rightarrow> NodeInfo \<Rightarrow>
    (Status option \<times> plugin_state) option" where
  "Spread_AddPod show cycleState podToSchedule podToAdd nodeInfo =
    Spread_update show 1 cycleState podToSchedule podToAdd nodeInfo"

definition Spread_RemovePod :: "(StateData \<Rightarrow> string) \<Rightarrow> plugin_state \<Rightarrow> Pod \<Rightarrow> Pod \<Rightarrow> NodeInfo \<Rightarrow>
    (Status option \<times> plugin_state) option" where
  "Spread_RemovePod show cycleState podToSchedule podToRemove nodeInfo =
    Spread_update show (- 1) cycleState podToSchedule podToRemove nodeInfo"

text \<open>The first loop over the nodes makes a counter for each pair of a node that counts.\<close>

definition init_pair :: "(labelset \<Rightarrow> selector) \<Rightarrow> Pod \<Rightarrow> topologySpreadConstraint list \<Rightarrow> NodeInfo \<Rightarrow>
    (topologyPair, int) gomap \<Rightarrow> (topologyPair, int) gomap" where
  "init_pair selectorFromSet pod constraints n m =
    (case ni_node n of
       None \<Rightarrow> m
     | Some node \<Rightarrow>
         if \<not> PodMatchesNodeSelectorAndAffinityTerms selectorFromSet pod node then m
         else if \<not> nodeLabelsMatchSpreadConstraints (labels_of node) constraints then m
         else fold (\<lambda>c m. gm_put m (TopologyKey c, label_at node (TopologyKey c)) 0) constraints m)"

definition count_constraint :: "string \<Rightarrow> NodeInfo \<Rightarrow> Node \<Rightarrow> topologySpreadConstraint \<Rightarrow>
    (topologyPair, int) gomap \<Rightarrow> (topologyPair, int) gomap" where
  "count_constraint ns nodeInfo node c m =
    (let pair = (TopologyKey c, label_at node (TopologyKey c)) in
     case gm_get m pair of
       None \<Rightarrow> m
     | Some tpCount \<Rightarrow>
         gm_put m pair (i32 (tpCount + i32 (countPodsMatchSelector (ni_Pods nodeInfo) (Selector c) ns))))"

definition processNode :: "string \<Rightarrow> topologySpreadConstraint list \<Rightarrow> NodeInfo \<Rightarrow> (topologyPair, int) gomap \<Rightarrow>
    (topologyPair, int) gomap option" where
  "processNode ns constraints nodeInfo m =
    (case ni_node nodeInfo of
       None \<Rightarrow> None
     | Some node \<Rightarrow> Some (fold (count_constraint ns nodeInfo node) constraints m))"

fun process_nodes :: "string \<Rightarrow> topologySpreadConstraint list \<Rightarrow> NodeInfo list \<Rightarrow> (topologyPair, int) gomap \<Rightarrow>
    (topologyPair, int) gomap option" where
  "process_nodes ns constraints [] m = Some m"
| "process_nodes ns constraints (n # nodes) m =
    Option.bind (processNode ns constraints n m) (process_nodes ns constraints nodes)"

fun update_paths :: "(topologyPair \<times> int) list \<Rightarrow> (string, criticalPaths) gomap \<Rightarrow> (string, criticalPaths) gomap option" where
  "update_paths [] m = Some m"
| "update_paths ((pair, num) # es) m =
    (case gm_get m (fst pair) of
       None \<Rightarrow> None
     | Some paths \<Rightarrow> update_paths es (gm_put m (fst pair) (criticalPaths_update paths (snd pair) num)))"

text \<open>The state for given constraints.\<close>

definition spread_state :: "(labelset \<Rightarrow> selector) \<Rightarrow> nat list \<Rightarrow> ((topologyPair, int) gomap \<Rightarrow> (topologyPair, int) gomap) \<Rightarrow>
    NodeInfo list \<Rightarrow> Pod \<Rightarrow> topologySpreadConstraint list \<Rightarrow> spreadPreFilterState option" where
  "spread_state selectorFromSet order perm allNodes pod constraints =
    (if length constraints = 0 then Some \<lparr>Constraints = [], TpKeyToCriticalPaths = [], TpPairToMatchNum = []\<rparr>
     else
       let pairs = fold (init_pair selectorFromSet pod constraints) allNodes [] in
       do { counts \<leftarrow> process_nodes (pod_Namespace pod) constraints (map ((!) allNodes) order) pairs;
            paths \<leftarrow> update_paths (perm counts) (fold (\<lambda>c m. gm_put m (TopologyKey c) newCriticalPaths) constraints []);
            Some \<lparr>Constraints = constraints, TpKeyToCriticalPaths = paths, TpPairToMatchNum = counts\<rparr> })"

definition calPreFilterState :: "as_selector \<Rightarrow> 's label_ops \<Rightarrow> listers \<Rightarrow> TopologySpreadConstraint list \<Rightarrow>
    (labelset \<Rightarrow> selector) \<Rightarrow> nat list \<Rightarrow> ((topologyPair, int) gomap \<Rightarrow> (topologyPair, int) gomap) \<Rightarrow>
    Snapshot \<Rightarrow> Pod \<Rightarrow> (error + spreadPreFilterState) option" where
  "calPreFilterState asSel lo li args selectorFromSet order perm snapshot pod =
    (case pod_constraints asSel lo li args ''hard'' DoNotSchedule pod of
       Inl err \<Rightarrow> Some (Inl err)
     | Inr constraints \<Rightarrow>
         map_option Inr (spread_state selectorFromSet order perm (Snapshot_List snapshot) pod constraints))"

definition Spread_PreFilter :: "as_selector \<Rightarrow> 's label_ops \<Rightarrow> listers \<Rightarrow> TopologySpreadConstraint list \<Rightarrow>
    (labelset \<Rightarrow> selector) \<Rightarrow> nat list \<Rightarrow> ((topologyPair, int) gomap \<Rightarrow> (topologyPair, int) gomap) \<Rightarrow>
    Snapshot \<Rightarrow> plugin_state \<Rightarrow> Pod \<Rightarrow> (Status option \<times> plugin_state) option" where
  "Spread_PreFilter asSel lo li args selectorFromSet order perm snapshot cycleState pod =
    map_option (\<lambda>r. case r of
        Inl err \<Rightarrow> (Some (NewStatus Error [err]), cycleState)
      | Inr s \<Rightarrow> (None, CycleState_Write cycleState spread_preFilterStateKey (SpreadData s)))
      (calPreFilterState asSel lo li args selectorFromSet order perm snapshot pod)"

fun check_constraints :: "Pod \<Rightarrow> Node \<Rightarrow> spreadPreFilterState \<Rightarrow> topologySpreadConstraint list \<Rightarrow> Status option" where
  "check_constraints pod node s [] = None"
| "check_constraints pod node s (c # constraints) =
    (case gm_get (labels_of node) (TopologyKey c) of
       None \<Rightarrow> Some (NewStatus UnschedulableAndUnresolvable [ErrReasonNodeLabelNotMatch])
     | Some tpVal \<Rightarrow>
         let selfMatchNum = (if Selector c (pod_Labels pod) then 1 else 0) in
         (case gm_get (TpKeyToCriticalPaths s) (TopologyKey c) of
            None \<Rightarrow> check_constraints pod node s constraints
          | Some paths \<Rightarrow>
              let minMatchNum = snd (fst paths);
                  matchNum = gm_get0 (TpPairToMatchNum s) (TopologyKey c, tpVal);
                  skew = i32 (i32 (matchNum + selfMatchNum) - minMatchNum) in
              if skew > MaxSkew c then Some (NewStatus Unschedulable [ErrReasonConstraintsNotMatch])
              else check_constraints pod node s constraints))"

definition Spread_Filter :: "(StateData \<Rightarrow> string) \<Rightarrow> plugin_state \<Rightarrow> Pod \<Rightarrow> NodeInfo \<Rightarrow> Status option" where
  "Spread_Filter show cycleState pod nodeInfo =
    (case ni_node nodeInfo of
       None \<Rightarrow> Some (NewStatus Error [''node not found''])
     | Some node \<Rightarrow>
         (case spread_getPreFilterState show cycleState of
            Inl err \<Rightarrow> Some (NewStatus Error [err])
          | Inr s \<Rightarrow>
              if length (TpPairToMatchNum s) = 0 \<or> length (Constraints s) = 0 then None
              else check_constraints pod node s (Constraints s)))"

subsection \<open>scoring.go\<close>

definition spread_preScoreStateKey :: string where "spread_preScoreStateKey = ''PreScorePodTopologySpread''"

definition topologyNormalizingWeight :: "(rat \<Rightarrow> rat) \<Rightarrow> int \<Rightarrow> rat" where
  "topologyNormalizingWeight log64 sz = log64 (float64 (i64 (sz + 2)))"

definition scoreForCount :: "int \<Rightarrow> int \<Rightarrow> rat \<Rightarrow> rat" where
  "scoreForCount cnt maxSkew tpWeight = fadd (fmul (float64 cnt) tpWeight) (float64 (i32 (maxSkew - 1)))"

text \<open>One node of the loop in \<open>initPreScoreState\<close>: the ignored nodes, the counters and their number for each constraint.\<close>

definition init_score_node :: "topologySpreadConstraint list \<Rightarrow> Node \<Rightarrow>
    string list \<times> (topologyPair, int) gomap \<times> nat list \<Rightarrow> string list \<times> (topologyPair, int) gomap \<times> nat list" where
  "init_score_node constraints node st =
    (case st of (ignored, counts, topoSize) \<Rightarrow>
      if \<not> nodeLabelsMatchSpreadConstraints (labels_of node) constraints
      then (List.insert (node_Name node) ignored, counts, topoSize)
      else (ignored,
        fold (\<lambda>(i, c) (counts, topoSize).
            if TopologyKey c = LabelHostname then (counts, topoSize)
            else
              let pair = (TopologyKey c, label_at node (TopologyKey c)) in
              if gm_get counts pair = None then (gm_put counts pair 0, topoSize[i := topoSize ! i + 1])
              else (counts, topoSize))
          (List.enumerate 0 constraints) (counts, topoSize)))"

definition initPreScoreState :: "(rat \<Rightarrow> rat) \<Rightarrow> topologySpreadConstraint list \<Rightarrow> Node list \<Rightarrow> spreadPreScoreState" where
  "initPreScoreState log64 constraints filteredNodes =
    (if length constraints = 0
     then \<lparr>ss_Constraints = [], IgnoredNodes = [], TopologyPairToPodCounts = [], TopologyNormalizingWeight = []\<rparr>
     else
       case fold (init_score_node constraints) filteredNodes ([], [], replicate (length constraints) 0) of
         (ignored, counts, topoSize) \<Rightarrow>
           \<lparr>ss_Constraints = constraints, IgnoredNodes = ignored, TopologyPairToPodCounts = counts,
            TopologyNormalizingWeight =
              map (\<lambda>(i, c). topologyNormalizingWeight log64
                  (if TopologyKey c = LabelHostname then int (length filteredNodes) - int (length ignored)
                   else int (topoSize ! i)))
                (List.enumerate 0 constraints)\<rparr>)"

definition score_constraint :: "string \<Rightarrow> NodeInfo \<Rightarrow> Node \<Rightarrow> topologySpreadConstraint \<Rightarrow>
    (topologyPair, int) gomap \<Rightarrow> (topologyPair, int) gomap" where
  "score_constraint ns nodeInfo node c m =
    (let pair = (TopologyKey c, label_at node (TopologyKey c)) in
     case gm_get m pair of
       None \<Rightarrow> m
     | Some tpCount \<Rightarrow> gm_put m pair (i64 (tpCount + countPodsMatchSelector (ni_Pods nodeInfo) (Selector c) ns)))"

definition processAllNode :: "(labelset \<Rightarrow> selector) \<Rightarrow> Pod \<Rightarrow> topologySpreadConstraint list \<Rightarrow> NodeInfo \<Rightarrow>
    (topologyPair, int) gomap \<Rightarrow> (topologyPair, int) gomap" where
  "processAllNode selectorFromSet pod constraints nodeInfo m =
    (case ni_node nodeInfo of
       None \<Rightarrow> m
     | Some node \<Rightarrow>
         if \<not> PodMatchesNodeSelectorAndAffinityTerms selectorFromSet pod node \<or>
            \<not> nodeLabelsMatchSpreadConstraints (labels_of node) constraints then m
         else fold (score_constraint (pod_Namespace pod) nodeInfo node) constraints m)"

definition Spread_PreScore :: "as_selector \<Rightarrow> 's label_ops \<Rightarrow> listers \<Rightarrow> TopologySpreadConstraint list \<Rightarrow>
    (labelset \<Rightarrow> selector) \<Rightarrow> (rat \<Rightarrow> rat) \<Rightarrow> nat list \<Rightarrow> Snapshot \<Rightarrow> plugin_state \<Rightarrow> Pod \<Rightarrow> Node list \<Rightarrow>
    Status option \<times> plugin_state" where
  "Spread_PreScore asSel lo li args selectorFromSet log64 order snapshot cycleState pod filteredNodes =
    (let allNodes = Snapshot_List snapshot in
     if length filteredNodes = 0 \<or> length allNodes = 0 then (None, cycleState)
     else
       case pod_constraints asSel lo li args ''soft'' ScheduleAnyway pod of
         Inl err \<Rightarrow> (Some (NewStatus Error [''error when calculating preScoreState: '' @ err]), cycleState)
       | Inr constraints \<Rightarrow>
           let state = initPreScoreState log64 constraints filteredNodes in
           if length (ss_Constraints state) = 0
           then (None, CycleState_Write cycleState spread_preScoreStateKey (SpreadScoreData state))
           else
             let counts = fold (\<lambda>i. processAllNode selectorFromSet pod constraints (allNodes ! i)) order
                   (TopologyPairToPodCounts state)
             in (None, CycleState_Write cycleState spread_preScoreStateKey
                  (SpreadScoreData (state\<lparr>TopologyPairToPodCounts := counts\<rparr>))))"

definition spread_getPreScoreState :: "(StateData \<Rightarrow> string) \<Rightarrow> plugin_state \<Rightarrow> error + spreadPreScoreState" where
  "spread_getPreScoreState show cycleState =
    read_state ''error reading '' ''  convert to podtopologyspread.preScoreState error'' show as_SpreadScoreData
      spread_preScoreStateKey cycleState"

text \<open>The loop over the constraints in \<open>Score\<close>; a missing counter is a nil dereference.\<close>

fun spread_sum_scores :: "Pod \<Rightarrow> NodeInfo \<Rightarrow> Node \<Rightarrow> (topologyPair, int) gomap \<Rightarrow>
    (topologySpreadConstraint \<times> rat) list \<Rightarrow> rat \<Rightarrow> rat option" where
  "spread_sum_scores pod nodeInfo node counts [] score = Some score"
| "spread_sum_scores pod nodeInfo node counts ((c, w) # cs) score =
    (case gm_get (labels_of node) (TopologyKey c) of
       None \<Rightarrow> spread_sum_scores pod nodeInfo node counts cs score
     | Some tpVal \<Rightarrow>
         if TopologyKey c = LabelHostname then
           spread_sum_scores pod nodeInfo node counts cs
             (fadd score (scoreForCount (countPodsMatchSelector (ni_Pods nodeInfo) (Selector c) (pod_Namespace pod)) (MaxSkew c) w))
         else
           (case gm_get counts (TopologyKey c, tpVal) of
              None \<Rightarrow> None
            | Some cnt \<Rightarrow> spread_sum_scores pod nodeInfo node counts cs (fadd score (scoreForCount cnt (MaxSkew c) w))))"

definition Spread_Score :: "(StateData \<Rightarrow> string) \<Rightarrow> Snapshot \<Rightarrow> plugin_state \<Rightarrow> Pod \<Rightarrow> string \<Rightarrow>
    (int \<times> Status option) option" where
  "Spread_Score show snapshot cycleState pod nodeName =
    (case Snapshot_Get snapshot nodeName of
       Inl err \<Rightarrow> Some (0, Some (getting_node nodeName (err @ '', node is nil: true'')))
     | Inr nodeInfo \<Rightarrow>
         (case ni_node nodeInfo of
            None \<Rightarrow> Some (0, Some (getting_node nodeName ''<nil>, node is nil: true''))
          | Some node \<Rightarrow>
              (case spread_getPreScoreState show cycleState of
                 Inl err \<Rightarrow> Some (0, Some (NewStatus Error [err]))
               | Inr s \<Rightarrow>
                   if List.member (IgnoredNodes s) (node_Name node) then Some (0, None)
                   else map_option (\<lambda>score. (int64_of score, None))
                     (spread_sum_scores pod nodeInfo node (TopologyPairToPodCounts s)
                       (zip (ss_Constraints s) (TopologyNormalizingWeight s)) 0))))"

definition MaxInt64 :: int where "MaxInt64 = 2 ^ 63 - 1"

fun spread_normalize_scores :: "Snapshot \<Rightarrow> string list \<Rightarrow> int \<Rightarrow> int \<Rightarrow> NodeScoreList \<Rightarrow> (Status option \<times> NodeScoreList) option" where
  "spread_normalize_scores snapshot ignored minScore maxScore [] = Some (None, [])"
| "spread_normalize_scores snapshot ignored minScore maxScore (ns # scores) =
    (case Snapshot_Get snapshot (ns_Name ns) of
       Inl err \<Rightarrow> Some (Some (NewStatus Error [err]), ns # scores)
     | Inr nodeInfo \<Rightarrow>
         (case ni_node nodeInfo of
            None \<Rightarrow> None
          | Some node \<Rightarrow>
              do { score \<leftarrow> (if List.member ignored (node_Name node) then Some 0
                     else if maxScore = 0 then Some MaxNodeScore
                     else quot64 (i64 (MaxNodeScore * i64 (i64 (maxScore + minScore) - ns_Score ns))) maxScore);
                   (st, rest) \<leftarrow> spread_normalize_scores snapshot ignored minScore maxScore scores;
                   Some (st, ns\<lparr>ns_Score := score\<rparr> # rest) }))"

definition Spread_NormalizeScore :: "(StateData \<Rightarrow> string) \<Rightarrow> Snapshot \<Rightarrow> plugin_state \<Rightarrow> NodeScoreList \<Rightarrow>
    (Status option \<times> NodeScoreList) option" where
  "Spread_NormalizeScore show snapshot cycleState scores =
    (case spread_getPreScoreState show cycleState of
       Inl err \<Rightarrow> Some (Some (NewStatus Error [err]), scores)
     | Inr s \<Rightarrow>
         let counted = filter (\<lambda>ns. \<not> List.member (IgnoredNodes s) (ns_Name ns)) scores;
             minScore = fold (\<lambda>ns m. if ns_Score ns < m then ns_Score ns else m) counted MaxInt64;
             maxScore = fold (\<lambda>ns m. if ns_Score ns > m then ns_Score ns else m) counted 0
         in spread_normalize_scores snapshot (IgnoredNodes s) minScore maxScore scores)"

subsection \<open>plugin.go and the validation of its arguments\<close>

text \<open>The errors of \<open>field.ErrorList\<close>, each with the path it is about.\<close>

datatype field_error =
    FieldInvalid string int string
  | FieldRequired string string
  | FieldNotSupported string string "string list"
  | FieldForbidden string string
  | FieldDuplicate string string

definition validateTopologyKey :: "string \<Rightarrow> string \<Rightarrow> field_error list" where
  "validateTopologyKey p v = (if length v = 0 then [FieldRequired p ''can not be empty''] else [])"

definition validateWhenUnsatisfiable :: "string \<Rightarrow> string \<Rightarrow> field_error list" where
  "validateWhenUnsatisfiable p v =
    (if length v = 0 then [FieldRequired p ''can not be empty'']
     else if \<not> List.member [DoNotSchedule, ScheduleAnyway] v then [FieldNotSupported p v [DoNotSchedule, ScheduleAnyway]]
     else [])"

definition path_index :: "string \<Rightarrow> nat \<Rightarrow> string" where
  "path_index p i = p @ ''['' @ go_v (int i) @ '']''"

definition validateConstraintNotRepeat :: "string \<Rightarrow> TopologySpreadConstraint list \<Rightarrow> nat \<Rightarrow> field_error list" where
  "validateConstraintNotRepeat path constraints idx =
    (let c = constraints ! idx in
     if list_ex (\<lambda>other. tsc_TopologyKey c = tsc_TopologyKey other \<and> tsc_WhenUnsatisfiable c = tsc_WhenUnsatisfiable other)
          (take idx constraints)
     then [FieldDuplicate (path_index path idx)
             (''{'' @ tsc_TopologyKey c @ '', '' @ tsc_WhenUnsatisfiable c @ ''}'')]
     else [])"

definition validate_constraint :: "TopologySpreadConstraint list \<Rightarrow> nat \<Rightarrow> field_error list" where
  "validate_constraint constraints i =
    (let c = constraints ! i; path = ''defaultConstraints''; p = path_index path i in
     (if tsc_MaxSkew c \<le> 0 then [FieldInvalid (p @ ''.maxSkew'') (tsc_MaxSkew c) ''must be greater than zero''] else []) @
     validateTopologyKey (p @ ''.topologyKey'') (tsc_TopologyKey c) @
     validateWhenUnsatisfiable (p @ ''.whenUnsatisfiable'') (tsc_WhenUnsatisfiable c) @
     (if tsc_LabelSelector c \<noteq> None
      then [FieldForbidden (p @ ''.labelSelector'') ''constraint must not define a selector, as they deduced for each pod'']
      else []) @
     validateConstraintNotRepeat path constraints i)"

definition ValidatePodTopologySpreadArgs :: "(field_error list \<Rightarrow> error) \<Rightarrow> TopologySpreadConstraint list \<Rightarrow> error option" where
  "ValidatePodTopologySpreadArgs aggregate constraints =
    (let allErrs = concat (map (validate_constraint constraints) [0..<length constraints]) in
     if length allErrs = 0 then None else Some (aggregate allErrs))"

definition spread_getArgs :: "PluginArgs \<Rightarrow> error + TopologySpreadConstraint list" where
  "spread_getArgs obj =
    (case obj of PodTopologySpreadArgs args \<Rightarrow> Inr args | _ \<Rightarrow> Inl (want_args ''PodTopologySpreadArgs'' obj))"

text \<open>The two flags say whether the framework handle has a snapshot lister and an informer factory.\<close>

definition NewPodTopologySpread :: "(field_error list \<Rightarrow> error) \<Rightarrow> bool \<Rightarrow> bool \<Rightarrow> PluginArgs \<Rightarrow>
    error + TopologySpreadConstraint list" where
  "NewPodTopologySpread aggregate has_lister has_informers plArgs =
    (if \<not> has_lister then Inl ''SnapshotSharedlister is nil''
     else case spread_getArgs plArgs of
       Inl err \<Rightarrow> Inl err
     | Inr args \<Rightarrow>
         (case ValidatePodTopologySpreadArgs aggregate args of
            Some err \<Rightarrow> Inl err
          | None \<Rightarrow>
              if length args \<noteq> 0 \<and> \<not> has_informers then Inl ''SharedInformerFactory is nil'' else Inr args))"

end
