(* ===== verification/Inter_Pod_Affinity.thy ===== *)
theory Inter_Pod_Affinity
  imports Topology_Spread
begin

text \<open>
  The plugin \<open>InterPodAffinity\<close> (\<^verbatim>\<open>scheduler/framework/plugins/interpodaffinity\<close>): the filter with its
  counters, the scores and their normalisation.

  The state of a pod (\<open>affinityPreFilterState\<close>, \<open>affinityPreScoreState\<close>) is declared in \<open>Plugin_State\<close>.
  In the parallel loops each piece fills a map of its own and takes the next free place of a slice with
  an atomic counter; \<open>order\<close> is the order in which the pieces do so. A dereference of a nil node is \<open>None\<close>.
\<close>

subsection \<open>filtering.go\<close>

definition InterPodAffinityName :: string where "InterPodAffinityName = ''InterPodAffinity''"

definition affinity_preFilterStateKey :: string where "affinity_preFilterStateKey = ''PreFilter'' @ InterPodAffinityName"

definition ErrReasonExistingAntiAffinityRulesNotMatch :: string where
  "ErrReasonExistingAntiAffinityRulesNotMatch = ''node(s) didn'' @ [go_quote] @ ''t satisfy existing pods anti-affinity rules''"
definition ErrReasonAffinityNotMatch :: string where
  "ErrReasonAffinityNotMatch = ''node(s) didn'' @ [go_quote] @ ''t match pod affinity/anti-affinity''"
definition ErrReasonAffinityRulesNotMatch :: string where
  "ErrReasonAffinityRulesNotMatch = ''node(s) didn'' @ [go_quote] @ ''t match pod affinity rules''"
definition ErrReasonAntiAffinityRulesNotMatch :: string where
  "ErrReasonAntiAffinityRulesNotMatch = ''node(s) didn'' @ [go_quote] @ ''t match pod anti-affinity rules''"

text \<open>Adding to the counter of a pair; a counter that is down to zero is deleted.\<close>

definition bump :: "topologyPair \<Rightarrow> int \<Rightarrow> topologyToMatchedTermCount \<Rightarrow> topologyToMatchedTermCount" where
  "bump pair v m =
    (let m' = gm_put m pair (i64 (gm_get0 m pair + v)) in if gm_get0 m' pair = 0 then gm_del m' pair else m')"

definition bump_term :: "Node \<Rightarrow> int \<Rightarrow> AffinityTerm \<Rightarrow> topologyToMatchedTermCount \<Rightarrow> topologyToMatchedTermCount" where
  "bump_term node v t m =
    (case gm_get (labels_of node) (at_TopologyKey t) of
       None \<Rightarrow> m
     | Some topologyValue \<Rightarrow> bump (at_TopologyKey t, topologyValue) v m)"

definition matches_term :: "Pod \<Rightarrow> AffinityTerm \<Rightarrow> bool" where
  "matches_term pod t = PodMatchesTermsNamespaceAndSelector pod (at_Namespaces t) (at_Selector t)"

definition podMatchesAllAffinityTerms :: "Pod \<Rightarrow> AffinityTerm list \<Rightarrow> bool" where
  "podMatchesAllAffinityTerms pod terms = (if length terms = 0 then False else list_all (matches_term pod) terms)"

definition updateWithAffinityTerms :: "Pod \<Rightarrow> Node \<Rightarrow> AffinityTerm list \<Rightarrow> int \<Rightarrow>
    topologyToMatchedTermCount \<Rightarrow> topologyToMatchedTermCount" where
  "updateWithAffinityTerms targetPod targetPodNode affinityTerms v m =
    (if podMatchesAllAffinityTerms targetPod affinityTerms then fold (bump_term targetPodNode v) affinityTerms m else m)"

definition updateWithAntiAffinityTerms :: "Pod \<Rightarrow> Node \<Rightarrow> AffinityTerm list \<Rightarrow> int \<Rightarrow>
    topologyToMatchedTermCount \<Rightarrow> topologyToMatchedTermCount" where
  "updateWithAntiAffinityTerms targetPod targetPodNode antiAffinityTerms v m =
    fold (\<lambda>a m. if matches_term targetPod a then bump_term targetPodNode v a m else m) antiAffinityTerms m"

definition affinity_updateWithPod :: "as_selector \<Rightarrow> affinityPreFilterState \<Rightarrow> Pod \<Rightarrow> Node option \<Rightarrow> int \<Rightarrow>
    affinityPreFilterState option" where
  "affinity_updateWithPod asSel s updatedPod node multiplier =
    (let updatedPodInfo = NewPodInfo asSel updatedPod; podInfo = ap_podInfo s in
     case node of
       None \<Rightarrow>
         if list_ex (matches_term (pi_Pod podInfo)) (pi_RequiredAntiAffinityTerms updatedPodInfo) \<or>
            podMatchesAllAffinityTerms updatedPod (pi_RequiredAffinityTerms podInfo) \<or>
            list_ex (matches_term updatedPod) (pi_RequiredAntiAffinityTerms podInfo)
         then None else Some s
     | Some node \<Rightarrow> Some (s
         \<lparr>topologyToMatchedExistingAntiAffinityTerms :=
            updateWithAntiAffinityTerms (pi_Pod podInfo) node (pi_RequiredAntiAffinityTerms updatedPodInfo) multiplier
              (topologyToMatchedExistingAntiAffinityTerms s),
          topologyToMatchedAffinityTerms :=
            updateWithAffinityTerms updatedPod node (pi_RequiredAffinityTerms podInfo) multiplier
              (topologyToMatchedAffinityTerms s),
          topologyToMatchedAntiAffinityTerms :=
            updateWithAntiAffinityTerms updatedPod node (pi_RequiredAntiAffinityTerms podInfo) multiplier
              (topologyToMatchedAntiAffinityTerms s)\<rparr>))"

definition existing_piece :: "Pod \<Rightarrow> NodeInfo \<Rightarrow> topologyToMatchedTermCount" where
  "existing_piece pod nodeInfo =
    (case ni_node nodeInfo of
       None \<Rightarrow> []
     | Some node \<Rightarrow>
         fold (\<lambda>existingPod. updateWithAntiAffinityTerms pod node (pi_RequiredAntiAffinityTerms existingPod) 1)
           (ni_PodsWithAffinity nodeInfo) [])"

definition getTPMapMatchingExistingAntiAffinity :: "nat list \<Rightarrow> Pod \<Rightarrow> NodeInfo list \<Rightarrow> topologyToMatchedTermCount" where
  "getTPMapMatchingExistingAntiAffinity order pod allNodes =
    (let topoMaps = filter (\<lambda>m. length m \<noteq> 0) (map (\<lambda>i. existing_piece pod (allNodes ! i)) order)
     in fold (\<lambda>m result. termcount_append result m) topoMaps [])"

definition incoming_piece :: "PodInfo \<Rightarrow> NodeInfo \<Rightarrow> topologyToMatchedTermCount \<times> topologyToMatchedTermCount" where
  "incoming_piece podInfo nodeInfo =
    (case ni_node nodeInfo of
       None \<Rightarrow> ([], [])
     | Some node \<Rightarrow>
         fold (\<lambda>existingPod (aff, antiAffinity).
             (updateWithAffinityTerms (pi_Pod existingPod) node (pi_RequiredAffinityTerms podInfo) 1 aff,
              updateWithAntiAffinityTerms (pi_Pod existingPod) node (pi_RequiredAntiAffinityTerms podInfo) 1 antiAffinity))
           (ni_Pods nodeInfo) ([], []))"

definition getTPMapMatchingIncomingAffinityAntiAffinity :: "nat list \<Rightarrow> PodInfo \<Rightarrow> NodeInfo list \<Rightarrow>
    topologyToMatchedTermCount \<times> topologyToMatchedTermCount" where
  "getTPMapMatchingIncomingAffinityAntiAffinity order podInfo allNodes =
    (if length (pi_RequiredAffinityTerms podInfo) = 0 \<and> length (pi_RequiredAntiAffinityTerms podInfo) = 0 then ([], [])
     else
       let l = filter (\<lambda>(aff, antiAffinity). length aff > 0 \<or> length antiAffinity > 0)
             (map (\<lambda>i. incoming_piece podInfo (allNodes ! i)) order)
       in fold (\<lambda>(aff, antiAffinity) (affinityCounts, antiAffinityCounts).
              (termcount_append affinityCounts aff, termcount_append antiAffinityCounts antiAffinity)) l ([], []))"

text \<open>The orders are those of the loop over the nodes with pods with affinity, and of the loop over all nodes.\<close>

definition Affinity_PreFilter :: "as_selector \<Rightarrow> nat list \<Rightarrow> nat list \<Rightarrow> Snapshot \<Rightarrow> plugin_state \<Rightarrow> Pod \<Rightarrow>
    Status option \<times> plugin_state" where
  "Affinity_PreFilter asSel order1 order2 snapshot cycleState pod =
    (let allNodes = Snapshot_List snapshot; havePodsWithAffinityNodes = HavePodsWithAffinityList snapshot;
         podInfo = NewPodInfo asSel pod in
     case pi_ParseError podInfo of
       Some err \<Rightarrow> (Some (NewStatus UnschedulableAndUnresolvable [''parsing pod: '' @ err]), cycleState)
     | None \<Rightarrow>
         let existingPodAntiAffinityMap = getTPMapMatchingExistingAntiAffinity order1 pod havePodsWithAffinityNodes in
         (case getTPMapMatchingIncomingAffinityAntiAffinity order2 podInfo allNodes of
            (incomingPodAffinityMap, incomingPodAntiAffinityMap) \<Rightarrow>
              (None, CycleState_Write cycleState affinity_preFilterStateKey (AffinityData
                 \<lparr>topologyToMatchedExistingAntiAffinityTerms = existingPodAntiAffinityMap,
                  topologyToMatchedAffinityTerms = incomingPodAffinityMap,
                  topologyToMatchedAntiAffinityTerms = incomingPodAntiAffinityMap,
                  ap_podInfo = podInfo\<rparr>))))"

definition affinity_getPreFilterState :: "(StateData \<Rightarrow> string) \<Rightarrow> plugin_state \<Rightarrow> error + affinityPreFilterState" where
  "affinity_getPreFilterState show cycleState =
    read_state ''error reading '' ''  convert to interpodaffinity.state error'' show as_AffinityData
      affinity_preFilterStateKey cycleState"

definition Affinity_update :: "as_selector \<Rightarrow> (StateData \<Rightarrow> string) \<Rightarrow> int \<Rightarrow> plugin_state \<Rightarrow> Pod \<Rightarrow> NodeInfo \<Rightarrow>
    (Status option \<times> plugin_state) option" where
  "Affinity_update asSel show multiplier cycleState updatedPod nodeInfo =
    (case affinity_getPreFilterState show cycleState of
       Inl err \<Rightarrow> Some (Some (NewStatus Error [err]), cycleState)
     | Inr state \<Rightarrow>
         map_option (\<lambda>s. (None, CycleState_Write cycleState affinity_preFilterStateKey (AffinityData s)))
           (affinity_updateWithPod asSel state updatedPod (ni_node nodeInfo) multiplier))"

definition Affinity_AddPod :: "as_selector \<Rightarrow> (StateData \<Rightarrow> string) \<Rightarrow> plugin_state \<Rightarrow> Pod \<Rightarrow> NodeInfo \<Rightarrow>
    (Status option \<times> plugin_state) option" where
  "Affinity_AddPod asSel show cycleState podToAdd nodeInfo = Affinity_update asSel show 1 cycleState podToAdd nodeInfo"

definition Affinity_RemovePod :: "as_selector \<Rightarrow> (StateData \<Rightarrow> string) \<Rightarrow> plugin_state \<Rightarrow> Pod \<Rightarrow> NodeInfo \<Rightarrow>
    (Status option \<times> plugin_state) option" where
  "Affinity_RemovePod asSel show cycleState podToRemove nodeInfo =
    Affinity_update asSel show (- 1) cycleState podToRemove nodeInfo"

definition satisfyExistingPodsAntiAffinity :: "affinityPreFilterState \<Rightarrow> Node \<Rightarrow> bool" where
  "satisfyExistingPodsAntiAffinity state node =
    (if length (topologyToMatchedExistingAntiAffinityTerms state) > 0
     then list_all (\<lambda>tp. \<not> gm_get0 (topologyToMatchedExistingAntiAffinityTerms state) tp > 0) (labels_of node)
     else True)"

definition satisfyPodAntiAffinity :: "affinityPreFilterState \<Rightarrow> Node \<Rightarrow> bool" where
  "satisfyPodAntiAffinity state node =
    list_all (\<lambda>term. case gm_get (labels_of node) (at_TopologyKey term) of
        None \<Rightarrow> True
      | Some topologyValue \<Rightarrow>
          \<not> gm_get0 (topologyToMatchedAntiAffinityTerms state) (at_TopologyKey term, topologyValue) > 0)
      (pi_RequiredAntiAffinityTerms (ap_podInfo state))"

text \<open>The loop over the affinity terms: \<open>None\<close> when a topology label is missing, or else \<open>podsExist\<close>.\<close>

fun pods_exist :: "affinityPreFilterState \<Rightarrow> Node \<Rightarrow> AffinityTerm list \<Rightarrow> bool \<Rightarrow> bool option" where
  "pods_exist state node [] podsExist = Some podsExist"
| "pods_exist state node (term # terms) podsExist =
    (case gm_get (labels_of node) (at_TopologyKey term) of
       None \<Rightarrow> None
     | Some topologyValue \<Rightarrow>
         pods_exist state node terms
           (if gm_get0 (topologyToMatchedAffinityTerms state) (at_TopologyKey term, topologyValue) \<le> 0 then False
            else podsExist))"

definition satisfyPodAffinity :: "affinityPreFilterState \<Rightarrow> Node \<Rightarrow> bool" where
  "satisfyPodAffinity state node =
    (let podInfo = ap_podInfo state in
     case pods_exist state node (pi_RequiredAffinityTerms podInfo) True of
       None \<Rightarrow> False
     | Some podsExist \<Rightarrow>
         if \<not> podsExist then
           (if length (topologyToMatchedAffinityTerms state) = 0 \<and>
               podMatchesAllAffinityTerms (pi_Pod podInfo) (pi_RequiredAffinityTerms podInfo) then True else False)
         else True)"

definition Affinity_Filter :: "(StateData \<Rightarrow> string) \<Rightarrow> plugin_state \<Rightarrow> Pod \<Rightarrow> NodeInfo \<Rightarrow> Status option" where
  "Affinity_Filter show cycleState pod nodeInfo =
    (case ni_node nodeInfo of
       None \<Rightarrow> Some (NewStatus Error [''node not found''])
     | Some node \<Rightarrow>
         (case affinity_getPreFilterState show cycleState of
            Inl err \<Rightarrow> Some (NewStatus Error [err])
          | Inr state \<Rightarrow>
              if \<not> satisfyPodAffinity state node
              then Some (NewStatus UnschedulableAndUnresolvable [ErrReasonAffinityNotMatch, ErrReasonAffinityRulesNotMatch])
              else if \<not> satisfyPodAntiAffinity state node
              then Some (NewStatus Unschedulable [ErrReasonAffinityNotMatch, ErrReasonAntiAffinityRulesNotMatch])
              else if \<not> satisfyExistingPodsAntiAffinity state node
              then Some (NewStatus Unschedulable [ErrReasonAffinityNotMatch, ErrReasonExistingAntiAffinityRulesNotMatch])
              else None))"

subsection \<open>scoring.go\<close>

definition affinity_preScoreStateKey :: string where "affinity_preScoreStateKey = ''PreScore'' @ InterPodAffinityName"

definition processTerm :: "WeightedAffinityTerm \<Rightarrow> Pod \<Rightarrow> Node \<Rightarrow> int \<Rightarrow> scoreMap \<Rightarrow> scoreMap" where
  "processTerm term podToCheck fixedNode multiplier m =
    (if length (labels_of fixedNode) = 0 then m
     else
       let key = at_TopologyKey (wat_AffinityTerm term); match = matches_term podToCheck (wat_AffinityTerm term) in
       case gm_get (labels_of fixedNode) key of
         None \<Rightarrow> m
       | Some tpValue \<Rightarrow>
           if match then
             let inner = (case gm_get m key of None \<Rightarrow> [] | Some i \<Rightarrow> i) in
             gm_put m key (gm_put inner tpValue (i64 (gm_get0 inner tpValue + i32 (wat_Weight term * multiplier))))
           else m)"

definition processTerms :: "WeightedAffinityTerm list \<Rightarrow> Pod \<Rightarrow> Node \<Rightarrow> int \<Rightarrow> scoreMap \<Rightarrow> scoreMap" where
  "processTerms terms podToCheck fixedNode multiplier m =
    fold (\<lambda>term. processTerm term podToCheck fixedNode multiplier) terms m"

definition scoreMap_append :: "scoreMap \<Rightarrow> scoreMap \<Rightarrow> scoreMap" where
  "scoreMap_append m other =
    fold (\<lambda>(topology, oScores) m.
        case gm_get m topology of
          None \<Rightarrow> gm_put m topology oScores
        | Some scores \<Rightarrow>
            gm_put m topology (fold (\<lambda>(k, v) scores. gm_put scores k (i64 (gm_get0 scores k + v))) oScores scores))
      other m"

definition processExistingPod :: "int \<Rightarrow> PodInfo \<Rightarrow> PodInfo \<Rightarrow> Node \<Rightarrow> Pod \<Rightarrow> scoreMap \<Rightarrow> scoreMap" where
  "processExistingPod hardPodAffinityWeight podInfo existingPod existingPodNode incomingPod topoScore =
    (let topoScore = processTerms (pi_PreferredAffinityTerms podInfo) (pi_Pod existingPod) existingPodNode 1 topoScore;
         topoScore = processTerms (pi_PreferredAntiAffinityTerms podInfo) (pi_Pod existingPod) existingPodNode (- 1) topoScore;
         topoScore = (if hardPodAffinityWeight > 0 then
             fold (\<lambda>term. processTerm \<lparr>wat_AffinityTerm = term, wat_Weight = hardPodAffinityWeight\<rparr>
                 incomingPod existingPodNode 1)
               (pi_RequiredAffinityTerms existingPod) topoScore
           else topoScore);
         topoScore = processTerms (pi_PreferredAffinityTerms existingPod) incomingPod existingPodNode 1 topoScore
     in processTerms (pi_PreferredAntiAffinityTerms existingPod) incomingPod existingPodNode (- 1) topoScore)"

definition score_piece_affinity :: "int \<Rightarrow> PodInfo \<Rightarrow> Pod \<Rightarrow> bool \<Rightarrow> NodeInfo \<Rightarrow> scoreMap" where
  "score_piece_affinity hardPodAffinityWeight podInfo pod hasConstraints nodeInfo =
    (case ni_node nodeInfo of
       None \<Rightarrow> []
     | Some node \<Rightarrow>
         let podsToProcess = (if hasConstraints then ni_Pods nodeInfo else ni_PodsWithAffinity nodeInfo) in
         fold (\<lambda>existingPod. processExistingPod hardPodAffinityWeight podInfo existingPod node pod) podsToProcess [])"

definition Affinity_PreScore :: "as_selector \<Rightarrow> int \<Rightarrow> nat list \<Rightarrow> Snapshot \<Rightarrow> plugin_state \<Rightarrow> Pod \<Rightarrow> Node list \<Rightarrow>
    Status option \<times> plugin_state" where
  "Affinity_PreScore asSel hardPodAffinityWeight order snapshot cycleState pod nodes =
    (if length nodes = 0 then (None, cycleState)
     else
       let hasAffinityConstraints = (case pod_Affinity pod of None \<Rightarrow> False | Some a \<Rightarrow> aff_PodAffinity a \<noteq> None);
           hasAntiAffinityConstraints = (case pod_Affinity pod of None \<Rightarrow> False | Some a \<Rightarrow> aff_PodAntiAffinity a \<noteq> None);
           hasConstraints = (hasAffinityConstraints \<or> hasAntiAffinityConstraints);
           allNodes = (if hasConstraints then Snapshot_List snapshot else HavePodsWithAffinityList snapshot);
           podInfo = NewPodInfo asSel pod
       in case pi_ParseError podInfo of
            Some err \<Rightarrow> (Some (NewStatus Error [''parsing pod: '' @ err]), cycleState)
          | None \<Rightarrow>
              let topoScores = filter (\<lambda>m. length m > 0)
                    (map (\<lambda>i. score_piece_affinity hardPodAffinityWeight podInfo pod hasConstraints (allNodes ! i)) order);
                  topologyScore = fold (\<lambda>m acc. scoreMap_append acc m) topoScores []
              in (None, CycleState_Write cycleState affinity_preScoreStateKey
                   (AffinityScoreData \<lparr>topologyScore = topologyScore, as_podInfo = podInfo\<rparr>)))"

definition affinity_getPreScoreState :: "(StateData \<Rightarrow> string) \<Rightarrow> plugin_state \<Rightarrow> error + affinityPreScoreState" where
  "affinity_getPreScoreState show cycleState =
    read_state ''Error reading '' ''  convert to interpodaffinity.preScoreState error'' show as_AffinityScoreData
      affinity_preScoreStateKey cycleState"

definition Affinity_Score :: "(StateData \<Rightarrow> string) \<Rightarrow> Snapshot \<Rightarrow> plugin_state \<Rightarrow> Pod \<Rightarrow> string \<Rightarrow> int \<times> Status option" where
  "Affinity_Score show snapshot cycleState pod nodeName =
    (case Snapshot_Get snapshot nodeName of
       Inl err \<Rightarrow> (0, Some (getting_node nodeName (err @ '', node is nil: true'')))
     | Inr nodeInfo \<Rightarrow>
         (case ni_node nodeInfo of
            None \<Rightarrow> (0, Some (getting_node nodeName ''<nil>, node is nil: true''))
          | Some node \<Rightarrow>
              (case affinity_getPreScoreState show cycleState of
                 Inl err \<Rightarrow> (0, Some (NewStatus Error [err]))
               | Inr s \<Rightarrow>
                   (fold (\<lambda>(tpKey, tpValues) score.
                       case gm_get (labels_of node) tpKey of
                         None \<Rightarrow> score
                       | Some v \<Rightarrow> i64 (score + gm_get0 tpValues v))
                     (topologyScore s) 0, None))))"

definition Affinity_NormalizeScore :: "(StateData \<Rightarrow> string) \<Rightarrow> plugin_state \<Rightarrow> NodeScoreList \<Rightarrow>
    NodeScoreList \<times> Status option" where
  "Affinity_NormalizeScore show cycleState scores =
    (case affinity_getPreScoreState show cycleState of
       Inl err \<Rightarrow> (scores, Some (NewStatus Error [err]))
     | Inr s \<Rightarrow>
         if length (topologyScore s) = 0 then (scores, None)
         else
           let maxCount = fold (\<lambda>ns m. if ns_Score ns > m then ns_Score ns else m) scores 0;
               minCount = fold (\<lambda>ns m. if ns_Score ns < m then ns_Score ns else m) scores 0;
               maxMinDiff = i64 (maxCount - minCount)
           in (map (\<lambda>ns. ns\<lparr>ns_Score :=
                 let fScore = (if maxMinDiff > 0
                     then fmul (float64 MaxNodeScore) (fdiv (float64 (i64 (ns_Score ns - minCount))) (float64 maxMinDiff))
                     else 0)
                 in int64_of fScore\<rparr>) scores, None))"

subsection \<open>plugin.go and the validation of its arguments\<close>

definition ValidateHardPodAffinityWeight :: "(field_error list \<Rightarrow> error) \<Rightarrow> string \<Rightarrow> int \<Rightarrow> error option" where
  "ValidateHardPodAffinityWeight aggregate path w =
    (if w < 0 \<or> w > 100 then Some (aggregate [FieldInvalid path w ''not in valid range [0-100]'']) else None)"

definition ValidateInterPodAffinityArgs :: "(field_error list \<Rightarrow> error) \<Rightarrow> int \<Rightarrow> error option" where
  "ValidateInterPodAffinityArgs aggregate hardPodAffinityWeight =
    ValidateHardPodAffinityWeight aggregate ''hardPodAffinityWeight'' hardPodAffinityWeight"

definition affinity_getArgs :: "PluginArgs \<Rightarrow> error + int" where
  "affinity_getArgs obj =
    (case obj of InterPodAffinityArgs w \<Rightarrow> Inr w | _ \<Rightarrow> Inl (want_args ''InterPodAffinityArgs'' obj))"

definition NewInterPodAffinity :: "(field_error list \<Rightarrow> error) \<Rightarrow> bool \<Rightarrow> PluginArgs \<Rightarrow> error + int" where
  "NewInterPodAffinity aggregate has_lister plArgs =
    (if \<not> has_lister then Inl ''SnapshotSharedlister is nil''
     else case affinity_getArgs plArgs of
       Inl err \<Rightarrow> Inl err
     | Inr args \<Rightarrow>
         (case ValidateInterPodAffinityArgs aggregate args of Some err \<Rightarrow> Inl err | None \<Rightarrow> Inr args))"

end
