(* ===== verification/Spread_Props.thy ===== *)
theory Spread_Props
  imports Topology_Spread
begin

text \<open>
  What the plugin \<open>PodTopologySpread\<close> computes: its filter keeps the skew of every constraint within the
  bound, over the domains of the nodes that count, in whatever order the nodes were counted and the map
  visited, and its two critical paths always know the minimum as long as pods of one node only are added
  and removed.
\<close>

subsection \<open>The critical paths\<close>

text \<open>
  The paths are read against a function that gives the number of matching pods of each topology value,
  \<open>MaxInt32\<close> for a value that is not there. \<open>two_least\<close> holds while the paths are built;
  \<open>least_but w\<close> holds while only the number of the value \<open>w\<close> changes.
\<close>

definition two_least :: "(string \<Rightarrow> int) \<Rightarrow> criticalPaths \<Rightarrow> bool" where
  "two_least f p \<longleftrightarrow> (case p of ((v0, n0), (v1, n1)) \<Rightarrow>
     n0 = f v0 \<and> n0 \<le> n1 \<and> n1 \<le> MaxInt32 \<and> (if v1 = v0 then n1 = MaxInt32 else n1 = f v1) \<and>
     (\<forall>v. v \<noteq> v0 \<and> v \<noteq> v1 \<longrightarrow> n1 \<le> f v))"

definition least_but :: "string \<Rightarrow> (string \<Rightarrow> int) \<Rightarrow> criticalPaths \<Rightarrow> bool" where
  "least_but w f p \<longleftrightarrow> (case p of ((v0, n0), (v1, n1)) \<Rightarrow>
     n0 \<le> n1 \<and> n1 \<le> MaxInt32 \<and>
     (if w = v0 then n0 = f w \<and> (\<forall>v. v \<noteq> w \<longrightarrow> n1 \<le> f v) \<and> (if v1 = w then n1 = MaxInt32 else n1 = f v1)
      else if w = v1 then n1 = f w \<and> (\<forall>v. v \<noteq> w \<longrightarrow> n0 \<le> f v) \<and> n0 = f v0
      else n0 = f v0 \<and> (\<forall>v. v \<noteq> v0 \<longrightarrow> n1 \<le> f v)))"

lemma two_least_new: "two_least (\<lambda>_. MaxInt32) newCriticalPaths"
  by (simp add: two_least_def newCriticalPaths_def)

lemma two_least_update:
  assumes t: "two_least f p" and num: "num \<le> f v" and f: "\<forall>v. f v \<le> MaxInt32"
  shows "two_least (f(v := num)) (criticalPaths_update p v num)"
proof -
  obtain v0 n0 v1 n1 where p [simp]: "p = ((v0, n0), (v1, n1))" by (metis surj_pair)
  have h: "n0 = f v0" "n0 \<le> n1" "n1 \<le> MaxInt32" "if v1 = v0 then n1 = MaxInt32 else n1 = f v1"
      "\<And>x. x \<noteq> v0 \<Longrightarrow> x \<noteq> v1 \<Longrightarrow> n1 \<le> f x"
    using t by (simp_all add: two_least_def)
  have num': "num \<le> MaxInt32" using num f [rule_format, of v] by simp
  consider "v = v0" | "v \<noteq> v0" "v = v1" | "v \<noteq> v0" "v \<noteq> v1" "num < n0"
    | "v \<noteq> v0" "v \<noteq> v1" "\<not> num < n0" "num < n1" | "v \<noteq> v0" "v \<noteq> v1" "\<not> num < n1" using h(2) by linarith
  then show ?thesis
  proof cases
    case 1
    then show ?thesis using h num num' by (auto simp: two_least_def criticalPaths_update_def split: if_splits)
  next
    case 2
    have "n0 \<le> f x" if "x \<noteq> v0" "x \<noteq> v1" for x using h(5) [OF that] h(2) by simp
    moreover have "num \<le> f x" if "x \<noteq> v0" "x \<noteq> v1" for x using h(5) [OF that] 2 h(4) num by simp
    ultimately show ?thesis using 2 h num'
      by (auto simp: two_least_def criticalPaths_update_def split: if_splits)
  next
    case 3
    have "n0 \<le> f x" if "x \<noteq> v0" for x using h(5) [of x] h(2,4) that by (cases "x = v1") auto
    with 3 h(1,2,3) show ?thesis by (auto simp: two_least_def criticalPaths_update_def)
  next
    case 4
    have "num \<le> f x" if "x \<noteq> v0" for x using h(5) [of x] h(2,4) that 4 by (cases "x = v1") auto
    with 4 h(1) num' show ?thesis by (auto simp: two_least_def criticalPaths_update_def)
  next
    case 5
    then show ?thesis using h by (auto simp: two_least_def criticalPaths_update_def)
  qed
qed

lemma two_least_min:
  assumes "two_least f p"
  shows "(\<forall>v. snd (fst p) \<le> f v) \<and> (\<exists>v. snd (fst p) = f v)"
proof -
  obtain v0 n0 v1 n1 where p [simp]: "p = ((v0, n0), (v1, n1))" by (metis surj_pair)
  have h: "n0 = f v0" "n0 \<le> n1" "if v1 = v0 then n1 = MaxInt32 else n1 = f v1"
      "\<And>x. x \<noteq> v0 \<Longrightarrow> x \<noteq> v1 \<Longrightarrow> n1 \<le> f x"
    using assms by (simp_all add: two_least_def)
  have "n1 \<le> f x" if "x \<noteq> v0" for x using h(3) h(4) [of x] that by (cases "x = v1") auto
  then have "n0 \<le> f x" for x using h(1,2) by (cases "x = v0") (auto intro: order_trans)
  then show ?thesis using h(1) by auto
qed

lemma two_least_least_but:
  assumes "two_least f p" "\<forall>v. f v \<le> MaxInt32"
  shows "least_but w f p"
proof -
  obtain v0 n0 v1 n1 where p [simp]: "p = ((v0, n0), (v1, n1))" by (metis surj_pair)
  have h: "n0 = f v0" "n0 \<le> n1" "n1 \<le> MaxInt32" "if v1 = v0 then n1 = MaxInt32 else n1 = f v1"
      "\<And>x. x \<noteq> v0 \<Longrightarrow> x \<noteq> v1 \<Longrightarrow> n1 \<le> f x"
    using assms(1) by (simp_all add: two_least_def)
  have "n1 \<le> f x" if "x \<noteq> v0" for x using h(4) h(5) [of x] that by (cases "x = v1") auto
  moreover have "n0 \<le> f x" for x using h(1,2) calculation [of x] by (cases "x = v0") auto
  ultimately show ?thesis using h by (auto simp: least_but_def)
qed

lemma least_but_update:
  assumes t: "least_but w f p" and num: "num \<le> MaxInt32"
  shows "least_but w (f(w := num)) (criticalPaths_update p w num)"
proof -
  obtain v0 n0 v1 n1 where p [simp]: "p = ((v0, n0), (v1, n1))" by (metis surj_pair)
  have h: "n0 \<le> n1" "n1 \<le> MaxInt32" using t by (simp_all add: least_but_def)
  consider "w = v0" | "w \<noteq> v0" "w = v1" | "w \<noteq> v0" "w \<noteq> v1" by blast
  then show ?thesis
  proof cases
    case 1
    then have "n0 = f w" "\<And>x. x \<noteq> w \<Longrightarrow> n1 \<le> f x" "if v1 = w then n1 = MaxInt32 else n1 = f v1"
      using t by (auto simp: least_but_def)
    then show ?thesis using 1 num h by (auto simp: least_but_def criticalPaths_update_def)
  next
    case 2
    then have "n1 = f w" "\<And>x. x \<noteq> w \<Longrightarrow> n0 \<le> f x" "n0 = f v0"
      using t by (auto simp: least_but_def)
    then show ?thesis using 2 num h by (auto simp: least_but_def criticalPaths_update_def)
  next
    case 3
    then have n: "n0 = f v0" "\<And>x. x \<noteq> v0 \<Longrightarrow> n1 \<le> f x" using t by (auto simp: least_but_def)
    have "n0 \<le> f x" for x using n h by (cases "x = v0") (auto intro: order_trans)
    with 3 n num h show ?thesis by (auto simp: least_but_def criticalPaths_update_def)
  qed
qed

lemma least_but_min:
  assumes "least_but w f p"
  shows "(\<forall>v. snd (fst p) \<le> f v) \<and> (\<exists>v. snd (fst p) = f v)"
proof -
  obtain v0 n0 v1 n1 where p [simp]: "p = ((v0, n0), (v1, n1))" by (metis surj_pair)
  have h: "n0 \<le> n1" "n0 = f v0" using assms by (auto simp: least_but_def split: if_splits)
  have "n0 \<le> f v" for v
  proof (cases "v = w")
    case True
    then show ?thesis using assms h by (cases "w = v0"; cases "w = v1") (auto simp: least_but_def intro: order_trans)
  next
    case False
    then show ?thesis using assms h by (cases "w = v0"; cases "w = v1"; cases "v = v0") (auto simp: least_but_def intro: order_trans)
  qed
  with h show ?thesis by auto
qed

subsection \<open>The counters\<close>

definition counts_for :: "topologySpreadConstraint \<Rightarrow> string \<Rightarrow> Pod \<Rightarrow> bool" where
  "counts_for c ns pod \<longleftrightarrow> pod_DeletionTimestamp pod = None \<and> pod_Namespace pod = ns \<and> Selector c (pod_Labels pod)"

text \<open>The pods of a node that a constraint counts, and those of all nodes with a topology value.\<close>

definition node_count :: "string \<Rightarrow> topologySpreadConstraint \<Rightarrow> NodeInfo \<Rightarrow> int" where
  "node_count ns c n = int (length (filter (\<lambda>p. counts_for c ns (pi_Pod p)) (ni_Pods n)))"

definition domain_count :: "string \<Rightarrow> NodeInfo list \<Rightarrow> topologySpreadConstraint \<Rightarrow> string \<Rightarrow> int" where
  "domain_count ns nodes c v =
    (\<Sum>n\<leftarrow>nodes. case ni_node n of None \<Rightarrow> 0
      | Some node \<Rightarrow> if label_at node (TopologyKey c) = v then node_count ns c n else 0)"

definition all_pods :: "NodeInfo list \<Rightarrow> int" where
  "all_pods nodes = (\<Sum>n\<leftarrow>nodes. int (length (ni_Pods n)))"

lemma countPodsMatchSelector_eq:
  assumes "int (length ps) < 2 ^ 63"
  shows "countPodsMatchSelector ps (Selector c) ns = int (length (filter (\<lambda>p. counts_for c ns (pi_Pod p)) ps))"
proof -
  let ?f = "\<lambda>p count. if pod_DeletionTimestamp (pi_Pod p) \<noteq> None \<or> pod_Namespace (pi_Pod p) \<noteq> ns then count
        else if Selector c (pod_Labels (pi_Pod p)) then i64 (count + 1) else count"
  have "fold ?f ps k = k + int (length (filter (\<lambda>p. counts_for c ns (pi_Pod p)) ps))"
    if "0 \<le> k" "k + int (length ps) < 2 ^ 63" for k
    using that
  proof (induction ps arbitrary: k)
    case (Cons p ps)
    have "i64 (k + 1) = k + 1" using Cons.prems by (intro i64_id) (simp add: in64_def)
    then show ?case using Cons.IH [of k] Cons.IH [of "k + 1"] Cons.prems by (auto simp: counts_for_def)
  qed simp
  from this [of 0] assms show ?thesis by (simp add: countPodsMatchSelector_def)
qed

lemma node_count_bounds: "0 \<le> node_count ns c n \<and> node_count ns c n \<le> int (length (ni_Pods n))"
  by (simp add: node_count_def)

lemma all_pods_Cons: "all_pods (n # nodes) = int (length (ni_Pods n)) + all_pods nodes"
  by (simp add: all_pods_def)

lemma all_pods_nonneg: "0 \<le> all_pods nodes"
  unfolding all_pods_def by (rule sum_list_nonneg) auto

lemma domain_count_bounds: "0 \<le> domain_count ns nodes c v \<and> domain_count ns nodes c v \<le> all_pods nodes"
proof (induction nodes)
  case (Cons n nodes)
  then show ?case using node_count_bounds [of ns c n] all_pods_nonneg [of nodes]
    by (auto simp: domain_count_def all_pods_Cons split: option.splits)
qed (simp add: domain_count_def all_pods_def)

lemma domain_count_perm: "mset xs = mset ys \<Longrightarrow> domain_count ns xs c v = domain_count ns ys c v"
  by (simp only: domain_count_def sum_mset_sum_list [symmetric] mset_map)

lemma count_constraint_other:
  "k \<noteq> TopologyKey c \<Longrightarrow> gm_get (count_constraint ns n node c m) (k, v) = gm_get m (k, v)"
  by (simp add: count_constraint_def Let_def split: option.split)

lemma count_constraints_other:
  "k \<notin> TopologyKey ` set cs \<Longrightarrow> gm_get (fold (count_constraint ns n node) cs m) (k, v) = gm_get m (k, v)"
  by (induction cs arbitrary: m) (auto simp: count_constraint_other)

lemma count_constraint_keys [simp]: "fst ` set (count_constraint ns n node c m) = fst ` set m"
  using gm_get_in_set [of m "(TopologyKey c, label_at node (TopologyKey c))"]
  by (force simp: count_constraint_def Let_def insert_absorb split: option.split)

lemma count_constraint_ok: "gm_ok m \<Longrightarrow> gm_ok (count_constraint ns n node c m)"
  by (simp add: count_constraint_def Let_def split: option.split)

lemma count_constraints_ok:
  "gm_ok m \<Longrightarrow> gm_ok (fold (count_constraint ns n node) cs m) \<and> fst ` set (fold (count_constraint ns n node) cs m) = fst ` set m"
  by (induction cs arbitrary: m) (auto simp: count_constraint_ok)

lemma count_constraints_get:
  assumes "distinct (map TopologyKey cs)" "c \<in> set cs" "int (length (ni_Pods n)) < 2 ^ 31"
  shows "gm_get (fold (count_constraint ns n node) cs m) (TopologyKey c, v) =
    map_option (\<lambda>t. if label_at node (TopologyKey c) = v then i32 (t + node_count ns c n) else t) (gm_get m (TopologyKey c, v))"
  using assms
proof (induction cs arbitrary: m)
  case (Cons d cs)
  have cnt: "i32 (countPodsMatchSelector (ni_Pods n) (Selector e) ns) = node_count ns e n" for e
  proof -
    have "countPodsMatchSelector (ni_Pods n) (Selector e) ns = node_count ns e n"
      unfolding node_count_def by (rule countPodsMatchSelector_eq) (use Cons.prems(3) in simp)
    moreover have "in32 (node_count ns e n)"
      using node_count_bounds [of ns e n] Cons.prems(3) unfolding in32_def by linarith
    ultimately show ?thesis by simp
  qed
  show ?case
  proof (cases "c = d")
    case True
    then have "TopologyKey c \<notin> TopologyKey ` set cs" using Cons.prems(1) by simp
    then have "gm_get (fold (count_constraint ns n node) (d # cs) m) (TopologyKey c, v) =
        gm_get (count_constraint ns n node c m) (TopologyKey c, v)"
      using True by (simp add: count_constraints_other)
    also have "\<dots> = map_option (\<lambda>t. if label_at node (TopologyKey c) = v then i32 (t + node_count ns c n) else t)
        (gm_get m (TopologyKey c, v))"
      by (cases "gm_get m (TopologyKey c, v)"; cases "v = label_at node (TopologyKey c)")
        (auto simp: count_constraint_def Let_def cnt split: option.split)
    finally show ?thesis .
  next
    case False
    then have "c \<in> set cs" using Cons.prems(2) by simp
    then have "c \<in> set cs" "TopologyKey c \<in> TopologyKey ` set cs" by auto
    moreover have "TopologyKey d \<notin> TopologyKey ` set cs" using Cons.prems(1) by simp
    ultimately have c: "c \<in> set cs" "TopologyKey c \<noteq> TopologyKey d" by metis+
    then show ?thesis using Cons.IH [OF _ c(1), of "count_constraint ns n node d m"] Cons.prems(1,3)
      by (simp add: count_constraint_other)
  qed
qed simp

lemma process_nodes_get:
  assumes "distinct (map TopologyKey cs)" "\<forall>n\<in>set nodes. ni_node n \<noteq> None" "gm_ok m"
    and "all_pods nodes + b < 2 ^ 31" and "\<forall>k t. gm_get m k = Some t \<longrightarrow> 0 \<le> t \<and> t \<le> b"
  shows "\<exists>m'. process_nodes ns cs nodes m = Some m' \<and> gm_ok m' \<and> fst ` set m' = fst ` set m \<and>
    (\<forall>c\<in>set cs. \<forall>v. gm_get m' (TopologyKey c, v) = map_option (\<lambda>t. t + domain_count ns nodes c v) (gm_get m (TopologyKey c, v)))"
  using assms
proof (induction nodes arbitrary: m b)
  case (Cons n nodes)
  obtain node where node: "ni_node n = Some node" using Cons.prems(2) by auto
  let ?m = "fold (count_constraint ns n node) cs m"
  let ?l = "int (length (ni_Pods n))"
  have b: "?l + all_pods nodes + b < 2 ^ 31" using Cons.prems(4) by (simp add: all_pods_Cons)
  have small: "?l < 2 ^ 31 \<or> gm_get m k = None" for k
    using b all_pods_nonneg [of nodes] Cons.prems(5) [rule_format, of k] by (cases "gm_get m k") auto
  have get: "gm_get ?m (TopologyKey c, v) =
      map_option (\<lambda>t. if label_at node (TopologyKey c) = v then t + node_count ns c n else t) (gm_get m (TopologyKey c, v))"
    if c: "c \<in> set cs" for c v
  proof (cases "gm_get m (TopologyKey c, v)")
    case None
    then have "gm_get ?m (TopologyKey c, v) = None"
      using count_constraints_ok [OF Cons.prems(3), of ns n node cs] unfolding gm_get_eq_None by simp
    then show ?thesis using None by simp
  next
    case (Some t)
    have t: "0 \<le> t" "t \<le> b" using Cons.prems(5) Some by auto
    have "?l < 2 ^ 31" using small [of "(TopologyKey c, v)"] Some by simp
    moreover have "i32 (t + node_count ns c n) = t + node_count ns c n"
      using t b node_count_bounds [of ns c n] all_pods_nonneg [of nodes] by (intro i32_id) (unfold in32_def, linarith)
    ultimately show ?thesis using count_constraints_get [OF Cons.prems(1) c, of n ns node m v] Some by simp
  qed
  have other: "k \<notin> TopologyKey ` set cs \<Longrightarrow> gm_get ?m (k, v) = gm_get m (k, v)" for k v
    by (rule count_constraints_other)
  have bound: "\<forall>k t. gm_get ?m k = Some t \<longrightarrow> 0 \<le> t \<and> t \<le> b + ?l"
  proof (intro allI impI)
    fix k t assume t: "gm_get ?m k = Some t"
    obtain key v where k: "k = (key, v)" by force
    show "0 \<le> t \<and> t \<le> b + ?l"
    proof (cases "key \<in> TopologyKey ` set cs")
      case True
      then obtain c where c: "c \<in> set cs" "key = TopologyKey c" by auto
      from t get [OF c(1), of v] Cons.prems(5) node_count_bounds [of ns c n] show ?thesis
        unfolding k c(2) by (fastforce split: if_splits)
    next
      case False
      then show ?thesis using t other [OF False, of v] Cons.prems(5) unfolding k by fastforce
    qed
  qed
  have "all_pods nodes + (b + ?l) < 2 ^ 31" using b by simp
  from Cons.IH [OF Cons.prems(1) _ _ this bound] Cons.prems(2) count_constraints_ok [OF Cons.prems(3), of ns n node cs]
  obtain m' where m': "process_nodes ns cs nodes ?m = Some m'" "gm_ok m'" "fst ` set m' = fst ` set m"
      "\<forall>c\<in>set cs. \<forall>v. gm_get m' (TopologyKey c, v) = map_option (\<lambda>t. t + domain_count ns nodes c v) (gm_get ?m (TopologyKey c, v))"
    by auto
  have "gm_get m' (TopologyKey c, v) = map_option (\<lambda>t. t + domain_count ns (n # nodes) c v) (gm_get m (TopologyKey c, v))"
    if "c \<in> set cs" for c v
    using m'(4) that get [OF that, of v] by (simp add: domain_count_def node option.map_comp o_def add.assoc)
  with m'(1-3) show ?case by (simp add: processNode_def node)
qed (simp add: domain_count_def option.map_ident)

subsection \<open>The pre-computed state\<close>

definition eligible :: "(labelset \<Rightarrow> selector) \<Rightarrow> Pod \<Rightarrow> topologySpreadConstraint list \<Rightarrow> NodeInfo \<Rightarrow> Node \<Rightarrow> bool" where
  "eligible selectorFromSet pod constraints n node \<longleftrightarrow> ni_node n = Some node \<and>
     PodMatchesNodeSelectorAndAffinityTerms selectorFromSet pod node \<and>
     (\<forall>c\<in>set constraints. gm_has (labels_of node) (TopologyKey c))"

text \<open>The topology values of a constraint: those of the nodes that count.\<close>

definition domains :: "(labelset \<Rightarrow> selector) \<Rightarrow> Pod \<Rightarrow> topologySpreadConstraint list \<Rightarrow> NodeInfo list \<Rightarrow>
    topologySpreadConstraint \<Rightarrow> string set" where
  "domains selectorFromSet pod constraints nodes c =
    {v. \<exists>n\<in>set nodes. \<exists>node. eligible selectorFromSet pod constraints n node \<and> v = label_at node (TopologyKey c)}"

lemma nodeLabelsMatch_iff:
  "nodeLabelsMatchSpreadConstraints l cs \<longleftrightarrow> (\<forall>c\<in>set cs. gm_has l (TopologyKey c))"
  by (induction cs) auto

lemma finite_domains: "finite (domains selectorFromSet pod constraints nodes c)"
proof -
  have "domains selectorFromSet pod constraints nodes c \<subseteq>
      (\<lambda>n. label_at (the (ni_node n)) (TopologyKey c)) ` set nodes"
    by (force simp: domains_def eligible_def)
  then show ?thesis by (rule finite_subset) simp
qed

lemma fold_put_zero:
  "gm_get (fold (\<lambda>c m. gm_put m (f c) (0::int)) cs m) k = (if k \<in> f ` set cs then Some 0 else gm_get m k)"
  by (induction cs arbitrary: m) auto

lemma fold_put_ok: "gm_ok m \<Longrightarrow> gm_ok (fold (\<lambda>c m. gm_put m (f c) (g c)) cs m)"
  by (induction cs arbitrary: m) auto

lemma init_pair_get:
  assumes "c \<in> set cs"
  shows "gm_get (init_pair sf pod cs n m) (TopologyKey c, v) =
    (if \<exists>node. eligible sf pod cs n node \<and> v = label_at node (TopologyKey c) then Some 0 else gm_get m (TopologyKey c, v))"
  using assms by (auto simp: init_pair_def eligible_def nodeLabelsMatch_iff fold_put_zero split: option.split)

lemma init_pair_ok: "gm_ok m \<Longrightarrow> gm_ok (init_pair sf pod cs n m)"
  by (simp add: init_pair_def fold_put_ok split: option.split)

lemma init_pair_zero:
  "\<forall>k t. gm_get m k = Some t \<longrightarrow> t = 0 \<and> fst k \<in> TopologyKey ` set cs \<Longrightarrow>
   \<forall>k t. gm_get (init_pair sf pod cs n m) k = Some t \<longrightarrow> t = 0 \<and> fst k \<in> TopologyKey ` set cs"
  by (auto simp: init_pair_def fold_put_zero split: option.split)

lemma init_pairs:
  assumes "gm_ok m" "\<forall>k t. gm_get m k = Some t \<longrightarrow> t = 0 \<and> fst k \<in> TopologyKey ` set cs"
  shows "gm_ok (fold (init_pair sf pod cs) nodes m) \<and>
    (\<forall>k t. gm_get (fold (init_pair sf pod cs) nodes m) k = Some t \<longrightarrow> t = 0 \<and> fst k \<in> TopologyKey ` set cs) \<and>
    (\<forall>c\<in>set cs. \<forall>v. gm_get (fold (init_pair sf pod cs) nodes m) (TopologyKey c, v) =
      (if v \<in> domains sf pod cs nodes c then Some 0 else gm_get m (TopologyKey c, v)))"
  using assms
proof (induction nodes arbitrary: m)
  case (Cons n nodes)
  have "domains sf pod cs (n # nodes) c = {v. \<exists>node. eligible sf pod cs n node \<and> v = label_at node (TopologyKey c)} \<union>
      domains sf pod cs nodes c" for c
    by (auto simp: domains_def)
  then show ?case using Cons.IH [OF init_pair_ok [OF Cons.prems(1)] init_pair_zero [OF Cons.prems(2)]]
    by (simp add: init_pair_get) blast
qed (simp add: domains_def)

lemma update_paths_two_least:
  assumes "distinct (map fst es)" "\<forall>k p. gm_get m k = Some p \<longrightarrow> two_least (g k) p" "\<forall>k v. g k v \<le> MaxInt32"
    and "\<forall>((k, v), n)\<in>set es. gm_get m k \<noteq> None \<and> n \<le> g k v"
  shows "\<exists>m'. update_paths es m = Some m' \<and> (\<forall>k. gm_get m' k = None \<longleftrightarrow> gm_get m k = None) \<and>
    (\<forall>k p. gm_get m' k = Some p \<longrightarrow> two_least (\<lambda>v. case map_of es (k, v) of None \<Rightarrow> g k v | Some n \<Rightarrow> n) p)"
  using assms
proof (induction es arbitrary: m g)
  case (Cons e es)
  obtain k v n where e: "e = ((k, v), n)" by (metis surj_pair)
  obtain p where p: "gm_get m k = Some p" "n \<le> g k v" using Cons.prems(4) e by auto
  let ?m = "gm_put m k (criticalPaths_update p v n)"
  let ?g = "g(k := (g k)(v := n))"
  have t: "two_least ((g k)(v := n)) (criticalPaths_update p v n)"
    using two_least_update [where f = "g k" and p = p and v = v and num = n] Cons.prems(2,3) p by blast
  have 1: "\<forall>k' p. gm_get ?m k' = Some p \<longrightarrow> two_least (?g k') p"
    using Cons.prems(2) t by (auto simp del: split_paired_All)
  have 2: "\<forall>k v. ?g k v \<le> MaxInt32" using Cons.prems(3) p(2) by (auto intro: order_trans)
  have 3: "\<forall>((k', v'), n')\<in>set es. gm_get ?m k' \<noteq> None \<and> n' \<le> ?g k' v'"
  proof clarify
    fix k' v' n' assume el: "((k', v'), n') \<in> set es"
    then have "(k', v') \<noteq> (k, v)" using Cons.prems(1) e by force
    moreover have "gm_get m k' \<noteq> None" "n' \<le> g k' v'" using Cons.prems(4) el by auto
    ultimately show "gm_get ?m k' \<noteq> None \<and> n' \<le> ?g k' v'" by (cases "k' = k") (auto simp del: not_None_eq)
  qed
  obtain m' where m': "update_paths es ?m = Some m'" "\<forall>k. gm_get m' k = None \<longleftrightarrow> gm_get ?m k = None"
      "\<forall>k' p. gm_get m' k' = Some p \<longrightarrow> two_least (\<lambda>v. case map_of es (k', v) of None \<Rightarrow> ?g k' v | Some n \<Rightarrow> n) p"
    using Cons.IH [OF _ 1 2 3] Cons.prems(1) by auto
  have nin: "map_of es (k, v) = None" using Cons.prems(1) by (simp add: e map_of_eq_None_iff)
  have "(\<lambda>x. case map_of es (k', x) of None \<Rightarrow> ?g k' x | Some n \<Rightarrow> n) =
      (\<lambda>x. case map_of (e # es) (k', x) of None \<Rightarrow> g k' x | Some n \<Rightarrow> n)" for k'
    using nin by (auto simp: e fun_eq_iff split: option.split)
  with m'(3) have "\<forall>k' p. gm_get m' k' = Some p \<longrightarrow>
      two_least (\<lambda>x. case map_of (e # es) (k', x) of None \<Rightarrow> g k' x | Some n \<Rightarrow> n) p"
    by (simp only:) 
  moreover have "update_paths (e # es) m = Some m'" using m'(1) p(1) by (simp add: e)
  moreover have "gm_get m' k' = None \<longleftrightarrow> gm_get m k' = None" for k' using m'(2) p(1) by auto
  ultimately show ?case by blast
qed auto

text \<open>
  A state \<open>tracks\<close> the numbers \<open>N\<close> of matching pods over the domains \<open>D\<close>: its counters are these numbers,
  and its paths are related to them by \<open>R\<close>.
\<close>

definition number :: "(topologySpreadConstraint \<Rightarrow> string set) \<Rightarrow> (topologySpreadConstraint \<Rightarrow> string \<Rightarrow> int) \<Rightarrow>
    topologySpreadConstraint \<Rightarrow> string \<Rightarrow> int" where
  "number D N c v = (if v \<in> D c then N c v else MaxInt32)"

definition tracks :: "(topologySpreadConstraint \<Rightarrow> (string \<Rightarrow> int) \<Rightarrow> criticalPaths \<Rightarrow> bool) \<Rightarrow> spreadPreFilterState \<Rightarrow>
    topologySpreadConstraint list \<Rightarrow> (topologySpreadConstraint \<Rightarrow> string set) \<Rightarrow>
    (topologySpreadConstraint \<Rightarrow> string \<Rightarrow> int) \<Rightarrow> bool" where
  "tracks R s constraints D N \<longleftrightarrow> Constraints s = constraints \<and>
     (\<forall>c\<in>set constraints.
       (\<forall>v. gm_get (TpPairToMatchNum s) (TopologyKey c, v) = (if v \<in> D c then Some (N c v) else None)) \<and>
       (\<exists>p. gm_get (TpKeyToCriticalPaths s) (TopologyKey c) = Some p \<and> R c (number D N c) p))"

lemma spread_state_tracks:
  assumes cs: "distinct (map TopologyKey cs)" "cs \<noteq> []" and nodes: "\<forall>n\<in>set nodes. ni_node n \<noteq> None"
    and order: "mset order = mset [0..<length nodes]" and perm: "\<And>m. mset (perm m) = mset m"
    and pods: "all_pods nodes < MaxInt32"
  shows "\<exists>s. spread_state sf order perm nodes pod cs = Some s \<and>
    tracks (\<lambda>_. two_least) s cs (domains sf pod cs nodes) (domain_count (pod_Namespace pod) nodes) \<and>
    (TpPairToMatchNum s = [] \<longleftrightarrow> \<not> (\<exists>n\<in>set nodes. \<exists>node. eligible sf pod cs n node))"
proof -
  let ?pairs = "fold (init_pair sf pod cs) nodes []"
  let ?nodes = "map ((!) nodes) order"
  let ?ns = "pod_Namespace pod"
  have ms: "mset ?nodes = mset nodes"
    using order by (metis map_nth mset_map)
  have pods': "all_pods ?nodes + 0 < 2 ^ 31"
    using pods ms unfolding all_pods_def MaxInt32_def by (metis (no_types, lifting) mset_map sum_mset_sum_list add_0_right diff_less_eq less_add_one less_trans)
  have ip: "gm_ok ?pairs" "\<forall>k t. gm_get ?pairs k = Some t \<longrightarrow> t = 0 \<and> fst k \<in> TopologyKey ` set cs"
      "\<forall>c\<in>set cs. \<forall>v. gm_get ?pairs (TopologyKey c, v) = (if v \<in> domains sf pod cs nodes c then Some 0 else None)"
    using init_pairs [of "[]" cs sf pod nodes] by (simp_all cong: if_cong)
  have nodes': "\<forall>n\<in>set ?nodes. ni_node n \<noteq> None" unfolding mset_eq_setD [OF ms] by (rule nodes)
  have zero: "\<forall>k t. gm_get ?pairs k = Some t \<longrightarrow> 0 \<le> t \<and> t \<le> 0" using ip(2) by blast
  obtain counts where counts: "process_nodes ?ns cs ?nodes ?pairs = Some counts" "gm_ok counts"
      "fst ` set counts = fst ` set ?pairs"
      "\<forall>c\<in>set cs. \<forall>v. gm_get counts (TopologyKey c, v) = map_option (\<lambda>t. t + domain_count ?ns ?nodes c v) (gm_get ?pairs (TopologyKey c, v))"
    using process_nodes_get [OF cs(1) nodes' ip(1) pods' zero, of ?ns] by blast
  have get: "gm_get counts (TopologyKey c, v) =
      (if v \<in> domains sf pod cs nodes c then Some (domain_count ?ns nodes c v) else None)" if "c \<in> set cs" for c v
    using counts(4) that ip(3) domain_count_perm [OF ms] by simp
  let ?init = "fold (\<lambda>c m. gm_put m (TopologyKey c) newCriticalPaths) cs []"
  have init: "gm_get (fold (\<lambda>c m. gm_put m (TopologyKey c) newCriticalPaths) l m) k =
      (if k \<in> TopologyKey ` set l then Some newCriticalPaths else gm_get m k)" for l m k
    by (induction l arbitrary: m) auto
  have keys: "fst k \<in> TopologyKey ` set cs" "0 \<le> n" "n \<le> MaxInt32" if "(k, n) \<in> set (perm counts)" for k n
  proof -
    have kn: "(k, n) \<in> set counts" using that mset_eq_setD [OF perm] by blast
    then have "k \<in> fst ` set ?pairs" using counts(3) by force
    then have "gm_get ?pairs k \<noteq> None" by (simp only: gm_get_eq_None) simp
    then show fk: "fst k \<in> TopologyKey ` set cs" using ip(2) by (cases k) auto
    then obtain c where c: "c \<in> set cs" "fst k = TopologyKey c" by auto
    have "gm_get counts k = Some n" using kn counts(2) by (simp add: gm_get_eq_Some)
    then have "n = domain_count ?ns nodes c (snd k)" using get [OF c(1), of "snd k"] c(2)
      by (cases k) (auto split: if_splits)
    then show "0 \<le> n" "n \<le> MaxInt32" using domain_count_bounds [of ?ns nodes c "snd k"] pods by auto
  qed
  have dist: "distinct (map fst (perm counts))"
    using counts(2) perm [of counts] unfolding gm_ok_def by (metis mset_eq_imp_distinct_iff mset_map)
  obtain paths where paths: "update_paths (perm counts) ?init = Some paths"
      "\<forall>k. gm_get paths k = None \<longleftrightarrow> gm_get ?init k = None"
      "\<forall>k p. gm_get paths k = Some p \<longrightarrow> two_least (\<lambda>v. case map_of (perm counts) (k, v) of None \<Rightarrow> MaxInt32 | Some n \<Rightarrow> n) p"
  proof -
    have "gm_get ?init k \<noteq> None \<and> n \<le> MaxInt32" if "((k, v), n) \<in> set (perm counts)" for k v n
      using keys(1,3) [OF that] by (simp add: init del: not_None_eq)
    then have "\<forall>((k, v), n)\<in>set (perm counts). gm_get ?init k \<noteq> None \<and> n \<le> MaxInt32" by blast
    moreover have "\<forall>k p. gm_get ?init k = Some p \<longrightarrow> two_least (\<lambda>_. MaxInt32) p"
      using two_least_new by (auto simp: init split: if_splits simp del: split_paired_All)
    ultimately show ?thesis
      using update_paths_two_least [OF dist, of ?init "\<lambda>_ _. MaxInt32"] that by auto
  qed
  have perm_get: "map_of (perm counts) = gm_get counts"
    unfolding gm_get_def [abs_def]
    using map_of_inject_set [OF dist, of counts] counts(2) mset_eq_setD [OF perm [of counts]] by (simp add: gm_ok_def)
  let ?s = "\<lparr>Constraints = cs, TpKeyToCriticalPaths = paths, TpPairToMatchNum = counts\<rparr>"
  have "tracks (\<lambda>_. two_least) ?s cs (domains sf pod cs nodes) (domain_count ?ns nodes)"
    unfolding tracks_def
  proof (intro conjI ballI allI)
    fix c assume c: "c \<in> set cs"
    then have "gm_get paths (TopologyKey c) \<noteq> None" using paths(2) by (simp add: init)
    then obtain p where p: "gm_get paths (TopologyKey c) = Some p" by auto
    have "(\<lambda>v. case map_of (perm counts) (TopologyKey c, v) of None \<Rightarrow> MaxInt32 | Some n \<Rightarrow> n) =
        number (domains sf pod cs nodes) (domain_count ?ns nodes) c"
      unfolding perm_get using get [OF c] by (auto simp: number_def fun_eq_iff)
    with paths(3) p have "two_least (number (domains sf pod cs nodes) (domain_count ?ns nodes) c) p" by metis
    with p show "\<exists>p. gm_get (TpKeyToCriticalPaths ?s) (TopologyKey c) = Some p \<and>
        two_least (number (domains sf pod cs nodes) (domain_count ?ns nodes) c) p" by auto
  qed (use get in auto)
  moreover have "counts = [] \<longleftrightarrow> \<not> (\<exists>n\<in>set nodes. \<exists>node. eligible sf pod cs n node)"
  proof
    assume [simp]: "counts = []"
    show "\<not> (\<exists>n\<in>set nodes. \<exists>node. eligible sf pod cs n node)"
    proof
      assume "\<exists>n\<in>set nodes. \<exists>node. eligible sf pod cs n node"
      then obtain v where "v \<in> domains sf pod cs nodes (hd cs)" by (auto simp: domains_def)
      then show False using get [of "hd cs" v] cs(2) by simp
    qed
  next
    assume none: "\<not> (\<exists>n\<in>set nodes. \<exists>node. eligible sf pod cs n node)"
    have "\<not> (k, n) \<in> set counts" for k n
    proof
      assume kn: "(k, n) \<in> set counts"
      then have "(k, n) \<in> set (perm counts)" using mset_eq_setD [OF perm] by blast
      then obtain c where c: "c \<in> set cs" "fst k = TopologyKey c" using keys(1) by blast
      have "gm_get counts k = Some n" using kn counts(2) by (simp add: gm_get_eq_Some)
      then have "snd k \<in> domains sf pod cs nodes c" using get [OF c(1), of "snd k"] c(2)
        by (cases k) (auto split: if_splits)
      then show False using none by (auto simp: domains_def)
    qed
    then show "counts = []" by (cases counts) auto
  qed
  ultimately show ?thesis using counts(1) paths(1) cs(2) by (simp add: spread_state_def Let_def)
qed

subsection \<open>The filter\<close>

text \<open>
  What a constraint asks of a node: it has the topology key, and the number of matching pods in its
  domain, with the pod itself when it matches, is above the minimum over the domains by at most
  \<open>maxSkew\<close>.
\<close>

definition skew_ok :: "Pod \<Rightarrow> Node \<Rightarrow> (topologySpreadConstraint \<Rightarrow> string set) \<Rightarrow>
    (topologySpreadConstraint \<Rightarrow> string \<Rightarrow> int) \<Rightarrow> topologySpreadConstraint \<Rightarrow> bool" where
  "skew_ok pod node D N c \<longleftrightarrow> (\<exists>v. gm_get (labels_of node) (TopologyKey c) = Some v \<and>
     (if v \<in> D c then N c v else 0) + (if Selector c (pod_Labels pod) then 1 else 0) - Min (N c ` D c) \<le> MaxSkew c)"

lemma Min_number:
  assumes "finite (D c)" "D c \<noteq> {}" "\<forall>v\<in>D c. N c v \<le> MaxInt32"
    and "\<forall>v. m \<le> number D N c v" "\<exists>v. m = number D N c v"
  shows "Min (N c ` D c) = m"
proof (rule Min_eqI)
  show "finite (N c ` D c)" using assms(1) by simp
  show "m \<le> y" if y: "y \<in> N c ` D c" for y
  proof -
    obtain w where "w \<in> D c" "y = N c w" using y by auto
    then show ?thesis using assms(4) [rule_format, of w] by (simp add: number_def)
  qed
  obtain v where v: "m = number D N c v" using assms(5) by blast
  show "m \<in> N c ` D c"
  proof (cases "v \<in> D c")
    case False
    obtain w where w: "w \<in> D c" using assms(2) by auto
    have "m = MaxInt32" using v False by (simp add: number_def)
    moreover have "m \<le> N c w" using assms(4) [rule_format, of w] w by (simp add: number_def)
    ultimately have "N c w = m" using assms(3) w by fastforce
    then show ?thesis using w by auto
  qed (use v in \<open>simp add: number_def\<close>)
qed

lemma check_constraints_iff:
  assumes t: "tracks R s cs D N"
    and R: "\<And>c f p. R c f p \<Longrightarrow> (\<forall>v. snd (fst p) \<le> f v) \<and> (\<exists>v. snd (fst p) = f v)"
    and D: "\<forall>c\<in>set cs. finite (D c) \<and> D c \<noteq> {}"
    and N: "\<forall>c\<in>set cs. \<forall>v\<in>D c. lo \<le> N c v \<and> N c v \<le> hi" "lo \<le> 0" "0 \<le> hi" "hi < MaxInt32" "hi + 1 - lo \<le> MaxInt32"
    and l: "set l \<subseteq> set cs"
  shows "check_constraints pod node s l = None \<longleftrightarrow> (\<forall>c\<in>set l. skew_ok pod node D N c)"
  using l
proof (induction l)
  case (Cons c l)
  have c: "c \<in> set cs" using Cons.prems by simp
  have get: "gm_get (TpPairToMatchNum s) (TopologyKey c, v) = (if v \<in> D c then Some (N c v) else None)" for v
    using t c by (simp add: tracks_def)
  obtain p where p: "gm_get (TpKeyToCriticalPaths s) (TopologyKey c) = Some p" "R c (number D N c) p"
    using t c by (auto simp: tracks_def)
  have m: "Min (N c ` D c) = snd (fst p)"
    using Min_number [of D c N] R [OF p(2)] D N c by fastforce
  have "snd (fst p) \<in> N c ` D c" using D c unfolding m [symmetric] by (intro Min_in) auto
  then have mb: "lo \<le> snd (fst p)" "snd (fst p) \<le> hi" using N(1) c by auto
  have one: "check_constraints pod node s (c # l) = None \<longleftrightarrow>
      skew_ok pod node D N c \<and> check_constraints pod node s l = None"
  proof (cases "gm_get (labels_of node) (TopologyKey c)")
    case (Some v)
    let ?num = "if v \<in> D c then N c v else 0"
    let ?self = "if Selector c (pod_Labels pod) then 1 else (0::int)"
    have nb: "lo \<le> ?num" "?num \<le> hi" using N c by auto
    have "i32 (?num + ?self) = ?num + ?self"
      using nb N(2-5) by (intro i32_id) (auto simp: in32_def MaxInt32_def)
    moreover have "i32 (?num + ?self - snd (fst p)) = ?num + ?self - snd (fst p)"
      using nb mb N(2-5) by (intro i32_id) (auto simp: in32_def MaxInt32_def)
    ultimately show ?thesis
      using Some p(1) by (auto simp: skew_ok_def Let_def gm_get0_def get m not_less)
  qed (simp add: skew_ok_def)
  show ?case using one Cons.IH Cons.prems by simp
qed simp

lemma Spread_Filter_eq:
  "ni_node n = Some node \<Longrightarrow>
   Spread_Filter print (CycleState_Write cs spread_preFilterStateKey (SpreadData s)) pod n =
    (if TpPairToMatchNum s = [] \<or> Constraints s = [] then None else check_constraints pod node s (Constraints s))"
  by (simp add: Spread_Filter_def spread_getPreFilterState_def read_state_def CycleState_Read_def CycleState_Write_def)

text \<open>
  C11: The filter of \<open>PodTopologySpread\<close>, run on the state that \<open>PreFilter\<close> computes for constraints
  with different topology keys, passes a node exactly when no node of the cluster counts, or the
  node keeps every constraint: its domain, with the pod, is above the minimum over the domains of the
  nodes that count by at most \<open>maxSkew\<close>. This holds for every order in which the nodes were counted
  and the map of counters visited; fewer than \<open>MaxInt32\<close> pods keep the 32-bit counters from overflowing.\<close>

theorem spread_filter_is_skew:
  assumes "distinct (map TopologyKey cs)" "cs \<noteq> []" "\<forall>n\<in>set nodes. ni_node n \<noteq> None"
    and "mset order = mset [0..<length nodes]" "\<And>m. mset (perm m) = mset m" "all_pods nodes < MaxInt32"
    and "ni_node nodeInfo = Some node"
  shows "\<exists>s. spread_state sf order perm nodes pod cs = Some s \<and>
    (Spread_Filter print (CycleState_Write state spread_preFilterStateKey (SpreadData s)) pod nodeInfo = None \<longleftrightarrow>
      (\<forall>n\<in>set nodes. \<forall>nd. \<not> eligible sf pod cs n nd) \<or>
      (\<forall>c\<in>set cs. skew_ok pod node (domains sf pod cs nodes) (domain_count (pod_Namespace pod) nodes) c))"
proof -
  let ?D = "domains sf pod cs nodes" and ?N = "domain_count (pod_Namespace pod) nodes"
  obtain s where s: "spread_state sf order perm nodes pod cs = Some s" "tracks (\<lambda>_. two_least) s cs ?D ?N"
      "TpPairToMatchNum s = [] \<longleftrightarrow> \<not> (\<exists>n\<in>set nodes. \<exists>node. eligible sf pod cs n node)"
    using spread_state_tracks [OF assms(1-4) _ assms(6), of perm sf pod] assms(5) by blast
  have cs: "Constraints s = cs" using s(2) by (simp add: tracks_def)
  have iff: "check_constraints pod node s cs = None \<longleftrightarrow> (\<forall>c\<in>set cs. skew_ok pod node ?D ?N c)"
    if e: "\<exists>n\<in>set nodes. \<exists>node. eligible sf pod cs n node"
  proof (rule check_constraints_iff [OF s(2), where lo = 0 and hi = "all_pods nodes"])
    show "(\<forall>v. snd (fst p) \<le> f v) \<and> (\<exists>v. snd (fst p) = f v)" if "two_least f p" for f p
      using that by (rule two_least_min)
    show "\<forall>c\<in>set cs. finite (?D c) \<and> ?D c \<noteq> {}" using e finite_domains by (fastforce simp: domains_def)
  qed (use domain_count_bounds all_pods_nonneg assms(6) in auto)
  then show ?thesis
    using s(1,3) cs assms(2) by (auto simp: Spread_Filter_eq [OF assms(7)])
qed

subsection \<open>Pods added and removed on one node\<close>

text \<open>What adding or removing a pod counts for in a constraint.\<close>

definition contribution :: "Pod \<Rightarrow> topologySpreadConstraint \<Rightarrow> Pod \<times> int \<Rightarrow> int" where
  "contribution pod c op =
    (if pod_Namespace (fst op) = pod_Namespace pod \<and> Selector c (pod_Labels (fst op)) then snd op else 0)"

fun spread_updates :: "Pod \<Rightarrow> Node \<Rightarrow> (Pod \<times> int) list \<Rightarrow> spreadPreFilterState \<Rightarrow> spreadPreFilterState option" where
  "spread_updates pod node [] s = Some s"
| "spread_updates pod node ((p, delta) # ops) s =
    Option.bind (updateWithPod s p pod (Some node) delta) (spread_updates pod node ops)"

abbreviation on_node :: "Node \<Rightarrow> topologySpreadConstraint \<Rightarrow> (string \<Rightarrow> int) \<Rightarrow> criticalPaths \<Rightarrow> bool" where
  "on_node node \<equiv> \<lambda>c. least_but (label_at node (TopologyKey c))"

lemma tracks_one_update:
  assumes t: "tracks (on_node node) s cs D N" and c: "c \<in> set cs" "distinct (map TopologyKey cs)"
    and w: "label_at node (TopologyKey c) \<in> D c" and num: "num \<le> MaxInt32"
    and p: "gm_get (TpKeyToCriticalPaths s) (TopologyKey c) = Some p"
  shows "tracks (on_node node)
    (s\<lparr>TpPairToMatchNum := gm_put (TpPairToMatchNum s) (TopologyKey c, label_at node (TopologyKey c)) num,
       TpKeyToCriticalPaths := gm_put (TpKeyToCriticalPaths s) (TopologyKey c)
         (criticalPaths_update p (label_at node (TopologyKey c)) num)\<rparr>) cs D
    (N(c := (N c)(label_at node (TopologyKey c) := num)))"
  unfolding tracks_def
proof (intro conjI ballI allI)
  let ?w = "label_at node (TopologyKey c)"
  let ?N = "N(c := (N c)(?w := num))"
  let ?s = "s\<lparr>TpPairToMatchNum := gm_put (TpPairToMatchNum s) (TopologyKey c, ?w) num,
       TpKeyToCriticalPaths := gm_put (TpKeyToCriticalPaths s) (TopologyKey c) (criticalPaths_update p ?w num)\<rparr>"
  show "Constraints ?s = cs" using t by (simp add: tracks_def)
  fix d assume d: "d \<in> set cs"
  have eq: "TopologyKey d = TopologyKey c \<longleftrightarrow> d = c" using c d by (auto simp: distinct_map inj_on_def)
  show "gm_get (TpPairToMatchNum ?s) (TopologyKey d, v) = (if v \<in> D d then Some (?N d v) else None)" for v
    using t d w eq by (auto simp: tracks_def)
  show "\<exists>p. gm_get (TpKeyToCriticalPaths ?s) (TopologyKey d) = Some p \<and>
      least_but (label_at node (TopologyKey d)) (number D ?N d) p"
  proof (cases "d = c")
    case True
    have "number D ?N c = (number D N c)(?w := num)" using w by (auto simp: number_def fun_eq_iff)
    moreover have "least_but ?w (number D N c) p" using t c p by (auto simp: tracks_def)
    ultimately show ?thesis using least_but_update [OF _ num] True by simp
  next
    case False
    then have "number D ?N d = number D N d" by (simp add: number_def fun_eq_iff)
    then show ?thesis using t d False eq by (auto simp: tracks_def)
  qed
qed

lemma update_constraints_tracks:
  assumes "tracks (on_node node) s cs D N" "distinct (map TopologyKey cs)"
    and "\<forall>c\<in>set cs. label_at node (TopologyKey c) \<in> D c"
    and "\<forall>c\<in>set l. \<forall>v\<in>D c. - b \<le> N c v \<and> N c v \<le> b" "b < 2 ^ 30" "delta = 1 \<or> delta = - 1"
    and "set l \<subseteq> set cs" "distinct l"
  shows "\<exists>s'. update_constraints p node delta l s = Some s' \<and> tracks (on_node node) s' cs D
    (\<lambda>c v. N c v + (if c \<in> set l \<and> v = label_at node (TopologyKey c) \<and> Selector c (pod_Labels p) then delta else 0))"
  using assms(1,4,7,8)
proof (induction l arbitrary: s N)
  case (Cons c l)
  let ?w = "label_at node (TopologyKey c)"
  have c: "c \<in> set cs" using Cons.prems(3) by simp
  have w: "?w \<in> D c" using assms(3) c by blast
  show ?case
  proof (cases "Selector c (pod_Labels p)")
    case False
    have "(\<lambda>d v. N d v + (if d \<in> set l \<and> v = label_at node (TopologyKey d) \<and> Selector d (pod_Labels p) then delta else 0)) =
        (\<lambda>d v. N d v + (if d \<in> set (c # l) \<and> v = label_at node (TopologyKey d) \<and> Selector d (pod_Labels p) then delta else 0))"
      using False by (auto simp: fun_eq_iff)
    then show ?thesis using False Cons.IH [OF Cons.prems(1)] Cons.prems(2,3,4) by simp
  next
    case True
    obtain paths where paths: "gm_get (TpKeyToCriticalPaths s) (TopologyKey c) = Some paths"
      using Cons.prems(1) c by (auto simp: tracks_def)
    have n: "gm_get (TpPairToMatchNum s) (TopologyKey c, ?w) = Some (N c ?w)" using Cons.prems(1) c w by (simp add: tracks_def)
    have nb: "- b \<le> N c ?w" "N c ?w \<le> b" using Cons.prems(2) w by auto
    then have num: "i32 (N c ?w + delta) = N c ?w + delta" "N c ?w + delta \<le> MaxInt32"
      using assms(5,6) by (auto simp: in32_def MaxInt32_def intro!: i32_id)
    let ?N = "N(c := (N c)(?w := N c ?w + delta))"
    let ?s = "s\<lparr>TpPairToMatchNum := gm_put (TpPairToMatchNum s) (TopologyKey c, ?w) (N c ?w + delta),
       TpKeyToCriticalPaths := gm_put (TpKeyToCriticalPaths s) (TopologyKey c) (criticalPaths_update paths ?w (N c ?w + delta))\<rparr>"
    have t: "tracks (on_node node) ?s cs D ?N"
      by (rule tracks_one_update [OF Cons.prems(1) c assms(2) w num(2) paths])
    have nl: "c \<notin> set l" using Cons.prems(4) by simp
    have eq: "(\<lambda>d v. ?N d v + (if d \<in> set l \<and> v = label_at node (TopologyKey d) \<and> Selector d (pod_Labels p) then delta else 0)) =
        (\<lambda>d v. N d v + (if d \<in> set (c # l) \<and> v = label_at node (TopologyKey d) \<and> Selector d (pod_Labels p) then delta else 0))"
      using True nl by (auto simp: fun_eq_iff)
    have step: "update_constraints p node delta (c # l) s = update_constraints p node delta l ?s"
      using True n paths num(1) by (simp add: Let_def)
    have "\<forall>d\<in>set l. \<forall>v\<in>D d. - b \<le> ?N d v \<and> ?N d v \<le> b" using Cons.prems(2) nl by auto
    from Cons.IH [OF t this] Cons.prems(3,4) show ?thesis unfolding step eq by auto
  qed
qed simp

lemma updateWithPod_tracks:
  assumes t: "tracks (on_node node) s cs D N" and dist: "distinct (map TopologyKey cs)"
    and w: "\<forall>c\<in>set cs. label_at node (TopologyKey c) \<in> D c" and has: "\<forall>c\<in>set cs. gm_has (labels_of node) (TopologyKey c)"
    and N: "\<forall>c\<in>set cs. \<forall>v\<in>D c. - b \<le> N c v \<and> N c v \<le> b" "b < 2 ^ 30" and d: "delta = 1 \<or> delta = - 1"
  shows "\<exists>s'. updateWithPod s p pod (Some node) delta = Some s' \<and> tracks (on_node node) s' cs D
    (\<lambda>c v. N c v + (if v = label_at node (TopologyKey c) then contribution pod c (p, delta) else 0))"
proof -
  have cs: "Constraints s = cs" using t by (simp add: tracks_def)
  have cong: "tracks (on_node node) s' cs D N2"
    if t: "tracks (on_node node) s' cs D N1" and e: "\<And>c v. c \<in> set cs \<Longrightarrow> N1 c v = N2 c v" for s' N1 N2
  proof -
    have "number D N1 c = number D N2 c" "\<forall>v. N1 c v = N2 c v" if "c \<in> set cs" for c
      using e [OF that] by (auto simp: number_def fun_eq_iff)
    then show ?thesis using t unfolding tracks_def by simp
  qed
  show ?thesis
  proof (cases "pod_Namespace p = pod_Namespace pod")
    case True
    obtain s' where s': "update_constraints p node delta cs s = Some s'" "tracks (on_node node) s' cs D
        (\<lambda>c v. N c v + (if c \<in> set cs \<and> v = label_at node (TopologyKey c) \<and> Selector c (pod_Labels p) then delta else 0))"
      using update_constraints_tracks [OF t dist w N d subset_refl] dist by (auto simp: distinct_map)
    have "tracks (on_node node) s' cs D
        (\<lambda>c v. N c v + (if v = label_at node (TopologyKey c) then contribution pod c (p, delta) else 0))"
      by (rule cong [OF s'(2)]) (simp add: contribution_def True)
    then show ?thesis using s'(1) True has by (simp add: updateWithPod_def cs nodeLabelsMatch_iff)
  next
    case False
    then have "tracks (on_node node) s cs D
        (\<lambda>c v. N c v + (if v = label_at node (TopologyKey c) then contribution pod c (p, delta) else 0))"
      by (intro cong [OF t]) (simp add: contribution_def)
    then show ?thesis using False by (simp add: updateWithPod_def)
  qed
qed

lemma spread_updates_tracks:
  assumes "distinct (map TopologyKey cs)" "\<forall>c\<in>set cs. label_at node (TopologyKey c) \<in> D c"
    and "\<forall>c\<in>set cs. gm_has (labels_of node) (TopologyKey c)" "\<forall>op\<in>set ops. snd op = 1 \<or> snd op = - 1"
    and "tracks (on_node node) s cs D N" "\<forall>c\<in>set cs. \<forall>v\<in>D c. - b \<le> N c v \<and> N c v \<le> b" "b + int (length ops) < 2 ^ 30"
  shows "\<exists>s'. spread_updates pod node ops s = Some s' \<and> tracks (on_node node) s' cs D
    (\<lambda>c v. N c v + (if v = label_at node (TopologyKey c) then \<Sum>op\<leftarrow>ops. contribution pod c op else 0))"
  using assms(4-7)
proof (induction ops arbitrary: s N b)
  case (Cons op ops)
  obtain p delta where op [simp]: "op = (p, delta)" by force
  let ?N = "\<lambda>c v. N c v + (if v = label_at node (TopologyKey c) then contribution pod c (p, delta) else 0)"
  have d: "delta = 1 \<or> delta = - 1" using Cons.prems(1) by simp
  obtain s1 where s1: "updateWithPod s p pod (Some node) delta = Some s1" "tracks (on_node node) s1 cs D ?N"
    using updateWithPod_tracks [OF Cons.prems(2) assms(1-3) Cons.prems(3) _ d, of p pod] Cons.prems(4) by auto
  have c: "- 1 \<le> contribution pod c (p, delta) \<and> contribution pod c (p, delta) \<le> 1" for c
    using d by (auto simp: contribution_def)
  have "\<forall>c\<in>set cs. \<forall>v\<in>D c. - (b + 1) \<le> ?N c v \<and> ?N c v \<le> b + 1"
  proof (intro ballI)
    fix c v assume "c \<in> set cs" "v \<in> D c"
    then show "- (b + 1) \<le> ?N c v \<and> ?N c v \<le> b + 1" using Cons.prems(3) c [of c] by force
  qed
  from Cons.IH [OF _ s1(2) this] Cons.prems(1,4)
  obtain s2 where s2: "spread_updates pod node ops s1 = Some s2" "tracks (on_node node) s2 cs D
      (\<lambda>c v. ?N c v + (if v = label_at node (TopologyKey c) then \<Sum>op\<leftarrow>ops. contribution pod c op else 0))"
    by auto
  moreover have "(\<lambda>c v. ?N c v + (if v = label_at node (TopologyKey c) then \<Sum>op\<leftarrow>ops. contribution pod c op else 0)) =
      (\<lambda>c v. N c v + (if v = label_at node (TopologyKey c) then \<Sum>op\<leftarrow>op # ops. contribution pod c op else 0))"
    by (auto simp: fun_eq_iff)
  ultimately show ?case using s1(1) by (auto simp del: sum_list.Cons)
qed (simp cong: if_cong)

lemma tracks_least_but:
  assumes "tracks (\<lambda>_. two_least) s cs D N" "\<forall>c\<in>set cs. \<forall>v\<in>D c. N c v \<le> MaxInt32"
  shows "tracks (on_node node) s cs D N"
proof -
  have "\<forall>v. number D N c v \<le> MaxInt32" if "c \<in> set cs" for c using assms(2) that by (simp add: number_def)
  then show ?thesis using assms(1) two_least_least_but unfolding tracks_def by blast
qed


subsection \<open>Two zones\<close>

definition zone_node :: "string \<Rightarrow> Node" where
  "zone_node z = zero_node\<lparr>node_Name := z, node_Labels := Some [(''zone'', z)]\<rparr>"

definition zone_info :: "string \<Rightarrow> Pod list \<Rightarrow> NodeInfo" where
  "zone_info z pods = (fst (NewNodeInfo (\<lambda>_. Inl []) 0 []))\<lparr>ni_node := Some (zone_node z), ni_Pods := map (NewPodInfo (\<lambda>_. Inl [])) pods\<rparr>"

definition zone_constraint :: topologySpreadConstraint where
  "zone_constraint = \<lparr>MaxSkew = 1, TopologyKey = ''zone'', Selector = (\<lambda>_. True)\<rparr>"

definition two_zones :: "NodeInfo list" where
  "two_zones = [zone_info ''a'' [zero_pod], zone_info ''b'' []]"

lemma zone_simps [simp]:
  "ni_node (zone_info z ps) = Some (zone_node z)" "length (ni_Pods (zone_info z ps)) = length ps"
  "labels_of (zone_node z) = [(''zone'', z)]" "label_at (zone_node z) ''zone'' = z"
  "TopologyKey zone_constraint = ''zone''" "MaxSkew zone_constraint = 1" "Selector zone_constraint l"
  by (simp_all add: zone_info_def zone_node_def labels_of_def label_at_def zone_constraint_def gm_get_def)

lemma zone_eligible: "eligible sf zero_pod [zone_constraint] n node \<longleftrightarrow> ni_node n = Some node \<and> gm_has (labels_of node) ''zone''"
  by (auto simp: eligible_def PodMatchesNodeSelectorAndAffinityTerms_def zero_pod_def)

lemma zone_has [simp]: "gm_has [(''zone'', z)] ''zone''"
  by (simp add: gm_has_def gm_get_def)

lemma zone_node_count: "node_count '''' zone_constraint (zone_info z (replicate k zero_pod)) = int k"
  by (induction k) (simp_all add: node_count_def zone_info_def counts_for_def zero_pod_def zone_constraint_def)

lemma two_zones_domains: "domains sf zero_pod [zone_constraint] two_zones zone_constraint = {''a'', ''b''}"
  by (auto simp: domains_def zone_eligible two_zones_def)

lemma two_zones_count: "domain_count '''' two_zones zone_constraint v = (if v = ''a'' then 1 else 0)"
  using zone_node_count [of "''a''" 1] zone_node_count [of "''b''" 0]
  by (auto simp: domain_count_def two_zones_def)

lemma two_zones_pods: "all_pods two_zones = 1"
  by (simp add: all_pods_def two_zones_def)

lemma zero_pod_simps: "pod_Namespace zero_pod = ''''" "pod_Labels zero_pod = []" "pod_DeletionTimestamp zero_pod = None"
  by (simp_all add: zero_pod_def)

theorem spread_filter_is_skew_witness:
  "\<exists>s. spread_state (\<lambda>_ _. True) [1, 0] id two_zones zero_pod [zone_constraint] = Some s \<and>
    Spread_Filter (\<lambda>_. []) (CycleState_Write NewCycleState spread_preFilterStateKey (SpreadData s)) zero_pod (zone_info ''b'' []) = None"
proof -
  have "skew_ok zero_pod (zone_node ''b'') (domains sf zero_pod [zone_constraint] two_zones)
      (domain_count (pod_Namespace zero_pod) two_zones) zone_constraint" for sf
    unfolding skew_ok_def two_zones_domains
    by (intro exI [of _ "''b''"]) (simp add: two_zones_count zero_pod_simps, simp add: gm_get_def)
  then show ?thesis
    using spread_filter_is_skew [of "[zone_constraint]" two_zones "[1, 0]" id "zone_info ''b'' []" "zone_node ''b''"
      "\<lambda>_ _. True" zero_pod "\<lambda>_. []" NewCycleState] two_zones_pods
    by (auto simp: two_zones_def MaxInt32_def)
qed


text \<open>
  Two nodes: once a pod of each of two domains is removed, the first path can miss the minimum. This is the
  caveat the code states for its two paths.
\<close>

lemma two_nodes_break_minimum:
  "let p0 = criticalPaths_update (criticalPaths_update (criticalPaths_update newCriticalPaths ''a'' 1) ''b'' 2) ''c'' 3;
       p1 = criticalPaths_update (criticalPaths_update p0 ''a'' 4) ''b'' 5
   in snd (fst p1) = 4"
  by (simp add: criticalPaths_update_def newCriticalPaths_def MaxInt32_def)

text \<open>
  A node that has the topology keys but does not count (here it does not match the node selector) has no
  counter, so adding a pod of it to the state is a nil dereference.
\<close>

lemma updateWithPod_panics:
  assumes "gm_get (TpPairToMatchNum s) (TopologyKey c, label_at node (TopologyKey c)) = None" "Constraints s = [c]"
    and "gm_has (labels_of node) (TopologyKey c)" "Selector c (pod_Labels p)" "pod_Namespace p = pod_Namespace pod"
  shows "updateWithPod s p pod (Some node) delta = None"
  using assms by (simp add: updateWithPod_def Let_def)

end
