(* ===== verification/Affinity_Props.thy ===== *)
theory Affinity_Props
  imports Inter_Pod_Affinity Spread_Props
begin

text \<open>
  What the plugin \<open>InterPodAffinity\<close> computes: its filter decides the affinity and anti-affinity terms over
  all pods of the cluster, and taking a pod out of the pre-computed state and adding it again gives the
  state back.
\<close>

subsection \<open>Counters\<close>

text \<open>A map of counters is read as a function that is zero where there is no entry; no entry is zero.\<close>

definition holds :: "topologyToMatchedTermCount \<Rightarrow> (topologyPair \<Rightarrow> int) \<Rightarrow> bool" where
  "holds m f \<longleftrightarrow> gm_ok m \<and> (\<forall>p. in64 (f p) \<and> gm_get m p = (if f p = 0 then None else Some (f p)))"

text \<open>How many of the terms put the pod of a node on a topology pair.\<close>

definition on_pair :: "Node \<Rightarrow> topologyPair \<Rightarrow> AffinityTerm \<Rightarrow> bool" where
  "on_pair node p t \<longleftrightarrow> at_TopologyKey t = fst p \<and> gm_get (labels_of node) (fst p) = Some (snd p)"

definition anti_hits :: "Pod \<Rightarrow> Node \<Rightarrow> AffinityTerm list \<Rightarrow> topologyPair \<Rightarrow> int" where
  "anti_hits pod node terms p = int (length (filter (\<lambda>t. matches_term pod t \<and> on_pair node p t) terms))"

definition affinity_hits :: "Pod \<Rightarrow> Node \<Rightarrow> AffinityTerm list \<Rightarrow> topologyPair \<Rightarrow> int" where
  "affinity_hits pod node terms p =
    (if podMatchesAllAffinityTerms pod terms then int (length (filter (on_pair node p) terms)) else 0)"

lemma in64_0 [simp]: "in64 0"
  by (simp add: in64_def)

lemma holdsI: "gm_ok m \<Longrightarrow> (\<And>p. in64 (f p)) \<Longrightarrow> (\<And>p. gm_get m p = (if f p = 0 then None else Some (f p))) \<Longrightarrow> holds m f"
  by (simp add: holds_def)

lemma holds_get: "holds m f \<Longrightarrow> gm_get m p = (if f p = 0 then None else Some (f p))"
  unfolding holds_def by blast

lemma holds_in64: "holds m f \<Longrightarrow> in64 (f p)"
  unfolding holds_def by blast

lemma holds_ok: "holds m f \<Longrightarrow> gm_ok m"
  unfolding holds_def by blast

lemma holds_Nil: "holds [] (\<lambda>_. 0)"
  by (rule holdsI) simp_all

lemma holds_get0: "holds m f \<Longrightarrow> gm_get0 m p = f p"
  by (simp add: holds_get gm_get0_def)

lemma holds_cong: "holds m f \<Longrightarrow> (\<And>p. f p = g p) \<Longrightarrow> holds m g"
  by (simp add: holds_def)

lemma holds_empty: "holds m f \<Longrightarrow> m = [] \<longleftrightarrow> (\<forall>p. f p = 0)"
proof
  assume h: "holds m f"
  show "\<forall>p. f p = 0" if m: "m = []"
  proof
    show "f p = 0" for p using holds_get [OF h, of p] m by (cases "f p = 0") simp_all
  qed
  show "m = []" if "\<forall>p. f p = 0"
  proof (rule ccontr)
    assume "m \<noteq> []"
    then obtain e where "e \<in> set m" by (cases m) auto
    then have "gm_get m (fst e) \<noteq> None" by (simp add: gm_get_eq_None del: not_None_eq)
    then show False using holds_get [OF h, of "fst e"] that by simp
  qed
qed

lemma bump_holds:
  assumes h: "holds m f"
  shows "holds (bump p v m) (\<lambda>q. if q = p then i64 (f q + v) else f q)"
proof (rule holdsI)
  show "gm_ok (bump p v m)" using holds_ok [OF h] by (simp add: bump_def Let_def)
  show "in64 (if q = p then i64 (f q + v) else f q)" for q using holds_in64 [OF h] by simp
  have z: "gm_get0 (gm_put m p (i64 (f p + v))) p = i64 (f p + v)" by (simp add: gm_get0_def)
  show "gm_get (bump p v m) q = (if (if q = p then i64 (f q + v) else f q) = 0 then None
      else Some (if q = p then i64 (f q + v) else f q))" for q
    using holds_get [OF h, of q] by (simp add: bump_def Let_def holds_get0 [OF h] z)
qed

lemma bump_term_holds:
  "holds m f \<Longrightarrow> holds (bump_term node v t m) (\<lambda>p. i64 (f p + (if on_pair node p t then v else 0)))"
proof -
  assume h: "holds m f"
  show ?thesis
  proof (cases "gm_get (labels_of node) (at_TopologyKey t)")
    case None
    then show ?thesis using h holds_in64 [OF h]
      by (auto simp: bump_term_def on_pair_def intro!: holds_cong [OF h])
  next
    case (Some w)
    then show ?thesis using holds_in64 [OF h]
      by (auto simp: bump_term_def on_pair_def intro!: holds_cong [OF bump_holds [OF h]])
  qed
qed

lemma anti_terms_holds:
  "holds m f \<Longrightarrow> holds (updateWithAntiAffinityTerms pod node terms v m) (\<lambda>p. i64 (f p + v * anti_hits pod node terms p))"
  unfolding updateWithAntiAffinityTerms_def
proof (induction terms arbitrary: m f)
  case Nil
  then show ?case using holds_in64 [OF Nil] by (auto simp: anti_hits_def intro: holds_cong [OF Nil])
next
  case (Cons t terms)
  show ?case
  proof (cases "matches_term pod t")
    case True
    then show ?thesis
      using Cons.IH [OF bump_term_holds [OF Cons.prems, of node v t]]
      by (auto simp: anti_hits_def algebra_simps intro: holds_cong)
  next
    case False
    then show ?thesis using Cons.IH [OF Cons.prems] by (simp add: anti_hits_def)
  qed
qed

lemma affinity_terms_holds:
  "holds m f \<Longrightarrow> holds (updateWithAffinityTerms pod node terms v m) (\<lambda>p. i64 (f p + v * affinity_hits pod node terms p))"
proof -
  have fold: "holds m f \<Longrightarrow> holds (fold (bump_term node v) terms m)
      (\<lambda>p. i64 (f p + v * int (length (filter (on_pair node p) terms))))" for m f
  proof (induction terms arbitrary: m f)
    case Nil
    then show ?case using holds_in64 [OF Nil] by (auto intro: holds_cong [OF Nil])
  next
    case (Cons t terms)
    then show ?case
      using Cons.IH [OF bump_term_holds [OF Cons.prems, of node v t]]
      by (auto simp: algebra_simps intro: holds_cong)
  qed
  assume h: "holds m f"
  then show ?thesis using fold [OF h] holds_in64 [OF h]
    by (auto simp: updateWithAffinityTerms_def affinity_hits_def intro: holds_cong)
qed

lemma append_holds:
  assumes a: "holds a g" "\<forall>p. 0 \<le> g p" and m: "holds m f" "\<forall>p. 0 \<le> f p" and b: "\<forall>p. f p + g p < 2 ^ 63"
  shows "holds (termcount_append m a) (\<lambda>p. f p + g p)"
proof -
  have get: "gm_get (termcount_append m' a') p =
      (case gm_get a' p of None \<Rightarrow> gm_get m' p | Some v \<Rightarrow> Some (i64 (gm_get0 m' p + v)))"
    if "gm_ok a'" for m' a' p
    unfolding termcount_append_def using that
  proof (induction a' arbitrary: m')
    case (Cons e a')
    obtain k v where e: "e = (k, v)" by (cases e) simp
    have "gm_ok a'" "gm_get a' k = None" using Cons.prems by (auto simp: e gm_ok_def gm_get_eq_None)
    then show ?case using Cons.IH [of "gm_put m' k (i64 (gm_get0 m' k + v))"]
      by (auto simp: e gm_get_Cons gm_get0_def split: option.split)
  qed simp
  have ok: "gm_ok m' \<Longrightarrow> gm_ok (termcount_append m' a')" for m' a'
    unfolding termcount_append_def by (induction a' arbitrary: m') auto
  show ?thesis
  proof (rule holdsI)
    show "gm_ok (termcount_append m a)" by (rule ok [OF holds_ok [OF m(1)]])
    fix p

    have fg: "0 \<le> f p" "0 \<le> g p" "f p + g p < 2 ^ 63" using a(2) m(2) b by blast+
    then show i: "in64 (f p + g p)" by (simp add: in64_def)
    show "gm_get (termcount_append m a) p = (if f p + g p = 0 then None else Some (f p + g p))"
      using get [OF holds_ok [OF a(1)], of m p] fg i holds_get [OF a(1), of p] holds_get [OF m(1), of p] holds_get0 [OF m(1), of p]
      by (auto split: if_splits)
  qed
qed

subsection \<open>Taking a pod out and adding it again\<close>

definition tracks_pods :: "affinityPreFilterState \<Rightarrow> (topologyPair \<Rightarrow> int) \<Rightarrow> (topologyPair \<Rightarrow> int) \<Rightarrow> (topologyPair \<Rightarrow> int) \<Rightarrow> bool" where
  "tracks_pods s f g h \<longleftrightarrow> holds (topologyToMatchedExistingAntiAffinityTerms s) f \<and>
     holds (topologyToMatchedAffinityTerms s) g \<and> holds (topologyToMatchedAntiAffinityTerms s) h"

lemma updateWithPod_tracks_pods:
  assumes "tracks_pods s f g h"
  defines "P \<equiv> ap_podInfo s"
  shows "\<exists>s'. affinity_updateWithPod asSel s pod (Some node) v = Some s' \<and> ap_podInfo s' = P \<and>
    tracks_pods s'
      (\<lambda>p. i64 (f p + v * anti_hits (pi_Pod P) node (pi_RequiredAntiAffinityTerms (NewPodInfo asSel pod)) p))
      (\<lambda>p. i64 (g p + v * affinity_hits pod node (pi_RequiredAffinityTerms P) p))
      (\<lambda>p. i64 (h p + v * anti_hits pod node (pi_RequiredAntiAffinityTerms P) p))"
  using assms anti_terms_holds affinity_terms_holds by (simp add: affinity_updateWithPod_def tracks_pods_def Let_def)

text \<open>
  Removing a pod of a node from the pre-computed state of \<open>InterPodAffinity\<close> and adding it again, as
  preemption does with a victim it reprieves, gives back a state with the same counters, also where a
  counter drops to zero and its entry is deleted, or wraps around; in the same way adding and then
  removing a pod undoes itself.\<close>

theorem affinity_update_roundtrip:
  assumes "tracks_pods s f g h" "v = 1 \<or> v = - 1"
  shows "\<exists>s1 s2. affinity_updateWithPod asSel s pod (Some node) v = Some s1 \<and>
    affinity_updateWithPod asSel s1 pod (Some node) (- v) = Some s2 \<and> ap_podInfo s2 = ap_podInfo s \<and>
    gm_get (topologyToMatchedExistingAntiAffinityTerms s2) = gm_get (topologyToMatchedExistingAntiAffinityTerms s) \<and>
    gm_get (topologyToMatchedAffinityTerms s2) = gm_get (topologyToMatchedAffinityTerms s) \<and>
    gm_get (topologyToMatchedAntiAffinityTerms s2) = gm_get (topologyToMatchedAntiAffinityTerms s)"
proof -
  have same: "gm_get a = gm_get b" if "holds a x" "holds b y" "\<And>p. x p = y p" for a b x y
    using holds_get [OF that(1)] holds_get [OF that(2)] that(3) by (auto simp: fun_eq_iff)
  have undo: "i64 (i64 (x p + v * k) + (- v) * k) = x p" if "holds m x" for m x p k
    using holds_in64 [OF that, of p] by (simp add: algebra_simps)
  obtain s1 where s1: "affinity_updateWithPod asSel s pod (Some node) v = Some s1" "ap_podInfo s1 = ap_podInfo s"
    "tracks_pods s1
      (\<lambda>p. i64 (f p + v * anti_hits (pi_Pod (ap_podInfo s)) node (pi_RequiredAntiAffinityTerms (NewPodInfo asSel pod)) p))
      (\<lambda>p. i64 (g p + v * affinity_hits pod node (pi_RequiredAffinityTerms (ap_podInfo s)) p))
      (\<lambda>p. i64 (h p + v * anti_hits pod node (pi_RequiredAntiAffinityTerms (ap_podInfo s)) p))"
    using updateWithPod_tracks_pods [OF assms(1), of asSel pod node v] by blast
  then obtain s2 where s2: "affinity_updateWithPod asSel s1 pod (Some node) (- v) = Some s2" "ap_podInfo s2 = ap_podInfo s1"
    "tracks_pods s2
      (\<lambda>p. i64 (i64 (f p + v * anti_hits (pi_Pod (ap_podInfo s)) node (pi_RequiredAntiAffinityTerms (NewPodInfo asSel pod)) p)
        + (- v) * anti_hits (pi_Pod (ap_podInfo s)) node (pi_RequiredAntiAffinityTerms (NewPodInfo asSel pod)) p))
      (\<lambda>p. i64 (i64 (g p + v * affinity_hits pod node (pi_RequiredAffinityTerms (ap_podInfo s)) p)
        + (- v) * affinity_hits pod node (pi_RequiredAffinityTerms (ap_podInfo s)) p))
      (\<lambda>p. i64 (i64 (h p + v * anti_hits pod node (pi_RequiredAntiAffinityTerms (ap_podInfo s)) p)
        + (- v) * anti_hits pod node (pi_RequiredAntiAffinityTerms (ap_podInfo s)) p))"
    using updateWithPod_tracks_pods [OF s1(3), of asSel pod node "- v"] s1(2) by auto
  have t: "holds (topologyToMatchedExistingAntiAffinityTerms s) f" "holds (topologyToMatchedAffinityTerms s) g"
      "holds (topologyToMatchedAntiAffinityTerms s) h"
    using assms(1) by (simp_all add: tracks_pods_def)
  note h = s2(3) [unfolded tracks_pods_def]
  have "gm_get (topologyToMatchedExistingAntiAffinityTerms s2) = gm_get (topologyToMatchedExistingAntiAffinityTerms s)"
    by (rule same [OF h [THEN conjunct1] t(1)]) (rule undo [OF t(1)])
  moreover have "gm_get (topologyToMatchedAffinityTerms s2) = gm_get (topologyToMatchedAffinityTerms s)"
    by (rule same [OF h [THEN conjunct2, THEN conjunct1] t(2)]) (rule undo [OF t(2)])
  moreover have "gm_get (topologyToMatchedAntiAffinityTerms s2) = gm_get (topologyToMatchedAntiAffinityTerms s)"
    by (rule same [OF h [THEN conjunct2, THEN conjunct2] t(3)]) (rule undo [OF t(3)])
  ultimately show ?thesis using s1(1,2) s2(1,2) by auto
qed

subsection \<open>The counters of a cluster\<close>

lemma sum_list_hits_nonneg: "(\<And>x. x \<in> set xs \<Longrightarrow> 0 \<le> (f x :: int)) \<Longrightarrow> 0 \<le> (\<Sum>x\<leftarrow>xs. f x)"
  by (rule sum_list_nonneg) auto

lemma fold_holds:
  assumes "\<And>x m f. holds m f \<Longrightarrow> holds (step x m) (\<lambda>p. i64 (f p + k x p))"
  shows "holds m f \<Longrightarrow> holds (fold step xs m) (\<lambda>p. i64 (f p + (\<Sum>x\<leftarrow>xs. k x p)))"
proof (induction xs arbitrary: m f)
  case Nil
  then show ?case using holds_in64 [OF Nil] by (auto intro: holds_cong [OF Nil])
next
  case (Cons x xs)
  show ?case using Cons.IH [OF assms [OF Cons.prems, of x]] by (auto simp: algebra_simps intro: holds_cong)
qed

text \<open>Appending the maps of the pieces, in any order; an empty map may be left out.\<close>

lemma append_all_holds:
  assumes "\<And>x. x \<in> set xs \<Longrightarrow> holds (piece x) (k x)" "\<And>x p. x \<in> set xs \<Longrightarrow> 0 \<le> k x p"
    and "holds m f" "\<And>p. 0 \<le> f p" "\<And>p. f p + (\<Sum>x\<leftarrow>xs. k x p) < 2 ^ 63"
  shows "holds (fold (\<lambda>x m. termcount_append m (piece x)) (filter (\<lambda>x. keep x \<or> piece x \<noteq> []) xs) m)
    (\<lambda>p. f p + (\<Sum>x\<leftarrow>xs. k x p))"
  using assms
proof (induction xs arbitrary: m f)
  case (Cons x xs)
  have px: "holds (piece x) (k x)" "\<forall>p. 0 \<le> k x p" using Cons.prems by auto
  have rest: "0 \<le> (\<Sum>x\<leftarrow>xs. k x p)" for p using Cons.prems(2) by (intro sum_list_hits_nonneg) auto
  have "f p + k x p < 2 ^ 63" for p using Cons.prems(5) [of p] rest [of p] by simp
  then have a: "holds (termcount_append m (piece x)) (\<lambda>p. f p + k x p)"
    using append_holds [OF px Cons.prems(3)] Cons.prems(4) by blast
  have e: "termcount_append m [] = m" by (simp add: termcount_append_def)
  have IH: "holds (fold (\<lambda>x m. termcount_append m (piece x)) (filter (\<lambda>x. keep x \<or> piece x \<noteq> []) xs) (termcount_append m (piece x)))
    (\<lambda>p. f p + k x p + (\<Sum>x\<leftarrow>xs. k x p))"
    by (rule Cons.IH [OF _ _ a]) (use Cons.prems px(2) in \<open>auto simp: algebra_simps\<close>)
  then show ?case using e by (auto simp: algebra_simps intro: holds_cong)
qed simp

text \<open>What the pods of a node put on a pair.\<close>

definition ex_hits :: "Pod \<Rightarrow> NodeInfo \<Rightarrow> topologyPair \<Rightarrow> int" where
  "ex_hits pod n p = (case ni_node n of None \<Rightarrow> 0
    | Some node \<Rightarrow> \<Sum>q\<leftarrow>ni_PodsWithAffinity n. anti_hits pod node (pi_RequiredAntiAffinityTerms q) p)"

definition in_hits :: "PodInfo \<Rightarrow> NodeInfo \<Rightarrow> topologyPair \<Rightarrow> int" where
  "in_hits info n p = (case ni_node n of None \<Rightarrow> 0
    | Some node \<Rightarrow> \<Sum>q\<leftarrow>ni_Pods n. affinity_hits (pi_Pod q) node (pi_RequiredAffinityTerms info) p)"

definition out_hits :: "PodInfo \<Rightarrow> NodeInfo \<Rightarrow> topologyPair \<Rightarrow> int" where
  "out_hits info n p = (case ni_node n of None \<Rightarrow> 0
    | Some node \<Rightarrow> \<Sum>q\<leftarrow>ni_Pods n. anti_hits (pi_Pod q) node (pi_RequiredAntiAffinityTerms info) p)"

text \<open>A bound on all of them: the number of terms that are looked at.\<close>

definition node_terms :: "PodInfo \<Rightarrow> NodeInfo \<Rightarrow> int" where
  "node_terms info n = (\<Sum>q\<leftarrow>ni_Pods n. int (length (pi_RequiredAffinityTerms info) +
     length (pi_RequiredAntiAffinityTerms info) + length (pi_RequiredAntiAffinityTerms q)))"

definition cluster_terms :: "PodInfo \<Rightarrow> NodeInfo list \<Rightarrow> int" where
  "cluster_terms info nodes = (\<Sum>n\<leftarrow>nodes. node_terms info n)"

lemma hits_bounds:
  "0 \<le> anti_hits pod node terms p" "anti_hits pod node terms p \<le> int (length terms)"
  "0 \<le> affinity_hits pod node terms p" "affinity_hits pod node terms p \<le> int (length terms)"
  by (auto simp: anti_hits_def affinity_hits_def)

lemma sum_list_le: "(\<And>x. x \<in> set xs \<Longrightarrow> f x \<le> (g x :: int)) \<Longrightarrow> (\<Sum>x\<leftarrow>xs. f x) \<le> (\<Sum>x\<leftarrow>xs. g x)"
  by (induction xs) (auto intro: add_mono)

lemma sum_list_filter_le: "(\<And>x. 0 \<le> (f x :: int)) \<Longrightarrow> (\<Sum>x\<leftarrow>filter P xs. f x) \<le> (\<Sum>x\<leftarrow>xs. f x)"
  by (induction xs) (auto intro: add_increasing)

lemma sum_list_mset_eq: "mset xs = mset ys \<Longrightarrow> (\<Sum>x\<leftarrow>xs. (f x :: int)) = (\<Sum>x\<leftarrow>ys. f x)"
  by (simp only: sum_mset_sum_list [symmetric] mset_map)

lemma ex_hits_bounds:
  assumes "pods_ok n"
  shows "0 \<le> ex_hits pod n p \<and> ex_hits pod n p \<le> node_terms info n"
proof -
  let ?f = "\<lambda>q. int (length (pi_RequiredAntiAffinityTerms q))"
  have "mset (ni_PodsWithAffinity n) = mset (filter (\<lambda>p. has_affinity (pi_Pod p)) (ni_Pods n))"
    using assms by (simp add: pods_ok_def)
  then have "(\<Sum>q\<leftarrow>ni_PodsWithAffinity n. ?f q) = (\<Sum>q\<leftarrow>filter (\<lambda>p. has_affinity (pi_Pod p)) (ni_Pods n). ?f q)"
    by (rule sum_list_mset_eq)
  also have "\<dots> \<le> (\<Sum>q\<leftarrow>ni_Pods n. ?f q)" by (rule sum_list_filter_le) simp
  also have "\<dots> \<le> node_terms info n" unfolding node_terms_def by (rule sum_list_le) simp
  finally have "(\<Sum>q\<leftarrow>ni_PodsWithAffinity n. anti_hits pod node (pi_RequiredAntiAffinityTerms q) p) \<le> node_terms info n" for node
    using sum_list_le [of "ni_PodsWithAffinity n" "\<lambda>q. anti_hits pod node (pi_RequiredAntiAffinityTerms q) p" ?f] hits_bounds(2)
    by (meson order_trans)
  moreover have "0 \<le> node_terms info n" unfolding node_terms_def by (rule sum_list_hits_nonneg) simp
  ultimately show ?thesis
    by (auto simp: ex_hits_def hits_bounds split: option.split intro!: sum_list_hits_nonneg)
qed

lemma in_out_hits_bounds:
  "0 \<le> in_hits info n p" "in_hits info n p \<le> node_terms info n"
  "0 \<le> out_hits info n p" "out_hits info n p \<le> node_terms info n"
proof -
  have "0 \<le> node_terms info n" unfolding node_terms_def by (rule sum_list_hits_nonneg) simp
  moreover have "(\<Sum>q\<leftarrow>ni_Pods n. affinity_hits (pi_Pod q) node (pi_RequiredAffinityTerms info) p) \<le> node_terms info n" for node
    unfolding node_terms_def by (rule sum_list_le) (use hits_bounds(4) in \<open>simp add: add_increasing2\<close>)
  moreover have "(\<Sum>q\<leftarrow>ni_Pods n. anti_hits (pi_Pod q) node (pi_RequiredAntiAffinityTerms info) p) \<le> node_terms info n" for node
    unfolding node_terms_def
  proof (rule sum_list_le)
    show "anti_hits (pi_Pod q) node (pi_RequiredAntiAffinityTerms info) p \<le> int (length (pi_RequiredAffinityTerms info) +
        length (pi_RequiredAntiAffinityTerms info) + length (pi_RequiredAntiAffinityTerms q))" for q
      using hits_bounds(2) [of "pi_Pod q" node "pi_RequiredAntiAffinityTerms info" p] by simp
  qed
  ultimately show "0 \<le> in_hits info n p" "in_hits info n p \<le> node_terms info n"
    "0 \<le> out_hits info n p" "out_hits info n p \<le> node_terms info n"
    by (auto simp: in_hits_def out_hits_def hits_bounds split: option.split intro!: sum_list_hits_nonneg)
qed

lemma node_terms_le: "n \<in> set nodes \<Longrightarrow> node_terms info n \<le> cluster_terms info nodes"
  unfolding cluster_terms_def
  by (rule member_le_sum_list) (auto simp: node_terms_def intro: sum_list_hits_nonneg)

lemma i64_small: "0 \<le> x \<Longrightarrow> x < 2 ^ 63 \<Longrightarrow> i64 x = x"
  by (rule i64_id) (simp add: in64_def)

lemma existing_piece_holds:
  assumes "pods_ok n" "node_terms info n < 2 ^ 63"
  shows "holds (existing_piece pod n) (ex_hits pod n)"
proof (cases "ni_node n")
  case None
  then show ?thesis using holds_Nil by (simp add: existing_piece_def ex_hits_def [abs_def])
next
  case (Some node)
  have "holds (fold (\<lambda>q. updateWithAntiAffinityTerms pod node (pi_RequiredAntiAffinityTerms q) 1) (ni_PodsWithAffinity n) [])
      (\<lambda>p. i64 (0 + (\<Sum>q\<leftarrow>ni_PodsWithAffinity n. anti_hits pod node (pi_RequiredAntiAffinityTerms q) p)))"
    by (rule fold_holds [OF _ holds_Nil]) (use anti_terms_holds [where v = 1] in simp)
  moreover have "i64 (0 + (\<Sum>q\<leftarrow>ni_PodsWithAffinity n. anti_hits pod node (pi_RequiredAntiAffinityTerms q) p)) = ex_hits pod n p" for p
    using ex_hits_bounds [OF assms(1), of pod p info] assms(2) Some by (simp add: ex_hits_def i64_small)
  ultimately show ?thesis using Some by (auto simp: existing_piece_def intro: holds_cong)
qed

lemma fold_pair: "fold (\<lambda>x (a, b). (f x a, g x b)) xs (a, b) = (fold f xs a, fold g xs b)"
  by (induction xs arbitrary: a b) auto

lemma incoming_piece_holds:
  assumes "node_terms info n < 2 ^ 63"
  shows "holds (fst (incoming_piece info n)) (in_hits info n)" "holds (snd (incoming_piece info n)) (out_hits info n)"
proof -
  show "holds (fst (incoming_piece info n)) (in_hits info n)"
  proof (cases "ni_node n")
    case None
    then show ?thesis using holds_Nil by (simp add: incoming_piece_def in_hits_def [abs_def])
  next
    case (Some node)
    have "holds (fold (\<lambda>q. updateWithAffinityTerms (pi_Pod q) node (pi_RequiredAffinityTerms info) 1) (ni_Pods n) [])
        (\<lambda>p. i64 (0 + (\<Sum>q\<leftarrow>ni_Pods n. affinity_hits (pi_Pod q) node (pi_RequiredAffinityTerms info) p)))"
      by (rule fold_holds [OF _ holds_Nil]) (use affinity_terms_holds [where v = 1] in simp)
    moreover have "i64 (0 + (\<Sum>q\<leftarrow>ni_Pods n. affinity_hits (pi_Pod q) node (pi_RequiredAffinityTerms info) p)) = in_hits info n p" for p
      using in_out_hits_bounds [of info n p] assms Some by (simp add: in_hits_def i64_small)
    ultimately show ?thesis using Some by (auto simp: incoming_piece_def fold_pair intro: holds_cong)
  qed
  show "holds (snd (incoming_piece info n)) (out_hits info n)"
  proof (cases "ni_node n")
    case None
    then show ?thesis using holds_Nil by (simp add: incoming_piece_def out_hits_def [abs_def])
  next
    case (Some node)
    have "holds (fold (\<lambda>q. updateWithAntiAffinityTerms (pi_Pod q) node (pi_RequiredAntiAffinityTerms info) 1) (ni_Pods n) [])
        (\<lambda>p. i64 (0 + (\<Sum>q\<leftarrow>ni_Pods n. anti_hits (pi_Pod q) node (pi_RequiredAntiAffinityTerms info) p)))"
      by (rule fold_holds [OF _ holds_Nil]) (use anti_terms_holds [where v = 1] in simp)
    moreover have "i64 (0 + (\<Sum>q\<leftarrow>ni_Pods n. anti_hits (pi_Pod q) node (pi_RequiredAntiAffinityTerms info) p)) = out_hits info n p" for p
      using in_out_hits_bounds [of info n p] assms Some by (simp add: out_hits_def i64_small)
    ultimately show ?thesis using Some by (auto simp: incoming_piece_def fold_pair intro: holds_cong)
  qed
qed

lemma order_mset: "mset order = mset [0..<length xs] \<Longrightarrow> mset (map ((!) xs) order) = mset xs"
  by (metis map_nth mset_map)

lemma existing_map_holds:
  assumes "\<forall>n\<in>set nodes. pods_ok n" "cluster_terms info nodes < 2 ^ 63" "mset order = mset [0..<length nodes]"
  shows "holds (getTPMapMatchingExistingAntiAffinity order pod nodes) (\<lambda>p. \<Sum>n\<leftarrow>nodes. ex_hits pod n p)"
proof -
  let ?nodes = "map ((!) nodes) order"
  have ms: "mset ?nodes = mset nodes" by (rule order_mset [OF assms(3)])
  have st: "set ?nodes = set nodes" by (rule mset_eq_setD [OF ms])
  have "holds (fold (\<lambda>n m. termcount_append m (existing_piece pod n)) (filter (\<lambda>n. False \<or> existing_piece pod n \<noteq> []) ?nodes) [])
      (\<lambda>p. 0 + (\<Sum>n\<leftarrow>?nodes. ex_hits pod n p))"
  proof (rule append_all_holds [OF _ _ holds_Nil])
    fix n assume "n \<in> set ?nodes"
    then have n: "pods_ok n" "n \<in> set nodes" using assms(1) unfolding st by auto
    then show "holds (existing_piece pod n) (ex_hits pod n)"
      using existing_piece_holds [OF n(1), of info pod] node_terms_le [OF n(2), of info] assms(2) by simp
    show "0 \<le> ex_hits pod n p" for p using ex_hits_bounds [OF n(1)] by simp
  next
    fix p
    have "(\<Sum>n\<leftarrow>?nodes. ex_hits pod n p) = (\<Sum>n\<leftarrow>nodes. ex_hits pod n p)" by (rule sum_list_mset_eq [OF ms])
    also have "\<dots> \<le> cluster_terms info nodes"
      unfolding cluster_terms_def by (rule sum_list_le) (use assms(1) ex_hits_bounds in blast)
    finally show "0 + (\<Sum>n\<leftarrow>?nodes. ex_hits pod n p) < 2 ^ 63" using assms(2) by simp
  qed simp
  moreover have "(\<Sum>n\<leftarrow>?nodes. ex_hits pod n p) = (\<Sum>n\<leftarrow>nodes. ex_hits pod n p)" for p by (rule sum_list_mset_eq [OF ms])
  ultimately show ?thesis
    by (simp add: getTPMapMatchingExistingAntiAffinity_def filter_map fold_map o_def)
qed

lemma incoming_maps_hold:
  assumes "cluster_terms info nodes < 2 ^ 63" "mset order = mset [0..<length nodes]"
    and m: "getTPMapMatchingIncomingAffinityAntiAffinity order info nodes = (a, b)"
  shows "holds a (\<lambda>p. \<Sum>n\<leftarrow>nodes. in_hits info n p)" "holds b (\<lambda>p. \<Sum>n\<leftarrow>nodes. out_hits info n p)"
proof -
  let ?nodes = "map ((!) nodes) order"
  let ?P = "\<lambda>n. incoming_piece info n"
  let ?keep = "\<lambda>n. length (fst (?P n)) > 0 \<or> length (snd (?P n)) > 0"
  have ms: "mset ?nodes = mset nodes" by (rule order_mset [OF assms(2)])
  have st: "set ?nodes = set nodes" by (rule mset_eq_setD [OF ms])
  have piece: "node_terms info n < 2 ^ 63" if "n \<in> set ?nodes" for n
    using that node_terms_le [of n nodes info] assms(1) unfolding st by simp
  have sum: "(\<Sum>n\<leftarrow>?nodes. k n p) = (\<Sum>n\<leftarrow>nodes. k n p)" for k :: "NodeInfo \<Rightarrow> topologyPair \<Rightarrow> int" and p
    by (rule sum_list_mset_eq [OF ms])
  have bound: "0 + (\<Sum>n\<leftarrow>?nodes. k n p) < 2 ^ 63" if "\<And>n. k n p \<le> node_terms info n"
    for k :: "NodeInfo \<Rightarrow> topologyPair \<Rightarrow> int" and p
  proof -
    have "(\<Sum>n\<leftarrow>nodes. k n p) \<le> cluster_terms info nodes"
      unfolding cluster_terms_def by (rule sum_list_le) (rule that)
    then show ?thesis unfolding sum using assms(1) by linarith
  qed
  have fst': "holds (fold (\<lambda>n m. termcount_append m (fst (?P n))) (filter (\<lambda>n. snd (?P n) \<noteq> [] \<or> fst (?P n) \<noteq> []) ?nodes) [])
      (\<lambda>p. 0 + (\<Sum>n\<leftarrow>?nodes. in_hits info n p))"
    by (rule append_all_holds [OF _ _ holds_Nil])
      (simp_all only: incoming_piece_holds piece in_out_hits_bounds bound order_refl)
  have snd': "holds (fold (\<lambda>n m. termcount_append m (snd (?P n))) (filter (\<lambda>n. fst (?P n) \<noteq> [] \<or> snd (?P n) \<noteq> []) ?nodes) [])
      (\<lambda>p. 0 + (\<Sum>n\<leftarrow>?nodes. out_hits info n p))"
    by (rule append_all_holds [OF _ _ holds_Nil])
      (simp_all only: incoming_piece_holds piece in_out_hits_bounds bound order_refl)
  show "holds a (\<lambda>p. \<Sum>n\<leftarrow>nodes. in_hits info n p)" "holds b (\<lambda>p. \<Sum>n\<leftarrow>nodes. out_hits info n p)"
  proof -
    have "holds a (\<lambda>p. \<Sum>n\<leftarrow>nodes. in_hits info n p) \<and> holds b (\<lambda>p. \<Sum>n\<leftarrow>nodes. out_hits info n p)"
    proof (cases "length (pi_RequiredAffinityTerms info) = 0 \<and> length (pi_RequiredAntiAffinityTerms info) = 0")
      case True
      then have "in_hits info n p = 0" "out_hits info n p = 0" for n p
        by (auto simp: in_hits_def out_hits_def affinity_hits_def anti_hits_def podMatchesAllAffinityTerms_def split: option.split)
      then show ?thesis using True m holds_Nil by (simp add: getTPMapMatchingIncomingAffinityAntiAffinity_def)
    next
      case False
      have pair: "fold (\<lambda>(x, y) (a, b). (termcount_append a x, termcount_append b y)) l (a0, b0) =
          (fold (\<lambda>z m. termcount_append m (fst z)) l a0, fold (\<lambda>z m. termcount_append m (snd z)) l b0)" for l a0 b0
        by (induction l arbitrary: a0 b0) auto
      have "a = fold (\<lambda>n m. termcount_append m (fst (?P n))) (filter ?keep ?nodes) []"
        "b = fold (\<lambda>n m. termcount_append m (snd (?P n))) (filter ?keep ?nodes) []"
        using m False by (auto simp: getTPMapMatchingIncomingAffinityAntiAffinity_def pair filter_map fold_map o_def case_prod_beta)
      moreover have "?keep = (\<lambda>n. snd (?P n) \<noteq> [] \<or> fst (?P n) \<noteq> [])" "?keep = (\<lambda>n. fst (?P n) \<noteq> [] \<or> snd (?P n) \<noteq> [])"
        by (auto simp: fun_eq_iff)
      ultimately show ?thesis using fst' snd' by (simp only: sum add_0)
    qed
    then show "holds a (\<lambda>p. \<Sum>n\<leftarrow>nodes. in_hits info n p)" "holds b (\<lambda>p. \<Sum>n\<leftarrow>nodes. out_hits info n p)" by auto
  qed
qed

subsection \<open>The filter\<close>

text \<open>A pod that matches all affinity terms, or one anti-affinity term, on a node with a given topology value.\<close>

definition affinity_pod_at :: "PodInfo \<Rightarrow> NodeInfo list \<Rightarrow> string \<Rightarrow> string \<Rightarrow> bool" where
  "affinity_pod_at info nodes k v \<longleftrightarrow> (\<exists>n\<in>set nodes. \<exists>node. ni_node n = Some node \<and> gm_get (labels_of node) k = Some v \<and>
     (\<exists>q\<in>set (ni_Pods n). podMatchesAllAffinityTerms (pi_Pod q) (pi_RequiredAffinityTerms info)))"

definition anti_pod_at :: "AffinityTerm \<Rightarrow> NodeInfo list \<Rightarrow> string \<Rightarrow> bool" where
  "anti_pod_at t nodes v \<longleftrightarrow> (\<exists>n\<in>set nodes. \<exists>node. ni_node n = Some node \<and> gm_get (labels_of node) (at_TopologyKey t) = Some v \<and>
     (\<exists>q\<in>set (ni_Pods n). matches_term (pi_Pod q) t))"

definition affinity_ok :: "PodInfo \<Rightarrow> NodeInfo list \<Rightarrow> Node \<Rightarrow> bool" where
  "affinity_ok info nodes node \<longleftrightarrow> (let terms = pi_RequiredAffinityTerms info in
     (\<forall>t\<in>set terms. gm_has (labels_of node) (at_TopologyKey t)) \<and>
     ((\<forall>t\<in>set terms. \<forall>v. gm_get (labels_of node) (at_TopologyKey t) = Some v \<longrightarrow> affinity_pod_at info nodes (at_TopologyKey t) v) \<or>
      podMatchesAllAffinityTerms (pi_Pod info) terms \<and> (\<forall>t\<in>set terms. \<forall>v. \<not> affinity_pod_at info nodes (at_TopologyKey t) v)))"

definition anti_affinity_ok :: "PodInfo \<Rightarrow> NodeInfo list \<Rightarrow> Node \<Rightarrow> bool" where
  "anti_affinity_ok info nodes node \<longleftrightarrow> (\<forall>t\<in>set (pi_RequiredAntiAffinityTerms info). \<forall>v.
     gm_get (labels_of node) (at_TopologyKey t) = Some v \<longrightarrow> \<not> anti_pod_at t nodes v)"

text \<open>No pod of the cluster has an anti-affinity term that the pod matches and that reaches the node.\<close>

definition existing_ok :: "Pod \<Rightarrow> NodeInfo list \<Rightarrow> Node \<Rightarrow> bool" where
  "existing_ok pod nodes node \<longleftrightarrow> (\<forall>n\<in>set nodes. \<forall>nd. ni_node n = Some nd \<longrightarrow> (\<forall>q\<in>set (ni_Pods n).
     \<forall>t\<in>set (pi_RequiredAntiAffinityTerms q). matches_term pod t \<longrightarrow>
       (\<forall>v. gm_get (labels_of nd) (at_TopologyKey t) = Some v \<longrightarrow> gm_get (labels_of node) (at_TopologyKey t) \<noteq> Some v)))"

lemma sum_list_pos: "(\<And>x. x \<in> set xs \<Longrightarrow> 0 \<le> (f x :: int)) \<Longrightarrow> 0 < (\<Sum>x\<leftarrow>xs. f x) \<longleftrightarrow> (\<exists>x\<in>set xs. 0 < f x)"
proof (induction xs)
  case (Cons x xs)
  have "0 \<le> f x" "0 \<le> (\<Sum>x\<leftarrow>xs. f x)" using Cons.prems by (auto intro: sum_list_hits_nonneg)
  then show ?case using Cons by (auto simp: add_pos_nonneg add_nonneg_pos)
qed simp

lemma in_hits_pos: "0 < (\<Sum>n\<leftarrow>nodes. in_hits info n (k, v)) \<longleftrightarrow>
    affinity_pod_at info nodes k v \<and> (\<exists>t\<in>set (pi_RequiredAffinityTerms info). at_TopologyKey t = k)"
proof -
  have "0 < in_hits info n (k, v) \<longleftrightarrow> (\<exists>node. ni_node n = Some node \<and> gm_get (labels_of node) k = Some v \<and>
      (\<exists>q\<in>set (ni_Pods n). podMatchesAllAffinityTerms (pi_Pod q) (pi_RequiredAffinityTerms info))) \<and>
      (\<exists>t\<in>set (pi_RequiredAffinityTerms info). at_TopologyKey t = k)" for n
    by (auto simp: in_hits_def sum_list_pos hits_bounds affinity_hits_def on_pair_def filter_empty_conv split: option.split)
  then show ?thesis by (auto simp: sum_list_pos in_out_hits_bounds affinity_pod_at_def)
qed

lemma out_hits_pos: "0 < (\<Sum>n\<leftarrow>nodes. out_hits info n (k, v)) \<longleftrightarrow>
    (\<exists>t\<in>set (pi_RequiredAntiAffinityTerms info). at_TopologyKey t = k \<and> anti_pod_at t nodes v)"
proof -
  have "0 < out_hits info n (k, v) \<longleftrightarrow> (\<exists>node. ni_node n = Some node \<and> gm_get (labels_of node) k = Some v \<and>
      (\<exists>q\<in>set (ni_Pods n). \<exists>t\<in>set (pi_RequiredAntiAffinityTerms info). at_TopologyKey t = k \<and> matches_term (pi_Pod q) t))" for n
    by (auto simp: out_hits_def sum_list_pos hits_bounds anti_hits_def on_pair_def filter_empty_conv split: option.split)
  then show ?thesis by (auto simp: sum_list_pos in_out_hits_bounds anti_pod_at_def)
qed

lemma ex_hits_pos:
  assumes "\<forall>n\<in>set nodes. pods_ok n \<and> (\<forall>q\<in>set (ni_Pods n). pi_RequiredAntiAffinityTerms q \<noteq> [] \<longrightarrow> has_affinity (pi_Pod q))"
  shows "0 < (\<Sum>n\<leftarrow>nodes. ex_hits pod n (k, v)) \<longleftrightarrow> (\<exists>n\<in>set nodes. \<exists>nd. ni_node n = Some nd \<and> gm_get (labels_of nd) k = Some v \<and>
    (\<exists>q\<in>set (ni_Pods n). \<exists>t\<in>set (pi_RequiredAntiAffinityTerms q). at_TopologyKey t = k \<and> matches_term pod t))"
proof -
  have "0 < ex_hits pod n (k, v) \<longleftrightarrow> (\<exists>nd. ni_node n = Some nd \<and> gm_get (labels_of nd) k = Some v \<and>
    (\<exists>q\<in>set (ni_Pods n). \<exists>t\<in>set (pi_RequiredAntiAffinityTerms q). at_TopologyKey t = k \<and> matches_term pod t))"
    if n: "n \<in> set nodes" for n
  proof -
    have st: "set (ni_PodsWithAffinity n) = {p \<in> set (ni_Pods n). has_affinity (pi_Pod p)}"
      using assms n by (intro set_affinity) blast
    show ?thesis
    proof (cases "ni_node n")
      case (Some nd)
      have "0 < ex_hits pod n (k, v) \<longleftrightarrow> (\<exists>q\<in>set (ni_PodsWithAffinity n). \<exists>t\<in>set (pi_RequiredAntiAffinityTerms q).
          matches_term pod t \<and> on_pair nd (k, v) t)"
        using Some by (simp add: ex_hits_def sum_list_pos hits_bounds) (simp add: anti_hits_def filter_empty_conv)
      also have "\<dots> \<longleftrightarrow> (\<exists>q\<in>set (ni_Pods n). \<exists>t\<in>set (pi_RequiredAntiAffinityTerms q).
          matches_term pod t \<and> on_pair nd (k, v) t)"
      proof -
        have "has_affinity (pi_Pod q)" if "q \<in> set (ni_Pods n)" "t \<in> set (pi_RequiredAntiAffinityTerms q)" for q t
          using assms n that by (metis empty_iff empty_set)
        then show ?thesis unfolding st by blast
      qed
      finally show ?thesis using Some by (auto simp: on_pair_def)
    qed (simp add: ex_hits_def)
  qed
  moreover have "0 \<le> ex_hits pod n p" if "n \<in> set nodes" for n p using ex_hits_bounds assms that by blast
  ultimately show ?thesis by (simp add: sum_list_pos)
qed


lemma pods_exist_eq:
  "pods_exist s node ts b =
    (if \<forall>t\<in>set ts. gm_has (labels_of node) (at_TopologyKey t)
     then Some (b \<and> (\<forall>t\<in>set ts. \<forall>v. gm_get (labels_of node) (at_TopologyKey t) = Some v \<longrightarrow>
       0 < gm_get0 (topologyToMatchedAffinityTerms s) (at_TopologyKey t, v)))
     else None)"
  by (induction ts arbitrary: b) (auto simp: gm_has_def split: option.split)

lemma satisfyPodAffinity_iff:
  assumes "holds (topologyToMatchedAffinityTerms s) (\<lambda>p. \<Sum>n\<leftarrow>nodes. in_hits (ap_podInfo s) n p)"
  shows "satisfyPodAffinity s node \<longleftrightarrow> affinity_ok (ap_podInfo s) nodes node"
proof -
  have e: "topologyToMatchedAffinityTerms s = [] \<longleftrightarrow>
      (\<forall>t\<in>set (pi_RequiredAffinityTerms (ap_podInfo s)). \<forall>v. \<not> affinity_pod_at (ap_podInfo s) nodes (at_TopologyKey t) v)"
  proof -
    have z: "(\<Sum>n\<leftarrow>nodes. in_hits (ap_podInfo s) n p) = 0 \<longleftrightarrow> \<not> 0 < (\<Sum>n\<leftarrow>nodes. in_hits (ap_podInfo s) n p)" for p
      using sum_list_hits_nonneg [of nodes "\<lambda>n. in_hits (ap_podInfo s) n p"] in_out_hits_bounds(1) by fastforce
    show ?thesis unfolding holds_empty [OF assms] z by (auto simp: in_hits_pos)
  qed
  show ?thesis
    by (auto simp: satisfyPodAffinity_def affinity_ok_def pods_exist_eq holds_get0 [OF assms] in_hits_pos e Let_def)
qed

lemma satisfyPodAntiAffinity_iff:
  assumes "holds (topologyToMatchedAntiAffinityTerms s) (\<lambda>p. \<Sum>n\<leftarrow>nodes. out_hits (ap_podInfo s) n p)"
  shows "satisfyPodAntiAffinity s node \<longleftrightarrow> (\<forall>t\<in>set (pi_RequiredAntiAffinityTerms (ap_podInfo s)). \<forall>v.
     gm_get (labels_of node) (at_TopologyKey t) = Some v \<longrightarrow>
     (\<forall>u\<in>set (pi_RequiredAntiAffinityTerms (ap_podInfo s)). at_TopologyKey u = at_TopologyKey t \<longrightarrow> \<not> anti_pod_at u nodes v))"
proof -
  have "satisfyPodAntiAffinity s node \<longleftrightarrow> (\<forall>t\<in>set (pi_RequiredAntiAffinityTerms (ap_podInfo s)). \<forall>v.
      gm_get (labels_of node) (at_TopologyKey t) = Some v \<longrightarrow>
      \<not> 0 < (\<Sum>n\<leftarrow>nodes. out_hits (ap_podInfo s) n (at_TopologyKey t, v)))"
    by (auto simp: satisfyPodAntiAffinity_def list_all_iff holds_get0 [OF assms] split: option.split)
  then show ?thesis unfolding out_hits_pos by blast
qed

lemma satisfyPodAntiAffinity_ok:
  assumes "holds (topologyToMatchedAntiAffinityTerms s) (\<lambda>p. \<Sum>n\<leftarrow>nodes. out_hits (ap_podInfo s) n p)"
  shows "satisfyPodAntiAffinity s node \<longleftrightarrow> anti_affinity_ok (ap_podInfo s) nodes node"
  unfolding satisfyPodAntiAffinity_iff [OF assms] anti_affinity_ok_def by metis

lemma gm_ok_all: "gm_ok m \<Longrightarrow> list_all P m \<longleftrightarrow> (\<forall>k v. gm_get m k = Some v \<longrightarrow> P (k, v))"
  by (force simp: list_all_iff gm_get_def gm_ok_def)

lemma satisfyExisting_iff:
  assumes h: "holds (topologyToMatchedExistingAntiAffinityTerms s) (\<lambda>p. \<Sum>n\<leftarrow>nodes. ex_hits pod n p)"
    and ok: "\<forall>n\<in>set nodes. pods_ok n \<and> (\<forall>q\<in>set (ni_Pods n). pi_RequiredAntiAffinityTerms q \<noteq> [] \<longrightarrow> has_affinity (pi_Pod q))"
    and l: "gm_ok (labels_of node)"
  shows "satisfyExistingPodsAntiAffinity s node \<longleftrightarrow> existing_ok pod nodes node"
proof -
  have "satisfyExistingPodsAntiAffinity s node \<longleftrightarrow>
      (\<forall>k v. gm_get (labels_of node) k = Some v \<longrightarrow> \<not> 0 < (\<Sum>n\<leftarrow>nodes. ex_hits pod n (k, v)))"
    using holds_empty [OF h] by (auto simp: satisfyExistingPodsAntiAffinity_def gm_ok_all [OF l] holds_get0 [OF h])
  then show ?thesis unfolding ex_hits_pos [OF ok] existing_ok_def by blast
qed

subsection \<open>The filter decides the affinity of the cluster\<close>

lemma NewPodInfo_anti_affinity: "pi_RequiredAntiAffinityTerms (NewPodInfo asSel pod) \<noteq> [] \<Longrightarrow> has_affinity pod"
  by (auto simp: NewPodInfo_def has_affinity_def GetPodAntiAffinityTerms_def terms_of_def Let_def split: option.splits)

lemma Affinity_Filter_eq:
  "ni_node n = Some node \<Longrightarrow>
   Affinity_Filter print (CycleState_Write cs affinity_preFilterStateKey (AffinityData s)) pod n =
     (if \<not> satisfyPodAffinity s node
      then Some (NewStatus UnschedulableAndUnresolvable [ErrReasonAffinityNotMatch, ErrReasonAffinityRulesNotMatch])
      else if \<not> satisfyPodAntiAffinity s node
      then Some (NewStatus Unschedulable [ErrReasonAffinityNotMatch, ErrReasonAntiAffinityRulesNotMatch])
      else if \<not> satisfyExistingPodsAntiAffinity s node
      then Some (NewStatus Unschedulable [ErrReasonAffinityNotMatch, ErrReasonExistingAntiAffinityRulesNotMatch])
      else None)"
  by (simp add: Affinity_Filter_def affinity_getPreFilterState_def read_state_def CycleState_Read_def CycleState_Write_def)

lemma existing_map_with_affinity:
  assumes "\<forall>n\<in>set nodes. pods_ok n" "cluster_terms info nodes < 2 ^ 63"
    and "mset order = mset [0..<length (filter (\<lambda>n. ni_PodsWithAffinity n \<noteq> []) nodes)]"
  shows "holds (getTPMapMatchingExistingAntiAffinity order pod (filter (\<lambda>n. ni_PodsWithAffinity n \<noteq> []) nodes))
    (\<lambda>p. \<Sum>n\<leftarrow>nodes. ex_hits pod n p)"
proof -
  let ?with = "filter (\<lambda>n. ni_PodsWithAffinity n \<noteq> []) nodes"
  have "cluster_terms info ?with \<le> cluster_terms info nodes"
    unfolding cluster_terms_def by (rule sum_list_filter_le) (simp add: node_terms_def sum_list_hits_nonneg)
  then have h: "holds (getTPMapMatchingExistingAntiAffinity order pod ?with) (\<lambda>p. \<Sum>n\<leftarrow>?with. ex_hits pod n p)"
    by (intro existing_map_holds [where info = info]) (use assms in auto)
  have "(\<Sum>n\<leftarrow>filter (\<lambda>n. ni_PodsWithAffinity n \<noteq> []) ns. ex_hits pod n p) = (\<Sum>n\<leftarrow>ns. ex_hits pod n p)" for ns p
    by (induction ns) (auto simp: ex_hits_def split: option.split)
  then show ?thesis by (intro holds_cong [OF h]) simp
qed

text \<open>
  C13: \<open>PreFilter\<close> of \<open>InterPodAffinity\<close> followed by its \<open>Filter\<close> decides the affinity of a pod over the whole
  cluster, whatever the order in which the parallel loops add up the nodes. The node passes exactly when
  every affinity term of the pod has a topology value on the node and a pod of the cluster, matching all the
  terms, with the same value (or no such pod exists for any term and the pod matches its own terms); no
  pod that matches an anti-affinity term shares the node's topology value for it; and no existing pod has an
  anti-affinity term that the pod matches and that reaches the node. Otherwise the status names the first
  of the three that fails. No counter overflows as long as there are fewer than \<open>2 ^ 63\<close> terms.\<close>

theorem affinity_filter_decides:
  fixes asSel :: as_selector and pod :: Pod and snapshot :: Snapshot
  defines "info \<equiv> NewPodInfo asSel pod" and "nodes \<equiv> Snapshot_List snapshot"
  assumes "HavePodsWithAffinityList snapshot = filter (\<lambda>n. ni_PodsWithAffinity n \<noteq> []) nodes"
    and "\<forall>n\<in>set nodes. pods_ok n \<and> (\<forall>q\<in>set (ni_Pods n). q = NewPodInfo asSel (pi_Pod q))"
    and "mset orderA = mset [0..<length (HavePodsWithAffinityList snapshot)]" "mset orderB = mset [0..<length nodes]"
    and "cluster_terms info nodes < 2 ^ 63" "pi_ParseError info = None"
    and "ni_node nodeInfo = Some node" "gm_ok (labels_of node)"
  shows "\<exists>state'. Affinity_PreFilter asSel orderA orderB snapshot state pod = (None, state') \<and>
    Affinity_Filter print state' pod nodeInfo =
      (if \<not> affinity_ok info nodes node
       then Some (NewStatus UnschedulableAndUnresolvable [ErrReasonAffinityNotMatch, ErrReasonAffinityRulesNotMatch])
       else if \<not> anti_affinity_ok info nodes node
       then Some (NewStatus Unschedulable [ErrReasonAffinityNotMatch, ErrReasonAntiAffinityRulesNotMatch])
       else if \<not> existing_ok pod nodes node
       then Some (NewStatus Unschedulable [ErrReasonAffinityNotMatch, ErrReasonExistingAntiAffinityRulesNotMatch])
       else None)"
proof -
  obtain a b where ab: "getTPMapMatchingIncomingAffinityAntiAffinity orderB info nodes = (a, b)" by (meson surj_pair)
  let ?e = "getTPMapMatchingExistingAntiAffinity orderA pod (HavePodsWithAffinityList snapshot)"
  define s where "s = \<lparr>topologyToMatchedExistingAntiAffinityTerms = ?e, topologyToMatchedAffinityTerms = a,
    topologyToMatchedAntiAffinityTerms = b, ap_podInfo = info\<rparr>"
  have pre: "Affinity_PreFilter asSel orderA orderB snapshot state pod =
      (None, CycleState_Write state affinity_preFilterStateKey (AffinityData s))"
    using assms(8) ab by (simp add: Affinity_PreFilter_def s_def info_def nodes_def Let_def)
  have e: "holds ?e (\<lambda>p. \<Sum>n\<leftarrow>nodes. ex_hits pod n p)"
    unfolding assms(3) by (rule existing_map_with_affinity) (use assms(3-8) in auto)
  note ab' = incoming_maps_hold [OF assms(7,6) ab]
  have ok: "\<forall>n\<in>set nodes. pods_ok n \<and> (\<forall>q\<in>set (ni_Pods n). pi_RequiredAntiAffinityTerms q \<noteq> [] \<longrightarrow> has_affinity (pi_Pod q))"
    using assms(4) NewPodInfo_anti_affinity by metis
  have "satisfyPodAffinity s node \<longleftrightarrow> affinity_ok info nodes node"
    using satisfyPodAffinity_iff [of s nodes node] ab'(1) by (simp add: s_def)
  moreover have "satisfyPodAntiAffinity s node \<longleftrightarrow> anti_affinity_ok info nodes node"
    using satisfyPodAntiAffinity_ok [of s nodes node] ab'(2) by (simp add: s_def)
  moreover have "satisfyExistingPodsAntiAffinity s node \<longleftrightarrow> existing_ok pod nodes node"
    using satisfyExisting_iff [where s = s and nodes = nodes and pod = pod and node = node] e ok assms(10) by (simp add: s_def)
  ultimately show ?thesis unfolding pre by (simp add: Affinity_Filter_eq [OF assms(9)])
qed

subsection \<open>A cluster of two zones\<close>

text \<open>A pod that keeps every other pod out of its zone.\<close>

definition alone_pod :: Pod where
  "alone_pod = zero_pod\<lparr>pod_UID := ''alone'', pod_Affinity := Some \<lparr>aff_NodeAffinity = None, aff_PodAffinity = None,
     aff_PodAntiAffinity = Some \<lparr>pa_Required = [\<lparr>pat_LabelSelector = None, pat_Namespaces = [], pat_TopologyKey = ''zone''\<rparr>],
       pa_Preferred = []\<rparr>\<rparr>\<rparr>"

definition select_all :: as_selector where "select_all s = Inr (\<lambda>_. True)"

definition alone_node :: NodeInfo where
  "alone_node = (zone_info ''a'' [])\<lparr>ni_Pods := [NewPodInfo select_all alone_pod],
     ni_PodsWithAffinity := [NewPodInfo select_all alone_pod]\<rparr>"

definition zones_snapshot :: Snapshot where
  "zones_snapshot = \<lparr>sn_store = [(0, alone_node), (1, zone_info ''b'' [])], sn_fresh = 2, sn_nodeInfoMap = [(''a'', 0), (''b'', 1)],
     sn_nodeInfoList = [0, 1], sn_havePodsWithAffinity = [0], sn_generation = 0\<rparr>"

lemma zones_lists:
  "Snapshot_List zones_snapshot = [alone_node, zone_info ''b'' []]" "HavePodsWithAffinityList zones_snapshot = [alone_node]"
  by (simp_all add: Snapshot_List_def HavePodsWithAffinityList_def zones_snapshot_def sn_info_def gm_get_def)

lemma zero_pod_info:
  "pi_RequiredAffinityTerms (NewPodInfo asSel zero_pod) = []" "pi_RequiredAntiAffinityTerms (NewPodInfo asSel zero_pod) = []"
  "pi_ParseError (NewPodInfo asSel zero_pod) = None" "pi_Pod (NewPodInfo asSel zero_pod) = zero_pod"
  by (simp_all add: NewPodInfo_def zero_pod_def terms_of_def wrap_err_def GetPodAffinityTerms_def GetPodAntiAffinityTerms_def Let_def)

definition alone_term :: AffinityTerm where
  "alone_term = \<lparr>at_Namespaces = [''''], at_Selector = (\<lambda>_. True), at_TopologyKey = ''zone''\<rparr>"

lemma alone_pod_info:
  "pi_RequiredAntiAffinityTerms (NewPodInfo select_all alone_pod) = [alone_term]"
  "pi_Pod (NewPodInfo select_all alone_pod) = alone_pod" "pi_RequiredAffinityTerms (NewPodInfo select_all alone_pod) = []"
  by (simp_all add: NewPodInfo_def alone_pod_def zero_pod_def terms_of_def alone_term_def select_all_def newAffinityTerm_def
      GetPodAffinityTerms_def GetPodAntiAffinityTerms_def GetNamespacesFromPodAffinityTerm_def Let_def)

lemma alone_node_ok: "pods_ok alone_node" "ni_node alone_node = Some (zone_node ''a'')" "ni_Pods (zone_info ''b'' []) = []"
  "ni_PodsWithAffinity (zone_info ''b'' []) = []" "pods_ok (zone_info ''b'' [])"
  by (simp_all add: alone_node_def zone_info_def pods_ok_def alone_pod_info NewNodeInfo_def port_taken_def gm_get_def)
    (simp_all add: alone_pod_def has_affinity_def)

theorem affinity_filter_decides_witness:
  "\<exists>state'. Affinity_PreFilter select_all [0] [1, 0] zones_snapshot NewCycleState zero_pod = (None, state') \<and>
    Affinity_Filter (\<lambda>_. []) state' zero_pod alone_node =
      Some (NewStatus Unschedulable [ErrReasonAffinityNotMatch, ErrReasonExistingAntiAffinityRulesNotMatch])"
proof -
  have pods: "ni_Pods alone_node = [NewPodInfo select_all alone_pod]" "ni_PodsWithAffinity alone_node = [NewPodInfo select_all alone_pod]"
    by (simp_all add: alone_node_def)
  have "\<not> existing_ok zero_pod (Snapshot_List zones_snapshot) (zone_node ''a'')"
    by (simp add: existing_ok_def zones_lists alone_node_ok pods alone_pod_info)
      (simp add: alone_term_def matches_term_def PodMatchesTermsNamespaceAndSelector_def gm_get_def zero_pod_simps)
  moreover have "affinity_ok (NewPodInfo select_all zero_pod) nodes node" "anti_affinity_ok (NewPodInfo select_all zero_pod) nodes node" for nodes node
    by (simp_all add: affinity_ok_def anti_affinity_ok_def zero_pod_info)
  moreover have "cluster_terms (NewPodInfo select_all zero_pod) (Snapshot_List zones_snapshot) = 1"
    by (simp add: cluster_terms_def node_terms_def zones_lists zero_pod_info pods alone_pod_info alone_node_ok)
  ultimately show ?thesis
    using affinity_filter_decides [where asSel = select_all and pod = zero_pod and snapshot = zones_snapshot and orderA = "[0]"
      and orderB = "[1, 0]" and nodeInfo = alone_node and node = "zone_node ''a''" and print = "\<lambda>_. []" and state = NewCycleState]
    by (simp add: zones_lists alone_node_ok pods zero_pod_info alone_pod_info gm_ok_def)
qed

theorem affinity_update_roundtrip_witness:
  "\<exists>s1 s2. affinity_updateWithPod select_all \<lparr>topologyToMatchedExistingAntiAffinityTerms = [], topologyToMatchedAffinityTerms = [],
      topologyToMatchedAntiAffinityTerms = [], ap_podInfo = NewPodInfo select_all zero_pod\<rparr> alone_pod (Some (zone_node ''a'')) 1 = Some s1 \<and>
    affinity_updateWithPod select_all s1 alone_pod (Some (zone_node ''a'')) (- 1) = Some s2 \<and>
    gm_get (topologyToMatchedExistingAntiAffinityTerms s2) = gm_get []"
proof -
  let ?s = "\<lparr>topologyToMatchedExistingAntiAffinityTerms = [], topologyToMatchedAffinityTerms = [],
      topologyToMatchedAntiAffinityTerms = [], ap_podInfo = NewPodInfo select_all zero_pod\<rparr>"
  have "tracks_pods ?s (\<lambda>_. 0) (\<lambda>_. 0) (\<lambda>_. 0)" by (simp add: tracks_pods_def holds_Nil)
  from affinity_update_roundtrip [OF this, of 1 select_all alone_pod "zone_node ''a''"] show ?thesis by auto
qed

end
