(* ===== verification/Default_Preemption.thy ===== *)
theory Default_Preemption
  imports Scheduler_Loop Plugin_State Topology_Spread
begin

text \<open>
  The plugin \<open>DefaultPreemption\<close> (\<^verbatim>\<open>scheduler/framework/plugins/defaultpreemption\<close>) with the helpers of
  \<^verbatim>\<open>scheduler/util/utils.go\<close> that call the API server, and the proof that in this repository, where every
  pod has the same priority, it never finds a victim.
\<close>

subsection \<open>Victims and candidates\<close>

record Victims =
  vic_Pods :: "Pod list"
  vic_NumPDBViolations :: int

record Candidate =
  cand_victims :: Victims
  cand_name :: string

record PodDisruptionBudget =
  pdb_Namespace :: string
  pdb_Selector :: "LabelSelector option"
  pdb_DisruptionsAllowed :: int
  pdb_DisruptedPods :: "string list"

subsection \<open>What is outside\<close>

text \<open>
  The calls of the API server, the other parts of the scheduler that the plugin reads, and the extenders.
  \<open>ph_selectorEmpty\<close> is the method \<open>Empty\<close> of the selector that a label selector is converted to.
\<close>

record PreemptExtender =
  pe_SupportsPreemption :: bool
  pe_IsInterested :: "Pod \<Rightarrow> bool"
  pe_IsIgnorable :: bool
  pe_ProcessPreemption :: "Pod \<Rightarrow> (string, Victims) gomap \<Rightarrow> Snapshot \<Rightarrow> error + (string, Victims) gomap"

record ('d, 'w) preempt_handle =
  ph_world :: "('d, 'w) world_api"
  ph_Get :: "string \<Rightarrow> string \<Rightarrow> 'w \<Rightarrow> error + Pod"
  ph_Delete :: "string \<Rightarrow> string \<Rightarrow> 'w \<Rightarrow> error option \<times> 'w"
  ph_Extenders :: "PreemptExtender list"
  ph_nominator :: nominatedPodMap
  ph_snapshot :: Snapshot
  ph_selectorEmpty :: "LabelSelector option \<Rightarrow> bool"

text \<open>
  What the environment decides: the order in which the goroutines append their candidates, the order in
  which a map is ranged over, the outcome of the unstable \<open>sort.Slice\<close> for a comparison, the
  time at each call of \<open>GetPodStartTime\<close>, and the counter of generations.
\<close>

record preempt_choices =
  pc_order :: "nat list"
  pc_range :: "(string, Victims) gomap \<Rightarrow> string list"
  pc_sort :: "(Pod \<Rightarrow> Pod \<Rightarrow> bool) \<Rightarrow> Pod list \<Rightarrow> Pod list"
  pc_clk :: "nat \<Rightarrow> int"
  pc_gen :: int

subsection \<open>scheduler/util/utils.go\<close>

definition GetUpdatedPod :: "('d, 'w) preempt_handle \<Rightarrow> Pod \<Rightarrow> 'w \<Rightarrow> error + Pod" where
  "GetUpdatedPod h pod w = ph_Get h (pod_Namespace pod) (pod_Name pod) w"

definition DeletePod :: "('d, 'w) preempt_handle \<Rightarrow> Pod \<Rightarrow> 'w \<Rightarrow> error option \<times> 'w" where
  "DeletePod h pod w = ph_Delete h (pod_Namespace pod) (pod_Name pod) w"

text \<open>The errors are collected into an aggregate.\<close>

fun ClearNominatedNodeName :: "('d, 'w) world_api \<Rightarrow> Pod list \<Rightarrow> 'w \<Rightarrow> error list \<times> 'w" where
  "ClearNominatedNodeName wa [] w = ([], w)"
| "ClearNominatedNodeName wa (p # ps) w =
    (if length (pod_NominatedNodeName p) = 0 then ClearNominatedNodeName wa ps w
     else
       case PatchPod wa p (p\<lparr>pod_NominatedNodeName := ''''\<rparr>) w of
         (err, w1) \<Rightarrow>
           (case ClearNominatedNodeName wa ps w1 of
              (errs, w2) \<Rightarrow> ((case err of None \<Rightarrow> errs | Some e \<Rightarrow> e # errs), w2)))"

text \<open>The loop visits all pods; the start time of a pod is asked for again where it becomes the earliest.\<close>

fun earliest_loop :: "(nat \<Rightarrow> int) \<Rightarrow> nat \<Rightarrow> Pod list \<Rightarrow> int \<Rightarrow> int \<Rightarrow> int \<times> nat" where
  "earliest_loop clk k [] maxPriority earliest = (earliest, k)"
| "earliest_loop clk k (pod # pods) maxPriority earliest =
    (if GetPodPriority pod = maxPriority then
       (if GetPodStartTime (clk k) pod < earliest
        then earliest_loop clk (k + 2) pods maxPriority (GetPodStartTime (clk (k + 1)) pod)
        else earliest_loop clk (k + 1) pods maxPriority earliest)
     else if GetPodPriority pod > maxPriority
     then earliest_loop clk (k + 1) pods (GetPodPriority pod) (GetPodStartTime (clk k) pod)
     else earliest_loop clk k pods maxPriority earliest)"

definition GetEarliestPodStartTime :: "(nat \<Rightarrow> int) \<Rightarrow> nat \<Rightarrow> Victims \<Rightarrow> int option \<times> nat" where
  "GetEarliestPodStartTime clk k victims =
    (case vic_Pods victims of
       [] \<Rightarrow> (None, k)
     | p # ps \<Rightarrow>
         (case earliest_loop clk (k + 1) (vic_Pods victims) (GetPodPriority p) (GetPodStartTime (clk k) p) of
            (t, k') \<Rightarrow> (Some t, k')))"

subsection \<open>default_preemption.go: is preemption worth trying?\<close>

definition DefaultPreemptionName :: string where "DefaultPreemptionName = ''DefaultPreemption''"

definition PreemptNever :: string where "PreemptNever = ''Never''"

definition PodEligibleToPreemptOthers :: "Pod \<Rightarrow> Snapshot \<Rightarrow> Status option \<Rightarrow> bool" where
  "PodEligibleToPreemptOthers pod nodeInfos nominatedNodeStatus =
    (if pod_PreemptionPolicy pod = Some PreemptNever then False
     else
       let nomNodeName = pod_NominatedNodeName pod in
       if length nomNodeName > 0 then
         if Status_Code nominatedNodeStatus = UnschedulableAndUnresolvable then True
         else
           (case Snapshot_Get nodeInfos nomNodeName of
              Inl _ \<Rightarrow> True
            | Inr nodeInfo \<Rightarrow>
                \<not> list_ex (\<lambda>p. pod_DeletionTimestamp (pi_Pod p) \<noteq> None \<and> GetPodPriority (pi_Pod p) < GetPodPriority pod)
                    (ni_Pods nodeInfo))
       else True)"

definition status_at :: "NodeToStatusMap \<Rightarrow> string \<Rightarrow> Status option" where
  "status_at m name = (case gm_get m name of None \<Rightarrow> None | Some s \<Rightarrow> s)"

text \<open>A node information without a node is a nil dereference.\<close>

fun nodesWherePreemptionMightHelp :: "NodeInfo list \<Rightarrow> NodeToStatusMap \<Rightarrow> NodeInfo list option" where
  "nodesWherePreemptionMightHelp [] m = Some []"
| "nodesWherePreemptionMightHelp (n # ns) m =
    (case ni_node n of
       None \<Rightarrow> None
     | Some node \<Rightarrow>
         (case nodesWherePreemptionMightHelp ns m of
            None \<Rightarrow> None
          | Some potentialNodes \<Rightarrow>
              Some (if Status_Code (status_at m (node_Name node)) = UnschedulableAndUnresolvable then potentialNodes
                else n # potentialNodes)))"

subsection \<open>Victims on a node\<close>

text \<open>
  The copies of the node information and of the cycle state that one goroutine works on. Generations of
  the copy are not looked at, so the counter is only read.
\<close>

type_synonym 'd sim = "'d CycleState \<times> NodeInfo"

definition sim_removePod :: "('a, 'd, 'w) frameworkImpl \<Rightarrow> int \<Rightarrow> 'w \<Rightarrow> Pod \<Rightarrow> Pod \<Rightarrow> 'd sim \<Rightarrow>
    (error option \<times> 'd sim) option" where
  "sim_removePod f gen w pod rp sim =
    (case NodeInfo_RemovePod gen (snd sim) rp of
       None \<Rightarrow> None
     | Some (nodeInfo, _, Some err) \<Rightarrow> Some (Some err, (fst sim, nodeInfo))
     | Some (nodeInfo, _, None) \<Rightarrow>
         (case RunPreFilterExtensionRemovePod f w (fst sim) pod rp nodeInfo of
            (status, state) \<Rightarrow> Some (if \<not> IsSuccess status then AsError status else None, (state, nodeInfo))))"

definition sim_addPod :: "as_selector \<Rightarrow> ('a, 'd, 'w) frameworkImpl \<Rightarrow> int \<Rightarrow> 'w \<Rightarrow> Pod \<Rightarrow> Pod \<Rightarrow> 'd sim \<Rightarrow>
    error option \<times> 'd sim" where
  "sim_addPod asSel f gen w pod ap sim =
    (let nodeInfo = fst (NodeInfo_AddPod asSel gen (snd sim) ap) in
     case RunPreFilterExtensionAddPod f w (fst sim) pod ap nodeInfo of
       (status, state) \<Rightarrow> (if \<not> IsSuccess status then AsError status else None, (state, nodeInfo)))"

text \<open>
  The first loop ranges over the slice of pods as it was when the loop began. A removal puts the last
  pod into the freed place, which is at or before the place the loop has reached, so each pod is visited
  once. \<open>Inl ()\<close> stands for the early return without victims.
\<close>

fun remove_lower :: "('a, 'd, 'w) frameworkImpl \<Rightarrow> int \<Rightarrow> 'w \<Rightarrow> Pod \<Rightarrow> PodInfo list \<Rightarrow> Pod list \<Rightarrow> 'd sim \<Rightarrow>
    (unit + Pod list \<times> 'd sim) option" where
  "remove_lower f gen w pod [] potentialVictims sim = Some (Inr (potentialVictims, sim))"
| "remove_lower f gen w pod (p # ps) potentialVictims sim =
    (if GetPodPriority (pi_Pod p) < GetPodPriority pod then
       case sim_removePod f gen w pod (pi_Pod p) sim of
         None \<Rightarrow> None
       | Some (Some _, _) \<Rightarrow> Some (Inl ())
       | Some (None, sim') \<Rightarrow> remove_lower f gen w pod ps (potentialVictims @ [pi_Pod p]) sim'
     else remove_lower f gen w pod ps potentialVictims sim)"

text \<open>One pod is added again, and removed if the preemptor then no longer fits.\<close>

definition reprievePod :: "('d, 'w) preempt_handle \<Rightarrow> ('a, 'd, 'w) frameworkImpl \<Rightarrow> int \<Rightarrow> 'w \<Rightarrow> Pod \<Rightarrow> Pod \<Rightarrow>
    Pod list \<times> 'd sim \<Rightarrow> (error + bool \<times> Pod list \<times> 'd sim) option" where
  "reprievePod h f gen w pod p acc =
    (let ex = wa_externals (ph_world h) in
     case sim_addPod (ex_asSelector ex) f gen w pod p (snd acc) of
       (Some err, _) \<Rightarrow> Some (Inl err)
     | (None, sim1) \<Rightarrow>
         (case PodPassesFiltersOnNode ex f (ph_nominator h) gen w (fst sim1) pod (snd sim1) of
            None \<Rightarrow> None
          | Some (fits, _, _) \<Rightarrow>
              if \<not> fits then
                (case sim_removePod f gen w pod p sim1 of
                   None \<Rightarrow> None
                 | Some (Some err, _) \<Rightarrow> Some (Inl err)
                 | Some (None, sim2) \<Rightarrow> Some (Inr (fits, fst acc @ [p], sim2)))
              else Some (Inr (fits, fst acc, sim1))))"

fun reprieve_all :: "('d, 'w) preempt_handle \<Rightarrow> ('a, 'd, 'w) frameworkImpl \<Rightarrow> int \<Rightarrow> 'w \<Rightarrow> Pod \<Rightarrow> Pod list \<Rightarrow>
    int \<Rightarrow> Pod list \<times> 'd sim \<Rightarrow> (error + int \<times> Pod list \<times> 'd sim) option" where
  "reprieve_all h f gen w pod [] n acc = Some (Inr (n, acc))"
| "reprieve_all h f gen w pod (p # ps) n acc =
    (case reprievePod h f gen w pod p acc of
       None \<Rightarrow> None
     | Some (Inl err) \<Rightarrow> Some (Inl err)
     | Some (Inr (fits, acc')) \<Rightarrow> reprieve_all h f gen w pod ps (if \<not> fits then n + 1 else n) acc')"

text \<open>
  The inner loop of \<open>filterPodsWithPDBViolation\<close>: the budgets with what they still allow, and whether a
  budget is violated. A budget that the pod does not match is left alone.
\<close>

definition pdb_matches :: "('d, 'w) preempt_handle \<Rightarrow> Pod \<Rightarrow> PodDisruptionBudget \<Rightarrow> bool" where
  "pdb_matches h pod pdb =
    (if pdb_Namespace pdb \<noteq> pod_Namespace pod then False
     else case ex_asSelector (wa_externals (ph_world h)) (pdb_Selector pdb) of
       Inl _ \<Rightarrow> False
     | Inr sel \<Rightarrow>
         if ph_selectorEmpty h (pdb_Selector pdb) \<or> \<not> sel (pod_Labels pod) then False
         else \<not> List.member (pdb_DisruptedPods pdb) (pod_Name pod))"

fun charge_pdbs :: "('d, 'w) preempt_handle \<Rightarrow> Pod \<Rightarrow> (PodDisruptionBudget \<times> int) list \<Rightarrow> bool \<Rightarrow>
    (PodDisruptionBudget \<times> int) list \<times> bool" where
  "charge_pdbs h pod [] violated = ([], violated)"
| "charge_pdbs h pod ((pdb, allowed) # rest) violated =
    (if pdb_matches h pod pdb then
       let allowed' = i32 (allowed - 1) in
       case charge_pdbs h pod rest (if allowed' < 0 then True else violated) of
         (rest', v) \<Rightarrow> ((pdb, allowed') # rest', v)
     else case charge_pdbs h pod rest violated of (rest', v) \<Rightarrow> ((pdb, allowed) # rest', v))"

fun pdb_loop :: "('d, 'w) preempt_handle \<Rightarrow> Pod list \<Rightarrow> (PodDisruptionBudget \<times> int) list \<Rightarrow> Pod list \<times> Pod list" where
  "pdb_loop h [] budgets = ([], [])"
| "pdb_loop h (pod # pods) budgets =
    (case (if length (pod_Labels pod) \<noteq> 0 then charge_pdbs h pod budgets False else (budgets, False)) of
       (budgets', pdbForPodIsViolated) \<Rightarrow>
         (case pdb_loop h pods budgets' of
            (violatingPods, nonViolatingPods) \<Rightarrow>
              if pdbForPodIsViolated then (pod # violatingPods, nonViolatingPods)
              else (violatingPods, pod # nonViolatingPods)))"

definition filterPodsWithPDBViolation :: "('d, 'w) preempt_handle \<Rightarrow> Pod list \<Rightarrow> PodDisruptionBudget list \<Rightarrow>
    Pod list \<times> Pod list" where
  "filterPodsWithPDBViolation h pods pdbs = pdb_loop h pods (map (\<lambda>pdb. (pdb, pdb_DisruptionsAllowed pdb)) pdbs)"

text \<open>The victims, the number of them that violate a budget, and whether the pod fits without them.\<close>

definition selectVictimsOnNode :: "('d, 'w) preempt_handle \<Rightarrow> preempt_choices \<Rightarrow> ('a, 'd, 'w) frameworkImpl \<Rightarrow> 'w \<Rightarrow>
    'd CycleState \<Rightarrow> Pod \<Rightarrow> NodeInfo \<Rightarrow> PodDisruptionBudget list \<Rightarrow> (Pod list \<times> int \<times> bool) option" where
  "selectVictimsOnNode h ch f w state pod nodeInfo pdbs =
    (let gen = pc_gen ch in
     case remove_lower f gen w pod (ni_Pods nodeInfo) [] (state, nodeInfo) of
       None \<Rightarrow> None
     | Some (Inl _) \<Rightarrow> Some ([], 0, False)
     | Some (Inr (potentialVictims, sim)) \<Rightarrow>
         if length potentialVictims = 0 then Some ([], 0, False)
         else
           (case PodPassesFiltersOnNode (wa_externals (ph_world h)) f (ph_nominator h) gen w (fst sim) pod (snd sim) of
              None \<Rightarrow> None
            | Some (fits, _, _) \<Rightarrow>
                if \<not> fits then Some ([], 0, False)
                else
                  let potentialVictims = pc_sort ch (MoreImportantPod (pc_clk ch 0) (pc_clk ch 1)) potentialVictims in
                  (case filterPodsWithPDBViolation h potentialVictims pdbs of
                     (violatingVictims, nonViolatingVictims) \<Rightarrow>
                       (case reprieve_all h f gen w pod violatingVictims 0 ([], sim) of
                          None \<Rightarrow> None
                        | Some (Inl _) \<Rightarrow> Some ([], 0, False)
                        | Some (Inr (numViolatingVictim, acc)) \<Rightarrow>
                            (case reprieve_all h f gen w pod nonViolatingVictims 0 acc of
                               None \<Rightarrow> None
                             | Some (Inl _) \<Rightarrow> Some ([], 0, False)
                             | Some (Inr (_, victims, _)) \<Rightarrow> Some (victims, numViolatingVictim, True))))))"

text \<open>The goroutines take no notice of each other; \<open>pc_order\<close> is the order in which they append.\<close>

fun dry_run :: "('d, 'w) preempt_handle \<Rightarrow> preempt_choices \<Rightarrow> ('a, 'd, 'w) frameworkImpl \<Rightarrow> 'w \<Rightarrow> 'd CycleState \<Rightarrow>
    Pod \<Rightarrow> PodDisruptionBudget list \<Rightarrow> NodeInfo list \<Rightarrow> Candidate list option" where
  "dry_run h ch f w state pod pdbs [] = Some []"
| "dry_run h ch f w state pod pdbs (n # ns) =
    (let nodeInfoCopy = NodeInfo_Clone n;
         stateCopy = the (CycleState_Clone (ex_clone (wa_externals (ph_world h))) (Some state)) in
     case selectVictimsOnNode h ch f w stateCopy pod nodeInfoCopy pdbs of
       None \<Rightarrow> None
     | Some (pods, numPDBViolations, fits) \<Rightarrow>
         (case dry_run h ch f w state pod pdbs ns of
            None \<Rightarrow> None
          | Some candidates \<Rightarrow>
              if fits then
                (case ni_node nodeInfoCopy of
                   None \<Rightarrow> None
                 | Some node \<Rightarrow> Some (\<lparr>cand_victims = \<lparr>vic_Pods = pods, vic_NumPDBViolations = numPDBViolations\<rparr>,
                       cand_name = node_Name node\<rparr> # candidates))
              else Some candidates))"

definition dryRunPreemption :: "('d, 'w) preempt_handle \<Rightarrow> preempt_choices \<Rightarrow> ('a, 'd, 'w) frameworkImpl \<Rightarrow> 'w \<Rightarrow>
    'd CycleState \<Rightarrow> Pod \<Rightarrow> NodeInfo list \<Rightarrow> PodDisruptionBudget list \<Rightarrow> Candidate list option" where
  "dryRunPreemption h ch f w state pod potentialNodes pdbs =
    dry_run h ch f w state pod pdbs (map ((!) potentialNodes) (pc_order ch))"

subsection \<open>The best candidate\<close>

fun candidatesToVictimsMap :: "Candidate list \<Rightarrow> (string, Victims) gomap \<Rightarrow> (string, Victims) gomap" where
  "candidatesToVictimsMap [] m = m"
| "candidatesToVictimsMap (c # cs) m = candidatesToVictimsMap cs (gm_put m (cand_name c) (cand_victims c))"

text \<open>
  The four loops of \<open>pickOneNodeForPreemption\<close> that keep the nodes with the least value: the counter of the
  slice is reset at a smaller value. \<open>None\<close> stands for an index out of range.
\<close>

fun keep_least :: "(string \<Rightarrow> int option) \<Rightarrow> string list \<Rightarrow> int \<Rightarrow> string list \<Rightarrow> string list option" where
  "keep_least value [] least kept = Some kept"
| "keep_least value (node # nodes) least kept =
    (case value node of
       None \<Rightarrow> None
     | Some v \<Rightarrow>
         if v < least then keep_least value nodes v [node]
         else if v = least then keep_least value nodes least (kept @ [node])
         else keep_least value nodes least kept)"

definition highestPodPriority :: "(string, Victims) gomap \<Rightarrow> string \<Rightarrow> int option" where
  "highestPodPriority m node =
    Option.bind (gm_get m node) (\<lambda>v. case vic_Pods v of [] \<Rightarrow> None | p # _ \<Rightarrow> Some (GetPodPriority p))"

definition sumPriorities :: "(string, Victims) gomap \<Rightarrow> string \<Rightarrow> int option" where
  "sumPriorities m node =
    map_option (\<lambda>v. fold (\<lambda>pod s. i64 (s + i64 (GetPodPriority pod + (MaxInt32 + 1)))) (vic_Pods v) 0) (gm_get m node)"

definition numPods :: "(string, Victims) gomap \<Rightarrow> string \<Rightarrow> int option" where
  "numPods m node = map_option (\<lambda>v. int (length (vic_Pods v))) (gm_get m node)"

text \<open>The last loop; a node whose start time is nil is passed over.\<close>

fun latest_loop :: "(string, Victims) gomap \<Rightarrow> (nat \<Rightarrow> int) \<Rightarrow> nat \<Rightarrow> string list \<Rightarrow> int \<Rightarrow> string \<Rightarrow> string option" where
  "latest_loop m clk k [] latestStartTime nodeToReturn = Some nodeToReturn"
| "latest_loop m clk k (node # nodes) latestStartTime nodeToReturn =
    (case gm_get m node of
       None \<Rightarrow> None
     | Some victims \<Rightarrow>
         (case GetEarliestPodStartTime clk k victims of
            (None, k') \<Rightarrow> latest_loop m clk k' nodes latestStartTime nodeToReturn
          | (Some t, k') \<Rightarrow>
              if t > latestStartTime then latest_loop m clk k' nodes t node
              else latest_loop m clk k' nodes latestStartTime nodeToReturn))"

text \<open>
  The two slices are reused, so where the fourth loop keeps no node at all the first element of the slice
  is still that of the second loop.
\<close>

definition pick_by_start_time :: "(string, Victims) gomap \<Rightarrow> (nat \<Rightarrow> int) \<Rightarrow> string list \<Rightarrow> string list \<Rightarrow> string option" where
  "pick_by_start_time m clk minNodes2 stale =
    (case minNodes2 @ stale of
       [] \<Rightarrow> None
     | first # _ \<Rightarrow>
         (case gm_get m first of
            None \<Rightarrow> None
          | Some victims \<Rightarrow>
              (case GetEarliestPodStartTime clk 2 victims of
                 (None, _) \<Rightarrow> Some first
               | (Some latestStartTime, k) \<Rightarrow> latest_loop m clk k (tl minNodes2) latestStartTime first)))"

definition pickOneNodeForPreemption :: "preempt_choices \<Rightarrow> (string, Victims) gomap \<Rightarrow> string option" where
  "pickOneNodeForPreemption ch m =
    (if length m = 0 then Some ''''
     else do {
       minNodes1 \<leftarrow> keep_least (\<lambda>node. map_option vic_NumPDBViolations (gm_get m node)) (pc_range ch m) MaxInt32 [];
       if length minNodes1 = 1 then Some (minNodes1 ! 0)
       else do {
         minNodes2 \<leftarrow> keep_least (highestPodPriority m) minNodes1 MaxInt32 [];
         if length minNodes2 = 1 then Some (minNodes2 ! 0)
         else do {
           minNodes1 \<leftarrow> keep_least (sumPriorities m) minNodes2 MaxInt64 [];
           if length minNodes1 = 1 then Some (minNodes1 ! 0)
           else do {
             minNodes2' \<leftarrow> keep_least (numPods m) minNodes1 MaxInt32 [];
             if length minNodes2' = 1 then Some (minNodes2' ! 0)
             else pick_by_start_time m (pc_clk ch) minNodes2' minNodes2
           }
         }
       }
     })"

definition SelectCandidate :: "preempt_choices \<Rightarrow> Candidate list \<Rightarrow> Candidate option option" where
  "SelectCandidate ch candidates =
    (case candidates of
       [] \<Rightarrow> Some None
     | [c] \<Rightarrow> Some (Some c)
     | c # _ \<Rightarrow>
         (case pickOneNodeForPreemption ch (candidatesToVictimsMap candidates []) of
            None \<Rightarrow> None
          | Some candidateNode \<Rightarrow>
              (case find (\<lambda>candidate. candidateNode = cand_name candidate) candidates of
                 Some candidate \<Rightarrow> Some (Some candidate)
               | None \<Rightarrow> Some (Some c))))"

fun extender_loop :: "PreemptExtender list \<Rightarrow> Pod \<Rightarrow> Snapshot \<Rightarrow> (string, Victims) gomap \<Rightarrow>
    error + (string, Victims) gomap" where
  "extender_loop [] pod nodeLister victimsMap = Inr victimsMap"
| "extender_loop (e # es) pod nodeLister victimsMap =
    (if \<not> pe_SupportsPreemption e \<or> \<not> pe_IsInterested e pod then extender_loop es pod nodeLister victimsMap
     else case pe_ProcessPreemption e pod victimsMap nodeLister of
       Inl err \<Rightarrow> if pe_IsIgnorable e then extender_loop es pod nodeLister victimsMap else Inl err
     | Inr nodeNameToVictims \<Rightarrow>
         if length nodeNameToVictims = 0 then Inr nodeNameToVictims
         else extender_loop es pod nodeLister nodeNameToVictims)"

definition CallExtenders :: "preempt_choices \<Rightarrow> PreemptExtender list \<Rightarrow> Pod \<Rightarrow> Snapshot \<Rightarrow> Candidate list \<Rightarrow>
    error + Candidate list" where
  "CallExtenders ch extenders pod nodeLister candidates =
    (if length extenders = 0 then Inr candidates
     else
       let victimsMap = candidatesToVictimsMap candidates [] in
       if length victimsMap = 0 then Inr candidates
       else case extender_loop extenders pod nodeLister victimsMap of
         Inl err \<Rightarrow> Inl err
       | Inr m \<Rightarrow> Inr (map (\<lambda>nodeName. \<lparr>cand_victims = the (gm_get m nodeName), cand_name = nodeName\<rparr>) (pc_range ch m)))"

subsection \<open>Preempting\<close>

definition getPDBLister :: "(error + PodDisruptionBudget list) option" where
  "getPDBLister = None"

definition getPodDisruptionBudgets :: "(error + PodDisruptionBudget list) option \<Rightarrow> error + PodDisruptionBudget list" where
  "getPodDisruptionBudgets pdbLister = (case pdbLister of Some l \<Rightarrow> l | None \<Rightarrow> Inr [])"

text \<open>The candidates or an error, and the world after the nomination of the pod may have been cleared.\<close>

definition FindCandidates :: "('d, 'w) preempt_handle \<Rightarrow> preempt_choices \<Rightarrow> ('a, 'd, 'w) frameworkImpl \<Rightarrow> 'd CycleState \<Rightarrow>
    Pod \<Rightarrow> NodeToStatusMap \<Rightarrow> (error + PodDisruptionBudget list) option \<Rightarrow> 'w \<Rightarrow> ((error + Candidate list) \<times> 'w) option" where
  "FindCandidates h ch f state pod m pdbLister w =
    (let allNodes = Snapshot_List (ph_snapshot h) in
     if length allNodes = 0 then Some (Inl ErrNoNodesAvailable, w)
     else case nodesWherePreemptionMightHelp allNodes m of
       None \<Rightarrow> None
     | Some potentialNodes \<Rightarrow>
         if length potentialNodes = 0 then Some (Inr [], snd (ClearNominatedNodeName (ph_world h) [pod] w))
         else case getPodDisruptionBudgets pdbLister of
           Inl err \<Rightarrow> Some (Inl err, w)
         | Inr pdbs \<Rightarrow> map_option (\<lambda>cs. (Inr cs, w)) (dryRunPreemption h ch f w state pod potentialNodes pdbs))"

definition getLowerPriorityNominatedPods :: "nominatedPodMap \<Rightarrow> Pod \<Rightarrow> string \<Rightarrow> Pod list" where
  "getLowerPriorityNominatedPods pn pod nodeName =
    (let pods = NominatedPodsForNode pn nodeName in
     if length pods = 0 then []
     else filter (\<lambda>p. GetPodPriority p < GetPodPriority pod) pods)"

fun evict :: "('d, 'w) preempt_handle \<Rightarrow> Pod list \<Rightarrow> ('a, 'd, 'w) frameworkImpl \<Rightarrow> 'w \<Rightarrow>
    error option \<times> ('a, 'd, 'w) frameworkImpl \<times> 'w" where
  "evict h [] f w = (None, f, w)"
| "evict h (victim # victims) f w =
    (case DeletePod h victim w of
       (Some err, w') \<Rightarrow> (Some err, f, w')
     | (None, w') \<Rightarrow>
         evict h victims
           (case GetWaitingPod f (pod_UID victim) of
              None \<Rightarrow> f
            | Some waitingPod \<Rightarrow>
                f\<lparr>waitingPods := gm_put (waitingPods f) (pod_UID victim) (Reject waitingPod ''preempted'')\<rparr>) w')"

definition PrepareCandidate :: "('d, 'w) preempt_handle \<Rightarrow> Candidate \<Rightarrow> Pod \<Rightarrow> ('a, 'd, 'w) frameworkImpl \<Rightarrow> 'w \<Rightarrow>
    error option \<times> ('a, 'd, 'w) frameworkImpl \<times> 'w" where
  "PrepareCandidate h c pod f w =
    (case evict h (vic_Pods (cand_victims c)) f w of
       (Some err, f', w') \<Rightarrow> (Some err, f', w')
     | (None, f', w') \<Rightarrow>
         (None, f', snd (ClearNominatedNodeName (ph_world h) (getLowerPriorityNominatedPods (ph_nominator h) pod (cand_name c)) w')))"

text \<open>The name of the node and an error; an empty name when nothing is nominated.\<close>

definition preempt :: "('d, 'w) preempt_handle \<Rightarrow> preempt_choices \<Rightarrow> (error + PodDisruptionBudget list) option \<Rightarrow>
    'd CycleState \<Rightarrow> Pod \<Rightarrow> NodeToStatusMap \<Rightarrow> ('a, 'd, 'w) frameworkImpl \<Rightarrow> 'w \<Rightarrow>
    ((string \<times> error option) \<times> ('a, 'd, 'w) frameworkImpl \<times> 'w) option" where
  "preempt h ch pdbLister state pod0 m f w =
    (case GetUpdatedPod h pod0 w of
       Inl err \<Rightarrow> Some (('''', Some err), f, w)
     | Inr pod \<Rightarrow>
         if \<not> PodEligibleToPreemptOthers pod (ph_snapshot h) (status_at m (pod_NominatedNodeName pod))
         then Some (('''', None), f, w)
         else case FindCandidates h ch f state pod m pdbLister w of
           None \<Rightarrow> None
         | Some (Inl err, w1) \<Rightarrow> Some (('''', Some err), f, w1)
         | Some (Inr candidates, w1) \<Rightarrow>
             if length candidates = 0 then Some (('''', None), f, w1)
             else case CallExtenders ch (ph_Extenders h) pod (ph_snapshot h) candidates of
               Inl err \<Rightarrow> Some (('''', Some err), f, w1)
             | Inr candidates \<Rightarrow>
                 (case SelectCandidate ch candidates of
                    None \<Rightarrow> None
                  | Some None \<Rightarrow> Some (('''', None), f, w1)
                  | Some (Some bestCandidate) \<Rightarrow>
                      if length (cand_name bestCandidate) = 0 then Some (('''', None), f, w1)
                      else case PrepareCandidate h bestCandidate pod f w1 of
                        (Some err, f', w2) \<Rightarrow> Some (('''', Some err), f', w2)
                      | (None, f', w2) \<Rightarrow> Some ((cand_name bestCandidate, None), f', w2)))"

text \<open>The result names the nominated node.\<close>

definition Preemption_PostFilter :: "('d, 'w) preempt_handle \<Rightarrow> preempt_choices \<Rightarrow> (error + PodDisruptionBudget list) option \<Rightarrow>
    'd CycleState \<Rightarrow> Pod \<Rightarrow> NodeToStatusMap \<Rightarrow> ('a, 'd, 'w) frameworkImpl \<Rightarrow> 'w \<Rightarrow>
    ((string option \<times> Status) \<times> ('a, 'd, 'w) frameworkImpl \<times> 'w) option" where
  "Preemption_PostFilter h ch pdbLister state pod m f w =
    map_option (\<lambda>((nnn, err), f', w').
        ((case err of
            Some e \<Rightarrow> (None, NewStatus Error [e])
          | None \<Rightarrow> if nnn = '''' then (None, NewStatus Unschedulable []) else (Some nnn, NewStatus Success [])), f', w'))
      (preempt h ch pdbLister state pod m f w)"

subsection \<open>Nothing is ever preempted\<close>

text \<open>All pods have the same priority, so no pod of a node has a lower one than the preemptor.\<close>

lemma remove_lower_nothing: "remove_lower f gen w pod ps potentialVictims sim = Some (Inr (potentialVictims, sim))"
  by (induction ps) (simp_all add: GetPodPriority_def)

lemma selectVictimsOnNode_none: "selectVictimsOnNode h ch f w state pod nodeInfo pdbs = Some ([], 0, False)"
  by (simp add: selectVictimsOnNode_def remove_lower_nothing)

lemma dryRunPreemption_empty: "dryRunPreemption h ch f w state pod nodes pdbs = Some []"
proof -
  have "dry_run h ch f w state pod pdbs ns = Some []" for ns
    by (induction ns) (simp_all add: selectVictimsOnNode_none)
  then show ?thesis by (simp add: dryRunPreemption_def)
qed

lemma potential_nodes: "\<forall>n\<in>set ns. ni_node n \<noteq> None \<Longrightarrow> \<exists>ps. nodesWherePreemptionMightHelp ns m = Some ps"
  by (induction ns) (auto split: option.splits)

text \<open>
  C14: \<open>DefaultPreemption\<close> never preempts. On every cluster, for every pod, status map, extender and disruption
  budget, \<open>PostFilter\<close> returns (no node of the snapshot is a nil node) without a nominated node, as
  unschedulable or as an error; no pod is deleted and no waiting pod rejected. All that can happen to the API server is
  that the nomination of the pod itself is cleared. The reason is that \<open>GetPodPriority\<close> is constant, so that
  no pod has a lower priority than the preemptor.\<close>

theorem preemption_never_preempts:
  assumes "\<forall>n\<in>set (Snapshot_List (ph_snapshot h)). ni_node n \<noteq> None"
  shows "\<exists>st w'. Preemption_PostFilter h ch pdbLister state pod m f w = Some ((None, st), f, w') \<and>
    (st_code st = Unschedulable \<or> st_code st = Error) \<and>
    (w' = w \<or> (\<exists>pod'. GetUpdatedPod h pod w = Inr pod' \<and> w' = snd (ClearNominatedNodeName (ph_world h) [pod'] w)))"
proof (cases "GetUpdatedPod h pod w")
  case (Inr pod')
  obtain ps where ps: "nodesWherePreemptionMightHelp (Snapshot_List (ph_snapshot h)) m = Some ps"
    using potential_nodes [OF assms] by blast
  have "\<exists>r w'. FindCandidates h ch f state pod' m pdbLister w = Some (r, w') \<and> ((\<exists>e. r = Inl e) \<or> r = Inr []) \<and>
      (w' = w \<or> w' = snd (ClearNominatedNodeName (ph_world h) [pod'] w))"
    using ps by (auto simp: FindCandidates_def dryRunPreemption_empty Let_def split: sum.split)
  then show ?thesis using Inr
    by (auto simp: Preemption_PostFilter_def preempt_def NewStatus_def split: if_splits)
qed (simp add: Preemption_PostFilter_def preempt_def NewStatus_def)

subsection \<open>The node that would be picked\<close>

lemma keep_least_eq:
  assumes "\<forall>n\<in>set nodes. value n = Some (g n)"
  shows "keep_least value nodes least kept = Some
    (if \<exists>n\<in>set nodes. g n < least then filter (\<lambda>n. \<forall>n'\<in>set nodes. g n \<le> g n') nodes
     else kept @ filter (\<lambda>n. g n = least) nodes)"
  using assms
proof (induction nodes arbitrary: least kept)
  case (Cons n nodes)
  have IH: "keep_least value nodes least kept = Some
    (if \<exists>n\<in>set nodes. g n < least then filter (\<lambda>n. \<forall>n'\<in>set nodes. g n \<le> g n') nodes
     else kept @ filter (\<lambda>n. g n = least) nodes)" for least kept
    using Cons by simp
  consider "g n < least" | "g n = least" | "g n > least" by linarith
  then show ?case
  proof cases
    case 1
    have "filter (\<lambda>x. \<forall>n'\<in>set nodes. g x \<le> g n') nodes = filter (\<lambda>x. g x \<le> g n \<and> (\<forall>n'\<in>set nodes. g x \<le> g n')) nodes"
      if "\<exists>n'\<in>set nodes. g n' < g n"
      using that by (intro filter_cong) force+
    moreover have "filter (\<lambda>x. g x = g n) nodes = filter (\<lambda>x. g x \<le> g n \<and> (\<forall>n'\<in>set nodes. g x \<le> g n')) nodes"
      if "\<not> (\<exists>n'\<in>set nodes. g n' < g n)"
      using that by (intro filter_cong) force+
    ultimately show ?thesis using 1 Cons.prems by (auto simp: IH not_le)
  next
    case 2
    have "filter (\<lambda>x. \<forall>n'\<in>set nodes. g x \<le> g n') nodes = filter (\<lambda>x. g x \<le> g n \<and> (\<forall>n'\<in>set nodes. g x \<le> g n')) nodes"
      if "\<exists>n'\<in>set nodes. g n' < g n"
      using that by (intro filter_cong) force+
    then show ?thesis using 2 Cons.prems by (auto simp: IH)
  next
    case 3
    have "filter (\<lambda>x. \<forall>n'\<in>set nodes. g x \<le> g n') nodes = filter (\<lambda>x. g x \<le> g n \<and> (\<forall>n'\<in>set nodes. g x \<le> g n')) nodes"
      if "\<exists>n'\<in>set nodes. g n' < least"
      using that 3 by (intro filter_cong) force+
    then show ?thesis using 3 Cons.prems by (auto simp: IH)
  qed
qed simp

corollary keep_least_filter:
  assumes "\<forall>n\<in>set nodes. value n = Some (g n) \<and> g n \<le> bound" "nodes \<noteq> []"
  shows "keep_least value nodes bound [] = Some (filter (\<lambda>n. \<forall>n'\<in>set nodes. g n \<le> g n') nodes)"
proof (cases "\<exists>n\<in>set nodes. g n < bound")
  case True
  then show ?thesis using assms by (simp add: keep_least_eq [where g = g])
next
  case False
  then have "\<forall>n\<in>set nodes. g n = bound" using assms by force
  then show ?thesis using assms False by (simp add: keep_least_eq [where g = g] cong: filter_cong)
qed

lemma filter_least_nonempty: "nodes \<noteq> [] \<Longrightarrow> filter (\<lambda>n. \<forall>n'\<in>set nodes. (g n :: int) \<le> g n') nodes \<noteq> []"
proof -
  assume "nodes \<noteq> []"
  then obtain n where "n \<in> set nodes" "g n = Min (g ` set nodes)"
    using Min_in [of "g ` set nodes"] by fastforce
  then show ?thesis by (auto simp: filter_empty_conv intro!: bexI [of _ n])
qed

text \<open>The victims of a node, and when one choice of victims is no worse than another.\<close>

definition started :: "Victims \<Rightarrow> bool" where
  "started v \<longleftrightarrow> vic_Pods v \<noteq> [] \<and> (\<forall>p\<in>set (vic_Pods v). pod_StartTime p \<noteq> None)"

definition first_start :: "Victims \<Rightarrow> int" where
  "first_start v = Min ((the \<circ> pod_StartTime) ` set (vic_Pods v))"

definition no_worse :: "Victims \<Rightarrow> Victims \<Rightarrow> bool" where
  "no_worse v v' \<longleftrightarrow> vic_NumPDBViolations v < vic_NumPDBViolations v' \<or>
    vic_NumPDBViolations v = vic_NumPDBViolations v' \<and>
      (length (vic_Pods v) < length (vic_Pods v') \<or>
       length (vic_Pods v) = length (vic_Pods v') \<and> first_start v' \<le> first_start v)"

lemma earliest_loop_min:
  assumes "\<forall>p\<in>set pods. pod_StartTime p \<noteq> None"
  shows "\<exists>k'. earliest_loop clk k pods 0 e = (fold min (map (the \<circ> pod_StartTime) pods) e, k')"
  using assms
proof (induction pods arbitrary: k e)
  case (Cons p pods)
  obtain t where t: "pod_StartTime p = Some t" using Cons.prems by auto
  show ?case
  proof (cases "t < e")
    case True
    then show ?thesis using Cons.IH [of "k + 2" t] Cons.prems t
      by (simp add: GetPodPriority_def GetPodStartTime_def min_def)
  next
    case False
    then show ?thesis using Cons.IH [of "k + 1" e] Cons.prems t
      by (cases "t = e") (simp_all add: GetPodPriority_def GetPodStartTime_def min_def)
  qed
qed simp

lemma GetEarliest_first_start: "started v \<Longrightarrow> \<exists>k'. GetEarliestPodStartTime clk k v = (Some (first_start v), k')"
proof -
  assume s: "started v"
  then obtain p ps where v: "vic_Pods v = p # ps" by (cases "vic_Pods v") (auto simp: started_def)
  then obtain t where t: "pod_StartTime p = Some t" using s by (auto simp: started_def)
  obtain k' where "earliest_loop clk (k + 1) (vic_Pods v) 0 t = (fold min (map (the \<circ> pod_StartTime) (vic_Pods v)) t, k')"
    using earliest_loop_min [of "vic_Pods v" clk "k + 1" t] s by (auto simp: started_def)
  moreover have "fold min (map (the \<circ> pod_StartTime) (vic_Pods v)) t = first_start v"
  proof -
    have "fold min (map (the \<circ> pod_StartTime) (vic_Pods v)) t = Min (set (map (the \<circ> pod_StartTime) (vic_Pods v)))"
      using Min.set_eq_fold [of t "map (the \<circ> pod_StartTime) ps"] by (simp add: v t)
    then show ?thesis by (simp add: first_start_def)
  qed
  ultimately show ?thesis
    using v t by (simp add: GetEarliestPodStartTime_def GetPodPriority_def GetPodStartTime_def)
qed

lemma latest_loop_max:
  assumes "\<forall>n\<in>set nodes. \<exists>v. gm_get m n = Some v \<and> started v" "gm_get m r = Some v0" "first_start v0 = t"
  shows "\<exists>n v. latest_loop m clk k nodes t r = Some n \<and> n \<in> insert r (set nodes) \<and> gm_get m n = Some v \<and> t \<le> first_start v \<and>
    (\<forall>n'\<in>set nodes. first_start (the (gm_get m n')) \<le> first_start v)"
  using assms
proof (induction nodes arbitrary: k t r v0)
  case (Cons n nodes)
  obtain v where v: "gm_get m n = Some v" "started v" using Cons.prems by auto
  obtain k' where k': "GetEarliestPodStartTime clk k v = (Some (first_start v), k')" using GetEarliest_first_start [OF v(2)] by blast
  show ?case
  proof (cases "first_start v > t")
    case True
    obtain n' v' where "latest_loop m clk k' nodes (first_start v) n = Some n'" "n' \<in> insert n (set nodes)"
        "gm_get m n' = Some v'" "first_start v \<le> first_start v'" "\<forall>x\<in>set nodes. first_start (the (gm_get m x)) \<le> first_start v'"
      using Cons.IH [of n v "first_start v" k'] Cons.prems(1) v(1) by auto
    then show ?thesis using True v(1) k' by (intro exI [of _ n'] exI [of _ v']) auto
  next
    case False
    obtain n' v' where "latest_loop m clk k' nodes t r = Some n'" "n' \<in> insert r (set nodes)"
        "gm_get m n' = Some v'" "t \<le> first_start v'" "\<forall>x\<in>set nodes. first_start (the (gm_get m x)) \<le> first_start v'"
      using Cons.IH [of r v0 t k'] Cons.prems by auto
    then show ?thesis using False v(1) k' by (intro exI [of _ n'] exI [of _ v']) auto
  qed
qed simp

definition least_of :: "(string \<Rightarrow> int) \<Rightarrow> string list \<Rightarrow> string list" where
  "least_of g xs = filter (\<lambda>n. \<forall>n'\<in>set xs. g n \<le> g n') xs"

lemma least_of_cases: "a \<in> set (least_of g xs) \<Longrightarrow> b \<in> set xs \<Longrightarrow> g a < g b \<or> g a = g b \<and> b \<in> set (least_of g xs)"
  by (auto simp: least_of_def)

lemma least_of_nonempty: "xs \<noteq> [] \<Longrightarrow> least_of g xs \<noteq> []"
  unfolding least_of_def by (rule filter_least_nonempty)

lemma least_of_const: "least_of (\<lambda>_. c) xs = xs"
  by (simp add: least_of_def)

lemma least_of_least: "least_of g (least_of g xs) = least_of g xs"
  unfolding least_of_def filter_filter by (rule filter_cong) auto

lemma least_of_mono: "(\<And>x y. x \<in> set xs \<Longrightarrow> y \<in> set xs \<Longrightarrow> f x \<le> f y \<longleftrightarrow> g x \<le> g y) \<Longrightarrow> least_of f xs = least_of g xs"
  unfolding least_of_def by (rule filter_cong) auto

lemma equal_priorities_sum:
  assumes "int (length pods) \<le> MaxInt32"
  shows "fold (\<lambda>pod s. i64 (s + i64 (GetPodPriority pod + (MaxInt32 + 1)))) pods 0 = int (length pods) * 2 ^ 31"
proof -
  have "in64 s \<Longrightarrow> fold (\<lambda>pod s. i64 (s + i64 (GetPodPriority pod + (MaxInt32 + 1)))) pods s = i64 (s + int (length pods) * 2 ^ 31)" for s
    by (induction pods arbitrary: s) (simp_all add: GetPodPriority_def MaxInt32_def i64_id algebra_simps)
  moreover have "in64 (int (length pods) * 2 ^ 31)" using assms by (simp add: in64_def MaxInt32_def)
  ultimately show ?thesis by (simp add: in64_def i64_id)
qed

text \<open>What the loops work on: the nodes with the fewest violations, and among them those with the fewest victims.\<close>

definition victims_of :: "(string, Victims) gomap \<Rightarrow> string \<Rightarrow> Victims" where
  "victims_of m n = the (gm_get m n)"

definition fewest_violations :: "preempt_choices \<Rightarrow> (string, Victims) gomap \<Rightarrow> string list" where
  "fewest_violations ch m = least_of (\<lambda>n. vic_NumPDBViolations (victims_of m n)) (pc_range ch m)"

definition fewest_victims :: "preempt_choices \<Rightarrow> (string, Victims) gomap \<Rightarrow> string list" where
  "fewest_victims ch m = least_of (\<lambda>n. int (length (vic_Pods (victims_of m n)))) (fewest_violations ch m)"

definition victims_ok :: "preempt_choices \<Rightarrow> (string, Victims) gomap \<Rightarrow> bool" where
  "victims_ok ch m \<longleftrightarrow> m \<noteq> [] \<and> set (pc_range ch m) = set (gm_keys m) \<and>
    (\<forall>n v. gm_get m n = Some v \<longrightarrow> started v \<and> vic_NumPDBViolations v \<le> MaxInt32 \<and> int (length (vic_Pods v)) \<le> MaxInt32)"

lemma fewest_subset:
  "set (fewest_victims ch m) \<subseteq> set (fewest_violations ch m)" "set (fewest_violations ch m) \<subseteq> set (pc_range ch m)"
  by (auto simp: fewest_victims_def fewest_violations_def least_of_def)

lemma in_range: "victims_ok ch m \<Longrightarrow> n \<in> set (pc_range ch m) \<longleftrightarrow> (\<exists>v. gm_get m n = Some v)"
  by (auto simp: victims_ok_def gm_get_eq_None simp flip: not_None_eq)

lemma victims_okD:
  assumes "victims_ok ch m" "n \<in> set (pc_range ch m)"
  shows "\<exists>v p ps. gm_get m n = Some v \<and> victims_of m n = v \<and> started v \<and> vic_Pods v = p # ps \<and>
    vic_NumPDBViolations v \<le> MaxInt32 \<and> int (length (vic_Pods v)) \<le> MaxInt32"
proof -
  obtain v where v: "gm_get m n = Some v" using assms in_range by auto
  then have o: "started v" "vic_NumPDBViolations v \<le> MaxInt32" "int (length (vic_Pods v)) \<le> MaxInt32"
    using assms(1) by (auto simp: victims_ok_def)
  then obtain p ps where "vic_Pods v = p # ps" by (cases "vic_Pods v") (auto simp: started_def)
  then show ?thesis using v o by (simp add: victims_of_def)
qed

lemma fewest_nonempty: "victims_ok ch m \<Longrightarrow> fewest_violations ch m \<noteq> [] \<and> fewest_victims ch m \<noteq> []"
proof -
  assume "victims_ok ch m"
  then have "pc_range ch m \<noteq> []" by (auto simp: victims_ok_def)
  then show ?thesis by (simp add: fewest_victims_def fewest_violations_def least_of_nonempty)
qed

text \<open>The four loops.\<close>

lemma keep_violations:
  assumes ok: "victims_ok ch m"
  shows "keep_least (\<lambda>node. map_option vic_NumPDBViolations (gm_get m node)) (pc_range ch m) MaxInt32 [] = Some (fewest_violations ch m)"
  unfolding fewest_violations_def least_of_def
proof (rule keep_least_filter)
  show "\<forall>n\<in>set (pc_range ch m). map_option vic_NumPDBViolations (gm_get m n) = Some (vic_NumPDBViolations (victims_of m n)) \<and>
      vic_NumPDBViolations (victims_of m n) \<le> MaxInt32"
    using victims_okD [OF ok] by fastforce
  show "pc_range ch m \<noteq> []" using ok by (auto simp: victims_ok_def)
qed

lemma keep_priorities:
  assumes ok: "victims_ok ch m"
  shows "keep_least (highestPodPriority m) (fewest_violations ch m) MaxInt32 [] = Some (fewest_violations ch m)"
  using keep_least_filter [of "fewest_violations ch m" "highestPodPriority m" "\<lambda>_. 0" MaxInt32] victims_okD [OF ok]
    fewest_subset fewest_nonempty [OF ok]
  by (fastforce simp: highestPodPriority_def GetPodPriority_def MaxInt32_def)

lemma keep_sums:
  assumes ok: "victims_ok ch m"
  shows "keep_least (sumPriorities m) (fewest_violations ch m) MaxInt64 [] = Some (fewest_victims ch m)"
proof -
  let ?N = "\<lambda>n. int (length (vic_Pods (victims_of m n)))"
  have "sumPriorities m n = Some (?N n * 2 ^ 31) \<and> ?N n * 2 ^ 31 \<le> MaxInt64" if n: "n \<in> set (fewest_violations ch m)" for n
  proof -
    obtain v where v: "gm_get m n = Some v" "victims_of m n = v" "int (length (vic_Pods v)) \<le> MaxInt32"
      using victims_okD [OF ok, of n] n fewest_subset(2) by auto
    have "sumPriorities m n = Some (?N n * 2 ^ 31)"
      unfolding sumPriorities_def v(1,2) option.map equal_priorities_sum [OF v(3)] by (rule refl)
    then show ?thesis using v by (simp add: MaxInt32_def MaxInt64_def)
  qed
  then have "keep_least (sumPriorities m) (fewest_violations ch m) MaxInt64 [] = Some (least_of (\<lambda>n. ?N n * 2 ^ 31) (fewest_violations ch m))"
    unfolding least_of_def by (intro keep_least_filter) (use fewest_nonempty [OF ok] in blast)+
  also have "least_of (\<lambda>n. ?N n * 2 ^ 31) (fewest_violations ch m) = fewest_victims ch m"
    unfolding fewest_victims_def by (rule least_of_mono) simp
  finally show ?thesis .
qed

lemma keep_numbers:
  assumes ok: "victims_ok ch m"
  shows "keep_least (numPods m) (fewest_victims ch m) MaxInt32 [] = Some (fewest_victims ch m)"
proof -
  let ?N = "\<lambda>n. int (length (vic_Pods (victims_of m n)))"
  have "numPods m n = Some (?N n) \<and> ?N n \<le> MaxInt32" if n: "n \<in> set (fewest_victims ch m)" for n
    using victims_okD [OF ok, of n] n fewest_subset by (fastforce simp: numPods_def)
  then have "keep_least (numPods m) (fewest_victims ch m) MaxInt32 [] = Some (least_of ?N (fewest_victims ch m))"
    unfolding least_of_def by (intro keep_least_filter) (use fewest_nonempty [OF ok] in blast)+
  then show ?thesis by (simp add: fewest_victims_def least_of_least)
qed

text \<open>A node that is kept is no worse than one that is not.\<close>

lemma fewest_violations_no_worse:
  assumes "a \<in> set (fewest_violations ch m)" "b \<in> set (pc_range ch m)"
    and "b \<in> set (fewest_violations ch m) \<Longrightarrow> no_worse (victims_of m a) (victims_of m b)"
  shows "no_worse (victims_of m a) (victims_of m b)"
  using least_of_cases [OF assms(1) [unfolded fewest_violations_def] assms(2)] assms(3)
  by (auto simp: fewest_violations_def no_worse_def)

lemma fewest_victims_no_worse:
  assumes a: "a \<in> set (fewest_victims ch m)" and b: "b \<in> set (pc_range ch m)"
    and start: "b \<in> set (fewest_victims ch m) \<Longrightarrow> first_start (victims_of m b) \<le> first_start (victims_of m a)"
  shows "no_worse (victims_of m a) (victims_of m b)"
proof (rule fewest_violations_no_worse [OF _ b])
  show a': "a \<in> set (fewest_violations ch m)" using a fewest_subset by auto
  assume b': "b \<in> set (fewest_violations ch m)"
  have "vic_NumPDBViolations (victims_of m a) = vic_NumPDBViolations (victims_of m b)"
    using a' b' by (auto simp: fewest_violations_def least_of_def intro: antisym)
  then show "no_worse (victims_of m a) (victims_of m b)"
    using least_of_cases [OF a [unfolded fewest_victims_def] b'] start by (auto simp: fewest_victims_def no_worse_def)
qed

text \<open>
  C15: With a constant priority \<open>pickOneNodeForPreemption\<close>, for every order in which the map is ranged over, returns a node
  that no other is better than: it has the least number of violated budgets, among those the least number of victims,
  and among those the latest of the times at which the first victim was started. It neither panics nor reads the
  clock, given that every node has victims, all of them have a start time, and the numbers fit into 32 bits.\<close>

theorem pickOneNode_best:
  assumes "m \<noteq> []" "set (pc_range ch m) = set (gm_keys m)"
    and "\<forall>n v. gm_get m n = Some v \<longrightarrow> started v \<and> vic_NumPDBViolations v \<le> MaxInt32 \<and> int (length (vic_Pods v)) \<le> MaxInt32"
  shows "\<exists>n v. pickOneNodeForPreemption ch m = Some n \<and> gm_get m n = Some v \<and>
    (\<forall>n' v'. gm_get m n' = Some v' \<longrightarrow> no_worse v v')"
proof -
  let ?R = "pc_range ch m" and ?B = "fewest_violations ch m" and ?C = "fewest_victims ch m"
  have ok: "victims_ok ch m" using assms by (simp add: victims_ok_def)
  have picked: ?thesis if "pickOneNodeForPreemption ch m = Some a" "a \<in> set ?R" "\<forall>b\<in>set ?R. no_worse (victims_of m a) (victims_of m b)" for a
    using that in_range [OF ok] by (metis option.sel victims_of_def)
  note pick = pickOneNodeForPreemption_def keep_violations [OF ok] keep_priorities [OF ok] keep_sums [OF ok] keep_numbers [OF ok]
  consider a where "?B = [a]" | a where "length ?B \<noteq> 1" "?C = [a]" | "length ?B \<noteq> 1" "length ?C \<noteq> 1"
    by (metis One_nat_def length_0_conv length_Suc_conv)
  then show ?thesis
  proof cases
    case (1 a)
    then have "\<forall>b\<in>set ?R. no_worse (victims_of m a) (victims_of m b)"
      using fewest_violations_no_worse [of a ch m] by (auto simp: no_worse_def)
    moreover have "a \<in> set ?R" using 1 fewest_subset [where ch = ch and m = m] by auto
    ultimately show ?thesis using picked [of a] 1 assms(1) by (simp add: pick)
  next
    case (2 a)
    then have "\<forall>b\<in>set ?R. no_worse (victims_of m a) (victims_of m b)" using fewest_victims_no_worse [of a ch m] by auto
    moreover have "a \<in> set ?R" using 2 fewest_subset [where ch = ch and m = m] by auto
    ultimately show ?thesis using picked [of a] 2 assms(1) by (simp add: pick)
  next
    case 3
    obtain c cs where C: "?C = c # cs" using fewest_nonempty [OF ok] by (cases ?C) auto
    have started: "\<exists>v. gm_get m n = Some v \<and> started v" if "n \<in> set ?C" for n
      using victims_okD [OF ok, of n] that fewest_subset by blast
    then obtain v where v: "gm_get m c = Some v" "started v" using C by auto
    obtain k where k: "GetEarliestPodStartTime (pc_clk ch) 2 v = (Some (first_start v), k)" using GetEarliest_first_start [OF v(2)] by blast
    have "\<forall>n\<in>set cs. \<exists>v. gm_get m n = Some v \<and> started v" using started C by simp
    from latest_loop_max [OF this v(1) refl, of "pc_clk ch" k] obtain a va where
      a: "latest_loop m (pc_clk ch) k cs (first_start v) c = Some a" "a \<in> set ?C" "gm_get m a = Some va"
        "\<forall>b\<in>set ?C. first_start (victims_of m b) \<le> first_start va"
      using C v(1) by (auto simp: victims_of_def)
    have "\<forall>b\<in>set ?R. no_worse (victims_of m a) (victims_of m b)"
      using fewest_victims_no_worse [OF a(2)] a(3,4) by (simp add: victims_of_def)
    moreover have "pick_by_start_time m (pc_clk ch) ?C ?B = Some a"
      using a(1) C v(1) k by (simp add: pick_by_start_time_def)
    then have "pickOneNodeForPreemption ch m = Some a" using 3 assms(1) by (simp add: pick)
    ultimately show ?thesis using picked [of a] a(2) fewest_subset by blast
  qed
qed

subsection \<open>Witnesses\<close>

text \<open>Two nodes with one victim each: the victim that was started last is given up.\<close>

definition victim_at :: "int \<Rightarrow> Victims" where
  "victim_at t = \<lparr>vic_Pods = [zero_pod\<lparr>pod_StartTime := Some t\<rparr>], vic_NumPDBViolations = 0\<rparr>"

definition demo_choices :: preempt_choices where
  "demo_choices = \<lparr>pc_order = [], pc_range = (\<lambda>m. rev (gm_keys m)), pc_sort = (\<lambda>_ ps. ps), pc_clk = int, pc_gen = 0\<rparr>"

theorem pickOneNode_best_witness:
  "pickOneNodeForPreemption demo_choices [(''a'', victim_at 5), (''b'', victim_at 3)] = Some ''a''"
proof -
  let ?m = "[(''a'', victim_at 5), (''b'', victim_at 3)]"
  have get: "gm_get ?m n = (if n = ''a'' then Some (victim_at 5) else if n = ''b'' then Some (victim_at 3) else None)" for n
    by (simp add: gm_get_def)
  have "started (victim_at t)" "vic_NumPDBViolations (victim_at t) \<le> MaxInt32" "int (length (vic_Pods (victim_at t))) \<le> MaxInt32"
      "first_start (victim_at t) = t" "vic_NumPDBViolations (victim_at t) = 0" "length (vic_Pods (victim_at t)) = 1" for t
    by (simp_all add: victim_at_def started_def MaxInt32_def first_start_def)
  note facts = this
  have "\<exists>n v. pickOneNodeForPreemption demo_choices ?m = Some n \<and> gm_get ?m n = Some v \<and>
      (\<forall>n' v'. gm_get ?m n' = Some v' \<longrightarrow> no_worse v v')"
  proof (rule pickOneNode_best)
    show "set (pc_range demo_choices ?m) = set (gm_keys ?m)" by (auto simp: demo_choices_def)
    show "\<forall>n v. gm_get ?m n = Some v \<longrightarrow> started v \<and> vic_NumPDBViolations v \<le> MaxInt32 \<and> int (length (vic_Pods v)) \<le> MaxInt32"
      unfolding get using facts(1-3) by simp
  qed simp
  then obtain n v where nv: "pickOneNodeForPreemption demo_choices ?m = Some n" "gm_get ?m n = Some v"
      "\<forall>n' v'. gm_get ?m n' = Some v' \<longrightarrow> no_worse v v'"
    by blast
  moreover have "no_worse v (victim_at 5)" using nv(3) get [of "''a''"] by auto
  moreover have "\<not> no_worse (victim_at 3) (victim_at 5)" by (simp add: no_worse_def facts(4-6))
  ultimately show ?thesis unfolding get by (auto split: if_splits)
qed

definition demo_handle :: "(unit, unit) preempt_handle" where
  "demo_handle =
    \<lparr>ph_world = \<lparr>wa_externals = \<lparr>ex_asSelector = (\<lambda>_. Inl ''''), ex_clone = id, ex_share = (\<lambda>_ w. w),
         ex_pvcLister = (\<lambda>_ _. Inl ''''), ex_IsControlledBy = (\<lambda>_ _. False), ex_MaxExtenderPriority = 10\<rparr>,
       wa_podLister = (\<lambda>_ _ _. Inl ''''), wa_missingNode = (\<lambda>_ _. None), wa_UpdatePodCondition = (\<lambda>cs _. (False, cs)),
       wa_Marshal = (\<lambda>_. Inl ''''), wa_CreateTwoWayMergePatch = (\<lambda>_ _. Inl ''''), wa_Patch = (\<lambda>_ _ _ w. (None, w))\<rparr>,
     ph_Get = (\<lambda>_ _ _. Inr zero_pod), ph_Delete = (\<lambda>_ _ w. (None, w)), ph_Extenders = [], ph_nominator = NewPodNominator,
     ph_snapshot = \<lparr>sn_store = [(0, zero_NodeInfo\<lparr>ni_node := Some zero_node\<rparr>)], sn_fresh = 1, sn_nodeInfoMap = [('''', 0)],
       sn_nodeInfoList = [0], sn_havePodsWithAffinity = [], sn_generation = 0\<rparr>,
     ph_selectorEmpty = (\<lambda>_. False)\<rparr>"

theorem preemption_never_preempts_witness:
  "\<forall>f. \<exists>st. Preemption_PostFilter demo_handle demo_choices getPDBLister NewCycleState zero_pod [] f () = Some ((None, st), f, ())"
  using preemption_never_preempts [of demo_handle demo_choices getPDBLister NewCycleState zero_pod "[]"]
  by (simp add: demo_handle_def Snapshot_List_def sn_info_def gm_get_def) blast

end
