(* ===== verification/Service_Plugins.thy ===== *)
theory Service_Plugins
  imports Topology_Spread
begin

text \<open>
  The plugins that look at services and controllers: \<open>ServiceAffinity\<close>
  (\<^verbatim>\<open>plugins/serviceaffinity/service_affinity.go\<close>) and \<open>SelectorSpread\<close>
  (\<^verbatim>\<open>plugins/selectorspread/selector_spread.go\<close>), with \<open>VolumeZone\<close> (\<^verbatim>\<open>plugins/volumezone\<close>) and
  \<open>DefaultBinder\<close> (\<^verbatim>\<open>plugins/defaultbinder\<close>).

  The package of label selectors and the listers are the parameters of \<open>Topology_Spread\<close>;
  \<open>SelectorFromSet\<close> and the method \<open>AsSelector\<close> of a label set are the same function of that package.
\<close>

record 's service_labels = "'s label_ops" +
  sl_Everything :: 's

subsection \<open>service_affinity.go\<close>

definition ServiceAffinityName :: string where "ServiceAffinityName = ''ServiceAffinity''"

definition service_preFilterStateKey :: string where "service_preFilterStateKey = ''PreFilter'' @ ServiceAffinityName"

definition ErrReasonServiceAffinity :: string where
  "ErrReasonServiceAffinity = ''node(s) didn'' @ [go_quote] @ ''t match service affinity''"

definition service_getArgs :: "PluginArgs \<Rightarrow> error + ServiceAffinityArgs" where
  "service_getArgs obj = (case obj of ServiceAffinityArgs a \<Rightarrow> Inr a | _ \<Rightarrow> Inl (want_args ''ServiceAffinityArgs'' obj))"

definition NewServiceAffinity :: "PluginArgs \<Rightarrow> error + ServiceAffinityArgs" where
  "NewServiceAffinity plArgs = (case service_getArgs plArgs of Inl err \<Rightarrow> Inl err | Inr args \<Rightarrow> Inr args)"

definition addUnsetLabelsToMap :: "labelset \<Rightarrow> string list \<Rightarrow> labelset \<Rightarrow> labelset" where
  "addUnsetLabelsToMap aL labelsToAdd labelSet =
    fold (\<lambda>l aL. if gm_has aL l then aL
        else case gm_get labelSet l of None \<Rightarrow> aL | Some v \<Rightarrow> gm_put aL l v) labelsToAdd aL"

definition createSelectorFromLabels :: "('s, 'e) service_labels_scheme \<Rightarrow> labelset \<Rightarrow> 's" where
  "createSelectorFromLabels lo aL = (if length aL = 0 then sl_Everything lo else lo_AsSelector lo aL)"

definition filterPods :: "('s, 'e) service_labels_scheme \<Rightarrow> NodeInfo list \<Rightarrow> 's \<Rightarrow> string \<Rightarrow> Pod list" where
  "filterPods lo nodeInfos sel ns =
    concat (map (\<lambda>n. map pi_Pod (filter (\<lambda>p. pod_Namespace (pi_Pod p) = ns \<and> lo_Matches lo sel (pod_Labels (pi_Pod p))) (ni_Pods n)))
      nodeInfos)"

definition findLabelsInSet :: "string list \<Rightarrow> labelset \<Rightarrow> labelset" where
  "findLabelsInSet labelsToKeep sel =
    fold (\<lambda>l aL. case gm_get sel l of None \<Rightarrow> aL | Some v \<Rightarrow> gm_put aL l v) labelsToKeep []"

definition createPreFilterState :: "('s, 'e) service_labels_scheme \<Rightarrow> listers \<Rightarrow> Snapshot \<Rightarrow> Pod \<Rightarrow> error + servicePreFilterState" where
  "createPreFilterState lo li snapshot pod =
    (case GetPodServices (label_ops.truncate lo) li pod of
       Inl err \<Rightarrow> Inl (''listing pod services: '' @ err)
     | Inr services \<Rightarrow>
         Inr \<lparr>matchingPodList =
                filterPods lo (Snapshot_List snapshot) (createSelectorFromLabels lo (pod_Labels pod)) (pod_Namespace pod),
              matchingPodServices = services\<rparr>)"

definition Service_PreFilter :: "('s, 'e) service_labels_scheme \<Rightarrow> listers \<Rightarrow> ServiceAffinityArgs \<Rightarrow> Snapshot \<Rightarrow> plugin_state \<Rightarrow> Pod \<Rightarrow>
    Status option \<times> plugin_state" where
  "Service_PreFilter lo li args snapshot cycleState pod =
    (if length (sa_AffinityLabels args) = 0 then (None, cycleState)
     else case createPreFilterState lo li snapshot pod of
       Inl err \<Rightarrow> (Some (NewStatus Error [''could not create preFilterState: '' @ err]), cycleState)
     | Inr s \<Rightarrow> (None, CycleState_Write cycleState service_preFilterStateKey (ServiceData s)))"

definition service_getPreFilterState :: "(StateData \<Rightarrow> string) \<Rightarrow> plugin_state \<Rightarrow> error + servicePreFilterState" where
  "service_getPreFilterState show cycleState =
    read_state ''error reading '' ''  convert to interpodaffinity.state error'' show as_ServiceData
      service_preFilterStateKey cycleState"

definition Service_AddPod :: "('s, 'e) service_labels_scheme \<Rightarrow> (StateData \<Rightarrow> string) \<Rightarrow> plugin_state \<Rightarrow> Pod \<Rightarrow> Pod \<Rightarrow>
    Status option \<times> plugin_state" where
  "Service_AddPod lo show cycleState podToSchedule podToAdd =
    (case service_getPreFilterState show cycleState of
       Inl err \<Rightarrow> (Some (NewStatus Error [err]), cycleState)
     | Inr s \<Rightarrow>
         if pod_Namespace podToAdd \<noteq> pod_Namespace podToSchedule then (None, cycleState)
         else if lo_Matches lo (createSelectorFromLabels lo (pod_Labels podToSchedule)) (pod_Labels podToAdd)
         then (None, CycleState_Write cycleState service_preFilterStateKey
                (ServiceData (s\<lparr>matchingPodList := matchingPodList s @ [podToAdd]\<rparr>)))
         else (None, cycleState))"

fun remove_named :: "Pod \<Rightarrow> Pod list \<Rightarrow> Pod list" where
  "remove_named podToRemove [] = []"
| "remove_named podToRemove (pod # pods) =
    (if pod_Name pod = pod_Name podToRemove \<and> pod_Namespace pod = pod_Namespace podToRemove then pods
     else pod # remove_named podToRemove pods)"

definition Service_RemovePod :: "(StateData \<Rightarrow> string) \<Rightarrow> plugin_state \<Rightarrow> Pod \<Rightarrow> Pod \<Rightarrow> Status option \<times> plugin_state" where
  "Service_RemovePod show cycleState podToSchedule podToRemove =
    (case service_getPreFilterState show cycleState of
       Inl err \<Rightarrow> (Some (NewStatus Error [err]), cycleState)
     | Inr s \<Rightarrow>
         (case matchingPodList s of
            [] \<Rightarrow> (None, cycleState)
          | p # _ \<Rightarrow>
              if pod_Namespace podToRemove \<noteq> pod_Namespace p then (None, cycleState)
              else (None, CycleState_Write cycleState service_preFilterStateKey
                (ServiceData (s\<lparr>matchingPodList := remove_named podToRemove (matchingPodList s)\<rparr>)))))"

text \<open>The labels a node has to agree on; \<open>Inl\<close> is the status when the node of the first matching pod is unknown.\<close>

definition wanted_labels :: "ServiceAffinityArgs \<Rightarrow> Snapshot \<Rightarrow> servicePreFilterState \<Rightarrow> Pod \<Rightarrow> NodeInfo \<Rightarrow> Status + labelset" where
  "wanted_labels args snapshot s pod nodeInfo =
    (let filteredPods = FilterOutPods nodeInfo (matchingPodList s);
         affinityLabels = findLabelsInSet (sa_AffinityLabels args) (pod_NodeSelector pod) in
     if length (sa_AffinityLabels args) > length affinityLabels \<and> length (matchingPodServices s) > 0 then
       (case filteredPods of
          [] \<Rightarrow> Inr affinityLabels
        | p # _ \<Rightarrow>
            (case Snapshot_Get snapshot (pod_NodeName p) of
               Inl _ \<Rightarrow> Inl (NewStatus Error [''node not found''])
             | Inr nodeWithAffinityLabels \<Rightarrow>
                 Inr (addUnsetLabelsToMap affinityLabels (sa_AffinityLabels args)
                   (case ni_node nodeWithAffinityLabels of None \<Rightarrow> [] | Some n \<Rightarrow> labels_of n))))
     else Inr affinityLabels)"

definition Service_Filter :: "('s, 'e) service_labels_scheme \<Rightarrow> (StateData \<Rightarrow> string) \<Rightarrow> ServiceAffinityArgs \<Rightarrow> Snapshot \<Rightarrow>
    plugin_state \<Rightarrow> Pod \<Rightarrow> NodeInfo \<Rightarrow> Status option" where
  "Service_Filter lo show args snapshot cycleState pod nodeInfo =
    (if length (sa_AffinityLabels args) = 0 then None
     else case ni_node nodeInfo of
       None \<Rightarrow> Some (NewStatus Error [''node not found''])
     | Some node \<Rightarrow>
         (case service_getPreFilterState show cycleState of
            Inl err \<Rightarrow> Some (NewStatus Error [err])
          | Inr s \<Rightarrow>
              (case wanted_labels args snapshot s pod nodeInfo of
                 Inl st \<Rightarrow> Some st
               | Inr affinityLabels \<Rightarrow>
                   if lo_Matches lo (createSelectorFromLabels lo affinityLabels) (labels_of node) then None
                   else Some (NewStatus Unschedulable [ErrReasonServiceAffinity]))))"

text \<open>\<open>Score\<close> counts the pods of the node that belong to the first service of the pod.\<close>

definition count_pods :: "string \<Rightarrow> selector \<Rightarrow> PodInfo list \<Rightarrow> int" where
  "count_pods namespace sel pods =
    fold (\<lambda>p n. if namespace = pod_Namespace (pi_Pod p) \<and> pod_DeletionTimestamp (pi_Pod p) = None \<and> sel (pod_Labels (pi_Pod p))
        then i64 (n + 1) else n) pods 0"

definition Service_Score :: "('s, 'e) service_labels_scheme \<Rightarrow> listers \<Rightarrow> Snapshot \<Rightarrow> Pod \<Rightarrow> string \<Rightarrow> int \<times> Status option" where
  "Service_Score lo li snapshot pod nodeName =
    (case Snapshot_Get snapshot nodeName of
       Inl err \<Rightarrow> (0, Some (NewStatus Error [''getting node '' @ go_q nodeName @ '' from Snapshot: '' @ err]))
     | Inr nodeInfo \<Rightarrow>
         (case ni_node nodeInfo of
            None \<Rightarrow> (0, Some (NewStatus Error [''node not found'']))
          | Some node \<Rightarrow>
              let sel = (case GetPodServices (label_ops.truncate lo) li pod of
                    Inr (service # _) \<Rightarrow> lo_AsSelector lo (nilmap (svc_Selector service))
                  | _ \<Rightarrow> lo_NewSelector lo) in
              if length (ni_Pods nodeInfo) = 0 \<or> lo_Empty lo sel then (0, None)
              else (count_pods (pod_Namespace pod) (lo_Matches lo sel) (ni_Pods nodeInfo), None)))"

text \<open>The first loop of \<open>updateNodeScoresForLabel\<close>: the number of pods, the value of the label on each node, the pods of each value.\<close>

fun label_counts :: "Snapshot \<Rightarrow> string \<Rightarrow> NodeScoreList \<Rightarrow> int \<times> (string, string) gomap \<times> (string, int) gomap \<Rightarrow>
    error + int \<times> (string, string) gomap \<times> (string, int) gomap" where
  "label_counts snapshot label [] acc = Inr acc"
| "label_counts snapshot label (ns # scores) (numServicePods, labelNodesStatus, podCounts) =
    (let numServicePods = i64 (numServicePods + ns_Score ns) in
     case Snapshot_Get snapshot (ns_Name ns) of
       Inl err \<Rightarrow> Inl err
     | Inr nodeInfo \<Rightarrow>
         (case gm_get (case ni_node nodeInfo of None \<Rightarrow> [] | Some n \<Rightarrow> labels_of n) label of
            None \<Rightarrow> label_counts snapshot label scores (numServicePods, labelNodesStatus, podCounts)
          | Some labelValue \<Rightarrow>
              label_counts snapshot label scores
                (numServicePods, gm_put labelNodesStatus (ns_Name ns) labelValue,
                 gm_put podCounts labelValue (i64 (gm_get0 podCounts labelValue + ns_Score ns)))))"

definition updateNodeScoresForLabel :: "ServiceAffinityArgs \<Rightarrow> Snapshot \<Rightarrow> NodeScoreList \<Rightarrow> string \<Rightarrow> rat list \<Rightarrow> error + rat list" where
  "updateNodeScoresForLabel args snapshot mapResult label reduceResult =
    (case label_counts snapshot label mapResult (0, [], []) of
       Inl err \<Rightarrow> Inl err
     | Inr (numServicePods, labelNodesStatus, podCounts) \<Rightarrow>
         Inr (map2 (\<lambda>ns r.
             case gm_get labelNodesStatus (ns_Name ns) of
               None \<Rightarrow> r
             | Some labelValue \<Rightarrow>
                 let fScore = (if numServicePods > 0
                     then fmul (float64 MaxNodeScore)
                       (fdiv (float64 (i64 (numServicePods - gm_get0 podCounts labelValue))) (float64 numServicePods))
                     else float64 MaxNodeScore)
                 in fadd r (fdiv fScore (float64 (int (length (sa_AntiAffinityLabelsPreference args))))))
           mapResult reduceResult))"

fun update_labels :: "ServiceAffinityArgs \<Rightarrow> Snapshot \<Rightarrow> NodeScoreList \<Rightarrow> string list \<Rightarrow> rat list \<Rightarrow> error + rat list" where
  "update_labels args snapshot scores [] reduceResult = Inr reduceResult"
| "update_labels args snapshot scores (label # labels) reduceResult =
    (case updateNodeScoresForLabel args snapshot scores label reduceResult of
       Inl err \<Rightarrow> Inl err
     | Inr r \<Rightarrow> update_labels args snapshot scores labels r)"

definition Service_NormalizeScore :: "ServiceAffinityArgs \<Rightarrow> Snapshot \<Rightarrow> NodeScoreList \<Rightarrow> NodeScoreList \<times> Status option" where
  "Service_NormalizeScore args snapshot scores =
    (case update_labels args snapshot scores (sa_AntiAffinityLabelsPreference args) (replicate (length scores) 0) of
       Inl err \<Rightarrow> (scores, Some (NewStatus Error [err]))
     | Inr reduceResult \<Rightarrow> (map2 (\<lambda>ns r. ns\<lparr>ns_Score := int64_of r\<rparr>) scores reduceResult, None))"

subsection \<open>selector_spread.go\<close>

definition SelectorSpreadName :: string where "SelectorSpreadName = ''SelectorSpread''"

definition selector_preScoreStateKey :: string where "selector_preScoreStateKey = ''PreScore'' @ SelectorSpreadName"

definition zoneWeighting :: rat where "zoneWeighting = fl (2 / 3)"

definition skipSelectorSpread :: "Pod \<Rightarrow> bool" where
  "skipSelectorSpread pod = (length (pod_TopologySpreadConstraints pod) \<noteq> 0)"

definition countMatchingPods :: "string \<Rightarrow> selectorPreScoreState \<Rightarrow> NodeInfo \<Rightarrow> int" where
  "countMatchingPods namespace s nodeInfo =
    (if length (ni_Pods nodeInfo) = 0 \<or> sel_Empty s then 0
     else count_pods namespace (sel_Matches s) (ni_Pods nodeInfo))"

definition Selector_PreScore :: "'s label_ops \<Rightarrow> listers \<Rightarrow> plugin_state \<Rightarrow> Pod \<Rightarrow> Node list \<Rightarrow> Status option \<times> plugin_state" where
  "Selector_PreScore lo li cycleState pod nodes =
    (if skipSelectorSpread pod then (None, cycleState)
     else
       let sel = DefaultSelector lo li pod in
       (None, CycleState_Write cycleState selector_preScoreStateKey
          (SelectorData \<lparr>sel_Matches = lo_Matches lo sel, sel_Empty = lo_Empty lo sel\<rparr>)))"

definition Selector_Score :: "(StateData \<Rightarrow> string) \<Rightarrow> Snapshot \<Rightarrow> plugin_state \<Rightarrow> Pod \<Rightarrow> string \<Rightarrow> int \<times> Status option" where
  "Selector_Score show snapshot state pod nodeName =
    (if skipSelectorSpread pod then (0, None)
     else
       case read_state ''Error reading '' '' convert to tainttoleration.preScoreState error'' show as_SelectorData
         selector_preScoreStateKey state of
         Inl err \<Rightarrow> (0, Some (NewStatus Error [err]))
       | Inr s \<Rightarrow>
           (case Snapshot_Get snapshot nodeName of
              Inl err \<Rightarrow> (0, Some (NewStatus Error [''getting node '' @ go_q nodeName @ '' from Snapshot: '' @ err]))
            | Inr nodeInfo \<Rightarrow> (countMatchingPods (pod_Namespace pod) s nodeInfo, None)))"

text \<open>The first loop of \<open>NormalizeScore\<close>: the greatest count and the counts by zone.\<close>

fun zone_counts :: "Snapshot \<Rightarrow> NodeScoreList \<Rightarrow> int \<times> (string, int) gomap \<Rightarrow> Status + int \<times> (string, int) gomap" where
  "zone_counts snapshot [] acc = Inr acc"
| "zone_counts snapshot (ns # scores) (maxCountByNodeName, countsByZone) =
    (let maxCount = (if ns_Score ns > maxCountByNodeName then ns_Score ns else maxCountByNodeName) in
     case Snapshot_Get snapshot (ns_Name ns) of
       Inl err \<Rightarrow> Inl (NewStatus Error [''getting node '' @ go_q (ns_Name ns) @ '' from Snapshot: '' @ err])
     | Inr nodeInfo \<Rightarrow>
         let zoneID = GetZoneKey (the (ni_node nodeInfo)) in
         zone_counts snapshot scores
           (maxCount, if zoneID = '''' then countsByZone
              else gm_put countsByZone zoneID (i64 (gm_get0 countsByZone zoneID + ns_Score ns))))"

definition spread_score :: "int \<Rightarrow> int \<Rightarrow> rat" where
  "spread_score maxCount n =
    (if maxCount > 0 then fmul (float64 MaxNodeScore) (fdiv (float64 (i64 (maxCount - n))) (float64 maxCount))
     else float64 MaxNodeScore)"

fun spread_scores :: "Snapshot \<Rightarrow> int \<Rightarrow> (string, int) gomap \<Rightarrow> NodeScoreList \<Rightarrow> NodeScoreList \<times> Status option" where
  "spread_scores snapshot maxCountByNodeName countsByZone [] = ([], None)"
| "spread_scores snapshot maxCountByNodeName countsByZone (ns # scores) =
    (let fScore = spread_score maxCountByNodeName (ns_Score ns);
         maxCountByZone = fold (\<lambda>e m. if snd e > m then snd e else m) countsByZone 0;
         r = (if length countsByZone \<noteq> 0 then
                (case Snapshot_Get snapshot (ns_Name ns) of
                   Inl err \<Rightarrow> Inl (NewStatus Error [''getting node '' @ go_q (ns_Name ns) @ '' from Snapshot: '' @ err])
                 | Inr nodeInfo \<Rightarrow>
                     let zoneID = GetZoneKey (the (ni_node nodeInfo)) in
                     if zoneID \<noteq> '''' then
                       Inr (fadd (fmul fScore (fsub 1 zoneWeighting))
                         (fmul zoneWeighting (spread_score maxCountByZone (gm_get0 countsByZone zoneID))))
                     else Inr fScore)
              else Inr fScore)
     in case r of
          Inl st \<Rightarrow> (ns # scores, Some st)
        | Inr f \<Rightarrow>
            (case spread_scores snapshot maxCountByNodeName countsByZone scores of
               (rest, st) \<Rightarrow> (ns\<lparr>ns_Score := int64_of f\<rparr> # rest, st)))"

definition Selector_NormalizeScore :: "Snapshot \<Rightarrow> Pod \<Rightarrow> NodeScoreList \<Rightarrow> NodeScoreList \<times> Status option" where
  "Selector_NormalizeScore snapshot pod scores =
    (if skipSelectorSpread pod then (scores, None)
     else case zone_counts snapshot scores (0, []) of
       Inl st \<Rightarrow> (scores, Some st)
     | Inr (maxCountByNodeName, countsByZone) \<Rightarrow> spread_scores snapshot maxCountByNodeName countsByZone scores)"

definition NewSelectorSpread :: "bool \<Rightarrow> bool \<Rightarrow> error option" where
  "NewSelectorSpread has_lister has_factory =
    (if \<not> has_lister then Some ''SnapshotSharedLister is nil''
     else if \<not> has_factory then Some ''SharedInformerFactory is nil'' else None)"

subsection \<open>volume_zone.go\<close>

text \<open>\<open>volumeZoneLabels\<close> is the set of the four zone and region labels of the API package.\<close>

definition VolumeZone_Filter :: "string list \<Rightarrow> Pod \<Rightarrow> NodeInfo \<Rightarrow> Status option" where
  "VolumeZone_Filter volumeZoneLabels pod nodeInfo =
    (if length (pod_Volumes pod) = 0 then None
     else case ni_node nodeInfo of
       None \<Rightarrow> Some (NewStatus Error [''node not found''])
     | Some node \<Rightarrow>
         let nodeConstraints = filter (\<lambda>e. List.member volumeZoneLabels (fst e)) (labels_of node) in
         if length nodeConstraints = 0 then None else None)"

subsection \<open>default_binder.go\<close>

record Binding =
  bind_Namespace :: string
  bind_Name :: string
  bind_UID :: string
  bind_TargetKind :: string
  bind_TargetName :: string

text \<open>\<open>api_Bind\<close> is the call of the API server.\<close>

definition DefaultBinder_Bind :: "(string \<Rightarrow> Binding \<Rightarrow> 'w \<Rightarrow> error option \<times> 'w) \<Rightarrow> Pod \<Rightarrow> string \<Rightarrow> 'w \<Rightarrow> Status option \<times> 'w" where
  "DefaultBinder_Bind api_Bind p nodeName w =
    (let binding = \<lparr>bind_Namespace = pod_Namespace p, bind_Name = pod_Name p, bind_UID = pod_UID p,
           bind_TargetKind = ''Node'', bind_TargetName = nodeName\<rparr> in
     case api_Bind (bind_Namespace binding) binding w of
       (Some err, w') \<Rightarrow> (Some (NewStatus Error [err]), w')
     | (None, w') \<Rightarrow> (None, w'))"

subsection \<open>The filter keeps services together\<close>

lemma findLabels_fold_get:
  "gm_get (fold (\<lambda>l aL. case gm_get sel l of None \<Rightarrow> aL | Some v \<Rightarrow> gm_put aL l v) ls aL) k =
    (if k \<in> set ls \<and> gm_get sel k \<noteq> None then gm_get sel k else gm_get aL k)"
  by (induction ls arbitrary: aL) (auto split: option.split)

lemma findLabelsInSet_get: "gm_get (findLabelsInSet ls sel) k = (if k \<in> set ls then gm_get sel k else None)"
  by (auto simp: findLabelsInSet_def findLabels_fold_get)

lemma findLabelsInSet_ok: "gm_ok (findLabelsInSet ls sel)"
proof -
  have "gm_ok aL \<Longrightarrow> gm_ok (fold (\<lambda>l aL. case gm_get sel l of None \<Rightarrow> aL | Some v \<Rightarrow> gm_put aL l v) ls aL)" for aL
    by (induction ls arbitrary: aL) (auto split: option.split)
  then show ?thesis by (simp add: findLabelsInSet_def)
qed

text \<open>When there are as many labels as were asked for, every label was found.\<close>

lemma all_labels_found:
  assumes "\<not> length ls > length (findLabelsInSet ls sel)" "l \<in> set ls"
  shows "gm_get sel l \<noteq> None"
proof
  assume n: "gm_get sel l = None"
  have "set (gm_keys (findLabelsInSet ls sel)) \<subseteq> set ls - {l}"
  proof
    fix k assume "k \<in> set (gm_keys (findLabelsInSet ls sel))"
    then have "gm_get (findLabelsInSet ls sel) k \<noteq> None" by (auto simp: gm_get_eq_None simp del: not_None_eq)
    then show "k \<in> set ls - {l}" using n by (auto simp: findLabelsInSet_get split: if_splits)
  qed
  then have "card (set (gm_keys (findLabelsInSet ls sel))) < card (set ls)"
    using assms(2) by (intro psubset_card_mono) auto
  moreover have "card (set (gm_keys (findLabelsInSet ls sel))) = length (findLabelsInSet ls sel)"
    using distinct_card [of "gm_keys (findLabelsInSet ls sel)"] findLabelsInSet_ok [of ls sel] by (simp add: gm_ok_def)
  ultimately show False using assms(1) card_length [of ls] by simp
qed

lemma addUnsetLabels_get:
  "gm_get (addUnsetLabelsToMap aL ls labelSet) k =
    (case gm_get aL k of Some v \<Rightarrow> Some v | None \<Rightarrow> if k \<in> set ls then gm_get labelSet k else None)"
  unfolding addUnsetLabelsToMap_def
  by (induction ls arbitrary: aL) (auto simp: gm_has_def split: option.split)

text \<open>
  The value that a node has to have for a label: the one the pod asks for, or else the one of the node where the first matching
  pod runs, if the pod belongs to a service.
\<close>

definition service_wants :: "Snapshot \<Rightarrow> servicePreFilterState \<Rightarrow> Pod \<Rightarrow> NodeInfo \<Rightarrow> string \<Rightarrow> string option" where
  "service_wants snapshot s pod nodeInfo l =
    (case gm_get (pod_NodeSelector pod) l of
       Some v \<Rightarrow> Some v
     | None \<Rightarrow>
         if matchingPodServices s = [] then None
         else case FilterOutPods nodeInfo (matchingPodList s) of
           [] \<Rightarrow> None
         | p # _ \<Rightarrow>
             (case Snapshot_Get snapshot (pod_NodeName p) of
                Inr n \<Rightarrow> (case ni_node n of None \<Rightarrow> None | Some nd \<Rightarrow> gm_get (labels_of nd) l)
              | Inl _ \<Rightarrow> None))"

lemma wanted_labels_get:
  assumes "\<forall>p ps. FilterOutPods nodeInfo (matchingPodList s) = p # ps \<longrightarrow> (\<exists>n. Snapshot_Get snapshot (pod_NodeName p) = Inr n)"
  shows "\<exists>w. wanted_labels args snapshot s pod nodeInfo = Inr w \<and>
    (\<forall>l. gm_get w l = (if l \<in> set (sa_AffinityLabels args) then service_wants snapshot s pod nodeInfo l else None))"
proof -
  let ?ls = "sa_AffinityLabels args" and ?f = "findLabelsInSet (sa_AffinityLabels args) (pod_NodeSelector pod)"
  show ?thesis
  proof (cases "length ?ls > length ?f \<and> matchingPodServices s \<noteq> []")
    case False
    have "gm_get ?f l = (if l \<in> set ?ls then service_wants snapshot s pod nodeInfo l else None)" for l
      using False all_labels_found [of ?ls "pod_NodeSelector pod" l]
      by (auto simp: findLabelsInSet_get service_wants_def split: option.split)
    then show ?thesis using False by (auto simp: wanted_labels_def Let_def)
  next
    case True
    show ?thesis
    proof (cases "FilterOutPods nodeInfo (matchingPodList s)")
      case Nil
      then show ?thesis using True by (auto simp: wanted_labels_def Let_def findLabelsInSet_get service_wants_def split: option.split)
    next
      case (Cons p ps)
      then obtain n where n: "Snapshot_Get snapshot (pod_NodeName p) = Inr n" using assms by blast
      let ?w = "addUnsetLabelsToMap ?f ?ls (case ni_node n of None \<Rightarrow> [] | Some nd \<Rightarrow> labels_of nd)"
      have "wanted_labels args snapshot s pod nodeInfo = Inr ?w" using True Cons n by (simp add: wanted_labels_def Let_def)
      moreover have "gm_get ?w l = (if l \<in> set ?ls then service_wants snapshot s pod nodeInfo l else None)" for l
        using True Cons n
        by (auto simp: addUnsetLabels_get findLabelsInSet_get service_wants_def split: option.split)
      ultimately show ?thesis by blast
    qed
  qed
qed

text \<open>
  C16: \<open>PreFilter\<close> and \<open>Filter\<close> of \<open>ServiceAffinity\<close> keep the pods of a service together: a node passes exactly when, for each of the
  configured labels, it has the value that the pod's node selector asks for, or, where the selector is silent and the pod belongs to a
  service, the value of the node that runs the first matching pod. A label that neither gives a value for is not looked at. The laws of the
  label package are that its match-all selector matches everything, and that the selector of a set of labels matches
  those that have all its pairs.\<close>

theorem service_affinity_decides:
  assumes "\<And>l. lo_Matches lo (sl_Everything lo) l"
    and "\<And>aL l. lo_Matches lo (lo_AsSelector lo aL) l \<longleftrightarrow> (\<forall>k v. gm_get aL k = Some v \<longrightarrow> gm_get l k = Some v)"
    and "sa_AffinityLabels args \<noteq> []" "GetPodServices (label_ops.truncate lo) li pod = Inr services"
    and "s = \<lparr>matchingPodList = filterPods lo (Snapshot_List snapshot) (createSelectorFromLabels lo (pod_Labels pod)) (pod_Namespace pod),
      matchingPodServices = services\<rparr>"
    and "\<forall>p ps. FilterOutPods nodeInfo (matchingPodList s) = p # ps \<longrightarrow> (\<exists>n. Snapshot_Get snapshot (pod_NodeName p) = Inr n)"
    and "ni_node nodeInfo = Some node"
  shows "\<exists>state'. Service_PreFilter lo li args snapshot state pod = (None, state') \<and>
    Service_Filter lo print args snapshot state' pod nodeInfo =
      (if \<forall>l\<in>set (sa_AffinityLabels args). \<forall>v. service_wants snapshot s pod nodeInfo l = Some v \<longrightarrow> gm_get (labels_of node) l = Some v
       then None else Some (NewStatus Unschedulable [ErrReasonServiceAffinity]))"
proof -
  let ?state = "CycleState_Write state service_preFilterStateKey (ServiceData s)"
  have pre: "Service_PreFilter lo li args snapshot state pod = (None, ?state)"
    using assms(3-5) by (simp add: Service_PreFilter_def createPreFilterState_def)
  obtain w where w: "wanted_labels args snapshot s pod nodeInfo = Inr w"
      "\<And>l. gm_get w l = (if l \<in> set (sa_AffinityLabels args) then service_wants snapshot s pod nodeInfo l else None)"
    using wanted_labels_get [OF assms(6)] by blast
  have "lo_Matches lo (createSelectorFromLabels lo w) (labels_of node) \<longleftrightarrow>
      (\<forall>k v. gm_get w k = Some v \<longrightarrow> gm_get (labels_of node) k = Some v)"
    using assms(1,2) by (simp add: createSelectorFromLabels_def)
  also have "\<dots> \<longleftrightarrow> (\<forall>l\<in>set (sa_AffinityLabels args). \<forall>v. service_wants snapshot s pod nodeInfo l = Some v \<longrightarrow> gm_get (labels_of node) l = Some v)"
    by (auto simp: w(2) split: if_splits)
  finally have "Service_Filter lo print args snapshot ?state pod nodeInfo =
      (if \<forall>l\<in>set (sa_AffinityLabels args). \<forall>v. service_wants snapshot s pod nodeInfo l = Some v \<longrightarrow> gm_get (labels_of node) l = Some v
       then None else Some (NewStatus Unschedulable [ErrReasonServiceAffinity]))"
    using assms(3,7) w(1)
    by (simp add: Service_Filter_def service_getPreFilterState_def read_state_def CycleState_Read_def CycleState_Write_def)
  then show ?thesis using pre by blast
qed

subsection \<open>Spreading scores\<close>

lemma spread_score_range:
  assumes "0 \<le> n" "n \<le> m" "m < 2 ^ 63"
  shows "0 \<le> spread_score m n" "spread_score m n \<le> 100"
proof -
  have e: "i64 (m - n) = m - n" using assms by (intro i64_id) (simp add: in64_def)
  have d: "0 \<le> float64 (m - n)" "float64 (m - n) \<le> float64 m" using assms by (auto simp: float64_def intro: fl_nonneg fl_mono)
  have "0 \<le> fmul 100 (fdiv (float64 (m - n)) (float64 m)) \<and> fmul 100 (fdiv (float64 (m - n)) (float64 m)) \<le> 100" if "0 < m"
  proof -
    have "1 \<le> float64 m" unfolding float64_def using that by (intro fl_ge_1) simp
    then have q: "0 \<le> fdiv (float64 (m - n)) (float64 m)" "fdiv (float64 (m - n)) (float64 m) \<le> 1"
      unfolding fdiv_def using d by (auto intro!: fl_nonneg fl_le_1)
    then have "fl (100 * fdiv (float64 (m - n)) (float64 m)) \<le> fl 100" by (intro fl_mono) simp
    then show ?thesis using q by (simp add: fmul_def fl_nonneg)
  qed
  then show "0 \<le> spread_score m n" "spread_score m n \<le> 100"
    by (auto simp: spread_score_def e MaxNodeScore_def float64_def)
qed

lemma spread_score_antimono:
  assumes "0 \<le> n" "n \<le> n'" "n' \<le> m" "m < 2 ^ 63"
  shows "spread_score m n' \<le> spread_score m n"
proof (cases "0 < m")
  case True
  have e: "i64 (m - n) = m - n" "i64 (m - n') = m - n'" using assms by (auto intro!: i64_id simp: in64_def)
  have "1 \<le> float64 m" unfolding float64_def using True by (intro fl_ge_1) simp
  moreover have "float64 (m - n') \<le> float64 (m - n)" using assms by (auto simp: float64_def intro: fl_mono)
  ultimately have "fdiv (float64 (m - n')) (float64 m) \<le> fdiv (float64 (m - n)) (float64 m)"
    unfolding fdiv_def by (intro fl_mono divide_right_mono) auto
  then show ?thesis using True by (auto simp: spread_score_def e fmul_def MaxNodeScore_def float64_def intro!: fl_mono)
qed (simp add: spread_score_def)

lemma int64_of_mono: "0 \<le> x \<Longrightarrow> x \<le> y \<Longrightarrow> int64_of x \<le> int64_of y"
  by (simp add: int64_of_def floor_mono)

text \<open>No node has a zone here, so the counts by zone stay empty.\<close>

lemma zone_counts_eq:
  assumes "\<forall>ns\<in>set scores. \<exists>n. Snapshot_Get snapshot (ns_Name ns) = Inr n"
  shows "zone_counts snapshot scores (c, []) = Inr (fold (\<lambda>ns m. if ns_Score ns > m then ns_Score ns else m) scores c, [])"
  using assms by (induction scores arbitrary: c) (auto simp: GetZoneKey_def Let_def)

lemma spread_scores_eq: "spread_scores snapshot m [] scores = (map (\<lambda>ns. ns\<lparr>ns_Score := int64_of (spread_score m (ns_Score ns))\<rparr>) scores, None)"
  by (induction scores) (auto simp: Let_def)

lemma fold_max_bounds:
  fixes f :: "'a \<Rightarrow> int"
  shows "c \<le> fold (\<lambda>x m. if f x > m then f x else m) xs c" "x \<in> set xs \<Longrightarrow> f x \<le> fold (\<lambda>x m. if f x > m then f x else m) xs c"
    "c < b \<Longrightarrow> \<forall>x\<in>set xs. f x < b \<Longrightarrow> fold (\<lambda>x m. if f x > m then f x else m) xs c < b"
proof (induction xs arbitrary: c)
  case (Cons y xs)
  { case 1 show ?case using Cons(1) [of "if f y > c then f y else c"] by (auto split: if_splits)
  next
    case 2 then show ?case using Cons(1,2) [of "if f y > c then f y else c"] by (auto split: if_splits)
  next
    case 3 then show ?case using Cons(3) [of "if f y > c then f y else c"] by (auto split: if_splits)
  }
qed auto

text \<open>
  C17: \<open>NormalizeScore\<close> of \<open>SelectorSpread\<close> turns the counts of matching pods into scores between 0 and 100 for the same nodes, in the same
  order, and a node with fewer matching pods never gets a lower score than one with more. The floating-point operations round as the processor
  does. No node has a zone in this repository, so the spreading over zones has no effect.\<close>

theorem selector_spread_scores:
  assumes "pod_TopologySpreadConstraints pod = []" "\<forall>ns\<in>set scores. 0 \<le> ns_Score ns \<and> ns_Score ns < 2 ^ 63"
    and "\<forall>ns\<in>set scores. \<exists>n. Snapshot_Get snapshot (ns_Name ns) = Inr n"
  shows "\<exists>scores'. Selector_NormalizeScore snapshot pod scores = (scores', None) \<and> map ns_Name scores' = map ns_Name scores \<and>
    (\<forall>ns\<in>set scores'. 0 \<le> ns_Score ns \<and> ns_Score ns \<le> MaxNodeScore) \<and>
    (\<forall>i j. i < length scores \<and> j < length scores \<and> ns_Score (scores ! i) \<le> ns_Score (scores ! j) \<longrightarrow>
      ns_Score (scores' ! j) \<le> ns_Score (scores' ! i))"
proof -
  define m where "m = fold (\<lambda>ns m. if ns_Score ns > m then ns_Score ns else m) scores 0"
  let ?s = "map (\<lambda>ns. ns\<lparr>ns_Score := int64_of (spread_score m (ns_Score ns))\<rparr>) scores"
  have eq: "Selector_NormalizeScore snapshot pod scores = (?s, None)"
    using assms(1) zone_counts_eq [OF assms(3), of 0]
    by (simp add: Selector_NormalizeScore_def skipSelectorSpread_def m_def spread_scores_eq)
  have m: "ns_Score ns \<le> m" if "ns \<in> set scores" for ns using fold_max_bounds(2) [OF that, of ns_Score 0] by (simp add: m_def)
  have lt: "m < 2 ^ 63" unfolding m_def by (rule fold_max_bounds(3)) (use assms(2) in auto)
  have r: "0 \<le> spread_score m (ns_Score ns)" "spread_score m (ns_Score ns) \<le> 100" if "ns \<in> set scores" for ns
    using spread_score_range [of "ns_Score ns" m] assms(2) m lt that by auto
  have anti: "int64_of (spread_score m (ns_Score b)) \<le> int64_of (spread_score m (ns_Score a))"
    if "a \<in> set scores" "b \<in> set scores" "ns_Score a \<le> ns_Score b" for a b
    using that spread_score_antimono [of "ns_Score a" "ns_Score b" m] assms(2) m lt r by (intro int64_of_mono) auto
  have "\<forall>ns\<in>set ?s. 0 \<le> ns_Score ns \<and> ns_Score ns \<le> MaxNodeScore"
    using r int64_of_range [where n = 100] by (fastforce simp: MaxNodeScore_def)
  moreover have "ns_Score (?s ! j) \<le> ns_Score (?s ! i)"
    if "i < length scores" "j < length scores" "ns_Score (scores ! i) \<le> ns_Score (scores ! j)" for i j
    using anti [of "scores ! i" "scores ! j"] that by simp
  ultimately show ?thesis using eq by (auto simp: o_def)
qed

subsection \<open>Witnesses\<close>

text \<open>Two nodes in two racks; a pod of the service runs on the first.\<close>

definition plain_labels :: "selector service_labels" where
  "plain_labels = \<lparr>lo_Merge = (\<lambda>a b. b @ a), lo_NewSelector = (\<lambda>_. True),
     lo_AsSelector = (\<lambda>aL l. list_all (\<lambda>k. gm_get l k = gm_get aL k) (gm_keys aL)),
     lo_LabelSelectorAsSelector = (\<lambda>_. Inl ''''), lo_selectable = (\<lambda>_. False), lo_AddRequirements = (\<lambda>a b. a),
     lo_Empty = (\<lambda>_. False), lo_Matches = (\<lambda>s. s), sl_Everything = (\<lambda>_. True)\<rparr>"

definition rack_node :: "string \<Rightarrow> Node" where
  "rack_node r = zero_node\<lparr>node_Name := r, node_Labels := Some [(''rack'', r)]\<rparr>"

definition rack_pod :: Pod where
  "rack_pod = zero_pod\<lparr>pod_UID := ''p'', pod_NodeName := ''a'', pod_Labels := [(''app'', ''web'')]\<rparr>"

definition web_pod :: Pod where
  "web_pod = zero_pod\<lparr>pod_UID := ''q'', pod_Labels := [(''app'', ''web'')]\<rparr>"

definition rack_info :: "string \<Rightarrow> Pod list \<Rightarrow> NodeInfo" where
  "rack_info r pods = zero_NodeInfo\<lparr>ni_node := Some (rack_node r), ni_Pods := map (NewPodInfo (\<lambda>_. Inl '''')) pods\<rparr>"

definition racks :: Snapshot where
  "racks = \<lparr>sn_store = [(0, rack_info ''a'' [rack_pod]), (1, rack_info ''b'' [])], sn_fresh = 2,
     sn_nodeInfoMap = [(''a'', 0), (''b'', 1)], sn_nodeInfoList = [0, 1], sn_havePodsWithAffinity = [], sn_generation = 0\<rparr>"

definition web_listers :: listers where
  "web_listers = \<lparr>li_Services = (\<lambda>_. Inr [\<lparr>svc_Name = ''web'', svc_Selector = Some [(''app'', ''web'')]\<rparr>]),
     li_PodControllers = (\<lambda>_. Inl ''''), li_PodReplicaSets = (\<lambda>_. Inl ''''), li_PodStatefulSets = (\<lambda>_. Inl '''')\<rparr>"

lemma plain_labels_law:
  "lo_Matches plain_labels (lo_AsSelector plain_labels aL) l \<longleftrightarrow> (\<forall>k v. gm_get aL k = Some v \<longrightarrow> gm_get l k = Some v)"
proof -
  have "list_all (\<lambda>k. gm_get l k = gm_get aL k) (gm_keys aL) \<longleftrightarrow> (\<forall>k. gm_get aL k \<noteq> None \<longrightarrow> gm_get l k = gm_get aL k)"
    by (auto simp: list_all_iff gm_get_eq_None simp del: not_None_eq)
  also have "\<dots> \<longleftrightarrow> (\<forall>k v. gm_get aL k = Some v \<longrightarrow> gm_get l k = Some v)" by auto
  finally show ?thesis by (simp add: plain_labels_def)
qed

lemma racks_simps:
  "Snapshot_List racks = [rack_info ''a'' [rack_pod], rack_info ''b'' []]"
  "Snapshot_Get racks ''a'' = Inr (rack_info ''a'' [rack_pod])"
  "ni_node (rack_info r ps) = Some (rack_node r)" "labels_of (rack_node r) = [(''rack'', r)]" "node_Name (rack_node r) = r"
  "map pi_Pod (ni_Pods (rack_info r ps)) = ps"
  by (simp_all add: racks_def Snapshot_List_def Snapshot_Get_def sn_info_def gm_get_def rack_info_def rack_node_def labels_of_def
      NewPodInfo_def Let_def o_def)

theorem service_affinity_decides_witness:
  "\<exists>state'. Service_PreFilter plain_labels web_listers \<lparr>sa_AffinityLabels = [''rack''], sa_AntiAffinityLabelsPreference = []\<rparr> racks NewCycleState
      web_pod = (None, state') \<and>
    Service_Filter plain_labels (\<lambda>_. []) \<lparr>sa_AffinityLabels = [''rack''], sa_AntiAffinityLabelsPreference = []\<rparr> racks state' web_pod
      (rack_info ''b'' []) = Some (NewStatus Unschedulable [ErrReasonServiceAffinity])"
proof -
  let ?args = "\<lparr>sa_AffinityLabels = [''rack''], sa_AntiAffinityLabelsPreference = []\<rparr>"
  let ?svc = "\<lparr>svc_Name = ''web'', svc_Selector = Some [(''app'', ''web'')]\<rparr>"
  let ?s = "\<lparr>matchingPodList = filterPods plain_labels (Snapshot_List racks)
      (createSelectorFromLabels plain_labels (pod_Labels web_pod)) (pod_Namespace web_pod), matchingPodServices = [?svc]\<rparr>"
  have pods: "matchingPodList ?s = [rack_pod]"
    by (simp add: filterPods_def racks_simps createSelectorFromLabels_def)
      (simp add: rack_info_def NewPodInfo_def Let_def plain_labels_def web_pod_def rack_pod_def zero_pod_def gm_get_def)
  have svc: "GetPodServices (label_ops.truncate plain_labels) web_listers web_pod = Inr [?svc]"
    by (simp add: GetPodServices_def web_listers_def label_ops.defs plain_labels_def web_pod_def gm_get_def)
  have f: "FilterOutPods (rack_info ''b'' []) [rack_pod] = [rack_pod]" "pod_NodeName rack_pod = ''a''"
    by (simp_all add: FilterOutPods_def racks_simps rack_pod_def)
  have w: "service_wants racks ?s web_pod (rack_info ''b'' []) ''rack'' = Some ''a''"
    using pods by (simp add: service_wants_def f racks_simps web_pod_def zero_pod_def gm_get_def)
  show ?thesis
    using service_affinity_decides [where lo = plain_labels and li = web_listers and args = ?args and pod = web_pod and s = ?s and
        snapshot = racks and nodeInfo = "rack_info ''b'' []" and node = "rack_node ''b''" and state = NewCycleState and print = "\<lambda>_. []", OF _ _ _ svc refl]
      plain_labels_law pods w
    by (simp add: racks_simps f gm_get_def) (simp add: plain_labels_def)
qed

theorem selector_spread_scores_witness:
  "\<exists>scores'. Selector_NormalizeScore racks web_pod [\<lparr>ns_Name = ''a'', ns_Score = 1\<rparr>] = (scores', None) \<and> length scores' = 1"
  using selector_spread_scores [of web_pod "[\<lparr>ns_Name = ''a'', ns_Score = 1\<rparr>]" racks]
  by (auto simp: racks_simps web_pod_def zero_pod_def dest!: arg_cong [where f = length])

end
