(* ===== verification/Http_Extender.thy ===== *)
theory Http_Extender
  imports Default_Preemption Service_Plugins
begin

text \<open>
  The extender of the scheduler that talks HTTP to an external service (\<^verbatim>\<open>scheduler/core/extender.go\<close>), with
  the types of its configuration (\<^verbatim>\<open>apis/config/types.go\<close>), and the creation of the extenders in \<^verbatim>\<open>factory.go\<close>.

  The peer and the packages for JSON, HTTP and TLS are the record \<open>http_api\<close>, a parameter: what a request is on the
  wire, how the service answers it (a status code and a body, in a world that the call may change), and what the
  body says. Nothing is assumed of the service, so a lemma on the result of a call holds whatever it answers.
\<close>

subsection \<open>The configuration\<close>

record ExtenderManagedResource =
  emr_Name :: string
  emr_IgnoredByScheduler :: bool

record ExtenderTLSConfig =
  tls_Insecure :: bool
  tls_ServerName :: string
  tls_CertFile :: string
  tls_KeyFile :: string
  tls_CAFile :: string
  tls_CertData :: string
  tls_KeyData :: string
  tls_CAData :: string

record ExtenderConfig =
  ec_URLPrefix :: string
  ec_FilterVerb :: string
  ec_PreemptVerb :: string
  ec_PrioritizeVerb :: string
  ec_Weight :: int
  ec_BindVerb :: string
  ec_EnableHTTPS :: bool
  ec_TLSConfig :: "ExtenderTLSConfig option"
  ec_HTTPTimeout :: int
  ec_NodeCacheCapable :: bool
  ec_ManagedResources :: "ExtenderManagedResource list"
  ec_Ignorable :: bool

text \<open>\<open>DefaultExtenderTimeout\<close> in nanoseconds.\<close>

definition DefaultExtenderTimeout :: int where "DefaultExtenderTimeout = 5 * 1000000000"

subsection \<open>Requests and answers\<close>

record 't http_Client =
  cl_Transport :: 't
  cl_Timeout :: int

record 't HTTPExtender =
  extenderURL :: string
  preemptVerb :: string
  filterVerb :: string
  prioritizeVerb :: string
  bindVerb :: string
  weight :: int
  client :: "'t http_Client"
  nodeCacheCapable :: bool
  managedResources :: "string set"
  ignorable :: bool

text \<open>The types of the extender API. A pointer that JSON may leave nil is an \<open>option\<close>.\<close>

type_synonym MetaPod = "string"

type_synonym MetaVictims = "MetaPod option list"

record ExtenderArgs =
  ea_Pod :: Pod
  ea_Nodes :: "Node list option"
  ea_NodeNames :: "string list option"

record ExtenderPreemptionArgs =
  epa_Pod :: Pod
  epa_NodeNameToVictims :: "(string, Victims) gomap option"
  epa_NodeNameToMetaVictims :: "(string, MetaVictims option) gomap option"

record ExtenderBindingArgs =
  eba_PodName :: string
  eba_PodNamespace :: string
  eba_PodUID :: string
  eba_Node :: string

datatype api_args = NodeArgs ExtenderArgs | PreemptionArgs ExtenderPreemptionArgs | BindingArgs ExtenderBindingArgs

record ExtenderFilterResult =
  efr_Nodes :: "Node list option"
  efr_NodeNames :: "string list option"
  efr_FailedNodes :: "(string, string) gomap"
  efr_Error :: string

record http_Request =
  rq_Method :: string
  rq_URL :: string
  rq_ContentType :: string
  rq_Body :: string

record ('tls, 't, 'w) http_api =
  ha_Marshal :: "api_args \<Rightarrow> error + string"
  ha_NewRequest :: "string \<Rightarrow> string \<Rightarrow> error option"
  ha_Do :: "'t http_Client \<Rightarrow> http_Request \<Rightarrow> 'w \<Rightarrow> (error + int \<times> string) \<times> 'w"
  ha_DecodeFilter :: "string \<Rightarrow> error + ExtenderFilterResult"
  ha_DecodePriorities :: "string \<Rightarrow> error + (string \<times> int) list"
  ha_DecodePreemption :: "string \<Rightarrow> error + (string, MetaVictims option) gomap"
  ha_DecodeBinding :: "string \<Rightarrow> error + string"
  ha_Errorf :: "string \<Rightarrow> error"
  ha_TLSConfigFor :: "ExtenderTLSConfig \<Rightarrow> error + 'tls option"
  ha_SetTransportDefaults :: "'tls option \<Rightarrow> 't"

subsection \<open>Creation\<close>

definition no_tls :: ExtenderTLSConfig where
  "no_tls = \<lparr>tls_Insecure = False, tls_ServerName = '''', tls_CertFile = '''', tls_KeyFile = '''', tls_CAFile = '''',
     tls_CertData = '''', tls_KeyData = '''', tls_CAData = ''''\<rparr>"

definition makeTransport :: "('tls, 't, 'w) http_api \<Rightarrow> ExtenderConfig \<Rightarrow> error + 't" where
  "makeTransport api config =
    (let cfg = (case ec_TLSConfig config of None \<Rightarrow> no_tls | Some t \<Rightarrow> t);
         hasCA = (length (tls_CAFile cfg) > 0 \<or> length (tls_CAData cfg) > 0);
         cfg = (if ec_EnableHTTPS config \<and> \<not> hasCA then cfg\<lparr>tls_Insecure := True\<rparr> else cfg) in
     case ha_TLSConfigFor api cfg of
       Inl err \<Rightarrow> Inl err
     | Inr tlsConfig \<Rightarrow> Inr (ha_SetTransportDefaults api tlsConfig))"

text \<open>\<open>NewHTTPExtender\<close> writes the default timeout into the configuration it is given, which is returned.\<close>

definition NewHTTPExtender :: "('tls, 't, 'w) http_api \<Rightarrow> ExtenderConfig \<Rightarrow> ExtenderConfig \<times> (error + 't HTTPExtender)" where
  "NewHTTPExtender api config =
    (let config = (if ec_HTTPTimeout config = 0 then config\<lparr>ec_HTTPTimeout := DefaultExtenderTimeout\<rparr> else config) in
     case makeTransport api config of
       Inl err \<Rightarrow> (config, Inl err)
     | Inr transport \<Rightarrow>
         (config, Inr \<lparr>extenderURL = ec_URLPrefix config, preemptVerb = ec_PreemptVerb config, filterVerb = ec_FilterVerb config,
            prioritizeVerb = ec_PrioritizeVerb config, bindVerb = ec_BindVerb config, weight = ec_Weight config,
            client = \<lparr>cl_Transport = transport, cl_Timeout = ec_HTTPTimeout config\<rparr>,
            nodeCacheCapable = ec_NodeCacheCapable config,
            managedResources = fold (\<lambda>r s. insert (emr_Name r) s) (ec_ManagedResources config) {},
            ignorable = ec_Ignorable config\<rparr>))"

definition Extender_Equal :: "'t HTTPExtender \<Rightarrow> 't HTTPExtender \<Rightarrow> bool" where
  "Extender_Equal e1 e2 =
    (if extenderURL e1 \<noteq> extenderURL e2 then False
     else if preemptVerb e1 \<noteq> preemptVerb e2 then False
     else if prioritizeVerb e1 \<noteq> prioritizeVerb e2 then False
     else if bindVerb e1 \<noteq> bindVerb e2 then False
     else if weight e1 \<noteq> weight e2 then False
     else if nodeCacheCapable e1 \<noteq> nodeCacheCapable e2 then False
     else if managedResources e1 \<noteq> managedResources e2 then False
     else if ignorable e1 \<noteq> ignorable e2 then False
     else True)"

definition SupportsPreemption :: "'t HTTPExtender \<Rightarrow> bool" where
  "SupportsPreemption h = (length (preemptVerb h) > 0)"

definition IsBinder :: "'t HTTPExtender \<Rightarrow> bool" where
  "IsBinder h = (bindVerb h \<noteq> '''')"

definition hasManagedResources :: "'t HTTPExtender \<Rightarrow> Container list \<Rightarrow> bool" where
  "hasManagedResources h containers =
    list_ex (\<lambda>c. list_ex (\<lambda>r. r \<in> managedResources h) (gm_keys (c_Requests c)) \<or>
      list_ex (\<lambda>r. r \<in> managedResources h) (gm_keys (c_Limits c))) containers"

definition IsInterested :: "'t HTTPExtender \<Rightarrow> Pod \<Rightarrow> bool" where
  "IsInterested h pod =
    (if card (managedResources h) = 0 then True
     else if hasManagedResources h (pod_Containers pod) then True
     else if hasManagedResources h (pod_InitContainers pod) then True
     else False)"

subsection \<open>Calls\<close>

definition TrimRightSlash :: "string \<Rightarrow> string" where
  "TrimRightSlash s = rev (dropWhile (\<lambda>c. c = CHR ''/'') (rev s))"

text \<open>\<open>decode\<close> is the decoding of a body into the type of the result.\<close>

definition Extender_send :: "('tls, 't, 'w) http_api \<Rightarrow> 't HTTPExtender \<Rightarrow> string \<Rightarrow> api_args \<Rightarrow> (string \<Rightarrow> error + 'r) \<Rightarrow> 'w \<Rightarrow>
    (error + 'r) \<times> 'w" where
  "Extender_send api h action args decode w =
    (case ha_Marshal api args of
       Inl err \<Rightarrow> (Inl err, w)
     | Inr out \<Rightarrow>
         let url = TrimRightSlash (extenderURL h) @ ''/'' @ action in
         case ha_NewRequest api ''POST'' url of
           Some err \<Rightarrow> (Inl err, w)
         | None \<Rightarrow>
             (case ha_Do api (client h) \<lparr>rq_Method = ''POST'', rq_URL = url, rq_ContentType = ''application/json'', rq_Body = out\<rparr> w of
                (Inl err, w') \<Rightarrow> (Inl err, w')
              | (Inr (code, body), w') \<Rightarrow>
                  if code \<noteq> 200
                  then (Inl (''Failed '' @ action @ '' with extender at URL '' @ url @ '', code '' @ go_v code), w')
                  else (decode body, w')))"

text \<open>The arguments of \<open>Filter\<close> and \<open>Prioritize\<close>: names for a service with its own cache of nodes, else the nodes.\<close>

definition node_args :: "'t HTTPExtender \<Rightarrow> Pod \<Rightarrow> Node list \<Rightarrow> api_args" where
  "node_args h pod nodes =
    NodeArgs \<lparr>ea_Pod = pod,
      ea_Nodes = (if nodeCacheCapable h then None else Some nodes),
      ea_NodeNames = (if nodeCacheCapable h then Some (map node_Name nodes) else None)\<rparr>"

fun named_nodes :: "string \<Rightarrow> (string, Node) gomap \<Rightarrow> string list \<Rightarrow> error + Node list" where
  "named_nodes url fromNodeName [] = Inr []"
| "named_nodes url fromNodeName (nodeName # names) =
    (case gm_get fromNodeName nodeName of
       Some n \<Rightarrow> (case named_nodes url fromNodeName names of Inl err \<Rightarrow> Inl err | Inr ns \<Rightarrow> Inr (n # ns))
     | None \<Rightarrow> Inl (''extender '' @ go_q url @ '' claims a filtered node '' @ go_q nodeName @
         '' which is not found in the input node list''))"

definition Extender_Filter :: "('tls, 't, 'w) http_api \<Rightarrow> 't HTTPExtender \<Rightarrow> Pod \<Rightarrow> Node list \<Rightarrow> 'w \<Rightarrow>
    (error + Node list \<times> (string, string) gomap) \<times> 'w" where
  "Extender_Filter api h pod nodes w =
    (let fromNodeName = fold (\<lambda>n m. gm_put m (node_Name n) n) nodes [] in
     if filterVerb h = '''' then (Inr (nodes, []), w)
     else case Extender_send api h (filterVerb h) (node_args h pod nodes) (ha_DecodeFilter api) w of
       (Inl err, w') \<Rightarrow> (Inl err, w')
     | (Inr result, w') \<Rightarrow>
         if efr_Error result \<noteq> '''' then (Inl (ha_Errorf api (efr_Error result)), w')
         else if nodeCacheCapable h \<and> efr_NodeNames result \<noteq> None then
           (case named_nodes (extenderURL h) fromNodeName (the (efr_NodeNames result)) of
              Inl err \<Rightarrow> (Inl err, w')
            | Inr nodeResult \<Rightarrow> (Inr (nodeResult, efr_FailedNodes result), w'))
         else (Inr (case efr_Nodes result of None \<Rightarrow> [] | Some nodeItems \<Rightarrow> nodeItems, efr_FailedNodes result), w'))"

definition Extender_Prioritize :: "('tls, 't, 'w) http_api \<Rightarrow> 't HTTPExtender \<Rightarrow> Pod \<Rightarrow> Node list \<Rightarrow> 'w \<Rightarrow>
    (error + (string \<times> int) list \<times> int) \<times> 'w" where
  "Extender_Prioritize api h pod nodes w =
    (if prioritizeVerb h = '''' then (Inr (map (\<lambda>n. (node_Name n, 0)) nodes, 0), w)
     else case Extender_send api h (prioritizeVerb h) (node_args h pod nodes) (ha_DecodePriorities api) w of
       (Inl err, w') \<Rightarrow> (Inl err, w')
     | (Inr result, w') \<Rightarrow> (Inr (result, weight h), w'))"

definition Extender_Bind :: "('tls, 't, 'w) http_api \<Rightarrow> 't HTTPExtender \<Rightarrow> Binding \<Rightarrow> 'w \<Rightarrow> error option \<times> 'w" where
  "Extender_Bind api h binding w =
    (if \<not> IsBinder h then (Some ''Unexpected empty bindVerb in extender'', w)
     else case Extender_send api h (bindVerb h)
         (BindingArgs \<lparr>eba_PodName = bind_Name binding, eba_PodNamespace = bind_Namespace binding,
            eba_PodUID = bind_UID binding, eba_Node = bind_TargetName binding\<rparr>) (ha_DecodeBinding api) w of
       (Inl err, w') \<Rightarrow> (Some err, w')
     | (Inr result_Error, w') \<Rightarrow>
         if result_Error \<noteq> '''' then (Some (ha_Errorf api result_Error), w') else (None, w'))"

subsection \<open>Preemption\<close>

definition convertToNodeNameToMetaVictims :: "(string, Victims) gomap \<Rightarrow> (string, MetaVictims option) gomap" where
  "convertToNodeNameToMetaVictims nodeNameToVictims =
    map (\<lambda>(node, victims). (node, Some (map (\<lambda>pod. Some (pod_UID pod)) (vic_Pods victims)))) nodeNameToVictims"

definition convertPodUIDToPod :: "'t HTTPExtender \<Rightarrow> MetaPod \<Rightarrow> NodeInfo \<Rightarrow> error + Pod" where
  "convertPodUIDToPod h uid nodeInfo =
    (case find (\<lambda>p. pod_UID (pi_Pod p) = uid) (ni_Pods nodeInfo) of
       Some p \<Rightarrow> Inr (pi_Pod p)
     | None \<Rightarrow> Inl (''extender: '' @ extenderURL h @ '' claims to preempt pod (UID: &{'' @ uid @ ''}) on node: '' @
         node_Name (node_of nodeInfo) @ '', but the pod is not found on that node''))"

text \<open>The inner loop; \<open>None\<close> is the panic at a nil pointer.\<close>

fun convert_pods :: "'t HTTPExtender \<Rightarrow> NodeInfo \<Rightarrow> MetaVictims \<Rightarrow> (error + Pod list) option" where
  "convert_pods h nodeInfo [] = Some (Inr [])"
| "convert_pods h nodeInfo (metaPod # pods) =
    do { uid \<leftarrow> metaPod;
         case convertPodUIDToPod h uid nodeInfo of
           Inl err \<Rightarrow> Some (Inl err)
         | Inr pod \<Rightarrow>
             do { r \<leftarrow> convert_pods h nodeInfo pods;
                  Some (case r of Inl err \<Rightarrow> Inl err | Inr ps \<Rightarrow> Inr (pod # ps)) } }"

text \<open>The loop over the map visits the nodes in an order that the runtime chooses.\<close>

fun convert_nodes :: "'t HTTPExtender \<Rightarrow> Snapshot \<Rightarrow> (string, MetaVictims option) gomap \<Rightarrow> string list \<Rightarrow> (string, Victims) gomap \<Rightarrow>
    (error + (string, Victims) gomap) option" where
  "convert_nodes h nodeInfos m [] victimsMap = Some (Inr victimsMap)"
| "convert_nodes h nodeInfos m (nodeName # names) victimsMap =
    (case Snapshot_Get nodeInfos nodeName of
       Inl err \<Rightarrow> Some (Inl err)
     | Inr nodeInfo \<Rightarrow>
         do { metaVictims \<leftarrow> the (gm_get m nodeName);
              r \<leftarrow> convert_pods h nodeInfo metaVictims;
              case r of
                Inl err \<Rightarrow> Some (Inl err)
              | Inr pods \<Rightarrow>
                  convert_nodes h nodeInfos m names
                    (gm_put victimsMap nodeName \<lparr>vic_Pods = pods, vic_NumPDBViolations = 0\<rparr>) })"

definition convertToNodeNameToVictims :: "((string, MetaVictims option) gomap \<Rightarrow> string list) \<Rightarrow> 't HTTPExtender \<Rightarrow>
    (string, MetaVictims option) gomap \<Rightarrow> Snapshot \<Rightarrow> (error + (string, Victims) gomap) option" where
  "convertToNodeNameToVictims rng h m nodeInfos = convert_nodes h nodeInfos m (rng m) []"

definition ProcessPreemption :: "('tls, 't, 'w) http_api \<Rightarrow> ((string, MetaVictims option) gomap \<Rightarrow> string list) \<Rightarrow> 't HTTPExtender \<Rightarrow>
    Pod \<Rightarrow> (string, Victims) gomap \<Rightarrow> Snapshot \<Rightarrow> 'w \<Rightarrow> (error + (string, Victims) gomap) option \<times> 'w" where
  "ProcessPreemption api rng h pod nodeNameToVictims nodeInfos w =
    (if \<not> SupportsPreemption h
     then (Some (Inl (''preempt verb is not defined for extender '' @ extenderURL h @ '' but run into ProcessPreemption'')), w)
     else
       let args = PreemptionArgs (if nodeCacheCapable h
             then \<lparr>epa_Pod = pod, epa_NodeNameToVictims = None,
                   epa_NodeNameToMetaVictims = Some (convertToNodeNameToMetaVictims nodeNameToVictims)\<rparr>
             else \<lparr>epa_Pod = pod, epa_NodeNameToVictims = Some nodeNameToVictims, epa_NodeNameToMetaVictims = None\<rparr>) in
       case Extender_send api h (preemptVerb h) args (ha_DecodePreemption api) w of
         (Inl err, w') \<Rightarrow> (Some (Inl err), w')
       | (Inr result, w') \<Rightarrow> (convertToNodeNameToVictims rng h result nodeInfos, w'))"

subsection \<open>The extenders of a scheduler\<close>

text \<open>
  An \<open>HTTPExtender\<close> as the interface that the rest of the scheduler uses. The calls that only ask are made in the
  world \<open>w\<close>; \<open>Bind\<close> is made in the current one, with the binding that \<open>extendersBinding\<close> in \<^verbatim>\<open>scheduler.go\<close> builds.
\<close>

definition http_extender :: "('tls, 't, 'w) http_api \<Rightarrow> 'w \<Rightarrow> 't HTTPExtender \<Rightarrow> 'w Extender" where
  "http_extender api w h =
    \<lparr>ext_Name = extenderURL h,
     ext_Filter = (\<lambda>pod nodes. fst (Extender_Filter api h pod nodes w)),
     ext_Prioritize = (\<lambda>pod nodes. fst (Extender_Prioritize api h pod nodes w)),
     ext_Bind = (\<lambda>pod node. Extender_Bind api h \<lparr>bind_Namespace = pod_Namespace pod, bind_Name = pod_Name pod,
       bind_UID = pod_UID pod, bind_TargetKind = ''Node'', bind_TargetName = node\<rparr>),
     ext_IsBinder = IsBinder h, ext_IsInterested = IsInterested h, ext_IsIgnorable = ignorable h\<rparr>"

text \<open>
  The first loop of \<open>create\<close> in \<^verbatim>\<open>factory.go\<close>: the extenders, those that can be ignored at the end, and the resources that the
  scheduler is to ignore.
\<close>

fun make_extenders :: "('tls, 't, 'w) http_api \<Rightarrow> ExtenderConfig list \<Rightarrow> 't HTTPExtender list \<Rightarrow> 't HTTPExtender list \<Rightarrow> string list \<Rightarrow>
    error + 't HTTPExtender list \<times> string list" where
  "make_extenders api [] extenders ignorableExtenders ignoredExtendedResources =
    Inr (extenders @ ignorableExtenders, ignoredExtendedResources)"
| "make_extenders api (config # configs) extenders ignorableExtenders ignoredExtendedResources =
    (case NewHTTPExtender api config of
       (_, Inl err) \<Rightarrow> Inl err
     | (config', Inr extender) \<Rightarrow>
         make_extenders api configs
           (if \<not> ignorable extender then extenders @ [extender] else extenders)
           (if \<not> ignorable extender then ignorableExtenders else ignorableExtenders @ [extender])
           (ignoredExtendedResources @ map emr_Name (filter emr_IgnoredByScheduler (ec_ManagedResources config'))))"

subsection \<open>What a call can return\<close>

lemma fold_nodes_get:
  "gm_get (fold (\<lambda>n m. gm_put m (node_Name n) n) nodes m) k = Some n \<Longrightarrow> n \<in> set nodes \<or> gm_get m k = Some n"
  by (induction nodes arbitrary: m) (fastforce split: if_splits)+

lemma fold_nodes_name:
  "gm_get (fold (\<lambda>n m. gm_put m (node_Name n) n) nodes []) k = Some n \<Longrightarrow> n \<in> set nodes"
  using fold_nodes_get [of nodes "[]" k n] by simp

lemma named_nodes_subset:
  "named_nodes url m names = Inr ns \<Longrightarrow> list_all2 (\<lambda>k n. gm_get m k = Some n) names ns"
  by (induction names arbitrary: ns) (auto split: option.splits sum.splits)

lemma Extender_Filter_subset:
  assumes "fst (Extender_Filter api h pod nodes w) = Inr (ns, failed)" "nodeCacheCapable h"
    and "\<And>body r. ha_DecodeFilter api body = Inr r \<Longrightarrow> efr_Nodes r = None"
  shows "set ns \<subseteq> set nodes"
proof -
  have "set ns \<subseteq> set nodes" if named: "named_nodes (extenderURL h) (fold (\<lambda>n m. gm_put m (node_Name n) n) nodes []) names = Inr ns" for names
  proof
    fix n assume "n \<in> set ns"
    then obtain k where "gm_get (fold (\<lambda>n m. gm_put m (node_Name n) n) nodes []) k = Some n"
      using named_nodes_subset [OF named] by (auto simp: list_all2_conv_all_nth in_set_conv_nth)
    then show "n \<in> set nodes" by (rule fold_nodes_name)
  qed
  then show ?thesis using assms
    by (auto simp: Extender_Filter_def Extender_send_def Let_def split: if_splits sum.splits prod.splits option.splits)
qed

text \<open>A service without its own cache is not checked: the nodes of its answer are taken as they are.\<close>

lemma uncached_filter_unchecked:
  assumes "\<not> nodeCacheCapable h" "filterVerb h \<noteq> ''''" "efr_Error result = ''''" "efr_Nodes result = Some ns"
    and "Extender_send api h (filterVerb h) (node_args h pod nodes) (ha_DecodeFilter api) w = (Inr result, w')"
  shows "Extender_Filter api h pod nodes w = (Inr (ns, efr_FailedNodes result), w')"
  using assms by (simp add: Extender_Filter_def)

text \<open>What happens at one extender.\<close>

lemma extenders_step:
  assumes "findNodesThatPassExtenders (e # es) pod nodes st = Some (st', r)"
  obtains (stop) "r = Inr nodes"
    | (skip) "findNodesThatPassExtenders es pod nodes st = Some (st', r)"
    | (call) ns failed st'' where "ext_Filter e pod nodes = Inr (ns, failed)" "findNodesThatPassExtenders es pod ns st'' = Some (st', r)"
    | (fail) err where "r = Inl err" "\<not> ext_IsIgnorable e" "ext_IsInterested e pod"
  using assms by (auto split: if_splits sum.splits prod.splits bind_splits)


text \<open>An answer is trusted as little for victims: each one is a pod on the node that it is listed for.\<close>

definition real_victims :: "Snapshot \<Rightarrow> (string, Victims) gomap \<Rightarrow> bool" where
  "real_victims snapshot m \<longleftrightarrow>
    (\<forall>n v. gm_get m n = Some v \<longrightarrow>
      (\<exists>ni. Snapshot_Get snapshot n = Inr ni \<and> set (vic_Pods v) \<subseteq> pi_Pod ` set (ni_Pods ni)))"

lemma convertPodUIDToPod_on_node:
  "convertPodUIDToPod h uid ni = Inr pod \<Longrightarrow> pod \<in> pi_Pod ` set (ni_Pods ni) \<and> pod_UID pod = uid"
  by (auto simp: convertPodUIDToPod_def find_Some_iff split: option.splits)

lemma convert_pods_on_node:
  "convert_pods h ni metas = Some (Inr pods) \<Longrightarrow>
    set pods \<subseteq> pi_Pod ` set (ni_Pods ni) \<and> map (\<lambda>p. Some (pod_UID p)) pods = metas"
  by (induction metas arbitrary: pods)
    (auto split: bind_splits sum.splits option.splits dest!: convertPodUIDToPod_on_node)

lemma real_victims_put:
  "real_victims snapshot m \<Longrightarrow> Snapshot_Get snapshot n = Inr ni \<Longrightarrow> set pods \<subseteq> pi_Pod ` set (ni_Pods ni) \<Longrightarrow>
    real_victims snapshot (gm_put m n \<lparr>vic_Pods = pods, vic_NumPDBViolations = k\<rparr>)"
  by (simp add: real_victims_def)

lemma convert_nodes_real:
  "convert_nodes h snapshot m names acc = Some (Inr m') \<Longrightarrow> real_victims snapshot acc \<Longrightarrow> real_victims snapshot m'"
proof (induction names arbitrary: acc)
  case (Cons n names)
  from Cons.prems(1) obtain ni metas pods where ni: "Snapshot_Get snapshot n = Inr ni"
      "convert_pods h ni metas = Some (Inr pods)"
      "convert_nodes h snapshot m names (gm_put acc n \<lparr>vic_Pods = pods, vic_NumPDBViolations = 0\<rparr>) = Some (Inr m')"
    by (auto split: sum.splits bind_splits)
  show ?case using Cons.IH [OF ni(3)] real_victims_put [OF Cons.prems(2) ni(1)] convert_pods_on_node [OF ni(2)] by blast
qed simp

text \<open>
  Whatever the service answers to a request for preemption, the victims that \<open>ProcessPreemption\<close> returns are pods that run on
  the node they are listed for, and an answer with a node or a pod that the scheduler does not know gives an error.\<close>

theorem preemption_victims_real:
  assumes "ProcessPreemption api rng h pod victims snapshot w = (Some (Inr victims'), w')"
  shows "real_victims snapshot victims'"
proof -
  have "real_victims snapshot []" by (simp add: real_victims_def)
  then show ?thesis using assms convert_nodes_real
    by (fastforce simp: ProcessPreemption_def convertToNodeNameToVictims_def Let_def split: if_splits prod.splits sum.splits)
qed

subsection \<open>A service that agrees\<close>

lemma convertPodUIDToPod_own:
  assumes "distinct (map (\<lambda>p. pod_UID (pi_Pod p)) (ni_Pods ni))" "pod \<in> pi_Pod ` set (ni_Pods ni)"
  shows "convertPodUIDToPod h (pod_UID pod) ni = Inr pod"
proof (cases "find (\<lambda>p. pod_UID (pi_Pod p) = pod_UID pod) (ni_Pods ni)")
  case None with assms(2) show ?thesis by (auto simp: find_None_iff)
next
  case (Some q)
  then have "q \<in> set (ni_Pods ni)" "pod_UID (pi_Pod q) = pod_UID pod" by (auto simp: find_Some_iff)
  with assms have "pi_Pod q = pod" by (auto simp: distinct_map inj_on_def)
  with Some show ?thesis by (simp add: convertPodUIDToPod_def)
qed

lemma convert_pods_own:
  "distinct (map (\<lambda>p. pod_UID (pi_Pod p)) (ni_Pods ni)) \<Longrightarrow> set pods \<subseteq> pi_Pod ` set (ni_Pods ni) \<Longrightarrow>
    convert_pods h ni (map (\<lambda>p. Some (pod_UID p)) pods) = Some (Inr pods)"
  by (induction pods) (simp_all add: convertPodUIDToPod_own)

lemma metaVictims_get:
  "gm_get (convertToNodeNameToMetaVictims m) n = map_option (\<lambda>v. Some (map (\<lambda>p. Some (pod_UID p)) (vic_Pods v))) (gm_get m n)"
  by (induction m) (auto simp: convertToNodeNameToMetaVictims_def gm_get_Cons)

lemma convert_nodes_own:
  assumes "\<And>n. n \<in> set names \<Longrightarrow> \<exists>v ni. gm_get m n = Some v \<and> Snapshot_Get snapshot n = Inr ni \<and>
      distinct (map (\<lambda>p. pod_UID (pi_Pod p)) (ni_Pods ni)) \<and> set (vic_Pods v) \<subseteq> pi_Pod ` set (ni_Pods ni)"
  shows "\<exists>m'. convert_nodes h snapshot (convertToNodeNameToMetaVictims m) names acc = Some (Inr m') \<and>
    (\<forall>n. gm_get m' n = (if n \<in> set names then map_option (vic_NumPDBViolations_update (\<lambda>_. 0)) (gm_get m n) else gm_get acc n))"
  using assms
proof (induction names arbitrary: acc)
  case (Cons n names)
  obtain v ni where v: "gm_get m n = Some v" "Snapshot_Get snapshot n = Inr ni"
      "distinct (map (\<lambda>p. pod_UID (pi_Pod p)) (ni_Pods ni))" "set (vic_Pods v) \<subseteq> pi_Pod ` set (ni_Pods ni)"
    using Cons.prems [of n] by auto
  let ?acc = "gm_put acc n \<lparr>vic_Pods = vic_Pods v, vic_NumPDBViolations = 0\<rparr>"
  have v0: "v\<lparr>vic_NumPDBViolations := 0\<rparr> = \<lparr>vic_Pods = vic_Pods v, vic_NumPDBViolations = 0\<rparr>" by simp
  obtain m' where m': "convert_nodes h snapshot (convertToNodeNameToMetaVictims m) names ?acc = Some (Inr m')"
      "\<And>k. gm_get m' k = (if k \<in> set names then map_option (vic_NumPDBViolations_update (\<lambda>_. 0)) (gm_get m k) else gm_get ?acc k)"
    using Cons.IH [of ?acc] Cons.prems by auto
  have "convert_nodes h snapshot (convertToNodeNameToMetaVictims m) (n # names) acc = Some (Inr m')"
    using v m'(1) by (simp add: metaVictims_get convert_pods_own)
  with m'(2) v(1) v0 show ?case by auto
qed auto

text \<open>
  C19: A service with its own cache that agrees to the victims it is asked about (it answers what it was sent) gives the same pods for
  the same nodes, whatever the order in which the maps are ranged over; only the number of violated disruption budgets comes back as
  zero, since the meta data on the wire leaves it out. The pods of a node have distinct UIDs and the victims run on their nodes.\<close>

theorem preemption_wire_roundtrip:
  assumes "nodeCacheCapable h" "SupportsPreemption h"
    and "Extender_send api h (preemptVerb h)
      (PreemptionArgs \<lparr>epa_Pod = pod, epa_NodeNameToVictims = None, epa_NodeNameToMetaVictims = Some (convertToNodeNameToMetaVictims victims)\<rparr>)
      (ha_DecodePreemption api) w = (Inr (convertToNodeNameToMetaVictims victims), w')"
    and "set (rng (convertToNodeNameToMetaVictims victims)) = set (gm_keys victims)"
    and "real_victims snapshot victims"
    and "\<And>n ni. Snapshot_Get snapshot n = Inr ni \<Longrightarrow> distinct (map (\<lambda>p. pod_UID (pi_Pod p)) (ni_Pods ni))"
  shows "\<exists>victims'. ProcessPreemption api rng h pod victims snapshot w = (Some (Inr victims'), w') \<and>
    (\<forall>n. gm_get victims' n = map_option (\<lambda>v. v\<lparr>vic_NumPDBViolations := 0\<rparr>) (gm_get victims n))"
proof -
  let ?names = "rng (convertToNodeNameToMetaVictims victims)"
  have "\<exists>v ni. gm_get victims n = Some v \<and> Snapshot_Get snapshot n = Inr ni \<and>
      distinct (map (\<lambda>p. pod_UID (pi_Pod p)) (ni_Pods ni)) \<and> set (vic_Pods v) \<subseteq> pi_Pod ` set (ni_Pods ni)"
    if n: "n \<in> set ?names" for n
  proof -
    from n have "gm_get victims n \<noteq> None" by (simp add: assms(4) gm_get_eq_None del: not_None_eq)
    then show ?thesis using assms(5,6) unfolding real_victims_def by fast
  qed
  then obtain m' where m': "convert_nodes h snapshot (convertToNodeNameToMetaVictims victims) ?names [] = Some (Inr m')"
      "\<And>n. gm_get m' n = (if n \<in> set ?names then map_option (\<lambda>v. v\<lparr>vic_NumPDBViolations := 0\<rparr>) (gm_get victims n) else None)"
    using convert_nodes_own [of ?names victims snapshot h "[]"] by auto
  have "gm_get m' n = map_option (\<lambda>v. v\<lparr>vic_NumPDBViolations := 0\<rparr>) (gm_get victims n)" for n
    using m'(2) [of n] by (cases "n \<in> set ?names") (auto simp: assms(4) gm_get_eq_None [THEN iffD2])
  then show ?thesis using assms(1-3) m'(1)
    by (auto simp: ProcessPreemption_def convertToNodeNameToVictims_def)
qed

lemma make_extenders_order:
  "make_extenders api configs es is rs = Inr (extenders, ignored) \<Longrightarrow>
    \<exists>made. map Inr made = map (\<lambda>c. snd (NewHTTPExtender api c)) configs \<and>
      extenders = es @ filter (\<lambda>e. \<not> ignorable e) made @ is @ filter ignorable made"
proof (induction configs arbitrary: es "is" rs)
  case (Cons c configs)
  obtain c' e where e: "NewHTTPExtender api c = (c', Inr e)" using Cons.prems by (auto split: prod.splits sum.splits)
  show ?case
  proof (cases "ignorable e")
    case True
    then obtain made where "map Inr made = map (\<lambda>c. snd (NewHTTPExtender api c)) configs"
        "extenders = es @ filter (\<lambda>e. \<not> ignorable e) made @ (is @ [e]) @ filter ignorable made"
      using Cons.prems e Cons.IH [of es "is @ [e]"] by auto
    then show ?thesis using e True by (intro exI [of _ "e # made"]) simp
  next
    case False
    then obtain made where "map Inr made = map (\<lambda>c. snd (NewHTTPExtender api c)) configs"
        "extenders = (es @ [e]) @ filter (\<lambda>e. \<not> ignorable e) made @ is @ filter ignorable made"
      using Cons.prems e Cons.IH [of "es @ [e]" "is"] by auto
    then show ?thesis using e False by (intro exI [of _ "e # made"]) simp
  qed
qed simp

subsection \<open>A service that knows one node\<close>

definition demo_service :: "(unit, unit, unit) http_api" where
  "demo_service =
    \<lparr>ha_Marshal = (\<lambda>args. Inr ''{}''), ha_NewRequest = (\<lambda>verb url. None), ha_Do = (\<lambda>c req w. (Inr (200, ''{}''), w)),
     ha_DecodeFilter = (\<lambda>body. Inr \<lparr>efr_Nodes = None, efr_NodeNames = Some [''a''], efr_FailedNodes = [], efr_Error = ''''\<rparr>),
     ha_DecodePriorities = (\<lambda>body. Inr [(''a'', 1)]), ha_DecodePreemption = (\<lambda>body. Inr [(''a'', Some [Some (pod_UID rack_pod)])]),
     ha_DecodeBinding = (\<lambda>body. Inr ''''), ha_Errorf = (\<lambda>s. s), ha_TLSConfigFor = (\<lambda>t. Inr None),
     ha_SetTransportDefaults = (\<lambda>t. ())\<rparr>"

definition demo_extender :: "unit HTTPExtender" where
  "demo_extender = the (case NewHTTPExtender demo_service
      \<lparr>ec_URLPrefix = ''http://e/'', ec_FilterVerb = ''f'', ec_PreemptVerb = ''p'', ec_PrioritizeVerb = '''', ec_Weight = 1,
       ec_BindVerb = '''', ec_EnableHTTPS = False, ec_TLSConfig = None, ec_HTTPTimeout = 0, ec_NodeCacheCapable = True,
       ec_ManagedResources = [], ec_Ignorable = False\<rparr> of (_, Inr e) \<Rightarrow> Some e | _ \<Rightarrow> None)"

lemma demo_extender_simps:
  "extenderURL demo_extender = ''http://e/''" "filterVerb demo_extender = ''f''" "preemptVerb demo_extender = ''p''"
  "nodeCacheCapable demo_extender" "managedResources demo_extender = {}" "\<not> ignorable demo_extender"
  by (simp_all add: demo_extender_def NewHTTPExtender_def makeTransport_def demo_service_def)


definition demo_victims :: "(string, Victims) gomap" where
  "demo_victims = [(''a'', \<lparr>vic_Pods = [rack_pod], vic_NumPDBViolations = 1\<rparr>)]"

lemma demo_sends:
  "Extender_send demo_service demo_extender (preemptVerb demo_extender) args (ha_DecodePreemption demo_service) () =
    (Inr (convertToNodeNameToMetaVictims demo_victims), ())"
  by (simp add: Extender_send_def demo_service_def demo_victims_def convertToNodeNameToMetaVictims_def)

lemma rack_pods: "pi_Pod ` set (ni_Pods (rack_info r pods)) = set pods"
  using racks_simps(6) [of r pods] by (metis set_map)

lemma demo_victims_real: "real_victims racks demo_victims"
  by (simp add: real_victims_def demo_victims_def gm_get_def racks_simps rack_pods)

theorem preemption_wire_roundtrip_witness:
  "\<exists>victims'. ProcessPreemption demo_service gm_keys demo_extender zero_pod demo_victims racks () = (Some (Inr victims'), ()) \<and>
    gm_get victims' ''a'' = Some \<lparr>vic_Pods = [rack_pod], vic_NumPDBViolations = 0\<rparr>"
proof -
  have keys: "set (gm_keys (convertToNodeNameToMetaVictims demo_victims)) = set (gm_keys demo_victims)"
    by (simp add: demo_victims_def convertToNodeNameToMetaVictims_def)
  have uids: "distinct (map (\<lambda>p. pod_UID (pi_Pod p)) (ni_Pods ni))" if "Snapshot_Get racks n = Inr ni" for n ni
    using that
    by (auto simp: racks_def Snapshot_Get_def sn_info_def gm_get_def rack_info_def split: if_splits option.splits)
  have "gm_get demo_victims ''a'' = Some \<lparr>vic_Pods = [rack_pod], vic_NumPDBViolations = 1\<rparr>" by (simp add: demo_victims_def gm_get_def)
  moreover have "SupportsPreemption demo_extender" by (simp add: SupportsPreemption_def demo_extender_simps)
  ultimately show ?thesis
    using preemption_wire_roundtrip [where rng = gm_keys and pod = zero_pod and snapshot = racks, OF demo_extender_simps(4) _ demo_sends keys demo_victims_real]
      uids by auto
qed

theorem preemption_victims_real_witness:
  "\<exists>victims'. ProcessPreemption demo_service gm_keys demo_extender zero_pod demo_victims racks () = (Some (Inr victims'), ()) \<and>
    real_victims racks victims'"
proof -
  have "ProcessPreemption demo_service gm_keys demo_extender zero_pod demo_victims racks () =
      (Some (Inr [(''a'', \<lparr>vic_Pods = [rack_pod], vic_NumPDBViolations = 0\<rparr>)]), ())"
    using demo_sends
    by (simp add: ProcessPreemption_def SupportsPreemption_def demo_extender_simps convertToNodeNameToVictims_def demo_victims_def
        convertToNodeNameToMetaVictims_def racks_simps gm_get_def convertPodUIDToPod_def rack_info_def NewPodInfo_def Let_def gm_put_new)
  then show ?thesis using preemption_victims_real [of demo_service gm_keys demo_extender zero_pod demo_victims racks "()"] by auto
qed

end
