(* ===== verification/Legacy_Registry.thy ===== *)
theory Legacy_Registry
  imports Http_Extender Inter_Pod_Affinity
begin

text \<open>
  How a policy file names predicates and priorities, and the plugins that stand for them
  (\<^verbatim>\<open>framework/plugins/legacy_registry.go\<close> with the types of \<^verbatim>\<open>apis/config/legacy_types.go\<close>).

  A function that may end the program has the result \<open>failure + 'a\<close>: \<open>Fatal\<close> is \<^verbatim>\<open>klog.Fatalf\<close>, \<open>Panic\<close> a nil
  dereference and \<open>Err\<close> an error that is returned. Sets of strings are sets, and the order in which one is
  ranged over is a parameter.
\<close>

datatype failure = Err error | Fatal string | Panic

definition and_then :: "failure + 'a \<Rightarrow> ('a \<Rightarrow> failure + 'b) \<Rightarrow> failure + 'b" where
  "and_then r k = (case r of Inl f \<Rightarrow> Inl f | Inr x \<Rightarrow> k x)"

lemma and_then_simps [simp]: "and_then (Inl f) k = Inl f" "and_then (Inr x) k = k x"
  by (simp_all add: and_then_def)

lemma and_then_Inr [simp]: "and_then r k = Inr y \<longleftrightarrow> (\<exists>x. r = Inr x \<and> k x = Inr y)"
  by (cases r) simp_all

lemma and_then_Inl: "and_then r k = Inl f \<longleftrightarrow> r = Inl f \<or> (\<exists>x. r = Inr x \<and> k x = Inl f)"
  by (cases r) simp_all

subsection \<open>Names\<close>

named_theorems plugin_names

definition PrioritySortName :: string where [plugin_names]: "PrioritySortName = ''PrioritySort''"
definition NodeNameName :: string where [plugin_names]: "NodeNameName = ''NodeName''"
definition NodeAffinityName :: string where [plugin_names]: "NodeAffinityName = ''NodeAffinity''"
definition NodeUnschedulableName :: string where [plugin_names]: "NodeUnschedulableName = ''NodeUnschedulable''"
definition PodTopologySpreadName :: string where [plugin_names]: "PodTopologySpreadName = ''PodTopologySpread''"
definition TaintTolerationName :: string where [plugin_names]: "TaintTolerationName = ''TaintToleration''"
definition VolumeRestrictionsName :: string where [plugin_names]: "VolumeRestrictionsName = ''VolumeRestrictions''"
definition VolumeZoneName :: string where [plugin_names]: "VolumeZoneName = ''VolumeZone''"
definition ImageLocalityName :: string where [plugin_names]: "ImageLocalityName = ''ImageLocality''"
definition NodeLabelName :: string where [plugin_names]: "NodeLabelName = ''NodeLabel''"
definition DefaultBinderName :: string where [plugin_names]: "DefaultBinderName = ''DefaultBinder''"
definition MostAllocatedName :: string where [plugin_names]: "MostAllocatedName = ''NodeResourcesMostAllocated''"
definition LeastAllocatedName :: string where [plugin_names]: "LeastAllocatedName = ''NodeResourcesLeastAllocated''"
definition BalancedAllocationName :: string where [plugin_names]: "BalancedAllocationName = ''NodeResourcesBalancedAllocation''"
definition RequestedToCapacityRatioName :: string where [plugin_names]: "RequestedToCapacityRatioName = ''RequestedToCapacityRatio''"

definition EqualPriority :: string where [plugin_names]: "EqualPriority = ''EqualPriority''"
definition MostRequestedPriority :: string where [plugin_names]: "MostRequestedPriority = ''MostRequestedPriority''"
definition RequestedToCapacityRatioPriority :: string where [plugin_names]: "RequestedToCapacityRatioPriority = ''RequestedToCapacityRatioPriority''"
definition SelectorSpreadPriority :: string where [plugin_names]: "SelectorSpreadPriority = ''SelectorSpreadPriority''"
definition ServiceSpreadingPriority :: string where [plugin_names]: "ServiceSpreadingPriority = ''ServiceSpreadingPriority''"
definition InterPodAffinityPriority :: string where [plugin_names]: "InterPodAffinityPriority = ''InterPodAffinityPriority''"
definition LeastRequestedPriority :: string where [plugin_names]: "LeastRequestedPriority = ''LeastRequestedPriority''"
definition BalancedResourceAllocation :: string where [plugin_names]: "BalancedResourceAllocation = ''BalancedResourceAllocation''"
definition NodePreferAvoidPodsPriority :: string where [plugin_names]: "NodePreferAvoidPodsPriority = ''NodePreferAvoidPodsPriority''"
definition NodeAffinityPriority :: string where [plugin_names]: "NodeAffinityPriority = ''NodeAffinityPriority''"
definition TaintTolerationPriority :: string where [plugin_names]: "TaintTolerationPriority = ''TaintTolerationPriority''"
definition ImageLocalityPriority :: string where [plugin_names]: "ImageLocalityPriority = ''ImageLocalityPriority''"
definition EvenPodsSpreadPriority :: string where [plugin_names]: "EvenPodsSpreadPriority = ''EvenPodsSpreadPriority''"
definition MatchInterPodAffinityPred :: string where [plugin_names]: "MatchInterPodAffinityPred = ''MatchInterPodAffinity''"
definition CheckVolumeBindingPred :: string where [plugin_names]: "CheckVolumeBindingPred = ''CheckVolumeBinding''"
definition GeneralPred :: string where [plugin_names]: "GeneralPred = ''GeneralPredicates''"
definition HostNamePred :: string where [plugin_names]: "HostNamePred = ''HostName''"
definition PodFitsHostPortsPred :: string where [plugin_names]: "PodFitsHostPortsPred = ''PodFitsHostPorts''"
definition MatchNodeSelectorPred :: string where [plugin_names]: "MatchNodeSelectorPred = ''MatchNodeSelector''"
definition PodFitsResourcesPred :: string where [plugin_names]: "PodFitsResourcesPred = ''PodFitsResources''"
definition NoDiskConflictPred :: string where [plugin_names]: "NoDiskConflictPred = ''NoDiskConflict''"
definition PodToleratesNodeTaintsPred :: string where [plugin_names]: "PodToleratesNodeTaintsPred = ''PodToleratesNodeTaints''"
definition CheckNodeUnschedulablePred :: string where [plugin_names]: "CheckNodeUnschedulablePred = ''CheckNodeUnschedulable''"
definition CheckNodeLabelPresencePred :: string where [plugin_names]: "CheckNodeLabelPresencePred = ''CheckNodeLabelPresence''"
definition CheckServiceAffinityPred :: string where [plugin_names]: "CheckServiceAffinityPred = ''CheckServiceAffinity''"
definition MaxEBSVolumeCountPred :: string where [plugin_names]: "MaxEBSVolumeCountPred = ''MaxEBSVolumeCount''"
definition MaxGCEPDVolumeCountPred :: string where [plugin_names]: "MaxGCEPDVolumeCountPred = ''MaxGCEPDVolumeCount''"
definition MaxAzureDiskVolumeCountPred :: string where [plugin_names]: "MaxAzureDiskVolumeCountPred = ''MaxAzureDiskVolumeCount''"
definition MaxCinderVolumeCountPred :: string where [plugin_names]: "MaxCinderVolumeCountPred = ''MaxCinderVolumeCount''"
definition MaxCSIVolumeCountPred :: string where [plugin_names]: "MaxCSIVolumeCountPred = ''MaxCSIVolumeCountPred''"
definition NoVolumeZoneConflictPred :: string where [plugin_names]: "NoVolumeZoneConflictPred = ''NoVolumeZoneConflict''"
definition EvenPodsSpreadPred :: string where [plugin_names]: "EvenPodsSpreadPred = ''EvenPodsSpread''"

lemmas more_plugin_names [plugin_names] =
  FitName_def PortsName_def InterPodAffinityName_def DefaultPreemptionName_def ServiceAffinityName_def SelectorSpreadName_def

definition PredicateOrdering :: "string list" where
  "PredicateOrdering =
    [CheckNodeUnschedulablePred,
     GeneralPred, HostNamePred, PodFitsHostPortsPred,
     MatchNodeSelectorPred, PodFitsResourcesPred, NoDiskConflictPred,
     PodToleratesNodeTaintsPred, CheckNodeLabelPresencePred,
     CheckServiceAffinityPred, MaxEBSVolumeCountPred, MaxGCEPDVolumeCountPred, MaxCSIVolumeCountPred,
     MaxAzureDiskVolumeCountPred, MaxCinderVolumeCountPred, CheckVolumeBindingPred, NoVolumeZoneConflictPred,
     EvenPodsSpreadPred, MatchInterPodAffinityPred]"

subsection \<open>The policy\<close>

record LabelsPresence =
  lp_Labels :: "string list"
  lp_Presence :: bool

record LabelPreference =
  lpref_Label :: string
  lpref_Presence :: bool

record PredicateArgument =
  pda_ServiceAffinity :: "string list option"
  pda_LabelsPresence :: "LabelsPresence option"

record PriorityArgument =
  pra_ServiceAntiAffinity :: "string option"
  pra_LabelPreference :: "LabelPreference option"
  pra_RequestedToCapacityRatioArguments :: "RequestedToCapacityRatioArgs option"

record PredicatePolicy =
  pred_Name :: string
  pred_Argument :: "PredicateArgument option"

record PriorityPolicy =
  prio_Name :: string
  prio_Weight :: int
  prio_Argument :: "PriorityArgument option"

record Policy =
  pol_Predicates :: "PredicatePolicy list option"
  pol_Priorities :: "PriorityPolicy list option"
  pol_Extenders :: "ExtenderConfig list"
  pol_HardPodAffinitySymmetricWeight :: int
  pol_AlwaysCheckAllPredicates :: bool

subsection \<open>The producers of configurations\<close>

record ConfigProducerArgs =
  cpa_Weight :: int
  cpa_NodeLabelArgs :: "NodeLabelArgs option"
  cpa_RequestedToCapacityRatioArgs :: "RequestedToCapacityRatioArgs option"
  cpa_ServiceAffinityArgs :: "ServiceAffinityArgs option"
  cpa_NodeResourcesFitArgs :: "NodeResourcesFitArgs option"
  cpa_InterPodAffinityArgs :: "int option"

definition no_args :: ConfigProducerArgs where
  "no_args = \<lparr>cpa_Weight = 0, cpa_NodeLabelArgs = None, cpa_RequestedToCapacityRatioArgs = None, cpa_ServiceAffinityArgs = None,
     cpa_NodeResourcesFitArgs = None, cpa_InterPodAffinityArgs = None\<rparr>"

type_synonym PluginConfigs = "(string \<times> PluginArgs) list"

type_synonym ConfigProducer = "ConfigProducerArgs \<Rightarrow> failure + Plugins \<times> PluginConfigs"

record LegacyRegistry =
  PredicateToConfigProducer :: "(string, ConfigProducer) gomap"
  PriorityToConfigProducer :: "(string, ConfigProducer) gomap"
  MandatoryPredicates :: "string set"
  DefaultPredicates :: "string set"
  DefaultPriorities :: "(string, int) gomap"

definition appendToPluginSet :: "PluginSet option \<Rightarrow> string \<Rightarrow> int option \<Rightarrow> PluginSet option" where
  "appendToPluginSet s name wt =
    (let s = (case s of None \<Rightarrow> empty_set | Some s \<Rightarrow> s);
         cfg = \<lparr>plg_Name = name, plg_Weight = (case wt of None \<Rightarrow> 0 | Some w \<Rightarrow> w)\<rparr> in
     Some (s\<lparr>Enabled := Enabled s @ [cfg]\<rparr>))"

text \<open>The assignments that the producers are made of.\<close>

definition add_Filter :: "string \<Rightarrow> Plugins \<Rightarrow> Plugins" where
  "add_Filter name p = p\<lparr>ps_Filter := appendToPluginSet (ps_Filter p) name None\<rparr>"

definition add_PreFilter :: "string \<Rightarrow> Plugins \<Rightarrow> Plugins" where
  "add_PreFilter name p = p\<lparr>ps_PreFilter := appendToPluginSet (ps_PreFilter p) name None\<rparr>"

definition add_PreScore :: "string \<Rightarrow> Plugins \<Rightarrow> Plugins" where
  "add_PreScore name p = p\<lparr>ps_PreScore := appendToPluginSet (ps_PreScore p) name None\<rparr>"

definition add_Score :: "string \<Rightarrow> int \<Rightarrow> Plugins \<Rightarrow> Plugins" where
  "add_Score name w p = p\<lparr>ps_Score := appendToPluginSet (ps_Score p) name (Some w)\<rparr>"

definition config_of :: "string \<Rightarrow> ('a \<Rightarrow> PluginArgs) \<Rightarrow> 'a option \<Rightarrow> PluginConfigs" where
  "config_of name wrap a = (case a of None \<Rightarrow> [] | Some args \<Rightarrow> [(name, wrap args)])"

definition general_producer :: ConfigProducer where
  "general_producer args =
    Inr ((add_Filter NodeAffinityName \<circ> add_PreFilter PortsName \<circ> add_Filter PortsName \<circ> add_Filter NodeNameName \<circ>
          add_PreFilter FitName \<circ> add_Filter FitName) no_plugins,
         config_of FitName NodeResourcesFitArgs (cpa_NodeResourcesFitArgs args))"

definition resources_producer :: ConfigProducer where
  "resources_producer args =
    Inr ((add_PreFilter FitName \<circ> add_Filter FitName) no_plugins,
         config_of FitName NodeResourcesFitArgs (cpa_NodeResourcesFitArgs args))"

text \<open>The producers that enable one plugin without arguments, as a filter, with or without a pre-filter, and the one that enables none.\<close>

definition filter_producer :: "string \<Rightarrow> ConfigProducer" where
  "filter_producer name args = Inr (add_Filter name no_plugins, [])"

definition prefilter_producer :: "string \<Rightarrow> ConfigProducer" where
  "prefilter_producer name args = Inr ((add_PreFilter name \<circ> add_Filter name) no_plugins, [])"

definition nothing_producer :: ConfigProducer where
  "nothing_producer args = Inr (no_plugins, [])"

definition label_presence_producer :: ConfigProducer where
  "label_presence_producer args =
    Inr (add_Filter NodeLabelName no_plugins, config_of NodeLabelName NodeLabelArgs (cpa_NodeLabelArgs args))"

definition service_affinity_producer :: ConfigProducer where
  "service_affinity_producer args =
    Inr ((add_PreFilter ServiceAffinityName \<circ> add_Filter ServiceAffinityName) no_plugins,
         config_of ServiceAffinityName ServiceAffinityArgs (cpa_ServiceAffinityArgs args))"

text \<open>The producers of priorities.\<close>

definition score_producer :: "string \<Rightarrow> ConfigProducer" where
  "score_producer name args = Inr (add_Score name (cpa_Weight args) no_plugins, [])"

definition prescore_producer :: "string \<Rightarrow> ConfigProducer" where
  "prescore_producer name args = Inr ((add_Score name (cpa_Weight args) \<circ> add_PreScore name) no_plugins, [])"

definition interpod_producer :: ConfigProducer where
  "interpod_producer args =
    Inr ((add_Score InterPodAffinityName (cpa_Weight args) \<circ> add_PreScore InterPodAffinityName) no_plugins,
         config_of InterPodAffinityName InterPodAffinityArgs (cpa_InterPodAffinityArgs args))"

definition ratio_producer :: ConfigProducer where
  "ratio_producer args =
    Inr (add_Score RequestedToCapacityRatioName (cpa_Weight args) no_plugins,
         config_of RequestedToCapacityRatioName RequestedToCapacityRatioArgs (cpa_RequestedToCapacityRatioArgs args))"

text \<open>The weight is multiplied by the number of preferences, read from arguments that may be nil.\<close>

definition label_score_producer :: ConfigProducer where
  "label_score_producer args =
    (case cpa_NodeLabelArgs args of
       None \<Rightarrow> Inl Panic
     | Some a \<Rightarrow>
         let w = i32 (cpa_Weight args * i32 (int (length (PresentLabelsPreference a) + length (AbsentLabelsPreference a)))) in
         Inr (add_Score NodeLabelName w no_plugins, [(NodeLabelName, NodeLabelArgs a)]))"

definition service_score_producer :: ConfigProducer where
  "service_score_producer args =
    (case cpa_ServiceAffinityArgs args of
       None \<Rightarrow> Inl Panic
     | Some a \<Rightarrow>
         let w = i32 (cpa_Weight args * i32 (int (length (sa_AntiAffinityLabelsPreference a)))) in
         Inr (add_Score ServiceAffinityName w no_plugins, [(ServiceAffinityName, ServiceAffinityArgs a)]))"

subsection \<open>The registry\<close>

definition registerPredicateConfigProducer :: "string \<times> ConfigProducer \<Rightarrow> LegacyRegistry \<Rightarrow> failure + LegacyRegistry" where
  "registerPredicateConfigProducer e lr =
    (case e of (name, producer) \<Rightarrow>
       if gm_has (PredicateToConfigProducer lr) name then Inl (Fatal (''already registered '' @ go_q name))
       else Inr (lr\<lparr>PredicateToConfigProducer := gm_put (PredicateToConfigProducer lr) name producer\<rparr>))"

definition registerPriorityConfigProducer :: "string \<times> ConfigProducer \<Rightarrow> LegacyRegistry \<Rightarrow> failure + LegacyRegistry" where
  "registerPriorityConfigProducer e lr =
    (case e of (name, producer) \<Rightarrow>
       if gm_has (PriorityToConfigProducer lr) name then Inl (Fatal (''already registered '' @ go_q name))
       else Inr (lr\<lparr>PriorityToConfigProducer := gm_put (PriorityToConfigProducer lr) name producer\<rparr>))"

text \<open>The calls of \<open>NewLegacyRegistry\<close>, in their order.\<close>

definition predicate_calls :: "(string \<times> ConfigProducer) list" where
  "predicate_calls =
    [(GeneralPred, general_producer), (PodToleratesNodeTaintsPred, filter_producer TaintTolerationName),
     (PodFitsResourcesPred, resources_producer), (HostNamePred, filter_producer NodeNameName),
     (PodFitsHostPortsPred, prefilter_producer PortsName), (MatchNodeSelectorPred, filter_producer NodeAffinityName),
     (CheckNodeUnschedulablePred, filter_producer NodeUnschedulableName), (CheckVolumeBindingPred, nothing_producer),
     (NoDiskConflictPred, filter_producer VolumeRestrictionsName), (NoVolumeZoneConflictPred, filter_producer VolumeZoneName),
     (MaxCSIVolumeCountPred, nothing_producer), (MaxEBSVolumeCountPred, nothing_producer),
     (MaxGCEPDVolumeCountPred, nothing_producer), (MaxAzureDiskVolumeCountPred, nothing_producer),
     (MaxCinderVolumeCountPred, nothing_producer), (MatchInterPodAffinityPred, prefilter_producer InterPodAffinityName),
     (CheckNodeLabelPresencePred, label_presence_producer), (CheckServiceAffinityPred, service_affinity_producer),
     (EvenPodsSpreadPred, prefilter_producer PodTopologySpreadName)]"

definition priority_calls :: "(string \<times> ConfigProducer) list" where
  "priority_calls =
    [(SelectorSpreadPriority, prescore_producer SelectorSpreadName), (TaintTolerationPriority, prescore_producer TaintTolerationName),
     (NodeAffinityPriority, score_producer NodeAffinityName), (ImageLocalityPriority, score_producer ImageLocalityName),
     (InterPodAffinityPriority, interpod_producer), (NodePreferAvoidPodsPriority, nothing_producer),
     (MostRequestedPriority, score_producer MostAllocatedName), (BalancedResourceAllocation, score_producer BalancedAllocationName),
     (LeastRequestedPriority, score_producer LeastAllocatedName), (RequestedToCapacityRatioName, ratio_producer),
     (NodeLabelName, label_score_producer), (ServiceAffinityName, service_score_producer),
     (EvenPodsSpreadPriority, prescore_producer PodTopologySpreadName)]"

definition default_sets :: LegacyRegistry where
  "default_sets =
    \<lparr>PredicateToConfigProducer = [], PriorityToConfigProducer = [],
     MandatoryPredicates = {PodToleratesNodeTaintsPred, CheckNodeUnschedulablePred},
     DefaultPredicates = {NoVolumeZoneConflictPred, MaxEBSVolumeCountPred, MaxGCEPDVolumeCountPred, MaxAzureDiskVolumeCountPred,
       MaxCSIVolumeCountPred, MatchInterPodAffinityPred, NoDiskConflictPred, GeneralPred, PodToleratesNodeTaintsPred,
       CheckVolumeBindingPred, CheckNodeUnschedulablePred, EvenPodsSpreadPred},
     DefaultPriorities = [(SelectorSpreadPriority, 1), (InterPodAffinityPriority, 1), (LeastRequestedPriority, 1),
       (BalancedResourceAllocation, 1), (NodePreferAvoidPodsPriority, 10000), (NodeAffinityPriority, 1),
       (TaintTolerationPriority, 1), (ImageLocalityPriority, 1), (EvenPodsSpreadPriority, 2)]\<rparr>"

definition NewLegacyRegistry :: "failure + LegacyRegistry" where
  "NewLegacyRegistry =
    and_then (fold (\<lambda>e r. and_then r (registerPredicateConfigProducer e)) predicate_calls (Inr default_sets))
      (\<lambda>lr. fold (\<lambda>e r. and_then r (registerPriorityConfigProducer e)) priority_calls (Inr lr))"

subsection \<open>Processing a policy\<close>

definition validatePredicateOrDie :: "PredicatePolicy \<Rightarrow> failure + unit" where
  "validatePredicateOrDie predicate =
    (case pred_Argument predicate of
       None \<Rightarrow> Inr ()
     | Some a \<Rightarrow>
         let numArgs = (if pda_ServiceAffinity a \<noteq> None then 1 else 0) + (if pda_LabelsPresence a \<noteq> None then 1 else 0 :: int) in
         if numArgs \<noteq> 1
         then Inl (Fatal (''Exactly 1 predicate argument is required, numArgs: '' @ go_v numArgs @ '', Predicate: '' @ pred_Name predicate))
         else Inr ())"

definition validatePriorityOrDie :: "PriorityPolicy \<Rightarrow> failure + unit" where
  "validatePriorityOrDie priority =
    (case prio_Argument priority of
       None \<Rightarrow> Inr ()
     | Some a \<Rightarrow>
         let numArgs = (if pra_ServiceAntiAffinity a \<noteq> None then 1 else 0) + (if pra_LabelPreference a \<noteq> None then 1 else 0) +
               (if pra_RequestedToCapacityRatioArguments a \<noteq> None then 1 else 0 :: int) in
         if numArgs \<noteq> 1
         then Inl (Fatal (''Exactly 1 priority argument is required, numArgs: '' @ go_v numArgs @ '', Priority: '' @ prio_Name priority))
         else Inr ())"

definition with_affinity_labels :: "string list \<Rightarrow> ConfigProducerArgs \<Rightarrow> ConfigProducerArgs" where
  "with_affinity_labels labels args =
    (let a = (case cpa_ServiceAffinityArgs args of None \<Rightarrow> \<lparr>sa_AffinityLabels = [], sa_AntiAffinityLabelsPreference = []\<rparr> | Some a \<Rightarrow> a) in
     args\<lparr>cpa_ServiceAffinityArgs := Some (a\<lparr>sa_AffinityLabels := sa_AffinityLabels a @ labels\<rparr>)\<rparr>)"

definition with_anti_affinity_label :: "string \<Rightarrow> ConfigProducerArgs \<Rightarrow> ConfigProducerArgs" where
  "with_anti_affinity_label label args =
    (let a = (case cpa_ServiceAffinityArgs args of None \<Rightarrow> \<lparr>sa_AffinityLabels = [], sa_AntiAffinityLabelsPreference = []\<rparr> | Some a \<Rightarrow> a) in
     args\<lparr>cpa_ServiceAffinityArgs := Some (a\<lparr>sa_AntiAffinityLabelsPreference := sa_AntiAffinityLabelsPreference a @ [label]\<rparr>)\<rparr>)"

definition node_label_args :: "ConfigProducerArgs \<Rightarrow> NodeLabelArgs" where
  "node_label_args args =
    (case cpa_NodeLabelArgs args of
       None \<Rightarrow> \<lparr>PresentLabels = [], AbsentLabels = [], PresentLabelsPreference = [], AbsentLabelsPreference = []\<rparr>
     | Some a \<Rightarrow> a)"

definition with_labels_presence :: "LabelsPresence \<Rightarrow> ConfigProducerArgs \<Rightarrow> ConfigProducerArgs" where
  "with_labels_presence lp args =
    (let a = node_label_args args in
     args\<lparr>cpa_NodeLabelArgs := Some (if lp_Presence lp then a\<lparr>PresentLabels := PresentLabels a @ lp_Labels lp\<rparr>
       else a\<lparr>AbsentLabels := AbsentLabels a @ lp_Labels lp\<rparr>)\<rparr>)"

definition with_label_preference :: "LabelPreference \<Rightarrow> ConfigProducerArgs \<Rightarrow> ConfigProducerArgs" where
  "with_label_preference lp args =
    (let a = node_label_args args in
     args\<lparr>cpa_NodeLabelArgs := Some (if lpref_Presence lp
       then a\<lparr>PresentLabelsPreference := PresentLabelsPreference a @ [lpref_Label lp]\<rparr>
       else a\<lparr>AbsentLabelsPreference := AbsentLabelsPreference a @ [lpref_Label lp]\<rparr>)\<rparr>)"

definition ProcessPredicatePolicy :: "LegacyRegistry \<Rightarrow> PredicatePolicy \<Rightarrow> ConfigProducerArgs \<Rightarrow> failure + string \<times> ConfigProducerArgs" where
  "ProcessPredicatePolicy lr policy pluginArgs =
    and_then (validatePredicateOrDie policy) (\<lambda>_.
      let predicateName = (if pred_Name policy = ''PodFitsPorts'' then PodFitsHostPortsPred else pred_Name policy) in
      if gm_has (PredicateToConfigProducer lr) predicateName then Inr (predicateName, pluginArgs)
      else case pred_Argument policy of
        None \<Rightarrow> Inl (Fatal (''Invalid configuration: Predicate type not found for '' @ go_q (pred_Name policy)))
      | Some a \<Rightarrow>
          if pda_ServiceAffinity a = None \<and> pda_LabelsPresence a = None
          then Inl (Fatal (''Invalid configuration: Predicate type not found for '' @ go_q (pred_Name policy)))
          else
            let (predicateName, pluginArgs) = (case pda_ServiceAffinity a of
                  None \<Rightarrow> (predicateName, pluginArgs)
                | Some labels \<Rightarrow> (CheckServiceAffinityPred, with_affinity_labels labels pluginArgs)) in
            Inr (case pda_LabelsPresence a of
                  None \<Rightarrow> (predicateName, pluginArgs)
                | Some lp \<Rightarrow> (CheckNodeLabelPresencePred, with_labels_presence lp pluginArgs)))"

definition ProcessPriorityPolicy :: "LegacyRegistry \<Rightarrow> PriorityPolicy \<Rightarrow> ConfigProducerArgs \<Rightarrow> failure + string \<times> ConfigProducerArgs" where
  "ProcessPriorityPolicy lr policy configProducerArgs =
    and_then (validatePriorityOrDie policy) (\<lambda>_.
      let priorityName = (if prio_Name policy = ServiceSpreadingPriority then SelectorSpreadPriority else prio_Name policy) in
      if gm_has (PriorityToConfigProducer lr) priorityName then Inr (priorityName, configProducerArgs)
      else case prio_Argument policy of
        None \<Rightarrow> Inl (Fatal (''Invalid configuration: Priority type not found for '' @ go_q priorityName))
      | Some a \<Rightarrow>
          if pra_ServiceAntiAffinity a = None \<and> pra_RequestedToCapacityRatioArguments a = None \<and> pra_LabelPreference a = None
          then Inl (Fatal (''Invalid configuration: Priority type not found for '' @ go_q priorityName))
          else
            let (priorityName, args) = (case pra_ServiceAntiAffinity a of
                  None \<Rightarrow> (priorityName, configProducerArgs)
                | Some label \<Rightarrow> (ServiceAffinityName, with_anti_affinity_label label configProducerArgs));
                (priorityName, args) = (case pra_LabelPreference a of
                  None \<Rightarrow> (priorityName, args)
                | Some lp \<Rightarrow> (NodeLabelName, with_label_preference lp args)) in
            Inr (case pra_RequestedToCapacityRatioArguments a of
                  None \<Rightarrow> (priorityName, args)
                | Some ra \<Rightarrow> (RequestedToCapacityRatioName,
                    args\<lparr>cpa_RequestedToCapacityRatioArgs := Some \<lparr>ra_Shape = ra_Shape ra, ra_Resources = ra_Resources ra\<rparr>\<rparr>)))"

subsection \<open>What the registry holds\<close>

text \<open>No name is registered twice, so creating the registry does not end the program.\<close>

lemma register_predicates:
  "distinct (map fst es) \<Longrightarrow> fst ` set es \<inter> fst ` set (PredicateToConfigProducer lr) = {} \<Longrightarrow>
    fold (\<lambda>e r. and_then r (registerPredicateConfigProducer e)) es (Inr lr) =
      Inr (lr\<lparr>PredicateToConfigProducer := PredicateToConfigProducer lr @ es\<rparr>)"
proof (induction es arbitrary: lr)
  case (Cons e es)
  have "gm_get (PredicateToConfigProducer lr) (fst e) = None" using Cons.prems(2) by (simp add: gm_get_eq_None)
  then have "registerPredicateConfigProducer e lr =
      Inr (lr\<lparr>PredicateToConfigProducer := PredicateToConfigProducer lr @ [e]\<rparr>)"
    using Cons.prems(2) by (cases e) (simp add: registerPredicateConfigProducer_def gm_has_def gm_put_new)
  then show ?case using Cons.prems Cons.IH [of "lr\<lparr>PredicateToConfigProducer := PredicateToConfigProducer lr @ [e]\<rparr>"] by auto
qed simp

lemma register_priorities:
  "distinct (map fst es) \<Longrightarrow> fst ` set es \<inter> fst ` set (PriorityToConfigProducer lr) = {} \<Longrightarrow>
    fold (\<lambda>e r. and_then r (registerPriorityConfigProducer e)) es (Inr lr) =
      Inr (lr\<lparr>PriorityToConfigProducer := PriorityToConfigProducer lr @ es\<rparr>)"
proof (induction es arbitrary: lr)
  case (Cons e es)
  have "gm_get (PriorityToConfigProducer lr) (fst e) = None" using Cons.prems(2) by (simp add: gm_get_eq_None)
  then have "registerPriorityConfigProducer e lr =
      Inr (lr\<lparr>PriorityToConfigProducer := PriorityToConfigProducer lr @ [e]\<rparr>)"
    using Cons.prems(2) by (cases e) (simp add: registerPriorityConfigProducer_def gm_has_def gm_put_new)
  then show ?case using Cons.prems Cons.IH [of "lr\<lparr>PriorityToConfigProducer := PriorityToConfigProducer lr @ [e]\<rparr>"] by auto
qed simp

definition legacy_registry :: LegacyRegistry where
  "legacy_registry = default_sets\<lparr>PredicateToConfigProducer := predicate_calls, PriorityToConfigProducer := priority_calls\<rparr>"

lemma distinct_calls: "distinct (map fst predicate_calls)" "distinct (map fst priority_calls)"
  by (simp_all add: predicate_calls_def priority_calls_def plugin_names)

lemma NewLegacyRegistry_eq: "NewLegacyRegistry = Inr legacy_registry"
  using distinct_calls
  by (simp add: NewLegacyRegistry_def register_predicates register_priorities default_sets_def legacy_registry_def)

text \<open>Every predicate has its place in the order.\<close>

lemma ordering_complete: "fst ` set predicate_calls = set PredicateOrdering"
  by (simp add: predicate_calls_def PredicateOrdering_def) blast

lemma distinct_ordering: "distinct PredicateOrdering"
  by (simp add: PredicateOrdering_def plugin_names)

end
