(* ===== verification/Policy_Config.thy ===== *)
theory Policy_Config
  imports Legacy_Registry "HOL-Library.List_Lexorder" "HOL-Library.Char_ord"
begin

text \<open>
  From a configuration to a scheduler: the validation of a policy (\<^verbatim>\<open>apis/config/validation/validation.go\<close>), the
  algorithm providers (\<^verbatim>\<open>algorithmprovider/registry.go\<close>) and the configurator (\<^verbatim>\<open>factory.go\<close>), which turns a
  provider or a policy into the plugins of each profile and creates the scheduler from them.

  Parameters stand for the aggregation of errors and the check of a qualified name of the API machinery, and for the
  order in which a set or a map is ranged over.
\<close>

subsection \<open>Validation\<close>

datatype policy_error = PlainError error | InvalidInt string int string | InvalidString string string string

definition config_MaxWeight :: int where
  "config_MaxWeight = (2 ^ 63 - 1) div 10"

definition verifyRedeclaration :: "string \<Rightarrow> (string, PriorityPolicy) gomap \<Rightarrow> PriorityPolicy \<Rightarrow>
    policy_error option \<times> (string, PriorityPolicy) gomap" where
  "verifyRedeclaration priorityType priorities priority =
    (case gm_get priorities priorityType of
       Some existing \<Rightarrow>
         (Some (PlainError (''Priority '' @ go_q (prio_Name priority) @ '' redeclares custom priority '' @ go_q priorityType @
            '', from:'' @ go_q (prio_Name existing))), priorities)
     | None \<Rightarrow> (None, gm_put priorities priorityType priority))"

definition verifyDifferentWeights :: "string \<Rightarrow> (string, PriorityPolicy) gomap \<Rightarrow> PriorityPolicy \<Rightarrow>
    policy_error option \<times> (string, PriorityPolicy) gomap" where
  "verifyDifferentWeights priorityType priorities priority =
    (case gm_get priorities priorityType of
       Some existing \<Rightarrow>
         if prio_Weight existing \<noteq> prio_Weight priority
         then (Some (PlainError (priorityType @ ''  priority '' @ go_q (prio_Name priority) @ '' has a different weight with '' @
                go_q (prio_Name existing))), priorities)
         else (None, gm_put priorities priorityType priority)
     | None \<Rightarrow> (None, gm_put priorities priorityType priority))"

definition validateCustomPriorities :: "(string, PriorityPolicy) gomap \<Rightarrow> PriorityPolicy \<Rightarrow>
    policy_error option \<times> (string, PriorityPolicy) gomap" where
  "validateCustomPriorities priorities priority =
    (case prio_Argument priority of
       None \<Rightarrow> (None, priorities)
     | Some a \<Rightarrow>
         if pra_LabelPreference a \<noteq> None then verifyDifferentWeights ''LabelPreference'' priorities priority
         else if pra_ServiceAntiAffinity a \<noteq> None then verifyDifferentWeights ''ServiceAntiAffinity'' priorities priority
         else if pra_RequestedToCapacityRatioArguments a \<noteq> None
         then verifyRedeclaration ''RequestedToCapacityRatio'' priorities priority
         else (Some (PlainError (''No priority arguments set for priority '' @ prio_Name priority)), priorities))"

fun validate_priorities :: "PriorityPolicy list \<Rightarrow> (string, PriorityPolicy) gomap \<Rightarrow> policy_error list" where
  "validate_priorities [] priorities = []"
| "validate_priorities (priority # ps) priorities =
    (if prio_Weight priority \<le> 0 \<or> prio_Weight priority \<ge> config_MaxWeight
     then [PlainError (''Priority '' @ prio_Name priority @ '' should have a positive weight applied to it or it has overflown'')] else []) @
    (case validateCustomPriorities priorities priority of
       (err, priorities') \<Rightarrow> (case err of None \<Rightarrow> [] | Some e \<Rightarrow> [e]) @ validate_priorities ps priorities')"

text \<open>\<open>qualified\<close> gives the messages about a name that is not a qualified name.\<close>

definition validateExtendedResourceName :: "(string \<Rightarrow> string list) \<Rightarrow> string \<Rightarrow> error list" where
  "validateExtendedResourceName qualified name = qualified name"

fun validate_resources :: "(string \<Rightarrow> string list) \<Rightarrow> string \<Rightarrow> nat \<Rightarrow> ExtenderManagedResource list \<Rightarrow> string set \<Rightarrow>
    policy_error list \<times> string set" where
  "validate_resources qualified path j [] seen = ([], seen)"
| "validate_resources qualified path j (resource # resources) seen =
    (let p = path_index (path @ ''.managedResources'') j @ ''.name'';
         errs = map (\<lambda>err. InvalidString p (emr_Name resource) err) (validateExtendedResourceName qualified (emr_Name resource)) @
           (if emr_Name resource \<in> seen then [InvalidString p (emr_Name resource) ''duplicate extender managed resource name''] else [])
     in case validate_resources qualified path (j + 1) resources (insert (emr_Name resource) seen) of
          (rest, seen') \<Rightarrow> (errs @ rest, seen'))"

fun validate_each :: "(string \<Rightarrow> string list) \<Rightarrow> string \<Rightarrow> nat \<Rightarrow> ExtenderConfig list \<Rightarrow> string set \<Rightarrow> policy_error list" where
  "validate_each qualified fldPath i [] seen = []"
| "validate_each qualified fldPath i (extender # extenders) seen =
    (let path = path_index fldPath i in
     (if length (ec_PrioritizeVerb extender) > 0 \<and> ec_Weight extender \<le> 0
      then [InvalidInt (path @ ''.weight'') (ec_Weight extender) ''must have a positive weight applied to it''] else []) @
     (case validate_resources qualified path 0 (ec_ManagedResources extender) seen of
        (errs, seen') \<Rightarrow> errs @ validate_each qualified fldPath (i + 1) extenders seen'))"

definition validateExtenders :: "(string \<Rightarrow> string list) \<Rightarrow> string \<Rightarrow> ExtenderConfig list \<Rightarrow> policy_error list" where
  "validateExtenders qualified fldPath extenders =
    (let binders = length (filter (\<lambda>e. ec_BindVerb e \<noteq> '''') extenders) in
     validate_each qualified fldPath 0 extenders {} @
     (if binders > 1
      then [InvalidString fldPath (''found '' @ go_v (int binders) @ '' extenders implementing bind'') ''only one extender can implement bind'']
      else []))"

text \<open>\<open>ToAggregate\<close> keeps the first of equal errors. \<open>aggregate\<close> is \<open>NewAggregate\<close> on a list with an error.\<close>

definition ValidatePolicy :: "(policy_error list \<Rightarrow> error) \<Rightarrow> (string \<Rightarrow> string list) \<Rightarrow> Policy \<Rightarrow> error option" where
  "ValidatePolicy aggregate qualified policy =
    (let errs = validate_priorities (case pol_Priorities policy of None \<Rightarrow> [] | Some ps \<Rightarrow> ps) [] @
           rev (remdups (rev (validateExtenders qualified ''extenders'' (pol_Extenders policy)))) @
           (if pol_HardPodAffinitySymmetricWeight policy < 0 \<or> pol_HardPodAffinitySymmetricWeight policy > 100
            then [InvalidInt ''hardPodAffinitySymmetricWeight'' (pol_HardPodAffinitySymmetricWeight policy) ''not in valid range [0-100]'']
            else []) in
     if errs = [] then None else Some (aggregate errs))"

subsection \<open>Algorithm providers\<close>

definition enable :: "string list \<Rightarrow> PluginSet option" where
  "enable ns = Some \<lparr>Enabled = map (\<lambda>n. \<lparr>plg_Name = n, plg_Weight = 0\<rparr>) ns, Disabled = []\<rparr>"

definition getDefaultConfig :: Plugins where
  "getDefaultConfig =
    \<lparr>ps_QueueSort = enable [PrioritySortName],
     ps_PreFilter = enable [FitName, PortsName, PodTopologySpreadName, InterPodAffinityName],
     ps_Filter = enable [NodeUnschedulableName, FitName, NodeNameName, PortsName, NodeAffinityName, VolumeRestrictionsName,
       TaintTolerationName, VolumeZoneName, PodTopologySpreadName, InterPodAffinityName],
     ps_PostFilter = enable [DefaultPreemptionName],
     ps_PreScore = enable [InterPodAffinityName, PodTopologySpreadName, TaintTolerationName],
     ps_Score = Some \<lparr>Enabled = [\<lparr>plg_Name = BalancedAllocationName, plg_Weight = 1\<rparr>, \<lparr>plg_Name = ImageLocalityName, plg_Weight = 1\<rparr>,
         \<lparr>plg_Name = InterPodAffinityName, plg_Weight = 1\<rparr>, \<lparr>plg_Name = LeastAllocatedName, plg_Weight = 1\<rparr>,
         \<lparr>plg_Name = NodeAffinityName, plg_Weight = 1\<rparr>, \<lparr>plg_Name = PodTopologySpreadName, plg_Weight = 2\<rparr>,
         \<lparr>plg_Name = TaintTolerationName, plg_Weight = 1\<rparr>], Disabled = []\<rparr>,
     ps_Reserve = Some empty_set, ps_Permit = None, ps_PreBind = Some empty_set,
     ps_Bind = enable [DefaultBinderName], ps_PostBind = None\<rparr>"

definition getClusterAutoscalerConfig :: Plugins where
  "getClusterAutoscalerConfig =
    getDefaultConfig\<lparr>ps_Score := map_option (Enabled_update (map (\<lambda>p. if plg_Name p = LeastAllocatedName then p\<lparr>plg_Name := MostAllocatedName\<rparr> else p)))
      (ps_Score getDefaultConfig)\<rparr>"

text \<open>Both sets that are extended here are set in the two configurations above.\<close>

definition applyFeatureGates :: "Plugins \<Rightarrow> Plugins" where
  "applyFeatureGates c =
    (let s = \<lparr>plg_Name = SelectorSpreadName, plg_Weight = 0\<rparr> in
     c\<lparr>ps_PreScore := map_option (\<lambda>p. p\<lparr>Enabled := Enabled p @ [s]\<rparr>) (ps_PreScore c),
       ps_Score := map_option (\<lambda>p. p\<lparr>Enabled := Enabled p @ [s\<lparr>plg_Weight := 1\<rparr>]\<rparr>) (ps_Score c)\<rparr>)"

definition SchedulerDefaultProviderName :: string where
  "SchedulerDefaultProviderName = ''DefaultProvider''"

definition ClusterAutoscalerProvider :: string where
  "ClusterAutoscalerProvider = ''ClusterAutoscalerProvider''"

definition NewAlgorithmRegistry :: "(string, Plugins) gomap" where
  "NewAlgorithmRegistry =
    [(SchedulerDefaultProviderName, applyFeatureGates getDefaultConfig),
     (ClusterAutoscalerProvider, applyFeatureGates getClusterAutoscalerConfig)]"

definition ListAlgorithmProviders :: string where
  "ListAlgorithmProviders =
    (case sort (gm_keys NewAlgorithmRegistry) of [] \<Rightarrow> '''' | p # ps \<Rightarrow> p @ concat (map (\<lambda>k. '' | '' @ k) ps))"

subsection \<open>The configurator\<close>

record ('d, 'w) Configurator =
  cf_schedulerCache :: schedulerCache
  cf_disablePreemption :: bool
  cf_alwaysCheckAllPredicates :: bool
  cf_percentageOfNodesToScore :: int
  cf_podInitialBackoffSeconds :: int
  cf_podMaxBackoffSeconds :: int
  cf_profiles :: "PluginArgs KubeSchedulerProfile list"
  cf_registry :: "(PluginArgs, 'd, 'w) Registry"
  cf_nodeInfoSnapshot :: Snapshot
  cf_extenders :: "ExtenderConfig list"

text \<open>
  What the configurator calls: the decoder of default arguments, the services of the extenders, the key function of the
  queue, the world in which the scheduler starts, and the parameters of the validation and of the ranges.
\<close>

record ('tls, 't, 'w) config_env =
  ce_decode :: "string \<Rightarrow> PluginArgs option \<times> decode_error option"
  ce_http :: "('tls, 't, 'w) http_api"
  ce_metaKey :: "Pod \<Rightarrow> error + string"
  ce_world :: 'w
  ce_aggregate :: "policy_error list \<Rightarrow> error"
  ce_qualified :: "string \<Rightarrow> string list"
  ce_rangeSet :: "string set \<Rightarrow> string list"
  ce_rangeMap :: "(string, PluginArgs) gomap \<Rightarrow> string list"

definition buildFramework :: "('tls, 't, 'w) config_env \<Rightarrow> ('d, 'w) Configurator \<Rightarrow> (PluginArgs, 'd, 'w) FrameworkFactory" where
  "buildFramework ce c p opts =
    NewFramework (ce_decode ce) (cf_registry c) (ksp_Plugins p) (ksp_PluginConfig p)
      ([WithRunAllFilters (cf_alwaysCheckAllPredicates c)] @ opts)"

text \<open>The resources that extenders ask the scheduler to ignore become arguments of the fit plugin in every profile.\<close>

definition ignore_resources :: "string list \<Rightarrow> PluginArgs KubeSchedulerProfile list \<Rightarrow> PluginArgs KubeSchedulerProfile list" where
  "ignore_resources ignored profiles =
    (if length ignored > 0
     then map (\<lambda>prof. prof\<lparr>ksp_PluginConfig := ksp_PluginConfig prof @
       [(FitName, NodeResourcesFitArgs \<lparr>IgnoredResources = ignored, IgnoredResourceGroups = []\<rparr>)]\<rparr>) profiles
     else profiles)"

definition create :: "('tls, 't, 'w) config_env \<Rightarrow> ('d, 'w) Configurator \<Rightarrow> failure + (PluginArgs, 'd, 'w) Scheduler" where
  "create ce c =
    (case make_extenders (ce_http ce) (cf_extenders c) [] [] [] of
       Inl err \<Rightarrow> Inl (Err err)
     | Inr (extenders, ignored) \<Rightarrow>
         let profs = ignore_resources ignored (cf_profiles c) in
         case NewMap (buildFramework ce c) [] profs of
           Inl err \<Rightarrow> Inl (Err (''initializing profiles: '' @ err))
         | Inr profiles \<Rightarrow>
             if length profiles = 0 then Inl (Err ''at least one profile is required'')
             else case gm_get profiles (ksp_SchedulerName (hd profs)) of
               None \<Rightarrow> Inl Panic
             | Some prof \<Rightarrow>
                 (case QueueSortFunc (Some (pr_Framework prof)) of
                    None \<Rightarrow> Inl Panic
                  | Some lessFn \<Rightarrow>
                      Inr \<lparr>s_Algorithm = NewGenericScheduler (cf_schedulerCache c) (cf_nodeInfoSnapshot c)
                             (map (http_extender (ce_http ce) (ce_world ce)) extenders) (cf_disablePreemption c) (cf_percentageOfNodesToScore c),
                           s_SchedulingQueue = NewPriorityQueue (ce_metaKey ce) lessFn
                             [WithPodInitialBackoffDuration (i64 (cf_podInitialBackoffSeconds c * 1000000000)),
                              WithPodMaxBackoffDuration (i64 (cf_podMaxBackoffSeconds c * 1000000000)),
                              WithPodNominator NewPodNominator],
                           s_Profiles = profiles, s_world = ce_world ce\<rparr>))"

definition createFromProvider :: "('tls, 't, 'w) config_env \<Rightarrow> string \<Rightarrow> ('d, 'w) Configurator \<Rightarrow> failure + (PluginArgs, 'd, 'w) Scheduler" where
  "createFromProvider ce providerName c =
    (case gm_get NewAlgorithmRegistry providerName of
       None \<Rightarrow> Inl (Err (''algorithm provider '' @ go_q providerName @ '' is not registered''))
     | Some defaultPlugins \<Rightarrow>
         create ce (c\<lparr>cf_profiles := map (\<lambda>prof. prof\<lparr>ksp_Plugins :=
           Some (Plugins_Apply (the (Plugins_Append (Some no_plugins) (Some defaultPlugins))) (ksp_Plugins prof))\<rparr>) (cf_profiles c)\<rparr>))"

subsection \<open>Plugins from a policy\<close>

definition run_producer :: "string \<Rightarrow> (string, ConfigProducer) gomap \<Rightarrow> string \<Rightarrow> ConfigProducerArgs \<Rightarrow>
    Plugins \<times> PluginConfigs \<Rightarrow> failure + Plugins \<times> PluginConfigs" where
  "run_producer missing producers key args acc =
    (case gm_get producers key of
       None \<Rightarrow> Inl (Err (missing @ go_q key))
     | Some producer \<Rightarrow>
         and_then (producer args) (\<lambda>(pl, plc).
           Inr (the (Plugins_Append (Some (fst acc)) (Some pl)), snd acc @ plc)))"

fun priority_loop :: "LegacyRegistry \<Rightarrow> ConfigProducerArgs \<Rightarrow> (string, int) gomap \<Rightarrow> string list \<Rightarrow> Plugins \<times> PluginConfigs \<Rightarrow>
    failure + Plugins \<times> PluginConfigs" where
  "priority_loop lr args keys [] acc = Inr acc"
| "priority_loop lr args keys (priority # ps) acc =
    and_then (run_producer ''no config producer registered for '' (PriorityToConfigProducer lr) priority
        (args\<lparr>cpa_Weight := i32 (gm_get0 keys priority)\<rparr>) acc)
      (priority_loop lr args keys ps)"

definition getPriorityConfigs :: "(string, int) gomap \<Rightarrow> LegacyRegistry \<Rightarrow> ConfigProducerArgs \<Rightarrow> failure + Plugins \<times> PluginConfigs" where
  "getPriorityConfigs keys lr args = priority_loop lr args keys (sort (gm_keys keys)) (no_plugins, [])"

fun ordered_loop :: "LegacyRegistry \<Rightarrow> ConfigProducerArgs \<Rightarrow> string list \<Rightarrow> string set \<Rightarrow> Plugins \<times> PluginConfigs \<Rightarrow>
    failure + string set \<times> Plugins \<times> PluginConfigs" where
  "ordered_loop lr args [] allPredicates acc = Inr (allPredicates, acc)"
| "ordered_loop lr args (predicateKey # ks) allPredicates acc =
    (if predicateKey \<in> allPredicates
     then and_then (run_producer ''no framework config producer registered for '' (PredicateToConfigProducer lr) predicateKey args acc)
       (ordered_loop lr args ks (allPredicates - {predicateKey}))
     else ordered_loop lr args ks allPredicates acc)"

fun rest_loop :: "LegacyRegistry \<Rightarrow> ConfigProducerArgs \<Rightarrow> string list \<Rightarrow> Plugins \<times> PluginConfigs \<Rightarrow> failure + Plugins \<times> PluginConfigs" where
  "rest_loop lr args [] acc = Inr acc"
| "rest_loop lr args (predicateKey # ks) acc =
    and_then (run_producer ''no framework config producer registered for '' (PredicateToConfigProducer lr) predicateKey args acc)
      (rest_loop lr args ks)"

definition getPredicateConfigs :: "(string set \<Rightarrow> string list) \<Rightarrow> string set \<Rightarrow> LegacyRegistry \<Rightarrow> ConfigProducerArgs \<Rightarrow>
    failure + Plugins \<times> PluginConfigs" where
  "getPredicateConfigs rangeSet keys lr args =
    and_then (ordered_loop lr args PredicateOrdering (keys \<union> MandatoryPredicates lr) (no_plugins, []))
      (\<lambda>(allPredicates, acc). rest_loop lr args (rangeSet allPredicates) acc)"

fun merge_second :: "PluginConfigs \<Rightarrow> (string, PluginArgs) gomap \<Rightarrow> error + (string, PluginArgs) gomap" where
  "merge_second [] args = Inr args"
| "merge_second ((name, a) # pc) args =
    (case gm_get args name of
       Some v \<Rightarrow>
         if v \<noteq> a then Inl (''inconsistent configuration produced for plugin '' @ name)
         else merge_second pc (gm_put args name a)
     | None \<Rightarrow> merge_second pc (gm_put args name a))"

definition mergePluginConfigsFromPolicy :: "((string, PluginArgs) gomap \<Rightarrow> string list) \<Rightarrow> PluginConfigs \<Rightarrow> PluginConfigs \<Rightarrow> error + PluginConfigs" where
  "mergePluginConfigsFromPolicy rangeMap pc1 pc2 =
    (case merge_second pc2 (fold (\<lambda>(name, a) args. gm_put args name a) pc1 []) of
       Inl err \<Rightarrow> Inl err
     | Inr args \<Rightarrow> Inr (map (\<lambda>k. (k, the (gm_get args k))) (rangeMap args)))"

fun process_predicates :: "LegacyRegistry \<Rightarrow> PredicatePolicy list \<Rightarrow> string set \<times> ConfigProducerArgs \<Rightarrow> failure + string set \<times> ConfigProducerArgs" where
  "process_predicates lr [] acc = Inr acc"
| "process_predicates lr (predicate # ps) (keys, args) =
    and_then (ProcessPredicatePolicy lr predicate args) (\<lambda>(name, args'). process_predicates lr ps (insert name keys, args'))"

fun process_priorities :: "LegacyRegistry \<Rightarrow> PriorityPolicy list \<Rightarrow> (string, int) gomap \<times> ConfigProducerArgs \<Rightarrow>
    failure + (string, int) gomap \<times> ConfigProducerArgs" where
  "process_priorities lr [] acc = Inr acc"
| "process_priorities lr (priority # ps) (keys, args) =
    (if prio_Name priority = EqualPriority then process_priorities lr ps (keys, args)
     else and_then (ProcessPriorityPolicy lr priority args)
       (\<lambda>(name, args'). process_priorities lr ps (gm_put keys name (prio_Weight priority), args')))"

text \<open>The keys and arguments that a policy asks for.\<close>

definition policy_keys :: "LegacyRegistry \<Rightarrow> Policy \<Rightarrow> failure + string set \<times> (string, int) gomap \<times> ConfigProducerArgs" where
  "policy_keys lr policy =
    and_then (case pol_Predicates policy of
        None \<Rightarrow> Inr (DefaultPredicates lr, no_args)
      | Some ps \<Rightarrow> process_predicates lr ps ({}, no_args)) (\<lambda>(predicateKeys, args).
    and_then (case pol_Priorities policy of
        None \<Rightarrow> Inr (DefaultPriorities lr, args)
      | Some ps \<Rightarrow> process_priorities lr ps ([], args)) (\<lambda>(priorityKeys, args).
    Inr (predicateKeys, priorityKeys,
      if pol_HardPodAffinitySymmetricWeight policy \<noteq> 0
      then args\<lparr>cpa_InterPodAffinityArgs := Some (pol_HardPodAffinitySymmetricWeight policy)\<rparr> else args)))"

definition base_plugins :: Plugins where
  "base_plugins = no_plugins\<lparr>ps_QueueSort := enable [PrioritySortName], ps_Bind := enable [DefaultBinderName]\<rparr>"

text \<open>The plugins and the configuration that every profile gets.\<close>

definition policy_plugins :: "('tls, 't, 'w) config_env \<Rightarrow> Policy \<Rightarrow> failure + Plugins \<times> PluginConfigs" where
  "policy_plugins ce policy =
    and_then NewLegacyRegistry (\<lambda>lr.
    case ValidatePolicy (ce_aggregate ce) (ce_qualified ce) policy of
      Some err \<Rightarrow> Inl (Err err)
    | None \<Rightarrow>
      and_then (policy_keys lr policy) (\<lambda>(predicateKeys, priorityKeys, args).
      and_then (getPredicateConfigs (ce_rangeSet ce) predicateKeys lr args) (\<lambda>(pluginsForPredicates, pluginConfigForPredicates).
      and_then (getPriorityConfigs priorityKeys lr args) (\<lambda>(pluginsForPriorities, pluginConfigForPriorities).
      let append = (\<lambda>p q. the (Plugins_Append (Some p) (Some q)));
          defPlugins = append (append (append no_plugins base_plugins) pluginsForPredicates) pluginsForPriorities in
      case mergePluginConfigsFromPolicy (ce_rangeMap ce) pluginConfigForPredicates pluginConfigForPriorities of
        Inl err \<Rightarrow> Inl (Err err)
      | Inr defPluginConfig \<Rightarrow> Inr (append no_plugins defPlugins, defPluginConfig)))))"

definition createFromConfig :: "('tls, 't, 'w) config_env \<Rightarrow> Policy \<Rightarrow> ('d, 'w) Configurator \<Rightarrow> failure + (PluginArgs, 'd, 'w) Scheduler" where
  "createFromConfig ce policy c =
    and_then (policy_plugins ce policy) (\<lambda>(plugins, pluginConfig).
      create ce (c\<lparr>cf_alwaysCheckAllPredicates := cf_alwaysCheckAllPredicates c \<or> pol_AlwaysCheckAllPredicates policy,
        cf_profiles := map (\<lambda>prof. prof\<lparr>ksp_Plugins := Some plugins, ksp_PluginConfig := pluginConfig\<rparr>) (cf_profiles c)\<rparr>))"

subsection \<open>The order of the filters\<close>

lemma enabled_append [simp]:
  "enabled_at x (the (Plugins_Append (Some p) (Some q))) = enabled_at x p @ enabled_at x q"
proof -
  obtain r where "Plugins_Append (Some p) (Some q) = Some r" by (simp add: Plugins_Append_def)
  then show ?thesis by (simp add: enabled_Append)
qed

lemma enabled_no_plugins [simp]: "enabled_at x no_plugins = []"
  by (cases x) (simp_all add: enabled_at_def no_plugins_def)

lemma enabled_enable: "enabled_at x p = map (\<lambda>n. \<lparr>plg_Name = n, plg_Weight = 0\<rparr>) ns" if "set_at x p = enable ns"
  using that by (simp add: enabled_at_def enable_def)

lemma appended_enabled:
  "(case appendToPluginSet s name w of None \<Rightarrow> [] | Some t \<Rightarrow> Enabled t) =
    (case s of None \<Rightarrow> [] | Some t \<Rightarrow> Enabled t) @ [\<lparr>plg_Name = name, plg_Weight = (case w of None \<Rightarrow> 0 | Some v \<Rightarrow> v)\<rparr>]"
  by (simp add: appendToPluginSet_def empty_set_def Let_def split: option.split)

lemma enabled_add [simp]:
  "enabled_at x (add_Filter n p) = enabled_at x p @ (if x = FilterP then [\<lparr>plg_Name = n, plg_Weight = 0\<rparr>] else [])"
  "enabled_at x (add_PreFilter n p) = enabled_at x p @ (if x = PreFilterP then [\<lparr>plg_Name = n, plg_Weight = 0\<rparr>] else [])"
  "enabled_at x (add_PreScore n p) = enabled_at x p @ (if x = PreScoreP then [\<lparr>plg_Name = n, plg_Weight = 0\<rparr>] else [])"
  "enabled_at x (add_Score n w p) = enabled_at x p @ (if x = ScoreP then [\<lparr>plg_Name = n, plg_Weight = w\<rparr>] else [])"
  by (cases x; simp add: enabled_at_def add_Filter_def add_PreFilter_def add_PreScore_def add_Score_def appended_enabled)+

text \<open>The plugins that stand for a predicate.\<close>

definition predicate_filters :: "string \<Rightarrow> string list" where
  "predicate_filters k =
    (if k = GeneralPred then [FitName, NodeNameName, PortsName, NodeAffinityName]
     else if k = PodToleratesNodeTaintsPred then [TaintTolerationName]
     else if k = PodFitsResourcesPred then [FitName]
     else if k = HostNamePred then [NodeNameName]
     else if k = PodFitsHostPortsPred then [PortsName]
     else if k = MatchNodeSelectorPred then [NodeAffinityName]
     else if k = CheckNodeUnschedulablePred then [NodeUnschedulableName]
     else if k = NoDiskConflictPred then [VolumeRestrictionsName]
     else if k = NoVolumeZoneConflictPred then [VolumeZoneName]
     else if k = MatchInterPodAffinityPred then [InterPodAffinityName]
     else if k = CheckNodeLabelPresencePred then [NodeLabelName]
     else if k = CheckServiceAffinityPred then [ServiceAffinityName]
     else if k = EvenPodsSpreadPred then [PodTopologySpreadName]
     else [])"

text \<open>What a producer of a predicate can enable, and what one of a priority can.\<close>

lemmas producer_defs = general_producer_def resources_producer_def filter_producer_def prefilter_producer_def nothing_producer_def
  label_presence_producer_def service_affinity_producer_def score_producer_def prescore_producer_def interpod_producer_def
  ratio_producer_def label_score_producer_def service_score_producer_def

lemma predicate_producer:
  assumes "(k, producer) \<in> set predicate_calls"
  obtains pl plc where "producer args = Inr (pl, plc)" "map plg_Name (enabled_at FilterP pl) = predicate_filters k"
    "\<And>x. x \<noteq> FilterP \<Longrightarrow> x \<noteq> PreFilterP \<Longrightarrow> enabled_at x pl = []"
proof -
  have "\<exists>pl plc. producer args = Inr (pl, plc) \<and> map plg_Name (enabled_at FilterP pl) = predicate_filters k \<and>
      (\<forall>x. x \<noteq> FilterP \<longrightarrow> x \<noteq> PreFilterP \<longrightarrow> enabled_at x pl = [])"
  proof -
    have "list_all (\<lambda>(k, producer). \<exists>pl plc. producer args = Inr (pl, plc) \<and> map plg_Name (enabled_at FilterP pl) = predicate_filters k \<and>
        (\<forall>x. x \<noteq> FilterP \<longrightarrow> x \<noteq> PreFilterP \<longrightarrow> enabled_at x pl = [])) predicate_calls"
      by (simp add: predicate_calls_def producer_defs predicate_filters_def plugin_names)
    then show ?thesis using assms by (auto simp: list_all_iff)
  qed
  then show ?thesis using that by blast
qed

lemma priority_producer:
  assumes "(k, producer) \<in> set priority_calls" "producer args = Inr (pl, plc)" "x \<noteq> PreScoreP" "x \<noteq> ScoreP"
  shows "enabled_at x pl = []"
proof -
  have "list_all (\<lambda>(k, producer). \<forall>pl plc. producer args = Inr (pl, plc) \<longrightarrow> enabled_at x pl = []) priority_calls"
    using assms(3,4) by (auto simp: priority_calls_def producer_defs Let_def split: option.splits)
  then show ?thesis using assms(1,2) by (auto simp: list_all_iff)
qed

lemma legacy_simps [simp]:
  "PredicateToConfigProducer legacy_registry = predicate_calls" "PriorityToConfigProducer legacy_registry = priority_calls"
  "MandatoryPredicates legacy_registry = {PodToleratesNodeTaintsPred, CheckNodeUnschedulablePred}"
  "DefaultPredicates legacy_registry = DefaultPredicates default_sets" "DefaultPriorities legacy_registry = DefaultPriorities default_sets"
  by (simp_all add: legacy_registry_def default_sets_def)

lemma run_producer_Inr:
  assumes "run_producer missing producers key args acc = Inr (p, c)"
  obtains producer pl plc where "(key, producer) \<in> set producers" "producer args = Inr (pl, plc)"
    "\<And>x. enabled_at x p = enabled_at x (fst acc) @ enabled_at x pl" "c = snd acc @ plc"
  using assms by (auto simp: run_producer_def split: option.splits dest: gm_get_in_set)

lemma run_predicate:
  assumes "k \<in> set PredicateOrdering"
  obtains p c where "run_producer missing predicate_calls k args acc = Inr (p, c)"
    "map plg_Name (enabled_at FilterP p) = map plg_Name (enabled_at FilterP (fst acc)) @ predicate_filters k"
    "\<And>x. x \<noteq> FilterP \<Longrightarrow> x \<noteq> PreFilterP \<Longrightarrow> enabled_at x p = enabled_at x (fst acc)"
proof -
  obtain producer where get: "gm_get predicate_calls k = Some producer"
    using assms ordering_complete by (cases "gm_get predicate_calls k") (auto simp: gm_get_eq_None)
  then have "(k, producer) \<in> set predicate_calls" by (rule gm_get_in_set)
  then obtain pl plc where "producer args = Inr (pl, plc)" "map plg_Name (enabled_at FilterP pl) = predicate_filters k"
      "\<And>x. x \<noteq> FilterP \<Longrightarrow> x \<noteq> PreFilterP \<Longrightarrow> enabled_at x pl = []"
    by (rule predicate_producer [where args = args]) blast
  then show ?thesis using get that by (simp add: run_producer_def)
qed

lemma ordered_loop_filters:
  "set ks \<subseteq> set PredicateOrdering \<Longrightarrow> distinct ks \<Longrightarrow>
    \<exists>p c. ordered_loop legacy_registry args ks S acc = Inr (S - set ks, p, c) \<and>
      map plg_Name (enabled_at FilterP p) =
        map plg_Name (enabled_at FilterP (fst acc)) @ concat (map predicate_filters (filter (\<lambda>k. k \<in> S) ks)) \<and>
      (\<forall>x. x \<noteq> FilterP \<longrightarrow> x \<noteq> PreFilterP \<longrightarrow> enabled_at x p = enabled_at x (fst acc))"
proof (induction ks arbitrary: S acc)
  case Nil show ?case by (cases acc) auto
next
  case (Cons k ks)
  show ?case
  proof (cases "k \<in> S")
    case True
    from Cons.prems obtain p c where run: "run_producer ''no framework config producer registered for '' predicate_calls k args acc = Inr (p, c)"
        "map plg_Name (enabled_at FilterP p) = map plg_Name (enabled_at FilterP (fst acc)) @ predicate_filters k"
        "\<And>x. x \<noteq> FilterP \<Longrightarrow> x \<noteq> PreFilterP \<Longrightarrow> enabled_at x p = enabled_at x (fst acc)"
      using run_predicate [of k "''no framework config producer registered for ''" args acc] by auto
    have eq: "S - {k} - set ks = S - set (k # ks)" "filter (\<lambda>i. i \<in> S - {k}) ks = filter (\<lambda>i. i \<in> S) ks"
      using Cons.prems(2) by (auto intro: filter_cong)
    show ?thesis using Cons.IH [of "S - {k}" "(p, c)"] Cons.prems True run unfolding eq by auto
  next
    case False
    then show ?thesis using Cons.IH [of S acc] Cons.prems by auto
  qed
qed

lemma getPredicateConfigs_filters:
  assumes "keys \<subseteq> set PredicateOrdering" "rangeSet {} = []"
  shows "\<exists>p c. getPredicateConfigs rangeSet keys legacy_registry args = Inr (p, c) \<and>
    map plg_Name (enabled_at FilterP p) = concat (map predicate_filters
      (filter (\<lambda>k. k \<in> keys \<or> k = PodToleratesNodeTaintsPred \<or> k = CheckNodeUnschedulablePred) PredicateOrdering)) \<and>
    (\<forall>x. x \<noteq> FilterP \<longrightarrow> x \<noteq> PreFilterP \<longrightarrow> enabled_at x p = [])"
proof -
  let ?S = "keys \<union> {PodToleratesNodeTaintsPred, CheckNodeUnschedulablePred}"
  have none: "?S - set PredicateOrdering = {}" using assms(1) by (auto simp: PredicateOrdering_def)
  obtain p c where "ordered_loop legacy_registry args PredicateOrdering ?S (no_plugins, []) = Inr ({}, p, c)"
      "map plg_Name (enabled_at FilterP p) = concat (map predicate_filters (filter (\<lambda>k. k \<in> ?S) PredicateOrdering))"
      "\<forall>x. x \<noteq> FilterP \<longrightarrow> x \<noteq> PreFilterP \<longrightarrow> enabled_at x p = []"
    using ordered_loop_filters [of PredicateOrdering args ?S "(no_plugins, [])"] distinct_ordering unfolding none by auto
  then show ?thesis using assms(2) by (auto simp: getPredicateConfigs_def disj_commute disj_left_commute)
qed

lemma priority_loop_keeps:
  "priority_loop legacy_registry args keys ps acc = Inr (p, c) \<Longrightarrow> x \<noteq> PreScoreP \<Longrightarrow> x \<noteq> ScoreP \<Longrightarrow>
    enabled_at x p = enabled_at x (fst acc)"
proof (induction ps arbitrary: acc)
  case (Cons k ps)
  obtain p' c' where run: "run_producer ''no config producer registered for '' priority_calls k (args\<lparr>cpa_Weight := i32 (gm_get0 keys k)\<rparr>) acc = Inr (p', c')"
      "priority_loop legacy_registry args keys ps (p', c') = Inr (p, c)"
    using Cons.prems(1) by auto
  obtain producer pl plc where "(k, producer) \<in> set priority_calls" "producer (args\<lparr>cpa_Weight := i32 (gm_get0 keys k)\<rparr>) = Inr (pl, plc)"
      "enabled_at x p' = enabled_at x (fst acc) @ enabled_at x pl"
    using run_producer_Inr [OF run(1)] by metis
  then show ?case using Cons.IH [OF run(2)] Cons.prems(2,3) priority_producer by auto
qed simp

text \<open>The predicate that an entry of a policy asks for, and all that a policy asks for.\<close>

definition asked_predicate :: "PredicatePolicy \<Rightarrow> string" where
  "asked_predicate p =
    (if pred_Name p = ''PodFitsPorts'' then PodFitsHostPortsPred
     else if pred_Name p \<in> set PredicateOrdering then pred_Name p
     else if (\<exists>a. pred_Argument p = Some a \<and> pda_LabelsPresence a \<noteq> None) then CheckNodeLabelPresencePred
     else CheckServiceAffinityPred)"

definition asked_predicates :: "Policy \<Rightarrow> string set" where
  "asked_predicates policy =
    (case pol_Predicates policy of None \<Rightarrow> DefaultPredicates default_sets | Some ps \<Rightarrow> asked_predicate ` set ps)"

lemma has_predicate: "gm_has predicate_calls k \<longleftrightarrow> k \<in> set PredicateOrdering"
  using gm_get_eq_None [of predicate_calls k] by (auto simp: gm_has_def ordering_complete)

lemma ProcessPredicatePolicy_name:
  assumes "ProcessPredicatePolicy legacy_registry p args = Inr (name, args')"
  shows "name = asked_predicate p"
proof -
  have "''PodFitsPorts'' \<notin> set PredicateOrdering" "PodFitsHostPortsPred \<in> set PredicateOrdering"
    by (simp_all add: PredicateOrdering_def plugin_names)
  then show ?thesis using assms
    by (auto simp: ProcessPredicatePolicy_def asked_predicate_def has_predicate Let_def split: if_splits option.splits prod.splits)
qed

lemma asked_in_order: "asked_predicate p \<in> set PredicateOrdering"
  by (simp add: asked_predicate_def) (simp add: PredicateOrdering_def)

lemma process_predicates_keys:
  "process_predicates legacy_registry ps (keys, args) = Inr (keys', args') \<Longrightarrow> keys' = keys \<union> asked_predicate ` set ps"
proof (induction ps arbitrary: keys args)
  case (Cons p ps)
  then obtain name a where "ProcessPredicatePolicy legacy_registry p args = Inr (name, a)"
      "process_predicates legacy_registry ps (insert name keys, a) = Inr (keys', args')"
    by auto
  with Cons.IH show ?case by (auto dest!: ProcessPredicatePolicy_name)
qed simp

lemma policy_keys_asked:
  assumes "policy_keys legacy_registry policy = Inr (keys, prios, args)"
  shows "keys = asked_predicates policy" "keys \<subseteq> set PredicateOrdering"
proof -
  show "keys = asked_predicates policy"
    using assms by (auto simp: policy_keys_def asked_predicates_def dest!: process_predicates_keys split: option.splits)
  moreover have "DefaultPredicates default_sets \<subseteq> set PredicateOrdering" by (simp add: default_sets_def PredicateOrdering_def)
  ultimately show "keys \<subseteq> set PredicateOrdering" using asked_in_order by (auto simp: asked_predicates_def split: option.splits)
qed

text \<open>The parts of a successful configuration.\<close>

lemma policy_plugins_parts:
  assumes "policy_plugins ce policy = Inr (plugins, config)"
  obtains keys prios args p1 c1 p2 c2 where "policy_keys legacy_registry policy = Inr (keys, prios, args)"
    "getPredicateConfigs (ce_rangeSet ce) keys legacy_registry args = Inr (p1, c1)"
    "getPriorityConfigs prios legacy_registry args = Inr (p2, c2)"
    "\<And>x. enabled_at x plugins = enabled_at x base_plugins @ enabled_at x p1 @ enabled_at x p2"
    "mergePluginConfigsFromPolicy (ce_rangeMap ce) c1 c2 = Inr config"
proof -
  from assms obtain keys prios args p1 c1 p2 c2 where parts: "policy_keys legacy_registry policy = Inr (keys, prios, args)"
      "getPredicateConfigs (ce_rangeSet ce) keys legacy_registry args = Inr (p1, c1)"
      "getPriorityConfigs prios legacy_registry args = Inr (p2, c2)"
      "(case mergePluginConfigsFromPolicy (ce_rangeMap ce) c1 c2 of Inl err \<Rightarrow> Inl (Err err)
        | Inr config \<Rightarrow> Inr (the (Plugins_Append (Some no_plugins) (Some (the (Plugins_Append (Some (the (Plugins_Append
            (Some (the (Plugins_Append (Some no_plugins) (Some base_plugins)))) (Some p1)))) (Some p2))))), config)) = Inr (plugins, config)"
    by (auto simp: policy_plugins_def NewLegacyRegistry_eq Let_def split: option.split_asm)
  show ?thesis
  proof (rule that [OF parts(1-3)])
    show "mergePluginConfigsFromPolicy (ce_rangeMap ce) c1 c2 = Inr config" using parts(4) by (auto split: sum.split_asm)
    show "enabled_at x plugins = enabled_at x base_plugins @ enabled_at x p1 @ enabled_at x p2" for x
      using parts(4) by (auto split: sum.split_asm)
  qed
qed

lemma enabled_base:
  "enabled_at x base_plugins = (if x = QueueSortP then [\<lparr>plg_Name = PrioritySortName, plg_Weight = 0\<rparr>]
    else if x = BindP then [\<lparr>plg_Name = DefaultBinderName, plg_Weight = 0\<rparr>] else [])"
  by (cases x) (simp_all add: enabled_at_def base_plugins_def no_plugins_def enable_def)

text \<open>
  C21: Whatever a policy asks for, the filters of its profiles run in the documented order of the predicates: the plugins that stand for the
  predicates asked for (an entry with custom arguments counts as the check of its kind) and for the two mandatory ones, and nothing else;
  so the checks of taints and of unschedulable nodes are always enabled. Sorting and binding are the default ones, and no plugin is
  enabled at the other extension points, post-filters included.\<close>

theorem policy_filters_ordered:
  assumes "policy_plugins ce policy = Inr (plugins, config)" "ce_rangeSet ce {} = []"
  shows "map plg_Name (enabled_at FilterP plugins) = concat (map predicate_filters
      (filter (\<lambda>k. k \<in> asked_predicates policy \<or> k = PodToleratesNodeTaintsPred \<or> k = CheckNodeUnschedulablePred) PredicateOrdering)) \<and>
    {TaintTolerationName, NodeUnschedulableName} \<subseteq> set (map plg_Name (enabled_at FilterP plugins)) \<and>
    map plg_Name (enabled_at QueueSortP plugins) = [PrioritySortName] \<and> map plg_Name (enabled_at BindP plugins) = [DefaultBinderName] \<and>
    (\<forall>x. x \<notin> {QueueSortP, BindP, PreFilterP, FilterP, PreScoreP, ScoreP} \<longrightarrow> enabled_at x plugins = [])"
proof -
  obtain keys prios args p1 c1 p2 c2 where parts: "policy_keys legacy_registry policy = Inr (keys, prios, args)"
      "getPredicateConfigs (ce_rangeSet ce) keys legacy_registry args = Inr (p1, c1)"
      "getPriorityConfigs prios legacy_registry args = Inr (p2, c2)"
      "\<And>x. enabled_at x plugins = enabled_at x base_plugins @ enabled_at x p1 @ enabled_at x p2"
    using policy_plugins_parts [OF assms(1)] by metis
  have p2: "enabled_at x p2 = []" if "x \<noteq> PreScoreP" "x \<noteq> ScoreP" for x
    using priority_loop_keeps [OF parts(3) [unfolded getPriorityConfigs_def] that] by simp
  let ?ks = "filter (\<lambda>k. k \<in> asked_predicates policy \<or> k = PodToleratesNodeTaintsPred \<or> k = CheckNodeUnschedulablePred) PredicateOrdering"
  have p1: "map plg_Name (enabled_at FilterP p1) = concat (map predicate_filters ?ks)"
      "\<And>x. x \<noteq> FilterP \<Longrightarrow> x \<noteq> PreFilterP \<Longrightarrow> enabled_at x p1 = []"
    using getPredicateConfigs_filters [where rangeSet = "ce_rangeSet ce", OF policy_keys_asked(2) [OF parts(1)] assms(2), of args] parts(2)
    by (auto simp: policy_keys_asked(1) [OF parts(1)])
  have "PodToleratesNodeTaintsPred \<in> set ?ks" "CheckNodeUnschedulablePred \<in> set ?ks" by (simp_all add: PredicateOrdering_def)
  moreover have "predicate_filters PodToleratesNodeTaintsPred = [TaintTolerationName]"
      "predicate_filters CheckNodeUnschedulablePred = [NodeUnschedulableName]"
    by (simp_all add: predicate_filters_def plugin_names)
  ultimately have "{TaintTolerationName, NodeUnschedulableName} \<subseteq> set (concat (map predicate_filters ?ks))"
    by (metis (no_types, lifting) empty_subsetI insert_subset list.set_intros(1) UN_I set_concat set_map image_eqI)
  then show ?thesis using p1 p2 parts(4) by (simp add: enabled_base)
qed

subsection \<open>The arguments of the plugins\<close>

text \<open>The arguments that a policy gives to a plugin.\<close>

definition plugin_arg :: "ConfigProducerArgs \<Rightarrow> string \<Rightarrow> PluginArgs option" where
  "plugin_arg args name =
    (if name = FitName then map_option NodeResourcesFitArgs (cpa_NodeResourcesFitArgs args)
     else if name = NodeLabelName then map_option NodeLabelArgs (cpa_NodeLabelArgs args)
     else if name = ServiceAffinityName then map_option ServiceAffinityArgs (cpa_ServiceAffinityArgs args)
     else if name = InterPodAffinityName then map_option InterPodAffinityArgs (cpa_InterPodAffinityArgs args)
     else if name = RequestedToCapacityRatioName then map_option RequestedToCapacityRatioArgs (cpa_RequestedToCapacityRatioArgs args)
     else None)"

definition given_by :: "ConfigProducerArgs \<Rightarrow> PluginConfigs \<Rightarrow> bool" where
  "given_by args c \<longleftrightarrow> (\<forall>(n, a)\<in>set c. plugin_arg args n = Some a)"

lemma plugin_arg_weight [simp]: "plugin_arg (args\<lparr>cpa_Weight := w\<rparr>) = plugin_arg args"
  by (rule ext) (simp add: plugin_arg_def)

lemma given_by_config_of: "given_by args (config_of n wrap a)" if "plugin_arg args n = map_option wrap a"
  using that by (cases a) (auto simp: given_by_def config_of_def)

lemma given_by_simps [simp]: "given_by args []" "given_by args (c @ d) \<longleftrightarrow> given_by args c \<and> given_by args d"
  "given_by (args\<lparr>cpa_Weight := w\<rparr>) c \<longleftrightarrow> given_by args c"
  by (auto simp: given_by_def)

lemma producer_configs:
  assumes "(k, producer) \<in> set predicate_calls \<or> (k, producer) \<in> set priority_calls" "producer args = Inr (pl, plc)"
  shows "given_by args plc"
proof -
  let ?P = "\<lambda>(k, producer). \<forall>pl plc. producer args = Inr (pl, plc) \<longrightarrow> given_by args plc"
  have "list_all ?P predicate_calls"
    by (auto simp: predicate_calls_def producer_defs plugin_arg_def plugin_names intro!: given_by_config_of)
  moreover have "list_all ?P priority_calls"
    by (auto simp: priority_calls_def producer_defs plugin_arg_def plugin_names Let_def given_by_def [of args "[_]"]
        intro!: given_by_config_of split: option.splits)
  ultimately show ?thesis using assms by (auto simp: list_all_iff)
qed

lemma run_producer_given:
  assumes "run_producer missing producers k args acc = Inr (p, c)" "producers = predicate_calls \<or> producers = priority_calls"
    and "given_by args (snd acc)"
  shows "given_by args c"
proof (rule run_producer_Inr [OF assms(1)])
  fix producer pl plc
  assume "(k, producer) \<in> set producers" "producer args = Inr (pl, plc)" "c = snd acc @ plc"
  then show ?thesis using assms(2,3) producer_configs [of k producer args pl plc] by auto
qed

lemma priority_loop_given:
  "priority_loop legacy_registry args keys ps acc = Inr (p, c) \<Longrightarrow> given_by args (snd acc) \<Longrightarrow> given_by args c"
proof (induction ps arbitrary: acc)
  case (Cons k ps)
  then obtain p' c' where run: "run_producer ''no config producer registered for '' priority_calls k (args\<lparr>cpa_Weight := i32 (gm_get0 keys k)\<rparr>) acc = Inr (p', c')"
      "priority_loop legacy_registry args keys ps (p', c') = Inr (p, c)"
    by auto
  have "given_by args c'" using run_producer_given [OF run(1)] Cons.prems(2) by simp
  then show ?case using Cons.IH [OF run(2)] by simp
qed simp

lemma ordered_loop_given:
  "ordered_loop legacy_registry args ks S acc = Inr (S', p, c) \<Longrightarrow> given_by args (snd acc) \<Longrightarrow> given_by args c"
proof (induction ks arbitrary: S acc)
  case (Cons k ks)
  show ?case
  proof (cases "k \<in> S")
    case True
    then obtain p' c' where run: "run_producer ''no framework config producer registered for '' predicate_calls k args acc = Inr (p', c')"
        "ordered_loop legacy_registry args ks (S - {k}) (p', c') = Inr (S', p, c)"
      using Cons.prems(1) by auto
    show ?thesis using Cons.IH [OF run(2)] run_producer_given [OF run(1)] Cons.prems(2) by simp
  qed (use Cons in auto)
qed simp

lemma rest_loop_given:
  "rest_loop legacy_registry args ks acc = Inr (p, c) \<Longrightarrow> given_by args (snd acc) \<Longrightarrow> given_by args c"
proof (induction ks arbitrary: acc)
  case (Cons k ks)
  then obtain p' c' where run: "run_producer ''no framework config producer registered for '' predicate_calls k args acc = Inr (p', c')"
      "rest_loop legacy_registry args ks (p', c') = Inr (p, c)"
    by auto
  show ?case using Cons.IH [OF run(2)] run_producer_given [OF run(1)] Cons.prems(2) by simp
qed simp

lemma configs_given:
  "getPredicateConfigs rangeSet keys legacy_registry args = Inr (p, c) \<Longrightarrow> given_by args c"
  "getPriorityConfigs prios legacy_registry args = Inr (q, d) \<Longrightarrow> given_by args d"
  by (fastforce simp: getPredicateConfigs_def getPriorityConfigs_def dest: ordered_loop_given rest_loop_given priority_loop_given)+

lemma first_given:
  "given_by args c \<Longrightarrow> given_by args m \<Longrightarrow> given_by args (fold (\<lambda>(name, a) m. gm_put m name a) c m)"
proof (induction c arbitrary: m)
  case (Cons e c)
  obtain n a where e: "e = (n, a)" by (cases e)
  have "given_by args (gm_put m n a)" using Cons.prems set_gm_put [of m n a] by (fastforce simp: given_by_def e)
  then show ?case using Cons by (simp add: e given_by_def [of args "(n, a) # c"]) (simp add: given_by_def)
qed simp

lemma merge_second_given:
  "given_by args pc \<Longrightarrow> given_by args m \<Longrightarrow> \<exists>m'. merge_second pc m = Inr m' \<and> given_by args m' \<and> fst ` set m' = fst ` set m \<union> fst ` set pc"
proof (induction pc arbitrary: m)
  case (Cons e pc)
  obtain n a where e: "e = (n, a)" by (cases e)
  have arg: "plugin_arg args n = Some a" "given_by args pc" using Cons.prems(1) by (auto simp: e given_by_def)
  have "given_by args (gm_put m n a)" using Cons.prems(2) arg(1) set_gm_put [of m n a] by (fastforce simp: given_by_def)
  then obtain m' where m': "merge_second pc (gm_put m n a) = Inr m'" "given_by args m'"
      "fst ` set m' = fst ` set (gm_put m n a) \<union> fst ` set pc"
    using Cons.IH arg(2) by blast
  have "v = a" if "gm_get m n = Some v" for v
    using gm_get_in_set [OF that] Cons.prems(2) arg(1) by (auto simp: given_by_def)
  then have "merge_second (e # pc) m = merge_second pc (gm_put m n a)" by (simp add: e split: option.split)
  then show ?case using m' by (auto simp: e)
qed simp

lemma fold_put_keys: "fst ` set (fold (\<lambda>(name, a) m. gm_put m name a) c m) = fst ` set m \<union> fst ` set c"
proof (induction c arbitrary: m)
  case (Cons e c) then show ?case by (cases e) (simp add: Un_commute)
qed simp

lemma plugin_config_distinct:
  "distinct (map fst c) \<Longrightarrow> fst ` set c \<inter> fst ` set m = {} \<Longrightarrow> plugin_config c m = Inr (m @ c)"
proof (induction c arbitrary: m)
  case (Cons e c)
  have "gm_get m (fst e) = None" "gm_put m (fst e) (snd e) = m @ [e]"
    using Cons.prems(2) by (auto simp: gm_get_eq_None gm_put_new)
  then show ?case using Cons.IH [of "m @ [e]"] Cons.prems by (cases e) (auto simp: gm_has_def)
qed simp

text \<open>
  The configurations that a policy produces for predicates and for priorities never contradict each other, so the error that the
  source calls unreachable is unreachable; the merged list has each plugin once, with the arguments that the policy gives it, and a
  framework accepts it. The runtime may range over the map in any order.\<close>

theorem policy_configs_consistent:
  assumes "getPredicateConfigs rangeSet keys legacy_registry args = Inr (p1, c1)" "getPriorityConfigs prios legacy_registry args = Inr (p2, c2)"
    and "\<And>m. distinct (rangeMap m) \<and> set (rangeMap m) = set (gm_keys m)"
  shows "\<exists>pc. mergePluginConfigsFromPolicy rangeMap c1 c2 = Inr pc \<and> fst ` set pc = fst ` set c1 \<union> fst ` set c2 \<and>
    (\<forall>(n, a)\<in>set pc. plugin_arg args n = Some a) \<and> plugin_config pc [] = Inr pc"
proof -
  let ?m = "fold (\<lambda>(name, a) m. gm_put m name a) c1 []"
  have "given_by args ?m" using first_given [OF configs_given(1) [OF assms(1)]] by simp
  then obtain m' where m': "merge_second c2 ?m = Inr m'" "given_by args m'" "fst ` set m' = fst ` set ?m \<union> fst ` set c2"
    using merge_second_given [OF configs_given(2) [OF assms(2)]] by blast
  let ?pc = "map (\<lambda>k. (k, the (gm_get m' k))) (rangeMap m')"
  have get: "\<exists>a. gm_get m' k = Some a \<and> plugin_arg args k = Some a" if "k \<in> set (rangeMap m')" for k
  proof -
    have "gm_get m' k \<noteq> None" using that assms(3) [of m'] by (simp add: gm_get_eq_None del: not_None_eq)
    then obtain a where a: "gm_get m' k = Some a" by blast
    then show ?thesis using gm_get_in_set [OF a] m'(2) by (auto simp: given_by_def)
  qed
  have keys: "map fst ?pc = rangeMap m'" by (simp add: comp_def)
  have "fst ` set ?pc = set (map fst ?pc)" by (simp only: set_map)
  also have "\<dots> = fst ` set c1 \<union> fst ` set c2" unfolding keys using assms(3) [of m'] m'(3) fold_put_keys [of c1 "[]"] by simp
  finally have "fst ` set ?pc = fst ` set c1 \<union> fst ` set c2" .
  moreover have "plugin_config ?pc [] = Inr ?pc" using plugin_config_distinct [of ?pc "[]"] keys assms(3) [of m'] by simp
  moreover have "\<forall>(n, a)\<in>set ?pc. plugin_arg args n = Some a" using get by fastforce
  ultimately show ?thesis using m'(1) by (auto simp: mergePluginConfigsFromPolicy_def)
qed

subsection \<open>The default policy and the default provider\<close>

lemma sorted_default_priorities:
  "sort (gm_keys (DefaultPriorities default_sets)) =
    [BalancedResourceAllocation, EvenPodsSpreadPriority, ImageLocalityPriority, InterPodAffinityPriority, LeastRequestedPriority,
     NodeAffinityPriority, NodePreferAvoidPodsPriority, SelectorSpreadPriority, TaintTolerationPriority]"
  by code_simp

lemma default_order:
  "filter (\<lambda>k. k \<in> DefaultPredicates default_sets) PredicateOrdering =
    [CheckNodeUnschedulablePred, GeneralPred, NoDiskConflictPred, PodToleratesNodeTaintsPred, MaxEBSVolumeCountPred, MaxGCEPDVolumeCountPred,
     MaxCSIVolumeCountPred, MaxAzureDiskVolumeCountPred, CheckVolumeBindingPred, NoVolumeZoneConflictPred, EvenPodsSpreadPred,
     MatchInterPodAffinityPred]"
  by code_simp

lemma predicate_get:
  "gm_get predicate_calls CheckNodeUnschedulablePred = Some (filter_producer NodeUnschedulableName)"
  "gm_get predicate_calls GeneralPred = Some general_producer"
  "gm_get predicate_calls NoDiskConflictPred = Some (filter_producer VolumeRestrictionsName)"
  "gm_get predicate_calls PodToleratesNodeTaintsPred = Some (filter_producer TaintTolerationName)"
  "gm_get predicate_calls MaxEBSVolumeCountPred = Some nothing_producer"
  "gm_get predicate_calls MaxGCEPDVolumeCountPred = Some nothing_producer"
  "gm_get predicate_calls MaxCSIVolumeCountPred = Some nothing_producer"
  "gm_get predicate_calls MaxAzureDiskVolumeCountPred = Some nothing_producer"
  "gm_get predicate_calls CheckVolumeBindingPred = Some nothing_producer"
  "gm_get predicate_calls NoVolumeZoneConflictPred = Some (filter_producer VolumeZoneName)"
  "gm_get predicate_calls EvenPodsSpreadPred = Some (prefilter_producer PodTopologySpreadName)"
  "gm_get predicate_calls MatchInterPodAffinityPred = Some (prefilter_producer InterPodAffinityName)"
  by (simp_all add: predicate_calls_def gm_get_Cons plugin_names)

lemma priority_get:
  "gm_get priority_calls BalancedResourceAllocation = Some (score_producer BalancedAllocationName)"
  "gm_get priority_calls EvenPodsSpreadPriority = Some (prescore_producer PodTopologySpreadName)"
  "gm_get priority_calls ImageLocalityPriority = Some (score_producer ImageLocalityName)"
  "gm_get priority_calls InterPodAffinityPriority = Some interpod_producer"
  "gm_get priority_calls LeastRequestedPriority = Some (score_producer LeastAllocatedName)"
  "gm_get priority_calls NodeAffinityPriority = Some (score_producer NodeAffinityName)"
  "gm_get priority_calls NodePreferAvoidPodsPriority = Some nothing_producer"
  "gm_get priority_calls SelectorSpreadPriority = Some (prescore_producer SelectorSpreadName)"
  "gm_get priority_calls TaintTolerationPriority = Some (prescore_producer TaintTolerationName)"
  by (simp_all add: priority_calls_def gm_get_Cons plugin_names)

lemma default_weights:
  "gm_get0 (DefaultPriorities default_sets) BalancedResourceAllocation = 1" "gm_get0 (DefaultPriorities default_sets) EvenPodsSpreadPriority = 2"
  "gm_get0 (DefaultPriorities default_sets) ImageLocalityPriority = 1" "gm_get0 (DefaultPriorities default_sets) InterPodAffinityPriority = 1"
  "gm_get0 (DefaultPriorities default_sets) LeastRequestedPriority = 1" "gm_get0 (DefaultPriorities default_sets) NodeAffinityPriority = 1"
  "gm_get0 (DefaultPriorities default_sets) SelectorSpreadPriority = 1" "gm_get0 (DefaultPriorities default_sets) TaintTolerationPriority = 1"
  by (simp_all add: default_sets_def gm_get0_Cons plugin_names)

text \<open>The first loop runs the producers of the keys it finds, in order.\<close>

lemma ordered_loop_rest:
  "distinct ks \<Longrightarrow> ordered_loop lr args ks S acc =
    and_then (rest_loop lr args (filter (\<lambda>k. k \<in> S) ks) acc) (\<lambda>acc'. Inr (S - set ks, acc'))"
proof (induction ks arbitrary: S acc)
  case (Cons k ks)
  have "filter (\<lambda>i. i \<in> S - {k}) ks = filter (\<lambda>i. i \<in> S) ks" "S - {k} - set ks = S - set (k # ks)"
    using Cons.prems by (auto intro: filter_cong)
  then show ?case using Cons
    by (cases "run_producer ''no framework config producer registered for '' (PredicateToConfigProducer lr) k args acc") auto
qed simp

definition produced :: "(string, ConfigProducer) gomap \<Rightarrow> ConfigProducerArgs \<Rightarrow> string \<Rightarrow> Plugins \<times> PluginConfigs" where
  "produced producers args k = projr (the (gm_get producers k) args)"

lemma run_produced:
  assumes "gm_get producers k \<noteq> None \<and> \<not> isl (the (gm_get producers k) args)"
  shows "run_producer missing producers k args acc =
    Inr (the (Plugins_Append (Some (fst acc)) (Some (fst (produced producers args k)))), snd acc @ snd (produced producers args k))"
  using assms by (cases "the (gm_get producers k) args") (auto simp: run_producer_def produced_def split: prod.split)

lemma rest_loop_produced:
  "list_all (\<lambda>k. gm_get predicate_calls k \<noteq> None \<and> \<not> isl (the (gm_get predicate_calls k) args)) ks \<Longrightarrow>
    \<exists>p. rest_loop legacy_registry args ks acc = Inr (p, snd acc @ concat (map (\<lambda>k. snd (produced predicate_calls args k)) ks)) \<and>
      (\<forall>x. enabled_at x p = enabled_at x (fst acc) @ concat (map (\<lambda>k. enabled_at x (fst (produced predicate_calls args k))) ks))"
proof (induction ks arbitrary: acc)
  case Nil show ?case by (cases acc) auto
next
  case (Cons k ks)
  then show ?case
    using Cons.IH [of "(the (Plugins_Append (Some (fst acc)) (Some (fst (produced predicate_calls args k)))), snd acc @ snd (produced predicate_calls args k))"]
      run_produced [of predicate_calls k args _ acc] by auto
qed

lemma priority_loop_produced:
  "list_all (\<lambda>k. gm_get priority_calls k \<noteq> None \<and> \<not> isl (the (gm_get priority_calls k) (args\<lparr>cpa_Weight := i32 (gm_get0 keys k)\<rparr>))) ks \<Longrightarrow>
    \<exists>p. priority_loop legacy_registry args keys ks acc =
        Inr (p, snd acc @ concat (map (\<lambda>k. snd (produced priority_calls (args\<lparr>cpa_Weight := i32 (gm_get0 keys k)\<rparr>) k)) ks)) \<and>
      (\<forall>x. enabled_at x p = enabled_at x (fst acc) @
        concat (map (\<lambda>k. enabled_at x (fst (produced priority_calls (args\<lparr>cpa_Weight := i32 (gm_get0 keys k)\<rparr>) k))) ks))"
proof (induction ks arbitrary: acc)
  case Nil show ?case by (cases acc) auto
next
  case (Cons k ks)
  let ?a = "args\<lparr>cpa_Weight := i32 (gm_get0 keys k)\<rparr>"
  show ?case
    using Cons.prems Cons.IH [of "(the (Plugins_Append (Some (fst acc)) (Some (fst (produced priority_calls ?a k)))), snd acc @ snd (produced priority_calls ?a k))"]
      run_produced [of priority_calls k ?a _ acc] by auto
qed

lemma default_predicates:
  assumes "rangeSet {} = []"
  shows "\<exists>p. getPredicateConfigs rangeSet (DefaultPredicates default_sets) legacy_registry no_args = Inr (p, []) \<and>
    (\<forall>x. enabled_at x p = (if x = PreFilterP \<or> x = FilterP then enabled_at x getDefaultConfig else []))"
proof -
  let ?D = "DefaultPredicates default_sets"
  let ?ks = "filter (\<lambda>k. k \<in> ?D) PredicateOrdering"
  have "PodToleratesNodeTaintsPred \<in> ?D" "CheckNodeUnschedulablePred \<in> ?D" "?D \<subseteq> set PredicateOrdering"
    by (simp_all add: default_sets_def PredicateOrdering_def)
  then have mandatory: "insert PodToleratesNodeTaintsPred (insert CheckNodeUnschedulablePred ?D) = ?D" and none: "?D - set PredicateOrdering = {}"
    by blast+
  have "list_all (\<lambda>k. gm_get predicate_calls k \<noteq> None \<and> \<not> isl (the (gm_get predicate_calls k) no_args)) ?ks"
    unfolding default_order by (simp add: predicate_get producer_defs)
  then obtain p where p: "rest_loop legacy_registry no_args ?ks (no_plugins, []) = Inr (p, concat (map (\<lambda>k. snd (produced predicate_calls no_args k)) ?ks))"
      "\<And>x. enabled_at x p = concat (map (\<lambda>k. enabled_at x (fst (produced predicate_calls no_args k))) ?ks)"
    using rest_loop_produced [of no_args ?ks "(no_plugins, [])"] by auto
  have c: "concat (map (\<lambda>k. snd (produced predicate_calls no_args k)) ?ks) = []"
    unfolding default_order by (simp add: produced_def predicate_get producer_defs config_of_def no_args_def)
  have "enabled_at x p = (if x = PreFilterP \<or> x = FilterP then enabled_at x getDefaultConfig else [])" for x
    unfolding p(2) default_order
    by (cases x; simp add: produced_def predicate_get producer_defs; simp add: enabled_at_def getDefaultConfig_def enable_def)
  moreover have "getPredicateConfigs rangeSet ?D legacy_registry no_args = Inr (p, [])"
    using p(1) assms by (simp add: getPredicateConfigs_def mandatory ordered_loop_rest distinct_ordering none c)
  ultimately show ?thesis by blast
qed

definition default_provider :: Plugins where
  "default_provider = the (gm_get NewAlgorithmRegistry SchedulerDefaultProviderName)"

lemma default_priorities:
  "\<exists>p. getPriorityConfigs (DefaultPriorities default_sets) legacy_registry no_args = Inr (p, []) \<and>
    (\<forall>x. x \<noteq> PreScoreP \<longrightarrow> x \<noteq> ScoreP \<longrightarrow> enabled_at x p = []) \<and>
    mset (enabled_at PreScoreP p) = mset (enabled_at PreScoreP default_provider) \<and>
    mset (enabled_at ScoreP p) = mset (enabled_at ScoreP default_provider)"
proof -
  let ?K = "DefaultPriorities default_sets" and ?ks = "sort (gm_keys (DefaultPriorities default_sets))"
  let ?a = "\<lambda>k. no_args\<lparr>cpa_Weight := i32 (gm_get0 (DefaultPriorities default_sets) k)\<rparr>"
  have "list_all (\<lambda>k. gm_get priority_calls k \<noteq> None \<and> \<not> isl (the (gm_get priority_calls k) (?a k))) ?ks"
    unfolding sorted_default_priorities by (simp add: priority_get producer_defs)
  then obtain p where p: "priority_loop legacy_registry no_args ?K ?ks (no_plugins, []) =
        Inr (p, concat (map (\<lambda>k. snd (produced priority_calls (?a k) k)) ?ks))"
      "\<And>x. enabled_at x p = concat (map (\<lambda>k. enabled_at x (fst (produced priority_calls (?a k) k))) ?ks)"
    using priority_loop_produced [where args = no_args and keys = ?K and ks = ?ks and acc = "(no_plugins, [])"] by auto
  have "concat (map (\<lambda>k. snd (produced priority_calls (?a k) k)) ?ks) = []"
    unfolding sorted_default_priorities by (simp add: produced_def priority_get producer_defs config_of_def no_args_def)
  moreover have "enabled_at x p = []" if "x \<noteq> PreScoreP" "x \<noteq> ScoreP" for x
    unfolding p(2) sorted_default_priorities using that by (simp add: produced_def priority_get producer_defs)
  moreover have "mset (enabled_at PreScoreP p) = mset (enabled_at PreScoreP default_provider)"
    unfolding p(2) sorted_default_priorities
    by (simp add: produced_def priority_get producer_defs default_provider_def NewAlgorithmRegistry_def gm_get_Cons)
      (simp add: enabled_at_def applyFeatureGates_def getDefaultConfig_def enable_def)
  moreover have "mset (enabled_at ScoreP p) = mset (enabled_at ScoreP default_provider)"
    unfolding p(2) sorted_default_priorities
    by (simp add: produced_def priority_get producer_defs default_weights default_provider_def NewAlgorithmRegistry_def gm_get_Cons i32_def)
      (simp add: enabled_at_def applyFeatureGates_def getDefaultConfig_def enable_def)
  ultimately show ?thesis using p(1) by (auto simp: getPriorityConfigs_def)
qed

text \<open>
  C22: A policy that leaves predicates and priorities open gets the plugins of the default provider: the same plugins for sorting,
  pre-filtering, filtering and binding in the same order, and the same ones for scoring with the same weights; no plugin gets arguments. Only
  the post-filter is missing, so with a policy file pods never preempt others.\<close>

theorem default_policy_matches_provider:
  assumes "pol_Predicates policy = None" "pol_Priorities policy = None" "pol_HardPodAffinitySymmetricWeight policy = 0"
    and "ValidatePolicy (ce_aggregate ce) (ce_qualified ce) policy = None" "ce_rangeSet ce {} = []" "ce_rangeMap ce [] = []"
  shows "\<exists>plugins. policy_plugins ce policy = Inr (plugins, []) \<and>
    (\<forall>x\<in>{QueueSortP, PreFilterP, FilterP, BindP}. enabled_at x plugins = enabled_at x default_provider) \<and>
    mset (enabled_at PreScoreP plugins) = mset (enabled_at PreScoreP default_provider) \<and>
    mset (enabled_at ScoreP plugins) = mset (enabled_at ScoreP default_provider) \<and>
    enabled_at PostFilterP plugins = [] \<and> map plg_Name (enabled_at PostFilterP default_provider) = [DefaultPreemptionName]"
proof -
  obtain p1 where p1: "getPredicateConfigs (ce_rangeSet ce) (DefaultPredicates default_sets) legacy_registry no_args = Inr (p1, [])"
      "\<And>x. enabled_at x p1 = (if x = PreFilterP \<or> x = FilterP then enabled_at x getDefaultConfig else [])"
    using default_predicates [of "ce_rangeSet ce"] assms(5) by blast
  obtain p2 where p2: "getPriorityConfigs (DefaultPriorities default_sets) legacy_registry no_args = Inr (p2, [])"
      "\<And>x. x \<noteq> PreScoreP \<Longrightarrow> x \<noteq> ScoreP \<Longrightarrow> enabled_at x p2 = []"
      "mset (enabled_at PreScoreP p2) = mset (enabled_at PreScoreP default_provider)"
      "mset (enabled_at ScoreP p2) = mset (enabled_at ScoreP default_provider)"
    using default_priorities by blast
  have provider: "enabled_at x default_provider = enabled_at x getDefaultConfig" if "x \<in> {QueueSortP, PreFilterP, FilterP, BindP, PostFilterP}" for x
    using that by (cases x) (simp_all add: default_provider_def NewAlgorithmRegistry_def gm_get_Cons enabled_at_def applyFeatureGates_def Let_def)
  have base: "enabled_at QueueSortP getDefaultConfig = enabled_at QueueSortP base_plugins"
      "enabled_at BindP getDefaultConfig = enabled_at BindP base_plugins"
      "map plg_Name (enabled_at PostFilterP getDefaultConfig) = [DefaultPreemptionName]"
    by (simp_all add: enabled_at_def getDefaultConfig_def base_plugins_def enable_def)
  have "policy_keys legacy_registry policy = Inr (DefaultPredicates default_sets, DefaultPriorities default_sets, no_args)"
    using assms(1-3) by (simp add: policy_keys_def)
  then show ?thesis using p1 p2 assms(4,6) base
    by (auto simp: policy_plugins_def NewLegacyRegistry_eq Let_def mergePluginConfigsFromPolicy_def enabled_base provider)
qed

subsection \<open>Creating the scheduler\<close>

lemma NewMap_loop_made:
  assumes "NewMap_loop fk opts cfgs v m = Inr m'"
  shows "fst ` set m' = fst ` set m \<union> ksp_SchedulerName ` set cfgs \<and>
    (\<forall>n prof. gm_get m n = Some prof \<longrightarrow> gm_get m' n = Some prof) \<and>
    (\<forall>cfg\<in>set cfgs. \<exists>p f. ksp_Plugins cfg = Some p \<and> fk cfg (opts @ [WithProfileName (ksp_SchedulerName cfg)]) = Inr f \<and>
      gm_get m' (ksp_SchedulerName cfg) = Some \<lparr>pr_Name = ksp_SchedulerName cfg, pr_Framework = f\<rparr>)"
  using assms
proof (induction cfgs arbitrary: v m)
  case (Cons cfg cfgs)
  let ?n = "ksp_SchedulerName cfg"
  from Cons.prems obtain v' prof where v: "validate_profile m v cfg = Inr v'" "NewProfile fk opts cfg = Inr prof"
      "NewMap_loop fk opts cfgs v' (gm_put m ?n prof) = Inr m'"
    by (auto split: sum.splits)
  from v(1) obtain p where p: "ksp_Plugins cfg = Some p" and new: "gm_get m ?n = None"
    by (auto simp: validate_profile_def gm_has_def split: if_splits option.splits)
  from v(2) obtain f where f: "fk cfg (opts @ [WithProfileName ?n]) = Inr f" "prof = \<lparr>pr_Name = ?n, pr_Framework = f\<rparr>"
    by (auto simp: NewProfile_def split: sum.splits)
  note IH = Cons.IH [OF v(3)]
  have "gm_get m' ?n = Some prof" using IH by simp
  moreover have "gm_get m' n = Some q" if "gm_get m n = Some q" for n q using IH new that by (metis gm_get_put option.distinct(1))
  ultimately show ?case using IH p f by auto
qed simp

lemma plugin_config_names:
  "plugin_config cs m = Inr m' \<Longrightarrow> distinct (map fst cs) \<and> fst ` set cs \<inter> fst ` set m = {}"
proof (induction cs arbitrary: m)
  case (Cons e cs)
  obtain n a where e: "e = (n, a)" by (cases e)
  have new: "gm_get m n = None" and rest: "plugin_config cs (gm_put m n a) = Inr m'"
    using Cons.prems by (auto simp: e gm_has_def split: if_splits)
  have "n \<notin> fst ` set m" using new by (simp add: gm_get_eq_None)
  then show ?case using Cons.IH [OF rest] by (auto simp: e)
qed simp

lemma made_framework:
  assumes "buildFramework ce c cfg opts = Inr f" "ksp_Plugins cfg = Some p"
  shows "length (queueSortPlugins f) = 1" "bindPlugins f \<noteq> []" "distinct (map fst (ksp_PluginConfig cfg))"
proof -
  note new = assms(1) [unfolded buildFramework_def assms(2)]
  show "length (queueSortPlugins f) = 1" "bindPlugins f \<noteq> []" using new_framework_lists [OF new] by auto
  obtain m where "plugin_config (ksp_PluginConfig cfg) [] = Inr m" using new by (auto simp: NewFramework_def Let_def)
  then show "distinct (map fst (ksp_PluginConfig cfg))" by (simp add: plugin_config_names)
qed

text \<open>What a scheduler has that was created from a configuration.\<close>

definition well_configured :: "('tls, 't, 'w) config_env \<Rightarrow> ('d, 'w) Configurator \<Rightarrow> (PluginArgs, 'd, 'w) Scheduler \<Rightarrow> bool" where
  "well_configured ce c s \<longleftrightarrow>
    set (gm_keys (s_Profiles s)) = ksp_SchedulerName ` set (cf_profiles c) \<and> cf_profiles c \<noteq> [] \<and>
    (\<forall>cfg\<in>set (cf_profiles c). \<exists>prof. gm_get (s_Profiles s) (ksp_SchedulerName cfg) = Some prof \<and>
      length (queueSortPlugins (pr_Framework prof)) = 1 \<and> bindPlugins (pr_Framework prof) \<noteq> [] \<and> distinct (map fst (ksp_PluginConfig cfg))) \<and>
    (\<exists>made. map Inr made = map (\<lambda>e. snd (NewHTTPExtender (ce_http ce) e)) (cf_extenders c) \<and>
      g_extenders (s_Algorithm s) = map (http_extender (ce_http ce) (ce_world ce)) (filter (\<lambda>e. \<not> ignorable e) made @ filter ignorable made))"

lemma ignore_resources_profiles:
  "ksp_SchedulerName ` set (ignore_resources ignored cfgs) = ksp_SchedulerName ` set cfgs" "ignore_resources ignored cfgs = [] \<longleftrightarrow> cfgs = []"
  "cfg \<in> set cfgs \<Longrightarrow> \<exists>cfg'\<in>set (ignore_resources ignored cfgs). ksp_SchedulerName cfg' = ksp_SchedulerName cfg \<and> ksp_Plugins cfg' = ksp_Plugins cfg \<and>
    (\<exists>more. ksp_PluginConfig cfg' = ksp_PluginConfig cfg @ more \<and> (ignored \<noteq> [] \<longrightarrow> fst ` set more = {FitName}))"
  by (auto simp: ignore_resources_def image_image)


text \<open>
  An extender that asks the scheduler to ignore a resource and a profile with its own arguments for the fit plugin do not go together: the
  plugin is then configured twice.
\<close>

lemma ignored_resources_conflict:
  assumes "make_extenders (ce_http ce) (cf_extenders c) [] [] [] = Inr (extenders, ignored)" "ignored \<noteq> []"
    and "cfg \<in> set (cf_profiles c)" "FitName \<in> fst ` set (ksp_PluginConfig cfg)"
  shows "\<exists>err. create ce c = Inl (Err err)"
proof (cases "NewMap (buildFramework ce c) [] (ignore_resources ignored (cf_profiles c))")
  case (Inl err) then show ?thesis by (simp add: create_def assms(1) Let_def)
next
  case (Inr profiles)
  obtain cfg' more where cfg': "cfg' \<in> set (ignore_resources ignored (cf_profiles c))" "ksp_PluginConfig cfg' = ksp_PluginConfig cfg @ more"
      "fst ` set more = {FitName}"
    using ignore_resources_profiles(3) [OF assms(3), of ignored] assms(2) by auto
  then obtain p f where "ksp_Plugins cfg' = Some p" "buildFramework ce c cfg' [WithProfileName (ksp_SchedulerName cfg')] = Inr f"
    using NewMap_loop_made [OF Inr [unfolded NewMap_def]] by fastforce
  then have "distinct (map fst (ksp_PluginConfig cfg'))" using made_framework(3) by blast
  then show ?thesis using cfg'(2,3) assms(4) by auto
qed


subsection \<open>Examples\<close>

definition demo_env :: "(unit, unit, nat) config_env" where
  "demo_env =
    \<lparr>ce_decode = (\<lambda>kind. (None, Some NotRegisteredError)),
     ce_http = \<lparr>ha_Marshal = (\<lambda>args. Inl ''''), ha_NewRequest = (\<lambda>verb url. None), ha_Do = (\<lambda>c req w. (Inl '''', w)),
       ha_DecodeFilter = (\<lambda>body. Inl ''''), ha_DecodePriorities = (\<lambda>body. Inl ''''), ha_DecodePreemption = (\<lambda>body. Inl ''''),
       ha_DecodeBinding = (\<lambda>body. Inl ''''), ha_Errorf = (\<lambda>s. s), ha_TLSConfigFor = (\<lambda>t. Inr None), ha_SetTransportDefaults = (\<lambda>t. ())\<rparr>,
     ce_metaKey = (\<lambda>pod. Inr (pod_Name pod)), ce_world = 0, ce_aggregate = (\<lambda>errs. ''invalid''), ce_qualified = (\<lambda>name. []),
     ce_rangeSet = sorted_list_of_set, ce_rangeMap = (\<lambda>m. remdups (gm_keys m))\<rparr>"

definition demo_policy :: "PredicatePolicy list option \<Rightarrow> PriorityPolicy list option \<Rightarrow> Policy" where
  "demo_policy predicates priorities =
    \<lparr>pol_Predicates = predicates, pol_Priorities = priorities, pol_Extenders = [], pol_HardPodAffinitySymmetricWeight = 0,
     pol_AlwaysCheckAllPredicates = False\<rparr>"

lemma demo_valid: "ValidatePolicy aggregate qualified (demo_policy predicates None) = None" "ValidatePolicy aggregate qualified (demo_policy predicates (Some [])) = None"
  by (simp_all add: ValidatePolicy_def demo_policy_def validateExtenders_def)

lemma demo_ranges: "ce_rangeSet demo_env {} = []" "ce_rangeMap demo_env m = remdups (gm_keys m)"
  by (simp_all add: demo_env_def)

theorem default_policy_matches_provider_witness:
  "\<exists>plugins. policy_plugins demo_env (demo_policy None None) = Inr (plugins, []) \<and>
    enabled_at FilterP plugins = enabled_at FilterP default_provider \<and> enabled_at PostFilterP plugins = []"
  using default_policy_matches_provider [of "demo_policy None None" demo_env]
  by (auto simp: demo_valid demo_ranges) (auto simp: demo_policy_def)

text \<open>A policy that asks for the resource check only.\<close>

definition resource_policy :: Policy where
  "resource_policy = demo_policy (Some [\<lparr>pred_Name = PodFitsResourcesPred, pred_Argument = None\<rparr>]) (Some [])"

lemma resource_keys: "policy_keys legacy_registry resource_policy = Inr ({PodFitsResourcesPred}, [], no_args)"
proof -
  have "PodFitsResourcesPred \<noteq> ''PodFitsPorts''" "PodFitsResourcesPred \<in> set PredicateOrdering"
    by (simp_all add: plugin_names PredicateOrdering_def)
  then show ?thesis
    by (simp add: policy_keys_def resource_policy_def demo_policy_def ProcessPredicatePolicy_def validatePredicateOrDie_def has_predicate)
qed

lemma resource_plugins: "\<exists>plugins config. policy_plugins demo_env resource_policy = Inr (plugins, config)"
proof -
  have "{PodFitsResourcesPred} \<subseteq> set PredicateOrdering" by (simp add: PredicateOrdering_def)
  then obtain p c where "getPredicateConfigs (ce_rangeSet demo_env) {PodFitsResourcesPred} legacy_registry no_args = Inr (p, c)"
    using getPredicateConfigs_filters [of "{PodFitsResourcesPred}" "ce_rangeSet demo_env"] demo_ranges(1) by blast
  moreover have "ValidatePolicy (ce_aggregate demo_env) (ce_qualified demo_env) resource_policy = None"
    by (simp add: resource_policy_def demo_valid)
  ultimately show ?thesis
    by (simp add: policy_plugins_def NewLegacyRegistry_eq resource_keys getPriorityConfigs_def mergePluginConfigsFromPolicy_def Let_def)
qed

theorem policy_filters_ordered_witness:
  "\<exists>plugins config. policy_plugins demo_env resource_policy = Inr (plugins, config) \<and>
    map plg_Name (enabled_at FilterP plugins) = [NodeUnschedulableName, FitName, TaintTolerationName]"
proof -
  obtain plugins config where p: "policy_plugins demo_env resource_policy = Inr (plugins, config)" using resource_plugins by blast
  have "asked_predicates resource_policy = {PodFitsResourcesPred}"
    by (simp add: asked_predicates_def resource_policy_def demo_policy_def asked_predicate_def PredicateOrdering_def plugin_names)
  then have "concat (map predicate_filters (filter (\<lambda>k. k \<in> asked_predicates resource_policy \<or> k = PodToleratesNodeTaintsPred \<or> k = CheckNodeUnschedulablePred)
      PredicateOrdering)) = [NodeUnschedulableName, FitName, TaintTolerationName]"
    by (simp add: PredicateOrdering_def plugin_names predicate_filters_def)
  then show ?thesis using policy_filters_ordered [OF p demo_ranges(1)] p by auto
qed

theorem policy_configs_consistent_witness:
  "\<exists>p c pc. getPredicateConfigs (ce_rangeSet demo_env) {PodFitsResourcesPred} legacy_registry no_args = Inr (p, c) \<and>
    mergePluginConfigsFromPolicy (ce_rangeMap demo_env) c [] = Inr pc"
proof -
  have "{PodFitsResourcesPred} \<subseteq> set PredicateOrdering" by (simp add: PredicateOrdering_def)
  then obtain p c where p: "getPredicateConfigs (ce_rangeSet demo_env) {PodFitsResourcesPred} legacy_registry no_args = Inr (p, c)"
    using getPredicateConfigs_filters [of "{PodFitsResourcesPred}" "ce_rangeSet demo_env"] demo_ranges(1) by blast
  have "getPriorityConfigs [] legacy_registry no_args = Inr (no_plugins, [])" by (simp add: getPriorityConfigs_def)
  then show ?thesis using policy_configs_consistent [OF p, of "[]" no_plugins "[]" "ce_rangeMap demo_env"] p by (auto simp: demo_ranges)
qed

definition demo_configurator :: "(unit, nat) Configurator" where
  "demo_configurator =
    \<lparr>cf_schedulerCache = newSchedulerCache 0 0 0, cf_disablePreemption = False, cf_alwaysCheckAllPredicates = False, cf_percentageOfNodesToScore = 0,
     cf_podInitialBackoffSeconds = 1, cf_podMaxBackoffSeconds = 10,
     cf_profiles = [\<lparr>ksp_SchedulerName = ''s'', ksp_Plugins = Some demo_plugins, ksp_PluginConfig = []\<rparr>],
     cf_registry = [(''All'', \<lambda>_. Inr (demo_plugin ''All''))], cf_nodeInfoSnapshot = racks, cf_extenders = []\<rparr>"

lemmas demo_create_simps = create_def demo_configurator_def demo_env_def NewMap_def validate_profile_def NewProfile_def buildFramework_def
  ignore_resources_def QueueSortFunc_def NewFramework_def demo_plugins_def demo_enabled_def no_plugins_def demo_framework_simps
  pluginsNeeded_def getExtensionPoints_def find_needed_def getPluginArgsOrDefault_def plugin_weight_def gm_get_def gm_put_def i64_def
  MaxNodeScore_def MaxTotalScore_def update_all_def updatePluginList_def verify_framework_def gm_get0_def Let_def gm_has_def

lemma demo_create_ok: "\<exists>s. create demo_env demo_configurator = Inr s"
  by (simp add: demo_create_simps)


end
