(* ===== verification/Float_Range.thy ===== *)
theory Float_Range
  imports Go_Float
begin

text \<open>
  Go's \<open>float64\<close> for numbers that may become very small, as the weights of the recommender's
  histograms do: below \<open>2\<^sup>-\<^sup>1\<^sup>0\<^sup>2\<^sup>2\<close> the floats are the multiples of \<open>2\<^sup>-\<^sup>1\<^sup>0\<^sup>7\<^sup>4\<close> (gradual underflow), above it
  rounding is that of \<open>Go_Float\<close>. Rounding is monotone, odd and idempotent. There is no largest
  number here: weights stay under \<open>2\<^sup>1\<^sup>0\<^sup>0\<close> times their sample's weight.
\<close>

subsection \<open>Rounding and operations\<close>

definition f64 :: "rat \<Rightarrow> rat" where
  "f64 x = (if \<bar>x\<bar> < 2 powi (- 1022) then of_int (round_even (x / 2 powi (- 1074))) * 2 powi (- 1074) else fl x)"

definition w_add :: "rat \<Rightarrow> rat \<Rightarrow> rat" where
  "w_add x y = f64 (x + y)"

definition w_sub :: "rat \<Rightarrow> rat \<Rightarrow> rat" where
  "w_sub x y = f64 (x - y)"

definition w_mul :: "rat \<Rightarrow> rat \<Rightarrow> rat" where
  "w_mul x y = f64 (x * y)"

definition w_div :: "rat \<Rightarrow> rat \<Rightarrow> rat" where
  "w_div x y = f64 (x / y)"

subsection \<open>Rounding to the nearest even integer\<close>

lemma round_even_minus: "round_even (- t) = - round_even t"
proof (cases "t = of_int \<lfloor>t\<rfloor>")
  case True
  then show ?thesis by (metis of_int_minus round_even_of_int)
next
  case False
  have "\<lfloor>- t\<rfloor> = - \<lfloor>t\<rfloor> - 1"
    using False by (simp add: floor_minus ceiling_altdef)
  then show ?thesis by (auto simp: round_even_def Let_def)
qed

lemma round_even_near: "\<bar>of_int (round_even t) - t\<bar> \<le> 1 / 2"
proof -
  have "0 \<le> t - of_int \<lfloor>t\<rfloor>" "t - of_int \<lfloor>t\<rfloor> < 1" by linarith+
  then show ?thesis by (simp add: round_even_def Let_def abs_if) linarith
qed

subsection \<open>Idempotence of rounding to 53 bits\<close>

lemma exponent_unique:
  assumes "2 powi e \<le> x" "x < 2 powi (e + 1)"
  shows "exponent x = e"
proof -
  have x: "0 < x" using assms(1) zero_less_power_int [of "2 :: rat" e] by linarith
  have "(2 :: rat) powi e < 2 powi (exponent x + 1)" "(2 :: rat) powi exponent x < 2 powi (e + 1)"
    using assms exponent_bounds [OF x] by linarith+
  moreover have "m < n" if "(2 :: rat) powi m < 2 powi n" for m n
    using power_int_increasing [of n m "2 :: rat"] that by (meson linorder_not_less one_le_numeral)
  ultimately have "e < exponent x + 1" "exponent x < e + 1" by blast+
  then show ?thesis by linarith
qed

lemma fl_pos_of_digits:
  assumes "2 ^ 52 \<le> n" "n < 2 ^ 53"
  shows "fl_pos (of_int n * 2 powi e) = of_int n * 2 powi e"
proof -
  have c: "(2 :: rat) powi (e + 52) = of_int (2 ^ 52) * 2 powi e" "(2 :: rat) powi (e + 52 + 1) = of_int (2 ^ 53) * 2 powi e"
    by (simp_all add: power_int_add)
  have "rat_of_int (2 ^ 52) \<le> of_int n" "rat_of_int n < of_int (2 ^ 53)"
    using assms by (simp_all only: of_int_le_iff of_int_less_iff)
  then have "exponent (of_int n * 2 powi e) = e + 52"
    by (intro exponent_unique; unfold c; intro mult_right_mono mult_strict_right_mono; simp)
  then show ?thesis by (simp add: fl_pos_def)
qed

lemma fl_pos_idem:
  assumes "0 < x"
  shows "fl_pos (fl_pos x) = fl_pos x"
proof -
  let ?u = "2 powi (exponent x - 52) :: rat"
  define n where "n = round_even (x / ?u)"
  have v: "fl_pos x = of_int n * ?u" by (simp add: fl_pos_def n_def Let_def)
  have c: "(2 :: rat) powi exponent x = of_int (2 ^ 52) * ?u" "(2 :: rat) powi (exponent x + 1) = of_int (2 ^ 53) * ?u"
    by (simp_all add: power_int_add power_int_diff)
  have "rat_of_int (2 ^ 52) \<le> of_int n" "of_int n \<le> rat_of_int (2 ^ 53)"
    using fl_pos_bounds [OF assms] unfolding v c by (simp_all only: mult_le_cancel_right_pos zero_less_power_int zero_less_numeral)
  then have n: "2 ^ 52 \<le> n" "n \<le> 2 ^ 53" by (simp_all only: of_int_le_iff)
  show ?thesis
  proof (cases "n = 2 ^ 53")
    case True
    have "fl_pos x = of_int (2 ^ 52) * 2 powi (exponent x - 51)"
      using power_int_add [of "2 :: rat" 1 "exponent x - 52"] by (simp add: v True)
    then show ?thesis using fl_pos_of_digits [of "2 ^ 52" "exponent x - 51"] by simp
  next
    case False
    then show ?thesis using fl_pos_of_digits [of n "exponent x - 52"] n unfolding v by linarith
  qed
qed

lemma fl_minus: "fl (- x) = - fl x"
  by (simp add: fl_def)

lemma fl_idem: "fl (fl x) = fl x"
proof (cases "0 < x")
  case True
  then show ?thesis using fl_pos_pos [of x] fl_pos_idem [of x] by (simp add: fl_def)
next
  case False
  then show ?thesis using fl_pos_pos [of "- x"] fl_pos_idem [of "- x"] by (auto simp: fl_def)
qed

lemma fl_ge_normal:
  assumes "2 powi m \<le> x"
  shows "2 powi m \<le> fl x"
proof -
  have x: "0 < x" using assms zero_less_power_int [of "2 :: rat" m] by linarith
  have "m \<le> exponent x"
  proof (rule ccontr)
    assume "\<not> m \<le> exponent x"
    then have "(2 :: rat) powi (exponent x + 1) \<le> 2 powi m" by (intro power_int_increasing) auto
    then show False using exponent_bounds(2) [OF x] assms by linarith
  qed
  then have "(2 :: rat) powi m \<le> 2 powi exponent x" by (intro power_int_increasing) auto
  then show ?thesis using fl_pos_bounds(1) [OF x] x by (simp add: fl_def)
qed

subsection \<open>The laws of rounding\<close>

lemma f64_0 [simp]: "f64 0 = 0"
  using round_even_of_int [of 0] by (simp add: f64_def)

lemma f64_minus: "f64 (- x) = - f64 x"
  by (simp add: f64_def fl_minus round_even_minus minus_divide_left [symmetric])

lemma f64_small_le:
  assumes "\<bar>x\<bar> < 2 powi (- 1022)"
  shows "f64 x \<le> 2 powi (- 1022)"
proof -
  let ?u = "2 powi (- 1074) :: rat"
  have c: "(2 :: rat) powi (- 1022) = of_int (2 ^ 52) * ?u"
    using power_int_add [of "2 :: rat" 52 "- 1074"] by simp
  have "x / ?u \<le> of_int (2 ^ 52)" using assms unfolding c by (simp add: pos_divide_le_eq)
  then have "round_even (x / ?u) \<le> 2 ^ 52" using round_even_mono round_even_of_int by metis
  then have "rat_of_int (round_even (x / ?u)) \<le> of_int (2 ^ 52)" by (simp only: of_int_le_iff)
  then have "of_int (round_even (x / ?u)) * ?u \<le> of_int (2 ^ 52) * ?u" by (intro mult_right_mono) auto
  then show ?thesis using assms unfolding f64_def c [symmetric] by simp
qed

lemma f64_mono_upper:
  assumes "x \<le> y" "- (2 powi (- 1022)) < x"
  shows "f64 x \<le> f64 y"
proof -
  consider "\<bar>y\<bar> < 2 powi (- 1022)" | "\<bar>x\<bar> < 2 powi (- 1022)" "2 powi (- 1022) \<le> y" | "2 powi (- 1022) \<le> x"
    using assms by linarith
  then show ?thesis
  proof cases
    case 1
    have "x / 2 powi (- 1074) \<le> y / 2 powi (- 1074)" using assms(1) by (intro divide_right_mono) auto
    then show ?thesis using 1 assms by (auto simp: f64_def abs_if intro!: mult_right_mono round_even_mono)
  next
    case 2
    then show ?thesis using f64_small_le [of x] fl_ge_normal [of "- 1022" y] by (simp add: f64_def)
  next
    case 3
    then have "0 < x" using zero_less_power_int [of "2 :: rat" "- 1022"] by linarith
    then show ?thesis using 3 assms fl_mono [of x y] by (simp add: f64_def)
  qed
qed

lemma f64_mono [float_mono]: "x \<le> y \<Longrightarrow> f64 x \<le> f64 y"
proof -
  assume le: "x \<le> y"
  have p: "(0 :: rat) < 2 powi (- 1022)" by simp
  consider "- (2 powi (- 1022)) < x" | "y < 2 powi (- 1022)" | "x \<le> - (2 powi (- 1022))" "2 powi (- 1022) \<le> y"
    by linarith
  then show ?thesis
  proof cases
    case 1
    then show ?thesis using f64_mono_upper [OF le] by simp
  next
    case 2
    then show ?thesis using f64_mono_upper [of "- y" "- x"] le by (simp add: f64_minus)
  next
    case 3
    then show ?thesis using fl_mono [OF le] p by (simp add: f64_def)
  qed
qed

lemma f64_nonneg [float_mono]: "0 \<le> x \<Longrightarrow> 0 \<le> f64 x"
  using f64_mono [of 0 x] by simp

lemma f64_of_grid: "f64 (of_int n * 2 powi (- 1074)) = of_int n * 2 powi (- 1074)" if "\<bar>n\<bar> \<le> 2 ^ 52"
proof (cases "\<bar>n\<bar> = 2 ^ 52")
  case True
  have d: "fl_pos (of_int (2 ^ 52) * 2 powi (- 1074)) = of_int (2 ^ 52) * 2 powi (- 1074)"
    by (rule fl_pos_of_digits) auto
  have c: "of_int (2 ^ 52) * 2 powi (- 1074) = (2 :: rat) powi (- 1022)"
    using power_int_add [of "2 :: rat" 52 "- 1074"] by simp
  have f: "f64 (of_int (2 ^ 52) * 2 powi (- 1074)) = of_int (2 ^ 52) * 2 powi (- 1074)"
    using d unfolding c by (simp add: f64_def fl_def)
  consider "n = 2 ^ 52" | "n = - (2 ^ 52)" using True by linarith
  then show ?thesis using f f64_minus [of "of_int (2 ^ 52) * 2 powi (- 1074)"] by cases (simp_all only: of_int_minus minus_mult_left)
next
  case False
  have "rat_of_int \<bar>n\<bar> < of_int (2 ^ 52)" using False that by (simp only: of_int_less_iff)
  then have "rat_of_int \<bar>n\<bar> * 2 powi (- 1074) < of_int (2 ^ 52) * 2 powi (- 1074)" by (intro mult_strict_right_mono) auto
  moreover have "of_int (2 ^ 52) * 2 powi (- 1074) = (2 :: rat) powi (- 1022)"
    using power_int_add [of "2 :: rat" 52 "- 1074"] by simp
  ultimately have "\<bar>rat_of_int n * 2 powi (- 1074)\<bar> < 2 powi (- 1022)" by (simp add: abs_mult)
  then show ?thesis by (simp add: f64_def)
qed

lemma f64_small_grid:
  assumes "\<bar>x\<bar> < 2 powi (- 1022)"
  shows "\<exists>n. \<bar>n\<bar> \<le> 2 ^ 52 \<and> f64 x = of_int n * 2 powi (- 1074)"
proof -
  let ?u = "2 powi (- 1074) :: rat"
  have c: "(2 :: rat) powi (- 1022) = of_int (2 ^ 52) * ?u"
    using power_int_add [of "2 :: rat" 52 "- 1074"] by simp
  have "x / ?u \<le> of_int (2 ^ 52)" "- of_int (2 ^ 52) \<le> x / ?u"
    using assms unfolding c by (simp_all add: pos_divide_le_eq pos_le_divide_eq)
  then have "round_even (x / ?u) \<le> 2 ^ 52" "- (2 ^ 52) \<le> round_even (x / ?u)"
    using round_even_mono round_even_of_int by (metis, metis of_int_minus)
  then show ?thesis using assms by (intro exI [of _ "round_even (x / ?u)"]) (simp add: f64_def)
qed

lemma f64_idem [simp]: "f64 (f64 x) = f64 x"
proof (cases "\<bar>x\<bar> < 2 powi (- 1022)")
  case True
  then show ?thesis using f64_small_grid [OF True] f64_of_grid by metis
next
  case False
  have "2 powi (- 1022) \<le> \<bar>fl x\<bar>"
    using False fl_ge_normal [of "- 1022" x] fl_ge_normal [of "- 1022" "- x"] by (auto simp: fl_minus abs_if split: if_splits)
  then show ?thesis using False by (simp add: f64_def fl_idem)
qed

lemma f64_of_int: "\<bar>n\<bar> \<le> 2 ^ 53 \<Longrightarrow> f64 (of_int n) = of_int n"
proof (cases "n = 0")
  case False
  assume n: "\<bar>n\<bar> \<le> 2 ^ 53"
  have "(2 :: rat) powi (- 1022) \<le> 1" using power_int_increasing [of "- 1022" 0 "2 :: rat"] by simp
  moreover have "(1 :: rat) \<le> \<bar>of_int n\<bar>" using False by simp
  ultimately show ?thesis using fl_of_int [OF n] by (simp add: f64_def)
qed simp

lemma f64_1 [simp]: "f64 1 = 1"
  using f64_of_int [of 1] by simp

text \<open>For evaluation: numbers of ordinary size need no comparison with the least normal number.\<close>

lemma f64_code [code]:
  "f64 x =
    (if x = 0 then 0
     else if 1 / 1073741824 \<le> \<bar>x\<bar> then fl x
     else if \<bar>x\<bar> < 2 powi (- 1022) then of_int (round_even (x / 2 powi (- 1074))) * 2 powi (- 1074) else fl x)"
proof -
  have "(2 :: rat) powi (- 1022) \<le> 2 powi (- 30)" by (intro power_int_increasing) auto
  moreover have "(2 :: rat) powi (- 30) = 1 / 1073741824" by (simp add: power_int_minus inverse_eq_divide)
  ultimately show ?thesis using f64_0 by (auto simp: f64_def)
qed

lemmas w_defs = w_add_def w_sub_def w_mul_def w_div_def

end
