(* ===== verification/Histogram.thy ===== *)
theory Histogram
  imports Float_Range
begin

text \<open>
  The histograms of the recommender (\<^verbatim>\<open>src/recommender/util\<close>: \<^verbatim>\<open>histogram.go\<close>, \<^verbatim>\<open>histogram_options.go\<close>,
  \<^verbatim>\<open>decaying_histogram.go\<close>): an approximate distribution as weights of buckets, and one that forgets old samples.

  Weights are floats of \<open>Float_Range\<close>, values and bucket starts those of \<open>Go_Float\<close>. The results of \<^verbatim>\<open>math.Log\<close>,
  \<^verbatim>\<open>math.Pow\<close> and \<^verbatim>\<open>math.Exp2\<close> are the record \<open>math_ops\<close>, a parameter. A panic is \<open>None\<close>. Times are nanoseconds since
  the zero time of Go.
\<close>

record math_ops =
  math_Log :: "rat \<Rightarrow> rat"
  math_Pow :: "rat \<Rightarrow> rat \<Rightarrow> rat"
  math_Exp2 :: "rat \<Rightarrow> rat"

subsection \<open>Conversions and times\<close>

text \<open>The conversion of a float to \<open>int\<close>; a value out of range gives the least integer, as the processor has it on amd64.\<close>

definition go_int :: "rat \<Rightarrow> int" where
  "go_int x = (if in64 (int64_of x) then int64_of x else - (2 ^ 63))"

definition round_half :: "rat \<Rightarrow> int" where
  "round_half x = go_int (of_int \<lfloor>fadd x (1 / 2)\<rfloor>)"

text \<open>The difference of two times is a 64-bit duration and saturates.\<close>

definition time_Sub :: "int \<Rightarrow> int \<Rightarrow> int" where
  "time_Sub t u = (if t - u > 2 ^ 63 - 1 then 2 ^ 63 - 1 else if t - u < - (2 ^ 63) then - (2 ^ 63) else t - u)"

definition time_Round :: "int \<Rightarrow> int \<Rightarrow> int" where
  "time_Round t d = (if d \<le> 0 then t else let r = t mod d in if r + r < d then t - r else t + (d - r))"

subsection \<open>Options\<close>

text \<open>The first argument of an options object is its address: histograms compare their options by identity.\<close>

datatype HistogramOptions =
    linearHistogramOptions nat int rat rat
  | exponentialHistogramOptions nat int rat rat rat

definition log_base :: "math_ops \<Rightarrow> rat \<Rightarrow> rat \<Rightarrow> rat" where
  "log_base mo base x = fdiv (math_Log mo x) (math_Log mo base)"

definition NewLinearHistogramOptions :: "nat \<Rightarrow> rat \<Rightarrow> rat \<Rightarrow> rat \<Rightarrow> error + HistogramOptions" where
  "NewLinearHistogramOptions addr maxValue bucketSize eps =
    (if maxValue \<le> 0 \<or> bucketSize \<le> 0 \<or> eps \<le> 0 then Inl ''maxValue and bucketSize must both be positive''
     else Inr (linearHistogramOptions addr (i64 (go_int (of_int \<lceil>fdiv maxValue bucketSize\<rceil>) + 1)) bucketSize eps))"

definition NewExponentialHistogramOptions :: "math_ops \<Rightarrow> nat \<Rightarrow> rat \<Rightarrow> rat \<Rightarrow> rat \<Rightarrow> rat \<Rightarrow> error + HistogramOptions" where
  "NewExponentialHistogramOptions mo addr maxValue firstBucketSize ratio eps =
    (if maxValue \<le> 0 \<or> firstBucketSize \<le> 0 \<or> ratio \<le> 1 \<or> eps \<le> 0
     then Inl ''maxValue, firstBucketSize and epsilon must be > 0.0, ratio must be > 1.0''
     else
       let x = fadd (fdiv (fmul maxValue (fsub ratio 1)) firstBucketSize) 1 in
       Inr (exponentialHistogramOptions addr (i64 (go_int (of_int \<lceil>log_base mo ratio x\<rceil>) + 1)) firstBucketSize ratio eps))"

fun NumBuckets :: "HistogramOptions \<Rightarrow> int" where
  "NumBuckets (linearHistogramOptions _ n _ _) = n"
| "NumBuckets (exponentialHistogramOptions _ n _ _ _) = n"

fun Epsilon :: "HistogramOptions \<Rightarrow> rat" where
  "Epsilon (linearHistogramOptions _ _ _ eps) = eps"
| "Epsilon (exponentialHistogramOptions _ _ _ _ eps) = eps"

definition linear_FindBucket :: "int \<Rightarrow> rat \<Rightarrow> rat \<Rightarrow> int" where
  "linear_FindBucket numBuckets bucketSize val =
    (let bucket = go_int (fdiv val bucketSize) in
     if bucket < 0 then 0 else if bucket \<ge> numBuckets then numBuckets - 1 else bucket)"

definition exponential_FindBucket :: "math_ops \<Rightarrow> int \<Rightarrow> rat \<Rightarrow> rat \<Rightarrow> rat \<Rightarrow> int" where
  "exponential_FindBucket mo numBuckets firstBucketSize ratio val =
    (if val < firstBucketSize then 0
     else
       let bucket = go_int (log_base mo ratio (fadd (fdiv (fmul val (fsub ratio 1)) firstBucketSize) 1)) in
       if bucket \<ge> numBuckets then numBuckets - 1 else bucket)"

fun FindBucket :: "math_ops \<Rightarrow> HistogramOptions \<Rightarrow> rat \<Rightarrow> int" where
  "FindBucket mo (linearHistogramOptions _ numBuckets bucketSize _) val = linear_FindBucket numBuckets bucketSize val"
| "FindBucket mo (exponentialHistogramOptions _ numBuckets firstBucketSize ratio _) val =
    exponential_FindBucket mo numBuckets firstBucketSize ratio val"

definition linear_GetBucketStart :: "int \<Rightarrow> rat \<Rightarrow> int \<Rightarrow> rat option" where
  "linear_GetBucketStart numBuckets bucketSize bucket =
    (if bucket < 0 \<or> bucket \<ge> numBuckets then None else Some (fmul (float64 bucket) bucketSize))"

definition exponential_GetBucketStart :: "math_ops \<Rightarrow> int \<Rightarrow> rat \<Rightarrow> rat \<Rightarrow> int \<Rightarrow> rat option" where
  "exponential_GetBucketStart mo numBuckets firstBucketSize ratio bucket =
    (if bucket < 0 \<or> bucket \<ge> numBuckets then None
     else if bucket = 0 then Some 0
     else Some (fdiv (fmul firstBucketSize (fsub (math_Pow mo ratio (float64 bucket)) 1)) (fsub ratio 1)))"

fun GetBucketStart :: "math_ops \<Rightarrow> HistogramOptions \<Rightarrow> int \<Rightarrow> rat option" where
  "GetBucketStart mo (linearHistogramOptions _ numBuckets bucketSize _) bucket = linear_GetBucketStart numBuckets bucketSize bucket"
| "GetBucketStart mo (exponentialHistogramOptions _ numBuckets firstBucketSize ratio _) bucket =
    exponential_GetBucketStart mo numBuckets firstBucketSize ratio bucket"

subsection \<open>Histograms\<close>

record histogram =
  h_options :: HistogramOptions
  bucketWeight :: "rat list"
  totalWeight :: rat
  minBucket :: nat
  maxBucket :: nat

text \<open>Options without a bucket do not come from the two functions above on values in range; a slice of negative length panics.\<close>

definition NewHistogram :: "HistogramOptions \<Rightarrow> histogram option" where
  "NewHistogram options =
    (if NumBuckets options \<le> 0 then None
     else Some \<lparr>h_options = options, bucketWeight = replicate (nat (NumBuckets options)) 0, totalWeight = 0,
       minBucket = nat (NumBuckets options) - 1, maxBucket = 0\<rparr>)"

definition Hist_AddSample :: "math_ops \<Rightarrow> histogram \<Rightarrow> rat \<Rightarrow> rat \<Rightarrow> histogram option" where
  "Hist_AddSample mo h val w =
    (if w < 0 then None
     else
       let bucket = FindBucket mo (h_options h) val; b = nat bucket in
       if bucket < 0 \<or> b \<ge> length (bucketWeight h) then None
       else
         let ws = (bucketWeight h)[b := w_add (bucketWeight h ! b) w] in
         Some (h\<lparr>bucketWeight := ws, totalWeight := w_add (totalWeight h) w,
           minBucket := (if b < minBucket h \<and> ws ! b \<ge> Epsilon (h_options h) then b else minBucket h),
           maxBucket := (if b > maxBucket h \<and> ws ! b \<ge> Epsilon (h_options h) then b else maxBucket h)\<rparr>))"

definition safeSubtract :: "rat \<Rightarrow> rat \<Rightarrow> rat \<Rightarrow> rat" where
  "safeSubtract v sub eps = (let v = w_sub v sub in if v < eps then 0 else v)"

text \<open>The two loops of \<open>updateMinAndMaxBucket\<close>.\<close>

function raise_min :: "rat \<Rightarrow> rat list \<Rightarrow> nat \<Rightarrow> nat \<Rightarrow> nat" where
  "raise_min eps ws lastBucket b = (if ws ! b < eps \<and> b < lastBucket then raise_min eps ws lastBucket (b + 1) else b)"
  by auto
termination by (relation "measure (\<lambda>(_, _, lastBucket, b). lastBucket - b)") auto

fun lower_max :: "rat \<Rightarrow> rat list \<Rightarrow> nat \<Rightarrow> nat" where
  "lower_max eps ws 0 = 0"
| "lower_max eps ws (Suc b) = (if ws ! Suc b < eps then lower_max eps ws b else Suc b)"

declare raise_min.simps [simp del]

definition updateMinAndMaxBucket :: "histogram \<Rightarrow> histogram" where
  "updateMinAndMaxBucket h =
    (let eps = Epsilon (h_options h); lastBucket = nat (NumBuckets (h_options h)) - 1 in
     h\<lparr>minBucket := raise_min eps (bucketWeight h) lastBucket (minBucket h),
       maxBucket := lower_max eps (bucketWeight h) (maxBucket h)\<rparr>)"

definition Hist_SubtractSample :: "math_ops \<Rightarrow> histogram \<Rightarrow> rat \<Rightarrow> rat \<Rightarrow> histogram option" where
  "Hist_SubtractSample mo h val w =
    (if w < 0 then None
     else
       let bucket = FindBucket mo (h_options h) val; b = nat bucket; eps = Epsilon (h_options h) in
       if bucket < 0 \<or> b \<ge> length (bucketWeight h) then None
       else Some (updateMinAndMaxBucket (h\<lparr>totalWeight := safeSubtract (totalWeight h) w eps,
         bucketWeight := (bucketWeight h)[b := safeSubtract (bucketWeight h ! b) w eps]\<rparr>)))"

definition Hist_Merge :: "histogram \<Rightarrow> histogram \<Rightarrow> histogram option" where
  "Hist_Merge h o' =
    (if h_options h \<noteq> h_options o' then None
     else Some (h\<lparr>bucketWeight := fold (\<lambda>b ws. ws[b := w_add (ws ! b) (bucketWeight o' ! b)]) [minBucket o'..<maxBucket o' + 1] (bucketWeight h),
       totalWeight := w_add (totalWeight h) (totalWeight o'),
       minBucket := (if minBucket o' < minBucket h then minBucket o' else minBucket h),
       maxBucket := (if maxBucket o' > maxBucket h then maxBucket o' else maxBucket h)\<rparr>))"

definition Hist_IsEmpty :: "histogram \<Rightarrow> bool" where
  "Hist_IsEmpty h = (bucketWeight h ! minBucket h < Epsilon (h_options h))"

function find_percentile :: "rat list \<Rightarrow> rat \<Rightarrow> nat \<Rightarrow> nat \<Rightarrow> rat \<Rightarrow> nat" where
  "find_percentile ws threshold limit bucket partialSum =
    (if bucket < limit then
       let s = w_add partialSum (ws ! bucket) in
       if s \<ge> threshold then bucket else find_percentile ws threshold limit (bucket + 1) s
     else bucket)"
  by auto
termination by (relation "measure (\<lambda>(_, _, limit, bucket, _). limit - bucket)") auto

declare find_percentile.simps [simp del]

definition Percentile :: "math_ops \<Rightarrow> histogram \<Rightarrow> rat \<Rightarrow> rat option" where
  "Percentile mo h percentile =
    (if Hist_IsEmpty h then Some 0
     else
       let bucket = find_percentile (bucketWeight h) (w_mul percentile (totalWeight h)) (maxBucket h) (minBucket h) 0 in
       if int bucket < NumBuckets (h_options h) - 1 then GetBucketStart mo (h_options h) (int bucket + 1)
       else GetBucketStart mo (h_options h) (int bucket))"

definition Hist_Equals :: "histogram \<Rightarrow> histogram \<Rightarrow> bool" where
  "Hist_Equals h h2 =
    (if h_options h \<noteq> h_options h2 \<or> minBucket h \<noteq> minBucket h2 \<or> maxBucket h \<noteq> maxBucket h2 then False
     else list_all (\<lambda>b. let diff = w_sub (bucketWeight h ! b) (bucketWeight h2 ! b) in
       \<not> (diff > f64 (1 / 10 ^ 15) \<or> diff < - f64 (1 / 10 ^ 15))) [minBucket h..<maxBucket h + 1])"

definition scale :: "histogram \<Rightarrow> rat \<Rightarrow> histogram option" where
  "scale h factor =
    (if factor < 0 then None
     else Some (updateMinAndMaxBucket (h\<lparr>
       bucketWeight := map (\<lambda>b. if minBucket h \<le> b \<and> b \<le> maxBucket h then w_mul (bucketWeight h ! b) factor else bucketWeight h ! b)
         [0..<length (bucketWeight h)],
       totalWeight := w_mul (totalWeight h) factor\<rparr>)))"

subsection \<open>Checkpoints\<close>

record HistogramCheckpoint =
  hc_ReferenceTimestamp :: int
  hc_BucketWeights :: "(int \<times> int) list"
  hc_TotalWeight :: rat

datatype hist_error =
    ErrEmptyCheckpoint
  | ErrNegativeTotalWeight rat
  | ErrBucketExceeds int int
  | ErrNegativeBucket int

definition MaxCheckpointWeight :: int where
  "MaxCheckpointWeight = 10000"

definition max_weight :: "histogram \<Rightarrow> rat" where
  "max_weight h = fold (\<lambda>b m. if bucketWeight h ! b > m then bucketWeight h ! b else m) [minBucket h..<maxBucket h + 1] 0"

text \<open>
  The weight of a bucket relative to the largest one. When all weights are 0 the product is not a number, which converts to
  the least integer and from there to 0.
\<close>

definition checkpoint_weight :: "rat \<Rightarrow> rat \<Rightarrow> int" where
  "checkpoint_weight m w =
    (if m = 0 then 0 else round_half (w_mul w (w_div (float64 MaxCheckpointWeight) m)) mod 2 ^ 32)"

definition Hist_SaveToChekpoint :: "histogram \<Rightarrow> HistogramCheckpoint" where
  "Hist_SaveToChekpoint h =
    \<lparr>hc_ReferenceTimestamp = 0,
     hc_BucketWeights = map (\<lambda>b. (int b, checkpoint_weight (max_weight h) (bucketWeight h ! b)))
       (filter (\<lambda>b. checkpoint_weight (max_weight h) (bucketWeight h ! b) > 0) [minBucket h..<maxBucket h + 1]),
     hc_TotalWeight = totalWeight h\<rparr>"

fun check_buckets :: "int \<Rightarrow> (int \<times> int) list \<Rightarrow> int \<Rightarrow> hist_error + int" where
  "check_buckets n [] acc = Inr acc"
| "check_buckets n ((bucket, w) # rest) acc =
    (if bucket \<ge> n then Inl (ErrBucketExceeds bucket n)
     else if bucket < 0 then Inl (ErrNegativeBucket bucket)
     else check_buckets n rest (i64 (acc + w)))"

definition load_bucket :: "rat \<Rightarrow> int \<times> int \<Rightarrow> histogram \<Rightarrow> histogram" where
  "load_bucket ratio = (\<lambda>(bucket, w) h. let b = nat bucket in
    h\<lparr>minBucket := (if b < minBucket h then b else minBucket h),
      maxBucket := (if b > maxBucket h then b else maxBucket h),
      bucketWeight := (bucketWeight h)[b := w_add (bucketWeight h ! b) (w_mul (float64 w) ratio)]\<rparr>)"

definition Hist_LoadFromCheckpoint :: "histogram \<Rightarrow> HistogramCheckpoint option \<Rightarrow> histogram \<times> hist_error option" where
  "Hist_LoadFromCheckpoint h checkpoint =
    (case checkpoint of
      None \<Rightarrow> (h, Some ErrEmptyCheckpoint)
    | Some cp \<Rightarrow>
        if hc_TotalWeight cp < 0 then (h, Some (ErrNegativeTotalWeight (hc_TotalWeight cp)))
        else
          (case check_buckets (NumBuckets (h_options h)) (hc_BucketWeights cp) 0 of
            Inl e \<Rightarrow> (h, Some e)
          | Inr acc \<Rightarrow>
              if acc = 0 then (h, None)
              else
                let ratio = w_div (hc_TotalWeight cp) (float64 acc); h' = fold (load_bucket ratio) (hc_BucketWeights cp) h in
                (h'\<lparr>totalWeight := w_add (totalWeight h') (hc_TotalWeight cp)\<rparr>, None)))"

subsection \<open>Decaying histograms\<close>

record decayingHistogram =
  dh_histogram :: histogram
  dh_halfLife :: int
  dh_referenceTimestamp :: int

definition maxDecayExponent :: int where
  "maxDecayExponent = 100"

definition NewDecayingHistogram :: "HistogramOptions \<Rightarrow> int \<Rightarrow> decayingHistogram option" where
  "NewDecayingHistogram options halfLife =
    map_option (\<lambda>h. \<lparr>dh_histogram = h, dh_halfLife = halfLife, dh_referenceTimestamp = 0\<rparr>) (NewHistogram options)"

text \<open>\<^verbatim>\<open>math.Ldexp(1., exponent)\<close>; the exponents that come up here are at most 1.\<close>

definition Ldexp_1 :: "int \<Rightarrow> rat" where
  "Ldexp_1 e = (if e < - 1074 then 0 else 2 powi e)"

definition shiftReferenceTimestamp :: "decayingHistogram \<Rightarrow> int \<Rightarrow> decayingHistogram option" where
  "shiftReferenceTimestamp d newreferenceTimestamp =
    (let t = time_Round newreferenceTimestamp (dh_halfLife d);
         e = round_half (fdiv (float64 (time_Sub (dh_referenceTimestamp d) t)) (float64 (dh_halfLife d))) in
     map_option (\<lambda>h. d\<lparr>dh_histogram := h, dh_referenceTimestamp := t\<rparr>) (scale (dh_histogram d) (Ldexp_1 e)))"

text \<open>The result is the exponent of the factor, a number of half lives, with the histogram after a possible shift.\<close>

definition decay_exponent :: "decayingHistogram \<Rightarrow> int \<Rightarrow> rat" where
  "decay_exponent d timestamp = fdiv (float64 (time_Sub timestamp (dh_referenceTimestamp d))) (float64 (dh_halfLife d))"

definition decayFactor :: "math_ops \<Rightarrow> decayingHistogram \<Rightarrow> int \<Rightarrow> (rat \<times> decayingHistogram) option" where
  "decayFactor mo d timestamp =
    (let maxAllowedTimestamp = dh_referenceTimestamp d + i64 (dh_halfLife d * maxDecayExponent) in
     case (if timestamp > maxAllowedTimestamp then shiftReferenceTimestamp d timestamp else Some d) of
       None \<Rightarrow> None
     | Some d' \<Rightarrow> Some (math_Exp2 mo (decay_exponent d' timestamp), d'))"

definition Dec_AddSample :: "math_ops \<Rightarrow> decayingHistogram \<Rightarrow> rat \<Rightarrow> rat \<Rightarrow> int \<Rightarrow> decayingHistogram option" where
  "Dec_AddSample mo d val w time =
    (case decayFactor mo d time of
      None \<Rightarrow> None
    | Some (f, d') \<Rightarrow> map_option (\<lambda>h. d'\<lparr>dh_histogram := h\<rparr>) (Hist_AddSample mo (dh_histogram d') val (w_mul w f)))"

definition Dec_SubtractSample :: "math_ops \<Rightarrow> decayingHistogram \<Rightarrow> rat \<Rightarrow> rat \<Rightarrow> int \<Rightarrow> decayingHistogram option" where
  "Dec_SubtractSample mo d val w time =
    (case decayFactor mo d time of
      None \<Rightarrow> None
    | Some (f, d') \<Rightarrow> map_option (\<lambda>h. d'\<lparr>dh_histogram := h\<rparr>) (Hist_SubtractSample mo (dh_histogram d') val (w_mul w f)))"

text \<open>\<open>Merge\<close> may shift the other histogram too; the result is the pair of both.\<close>

definition Dec_Merge :: "decayingHistogram \<Rightarrow> decayingHistogram \<Rightarrow> (decayingHistogram \<times> decayingHistogram) option" where
  "Dec_Merge d e =
    (if dh_halfLife d \<noteq> dh_halfLife e then None
     else
       case (if dh_referenceTimestamp d < dh_referenceTimestamp e then
               map_option (\<lambda>d'. (d', e)) (shiftReferenceTimestamp d (dh_referenceTimestamp e))
             else if dh_referenceTimestamp e < dh_referenceTimestamp d then
               map_option (\<lambda>e'. (d, e')) (shiftReferenceTimestamp e (dh_referenceTimestamp d))
             else Some (d, e)) of
         None \<Rightarrow> None
       | Some (d', e') \<Rightarrow>
           map_option (\<lambda>h. (d'\<lparr>dh_histogram := h\<rparr>, e')) (Hist_Merge (dh_histogram d') (dh_histogram e')))"

definition Dec_Equals :: "decayingHistogram \<Rightarrow> decayingHistogram \<Rightarrow> bool" where
  "Dec_Equals d e \<longleftrightarrow>
    dh_halfLife d = dh_halfLife e \<and> dh_referenceTimestamp d = dh_referenceTimestamp e \<and>
    Hist_Equals (dh_histogram d) (dh_histogram e)"

definition Dec_IsEmpty :: "decayingHistogram \<Rightarrow> bool" where
  "Dec_IsEmpty d = Hist_IsEmpty (dh_histogram d)"

definition Dec_Percentile :: "math_ops \<Rightarrow> decayingHistogram \<Rightarrow> rat \<Rightarrow> rat option" where
  "Dec_Percentile mo d = Percentile mo (dh_histogram d)"

definition Dec_SaveToChekpoint :: "decayingHistogram \<Rightarrow> HistogramCheckpoint" where
  "Dec_SaveToChekpoint d =
    (Hist_SaveToChekpoint (dh_histogram d))\<lparr>hc_ReferenceTimestamp := dh_referenceTimestamp d\<rparr>"

definition Dec_LoadFromCheckpoint :: "decayingHistogram \<Rightarrow> HistogramCheckpoint option \<Rightarrow> decayingHistogram \<times> hist_error option" where
  "Dec_LoadFromCheckpoint d checkpoint =
    (case (Hist_LoadFromCheckpoint (dh_histogram d) checkpoint, checkpoint) of
      ((h, None), Some cp) \<Rightarrow> (d\<lparr>dh_histogram := h, dh_referenceTimestamp := hc_ReferenceTimestamp cp\<rparr>, None)
    | ((h, err), _) \<Rightarrow> (d\<lparr>dh_histogram := h\<rparr>, err))"

end
