(* ===== verification/Usage_Model.thy ===== *)
theory Usage_Model
  imports Histogram Api_Types "HOL-Library.Multiset"
begin

text \<open>
  The usage model of the recommender (\<^verbatim>\<open>src/recommender/model\<close>): amounts of resources (\<^verbatim>\<open>types.go\<close>), the configuration of the
  aggregations (\<^verbatim>\<open>aggregations_config.go\<close>), the aggregated state of the containers with one name
  (\<^verbatim>\<open>aggregate_container_state.go\<close>) and a single container (\<^verbatim>\<open>container.go\<close>).

  A container hands its samples to a \<open>ContainerStateAggregator\<close>, an interface of the source; here its methods are the record
  \<open>aggregator_ops\<close> over any state. The global configuration is an argument. A panic is \<open>None\<close>.
\<close>

subsection \<open>Amounts\<close>

type_synonym Resources = "(string, int) gomap"

definition MaxResourceAmount :: int where
  "MaxResourceAmount = 100000000000000"

definition resourceAmountFromFloat :: "rat \<Rightarrow> int" where
  "resourceAmountFromFloat amount =
    (if amount < 0 then 0 else if amount > float64 MaxResourceAmount then MaxResourceAmount else int64_of amount)"

definition CPUAmountFromCores :: "rat \<Rightarrow> int" where
  "CPUAmountFromCores cores = resourceAmountFromFloat (fmul cores 1000)"

definition CoresFromCPUAmount :: "int \<Rightarrow> rat" where
  "CoresFromCPUAmount cpuAmount = fdiv (float64 cpuAmount) 1000"

definition MemoryAmountFromBytes :: "rat \<Rightarrow> int" where
  "MemoryAmountFromBytes bytes = resourceAmountFromFloat bytes"

definition BytesFromMemoryAmount :: "int \<Rightarrow> rat" where
  "BytesFromMemoryAmount memoryAmount = float64 memoryAmount"

definition ScaleResource :: "int \<Rightarrow> rat \<Rightarrow> int" where
  "ScaleResource amount factor = resourceAmountFromFloat (fmul (float64 amount) factor)"

text \<open>\<open>resource.NewScaledQuantity\<close> is a parameter: a number and a power of ten give a quantity.\<close>

definition QuantityFromCPUAmount :: "(int \<Rightarrow> int \<Rightarrow> Quantity) \<Rightarrow> int \<Rightarrow> Quantity" where
  "QuantityFromCPUAmount newScaled cpuAmount = newScaled cpuAmount (- 3)"

definition QuantityFromMemoryAmount :: "(int \<Rightarrow> int \<Rightarrow> Quantity) \<Rightarrow> int \<Rightarrow> Quantity" where
  "QuantityFromMemoryAmount newScaled memoryAmount = newScaled memoryAmount 0"

definition ResourcesAsResourceList :: "(int \<Rightarrow> int \<Rightarrow> Quantity) \<Rightarrow> Resources \<Rightarrow> ResourceList" where
  "ResourcesAsResourceList newScaled resources =
    fold (\<lambda>(key, amount) result.
      if key = ResourceCPU then gm_put result ResourceCPU (QuantityFromCPUAmount newScaled amount)
      else if key = ResourceMemory then gm_put result ResourceMemory (QuantityFromMemoryAmount newScaled amount)
      else result) resources []"

definition ResourceNamesApiToModel :: "string list \<Rightarrow> string list" where
  "ResourceNamesApiToModel resources = filter (\<lambda>r. r = ResourceCPU \<or> r = ResourceMemory) resources"

definition rem64 :: "int \<Rightarrow> int \<Rightarrow> int" where
  "rem64 a b = sgn a * (\<bar>a\<bar> mod \<bar>b\<bar>)"

definition RoundResourceAmount :: "int \<Rightarrow> int \<Rightarrow> int option" where
  "RoundResourceAmount amount unit = (if unit = 0 then None else Some (i64 (amount - rem64 amount unit)))"

definition ResourceAmountMax :: "int \<Rightarrow> int \<Rightarrow> int" where
  "ResourceAmountMax amount1 amount2 = (if amount1 > amount2 then amount1 else amount2)"

subsection \<open>The configuration\<close>

record AggregationsConfig =
  ac_MemoryAggregationInterval :: int
  ac_MemoryAggregationIntervalCount :: int
  ac_CPUHistogramOptions :: HistogramOptions
  ac_MemoryHistogramOptions :: HistogramOptions
  ac_HistogramBucketSizeGrowth :: rat
  ac_MemoryHistogramDecayHalfLife :: int
  ac_CPUHistogramDecayHalfLife :: int

definition minSampleWeight :: rat where
  "minSampleWeight = fl (1 / 10)"

text \<open>Constant expressions are exact before they are rounded.\<close>

definition model_epsilon :: rat where
  "model_epsilon = fl (1 / 10000)"

definition DefaultHistogramBucketSizeGrowth :: rat where
  "DefaultHistogramBucketSizeGrowth = fl (5 / 100)"

definition hour :: int where
  "hour = 3600 * 10 ^ 9"

definition GetMemoryAggregationWindowLength :: "AggregationsConfig \<Rightarrow> int" where
  "GetMemoryAggregationWindowLength a = i64 (ac_MemoryAggregationInterval a * ac_MemoryAggregationIntervalCount a)"

definition cpuHistogramOptions :: "math_ops \<Rightarrow> nat \<Rightarrow> rat \<Rightarrow> HistogramOptions option" where
  "cpuHistogramOptions mo addr growth =
    (case NewExponentialHistogramOptions mo addr 1000 (fl (1 / 100)) (fadd 1 growth) model_epsilon of
      Inl _ \<Rightarrow> None | Inr options \<Rightarrow> Some options)"

definition memoryHistogramOptions :: "math_ops \<Rightarrow> nat \<Rightarrow> rat \<Rightarrow> HistogramOptions option" where
  "memoryHistogramOptions mo addr growth =
    (case NewExponentialHistogramOptions mo addr (10 ^ 12) (10 ^ 7) (fadd 1 growth) model_epsilon of
      Inl _ \<Rightarrow> None | Inr options \<Rightarrow> Some options)"

definition NewAggregationsConfig :: "math_ops \<Rightarrow> nat \<Rightarrow> int \<Rightarrow> int \<Rightarrow> int \<Rightarrow> int \<Rightarrow> AggregationsConfig option" where
  "NewAggregationsConfig mo addr memoryAggregationInterval memoryAggregationIntervalCount memoryHistogramDecayHalfLife cpuHistogramDecayHalfLife =
    (case (cpuHistogramOptions mo addr DefaultHistogramBucketSizeGrowth, memoryHistogramOptions mo (addr + 1) DefaultHistogramBucketSizeGrowth) of
      (Some cpu, Some mem) \<Rightarrow>
        Some \<lparr>ac_MemoryAggregationInterval = memoryAggregationInterval, ac_MemoryAggregationIntervalCount = memoryAggregationIntervalCount,
          ac_CPUHistogramOptions = cpu, ac_MemoryHistogramOptions = mem, ac_HistogramBucketSizeGrowth = DefaultHistogramBucketSizeGrowth,
          ac_MemoryHistogramDecayHalfLife = memoryHistogramDecayHalfLife, ac_CPUHistogramDecayHalfLife = cpuHistogramDecayHalfLife\<rparr>
    | _ \<Rightarrow> None)"

definition default_config :: "math_ops \<Rightarrow> nat \<Rightarrow> AggregationsConfig option" where
  "default_config mo addr = NewAggregationsConfig mo addr (hour * 48) 8 (hour * 24) (hour * 24)"

subsection \<open>Samples and aggregated states\<close>

record ContainerUsageSample =
  us_MeasureStart :: int
  us_Usage :: int
  us_Request :: int
  us_Resource :: string

record AggregateContainerState =
  as_AggregateCPUUsage :: decayingHistogram
  as_AggregateMemoryPeaks :: decayingHistogram
  as_FirstSampleStart :: int
  as_LastSampleStart :: int
  as_TotalSamplesCount :: int
  as_CreationTime :: int
  as_LastRecommendation :: "ResourceList option"
  as_IsUnderVPA :: bool
  as_UpdateMode :: "string option"
  as_ScalingMode :: "string option"
  as_ControlledResources :: "string list option"

definition DefaultControlledResources :: "string list" where
  "DefaultControlledResources = [ResourceCPU, ResourceMemory]"

definition NeedsRecommendation :: "AggregateContainerState \<Rightarrow> bool" where
  "NeedsRecommendation a = (as_IsUnderVPA a \<and> as_ScalingMode a \<noteq> None \<and> as_ScalingMode a \<noteq> Some ''Off'')"

definition GetControlledResources :: "AggregateContainerState \<Rightarrow> string list" where
  "GetControlledResources a = (case as_ControlledResources a of Some rs \<Rightarrow> rs | None \<Rightarrow> DefaultControlledResources)"

definition MarkNotAutoscaled :: "AggregateContainerState \<Rightarrow> AggregateContainerState" where
  "MarkNotAutoscaled a = a\<lparr>as_IsUnderVPA := False, as_LastRecommendation := None, as_UpdateMode := None, as_ScalingMode := None,
    as_ControlledResources := None\<rparr>"

text \<open>Merging may shift the histograms of the other state; the result is the pair of both.\<close>

definition MergeContainerState :: "AggregateContainerState \<Rightarrow> AggregateContainerState \<Rightarrow> (AggregateContainerState \<times> AggregateContainerState) option" where
  "MergeContainerState a b =
    (case (Dec_Merge (as_AggregateCPUUsage a) (as_AggregateCPUUsage b), Dec_Merge (as_AggregateMemoryPeaks a) (as_AggregateMemoryPeaks b)) of
      (Some (cpu, cpu'), Some (mem, mem')) \<Rightarrow>
        Some (a\<lparr>as_AggregateCPUUsage := cpu, as_AggregateMemoryPeaks := mem,
          as_FirstSampleStart := (if as_FirstSampleStart a = 0 \<or> (as_FirstSampleStart b \<noteq> 0 \<and> as_FirstSampleStart b < as_FirstSampleStart a)
            then as_FirstSampleStart b else as_FirstSampleStart a),
          as_LastSampleStart := (if as_LastSampleStart b > as_LastSampleStart a then as_LastSampleStart b else as_LastSampleStart a),
          as_TotalSamplesCount := i64 (as_TotalSamplesCount a + as_TotalSamplesCount b)\<rparr>,
          b\<lparr>as_AggregateCPUUsage := cpu', as_AggregateMemoryPeaks := mem'\<rparr>)
    | _ \<Rightarrow> None)"

definition NewAggregateContainerState :: "AggregationsConfig \<Rightarrow> int \<Rightarrow> AggregateContainerState option" where
  "NewAggregateContainerState config now =
    (case (NewDecayingHistogram (ac_CPUHistogramOptions config) (ac_CPUHistogramDecayHalfLife config),
           NewDecayingHistogram (ac_MemoryHistogramOptions config) (ac_MemoryHistogramDecayHalfLife config)) of
      (Some cpu, Some mem) \<Rightarrow>
        Some \<lparr>as_AggregateCPUUsage = cpu, as_AggregateMemoryPeaks = mem, as_FirstSampleStart = 0, as_LastSampleStart = 0,
          as_TotalSamplesCount = 0, as_CreationTime = now, as_LastRecommendation = None, as_IsUnderVPA = False, as_UpdateMode = None,
          as_ScalingMode = None, as_ControlledResources = None\<rparr>
    | _ \<Rightarrow> None)"

definition Agg_addCPUSample :: "math_ops \<Rightarrow> AggregateContainerState \<Rightarrow> ContainerUsageSample \<Rightarrow> AggregateContainerState option" where
  "Agg_addCPUSample mo a sample =
    (let cpuUsageCores = CoresFromCPUAmount (us_Usage sample); cpuRequestCores = CoresFromCPUAmount (us_Request sample);
         ts = us_MeasureStart sample in
     map_option (\<lambda>h. a\<lparr>as_AggregateCPUUsage := h,
       as_LastSampleStart := (if ts > as_LastSampleStart a then ts else as_LastSampleStart a),
       as_FirstSampleStart := (if as_FirstSampleStart a = 0 \<or> ts < as_FirstSampleStart a then ts else as_FirstSampleStart a),
       as_TotalSamplesCount := i64 (as_TotalSamplesCount a + 1)\<rparr>)
       (Dec_AddSample mo (as_AggregateCPUUsage a) cpuUsageCores (max cpuRequestCores minSampleWeight) ts))"

definition Agg_AddSample :: "math_ops \<Rightarrow> AggregateContainerState \<Rightarrow> ContainerUsageSample \<Rightarrow> AggregateContainerState option" where
  "Agg_AddSample mo a sample =
    (if us_Resource sample = ResourceCPU then Agg_addCPUSample mo a sample
     else if us_Resource sample = ResourceMemory then
       map_option (\<lambda>h. a\<lparr>as_AggregateMemoryPeaks := h\<rparr>)
         (Dec_AddSample mo (as_AggregateMemoryPeaks a) (BytesFromMemoryAmount (us_Usage sample)) 1 (us_MeasureStart sample))
     else None)"

definition Agg_SubtractSample :: "math_ops \<Rightarrow> AggregateContainerState \<Rightarrow> ContainerUsageSample \<Rightarrow> AggregateContainerState option" where
  "Agg_SubtractSample mo a sample =
    (if us_Resource sample = ResourceMemory then
       map_option (\<lambda>h. a\<lparr>as_AggregateMemoryPeaks := h\<rparr>)
         (Dec_SubtractSample mo (as_AggregateMemoryPeaks a) (BytesFromMemoryAmount (us_Usage sample)) 1 (us_MeasureStart sample))
     else None)"

record CheckpointStatus =
  vs_FirstSampleStart :: int
  vs_LastSampleStart :: int
  vs_TotalSamplesCount :: int
  vs_MemoryHistogram :: HistogramCheckpoint
  vs_CPUHistogram :: HistogramCheckpoint

definition Agg_SaveToCheckpoint :: "AggregateContainerState \<Rightarrow> CheckpointStatus" where
  "Agg_SaveToCheckpoint a =
    \<lparr>vs_FirstSampleStart = as_FirstSampleStart a, vs_LastSampleStart = as_LastSampleStart a, vs_TotalSamplesCount = as_TotalSamplesCount a,
     vs_MemoryHistogram = Dec_SaveToChekpoint (as_AggregateMemoryPeaks a), vs_CPUHistogram = Dec_SaveToChekpoint (as_AggregateCPUUsage a)\<rparr>"

definition Agg_LoadFromCheckpoint :: "AggregateContainerState \<Rightarrow> CheckpointStatus \<Rightarrow> AggregateContainerState \<times> hist_error option" where
  "Agg_LoadFromCheckpoint a checkpoint =
    (let a = a\<lparr>as_TotalSamplesCount := vs_TotalSamplesCount checkpoint, as_FirstSampleStart := vs_FirstSampleStart checkpoint,
           as_LastSampleStart := vs_LastSampleStart checkpoint\<rparr>;
         (mem, err) = Dec_LoadFromCheckpoint (as_AggregateMemoryPeaks a) (Some (vs_MemoryHistogram checkpoint));
         a = a\<lparr>as_AggregateMemoryPeaks := mem\<rparr> in
     if err \<noteq> None then (a, err)
     else
       let (cpu, err) = Dec_LoadFromCheckpoint (as_AggregateCPUUsage a) (Some (vs_CPUHistogram checkpoint)) in
       (a\<lparr>as_AggregateCPUUsage := cpu\<rparr>, err))"

definition Agg_isEmpty :: "AggregateContainerState \<Rightarrow> bool" where
  "Agg_isEmpty a = (as_TotalSamplesCount a = 0)"

definition Agg_isExpired :: "AggregationsConfig \<Rightarrow> AggregateContainerState \<Rightarrow> int \<Rightarrow> bool" where
  "Agg_isExpired config a now =
    (if Agg_isEmpty a then time_Sub now (as_CreationTime a) \<ge> GetMemoryAggregationWindowLength config
     else time_Sub now (as_LastSampleStart a) \<ge> GetMemoryAggregationWindowLength config)"

record ContainerResourcePolicy =
  crp_ContainerName :: string
  crp_Mode :: "string option"
  crp_ControlledResources :: "string list option"

definition UpdateFromPolicy :: "AggregateContainerState \<Rightarrow> ContainerResourcePolicy option \<Rightarrow> AggregateContainerState" where
  "UpdateFromPolicy a resourcePolicy =
    a\<lparr>as_ScalingMode := (case resourcePolicy of Some p \<Rightarrow> (case crp_Mode p of Some m \<Rightarrow> Some m | None \<Rightarrow> Some ''Auto'') | None \<Rightarrow> Some ''Auto''),
      as_ControlledResources :=
        (case resourcePolicy of
          Some p \<Rightarrow> (case crp_ControlledResources p of Some rs \<Rightarrow> Some (ResourceNamesApiToModel rs) | None \<Rightarrow> Some DefaultControlledResources)
        | None \<Rightarrow> Some DefaultControlledResources)\<rparr>"

text \<open>
  \<open>AggregateStateByContainerName\<close> merges the states of a map with the same container name, in the order in which the map is
  ranged over, into new states. The result also has the states after the merges. The key's container name is the function
  \<open>name\<close>.
\<close>

fun AggregateStateByContainerName ::
  "AggregationsConfig \<Rightarrow> int \<Rightarrow> ('k \<Rightarrow> string) \<Rightarrow> ('k, AggregateContainerState) gomap \<Rightarrow> (string, AggregateContainerState) gomap \<Rightarrow>
    ((string, AggregateContainerState) gomap \<times> ('k, AggregateContainerState) gomap) option" where
  "AggregateStateByContainerName config now name [] result = Some (result, [])"
| "AggregateStateByContainerName config now name ((k, a) # rest) result =
    (case (case gm_get result (name k) of None \<Rightarrow> NewAggregateContainerState config now | Some s \<Rightarrow> Some s) of
      None \<Rightarrow> None
    | Some s \<Rightarrow>
        (case MergeContainerState s a of
          None \<Rightarrow> None
        | Some (s', a') \<Rightarrow>
            map_option (\<lambda>(result', rest'). (result', (k, a') # rest'))
              (AggregateStateByContainerName config now name rest (gm_put result (name k) s'))))"

subsection \<open>Containers\<close>

text \<open>
  The interface \<open>ContainerStateAggregator\<close>. \<open>ag_Observe\<close> stands for the getters that \<open>observeQualityMetrics\<close> calls and whose
  results it does not use: they may make a proxy create the aggregation.
\<close>

record 's aggregator_ops =
  ag_AddSample :: "'s \<Rightarrow> ContainerUsageSample \<Rightarrow> 's option"
  ag_SubtractSample :: "'s \<Rightarrow> ContainerUsageSample \<Rightarrow> 's option"
  ag_Observe :: "'s \<Rightarrow> 's option"

record ContainerState =
  cs_Request :: Resources
  cs_LastCPUSampleStart :: int
  cs_memoryPeak :: int
  cs_oomPeak :: int
  cs_WindowEnd :: int
  cs_lastMemorySampleStart :: int

definition NewContainerState :: "Resources \<Rightarrow> ContainerState" where
  "NewContainerState request = \<lparr>cs_Request = request, cs_LastCPUSampleStart = 0, cs_memoryPeak = 0, cs_oomPeak = 0, cs_WindowEnd = 0,
    cs_lastMemorySampleStart = 0\<rparr>"

definition isValid :: "ContainerUsageSample \<Rightarrow> string \<Rightarrow> bool" where
  "isValid sample expectedResource = (us_Usage sample \<ge> 0 \<and> us_Resource sample = expectedResource)"

definition addCPUSample :: "'s aggregator_ops \<Rightarrow> ContainerState \<Rightarrow> 's \<Rightarrow> ContainerUsageSample \<Rightarrow> (bool \<times> ContainerState \<times> 's) option" where
  "addCPUSample ag c s sample =
    (if \<not> isValid sample ResourceCPU \<or> \<not> us_MeasureStart sample > cs_LastCPUSampleStart c then Some (False, c, s)
     else
       case ag_Observe ag s of
         None \<Rightarrow> None
       | Some s \<Rightarrow>
           map_option (\<lambda>s'. (True, c\<lparr>cs_LastCPUSampleStart := us_MeasureStart sample\<rparr>, s')) (ag_AddSample ag s sample))"

definition GetMaxMemoryPeak :: "ContainerState \<Rightarrow> int" where
  "GetMaxMemoryPeak c = ResourceAmountMax (cs_memoryPeak c) (cs_oomPeak c)"

definition truncate_duration :: "int \<Rightarrow> int \<Rightarrow> int" where
  "truncate_duration d m = (if m \<le> 0 then d else i64 (d - rem64 d m))"

definition memory_sample :: "int \<Rightarrow> int \<Rightarrow> int \<Rightarrow> ContainerUsageSample" where
  "memory_sample ts usage request = \<lparr>us_MeasureStart = ts, us_Usage = usage, us_Request = request, us_Resource = ResourceMemory\<rparr>"

definition addMemorySample ::
  "'s aggregator_ops \<Rightarrow> AggregationsConfig \<Rightarrow> ContainerState \<Rightarrow> 's \<Rightarrow> ContainerUsageSample \<Rightarrow> bool \<Rightarrow> (bool \<times> ContainerState \<times> 's) option" where
  "addMemorySample ag config c s sample isOOM =
    (let ts = us_MeasureStart sample in
     if \<not> isValid sample ResourceMemory \<or> (\<not> isOOM \<and> ts < cs_lastMemorySampleStart c) then Some (False, c, s)
     else
       let c = c\<lparr>cs_lastMemorySampleStart := ts\<rparr>;
           c = (if cs_WindowEnd c = 0 then c\<lparr>cs_WindowEnd := ts\<rparr> else c);
           oldMaxMem = GetMaxMemoryPeak c;
           interval = ac_MemoryAggregationInterval config;
           (c', s', addNewPeak) =
             (if ts < cs_WindowEnd c then
                if oldMaxMem \<noteq> 0 \<and> us_Usage sample > oldMaxMem then
                  (c, ag_SubtractSample ag s (memory_sample (cs_WindowEnd c) oldMaxMem (us_Request sample)), True)
                else (c, Some s, False)
              else
                (c\<lparr>cs_WindowEnd := cs_WindowEnd c + i64 (truncate_duration (time_Sub ts (cs_WindowEnd c)) interval + interval),
                   cs_memoryPeak := 0, cs_oomPeak := 0\<rparr>, Some s, True)) in
       case Option.bind s' (ag_Observe ag) of
         None \<Rightarrow> None
       | Some s \<Rightarrow>
           if addNewPeak then
             map_option (\<lambda>s'. (True, if isOOM then c'\<lparr>cs_oomPeak := us_Usage sample\<rparr> else c'\<lparr>cs_memoryPeak := us_Usage sample\<rparr>, s'))
               (ag_AddSample ag s (memory_sample (cs_WindowEnd c') (us_Usage sample) (us_Request sample)))
           else Some (True, c', s))"

datatype oom_error = ErrOldOOM int | ErrAddingOOM

definition OOMBumpUpRatio :: rat where
  "OOMBumpUpRatio = fl (12 / 10)"

definition OOMMinBumpUp :: rat where
  "OOMMinBumpUp = 100 * 1024 * 1024"

definition Cont_RecordOOM ::
  "'s aggregator_ops \<Rightarrow> AggregationsConfig \<Rightarrow> ContainerState \<Rightarrow> 's \<Rightarrow> int \<Rightarrow> int \<Rightarrow> (oom_error option \<times> ContainerState \<times> 's) option" where
  "Cont_RecordOOM ag config c s timestamp requestedMemory =
    (if timestamp < cs_WindowEnd c + i64 (- ac_MemoryAggregationInterval config) then Some (Some (ErrOldOOM timestamp), c, s)
     else
       let memoryUsed = ResourceAmountMax requestedMemory (cs_memoryPeak c);
           memoryNeeded = ResourceAmountMax (i64 (memoryUsed + MemoryAmountFromBytes OOMMinBumpUp)) (ScaleResource memoryUsed OOMBumpUpRatio) in
       map_option (\<lambda>(added, c, s). (if added then None else Some ErrAddingOOM, c, s))
         (addMemorySample ag config c s (memory_sample timestamp memoryNeeded 0) True))"

definition Cont_AddSample ::
  "'s aggregator_ops \<Rightarrow> AggregationsConfig \<Rightarrow> ContainerState \<Rightarrow> 's \<Rightarrow> ContainerUsageSample \<Rightarrow> (bool \<times> ContainerState \<times> 's) option" where
  "Cont_AddSample ag config c s sample =
    (if us_Resource sample = ResourceCPU then addCPUSample ag c s sample
     else if us_Resource sample = ResourceMemory then addMemorySample ag config c s sample False
     else Some (False, c, s))"

end
