(* ===== verification/Usage_Props.thy ===== *)
theory Usage_Props
  imports Usage_Model
begin

text \<open>
  What a container hands to its aggregator. Whatever the aggregator is, it gets the same calls; the samples they leave in it
  are one per aggregation window, the largest usage of the window.
\<close>

subsection \<open>The calls of a container\<close>

datatype agg_call = CallAdd ContainerUsageSample | CallSubtract ContainerUsageSample | CallObserve

fun replay :: "'s aggregator_ops \<Rightarrow> agg_call list \<Rightarrow> 's \<Rightarrow> 's option" where
  "replay ag [] s = Some s"
| "replay ag (CallAdd x # calls) s = Option.bind (ag_AddSample ag s x) (replay ag calls)"
| "replay ag (CallSubtract x # calls) s = Option.bind (ag_SubtractSample ag s x) (replay ag calls)"
| "replay ag (CallObserve # calls) s = Option.bind (ag_Observe ag s) (replay ag calls)"

lemma replay_append: "replay ag (xs @ ys) s = Option.bind (replay ag xs s) (replay ag ys)"
  by (induction ag xs s rule: replay.induct) (auto split: bind_split)

text \<open>The four outcomes of a memory sample.\<close>

definition started :: "ContainerState \<Rightarrow> int \<Rightarrow> ContainerState" where
  "started c ts = c\<lparr>cs_lastMemorySampleStart := ts, cs_WindowEnd := (if cs_WindowEnd c = 0 then ts else cs_WindowEnd c)\<rparr>"

definition next_window :: "AggregationsConfig \<Rightarrow> ContainerState \<Rightarrow> int \<Rightarrow> ContainerState" where
  "next_window config c ts =
    (let interval = ac_MemoryAggregationInterval config in
     c\<lparr>cs_WindowEnd := cs_WindowEnd c + i64 (truncate_duration (time_Sub ts (cs_WindowEnd c)) interval + interval),
       cs_memoryPeak := 0, cs_oomPeak := 0\<rparr>)"

definition set_peak :: "bool \<Rightarrow> int \<Rightarrow> ContainerState \<Rightarrow> ContainerState" where
  "set_peak oom u c = (if oom then c\<lparr>cs_oomPeak := u\<rparr> else c\<lparr>cs_memoryPeak := u\<rparr>)"

datatype sample_outcome = Rejected | Below | Raised | Opened

definition outcome :: "ContainerState \<Rightarrow> ContainerUsageSample \<Rightarrow> bool \<Rightarrow> sample_outcome" where
  "outcome c x oom =
    (let ts = us_MeasureStart x; c1 = started c ts in
     if \<not> isValid x ResourceMemory \<or> (\<not> oom \<and> ts < cs_lastMemorySampleStart c) then Rejected
     else if \<not> ts < cs_WindowEnd c1 then Opened
     else if GetMaxMemoryPeak c \<noteq> 0 \<and> us_Usage x > GetMaxMemoryPeak c then Raised else Below)"

definition outcome_state :: "AggregationsConfig \<Rightarrow> ContainerState \<Rightarrow> ContainerUsageSample \<Rightarrow> bool \<Rightarrow> ContainerState" where
  "outcome_state config c x oom =
    (let c1 = started c (us_MeasureStart x) in
     case outcome c x oom of
       Rejected \<Rightarrow> c
     | Below \<Rightarrow> c1
     | Raised \<Rightarrow> set_peak oom (us_Usage x) c1
     | Opened \<Rightarrow> set_peak oom (us_Usage x) (next_window config c1 (us_MeasureStart x)))"

definition outcome_calls :: "AggregationsConfig \<Rightarrow> ContainerState \<Rightarrow> ContainerUsageSample \<Rightarrow> bool \<Rightarrow> agg_call list" where
  "outcome_calls config c x oom =
    (let c1 = started c (us_MeasureStart x); e = cs_WindowEnd (outcome_state config c x oom) in
     case outcome c x oom of
       Rejected \<Rightarrow> []
     | Below \<Rightarrow> [CallObserve]
     | Raised \<Rightarrow> [CallSubtract (memory_sample e (GetMaxMemoryPeak c) (us_Request x)), CallObserve,
                  CallAdd (memory_sample e (us_Usage x) (us_Request x))]
     | Opened \<Rightarrow> [CallObserve, CallAdd (memory_sample e (us_Usage x) (us_Request x))])"

lemma started_if: "(if cs_WindowEnd c = 0 then c\<lparr>cs_lastMemorySampleStart := t, cs_WindowEnd := t\<rparr> else c\<lparr>cs_lastMemorySampleStart := t\<rparr>) = started c t"
  by (simp add: started_def)

lemma started_peaks [simp]: "GetMaxMemoryPeak (started c t) = GetMaxMemoryPeak c"
  by (simp add: started_def GetMaxMemoryPeak_def)

lemma set_peak_end [simp]: "cs_WindowEnd (set_peak oom u c) = cs_WindowEnd c"
  by (simp add: set_peak_def)

text \<open>A step is its outcome: the same new state for every aggregator, which gets the calls of the outcome.\<close>

lemma addMemorySample_outcome:
  "addMemorySample ag config c s x oom =
    map_option (\<lambda>s'. (outcome c x oom \<noteq> Rejected, outcome_state config c x oom, s')) (replay ag (outcome_calls config c x oom) s)"
proof -
  let ?ts = "us_MeasureStart x"
  define c1 where "c1 = started c ?ts"
  have c1: "(if cs_WindowEnd (c\<lparr>cs_lastMemorySampleStart := ?ts\<rparr>) = 0 then c\<lparr>cs_lastMemorySampleStart := ?ts\<rparr>\<lparr>cs_WindowEnd := ?ts\<rparr>
      else c\<lparr>cs_lastMemorySampleStart := ?ts\<rparr>) = c1"
    using started_if by (simp add: c1_def)
  have m: "GetMaxMemoryPeak c1 = GetMaxMemoryPeak c" by (simp add: c1_def)
  show ?thesis
  proof (cases "outcome c x oom")
    case Rejected
    then have "\<not> isValid x ResourceMemory \<or> (\<not> oom \<and> ?ts < cs_lastMemorySampleStart c)"
      by (auto simp: outcome_def Let_def split: if_splits)
    then show ?thesis using Rejected by (simp add: addMemorySample_def Let_def outcome_state_def outcome_calls_def)
  next
    case Below
    then have "\<not> (\<not> isValid x ResourceMemory \<or> (\<not> oom \<and> ?ts < cs_lastMemorySampleStart c))" "?ts < cs_WindowEnd c1"
      "\<not> (GetMaxMemoryPeak c \<noteq> 0 \<and> us_Usage x > GetMaxMemoryPeak c)"
      by (auto simp: outcome_def c1_def Let_def split: if_splits)
    then show ?thesis
      unfolding addMemorySample_def Let_def c1 m using Below
      by (auto simp: outcome_state_def outcome_calls_def c1_def [symmetric] Let_def split: option.split bind_split)
  next
    case Raised
    then have "\<not> (\<not> isValid x ResourceMemory \<or> (\<not> oom \<and> ?ts < cs_lastMemorySampleStart c))" "?ts < cs_WindowEnd c1"
      "GetMaxMemoryPeak c \<noteq> 0 \<and> us_Usage x > GetMaxMemoryPeak c"
      by (auto simp: outcome_def c1_def Let_def split: if_splits)
    then show ?thesis
      unfolding addMemorySample_def Let_def c1 m using Raised
      by (auto simp: outcome_state_def outcome_calls_def c1_def [symmetric] Let_def set_peak_def split: option.split bind_split)
  next
    case Opened
    then have "\<not> (\<not> isValid x ResourceMemory \<or> (\<not> oom \<and> ?ts < cs_lastMemorySampleStart c))" "\<not> ?ts < cs_WindowEnd c1"
      by (auto simp: outcome_def c1_def Let_def split: if_splits)
    then show ?thesis
      unfolding addMemorySample_def Let_def c1 m using Opened
      by (auto simp: outcome_state_def outcome_calls_def c1_def [symmetric] Let_def set_peak_def next_window_def split: option.split bind_split)
  qed
qed

subsection \<open>Windows\<close>

text \<open>The accepted samples by window, the newest window first.\<close>

fun window_step :: "int \<Rightarrow> int \<times> int \<Rightarrow> (int \<times> int list) list \<Rightarrow> (int \<times> int list) list" where
  "window_step interval (ts, u) [] = [(ts + interval, [u])]"
| "window_step interval (ts, u) ((e, us) # ws) =
    (if ts < e then (e, us @ [u]) # ws else (e + interval * ((ts - e) div interval) + interval, [u]) # (e, us) # ws)"

definition windows :: "int \<Rightarrow> (int \<times> int) list \<Rightarrow> (int \<times> int list) list" where
  "windows interval xs = fold (window_step interval) xs []"

definition window_peak :: "int \<times> int list \<Rightarrow> int \<times> int" where
  "window_peak w = (fst w, Max (set (snd w)))"

text \<open>The samples that a list of calls leaves in an aggregator.\<close>

fun net :: "agg_call list \<Rightarrow> (int \<times> int) multiset \<Rightarrow> (int \<times> int) multiset" where
  "net [] m = m"
| "net (CallAdd x # calls) m = net calls (add_mset (us_MeasureStart x, us_Usage x) m)"
| "net (CallSubtract x # calls) m = net calls (m - {#(us_MeasureStart x, us_Usage x)#})"
| "net (CallObserve # calls) m = net calls m"

lemma net_append: "net (xs @ ys) m = net ys (net xs m)"
  by (induction xs m rule: net.induct) auto

text \<open>A run of memory samples, each with a flag for an artificial sample of an out-of-memory event.\<close>

fun run_samples ::
  "'s aggregator_ops \<Rightarrow> AggregationsConfig \<Rightarrow> (ContainerUsageSample \<times> bool) list \<Rightarrow> ContainerState \<Rightarrow> 's \<Rightarrow>
    ((int \<times> int) list \<times> ContainerState \<times> 's) option" where
  "run_samples ag config [] c s = Some ([], c, s)"
| "run_samples ag config ((x, oom) # xs) c s =
    (case addMemorySample ag config c s x oom of
      None \<Rightarrow> None
    | Some (added, c', s') \<Rightarrow>
        map_option (\<lambda>(acc, r). ((if added then [(us_MeasureStart x, us_Usage x)] else []) @ acc, r)) (run_samples ag config xs c' s'))"

text \<open>Samples in range: positive usage, and times and the interval well inside 64 bits.\<close>

definition usable_sample :: "ContainerUsageSample \<Rightarrow> bool" where
  "usable_sample x \<longleftrightarrow> us_Usage x > 0 \<and> us_MeasureStart x > 0 \<and> us_MeasureStart x < 2 ^ 62"

definition window_inv :: "ContainerState \<Rightarrow> (int \<times> int list) list \<Rightarrow> (int \<times> int) multiset \<Rightarrow> bool" where
  "window_inv c ws m \<longleftrightarrow>
    m = mset (map window_peak ws) \<and>
    (case ws of
      [] \<Rightarrow> cs_WindowEnd c = 0
    | (e, us) # _ \<Rightarrow> cs_WindowEnd c = e \<and> 0 < e \<and> us \<noteq> [] \<and> (\<forall>u \<in> set us. 0 < u) \<and> Max (set us) = GetMaxMemoryPeak c)"

lemma shift_window:
  assumes "0 < e" "e \<le> ts" "ts < 2 ^ 62" "0 < interval" "interval \<le> 2 ^ 62"
  shows "i64 (truncate_duration (time_Sub ts e) interval + interval) = interval * ((ts - e) div interval) + interval"
proof -
  have d: "time_Sub ts e = ts - e" using assms by (simp add: time_Sub_def)
  have t: "ts - e - (ts - e) mod interval = interval * ((ts - e) div interval)" by (simp add: minus_mod_eq_mult_div)
  have "0 \<le> (ts - e) mod interval" using assms(4) by simp
  then have r: "0 \<le> interval * ((ts - e) div interval)" "interval * ((ts - e) div interval) < 2 ^ 62"
    using assms t pos_imp_zdiv_nonneg_iff [OF assms(4), of "ts - e"] by (simp_all only: zero_le_mult_iff) linarith+
  have "rem64 (ts - e) interval = (ts - e) mod interval" using assms by (auto simp: rem64_def sgn_if)
  then have "truncate_duration (ts - e) interval = interval * ((ts - e) div interval)"
    using assms(4) r t by (simp add: truncate_duration_def in64_def)
  then show ?thesis using r assms(4,5) by (simp add: d in64_def)
qed

lemma started_end: "cs_WindowEnd (started c t) = (if cs_WindowEnd c = 0 then t else cs_WindowEnd c)"
  by (simp add: started_def)

lemma next_window_peak: "GetMaxMemoryPeak (set_peak oom u (next_window config c t)) = u" if "0 < u"
  using that by (auto simp: set_peak_def next_window_def GetMaxMemoryPeak_def ResourceAmountMax_def Let_def)

lemma set_peak_raises: "GetMaxMemoryPeak c < u \<Longrightarrow> GetMaxMemoryPeak (set_peak oom u c) = u"
  by (auto simp: set_peak_def GetMaxMemoryPeak_def ResourceAmountMax_def split: if_splits)

lemma window_peak_add:
  assumes "us \<noteq> []"
  shows "window_peak (e, us @ [u]) = (e, max (Max (set us)) u)"
  using assms by (simp add: window_peak_def Max.union max.commute)

text \<open>One sample keeps the samples of the aggregator the peaks of the windows.\<close>

lemma window_inv_step:
  assumes inv: "window_inv c ws m" and x: "usable_sample x"
    and i: "0 < ac_MemoryAggregationInterval config" "ac_MemoryAggregationInterval config \<le> 2 ^ 62"
  shows "window_inv (outcome_state config c x oom)
    (if outcome c x oom = Rejected then ws else window_step (ac_MemoryAggregationInterval config) (us_MeasureStart x, us_Usage x) ws)
    (net (outcome_calls config c x oom) m)"
proof (cases ws)
  case Nil
  let ?i = "ac_MemoryAggregationInterval config" and ?ts = "us_MeasureStart x"
  have c: "cs_WindowEnd c = 0" and m: "m = {#}" using inv Nil by (simp_all add: window_inv_def)
  have x': "0 < us_Usage x" "0 < ?ts" "?ts < 2 ^ 62" using x by (simp_all add: usable_sample_def)
  have e: "cs_WindowEnd (next_window config (started c ?ts) ?ts) = ?ts + ?i"
    using shift_window [of ?ts ?ts ?i] x' i by (simp add: next_window_def started_end c Let_def)
  have "outcome c x oom = Rejected \<or> outcome c x oom = Opened"
    by (simp add: outcome_def Let_def started_end c)
  then show ?thesis
    using Nil inv m x'(1,2) i(1) e next_window_peak [OF x'(1)]
    by (auto simp: window_inv_def outcome_state_def outcome_calls_def Let_def memory_sample_def window_peak_def)
next
  case (Cons w r)
  obtain e us where w: "w = (e, us)" by fastforce
  let ?i = "ac_MemoryAggregationInterval config" and ?ts = "us_MeasureStart x" and ?u = "us_Usage x"
  have c: "cs_WindowEnd c = e" "0 < e" "us \<noteq> []" "\<forall>u \<in> set us. 0 < u" "Max (set us) = GetMaxMemoryPeak c"
    and m: "m = add_mset (e, GetMaxMemoryPeak c) (mset (map window_peak r))"
    using inv Cons w by (auto simp: window_inv_def window_peak_def)
  have pos: "0 < GetMaxMemoryPeak c" using c by (metis List.finite_set Max_in set_empty)
  have x': "0 < ?u" "0 < ?ts" "?ts < 2 ^ 62" using x by (simp_all add: usable_sample_def)
  have se: "cs_WindowEnd (started c ?ts) = e" using c(1,2) by (simp add: started_end)
  show ?thesis
  proof (cases "outcome c x oom")
    case Rejected
    then show ?thesis using inv by (simp add: outcome_state_def outcome_calls_def)
  next
    case Below
    then have "?ts < e" "?u \<le> GetMaxMemoryPeak c" using pos by (auto simp: outcome_def Let_def se split: if_splits)
    then show ?thesis
      using Below c m x'(1) window_peak_add [OF c(3)] by (simp add: Cons w window_inv_def outcome_state_def outcome_calls_def Let_def se max_def)
  next
    case Raised
    then have "?ts < e" "GetMaxMemoryPeak c < ?u" by (auto simp: outcome_def Let_def se split: if_splits)
    then show ?thesis
      using Raised c m x'(1) window_peak_add [OF c(3)] set_peak_raises [of "started c ?ts" ?u oom]
      by (simp add: Cons w window_inv_def outcome_state_def outcome_calls_def Let_def se max_def memory_sample_def)
  next
    case Opened
    then have le: "e \<le> ?ts" by (auto simp: outcome_def Let_def se split: if_splits)
    have n: "cs_WindowEnd (next_window config (started c ?ts) ?ts) = e + ?i * ((?ts - e) div ?i) + ?i"
      using shift_window [OF c(2) le x'(3) i] by (simp add: next_window_def se Let_def)
    have "0 \<le> ?i * ((?ts - e) div ?i)" using i(1) le by (simp add: pos_imp_zdiv_nonneg_iff)
    then show ?thesis
      using Opened le n c m x'(1) i(1) next_window_peak [OF x'(1)]
      by (simp add: Cons w window_inv_def outcome_state_def outcome_calls_def Let_def memory_sample_def window_peak_def)
  qed
qed

subsection \<open>One peak per window\<close>

text \<open>The accepted samples, the last state and the calls of a run; they do not depend on the aggregator.\<close>

fun run_calls ::
  "AggregationsConfig \<Rightarrow> (ContainerUsageSample \<times> bool) list \<Rightarrow> ContainerState \<Rightarrow> (int \<times> int) list \<times> ContainerState \<times> agg_call list" where
  "run_calls config [] c = ([], c, [])"
| "run_calls config ((x, oom) # xs) c =
    (case run_calls config xs (outcome_state config c x oom) of
      (acc, c', calls) \<Rightarrow>
        ((if outcome c x oom \<noteq> Rejected then [(us_MeasureStart x, us_Usage x)] else []) @ acc, c', outcome_calls config c x oom @ calls))"

lemma run_samples_calls:
  "run_calls config xs c = (acc, c', calls) \<Longrightarrow>
    run_samples ag config xs c s = map_option (\<lambda>s'. (acc, c', s')) (replay ag calls s)"
proof (induction xs arbitrary: c s acc calls)
  case (Cons p xs)
  obtain x oom where p: "p = (x, oom)" by fastforce
  obtain acc1 calls1 where r: "run_calls config xs (outcome_state config c x oom) = (acc1, c', calls1)"
    "acc = (if outcome c x oom \<noteq> Rejected then [(us_MeasureStart x, us_Usage x)] else []) @ acc1"
    "calls = outcome_calls config c x oom @ calls1"
    using Cons.prems by (auto simp: p split: prod.splits)
  then show ?case
    by (cases "replay ag (outcome_calls config c x oom) s")
      (auto simp: p addMemorySample_outcome replay_append Cons.IH [OF r(1)] option.map_comp comp_def)
qed simp

lemma run_calls_windows:
  assumes "run_calls config xs c = (acc, c', calls)" "window_inv c ws m" "list_all (\<lambda>(x, _). usable_sample x) xs"
    and i: "0 < ac_MemoryAggregationInterval config" "ac_MemoryAggregationInterval config \<le> 2 ^ 62"
  shows "window_inv c' (fold (window_step (ac_MemoryAggregationInterval config)) acc ws) (net calls m)"
  using assms(1-3)
proof (induction xs arbitrary: c acc calls ws m)
  case (Cons p xs)
  obtain x oom where p: "p = (x, oom)" by fastforce
  let ?i = "ac_MemoryAggregationInterval config" and ?c = "outcome_state config c x oom" and ?calls = "outcome_calls config c x oom"
  let ?here = "if outcome c x oom \<noteq> Rejected then [(us_MeasureStart x, us_Usage x)] else []"
  obtain acc1 calls1 where r: "run_calls config xs ?c = (acc1, c', calls1)" "acc = ?here @ acc1" "calls = ?calls @ calls1"
    using Cons.prems(1) by (auto simp: p split: prod.splits)
  have "window_inv ?c (fold (window_step ?i) ?here ws) (net ?calls m)"
    using window_inv_step [OF Cons.prems(2) _ i, of x oom] Cons.prems(3) by (cases "outcome c x oom = Rejected") (simp_all add: p)
  from Cons.IH [OF r(1) this] show ?case using Cons.prems(3) by (simp add: p r(2,3) net_append)
qed simp

lemma windows_descend:
  assumes "0 < interval"
  shows "sorted_wrt (>) (map fst (windows interval xs))"
proof -
  have "sorted_wrt (>) (map fst (window_step interval x ws))" if "sorted_wrt (>) (map fst ws)" for x ws
  proof (cases ws)
    case (Cons w r)
    obtain ts u e us where [simp]: "x = (ts, u)" "w = (e, us)" by fastforce
    have "0 \<le> interval * ((ts - e) div interval)" if "\<not> ts < e" using assms that by (simp add: pos_imp_zdiv_nonneg_iff)
    then show ?thesis using that assms Cons by fastforce
  qed (cases x; simp)
  then have "sorted_wrt (>) (map fst (fold (window_step interval) xs ws))" if "sorted_wrt (>) (map fst ws)" for ws
    using that by (induction xs arbitrary: ws) auto
  from this [of "[]"] show ?thesis by (simp add: windows_def)
qed

lemma descending_distinct: "sorted_wrt (>) (xs :: int list) \<Longrightarrow> distinct xs"
  by (induction xs) auto


subsection \<open>Out-of-memory events\<close>

lemma bump_amount: "MemoryAmountFromBytes OOMMinBumpUp = 104857600"
  by code_simp

text \<open>
  After an out-of-memory event that is recorded the peak of the window exceeds the request and the usage so far by at least
  100 MB, unless the window's peak was recorded as 0.
\<close>

theorem oom_raises_peak:
  assumes oom: "Cont_RecordOOM ag config c s ts req = Some (None, c', s')"
    and r: "0 \<le> req" "req \<le> MaxResourceAmount" "0 \<le> cs_memoryPeak c" "cs_memoryPeak c \<le> MaxResourceAmount"
    and z: "GetMaxMemoryPeak c \<noteq> 0 \<or> cs_WindowEnd c \<le> ts"
  shows "max req (cs_memoryPeak c) + 104857600 \<le> GetMaxMemoryPeak c'"
proof -
  define used where "used = ResourceAmountMax req (cs_memoryPeak c)"
  define needed where "needed = ResourceAmountMax (i64 (used + 104857600)) (ScaleResource used OOMBumpUpRatio)"
  let ?x = "memory_sample ts needed 0"
  have "in64 (used + 104857600)" using r by (auto simp: used_def ResourceAmountMax_def MaxResourceAmount_def in64_def)
  then have n: "max req (cs_memoryPeak c) + 104857600 \<le> needed"
    by (auto simp: needed_def used_def ResourceAmountMax_def)
  then have u: "0 < needed" using r by linarith
  have c': "c' = outcome_state config c ?x True" "outcome c ?x True \<noteq> Rejected"
    using oom by (auto simp: Cont_RecordOOM_def Let_def bump_amount used_def [symmetric] needed_def [symmetric]
        addMemorySample_outcome split: if_splits)
  show ?thesis
  proof (cases "outcome c ?x True")
    case Below
    then have "ts < cs_WindowEnd (started c ts)" "needed \<le> GetMaxMemoryPeak c"
      using z by (auto simp: outcome_def Let_def memory_sample_def started_end split: if_splits)
    then show ?thesis using c' Below n by (simp add: outcome_state_def memory_sample_def)
  next
    case Raised
    then have "GetMaxMemoryPeak (started c ts) < needed" by (auto simp: outcome_def Let_def memory_sample_def split: if_splits)
    then show ?thesis using c' Raised n set_peak_raises by (simp add: outcome_state_def memory_sample_def)
  next
    case Opened
    then show ?thesis using c' n next_window_peak [OF u] by (simp add: outcome_state_def memory_sample_def)
  qed (use c' in simp)
qed

subsection \<open>Examples\<close>

text \<open>An aggregator that keeps the samples in a list.\<close>

definition peak_list :: "(int \<times> int) list aggregator_ops" where
  "peak_list = \<lparr>ag_AddSample = (\<lambda>l x. Some ((us_MeasureStart x, us_Usage x) # l)),
    ag_SubtractSample = (\<lambda>l x. Some (remove1 (us_MeasureStart x, us_Usage x) l)), ag_Observe = Some\<rparr>"

definition sample_config :: AggregationsConfig where
  "sample_config = \<lparr>ac_MemoryAggregationInterval = 100, ac_MemoryAggregationIntervalCount = 8,
    ac_CPUHistogramOptions = linearHistogramOptions 0 10 1 (1 / 8), ac_MemoryHistogramOptions = linearHistogramOptions 1 10 1 (1 / 8),
    ac_HistogramBucketSizeGrowth = 0, ac_MemoryHistogramDecayHalfLife = 1000, ac_CPUHistogramDecayHalfLife = 1000\<rparr>"

definition sample_run :: "(ContainerUsageSample \<times> bool) list" where
  "sample_run = [(memory_sample 10 5 0, False), (memory_sample 20 9 0, True), (memory_sample 30 7 0, False), (memory_sample 250 3 0, False)]"


theorem oom_raises_peak_witness:
  "104857605 \<le> GetMaxMemoryPeak \<lparr>cs_Request = [], cs_LastCPUSampleStart = 0, cs_memoryPeak = 0, cs_oomPeak = 104857605, cs_WindowEnd = 110, cs_lastMemorySampleStart = 10\<rparr>"
proof -
  have "Cont_RecordOOM peak_list sample_config (NewContainerState []) [] 10 5 =
      Some (None, \<lparr>cs_Request = [], cs_LastCPUSampleStart = 0, cs_memoryPeak = 0, cs_oomPeak = 104857605, cs_WindowEnd = 110, cs_lastMemorySampleStart = 10\<rparr>,
        [(110, 104857605)])"
    by code_simp
  from oom_raises_peak [OF this] show ?thesis by (simp add: NewContainerState_def MaxResourceAmount_def)
qed

text \<open>
  A usage of 0 as the first memory sample of a window hides the rest of the window: later samples and out-of-memory
  events of the window are reported as added, but the peak that the aggregator has stays 0.
\<close>

theorem zero_sample_hides_peak:
  "(case run_samples peak_list sample_config [(memory_sample 10 0 0, False), (memory_sample 20 500 0, False), (memory_sample 30 900 0, True)]
       (NewContainerState []) [] of
     Some (acc, c, samples) \<Rightarrow>
       acc = [(10, 0), (20, 500), (30, 900)] \<and> samples = [(110, 0)] \<and> GetMaxMemoryPeak c = 0 \<and>
       map window_peak (windows 100 acc) = [(110, 900)]
   | None \<Rightarrow> False)"
  by code_simp

end
