(* ===== verification/Histogram_Props.thy ===== *)
theory Histogram_Props
  imports Histogram
begin

text \<open>
  What the histograms promise: the bounds of the non-empty buckets are exact after every operation, percentiles are total and
  monotone, exponents of the decay stay bounded, and checkpoints keep their scale.
\<close>

subsection \<open>The first and the last non-empty bucket\<close>

definition first_last :: "rat \<Rightarrow> rat list \<Rightarrow> nat \<Rightarrow> nat \<Rightarrow> bool" where
  "first_last eps ws lo hi \<longleftrightarrow>
    lo < length ws \<and> hi < length ws \<and> (\<forall>b < length ws. eps \<le> ws ! b \<longrightarrow> lo \<le> b \<and> b \<le> hi) \<and>
    (if \<exists>b < length ws. eps \<le> ws ! b then eps \<le> ws ! lo \<and> eps \<le> ws ! hi else lo = length ws - 1 \<and> hi = 0)"

definition hist_ok :: "histogram \<Rightarrow> bool" where
  "hist_ok h \<longleftrightarrow>
    0 < Epsilon (h_options h) \<and> f64 (Epsilon (h_options h)) = Epsilon (h_options h) \<and>
    int (length (bucketWeight h)) = NumBuckets (h_options h) \<and>
    (\<forall>w \<in> set (bucketWeight h). 0 \<le> w \<and> f64 w = w) \<and> 0 \<le> totalWeight h \<and> f64 (totalWeight h) = totalWeight h \<and>
    first_last (Epsilon (h_options h)) (bucketWeight h) (minBucket h) (maxBucket h)"

lemma raise_min_spec:
  "lo \<le> limit \<Longrightarrow> lo \<le> raise_min eps ws limit lo \<and> raise_min eps ws limit lo \<le> limit \<and>
    (\<forall>b. lo \<le> b \<and> b < raise_min eps ws limit lo \<longrightarrow> ws ! b < eps) \<and>
    (raise_min eps ws limit lo < limit \<longrightarrow> eps \<le> ws ! raise_min eps ws limit lo)"
proof (induction eps ws limit lo rule: raise_min.induct)
  case (1 eps ws limit lo)
  show ?case
  proof (cases "ws ! lo < eps \<and> lo < limit")
    case True
    then have r: "raise_min eps ws limit lo = raise_min eps ws limit (lo + 1)" by (simp add: raise_min.simps [of _ _ _ lo])
    have I: "lo + 1 \<le> raise_min eps ws limit (lo + 1)" "raise_min eps ws limit (lo + 1) \<le> limit"
      "\<forall>b. lo + 1 \<le> b \<and> b < raise_min eps ws limit (lo + 1) \<longrightarrow> ws ! b < eps"
      "raise_min eps ws limit (lo + 1) < limit \<longrightarrow> eps \<le> ws ! raise_min eps ws limit (lo + 1)"
      using 1(1) True by auto
    have "ws ! b < eps" if "lo \<le> b" "b < raise_min eps ws limit (lo + 1)" for b
      using that I(3) True by (cases "b = lo") auto
    then show ?thesis using I unfolding r by auto
  next
    case False
    then have "raise_min eps ws limit lo = lo" by (subst raise_min.simps) (simp only: if_False)
    then show ?thesis using False 1(2) by auto
  qed
qed

lemma lower_max_spec:
  "lower_max eps ws hi \<le> hi \<and> (\<forall>b. lower_max eps ws hi < b \<and> b \<le> hi \<longrightarrow> ws ! b < eps) \<and>
    (0 < lower_max eps ws hi \<longrightarrow> eps \<le> ws ! lower_max eps ws hi)"
proof (induction hi)
  case (Suc hi)
  then show ?case by (auto simp: le_Suc_eq)
qed simp

text \<open>The loops find the ends again when weights inside have decreased.\<close>

lemma first_last_update:
  assumes "lo < length ws" "hi < length ws" "\<forall>b < length ws. eps \<le> ws ! b \<longrightarrow> lo \<le> b \<and> b \<le> hi"
  shows "first_last eps ws (raise_min eps ws (length ws - 1) lo) (lower_max eps ws hi)"
proof -
  let ?l = "raise_min eps ws (length ws - 1) lo" and ?u = "lower_max eps ws hi"
  have L: "lo \<le> ?l" "?l \<le> length ws - 1" "\<And>b. lo \<le> b \<Longrightarrow> b < ?l \<Longrightarrow> ws ! b < eps" "?l < length ws - 1 \<Longrightarrow> eps \<le> ws ! ?l"
    using raise_min_spec [of lo "length ws - 1" eps ws] assms(1) by auto
  have U: "?u \<le> hi" "\<And>b. ?u < b \<Longrightarrow> b \<le> hi \<Longrightarrow> ws ! b < eps" "0 < ?u \<Longrightarrow> eps \<le> ws ! ?u"
    using lower_max_spec [of eps ws hi] by auto
  have in_range: "?l \<le> b \<and> b \<le> ?u" if "b < length ws" "eps \<le> ws ! b" for b
    using that assms(3) L(3) [of b] U(2) [of b] by (meson linorder_not_le)
  have ends: "eps \<le> ws ! ?l \<and> eps \<le> ws ! ?u" if b: "b < length ws" "eps \<le> ws ! b" for b
  proof -
    have "b = ?l" if "\<not> ?l < length ws - 1" using that in_range [OF b] b(1) by linarith
    then have "eps \<le> ws ! ?l" using L(4) b(2) by metis
    moreover have "eps \<le> ws ! ?u" using U(3) in_range [OF b] b by (cases "0 < ?u") auto
    ultimately show ?thesis by simp
  qed
  have none: "?l = length ws - 1 \<and> ?u = 0" if "\<not> (\<exists>b < length ws. eps \<le> ws ! b)"
    using that L(2,4) U(1,3) assms(1,2) by (metis One_nat_def Suc_pred le_neq_implies_less less_Suc_eq_le neq0_conv order_le_less_trans)
  show ?thesis
    using in_range ends none L(2) U(1) assms(1,2) unfolding first_last_def by (auto split: if_splits)
qed

text \<open>One bucket grows: the condition of \<open>AddSample\<close>.\<close>

lemma first_last_raise:
  assumes fl: "first_last eps ws lo hi" and b: "b < length ws" and v: "ws ! b \<le> v"
  shows "first_last eps (ws[b := v]) (if b < lo \<and> eps \<le> v then b else lo) (if b > hi \<and> eps \<le> v then b else hi)"
proof (cases "eps \<le> v")
  case False
  then have "\<not> eps \<le> ws ! b" using v by linarith
  then have "(eps \<le> ws[b := v] ! c) = (eps \<le> ws ! c)" for c
    using False b by (cases "c = b") auto
  then show ?thesis using fl False by (simp add: first_last_def)
next
  case True
  let ?ws = "ws[b := v]"
  let ?l = "if b < lo then b else lo" and ?u = "if b > hi then b else hi"
  have at_b: "eps \<le> ?ws ! b" using True b by simp
  have keep: "eps \<le> ?ws ! c" if "eps \<le> ws ! c" for c using that True b by (cases "c = b") auto
  have old: "eps \<le> ws ! c" if "eps \<le> ?ws ! c" "c \<noteq> b" for c using that by simp
  have R: "\<And>c. c < length ws \<Longrightarrow> eps \<le> ws ! c \<Longrightarrow> lo \<le> c \<and> c \<le> hi" "lo < length ws" "hi < length ws"
    using fl by (auto simp: first_last_def)
  have ends: "eps \<le> ?ws ! ?l \<and> eps \<le> ?ws ! ?u"
  proof (cases "\<exists>c < length ws. eps \<le> ws ! c")
    case True
    then have "eps \<le> ws ! lo" "eps \<le> ws ! hi" using fl by (auto simp: first_last_def)
    then show ?thesis using keep at_b by auto
  next
    case False
    then have "lo = length ws - 1" "hi = 0" using fl unfolding first_last_def by (simp_all split: if_splits)
    then have "?l = b" "?u = b" using b by auto
    then show ?thesis using at_b by simp
  qed
  have "?l \<le> c \<and> c \<le> ?u" if "c < length ws" "eps \<le> ?ws ! c" for c
    using R(1) [of c] old [of c] that by (cases "c = b") auto
  moreover have "\<exists>c < length ws. eps \<le> ?ws ! c" using at_b b by blast
  ultimately show ?thesis using ends True R(2,3) b by (simp add: first_last_def)
qed

text \<open>Merging: where either histogram has a weight, the sum has at least that weight.\<close>

lemma first_last_merge:
  assumes fl: "first_last eps ws lo hi" "first_last eps vs lo' hi'" and len: "length us = length ws" "length vs = length ws"
    and u: "\<And>b. b < length ws \<Longrightarrow> ws ! b \<le> us ! b" "\<And>b. lo' \<le> b \<Longrightarrow> b \<le> hi' \<Longrightarrow> vs ! b \<le> us ! b"
    and o: "\<And>b. b < length ws \<Longrightarrow> b < lo' \<or> hi' < b \<Longrightarrow> us ! b = ws ! b"
  shows "first_last eps us (if lo' < lo then lo' else lo) (if hi' > hi then hi' else hi)"
proof -
  let ?l = "if lo' < lo then lo' else lo" and ?u = "if hi' > hi then hi' else hi"
  have R: "\<And>c. c < length ws \<Longrightarrow> eps \<le> ws ! c \<Longrightarrow> lo \<le> c \<and> c \<le> hi" "lo < length ws" "hi < length ws"
    "lo' < length ws" "hi' < length ws"
    using fl len by (auto simp: first_last_def)
  have inr: "?l \<le> c \<and> c \<le> ?u" if "c < length ws" "eps \<le> us ! c" for c
  proof (cases "lo' \<le> c \<and> c \<le> hi'")
    case False
    then have "us ! c = ws ! c" using o [of c] that(1) by linarith
    then show ?thesis using R(1) [of c] that by auto
  qed auto
  show ?thesis
  proof (cases "\<exists>b < length ws. eps \<le> us ! b")
    case True
    have V: "eps \<le> vs ! lo' \<and> eps \<le> vs ! hi' \<and> lo' \<le> hi' \<or> lo' = length ws - 1 \<and> hi' = 0"
      using fl(2) len unfolding first_last_def by (auto split: if_splits)
    have W: "eps \<le> ws ! lo \<and> eps \<le> ws ! hi \<or> lo = length ws - 1 \<and> hi = 0"
      using fl(1) unfolding first_last_def by (auto split: if_splits)
    have v: "eps \<le> us ! lo' \<and> eps \<le> us ! hi'" if "eps \<le> vs ! lo' \<and> eps \<le> vs ! hi' \<and> lo' \<le> hi'"
      using that u(2) [of lo'] u(2) [of hi'] by linarith
    have w: "eps \<le> us ! lo \<and> eps \<le> us ! hi" if "eps \<le> ws ! lo \<and> eps \<le> ws ! hi"
      using that u(1) [of lo] u(1) [of hi] R by linarith
    obtain b where b: "b < length ws" "eps \<le> us ! b" using True by blast
    have ends: "eps \<le> us ! ?l \<and> eps \<le> us ! ?u"
    proof (cases "lo = length ws - 1 \<and> hi = 0"; cases "lo' = length ws - 1 \<and> hi' = 0")
      assume "lo = length ws - 1 \<and> hi = 0" "lo' = length ws - 1 \<and> hi' = 0"
      then have "b = ?l" "b = ?u" using inr [OF b] b(1) by auto
      then show ?thesis using b(2) by simp
    next
      assume e: "lo = length ws - 1 \<and> hi = 0" "\<not> (lo' = length ws - 1 \<and> hi' = 0)"
      then have "?l = lo'" "?u = hi'" using R(4) by auto
      moreover have "eps \<le> us ! lo' \<and> eps \<le> us ! hi'" using v V e(2) by blast
      ultimately show ?thesis by simp
    next
      assume e: "\<not> (lo = length ws - 1 \<and> hi = 0)" "lo' = length ws - 1 \<and> hi' = 0"
      then have "?l = lo" "?u = hi" using R(2) by auto
      moreover have "eps \<le> us ! lo \<and> eps \<le> us ! hi" using w W e(1) by blast
      ultimately show ?thesis by simp
    next
      assume "\<not> (lo = length ws - 1 \<and> hi = 0)" "\<not> (lo' = length ws - 1 \<and> hi' = 0)"
      then show ?thesis using v w V W by auto
    qed
    then show ?thesis using inr True R len by (simp add: first_last_def)
  next
    case False
    have "\<not> eps \<le> ws ! b" if "b < length ws" for b using False that u(1) [OF that] order_trans by blast
    then have "lo = length ws - 1" "hi = 0" using fl(1) unfolding first_last_def by (auto split: if_splits)
    moreover have "lo' = length ws - 1 \<and> hi' = 0"
      using fl(2) False u(2) [of lo'] R len order_trans unfolding first_last_def by (metis (no_types, lifting) order_refl)
    ultimately show ?thesis using False R len by (auto simp: first_last_def)
  qed
qed

subsection \<open>Every operation keeps the bounds exact\<close>

lemma NewHistogram_ok:
  assumes "NewHistogram options = Some h" "0 < Epsilon options" "f64 (Epsilon options) = Epsilon options"
  shows "hist_ok h \<and> h_options h = options"
  using assms by (auto simp: NewHistogram_def hist_ok_def first_last_def split: if_splits)

lemma set_update_ok: "\<forall>w \<in> set ws. P w \<Longrightarrow> P v \<Longrightarrow> \<forall>w \<in> set (ws[b := v]). P w"
  using set_update_subset_insert [of ws b v] by blast

lemma w_add_ge: "f64 v = v \<Longrightarrow> 0 \<le> w \<Longrightarrow> v \<le> w_add v w"
  using f64_mono [of v "v + w"] by (simp add: w_add_def)

lemma w_add_ge2: "f64 v = v \<Longrightarrow> 0 \<le> w \<Longrightarrow> v \<le> w_add w v"
  using w_add_ge [of v w] by (simp add: w_add_def add.commute)

lemma Hist_AddSample_ok:
  assumes "Hist_AddSample mo h val w = Some h'" "hist_ok h"
  shows "hist_ok h' \<and> h_options h' = h_options h"
proof -
  define b where "b = nat (FindBucket mo (h_options h) val)"
  define v where "v = w_add (bucketWeight h ! b) w"
  let ?eps = "Epsilon (h_options h)" and ?ws = "bucketWeight h"
  have w: "0 \<le> w" and b: "b < length ?ws"
    and h': "h' = h\<lparr>bucketWeight := ?ws[b := v], totalWeight := w_add (totalWeight h) w,
           minBucket := (if b < minBucket h \<and> v \<ge> ?eps then b else minBucket h),
           maxBucket := (if b > maxBucket h \<and> v \<ge> ?eps then b else maxBucket h)\<rparr>"
    using assms(1) by (auto simp: Hist_AddSample_def Let_def b_def v_def split: if_splits)
  have ok: "0 \<le> ?ws ! b \<and> f64 (?ws ! b) = ?ws ! b" using assms(2) b by (simp add: hist_ok_def)
  then have v: "?ws ! b \<le> v" "f64 v = v" using w_add_ge [of "?ws ! b" w] w by (simp_all add: v_def w_add_def)
  have "first_last ?eps (?ws[b := v]) (minBucket h') (maxBucket h')"
    using first_last_raise [OF _ b v(1)] assms(2) by (simp add: h' hist_ok_def)
  moreover have "\<forall>w \<in> set (?ws[b := v]). 0 \<le> w \<and> f64 w = w"
    using assms(2) ok v by (intro set_update_ok) (auto simp: hist_ok_def)
  moreover have "0 \<le> w_add (totalWeight h) w \<and> f64 (w_add (totalWeight h) w) = w_add (totalWeight h) w" using assms(2) w by (simp add: hist_ok_def w_add_def f64_nonneg)
  ultimately show ?thesis using assms(2) by (simp add: h' hist_ok_def)
qed

lemma updateMinAndMaxBucket_keeps [simp]:
  "h_options (updateMinAndMaxBucket h) = h_options h" "bucketWeight (updateMinAndMaxBucket h) = bucketWeight h"
  "totalWeight (updateMinAndMaxBucket h) = totalWeight h"
  by (simp_all add: updateMinAndMaxBucket_def Let_def)

lemma safeSubtract_range:
  assumes "0 < eps" "f64 v = v" "0 \<le> v" "0 \<le> w"
  shows "0 \<le> safeSubtract v w eps" "safeSubtract v w eps \<le> v" "f64 (safeSubtract v w eps) = safeSubtract v w eps"
  using f64_mono [of "v - w" v] assms by (auto simp: safeSubtract_def w_sub_def Let_def)

lemma hist_ok_range:
  assumes "hist_ok h"
  shows "minBucket h < length (bucketWeight h)" "maxBucket h < length (bucketWeight h)"
    "\<And>b. b < length (bucketWeight h) \<Longrightarrow> Epsilon (h_options h) \<le> bucketWeight h ! b \<Longrightarrow> minBucket h \<le> b \<and> b \<le> maxBucket h"
  using assms by (auto simp: hist_ok_def first_last_def)

lemma updateMinAndMaxBucket_ok:
  assumes h: "hist_ok h" and vs: "length vs = length (bucketWeight h)" "\<forall>w \<in> set vs. 0 \<le> w \<and> f64 w = w" "0 \<le> t" "f64 t = t"
    and R: "\<And>b. b < length vs \<Longrightarrow> Epsilon (h_options h) \<le> vs ! b \<Longrightarrow> minBucket h \<le> b \<and> b \<le> maxBucket h"
  shows "hist_ok (updateMinAndMaxBucket (h\<lparr>bucketWeight := vs, totalWeight := t\<rparr>))"
proof -
  have n: "nat (NumBuckets (h_options h)) = length vs" using h vs(1) unfolding hist_ok_def by linarith
  have "first_last (Epsilon (h_options h)) vs (raise_min (Epsilon (h_options h)) vs (length vs - 1) (minBucket h))
    (lower_max (Epsilon (h_options h)) vs (maxBucket h))"
    using hist_ok_range(1,2) [OF h] vs(1) R by (intro first_last_update) auto
  then show ?thesis using h vs by (simp add: hist_ok_def updateMinAndMaxBucket_def Let_def n)
qed

lemma Hist_SubtractSample_ok:
  assumes "Hist_SubtractSample mo h val w = Some h'" "hist_ok h"
  shows "hist_ok h' \<and> h_options h' = h_options h"
proof -
  define b where "b = nat (FindBucket mo (h_options h) val)"
  let ?eps = "Epsilon (h_options h)" and ?ws = "bucketWeight h"
  define v where "v = safeSubtract (?ws ! b) w ?eps"
  define g where "g = h\<lparr>bucketWeight := ?ws[b := v], totalWeight := safeSubtract (totalWeight h) w ?eps\<rparr>"
  have "h\<lparr>totalWeight := safeSubtract (totalWeight h) w ?eps, bucketWeight := ?ws[b := v]\<rparr> = g" by (simp add: g_def)
  then have w: "0 \<le> w" and b: "b < length ?ws" and h': "h' = updateMinAndMaxBucket g"
    using assms(1) by (auto simp: Hist_SubtractSample_def Let_def b_def v_def split: if_splits)
  have E: "0 < ?eps" "f64 ?eps = ?eps" "\<forall>w \<in> set ?ws. 0 \<le> w \<and> f64 w = w" using assms(2) by (auto simp: hist_ok_def)
  have v: "0 \<le> v" "v \<le> ?ws ! b" "f64 v = v" using safeSubtract_range [OF E(1) _ _ w] E(3) b by (simp_all add: v_def)
  have T: "0 \<le> safeSubtract (totalWeight h) w ?eps" "f64 (safeSubtract (totalWeight h) w ?eps) = safeSubtract (totalWeight h) w ?eps"
    using safeSubtract_range [OF E(1) _ _ w, of "totalWeight h"] assms(2) by (simp_all add: hist_ok_def)
  have R: "minBucket h \<le> c \<and> c \<le> maxBucket h" if "c < length ?ws" "?eps \<le> ?ws[b := v] ! c" for c
    using hist_ok_range(3) [OF assms(2), of c] that v(2) b by (cases "c = b") auto
  have "hist_ok (updateMinAndMaxBucket g)"
    unfolding g_def using E(3) T v R by (intro updateMinAndMaxBucket_ok [OF assms(2)] set_update_ok) auto
  then show ?thesis by (simp add: h') (simp add: g_def)
qed

lemma scale_ok:
  assumes "scale h factor = Some h'" "hist_ok h"
  shows "hist_ok h' \<and> h_options h' = h_options h"
proof -
  let ?eps = "Epsilon (h_options h)" and ?ws = "bucketWeight h"
  define vs where "vs = map (\<lambda>b. if minBucket h \<le> b \<and> b \<le> maxBucket h then w_mul (?ws ! b) factor else ?ws ! b) [0..<length ?ws]"
  define g where "g = h\<lparr>bucketWeight := vs, totalWeight := w_mul (totalWeight h) factor\<rparr>"
  have f: "0 \<le> factor" and h': "h' = updateMinAndMaxBucket g"
    using assms(1) by (auto simp: scale_def vs_def g_def split: if_splits)
  have E: "0 < ?eps" "f64 ?eps = ?eps" "\<And>w. w \<in> set ?ws \<Longrightarrow> 0 \<le> w \<and> f64 w = w" "0 \<le> totalWeight h"
    using assms(2) by (auto simp: hist_ok_def)
  have len: "length vs = length ?ws" by (simp add: vs_def)
  have T: "0 \<le> w_mul (totalWeight h) factor" "f64 (w_mul (totalWeight h) factor) = w_mul (totalWeight h) factor"
    using E(4) f by (simp_all add: w_mul_def f64_nonneg)
  have V: "\<forall>w \<in> set vs. 0 \<le> w \<and> f64 w = w"
    using E(3) f by (auto simp: vs_def w_mul_def f64_nonneg)
  have R: "minBucket h \<le> c \<and> c \<le> maxBucket h" if "c < length ?ws" "?eps \<le> vs ! c" for c
    using hist_ok_range(3) [OF assms(2), of c] that by (auto simp: vs_def split: if_splits)
  have "hist_ok (updateMinAndMaxBucket g)"
    unfolding g_def using T V R len by (intro updateMinAndMaxBucket_ok [OF assms(2)]) auto
  then show ?thesis by (simp add: h') (simp add: g_def)
qed

lemma fold_merge:
  "length (fold (\<lambda>b ws. ws[b := f (ws ! b) b]) bs ws) = length ws"
  "distinct bs \<Longrightarrow> c < length ws \<Longrightarrow>
    fold (\<lambda>b ws. ws[b := f (ws ! b) b]) bs ws ! c = (if c \<in> set bs then f (ws ! c) c else ws ! c)"
proof -
  show "length (fold (\<lambda>b ws. ws[b := f (ws ! b) b]) bs ws) = length ws" by (induction bs arbitrary: ws) auto
  show "distinct bs \<Longrightarrow> c < length ws \<Longrightarrow>
    fold (\<lambda>b ws. ws[b := f (ws ! b) b]) bs ws ! c = (if c \<in> set bs then f (ws ! c) c else ws ! c)"
  proof (induction bs arbitrary: ws)
    case (Cons a bs)
    then show ?case by (cases "c = a") auto
  qed simp
qed

lemma Hist_Merge_ok:
  assumes "Hist_Merge h g = Some h'" "hist_ok h" "hist_ok g"
  shows "hist_ok h' \<and> h_options h' = h_options h"
proof -
  let ?ws = "bucketWeight h" and ?vs = "bucketWeight g" and ?bs = "[minBucket g..<maxBucket g + 1]"
  define us where "us = fold (\<lambda>b ws. ws[b := w_add (ws ! b) (?vs ! b)]) ?bs ?ws"
  have opt: "h_options g = h_options h"
    and h': "h' = h\<lparr>bucketWeight := us, totalWeight := w_add (totalWeight h) (totalWeight g),
       minBucket := (if minBucket g < minBucket h then minBucket g else minBucket h),
       maxBucket := (if maxBucket g > maxBucket h then maxBucket g else maxBucket h)\<rparr>"
    using assms(1) by (auto simp: Hist_Merge_def us_def split: if_splits)
  have len: "length us = length ?ws" "length ?vs = length ?ws"
    using assms(2,3) fold_merge(1) [of "\<lambda>w b. w_add w (?vs ! b)" ?bs ?ws] opt by (auto simp: hist_ok_def us_def)
  have us: "us ! b = (if minBucket g \<le> b \<and> b \<le> maxBucket g then w_add (?ws ! b) (?vs ! b) else ?ws ! b)" if "b < length ?ws" for b
    using fold_merge(2) [of ?bs b ?ws "\<lambda>w b. w_add w (?vs ! b)"] that by (auto simp: us_def)
  have W: "0 \<le> ?ws ! b \<and> f64 (?ws ! b) = ?ws ! b" "0 \<le> ?vs ! b \<and> f64 (?vs ! b) = ?vs ! b" if "b < length ?ws" for b
    using assms(2,3) that len(2) by (auto simp: hist_ok_def)
  have ge: "?ws ! b \<le> us ! b" "minBucket g \<le> b \<Longrightarrow> b \<le> maxBucket g \<Longrightarrow> ?vs ! b \<le> us ! b" if "b < length ?ws" for b
    using us [OF that] W [OF that] w_add_ge [of "?ws ! b" "?vs ! b"] w_add_ge2 [of "?vs ! b" "?ws ! b"] by auto
  have u: "\<forall>w \<in> set us. 0 \<le> w \<and> f64 w = w"
    using us W len(1) by (auto simp: in_set_conv_nth w_add_def f64_nonneg)
  have fl: "first_last (Epsilon (h_options h)) ?ws (minBucket h) (maxBucket h)"
    "first_last (Epsilon (h_options h)) ?vs (minBucket g) (maxBucket g)"
    using assms(2,3) opt by (auto simp: hist_ok_def)
  have hi: "maxBucket g < length ?ws" using fl(2) len(2) by (simp add: first_last_def)
  have "first_last (Epsilon (h_options h)) us (minBucket h') (maxBucket h')"
  proof -
    have "us ! b = ?ws ! b" if "b < length ?ws" "b < minBucket g \<or> maxBucket g < b" for b
      using us [OF that(1)] that(2) by auto
    then show ?thesis
      using first_last_merge [OF fl len] ge hi by (simp add: h')
  qed
  moreover have "0 \<le> w_add (totalWeight h) (totalWeight g)" "f64 (w_add (totalWeight h) (totalWeight g)) = w_add (totalWeight h) (totalWeight g)"
    using assms(2,3) by (simp_all add: hist_ok_def w_add_def f64_nonneg)
  ultimately show ?thesis using assms(2) u len(1) by (simp add: h' hist_ok_def)
qed

text \<open>Everything that can be built from new histograms by the operations of the interface other than loading a checkpoint.\<close>

inductive hist_built :: "math_ops \<Rightarrow> HistogramOptions \<Rightarrow> decayingHistogram \<Rightarrow> bool" for mo options where
  built_new: "NewDecayingHistogram options halfLife = Some d \<Longrightarrow> hist_built mo options d"
| built_add: "hist_built mo options d \<Longrightarrow> Dec_AddSample mo d val w time = Some d' \<Longrightarrow> hist_built mo options d'"
| built_subtract: "hist_built mo options d \<Longrightarrow> Dec_SubtractSample mo d val w time = Some d' \<Longrightarrow> hist_built mo options d'"
| built_merge: "hist_built mo options d \<Longrightarrow> hist_built mo options e \<Longrightarrow> Dec_Merge d e = Some (d', e') \<Longrightarrow> hist_built mo options d'"
| built_merged: "hist_built mo options d \<Longrightarrow> hist_built mo options e \<Longrightarrow> Dec_Merge d e = Some (d', e') \<Longrightarrow> hist_built mo options e'"

definition dec_ok :: "HistogramOptions \<Rightarrow> decayingHistogram \<Rightarrow> bool" where
  "dec_ok options d \<longleftrightarrow> hist_ok (dh_histogram d) \<and> h_options (dh_histogram d) = options"

lemma shift_ok: "shiftReferenceTimestamp d t = Some d' \<Longrightarrow> dec_ok options d \<Longrightarrow> dec_ok options d'"
  using scale_ok by (auto simp: shiftReferenceTimestamp_def dec_ok_def Let_def)

lemma decayFactor_ok: "decayFactor mo d t = Some (f, d') \<Longrightarrow> dec_ok options d \<Longrightarrow> dec_ok options d'"
  using shift_ok by (auto simp: decayFactor_def Let_def split: if_splits option.splits)

lemma Dec_AddSample_ok: "Dec_AddSample mo d val w t = Some d' \<Longrightarrow> dec_ok options d \<Longrightarrow> dec_ok options d'"
  using decayFactor_ok [of mo d t] Hist_AddSample_ok
  by (fastforce simp: Dec_AddSample_def dec_ok_def split: option.splits)

lemma Dec_SubtractSample_ok: "Dec_SubtractSample mo d val w t = Some d' \<Longrightarrow> dec_ok options d \<Longrightarrow> dec_ok options d'"
  using decayFactor_ok [of mo d t] Hist_SubtractSample_ok
  by (fastforce simp: Dec_SubtractSample_def dec_ok_def split: option.splits)

lemma Dec_Merge_ok:
  assumes "Dec_Merge d e = Some (d', e')" "dec_ok options d" "dec_ok options e"
  shows "dec_ok options d' \<and> dec_ok options e'"
proof -
  obtain d1 where d1: "dec_ok options d1" "dec_ok options e'" "map_option (\<lambda>h. d1\<lparr>dh_histogram := h\<rparr>) (Hist_Merge (dh_histogram d1) (dh_histogram e')) = Some d'"
    using assms by (auto simp: Dec_Merge_def split: if_splits option.splits) (blast dest: shift_ok)+
  then show ?thesis using Hist_Merge_ok by (auto simp: dec_ok_def)
qed

lemma hist_built_ok:
  assumes "hist_built mo options d" "0 < Epsilon options" "f64 (Epsilon options) = Epsilon options"
  shows "dec_ok options d"
  using assms
proof (induction rule: hist_built.induct)
  case (built_new halfLife d)
  then show ?case using NewHistogram_ok by (auto simp: NewDecayingHistogram_def dec_ok_def)
qed (auto dest: Dec_AddSample_ok Dec_SubtractSample_ok Dec_Merge_ok)

lemma hd_filter_upt:
  assumes "lo < n" "P lo" "\<And>b. b < n \<Longrightarrow> P b \<Longrightarrow> lo \<le> b"
  shows "hd (filter P [0..<n]) = lo"
proof -
  have "[0..<n] = [0..<lo] @ lo # [Suc lo..<n]"
    using upt_add_eq_append [of 0 lo "n - lo"] upt_conv_Cons [OF assms(1)] assms(1) by simp
  moreover have "\<not> P b" if "b < lo" for b using assms(1) assms(3) [of b] that by linarith
  then have "filter P [0..<lo] = []" by (simp add: filter_empty_conv)
  ultimately show ?thesis using assms(2) by simp
qed

lemma last_filter_upt:
  assumes "hi < n" "P hi" "\<And>b. b < n \<Longrightarrow> P b \<Longrightarrow> b \<le> hi"
  shows "last (filter P [0..<n]) = hi"
proof -
  have "[0..<n] = [0..<hi] @ hi # [Suc hi..<n]"
    using upt_add_eq_append [of 0 hi "n - hi"] upt_conv_Cons [OF assms(1)] assms(1) by simp
  moreover have "filter P [Suc hi..<n] = []" using assms(3) by (fastforce simp: filter_empty_conv)
  ultimately show ?thesis using assms(2) by simp
qed

definition nonempty_buckets :: "histogram \<Rightarrow> nat list" where
  "nonempty_buckets h = filter (\<lambda>b. Epsilon (h_options h) \<le> bucketWeight h ! b) [0..<length (bucketWeight h)]"

lemma hist_ok_nonempty:
  assumes "hist_ok h"
  shows "minBucket h = (if nonempty_buckets h = [] then length (bucketWeight h) - 1 else hd (nonempty_buckets h))"
    "maxBucket h = (if nonempty_buckets h = [] then 0 else last (nonempty_buckets h))"
    "Hist_IsEmpty h \<longleftrightarrow> nonempty_buckets h = []"
proof -
  let ?P = "\<lambda>b. Epsilon (h_options h) \<le> bucketWeight h ! b" and ?n = "length (bucketWeight h)"
  have fl: "first_last (Epsilon (h_options h)) (bucketWeight h) (minBucket h) (maxBucket h)" using assms by (simp add: hist_ok_def)
  note R = hist_ok_range [OF assms]
  have ne: "nonempty_buckets h = [] \<longleftrightarrow> \<not> (\<exists>b < ?n. ?P b)" by (auto simp: nonempty_buckets_def filter_empty_conv)
  show "minBucket h = (if nonempty_buckets h = [] then ?n - 1 else hd (nonempty_buckets h))"
    using fl R(1) R(3) hd_filter_upt [of "minBucket h" ?n ?P] unfolding ne
    by (auto simp: first_last_def nonempty_buckets_def)
  show "maxBucket h = (if nonempty_buckets h = [] then 0 else last (nonempty_buckets h))"
    using fl R(2) R(3) last_filter_upt [of "maxBucket h" ?n ?P] unfolding ne
    by (auto simp: first_last_def nonempty_buckets_def)
  show "Hist_IsEmpty h \<longleftrightarrow> nonempty_buckets h = []"
  proof (cases "\<exists>b < ?n. ?P b")
    case True
    then have "?P (minBucket h)" using fl by (simp add: first_last_def)
    then show ?thesis using True unfolding ne by (simp add: Hist_IsEmpty_def)
  next
    case False
    then have "\<not> ?P (minBucket h)" using R(1) by blast
    then show ?thesis using False unfolding ne by (simp add: Hist_IsEmpty_def)
  qed
qed

text \<open>
  C35: In every decaying histogram that is built from new ones by adding and subtracting samples and by merging (in any
  order, with any shifts of the reference time in between), no weight is negative, \<open>minBucket\<close> is the first bucket whose
  weight reaches epsilon and \<open>maxBucket\<close> the last one (the last bucket and 0 when there is none), and \<open>IsEmpty\<close> says exactly
  that no bucket reaches epsilon.
\<close>

theorem histogram_bounds_exact:
  assumes "hist_built mo options d" "0 < Epsilon options" "f64 (Epsilon options) = Epsilon options"
  shows "(\<forall>w \<in> set (bucketWeight (dh_histogram d)). 0 \<le> w) \<and>
    minBucket (dh_histogram d) =
      (if nonempty_buckets (dh_histogram d) = [] then length (bucketWeight (dh_histogram d)) - 1
       else hd (nonempty_buckets (dh_histogram d))) \<and>
    maxBucket (dh_histogram d) =
      (if nonempty_buckets (dh_histogram d) = [] then 0 else last (nonempty_buckets (dh_histogram d))) \<and>
    (Dec_IsEmpty d \<longleftrightarrow> nonempty_buckets (dh_histogram d) = [])"
proof -
  have ok: "hist_ok (dh_histogram d)" using hist_built_ok [OF assms] by (simp add: dec_ok_def)
  then have "\<forall>w \<in> set (bucketWeight (dh_histogram d)). 0 \<le> w" by (auto simp: hist_ok_def)
  then show ?thesis using hist_ok_nonempty [OF ok] unfolding Dec_IsEmpty_def by blast
qed

subsection \<open>Percentiles\<close>

lemma find_percentile_range:
  "lo \<le> hi \<Longrightarrow> lo \<le> find_percentile ws t hi lo s \<and> find_percentile ws t hi lo s \<le> hi"
proof (induction ws t hi lo s rule: find_percentile.induct)
  case (1 ws t hi lo s)
  show ?case
  proof (cases "lo < hi \<and> w_add s (ws ! lo) < t")
    case True
    then show ?thesis using 1(1) [OF _ refl] by (subst (1 2) find_percentile.simps) (auto simp: Let_def)
  next
    case False
    then show ?thesis using 1(2) by (subst (1 2) find_percentile.simps) (auto simp: Let_def)
  qed
qed

lemma find_percentile_mono:
  "t \<le> t' \<Longrightarrow> lo \<le> hi \<Longrightarrow> find_percentile ws t hi lo s \<le> find_percentile ws t' hi lo s"
proof (induction ws t hi lo s rule: find_percentile.induct)
  case (1 ws t hi lo s)
  show ?case
  proof (cases "lo < hi \<and> w_add s (ws ! lo) < t")
    case True
    then have "w_add s (ws ! lo) < t'" using 1(2) by linarith
    then show ?thesis using 1(1) [OF _ refl] 1(2) True
      by (subst find_percentile.simps, subst (2) find_percentile.simps) (auto simp: Let_def)
  next
    case False
    then have "find_percentile ws t hi lo s = lo" by (subst find_percentile.simps) (auto simp: Let_def)
    then show ?thesis using find_percentile_range [OF 1(3)] by simp
  qed
qed

text \<open>The documented behaviour of \<^verbatim>\<open>math.Pow\<close> that bucket boundaries rely on: powers of a ratio over 1 grow with the exponent.\<close>

definition pow_grows :: "math_ops \<Rightarrow> bool" where
  "pow_grows mo \<longleftrightarrow> (\<forall>r i j. r > 1 \<longrightarrow> 0 \<le> i \<longrightarrow> i \<le> j \<longrightarrow> 1 \<le> math_Pow mo r i \<and> math_Pow mo r i \<le> math_Pow mo r j)"

fun sizes_positive :: "HistogramOptions \<Rightarrow> bool" where
  "sizes_positive (linearHistogramOptions _ _ bucketSize _) = (bucketSize > 0)"
| "sizes_positive (exponentialHistogramOptions _ _ firstBucketSize ratio _) = (firstBucketSize > 0 \<and> ratio > 1)"

lemma float64_mono: "i \<le> j \<Longrightarrow> float64 i \<le> float64 j"
  by (simp add: float64_def fl_mono)

lemma float64_ge_0: "0 \<le> i \<Longrightarrow> 0 \<le> float64 i"
  using float64_mono [of 0 i] by (simp add: float64_def)

lemma GetBucketStart_mono:
  assumes "pow_grows mo" "sizes_positive options" "0 \<le> i" "i \<le> j" "j < NumBuckets options"
  shows "\<exists>x y. GetBucketStart mo options i = Some x \<and> GetBucketStart mo options j = Some y \<and> 0 \<le> x \<and> x \<le> y"
proof (cases options)
  case (linearHistogramOptions a n size eps)
  have "0 \<le> float64 i * size" "float64 i * size \<le> float64 j * size"
    using assms linearHistogramOptions float64_ge_0 [of i] float64_mono [of i j] by (auto intro: mult_right_mono)
  then show ?thesis using assms linearHistogramOptions by (simp add: linear_GetBucketStart_def fmul_def fl_mono fl_nonneg)
next
  case (exponentialHistogramOptions a n size r eps)
  have r: "1 < r" "0 < size" using assms(2) exponentialHistogramOptions by auto
  define f where "f k = fdiv (fmul size (fsub (math_Pow mo r (float64 k)) 1)) (fsub r 1)" for k :: int
  have d: "0 \<le> fsub r 1" using r by (simp add: fsub_def fl_nonneg)
  have P: "1 \<le> math_Pow mo r (float64 k) \<and> math_Pow mo r (float64 k) \<le> math_Pow mo r (float64 l)" if "0 \<le> k" "k \<le> l" for k l
    using assms(1) r(1) float64_ge_0 [OF that(1)] float64_mono [OF that(2)] unfolding pow_grows_def by blast
  have f: "0 \<le> f k \<and> f k \<le> f l" if "0 \<le> k" "k \<le> l" for k l
  proof -
    have "0 \<le> fsub (math_Pow mo r (float64 k)) 1" "fsub (math_Pow mo r (float64 k)) 1 \<le> fsub (math_Pow mo r (float64 l)) 1"
      using P [OF that] by (auto simp: fsub_def intro: fl_nonneg fl_mono)
    then have "0 \<le> fmul size (fsub (math_Pow mo r (float64 k)) 1)"
      "fmul size (fsub (math_Pow mo r (float64 k)) 1) \<le> fmul size (fsub (math_Pow mo r (float64 l)) 1)"
      using r(2) by (auto simp: fmul_def intro!: fl_nonneg fl_mono mult_left_mono)
    then show ?thesis using d by (auto simp: f_def fdiv_def intro!: fl_nonneg fl_mono divide_right_mono divide_nonneg_nonneg)
  qed
  have "GetBucketStart mo options k = Some (if k = 0 then 0 else f k)" if "0 \<le> k" "k < n" for k
    using that by (simp add: exponentialHistogramOptions exponential_GetBucketStart_def f_def)
  moreover have "j < n" using assms(5) exponentialHistogramOptions by simp
  ultimately show ?thesis using f [of i j] f [of j j] assms(3,4) by auto
qed

lemma hist_ok_ends: "hist_ok h \<Longrightarrow> \<not> Hist_IsEmpty h \<Longrightarrow> minBucket h \<le> maxBucket h"
  by (auto simp: hist_ok_def first_last_def Hist_IsEmpty_def not_less)

text \<open>The index of the bucket whose start is the result.\<close>

definition percentile_index :: "histogram \<Rightarrow> rat \<Rightarrow> int" where
  "percentile_index h p =
    (let bucket = int (find_percentile (bucketWeight h) (w_mul p (totalWeight h)) (maxBucket h) (minBucket h) 0) in
     if bucket < NumBuckets (h_options h) - 1 then bucket + 1 else bucket)"

lemma percentile_index_mono:
  assumes "hist_ok h" "\<not> Hist_IsEmpty h" "p \<le> q"
  shows "0 \<le> percentile_index h p" "percentile_index h p \<le> percentile_index h q" "percentile_index h q < NumBuckets (h_options h)"
proof -
  let ?f = "\<lambda>p. find_percentile (bucketWeight h) (w_mul p (totalWeight h)) (maxBucket h) (minBucket h) 0"
  have m: "minBucket h \<le> maxBucket h" by (rule hist_ok_ends [OF assms(1,2)])
  have "w_mul p (totalWeight h) \<le> w_mul q (totalWeight h)"
    using assms(1,3) by (auto simp: w_mul_def hist_ok_def intro!: f64_mono mult_right_mono)
  then have "?f p \<le> ?f q" by (rule find_percentile_mono [OF _ m])
  moreover have "?f q \<le> maxBucket h" using find_percentile_range [OF m] by blast
  moreover have "int (maxBucket h) < NumBuckets (h_options h)"
    using assms(1) hist_ok_range(2) [OF assms(1)] unfolding hist_ok_def by linarith
  ultimately show "0 \<le> percentile_index h p" "percentile_index h p \<le> percentile_index h q"
    "percentile_index h q < NumBuckets (h_options h)"
    by (auto simp: percentile_index_def Let_def)
qed

lemma Percentile_index:
  "\<not> Hist_IsEmpty h \<Longrightarrow> Percentile mo h p = GetBucketStart mo (h_options h) (percentile_index h p)"
  by (simp add: Percentile_def percentile_index_def Let_def)

lemma Percentile_mono:
  assumes "hist_ok h" "pow_grows mo" "sizes_positive (h_options h)" "p \<le> q"
  shows "\<exists>x y. Percentile mo h p = Some x \<and> Percentile mo h q = Some y \<and> 0 \<le> x \<and> x \<le> y"
proof (cases "Hist_IsEmpty h")
  case True
  then show ?thesis by (simp add: Percentile_def)
next
  case False
  then show ?thesis
    using GetBucketStart_mono [OF assms(2,3)] percentile_index_mono [OF assms(1) False assms(4)] by (simp add: Percentile_index)
qed

text \<open>
  C36: A percentile of a histogram that the operations built never panics, is not negative, and a larger argument never
  gives a smaller percentile, for linear and for exponential buckets.
\<close>

theorem percentile_total_monotone:
  assumes "hist_built mo options d" "0 < Epsilon options" "f64 (Epsilon options) = Epsilon options"
    "pow_grows mo" "sizes_positive options" "p \<le> q"
  shows "\<exists>x y. Dec_Percentile mo d p = Some x \<and> Dec_Percentile mo d q = Some y \<and> 0 \<le> x \<and> x \<le> y"
  using hist_built_ok [OF assms(1-3)] Percentile_mono assms(4-6) by (simp add: Dec_Percentile_def dec_ok_def)

subsection \<open>Decay\<close>

lemma time_Round_near:
  assumes "0 < d"
  shows "t - time_Round t d \<le> d" "time_Round t d - t \<le> d" "time_Round t d mod d = 0"
proof -
  have r: "0 \<le> t mod d" "t mod d < d" using assms by simp_all
  show "t - time_Round t d \<le> d" "time_Round t d - t \<le> d" using assms r by (auto simp: time_Round_def Let_def)
  have "t - t mod d = d * (t div d)" "t + (d - t mod d) = d * (t div d + 1)"
    by (simp_all add: minus_mod_eq_mult_div algebra_simps)
  then show "time_Round t d mod d = 0" using assms by (simp add: time_Round_def Let_def)
qed

lemma time_Sub_le: "0 \<le> k \<Longrightarrow> t - u \<le> k \<Longrightarrow> time_Sub t u \<le> k"
  by (auto simp: time_Sub_def)

lemma quotient_le:
  assumes "0 < hl" "0 \<le> k" "hl * k \<le> 2 ^ 53" "a \<le> hl * k" "k \<le> 2 ^ 53" "hl \<le> 2 ^ 53"
  shows "fdiv (float64 a) (float64 hl) \<le> of_int k"
proof -
  have h: "float64 hl = of_int hl" using assms(1,6) by (simp add: float64_def fl_of_int)
  have "float64 a \<le> float64 (hl * k)" using assms(4) by (rule float64_mono)
  also have "\<dots> = of_int (hl * k)" using assms(1,2,3) unfolding float64_def by (intro fl_of_int) simp
  finally have "float64 a / of_int hl \<le> of_int k" using assms(1) by (simp add: pos_divide_le_eq mult.commute)
  then show ?thesis using fl_mono fl_of_int [of k] assms(2,5) by (metis abs_of_nonneg fdiv_def h)
qed

text \<open>
  The exponent of the factor that a sample's weight is multiplied with never exceeds \<open>maxDecayExponent\<close>, however late
  the sample is: the histogram is shifted first. The reference time never goes back, and it stays a multiple of the half
  life. The bound on the half life is 25 hours; the recommender uses 24.
\<close>

theorem decay_exponent_bounded:
  assumes "decayFactor mo d t = Some (f, d')" "0 < dh_halfLife d" "dh_halfLife d * maxDecayExponent \<le> 2 ^ 53"
  shows "f = math_Exp2 mo (decay_exponent d' t) \<and> decay_exponent d' t \<le> of_int maxDecayExponent \<and>
    dh_halfLife d' = dh_halfLife d \<and> dh_referenceTimestamp d \<le> dh_referenceTimestamp d' \<and>
    (dh_referenceTimestamp d mod dh_halfLife d = 0 \<longrightarrow> dh_referenceTimestamp d' mod dh_halfLife d = 0)"
proof -
  let ?hl = "dh_halfLife d" and ?ref = "dh_referenceTimestamp d"
  have i: "i64 (?hl * maxDecayExponent) = ?hl * 100"
    using assms(2,3) by (intro trans [OF i64_id]) (auto simp: in64_def maxDecayExponent_def)
  have d': "f = math_Exp2 mo (decay_exponent d' t)" "(if t > ?ref + ?hl * 100 then shiftReferenceTimestamp d t else Some d) = Some d'"
    using assms(1) by (auto simp: decayFactor_def Let_def i split: option.splits if_splits)
  show ?thesis
  proof (cases "t > ?ref + ?hl * 100")
    case True
    then have s: "dh_referenceTimestamp d' = time_Round t ?hl" "dh_halfLife d' = ?hl"
      using d'(2) by (auto simp: shiftReferenceTimestamp_def Let_def)
    note r = time_Round_near [OF assms(2), of t]
    have "decay_exponent d' t \<le> of_int 100"
      unfolding decay_exponent_def s using r(1) assms(2,3)
      by (intro quotient_le time_Sub_le) (auto simp: maxDecayExponent_def)
    then show ?thesis using d'(1) s r True assms(2) by (auto simp: maxDecayExponent_def)
  next
    case False
    then have [simp]: "d' = d" using d'(2) by simp
    have "decay_exponent d t \<le> of_int 100"
      unfolding decay_exponent_def using False assms(2,3)
      by (intro quotient_le time_Sub_le) (auto simp: maxDecayExponent_def)
    then show ?thesis using d'(1) by (simp add: maxDecayExponent_def)
  qed
qed

subsection \<open>Checkpoints\<close>

lemma fl_pos_error:
  assumes "0 < x"
  shows "\<bar>fl_pos x - x\<bar> \<le> x / 2 ^ 53"
proof -
  define u where "u = (2 powi (exponent x - 52) :: rat)"
  have u: "0 < u" by (simp add: u_def)
  define n where "n = rat_of_int (round_even (x / u))"
  have "fl_pos x - x = (n - x / u) * u" using u by (simp add: fl_pos_def Let_def n_def left_diff_distrib flip: u_def)
  moreover have "\<bar>n - x / u\<bar> \<le> 1 / 2" unfolding n_def by (rule round_even_near)
  ultimately have "\<bar>fl_pos x - x\<bar> \<le> 1 / 2 * u" using u by (simp add: abs_mult mult_right_mono)
  moreover have "u * 2 ^ 52 \<le> x" using exponent_bounds(1) [OF assms] by (simp add: u_def power_int_diff)
  ultimately show ?thesis by simp
qed

lemma f64_error: "2 powi (- 1022) \<le> x \<Longrightarrow> \<bar>f64 x - x\<bar> \<le> x / 2 ^ 53"
  using fl_pos_error [of x] zero_less_power_int [of "2 :: rat" "- 1022"] by (simp add: f64_def fl_def)

lemma go_int_of_int: "in64 n \<Longrightarrow> go_int (of_int n) = n"
  by (simp add: go_int_def int64_of_def floor_minus)

text \<open>The heaviest bucket is saved with the largest weight, and the others in proportion.\<close>

lemma checkpoint_product_near:
  assumes m: "0 < m" "m \<le> 2 ^ 1000"
  shows "\<bar>w_mul m (w_div (float64 MaxCheckpointWeight) m) - 10000\<bar> \<le> 1 / 4"
proof -
  have c: "float64 MaxCheckpointWeight = 10000" using fl_of_int [of 10000] by (simp add: float64_def MaxCheckpointWeight_def)
  have low: "(2 :: rat) powi (- 1022) \<le> x" if "1 / 2 ^ 1000 \<le> x" for x :: rat
  proof -
    have "(2 :: rat) powi (- 1022) \<le> 2 powi (- 1000)" by (intro power_int_increasing) auto
    also have "\<dots> = 1 / 2 ^ 1000" by (simp add: power_int_minus inverse_eq_divide)
    finally show ?thesis using that by linarith
  qed
  define r where "r = f64 (10000 / m)"
  have "1 / 2 ^ 1000 \<le> 1 / m" using m by (intro divide_left_mono) auto
  moreover have "1 / m \<le> 10000 / m" using m(1) by (intro divide_right_mono) auto
  ultimately have "2 powi (- 1022) \<le> 10000 / m" by (intro low) linarith
  then have "\<bar>r - 10000 / m\<bar> \<le> 10000 / m / 2 ^ 53" unfolding r_def by (rule f64_error)
  then have "m * \<bar>r - 10000 / m\<bar> \<le> m * (10000 / m / 2 ^ 53)" using m(1) by (intro mult_left_mono) auto
  also have "m * \<bar>r - 10000 / m\<bar> = \<bar>m * r - 10000\<bar>" using abs_mult [of m "r - 10000 / m"] m(1) by (simp add: right_diff_distrib)
  finally have e1: "\<bar>m * r - 10000\<bar> \<le> 10000 / 2 ^ 53" using m(1) by simp
  moreover have "(10000 :: rat) / 2 ^ 53 \<le> 1" by simp
  ultimately have y: "9999 \<le> m * r" "m * r \<le> 10001" by linarith+
  have "2 powi (- 1022) \<le> m * r" using y(1) low [of 1] by simp
  then have "\<bar>f64 (m * r) - m * r\<bar> \<le> m * r / 2 ^ 53" by (rule f64_error)
  also have "\<dots> \<le> 10001 / 2 ^ 53" using y(2) by (intro divide_right_mono) auto
  finally have "\<bar>f64 (m * r) - m * r\<bar> \<le> 10001 / 2 ^ 53" .
  then have "\<bar>f64 (m * r) - 10000\<bar> \<le> 10001 / 2 ^ 53 + 10000 / 2 ^ 53" using e1 by linarith
  also have "\<dots> \<le> 1 / 4" by simp
  finally show ?thesis by (simp add: w_mul_def w_div_def c r_def)
qed

lemma fl_half: "fl (40003 / 4) < 10001"
  by code_simp

lemma round_half_range:
  assumes "0 \<le> z" "z \<le> 10000 + 1 / 4"
  shows "0 \<le> round_half z" "round_half z \<le> 10000" "10000 - 1 / 4 \<le> z \<Longrightarrow> round_half z = 10000"
proof -
  have "fadd z (1 / 2) \<le> fl (40003 / 4)" unfolding fadd_def using assms(2) by (intro fl_mono) simp
  then have u: "\<lfloor>fadd z (1 / 2)\<rfloor> \<le> 10000" using fl_half by linarith
  have l: "0 \<le> \<lfloor>fadd z (1 / 2)\<rfloor>" using assms(1) by (simp add: fadd_def fl_nonneg)
  have i: "round_half z = \<lfloor>fadd z (1 / 2)\<rfloor>" unfolding round_half_def using u l by (intro go_int_of_int) (simp add: in64_def)
  show "0 \<le> round_half z" "round_half z \<le> 10000" using u l i by auto
  assume "10000 - 1 / 4 \<le> z"
  then have "fl 10000 \<le> fadd z (1 / 2)" unfolding fadd_def by (intro fl_mono) simp
  then have "10000 \<le> \<lfloor>fadd z (1 / 2)\<rfloor>" using fl_of_int [of 10000] by (simp add: le_floor_iff)
  then show "round_half z = 10000" using u i by linarith
qed

lemma checkpoint_weight_range:
  assumes "0 < m" "m \<le> 2 ^ 1000"
  shows "checkpoint_weight m m = 10000" "0 \<le> w \<Longrightarrow> w \<le> m \<Longrightarrow> 0 \<le> checkpoint_weight m w \<and> checkpoint_weight m w \<le> 10000"
proof -
  let ?r = "w_div (float64 MaxCheckpointWeight) m"
  have n: "\<bar>w_mul m ?r - 10000\<bar> \<le> 1 / 4" by (rule checkpoint_product_near [OF assms])
  then have "10000 - 1 / 4 \<le> w_mul m ?r" "w_mul m ?r \<le> 10000 + 1 / 4" "0 \<le> w_mul m ?r" by linarith+
  then show "checkpoint_weight m m = 10000"
    using round_half_range(3) [of "w_mul m ?r"] assms(1) by (simp add: checkpoint_weight_def)
  assume w: "0 \<le> w" "w \<le> m"
  have r: "0 \<le> ?r" using assms(1) float64_ge_0 [of MaxCheckpointWeight]
    by (simp add: w_div_def f64_nonneg MaxCheckpointWeight_def)
  have "0 \<le> w_mul w ?r" "w_mul w ?r \<le> w_mul m ?r"
    using w r by (auto simp: w_mul_def intro!: f64_nonneg f64_mono mult_right_mono)
  moreover have "w_mul w ?r \<le> 10000 + 1 / 4" using n calculation by linarith
  ultimately have "0 \<le> round_half (w_mul w ?r)" "round_half (w_mul w ?r) \<le> 10000"
    using round_half_range(1,2) [of "w_mul w ?r"] by blast+
  then show "0 \<le> checkpoint_weight m w \<and> checkpoint_weight m w \<le> 10000"
    using assms(1) by (simp add: checkpoint_weight_def)
qed

lemma fold_max:
  fixes f :: "nat \<Rightarrow> rat"
  defines "F \<equiv> fold (\<lambda>b m. if f b > m then f b else m)"
  shows "m \<le> F bs m" "\<And>b. b \<in> set bs \<Longrightarrow> f b \<le> F bs m" "F bs m = m \<or> (\<exists>b \<in> set bs. F bs m = f b)"
proof -
  show "m \<le> F bs m" unfolding F_def by (induction bs arbitrary: m) (auto intro: order_trans [OF less_imp_le])
  show "f b \<le> F bs m" if "b \<in> set bs" for b
    using that
  proof (induction bs arbitrary: m)
    case (Cons a bs)
    have "n \<le> fold (\<lambda>b m. if f b > m then f b else m) bs n" for n
      by (induction bs arbitrary: n) (auto intro: order_trans [OF less_imp_le])
    from this [of "if f a > m then f a else m"] show ?case using Cons by (auto simp: F_def split: if_splits)
  qed simp
  show "F bs m = m \<or> (\<exists>b \<in> set bs. F bs m = f b)" unfolding F_def
  proof (induction bs arbitrary: m)
    case (Cons a bs)
    then show ?case by (cases "f a > m") (auto simp: F_def)
  qed simp
qed

lemma check_buckets_ok:
  "\<forall>(b, w) \<in> set bw. 0 \<le> b \<and> b < n \<Longrightarrow> check_buckets n bw (i64 a) = Inr (i64 (a + sum_list (map snd bw)))"
proof (induction bw arbitrary: a)
  case (Cons p bw)
  then show ?case by (cases p) (auto simp: add.assoc)
qed simp

lemma load_fold:
  assumes "distinct (map fst bw)" "\<forall>(b, w) \<in> set bw. 0 \<le> b \<and> b < int (length (bucketWeight h))"
  shows "length (bucketWeight (fold (load_bucket ratio) bw h)) = length (bucketWeight h) \<and>
    h_options (fold (load_bucket ratio) bw h) = h_options h \<and> totalWeight (fold (load_bucket ratio) bw h) = totalWeight h \<and>
    (\<forall>c < length (bucketWeight h). bucketWeight (fold (load_bucket ratio) bw h) ! c =
      (case map_of bw (int c) of None \<Rightarrow> bucketWeight h ! c
       | Some w \<Rightarrow> w_add (bucketWeight h ! c) (w_mul (float64 w) ratio)))"
  using assms
proof (induction bw arbitrary: h)
  case (Cons p bw)
  obtain b w where p: "p = (b, w)" by fastforce
  define g where "g = load_bucket ratio p h"
  have g: "length (bucketWeight g) = length (bucketWeight h)" "h_options g = h_options h" "totalWeight g = totalWeight h"
    "bucketWeight g = (bucketWeight h)[nat b := w_add (bucketWeight h ! nat b) (w_mul (float64 w) ratio)]"
    by (simp_all add: g_def p load_bucket_def Let_def)
  have b: "0 \<le> b" "nat b < length (bucketWeight h)" using Cons.prems(2) p by auto
  have no: "map_of bw b = None" using Cons.prems(1) p by (auto simp: map_of_eq_None_iff)
  have I: "length (bucketWeight (fold (load_bucket ratio) bw g)) = length (bucketWeight g) \<and>
    h_options (fold (load_bucket ratio) bw g) = h_options g \<and> totalWeight (fold (load_bucket ratio) bw g) = totalWeight g \<and>
    (\<forall>c < length (bucketWeight g). bucketWeight (fold (load_bucket ratio) bw g) ! c =
      (case map_of bw (int c) of None \<Rightarrow> bucketWeight g ! c
       | Some w \<Rightarrow> w_add (bucketWeight g ! c) (w_mul (float64 w) ratio)))"
    using Cons.prems g(1) by (intro Cons.IH) auto
  have "bucketWeight (fold (load_bucket ratio) bw g) ! c =
      (case map_of (p # bw) (int c) of None \<Rightarrow> bucketWeight h ! c
       | Some w \<Rightarrow> w_add (bucketWeight h ! c) (w_mul (float64 w) ratio))" if "c < length (bucketWeight h)" for c
  proof (cases "c = nat b")
    case True
    then have "int c = b" using b(1) by simp
    then show ?thesis using I g(1,4) that no b True by (simp add: p)
  next
    case False
    then have "int c \<noteq> b" "bucketWeight g ! c = bucketWeight h ! c" using g(4) by auto
    then show ?thesis using I g(1) that by (cases "map_of bw (int c)") (simp_all add: p)
  qed
  then show ?case using I g(1-3) by (simp add: g_def)
qed simp

text \<open>The weight with which a bucket is saved.\<close>

definition saved_weight :: "histogram \<Rightarrow> nat \<Rightarrow> int" where
  "saved_weight h b =
    (if minBucket h \<le> b \<and> b \<le> maxBucket h then checkpoint_weight (max_weight h) (bucketWeight h ! b) else 0)"

lemma saved_buckets:
  "hc_BucketWeights (Hist_SaveToChekpoint h) =
    map (\<lambda>b. (int b, saved_weight h b)) (filter (\<lambda>b. saved_weight h b > 0) [minBucket h..<maxBucket h + 1])"
  by (auto simp: Hist_SaveToChekpoint_def saved_weight_def intro!: map_cong filter_cong)

lemma saved_weight_range:
  assumes "hist_ok h" "\<not> Hist_IsEmpty h" "\<forall>w \<in> set (bucketWeight h). w \<le> 2 ^ 1000"
  shows "0 \<le> saved_weight h b \<and> saved_weight h b \<le> 10000" "\<exists>b < length (bucketWeight h). saved_weight h b = 10000"
proof -
  let ?bs = "[minBucket h..<maxBucket h + 1]" and ?f = "\<lambda>b. bucketWeight h ! b"
  note R = hist_ok_range [OF assms(1)]
  have le: "minBucket h \<le> maxBucket h" by (rule hist_ok_ends [OF assms(1,2)])
  have W: "0 \<le> ?f b \<and> ?f b \<le> 2 ^ 1000" if "b \<in> set ?bs" for b
    using that R(2) assms(1,3) by (auto simp: hist_ok_def)
  have ge: "?f b \<le> max_weight h" if "b \<in> set ?bs" for b
    unfolding max_weight_def using that by (rule fold_max(2))
  have "0 < ?f (minBucket h)" using assms(1,2) unfolding Hist_IsEmpty_def hist_ok_def by linarith
  then have pos: "0 < max_weight h" using ge [of "minBucket h"] le by (simp only: set_upt atLeastLessThan_iff) linarith
  then obtain b where b: "b \<in> set ?bs" "max_weight h = ?f b"
    using fold_max(3) [of ?f ?bs 0] unfolding max_weight_def by auto
  have m: "max_weight h \<le> 2 ^ 1000" using W b by simp
  show "\<exists>b < length (bucketWeight h). saved_weight h b = 10000"
    using b R(2) checkpoint_weight_range(1) [OF pos m] by (intro exI [of _ b]) (auto simp: saved_weight_def)
  show "0 \<le> saved_weight h b \<and> saved_weight h b \<le> 10000" for b
  proof (cases "b \<in> set ?bs")
    case True
    then show ?thesis using W [of b] ge [of b] checkpoint_weight_range(2) [OF pos m, of "?f b"] by (simp add: saved_weight_def)
  next
    case False
    then show ?thesis by (auto simp: saved_weight_def)
  qed
qed

lemma sum_saved_weights:
  assumes "hist_ok h" "\<not> Hist_IsEmpty h" "\<forall>w \<in> set (bucketWeight h). w \<le> 2 ^ 1000" "length (bucketWeight h) \<le> 2 ^ 40"
  defines "s \<equiv> sum_list (map snd (hc_BucketWeights (Hist_SaveToChekpoint h)))"
  shows "10000 \<le> s" "i64 s = s"
proof -
  note S = saved_weight_range [OF assms(1-3)]
  let ?bs = "filter (\<lambda>b. saved_weight h b > 0) [minBucket h..<maxBucket h + 1]"
  have s: "s = (\<Sum>b \<leftarrow> ?bs. saved_weight h b)" by (simp add: s_def saved_buckets comp_def)
  obtain b where b: "saved_weight h b = 10000" using S(2) by blast
  then have "b \<in> set ?bs" by (auto simp: saved_weight_def split: if_splits)
  then have "saved_weight h b \<le> (\<Sum>b \<leftarrow> ?bs. saved_weight h b)"
    using S(1) by (intro member_le_sum_list) auto
  then show "10000 \<le> s" using b s by simp
  have "s \<le> (\<Sum>b \<leftarrow> ?bs. 10000)" unfolding s using S(1) by (intro sum_list_mono) auto
  also have "\<dots> = 10000 * int (length ?bs)" by (simp add: sum_list_triv)
  also have "\<dots> \<le> 10000 * 2 ^ 40"
  proof -
    have "length ?bs \<le> length (bucketWeight h)"
      using length_filter_le [of "\<lambda>b. saved_weight h b > 0" "[minBucket h..<maxBucket h + 1]"] hist_ok_range(2) [OF assms(1)]
      unfolding length_upt by linarith
    then show ?thesis using assms(4) by simp
  qed
  finally show "i64 s = s" using \<open>10000 \<le> s\<close> by (intro i64_id) (simp add: in64_def)
qed

lemma saved_lookup:
  "b < length (bucketWeight h) \<Longrightarrow> map_of (hc_BucketWeights (Hist_SaveToChekpoint h)) (int b) =
    (if saved_weight h b > 0 then Some (saved_weight h b) else None)"
proof -
  let ?bs = "filter (\<lambda>b. saved_weight h b > 0) [minBucket h..<maxBucket h + 1]"
  have "map_of (map (\<lambda>b. (int b, f b)) bs) (int b) = (if b \<in> set bs then Some (f b) else None)" for f :: "nat \<Rightarrow> int" and bs
    by (induction bs) auto
  moreover have "b \<in> set ?bs \<longleftrightarrow> saved_weight h b > 0" by (auto simp: saved_weight_def)
  ultimately show ?thesis by (simp only: saved_buckets)
qed

text \<open>A saved histogram is accepted by a new one.\<close>

lemma load_saved:
  assumes ok: "hist_ok h" and ne: "\<not> Hist_IsEmpty h" and w: "\<forall>w \<in> set (bucketWeight h). w \<le> 2 ^ 1000"
    and N: "length (bucketWeight h) \<le> 2 ^ 40" and new: "NewHistogram (h_options h) = Some g"
    and cp: "hc_BucketWeights cp = hc_BucketWeights (Hist_SaveToChekpoint h)" "hc_TotalWeight cp = totalWeight h"
  shows "\<exists>g' ratio. Hist_LoadFromCheckpoint g (Some cp) = (g', None) \<and> totalWeight g' = totalWeight h \<and>
    (\<forall>b < length (bucketWeight h). bucketWeight g' ! b = w_mul (float64 (saved_weight h b)) ratio)"
proof -
  define s where "s = sum_list (map snd (hc_BucketWeights cp))"
  define ratio where "ratio = w_div (totalWeight h) (float64 s)"
  let ?n = "length (bucketWeight h)"
  have n: "NumBuckets (h_options h) = int ?n" using ok unfolding hist_ok_def by linarith
  have g: "bucketWeight g = replicate ?n 0" "totalWeight g = 0" "h_options g = h_options h"
    using new by (auto simp: NewHistogram_def n split: if_splits)
  have sum: "10000 \<le> s" "i64 s = s"
    using sum_saved_weights [OF ok ne w N] by (simp_all add: s_def cp)
  have keys: "\<forall>(b, w) \<in> set (hc_BucketWeights cp). 0 \<le> b \<and> b < int ?n" "distinct (map fst (hc_BucketWeights cp))"
    using hist_ok_range(2) [OF ok] by (auto simp: cp saved_buckets distinct_map comp_def inj_on_def)
  have T: "0 \<le> totalWeight h" "f64 (totalWeight h) = totalWeight h" using ok by (simp_all add: hist_ok_def)
  define g' where "g' = fold (load_bucket ratio) (hc_BucketWeights cp) g"
  have L: "totalWeight g' = 0" "\<And>b. b < ?n \<Longrightarrow> bucketWeight g' ! b =
      (case map_of (hc_BucketWeights cp) (int b) of None \<Rightarrow> 0 | Some w \<Rightarrow> w_add 0 (w_mul (float64 w) ratio))"
    using load_fold [OF keys(2), of g ratio] keys(1) by (auto simp: g'_def g cong: option.case_cong)
  have B: "bucketWeight g' ! b = w_mul (float64 (saved_weight h b)) ratio" if "b < ?n" for b
  proof -
    have "0 \<le> saved_weight h b" using saved_weight_range(1) [OF ok ne w] by blast
    then show ?thesis
      using L(2) [OF that] saved_lookup [OF that] by (auto simp: cp w_add_def w_mul_def float64_def)
  qed
  have "Hist_LoadFromCheckpoint g (Some cp) = (g'\<lparr>totalWeight := totalWeight h\<rparr>, None)"
    using check_buckets_ok [OF keys(1), of 0] sum T L(1)
    by (simp add: Hist_LoadFromCheckpoint_def g n cp(2) Let_def s_def [symmetric] ratio_def [symmetric] g'_def [symmetric] w_add_def)
  then show ?thesis using B by (intro exI [of _ "g'\<lparr>totalWeight := totalWeight h\<rparr>"] exI [of _ ratio]) simp
qed


subsection \<open>An example\<close>

definition sample_math :: math_ops where
  "sample_math = \<lparr>math_Log = (\<lambda>x. x - 1), math_Pow = (\<lambda>r i. r ^ nat \<lfloor>i\<rfloor>), math_Exp2 = (\<lambda>x. 2 powi \<lfloor>x\<rfloor>)\<rparr>"

definition sample_options :: HistogramOptions where
  "sample_options = linearHistogramOptions 1 3 1 (7378697629483821 / 73786976294838206464)"

definition sample_new :: decayingHistogram where
  "sample_new = \<lparr>dh_histogram = \<lparr>h_options = sample_options, bucketWeight = [0, 0, 0], totalWeight = 0, minBucket = 2, maxBucket = 0\<rparr>,
    dh_halfLife = 86400000000000, dh_referenceTimestamp = 0\<rparr>"

definition sample_one :: decayingHistogram where
  "sample_one = sample_new\<lparr>dh_histogram := (dh_histogram sample_new)\<lparr>bucketWeight := [Epsilon sample_options, 0, 0],
    totalWeight := Epsilon sample_options, minBucket := 0\<rparr>\<rparr>"

definition sample_two :: decayingHistogram where
  "sample_two = sample_new\<lparr>dh_histogram := (dh_histogram sample_new)\<lparr>
    bucketWeight := [Epsilon sample_options, 3152519739159347 / 4503599627370496, 0],
    totalWeight := 788242524780521 / 1125899906842624, minBucket := 0, maxBucket := 1\<rparr>\<rparr>"

lemma sample_new: "NewDecayingHistogram sample_options 86400000000000 = Some sample_new"
  by code_simp

lemma sample_one: "Dec_AddSample sample_math sample_new 0 (Epsilon sample_options) 5 = Some sample_one"
  by code_simp

lemma sample_two: "Dec_AddSample sample_math sample_one 1 (7 / 10) 5 = Some sample_two"
  by code_simp

lemma sample_built: "hist_built sample_math sample_options sample_two"
  by (rule built_add [OF built_add [OF built_new [OF sample_new] sample_one] sample_two])

lemma sample_epsilon: "0 < Epsilon sample_options" "f64 (Epsilon sample_options) = Epsilon sample_options"
  by code_simp+

lemma sample_pow: "pow_grows sample_math"
  unfolding pow_grows_def sample_math_def by (auto intro!: one_le_power power_increasing nat_mono floor_mono)

theorem histogram_bounds_exact_witness:
  "0 \<le> bucketWeight (dh_histogram sample_two) ! 1 \<and> minBucket (dh_histogram sample_two) = 0 \<and>
    maxBucket (dh_histogram sample_two) = 1 \<and> \<not> Dec_IsEmpty sample_two"
proof -
  have "nonempty_buckets (dh_histogram sample_two) = [0, 1]" by code_simp
  moreover have "bucketWeight (dh_histogram sample_two) ! 1 \<in> set (bucketWeight (dh_histogram sample_two))" by (simp add: sample_two_def)
  ultimately show ?thesis using histogram_bounds_exact [OF sample_built sample_epsilon] by auto
qed

theorem percentile_total_monotone_witness:
  "\<exists>x y. Dec_Percentile sample_math sample_two (1 / 2) = Some x \<and> Dec_Percentile sample_math sample_two (9 / 10) = Some y \<and> 0 \<le> x \<and> x \<le> y"
  by (rule percentile_total_monotone [OF sample_built sample_epsilon sample_pow]) (simp_all add: sample_options_def)

theorem decay_exponent_bounded_witness:
  "decay_exponent (sample_new\<lparr>dh_referenceTimestamp := 8985600000000000\<rparr>) 9000000000000000 \<le> of_int maxDecayExponent"
proof -
  have "decayFactor sample_math sample_new 9000000000000000 = Some (1, sample_new\<lparr>dh_referenceTimestamp := 8985600000000000\<rparr>)"
    by code_simp
  from decay_exponent_bounded [OF this] show ?thesis by (simp add: sample_new_def maxDecayExponent_def)
qed

definition sample_checkpoint :: HistogramCheckpoint where
  "sample_checkpoint = \<lparr>hc_ReferenceTimestamp = 0, hc_BucketWeights = [(0, 1), (1, 10000)], hc_TotalWeight = 788242524780521 / 1125899906842624\<rparr>"

definition sample_loaded :: decayingHistogram where
  "sample_loaded = sample_two\<lparr>dh_histogram := (dh_histogram sample_two)\<lparr>
    bucketWeight := [5165309679433679 / 73786976294838206464, 49260231775605 / 70368744177664, 0]\<rparr>\<rparr>"

lemma sample_weights:
  "max_weight (dh_histogram sample_two) = 3152519739159347 / 4503599627370496"
  "checkpoint_weight (3152519739159347 / 4503599627370496) (3152519739159347 / 4503599627370496) = 10000"
  "checkpoint_weight (3152519739159347 / 4503599627370496) (7378697629483821 / 73786976294838206464) = 1"
  by code_simp+

lemma sample_saved: "Dec_SaveToChekpoint sample_two = sample_checkpoint"
proof -
  have "Dec_SaveToChekpoint sample_two =
      \<lparr>hc_ReferenceTimestamp = 0,
       hc_BucketWeights = map (\<lambda>b. (int b, checkpoint_weight (max_weight (dh_histogram sample_two)) (bucketWeight (dh_histogram sample_two) ! b)))
         (filter (\<lambda>b. checkpoint_weight (max_weight (dh_histogram sample_two)) (bucketWeight (dh_histogram sample_two) ! b) > 0) [0, 1]),
       hc_TotalWeight = 788242524780521 / 1125899906842624\<rparr>"
    by (simp add: Dec_SaveToChekpoint_def Hist_SaveToChekpoint_def) (simp add: sample_two_def sample_new_def upt_rec)
  also have "\<dots> = sample_checkpoint"
    unfolding sample_weights(1) using sample_weights(2,3)
    by (simp add: sample_checkpoint_def sample_two_def sample_new_def sample_options_def)
  finally show ?thesis .
qed

lemma sample_loaded: "Dec_LoadFromCheckpoint sample_new (Some sample_checkpoint) = (sample_loaded, None)"
  by code_simp

lemma sample_loaded_empty: "Dec_IsEmpty sample_loaded" "Dec_Percentile sample_math sample_loaded (9 / 10) = Some 0"
  "\<not> Dec_IsEmpty sample_two" "Dec_Percentile sample_math sample_two (9 / 10) = Some 2"
  by code_simp+



end
