(* ===== verification/Estimators.thy ===== *)
theory Estimators
  imports Usage_Model Histogram_Props
begin

text \<open>
  The estimators of the recommender (\<^verbatim>\<open>src/recommender/logic\<close>): percentiles of the usage with a safety margin, and with a factor
  that depends on how much history there is. The chain of estimators is a datatype with the source's constructors.

  Without history the factor is infinite, and an amount of 0 times an infinite factor is not a number; a float that may be
  one of these is an \<open>xfloat\<close>.
\<close>

subsection \<open>Floats with infinities\<close>

datatype xfloat = Fin rat | PosInf | NegInf | NaN

definition x_div :: "rat \<Rightarrow> rat \<Rightarrow> xfloat" where
  "x_div a b = (if b \<noteq> 0 then Fin (fdiv a b) else if a > 0 then PosInf else if a < 0 then NegInf else NaN)"

fun x_add :: "rat \<Rightarrow> xfloat \<Rightarrow> xfloat" where
  "x_add a (Fin b) = Fin (fadd a b)"
| "x_add a x = x"

fun x_mul :: "rat \<Rightarrow> xfloat \<Rightarrow> xfloat" where
  "x_mul a (Fin b) = Fin (fmul a b)"
| "x_mul a PosInf = (if a > 0 then PosInf else if a < 0 then NegInf else NaN)"
| "x_mul a NegInf = (if a > 0 then NegInf else if a < 0 then PosInf else NaN)"
| "x_mul a NaN = NaN"

text \<open>\<^verbatim>\<open>math.Pow\<close> with the special cases of its documentation.\<close>

definition odd_integer :: "rat \<Rightarrow> bool" where
  "odd_integer y \<longleftrightarrow> y = of_int \<lfloor>y\<rfloor> \<and> odd \<lfloor>y\<rfloor>"

fun x_pow :: "math_ops \<Rightarrow> xfloat \<Rightarrow> rat \<Rightarrow> xfloat" where
  "x_pow mo (Fin b) y = Fin (math_Pow mo b y)"
| "x_pow mo PosInf y = (if y = 0 then Fin 1 else if y > 0 then PosInf else Fin 0)"
| "x_pow mo NegInf y = (if y = 0 then Fin 1 else if y < 0 then Fin 0 else if odd_integer y then NegInf else PosInf)"
| "x_pow mo NaN y = (if y = 0 then Fin 1 else NaN)"

text \<open>Comparisons with a float that is not a number are false, and its conversion is the least integer.\<close>

fun x_amount :: "xfloat \<Rightarrow> int" where
  "x_amount (Fin r) = resourceAmountFromFloat r"
| "x_amount PosInf = MaxResourceAmount"
| "x_amount NegInf = 0"
| "x_amount NaN = - (2 ^ 63)"

definition x_ScaleResource :: "int \<Rightarrow> xfloat \<Rightarrow> int" where
  "x_ScaleResource amount factor = x_amount (x_mul (float64 amount) factor)"

subsection \<open>Estimators\<close>

datatype ResourceEstimator =
    constEstimator Resources
  | percentileEstimator rat rat
  | marginEstimator rat ResourceEstimator
  | minResourcesEstimator Resources ResourceEstimator
  | confidenceMultiplier rat rat ResourceEstimator

definition getConfidence :: "AggregateContainerState \<Rightarrow> rat" where
  "getConfidence s =
    (let lifespanInDays = fdiv (float64 (time_Sub (as_LastSampleStart s) (as_FirstSampleStart s))) (float64 (hour * 24));
         samplesAmount = fdiv (float64 (as_TotalSamplesCount s)) (60 * 24) in
     min lifespanInDays samplesAmount)"

definition percentile_estimation :: "math_ops \<Rightarrow> rat \<Rightarrow> rat \<Rightarrow> AggregateContainerState \<Rightarrow> Resources option" where
  "percentile_estimation mo cpuPercentile memoryPercentile s =
    (case (Dec_Percentile mo (as_AggregateCPUUsage s) cpuPercentile, Dec_Percentile mo (as_AggregateMemoryPeaks s) memoryPercentile) of
      (Some cpu, Some mem) \<Rightarrow> Some [(ResourceCPU, CPUAmountFromCores cpu), (ResourceMemory, MemoryAmountFromBytes mem)]
    | _ \<Rightarrow> None)"

definition confidence_amount :: "math_ops \<Rightarrow> rat \<Rightarrow> rat \<Rightarrow> rat \<Rightarrow> int \<Rightarrow> int" where
  "confidence_amount mo multiplier exponent' confidence amount =
    x_ScaleResource amount (x_pow mo (x_add 1 (x_div multiplier confidence)) exponent')"

definition margin_amount :: "rat \<Rightarrow> int \<Rightarrow> int" where
  "margin_amount marginFraction amount = i64 (amount + ScaleResource amount marginFraction)"

definition min_amount :: "Resources \<Rightarrow> string \<Rightarrow> int \<Rightarrow> int" where
  "min_amount minResources resource amount =
    (if amount < gm_get0 minResources resource then gm_get0 minResources resource else amount)"

fun GetResourceEstimation :: "math_ops \<Rightarrow> ResourceEstimator \<Rightarrow> AggregateContainerState \<Rightarrow> Resources option" where
  "GetResourceEstimation mo (constEstimator resources) s = Some resources"
| "GetResourceEstimation mo (percentileEstimator cpuPercentile memoryPercentile) s =
    percentile_estimation mo cpuPercentile memoryPercentile s"
| "GetResourceEstimation mo (marginEstimator marginFraction baseEstimator) s =
    map_option (map (\<lambda>(r, amount). (r, margin_amount marginFraction amount))) (GetResourceEstimation mo baseEstimator s)"
| "GetResourceEstimation mo (minResourcesEstimator minResources baseEstimator) s =
    map_option (map (\<lambda>(r, amount). (r, min_amount minResources r amount))) (GetResourceEstimation mo baseEstimator s)"
| "GetResourceEstimation mo (confidenceMultiplier multiplier exponent' baseEstimator) s =
    map_option (map (\<lambda>(r, amount). (r, confidence_amount mo multiplier exponent' (getConfidence s) amount)))
      (GetResourceEstimation mo baseEstimator s)"

subsection \<open>The recommender\<close>

record RecommendedContainerResources =
  rc_Target :: Resources
  rc_LowerBound :: Resources
  rc_UpperBound :: Resources

record podResourceRecommender =
  pr_targetEstimator :: ResourceEstimator
  pr_lowerBoundEstimator :: ResourceEstimator
  pr_upperBoundEstimator :: ResourceEstimator

definition FilterControlledResources :: "Resources \<Rightarrow> string list \<Rightarrow> Resources" where
  "FilterControlledResources estimation controlledResources =
    fold (\<lambda>r result. case gm_get estimation r of Some v \<Rightarrow> gm_put result r v | None \<Rightarrow> result) controlledResources []"

definition estimateContainerResources ::
  "math_ops \<Rightarrow> podResourceRecommender \<Rightarrow> AggregateContainerState \<Rightarrow> RecommendedContainerResources option" where
  "estimateContainerResources mo r s =
    (case (GetResourceEstimation mo (pr_targetEstimator r) s, GetResourceEstimation mo (pr_lowerBoundEstimator r) s,
           GetResourceEstimation mo (pr_upperBoundEstimator r) s) of
      (Some target, Some lower, Some upper) \<Rightarrow>
        Some \<lparr>rc_Target = FilterControlledResources target (GetControlledResources s),
          rc_LowerBound = FilterControlledResources lower (GetControlledResources s),
          rc_UpperBound = FilterControlledResources upper (GetControlledResources s)\<rparr>
    | _ \<Rightarrow> None)"

definition podMinCPUMillicores :: rat where
  "podMinCPUMillicores = 0"

definition podMinMemoryMb :: rat where
  "podMinMemoryMb = 0"

definition pod_min_resources :: "nat \<Rightarrow> Resources" where
  "pod_min_resources n =
    (let fraction = fdiv 1 (float64 (int n)) in
     [(ResourceCPU, ScaleResource (CPUAmountFromCores (fmul podMinCPUMillicores (fl (1 / 1000)))) fraction),
      (ResourceMemory, ScaleResource (MemoryAmountFromBytes (fmul (fmul podMinMemoryMb 1024) 1024)) fraction)])"

fun estimate_each ::
  "math_ops \<Rightarrow> podResourceRecommender \<Rightarrow> (string, AggregateContainerState) gomap \<Rightarrow> (string, RecommendedContainerResources) gomap option" where
  "estimate_each mo r [] = Some []"
| "estimate_each mo r ((name, s) # rest) =
    (case (estimateContainerResources mo r s, estimate_each mo r rest) of
      (Some x, Some xs) \<Rightarrow> Some ((name, x) # xs)
    | _ \<Rightarrow> None)"

definition GetRecommendedPodResources ::
  "math_ops \<Rightarrow> podResourceRecommender \<Rightarrow> (string, AggregateContainerState) gomap \<Rightarrow> (string, RecommendedContainerResources) gomap option" where
  "GetRecommendedPodResources mo r states =
    (if length states = 0 then Some []
     else
       let minResources = pod_min_resources (length states);
           recommender = \<lparr>pr_targetEstimator = minResourcesEstimator minResources (pr_targetEstimator r),
             pr_lowerBoundEstimator = minResourcesEstimator minResources (pr_lowerBoundEstimator r),
             pr_upperBoundEstimator = minResourcesEstimator minResources (pr_upperBoundEstimator r)\<rparr> in
       estimate_each mo recommender states)"

text \<open>The two command-line flags are arguments.\<close>

definition CreatePodResourceRecommender :: "rat \<Rightarrow> rat \<Rightarrow> podResourceRecommender" where
  "CreatePodResourceRecommender safetyMarginFraction targetCpuPercentile =
    \<lparr>pr_targetEstimator = marginEstimator safetyMarginFraction (percentileEstimator targetCpuPercentile (fl (9 / 10))),
     pr_lowerBoundEstimator =
       confidenceMultiplier (fl (1 / 1000)) (- 2) (marginEstimator safetyMarginFraction (percentileEstimator (1 / 2) (1 / 2))),
     pr_upperBoundEstimator =
       confidenceMultiplier 1 1 (marginEstimator safetyMarginFraction (percentileEstimator (fl (19 / 20)) (fl (19 / 20))))\<rparr>"

subsection \<open>Amounts are monotone\<close>

lemma MaxResourceAmount_float: "float64 MaxResourceAmount = 100000000000000"
  using fl_of_int [of 100000000000000] by (simp add: float64_def MaxResourceAmount_def)

lemma amount_cases:
  "resourceAmountFromFloat x = (if x < 0 then 0 else if x > 100000000000000 then 100000000000000 else int64_of x)"
  unfolding resourceAmountFromFloat_def MaxResourceAmount_float by (simp add: MaxResourceAmount_def)

lemma amount_range: "0 \<le> resourceAmountFromFloat x \<and> resourceAmountFromFloat x \<le> MaxResourceAmount"
  using int64_of_range [of x 100000000000000] by (auto simp: amount_cases MaxResourceAmount_def)

lemma amount_mono: "x \<le> y \<Longrightarrow> resourceAmountFromFloat x \<le> resourceAmountFromFloat y"
  using int64_of_range [of x 100000000000000] int64_of_range [of y 100000000000000]
  by (auto simp: amount_cases int64_of_def floor_mono split: if_splits)

lemma CPUAmountFromCores_mono: "x \<le> y \<Longrightarrow> CPUAmountFromCores x \<le> CPUAmountFromCores y"
  by (simp add: CPUAmountFromCores_def fmul_def amount_mono fl_mono)

lemma MemoryAmountFromBytes_mono: "x \<le> y \<Longrightarrow> MemoryAmountFromBytes x \<le> MemoryAmountFromBytes y"
  by (simp add: MemoryAmountFromBytes_def amount_mono)

lemma ScaleResource_mono: "x \<le> y \<Longrightarrow> 0 \<le> f \<Longrightarrow> ScaleResource x f \<le> ScaleResource y f"
  by (auto simp: ScaleResource_def fmul_def float64_def intro!: amount_mono fl_mono mult_right_mono)

text \<open>Scaling an amount of up to 53 bits by a factor of at most 1 does not raise it, by one of at least 1 does not lower it.\<close>

lemma float64_exact: "0 \<le> n \<Longrightarrow> n \<le> MaxResourceAmount \<Longrightarrow> float64 n = of_int n"
  unfolding float64_def MaxResourceAmount_def by (rule fl_of_int) simp

lemma amount_of_int: "0 \<le> n \<Longrightarrow> n \<le> MaxResourceAmount \<Longrightarrow> resourceAmountFromFloat (of_int n) = n"
  by (auto simp: amount_cases int64_of_def MaxResourceAmount_def)

lemma scale_down:
  assumes "0 \<le> n" "n \<le> MaxResourceAmount" "f \<le> 1"
  shows "ScaleResource n f \<le> n"
proof -
  have "of_int n * f \<le> of_int n" using assms mult_left_mono [of f 1 "of_int n"] by simp
  then have "fmul (float64 n) f \<le> of_int n"
    using fl_mono float64_exact [OF assms(1,2)] unfolding fmul_def float64_def by metis
  then show ?thesis using amount_mono amount_of_int [OF assms(1,2)] unfolding ScaleResource_def by metis
qed

lemma scale_up:
  assumes "0 \<le> n" "n \<le> MaxResourceAmount" "1 \<le> f"
  shows "n \<le> ScaleResource n f"
proof -
  have "of_int n \<le> of_int n * f" using assms mult_left_mono [of 1 f "of_int n"] by simp
  then have "of_int n \<le> fmul (float64 n) f"
    using fl_mono float64_exact [OF assms(1,2)] unfolding fmul_def float64_def by metis
  then show ?thesis using amount_mono amount_of_int [OF assms(1,2)] unfolding ScaleResource_def by metis
qed

subsection \<open>The three estimations are in order\<close>

text \<open>The documented behaviour of \<^verbatim>\<open>math.Pow\<close> for the two exponents of the recommender.\<close>

definition pow_confidence :: "math_ops \<Rightarrow> bool" where
  "pow_confidence mo \<longleftrightarrow> (\<forall>x. math_Pow mo x 1 = x) \<and> (\<forall>x \<ge> 1. 0 \<le> math_Pow mo x (- 2) \<and> math_Pow mo x (- 2) \<le> 1)"

definition room_on_top :: "math_ops \<Rightarrow> HistogramOptions \<Rightarrow> rat \<Rightarrow> bool" where
  "room_on_top mo options limit \<longleftrightarrow>
    (case GetBucketStart mo options (NumBuckets options - 1) of Some x \<Rightarrow> x \<le> limit | None \<Rightarrow> False)"

lemma Percentile_le_top:
  assumes "hist_ok h" "pow_grows mo" "sizes_positive (h_options h)" "Percentile mo h p = Some x" "room_on_top mo (h_options h) limit" "0 \<le> limit"
  shows "x \<le> limit"
proof (cases "Hist_IsEmpty h")
  case True
  then show ?thesis using assms(4,6) by (simp add: Percentile_def)
next
  case False
  have i: "0 \<le> percentile_index h p" "percentile_index h p < NumBuckets (h_options h)"
    using percentile_index_mono [OF assms(1) False order_refl] by blast+
  then obtain x' y where "GetBucketStart mo (h_options h) (percentile_index h p) = Some x'"
    "GetBucketStart mo (h_options h) (NumBuckets (h_options h) - 1) = Some y" "x' \<le> y"
    using GetBucketStart_mono [OF assms(2,3) i(1), of "NumBuckets (h_options h) - 1"] by auto
  then show ?thesis using assms(4,5) False by (simp add: Percentile_index room_on_top_def)
qed

lemma margin_amount_exact:
  assumes "0 \<le> n" "n \<le> 50000000000000" "0 \<le> m" "m \<le> 1"
  shows "margin_amount m n = n + ScaleResource n m" "n \<le> margin_amount m n" "margin_amount m n \<le> MaxResourceAmount"
proof -
  have s: "0 \<le> ScaleResource n m" "ScaleResource n m \<le> n"
    using assms amount_range scale_down [of n m] by (auto simp: ScaleResource_def MaxResourceAmount_def)
  then show "margin_amount m n = n + ScaleResource n m"
    using assms(1,2) unfolding margin_amount_def by (intro i64_id) (auto simp: in64_def)
  then show "n \<le> margin_amount m n" "margin_amount m n \<le> MaxResourceAmount"
    using s assms(2) by (auto simp: MaxResourceAmount_def)
qed

lemma margin_amount_mono:
  assumes "0 \<le> k" "k \<le> n" "n \<le> 50000000000000" "0 \<le> m" "m \<le> 1"
  shows "margin_amount m k \<le> margin_amount m n"
  using assms margin_amount_exact(1) [of k m] margin_amount_exact(1) [of n m] ScaleResource_mono [of k n m] by simp

lemma confidence_factor:
  assumes "0 < a" "0 \<le> c"
  shows "c = 0 \<Longrightarrow> x_add 1 (x_div a c) = PosInf" "c \<noteq> 0 \<Longrightarrow> \<exists>x \<ge> 1. x_add 1 (x_div a c) = Fin x"
proof -
  show "c = 0 \<Longrightarrow> x_add 1 (x_div a c) = PosInf" using assms by (simp add: x_div_def)
  assume "c \<noteq> 0"
  moreover have "1 \<le> fadd 1 (fdiv a c)"
    unfolding fadd_def fdiv_def using assms by (intro fl_ge_1) (simp add: fl_nonneg)
  ultimately show "\<exists>x \<ge> 1. x_add 1 (x_div a c) = Fin x" by (simp add: x_div_def)
qed

lemma lower_amount:
  assumes "pow_confidence mo" "0 < a" "0 \<le> c" "0 \<le> n" "n \<le> MaxResourceAmount"
  shows "0 \<le> confidence_amount mo a (- 2) c n" "confidence_amount mo a (- 2) c n \<le> n"
proof -
  have "\<exists>f. confidence_amount mo a (- 2) c n = ScaleResource n f \<and> 0 \<le> f \<and> f \<le> 1"
  proof (cases "c = 0")
    case True
    then show ?thesis using confidence_factor(1) [OF assms(2,3)]
      by (intro exI [of _ 0]) (simp add: confidence_amount_def x_ScaleResource_def ScaleResource_def)
  next
    case False
    then show ?thesis using confidence_factor(2) [OF assms(2,3)] assms(1)
      by (auto simp: confidence_amount_def x_ScaleResource_def ScaleResource_def pow_confidence_def)
  qed
  then show "0 \<le> confidence_amount mo a (- 2) c n" "confidence_amount mo a (- 2) c n \<le> n"
    using scale_down [OF assms(4,5)] amount_range by (auto simp: ScaleResource_def)
qed

lemma upper_amount:
  assumes "pow_confidence mo" "0 \<le> c" "0 \<le> n" "n \<le> MaxResourceAmount"
  shows "n \<le> max 0 (confidence_amount mo 1 1 c n)"
proof (cases "c = 0")
  case True
  show ?thesis
  proof (cases "n = 0")
    case False
    then have "0 < float64 n" using assms(3) float64_exact [OF assms(3,4)] by simp
    then show ?thesis using True assms(4) by (simp add: confidence_amount_def x_ScaleResource_def x_div_def)
  qed simp
next
  case False
  then obtain f where f: "1 \<le> f" "x_add 1 (x_div 1 c) = Fin f" using confidence_factor(2) [of 1 c] assms(2) by auto
  then have "confidence_amount mo 1 1 c n = ScaleResource n f"
    using assms(1) by (simp add: confidence_amount_def x_ScaleResource_def ScaleResource_def pow_confidence_def)
  then show ?thesis using scale_up [OF assms(3,4) f(1)] by simp
qed

lemma getConfidence_nonneg:
  assumes "0 \<le> as_TotalSamplesCount s" "as_FirstSampleStart s \<le> as_LastSampleStart s"
  shows "0 \<le> getConfidence s"
proof -
  have "0 \<le> time_Sub (as_LastSampleStart s) (as_FirstSampleStart s)" using assms(2) by (simp add: time_Sub_def)
  then have "0 \<le> fdiv (float64 (time_Sub (as_LastSampleStart s) (as_FirstSampleStart s))) (float64 (hour * 24))"
    using float64_ge_0 [of "hour * 24"] float64_ge_0 unfolding fdiv_def
    by (intro fl_nonneg divide_nonneg_nonneg) (auto simp: hour_def)
  moreover have "0 \<le> fdiv (float64 (as_TotalSamplesCount s)) (60 * 24)"
    using float64_ge_0 [OF assms(1)] unfolding fdiv_def by (intro fl_nonneg divide_nonneg_nonneg) auto
  ultimately show ?thesis by (simp add: getConfidence_def Let_def)
qed

text \<open>A state of usage whose histograms come from the operations, with bucket boundaries far below the largest amount.\<close>

definition usage_ok :: "math_ops \<Rightarrow> HistogramOptions \<Rightarrow> HistogramOptions \<Rightarrow> AggregateContainerState \<Rightarrow> bool" where
  "usage_ok mo cpu mem s \<longleftrightarrow>
    hist_built mo cpu (as_AggregateCPUUsage s) \<and> hist_built mo mem (as_AggregateMemoryPeaks s) \<and>
    0 \<le> as_TotalSamplesCount s \<and> as_FirstSampleStart s \<le> as_LastSampleStart s"

definition options_fit :: "math_ops \<Rightarrow> HistogramOptions \<Rightarrow> HistogramOptions \<Rightarrow> bool" where
  "options_fit mo cpu mem \<longleftrightarrow> sizes_positive cpu \<and> sizes_positive mem \<and>
    0 < Epsilon cpu \<and> f64 (Epsilon cpu) = Epsilon cpu \<and> 0 < Epsilon mem \<and> f64 (Epsilon mem) = Epsilon mem \<and>
    room_on_top mo cpu 50000000000 \<and> room_on_top mo mem 50000000000000"

lemma percentile_estimations:
  assumes s: "usage_ok mo cpu mem s" and o: "options_fit mo cpu mem" "pow_grows mo" and pq: "p \<le> q" "p' \<le> q'"
  shows "\<exists>a b a' b'. percentile_estimation mo p p' s = Some [(ResourceCPU, a), (ResourceMemory, b)] \<and>
    percentile_estimation mo q q' s = Some [(ResourceCPU, a'), (ResourceMemory, b')] \<and>
    0 \<le> a \<and> a \<le> a' \<and> a' \<le> 50000000000000 \<and> 0 \<le> b \<and> b \<le> b' \<and> b' \<le> 50000000000000"
proof -
  have H: "hist_ok (dh_histogram (as_AggregateCPUUsage s))" "h_options (dh_histogram (as_AggregateCPUUsage s)) = cpu"
    "hist_ok (dh_histogram (as_AggregateMemoryPeaks s))" "h_options (dh_histogram (as_AggregateMemoryPeaks s)) = mem"
    using s o(1) hist_built_ok [of mo cpu "as_AggregateCPUUsage s"] hist_built_ok [of mo mem "as_AggregateMemoryPeaks s"]
    by (simp_all add: usage_ok_def options_fit_def dec_ok_def)
  have O: "sizes_positive cpu" "sizes_positive mem" "room_on_top mo cpu 50000000000" "room_on_top mo mem 50000000000000"
    using o(1) by (simp_all add: options_fit_def)
  obtain x y where x: "Dec_Percentile mo (as_AggregateCPUUsage s) p = Some x" "Dec_Percentile mo (as_AggregateCPUUsage s) q = Some y" "x \<le> y"
    using Percentile_mono [OF H(1) o(2) _ pq(1)] O(1) H(2) by (auto simp: Dec_Percentile_def)
  obtain z w where z: "Dec_Percentile mo (as_AggregateMemoryPeaks s) p' = Some z" "Dec_Percentile mo (as_AggregateMemoryPeaks s) q' = Some w" "z \<le> w"
    using Percentile_mono [OF H(3) o(2) _ pq(2)] O(2) H(4) by (auto simp: Dec_Percentile_def)
  have "y \<le> 50000000000" using Percentile_le_top [OF H(1) o(2)] H(2) O x(2) by (auto simp: Dec_Percentile_def)
  then have "fmul y 1000 \<le> of_int 50000000000000"
    using fl_mono [of "y * 1000" "of_int 50000000000000"] fl_of_int [of 50000000000000] by (simp add: fmul_def)
  then have y: "CPUAmountFromCores y \<le> 50000000000000"
    using amount_mono amount_of_int [of 50000000000000] unfolding CPUAmountFromCores_def by (simp add: MaxResourceAmount_def) (metis)
  have "w \<le> of_int 50000000000000" using Percentile_le_top [OF H(3) o(2)] H(4) O z(2) by (auto simp: Dec_Percentile_def)
  then have w: "MemoryAmountFromBytes w \<le> 50000000000000"
    using amount_mono amount_of_int [of 50000000000000] unfolding MemoryAmountFromBytes_def by (simp add: MaxResourceAmount_def) (metis)
  show ?thesis
    using x z y w CPUAmountFromCores_mono [OF x(3)] MemoryAmountFromBytes_mono [OF z(3)] amount_range
    by (simp add: percentile_estimation_def) (simp add: CPUAmountFromCores_def MemoryAmountFromBytes_def)
qed

lemma min_amount_max: "min_amount minResources r n = max n (gm_get0 minResources r)"
  by (simp add: min_amount_def max_def)

lemma ordered_amounts:
  assumes pow: "pow_confidence mo" and e: "0 < e" and c: "0 \<le> c" and m: "0 \<le> m" "m \<le> 1"
    and a: "0 \<le> l" "l \<le> t" "t \<le> u" "u \<le> 50000000000000" and g: "0 \<le> gm_get0 minResources r"
  shows "0 \<le> min_amount minResources r (confidence_amount mo e (- 2) c (margin_amount m l))"
    "min_amount minResources r (confidence_amount mo e (- 2) c (margin_amount m l)) \<le> min_amount minResources r (margin_amount m t)"
    "min_amount minResources r (margin_amount m t) \<le> min_amount minResources r (confidence_amount mo 1 1 c (margin_amount m u))"
proof -
  have M: "margin_amount m l \<le> margin_amount m t" "margin_amount m t \<le> margin_amount m u"
    using a m by (auto intro: margin_amount_mono)
  have R: "0 \<le> margin_amount m l" "margin_amount m l \<le> MaxResourceAmount" "0 \<le> margin_amount m u" "margin_amount m u \<le> MaxResourceAmount"
    using a m margin_amount_exact(2,3) [of l m] margin_amount_exact(2,3) [of u m] by auto
  have "confidence_amount mo e (- 2) c (margin_amount m l) \<le> margin_amount m t"
    using lower_amount(2) [OF pow e c R(1,2)] M(1) by linarith
  moreover have "margin_amount m t \<le> max 0 (confidence_amount mo 1 1 c (margin_amount m u))"
    using upper_amount [OF pow c R(3,4)] M(2) by linarith
  ultimately show "0 \<le> min_amount minResources r (confidence_amount mo e (- 2) c (margin_amount m l))"
    "min_amount minResources r (confidence_amount mo e (- 2) c (margin_amount m l)) \<le> min_amount minResources r (margin_amount m t)"
    "min_amount minResources r (margin_amount m t) \<le> min_amount minResources r (confidence_amount mo 1 1 c (margin_amount m u))"
    using lower_amount(1) [OF pow e c R(1,2)] g unfolding min_amount_max by linarith+
qed

lemma get_Filter: "gm_get (FilterControlledResources est rs) r = (if r \<in> set rs then gm_get est r else None)"
proof -
  let ?f = "\<lambda>r result. case gm_get est r of Some v \<Rightarrow> gm_put result r v | None \<Rightarrow> result"
  have "gm_get (fold ?f rs m) r = (if r \<in> set rs then (case gm_get est r of Some v \<Rightarrow> Some v | None \<Rightarrow> gm_get m r) else gm_get m r)" for m
    by (induction rs arbitrary: m) (auto split: option.splits)
  from this [of "[]"] show ?thesis by (simp add: FilterControlledResources_def split: option.splits)
qed

lemma pod_min_nonneg: "0 \<le> gm_get0 (pod_min_resources n) r"
  using amount_range by (auto simp: gm_get0_def pod_min_resources_def Let_def gm_get_def ScaleResource_def)

fun ordered_amount :: "int option \<Rightarrow> int option \<Rightarrow> int option \<Rightarrow> bool" where
  "ordered_amount (Some l) (Some t) (Some u) \<longleftrightarrow> 0 \<le> l \<and> l \<le> t \<and> t \<le> u"
| "ordered_amount None None None \<longleftrightarrow> True"
| "ordered_amount _ _ _ \<longleftrightarrow> False"

definition ordered_recommendation :: "RecommendedContainerResources \<Rightarrow> bool" where
  "ordered_recommendation x \<longleftrightarrow> (\<forall>r. ordered_amount (gm_get (rc_LowerBound x) r) (gm_get (rc_Target x) r) (gm_get (rc_UpperBound x) r))"

lemma ordered_filtered:
  assumes "0 \<le> l1" "l1 \<le> t1" "t1 \<le> u1" "0 \<le> l2" "l2 \<le> t2" "t2 \<le> u2"
  shows "ordered_recommendation \<lparr>rc_Target = FilterControlledResources [(ResourceCPU, t1), (ResourceMemory, t2)] rs,
    rc_LowerBound = FilterControlledResources [(ResourceCPU, l1), (ResourceMemory, l2)] rs,
    rc_UpperBound = FilterControlledResources [(ResourceCPU, u1), (ResourceMemory, u2)] rs\<rparr>"
proof -
  have "gm_get [(ResourceCPU, v), (ResourceMemory, w)] r = (if r = ResourceCPU then Some v else if r = ResourceMemory then Some w else None)"
    for v w :: int and r
    by (auto simp: gm_get_def)
  then show ?thesis using assms by (simp add: ordered_recommendation_def get_Filter)
qed

text \<open>The recommender with the smallest amounts of a pod.\<close>

definition with_min :: "Resources \<Rightarrow> podResourceRecommender \<Rightarrow> podResourceRecommender" where
  "with_min minResources r = \<lparr>pr_targetEstimator = minResourcesEstimator minResources (pr_targetEstimator r),
     pr_lowerBoundEstimator = minResourcesEstimator minResources (pr_lowerBoundEstimator r),
     pr_upperBoundEstimator = minResourcesEstimator minResources (pr_upperBoundEstimator r)\<rparr>"

lemma thousandth_pos: "0 < fl (1 / 1000)"
  by code_simp

lemma percentile_constants: "1 / 2 \<le> fl (9 / 10)" "fl (9 / 10) \<le> fl (19 / 20)"
  by code_simp+

lemma estimate_ordered:
  assumes s: "usage_ok mo cpu mem s" and o: "options_fit mo cpu mem" "pow_grows mo" "pow_confidence mo"
    and f: "0 \<le> m" "m \<le> 1" "1 / 2 \<le> q" "q \<le> fl (19 / 20)"
  shows "\<exists>x. estimateContainerResources mo (with_min (pod_min_resources n) (CreatePodResourceRecommender m q)) s = Some x \<and>
    ordered_recommendation x"
proof -
  obtain al bl a1 b1 where e: "percentile_estimation mo (1 / 2) (1 / 2) s = Some [(ResourceCPU, al), (ResourceMemory, bl)]"
    "percentile_estimation mo q (fl (9 / 10)) s = Some [(ResourceCPU, a1), (ResourceMemory, b1)]"
    "0 \<le> al" "al \<le> a1" "0 \<le> bl" "bl \<le> b1"
    using percentile_estimations [OF s o(1,2) f(3) percentile_constants(1)] by auto
  obtain au bu where u: "percentile_estimation mo (fl (19 / 20)) (fl (19 / 20)) s = Some [(ResourceCPU, au), (ResourceMemory, bu)]"
    "a1 \<le> au" "au \<le> 50000000000000" "b1 \<le> bu" "bu \<le> 50000000000000"
    using percentile_estimations [OF s o(1,2) f(4) percentile_constants(2)] e(2) by auto
  have c: "0 \<le> getConfidence s" using s by (intro getConfidence_nonneg) (auto simp: usage_ok_def)
  note A = ordered_amounts [OF o(3) thousandth_pos c f(1,2) e(3,4) u(2,3) pod_min_nonneg [of n ResourceCPU]]
  note B = ordered_amounts [OF o(3) thousandth_pos c f(1,2) e(5,6) u(4,5) pod_min_nonneg [of n ResourceMemory]]
  show ?thesis
    using ordered_filtered [OF A B]
    by (simp add: estimateContainerResources_def with_min_def CreatePodResourceRecommender_def e(1,2) u(1))
qed


definition sample_usage :: AggregateContainerState where
  "sample_usage = \<lparr>as_AggregateCPUUsage = sample_two, as_AggregateMemoryPeaks = sample_two, as_FirstSampleStart = 5, as_LastSampleStart = 5,
    as_TotalSamplesCount = 2, as_CreationTime = 0, as_LastRecommendation = None, as_IsUnderVPA = True, as_UpdateMode = None,
    as_ScalingMode = Some ''Auto'', as_ControlledResources = None\<rparr>"


text \<open>
  The recommendation of a container with no history: an upper bound of the largest amount, and a lower bound of 0.
\<close>

lemma no_history_amounts:
  assumes "pow_confidence mo"
  shows "0 < n \<Longrightarrow> n \<le> MaxResourceAmount \<Longrightarrow> confidence_amount mo 1 1 0 n = MaxResourceAmount"
    "confidence_amount mo 1 1 0 0 = - (2 ^ 63)" "confidence_amount mo (fl (1 / 1000)) (- 2) 0 n = 0"
  using thousandth_pos float64_exact [of n]
  by (auto simp: confidence_amount_def x_ScaleResource_def x_div_def float64_def fmul_def amount_cases int64_of_def)

end
