(* ===== verification/Spec2Isabelle.thy ===== *)
theory Spec2Isabelle
  imports Scheduler_Props Resource_Props Affinity_Props Policy_Config Usage_Props Estimators
begin

text \<open>
  Verification of cloud-prophet (Go): its scheduler, under \<^verbatim>\<open>src/scheduler\<close>, and the core of its recommender, under
  \<^verbatim>\<open>src/recommender\<close>.

  \<^bold>\<open>The program.\<close> The scheduler keeps a cache of nodes and pods (\<^verbatim>\<open>internal/cache\<close>), fed by informers
  (\<^verbatim>\<open>eventhandlers.go\<close>), and a queue of pods that wait (\<^verbatim>\<open>internal/queue\<close>) on top of a keyed heap (\<^verbatim>\<open>internal/heap\<close>).
  \<^verbatim>\<open>scheduler.go\<close> takes a pod from the queue, brings a snapshot of the cache up to date, lets \<^verbatim>\<open>core\<close> look for a node, assumes
  the pod there and binds it in a goroutine of its own. Which nodes pass and how they score is up to the plugins
  (\<^verbatim>\<open>framework/plugins\<close>), which \<^verbatim>\<open>framework/runtime\<close> runs at each extension point, and to HTTP services
  (\<^verbatim>\<open>core/extender.go\<close>). \<^verbatim>\<open>factory.go\<close> makes all of this from a provider or a policy. The recommender aggregates the usage
  of containers in histograms that forget old samples (\<^verbatim>\<open>recommender/util\<close>, \<^verbatim>\<open>recommender/model\<close>), saves them as checkpoints, and
  estimates from their percentiles what a container should get (\<^verbatim>\<open>recommender/logic\<close>).

  \<^bold>\<open>The base.\<close>

  \<^item> \<open>Go_Base\<close>: wrap-around integers, maps and slices of Go, and the lemmas all theories share.
  \<^item> \<open>Go_Float\<close>, \<open>Float_Range\<close>: \<open>float64\<close> as rationals rounded to 53 bits, and with gradual underflow; rounding is monotone,
    odd and idempotent, and its error is bounded.
  \<^item> \<open>Api_Types\<close>: the API objects, \<^verbatim>\<open>util\<close> and \<^verbatim>\<open>helper\<close>.

  \<^bold>\<open>Cache and queue.\<close>

  \<^item> \<open>Sched_Heap\<close>: \<^verbatim>\<open>internal/heap/heap.go\<close> over Go's \<^verbatim>\<open>container/heap\<close>. The locales \<open>keyed_queue\<close> and \<open>searchable_queue\<close>
    are the contract the scheduling queue relies on; the interpretations \<open>hq\<close> and \<open>hs\<close> show that the heap keeps it.
  \<^item> \<open>Node_Info\<close>: \<^verbatim>\<open>framework/v1alpha1/types.go\<close>, the resources, ports and pods of a node; the totals are those of its pods.
  \<^item> \<open>Node_Tree\<close>: \<^verbatim>\<open>internal/cache/node_tree.go\<close>, nodes by zone, with the locale \<open>name_iteration\<close> for what the cache relies on.
  \<^item> \<open>Sched_Cache\<close>, \<open>Cache_Invariant\<close>, \<open>Cache_Pods\<close>, \<open>Cache_Snapshot\<close>: \<^verbatim>\<open>internal/cache/cache.go\<close> and \<^verbatim>\<open>snapshot.go\<close>; the
    operations, the doubly linked list and the other invariants, the state machine of a pod, and the incremental snapshot.
  \<^item> \<open>Scheduling_Queue\<close>, \<open>Queue_Refinement\<close>, \<open>Nominated_Pods\<close>: \<^verbatim>\<open>internal/queue/scheduling_queue.go\<close>; the operations, the
    refinement of one map from pods to places, and the nominator.

  \<^bold>\<open>Framework and algorithm.\<close>

  \<^item> \<open>Plugin_Config\<close>: \<^verbatim>\<open>apis/config/types.go\<close>, which plugins a profile enables.
  \<^item> \<open>Framework_Types\<close>, \<open>Framework_Runtime\<close>, \<open>Framework_Props\<close>, \<open>Framework_Init\<close>: \<^verbatim>\<open>framework/v1alpha1/interface.go\<close>,
    \<^verbatim>\<open>cycle_state.go\<close> and \<^verbatim>\<open>framework/runtime\<close>; statuses, cycle states, waiting pods, the creation of a framework and the running
    of its plugins at every extension point.
  \<^item> \<open>Generic_Scheduler\<close>, \<open>Parallel_Search\<close>, \<open>Schedule_Props\<close>: \<^verbatim>\<open>core/generic_scheduler.go\<close>; the algorithm, the goroutines
    that check the nodes as a step machine with every interleaving, and a whole scheduling cycle on the cache's snapshot.
  \<^item> \<open>Scheduler_Loop\<close>, \<open>Event_Handlers\<close>, \<open>Scheduler_Props\<close>: \<^verbatim>\<open>scheduler.go\<close>, \<^verbatim>\<open>eventhandlers.go\<close>, \<^verbatim>\<open>profile\<close> and the error function
    of \<^verbatim>\<open>factory.go\<close>. A scheduling cycle and each stage of a binding goroutine are steps on the state of the scheduler, and
    informers and timers step in between. A cycle is a transaction, a binding cycle finishes or forgets its pod, and cache and
    queue stay well-formed in every reachable state.
  \<^item> \<open>Http_Extender\<close>: \<^verbatim>\<open>core/extender.go\<close>, with the services as a parameter; extenders only narrow down the nodes, and victims of
    preemption survive the way to a service and back.

  \<^bold>\<open>Plugins.\<close>

  \<^item> \<open>Plugin_State\<close>: the data and the arguments of the plugins.
  \<^item> \<open>Node_Resources\<close>, \<open>Resource_Props\<close>: \<^verbatim>\<open>noderesources\<close>; the filter admits a pod exactly when there is room, and scores
    stay in range (locale \<open>resource_score\<close>).
  \<^item> \<open>Node_Filters\<close>: ports, names, labels, taints, affinity, volumes and images of a node.
  \<^item> \<open>Topology_Spread\<close>, \<open>Spread_Props\<close>: \<^verbatim>\<open>podtopologyspread\<close>; the filter is the bound on the skew, and its two critical paths
    keep the minimum.
  \<^item> \<open>Inter_Pod_Affinity\<close>, \<open>Affinity_Props\<close>: \<^verbatim>\<open>interpodaffinity\<close>; the counters decide the terms, whatever the order of the
    parallel loops.
  \<^item> \<open>Default_Preemption\<close>: \<^verbatim>\<open>defaultpreemption\<close>; which node is picked, and that this program never preempts.
  \<^item> \<open>Service_Plugins\<close>: \<^verbatim>\<open>serviceaffinity\<close>, \<^verbatim>\<open>selectorspread\<close>, \<^verbatim>\<open>volumezone\<close> and \<^verbatim>\<open>defaultbinder\<close>.

  \<^bold>\<open>Configuration.\<close> \<open>Legacy_Registry\<close> and \<open>Policy_Config\<close>: \<^verbatim>\<open>legacy_registry.go\<close>, the policy types and their validation,
  \<^verbatim>\<open>algorithmprovider\<close> and the configurator of \<^verbatim>\<open>factory.go\<close>. Creating a scheduler gives an error or complete profiles; the filters
  of a policy are in the documented order, and the default policy is the default provider.

  \<^bold>\<open>Recommender.\<close>

  \<^item> \<open>Histogram\<close>, \<open>Histogram_Props\<close>: \<^verbatim>\<open>recommender/util\<close>. The ends of the non-empty buckets are exact after every operation,
    percentiles are total and monotone, the decay's exponent is bounded, and checkpoints keep total weight and proportions, with
    the one way in which they lose a histogram.
  \<^item> \<open>Usage_Model\<close>, \<open>Usage_Props\<close>: \<^verbatim>\<open>recommender/model\<close> without the cluster state; amounts, configuration, aggregated states and
    containers. Whatever the aggregator, a container leaves one peak per aggregation window in it, and an out-of-memory event
    raises the peak.
  \<^item> \<open>Estimators\<close>: \<^verbatim>\<open>recommender/logic\<close>. Recommendations never panic, and lower bound, target and upper bound are in order, also
    without history.

  \<^bold>\<open>Conventions.\<close> A Go struct is a record, a Go map an association list with distinct keys in the order in which the map is
  ranged over, a pointer that may be nil an option. An operation that can stop the process has an \<open>option\<close> result, with
  \<open>None\<close> for a panic. Loops that may not end are partial functions with the value \<open>None\<close> for not ending; that they end is
  proved. Every operation runs under its component's lock, so it is one step; a parallel loop is the list of its pieces in the
  order in which they take effect, and theorems hold for every such order. Integers wrap at their width.

  \<^bold>\<open>Parameters.\<close> Code outside of the repository is an argument of the definitions that use it: the API server's answers, label
  selectors (\<open>LabelSelectorAsSelector\<close>, \<open>Matches\<close>), \<open>MetaNamespaceKeyFunc\<close>, the answers of HTTP services with the JSON, HTTP
  and TLS packages in between, the clock, and \<^verbatim>\<open>math.Log\<close>, \<^verbatim>\<open>math.Pow\<close> and \<^verbatim>\<open>math.Exp2\<close>. What a theorem needs of them is a named
  hypothesis with the documented behaviour.

  \<^bold>\<open>Bounds.\<close> No loop has fuel. Hypotheses on sizes are explicit: numbers of pods and nodes below \<open>2\<^sup>3\<^sup>1\<close> or \<open>2\<^sup>6\<^sup>3\<close> where counters
  have that width, weights of histograms below \<open>2\<^sup>1\<^sup>0\<^sup>0\<^sup>0\<close>.

  \<^bold>\<open>Not modelled.\<close> Logging, metrics and traces; \<^verbatim>\<open>util/clock.go\<close>, which reads the system clock; the start of goroutines, informers
  and timers, and in \<^verbatim>\<open>scheduler.go\<close> the options, \<open>New\<close> and the reading of policy files; the table of in-tree plugins
  (\<^verbatim>\<open>plugins/registry.go\<close>); the conversion scheme and the generated deep copies of \<^verbatim>\<open>apis/config\<close>. Of the recommender: the
  cluster state (\<^verbatim>\<open>cluster.go\<close>, \<^verbatim>\<open>vpa.go\<close>), and the clients of the API server, Prometheus and watches that feed it. The learning
  experiments and tools under \<^verbatim>\<open>learn\<close>, \<^verbatim>\<open>profil\<close> and \<^verbatim>\<open>app\<close>, and packages that only declare data types.
\<close>

end
